(* ===== verification/Prelude.thy ===== *)
theory Prelude
  imports Complex_Main "HOL-Library.AList" "HOL-Library.Char_ord" "HOL-Library.List_Lexorder"
begin

text \<open>
  Shared vocabulary: Python strings, dictionaries and exceptions, and the generic lemmas
  the component theories use.

  A Python \<open>str\<close> is modelled by its UTF-8 encoding, a list of bytes (\<open>string\<close>).
  Encoding is injective and preserves concatenation, substring search and the code-point
  order, so \<open>+\<close>, \<open>in\<close>, \<open>startswith\<close>, \<open>replace\<close> and
  \<open>sorted\<close> are the list operations; \<open>len\<close> and slicing count code points and
  are \<open>py_len\<close> and \<open>py_take\<close> below. Case mapping and white space follow
  Python on ASCII only.

  A \<open>dict\<close> keeps insertion order: an association list, looked up with
  \<open>map_of\<close> and stored to with \<open>AList.update\<close>, which (as Python does) keeps the
  position of an existing key and appends a new one.
\<close>

named_theorems py_defs \<open>definitions of the string and dict primitives\<close>
named_theorems model_defs \<open>definitions a component's proofs unfold together\<close>

type_synonym 'v pydict = "(string \<times> 'v) list"

text \<open>Exceptions the modelled code raises or lets through.\<close>

datatype pyexn =
    KeyError string
  | TypeErr string
  | ValueErr string
  | LookupErr string
  | RuntimeErr string
  | AttributeErr string

section \<open>Strings\<close>

definition char_code :: "char \<Rightarrow> nat" where
  "char_code c = of_char c"

definition utf8_cont :: "char \<Rightarrow> bool" where
  "utf8_cont c \<longleftrightarrow> 128 \<le> char_code c \<and> char_code c < 192"

definition py_len :: "string \<Rightarrow> nat" where
  "py_len s = length (filter (\<lambda>c. \<not> utf8_cont c) s)"

text \<open>\<open>s[:n]\<close>: the bytes of the first \<open>n\<close> code points.\<close>

fun py_take :: "nat \<Rightarrow> string \<Rightarrow> string" where
  "py_take n [] = []"
| "py_take n (c # cs) =
     (if utf8_cont c then c # py_take n cs
      else if n = 0 then [] else c # py_take (n - 1) cs)"

definition starts_with :: "string \<Rightarrow> string \<Rightarrow> bool" where
  "starts_with p s \<longleftrightarrow> take (length p) s = p"

definition ends_with :: "string \<Rightarrow> string \<Rightarrow> bool" where
  "ends_with p s \<longleftrightarrow> length p \<le> length s \<and> drop (length s - length p) s = p"

text \<open>\<open>p in s\<close>\<close>

fun contains :: "string \<Rightarrow> string \<Rightarrow> bool" where
  "contains p [] \<longleftrightarrow> p = []"
| "contains p (c # cs) \<longleftrightarrow> starts_with p (c # cs) \<or> contains p cs"

text \<open>\<open>s.replace(p, r, 1)\<close>\<close>

fun replace_first :: "string \<Rightarrow> string \<Rightarrow> string \<Rightarrow> string" where
  "replace_first p r [] = (if p = [] then r else [])"
| "replace_first p r (c # cs) =
     (if starts_with p (c # cs) then r @ drop (length p) (c # cs)
      else c # replace_first p r cs)"

text \<open>\<open>s.count(p)\<close> for a non-empty \<open>p\<close>: non-overlapping occurrences, left to
  right; the first argument is the number of bytes of a match still to skip.\<close>

fun count_from :: "nat \<Rightarrow> string \<Rightarrow> string \<Rightarrow> nat" where
  "count_from k p [] = 0"
| "count_from (Suc k) p (c # cs) = count_from k p cs"
| "count_from 0 p (c # cs) =
     (if starts_with p (c # cs) then Suc (count_from (length p - 1) p cs)
      else count_from 0 p cs)"

definition count_sub :: "string \<Rightarrow> string \<Rightarrow> nat" where
  "count_sub p s = count_from 0 p s"

definition py_space :: "char \<Rightarrow> bool" where
  "py_space c \<longleftrightarrow> (9 \<le> char_code c \<and> char_code c \<le> 13) \<or> (28 \<le> char_code c \<and> char_code c \<le> 32)"

definition lstrip :: "string \<Rightarrow> string" where
  "lstrip s = dropWhile py_space s"

definition rstrip_by :: "(char \<Rightarrow> bool) \<Rightarrow> string \<Rightarrow> string" where
  "rstrip_by P s = rev (dropWhile P (rev s))"

definition strip :: "string \<Rightarrow> string" where
  "strip s = rstrip_by py_space (lstrip s)"

definition lower_char :: "char \<Rightarrow> char" where
  "lower_char c = (if 65 \<le> char_code c \<and> char_code c \<le> 90 then char_of (char_code c + 32) else c)"

definition lower :: "string \<Rightarrow> string" where
  "lower s = map lower_char s"

text \<open>\<open>len(s.split())\<close>: the number of maximal runs of non-space characters.\<close>

fun count_words_from :: "bool \<Rightarrow> string \<Rightarrow> nat" where
  "count_words_from inword [] = 0"
| "count_words_from inword (c # cs) =
     (if py_space c then count_words_from False cs
      else if inword then count_words_from True cs
      else Suc (count_words_from True cs))"

definition count_words :: "string \<Rightarrow> nat" where
  "count_words s = count_words_from False s"

text \<open>\<open>sep.join(xs)\<close>\<close>

fun join :: "string \<Rightarrow> string list \<Rightarrow> string" where
  "join sep [] = []"
| "join sep [x] = x"
| "join sep (x # xs) = x @ sep @ join sep xs"

text \<open>
  \<open>s.splitlines()\<close>: the boundaries of Python's \<open>str.splitlines\<close>, which are not only
  \<open>\n\<close> and \<open>\r\<close> but also VT, FF, FS, GS, RS and the code points U+0085, U+2028 and
  U+2029 (in UTF-8: C2 85, E2 80 A8, E2 80 A9). \<open>line_break s\<close> is the number of bytes
  of the boundary \<open>s\<close> starts with, 0 if it starts with none.
\<close>

definition line_break :: "string \<Rightarrow> nat" where
  "line_break s =
     (case s of
        [] \<Rightarrow> 0
      | c # cs \<Rightarrow>
          (if char_code c = 13 then (case cs of [] \<Rightarrow> 1 | d # _ \<Rightarrow> if char_code d = 10 then 2 else 1)
           else if char_code c \<in> {10, 11, 12, 28, 29, 30} then 1
           else if char_code c = 194 \<and> (cs \<noteq> [] \<and> char_code (hd cs) = 133) then 2
           else if char_code c = 226 \<and> 2 \<le> length cs \<and> char_code (cs ! 0) = 128 \<and>
                   char_code (cs ! 1) \<in> {168, 169} then 3
           else 0))"

text \<open>The accumulator is the current line, reversed; the first argument counts the bytes
  of a boundary still to skip. A final line is produced only when it is not empty.\<close>

fun splitlines_from :: "nat \<Rightarrow> string \<Rightarrow> string \<Rightarrow> string list" where
  "splitlines_from k acc [] = (if acc = [] then [] else [rev acc])"
| "splitlines_from (Suc k) acc (c # cs) = splitlines_from k acc cs"
| "splitlines_from 0 acc (c # cs) =
     (if line_break (c # cs) = 0 then splitlines_from 0 (c # acc) cs
      else rev acc # splitlines_from (line_break (c # cs) - 1) [] cs)"

definition splitlines :: "string \<Rightarrow> string list" where
  "splitlines s = splitlines_from 0 [] s"

text \<open>The text between slashes; the accumulator is the current part, reversed.\<close>

fun split_slash :: "string \<Rightarrow> string \<Rightarrow> string list" where
  "split_slash acc [] = [rev acc]"
| "split_slash acc (c # cs) =
     (if c = CHR ''/'' then rev acc # split_slash [] cs else split_slash (c # acc) cs)"

section \<open>Decimal numerals\<close>

definition digit_char :: "nat \<Rightarrow> char" where
  "digit_char d = char_of (48 + d)"

definition is_digit :: "char \<Rightarrow> bool" where
  "is_digit c \<longleftrightarrow> 48 \<le> char_code c \<and> char_code c \<le> 57"

fun show_nat :: "nat \<Rightarrow> string" where
  "show_nat n = (if n < 10 then [digit_char n] else show_nat (n div 10) @ [digit_char (n mod 10)])"

declare show_nat.simps [simp del]

definition show_int :: "int \<Rightarrow> string" where
  "show_int i = (if i < 0 then CHR ''-'' # show_nat (nat (- i)) else show_nat (nat i))"

definition read_nat :: "string \<Rightarrow> nat" where
  "read_nat s = foldl (\<lambda>n c. 10 * n + (char_code c - 48)) 0 s"

section \<open>Lists and dictionaries\<close>

text \<open>\<open>list(dict.fromkeys(xs))\<close>: first occurrences, in order.\<close>

fun dedup_from :: "'a list \<Rightarrow> 'a list \<Rightarrow> 'a list" where
  "dedup_from seen [] = []"
| "dedup_from seen (x # xs) =
     (if x \<in> set seen then dedup_from seen xs else x # dedup_from (x # seen) xs)"

definition dedup :: "'a list \<Rightarrow> 'a list" where
  "dedup xs = dedup_from [] xs"

definition dict_get :: "'v pydict \<Rightarrow> string \<Rightarrow> 'v option" where
  "dict_get d k = map_of d k"

definition dict_set :: "string \<Rightarrow> 'v \<Rightarrow> 'v pydict \<Rightarrow> 'v pydict" where
  "dict_set k v d = AList.update k v d"

text \<open>\<open>d.setdefault(k, v)\<close>\<close>

definition dict_setdefault :: "string \<Rightarrow> 'v \<Rightarrow> 'v pydict \<Rightarrow> 'v pydict" where
  "dict_setdefault k v d = (case map_of d k of None \<Rightarrow> d @ [(k, v)] | Some _ \<Rightarrow> d)"

text \<open>\<open>d[k] += 1\<close> on a \<open>defaultdict(int)\<close>\<close>

definition dict_incr :: "string \<Rightarrow> nat pydict \<Rightarrow> nat pydict" where
  "dict_incr k d = AList.update k (case map_of d k of None \<Rightarrow> 1 | Some n \<Rightarrow> Suc n) d"

text \<open>A list of fallible results: the values, or the first failure.\<close>

fun sequence :: "('e + 'a) list \<Rightarrow> 'e + 'a list" where
  "sequence [] = Inr []"
| "sequence (x # xs) =
     (case x of Inl e \<Rightarrow> Inl e
      | Inr a \<Rightarrow> (case sequence xs of Inl e \<Rightarrow> Inl e | Inr as \<Rightarrow> Inr (a # as)))"

text \<open>\<open>next(x for x in xs if P x)\<close>: HOL's \<open>find\<close>. Enumeration from 0.\<close>

definition enum :: "'a list \<Rightarrow> (nat \<times> 'a) list" where
  "enum xs = zip [0..<length xs] xs"

section \<open>Lemmas\<close>

declare contains.simps [simp del] replace_first.simps [simp del]

lemma char_code_inj [simp]: "char_code c = char_code d \<longleftrightarrow> c = d"
  by (simp add: char_code_def)

lemma char_code_less [simp]: "char_code c < 256"
  by (simp add: char_code_def)

lemma char_code_char_of [simp]: "n < 256 \<Longrightarrow> char_code (char_of n) = n"
  by (simp add: char_code_def)

lemma char_of_eq_iff: "n < 256 \<Longrightarrow> char_of n = c \<longleftrightarrow> char_code c = n"
  by (metis char_code_char_of char_code_inj)

lemma sequence_map_Inr [simp]: "sequence (map Inr xs) = Inr xs"
  by (induction xs) auto

lemma sequence_Inr_iff_map: "sequence xs = Inr ys \<longleftrightarrow> xs = map Inr ys"
proof
  show "sequence xs = Inr ys \<Longrightarrow> xs = map Inr ys"
    by (induction xs arbitrary: ys) (auto split: sum.splits)
qed simp

lemma sequence_map_rows:
  assumes "sequence (map f xs) = Inr ys"
  shows "length ys = length xs \<and> (\<forall>y \<in> set ys. \<exists>x \<in> set xs. f x = Inr y)"
proof -
  from assms have eq: "map f xs = map Inr ys" by (simp add: sequence_Inr_iff_map)
  then have "Inr ` set ys = f ` set xs" by (metis set_map)
  with eq show ?thesis by (metis imageE image_eqI length_map)
qed

lemma find_Some_mem: "find P xs = Some y \<Longrightarrow> y \<in> set xs \<and> P y"
  by (induction xs) (auto split: if_splits)

lemma find_filter:
  assumes "\<And>x. P x \<Longrightarrow> Q x"
  shows "find P (filter Q xs) = find P xs"
  using assms by (induction xs) auto

lemma find_append_Some: "find P xs = Some a \<Longrightarrow> find P (xs @ ys) = Some a"
  by (induction xs) (auto split: if_splits)

lemma map_proj_eq:
  assumes "\<And>x y. f x = f y \<longleftrightarrow> g x = g y"
  shows "map f xs = map f ys \<longleftrightarrow> map g xs = map g ys"
proof (induction xs arbitrary: ys)
  case (Cons x xs)
  then show ?case using assms by (cases ys) auto
qed auto

text \<open>"The first element that ..." over a list, split at the head.\<close>

lemma first_split_Cons:
  "(\<exists>pre post. q # xs = pre @ r # post \<and> list_all P pre \<and> R) \<longleftrightarrow>
     (q = r \<and> R) \<or> (P q \<and> (\<exists>pre post. xs = pre @ r # post \<and> list_all P pre \<and> R))"
  (is "?l \<longleftrightarrow> ?r")
proof
  assume ?l
  then obtain pre post where "q # xs = pre @ r # post" "list_all P pre" R by blast
  then show ?r by (cases pre) auto
next
  assume ?r
  then show ?l
  proof
    assume "q = r \<and> R"
    then have "q # xs = [] @ r # xs \<and> list_all P [] \<and> R" by simp
    then show ?l by blast
  next
    assume "P q \<and> (\<exists>pre post. xs = pre @ r # post \<and> list_all P pre \<and> R)"
    then obtain pre post where "q # xs = (q # pre) @ r # post \<and> list_all P (q # pre) \<and> R"
      by auto
    then show ?l by blast
  qed
qed

lemma contains_Nil [simp]: "contains [] s"
  by (cases s) (auto simp: contains.simps starts_with_def)

lemma contains_iff: "contains p s \<longleftrightarrow> (\<exists>u v. s = u @ p @ v)"
proof (induction s)
  case Nil
  then show ?case by (simp add: contains.simps)
next
  case (Cons c cs)
  have "starts_with p (c # cs) \<longleftrightarrow> (\<exists>v. c # cs = p @ v)"
    by (metis append_eq_conv_conj starts_with_def)
  moreover have "(\<exists>u v. c # cs = u @ p @ v) \<longleftrightarrow>
      (\<exists>v. c # cs = p @ v) \<or> (\<exists>u v. cs = u @ p @ v)"
    by (metis Cons_eq_append_conv append_Cons append_Nil)
  ultimately show ?case using Cons.IH by (simp add: contains.simps)
qed

lemma starts_with_iff: "starts_with p s \<longleftrightarrow> (\<exists>v. s = p @ v)"
  by (metis append_eq_conv_conj starts_with_def)

lemma replace_first_spec:
  "contains p s \<Longrightarrow>
     \<exists>u v. s = u @ p @ v \<and> replace_first p r s = u @ r @ v \<and>
       (\<forall>u' v'. s = u' @ p @ v' \<longrightarrow> length u \<le> length u')"
proof (induction s)
  case Nil
  then show ?case by (simp add: contains.simps replace_first.simps)
next
  case (Cons c cs)
  show ?case
  proof (cases "starts_with p (c # cs)")
    case True
    then have "c # cs = [] @ p @ drop (length p) (c # cs)"
      by (metis append_Nil append_take_drop_id starts_with_def)
    moreover have "replace_first p r (c # cs) = [] @ r @ drop (length p) (c # cs)"
      using True by (simp add: replace_first.simps)
    ultimately show ?thesis by (metis le0 list.size(3))
  next
    case False
    with Cons.prems have "contains p cs" by (simp add: contains.simps)
    then obtain u v where uv: "cs = u @ p @ v" "replace_first p r cs = u @ r @ v"
      "\<forall>u' v'. cs = u' @ p @ v' \<longrightarrow> length u \<le> length u'"
      using Cons.IH by blast
    have "length (c # u) \<le> length u'" if "c # cs = u' @ p @ v'" for u' v'
    proof (cases u')
      case Nil
      with that False show ?thesis by (auto simp: starts_with_iff)
    next
      case (Cons d u'')
      with that uv(3) show ?thesis by auto
    qed
    with uv(1,2) False show ?thesis
      by (intro exI [of _ "c # u"] exI [of _ v]) (auto simp: replace_first.simps)
  qed
qed

lemma dict_get_set [simp]: "dict_get (dict_set k v d) j = (if j = k then Some v else dict_get d j)"
  by (simp add: dict_get_def dict_set_def update_conv)

lemma distinct_dict_set: "distinct (map fst d) \<Longrightarrow> distinct (map fst (dict_set k v d))"
  by (simp add: dict_set_def distinct_update)

lemma set_dict_set: "fst ` set (dict_set k v d) = insert k (fst ` set d)"
  by (simp add: dict_set_def dom_update)

lemma map_of_setdefault [simp]:
  "map_of (dict_setdefault k v d) j =
     (if j = k \<and> map_of d k = None then Some v else map_of d j)"
  by (auto simp: dict_setdefault_def map_add_def split: option.splits)

lemma map_of_incr [simp]:
  "map_of (dict_incr k d) j =
     (if j = k then Some (case map_of d k of None \<Rightarrow> 1 | Some n \<Rightarrow> Suc n) else map_of d j)"
  by (simp add: dict_incr_def update_conv)

lemma set_dedup_from: "set (dedup_from seen xs) = set xs - set seen"
  by (induction seen xs rule: dedup_from.induct) auto

lemma set_dedup [simp]: "set (dedup xs) = set xs"
  by (simp add: dedup_def set_dedup_from)

lemma distinct_dedup_from: "distinct (dedup_from seen xs)"
  by (induction seen xs rule: dedup_from.induct) (auto simp: set_dedup_from)

lemma distinct_dedup [simp]: "distinct (dedup xs)"
  by (simp add: dedup_def distinct_dedup_from)

lemma length_enum [simp]: "length (enum xs) = length xs"
  by (simp add: enum_def)

text \<open>Numerals: \<open>read_nat\<close> inverts \<open>show_nat\<close>, so decimal printing is injective.\<close>

lemma is_digit_digit_char [simp]: "d < 10 \<Longrightarrow> is_digit (digit_char d)"
  by (simp add: is_digit_def digit_char_def)

lemma read_nat_snoc: "read_nat (s @ [c]) = 10 * read_nat s + (char_code c - 48)"
  by (simp add: read_nat_def)

lemma read_show_nat [simp]: "read_nat (show_nat n) = n"
proof (induction n rule: show_nat.induct)
  case (1 n)
  show ?case
  proof (cases "n < 10")
    case True
    then show ?thesis
      by (subst show_nat.simps) (simp add: read_nat_def digit_char_def)
  next
    case False
    then have "read_nat (show_nat n) = 10 * read_nat (show_nat (n div 10)) + n mod 10"
      by (subst show_nat.simps) (simp add: read_nat_snoc digit_char_def)
    with False "1.IH" show ?thesis by simp
  qed
qed

lemma show_nat_inj [simp]: "show_nat m = show_nat n \<longleftrightarrow> m = n"
  by (metis read_show_nat)

lemma show_nat_digits: "c \<in> set (show_nat n) \<Longrightarrow> is_digit c"
proof (induction n rule: show_nat.induct)
  case (1 n)
  show ?case
  proof (cases "n < 10")
    case True
    with "1.prems" show ?thesis by (subst (asm) show_nat.simps) simp
  next
    case False
    with "1.prems" have "c \<in> set (show_nat (n div 10)) \<or> c = digit_char (n mod 10)"
      by (subst (asm) show_nat.simps) auto
    with False "1.IH" show ?thesis by auto
  qed
qed

lemma show_nat_not_Nil [simp]: "show_nat n \<noteq> []"
  by (subst show_nat.simps) simp

text \<open>\<open>f"{n:03d}"\<close>\<close>

definition pad3 :: "nat \<Rightarrow> string" where
  "pad3 n = replicate (3 - length (show_nat n)) (CHR ''0'') @ show_nat n"

lemma foldl_zeros: "foldl (\<lambda>n c. 10 * n + (char_code c - 48)) 0 (replicate k (CHR ''0'')) = 0"
  by (induction k) (simp_all add: char_code_def)

lemma read_pad3: "read_nat (pad3 n) = n"
  using read_show_nat [of n] by (simp add: pad3_def read_nat_def foldl_zeros)

lemma pad3_digits: "c \<in> set (pad3 n) \<Longrightarrow> is_digit c"
  using show_nat_digits [of c n] by (auto simp: pad3_def is_digit_def char_code_def split: if_splits)

end
