(* ===== verification/Json_Canon.thy ===== *)
theory Json_Canon
  imports Prelude "HOL-Library.Multiset"
begin

text \<open>
  JSON values and their serialisation: \<open>packages/schema/aro_schema/digests.py\<close>, with the
  part of \<open>json.dumps\<close> it uses. \<open>canonical_json\<close> sorts object keys, so it
  identifies exactly the values that differ in key order only; that is what makes a digest of
  it a digest of the content. SHA-256 itself is a function parameter \<open>h\<close> of every definition
  that uses it: from the text to its hex digest. Values that occur in the modelled data are
  JSON values without floats (the \<open>default=str\<close> fallback of \<open>json.dumps\<close> is
  therefore never reached).
\<close>

datatype json =
    JNull
  | JBool bool
  | JInt int
  | JStr string
  | JList "json list"
  | JObj "(string \<times> json) list"

section \<open>Serialisation\<close>

definition hex_char :: "nat \<Rightarrow> char" where
  "hex_char d = (if d < 10 then char_of (48 + d) else char_of (87 + d))"

text \<open>The escapes of \<open>json.dumps(..., ensure_ascii=False)\<close>: quote, backslash, the five
  short escapes, and \<open>\u00XX\<close> for the other control characters.\<close>

definition json_esc :: "char \<Rightarrow> string" where
  "json_esc c =
     (let n = char_code c in
      if n = 34 then [CHR 0x5C, CHR 0x22]
      else if n = 92 then [CHR 0x5C, CHR 0x5C]
      else if n = 8 then [CHR 0x5C, CHR ''b'']
      else if n = 9 then [CHR 0x5C, CHR ''t'']
      else if n = 10 then [CHR 0x5C, CHR ''n'']
      else if n = 12 then [CHR 0x5C, CHR ''f'']
      else if n = 13 then [CHR 0x5C, CHR ''r'']
      else if n < 32 then [CHR 0x5C, CHR ''u'', CHR ''0'', CHR ''0'', hex_char (n div 16), hex_char (n mod 16)]
      else [c])"

definition json_chars :: "string \<Rightarrow> string" where
  "json_chars s = concat (map json_esc s)"

definition json_str :: "string \<Rightarrow> string" where
  "json_str s = CHR 0x22 # json_chars s @ [CHR 0x22]"

fun json_dumps :: "string \<Rightarrow> string \<Rightarrow> json \<Rightarrow> string" where
  "json_dumps isep ksep JNull = ''null''"
| "json_dumps isep ksep (JBool b) = (if b then ''true'' else ''false'')"
| "json_dumps isep ksep (JInt i) = show_int i"
| "json_dumps isep ksep (JStr s) = json_str s"
| "json_dumps isep ksep (JList xs) =
     CHR ''['' # join isep (map (json_dumps isep ksep) xs) @ '']''"
| "json_dumps isep ksep (JObj kvs) =
     CHR ''{'' # join isep (map (\<lambda>(k, v). json_str k @ ksep @ json_dumps isep ksep v) kvs) @ ''}''"

text \<open>\<open>sort_keys=True\<close>: the items of every object, nested ones included, in key order.\<close>

fun sort_keys :: "json \<Rightarrow> json" where
  "sort_keys (JList xs) = JList (map sort_keys xs)"
| "sort_keys (JObj kvs) = JObj (sort_key fst (map (\<lambda>(k, v). (k, sort_keys v)) kvs))"
| "sort_keys j = j"

definition canonical_json :: "json \<Rightarrow> string" where
  "canonical_json j = json_dumps '','' '':'' (sort_keys j)"

definition digest_text :: "(string \<Rightarrow> string) \<Rightarrow> string \<Rightarrow> string" where
  "digest_text h t = ''sha256:'' @ h t"

definition digest_obj :: "(string \<Rightarrow> string) \<Rightarrow> json \<Rightarrow> string" where
  "digest_obj h j = ''sha256:'' @ h (canonical_json j)"

section \<open>Serialisation is uniquely readable\<close>

text \<open>
  Every value's text followed by anything that does not continue a number determines the
  value and the rest. The proof follows the shape of a parser: one lemma per token, then
  induction on the value.
\<close>

fun hex_val :: "char \<Rightarrow> nat" where
  "hex_val c = (if char_code c < 58 then char_code c - 48 else char_code c - 87)"

definition unesc :: "string \<Rightarrow> (char \<times> string) option" where
  "unesc s =
     (case s of
        c # r \<Rightarrow>
          (if char_code c \<noteq> 92 then Some (c, r)
           else (case r of
              d # r' \<Rightarrow>
                (if d = CHR ''b'' then Some (char_of (8::nat), r')
                 else if d = CHR ''t'' then Some (char_of (9::nat), r')
                 else if d = CHR ''n'' then Some (char_of (10::nat), r')
                 else if d = CHR ''f'' then Some (char_of (12::nat), r')
                 else if d = CHR ''r'' then Some (char_of (13::nat), r')
                 else if d = CHR ''u'' then
                   (case r' of a # b # x # y # r'' \<Rightarrow> Some (char_of (16 * hex_val x + hex_val y), r'')
                    | _ \<Rightarrow> None)
                 else Some (d, r'))
            | [] \<Rightarrow> None))
      | [] \<Rightarrow> None)"

lemma hex_val_hex_char [simp]: "d < 16 \<Longrightarrow> hex_val (hex_char d) = d"
  by (auto simp: hex_char_def)

lemma char_of_code [simp]: "char_of (char_code c) = c"
  by (simp add: char_code_def)

lemma char_of_quote: "char_of (34::nat) = CHR 0x22" and char_of_backslash: "char_of (92::nat) = CHR 0x5C"
proof -
  have "char_code (CHR 0x22) = 34" "char_code (CHR 0x5C) = 92" by (simp_all add: char_code_def)
  then show "char_of (34::nat) = CHR 0x22" "char_of (92::nat) = CHR 0x5C"
    by (metis char_of_code)+
qed

lemma unesc_json_esc [simp]: "unesc (json_esc c @ u) = Some (c, u)"
proof -
  have c: "c = char_of (char_code c)" by simp
  have hex: "16 * (char_code c div 16) + char_code c mod 16 = char_code c" by simp
  consider "char_code c \<in> {34, 92, 8, 9, 10, 12, 13}"
    | "char_code c < 32" "char_code c \<notin> {34, 92, 8, 9, 10, 12, 13}"
    | "32 \<le> char_code c" "char_code c \<notin> {34, 92}" by fastforce
  then show ?thesis
  proof cases
    case 1
    then have "char_of (char_code c) \<in> (char_of :: nat \<Rightarrow> char) ` {34, 92, 8, 9, 10, 12, 13}"
      by (rule imageI)
    then show ?thesis
      by (auto simp: json_esc_def unesc_def char_code_def char_of_quote char_of_backslash)
  next
    case 2
    then have "json_esc c = [CHR 0x5C, CHR ''u'', CHR ''0'', CHR ''0'', hex_char (char_code c div 16), hex_char (char_code c mod 16)]"
      by (auto simp: json_esc_def Let_def)
    with 2 hex show ?thesis
      by (simp add: unesc_def char_code_def [of "CHR 0x5C"] del: hex_val.simps)
  next
    case 3
    then have "json_esc c = [c]" by (auto simp: json_esc_def Let_def)
    with 3 show ?thesis by (simp add: unesc_def)
  qed
qed

lemma json_esc_inject: "json_esc c @ u = json_esc d @ v \<longleftrightarrow> c = d \<and> u = v"
  by (metis option.inject prod.inject unesc_json_esc)

lemma json_esc_not_quote: "json_esc c @ u \<noteq> CHR 0x22 # v"
proof
  assume eq: "json_esc c @ u = CHR 0x22 # v"
  then have "unesc (json_esc c @ u) = Some (CHR 0x22, v)"
    by (simp add: unesc_def char_code_def)
  then have "c = CHR 0x22" by simp
  then have "json_esc c = [CHR 0x5C, CHR 0x22]" by (simp add: json_esc_def char_code_def)
  with eq show False by simp
qed

lemma json_chars_inject:
  "json_chars s @ CHR 0x22 # u = json_chars t @ CHR 0x22 # v \<longleftrightarrow> s = t \<and> u = v"
proof (induction s arbitrary: t)
  case Nil
  then show ?case
    by (cases t) (auto simp: json_chars_def dest: sym [THEN notE [OF json_esc_not_quote]])
next
  case (Cons c s)
  show ?case
  proof (cases t)
    case Nil
    then show ?thesis by (auto simp: json_chars_def json_esc_not_quote)
  next
    case (Cons d t')
    have "json_chars (c # s) @ CHR 0x22 # u = json_chars t @ CHR 0x22 # v \<longleftrightarrow>
      json_esc c @ (json_chars s @ CHR 0x22 # u) = json_esc d @ (json_chars t' @ CHR 0x22 # v)"
      by (simp add: Cons json_chars_def)
    then show ?thesis using Cons.IH [of t'] Cons by (auto simp: json_esc_inject)
  qed
qed

lemma json_str_inject [simp]: "json_str s @ u = json_str t @ v \<longleftrightarrow> s = t \<and> u = v"
  using json_chars_inject by (simp add: json_str_def)

text \<open>Text after a value never continues a number.\<close>

definition stops :: "string \<Rightarrow> bool" where
  "stops s \<longleftrightarrow> s = [] \<or> \<not> is_digit (hd s)"

lemma digits_split:
  assumes "list_all is_digit xs" "list_all is_digit ys" "stops u" "stops v" "xs @ u = ys @ v"
  shows "xs = ys \<and> u = v"
proof -
  have tw: "takeWhile is_digit (zs @ w) = zs" if "list_all is_digit zs" "stops w" for zs w
    using that by (induction zs) (cases w; simp add: stops_def)+
  from assms have "xs = ys" by (metis tw)
  with assms(5) show ?thesis by simp
qed

lemma show_nat_split:
  "stops u \<Longrightarrow> stops v \<Longrightarrow> show_nat m @ u = show_nat n @ v \<longleftrightarrow> m = n \<and> u = v"
  using digits_split [of "show_nat m" "show_nat n" u v] show_nat_digits
  by (auto simp: list_all_iff)

lemma hd_show_nat: "is_digit (hd (show_nat n))"
  using hd_in_set show_nat_not_Nil show_nat_digits by blast

lemma show_nat_not_minus: "show_nat n @ u \<noteq> CHR ''-'' # v"
  using hd_show_nat [of n] by (cases "show_nat n") (auto simp: is_digit_def char_code_def)

lemma show_int_split:
  "stops u \<Longrightarrow> stops v \<Longrightarrow> show_int i @ u = show_int j @ v \<longleftrightarrow> i = j \<and> u = v"
  using show_nat_not_minus [of "nat i" u] show_nat_not_minus [of "nat j" v, symmetric]
  by (auto simp: show_int_def show_nat_split)

lemma show_int_hd:
  "\<not> is_digit c \<Longrightarrow> c \<noteq> CHR ''-'' \<Longrightarrow> show_int i @ u \<noteq> c # v"
  using hd_show_nat [of "nat i"] by (cases "show_nat (nat i)") (auto simp: show_int_def)

abbreviation dumps :: "json \<Rightarrow> string" where
  "dumps \<equiv> json_dumps '','' '':''"

lemma join_Cons: "join sep (x # xs) = x @ concat (map (\<lambda>y. sep @ y) xs)"
  by (induction xs arbitrary: x) auto

lemma items_tail_inject:
  assumes "\<And>x y u v. x \<in> set xs \<Longrightarrow> stops u \<Longrightarrow> stops v \<Longrightarrow> f x @ u = f y @ v \<longleftrightarrow> x = y \<and> u = v"
    and "e \<noteq> CHR '',''" "\<not> is_digit e"
  shows "concat (map (\<lambda>y. '','' @ f y) xs) @ e # u = concat (map (\<lambda>y. '','' @ f y) ys) @ e # v
    \<longleftrightarrow> xs = ys \<and> u = v"
  using assms(1)
proof (induction xs arbitrary: ys)
  case Nil
  then show ?case using assms(2) by (cases ys) auto
next
  case (Cons x xs)
  have st: "stops (concat (map (\<lambda>y. '','' @ f y) zs) @ e # w)" for zs w
    using assms(3) by (cases zs) (auto simp: stops_def is_digit_def char_code_def)
  show ?case
  proof (cases ys)
    case Nil
    then show ?thesis using assms(2) by auto
  next
    case (Cons y ys')
    have "xs = ys' \<and> u = v \<longleftrightarrow>
        concat (map (\<lambda>y. '','' @ f y) xs) @ e # u = concat (map (\<lambda>y. '','' @ f y) ys') @ e # v"
      using Cons.IH [of ys'] Cons.prems by auto
    moreover have "f x @ (concat (map (\<lambda>y. '','' @ f y) xs) @ e # u)
          = f y @ (concat (map (\<lambda>y. '','' @ f y) ys') @ e # v) \<longleftrightarrow>
        x = y \<and> concat (map (\<lambda>y. '','' @ f y) xs) @ e # u
          = concat (map (\<lambda>y. '','' @ f y) ys') @ e # v"
      by (rule Cons.prems) (use st in auto)
    ultimately show ?thesis by (auto simp: Cons)
  qed
qed

lemma items_inject:
  assumes inj: "\<And>x y u v. x \<in> set xs \<Longrightarrow> stops u \<Longrightarrow> stops v \<Longrightarrow> f x @ u = f y @ v \<longleftrightarrow> x = y \<and> u = v"
    and e: "e \<noteq> CHR '',''" "\<not> is_digit e"
    and hd: "\<And>x u v. f x @ u \<noteq> e # v"
  shows "join '','' (map f xs) @ e # u = join '','' (map f ys) @ e # v \<longleftrightarrow> xs = ys \<and> u = v"
proof (cases xs)
  case Nil
  then show ?thesis using hd [symmetric] by (cases ys) (auto simp: join_Cons)
next
  case (Cons x xs')
  have st: "stops (concat (map (\<lambda>y. '','' @ f y) zs) @ e # w)" for zs w
    using e by (cases zs) (auto simp: stops_def is_digit_def char_code_def)
  show ?thesis
  proof (cases ys)
    case Nil
    then show ?thesis using hd Cons by (auto simp: join_Cons)
  next
    case (Cons y ys')
    note ys = this
    have "f x @ (concat (map (\<lambda>y. '','' @ f y) xs') @ e # u)
          = f y @ (concat (map (\<lambda>y. '','' @ f y) ys') @ e # v) \<longleftrightarrow>
        x = y \<and> concat (map (\<lambda>y. '','' @ f y) xs') @ e # u
          = concat (map (\<lambda>y. '','' @ f y) ys') @ e # v"
      by (rule inj) (use st \<open>xs = x # xs'\<close> in auto)
    also have "\<dots> \<longleftrightarrow> x = y \<and> xs' = ys' \<and> u = v"
      using items_tail_inject [of xs' f e u ys' v] inj e \<open>xs = x # xs'\<close> by auto
    finally show ?thesis
      by (simp add: \<open>xs = x # xs'\<close> ys join_Cons comp_def)
  qed
qed

text \<open>The first character of a value's text tells its constructor.\<close>

lemma dumps_hd:
  "dumps j @ u \<noteq> CHR '']'' # v"
  by (cases j) (auto simp: json_str_def show_int_hd is_digit_def char_code_def)

lemma stops_simps [simp]:
  "stops (CHR '','' # s)" "stops (CHR '']'' # s)" "stops (CHR ''}'' # s)" "stops []"
  by (auto simp: stops_def is_digit_def char_code_def)

lemma tag_neq:
  "CHR ''n'' # s \<noteq> show_int i @ u" "CHR ''t'' # s \<noteq> show_int i @ u" "CHR ''f'' # s \<noteq> show_int i @ u"
  "CHR ''['' # s \<noteq> show_int i @ u" "CHR ''{'' # s \<noteq> show_int i @ u" "CHR 0x22 # s \<noteq> show_int i @ u"
  using show_int_hd [symmetric] by (auto simp: is_digit_def char_code_def)

lemma dumps_split:
  "stops u \<Longrightarrow> stops v \<Longrightarrow> dumps a @ u = dumps b @ v \<longleftrightarrow> a = b \<and> u = v"
proof (induction a arbitrary: b u v)
  case JNull
  then show ?case by (cases b) (auto simp: json_str_def tag_neq)
next
  case (JBool x)
  then show ?case by (cases b) (auto simp: json_str_def tag_neq)
next
  case (JInt i)
  then show ?case
    by (cases b) (auto simp: json_str_def show_int_split tag_neq tag_neq [symmetric])
next
  case (JStr s)
  then show ?case
  proof (cases b)
    case (JStr t)
    then show ?thesis by simp
  qed (auto simp: json_str_def tag_neq)
next
  case (JList xs)
  show ?case
  proof (cases b)
    case (JList ys)
    have "join '','' (map dumps xs) @ CHR '']'' # u = join '','' (map dumps ys) @ CHR '']'' # v
        \<longleftrightarrow> xs = ys \<and> u = v"
      by (rule items_inject) (use JList.IH dumps_hd in \<open>auto simp: is_digit_def char_code_def\<close>)
    then show ?thesis by (simp add: JList)
  qed (use JList.prems in \<open>auto simp: json_str_def tag_neq\<close>)
next
  case (JObj kvs)
  let ?f = "\<lambda>(k, v). json_str k @ '':'' @ dumps v"
  have inj: "?f x @ u' = ?f y @ v' \<longleftrightarrow> x = y \<and> u' = v'"
    if "x \<in> set kvs" "stops u'" "stops v'" for x y u' v'
    using JObj.IH [of x "snd x"] that by (cases x; cases y) (auto simp: snds.simps)
  show ?case
  proof (cases b)
    case (JObj kvs')
    have "join '','' (map ?f kvs) @ CHR ''}'' # u = join '','' (map ?f kvs') @ CHR ''}'' # v
        \<longleftrightarrow> kvs = kvs' \<and> u = v"
      by (rule items_inject) (use inj in \<open>auto simp: json_str_def is_digit_def char_code_def\<close>)
    then show ?thesis by (simp add: JObj)
  qed (use JObj.prems in \<open>auto simp: json_str_def tag_neq\<close>)
qed

lemma dumps_inject: "dumps a = dumps b \<longleftrightarrow> a = b"
  using dumps_split [of "[]" "[]" a b] by simp

text \<open>
  two values have the same canonical text exactly when they agree after sorting object
  keys, so the text binds all of the content and nothing but the key order is lost.
\<close>

theorem canonical_json_eq_iff: "canonical_json a = canonical_json b \<longleftrightarrow> sort_keys a = sort_keys b"
  by (simp add: canonical_json_def dumps_inject)

text \<open>Equal digests mean equal content, or two different texts with the same SHA-256.\<close>

lemma digest_obj_eq:
  "digest_obj h a = digest_obj h b \<longleftrightarrow> h (canonical_json a) = h (canonical_json b)"
  by (simp add: digest_obj_def)

lemma sort_key_perm:
  assumes "mset xs = mset ys" "distinct (map fst xs)"
  shows "sort_key fst xs = sort_key fst (ys :: (string \<times> 'a) list)"
proof -
  have "inj_on fst (set xs)" using assms(2) by (simp add: distinct_map)
  then show ?thesis
    using assms(1) by (intro sort_key_inj_key_eq) auto
qed

text \<open>Insertion order of a dict does not reach the digest.\<close>

lemma canonical_json_order:
  assumes "mset xs = mset ys" "distinct (map fst xs)"
  shows "canonical_json (JObj xs) = canonical_json (JObj ys)"
proof -
  let ?g = "\<lambda>(k, v). (k, sort_keys v)"
  have "mset (map ?g xs) = mset (map ?g ys)" using assms(1) by simp
  moreover have "distinct (map fst (map ?g xs))"
    using assms(2) by (simp add: comp_def case_prod_unfold)
  ultimately have "sort_key fst (map ?g xs) = sort_key fst (map ?g ys)"
    by (rule sort_key_perm)
  then show ?thesis by (simp add: canonical_json_def)
qed

end
