(* ===== verification/Schema_Models.thy ===== *)
theory Schema_Models
  imports Json_Canon
begin

text \<open>
  The object model, \<open>packages/schema/aro_schema/models.py\<close>: its enumerations, one record
  per Pydantic class (field names carry the class's initials), the validators as boolean
  functions with the constructor that raises when they fail, and the derived run verdict.
  Datetimes are integers (microseconds since the epoch, UTC), durations rationals.
\<close>

section \<open>Enumerations\<close>

datatype run_status = Pending | Running | Completed | Failed
datatype step_kind = LlmCall | ToolCall | PolicyCheck | ArtifactWrite
datatype decision = Allow | Deny | NeedsReview
datatype severity = Low | Medium | High | Critical
datatype run_verdict = Trusted | ReviewRequired | Blocked
datatype att_decision = Accept | Amend | Reject
datatype goal_event_kind = Introduced | Reinforced | Replaced | Retired

fun run_status_value :: "run_status \<Rightarrow> string" where
  "run_status_value Pending = ''pending''"
| "run_status_value Running = ''running''"
| "run_status_value Completed = ''completed''"
| "run_status_value Failed = ''failed''"

fun decision_value :: "decision \<Rightarrow> string" where
  "decision_value Allow = ''allow''"
| "decision_value Deny = ''deny''"
| "decision_value NeedsReview = ''needs_review''"

fun severity_value :: "severity \<Rightarrow> string" where
  "severity_value Low = ''low''"
| "severity_value Medium = ''medium''"
| "severity_value High = ''high''"
| "severity_value Critical = ''critical''"

fun att_decision_value :: "att_decision \<Rightarrow> string" where
  "att_decision_value Accept = ''accept''"
| "att_decision_value Amend = ''amend''"
| "att_decision_value Reject = ''reject''"

definition EVIDENCE_ROLES :: "string list" where
  "EVIDENCE_ROLES = [''tool_output'', ''primary_artifact'', ''source_ledger'', ''claim_ledger'',
     ''evidence_verification'', ''policy_preflight'', ''policy_override_review'',
     ''trust_verdict'', ''runtime_trace'', ''file_inventory'', ''file_hash_check'',
     ''session_ledger'', ''audit_trail'', ''supporting_artifact'']"

section \<open>Records\<close>

record reviewer_seat =
  rs_id :: string
  rs_name :: string
  rs_role :: string
  rs_scope :: string

record goal =
  go_id :: string
  go_statement :: string
  go_constraints :: "string list"
  go_owner_seat_id :: string

record goal_event =
  ge_id :: string
  ge_goal_id :: string
  ge_kind :: goal_event_kind
  ge_at :: int
  ge_note :: string
  ge_replaced_by_goal_id :: "string option"

record task =
  ta_id :: string
  ta_title :: string
  ta_goal_id :: string
  ta_created_at :: int

record policy_decision =
  pd_id :: string
  pd_run_id :: string
  pd_step_index :: int
  pd_policy_id :: string
  pd_rule_id :: string
  pd_decision :: decision
  pd_reason :: string

record risk_signal =
  ri_id :: string
  ri_run_id :: string
  ri_step_index :: int
  ri_severity :: severity
  ri_category :: string
  ri_message :: string

record evidence_item =
  ev_id :: string
  ev_run_id :: string
  ev_step_index :: int
  ev_kind :: string
  ev_digest :: string
  ev_uri :: "string option"
  ev_description :: string

record artifact =
  ar_id :: string
  ar_run_id :: string
  ar_path :: string
  ar_digest :: string
  ar_media_type :: string
  ar_size_bytes :: nat

record step_record =
  sr_index :: int
  sr_kind :: step_kind
  sr_name :: string
  sr_args :: "json pydict"
  sr_allocated_to :: "string list"
  sr_supports_goal :: string
  sr_input_digest :: string
  sr_output_digest :: "string option"
  sr_output_preview :: "string option"
  sr_decision_id :: "string option"
  sr_started_at :: int
  sr_duration_ms :: rat
  sr_error :: "string option"

record coverage =
  co_captured :: "string list"
  co_blind_spots :: "string list"
  co_enforcement :: "string list"

record agent_run =
  run_id :: string
  run_task_id :: string
  run_agent :: string
  run_model :: "string option"
  run_status :: run_status
  run_started_at :: "int option"
  run_finished_at :: "int option"
  run_coverage :: "coverage option"
  run_reviewer_seats :: "reviewer_seat list"
  run_steps :: "step_record list"
  run_policy_decisions :: "policy_decision list"
  run_risk_signals :: "risk_signal list"
  run_evidence :: "evidence_item list"
  run_artifacts :: "artifact list"

record attestation =
  at_id :: string
  at_run_id :: string
  at_seat_id :: "string option"
  at_decision :: att_decision
  at_declared_scope :: string
  at_excluded_scope :: string
  at_labels :: "string list"
  at_proposed_by :: "string option"
  at_attested_by :: string
  at_note :: string
  at_subject_digest :: string
  at_attested_at :: int
  at_clears_decisions :: "string list"

record review_debt_item =
  rd_decision_id :: string
  rd_run_id :: string
  rd_step_index :: int
  rd_rule_id :: string
  rd_reason :: string
  rd_status :: string
  rd_cleared_by :: "string option"
  rd_attested_by :: "string option"
  rd_stale_attestation :: bool

record step_divergence =
  sd_step_index :: int
  sd_field :: string
  sd_recorded :: "string option"
  sd_replayed :: "string option"

record replay_report =
  rr_run_id :: string
  rr_replayed_at :: int
  rr_steps_compared :: nat
  rr_divergences :: "step_divergence list"

section \<open>Validators\<close>

text \<open>\<open>not value or not value.strip()\<close>\<close>

definition blank :: "string \<Rightarrow> bool" where
  "blank s \<longleftrightarrow> s = [] \<or> strip s = []"

definition mk_reviewer_seat :: "reviewer_seat \<Rightarrow> pyexn + reviewer_seat" where
  "mk_reviewer_seat s =
     (if blank (rs_id s) \<or> blank (rs_name s) \<or> blank (rs_role s) \<or> blank (rs_scope s)
      then Inl (ValueErr ''reviewer seat fields (id, name, role, scope) must not be blank'')
      else Inr s)"

definition mk_attestation :: "attestation \<Rightarrow> pyexn + attestation" where
  "mk_attestation a =
     (if blank (at_attested_by a) \<or> blank (at_declared_scope a)
      then Inl (ValueErr ''must not be blank'') else Inr a)"

text \<open>\<open>repr\<close> of a string without quotes, backslashes or control characters.\<close>

definition py_repr :: "string \<Rightarrow> string" where
  "py_repr s = CHR 0x27 # s @ [CHR 0x27]"

definition first_foreign :: "string \<Rightarrow> string list \<Rightarrow> string option" where
  "first_foreign rid ids = find (\<lambda>i. i \<noteq> rid) ids"

definition foreign_error :: "string \<Rightarrow> string \<Rightarrow> string \<Rightarrow> pyexn" where
  "foreign_error name oid rid =
     ValueErr (name @ '' entry has run_id '' @ py_repr oid @ '' != run id '' @ py_repr rid)"

text \<open>\<open>AgentRun._identity_invariants\<close>, the checks in the order the validator makes them.\<close>

definition identity_invariants :: "agent_run \<Rightarrow> pyexn + agent_run" where
  "identity_invariants run =
     (if \<not> distinct (map rs_id (run_reviewer_seats run))
      then Inl (ValueErr ''duplicate reviewer seat ids in run'')
      else if \<not> distinct (map pd_id (run_policy_decisions run))
      then Inl (ValueErr ''duplicate policy decision ids in run'')
      else case first_foreign (run_id run) (map pd_run_id (run_policy_decisions run)) of
        Some i \<Rightarrow> Inl (foreign_error ''policy_decisions'' i (run_id run))
      | None \<Rightarrow>
      (case first_foreign (run_id run) (map ri_run_id (run_risk_signals run)) of
        Some i \<Rightarrow> Inl (foreign_error ''risk_signals'' i (run_id run))
      | None \<Rightarrow>
      (case first_foreign (run_id run) (map ev_run_id (run_evidence run)) of
        Some i \<Rightarrow> Inl (foreign_error ''evidence'' i (run_id run))
      | None \<Rightarrow>
      (case first_foreign (run_id run) (map ar_run_id (run_artifacts run)) of
        Some i \<Rightarrow> Inl (foreign_error ''artifacts'' i (run_id run))
      | None \<Rightarrow> Inr run))))"

text \<open>What a valid run promises: ids of seats and decisions unique, no sub-object of
  another run.\<close>

definition run_valid :: "agent_run \<Rightarrow> bool" where
  "run_valid run \<longleftrightarrow>
     distinct (map rs_id (run_reviewer_seats run)) \<and>
     distinct (map pd_id (run_policy_decisions run)) \<and>
     list_all (\<lambda>d. pd_run_id d = run_id run) (run_policy_decisions run) \<and>
     list_all (\<lambda>s. ri_run_id s = run_id run) (run_risk_signals run) \<and>
     list_all (\<lambda>e. ev_run_id e = run_id run) (run_evidence run) \<and>
     list_all (\<lambda>a. ar_run_id a = run_id run) (run_artifacts run)"

section \<open>Derived values\<close>

text \<open>\<open>AgentRun.verdict\<close>\<close>

definition verdict :: "agent_run \<Rightarrow> run_verdict" where
  "verdict run =
     (let decisions = set (map pd_decision (run_policy_decisions run)) in
      if Deny \<in> decisions then Blocked
      else if NeedsReview \<in> decisions then ReviewRequired
      else Trusted)"

text \<open>\<open>ReplayReport.ok\<close>\<close>

definition report_ok :: "replay_report \<Rightarrow> bool" where
  "report_ok r \<longleftrightarrow> rr_divergences r = []"

text \<open>Verdicts are ordered by how much they restrict.\<close>

fun verdict_rank :: "run_verdict \<Rightarrow> nat" where
  "verdict_rank Trusted = 0"
| "verdict_rank ReviewRequired = 1"
| "verdict_rank Blocked = 2"

instantiation run_verdict :: linorder
begin

definition less_eq_run_verdict :: "run_verdict \<Rightarrow> run_verdict \<Rightarrow> bool" where
  "less_eq_run_verdict u v \<longleftrightarrow> verdict_rank u \<le> verdict_rank v"

definition less_run_verdict :: "run_verdict \<Rightarrow> run_verdict \<Rightarrow> bool" where
  "less_run_verdict u v \<longleftrightarrow> verdict_rank u < verdict_rank v"

instance
proof
  fix u v :: run_verdict
  show "u \<le> v \<Longrightarrow> v \<le> u \<Longrightarrow> u = v"
    by (cases u; cases v) (auto simp: less_eq_run_verdict_def)
qed (auto simp: less_eq_run_verdict_def less_run_verdict_def)

end

text \<open>The severity a single decision contributes.\<close>

fun decision_verdict :: "decision \<Rightarrow> run_verdict" where
  "decision_verdict Allow = Trusted"
| "decision_verdict NeedsReview = ReviewRequired"
| "decision_verdict Deny = Blocked"

section \<open>Lemmas\<close>

lemma first_foreign_None: "first_foreign rid ids = None \<longleftrightarrow> list_all (\<lambda>i. i = rid) ids"
  by (auto simp: first_foreign_def find_None_iff list_all_iff)

lemma first_foreign_map:
  "first_foreign rid (map f xs) = None \<longleftrightarrow> list_all (\<lambda>d. f d = rid) xs"
  by (simp add: first_foreign_None list_all_iff)

lemma identity_invariants_iff: "identity_invariants run = Inr r \<longleftrightarrow> r = run \<and> run_valid run"
  by (auto simp: identity_invariants_def run_valid_def first_foreign_map [symmetric]
      split: option.splits)

lemma identity_invariants_ok [simp]: "run_valid run \<Longrightarrow> identity_invariants run = Inr run"
  by (simp add: identity_invariants_iff)

lemma verdict_le_iff:
  "verdict run \<le> v \<longleftrightarrow> (\<forall>d\<in>set (run_policy_decisions run). decision_verdict (pd_decision d) \<le> v)"
proof -
  have "decision_verdict d \<le> v \<longleftrightarrow> v = Blocked \<or> (d = NeedsReview \<and> v = ReviewRequired) \<or> d = Allow" for d
    by (cases d; cases v) (auto simp: less_eq_run_verdict_def)
  moreover have "d = Allow \<or> d = Deny \<or> d = NeedsReview" for d by (cases d) auto
  ultimately show ?thesis
    by (cases v; force simp: verdict_def Let_def less_eq_run_verdict_def)
qed

text \<open>
  the verdict is the maximum of what the run's decisions contribute, so recording one
  more decision can only keep or raise it, and the order of the decisions does not matter.
\<close>

theorem verdict_fold_max:
  "verdict run = fold max (map (decision_verdict \<circ> pd_decision) (run_policy_decisions run)) Trusted"
proof (rule antisym)
  let ?xs = "map (decision_verdict \<circ> pd_decision) (run_policy_decisions run)"
  have fold: "fold max xs a \<le> v \<longleftrightarrow> a \<le> v \<and> (\<forall>x\<in>set xs. x \<le> v)" for xs and a v :: run_verdict
    by (induction xs arbitrary: a) auto
  have bot: "Trusted \<le> v" for v by (simp add: less_eq_run_verdict_def)
  show "verdict run \<le> fold max ?xs Trusted"
    using fold [of ?xs Trusted "fold max ?xs Trusted"] by (auto simp: verdict_le_iff)
  show "fold max ?xs Trusted \<le> verdict run"
    using verdict_le_iff [of run "verdict run"] by (auto simp: fold bot)
qed

end
