(* ===== verification/Script_Model.thy ===== *)
theory Script_Model
  imports Schema_Models
begin

text \<open>
  Scripted run definitions, \<open>packages/runtime/aro_runtime/script.py\<close>, with the validator
  that makes a script structurally accountable.
\<close>

record scripted_step =
  ss_tool :: string
  ss_args :: "json pydict"
  ss_allocated_to :: "string list"
  ss_supports_goal :: string

record script =
  sc_task :: task
  sc_goal :: goal
  sc_reviewer_seats :: "reviewer_seat list"
  sc_agent :: string
  sc_model :: "string option"
  sc_steps :: "scripted_step list"

text \<open>\<open>repr\<close> of a list of such strings.\<close>

definition py_repr_list :: "string list \<Rightarrow> string" where
  "py_repr_list xs = CHR ''['' # join '', '' (map py_repr xs) @ '']''"

text \<open>\<open>Script._owner_seat_is_declared\<close>\<close>

definition owner_seat_is_declared :: "script \<Rightarrow> pyexn + script" where
  "owner_seat_is_declared s =
     (let ids = map rs_id (sc_reviewer_seats s) in
      if \<not> distinct ids
      then Inl (ValueErr (''duplicate reviewer seat ids: '' @
        py_repr_list (sort (dedup (filter (\<lambda>sid. 1 < count_list ids sid) ids)))))
      else if go_owner_seat_id (sc_goal s) \<notin> set ids
      then Inl (ValueErr (''goal.owner_seat_id '' @ py_repr (go_owner_seat_id (sc_goal s)) @
        '' is not a declared reviewer seat (declared: '' @ py_repr_list (sort ids) @ '')''))
      else Inr s)"

text \<open>Parsing a script validates its seats first, then the script.\<close>

definition mk_script :: "script \<Rightarrow> pyexn + script" where
  "mk_script s =
     (case sequence (map mk_reviewer_seat (sc_reviewer_seats s)) of
        Inl e \<Rightarrow> Inl e
      | Inr _ \<Rightarrow> owner_seat_is_declared s)"

definition script_valid :: "script \<Rightarrow> bool" where
  "script_valid s \<longleftrightarrow>
     distinct (map rs_id (sc_reviewer_seats s)) \<and>
     list_all (\<lambda>r. \<not> blank (rs_id r) \<and> \<not> blank (rs_name r) \<and> \<not> blank (rs_role r) \<and> \<not> blank (rs_scope r))
       (sc_reviewer_seats s) \<and>
     (\<exists>seat\<in>set (sc_reviewer_seats s). rs_id seat = go_owner_seat_id (sc_goal s))"

lemma sequence_Inr_iff:
  "(\<exists>ys. sequence (map f xs) = Inr ys) \<longleftrightarrow> (\<forall>x\<in>set xs. \<exists>y. f x = Inr y)"
  by (induction xs) (auto split: sum.splits)

lemma mk_reviewer_seat_iff:
  "(\<exists>y. mk_reviewer_seat r = Inr y) \<longleftrightarrow>
     \<not> blank (rs_id r) \<and> \<not> blank (rs_name r) \<and> \<not> blank (rs_role r) \<and> \<not> blank (rs_scope r)"
  by (auto simp: mk_reviewer_seat_def)

text \<open>
  structural accountability. A script is accepted, unchanged, exactly when its seat ids are
  unique, no seat field is blank, and the goal's owner is one of its declared seats.
\<close>

theorem script_accepted_iff: "mk_script s = Inr t \<longleftrightarrow> t = s \<and> script_valid s"
proof -
  have owner: "owner_seat_is_declared s = Inr t \<longleftrightarrow>
      t = s \<and> distinct (map rs_id (sc_reviewer_seats s)) \<and>
      (\<exists>seat\<in>set (sc_reviewer_seats s). rs_id seat = go_owner_seat_id (sc_goal s))"
    by (auto simp: owner_seat_is_declared_def Let_def image_iff)
  show ?thesis
  proof (cases "sequence (map mk_reviewer_seat (sc_reviewer_seats s))")
    case (Inl e)
    then have "\<not> (\<exists>ys. sequence (map mk_reviewer_seat (sc_reviewer_seats s)) = Inr ys)" by simp
    then have "\<not> script_valid s"
      unfolding sequence_Inr_iff mk_reviewer_seat_iff script_valid_def list_all_iff by blast
    with Inl show ?thesis by (simp add: mk_script_def)
  next
    case (Inr ys)
    then have "\<exists>ys. sequence (map mk_reviewer_seat (sc_reviewer_seats s)) = Inr ys" by blast
    then have "\<forall>r\<in>set (sc_reviewer_seats s). \<not> blank (rs_id r) \<and> \<not> blank (rs_name r) \<and>
        \<not> blank (rs_role r) \<and> \<not> blank (rs_scope r)"
      unfolding sequence_Inr_iff mk_reviewer_seat_iff .
    with Inr owner show ?thesis by (auto simp: mk_script_def script_valid_def list_all_iff)
  qed
qed

end
