(* ===== verification/Url_Parse.thy ===== *)
theory Url_Parse
  imports Prelude
begin

text \<open>
  What the runtime uses of the standard library's \<open>urllib.parse.urlparse\<close>: the network
  location and the path. The splitting is CPython's \<open>urlsplit\<close> and
  \<open>_splitparams\<close>; its two extra checks, of the address inside a bracketed host and of
  non-ASCII network locations under NFKC, are left out.
\<close>

definition ascii_alpha :: "char \<Rightarrow> bool" where
  "ascii_alpha c \<longleftrightarrow> (65 \<le> char_code c \<and> char_code c \<le> 90) \<or> (97 \<le> char_code c \<and> char_code c \<le> 122)"

definition scheme_char :: "char \<Rightarrow> bool" where
  "scheme_char c \<longleftrightarrow> ascii_alpha c \<or> is_digit c \<or> c \<in> {CHR ''+'', CHR ''-'', CHR ''.''}"

definition before :: "(char \<Rightarrow> bool) \<Rightarrow> string \<Rightarrow> string" where
  "before P s = takeWhile (\<lambda>c. \<not> P c) s"

definition from_first :: "(char \<Rightarrow> bool) \<Rightarrow> string \<Rightarrow> string" where
  "from_first P s = dropWhile (\<lambda>c. \<not> P c) s"

definition url_clean :: "string \<Rightarrow> string" where
  "url_clean s = filter (\<lambda>c. char_code c \<notin> {9, 10, 13}) (dropWhile (\<lambda>c. char_code c \<le> 32) s)"

definition url_scheme :: "string \<Rightarrow> string \<times> string" where
  "url_scheme u =
     (let s = before (\<lambda>c. c = CHR '':'') u in
      if length s < length u \<and> s \<noteq> [] \<and> ascii_alpha (hd s) \<and> list_all scheme_char s
      then (lower s, drop (Suc (length s)) u) else ([], u))"

definition uses_params :: "string list" where
  "uses_params = [[], ''ftp'', ''hdl'', ''prospero'', ''http'', ''https'', ''shttp'', ''rtsp'',
     ''rtsps'', ''rtspu'', ''sip'', ''sips'', ''mms'', ''sftp'', ''tel'']"

text \<open>The path without its \<open>;params\<close>, which only the last segment has.\<close>

definition cut_params :: "string \<Rightarrow> string" where
  "cut_params p =
     (let seg = rev (before (\<lambda>c. c = CHR ''/'') (rev p));
          dirs = take (length p - length seg) p
      in dirs @ before (\<lambda>c. c = CHR '';'') seg)"

definition urlparse :: "string \<Rightarrow> pyexn + (string \<times> string)" where
  "urlparse raw =
     (let (scheme, u) = url_scheme (url_clean raw);
          has_netloc = starts_with ''//'' u;
          delim = (\<lambda>c. c \<in> {CHR ''/'', CHR ''?'', CHR ''#''});
          netloc = (if has_netloc then before delim (drop 2 u) else []);
          rest = (if has_netloc then from_first delim (drop 2 u) else u);
          path = before (\<lambda>c. c = CHR ''?'') (before (\<lambda>c. c = CHR ''#'') rest)
      in if (CHR ''['' \<in> set netloc) \<noteq> (CHR '']'' \<in> set netloc)
         then Inl (ValueErr ''Invalid IPv6 URL'')
         else Inr (netloc, if scheme \<in> set uses_params then cut_params path else path))"

lemma urlparse_example:
  "urlparse ''https://docs.example.com/a/b;v=1?q#f'' = Inr (''docs.example.com'', ''/a/b'')"
  by code_simp

lemma set_before: "c \<in> set (before P s) \<Longrightarrow> \<not> P c"
  by (auto simp: before_def dest: set_takeWhileD)

text \<open>The network location never contains a path, query or fragment delimiter, so comparing it
  with a list of hosts compares exactly the part before the path.\<close>

lemma netloc_delims:
  "urlparse raw = Inr (netloc, path) \<Longrightarrow>
     CHR ''/'' \<notin> set netloc \<and> CHR ''?'' \<notin> set netloc \<and> CHR ''#'' \<notin> set netloc"
  by (auto simp: urlparse_def Let_def split: prod.splits if_splits dest!: set_before)

end
