(* ===== verification/Policy_Engine.thy ===== *)
theory Policy_Engine
  imports Schema_Models Url_Parse
begin

text \<open>
  The policy engine, \<open>packages/runtime/aro_runtime/policy.py\<close>. The regular-expression
  search of a rule is user data interpreted by Python's \<open>re\<close>: it is the parameter
  \<open>re_search\<close> (pattern, text), \<open>None\<close> when the pattern does not compile.
\<close>

record policy_rule =
  ru_id :: string
  ru_description :: string
  ru_tool :: "string option"
  ru_args_regex :: "string option"
  ru_domain_not_in :: "string list option"
  ru_action :: decision
  ru_severity :: severity
  ru_category :: string

record policy =
  po_id :: string
  po_description :: string
  po_default :: decision
  po_rules :: "policy_rule list"

type_synonym regex_search = "string \<Rightarrow> string \<Rightarrow> bool option"

text \<open>One pass of the rule loop: does the rule reach its \<open>return\<close>, or one of the
  \<open>continue\<close>s?\<close>

definition domain_matches :: "string list option \<Rightarrow> json pydict \<Rightarrow> pyexn + bool" where
  "domain_matches domains args =
     (case domains of
        None \<Rightarrow> Inr True
      | Some ds \<Rightarrow>
          (case dict_get args ''url'' of
             Some (JStr url) \<Rightarrow>
               (case urlparse url of Inl e \<Rightarrow> Inl e | Inr (host, _) \<Rightarrow> Inr (host \<notin> set ds))
           | _ \<Rightarrow> Inr False))"

definition rule_matches :: "regex_search \<Rightarrow> policy_rule \<Rightarrow> string \<Rightarrow> json pydict \<Rightarrow> pyexn + bool" where
  "rule_matches re_search rule tool args =
     (if ru_tool rule \<noteq> None \<and> ru_tool rule \<noteq> Some tool then Inr False
      else case ru_args_regex rule of
        None \<Rightarrow> domain_matches (ru_domain_not_in rule) args
      | Some rx \<Rightarrow>
          (case re_search rx (canonical_json (JObj args)) of
             None \<Rightarrow> Inl (RuntimeErr ''re.error'')
           | Some False \<Rightarrow> Inr False
           | Some True \<Rightarrow> domain_matches (ru_domain_not_in rule) args))"

definition rule_reason :: "policy_rule \<Rightarrow> string \<Rightarrow> string" where
  "rule_reason rule tool =
     (if ru_description rule \<noteq> [] then ru_description rule
      else ''rule '' @ ru_id rule @ '' matched tool '' @ tool)"

fun evaluate_rules :: "regex_search \<Rightarrow> decision \<Rightarrow> policy_rule list \<Rightarrow> string \<Rightarrow> json pydict \<Rightarrow>
    pyexn + (decision \<times> policy_rule option \<times> string)" where
  "evaluate_rules re_search dflt [] tool args =
     Inr (dflt, None, ''no rule matched; bundle default applied'')"
| "evaluate_rules re_search dflt (rule # rules) tool args =
     (case rule_matches re_search rule tool args of
        Inl e \<Rightarrow> Inl e
      | Inr False \<Rightarrow> evaluate_rules re_search dflt rules tool args
      | Inr True \<Rightarrow> Inr (ru_action rule, Some rule, rule_reason rule tool))"

definition evaluate :: "regex_search \<Rightarrow> policy \<Rightarrow> string \<Rightarrow> json pydict \<Rightarrow>
    pyexn + (decision \<times> policy_rule option \<times> string)" where
  "evaluate re_search pol tool args =
     evaluate_rules re_search (po_default pol) (po_rules pol) tool args"

section \<open>Lemmas\<close>

lemma evaluate_rules_Some:
  "evaluate_rules rs dflt rules tool args = Inr (d, Some r, reason) \<longleftrightarrow>
     (\<exists>pre post. rules = pre @ r # post \<and>
        list_all (\<lambda>q. rule_matches rs q tool args = Inr False) pre \<and>
        rule_matches rs r tool args = Inr True \<and>
        d = ru_action r \<and> reason = rule_reason r tool)"
proof (induction rules)
  case Nil
  then show ?case by simp
next
  case (Cons q rules)
  show ?case
    unfolding first_split_Cons Cons.IH [symmetric]
    by (auto split: sum.splits bool.splits)
qed

lemma evaluate_rules_None:
  "evaluate_rules rs dflt rules tool args = Inr (d, None, reason) \<longleftrightarrow>
     list_all (\<lambda>q. rule_matches rs q tool args = Inr False) rules \<and> d = dflt \<and>
     reason = ''no rule matched; bundle default applied''"
  by (induction rules) (auto split: sum.splits bool.splits)

lemma evaluate_rule_action: "evaluate rs pol tool args = Inr (d, Some r, reason) \<Longrightarrow> d = ru_action r"
  by (auto simp: evaluate_def evaluate_rules_Some)

section \<open>Properties\<close>

text \<open>
  first match wins. The engine returns a rule exactly when that rule matches and no earlier
  rule does, with the rule's action and its description (or the generated reason) as the result;
  it falls through to the bundle default exactly when no rule matches.
\<close>

theorem evaluate_first_match:
  "(evaluate rs pol tool args = Inr (d, Some r, reason) \<longleftrightarrow>
     (\<exists>pre post. po_rules pol = pre @ r # post \<and>
        list_all (\<lambda>q. rule_matches rs q tool args = Inr False) pre \<and>
        rule_matches rs r tool args = Inr True \<and>
        d = ru_action r \<and> reason = rule_reason r tool)) \<and>
   (evaluate rs pol tool args = Inr (d, None, reason) \<longleftrightarrow>
     list_all (\<lambda>q. rule_matches rs q tool args = Inr False) (po_rules pol) \<and>
     d = po_default pol \<and> reason = ''no rule matched; bundle default applied'')"
  by (simp add: evaluate_def evaluate_rules_Some evaluate_rules_None)

text \<open>
  a domain rule is an exact allow-list. For a rule with only a tool and a host list, a call
  of that tool with a string URL is caught exactly when the URL's network location, as a whole
  (user info and port included), is not on the list; the argument order in the call is irrelevant.
\<close>

theorem domain_rule_allow_list:
  assumes "ru_tool r = Some tool" "ru_args_regex r = None" "ru_domain_not_in r = Some hosts"
    and "map_of args ''url'' = Some (JStr url)" "urlparse url = Inr (host, path)"
  shows "rule_matches rs r tool args = Inr (host \<notin> set hosts)"
  using assms by (simp add: rule_matches_def domain_matches_def dict_get_def)

theorem domain_rule_allow_list_witness:
  "rule_matches (\<lambda>_ _. None)
     \<lparr>ru_id = ''r'', ru_description = [], ru_tool = Some ''web_fetch'', ru_args_regex = None,
      ru_domain_not_in = Some [''docs.example.com''], ru_action = Deny, ru_severity = High,
      ru_category = ''c''\<rparr>
     ''web_fetch'' [(''url'', JStr ''https://docs.example.com@evil.test/x'')] = Inr True"
proof -
  have "urlparse ''https://docs.example.com@evil.test/x'' = Inr (''docs.example.com@evil.test'', ''/x'')"
    by code_simp
  then show ?thesis
    by (subst domain_rule_allow_list [where hosts = "[''docs.example.com'']" and
          url = "''https://docs.example.com@evil.test/x''"
          and host = "''docs.example.com@evil.test''" and path = "''/x''"]) simp_all
qed

end
