(* ===== verification/Workspace_Tools.thy ===== *)
theory Workspace_Tools
  imports Schema_Models Url_Parse
begin

text \<open>
  The simulated tools and the in-memory workspace,
  \<open>packages/runtime/aro_runtime/tools.py\<close>. A tool takes the file dict and its arguments
  and returns the output text with the new file dict; a \<open>ToolError\<close> (which fails the run)
  and any other exception (which aborts it) are the two kinds of failure. Tool arguments are
  strings in this model: a non-string argument is an abort with a \<open>TypeError\<close>, although
  Python lets some of them through.
\<close>

type_synonym workspace = "string pydict"

datatype tool_failure = ToolError string | ToolCrash pyexn

type_synonym tool_result = "tool_failure + (string \<times> workspace)"

definition workspace_digest :: "(string \<Rightarrow> string) \<Rightarrow> workspace \<Rightarrow> string" where
  "workspace_digest h files = digest_obj h (JObj (map (\<lambda>(p, c). (p, JStr c)) files))"

text \<open>\<open>args[k]\<close> for a string argument.\<close>

definition arg_str :: "json pydict \<Rightarrow> string \<Rightarrow> tool_failure + string" where
  "arg_str args k =
     (case dict_get args k of
        None \<Rightarrow> Inl (ToolCrash (KeyError k))
      | Some (JStr s) \<Rightarrow> Inr s
      | Some _ \<Rightarrow> Inl (ToolCrash (TypeErr k)))"

definition read_file :: "workspace \<Rightarrow> json pydict \<Rightarrow> tool_result" where
  "read_file files args =
     (case arg_str args ''path'' of
        Inl e \<Rightarrow> Inl e
      | Inr path \<Rightarrow>
          (case dict_get files path of
             None \<Rightarrow> Inl (ToolError (''file not found: '' @ path))
           | Some content \<Rightarrow> Inr (content, files)))"

definition write_file :: "workspace \<Rightarrow> json pydict \<Rightarrow> tool_result" where
  "write_file files args =
     (case arg_str args ''content'' of
        Inl e \<Rightarrow> Inl e
      | Inr content \<Rightarrow>
          (case arg_str args ''path'' of
             Inl e \<Rightarrow> Inl e
           | Inr path \<Rightarrow>
               Inr (''wrote '' @ show_nat (py_len content) @ '' chars to '' @ path,
                    dict_set path content files)))"

definition apply_patch :: "workspace \<Rightarrow> json pydict \<Rightarrow> tool_result" where
  "apply_patch files args =
     (case arg_str args ''path'' of
        Inl e \<Rightarrow> Inl e
      | Inr path \<Rightarrow>
          (case arg_str args ''find'' of
             Inl e \<Rightarrow> Inl e
           | Inr fnd \<Rightarrow>
               (case arg_str args ''replace'' of
                  Inl e \<Rightarrow> Inl e
                | Inr repl \<Rightarrow>
                    (case dict_get files path of
                       None \<Rightarrow> Inl (ToolError (''file not found: '' @ path))
                     | Some content \<Rightarrow>
                         (if \<not> contains fnd content
                          then Inl (ToolError (''pattern not found in '' @ path))
                          else Inr (''patched '' @ path @ '': 1 occurrence replaced'',
                                    dict_set path (replace_first fnd repl content) files))))))"

text \<open>\<open>Path(p).name\<close>: the last component that is neither empty nor \<open>.\<close>.\<close>

definition path_name :: "string \<Rightarrow> string" where
  "path_name p =
     (let parts = filter (\<lambda>s. s \<noteq> [] \<and> s \<noteq> ''.'') (split_slash [] p)
      in if parts = [] then [] else last parts)"

definition sorted_paths :: "workspace \<Rightarrow> string list" where
  "sorted_paths files = sort (map fst files)"

definition file_text :: "workspace \<Rightarrow> string \<Rightarrow> string" where
  "file_text files p = (case dict_get files p of None \<Rightarrow> [] | Some c \<Rightarrow> c)"

definition run_tests :: "workspace \<Rightarrow> json pydict \<Rightarrow> tool_result" where
  "run_tests files args =
     (let test_files = filter (\<lambda>p. starts_with ''test_'' (path_name p)) (sorted_paths files) in
      if test_files = [] then Inr (''no tests found'', files)
      else
        (let n_tests = sum_list (map (\<lambda>p. count_sub ''def test_'' (file_text files p)) test_files);
             buggy = filter (\<lambda>p. contains ''BUG'' (file_text files p) \<and> p \<notin> set test_files)
                       (sorted_paths files)
         in if buggy \<noteq> []
            then Inr (show_nat n_tests @ '' collected: FAILED (unresolved BUG marker in '' @
                      join '', '' buggy @ '')'', files)
            else Inr (show_nat n_tests @ '' collected: all passed'', files)))"

definition web_fetch :: "workspace \<Rightarrow> json pydict \<Rightarrow> tool_result" where
  "web_fetch files args =
     (case arg_str args ''url'' of
        Inl e \<Rightarrow> Inl e
      | Inr url \<Rightarrow>
          (case urlparse url of
             Inl e \<Rightarrow> Inl (ToolCrash e)
           | Inr (netloc, path) \<Rightarrow>
               (let key = ''corpus/'' @ netloc @ path;
                    candidates = [key, key @ ''.md'', rstrip_by (\<lambda>c. c = CHR ''/'') key @ ''/index.md'']
                in case find (\<lambda>c. dict_get files c \<noteq> None) candidates of
                     Some c \<Rightarrow> Inr (file_text files c, files)
                   | None \<Rightarrow> Inl (ToolError (''offline fixture missing for '' @ url)))))"

definition shell :: "workspace \<Rightarrow> json pydict \<Rightarrow> tool_result" where
  "shell files args =
     (case arg_str args ''cmd'' of
        Inl e \<Rightarrow> Inl e
      | Inr raw \<Rightarrow>
          (let cmd = strip raw in
           if cmd = ''ls'' \<or> starts_with ''ls '' cmd
           then Inr (join [CHR 0x0A] (sorted_paths files), files)
           else Inr (''simulated shell (no-op sandbox): `'' @ cmd @ ''` -> exit 0'', files)))"

text \<open>The separator is an em dash, U+2014, between spaces.\<close>

definition em_dash :: string where
  "em_dash = [CHR '' '', CHR 0xE2, CHR 0x80, CHR 0x94, CHR '' '']"

definition summarize :: "workspace \<Rightarrow> json pydict \<Rightarrow> tool_result" where
  "summarize files args =
     (case (if dict_get args ''text'' \<noteq> None then arg_str args ''text''
            else (case read_file files args of Inl e \<Rightarrow> Inl e | Inr (t, _) \<Rightarrow> Inr t)) of
        Inl e \<Rightarrow> Inl e
      | Inr txt \<Rightarrow>
          (let lines = filter (\<lambda>l. l \<noteq> []) (map strip (splitlines txt));
               title = (if lines = [] then ''(empty)'' else hd lines)
           in Inr (title @ em_dash @ show_nat (count_words txt) @ '' words, '' @
                   show_nat (length lines) @ '' non-empty lines'', files)))"

definition TOOLS :: "(workspace \<Rightarrow> json pydict \<Rightarrow> tool_result) pydict" where
  "TOOLS = [(''read_file'', read_file), (''write_file'', write_file), (''apply_patch'', apply_patch),
     (''run_tests'', run_tests), (''web_fetch'', web_fetch), (''shell'', shell),
     (''summarize'', summarize)]"

text \<open>\<open>TOOLS[tool](workspace, args)\<close>\<close>

definition call_tool :: "string \<Rightarrow> workspace \<Rightarrow> json pydict \<Rightarrow> tool_result" where
  "call_tool tool files args =
     (case dict_get TOOLS tool of
        None \<Rightarrow> Inl (ToolCrash (KeyError tool))
      | Some f \<Rightarrow> f files args)"

section \<open>Lemmas\<close>

text \<open>Two workspaces with the same content, whatever the insertion order.\<close>

definition same_files :: "workspace \<Rightarrow> workspace \<Rightarrow> bool" where
  "same_files f g \<longleftrightarrow> mset f = mset g \<and> distinct (map fst f)"

lemma same_files_refl: "distinct (map fst f) \<Longrightarrow> same_files f f"
  by (simp add: same_files_def)

lemma same_files_get: "same_files f g \<Longrightarrow> dict_get g = dict_get f"
proof -
  assume sf: "same_files f g"
  then have "distinct (map fst g)"
    by (metis distinct_map mset_eq_imp_distinct_iff mset_eq_setD same_files_def)
  with sf have "map_of f = map_of g"
    by (metis map_of_inject_set mset_eq_setD same_files_def)
  then show ?thesis by (auto simp: dict_get_def fun_eq_iff)
qed

lemma same_files_paths: "same_files f g \<Longrightarrow> sorted_paths g = sorted_paths f"
  by (metis mset_map same_files_def sorted_list_of_multiset_mset sorted_paths_def)

lemma same_files_text: "same_files f g \<Longrightarrow> file_text g p = file_text f p"
  by (simp add: file_text_def same_files_get)

lemma same_files_digest: "same_files f g \<Longrightarrow> workspace_digest h g = workspace_digest h f"
proof -
  assume sf: "same_files f g"
  let ?j = "map (\<lambda>(p, c). (p, JStr c))"
  have "mset (?j f) = mset (?j g)" using sf by (simp add: same_files_def)
  moreover have "distinct (map fst (?j f))"
    using sf by (simp add: same_files_def comp_def case_prod_unfold)
  ultimately show ?thesis
    by (metis canonical_json_order digest_obj_def workspace_digest_def)
qed

lemma same_files_iff:
  "same_files f g \<longleftrightarrow> distinct (map fst f) \<and> distinct (map fst g) \<and> map_of f = map_of g"
proof
  assume sf: "same_files f g"
  then have "distinct (map fst g)"
    by (metis distinct_map mset_eq_imp_distinct_iff mset_eq_setD same_files_def)
  with sf show "distinct (map fst f) \<and> distinct (map fst g) \<and> map_of f = map_of g"
    by (metis map_of_inject_set mset_eq_setD same_files_def)
next
  assume "distinct (map fst f) \<and> distinct (map fst g) \<and> map_of f = map_of g"
  then show "same_files f g"
    by (metis distinct_map map_of_inject_set same_files_def set_eq_iff_mset_eq_distinct)
qed

lemma same_files_set: "same_files f g \<Longrightarrow> same_files (dict_set k v f) (dict_set k v g)"
  by (auto simp: same_files_iff dict_set_def distinct_update update_conv')

definition same_result :: "tool_result \<Rightarrow> tool_result \<Rightarrow> bool" where
  "same_result r s \<longleftrightarrow>
     (case (r, s) of
        (Inl e, Inl e') \<Rightarrow> e = e'
      | (Inr (out, f), Inr (out', g)) \<Rightarrow> out = out' \<and> same_files f g
      | _ \<Rightarrow> False)"

lemma same_result_simps [simp]:
  "same_result (Inl e) s \<longleftrightarrow> s = Inl e"
  "same_result (Inr (out, f)) s \<longleftrightarrow> (\<exists>g. s = Inr (out, g) \<and> same_files f g)"
  by (auto simp: same_result_def split: sum.splits prod.splits)

lemma same_result_Inl: "same_result (Inl e) (Inl e)"
  by simp

lemmas tool_defs = read_file_def write_file_def apply_patch_def run_tests_def web_fetch_def
  shell_def summarize_def

lemmas same_files_facts = same_files_get same_files_paths same_files_text same_files_set

lemma read_file_same: "same_files f g \<Longrightarrow> same_result (read_file f args) (read_file g args)"
  by (auto simp: read_file_def same_files_facts split: sum.splits option.splits)

lemma write_file_same: "same_files f g \<Longrightarrow> same_result (write_file f args) (write_file g args)"
  by (auto simp: write_file_def same_files_facts split: sum.splits)

lemma apply_patch_same: "same_files f g \<Longrightarrow> same_result (apply_patch f args) (apply_patch g args)"
  by (auto simp: apply_patch_def same_files_facts split: sum.splits option.splits)

lemma run_tests_same: "same_files f g \<Longrightarrow> same_result (run_tests f args) (run_tests g args)"
  by (simp add: run_tests_def Let_def same_files_paths same_files_text)

lemma web_fetch_same: "same_files f g \<Longrightarrow> same_result (web_fetch f args) (web_fetch g args)"
  by (auto simp: web_fetch_def Let_def same_files_get same_files_text split: sum.splits option.splits)

lemma shell_same: "same_files f g \<Longrightarrow> same_result (shell f args) (shell g args)"
  by (auto simp: shell_def Let_def same_files_paths split: sum.splits)

lemma summarize_same: "same_files f g \<Longrightarrow> same_result (summarize f args) (summarize g args)"
  using read_file_same [of f g args]
  by (auto simp: summarize_def Let_def split: sum.splits prod.splits)

text \<open>\<open>call_tool\<close> as a case distinction on the tool's name.\<close>

lemma call_tool_cases:
  "call_tool tool files args =
     (if tool = ''read_file'' then read_file files args
      else if tool = ''write_file'' then write_file files args
      else if tool = ''apply_patch'' then apply_patch files args
      else if tool = ''run_tests'' then run_tests files args
      else if tool = ''web_fetch'' then web_fetch files args
      else if tool = ''shell'' then shell files args
      else if tool = ''summarize'' then summarize files args
      else Inl (ToolCrash (KeyError tool)))"
  by (simp add: call_tool_def TOOLS_def dict_get_def)

lemma call_tool_same: "same_files f g \<Longrightarrow> same_result (call_tool t f args) (call_tool t g args)"
  by (simp add: call_tool_cases read_file_same write_file_same apply_patch_same run_tests_same
      web_fetch_same shell_same summarize_same same_result_Inl del: same_result_simps)

lemma read_only_tools:
  "read_file f args = Inr (out, g) \<Longrightarrow> g = f" "run_tests f args = Inr (out, g) \<Longrightarrow> g = f"
  "web_fetch f args = Inr (out, g) \<Longrightarrow> g = f" "shell f args = Inr (out, g) \<Longrightarrow> g = f"
  "summarize f args = Inr (out, g) \<Longrightarrow> g = f"
  by (auto simp: tool_defs Let_def split: sum.splits option.splits if_splits prod.splits)

lemma write_file_frame:
  "write_file f args = Inr (out, g) \<Longrightarrow>
     \<exists>p c. map_of args ''path'' = Some (JStr p) \<and> g = dict_set p c f"
  by (auto simp: write_file_def arg_str_def dict_get_def
      split: sum.splits option.splits json.splits)

lemma apply_patch_frame:
  "apply_patch f args = Inr (out, g) \<Longrightarrow>
     \<exists>p c. map_of args ''path'' = Some (JStr p) \<and> g = dict_set p c f"
  by (auto simp: apply_patch_def arg_str_def dict_get_def
      split: sum.splits option.splits json.splits if_splits)

lemma call_tool_frame:
  assumes "call_tool tool f args = Inr (out, g)"
  shows "g = f \<or> (tool \<in> {''write_file'', ''apply_patch''} \<and>
     (\<exists>p c. map_of args ''path'' = Some (JStr p) \<and> g = dict_set p c f))"
proof (cases "tool = ''write_file'' \<or> tool = ''apply_patch''")
  case True
  with assms write_file_frame [of f args out g] apply_patch_frame [of f args out g]
  show ?thesis by (auto simp: call_tool_cases)
next
  case False
  with assms show ?thesis
    by (auto simp: call_tool_cases split: if_splits dest: read_only_tools)
qed

lemma call_tool_distinct:
  "call_tool tool f args = Inr (out, g) \<Longrightarrow> distinct (map fst f) \<Longrightarrow> distinct (map fst g)"
  by (drule call_tool_frame) (auto intro: distinct_dict_set)

section \<open>Properties\<close>

text \<open>
  tools are hermetic. A successful call changes at most the file named by its \<open>path\<close>
  argument, and only \<open>write_file\<close> and \<open>apply_patch\<close> change anything; every other
  file reads as before.
\<close>

theorem tool_touches_only_its_path:
  assumes "call_tool tool files args = Inr (out, files')"
    and "tool \<notin> {''write_file'', ''apply_patch''} \<or> map_of args ''path'' \<noteq> Some (JStr q)"
  shows "dict_get files' q = dict_get files q"
  using call_tool_frame [OF assms(1)] assms(2) by auto

theorem tool_touches_only_its_path_witness:
  "dict_get (snd (projr (call_tool ''write_file'' [(''a'', ''x''), (''b'', ''y'')]
     [(''path'', JStr ''a''), (''content'', JStr ''z'')]))) ''b'' = Some ''y''"
proof -
  have eq: "call_tool ''write_file'' [(''a'', ''x''), (''b'', ''y'')]
      [(''path'', JStr ''a''), (''content'', JStr ''z'')] =
      Inr (''wrote 1 chars to a'', [(''a'', ''z''), (''b'', ''y'')])"
    by code_simp
  have "dict_get [(''a'', ''z''), (''b'', ''y'')] ''b'' = dict_get [(''a'', ''x''), (''b'', ''y'')] ''b''"
    by (rule tool_touches_only_its_path [OF eq]) simp
  with eq show ?thesis by (simp add: dict_get_def)
qed

text \<open>
  a patch replaces exactly the first occurrence. When \<open>apply_patch\<close> succeeds the old
  content is some prefix, the pattern and a rest, with no earlier occurrence, and the file then
  holds the same prefix, the replacement and the same rest.
\<close>

theorem patch_first_occurrence:
  assumes "apply_patch files args = Inr (out, files')"
  shows "\<exists>path fnd repl u v.
     map_of args ''path'' = Some (JStr path) \<and> map_of args ''find'' = Some (JStr fnd) \<and>
     map_of args ''replace'' = Some (JStr repl) \<and>
     dict_get files path = Some (u @ fnd @ v) \<and> dict_get files' path = Some (u @ repl @ v) \<and>
     (\<forall>u' v'. u @ fnd @ v = u' @ fnd @ v' \<longrightarrow> length u \<le> length u')"
proof -
  obtain path fnd repl content where
    args: "map_of args ''path'' = Some (JStr path)" "map_of args ''find'' = Some (JStr fnd)"
      "map_of args ''replace'' = Some (JStr repl)"
    and content: "dict_get files path = Some content" "contains fnd content"
      "files' = dict_set path (replace_first fnd repl content) files"
    using assms by (auto simp: apply_patch_def arg_str_def dict_get_def
        split: sum.splits option.splits json.splits if_splits)
  from replace_first_spec [OF content(2), of repl] obtain u v where
    "content = u @ fnd @ v" "replace_first fnd repl content = u @ repl @ v"
    "\<forall>u' v'. content = u' @ fnd @ v' \<longrightarrow> length u \<le> length u'" by blast
  with args content show ?thesis
    by (intro exI [of _ path] exI [of _ fnd] exI [of _ repl] exI [of _ u] exI [of _ v]) simp
qed

theorem patch_first_occurrence_witness:
  "\<exists>path fnd repl u v.
     map_of [(''path'', JStr ''f''), (''find'', JStr ''BUG''), (''replace'', JStr ''ok'')] ''path'' = Some (JStr path) \<and>
     map_of [(''path'', JStr ''f''), (''find'', JStr ''BUG''), (''replace'', JStr ''ok'')] ''find'' = Some (JStr fnd) \<and>
     map_of [(''path'', JStr ''f''), (''find'', JStr ''BUG''), (''replace'', JStr ''ok'')] ''replace'' = Some (JStr repl) \<and>
     dict_get [(''f'', ''a BUG BUG'')] path = Some (u @ fnd @ v) \<and>
     dict_get [(''f'', ''a ok BUG'')] path = Some (u @ repl @ v) \<and>
     (\<forall>u' v'. u @ fnd @ v = u' @ fnd @ v' \<longrightarrow> length u \<le> length u')"
proof (rule patch_first_occurrence)
  show "apply_patch [(''f'', ''a BUG BUG'')]
      [(''path'', JStr ''f''), (''find'', JStr ''BUG''), (''replace'', JStr ''ok'')] =
      Inr (''patched f: 1 occurrence replaced'', [(''f'', ''a ok BUG'')])"
    by code_simp
qed

text \<open>
  every tool is a function of workspace content and arguments. On two workspaces with the
  same files, whatever order they were inserted in, a call fails identically or returns the same
  text and leaves the same files.
\<close>

theorem tool_depends_on_content:
  assumes "same_files f g"
  shows "same_result (call_tool tool f args) (call_tool tool g args)"
  using assms by (rule call_tool_same)

theorem tool_depends_on_content_witness:
  "same_result (call_tool ''shell'' [(''a'', ''x''), (''b'', ''y'')] [(''cmd'', JStr ''ls'')])
     (call_tool ''shell'' [(''b'', ''y''), (''a'', ''x'')] [(''cmd'', JStr ''ls'')])"
  by (rule tool_depends_on_content) (simp add: same_files_def)

text \<open>
  the simulated test runner goes green exactly when no file that is not a test file still
  contains the marker, as long as there is a test file at all.
\<close>

theorem run_tests_green:
  "(\<exists>out. run_tests files args = Inr (out, files) \<and> ends_with '' all passed'' out) \<longleftrightarrow>
     (\<exists>t\<in>set (map fst files). starts_with ''test_'' (path_name t)) \<and>
     (\<forall>p\<in>set (map fst files). starts_with ''test_'' (path_name p) \<or>
        \<not> contains ''BUG'' (file_text files p))"
  (is "?green \<longleftrightarrow> ?tests \<and> ?clean")
proof -
  let ?T = "filter (\<lambda>p. starts_with ''test_'' (path_name p)) (sorted_paths files)"
  let ?B = "filter (\<lambda>p. contains ''BUG'' (file_text files p) \<and> p \<notin> set ?T) (sorted_paths files)"
  have T: "?T = [] \<longleftrightarrow> \<not> ?tests" by (auto simp: sorted_paths_def filter_empty_conv)
  have B: "?B = [] \<longleftrightarrow> ?clean" by (auto simp: sorted_paths_def filter_empty_conv)
  have paren: "\<not> ends_with '' all passed'' (s @ '')'')" for s
  proof
    assume "ends_with '' all passed'' (s @ '')'')"
    then have "s @ '')'' = take (length (s @ '')'') - length '' all passed'') (s @ '')'') @ '' all passed''"
      by (metis append_take_drop_id ends_with_def)
    then have "last (s @ '')'') = last ('' all passed'')" by (metis last_appendR list.distinct(1))
    then show False by simp
  qed
  have green: "ends_with '' all passed'' (s @ '' collected: all passed'')" for s
    by (simp add: ends_with_def)
  have none: "\<not> ends_with '' all passed'' ''no tests found''"
    by (simp add: ends_with_def)
  show ?thesis
  proof (cases "?T = []")
    case True
    then show ?thesis using none T by (auto simp: run_tests_def)
  next
    case False
    show ?thesis
    proof (cases "?B = []")
      case True
      with False T B green show ?thesis by (simp add: run_tests_def Let_def)
    next
      case False': False
      then obtain X where "run_tests files args = Inr (X @ '')'', files)"
        using False by (force simp: run_tests_def Let_def)
      with paren [of X] False' B show ?thesis by simp
    qed
  qed
qed

end
