(* ===== verification/Run_Executor.thy ===== *)
theory Run_Executor
  imports Script_Model Policy_Engine Workspace_Tools
begin

text \<open>
  The runtime loop, \<open>packages/runtime/aro_runtime/executor.py\<close>: resolve the arguments of a
  scripted step against earlier outputs, gate it through the policy, run the tool, record. The
  state threaded through the loop is an \<open>exec_state\<close>; the events a trace writer would have
  written are collected in it. The environment holds what the loop reads and never writes: the
  policy, the run id, SHA-256, the regular-expression search and the readings of the two clocks
  (\<open>en_utc k\<close> is the \<open>k\<close>-th \<open>utcnow()\<close> of the run, \<open>en_perf k\<close> the
  \<open>k\<close>-th \<open>perf_counter()\<close>).
\<close>

section \<open>The code\<close>

definition PREVIEW_CHARS :: nat where
  "PREVIEW_CHARS = 200"

definition TRACE_VERSION :: nat where
  "TRACE_VERSION = 1"

definition SCRIPTED_COVERAGE :: coverage where
  "SCRIPTED_COVERAGE = \<lparr>
     co_captured = [''step_inputs_and_outputs_by_digest'', ''policy_decisions'', ''risk_signals'',
       ''evidence_items'', ''artifacts'', ''jsonl_trace''],
     co_blind_spots =
       [''Tools are in-process simulations; no real shell, network, or filesystem is observed.'',
        ''LLM/model internals are out of scope for the scripted runner.''],
     co_enforcement =
       [''Policy is enforced before every tool step (deny blocks execution).'',
        ''needs_review executes but records review debt; nothing consumes it automatically.'']\<rparr>"

text \<open>A match of \<open>_STEP_REF = \$\{step:(\d+)\.output\}\<close> at the start of a text: the
  captured index and the length of the match.\<close>

definition match_step_ref :: "string \<Rightarrow> (nat \<times> nat) option" where
  "match_step_ref s =
     (let r = drop 7 s; ds = takeWhile is_digit r in
      if starts_with ''${step:'' s \<and> ds \<noteq> [] \<and> starts_with ''.output}'' (dropWhile is_digit r)
      then Some (read_nat ds, 15 + length ds) else None)"

text \<open>\<open>_STEP_REF.sub(sub, value)\<close>; the first argument counts the characters of a match
  still to skip. The failure is the message of the \<open>ToolError\<close> that \<open>sub\<close> raises.\<close>

fun sub_refs :: "nat \<Rightarrow> string option list \<Rightarrow> string \<Rightarrow> string + string" where
  "sub_refs k outputs [] = Inr []"
| "sub_refs (Suc k) outputs (c # cs) = sub_refs k outputs cs"
| "sub_refs 0 outputs (c # cs) =
     (case match_step_ref (c # cs) of
        None \<Rightarrow> (case sub_refs 0 outputs cs of Inl e \<Rightarrow> Inl e | Inr t \<Rightarrow> Inr (c # t))
      | Some (idx, n) \<Rightarrow>
          (case (if idx < length outputs then outputs ! idx else None) of
             None \<Rightarrow> Inl (''step '' @ show_nat idx @ '' has no output to reference'')
           | Some out \<Rightarrow>
               (case sub_refs (n - 1) outputs cs of Inl e \<Rightarrow> Inl e | Inr t \<Rightarrow> Inr (out @ t))))"

fun resolve :: "string option list \<Rightarrow> json \<Rightarrow> string + json" where
  "resolve outputs (JStr s) = map_sum id JStr (sub_refs 0 outputs s)"
| "resolve outputs (JObj kvs) =
     map_sum id JObj (sequence (map (\<lambda>(k, v). map_sum id (Pair k) (resolve outputs v)) kvs))"
| "resolve outputs (JList xs) = map_sum id JList (sequence (map (resolve outputs) xs))"
| "resolve outputs j = Inr j"

definition resolve_args :: "json pydict \<Rightarrow> string option list \<Rightarrow> string + json pydict" where
  "resolve_args args outputs =
     sequence (map (\<lambda>(k, v). map_sum id (Pair k) (resolve outputs v)) args)"

record trace_header =
  th_version :: nat
  th_run_id :: string
  th_script :: script
  th_policy :: policy
  th_workspace_digest :: string
  th_coverage :: "coverage option"

datatype trace_event =
    RunStart trace_header
  | DecisionEvent policy_decision
  | SignalEvent risk_signal
  | EvidenceEvent evidence_item
  | ArtifactEvent artifact
  | StepEvent step_record
  | RunEnd run_status "int option" "int option"

record exec_env =
  en_re_search :: regex_search
  en_hash :: "string \<Rightarrow> string"
  en_utc :: "nat \<Rightarrow> int"
  en_perf :: "nat \<Rightarrow> rat"
  en_policy :: policy
  en_run_id :: string

record exec_state =
  es_outputs :: "string option list"
  es_files :: workspace
  es_run :: agent_run
  es_failed :: bool
  es_trace :: "trace_event list"

text \<open>Appending to one of the run's collections and writing the matching event.\<close>

definition add_decision :: "policy_decision \<Rightarrow> exec_state \<Rightarrow> exec_state" where
  "add_decision pd st = st\<lparr>
     es_run := (es_run st)\<lparr>run_policy_decisions := run_policy_decisions (es_run st) @ [pd]\<rparr>,
     es_trace := es_trace st @ [DecisionEvent pd]\<rparr>"

definition add_signal :: "risk_signal \<Rightarrow> exec_state \<Rightarrow> exec_state" where
  "add_signal s st = st\<lparr>
     es_run := (es_run st)\<lparr>run_risk_signals := run_risk_signals (es_run st) @ [s]\<rparr>,
     es_trace := es_trace st @ [SignalEvent s]\<rparr>"

definition add_evidence :: "evidence_item \<Rightarrow> exec_state \<Rightarrow> exec_state" where
  "add_evidence e st = st\<lparr>
     es_run := (es_run st)\<lparr>run_evidence := run_evidence (es_run st) @ [e]\<rparr>,
     es_trace := es_trace st @ [EvidenceEvent e]\<rparr>"

definition add_artifact :: "artifact \<Rightarrow> exec_state \<Rightarrow> exec_state" where
  "add_artifact a st = st\<lparr>
     es_run := (es_run st)\<lparr>run_artifacts := run_artifacts (es_run st) @ [a]\<rparr>,
     es_trace := es_trace st @ [ArtifactEvent a]\<rparr>"

definition add_step :: "step_record \<Rightarrow> exec_state \<Rightarrow> exec_state" where
  "add_step s st = st\<lparr>
     es_run := (es_run st)\<lparr>run_steps := run_steps (es_run st) @ [s]\<rparr>,
     es_trace := es_trace st @ [StepEvent s]\<rparr>"

definition push_output :: "string option \<Rightarrow> exec_state \<Rightarrow> exec_state" where
  "push_output out st = st\<lparr>es_outputs := es_outputs st @ [out]\<rparr>"

definition sub_id :: "exec_env \<Rightarrow> string \<Rightarrow> nat \<Rightarrow> string" where
  "sub_id env tag i = en_run_id env @ tag @ show_nat i"

definition call_digest :: "exec_env \<Rightarrow> string \<Rightarrow> json pydict \<Rightarrow> string" where
  "call_digest env tool args =
     digest_obj (en_hash env) (JObj [(''tool'', JStr tool), (''args'', JObj args)])"

definition new_step :: "exec_env \<Rightarrow> nat \<Rightarrow> scripted_step \<Rightarrow> step_record" where
  "new_step env i s = \<lparr>sr_index = int i, sr_kind = ToolCall, sr_name = ss_tool s, sr_args = [],
     sr_allocated_to = ss_allocated_to s, sr_supports_goal = ss_supports_goal s,
     sr_input_digest = [], sr_output_digest = None, sr_output_preview = None,
     sr_decision_id = None, sr_started_at = en_utc env (Suc i), sr_duration_ms = 0, sr_error = None\<rparr>"

text \<open>The \<open>if rule is not None\<close> block: the decision, and a risk signal unless it allows.\<close>

definition record_decision :: "exec_env \<Rightarrow> nat \<Rightarrow> string \<Rightarrow> decision \<Rightarrow> policy_rule option \<Rightarrow> string \<Rightarrow>
    step_record \<Rightarrow> exec_state \<Rightarrow> step_record \<times> exec_state" where
  "record_decision env i tool dec rule reason step st =
     (case rule of
        None \<Rightarrow> (step, st)
      | Some r \<Rightarrow>
          (let pd = \<lparr>pd_id = sub_id env ''-pd-'' i, pd_run_id = en_run_id env,
                 pd_step_index = int i, pd_policy_id = po_id (en_policy env),
                 pd_rule_id = ru_id r, pd_decision = dec, pd_reason = reason\<rparr>;
               st1 = add_decision pd st;
               st2 = (if dec \<in> {Deny, NeedsReview}
                      then add_signal \<lparr>ri_id = sub_id env ''-rs-'' i, ri_run_id = en_run_id env,
                        ri_step_index = int i, ri_severity = ru_severity r,
                        ri_category = ru_category r,
                        ri_message = ''rule '' @ ru_id r @ '' matched '' @ tool @ '': '' @ reason\<rparr> st1
                      else st1)
           in (step\<lparr>sr_decision_id := Some (pd_id pd)\<rparr>, st2)))"

text \<open>The \<open>else\<close> block of a successful tool call.\<close>

definition record_output :: "exec_env \<Rightarrow> nat \<Rightarrow> string \<Rightarrow> json pydict \<Rightarrow> string \<Rightarrow> workspace \<Rightarrow>
    step_record \<Rightarrow> exec_state \<Rightarrow> step_record \<times> exec_state" where
  "record_output env i tool args out files step st =
     (let digest = digest_text (en_hash env) out;
          step1 = step\<lparr>sr_output_digest := Some digest,
                       sr_output_preview := Some (py_take PREVIEW_CHARS out)\<rparr>;
          st1 = add_evidence \<lparr>ev_id = sub_id env ''-ev-'' i, ev_run_id = en_run_id env,
                  ev_step_index = int i, ev_kind = ''tool_output'', ev_digest = digest,
                  ev_uri = None, ev_description = ''output of '' @ tool\<rparr>
                  (push_output (Some out) (st\<lparr>es_files := files\<rparr>))
      in if tool = ''write_file''
         then (let content = projr (arg_str args ''content''); path = projr (arg_str args ''path'')
               in (step1\<lparr>sr_kind := ArtifactWrite\<rparr>,
                   add_artifact \<lparr>ar_id = sub_id env ''-art-'' i, ar_run_id = en_run_id env,
                     ar_path = path, ar_digest = digest_text (en_hash env) content,
                     ar_media_type = (if ends_with ''.md'' path then ''text/markdown'' else ''text/plain''),
                     ar_size_bytes = length content\<rparr> st1))
         else (step1, st1))"

text \<open>The end of the loop body: the duration, the step itself and its event.\<close>

definition finish_step :: "exec_env \<Rightarrow> nat \<Rightarrow> step_record \<Rightarrow> exec_state \<Rightarrow> exec_state" where
  "finish_step env i step st =
     add_step (step\<lparr>sr_duration_ms := (en_perf env (2 * i + 1) - en_perf env (2 * i)) * 1000\<rparr>) st"

definition fail_run :: "exec_state \<Rightarrow> exec_state" where
  "fail_run st = st\<lparr>es_failed := True\<rparr>"

text \<open>The tool call of a step the policy let through.\<close>

definition run_tool :: "exec_env \<Rightarrow> nat \<Rightarrow> string \<Rightarrow> json pydict \<Rightarrow> step_record \<Rightarrow> exec_state \<Rightarrow>
    pyexn + (step_record \<times> exec_state)" where
  "run_tool env i tool args step st =
     (case call_tool tool (es_files st) args of
        Inl (ToolCrash e) \<Rightarrow> Inl e
      | Inl (ToolError msg) \<Rightarrow> Inr (step\<lparr>sr_error := Some msg\<rparr>, fail_run (push_output None st))
      | Inr (out, files) \<Rightarrow> Inr (record_output env i tool args out files step st))"

text \<open>
  The gate: a denial records the blocking rule as the step's error. When the bundle default
  denies, no rule matched and \<open>rule.id\<close> is an attribute access on \<open>None\<close>.
\<close>

definition gate_step :: "exec_env \<Rightarrow> nat \<Rightarrow> string \<Rightarrow> json pydict \<Rightarrow> step_record \<Rightarrow> exec_state \<Rightarrow>
    pyexn + (step_record \<times> exec_state)" where
  "gate_step env i tool args step st =
     (case evaluate (en_re_search env) (en_policy env) tool args of
        Inl e \<Rightarrow> Inl e
      | Inr (dec, rule, reason) \<Rightarrow>
          (case record_decision env i tool dec rule reason step st of
             (step1, st1) \<Rightarrow>
               (if dec = Deny
                then (case rule of
                        None \<Rightarrow> Inl (AttributeErr ''id'')
                      | Some r \<Rightarrow> Inr (step1\<lparr>sr_error := Some (''blocked by policy rule '' @ ru_id r)\<rparr>,
                                        push_output None st1))
                else run_tool env i tool args step1 st1)))"

definition exec_step :: "exec_env \<Rightarrow> nat \<Rightarrow> scripted_step \<Rightarrow> exec_state \<Rightarrow> pyexn + exec_state" where
  "exec_step env i s st =
     (let step = new_step env i s in
      case resolve_args (ss_args s) (es_outputs st) of
        Inl msg \<Rightarrow>
          Inr (finish_step env i
            (step\<lparr>sr_args := ss_args s, sr_input_digest := call_digest env (ss_tool s) (ss_args s),
                  sr_error := Some msg\<rparr>)
            (fail_run (push_output None st)))
      | Inr args \<Rightarrow>
          (case gate_step env i (ss_tool s) args
                  (step\<lparr>sr_args := args, sr_input_digest := call_digest env (ss_tool s) args\<rparr>) st of
             Inl e \<Rightarrow> Inl e
           | Inr (step', st') \<Rightarrow> Inr (finish_step env i step' st')))"

fun exec_steps :: "exec_env \<Rightarrow> nat \<Rightarrow> scripted_step list \<Rightarrow> exec_state \<Rightarrow> pyexn + exec_state" where
  "exec_steps env i [] st = Inr st"
| "exec_steps env i (s # ss) st =
     (case exec_step env i s st of
        Inl e \<Rightarrow> Inl e
      | Inr st' \<Rightarrow> exec_steps env (Suc i) ss st')"

definition start_run :: "exec_env \<Rightarrow> script \<Rightarrow> agent_run" where
  "start_run env sc = \<lparr>run_id = en_run_id env, run_task_id = ta_id (sc_task sc),
     run_agent = sc_agent sc, run_model = sc_model sc, run_status = Running,
     run_started_at = Some (en_utc env 0), run_finished_at = None,
     run_coverage = Some SCRIPTED_COVERAGE, run_reviewer_seats = sc_reviewer_seats sc,
     run_steps = [], run_policy_decisions = [], run_risk_signals = [], run_evidence = [],
     run_artifacts = []\<rparr>"

definition start_state :: "exec_env \<Rightarrow> script \<Rightarrow> workspace \<Rightarrow> agent_run \<Rightarrow> exec_state" where
  "start_state env sc files run = \<lparr>es_outputs = [], es_files = files, es_run = run,
     es_failed = False,
     es_trace = [RunStart \<lparr>th_version = TRACE_VERSION, th_run_id = en_run_id env, th_script = sc,
        th_policy = en_policy env, th_workspace_digest = workspace_digest (en_hash env) files,
        th_coverage = Some SCRIPTED_COVERAGE\<rparr>]\<rparr>"

definition finish_run :: "exec_env \<Rightarrow> script \<Rightarrow> exec_state \<Rightarrow> agent_run \<times> trace_event list" where
  "finish_run env sc st =
     (let status = (if es_failed st then Failed else Completed);
          finished = en_utc env (Suc (length (sc_steps sc)));
          run = (es_run st)\<lparr>run_status := status, run_finished_at := Some finished\<rparr>
      in (run, es_trace st @ [RunEnd status (run_started_at run) (Some finished)]))"

definition execute_script :: "exec_env \<Rightarrow> script \<Rightarrow> workspace \<Rightarrow> pyexn + (agent_run \<times> trace_event list)" where
  "execute_script env sc files =
     (case identity_invariants (start_run env sc) of
        Inl e \<Rightarrow> Inl e
      | Inr run \<Rightarrow>
          (case exec_steps env 0 (sc_steps sc) (start_state env sc files run) of
             Inl e \<Rightarrow> Inl e
           | Inr st \<Rightarrow> Inr (finish_run env sc st)))"

end
