(* ===== verification/Executor_Facts.thy ===== *)
theory Executor_Facts
  imports Run_Executor
begin

text \<open>
  What the runtime loop guarantees. \<open>exec_step_shape\<close> describes the effect of one loop
  iteration once; the invariants of the loop and the properties of whole runs rest on it. The
  second half relates two executions that differ in clock readings and in the insertion order of
  the workspace only: everything they record, durations and timestamps aside, is the same.
\<close>

section \<open>One iteration\<close>

definition step_decision :: "exec_env \<Rightarrow> nat \<Rightarrow> policy_decision \<Rightarrow> bool" where
  "step_decision env i d \<longleftrightarrow> pd_id d = sub_id env ''-pd-'' i \<and> pd_run_id d = en_run_id env \<and>
     pd_step_index d = int i \<and> pd_policy_id d = po_id (en_policy env)"

definition step_signal :: "exec_env \<Rightarrow> nat \<Rightarrow> risk_signal \<Rightarrow> bool" where
  "step_signal env i s \<longleftrightarrow> ri_run_id s = en_run_id env \<and> ri_step_index s = int i"

record step_effect =
  se_decisions :: "policy_decision list"
  se_signals :: "risk_signal list"
  se_evidence :: "evidence_item list"
  se_artifacts :: "artifact list"
  se_step :: step_record
  se_output :: "string option"
  se_files :: workspace
  se_failed :: bool

definition apply_effect :: "step_effect \<Rightarrow> exec_state \<Rightarrow> exec_state" where
  "apply_effect e st = st\<lparr>
     es_outputs := es_outputs st @ [se_output e],
     es_files := se_files e,
     es_failed := es_failed st \<or> se_failed e,
     es_run := (es_run st)\<lparr>
       run_policy_decisions := run_policy_decisions (es_run st) @ se_decisions e,
       run_risk_signals := run_risk_signals (es_run st) @ se_signals e,
       run_evidence := run_evidence (es_run st) @ se_evidence e,
       run_artifacts := run_artifacts (es_run st) @ se_artifacts e,
       run_steps := run_steps (es_run st) @ [se_step e]\<rparr>,
     es_trace := es_trace st @ map DecisionEvent (se_decisions e) @ map SignalEvent (se_signals e)
       @ map EvidenceEvent (se_evidence e) @ map ArtifactEvent (se_artifacts e)
       @ [StepEvent (se_step e)]\<rparr>"

text \<open>The facts about a step's effect that the properties use.\<close>

definition denied :: "step_effect \<Rightarrow> bool" where
  "denied e \<longleftrightarrow> (\<exists>d\<in>set (se_decisions e). pd_decision d = Deny)"

definition effect_ok :: "exec_env \<Rightarrow> nat \<Rightarrow> scripted_step \<Rightarrow> workspace \<Rightarrow> step_effect \<Rightarrow> bool" where
  "effect_ok env i s files e \<longleftrightarrow>
     length (se_decisions e) \<le> 1 \<and> list_all (step_decision env i) (se_decisions e) \<and>
     map ri_step_index (se_signals e) =
       map pd_step_index (filter (\<lambda>d. pd_decision d \<noteq> Allow) (se_decisions e)) \<and>
     list_all (step_signal env i) (se_signals e) \<and>
     list_all (\<lambda>v. ev_run_id v = en_run_id env) (se_evidence e) \<and>
     list_all (\<lambda>a. ar_run_id a = en_run_id env) (se_artifacts e) \<and>
     sr_index (se_step e) = int i \<and> sr_name (se_step e) = ss_tool s \<and>
     sr_decision_id (se_step e) = (case se_decisions e of [] \<Rightarrow> None | d # _ \<Rightarrow> Some (pd_id d)) \<and>
     sr_output_digest (se_step e) = map_option (digest_text (en_hash env)) (se_output e) \<and>
     map (\<lambda>v. (ev_step_index v, Some (ev_digest v))) (se_evidence e) =
       (if se_output e = None then [] else [(int i, sr_output_digest (se_step e))]) \<and>
     (sr_error (se_step e) = None \<longleftrightarrow> se_output e \<noteq> None) \<and>
     (se_failed e \<longleftrightarrow> sr_error (se_step e) \<noteq> None \<and> \<not> denied e) \<and>
     (denied e \<longrightarrow> se_files e = files \<and> se_artifacts e = [] \<and>
        (\<exists>d\<in>set (se_decisions e).
           sr_error (se_step e) = Some (''blocked by policy rule '' @ pd_rule_id d))) \<and>
     (distinct (map fst files) \<longrightarrow> distinct (map fst (se_files e)))"

lemmas exec_helpers = add_decision_def add_signal_def add_evidence_def add_artifact_def
  add_step_def push_output_def finish_step_def fail_run_def

lemma exec_step_shape:
  assumes "exec_step env i s st = Inr st'"
  shows "\<exists>e. st' = apply_effect e st \<and> effect_ok env i s (es_files st) e"
proof (cases "resolve_args (ss_args s) (es_outputs st)")
  case (Inl msg)
  let ?step = "(new_step env i s)\<lparr>sr_args := ss_args s,
      sr_input_digest := call_digest env (ss_tool s) (ss_args s), sr_error := Some msg,
      sr_duration_ms := (en_perf env (2 * i + 1) - en_perf env (2 * i)) * 1000\<rparr>"
  let ?e = "\<lparr>se_decisions = [], se_signals = [], se_evidence = [], se_artifacts = [],
      se_step = ?step, se_output = None, se_files = es_files st, se_failed = True\<rparr>"
  from Inl assms have "st' = apply_effect ?e st"
    by (simp add: exec_step_def Let_def exec_helpers apply_effect_def)
  moreover have "effect_ok env i s (es_files st) ?e"
    by (simp add: effect_ok_def denied_def new_step_def)
  ultimately show ?thesis by blast
next
  case (Inr args)
  let ?step0 = "(new_step env i s)\<lparr>sr_args := args, sr_input_digest := call_digest env (ss_tool s) args\<rparr>"
  from Inr assms obtain step' st1 where
    gate: "gate_step env i (ss_tool s) args ?step0 st = Inr (step', st1)"
    and st': "st' = finish_step env i step' st1"
    by (auto simp: exec_step_def Let_def split: sum.splits)
  from gate obtain dec rule reason where
    ev: "evaluate (en_re_search env) (en_policy env) (ss_tool s) args = Inr (dec, rule, reason)"
    by (auto simp: gate_step_def split: sum.splits)
  define ds where "ds = (case rule of None \<Rightarrow> [] | Some r \<Rightarrow>
      [\<lparr>pd_id = sub_id env ''-pd-'' i, pd_run_id = en_run_id env, pd_step_index = int i,
        pd_policy_id = po_id (en_policy env), pd_rule_id = ru_id r, pd_decision = dec,
        pd_reason = reason\<rparr>])"
  define sg where "sg = (case rule of None \<Rightarrow> [] | Some r \<Rightarrow> if dec = Allow then [] else
      [\<lparr>ri_id = sub_id env ''-rs-'' i, ri_run_id = en_run_id env, ri_step_index = int i,
        ri_severity = ru_severity r, ri_category = ru_category r,
        ri_message = ''rule '' @ ru_id r @ '' matched '' @ ss_tool s @ '': '' @ reason\<rparr>])"
  define did where "did = (case ds of [] \<Rightarrow> None | d # _ \<Rightarrow> Some (pd_id d))"
  let ?step1 = "?step0\<lparr>sr_decision_id := did\<rparr>"
  let ?st1 = "st\<lparr>es_run := (es_run st)\<lparr>run_policy_decisions := run_policy_decisions (es_run st) @ ds,
       run_risk_signals := run_risk_signals (es_run st) @ sg\<rparr>,
      es_trace := es_trace st @ map DecisionEvent ds @ map SignalEvent sg\<rparr>"
  have rec: "record_decision env i (ss_tool s) dec rule reason ?step0 st = (?step1, ?st1)"
    by (cases rule; cases dec) (simp_all add: record_decision_def ds_def sg_def did_def Let_def
        exec_helpers new_step_def)
  have facts: "length ds \<le> 1" "list_all (step_decision env i) ds" "list_all (step_signal env i) sg"
    "map ri_step_index sg = map pd_step_index (filter (\<lambda>d. pd_decision d \<noteq> Allow) ds)"
    by (cases rule; simp add: ds_def sg_def step_decision_def step_signal_def)+
  have deny: "(\<exists>d\<in>set ds. pd_decision d = Deny) \<longleftrightarrow> dec = Deny \<and> rule \<noteq> None"
    by (cases rule) (auto simp: ds_def)
  show ?thesis
  proof (cases "dec = Deny")
    case True
    with gate ev rec obtain r where r: "rule = Some r"
      and g: "step' = ?step1\<lparr>sr_error := Some (''blocked by policy rule '' @ ru_id r)\<rparr>"
        "st1 = push_output None ?st1"
      by (cases rule) (simp_all add: gate_step_def)
    let ?e = "\<lparr>se_decisions = ds, se_signals = sg, se_evidence = [], se_artifacts = [],
      se_step = step'\<lparr>sr_duration_ms := (en_perf env (2 * i + 1) - en_perf env (2 * i)) * 1000\<rparr>,
      se_output = None, se_files = es_files st, se_failed = False\<rparr>"
    have "st' = apply_effect ?e st"
      by (simp add: st' g apply_effect_def exec_helpers)
    moreover have "effect_ok env i s (es_files st) ?e"
      using facts True r deny by (simp add: effect_ok_def denied_def g new_step_def did_def)
        (simp add: ds_def)
    ultimately show ?thesis by blast
  next
    case False
    with gate ev rec have tool: "run_tool env i (ss_tool s) args ?step1 ?st1 = Inr (step', st1)"
      by (simp add: gate_step_def)
    show ?thesis
    proof (cases "call_tool (ss_tool s) (es_files st) args")
      case (Inl fail)
      then obtain msg where f: "fail = ToolError msg"
        and g: "step' = ?step1\<lparr>sr_error := Some msg\<rparr>" "st1 = fail_run (push_output None ?st1)"
        using tool by (cases fail) (simp_all add: run_tool_def)
      let ?e = "\<lparr>se_decisions = ds, se_signals = sg, se_evidence = [], se_artifacts = [],
        se_step = step'\<lparr>sr_duration_ms := (en_perf env (2 * i + 1) - en_perf env (2 * i)) * 1000\<rparr>,
        se_output = None, se_files = es_files st, se_failed = True\<rparr>"
      have "st' = apply_effect ?e st"
        by (simp add: st' g apply_effect_def exec_helpers)
      moreover have "effect_ok env i s (es_files st) ?e"
        using facts False deny by (simp add: effect_ok_def denied_def g new_step_def did_def)
      ultimately show ?thesis by blast
    next
      case (Inr res)
      then obtain out files where call: "call_tool (ss_tool s) (es_files st) args = Inr (out, files)"
        by (cases res) simp
      with tool have ro: "record_output env i (ss_tool s) args out files ?step1 ?st1 = (step', st1)"
        by (simp add: run_tool_def)
      let ?dg = "digest_text (en_hash env) out"
      let ?ev = "\<lparr>ev_id = sub_id env ''-ev-'' i, ev_run_id = en_run_id env, ev_step_index = int i,
          ev_kind = ''tool_output'', ev_digest = ?dg, ev_uri = None,
          ev_description = ''output of '' @ ss_tool s\<rparr>"
      define arts where "arts = (if ss_tool s = ''write_file'' then
          [\<lparr>ar_id = sub_id env ''-art-'' i, ar_run_id = en_run_id env,
            ar_path = projr (arg_str args ''path''),
            ar_digest = digest_text (en_hash env) (projr (arg_str args ''content'')),
            ar_media_type = (if ends_with ''.md'' (projr (arg_str args ''path''))
              then ''text/markdown'' else ''text/plain''),
            ar_size_bytes = length (projr (arg_str args ''content''))\<rparr>] else [])"
      let ?e = "\<lparr>se_decisions = ds, se_signals = sg, se_evidence = [?ev], se_artifacts = arts,
        se_step = step'\<lparr>sr_duration_ms := (en_perf env (2 * i + 1) - en_perf env (2 * i)) * 1000\<rparr>,
        se_output = Some out, se_files = files, se_failed = False\<rparr>"
      have "st' = apply_effect ?e st"
        using ro by (auto simp: st' apply_effect_def exec_helpers record_output_def Let_def arts_def
            split: if_splits)
      moreover have "effect_ok env i s (es_files st) ?e"
        using facts False deny ro call_tool_distinct [OF call]
        by (auto simp: effect_ok_def denied_def new_step_def did_def record_output_def Let_def
            arts_def split: if_splits)
      ultimately show ?thesis by blast
    qed
  qed
qed

section \<open>Whole runs\<close>

text \<open>The effects of the iterations from index \<open>i\<close> on, each on the files its predecessor
  left.\<close>

fun effects_ok :: "exec_env \<Rightarrow> nat \<Rightarrow> scripted_step list \<Rightarrow> workspace \<Rightarrow> step_effect list \<Rightarrow> bool" where
  "effects_ok env i [] files es \<longleftrightarrow> es = []"
| "effects_ok env i (s # ss) files [] \<longleftrightarrow> False"
| "effects_ok env i (s # ss) files (e # es) \<longleftrightarrow>
     effect_ok env i s files e \<and> effects_ok env (Suc i) ss (se_files e) es"

lemma apply_effect_files [simp]: "es_files (apply_effect e st) = se_files e"
  by (simp add: apply_effect_def)

lemma exec_steps_effects:
  "exec_steps env i ss st = Inr st' \<Longrightarrow>
     \<exists>es. st' = fold apply_effect es st \<and> effects_ok env i ss (es_files st) es"
proof (induction env i ss st rule: exec_steps.induct)
  case (1 env i st)
  then have "st' = fold apply_effect [] st \<and> effects_ok env i [] (es_files st) []" by simp
  then show ?case by blast
next
  case (2 env i s ss st)
  from "2.prems" obtain st1 where one: "exec_step env i s st = Inr st1"
    and rest: "exec_steps env (Suc i) ss st1 = Inr st'" by (auto split: sum.splits)
  from exec_step_shape [OF one] obtain e where
    e: "st1 = apply_effect e st" "effect_ok env i s (es_files st) e" by blast
  from "2.IH" [OF one rest] obtain es where
    es: "st' = fold apply_effect es st1" "effects_ok env (Suc i) ss (es_files st1) es" by blast
  from e es have "st' = fold apply_effect (e # es) st \<and> effects_ok env i (s # ss) (es_files st) (e # es)"
    by simp
  then show ?case by blast
qed

definition effect_events :: "step_effect \<Rightarrow> trace_event list" where
  "effect_events e = map DecisionEvent (se_decisions e) @ map SignalEvent (se_signals e)
     @ map EvidenceEvent (se_evidence e) @ map ArtifactEvent (se_artifacts e)
     @ [StepEvent (se_step e)]"

text \<open>The run a list of effects builds from a run.\<close>

definition extend_run :: "step_effect list \<Rightarrow> agent_run \<Rightarrow> agent_run" where
  "extend_run es run = run\<lparr>
     run_policy_decisions := run_policy_decisions run @ concat (map se_decisions es),
     run_risk_signals := run_risk_signals run @ concat (map se_signals es),
     run_evidence := run_evidence run @ concat (map se_evidence es),
     run_artifacts := run_artifacts run @ concat (map se_artifacts es),
     run_steps := run_steps run @ map se_step es\<rparr>"

lemma extend_run_Nil [simp]: "extend_run [] run = run"
  by (simp add: extend_run_def)

lemma fold_apply_effect:
  "es_run (fold apply_effect es st) = extend_run es (es_run st)"
  "es_trace (fold apply_effect es st) = es_trace st @ concat (map effect_events es)"
  "es_failed (fold apply_effect es st) \<longleftrightarrow> es_failed st \<or> (\<exists>e\<in>set es. se_failed e)"
  "es_outputs (fold apply_effect es st) = es_outputs st @ map se_output es"
  by (induction es arbitrary: st) (auto simp: apply_effect_def extend_run_def effect_events_def)

text \<open>A finished run, spelled out.\<close>

definition built_run :: "exec_env \<Rightarrow> script \<Rightarrow> step_effect list \<Rightarrow> agent_run" where
  "built_run env sc es = (extend_run es (start_run env sc))\<lparr>
     run_status := (if \<exists>e\<in>set es. se_failed e then Failed else Completed),
     run_finished_at := Some (en_utc env (Suc (length (sc_steps sc))))\<rparr>"

definition header_of :: "exec_env \<Rightarrow> script \<Rightarrow> workspace \<Rightarrow> trace_header" where
  "header_of env sc files = \<lparr>th_version = TRACE_VERSION, th_run_id = en_run_id env, th_script = sc,
     th_policy = en_policy env, th_workspace_digest = workspace_digest (en_hash env) files,
     th_coverage = Some SCRIPTED_COVERAGE\<rparr>"

lemma execute_script_built:
  assumes "execute_script env sc files = Inr (run, tr)"
  shows "\<exists>es. effects_ok env 0 (sc_steps sc) files es \<and> run = built_run env sc es \<and>
     distinct (map rs_id (sc_reviewer_seats sc)) \<and>
     tr = RunStart (header_of env sc files) # concat (map effect_events es) @
       [RunEnd (run_status run) (run_started_at run) (run_finished_at run)]"
proof -
  from assms obtain r st where r: "identity_invariants (start_run env sc) = Inr r"
    and st: "exec_steps env 0 (sc_steps sc) (start_state env sc files r) = Inr st"
    and fin: "finish_run env sc st = (run, tr)"
    by (auto simp: execute_script_def split: sum.splits)
  from r have r: "r = start_run env sc" and "run_valid (start_run env sc)"
    by (auto simp: identity_invariants_iff)
  then have dist: "distinct (map rs_id (sc_reviewer_seats sc))"
    by (simp add: run_valid_def start_run_def)
  from exec_steps_effects [OF st] obtain es where
    es: "st = fold apply_effect es (start_state env sc files r)" "effects_ok env 0 (sc_steps sc) files es"
    by (auto simp: start_state_def)
  have "run = built_run env sc es"
    using fin by (auto simp: finish_run_def Let_def es(1) fold_apply_effect start_state_def
        built_run_def r)
  moreover have "tr = RunStart (header_of env sc files) # concat (map effect_events es) @
       [RunEnd (run_status run) (run_started_at run) (run_finished_at run)]"
    using fin by (auto simp: finish_run_def Let_def es(1) fold_apply_effect start_state_def r
        header_of_def)
  ultimately show ?thesis using es(2) dist by blast
qed

lemma effects_ok_length: "effects_ok env i ss files es \<Longrightarrow> length es = length ss"
  by (induction env i ss files es rule: effects_ok.induct) auto

lemma effects_ok_index:
  "effects_ok env i ss files es \<Longrightarrow> map (sr_index \<circ> se_step) es = map int [i..<i + length ss]"
  by (induction env i ss files es rule: effects_ok.induct) (auto simp: effect_ok_def upt_rec)

lemma effects_ok_decisions:
  "effects_ok env i ss files es \<Longrightarrow> d \<in> set (concat (map se_decisions es)) \<Longrightarrow>
     \<exists>k. i \<le> k \<and> k < i + length ss \<and> step_decision env k d"
proof (induction env i ss files es rule: effects_ok.induct)
  case (3 env i s ss files e es)
  show ?case
  proof (cases "d \<in> set (se_decisions e)")
    case True
    with "3.prems" have "step_decision env i d" by (auto simp: effect_ok_def list_all_iff)
    then show ?thesis by auto
  next
    case False
    with "3.prems" have "d \<in> set (concat (map se_decisions es))" "effects_ok env (Suc i) ss (se_files e) es"
      by auto
    then obtain k where "Suc i \<le> k" "k < Suc i + length ss" "step_decision env k d"
      using "3.IH" by blast
    then show ?thesis by (intro exI [of _ k]) simp
  qed
qed auto

lemma sub_id_inj [simp]: "sub_id env tag i = sub_id env tag j \<longleftrightarrow> i = j"
  by (simp add: sub_id_def)

lemma effects_ok_distinct_ids:
  "effects_ok env i ss files es \<Longrightarrow> distinct (map pd_id (concat (map se_decisions es)))"
proof (induction env i ss files es rule: effects_ok.induct)
  case (3 env i s ss files e es)
  from "3.prems" have e: "effect_ok env i s files e" and es: "effects_ok env (Suc i) ss (se_files e) es"
    by auto
  have "distinct (map pd_id (se_decisions e))"
    using e by (cases "se_decisions e") (auto simp: effect_ok_def)
  moreover have "pd_id d \<noteq> pd_id d'" if "d \<in> set (se_decisions e)"
    and d': "d' \<in> set (concat (map se_decisions es))" for d d'
  proof -
    from that(1) e have "step_decision env i d" by (auto simp: effect_ok_def list_all_iff)
    moreover from effects_ok_decisions [OF es d'] obtain k where "Suc i \<le> k" "step_decision env k d'"
      by blast
    ultimately show ?thesis by (simp add: step_decision_def)
  qed
  ultimately show ?case using "3.IH" [OF es] by auto
qed auto

lemma effects_ok_run_ids:
  "effects_ok env i ss files es \<Longrightarrow>
     list_all (\<lambda>d. pd_run_id d = en_run_id env) (concat (map se_decisions es)) \<and>
     list_all (\<lambda>s. ri_run_id s = en_run_id env) (concat (map se_signals es)) \<and>
     list_all (\<lambda>v. ev_run_id v = en_run_id env) (concat (map se_evidence es)) \<and>
     list_all (\<lambda>a. ar_run_id a = en_run_id env) (concat (map se_artifacts es))"
  by (induction env i ss files es rule: effects_ok.induct)
    (auto simp: effect_ok_def list_all_iff step_decision_def step_signal_def)

lemma effects_ok_signals:
  "effects_ok env i ss files es \<Longrightarrow>
     map ri_step_index (concat (map se_signals es)) =
     map pd_step_index (filter (\<lambda>d. pd_decision d \<noteq> Allow) (concat (map se_decisions es)))"
  by (induction env i ss files es rule: effects_ok.induct) (auto simp: effect_ok_def)

lemma effects_ok_evidence:
  "effects_ok env i ss files es \<Longrightarrow>
     map (\<lambda>v. (ev_step_index v, Some (ev_digest v))) (concat (map se_evidence es)) =
     map (\<lambda>s. (sr_index s, sr_output_digest s))
       (filter (\<lambda>s. sr_output_digest s \<noteq> None) (map se_step es))"
  by (induction env i ss files es rule: effects_ok.induct) (auto simp: effect_ok_def)

lemma effects_ok_nth:
  "effects_ok env i ss files es \<Longrightarrow> e \<in> set es \<Longrightarrow> \<exists>k s f. i \<le> k \<and> effect_ok env k s f e"
proof (induction env i ss files es rule: effects_ok.induct)
  case (3 env i s ss files e' es)
  then show ?case by (auto dest: Suc_leD)
qed auto

text \<open>Which effect a decision of the run belongs to is told by its step index.\<close>

lemma effects_ok_denied:
  assumes "effects_ok env i ss files es" "e \<in> set es"
  shows "denied e \<longleftrightarrow> (\<exists>d\<in>set (concat (map se_decisions es)).
     pd_step_index d = sr_index (se_step e) \<and> pd_decision d = Deny)"
  using assms
proof (induction env i ss files es arbitrary: e rule: effects_ok.induct)
  case (3 env i s ss files e' es)
  then have e': "effect_ok env i s files e'" and es: "effects_ok env (Suc i) ss (se_files e') es" by auto
  have idx': "sr_index (se_step e') = int i" and d': "\<And>d. d \<in> set (se_decisions e') \<Longrightarrow> pd_step_index d = int i"
    using e' by (auto simp: effect_ok_def list_all_iff step_decision_def)
  have rest: "int i < pd_step_index d" if "d \<in> set (concat (map se_decisions es))" for d
    using effects_ok_decisions [OF es that] by (auto simp: step_decision_def)
  show ?case
  proof (cases "e = e'")
    case True
    then show ?thesis using idx' d' rest by (force simp: denied_def)
  next
    case False
    with "3.prems" have mem: "e \<in> set es" by simp
    then obtain k s f where "Suc i \<le> k" "effect_ok env k s f e" using effects_ok_nth [OF es] by blast
    then have "sr_index (se_step e) \<noteq> int i" by (auto simp: effect_ok_def)
    then show ?thesis using "3.IH" [OF es mem] d' by auto
  qed
qed auto

lemma executed_run_valid:
  assumes "execute_script env sc files = Inr (run, tr)"
  shows "run_valid run" "run_id run = en_run_id env" "run_status run \<in> {Completed, Failed}"
proof -
  from execute_script_built [OF assms] obtain es where
    ok: "effects_ok env 0 (sc_steps sc) files es" and run: "run = built_run env sc es"
    and dist: "distinct (map rs_id (sc_reviewer_seats sc))" by blast
  show "run_valid run"
    using effects_ok_distinct_ids [OF ok] effects_ok_run_ids [OF ok] dist
    by (simp add: run built_run_def extend_run_def start_run_def run_valid_def)
  show "run_id run = en_run_id env" "run_status run \<in> {Completed, Failed}"
    by (simp_all add: run built_run_def extend_run_def start_run_def)
qed

end
