(* ===== verification/Review_Debt.thy ===== *)
theory Review_Debt
  imports Schema_Models
begin

text \<open>
  Review-debt derivation, \<open>packages/schema/aro_schema/review_debt.py\<close>: the versioned
  canonical subject of a run, its digest, the freshness test of an attestation, and the join
  of a run's \<open>needs_review\<close> decisions with its attestations. The abstract contract is
  stated over \<open>clears\<close> (which attestations have the power to clear a decision) and
  \<open>reviewed_record\<close> (what a reviewer stood behind).
\<close>

section \<open>The code\<close>

definition SUBJECT_SCHEMA_VERSION :: nat where
  "SUBJECT_SCHEMA_VERSION = 2"

definition CLEARING_VERSIONS :: "nat list" where
  "CLEARING_VERSIONS = [2]"

definition opt_str :: "string option \<Rightarrow> json" where
  "opt_str x = (case x of None \<Rightarrow> JNull | Some s \<Rightarrow> JStr s)"

definition step_subject :: "step_record \<Rightarrow> json" where
  "step_subject s = JList [JInt (sr_index s), JStr (sr_input_digest s),
     opt_str (sr_output_digest s), opt_str (sr_error s)]"

definition canonical_subject :: "agent_run \<Rightarrow> nat \<Rightarrow> pyexn + json" where
  "canonical_subject run version =
     (if version = 2 then Inr (JObj
        [(''v'', JInt 2),
         (''run_id'', JStr (run_id run)),
         (''task_id'', JStr (run_task_id run)),
         (''agent'', JStr (run_agent run)),
         (''model'', opt_str (run_model run)),
         (''reviewer_seats'', JList (map (\<lambda>s. JList [JStr (rs_id s), JStr (rs_name s),
            JStr (rs_role s), JStr (rs_scope s)]) (run_reviewer_seats run))),
         (''steps'', JList (map step_subject (run_steps run))),
         (''policy_decisions'', JList (map (\<lambda>d. JList [JStr (pd_id d), JInt (pd_step_index d),
            JStr (pd_policy_id d), JStr (pd_rule_id d), JStr (decision_value (pd_decision d)),
            JStr (pd_reason d)]) (run_policy_decisions run)))])
      else if version = 1 then Inr (JObj
        [(''v'', JInt 1),
         (''run_id'', JStr (run_id run)),
         (''steps'', JList (map step_subject (run_steps run))),
         (''policy_decisions'', JList (map (\<lambda>d. JList [JInt (pd_step_index d),
            JStr (pd_rule_id d), JStr (decision_value (pd_decision d))]) (run_policy_decisions run)))])
      else Inl (ValueErr (''unknown subject schema version: '' @ show_nat version)))"

definition run_subject_digest :: "(string \<Rightarrow> string) \<Rightarrow> agent_run \<Rightarrow> nat \<Rightarrow> pyexn + string" where
  "run_subject_digest h run version =
     (case canonical_subject run version of
        Inl e \<Rightarrow> Inl e
      | Inr j \<Rightarrow> Inr (CHR ''v'' # show_nat version @ '':'' @ digest_obj h j))"

text \<open>\<open>_VERSION_RE = ^v(\d+):\<close>, the number it captures.\<close>

definition parse_version :: "string \<Rightarrow> nat option" where
  "parse_version s =
     (case s of
        [] \<Rightarrow> None
      | c # r \<Rightarrow>
          (let ds = takeWhile is_digit r; rest = dropWhile is_digit r in
           if c = CHR ''v'' \<and> ds \<noteq> [] \<and> starts_with '':'' rest then Some (read_nat ds) else None))"

definition subject_matches :: "(string \<Rightarrow> string) \<Rightarrow> agent_run \<Rightarrow> string \<Rightarrow> bool" where
  "subject_matches h run subject_digest =
     (case parse_version subject_digest of
        None \<Rightarrow> False
      | Some version \<Rightarrow>
          (if version \<notin> set CLEARING_VERSIONS then False
           else case run_subject_digest h run version of
             Inl e \<Rightarrow> False
           | Inr d \<Rightarrow> d = subject_digest))"

text \<open>The first loop of \<open>compute_review_debt\<close>: the dict \<open>cleared_by\<close> and the set
  \<open>stale_named\<close>.\<close>

fun join_decisions :: "bool \<Rightarrow> attestation \<Rightarrow> string list \<Rightarrow>
    attestation pydict \<times> string list \<Rightarrow> attestation pydict \<times> string list" where
  "join_decisions fresh a [] st = st"
| "join_decisions fresh a (d # ds) (cleared_by, stale_named) =
     join_decisions fresh a ds
       (if fresh then (dict_setdefault d a cleared_by, stale_named)
        else (cleared_by, d # stale_named))"

fun join_attestations :: "(string \<Rightarrow> string) \<Rightarrow> agent_run \<Rightarrow> attestation list \<Rightarrow>
    attestation pydict \<times> string list \<Rightarrow> attestation pydict \<times> string list" where
  "join_attestations h run [] st = st"
| "join_attestations h run (a # as) st =
     (if at_decision a = Reject then join_attestations h run as st
      else join_attestations h run as
             (join_decisions (subject_matches h run (at_subject_digest a)) a
                (at_clears_decisions a) st))"

definition debt_item :: "agent_run \<Rightarrow> attestation pydict \<times> string list \<Rightarrow> policy_decision \<Rightarrow> review_debt_item" where
  "debt_item run st d =
     (let clearing = map_of (fst st) (pd_id d) in
      \<lparr>rd_decision_id = pd_id d,
       rd_run_id = run_id run,
       rd_step_index = pd_step_index d,
       rd_rule_id = pd_rule_id d,
       rd_reason = pd_reason d,
       rd_status = (if clearing \<noteq> None then ''cleared'' else ''open''),
       rd_cleared_by = map_option at_id clearing,
       rd_attested_by = map_option at_attested_by clearing,
       rd_stale_attestation = (clearing = None \<and> pd_id d \<in> set (snd st))\<rparr>)"

definition compute_review_debt :: "(string \<Rightarrow> string) \<Rightarrow> agent_run \<Rightarrow> attestation list \<Rightarrow> review_debt_item list" where
  "compute_review_debt h run attestations =
     map (debt_item run (join_attestations h run attestations ([], [])))
       (filter (\<lambda>d. pd_decision d = NeedsReview) (run_policy_decisions run))"

section \<open>The contract\<close>

text \<open>The attestations with the power to clear decision \<open>i\<close> of a run, and those that name
  it without that power because the run has changed.\<close>

definition clears :: "(string \<Rightarrow> string) \<Rightarrow> agent_run \<Rightarrow> string \<Rightarrow> attestation \<Rightarrow> bool" where
  "clears h run i a \<longleftrightarrow> at_decision a \<noteq> Reject \<and> i \<in> set (at_clears_decisions a) \<and>
     subject_matches h run (at_subject_digest a)"

definition stale_for :: "(string \<Rightarrow> string) \<Rightarrow> agent_run \<Rightarrow> string \<Rightarrow> attestation \<Rightarrow> bool" where
  "stale_for h run i a \<longleftrightarrow> at_decision a \<noteq> Reject \<and> i \<in> set (at_clears_decisions a) \<and>
     \<not> subject_matches h run (at_subject_digest a)"

text \<open>What a version 2 attestation binds: identity, seats, the step digests and errors, and
  the full policy decisions.\<close>

definition reviewed_record where
  "reviewed_record run =
     (run_id run, run_task_id run, run_agent run, run_model run,
      map (\<lambda>s. (rs_id s, rs_name s, rs_role s, rs_scope s)) (run_reviewer_seats run),
      map (\<lambda>s. (sr_index s, sr_input_digest s, sr_output_digest s, sr_error s)) (run_steps run),
      map (\<lambda>d. (pd_id d, pd_step_index d, pd_policy_id d, pd_rule_id d, pd_decision d, pd_reason d))
        (run_policy_decisions run))"

definition subject_text :: "agent_run \<Rightarrow> string" where
  "subject_text run = (case canonical_subject run 2 of Inr j \<Rightarrow> canonical_json j | Inl _ \<Rightarrow> [])"

section \<open>Lemmas\<close>

lemma map_of_join_decisions:
  "map_of (fst (join_decisions fresh a ds st)) i =
     (case map_of (fst st) i of Some b \<Rightarrow> Some b
      | None \<Rightarrow> if fresh \<and> i \<in> set ds then Some a else None)"
  by (induction fresh a ds st rule: join_decisions.induct) (auto split: option.splits)

lemma stale_join_decisions:
  "set (snd (join_decisions fresh a ds st)) = set (snd st) \<union> (if fresh then {} else set ds)"
  by (induction fresh a ds st rule: join_decisions.induct) auto

lemma map_of_join_attestations:
  "map_of (fst (join_attestations h run as st)) i =
     (case map_of (fst st) i of Some b \<Rightarrow> Some b | None \<Rightarrow> find (clears h run i) as)"
  by (induction h run as st rule: join_attestations.induct)
    (auto simp: map_of_join_decisions clears_def [abs_def] split: option.splits)

lemma stale_join_attestations:
  "i \<in> set (snd (join_attestations h run as st)) \<longleftrightarrow>
     i \<in> set (snd st) \<or> (\<exists>a\<in>set as. stale_for h run i a)"
  by (induction h run as st rule: join_attestations.induct)
    (auto simp: stale_join_decisions stale_for_def)

text \<open>The whole derivation as one comprehension over the contract.\<close>

lemma compute_review_debt_spec:
  "compute_review_debt h run as =
     map (\<lambda>d. \<lparr>rd_decision_id = pd_id d, rd_run_id = run_id run,
        rd_step_index = pd_step_index d, rd_rule_id = pd_rule_id d, rd_reason = pd_reason d,
        rd_status = (if \<exists>a\<in>set as. clears h run (pd_id d) a then ''cleared'' else ''open''),
        rd_cleared_by = map_option at_id (find (clears h run (pd_id d)) as),
        rd_attested_by = map_option at_attested_by (find (clears h run (pd_id d)) as),
        rd_stale_attestation =
          (\<not> (\<exists>a\<in>set as. clears h run (pd_id d) a) \<and> (\<exists>a\<in>set as. stale_for h run (pd_id d) a))\<rparr>)
       (filter (\<lambda>d. pd_decision d = NeedsReview) (run_policy_decisions run))"
  by (auto simp: compute_review_debt_def debt_item_def Let_def map_of_join_attestations
      stale_join_attestations find_None_iff dest: find_Some_mem)

text \<open>The subject's canonical text is injective on the reviewed record.\<close>

lemma opt_str_inject [simp]: "opt_str x = opt_str y \<longleftrightarrow> x = y"
  by (auto simp: opt_str_def split: option.splits)

lemma decision_value_inject [simp]: "decision_value d = decision_value e \<longleftrightarrow> d = e"
  by (cases d; cases e) auto

lemma sort_keys_opt_str [simp]: "sort_keys (opt_str x) = opt_str x"
  by (auto simp: opt_str_def split: option.splits)

lemma sort_keys_step_subject [simp]: "sort_keys (step_subject s) = step_subject s"
  by (simp add: step_subject_def)

lemma sort_keys_subject_2:
  "sort_keys (projr (canonical_subject a 2)) = sort_keys (projr (canonical_subject b 2)) \<longleftrightarrow>
     reviewed_record a = reviewed_record b"
proof -
  have steps: "map step_subject xs = map step_subject ys \<longleftrightarrow>
      map (\<lambda>s. (sr_index s, sr_input_digest s, sr_output_digest s, sr_error s)) xs =
      map (\<lambda>s. (sr_index s, sr_input_digest s, sr_output_digest s, sr_error s)) ys" for xs ys :: "step_record list"
    by (rule map_proj_eq) (simp add: step_subject_def)
  have seats: "map (\<lambda>s. JList [JStr (rs_id s), JStr (rs_name s), JStr (rs_role s), JStr (rs_scope s)]) xs =
      map (\<lambda>s. JList [JStr (rs_id s), JStr (rs_name s), JStr (rs_role s), JStr (rs_scope s)]) ys \<longleftrightarrow>
      map (\<lambda>s. (rs_id s, rs_name s, rs_role s, rs_scope s)) xs =
      map (\<lambda>s. (rs_id s, rs_name s, rs_role s, rs_scope s)) ys" for xs ys :: "reviewer_seat list"
    by (rule map_proj_eq) simp
  have decs: "map (\<lambda>d. JList [JStr (pd_id d), JInt (pd_step_index d), JStr (pd_policy_id d),
        JStr (pd_rule_id d), JStr (decision_value (pd_decision d)), JStr (pd_reason d)]) xs =
      map (\<lambda>d. JList [JStr (pd_id d), JInt (pd_step_index d), JStr (pd_policy_id d),
        JStr (pd_rule_id d), JStr (decision_value (pd_decision d)), JStr (pd_reason d)]) ys \<longleftrightarrow>
      map (\<lambda>d. (pd_id d, pd_step_index d, pd_policy_id d, pd_rule_id d, pd_decision d, pd_reason d)) xs =
      map (\<lambda>d. (pd_id d, pd_step_index d, pd_policy_id d, pd_rule_id d, pd_decision d, pd_reason d)) ys"
    for xs ys :: "policy_decision list" by (rule map_proj_eq) simp
  show ?thesis
    by (auto simp: canonical_subject_def reviewed_record_def comp_def steps [symmetric]
        seats [symmetric] decs [symmetric])
qed

lemma subject_text_inject:
  "subject_text a = subject_text b \<longleftrightarrow> reviewed_record a = reviewed_record b"
  using sort_keys_subject_2 [of a b]
  by (simp add: subject_text_def canonical_subject_def canonical_json_eq_iff)

lemma run_subject_digest_2:
  "run_subject_digest h run 2 = Inr (''v2:sha256:'' @ h (subject_text run))"
  by (simp add: run_subject_digest_def subject_text_def canonical_subject_def digest_obj_def
      show_nat.simps [of 2] digit_char_def char_of_eq_iff char_code_def)

lemma read_nat_2: "read_nat ''2'' = 2"
  by (simp add: read_nat_def char_code_def)

lemma parse_version_v2: "parse_version (''v2:'' @ s) = Some 2"
  by (simp add: parse_version_def is_digit_def char_code_def starts_with_def Let_def read_nat_2)

lemma subject_matches_iff:
  "subject_matches h run d \<longleftrightarrow> d = ''v2:sha256:'' @ h (subject_text run)"
proof
  assume "subject_matches h run d"
  then show "d = ''v2:sha256:'' @ h (subject_text run)"
    by (auto simp: subject_matches_def CLEARING_VERSIONS_def run_subject_digest_2
        split: option.splits if_splits)
next
  assume "d = ''v2:sha256:'' @ h (subject_text run)"
  then show "subject_matches h run d"
    using parse_version_v2 [of "''sha256:'' @ h (subject_text run)"]
    by (simp add: subject_matches_def CLEARING_VERSIONS_def run_subject_digest_2)
qed

section \<open>Properties\<close>

text \<open>
  per-item consumption. The status of the item of a \<open>needs_review\<close> decision is
  "cleared" exactly when some accept or amend attestation names it under the current subject;
  the first such attestation is the one recorded; and a stale naming shows only on an open item.
\<close>

theorem review_debt_items:
  "compute_review_debt h run as =
     map (\<lambda>d. \<lparr>rd_decision_id = pd_id d, rd_run_id = run_id run,
        rd_step_index = pd_step_index d, rd_rule_id = pd_rule_id d, rd_reason = pd_reason d,
        rd_status = (if \<exists>a\<in>set as. clears h run (pd_id d) a then ''cleared'' else ''open''),
        rd_cleared_by = map_option at_id (find (clears h run (pd_id d)) as),
        rd_attested_by = map_option at_attested_by (find (clears h run (pd_id d)) as),
        rd_stale_attestation =
          (\<not> (\<exists>a\<in>set as. clears h run (pd_id d) a) \<and> (\<exists>a\<in>set as. stale_for h run (pd_id d) a))\<rparr>)
       (filter (\<lambda>d. pd_decision d = NeedsReview) (run_policy_decisions run))"
  by (rule compute_review_debt_spec)

text \<open>
  C11: clearing is bound to content. An attestation stamped on run \<open>a\<close> is fresh for run
  \<open>b\<close> exactly when the two have the same reviewed record (identity, seats, step digests,
  full decisions), or their two different subject texts collide under SHA-256; timestamps,
  status, coverage, signals, evidence and artifacts never make it stale.
\<close>

theorem subject_binds_reviewed_record:
  "(\<exists>d. run_subject_digest h a SUBJECT_SCHEMA_VERSION = Inr d \<and> subject_matches h b d) \<longleftrightarrow>
     reviewed_record a = reviewed_record b \<or>
     (subject_text a \<noteq> subject_text b \<and> h (subject_text a) = h (subject_text b))"
  by (auto simp: SUBJECT_SCHEMA_VERSION_def run_subject_digest_2 subject_matches_iff
      subject_text_inject [symmetric])

text \<open>
  reject attestations, run-level endorsements (no decision named) and digests of any
  version but 2 clear nothing: only the remaining attestations decide every item's status and
  attribution.
\<close>

theorem powerless_attestations:
  "map rd_status (compute_review_debt h run as) =
     map rd_status (compute_review_debt h run
       (filter (\<lambda>a. at_decision a \<noteq> Reject \<and> at_clears_decisions a \<noteq> [] \<and>
          parse_version (at_subject_digest a) = Some 2) as)) \<and>
   map rd_cleared_by (compute_review_debt h run as) =
     map rd_cleared_by (compute_review_debt h run
       (filter (\<lambda>a. at_decision a \<noteq> Reject \<and> at_clears_decisions a \<noteq> [] \<and>
          parse_version (at_subject_digest a) = Some 2) as))"
proof -
  let ?Q = "\<lambda>a. at_decision a \<noteq> Reject \<and> at_clears_decisions a \<noteq> [] \<and>
          parse_version (at_subject_digest a) = Some 2"
  have Q: "?Q a" if "clears h run i a" for i a
    using that parse_version_v2 [of "''sha256:'' @ h (subject_text run)"]
    by (auto simp: clears_def subject_matches_iff)
  then have "(\<exists>a\<in>set as. clears h run i a) \<longleftrightarrow> (\<exists>a\<in>set (filter ?Q as). clears h run i a)" for i
    by auto
  moreover have "find (clears h run i) (filter ?Q as) = find (clears h run i) as" for i
    by (rule find_filter) (rule Q)
  ultimately show ?thesis
    by (simp add: compute_review_debt_spec)
qed

text \<open>
  a later attestation never reopens or re-attributes a cleared item: while the run is
  unchanged, every item that was cleared stays cleared by the same attestation and the same human.
\<close>

theorem clearing_is_stable:
  assumes "i < length (compute_review_debt h run as)"
    and "rd_status (compute_review_debt h run as ! i) = ''cleared''"
  shows "compute_review_debt h run (as @ bs) ! i = compute_review_debt h run as ! i"
proof -
  let ?ds = "filter (\<lambda>d. pd_decision d = NeedsReview) (run_policy_decisions run)"
  let ?d = "?ds ! i"
  have i: "i < length ?ds" using assms(1) by (simp add: compute_review_debt_spec)
  then have ex: "\<exists>a\<in>set as. clears h run (pd_id ?d) a"
    using assms(2) by (simp add: compute_review_debt_spec split: if_splits)
  then obtain a where "find (clears h run (pd_id ?d)) as = Some a"
    by (metis find_None_iff not_Some_eq)
  then show ?thesis
    using i ex by (auto simp: compute_review_debt_spec find_append_Some)
qed

definition demo_run :: agent_run where
  "demo_run = \<lparr>run_id = ''r'', run_task_id = ''t'', run_agent = ''a'', run_model = None,
     run_status = Completed, run_started_at = None, run_finished_at = None, run_coverage = None,
     run_reviewer_seats = [], run_steps = [],
     run_policy_decisions = [\<lparr>pd_id = ''r-pd-0'', pd_run_id = ''r'', pd_step_index = 0,
       pd_policy_id = ''p'', pd_rule_id = ''q'', pd_decision = NeedsReview, pd_reason = ''x''\<rparr>],
     run_risk_signals = [], run_evidence = [], run_artifacts = []\<rparr>"

definition demo_attestation :: attestation where
  "demo_attestation = \<lparr>at_id = ''att'', at_run_id = ''r'', at_seat_id = Some ''s'',
     at_decision = Accept, at_declared_scope = ''d'', at_excluded_scope = [], at_labels = [],
     at_proposed_by = None, at_attested_by = ''h'', at_note = [],
     at_subject_digest = ''v2:sha256:'', at_attested_at = 0, at_clears_decisions = [''r-pd-0'']\<rparr>"

theorem clearing_is_stable_witness:
  "compute_review_debt (\<lambda>_. []) demo_run ([demo_attestation] @ [demo_attestation]) ! 0 =
     compute_review_debt (\<lambda>_. []) demo_run [demo_attestation] ! 0"
proof (rule clearing_is_stable)
  show "0 < length (compute_review_debt (\<lambda>_. []) demo_run [demo_attestation])"
    by (simp add: compute_review_debt_spec demo_run_def)
  show "rd_status (compute_review_debt (\<lambda>_. []) demo_run [demo_attestation] ! 0) = ''cleared''"
    by (simp add: compute_review_debt_spec demo_run_def demo_attestation_def clears_def
        subject_matches_iff)
qed

end
