(* ===== verification/Run_Properties.thy ===== *)
theory Run_Properties
  imports Executor_Facts Review_Debt
begin

text \<open>
  Properties of finished runs, and the simulation that makes replay meaningful: two executions of
  a script under the same policy that differ only in clock readings and in the insertion order
  of the workspace record the same things.
\<close>

section \<open>A small concrete run\<close>

text \<open>A bundle that denies the shell and flags reads, a script that writes a file, reads it back
  and tries the shell; used to show that the hypotheses below can hold.\<close>

definition demo_rule :: "string \<Rightarrow> string \<Rightarrow> decision \<Rightarrow> policy_rule" where
  "demo_rule i tool act = \<lparr>ru_id = i, ru_description = [], ru_tool = Some tool, ru_args_regex = None,
     ru_domain_not_in = None, ru_action = act, ru_severity = Medium, ru_category = ''policy''\<rparr>"

definition demo_policy :: "decision \<Rightarrow> policy_rule list \<Rightarrow> policy" where
  "demo_policy dflt rules = \<lparr>po_id = ''p'', po_description = [], po_default = dflt, po_rules = rules\<rparr>"

definition demo_env :: "policy \<Rightarrow> exec_env" where
  "demo_env pol = \<lparr>en_re_search = (\<lambda>_ _. None), en_hash = (\<lambda>t. t), en_utc = int,
     en_perf = (\<lambda>_. 0), en_policy = pol, en_run_id = ''run-1''\<rparr>"

definition demo_step :: "string \<Rightarrow> json pydict \<Rightarrow> scripted_step" where
  "demo_step tool args = \<lparr>ss_tool = tool, ss_args = args, ss_allocated_to = [], ss_supports_goal = ''unknown''\<rparr>"

definition demo_script :: "scripted_step list \<Rightarrow> script" where
  "demo_script steps = \<lparr>sc_task = \<lparr>ta_id = ''t'', ta_title = [], ta_goal_id = ''g'', ta_created_at = 0\<rparr>,
     sc_goal = \<lparr>go_id = ''g'', go_statement = [], go_constraints = [], go_owner_seat_id = ''s''\<rparr>,
     sc_reviewer_seats = [\<lparr>rs_id = ''s'', rs_name = ''n'', rs_role = ''r'', rs_scope = ''c''\<rparr>],
     sc_agent = ''scripted@0.1'', sc_model = None, sc_steps = steps\<rparr>"

definition guarded :: exec_env where
  "guarded = demo_env (demo_policy Allow [demo_rule ''no-shell'' ''shell'' Deny, demo_rule ''reads'' ''read_file'' NeedsReview])"

definition three_steps :: script where
  "three_steps = demo_script
     [demo_step ''write_file'' [(''path'', JStr ''a.md''), (''content'', JStr ''hi'')],
      demo_step ''read_file'' [(''path'', JStr ''a.md'')],
      demo_step ''shell'' [(''cmd'', JStr ''cat ${step:1.output}'')]]"

lemma three_steps_run: "\<exists>run tr. execute_script guarded three_steps [(''b'', ''x'')] = Inr (run, tr)"
proof -
  have "(case execute_script guarded three_steps [(''b'', ''x'')] of Inr _ \<Rightarrow> True | Inl _ \<Rightarrow> False)"
    by code_simp
  then show ?thesis by (auto split: sum.splits)
qed

section \<open>What a finished run satisfies\<close>

text \<open>
  C9: a finished run satisfies the identity invariants the store re-validates on load, so a run
  the runtime produced can always be read back; it holds one step per scripted step, numbered
  from 0, and its status is final.
\<close>

theorem finished_run_valid:
  assumes "execute_script env sc files = Inr (run, tr)"
  shows "identity_invariants run = Inr run \<and>
    map sr_index (run_steps run) = map int [0..<length (sc_steps sc)] \<and>
    run_status run \<in> {Completed, Failed}"
proof -
  from execute_script_built [OF assms] obtain es where
    "effects_ok env 0 (sc_steps sc) files es" and run: "run = built_run env sc es" by blast
  from effects_ok_index [OF this(1)] have "map sr_index (run_steps run) = map int [0..<length (sc_steps sc)]"
    by (simp add: run built_run_def extend_run_def start_run_def)
  with executed_run_valid [OF assms] show ?thesis by simp
qed

theorem finished_run_valid_witness:
  "\<exists>run tr. execute_script guarded three_steps [(''b'', ''x'')] = Inr (run, tr) \<and>
     identity_invariants run = Inr run \<and>
     map sr_index (run_steps run) = map int [0..<length (sc_steps three_steps)] \<and>
     run_status run \<in> {Completed, Failed}"
proof -
  from three_steps_run obtain run tr where r: "execute_script guarded three_steps [(''b'', ''x'')] = Inr (run, tr)"
    by blast
  from finished_run_valid [OF r] r show ?thesis by blast
qed

text \<open>
  governance is not an error. A run fails exactly when some step has an error that is not a
  policy denial of that very step.
\<close>

theorem failed_iff_tool_error:
  assumes "execute_script env sc files = Inr (run, tr)"
  shows "run_status run = Failed \<longleftrightarrow>
    (\<exists>s\<in>set (run_steps run). sr_error s \<noteq> None \<and>
       \<not> (\<exists>d\<in>set (run_policy_decisions run). pd_step_index d = sr_index s \<and> pd_decision d = Deny))"
proof -
  from execute_script_built [OF assms] obtain es where
    ok: "effects_ok env 0 (sc_steps sc) files es" and run: "run = built_run env sc es" by blast
  have failed: "se_failed e \<longleftrightarrow> sr_error (se_step e) \<noteq> None \<and> \<not> denied e" if "e \<in> set es" for e
    using effects_ok_nth [OF ok that] by (auto simp: effect_ok_def)
  have "run_status run = Failed \<longleftrightarrow> (\<exists>e\<in>set es. se_failed e)"
    by (simp add: run built_run_def)
  also have "\<dots> \<longleftrightarrow> (\<exists>e\<in>set es. sr_error (se_step e) \<noteq> None \<and>
      \<not> (\<exists>d\<in>set (concat (map se_decisions es)).
          pd_step_index d = sr_index (se_step e) \<and> pd_decision d = Deny))"
    using failed effects_ok_denied [OF ok] by blast
  finally show ?thesis
    by (simp add: run built_run_def extend_run_def start_run_def)
qed

theorem failed_iff_tool_error_witness:
  "\<exists>run tr. execute_script guarded three_steps [(''b'', ''x'')] = Inr (run, tr) \<and>
     (run_status run = Failed \<longleftrightarrow>
    (\<exists>s\<in>set (run_steps run). sr_error s \<noteq> None \<and>
       \<not> (\<exists>d\<in>set (run_policy_decisions run). pd_step_index d = sr_index s \<and> pd_decision d = Deny)))"
proof -
  from three_steps_run obtain run tr where r: "execute_script guarded three_steps [(''b'', ''x'')] = Inr (run, tr)"
    by blast
  from failed_iff_tool_error [OF r] r show ?thesis by blast
qed

text \<open>
  C10: nothing a rule flags goes unrecorded. The run's risk signals are, in order, one for each
  recorded decision other than allow; and its evidence items are, in order, one for each step
  that produced an output, with that output's digest.
\<close>

theorem signals_and_evidence_complete:
  assumes "execute_script env sc files = Inr (run, tr)"
  shows "map ri_step_index (run_risk_signals run) =
      map pd_step_index (filter (\<lambda>d. pd_decision d \<noteq> Allow) (run_policy_decisions run)) \<and>
    map (\<lambda>v. (ev_step_index v, Some (ev_digest v))) (run_evidence run) =
      map (\<lambda>s. (sr_index s, sr_output_digest s))
        (filter (\<lambda>s. sr_output_digest s \<noteq> None) (run_steps run))"
proof -
  from execute_script_built [OF assms] obtain es where
    ok: "effects_ok env 0 (sc_steps sc) files es" and run: "run = built_run env sc es" by blast
  show ?thesis
    using effects_ok_signals [OF ok] effects_ok_evidence [OF ok]
    by (simp add: run built_run_def extend_run_def start_run_def)
qed

theorem signals_and_evidence_complete_witness:
  "\<exists>run tr. execute_script guarded three_steps [(''b'', ''x'')] = Inr (run, tr) \<and>
     map ri_step_index (run_risk_signals run) =
      map pd_step_index (filter (\<lambda>d. pd_decision d \<noteq> Allow) (run_policy_decisions run)) \<and>
     map (\<lambda>v. (ev_step_index v, Some (ev_digest v))) (run_evidence run) =
      map (\<lambda>s. (sr_index s, sr_output_digest s))
        (filter (\<lambda>s. sr_output_digest s \<noteq> None) (run_steps run))"
proof -
  from three_steps_run obtain run tr where r: "execute_script guarded three_steps [(''b'', ''x'')] = Inr (run, tr)"
    by blast
  from signals_and_evidence_complete [OF r] r show ?thesis by blast
qed

text \<open>
  C8: a denied step has no effect. When a rule denies the resolved call, the loop goes on with
  the files untouched, no evidence and no artifact; it records the decision, one risk signal and a
  step whose error names the rule, offers no output to later steps, and does not fail the run.
\<close>

theorem denied_step_has_no_effect:
  assumes "resolve_args (ss_args s) (es_outputs st) = Inr args"
    and "evaluate (en_re_search env) (en_policy env) (ss_tool s) args = Inr (Deny, Some r, reason)"
  shows "\<exists>st' step. exec_step env i s st = Inr st' \<and>
     es_files st' = es_files st \<and> es_failed st' = es_failed st \<and>
     es_outputs st' = es_outputs st @ [None] \<and>
     run_evidence (es_run st') = run_evidence (es_run st) \<and>
     run_artifacts (es_run st') = run_artifacts (es_run st) \<and>
     run_steps (es_run st') = run_steps (es_run st) @ [step] \<and>
     sr_error step = Some (''blocked by policy rule '' @ ru_id r) \<and> sr_output_digest step = None \<and>
     length (run_policy_decisions (es_run st')) = Suc (length (run_policy_decisions (es_run st))) \<and>
     length (run_risk_signals (es_run st')) = Suc (length (run_risk_signals (es_run st)))"
  using assms
  by (simp add: exec_step_def gate_step_def record_decision_def Let_def exec_helpers new_step_def)

definition demo_state :: exec_state where
  "demo_state = start_state guarded three_steps [(''b'', ''x'')] (start_run guarded three_steps)"

theorem denied_step_has_no_effect_witness:
  "\<exists>st' step. exec_step guarded 0 (demo_step ''shell'' [(''cmd'', JStr ''ls'')]) demo_state = Inr st' \<and>
     es_files st' = es_files demo_state \<and> es_failed st' = es_failed demo_state \<and>
     es_outputs st' = es_outputs demo_state @ [None] \<and>
     run_evidence (es_run st') = run_evidence (es_run demo_state) \<and>
     run_artifacts (es_run st') = run_artifacts (es_run demo_state) \<and>
     run_steps (es_run st') = run_steps (es_run demo_state) @ [step] \<and>
     sr_error step = Some (''blocked by policy rule '' @ ru_id (demo_rule ''no-shell'' ''shell'' Deny)) \<and>
     sr_output_digest step = None \<and>
     length (run_policy_decisions (es_run st')) = Suc (length (run_policy_decisions (es_run demo_state))) \<and>
     length (run_risk_signals (es_run st')) = Suc (length (run_risk_signals (es_run demo_state)))"
proof (rule denied_step_has_no_effect)
  show "resolve_args (ss_args (demo_step ''shell'' [(''cmd'', JStr ''ls'')])) (es_outputs demo_state) =
      Inr [(''cmd'', JStr ''ls'')]" by code_simp
  show "evaluate (en_re_search guarded) (en_policy guarded)
      (ss_tool (demo_step ''shell'' [(''cmd'', JStr ''ls'')])) [(''cmd'', JStr ''ls'')] =
      Inr (Deny, Some (demo_rule ''no-shell'' ''shell'' Deny), ''rule no-shell matched tool shell'')"
    by code_simp
qed

section \<open>Bundle defaults\<close>

text \<open>
  a bundle whose default denies aborts the run. When no rule matches a resolvable call and
  the bundle default is deny, the step raises an \<open>AttributeError\<close> (the message is built
  from \<open>rule.id\<close> and there is no rule) instead of recording a blocked step.
\<close>

theorem default_deny_aborts:
  assumes "resolve_args (ss_args s) (es_outputs st) = Inr args"
    and "list_all (\<lambda>q. rule_matches (en_re_search env) q (ss_tool s) args = Inr False)
           (po_rules (en_policy env))"
    and "po_default (en_policy env) = Deny"
  shows "exec_step env i s st = Inl (AttributeErr ''id'')"
proof -
  have "evaluate (en_re_search env) (en_policy env) (ss_tool s) args =
      Inr (Deny, None, ''no rule matched; bundle default applied'')"
    using assms(2,3) by (simp add: evaluate_def evaluate_rules_None)
  with assms(1) show ?thesis
    by (simp add: exec_step_def gate_step_def record_decision_def Let_def)
qed

theorem default_deny_aborts_witness:
  "exec_step (demo_env (demo_policy Deny [])) 0 (demo_step ''shell'' [(''cmd'', JStr ''ls'')]) demo_state =
     Inl (AttributeErr ''id'')"
proof (rule default_deny_aborts)
  show "resolve_args (ss_args (demo_step ''shell'' [(''cmd'', JStr ''ls'')])) (es_outputs demo_state) =
      Inr [(''cmd'', JStr ''ls'')]" by code_simp
qed (simp_all add: demo_env_def demo_policy_def)

lemma exec_steps_no_rules:
  "exec_steps env i ss st = Inr st' \<Longrightarrow> po_rules (en_policy env) = [] \<Longrightarrow>
     run_policy_decisions (es_run st') = run_policy_decisions (es_run st)"
proof (induction env i ss st rule: exec_steps.induct)
  case (2 env i s ss st)
  from "2.prems" obtain st1 where one: "exec_step env i s st = Inr st1"
    and rest: "exec_steps env (Suc i) ss st1 = Inr st'" by (auto split: sum.splits)
  have "run_policy_decisions (es_run st1) = run_policy_decisions (es_run st)"
    using one "2.prems"(2)
    by (auto simp: exec_step_def gate_step_def evaluate_def record_decision_def run_tool_def
        record_output_def Let_def exec_helpers split: sum.splits tool_failure.splits if_splits)
  with "2.IH" [OF one rest "2.prems"(2)] show ?case by simp
qed simp

text \<open>
  a bundle whose default is \<open>needs_review\<close> owes nothing. With no rules, every step
  falls through to the default, yet no decision is recorded, the verdict is trusted and there is
  no review debt: only matching rules, never the default, create decisions.
\<close>

theorem default_needs_review_unrecorded:
  assumes "execute_script env sc files = Inr (run, tr)"
    and "po_rules (en_policy env) = []" "po_default (en_policy env) = NeedsReview"
  shows "run_policy_decisions run = [] \<and> verdict run = Trusted \<and> compute_review_debt h run as = []"
proof -
  have "run_policy_decisions run = []"
    using assms(1) exec_steps_no_rules [OF _ assms(2)]
    by (fastforce simp: execute_script_def finish_run_def Let_def start_state_def start_run_def
        identity_invariants_iff split: sum.splits)
  then show ?thesis by (simp add: verdict_def compute_review_debt_def)
qed

theorem default_needs_review_unrecorded_witness:
  "\<exists>run tr. execute_script (demo_env (demo_policy NeedsReview [])) three_steps [] = Inr (run, tr) \<and>
     run_policy_decisions run = [] \<and> verdict run = Trusted \<and>
     compute_review_debt (\<lambda>_. []) run [] = []"
proof -
  have "(case execute_script (demo_env (demo_policy NeedsReview [])) three_steps [] of Inr _ \<Rightarrow> True | Inl _ \<Rightarrow> False)"
    by code_simp
  then obtain run tr where r: "execute_script (demo_env (demo_policy NeedsReview [])) three_steps [] = Inr (run, tr)"
    by (auto split: sum.splits)
  have "po_rules (en_policy (demo_env (demo_policy NeedsReview []))) = []"
    "po_default (en_policy (demo_env (demo_policy NeedsReview []))) = NeedsReview"
    by (simp_all add: demo_env_def demo_policy_def)
  from default_needs_review_unrecorded [OF r this] r show ?thesis by blast
qed

section \<open>Executions under different clocks\<close>

text \<open>A run without its clock readings.\<close>

definition strip_step :: "step_record \<Rightarrow> step_record" where
  "strip_step s = s\<lparr>sr_started_at := 0, sr_duration_ms := 0\<rparr>"

definition run_core :: "agent_run \<Rightarrow> agent_run" where
  "run_core r = r\<lparr>run_started_at := None, run_finished_at := None,
     run_steps := map strip_step (run_steps r)\<rparr>"

definition same_env :: "exec_env \<Rightarrow> exec_env \<Rightarrow> bool" where
  "same_env a b \<longleftrightarrow> en_re_search a = en_re_search b \<and> en_hash a = en_hash b \<and>
     en_policy a = en_policy b \<and> en_run_id a = en_run_id b"

definition sim :: "exec_state \<Rightarrow> exec_state \<Rightarrow> bool" where
  "sim s t \<longleftrightarrow> es_outputs s = es_outputs t \<and> same_files (es_files s) (es_files t) \<and>
     run_core (es_run s) = run_core (es_run t) \<and> es_failed s = es_failed t"

definition sim_pair :: "step_record \<times> exec_state \<Rightarrow> step_record \<times> exec_state \<Rightarrow> bool" where
  "sim_pair p q \<longleftrightarrow> strip_step (fst p) = strip_step (fst q) \<and> sim (snd p) (snd q)"

lemma sub_id_env: "same_env a b \<Longrightarrow> sub_id a = sub_id b"
  by (simp add: same_env_def sub_id_def fun_eq_iff)

lemma call_digest_env: "same_env a b \<Longrightarrow> call_digest a = call_digest b"
  by (intro ext) (simp add: same_env_def call_digest_def)

lemmas sim_defs = sim_def sim_pair_def run_core_def strip_step_def exec_helpers

lemma sim_decision: "sim s t \<Longrightarrow> sim (add_decision d s) (add_decision d t)"
  by (cases "es_run s"; cases "es_run t") (simp add: sim_defs)

lemma sim_signal: "sim s t \<Longrightarrow> sim (add_signal d s) (add_signal d t)"
  by (cases "es_run s"; cases "es_run t") (simp add: sim_defs)

lemma sim_evidence: "sim s t \<Longrightarrow> sim (add_evidence d s) (add_evidence d t)"
  by (cases "es_run s"; cases "es_run t") (simp add: sim_defs)

lemma sim_artifact: "sim s t \<Longrightarrow> sim (add_artifact d s) (add_artifact d t)"
  by (cases "es_run s"; cases "es_run t") (simp add: sim_defs)

lemma sim_step: "sim s t \<Longrightarrow> strip_step x = strip_step y \<Longrightarrow> sim (add_step x s) (add_step y t)"
  by (cases "es_run s"; cases "es_run t") (simp add: sim_defs)

lemma sim_output: "sim s t \<Longrightarrow> sim (push_output x s) (push_output x t)"
  by (simp add: sim_def push_output_def)

lemma sim_fail: "sim s t \<Longrightarrow> sim (fail_run s) (fail_run t)"
  by (simp add: sim_def fail_run_def)

lemma sim_files: "sim s t \<Longrightarrow> same_files f g \<Longrightarrow> sim (s\<lparr>es_files := f\<rparr>) (t\<lparr>es_files := g\<rparr>)"
  by (simp add: sim_def)

lemmas sim_intros = sim_decision sim_signal sim_evidence sim_artifact sim_output sim_fail sim_files

lemma strip_step_update:
  "strip_step x = strip_step y \<Longrightarrow> strip_step (x\<lparr>sr_decision_id := d\<rparr>) = strip_step (y\<lparr>sr_decision_id := d\<rparr>)"
  "strip_step x = strip_step y \<Longrightarrow> strip_step (x\<lparr>sr_error := e\<rparr>) = strip_step (y\<lparr>sr_error := e\<rparr>)"
  "strip_step x = strip_step y \<Longrightarrow> strip_step (x\<lparr>sr_kind := k\<rparr>) = strip_step (y\<lparr>sr_kind := k\<rparr>)"
  "strip_step x = strip_step y \<Longrightarrow>
     strip_step (x\<lparr>sr_output_digest := o1, sr_output_preview := o2\<rparr>) =
     strip_step (y\<lparr>sr_output_digest := o1, sr_output_preview := o2\<rparr>)"
  "strip_step x = strip_step y \<Longrightarrow>
     strip_step (x\<lparr>sr_args := as, sr_input_digest := i\<rparr>) = strip_step (y\<lparr>sr_args := as, sr_input_digest := i\<rparr>)"
  "strip_step x = strip_step y \<Longrightarrow> strip_step (x\<lparr>sr_duration_ms := u\<rparr>) = strip_step (y\<lparr>sr_duration_ms := v\<rparr>)"
  by (cases x; cases y; simp add: strip_step_def)+

lemma sim_record_decision:
  assumes "same_env a b" "sim s t" "strip_step x = strip_step y"
  shows "sim_pair (record_decision a i tool dec rule reason x s) (record_decision b i tool dec rule reason y t)"
  using assms
  by (cases rule) (auto simp: record_decision_def Let_def sim_pair_def sub_id_env [OF assms(1)]
      same_env_def intro!: sim_intros strip_step_update)

lemma sim_record_output:
  assumes "same_env a b" "sim s t" "strip_step x = strip_step y" "same_files f g"
  shows "sim_pair (record_output a i tool args out f x s) (record_output b i tool args out g y t)"
  using assms
  by (auto simp: record_output_def Let_def sim_pair_def sub_id_env [OF assms(1)] same_env_def
      intro!: sim_intros strip_step_update)

lemma sim_run_tool:
  assumes "same_env a b" "sim s t" "strip_step x = strip_step y"
  shows "rel_sum (=) sim_pair (run_tool a i tool args x s) (run_tool b i tool args y t)"
proof -
  have "same_result (call_tool tool (es_files s) args) (call_tool tool (es_files t) args)"
    by (rule call_tool_same) (use assms(2) in \<open>simp add: sim_def\<close>)
  then show ?thesis
    using assms sim_record_output [OF assms]
    by (cases "call_tool tool (es_files s) args")
      (auto simp: run_tool_def sim_pair_def split: tool_failure.splits
        intro!: sim_intros strip_step_update)
qed

lemma sim_gate_step:
  assumes "same_env a b" "sim s t" "strip_step x = strip_step y"
  shows "rel_sum (=) sim_pair (gate_step a i tool args x s) (gate_step b i tool args y t)"
proof (cases "evaluate (en_re_search a) (en_policy a) tool args")
  case (Inl e)
  with assms(1) show ?thesis by (simp add: gate_step_def same_env_def)
next
  case (Inr res)
  obtain dec rule reason where res: "res = (dec, rule, reason)" by (cases res)
  obtain x1 s1 where ra: "record_decision a i tool dec rule reason x s = (x1, s1)" by fastforce
  obtain y1 t1 where rb: "record_decision b i tool dec rule reason y t = (y1, t1)" by fastforce
  from sim_record_decision [OF assms, of i tool dec rule reason] ra rb
  have "strip_step x1 = strip_step y1" "sim s1 t1" by (simp_all add: sim_pair_def)
  with Inr res ra rb assms(1) sim_run_tool [OF assms(1) \<open>sim s1 t1\<close> \<open>strip_step x1 = strip_step y1\<close>]
  show ?thesis
    by (cases rule) (auto simp: gate_step_def same_env_def sim_pair_def
        intro!: sim_intros strip_step_update)
qed

lemma sim_finish_step:
  "sim s t \<Longrightarrow> strip_step x = strip_step y \<Longrightarrow> sim (finish_step a i x s) (finish_step b i y t)"
  unfolding finish_step_def by (intro sim_step strip_step_update)

lemma strip_new_step: "strip_step (new_step a i s) = strip_step (new_step b i s)"
  by (simp add: strip_step_def new_step_def)

lemma sim_exec_step:
  assumes "same_env a b" "sim s t"
  shows "rel_sum (=) sim (exec_step a i step s) (exec_step b i step t)"
proof -
  have outs: "es_outputs s = es_outputs t" using assms(2) by (simp add: sim_def)
  show ?thesis
  proof (cases "resolve_args (ss_args step) (es_outputs s)")
    case (Inl msg)
    have "sim (finish_step a i ((new_step a i step)\<lparr>sr_args := ss_args step,
          sr_input_digest := call_digest a (ss_tool step) (ss_args step), sr_error := Some msg\<rparr>)
          (fail_run (push_output None s)))
        (finish_step b i ((new_step b i step)\<lparr>sr_args := ss_args step,
          sr_input_digest := call_digest b (ss_tool step) (ss_args step), sr_error := Some msg\<rparr>)
          (fail_run (push_output None t)))"
      unfolding call_digest_env [OF assms(1)]
      by (intro sim_finish_step sim_intros assms strip_step_update strip_new_step)
    with Inl outs show ?thesis by (simp add: exec_step_def Let_def)
  next
    case (Inr args)
    let ?x = "(new_step a i step)\<lparr>sr_args := args, sr_input_digest := call_digest a (ss_tool step) args\<rparr>"
    let ?y = "(new_step b i step)\<lparr>sr_args := args, sr_input_digest := call_digest b (ss_tool step) args\<rparr>"
    have "strip_step ?x = strip_step ?y"
      unfolding call_digest_env [OF assms(1)] by (intro strip_step_update strip_new_step)
    from sim_gate_step [OF assms this, of i "ss_tool step" args]
    have gate: "rel_sum (=) sim_pair (gate_step a i (ss_tool step) args ?x s) (gate_step b i (ss_tool step) args ?y t)" .
    with Inr outs show ?thesis
      by (cases rule: rel_sum.cases [OF gate])
        (auto simp: exec_step_def Let_def sim_pair_def intro!: sim_finish_step)
  qed
qed

lemma sim_exec_steps:
  assumes "same_env a b"
  shows "sim s t \<Longrightarrow> rel_sum (=) sim (exec_steps a i ss s) (exec_steps b i ss t)"
proof (induction ss arbitrary: i s t)
  case (Cons x ss)
  from sim_exec_step [OF assms Cons.prems, of i x] Cons.IH show ?case
    by (cases "exec_step a i x s"; cases "exec_step b i x t") auto
qed simp

lemma sim_start:
  assumes "same_env a b" "same_files f g"
  shows "sim (start_state a sc f (start_run a sc)) (start_state b sc g (start_run b sc))"
  using assms by (simp add: sim_def start_state_def run_core_def start_run_def same_env_def)

lemma run_core_finish:
  "sim s t \<Longrightarrow> run_core (fst (finish_run a sc s)) = run_core (fst (finish_run b sc t))"
  by (cases "es_run s"; cases "es_run t") (simp add: sim_def finish_run_def Let_def run_core_def)

lemma execute_script_same_core:
  assumes env: "same_env a b" and files: "same_files f g"
    and run: "execute_script a sc f = Inr (run, tr)"
  shows "\<exists>run' tr'. execute_script b sc g = Inr (run', tr') \<and> run_core run' = run_core run"
proof -
  have ids: "identity_invariants (start_run a sc) = Inr r \<longleftrightarrow> identity_invariants (start_run b sc) = Inr (start_run b sc) \<and> r = start_run a sc"
    for r by (auto simp: identity_invariants_iff start_run_def run_valid_def)
  from run obtain st where ok: "identity_invariants (start_run a sc) = Inr (start_run a sc)"
    and st: "exec_steps a 0 (sc_steps sc) (start_state a sc f (start_run a sc)) = Inr st"
    and fin: "finish_run a sc st = (run, tr)"
    by (auto simp: execute_script_def identity_invariants_iff split: sum.splits)
  from sim_exec_steps [OF env sim_start [OF env files, of sc], of 0 "sc_steps sc"] st
  obtain st' where st': "exec_steps b 0 (sc_steps sc) (start_state b sc g (start_run b sc)) = Inr st'"
    and "sim st st'" by (auto simp: rel_sum.simps)
  from run_core_finish [OF \<open>sim st st'\<close>, of a sc b] fin
  have "run_core (fst (finish_run b sc st')) = run_core run" by simp
  moreover have "execute_script b sc g = Inr (finish_run b sc st')"
    using ok ids st' by (simp add: execute_script_def)
  ultimately show ?thesis by (metis prod.collapse)
qed

text \<open>
  a run is determined by script, policy, run id and workspace content. Executing again under
  other clock readings and with the workspace files inserted in another order succeeds and
  records the same run, timestamps and durations aside.
\<close>

theorem execution_deterministic:
  assumes "same_env a b" "same_files f g" "execute_script a sc f = Inr (run, tr)"
  shows "\<exists>run' tr'. execute_script b sc g = Inr (run', tr') \<and> run_core run' = run_core run"
  using assms by (rule execute_script_same_core)

theorem execution_deterministic_witness:
  "\<exists>run tr run' tr'. execute_script guarded three_steps [(''b'', ''x''), (''c'', ''y'')] = Inr (run, tr) \<and>
     execute_script (guarded\<lparr>en_utc := (\<lambda>_. 7)\<rparr>) three_steps [(''c'', ''y''), (''b'', ''x'')] = Inr (run', tr') \<and>
     run_core run' = run_core run"
proof -
  have "(case execute_script guarded three_steps [(''b'', ''x''), (''c'', ''y'')] of Inr _ \<Rightarrow> True | Inl _ \<Rightarrow> False)"
    by code_simp
  then obtain run tr where r: "execute_script guarded three_steps [(''b'', ''x''), (''c'', ''y'')] = Inr (run, tr)"
    by (auto split: sum.splits)
  have "same_env guarded (guarded\<lparr>en_utc := (\<lambda>_. 7)\<rparr>)" by (simp add: same_env_def)
  moreover have "same_files [(''b'', ''x''), (''c'', ''y'')] [(''c'', ''y''), (''b'', ''x'')]"
    by (simp add: same_files_def)
  ultimately show ?thesis using execution_deterministic [OF _ _ r] r by blast
qed

end
