(* ===== verification/Py_Lines.thy ===== *)
theory Py_Lines
  imports Prelude
begin

text \<open>
  Texts of lines: when \<open>str.splitlines\<close> gives back the lines that were written, and the decimal integers
  that \<open>int\<close> reads from a text.
\<close>

section \<open>Lines\<close>

text \<open>A text without any of the boundaries of \<open>splitlines\<close>.\<close>

fun no_breaks :: "string \<Rightarrow> bool" where
  "no_breaks [] \<longleftrightarrow> True"
| "no_breaks (c # cs) \<longleftrightarrow> line_break (c # cs) = 0 \<and> no_breaks cs"

lemma line_break_prefix:
  assumes "line_break (c # cs) = 0"
  shows "line_break (c # cs @ [CHR 0x0A] @ u) = 0"
  using assms
  by (cases cs; cases "tl cs")
    (auto simp: line_break_def nth_append char_code_def split: if_splits list.splits)

lemma splitlines_from_line:
  "no_breaks s \<Longrightarrow>
     splitlines_from 0 acc (s @ CHR 0x0A # u) = (rev acc @ s) # splitlines_from 0 [] u"
proof (induction s arbitrary: acc)
  case Nil
  show ?case by (simp add: line_break_def char_code_def)
next
  case (Cons c cs)
  with line_break_prefix [of c cs u] show ?case by simp
qed

lemma splitlines_lines:
  "\<forall>l\<in>set ls. no_breaks l \<Longrightarrow> splitlines_from 0 [] (concat (map (\<lambda>l. l @ [CHR 0x0A]) ls)) = ls"
  by (induction ls) (auto simp: splitlines_from_line)

text \<open>\<open>"\n".join(ls) + "\n"\<close> ends every line.\<close>

lemma join_newline: "ls \<noteq> [] \<Longrightarrow> join [CHR 0x0A] ls @ [CHR 0x0A] = concat (map (\<lambda>l. l @ [CHR 0x0A]) ls)"
proof (induction ls)
  case (Cons l ls)
  then show ?case by (cases ls) simp_all
qed simp

lemma splitlines_joined:
  "ls \<noteq> [] \<Longrightarrow> \<forall>l \<in> set ls. no_breaks l \<Longrightarrow> splitlines (join [CHR 0x0A] ls @ [CHR 0x0A]) = ls"
  by (simp add: join_newline splitlines_def splitlines_lines)

text \<open>ASCII texts without control characters have no boundary.\<close>

definition printable :: "string \<Rightarrow> bool" where
  "printable s \<longleftrightarrow> (\<forall>c \<in> set s. 32 \<le> char_code c \<and> char_code c < 127)"

lemma printable_no_breaks: "printable s \<Longrightarrow> no_breaks s"
  by (induction s) (auto simp: printable_def line_break_def)

section \<open>Words\<close>

definition is_letter :: "char \<Rightarrow> bool" where
  "is_letter c \<longleftrightarrow> (65 \<le> char_code c \<and> char_code c \<le> 90) \<or> (97 \<le> char_code c \<and> char_code c \<le> 122)"

definition word_char :: "char \<Rightarrow> bool" where
  "word_char c \<longleftrightarrow> is_letter c \<or> is_digit c \<or> c = CHR ''_''"

text \<open>\<open>s.partition(p)\<close> at the first occurrence of a non-empty \<open>p\<close>, if there is one.\<close>

fun cut_at :: "string \<Rightarrow> string \<Rightarrow> (string \<times> string) option" where
  "cut_at p [] = (if p = [] then Some ([], []) else None)"
| "cut_at p (c # cs) =
     (if starts_with p (c # cs) then Some ([], drop (length p) (c # cs))
      else map_option (\<lambda>(a, b). (c # a, b)) (cut_at p cs))"

lemma cut_at_Some: "cut_at p s = Some (a, b) \<Longrightarrow> s = a @ p @ b"
proof (induction s arbitrary: a)
  case (Cons c cs)
  then show ?case by (auto simp: starts_with_iff split: if_splits)
qed (auto split: if_splits)

lemma cut_at_None: "cut_at p s = None \<longleftrightarrow> \<not> contains p s"
  by (induction s) (auto simp: contains.simps)

section \<open>Decimal texts\<close>

text \<open>\<open>int(s)\<close> on ASCII: white space around, a sign, digits with single underscores between them. The
  accumulator says whether the last character was a digit.\<close>

fun grouped_digits :: "bool \<Rightarrow> string \<Rightarrow> bool" where
  "grouped_digits prev [] \<longleftrightarrow> prev"
| "grouped_digits prev (c # cs) \<longleftrightarrow>
     (if is_digit c then grouped_digits True cs else c = CHR ''_'' \<and> prev \<and> grouped_digits False cs)"

definition py_int :: "string \<Rightarrow> int option" where
  "py_int s =
     (let t = strip s;
          neg = (t \<noteq> [] \<and> hd t = CHR ''-'');
          u = (if t \<noteq> [] \<and> hd t \<in> {CHR ''-'', CHR ''+''} then tl t else t)
      in if grouped_digits False u
         then Some (if neg then - int (read_nat (filter is_digit u)) else int (read_nat (filter is_digit u)))
         else None)"

lemma grouped_digits_digits: "\<forall>c \<in> set s. is_digit c \<Longrightarrow> grouped_digits prev s \<longleftrightarrow> s \<noteq> [] \<or> prev"
  by (induction s arbitrary: prev) auto

lemma strip_id: "s = [] \<or> (\<not> py_space (hd s) \<and> \<not> py_space (last s)) \<Longrightarrow> strip s = s"
proof -
  assume a: "s = [] \<or> (\<not> py_space (hd s) \<and> \<not> py_space (last s))"
  then have l: "lstrip s = s" by (cases s) (simp_all add: lstrip_def)
  from a have "dropWhile py_space (rev s) = rev s" by (cases s rule: rev_cases) auto
  with l show ?thesis by (simp add: strip_def rstrip_by_def)
qed

lemma digit_not_space: "is_digit c \<Longrightarrow> \<not> py_space c"
  by (auto simp: is_digit_def py_space_def)

lemma py_int_show_nat [simp]: "py_int (show_nat n) = Some (int n)"
proof -
  have d: "\<forall>c \<in> set (show_nat n). is_digit c" using show_nat_digits by blast
  then have h: "is_digit (hd (show_nat n))" "is_digit (last (show_nat n))" by simp_all
  then have "strip (show_nat n) = show_nat n" by (simp add: strip_id digit_not_space)
  moreover have "filter is_digit (show_nat n) = show_nat n" using d by (simp add: filter_id_conv)
  moreover have "hd (show_nat n) \<noteq> CHR ''-'' \<and> hd (show_nat n) \<noteq> CHR ''+''"
    using h(1) by (auto simp: is_digit_def char_code_def)
  ultimately show ?thesis using d by (simp add: py_int_def Let_def grouped_digits_digits)
qed

lemma printable_show_nat: "printable (show_nat n)"
  using show_nat_digits [of _ n] by (auto simp: printable_def is_digit_def dest!: show_nat_digits)

end
