(* ===== verification/Trace_Log.thy ===== *)
theory Trace_Log
  imports Run_Properties Py_Lines
begin

text \<open>
  Trace files, \<open>packages/runtime/aro_runtime/trace.py\<close>. \<open>load_trace_file\<close> is the reader as it is: the
  lines of the text by \<open>splitlines\<close>, one JSON document for each, and the loop over the documents. What Python's
  \<open>json\<close> and Pydantic do with a single document is a parameter, a \<open>trace_json\<close>. \<open>load_trace\<close> is the same loop
  over events that are already typed; \<open>load_written_trace\<close> shows when the two agree on a written file.
\<close>

section \<open>Events\<close>

definition loaded_run :: "trace_header \<Rightarrow> agent_run" where
  "loaded_run h = \<lparr>run_id = th_run_id h, run_task_id = ta_id (sc_task (th_script h)),
     run_agent = sc_agent (th_script h), run_model = sc_model (th_script h), run_status = Running,
     run_started_at = None, run_finished_at = None, run_coverage = th_coverage h,
     run_reviewer_seats = [], run_steps = [], run_policy_decisions = [], run_risk_signals = [],
     run_evidence = [], run_artifacts = []\<rparr>"

text \<open>The branches of the loop once a run exists.\<close>

fun load_event :: "trace_event \<Rightarrow> trace_header \<times> agent_run \<Rightarrow> trace_header \<times> agent_run" where
  "load_event (RunStart h) _ = (h, loaded_run h)"
| "load_event (StepEvent s) (h, r) = (h, r\<lparr>run_steps := run_steps r @ [s]\<rparr>)"
| "load_event (DecisionEvent d) (h, r) = (h, r\<lparr>run_policy_decisions := run_policy_decisions r @ [d]\<rparr>)"
| "load_event (SignalEvent s) (h, r) = (h, r\<lparr>run_risk_signals := run_risk_signals r @ [s]\<rparr>)"
| "load_event (EvidenceEvent e) (h, r) = (h, r\<lparr>run_evidence := run_evidence r @ [e]\<rparr>)"
| "load_event (ArtifactEvent a) (h, r) = (h, r\<lparr>run_artifacts := run_artifacts r @ [a]\<rparr>)"
| "load_event (RunEnd status started finished) (h, r) =
     (h, r\<lparr>run_status := status,
           run_started_at := (if started \<noteq> None then started else run_started_at r),
           run_finished_at := (if finished \<noteq> None then finished else run_finished_at r)\<rparr>)"

fun load_events :: "(trace_header \<times> agent_run) option \<Rightarrow> trace_event list \<Rightarrow>
    pyexn + (trace_header \<times> agent_run) option" where
  "load_events st [] = Inr st"
| "load_events None (ev # evs) =
     (case ev of
        RunStart h \<Rightarrow> load_events (Some (h, loaded_run h)) evs
      | _ \<Rightarrow> Inl (ValueErr ''trace has events before run_start''))"
| "load_events (Some st) (ev # evs) = load_events (Some (load_event ev st)) evs"

definition load_trace :: "trace_event list \<Rightarrow> pyexn + (trace_header \<times> agent_run)" where
  "load_trace evs =
     (case load_events None evs of
        Inl e \<Rightarrow> Inl e
      | Inr None \<Rightarrow> Inl (ValueErr ''trace has no run_start event'')
      | Inr (Some hr) \<Rightarrow> Inr hr)"

section \<open>Lines\<close>

text \<open>\<open>TraceWriter.event\<close>: \<open>json.dumps(..., ensure_ascii=False)\<close> with the default
  separators, and a newline.\<close>

definition event_text :: "json \<Rightarrow> string" where
  "event_text j = json_dumps '', '' '': '' j"

definition event_line :: "json \<Rightarrow> string" where
  "event_line j = event_text j @ [CHR 0x0A]"

text \<open>\<open>[line for line in text.splitlines() if line.strip()]\<close>\<close>

definition read_lines :: "string \<Rightarrow> string list" where
  "read_lines txt = filter (\<lambda>l. strip l \<noteq> []) (splitlines txt)"

section \<open>Files\<close>

text \<open>The \<open>type\<close> the writer gives an event, and the kinds the reader has a branch for.\<close>

fun event_kind :: "trace_event \<Rightarrow> string" where
  "event_kind (RunStart _) = ''run_start''"
| "event_kind (StepEvent _) = ''step''"
| "event_kind (DecisionEvent _) = ''policy_decision''"
| "event_kind (SignalEvent _) = ''risk_signal''"
| "event_kind (EvidenceEvent _) = ''evidence''"
| "event_kind (ArtifactEvent _) = ''artifact''"
| "event_kind (RunEnd _ _ _) = ''run_end''"

definition EVENT_KINDS :: "string list" where
  "EVENT_KINDS = [''run_start'', ''step'', ''policy_decision'', ''risk_signal'', ''evidence'', ''artifact'', ''run_end'']"

text \<open>
  The library calls on one document: \<open>tj_dump\<close> is \<open>{"type": type_, **payload}\<close> with Pydantic's
  \<open>model_dump(mode="json")\<close> of the payload, \<open>tj_dumps\<close> is \<open>json.dumps(..., ensure_ascii=False)\<close>,
  \<open>tj_loads\<close> is \<open>json.loads\<close>, \<open>tj_type\<close> is \<open>ev["type"]\<close> and \<open>tj_event\<close> Pydantic's \<open>model_validate\<close> in the
  branch of that type.
\<close>

record 'v trace_json =
  tj_dump :: "trace_event \<Rightarrow> 'v"
  tj_dumps :: "'v \<Rightarrow> string"
  tj_loads :: "string \<Rightarrow> pyexn + 'v"
  tj_type :: "'v \<Rightarrow> pyexn + string"
  tj_event :: "'v \<Rightarrow> pyexn + trace_event"

text \<open>\<open>TraceWriter.event\<close>: the document of an event and a newline.\<close>

definition write_event :: "'v trace_json \<Rightarrow> trace_event \<Rightarrow> string" where
  "write_event c ev = tj_dumps c (tj_dump c ev) @ [CHR 0x0A]"

definition trace_text :: "'v trace_json \<Rightarrow> trace_event list \<Rightarrow> string" where
  "trace_text c evs = concat (map (write_event c) evs)"

text \<open>The loop of \<open>load_trace\<close> over the loaded documents: a type without a branch is skipped, once there is a run.\<close>

definition advance_load :: "(trace_header \<times> agent_run) option \<Rightarrow> trace_event \<Rightarrow> (trace_header \<times> agent_run) option" where
  "advance_load st ev = (case ev of RunStart h \<Rightarrow> Some (h, loaded_run h) | _ \<Rightarrow> map_option (load_event ev) st)"

fun load_docs :: "'v trace_json \<Rightarrow> (trace_header \<times> agent_run) option \<Rightarrow> 'v list \<Rightarrow>
    pyexn + (trace_header \<times> agent_run) option" where
  "load_docs c st [] = Inr st"
| "load_docs c st (doc # docs) =
     (case tj_type c doc of
        Inl e \<Rightarrow> Inl e
      | Inr kind \<Rightarrow>
          if kind \<noteq> ''run_start'' \<and> st = None then Inl (ValueErr ''trace has events before run_start'')
          else if kind \<notin> set EVENT_KINDS then load_docs c st docs
          else case tj_event c doc of
            Inl e \<Rightarrow> Inl e
          | Inr ev \<Rightarrow> load_docs c (advance_load st ev) docs)"

definition load_trace_file :: "'v trace_json \<Rightarrow> string \<Rightarrow> pyexn + (trace_header \<times> agent_run)" where
  "load_trace_file c txt =
     (case sequence (map (tj_loads c) (read_lines txt)) of
        Inl e \<Rightarrow> Inl e
      | Inr docs \<Rightarrow>
          (case load_docs c None docs of
             Inl e \<Rightarrow> Inl e
           | Inr None \<Rightarrow> Inl (ValueErr ''trace has no run_start event'')
           | Inr (Some hr) \<Rightarrow> Inr hr))"

text \<open>
  What the libraries document of an event they can represent: the document is read back from its text, has the
  type it was given and validates to the event. And what they do not promise: that the text is one line for
  \<open>splitlines\<close>.
\<close>

definition reads_back :: "'v trace_json \<Rightarrow> trace_event \<Rightarrow> bool" where
  "reads_back c ev \<longleftrightarrow> tj_loads c (tj_dumps c (tj_dump c ev)) = Inr (tj_dump c ev) \<and>
     tj_type c (tj_dump c ev) = Inr (event_kind ev) \<and> tj_event c (tj_dump c ev) = Inr ev"

definition one_line :: "'v trace_json \<Rightarrow> trace_event \<Rightarrow> bool" where
  "one_line c ev \<longleftrightarrow> no_breaks (tj_dumps c (tj_dump c ev)) \<and> strip (tj_dumps c (tj_dump c ev)) \<noteq> []"

section \<open>Lemmas\<close>

lemma read_lines_written:
  assumes "\<forall>l\<in>set ls. no_breaks l \<and> strip l \<noteq> []"
  shows "read_lines (concat (map (\<lambda>l. l @ [CHR 0x0A]) ls)) = ls"
  using splitlines_lines [of ls] assms by (simp add: read_lines_def splitlines_def filter_id_conv)

lemma event_kind_known [simp]: "event_kind ev \<in> set EVENT_KINDS"
  by (cases ev) (simp_all add: EVENT_KINDS_def)

lemma event_kind_start: "event_kind ev = ''run_start'' \<longleftrightarrow> (\<exists>h. ev = RunStart h)"
  by (cases ev) simp_all

lemma load_docs_events:
  assumes "\<forall>ev\<in>set evs. reads_back c ev"
  shows "load_docs c st (map (tj_dump c) evs) = load_events st evs"
  using assms
proof (induction evs arbitrary: st)
  case (Cons ev evs)
  then have "reads_back c ev" and IH: "load_docs c st (map (tj_dump c) evs) = load_events st evs" for st by auto
  then show ?case
    by (cases st; cases ev) (simp_all add: reads_back_def advance_load_def EVENT_KINDS_def IH)
qed simp

text \<open>A written file is read as the list of its events.\<close>

lemma load_written_trace:
  assumes "\<forall>ev\<in>set evs. reads_back c ev \<and> one_line c ev"
  shows "load_trace_file c (trace_text c evs) = load_trace evs"
proof -
  let ?text = "\<lambda>ev. tj_dumps c (tj_dump c ev)"
  have "trace_text c evs = concat (map (\<lambda>l. l @ [CHR 0x0A]) (map ?text evs))"
    by (simp add: trace_text_def write_event_def [abs_def] comp_def)
  then have "read_lines (trace_text c evs) = map ?text evs"
    using assms by (simp add: read_lines_written one_line_def del: map_map)
  moreover have "sequence (map (tj_loads c) (map ?text evs)) = Inr (map (tj_dump c) evs)"
    using assms by (induction evs) (simp_all add: reads_back_def)
  ultimately show ?thesis
    using load_docs_events [of evs c None] assms
    by (simp add: load_trace_file_def load_trace_def)
qed

lemma load_events_Some:
  "load_events (Some st) evs = Inr (Some (fold load_event evs st))"
  by (induction evs arbitrary: st) auto

lemma fold_load_decisions:
  "fold load_event (map DecisionEvent ds) (h, r) = (h, r\<lparr>run_policy_decisions := run_policy_decisions r @ ds\<rparr>)"
  by (induction ds arbitrary: r) simp_all

lemma fold_load_signals:
  "fold load_event (map SignalEvent ss) (h, r) = (h, r\<lparr>run_risk_signals := run_risk_signals r @ ss\<rparr>)"
  by (induction ss arbitrary: r) simp_all

lemma fold_load_evidence:
  "fold load_event (map EvidenceEvent es) (h, r) = (h, r\<lparr>run_evidence := run_evidence r @ es\<rparr>)"
  by (induction es arbitrary: r) simp_all

lemma fold_load_artifacts:
  "fold load_event (map ArtifactEvent as) (h, r) = (h, r\<lparr>run_artifacts := run_artifacts r @ as\<rparr>)"
  by (induction as arbitrary: r) simp_all

lemmas fold_load_maps = fold_load_decisions fold_load_signals fold_load_evidence fold_load_artifacts

lemma fold_load_effects:
  "fold load_event (concat (map effect_events es)) (h, r) = (h, extend_run es r)"
  by (induction es arbitrary: r) (simp_all add: effect_events_def fold_load_maps extend_run_def)

lemma load_trace_executed:
  assumes "execute_script env sc files = Inr (run, tr)"
  shows "load_trace tr = Inr (header_of env sc files, run\<lparr>run_reviewer_seats := []\<rparr>)"
proof -
  from execute_script_built [OF assms] obtain es where
    run: "run = built_run env sc es" and
    tr: "tr = RunStart (header_of env sc files) # concat (map effect_events es) @
       [RunEnd (run_status run) (run_started_at run) (run_finished_at run)]" by blast
  have "load_trace tr = Inr (load_event (RunEnd (run_status run) (run_started_at run) (run_finished_at run))
      (header_of env sc files, extend_run es (loaded_run (header_of env sc files))))"
    by (simp add: load_trace_def tr load_events_Some fold_load_effects)
  then show ?thesis
    by (simp add: run built_run_def extend_run_def loaded_run_def header_of_def start_run_def)
qed

section \<open>Properties\<close>

text \<open>
  reading back a trace gives the recorded run. Loading the events of a successful execution
  restores the header and every field of the run except the reviewer seats, which come back empty.
\<close>

theorem trace_roundtrip:
  assumes "execute_script env sc files = Inr (run, tr)"
  shows "load_trace tr = Inr (header_of env sc files, run\<lparr>run_reviewer_seats := []\<rparr>)"
  using assms by (rule load_trace_executed)

theorem trace_roundtrip_witness:
  "\<exists>run tr. execute_script guarded three_steps [(''b'', ''x'')] = Inr (run, tr) \<and>
     load_trace tr = Inr (header_of guarded three_steps [(''b'', ''x'')], run\<lparr>run_reviewer_seats := []\<rparr>)"
  using three_steps_run trace_roundtrip by blast

text \<open>
  the run rebuilt from a trace is not the run a reviewer attested. A valid script declares a
  seat (the goal's owner), so the loaded run's reviewed record, which the subject digest binds,
  always differs from that of the run that was stored.
\<close>

theorem trace_loses_seats:
  assumes "execute_script env sc files = Inr (run, tr)" "mk_script sc = Inr sc"
  shows "\<exists>h loaded. load_trace tr = Inr (h, loaded) \<and> reviewed_record loaded \<noteq> reviewed_record run"
proof -
  from execute_script_built [OF assms(1)] have seats: "run_reviewer_seats run = sc_reviewer_seats sc"
    by (auto simp: built_run_def extend_run_def start_run_def)
  from assms(2) have "sc_reviewer_seats sc \<noteq> []"
    by (auto simp: mk_script_def owner_seat_is_declared_def split: sum.splits if_splits)
  with seats show ?thesis
    using load_trace_executed [OF assms(1)] by (simp add: reviewed_record_def)
qed

theorem trace_loses_seats_witness:
  "\<exists>run tr h loaded. execute_script guarded three_steps [(''b'', ''x'')] = Inr (run, tr) \<and>
     load_trace tr = Inr (h, loaded) \<and> reviewed_record loaded \<noteq> reviewed_record run"
proof -
  have "mk_script three_steps = Inr three_steps" by code_simp
  with three_steps_run trace_loses_seats show ?thesis by blast
qed

text \<open>
  one event per line. If no event's JSON text contains a line boundary of
  \<open>str.splitlines\<close>, reading the file gives back the texts of the events in order.
\<close>

theorem lines_roundtrip:
  assumes "\<forall>j\<in>set js. no_breaks (event_text j) \<and> strip (event_text j) \<noteq> []"
  shows "read_lines (concat (map event_line js)) = map event_text js"
proof -
  have "concat (map event_line js) = concat (map (\<lambda>l. l @ [CHR 0x0A]) (map event_text js))"
    by (induction js) (simp_all add: event_line_def)
  moreover have "filter (\<lambda>l. strip l \<noteq> []) (map event_text js) = map event_text js"
    using assms by (simp add: filter_id_conv)
  ultimately show ?thesis
    using splitlines_lines [of "map event_text js"] assms by (simp add: read_lines_def splitlines_def)
qed

theorem lines_roundtrip_witness:
  "read_lines (concat (map event_line [JObj [(''type'', JStr ''a b'')], JObj [(''type'', JStr [CHR 0x0A])]])) =
     [event_text (JObj [(''type'', JStr ''a b'')]), event_text (JObj [(''type'', JStr [CHR 0x0A])])]"
proof -
  have "read_lines (concat (map event_line [JObj [(''type'', JStr ''a b'')], JObj [(''type'', JStr [CHR 0x0A])]])) =
     map event_text [JObj [(''type'', JStr ''a b'')], JObj [(''type'', JStr [CHR 0x0A])]]"
    by (rule lines_roundtrip) code_simp
  then show ?thesis by simp
qed

text \<open>
  the hypothesis is needed. The writer leaves U+2028 (like U+2029 and U+0085) unescaped, and
  the reader splits there: a single event whose text holds that character comes back as two
  fragments, neither of them the event.
\<close>

theorem line_separator_splits_event:
  "let j = JObj [(''output_preview'', JStr (''a'' @ [CHR 0xE2, CHR 0x80, CHR 0xA8] @ ''b''))] in
     length (read_lines (event_line j)) = 2 \<and> event_text j \<notin> set (read_lines (event_line j))"
  by code_simp

end
