(* ===== verification/Replay.thy ===== *)
theory Replay
  imports Trace_Log
begin

text \<open>
  Replay, \<open>packages/runtime/aro_runtime/replay.py\<close>: the script, policy and run id recorded in
  a trace are executed again on a fresh workspace and the two runs are compared step by step.
  The contract is \<open>same_observed\<close>: a report is clean exactly when the two runs agree
  on what replay observes of them.
\<close>

section \<open>Model\<close>

text \<open>\<open>{d.step_index: d for d in run.policy_decisions}\<close>, then
  \<open>f"{d.rule_id}:{d.decision.value}"\<close> of the entry of a step.\<close>

definition decisions_by_step :: "agent_run \<Rightarrow> int \<rightharpoonup> policy_decision" where
  "decisions_by_step run = fold (\<lambda>d m. m(pd_step_index d \<mapsto> d)) (run_policy_decisions run) Map.empty"

definition decision_label :: "agent_run \<Rightarrow> nat \<Rightarrow> string option" where
  "decision_label run i =
     map_option (\<lambda>d. pd_rule_id d @ CHR '':'' # decision_value (pd_decision d))
       (decisions_by_step run (int i))"

definition field_divergence :: "nat \<Rightarrow> string \<Rightarrow> string option \<Rightarrow> string option \<Rightarrow> step_divergence list" where
  "field_divergence i field a b =
     (if a = b then []
      else [\<lparr>sd_step_index = int i, sd_field = field, sd_recorded = a, sd_replayed = b\<rparr>])"

text \<open>The body of the comparison loop.\<close>

definition compare_step :: "agent_run \<Rightarrow> agent_run \<Rightarrow> nat \<Rightarrow> step_divergence list" where
  "compare_step recorded fresh i =
     (if length (run_steps recorded) \<le> i
      then [\<lparr>sd_step_index = int i, sd_field = ''extra_step'', sd_recorded = None,
             sd_replayed = Some (sr_name (run_steps fresh ! i))\<rparr>]
      else if length (run_steps fresh) \<le> i
      then [\<lparr>sd_step_index = int i, sd_field = ''missing_step'',
             sd_recorded = Some (sr_name (run_steps recorded ! i)), sd_replayed = None\<rparr>]
      else let r = run_steps recorded ! i; n = run_steps fresh ! i in
        field_divergence i ''input_digest'' (Some (sr_input_digest r)) (Some (sr_input_digest n)) @
        field_divergence i ''output_digest'' (sr_output_digest r) (sr_output_digest n) @
        field_divergence i ''error'' (sr_error r) (sr_error n) @
        field_divergence i ''policy_decision'' (decision_label recorded i) (decision_label fresh i))"

definition workspace_divergence :: "string \<Rightarrow> string \<Rightarrow> step_divergence list" where
  "workspace_divergence recorded now =
     (if recorded \<noteq> [] \<and> now \<noteq> recorded
      then [\<lparr>sd_step_index = - 1, sd_field = ''workspace_digest'', sd_recorded = Some recorded,
             sd_replayed = Some now\<rparr>]
      else [])"

text \<open>\<open>env\<close> supplies the hash, the regular expressions and the clocks; policy and run id
  are those of the trace.\<close>

definition replay_env :: "exec_env \<Rightarrow> trace_header \<Rightarrow> agent_run \<Rightarrow> exec_env" where
  "replay_env env h recorded = env\<lparr>en_policy := th_policy h, en_run_id := run_id recorded\<rparr>"

definition replay_report_of :: "int \<Rightarrow> string \<Rightarrow> trace_header \<Rightarrow> agent_run \<Rightarrow> agent_run \<Rightarrow> replay_report" where
  "replay_report_of now ws_digest h recorded fresh =
     (let total = max (length (run_steps recorded)) (length (run_steps fresh)) in
      \<lparr>rr_run_id = run_id recorded, rr_replayed_at = now, rr_steps_compared = total,
       rr_divergences = workspace_divergence (th_workspace_digest h) ws_digest @
         concat (map (compare_step recorded fresh) [0..<total])\<rparr>)"

definition replay_recorded :: "exec_env \<Rightarrow> int \<Rightarrow> trace_header \<times> agent_run \<Rightarrow> workspace \<Rightarrow> pyexn + replay_report" where
  "replay_recorded env now hr files =
     (case hr of (h, recorded) \<Rightarrow>
       (case mk_script (th_script h) of
          Inl e \<Rightarrow> Inl e
        | Inr sc \<Rightarrow>
            (case execute_script (replay_env env h recorded) sc files of
               Inl e \<Rightarrow> Inl e
             | Inr (fresh, _) \<Rightarrow>
                 Inr (replay_report_of now (workspace_digest (en_hash env) files) h recorded fresh))))"

text \<open>The replay of a trace file, and of a trace whose events are already loaded.\<close>

definition replay_file :: "'v trace_json \<Rightarrow> exec_env \<Rightarrow> int \<Rightarrow> string \<Rightarrow> workspace \<Rightarrow> pyexn + replay_report" where
  "replay_file c env now txt files =
     (case load_trace_file c txt of Inl e \<Rightarrow> Inl e | Inr hr \<Rightarrow> replay_recorded env now hr files)"

definition replay_trace :: "exec_env \<Rightarrow> int \<Rightarrow> trace_event list \<Rightarrow> workspace \<Rightarrow> pyexn + replay_report" where
  "replay_trace env now tr files =
     (case load_trace tr of Inl e \<Rightarrow> Inl e | Inr hr \<Rightarrow> replay_recorded env now hr files)"

section \<open>Contract\<close>

text \<open>What replay looks at in a step, and agreement of two runs on it.\<close>

definition observed :: "step_record \<Rightarrow> string \<times> string option \<times> string option" where
  "observed s = (sr_input_digest s, sr_output_digest s, sr_error s)"

definition same_observed :: "agent_run \<Rightarrow> agent_run \<Rightarrow> bool" where
  "same_observed a b \<longleftrightarrow> map observed (run_steps a) = map observed (run_steps b) \<and>
     (\<forall>i < length (run_steps a). decision_label a i = decision_label b i)"

section \<open>Lemmas\<close>

lemma compare_step_Nil:
  "i < max (length (run_steps a)) (length (run_steps b)) \<Longrightarrow>
   compare_step a b i = [] \<longleftrightarrow> i < length (run_steps a) \<and> i < length (run_steps b) \<and>
     observed (run_steps a ! i) = observed (run_steps b ! i) \<and> decision_label a i = decision_label b i"
  by (simp add: compare_step_def field_divergence_def observed_def Let_def not_le)

lemma report_ok_iff:
  "report_ok (replay_report_of now ws h a b) \<longleftrightarrow>
     (th_workspace_digest h = [] \<or> ws = th_workspace_digest h) \<and> same_observed a b"
proof -
  let ?n = "max (length (run_steps a)) (length (run_steps b))"
  have "(\<forall>i < ?n. compare_step a b i = []) \<longleftrightarrow> same_observed a b"
  proof
    assume nil: "\<forall>i < ?n. compare_step a b i = []"
    have "length (run_steps a) = length (run_steps b)"
    proof (rule ccontr)
      assume "length (run_steps a) \<noteq> length (run_steps b)"
      then have lt: "min (length (run_steps a)) (length (run_steps b)) < ?n" by linarith
      with nil have "compare_step a b (min (length (run_steps a)) (length (run_steps b))) = []" by blast
      with compare_step_Nil [OF lt] have "min (length (run_steps a)) (length (run_steps b)) < length (run_steps a)"
        "min (length (run_steps a)) (length (run_steps b)) < length (run_steps b)" by blast+
      then show False by linarith
    qed
    then show "same_observed a b"
      using nil by (auto simp: same_observed_def compare_step_Nil intro!: nth_equalityI)
  next
    assume so: "same_observed a b"
    then have len: "length (run_steps b) = length (run_steps a)"
      unfolding same_observed_def by (metis length_map)
    have "observed (run_steps a ! i) = observed (run_steps b ! i)" if "i < length (run_steps a)" for i
      using so that len unfolding same_observed_def by (metis nth_map)
    with so len show "\<forall>i < ?n. compare_step a b i = []"
      by (simp add: compare_step_Nil) (simp add: same_observed_def)
  qed
  then show ?thesis
    by (auto simp: report_ok_def replay_report_of_def Let_def workspace_divergence_def)
qed

lemma observed_strip [simp]: "observed (strip_step s) = observed s"
  by (simp add: observed_def strip_step_def)

lemma run_core_sel:
  "run_steps (run_core a) = map strip_step (run_steps a)"
  "run_policy_decisions (run_core a) = run_policy_decisions a"
  by (simp_all add: run_core_def)

lemma run_core_steps: "run_core a = run_core b \<Longrightarrow> map strip_step (run_steps a) = map strip_step (run_steps b)"
  by (metis run_core_sel(1))

lemma run_core_decisions: "run_core a = run_core b \<Longrightarrow> run_policy_decisions a = run_policy_decisions b"
  by (metis run_core_sel(2))

lemma decision_label_cong:
  "run_policy_decisions a = run_policy_decisions b \<Longrightarrow> decision_label a = decision_label b"
  by (simp add: decision_label_def decisions_by_step_def fun_eq_iff)

lemma same_observed_core:
  assumes "run_core a = run_core b"
  shows "same_observed a b"
proof -
  have "map observed (map strip_step (run_steps a)) = map observed (map strip_step (run_steps b))"
    using run_core_steps [OF assms] by simp
  then have "map observed (run_steps a) = map observed (run_steps b)" by (simp add: comp_def)
  with decision_label_cong [OF run_core_decisions [OF assms]] show ?thesis
    by (simp add: same_observed_def)
qed

lemma replay_env_same:
  assumes "en_re_search env' = en_re_search env" "en_hash env' = en_hash env"
    and "th_policy h = en_policy env" "run_id r = en_run_id env"
  shows "same_env env (replay_env env' h r)"
  using assms by (simp add: same_env_def replay_env_def)

lemma built_run_id: "run_id (built_run env sc es) = en_run_id env"
  by (simp add: built_run_def extend_run_def start_run_def)

lemma replay_fresh_run:
  assumes run: "execute_script env sc f = Inr (run, tr)" and files: "same_files f g"
    and env: "en_re_search env' = en_re_search env" "en_hash env' = en_hash env"
    and r: "run_id r = en_run_id env"
  shows "\<exists>fresh tr'. execute_script (replay_env env' (header_of env sc f) r) sc g = Inr (fresh, tr') \<and>
     run_core fresh = run_core run"
  by (rule execute_script_same_core [OF replay_env_same files run]) (simp_all add: env r header_of_def)

lemma replay_trace_of:
  assumes run: "execute_script env sc f = Inr (run, tr)" and sc: "mk_script sc = Inr sc"
    and files: "same_files f g"
    and env: "en_re_search env' = en_re_search env" "en_hash env' = en_hash env"
    and tr': "load_trace tr' = Inr (header_of env sc f, r)" "run_id r = en_run_id env"
  shows "\<exists>fresh. run_core fresh = run_core run \<and> replay_trace env' now tr' g =
     Inr (replay_report_of now (th_workspace_digest (header_of env sc f)) (header_of env sc f) r fresh)"
proof -
  from replay_fresh_run [OF run files env tr'(2)] obtain fresh tr'' where
    fresh: "execute_script (replay_env env' (header_of env sc f) r) sc g = Inr (fresh, tr'')"
    "run_core fresh = run_core run" by blast
  have "workspace_digest (en_hash env') g = th_workspace_digest (header_of env sc f)"
    using same_files_digest [OF files] env by (simp add: header_of_def)
  moreover have "mk_script (th_script (header_of env sc f)) = Inr sc" by (simp add: header_of_def sc)
  ultimately have "replay_trace env' now tr' g =
     Inr (replay_report_of now (th_workspace_digest (header_of env sc f)) (header_of env sc f) r fresh)"
    using fresh(1) by (simp add: replay_trace_def replay_recorded_def tr'(1))
  with fresh(2) show ?thesis by blast
qed

section \<open>Properties\<close>

text \<open>
  a replay is clean exactly when the recorded workspace digest is absent or matches, both
  runs have the same number of steps, and step by step the input digest, the output digest, the
  error and the policy decision agree.
\<close>

theorem replay_ok_iff:
  assumes "replay_trace env now tr g = Inr rep"
  shows "\<exists>h recorded sc fresh tr'. load_trace tr = Inr (h, recorded) \<and> mk_script (th_script h) = Inr sc \<and>
     execute_script (replay_env env h recorded) sc g = Inr (fresh, tr') \<and>
     (report_ok rep \<longleftrightarrow>
        (th_workspace_digest h = [] \<or> workspace_digest (en_hash env) g = th_workspace_digest h) \<and>
        same_observed recorded fresh)"
proof -
  from assms obtain h recorded sc fresh tr' where
    p: "load_trace tr = Inr (h, recorded)" "mk_script (th_script h) = Inr sc"
       "execute_script (replay_env env h recorded) sc g = Inr (fresh, tr')"
    and rep: "rep = replay_report_of now (workspace_digest (en_hash env) g) h recorded fresh"
    by (auto simp: replay_trace_def replay_recorded_def split: sum.splits prod.splits)
  from p show ?thesis by (intro exI conjI) (simp_all add: rep report_ok_iff)
qed

theorem replay_ok_iff_witness:
  "\<exists>run tr rep h recorded sc fresh tr'. execute_script guarded three_steps [(''b'', ''x'')] = Inr (run, tr) \<and>
     replay_trace guarded 9 tr [(''b'', ''y'')] = Inr rep \<and> load_trace tr = Inr (h, recorded) \<and>
     execute_script (replay_env guarded h recorded) sc [(''b'', ''y'')] = Inr (fresh, tr') \<and>
     (report_ok rep \<longleftrightarrow> (th_workspace_digest h = [] \<or>
        workspace_digest (en_hash guarded) [(''b'', ''y'')] = th_workspace_digest h) \<and>
        same_observed recorded fresh)"
proof -
  from three_steps_run obtain run tr where
    r: "execute_script guarded three_steps [(''b'', ''x'')] = Inr (run, tr)" by blast
  have "(case replay_trace guarded 9 (snd (projr (execute_script guarded three_steps [(''b'', ''x'')])))
      [(''b'', ''y'')] of Inr _ \<Rightarrow> True | Inl _ \<Rightarrow> False)" by code_simp
  then obtain rep where rep: "replay_trace guarded 9 tr [(''b'', ''y'')] = Inr rep"
    by (auto simp: r split: sum.splits)
  show ?thesis using replay_ok_iff [OF rep] r rep by blast
qed

text \<open>
  C5: an untampered trace file replays cleanly. Write the events of a successful execution to a file, one JSON document
  per line, none of whose texts has a line boundary of \<open>splitlines\<close> in it, the JSON and validation libraries reading
  back what they wrote. Then on a workspace with the content the run started from, under any clock, the replay
  of the file succeeds, compares every step and reports no divergence.
\<close>

theorem honest_trace_replays_clean:
  assumes "execute_script env sc f = Inr (run, tr)" "mk_script sc = Inr sc" "same_files f g"
    and "en_re_search env' = en_re_search env" "en_hash env' = en_hash env"
    and "\<forall>ev\<in>set tr. reads_back c ev \<and> one_line c ev"
  shows "\<exists>rep. replay_file c env' now (trace_text c tr) g = Inr rep \<and> report_ok rep \<and>
     rr_steps_compared rep = length (sc_steps sc) \<and> rr_run_id rep = en_run_id env"
proof -
  let ?r = "run\<lparr>run_reviewer_seats := []\<rparr>"
  from execute_script_built [OF assms(1)] obtain es where
    run: "run = built_run env sc es" "effects_ok env 0 (sc_steps sc) f es" by blast
  have id: "run_id ?r = en_run_id env" by (simp add: run(1) built_run_id)
  from replay_trace_of [OF assms(1-5) load_trace_executed [OF assms(1)] id] obtain fresh where
    core: "run_core fresh = run_core run" and
    rep: "replay_trace env' now tr g =
       Inr (replay_report_of now (th_workspace_digest (header_of env sc f)) (header_of env sc f) ?r fresh)"
    by blast
  have written: "replay_file c env' now (trace_text c tr) g = replay_trace env' now tr g"
    by (simp add: replay_file_def replay_trace_def load_written_trace [OF assms(6)])
  have so: "same_observed ?r fresh"
    using same_observed_core [of run fresh] core
    by (simp add: same_observed_def decision_label_def decisions_by_step_def)
  have len: "length (run_steps fresh) = length (run_steps run)"
    using arg_cong [OF run_core_steps [OF core], of length] by simp
  have "length (run_steps run) = length (sc_steps sc)"
    using effects_ok_length [OF run(2)] by (simp add: run(1) built_run_def extend_run_def start_run_def)
  with so id len rep show ?thesis
    unfolding written by (simp add: report_ok_iff) (simp add: replay_report_of_def Let_def)
qed

text \<open>
  A concrete form of documents for the events of one trace: the text \<open>{"kind":n}\<close> with the position of
  the event, printed and parsed again.
\<close>

definition position_json :: "trace_event list \<Rightarrow> (string \<times> nat) trace_json" where
  "position_json evs = \<lparr>
     tj_dump = (\<lambda>ev. (event_kind ev, length (takeWhile (\<lambda>e. e \<noteq> ev) evs))),
     tj_dumps = (\<lambda>(k, n). CHR ''{'' # k @ '':'' @ show_nat n @ ''}''),
     tj_loads = (\<lambda>t. case cut_at '':'' (tl (butlast t)) of
        None \<Rightarrow> Inl (ValueErr ''not a document'')
      | Some (k, d) \<Rightarrow> (case py_int d of None \<Rightarrow> Inl (ValueErr ''not a number'') | Some i \<Rightarrow> Inr (k, nat i))),
     tj_type = (\<lambda>(k, n). Inr k),
     tj_event = (\<lambda>(k, n). if n < length evs then Inr (evs ! n) else Inl (LookupErr ''no such event''))\<rparr>"

lemma cut_kind: "cut_at '':'' (event_kind ev @ '':'' @ s) = Some (event_kind ev, s)"
  by (cases ev) (simp_all add: starts_with_def)

lemma takeWhile_position:
  "x \<in> set xs \<Longrightarrow> length (takeWhile (\<lambda>y. y \<noteq> x) xs) < length xs \<and> xs ! length (takeWhile (\<lambda>y. y \<noteq> x) xs) = x"
  by (induction xs) auto

lemma printable_kind: "printable (event_kind ev)"
  by (cases ev) (simp_all add: printable_def char_code_def)

lemma position_json_ok:
  assumes "ev \<in> set evs"
  shows "reads_back (position_json evs) ev \<and> one_line (position_json evs) ev"
proof -
  let ?n = "length (takeWhile (\<lambda>e. e \<noteq> ev) evs)"
  let ?t = "CHR ''{'' # event_kind ev @ '':'' @ show_nat ?n @ ''}''"
  have "printable ?t"
    using printable_kind [of ev] printable_show_nat [of ?n] by (auto simp: printable_def char_code_def)
  then have "no_breaks ?t" by (rule printable_no_breaks)
  moreover have "strip ?t = ?t" by (rule strip_id) (simp add: py_space_def char_code_def)
  moreover have "butlast ?t = CHR ''{'' # event_kind ev @ '':'' @ show_nat ?n" by (simp add: butlast_append)
  ultimately show ?thesis
    using cut_kind [of ev "show_nat ?n"] takeWhile_position [OF assms]
    by (simp add: reads_back_def one_line_def position_json_def del: cut_at.simps)
qed

theorem honest_trace_replays_clean_witness:
  "\<exists>run tr rep. execute_script guarded three_steps [(''b'', ''x'')] = Inr (run, tr) \<and>
     replay_file (position_json tr) (guarded\<lparr>en_utc := (\<lambda>_. 7)\<rparr>) 9 (trace_text (position_json tr) tr) [(''b'', ''x'')] = Inr rep \<and>
     report_ok rep"
proof -
  from three_steps_run obtain run tr where
    r: "execute_script guarded three_steps [(''b'', ''x'')] = Inr (run, tr)" by blast
  have "mk_script three_steps = Inr three_steps" by code_simp
  moreover have "same_files [(''b'', ''x'')] [(''b'', ''x'')]" by (simp add: same_files_def)
  ultimately show ?thesis
    using honest_trace_replays_clean [OF r, of "[(''b'', ''x'')]" "guarded\<lparr>en_utc := (\<lambda>_. 7)\<rparr>" "position_json tr" 9]
      position_json_ok [of _ tr] r
    by auto
qed

text \<open>The events of one kind of a trace, and what loading keeps of them.\<close>

definition step_events :: "trace_event list \<Rightarrow> step_record list" where
  "step_events evs = concat (map (\<lambda>ev. case ev of StepEvent s \<Rightarrow> [s] | _ \<Rightarrow> []) evs)"

definition no_restart :: "trace_event list \<Rightarrow> bool" where
  "no_restart evs \<longleftrightarrow> list_all (\<lambda>ev. case ev of RunStart _ \<Rightarrow> False | _ \<Rightarrow> True) evs"

lemma load_event_steps:
  assumes "case ev of RunStart _ \<Rightarrow> False | _ \<Rightarrow> True"
  shows "fst (load_event ev (h, r)) = h" "run_id (snd (load_event ev (h, r))) = run_id r"
    "run_steps (snd (load_event ev (h, r))) = run_steps r @ step_events [ev]"
  using assms by (cases ev; simp add: step_events_def)+

lemma fold_load_steps:
  assumes "no_restart evs"
  shows "fst (fold load_event evs (h, r)) = h \<and> run_id (snd (fold load_event evs (h, r))) = run_id r \<and>
     run_steps (snd (fold load_event evs (h, r))) = run_steps r @ step_events evs"
  using assms
proof (induction evs arbitrary: r)
  case (Cons ev evs)
  let ?r = "snd (load_event ev (h, r))"
  from Cons.prems have ev: "case ev of RunStart _ \<Rightarrow> False | _ \<Rightarrow> True" and evs: "no_restart evs"
    by (auto simp: no_restart_def)
  have "load_event ev (h, r) = (h, ?r)" using load_event_steps(1) [OF ev] by (metis prod.collapse)
  then show ?case using Cons.IH [OF evs, of ?r] load_event_steps(2,3) [OF ev, of h r]
    by (simp add: step_events_def)
qed (simp add: step_events_def)

lemma load_trace_steps:
  assumes "no_restart evs"
  shows "\<exists>r. load_trace (RunStart h # evs) = Inr (h, r) \<and> run_id r = th_run_id h \<and>
     run_steps r = step_events evs"
proof -
  let ?p = "fold load_event evs (h, loaded_run h)"
  have "load_trace (RunStart h # evs) = Inr ?p" by (simp add: load_trace_def load_events_Some)
  moreover have "?p = (h, snd ?p)" using fold_load_steps [OF assms, of h "loaded_run h"] by (metis prod.collapse)
  ultimately show ?thesis
    using fold_load_steps [OF assms, of h "loaded_run h"] by (metis append_Nil loaded_run_def agent_run.select_convs(1,10))
qed

lemma load_trace_snoc:
  "load_trace tr = Inr hr \<Longrightarrow> load_trace (tr @ [ev]) = Inr (load_event ev hr)"
  by (cases tr) (auto simp: load_trace_def load_events_Some split: trace_event.splits)

lemma executed_no_restart:
  "no_restart (concat (map effect_events es) @ [RunEnd a b c])"
  by (auto simp: no_restart_def effect_events_def list_all_iff)

lemma step_events_append [simp]: "step_events (a @ b) = step_events a @ step_events b"
  by (simp add: step_events_def)

lemma step_events_Cons: "step_events (StepEvent s # b) = s # step_events b"
  by (simp add: step_events_def)

text \<open>
  C4: a tampered step is caught. Replace one recorded step of an honest trace by a step whose
  input digest, output digest or error differs; replaying the forged trace on the original
  workspace content reports a divergence.
\<close>

theorem tampered_step_detected:
  assumes "execute_script env sc f = Inr (run, pre @ StepEvent s # post)" "mk_script sc = Inr sc"
    and "same_files f g" "en_re_search env' = en_re_search env" "en_hash env' = en_hash env"
    and "observed s' \<noteq> observed s"
  shows "\<exists>rep. replay_trace env' now (pre @ StepEvent s' # post) g = Inr rep \<and> \<not> report_ok rep"
proof -
  let ?h = "header_of env sc f"
  from execute_script_built [OF assms(1)] obtain es rest where
    tr: "pre @ StepEvent s # post = RunStart ?h # rest" "no_restart rest"
    using executed_no_restart by metis
  then obtain pre' where pre: "pre = RunStart ?h # pre'" by (cases pre) auto
  have rest: "rest = pre' @ StepEvent s # post" using tr(1) pre by simp
  have "no_restart (pre' @ StepEvent s' # post)" using tr(2) rest by (simp add: no_restart_def)
  from load_trace_steps [OF this, of ?h] obtain r where
    r: "load_trace (pre @ StepEvent s' # post) = Inr (?h, r)" "run_id r = en_run_id env"
       "run_steps r = step_events pre' @ s' # step_events post"
    by (auto simp: pre header_of_def step_events_Cons)
  from load_trace_steps [OF tr(2), of ?h] load_trace_executed [OF assms(1)]
  have run: "run_steps run = step_events pre' @ s # step_events post"
    by (auto simp: tr(1) rest step_events_Cons)
  from replay_trace_of [OF assms(1-5) r(1,2)] obtain fresh where
    fresh: "run_core fresh = run_core run" "replay_trace env' now (pre @ StepEvent s' # post) g =
       Inr (replay_report_of now (th_workspace_digest ?h) ?h r fresh)" by blast
  have "map observed (run_steps fresh) = map observed (run_steps run)"
    using same_observed_core [OF fresh(1)] by (simp add: same_observed_def)
  then have "\<not> same_observed r fresh" using assms(6) by (auto simp: same_observed_def r(3) run)
  then show ?thesis using fresh(2) by (simp add: report_ok_iff)
qed

theorem tampered_step_detected_witness:
  "\<exists>run pre s post rep. execute_script guarded three_steps [(''b'', ''x'')] = Inr (run, pre @ StepEvent s # post) \<and>
     replay_trace guarded 9 (pre @ StepEvent (s\<lparr>sr_error := Some ''forged''\<rparr>) # post) [(''b'', ''x'')] = Inr rep \<and>
     \<not> report_ok rep"
proof -
  from three_steps_run obtain run tr where
    r: "execute_script guarded three_steps [(''b'', ''x'')] = Inr (run, tr)" by blast
  have "list_ex (\<lambda>ev. case ev of StepEvent s \<Rightarrow> sr_error s = None | _ \<Rightarrow> False)
      (snd (projr (execute_script guarded three_steps [(''b'', ''x'')])))" by code_simp
  then obtain ev where "ev \<in> set tr" "case ev of StepEvent s \<Rightarrow> sr_error s = None | _ \<Rightarrow> False"
    unfolding r by (auto simp: list_ex_iff)
  then obtain s where "StepEvent s \<in> set tr" and none: "sr_error s = None"
    by (auto split: trace_event.split_asm)
  then obtain pre post where tr: "tr = pre @ StepEvent s # post" by (meson split_list)
  have "mk_script three_steps = Inr three_steps" by code_simp
  moreover have "same_files [(''b'', ''x'')] [(''b'', ''x'')]" by (simp add: same_files_def)
  moreover have "observed (s\<lparr>sr_error := Some ''forged''\<rparr>) \<noteq> observed s" by (simp add: observed_def none)
  ultimately show ?thesis
    using tampered_step_detected [of guarded three_steps "[(''b'', ''x'')]" run pre s post
        "[(''b'', ''x'')]" guarded "s\<lparr>sr_error := Some ''forged''\<rparr>" 9] r tr by blast
qed

text \<open>
  what replay does not look at. A trace whose loaded run differs from another's only in risk
  signals, evidence, artifacts, seats, status and timestamps gets the same report, so editing
  those records of a trace is not reported.
\<close>

theorem replay_blind_spots:
  assumes "load_trace tr = Inr (h, r)" "load_trace tr' = Inr (h, r')"
    and "run_id r' = run_id r" "run_steps r' = run_steps r"
    and "run_policy_decisions r' = run_policy_decisions r"
  shows "replay_trace env now tr' g = replay_trace env now tr g"
proof -
  have "compare_step r' = compare_step r"
    using decision_label_cong [OF assms(5)] by (intro ext) (simp add: compare_step_def assms(4))
  then have "replay_report_of now ws h r' = replay_report_of now ws h r" for ws
    by (intro ext) (simp add: replay_report_of_def assms(3,4))
  moreover have "replay_env env h r' = replay_env env h r" by (simp add: replay_env_def assms(3))
  ultimately show ?thesis by (simp add: replay_trace_def replay_recorded_def assms(1,2) cong: sum.case_cong prod.case_cong)
qed

theorem replay_blind_spots_witness:
  "\<exists>run tr. execute_script guarded three_steps [(''b'', ''x'')] = Inr (run, tr) \<and>
     (\<exists>h r. load_trace (tr @ [RunEnd Failed None None]) = Inr (h, r) \<and> run_status r = Failed) \<and>
     replay_trace guarded 9 (tr @ [RunEnd Failed None None]) [(''b'', ''x'')] =
     replay_trace guarded 9 tr [(''b'', ''x'')]"
proof -
  from three_steps_run obtain run tr where
    r: "execute_script guarded three_steps [(''b'', ''x'')] = Inr (run, tr)" by blast
  note l = load_trace_executed [OF r]
  from load_trace_snoc [OF l, of "RunEnd Failed None None"] obtain r' where
    l': "load_trace (tr @ [RunEnd Failed None None]) = Inr (header_of guarded three_steps [(''b'', ''x'')], r')"
    and r': "r' = run\<lparr>run_reviewer_seats := [], run_status := Failed\<rparr>" by simp
  have "replay_trace guarded 9 (tr @ [RunEnd Failed None None]) [(''b'', ''x'')] =
      replay_trace guarded 9 tr [(''b'', ''x'')]"
    by (rule replay_blind_spots [OF l l']) (simp_all add: r')
  moreover have "run_status r' = Failed" by (simp add: r')
  ultimately show ?thesis using r l' by blast
qed

end
