(* ===== verification/Example_Runs.thy ===== *)
theory Example_Runs
  imports Run_Properties
begin

text \<open>
  Example directories, \<open>packages/runtime/aro_runtime/examples.py\<close>: what the API and the worker
  execute. Reading the files of a directory is outside the model: a directory entry carries what
  its files parse to.
\<close>

text \<open>What \<open>expected.json\<close> holds: a status, the non-allow decisions (step, rule, decision), the
  risk signals (step, severity, category) and artifact paths.\<close>

record expectation =
  xp_final_status :: string
  xp_decisions :: "(int \<times> string \<times> string) list"
  xp_signals :: "(int \<times> string \<times> string) list"
  xp_artifacts :: "string list"

record example =
  ex_name :: string
  ex_script :: script
  ex_policy :: policy
  ex_workspace :: workspace
  ex_expected :: "expectation option"
  ex_golden :: "trace_event list option"

text \<open>An entry of the examples directory: \<open>de_script\<close> is \<open>None\<close> when it is no
  directory or has no \<open>script.json\<close>; the script has been parsed but not yet validated.\<close>

record dir_entry =
  de_name :: string
  de_script :: "script option"
  de_policy :: policy
  de_workspace :: workspace
  de_expected :: "expectation option"
  de_golden :: "trace_event list option"

definition load_example :: "dir_entry \<Rightarrow> script \<Rightarrow> pyexn + example" where
  "load_example d raw = map_sum id (\<lambda>sc. \<lparr>ex_name = de_name d, ex_script = sc, ex_policy = de_policy d,
     ex_workspace = de_workspace d, ex_expected = de_expected d, ex_golden = de_golden d\<rparr>)
     (mk_script raw)"

definition discover_examples :: "dir_entry list \<Rightarrow> pyexn + example pydict" where
  "discover_examples entries = sequence (map (\<lambda>(d, raw). map_sum id (Pair (de_name d)) (load_example d raw))
     (List.map_filter (\<lambda>d. map_option (Pair d) (de_script d)) (sort_key de_name entries)))"

definition run_example :: "exec_env \<Rightarrow> example \<Rightarrow> string \<Rightarrow> pyexn + (agent_run \<times> trace_event list)" where
  "run_example env ex rid =
     execute_script (env\<lparr>en_policy := ex_policy ex, en_run_id := rid\<rparr>) (ex_script ex) (ex_workspace ex)"

lemma run_example_valid:
  assumes "run_example env ex rid = Inr (run, tr)"
  shows "run_valid run" "run_id run = rid"
  using executed_run_valid [OF assms [unfolded run_example_def]] by simp_all

end
