(* ===== verification/Golden_Eval.thy ===== *)
theory Golden_Eval
  imports Example_Runs Replay "HOL-Library.Product_Lexorder" "HOL-Library.Multiset"
begin

text \<open>
  The golden-task gate, \<open>packages/evals/aro_evals/golden.py\<close>: run an example afresh, compare
  the run with its expectation, then replay its golden trace and require zero divergence. A
  failure message is a value of \<open>eval_failure\<close> with what its text shows.
\<close>

datatype eval_failure =
    NoExpected
  | FinalStatus string string
  | Decisions "(int \<times> string \<times> string) list" "(int \<times> string \<times> string) list"
  | Signals "(int \<times> string \<times> string) list" "(int \<times> string \<times> string) list"
  | MissingArtifact string
  | Divergence step_divergence
  | NoGolden

record eval_result =
  er_example :: string
  er_failures :: "eval_failure list"

definition passed :: "eval_result \<Rightarrow> bool" where
  "passed r \<longleftrightarrow> er_failures r = []"

definition got_decisions :: "agent_run \<Rightarrow> (int \<times> string \<times> string) list" where
  "got_decisions run = map (\<lambda>d. (pd_step_index d, pd_rule_id d, decision_value (pd_decision d)))
     (filter (\<lambda>d. pd_decision d \<noteq> Allow) (run_policy_decisions run))"

definition got_signals :: "agent_run \<Rightarrow> (int \<times> string \<times> string) list" where
  "got_signals run = map (\<lambda>s. (ri_step_index s, severity_value (ri_severity s), ri_category s)) (run_risk_signals run)"

definition expectation_failures :: "expectation \<Rightarrow> agent_run \<Rightarrow> eval_failure list" where
  "expectation_failures xp run =
     (let status = run_status_value (run_status run);
          got = sort (got_decisions run); want = sort (xp_decisions xp);
          sgot = sort (got_signals run); swant = sort (xp_signals xp);
          paths = map ar_path (run_artifacts run)
      in (if status \<noteq> xp_final_status xp then [FinalStatus (xp_final_status xp) status] else []) @
         (if got \<noteq> want then [Decisions want got] else []) @
         (if sgot \<noteq> swant then [Signals swant sgot] else []) @
         map MissingArtifact (filter (\<lambda>p. p \<notin> set paths) (xp_artifacts xp)))"

definition evaluate_example :: "exec_env \<Rightarrow> int \<Rightarrow> string \<Rightarrow> example \<Rightarrow> pyexn + eval_result" where
  "evaluate_example env now rid ex =
     (case ex_expected ex of
        None \<Rightarrow> Inr \<lparr>er_example = ex_name ex, er_failures = [NoExpected]\<rparr>
      | Some xp \<Rightarrow>
          (case run_example env ex rid of
             Inl e \<Rightarrow> Inl e
           | Inr (run, _) \<Rightarrow>
               (case ex_golden ex of
                  None \<Rightarrow> Inr \<lparr>er_example = ex_name ex, er_failures = expectation_failures xp run @ [NoGolden]\<rparr>
                | Some golden \<Rightarrow>
                    (case replay_trace env now golden (ex_workspace ex) of
                       Inl e \<Rightarrow> Inl e
                     | Inr rep \<Rightarrow> Inr \<lparr>er_example = ex_name ex,
                         er_failures = expectation_failures xp run @ map Divergence (rr_divergences rep)\<rparr>))))"

definition evaluate_all :: "exec_env \<Rightarrow> int \<Rightarrow> (string \<Rightarrow> string) \<Rightarrow> dir_entry list \<Rightarrow> pyexn + eval_result list" where
  "evaluate_all env now rid entries =
     (case discover_examples entries of
        Inl e \<Rightarrow> Inl e
      | Inr exs \<Rightarrow> sequence (map (\<lambda>(name, ex). evaluate_example env now (rid name) ex) exs))"

section \<open>Properties\<close>

lemma sort_eq_iff: "sort xs = sort ys \<longleftrightarrow> mset xs = mset (ys :: 'a::linorder list)"
  by (metis mset_sort properties_for_sort sorted_sort)

lemma expectation_failures_Nil:
  "expectation_failures xp run = [] \<longleftrightarrow>
     run_status_value (run_status run) = xp_final_status xp \<and>
     mset (got_decisions run) = mset (xp_decisions xp) \<and> mset (got_signals run) = mset (xp_signals xp) \<and>
     set (xp_artifacts xp) \<subseteq> ar_path ` set (run_artifacts run)"
  by (auto simp: expectation_failures_def Let_def sort_eq_iff filter_empty_conv)

text \<open>
  the gate passes exactly when it should. An example passes if and only if it has an
  expectation and a golden trace, the fresh run ends in the expected status with exactly the
  expected non-allow decisions and risk signals (as multisets) and all expected artifacts, and the
  golden trace replays without divergence.
\<close>

theorem golden_gate_iff:
  assumes "evaluate_example env now rid ex = Inr res"
  shows "passed res \<longleftrightarrow> (\<exists>xp golden run tr rep. ex_expected ex = Some xp \<and> ex_golden ex = Some golden \<and>
    run_example env ex rid = Inr (run, tr) \<and> replay_trace env now golden (ex_workspace ex) = Inr rep \<and>
    run_status_value (run_status run) = xp_final_status xp \<and>
    mset (got_decisions run) = mset (xp_decisions xp) \<and> mset (got_signals run) = mset (xp_signals xp) \<and>
    set (xp_artifacts xp) \<subseteq> ar_path ` set (run_artifacts run) \<and> report_ok rep)"
  using assms
  by (auto simp: evaluate_example_def passed_def report_ok_def expectation_failures_Nil
      split: option.splits sum.splits; blast)

definition golden_example :: example where
  "golden_example = \<lparr>ex_name = ''demo'', ex_script = three_steps, ex_policy = en_policy guarded,
     ex_workspace = [(''b'', ''x'')],
     ex_expected = Some \<lparr>xp_final_status = ''completed'', xp_decisions = [(1, ''reads'', ''needs_review'')],
       xp_signals = [], xp_artifacts = [''a.md'']\<rparr>,
     ex_golden = None\<rparr>"

theorem golden_gate_iff_witness:
  "\<exists>res. evaluate_example guarded 9 ''run-1'' golden_example = Inr res \<and> \<not> passed res"
proof -
  have "case run_example guarded golden_example ''run-1'' of Inr _ \<Rightarrow> True | Inl _ \<Rightarrow> False" by code_simp
  then obtain run tr where "run_example guarded golden_example ''run-1'' = Inr (run, tr)"
    by (auto split: sum.splits)
  then obtain res where res: "evaluate_example guarded 9 ''run-1'' golden_example = Inr res"
    by (simp add: evaluate_example_def golden_example_def)
  with golden_gate_iff [OF res] show ?thesis by (simp add: golden_example_def)
qed

end
