(* ===== verification/Run_Store.thy ===== *)
theory Run_Store
  imports Schema_Models
begin

text \<open>
  The run stores: SQLite (\<open>packages/runtime/aro_runtime/store.py\<close>) and Postgres
  (\<open>packages/runtime/aro_runtime/pg_store.py\<close>). A database is its three tables, each a
  list of rows in insertion order; every operation is the effect of its SQL statements. Timestamps
  are microseconds (the stored texts compare as the instants do, theory \<open>Iso_Time\<close>), a JSON
  column holds the value it was dumped from, and reading a run back re-runs the model's
  validator. Rows that tie under an \<open>ORDER BY\<close> come in table order.

  The locale \<open>run_store\<close> is what the worker and the API rely on; both backends interpret it.
\<close>

section \<open>Tables\<close>

record run_row =
  rw_id :: string
  rw_created_at :: int
  rw_status :: run_status
  rw_example :: "string option"
  rw_steps :: nat
  rw_denials :: nat
  rw_duration_ms :: rat
  rw_task :: task
  rw_run :: agent_run
  rw_trace_path :: "string option"

record queue_row =
  qu_id :: nat
  qu_run_id :: string
  qu_example :: string
  qu_status :: string
  qu_attempts :: int
  qu_available_at :: "int option"
  qu_last_error :: "string option"
  qu_enqueued_at :: int

record attestation_row =
  aw_id :: string
  aw_run_id :: string
  aw_created_at :: int
  aw_payload :: attestation

text \<open>\<open>db_seq\<close> is the last id \<open>AUTOINCREMENT\<close> (or \<open>SERIAL\<close>) handed out.\<close>

record db =
  db_runs :: "run_row list"
  db_queue :: "queue_row list"
  db_seq :: nat
  db_attestations :: "attestation_row list"

definition empty_db :: db where
  "empty_db = \<lparr>db_runs = [], db_queue = [], db_seq = 0, db_attestations = []\<rparr>"

definition upd_where :: "('a \<Rightarrow> bool) \<Rightarrow> ('a \<Rightarrow> 'a) \<Rightarrow> 'a list \<Rightarrow> 'a list" where
  "upd_where P f xs = map (\<lambda>x. if P x then f x else x) xs"

definition order_desc :: "('a \<Rightarrow> int) \<Rightarrow> 'a list \<Rightarrow> 'a list" where
  "order_desc k xs = sort_key (\<lambda>x. - k x) xs"

section \<open>Runs\<close>

definition run_denials :: "agent_run \<Rightarrow> nat" where
  "run_denials run = length (filter (\<lambda>d. pd_decision d = Deny) (run_policy_decisions run))"

definition run_duration_ms :: "agent_run \<Rightarrow> rat" where
  "run_duration_ms run =
     (case (run_started_at run, run_finished_at run) of
        (Some s, Some f) \<Rightarrow> of_int (f - s) / 1000
      | _ \<Rightarrow> 0)"

definition mk_run_row :: "int \<Rightarrow> agent_run \<Rightarrow> task \<Rightarrow> string option \<Rightarrow> string option \<Rightarrow> run_row" where
  "mk_run_row now run t label path = \<lparr>rw_id = run_id run, rw_created_at = now, rw_status = run_status run,
     rw_example = label, rw_steps = length (run_steps run), rw_denials = run_denials run,
     rw_duration_ms = run_duration_ms run, rw_task = t, rw_run = run, rw_trace_path = path\<rparr>"

text \<open>\<open>INSERT OR REPLACE\<close> deletes the old row and inserts a new one.\<close>

definition save_run :: "int \<Rightarrow> agent_run \<Rightarrow> task \<Rightarrow> string option \<Rightarrow> string option \<Rightarrow> db \<Rightarrow> db" where
  "save_run now run t label path s =
     s\<lparr>db_runs := filter (\<lambda>r. rw_id r \<noteq> run_id run) (db_runs s) @ [mk_run_row now run t label path]\<rparr>"

text \<open>\<open>ON CONFLICT (id) DO UPDATE\<close> overwrites every column of the old row.\<close>

definition pg_save_run :: "int \<Rightarrow> agent_run \<Rightarrow> task \<Rightarrow> string option \<Rightarrow> string option \<Rightarrow> db \<Rightarrow> db" where
  "pg_save_run now run t label path s =
     (let row = mk_run_row now run t label path in
      if run_id run \<in> set (map rw_id (db_runs s))
      then s\<lparr>db_runs := upd_where (\<lambda>r. rw_id r = run_id run) (\<lambda>_. row) (db_runs s)\<rparr>
      else s\<lparr>db_runs := db_runs s @ [row]\<rparr>)"

definition placeholder_run :: "string \<Rightarrow> task \<Rightarrow> agent_run" where
  "placeholder_run rid t = \<lparr>run_id = rid, run_task_id = ta_id t, run_agent = ''scripted@0.1'',
     run_model = None, run_status = Pending, run_started_at = None, run_finished_at = None,
     run_coverage = None, run_reviewer_seats = [], run_steps = [], run_policy_decisions = [],
     run_risk_signals = [], run_evidence = [], run_artifacts = []\<rparr>"

definition save_placeholder :: "int \<Rightarrow> string \<Rightarrow> task \<Rightarrow> string \<Rightarrow> db \<Rightarrow> db" where
  "save_placeholder now rid t ex s = save_run now (placeholder_run rid t) t (Some ex) None s"

definition pg_save_placeholder :: "int \<Rightarrow> string \<Rightarrow> task \<Rightarrow> string \<Rightarrow> db \<Rightarrow> db" where
  "pg_save_placeholder now rid t ex s = pg_save_run now (placeholder_run rid t) t (Some ex) None s"

text \<open>The dictionary \<open>get_run\<close> returns.\<close>

record stored_run =
  st_run :: agent_run
  st_task :: task
  st_example :: "string option"
  st_trace_path :: "string option"

text \<open>
  A row's payload is a JSON text that Pydantic writes and reads back; the row keeps the value itself, so only the
  validators that can reject it are re-run. The fields of a \<open>ReviewerSeat\<close> are not reassigned after its validator has
  accepted it; the lists of a run do grow after construction, and \<open>identity_invariants\<close> checks them again.
\<close>

definition load_row :: "run_row \<Rightarrow> pyexn + stored_run" where
  "load_row r = map_sum id (\<lambda>run. \<lparr>st_run = run, st_task = rw_task r, st_example = rw_example r,
     st_trace_path = rw_trace_path r\<rparr>) (identity_invariants (rw_run r))"

definition get_run :: "string \<Rightarrow> db \<Rightarrow> pyexn + stored_run option" where
  "get_run rid s =
     (case find (\<lambda>r. rw_id r = rid) (db_runs s) of
        None \<Rightarrow> Inr None
      | Some r \<Rightarrow> map_sum id Some (load_row r))"

text \<open>A negative \<open>LIMIT\<close> means no limit to SQLite and is an error to Postgres.\<close>

definition list_runs :: "int \<Rightarrow> db \<Rightarrow> pyexn + run_row list" where
  "list_runs limit s =
     (let rows = order_desc rw_created_at (db_runs s) in
      Inr (if limit < 0 then rows else take (nat limit) rows))"

definition pg_list_runs :: "int \<Rightarrow> db \<Rightarrow> pyexn + run_row list" where
  "pg_list_runs limit s =
     (if limit < 0 then Inl (RuntimeErr ''LIMIT must not be negative'')
      else Inr (take (nat limit) (order_desc rw_created_at (db_runs s))))"

definition all_runs :: "db \<Rightarrow> pyexn + agent_run list" where
  "all_runs s = sequence (map (\<lambda>r. identity_invariants (rw_run r)) (db_runs s))"

section \<open>Queue\<close>

definition enqueue :: "int \<Rightarrow> string \<Rightarrow> string \<Rightarrow> db \<Rightarrow> nat \<times> db" where
  "enqueue now rid ex s =
     (let i = Suc (db_seq s) in
      (i, s\<lparr>db_seq := i, db_queue := db_queue s @ [\<lparr>qu_id = i, qu_run_id = rid, qu_example = ex,
         qu_status = ''pending'', qu_attempts = 0, qu_available_at = None, qu_last_error = None,
         qu_enqueued_at = now\<rparr>]\<rparr>))"

definition due :: "int \<Rightarrow> queue_row \<Rightarrow> bool" where
  "due now r \<longleftrightarrow> qu_status r = ''pending'' \<and>
     (case qu_available_at r of None \<Rightarrow> True | Some t \<Rightarrow> t \<le> now)"

definition mark :: "nat \<Rightarrow> string \<Rightarrow> db \<Rightarrow> db" where
  "mark i status s = s\<lparr>db_queue := upd_where (\<lambda>r. qu_id r = i) (\<lambda>r. r\<lparr>qu_status := status\<rparr>) (db_queue s)\<rparr>"

text \<open>\<open>SELECT ... ORDER BY id LIMIT 1\<close>; the connection lock makes select and update one step.\<close>

definition first_by_id :: "queue_row list \<Rightarrow> queue_row option" where
  "first_by_id rows = (case sort_key qu_id rows of [] \<Rightarrow> None | r # _ \<Rightarrow> Some r)"

definition claim_next :: "int \<Rightarrow> db \<Rightarrow> queue_row option \<times> db" where
  "claim_next now s =
     (case first_by_id (filter (due now) (db_queue s)) of
        None \<Rightarrow> (None, s)
      | Some r \<Rightarrow> (Some r, mark (qu_id r) ''running'' s))"

text \<open>\<open>FOR UPDATE SKIP LOCKED\<close>: rows locked by other transactions are passed over.\<close>

definition pg_select :: "nat set \<Rightarrow> int \<Rightarrow> db \<Rightarrow> queue_row option" where
  "pg_select locked now s = first_by_id (filter (\<lambda>r. due now r \<and> qu_id r \<notin> locked) (db_queue s))"

definition pg_claim_next :: "nat set \<Rightarrow> int \<Rightarrow> db \<Rightarrow> queue_row option \<times> db" where
  "pg_claim_next locked now s =
     (case pg_select locked now s of
        None \<Rightarrow> (None, s)
      | Some r \<Rightarrow> (Some r, mark (qu_id r) ''running'' s))"

definition retry :: "nat \<Rightarrow> int \<Rightarrow> int \<Rightarrow> string \<Rightarrow> db \<Rightarrow> db" where
  "retry i attempts when err s = s\<lparr>db_queue := upd_where (\<lambda>r. qu_id r = i)
     (\<lambda>r. r\<lparr>qu_status := ''pending'', qu_attempts := attempts, qu_available_at := Some when,
       qu_last_error := Some err\<rparr>) (db_queue s)\<rparr>"

definition mark_dead :: "nat \<Rightarrow> int \<Rightarrow> string \<Rightarrow> db \<Rightarrow> db" where
  "mark_dead i attempts err s = s\<lparr>db_queue := upd_where (\<lambda>r. qu_id r = i)
     (\<lambda>r. r\<lparr>qu_status := ''dead'', qu_attempts := attempts, qu_last_error := Some err\<rparr>) (db_queue s)\<rparr>"

definition list_queue :: "string option \<Rightarrow> db \<Rightarrow> queue_row list" where
  "list_queue status s =
     (let rows = (case status of
          None \<Rightarrow> db_queue s
        | Some x \<Rightarrow> if x = [] then db_queue s else filter (\<lambda>r. qu_status r = x) (db_queue s))
      in take 100 (order_desc (int \<circ> qu_id) rows))"

section \<open>Attestations\<close>

definition mk_attestation_row :: "int \<Rightarrow> attestation \<Rightarrow> attestation_row" where
  "mk_attestation_row now a =
     \<lparr>aw_id = at_id a, aw_run_id = at_run_id a, aw_created_at = now, aw_payload = a\<rparr>"

definition save_attestation :: "int \<Rightarrow> attestation \<Rightarrow> db \<Rightarrow> db" where
  "save_attestation now a s = s\<lparr>db_attestations :=
     filter (\<lambda>r. aw_id r \<noteq> at_id a) (db_attestations s) @ [mk_attestation_row now a]\<rparr>"

text \<open>The Postgres upsert replaces the payload alone.\<close>

definition pg_save_attestation :: "int \<Rightarrow> attestation \<Rightarrow> db \<Rightarrow> db" where
  "pg_save_attestation now a s =
     (if at_id a \<in> set (map aw_id (db_attestations s))
      then s\<lparr>db_attestations := upd_where (\<lambda>r. aw_id r = at_id a) (\<lambda>r. r\<lparr>aw_payload := a\<rparr>) (db_attestations s)\<rparr>
      else s\<lparr>db_attestations := db_attestations s @ [mk_attestation_row now a]\<rparr>)"

definition list_attestations :: "string \<Rightarrow> db \<Rightarrow> pyexn + attestation list" where
  "list_attestations rid s = sequence (map (\<lambda>r. mk_attestation (aw_payload r))
     (sort_key aw_created_at (filter (\<lambda>r. aw_run_id r = rid) (db_attestations s))))"

section \<open>The store as its clients see it\<close>

record 's store_ops =
  so_save_run :: "int \<Rightarrow> agent_run \<Rightarrow> task \<Rightarrow> string option \<Rightarrow> string option \<Rightarrow> 's \<Rightarrow> 's"
  so_get_run :: "string \<Rightarrow> 's \<Rightarrow> pyexn + stored_run option"
  so_enqueue :: "int \<Rightarrow> string \<Rightarrow> string \<Rightarrow> 's \<Rightarrow> nat \<times> 's"
  so_claim_next :: "int \<Rightarrow> 's \<Rightarrow> queue_row option \<times> 's"
  so_mark :: "nat \<Rightarrow> string \<Rightarrow> 's \<Rightarrow> 's"
  so_retry :: "nat \<Rightarrow> int \<Rightarrow> int \<Rightarrow> string \<Rightarrow> 's \<Rightarrow> 's"
  so_mark_dead :: "nat \<Rightarrow> int \<Rightarrow> string \<Rightarrow> 's \<Rightarrow> 's"
  so_save_attestation :: "int \<Rightarrow> attestation \<Rightarrow> 's \<Rightarrow> 's"
  so_list_attestations :: "string \<Rightarrow> 's \<Rightarrow> pyexn + attestation list"

definition sqlite_ops :: "db store_ops" where
  "sqlite_ops = \<lparr>so_save_run = save_run, so_get_run = get_run, so_enqueue = enqueue,
     so_claim_next = claim_next, so_mark = mark, so_retry = retry, so_mark_dead = mark_dead,
     so_save_attestation = save_attestation, so_list_attestations = list_attestations\<rparr>"

definition pg_ops :: "nat set \<Rightarrow> db store_ops" where
  "pg_ops locked = \<lparr>so_save_run = pg_save_run, so_get_run = get_run, so_enqueue = enqueue,
     so_claim_next = pg_claim_next locked, so_mark = mark, so_retry = retry, so_mark_dead = mark_dead,
     so_save_attestation = pg_save_attestation, so_list_attestations = list_attestations\<rparr>"

text \<open>\<open>create_store\<close>: which backend a URL selects.\<close>

datatype backend = Sqlite string | Postgres string

definition create_store :: "string option \<Rightarrow> string option \<Rightarrow> string option \<Rightarrow> pyexn + backend" where
  "create_store environ database_url sqlite_path =
     (let url = (case database_url of Some u \<Rightarrow> Some u | None \<Rightarrow> environ) in
      case url of
        Some u \<Rightarrow>
          if u \<noteq> [] \<and> (starts_with ''postgres://'' u \<or> starts_with ''postgresql://'' u)
          then Inr (Postgres u)
          else (case sqlite_path of
                  None \<Rightarrow> Inl (ValueErr ''sqlite_path is required when no Postgres URL is configured'')
                | Some p \<Rightarrow> Inr (Sqlite p))
      | None \<Rightarrow>
          (case sqlite_path of
             None \<Rightarrow> Inl (ValueErr ''sqlite_path is required when no Postgres URL is configured'')
           | Some p \<Rightarrow> Inr (Sqlite p)))"

section \<open>Contract\<close>

text \<open>The two tables the worker uses, by key.\<close>

definition queue_item :: "db \<Rightarrow> nat \<Rightarrow> queue_row option" where
  "queue_item s i = find (\<lambda>r. qu_id r = i) (db_queue s)"

definition run_entry :: "db \<Rightarrow> string \<Rightarrow> run_row option" where
  "run_entry s rid = find (\<lambda>r. rw_id r = rid) (db_runs s)"

definition db_inv :: "db \<Rightarrow> bool" where
  "db_inv s \<longleftrightarrow> distinct (map qu_id (db_queue s)) \<and> list_all (\<lambda>r. qu_id r \<le> db_seq s) (db_queue s) \<and>
     distinct (map rw_id (db_runs s)) \<and> list_all (\<lambda>r. rw_id r = run_id (rw_run r)) (db_runs s)"

text \<open>\<open>visible\<close> holds of the items no other transaction has locked.\<close>

locale run_store =
  fixes ops :: "'s store_ops" and inv :: "'s \<Rightarrow> bool" and items :: "'s \<Rightarrow> nat \<Rightarrow> queue_row option"
    and runs :: "'s \<Rightarrow> string \<Rightarrow> run_row option" and visible :: "nat \<Rightarrow> bool"
  assumes items_id: "inv s \<Longrightarrow> items s i = Some r \<Longrightarrow> qu_id r = i"
    and claim_none: "inv s \<Longrightarrow> so_claim_next ops now s = (None, s') \<Longrightarrow>
      s' = s \<and> (\<forall>i r. items s i = Some r \<longrightarrow> visible i \<longrightarrow> \<not> due now r)"
    and claim_some: "inv s \<Longrightarrow> so_claim_next ops now s = (Some r, s') \<Longrightarrow>
      items s (qu_id r) = Some r \<and> due now r \<and> visible (qu_id r) \<and>
      (\<forall>i q. items s i = Some q \<longrightarrow> visible i \<longrightarrow> due now q \<longrightarrow> qu_id r \<le> i) \<and> inv s' \<and>
      items s' = (items s)(qu_id r \<mapsto> r\<lparr>qu_status := ''running''\<rparr>) \<and> runs s' = runs s"
    and mark: "inv s \<Longrightarrow> inv (so_mark ops i status s) \<and> runs (so_mark ops i status s) = runs s \<and>
      items (so_mark ops i status s) =
        (items s)(i := map_option (\<lambda>r. r\<lparr>qu_status := status\<rparr>) (items s i))"
    and retry: "inv s \<Longrightarrow> inv (so_retry ops i n when err s) \<and> runs (so_retry ops i n when err s) = runs s \<and>
      items (so_retry ops i n when err s) =
        (items s)(i := map_option (\<lambda>r. r\<lparr>qu_status := ''pending'', qu_attempts := n,
           qu_available_at := Some when, qu_last_error := Some err\<rparr>) (items s i))"
    and mark_dead: "inv s \<Longrightarrow> inv (so_mark_dead ops i n err s) \<and> runs (so_mark_dead ops i n err s) = runs s \<and>
      items (so_mark_dead ops i n err s) =
        (items s)(i := map_option (\<lambda>r. r\<lparr>qu_status := ''dead'', qu_attempts := n,
           qu_last_error := Some err\<rparr>) (items s i))"
    and enqueue: "inv s \<Longrightarrow> so_enqueue ops now rid ex s = (i, s') \<Longrightarrow>
      inv s' \<and> runs s' = runs s \<and> items s i = None \<and> (\<forall>j r. items s j = Some r \<longrightarrow> j < i) \<and>
      items s' = (items s)(i \<mapsto> \<lparr>qu_id = i, qu_run_id = rid, qu_example = ex, qu_status = ''pending'',
        qu_attempts = 0, qu_available_at = None, qu_last_error = None, qu_enqueued_at = now\<rparr>)"
    and save_run: "inv s \<Longrightarrow> inv (so_save_run ops now run t label path s) \<and>
      items (so_save_run ops now run t label path s) = items s \<and>
      runs (so_save_run ops now run t label path s) = (runs s)(run_id run \<mapsto> mk_run_row now run t label path)"
    and get_run: "so_get_run ops rid s =
      (case runs s rid of None \<Rightarrow> Inr None | Some row \<Rightarrow> map_sum id Some (load_row row))"
    and runs_id: "inv s \<Longrightarrow> runs s rid = Some row \<Longrightarrow> run_id (rw_run row) = rid"
begin

text \<open>What was saved is what is read, if it satisfies the invariants of the model.\<close>

lemma get_saved:
  assumes "inv s" "run_valid run"
  shows "so_get_run ops (run_id run) (so_save_run ops now run t label path s) =
    Inr (Some \<lparr>st_run = run, st_task = t, st_example = label, st_trace_path = path\<rparr>)"
  using assms(2) by (simp add: get_run save_run [OF assms(1)] load_row_def mk_run_row_def)

lemma get_other:
  assumes "inv s" "rid \<noteq> run_id run"
  shows "so_get_run ops rid (so_save_run ops now run t label path s) = so_get_run ops rid s"
  using assms(2) by (simp add: get_run save_run [OF assms(1)])

end

section \<open>Lemmas on tables\<close>

lemma find_upd_where:
  assumes "\<And>x. key (f x) = key x"
  shows "find (\<lambda>x. key x = i) (upd_where (\<lambda>x. key x = j) f xs) =
    (if i = j then map_option f (find (\<lambda>x. key x = i) xs) else find (\<lambda>x. key x = i) xs)"
  by (induction xs) (auto simp: upd_where_def assms)

lemma map_upd_where [simp]: "(\<And>x. key (f x) = key x) \<Longrightarrow> map key (upd_where P f xs) = map key xs"
  by (simp add: upd_where_def)

lemma list_all_upd_where:
  "(\<And>x. Q x \<Longrightarrow> Q (f x)) \<Longrightarrow> list_all Q xs \<Longrightarrow> list_all Q (upd_where P f xs)"
  by (auto simp: upd_where_def list_all_iff)

lemma find_key_Some: "find (\<lambda>x. key x = i) xs = Some r \<Longrightarrow> r \<in> set xs \<and> key r = i"
  by (induction xs) (auto split: if_splits)

lemma find_key_iff:
  assumes "distinct (map key xs)"
  shows "find (\<lambda>x. key x = i) xs = Some r \<longleftrightarrow> r \<in> set xs \<and> key r = i"
  using assms by (induction xs) (auto simp: rev_image_eqI)

lemma first_by_id_None: "first_by_id rows = None \<longleftrightarrow> rows = []"
  by (cases "sort_key qu_id rows") (auto simp: first_by_id_def dest: arg_cong [of _ _ length])

lemma first_by_id_Some:
  assumes "first_by_id rows = Some r"
  shows "r \<in> set rows \<and> (\<forall>q\<in>set rows. qu_id r \<le> qu_id q)"
proof -
  from assms obtain rest where s: "sort_key qu_id rows = r # rest"
    by (auto simp: first_by_id_def split: list.splits)
  then have "set rows = set (r # rest)" by (metis set_sort)
  moreover have "sorted (map qu_id (r # rest))" using s sorted_sort_key [of qu_id rows] by simp
  ultimately show ?thesis by auto
qed

lemma db_inv_update_queue:
  assumes "db_inv s" "\<And>r. qu_id (f r) = qu_id r"
  shows "db_inv (s\<lparr>db_queue := upd_where P f (db_queue s)\<rparr>)"
  using assms by (auto simp: db_inv_def intro: list_all_upd_where)

lemma queue_item_update:
  assumes "\<And>r. qu_id (f r) = qu_id r"
  shows "queue_item (s\<lparr>db_queue := upd_where (\<lambda>r. qu_id r = i) f (db_queue s)\<rparr>) =
    (queue_item s)(i := map_option f (queue_item s i))"
  by (simp add: queue_item_def fun_eq_iff find_upd_where [where key = qu_id] assms)

lemma queue_item_iff: "db_inv s \<Longrightarrow> queue_item s i = Some r \<longleftrightarrow> r \<in> set (db_queue s) \<and> qu_id r = i"
  by (simp add: queue_item_def db_inv_def find_key_iff)

lemma claim_locked_some:
  assumes "db_inv s" "pg_claim_next locked now s = (Some r, s')"
  shows "queue_item s (qu_id r) = Some r \<and> due now r \<and> qu_id r \<notin> locked \<and>
    (\<forall>i q. queue_item s i = Some q \<longrightarrow> i \<notin> locked \<longrightarrow> due now q \<longrightarrow> qu_id r \<le> i) \<and> db_inv s' \<and>
    queue_item s' = (queue_item s)(qu_id r \<mapsto> r\<lparr>qu_status := ''running''\<rparr>) \<and> run_entry s' = run_entry s"
proof -
  from assms(2) have f: "first_by_id (filter (\<lambda>r. due now r \<and> qu_id r \<notin> locked) (db_queue s)) = Some r"
    and s': "s' = mark (qu_id r) ''running'' s"
    by (auto simp: pg_claim_next_def pg_select_def split: option.splits)
  from first_by_id_Some [OF f] have r: "r \<in> set (db_queue s)" "due now r" "qu_id r \<notin> locked"
    and least: "\<forall>q\<in>set (db_queue s). due now q \<longrightarrow> qu_id q \<notin> locked \<longrightarrow> qu_id r \<le> qu_id q" by auto
  then have "queue_item s (qu_id r) = Some r" by (simp add: queue_item_iff [OF assms(1)])
  with r least show ?thesis
    by (auto simp: s' mark_def queue_item_update db_inv_update_queue assms(1) queue_item_iff
        run_entry_def fun_eq_iff)
qed

lemma claim_locked_none:
  assumes "db_inv s" "pg_claim_next locked now s = (None, s')"
  shows "s' = s \<and> (\<forall>i r. queue_item s i = Some r \<longrightarrow> i \<notin> locked \<longrightarrow> \<not> due now r)"
  using assms by (auto simp: pg_claim_next_def pg_select_def first_by_id_None queue_item_iff
      filter_empty_conv split: option.splits)

lemma claim_next_unlocked: "claim_next now s = pg_claim_next {} now s"
  by (simp add: claim_next_def pg_claim_next_def pg_select_def)

lemma queue_update_laws:
  assumes "db_inv s"
  shows "db_inv (mark i status s) \<and> run_entry (mark i status s) = run_entry s \<and>
      queue_item (mark i status s) = (queue_item s)(i := map_option (\<lambda>r. r\<lparr>qu_status := status\<rparr>) (queue_item s i))"
    "db_inv (retry i n when err s) \<and> run_entry (retry i n when err s) = run_entry s \<and>
      queue_item (retry i n when err s) = (queue_item s)(i := map_option (\<lambda>r. r\<lparr>qu_status := ''pending'',
        qu_attempts := n, qu_available_at := Some when, qu_last_error := Some err\<rparr>) (queue_item s i))"
    "db_inv (mark_dead i n err s) \<and> run_entry (mark_dead i n err s) = run_entry s \<and>
      queue_item (mark_dead i n err s) = (queue_item s)(i := map_option (\<lambda>r. r\<lparr>qu_status := ''dead'',
        qu_attempts := n, qu_last_error := Some err\<rparr>) (queue_item s i))"
  using assms by (simp_all add: mark_def retry_def mark_dead_def queue_item_update db_inv_update_queue
      run_entry_def fun_eq_iff)

lemma enqueue_law:
  assumes "db_inv s" "enqueue now rid ex s = (i, s')"
  shows "db_inv s' \<and> run_entry s' = run_entry s \<and> queue_item s i = None \<and>
    (\<forall>j r. queue_item s j = Some r \<longrightarrow> j < i) \<and>
    queue_item s' = (queue_item s)(i \<mapsto> \<lparr>qu_id = i, qu_run_id = rid, qu_example = ex,
      qu_status = ''pending'', qu_attempts = 0, qu_available_at = None, qu_last_error = None,
      qu_enqueued_at = now\<rparr>)"
proof -
  have fresh: "r \<in> set (db_queue s) \<Longrightarrow> qu_id r < Suc (db_seq s)" for r
    using assms(1) by (auto simp: db_inv_def list_all_iff less_Suc_eq_le)
  have none: "queue_item s (Suc (db_seq s)) = None"
    using fresh by (force simp: queue_item_def find_None_iff)
  have ids: "distinct (map qu_id (db_queue s) @ [Suc (db_seq s)])"
    using fresh assms(1) by (force simp: db_inv_def)
  from assms(2) have i: "i = Suc (db_seq s)" and s': "s' = snd (enqueue now rid ex s)"
    by (auto simp: enqueue_def Let_def)
  have bound: "queue_item s j = Some r \<longrightarrow> j < i" for j r
    using fresh by (auto simp: queue_item_iff [OF assms(1)] i)
  have find_snoc: "find P (xs @ [x]) = (case find P xs of Some y \<Rightarrow> Some y | None \<Rightarrow> if P x then Some x else None)"
    for P :: "queue_row \<Rightarrow> bool" and xs x by (induction xs) auto
  show ?thesis
    using assms(1) ids none bound
    by (auto simp: s' i enqueue_def Let_def db_inv_def run_entry_def queue_item_def fun_eq_iff
        find_snoc list_all_iff split: option.splits)
qed

lemma mk_run_row_sel [simp]:
  "rw_id (mk_run_row now run t label path) = run_id run" "rw_run (mk_run_row now run t label path) = run"
  by (simp_all add: mk_run_row_def)

lemma find_delete_insert:
  "rw_id row = i \<Longrightarrow> find (\<lambda>r. rw_id r = rid) (filter (\<lambda>r. rw_id r \<noteq> i) xs @ [row]) =
      (if rid = i then Some row else find (\<lambda>r. rw_id r = rid) xs)"
  by (induction xs) auto

lemma find_replaced:
  "i \<in> set (map rw_id xs) \<Longrightarrow> rw_id row = i \<Longrightarrow>
    find (\<lambda>r. rw_id r = rid) (upd_where (\<lambda>r. rw_id r = i) (\<lambda>_. row) xs) =
      (if rid = i then Some row else find (\<lambda>r. rw_id r = rid) xs)"
proof (induction xs)
  case (Cons x xs)
  show ?case
  proof (cases "i \<in> set (map rw_id xs)")
    case True
    from Cons.IH [OF this Cons.prems(2)] show ?thesis
      by (cases "rid = i") (simp_all add: upd_where_def Cons.prems(2))
  next
    case False
    then have "upd_where (\<lambda>r. rw_id r = i) (\<lambda>_. row) xs = xs" unfolding upd_where_def by (intro map_idI) auto
    moreover have "rw_id x = i" using False Cons.prems by simp
    ultimately show ?thesis using Cons.prems(2) by (simp add: upd_where_def)
  qed
qed simp

lemma find_inserted:
  "i \<notin> set (map rw_id xs) \<Longrightarrow> rw_id row = i \<Longrightarrow>
    find (\<lambda>r. rw_id r = rid) (xs @ [row]) = (if rid = i then Some row else find (\<lambda>r. rw_id r = rid) xs)"
  by (induction xs) auto

lemma run_entry_save:
  "run_entry (save_run now run t label path s) = (run_entry s)(run_id run \<mapsto> mk_run_row now run t label path)"
  by (rule ext) (simp add: run_entry_def save_run_def find_delete_insert)

lemma run_entry_pg_save:
  "run_entry (pg_save_run now run t label path s) = (run_entry s)(run_id run \<mapsto> mk_run_row now run t label path)"
proof (rule ext, cases "run_id run \<in> set (map rw_id (db_runs s))")
  fix rid
  case True
  then show "run_entry (pg_save_run now run t label path s) rid =
      ((run_entry s)(run_id run \<mapsto> mk_run_row now run t label path)) rid"
    unfolding pg_save_run_def Let_def if_P [OF True] run_entry_def
    by (simp add: find_replaced)
next
  fix rid
  case False
  then show "run_entry (pg_save_run now run t label path s) rid =
      ((run_entry s)(run_id run \<mapsto> mk_run_row now run t label path)) rid"
    unfolding pg_save_run_def Let_def if_not_P [OF False] run_entry_def
    by (simp add: find_inserted)
qed

lemma db_inv_save: "db_inv s \<Longrightarrow> db_inv (save_run now run t label path s)"
  by (auto simp: db_inv_def save_run_def list_all_iff distinct_map_filter)

lemma map_replace_row: "rw_id row = i \<Longrightarrow> map rw_id (upd_where (\<lambda>r. rw_id r = i) (\<lambda>_. row) xs) = map rw_id xs"
  by (auto simp: upd_where_def)

lemma db_inv_pg_save:
  assumes "db_inv s"
  shows "db_inv (pg_save_run now run t label path s)"
proof (cases "run_id run \<in> set (map rw_id (db_runs s))")
  case True
  have "list_all (\<lambda>r. rw_id r = run_id (rw_run r))
      (upd_where (\<lambda>r. rw_id r = run_id run) (\<lambda>_. mk_run_row now run t label path) (db_runs s))"
    using assms by (auto simp: db_inv_def list_all_iff upd_where_def)
  with assms show ?thesis
    unfolding pg_save_run_def Let_def if_P [OF True] by (simp add: db_inv_def map_replace_row)
next
  case False
  with assms show ?thesis
    unfolding pg_save_run_def Let_def if_not_P [OF False] by (auto simp: db_inv_def list_all_iff)
qed

lemma queue_item_save [simp]:
  "queue_item (save_run now run t label path s) = queue_item s"
  "queue_item (pg_save_run now run t label path s) = queue_item s"
  by (simp_all add: queue_item_def save_run_def pg_save_run_def Let_def fun_eq_iff)

lemma get_run_entry:
  "get_run rid s = (case run_entry s rid of None \<Rightarrow> Inr None | Some row \<Rightarrow> map_sum id Some (load_row row))"
  by (simp add: get_run_def run_entry_def)

lemma run_entry_id: "db_inv s \<Longrightarrow> run_entry s rid = Some row \<Longrightarrow> run_id (rw_run row) = rid"
  by (auto simp: db_inv_def run_entry_def list_all_iff dest!: find_key_Some)

lemma queue_item_id: "db_inv s \<Longrightarrow> queue_item s i = Some r \<Longrightarrow> qu_id r = i"
  by (simp add: queue_item_iff)

lemma sqlite_run_store: "run_store sqlite_ops db_inv queue_item run_entry (\<lambda>_. True)"
proof (rule run_store.intro, goal_cases)
  case (2 s now s')
  then show ?case using claim_locked_none [of s "{}" now s'] by (auto simp: sqlite_ops_def claim_next_unlocked)
next
  case (3 s now r s')
  then show ?case using claim_locked_some [of s "{}" now r s'] by (auto simp: sqlite_ops_def claim_next_unlocked)
next
  case (7 s now rid ex i s')
  then show ?case using enqueue_law [of s now rid ex i s'] by (simp add: sqlite_ops_def)
qed (simp_all add: sqlite_ops_def queue_item_id queue_update_laws db_inv_save run_entry_save
      get_run_entry run_entry_id)

lemma pg_run_store: "run_store (pg_ops locked) db_inv queue_item run_entry (\<lambda>i. i \<notin> locked)"
proof (rule run_store.intro, goal_cases)
  case (2 s now s')
  then show ?case using claim_locked_none [of s locked now s'] by (auto simp: pg_ops_def)
next
  case (3 s now r s')
  then show ?case using claim_locked_some [of s locked now r s'] by (auto simp: pg_ops_def)
next
  case (7 s now rid ex i s')
  then show ?case using enqueue_law [of s now rid ex i s'] by (simp add: pg_ops_def)
qed (simp_all add: pg_ops_def queue_item_id queue_update_laws db_inv_pg_save run_entry_pg_save
      get_run_entry run_entry_id)

interpretation sqlite: run_store sqlite_ops db_inv queue_item run_entry "\<lambda>_. True"
  by (rule sqlite_run_store)

interpretation pg: run_store "pg_ops locked" db_inv queue_item run_entry "\<lambda>i. i \<notin> locked" for locked
  by (rule pg_run_store)

section \<open>Attestations of a store\<close>

definition unused_attestation_id :: "db \<Rightarrow> string \<Rightarrow> bool" where
  "unused_attestation_id s i \<longleftrightarrow> i \<notin> set (map aw_id (db_attestations s))"

definition attested_until :: "db \<Rightarrow> int \<Rightarrow> bool" where
  "attested_until s now \<longleftrightarrow> list_all (\<lambda>r. aw_created_at r \<le> now) (db_attestations s)"

text \<open>What the review routes of the API rely on beyond \<open>run_store\<close>: a new attestation is
  listed last for its run and for no other run.\<close>

locale review_store = run_store +
  fixes unused :: "'a \<Rightarrow> string \<Rightarrow> bool" and until :: "'a \<Rightarrow> int \<Rightarrow> bool"
  assumes attestation_frame: "inv s \<Longrightarrow> inv (so_save_attestation ops now a s) \<and>
      items (so_save_attestation ops now a s) = items s \<and> runs (so_save_attestation ops now a s) = runs s"
    and attestation_listed: "unused s (at_id a) \<Longrightarrow> until s now \<Longrightarrow> mk_attestation a = Inr a \<Longrightarrow>
      so_list_attestations ops (at_run_id a) s = Inr as \<Longrightarrow>
      so_list_attestations ops (at_run_id a) (so_save_attestation ops now a s) = Inr (as @ [a])"
    and attestation_elsewhere: "unused s (at_id a) \<Longrightarrow> rid \<noteq> at_run_id a \<Longrightarrow>
      so_list_attestations ops rid (so_save_attestation ops now a s) = so_list_attestations ops rid s"

lemma insort_key_snoc: "k y \<le> k x \<Longrightarrow> insort_key k y (zs @ [x]) = insort_key k y zs @ [x]"
  by (induction zs) auto

lemma sort_key_snoc: "list_all (\<lambda>y. k y \<le> k x) xs \<Longrightarrow> sort_key k (xs @ [x]) = sort_key k xs @ [x]"
  by (induction xs) (simp_all add: insort_key_snoc)

lemma sequence_snoc: "sequence (xs @ [Inr a]) = (case sequence xs of Inl e \<Rightarrow> Inl e | Inr as \<Rightarrow> Inr (as @ [a]))"
  by (induction xs) (auto split: sum.splits)


lemma attestation_rows_snoc:
  assumes "attested_until s now" "list_attestations (at_run_id a) s = Inr as" "mk_attestation a = Inr a"
    and "db_attestations s' = db_attestations s @ [mk_attestation_row now a]"
  shows "list_attestations (at_run_id a) s' = Inr (as @ [a])"
proof -
  let ?rows = "filter (\<lambda>r. aw_run_id r = at_run_id a) (db_attestations s)"
  have "sort_key aw_created_at (?rows @ [mk_attestation_row now a]) =
      sort_key aw_created_at ?rows @ [mk_attestation_row now a]"
    using assms(1) by (intro sort_key_snoc) (auto simp: attested_until_def mk_attestation_row_def list_all_iff)
  then show ?thesis
    using assms(2,3) by (simp add: list_attestations_def assms(4) sequence_snoc mk_attestation_row_def)
qed

lemma unused_save:
  assumes "unused_attestation_id s (at_id a)"
  shows "save_attestation now a s = s\<lparr>db_attestations := db_attestations s @ [mk_attestation_row now a]\<rparr>"
    "pg_save_attestation now a s = s\<lparr>db_attestations := db_attestations s @ [mk_attestation_row now a]\<rparr>"
proof -
  have "filter (\<lambda>r. aw_id r \<noteq> at_id a) (db_attestations s) = db_attestations s"
    using assms by (force simp: unused_attestation_id_def filter_id_conv)
  then show "save_attestation now a s = s\<lparr>db_attestations := db_attestations s @ [mk_attestation_row now a]\<rparr>"
    by (simp add: save_attestation_def)
  show "pg_save_attestation now a s = s\<lparr>db_attestations := db_attestations s @ [mk_attestation_row now a]\<rparr>"
    using assms by (simp add: pg_save_attestation_def unused_attestation_id_def)
qed

lemma save_attestation_frame:
  "db_inv s \<Longrightarrow> db_inv (save_attestation now a s)" "db_inv s \<Longrightarrow> db_inv (pg_save_attestation now a s)"
  "queue_item (save_attestation now a s) = queue_item s" "queue_item (pg_save_attestation now a s) = queue_item s"
  "run_entry (save_attestation now a s) = run_entry s" "run_entry (pg_save_attestation now a s) = run_entry s"
  by (simp_all add: save_attestation_def pg_save_attestation_def db_inv_def queue_item_def run_entry_def fun_eq_iff)

lemma sqlite_review_store:
  "review_store sqlite_ops db_inv queue_item run_entry (\<lambda>_. True) unused_attestation_id attested_until"
proof (rule review_store.intro [OF sqlite_run_store review_store_axioms.intro], goal_cases)
  case (2 s a now as)
  then show ?case
    using attestation_rows_snoc [of s now a as] by (simp add: sqlite_ops_def unused_save)
next
  case (3 s a rid now)
  then show ?case by (simp add: sqlite_ops_def unused_save list_attestations_def mk_attestation_row_def)
qed (simp add: sqlite_ops_def save_attestation_frame)

lemma pg_review_store:
  "review_store (pg_ops locked) db_inv queue_item run_entry (\<lambda>i. i \<notin> locked) unused_attestation_id attested_until"
proof (rule review_store.intro [OF pg_run_store review_store_axioms.intro], goal_cases)
  case (2 s a now as)
  then show ?case
    using attestation_rows_snoc [of s now a as] by (simp add: pg_ops_def unused_save)
next
  case (3 s a rid now)
  then show ?case by (simp add: pg_ops_def unused_save list_attestations_def mk_attestation_row_def)
qed (simp add: pg_ops_def save_attestation_frame)

interpretation sqlite_review: review_store sqlite_ops db_inv queue_item run_entry "\<lambda>_. True"
  unused_attestation_id attested_until
  by (rule sqlite_review_store)

interpretation pg_review: review_store "pg_ops locked" db_inv queue_item run_entry "\<lambda>i. i \<notin> locked"
  unused_attestation_id attested_until for locked
  by (rule pg_review_store)

end
