(* ===== verification/Py_Numbers.thy ===== *)
theory Py_Numbers
  imports Prelude
begin

text \<open>
  Numbers of the standard library. Floats are modelled as rationals: the sources use them for
  durations, rates and probabilities, and rounding errors of the float format are not modelled.
  \<open>round_half_even\<close> is the rounding of \<open>round\<close> and of \<open>timedelta\<close>.
\<close>

definition round_half_even :: "rat \<Rightarrow> int" where
  "round_half_even x =
     (let f = \<lfloor>x\<rfloor>; d = x - of_int f in
      if d < 1/2 then f else if 1/2 < d then f + 1 else if even f then f else f + 1)"

text \<open>\<open>round(x, n)\<close>\<close>

definition round_to :: "nat \<Rightarrow> rat \<Rightarrow> rat" where
  "round_to n x = of_int (round_half_even (x * 10 ^ n)) / 10 ^ n"

text \<open>\<open>timedelta(seconds=x)\<close> in microseconds\<close>

definition timedelta_seconds :: "rat \<Rightarrow> int" where
  "timedelta_seconds x = round_half_even (x * 1000000)"

lemma round_half_even_bounds:
  "of_int (round_half_even x) - 1/2 \<le> x" "x \<le> of_int (round_half_even x) + 1/2"
  unfolding round_half_even_def Let_def by (simp_all split: if_split, linarith+)

lemma round_half_even_int [simp]: "round_half_even (of_int k) = k"
  by (simp add: round_half_even_def)

lemma round_half_even_mono:
  assumes "x \<le> y" shows "round_half_even x \<le> round_half_even y"
proof (cases "\<lfloor>x\<rfloor> = \<lfloor>y\<rfloor>")
  case True
  with assms show ?thesis by (auto simp: round_half_even_def Let_def)
next
  case False
  with assms floor_mono [of x y] have less: "\<lfloor>x\<rfloor> < \<lfloor>y\<rfloor>" by simp
  have "round_half_even x \<le> \<lfloor>x\<rfloor> + 1" "\<lfloor>y\<rfloor> \<le> round_half_even y"
    by (simp_all add: round_half_even_def Let_def)
  with less show ?thesis by linarith
qed

end
