(* ===== verification/Queue_Worker.thy ===== *)
theory Queue_Worker
  imports Example_Runs Run_Store Py_Numbers
begin

text \<open>
  The queue worker, \<open>apps/worker/aro_worker/main.py\<close>: claim one item, execute it, retry with
  exponential backoff, dead-letter what keeps failing. The worker is written against the store
  interface; its lemmas are proved once in the locale \<open>run_store\<close> and hold of both
  backends. The abstract effect of one call on the queue is \<open>settled\<close>; interleavings of
  several workers, of enqueues and of crashes are the step relation \<open>queue_step\<close>.
\<close>

section \<open>Model\<close>

definition DEFAULT_MAX_ATTEMPTS :: int where
  "DEFAULT_MAX_ATTEMPTS = 3"

definition DEFAULT_BACKOFF_S :: rat where
  "DEFAULT_BACKOFF_S = 2"

text \<open>\<open>str(exc)\<close>\<close>

fun exn_text :: "pyexn \<Rightarrow> string" where
  "exn_text (KeyError k) = py_repr k"
| "exn_text (TypeErr m) = m"
| "exn_text (ValueErr m) = m"
| "exn_text (LookupErr m) = m"
| "exn_text (RuntimeErr m) = m"
| "exn_text (AttributeErr m) = m"

text \<open>The arguments of \<open>process_once\<close> and the clock: \<open>we_claim_at\<close> is read by the
  claim, \<open>we_now\<close> after the execution.\<close>

record worker_env =
  we_exec :: exec_env
  we_examples :: "example pydict"
  we_data_dir :: string
  we_injector :: "(queue_row \<Rightarrow> pyexn option) option"
  we_max_attempts :: int
  we_backoff_s :: rat
  we_claim_at :: int
  we_now :: int

text \<open>The store and the counters \<open>QUEUE_RETRIES_TOTAL\<close> and
  \<open>QUEUE_DEAD_LETTERS_TOTAL\<close>.\<close>

record 's worker =
  wk_store :: 's
  wk_retries :: nat
  wk_dead_letters :: nat

definition trace_path_of :: "string \<Rightarrow> string \<Rightarrow> string" where
  "trace_path_of data_dir rid = data_dir @ ''/traces/'' @ rid @ ''.jsonl''"

definition fail_placeholder :: "'s store_ops \<Rightarrow> int \<Rightarrow> queue_row \<Rightarrow> 's \<Rightarrow> (pyexn + unit) \<times> 's" where
  "fail_placeholder ops now claim s =
     (case so_get_run ops (qu_run_id claim) s of
        Inl e \<Rightarrow> (Inl e, s)
      | Inr None \<Rightarrow> (Inr (), s)
      | Inr (Some rec) \<Rightarrow>
          (Inr (), so_save_run ops now ((st_run rec)\<lparr>run_status := Failed\<rparr>) (st_task rec)
             (st_example rec) (st_trace_path rec) s))"

text \<open>The body of the \<open>try\<close> up to the first write: the injector, the example, the run.\<close>

definition attempt_claim :: "worker_env \<Rightarrow> queue_row \<Rightarrow> pyexn + (example \<times> agent_run)" where
  "attempt_claim env claim =
     (case (case we_injector env of None \<Rightarrow> None | Some inject \<Rightarrow> inject claim) of
        Some e \<Rightarrow> Inl e
      | None \<Rightarrow>
          (case dict_get (we_examples env) (qu_example claim) of
             None \<Rightarrow> Inl (LookupErr (''unknown example: '' @ qu_example claim))
           | Some ex \<Rightarrow>
               map_sum id (\<lambda>p. (ex, fst p)) (run_example (we_exec env) ex (qu_run_id claim))))"

text \<open>\<open>backoff_s * (2 ** (attempts - 1))\<close>\<close>

definition backoff_delay :: "worker_env \<Rightarrow> int \<Rightarrow> rat" where
  "backoff_delay env attempts = we_backoff_s env * 2 ^ nat (attempts - 1)"

definition process_claim :: "'s store_ops \<Rightarrow> worker_env \<Rightarrow> queue_row \<Rightarrow> 's worker \<Rightarrow>
    (pyexn + string option) \<times> 's worker" where
  "process_claim ops env claim w =
     (case attempt_claim env claim of
        Inr (ex, run) \<Rightarrow>
          (Inr (Some (qu_run_id claim)),
           w\<lparr>wk_store := so_mark ops (qu_id claim) ''done''
               (so_save_run ops (we_now env) run (sc_task (ex_script ex)) (Some (ex_name ex))
                  (Some (trace_path_of (we_data_dir env) (qu_run_id claim))) (wk_store w))\<rparr>)
      | Inl exc \<Rightarrow>
          let attempts = qu_attempts claim + 1; err = exn_text exc in
          if we_max_attempts env \<le> attempts
          then let (res, s) = fail_placeholder ops (we_now env) claim
                     (so_mark_dead ops (qu_id claim) attempts err (wk_store w))
               in (map_sum id (\<lambda>_. Some (qu_run_id claim)) res,
                   w\<lparr>wk_store := s, wk_dead_letters := wk_dead_letters w + 1\<rparr>)
          else (Inr (Some (qu_run_id claim)),
                w\<lparr>wk_store := so_retry ops (qu_id claim) attempts
                    (we_now env + timedelta_seconds (backoff_delay env attempts)) err (wk_store w),
                  wk_retries := wk_retries w + 1\<rparr>))"

definition process_once :: "'s store_ops \<Rightarrow> worker_env \<Rightarrow> 's worker \<Rightarrow>
    (pyexn + string option) \<times> 's worker" where
  "process_once ops env w =
     (case so_claim_next ops (we_claim_at env) (wk_store w) of
        (None, s) \<Rightarrow> (Inr None, w\<lparr>wk_store := s\<rparr>)
      | (Some claim, s) \<Rightarrow> process_claim ops env claim (w\<lparr>wk_store := s\<rparr>))"

text \<open>\<open>chaos_injector_from_env\<close>, from the value of \<open>ARO_CHAOS_FAIL_ATTEMPTS\<close>.\<close>

definition CHAOS_TEXT :: string where
  "CHAOS_TEXT = ''chaos: injected failure (ARO_CHAOS_FAIL_ATTEMPTS)''"

definition chaos_injector :: "int \<Rightarrow> (queue_row \<Rightarrow> pyexn option) option" where
  "chaos_injector fail_attempts =
     (if fail_attempts \<le> 0 then None
      else Some (\<lambda>claim. if qu_attempts claim < fail_attempts then Some (RuntimeErr CHAOS_TEXT) else None))"

section \<open>Abstract effect\<close>

text \<open>What a claim turns a pending row into.\<close>

definition settled :: "worker_env \<Rightarrow> queue_row \<Rightarrow> queue_row" where
  "settled env q =
     (case attempt_claim env q of
        Inr _ \<Rightarrow> q\<lparr>qu_status := ''done''\<rparr>
      | Inl exc \<Rightarrow>
          let attempts = qu_attempts q + 1 in
          if we_max_attempts env \<le> attempts
          then q\<lparr>qu_status := ''dead'', qu_attempts := attempts, qu_last_error := Some (exn_text exc)\<rparr>
          else q\<lparr>qu_status := ''pending'', qu_attempts := attempts,
                 qu_available_at := Some (we_now env + timedelta_seconds (backoff_delay env attempts)),
                 qu_last_error := Some (exn_text exc)\<rparr>)"

lemma settled_id [simp]: "qu_id (settled env q) = qu_id q" "qu_run_id (settled env q) = qu_run_id q"
  by (simp_all add: settled_def Let_def split: sum.splits)

text \<open>The life of an item under a bound on the attempts.\<close>

definition item_ok :: "int \<Rightarrow> queue_row \<Rightarrow> bool" where
  "item_ok m q \<longleftrightarrow> 0 \<le> qu_attempts q \<and>
     (qu_status q = ''dead'' \<and> qu_attempts q = max 1 m \<and> qu_last_error q \<noteq> None \<or>
      qu_status q \<in> {''pending'', ''running'', ''done''} \<and> qu_attempts q < max 1 m)"

lemma item_ok_settled:
  assumes "item_ok (we_max_attempts env) q" "qu_status q = ''pending''"
  shows "item_ok (we_max_attempts env) (settled env q)"
  using assms by (auto simp: item_ok_def settled_def Let_def split: sum.splits)

text \<open>Claims an item can still cause.\<close>

definition claims_left :: "int \<Rightarrow> queue_row \<Rightarrow> nat" where
  "claims_left m q = (if qu_status q = ''pending'' then nat (max 1 (m - qu_attempts q)) else 0)"

lemma claims_left_settled:
  "qu_status q = ''pending'' \<Longrightarrow> claims_left (we_max_attempts env) (settled env q) < claims_left (we_max_attempts env) q"
  by (auto simp: claims_left_def settled_def Let_def split: sum.splits)

section \<open>The worker over any store\<close>

context run_store
begin

lemma fail_placeholder_effect:
  assumes "inv s" "fail_placeholder ops now claim s = (r, s')"
  shows "inv s' \<and> items s' = items s"
  using assms save_run [OF assms(1)]
  by (auto simp: fail_placeholder_def split: sum.splits option.splits)

lemma process_claim_effect:
  assumes "inv (wk_store w)" "items (wk_store w) (qu_id q) = Some (q\<lparr>qu_status := ''running''\<rparr>)"
    and "process_claim ops env q w = (r, w')"
  shows "inv (wk_store w') \<and> items (wk_store w') = (items (wk_store w))(qu_id q \<mapsto> settled env q)"
proof (cases "attempt_claim env q")
  case (Inr p)
  then obtain ex run where "attempt_claim env q = Inr (ex, run)" by (cases p) auto
  with assms save_run [OF assms(1)] mark show ?thesis
    by (auto simp: process_claim_def settled_def fun_eq_iff)
next
  case (Inl e)
  let ?n = "qu_attempts q + 1"
  show ?thesis
  proof (cases "we_max_attempts env \<le> ?n")
    case True
    let ?s = "so_mark_dead ops (qu_id q) ?n (exn_text e) (wk_store w)"
    obtain res s where f: "fail_placeholder ops (we_now env) q ?s = (res, s)" by fastforce
    have "w' = w\<lparr>wk_store := s, wk_dead_letters := wk_dead_letters w + 1\<rparr>"
      using assms(3) Inl True f by (simp add: process_claim_def Let_def)
    moreover have "settled env q = q\<lparr>qu_status := ''dead'', qu_attempts := ?n, qu_last_error := Some (exn_text e)\<rparr>"
      using Inl True by (simp add: settled_def Let_def)
    ultimately show ?thesis
      using fail_placeholder_effect [OF _ f] mark_dead [OF assms(1)] assms(2) by simp
  next
    case False
    then show ?thesis
      using assms(2,3) Inl retry [OF assms(1)]
      by (auto simp: process_claim_def settled_def Let_def fun_eq_iff)
  qed
qed

text \<open>One call of the worker, as its client sees it.\<close>

lemma process_once_idle:
  assumes "inv (wk_store w)" "process_once ops env w = (Inr None, w')"
  shows "w' = w \<and> (\<forall>i q. items (wk_store w) i = Some q \<longrightarrow> visible i \<longrightarrow> \<not> due (we_claim_at env) q)"
proof (cases "so_claim_next ops (we_claim_at env) (wk_store w)")
  case (Pair c s)
  show ?thesis
  proof (cases c)
    case None
    with Pair claim_none [OF assms(1)] assms(2) show ?thesis by (auto simp: process_once_def)
  next
    case (Some q)
    have "fst (process_claim ops env q (w\<lparr>wk_store := s\<rparr>)) \<noteq> Inr None"
      by (auto simp: process_claim_def Let_def fail_placeholder_def split: sum.splits option.splits if_splits)
    with assms(2) Pair Some show ?thesis by (simp add: process_once_def)
  qed
qed

lemma process_once_claims:
  assumes "inv (wk_store w)" "process_once ops env w = (r, w')" "r \<noteq> Inr None"
  shows "\<exists>q. items (wk_store w) (qu_id q) = Some q \<and> due (we_claim_at env) q \<and> visible (qu_id q) \<and>
    (\<forall>i p. items (wk_store w) i = Some p \<longrightarrow> visible i \<longrightarrow> due (we_claim_at env) p \<longrightarrow> qu_id q \<le> i) \<and>
    inv (wk_store w') \<and> items (wk_store w') = (items (wk_store w))(qu_id q \<mapsto> settled env q)"
proof -
  obtain c s where c: "so_claim_next ops (we_claim_at env) (wk_store w) = (c, s)" by fastforce
  from assms(2,3) c obtain q where q: "c = Some q"
    by (cases c) (auto simp: process_once_def)
  note claimed = claim_some [OF assms(1) c [unfolded q]]
  from assms(2) c q have "process_claim ops env q (w\<lparr>wk_store := s\<rparr>) = (r, w')"
    by (simp add: process_once_def)
  from process_claim_effect [OF _ _ this] claimed
  have "inv (wk_store w') \<and> items (wk_store w') = (items s)(qu_id q \<mapsto> settled env q)" by simp
  with claimed show ?thesis by auto
qed

lemma process_once_inv:
  assumes "inv (wk_store w)" "process_once ops env w = (r, w')"
  shows "inv (wk_store w')"
proof (cases "r = Inr None")
  case True
  with process_once_idle [OF assms(1) assms(2) [unfolded True]] assms(1) show ?thesis by simp
next
  case False
  with process_once_claims [OF assms] show ?thesis by blast
qed

text \<open>Items that are not pending keep their row.\<close>

lemma process_once_keeps:
  assumes "inv (wk_store w)" "process_once ops env w = (r, w')"
    and "items (wk_store w) i = Some q" "qu_status q \<noteq> ''pending''"
  shows "items (wk_store w') i = Some q"
proof (cases "r = Inr None")
  case True
  with process_once_idle [OF assms(1) assms(2) [unfolded True]] assms show ?thesis by auto
next
  case False
  from process_once_claims [OF assms(1,2) False] obtain p where
    "items (wk_store w) (qu_id p) = Some p" "due (we_claim_at env) p"
    "items (wk_store w') = (items (wk_store w))(qu_id p \<mapsto> settled env p)" by blast
  with assms(3,4) show ?thesis by (auto simp: due_def)
qed

lemma process_once_items_ok:
  assumes "inv (wk_store w)" "process_once ops env w = (r, w')" "we_max_attempts env = m"
    and "\<And>i q. items (wk_store w) i = Some q \<Longrightarrow> item_ok m q" "items (wk_store w') i = Some q"
  shows "item_ok m q"
proof (cases "r = Inr None")
  case True
  with process_once_idle [OF assms(1) assms(2) [unfolded True]] assms show ?thesis by auto
next
  case False
  from process_once_claims [OF assms(1,2) False] obtain p where
    p: "items (wk_store w) (qu_id p) = Some p" "due (we_claim_at env) p"
    "items (wk_store w') = (items (wk_store w))(qu_id p \<mapsto> settled env p)" by blast
  have "item_ok m (settled env p)"
    using item_ok_settled [of env p] assms(3) assms(4) [OF p(1)] p(2) by (simp add: due_def)
  with p(3) assms(4,5) show ?thesis by (auto split: if_splits)
qed

end

section \<open>Histories of the queue\<close>

text \<open>The operations a process of each backend works with; a Postgres transaction can find any
  rows locked.\<close>

fun backend_ops :: "backend \<Rightarrow> db store_ops set" where
  "backend_ops (Sqlite _) = {sqlite_ops}"
| "backend_ops (Postgres _) = range pg_ops"

text \<open>A new item, a call of a worker with \<open>max_attempts = m\<close>, or a worker that dies
  right after its claim.\<close>

inductive queue_step :: "backend \<Rightarrow> int \<Rightarrow> db \<Rightarrow> db \<Rightarrow> bool" for b m where
  step_enqueue: "ops \<in> backend_ops b \<Longrightarrow> so_enqueue ops now rid ex s = (i, s') \<Longrightarrow> queue_step b m s s'"
| step_process: "ops \<in> backend_ops b \<Longrightarrow> we_max_attempts env = m \<Longrightarrow> wk_store w = s \<Longrightarrow>
    process_once ops env w = (r, w') \<Longrightarrow> queue_step b m s (wk_store w')"
| step_crash: "ops \<in> backend_ops b \<Longrightarrow> so_claim_next ops now s = (c, s') \<Longrightarrow> queue_step b m s s'"

inductive_cases queue_stepE: "queue_step b m s s'"

context run_store
begin

lemma enqueue_keeps:
  assumes "inv s" "so_enqueue ops now rid ex s = (i, s')" "items s j = Some q"
  shows "items s' j = Some q"
  using enqueue [OF assms(1,2)] assms(3) by auto

lemma enqueue_items_ok:
  assumes "inv s" "so_enqueue ops now rid ex s = (i, s')" "\<And>i q. items s i = Some q \<Longrightarrow> item_ok m q"
    and "items s' j = Some q"
  shows "item_ok m q"
  using enqueue [OF assms(1,2)] assms(3,4) by (auto simp: item_ok_def split: if_splits)

lemma claim_keeps:
  assumes "inv s" "so_claim_next ops now s = (c, s')" "items s j = Some q" "qu_status q \<noteq> ''pending''"
  shows "items s' j = Some q"
proof (cases c)
  case None
  with claim_none [OF assms(1)] assms show ?thesis by auto
next
  case (Some p)
  with claim_some [OF assms(1) assms(2) [unfolded Some]] assms show ?thesis by (auto simp: due_def)
qed

lemma claim_inv: "inv s \<Longrightarrow> so_claim_next ops now s = (c, s') \<Longrightarrow> inv s'"
  using claim_none claim_some by (cases c) auto

lemma claim_items_ok:
  assumes "inv s" "so_claim_next ops now s = (c, s')" "\<And>i q. items s i = Some q \<Longrightarrow> item_ok m q"
    and "items s' j = Some q"
  shows "item_ok m q"
proof (cases c)
  case None
  with claim_none [OF assms(1) assms(2) [unfolded None]] assms show ?thesis by auto
next
  case (Some p)
  from claim_some [OF assms(1) assms(2) [unfolded Some]] have
    "items s (qu_id p) = Some p" "qu_status p = ''pending''"
    "items s' = (items s)(qu_id p \<mapsto> p\<lparr>qu_status := ''running''\<rparr>)" by (auto simp: due_def)
  with assms(3) [of "qu_id p" p] assms(3) assms(4) show ?thesis by (auto simp: item_ok_def split: if_splits)
qed

end

lemma backend_store: "ops \<in> backend_ops b \<Longrightarrow> \<exists>visible. run_store ops db_inv queue_item run_entry visible"
  using sqlite_run_store pg_run_store by (cases b) auto

lemma queue_step_inv:
  assumes "queue_step b m s s'" "db_inv s"
  shows "db_inv s'"
  using assms(1)
proof (cases rule: queue_step.cases)
  case (step_enqueue ops now rid ex i)
  then obtain visible where "run_store ops db_inv queue_item run_entry visible" using backend_store by blast
  from run_store.enqueue [OF this assms(2) step_enqueue(2)] show ?thesis by blast
next
  case (step_process ops env w r w')
  then obtain visible where "run_store ops db_inv queue_item run_entry visible" using backend_store by blast
  from run_store.process_once_inv [OF this _ step_process(5)] step_process assms(2) show ?thesis by simp
next
  case (step_crash ops now c)
  then obtain visible where "run_store ops db_inv queue_item run_entry visible" using backend_store by blast
  from run_store.claim_inv [OF this assms(2) step_crash(2)] show ?thesis .
qed

lemma queue_step_keeps:
  assumes "queue_step b m s s'" "db_inv s" "queue_item s i = Some q" "qu_status q \<noteq> ''pending''"
  shows "queue_item s' i = Some q"
  using assms(1)
proof (cases rule: queue_step.cases)
  case (step_enqueue ops now rid ex j)
  then obtain visible where "run_store ops db_inv queue_item run_entry visible" using backend_store by blast
  from run_store.enqueue_keeps [OF this assms(2) step_enqueue(2) assms(3)] show ?thesis .
next
  case (step_process ops env w r w')
  then obtain visible where "run_store ops db_inv queue_item run_entry visible" using backend_store by blast
  from run_store.process_once_keeps [OF this _ step_process(5)] step_process assms(2-) show ?thesis by simp
next
  case (step_crash ops now c)
  then obtain visible where "run_store ops db_inv queue_item run_entry visible" using backend_store by blast
  from run_store.claim_keeps [OF this assms(2) step_crash(2) assms(3,4)] show ?thesis .
qed

lemma queue_step_items_ok:
  assumes "queue_step b m s s'" "db_inv s" "\<And>i q. queue_item s i = Some q \<Longrightarrow> item_ok m q"
    and "queue_item s' i = Some q"
  shows "item_ok m q"
  using assms(1)
proof (cases rule: queue_step.cases)
  case (step_enqueue ops now rid ex j)
  then obtain visible where "run_store ops db_inv queue_item run_entry visible" using backend_store by blast
  from run_store.enqueue_items_ok [OF this assms(2) step_enqueue(2) assms(3,4)] show ?thesis .
next
  case (step_process ops env w r w')
  then obtain visible where R: "run_store ops db_inv queue_item run_entry visible" using backend_store by blast
  from step_process(4) assms(2) have "db_inv (wk_store w)" by simp
  from run_store.process_once_items_ok [OF R this step_process(5,3)] step_process(1,4) assms(3,4)
  show ?thesis by simp
next
  case (step_crash ops now c)
  then obtain visible where "run_store ops db_inv queue_item run_entry visible" using backend_store by blast
  from run_store.claim_items_ok [OF this assms(2) step_crash(2) assms(3,4)] show ?thesis .
qed

lemma queue_steps_keep:
  assumes "(queue_step b m)\<^sup>*\<^sup>* s s'" "db_inv s"
  shows "db_inv s' \<and> (\<forall>i q. queue_item s i = Some q \<longrightarrow> qu_status q \<noteq> ''pending'' \<longrightarrow> queue_item s' i = Some q)"
  using assms
proof (induction rule: rtranclp_induct)
  case (step y z)
  then show ?case using queue_step_inv [OF step.hyps(2)] queue_step_keeps [OF step.hyps(2)] by blast
qed auto

lemma queue_steps_ok:
  assumes "(queue_step b m)\<^sup>*\<^sup>* empty_db s"
  shows "db_inv s \<and> (\<forall>i q. queue_item s i = Some q \<longrightarrow> item_ok m q)"
  using assms
proof (induction rule: rtranclp_induct)
  case base
  then show ?case by (simp add: empty_db_def db_inv_def queue_item_def)
next
  case (step y z)
  then show ?case using queue_step_inv [OF step.hyps(2)] queue_step_items_ok [OF step.hyps(2)] by blast
qed

section \<open>Total work\<close>

text \<open>Claims the whole queue can still cause, and those a sequence of calls makes.\<close>

definition work_left :: "int \<Rightarrow> db \<Rightarrow> nat" where
  "work_left m s = sum_list (map (claims_left m) (db_queue s))"

fun claims_made :: "db store_ops \<Rightarrow> worker_env list \<Rightarrow> db worker \<Rightarrow> nat" where
  "claims_made ops [] w = 0"
| "claims_made ops (e # es) w =
     (let (r, w') = process_once ops e w in (if r = Inr None then 0 else 1) + claims_made ops es w')"

lemma work_left_sum: "db_inv s \<Longrightarrow> work_left m s = sum (claims_left m) (set (db_queue s))"
  by (simp add: work_left_def db_inv_def sum_list_distinct_conv_sum_set distinct_map)

lemma queue_set_update:
  assumes "db_inv s" "db_inv s'" "queue_item s (qu_id q) = Some q" "qu_id q' = qu_id q"
    and "queue_item s' = (queue_item s)(qu_id q \<mapsto> q')"
  shows "set (db_queue s') = insert q' (set (db_queue s) - {q})"
proof -
  have "r \<in> set (db_queue s') \<longleftrightarrow> r = q' \<or> (r \<in> set (db_queue s) \<and> r \<noteq> q)" for r
  proof (cases "qu_id r = qu_id q")
    case True
    then have "r \<in> set (db_queue s') \<longleftrightarrow> r = q'"
      using queue_item_iff [OF assms(2), of "qu_id r" r] assms(5) by auto
    moreover have "r \<in> set (db_queue s) \<longleftrightarrow> r = q"
      using True queue_item_iff [OF assms(1), of "qu_id r" r] assms(3) by auto
    ultimately show ?thesis by blast
  next
    case False
    then have "r \<in> set (db_queue s') \<longleftrightarrow> r \<in> set (db_queue s)"
      using queue_item_iff [OF assms(1), of "qu_id r" r] queue_item_iff [OF assms(2), of "qu_id r" r] assms(5)
      by simp
    with False assms(4) show ?thesis by auto
  qed
  then show ?thesis by blast
qed

lemma work_left_process:
  assumes "ops \<in> backend_ops b" "db_inv (wk_store w)" "process_once ops env w = (r, w')"
    and "we_max_attempts env = m"
  shows "db_inv (wk_store w') \<and>
    (if r = Inr None then 0 else 1) + work_left m (wk_store w') \<le> work_left m (wk_store w)"
proof -
  from backend_store [OF assms(1)] obtain visible where
    R: "run_store ops db_inv queue_item run_entry visible" by blast
  show ?thesis
  proof (cases "r = Inr None")
    case True
    with run_store.process_once_idle [OF R assms(2) assms(3) [unfolded True]] assms(2) show ?thesis by simp
  next
    case False
    from run_store.process_once_claims [OF R assms(2,3) False] obtain q where
      q: "queue_item (wk_store w) (qu_id q) = Some q" "due (we_claim_at env) q" and
      inv': "db_inv (wk_store w')" and
      upd: "queue_item (wk_store w') = (queue_item (wk_store w))(qu_id q \<mapsto> settled env q)" by blast
    let ?Q = "set (db_queue (wk_store w))"
    have set': "set (db_queue (wk_store w')) = insert (settled env q) (?Q - {q})"
      by (rule queue_set_update [OF assms(2) inv' q(1) _ upd]) simp
    have mem: "q \<in> ?Q" using q(1) queue_item_iff [OF assms(2)] by blast
    have "claims_left m (settled env q) < claims_left m q"
      using claims_left_settled [of q env] q(2) assms(4) by (simp add: due_def)
    moreover have "sum (claims_left m) (insert (settled env q) (?Q - {q})) \<le>
        claims_left m (settled env q) + sum (claims_left m) (?Q - {q})"
      by (simp add: sum.insert_if)
    moreover have "sum (claims_left m) ?Q = claims_left m q + sum (claims_left m) (?Q - {q})"
      by (rule sum.remove) (simp_all add: mem)
    ultimately show ?thesis
      using inv' False by (simp add: work_left_sum assms(2) set')
  qed
qed

lemma claims_made_bound:
  assumes "ops \<in> backend_ops b" "db_inv (wk_store w)" "list_all (\<lambda>e. we_max_attempts e = m) es"
  shows "claims_made ops es w \<le> work_left m (wk_store w)"
  using assms(2,3)
proof (induction es arbitrary: w)
  case (Cons e es)
  obtain r w' where p: "process_once ops e w = (r, w')" by fastforce
  from work_left_process [OF assms(1) Cons.prems(1) p] Cons.prems(2)
  have "db_inv (wk_store w')" "(if r = Inr None then 0 else 1) + work_left m (wk_store w') \<le> work_left m (wk_store w)"
    by auto
  with Cons.IH [of w'] Cons.prems(2) p show ?case by simp
qed simp

end
