(* ===== verification/Queue_Properties.thy ===== *)
theory Queue_Properties
  imports Queue_Worker
begin

text \<open>
  What the worker guarantees, on both backends: the effect of one call, the life of an item over
  any history of the queue, the bound on the claims a queue can cause, recovery from injected
  failures over a sequence of calls, and that a finished run passes the validators that re-run on reading.
\<close>

section \<open>Instances\<close>

definition demo_example :: example where
  "demo_example = \<lparr>ex_name = ''demo'', ex_script = three_steps,
     ex_policy = en_policy guarded, ex_workspace = [(''b'', ''x'')], ex_expected = None, ex_golden = None\<rparr>"

text \<open>A worker with three attempts whose items fail their first \<open>n\<close>.\<close>

definition demo_worker_env :: "int \<Rightarrow> int \<Rightarrow> worker_env" where
  "demo_worker_env n now = \<lparr>we_exec = guarded, we_examples = [(''demo'', demo_example)], we_data_dir = ''d'',
     we_injector = chaos_injector n, we_max_attempts = DEFAULT_MAX_ATTEMPTS,
     we_backoff_s = DEFAULT_BACKOFF_S, we_claim_at = now, we_now = now\<rparr>"

definition demo_db :: db where
  "demo_db = snd (enqueue 5 ''run-1'' ''demo'' (save_placeholder 5 ''run-1'' (sc_task three_steps) ''demo'' empty_db))"

definition demo_item :: queue_row where
  "demo_item = \<lparr>qu_id = 1, qu_run_id = ''run-1'', qu_example = ''demo'', qu_status = ''pending'',
     qu_attempts = 0, qu_available_at = None, qu_last_error = None, qu_enqueued_at = 5\<rparr>"

definition demo_worker :: "db worker" where
  "demo_worker = \<lparr>wk_store = demo_db, wk_retries = 0, wk_dead_letters = 0\<rparr>"

lemma demo_db_facts: "db_inv demo_db" "db_queue demo_db = [demo_item]"
  by (simp_all add: demo_db_def demo_item_def enqueue_def save_placeholder_def save_run_def empty_db_def
      db_inv_def mk_run_row_def placeholder_run_def)

lemma demo_run: "\<exists>run tr. run_example (we_exec (demo_worker_env n t)) demo_example ''run-1'' = Inr (run, tr)"
proof -
  have "guarded\<lparr>en_policy := en_policy guarded, en_run_id := ''run-1''\<rparr> = guarded"
    by (simp add: guarded_def demo_env_def)
  with three_steps_run show ?thesis
    by (simp add: run_example_def demo_worker_env_def demo_example_def)
qed

section \<open>One call\<close>

lemma backend_visible:
  assumes "ops = sqlite_ops \<and> locked = {} \<or> ops = pg_ops locked"
  shows "run_store ops db_inv queue_item run_entry (\<lambda>i. i \<notin> locked)"
  using assms sqlite_run_store pg_run_store by auto

text \<open>
  C1: one call of the worker settles at most one queue item, on both backends. It finds nothing
  exactly when no unlocked item is pending and due, and then changes nothing; otherwise it takes
  the unlocked due item with the least id and replaces it by \<open>settled\<close>: done on success,
  else one attempt more and either dead with the error or pending again after the backoff.
  No other item changes.
\<close>

theorem process_once_settles_one_item:
  assumes "ops = sqlite_ops \<and> locked = {} \<or> ops = pg_ops locked"
    and "db_inv (wk_store w)" "process_once ops env w = (r, w')"
  shows "if r = Inr None
     then w' = w \<and> (\<forall>q\<in>set (db_queue (wk_store w)). qu_id q \<notin> locked \<longrightarrow> \<not> due (we_claim_at env) q)
     else (\<exists>q\<in>set (db_queue (wk_store w)). due (we_claim_at env) q \<and> qu_id q \<notin> locked \<and>
        (\<forall>p\<in>set (db_queue (wk_store w)). due (we_claim_at env) p \<longrightarrow> qu_id p \<notin> locked \<longrightarrow> qu_id q \<le> qu_id p) \<and>
        set (db_queue (wk_store w')) = insert (settled env q) (set (db_queue (wk_store w)) - {q}))"
proof -
  note R = backend_visible [OF assms(1)]
  have item: "q \<in> set (db_queue (wk_store w)) \<longleftrightarrow> queue_item (wk_store w) (qu_id q) = Some q" for q
    using queue_item_iff [OF assms(2)] by blast
  show ?thesis
  proof (cases "r = Inr None")
    case True
    with run_store.process_once_idle [OF R assms(2) assms(3) [unfolded True]] show ?thesis
      by (auto simp: item)
  next
    case False
    from run_store.process_once_claims [OF R assms(2,3) False] obtain q where
      q: "queue_item (wk_store w) (qu_id q) = Some q" "due (we_claim_at env) q" "qu_id q \<notin> locked"
      and least: "\<forall>i p. queue_item (wk_store w) i = Some p \<longrightarrow> i \<notin> locked \<longrightarrow> due (we_claim_at env) p \<longrightarrow> qu_id q \<le> i"
      and inv': "db_inv (wk_store w')"
      and upd: "queue_item (wk_store w') = (queue_item (wk_store w))(qu_id q \<mapsto> settled env q)" by blast
    have "set (db_queue (wk_store w')) = insert (settled env q) (set (db_queue (wk_store w)) - {q})"
      by (rule queue_set_update [OF assms(2) inv' q(1) _ upd]) simp
    with q least False show ?thesis by (auto simp: item)
  qed
qed

lemma demo_process: "\<exists>r w'. process_once sqlite_ops (demo_worker_env 1 9) demo_worker = (r, w') \<and> r \<noteq> Inr None"
proof -
  have "fst (process_once sqlite_ops (demo_worker_env 1 9) demo_worker) \<noteq> Inr None"
    by (simp add: process_once_def sqlite_ops_def claim_next_def demo_worker_def demo_db_facts due_def
        demo_item_def first_by_id_def process_claim_def attempt_claim_def demo_worker_env_def
        chaos_injector_def DEFAULT_MAX_ATTEMPTS_def Let_def)
  then show ?thesis by (metis prod.collapse)
qed

theorem process_once_settles_one_item_witness:
  "\<exists>r w'. process_once sqlite_ops (demo_worker_env 1 9) demo_worker = (r, w') \<and>
     set (db_queue (wk_store w')) = {settled (demo_worker_env 1 9) demo_item}"
proof -
  from demo_process obtain r w' where p: "process_once sqlite_ops (demo_worker_env 1 9) demo_worker = (r, w')"
    and "r \<noteq> Inr None" by blast
  with process_once_settles_one_item [of sqlite_ops "{}" demo_worker "demo_worker_env 1 9" r w']
  show ?thesis by (auto simp: demo_worker_def demo_db_facts)
qed

section \<open>Histories\<close>

text \<open>
  C2: attempts are bounded and dead letters are exact. Starting from an empty database, through any
  interleaving of enqueues, calls of workers with the same \<open>max_attempts\<close> and crashes after a
  claim, every item has one of the four documented statuses; it is dead exactly when it has used up
  all its attempts, and then its last error is recorded.
\<close>

theorem attempts_bounded:
  assumes "(queue_step b m)\<^sup>*\<^sup>* empty_db s" "q \<in> set (db_queue s)"
  shows "qu_status q \<in> {''pending'', ''running'', ''done'', ''dead''} \<and>
    0 \<le> qu_attempts q \<and> qu_attempts q \<le> max 1 m \<and>
    (qu_status q = ''dead'' \<longleftrightarrow> qu_attempts q = max 1 m) \<and>
    (qu_status q = ''dead'' \<longrightarrow> qu_last_error q \<noteq> None)"
proof -
  from queue_steps_ok [OF assms(1)] assms(2) have "item_ok m q"
    using queue_item_iff [of s "qu_id q" q] by blast
  then show ?thesis by (auto simp: item_ok_def)
qed

lemma demo_history: "(queue_step (Sqlite ''aro.db'') 3)\<^sup>*\<^sup>* empty_db (snd (enqueue 5 ''r'' ''demo'' empty_db))"
proof -
  have "queue_step (Sqlite ''aro.db'') 3 empty_db (snd (enqueue 5 ''r'' ''demo'' empty_db))"
    by (rule step_enqueue [of sqlite_ops _ 5 "''r''" "''demo''" _ 1])
      (simp_all add: sqlite_ops_def enqueue_def empty_db_def)
  then show ?thesis by blast
qed

theorem attempts_bounded_witness:
  "let q = db_queue (snd (enqueue 5 ''r'' ''demo'' empty_db)) ! 0 in
     qu_attempts q \<le> max 1 3 \<and> (qu_status q = ''dead'' \<longleftrightarrow> qu_attempts q = max 1 3)"
proof -
  have "db_queue (snd (enqueue 5 ''r'' ''demo'' empty_db)) ! 0 \<in>
      set (db_queue (snd (enqueue 5 ''r'' ''demo'' empty_db)))"
    by (simp add: enqueue_def empty_db_def)
  from attempts_bounded [OF demo_history this] show ?thesis by (simp add: Let_def)
qed

text \<open>
  what is not pending is left alone. Once an item is running, done or dead, no enqueue, call of
  a worker or crash changes its row. So workers do not disturb each other's items and final
  statuses are final; it also means that an item whose worker died after the claim stays
  \<open>running\<close> for ever.
\<close>

theorem settled_items_stay:
  assumes "(queue_step b m)\<^sup>*\<^sup>* s s'" "db_inv s" "q \<in> set (db_queue s)" "qu_status q \<noteq> ''pending''"
  shows "q \<in> set (db_queue s')"
proof -
  from assms(2,3) have "queue_item s (qu_id q) = Some q" by (simp add: queue_item_iff)
  with queue_steps_keep [OF assms(1,2)] assms(4) have "db_inv s'" "queue_item s' (qu_id q) = Some q" by blast+
  then show ?thesis by (simp add: queue_item_iff)
qed

theorem settled_items_stay_witness:
  "demo_item\<lparr>qu_status := ''running''\<rparr> \<in>
     set (db_queue (snd (enqueue 9 ''r2'' ''demo'' (snd (claim_next 8 demo_db)))))"
proof -
  let ?s = "snd (claim_next 8 demo_db)"
  have s: "?s = mark 1 ''running'' demo_db"
    by (simp add: claim_next_def demo_db_facts first_by_id_def due_def demo_item_def)
  have inv: "db_inv ?s" unfolding s using queue_update_laws(1) [OF demo_db_facts(1)] by blast
  have mem: "demo_item\<lparr>qu_status := ''running''\<rparr> \<in> set (db_queue ?s)"
    by (simp add: s mark_def demo_db_facts upd_where_def demo_item_def)
  have "queue_step (Sqlite ''x'') 3 ?s (snd (enqueue 9 ''r2'' ''demo'' ?s))"
    by (rule step_enqueue [of sqlite_ops _ 9 "''r2''" "''demo''" _ "fst (enqueue 9 ''r2'' ''demo'' ?s)"])
      (simp_all add: sqlite_ops_def)
  then have "(queue_step (Sqlite ''x'') 3)\<^sup>*\<^sup>* ?s (snd (enqueue 9 ''r2'' ''demo'' ?s))" by blast
  from settled_items_stay [OF this inv mem] show ?thesis by (simp add: demo_item_def)
qed

text \<open>
  C14: the queue drains. Among any number of calls of workers with the same \<open>max_attempts\<close>, at
  most \<open>work_left\<close> of them find an item: a pending item accounts for its remaining attempts
  and nothing else counts. So a queue without new work is exhausted after finitely many claims,
  however often executions fail.
\<close>

theorem queue_drains:
  assumes "ops \<in> backend_ops b" "db_inv (wk_store w)" "list_all (\<lambda>e. we_max_attempts e = m) envs"
  shows "claims_made ops envs w \<le> work_left m (wk_store w)"
  using assms by (rule claims_made_bound)

theorem queue_drains_witness:
  "claims_made sqlite_ops (replicate 7 (demo_worker_env 9 5)) demo_worker \<le> 3"
proof -
  have "work_left 3 (wk_store demo_worker) = 3"
    by (simp add: work_left_def demo_worker_def demo_db_facts claims_left_def demo_item_def)
  with queue_drains [of sqlite_ops "Sqlite ''x''" demo_worker 3 "replicate 7 (demo_worker_env 9 5)"]
  show ?thesis
    by (simp add: demo_worker_def demo_db_facts list_all_iff demo_worker_env_def DEFAULT_MAX_ATTEMPTS_def)
qed

section \<open>Injected failures\<close>

lemma attempt_chaos:
  assumes "we_injector env = chaos_injector n"
  shows "qu_attempts q < n \<Longrightarrow> 0 \<le> qu_attempts q \<Longrightarrow> attempt_claim env q = Inl (RuntimeErr CHAOS_TEXT)"
  using assms by (simp add: attempt_claim_def chaos_injector_def)

lemma attempt_no_chaos:
  assumes "we_injector env = chaos_injector n" "n \<le> qu_attempts q"
    and "dict_get (we_examples env) (qu_example q) = Some ex" "run_example (we_exec env) ex (qu_run_id q) = Inr p"
  shows "attempt_claim env q = Inr (ex, fst p)"
  using assms by (simp add: attempt_claim_def chaos_injector_def)

lemma settled_example [simp]: "qu_example (settled env q) = qu_example q"
  by (simp add: settled_def Let_def split: sum.splits)

text \<open>An environment that injects \<open>n\<close> failures and otherwise runs the item's example.\<close>

definition chaotic :: "int \<Rightarrow> int \<Rightarrow> queue_row \<Rightarrow> worker_env \<Rightarrow> bool" where
  "chaotic n m q env \<longleftrightarrow> we_injector env = chaos_injector n \<and> we_max_attempts env = m \<and>
     (case dict_get (we_examples env) (qu_example q) of
        None \<Rightarrow> False
      | Some ex \<Rightarrow> (case run_example (we_exec env) ex (qu_run_id q) of Inl _ \<Rightarrow> False | Inr _ \<Rightarrow> True))"

lemma chaotic_settled [simp]: "chaotic n m (settled env q) = chaotic n m q"
  unfolding chaotic_def settled_example settled_id ..

lemma fold_settled_keys [simp]:
  "qu_example (fold settled es q) = qu_example q" "qu_run_id (fold settled es q) = qu_run_id q"
  by (induction es arbitrary: q) simp_all

lemma chaotic_fold [simp]: "chaotic n m (fold settled es q) = chaotic n m q"
  by (induction es arbitrary: q) simp_all

lemma chaotic_fails:
  assumes "chaotic n m q env" "0 \<le> qu_attempts q" "qu_attempts q < n" "qu_attempts q + 1 < m"
  shows "settled env q = q\<lparr>qu_status := ''pending'', qu_attempts := qu_attempts q + 1,
    qu_available_at := Some (we_now env + timedelta_seconds (backoff_delay env (qu_attempts q + 1))),
    qu_last_error := Some CHAOS_TEXT\<rparr>"
  using assms attempt_chaos [of env n q] by (simp add: chaotic_def settled_def Let_def)

lemma chaotic_prefix:
  assumes "qu_status q = ''pending''" "qu_attempts q = 0" "list_all (chaotic n m q) envs"
    and "int (length envs) \<le> n" "int (length envs) < m"
  shows "qu_status (fold settled envs q) = ''pending'' \<and> qu_attempts (fold settled envs q) = int (length envs)"
  using assms
proof (induction envs rule: rev_induct)
  case (snoc e es)
  then have IH: "qu_attempts (fold settled es q) = int (length es)" "chaotic n m (fold settled es q) e"
    by simp_all
  from chaotic_fails [OF this(2)] IH(1) snoc.prems(4,5) show ?case by simp
qed simp

lemma settled_chaos:
  assumes "qu_status q = ''pending''" "qu_attempts q = 0" "0 \<le> n" "1 \<le> m"
    and "list_all (chaotic n m q) envs" "int (length envs) = min (n + 1) m"
  shows "(\<forall>k < length envs. qu_status (fold settled (take k envs) q) = ''pending'' \<and>
      qu_attempts (fold settled (take k envs) q) = int k) \<and>
    (n < m \<longrightarrow> qu_status (fold settled envs q) = ''done'' \<and> qu_attempts (fold settled envs q) = n) \<and>
    (m \<le> n \<longrightarrow> qu_status (fold settled envs q) = ''dead'' \<and> qu_attempts (fold settled envs q) = m \<and>
      qu_last_error (fold settled envs q) = Some CHAOS_TEXT)"
proof -
  have pre: "qu_status (fold settled (take k envs) q) = ''pending'' \<and>
      qu_attempts (fold settled (take k envs) q) = int k" if "k < length envs" for k
  proof -
    have "list_all (chaotic n m q) (take k envs)" using assms(5) by (auto simp: list_all_iff dest: in_set_takeD)
    moreover have "int k \<le> n" "int k < m" using that assms(6) by linarith+
    ultimately show ?thesis using chaotic_prefix [OF assms(1,2), of n m "take k envs"] that by simp
  qed
  from assms(3,4,6) have "envs \<noteq> []" by auto
  then obtain es e where envs: "envs = es @ [e]" by (cases envs rule: rev_cases) auto
  let ?q = "fold settled es q"
  have q: "qu_status ?q = ''pending''" "qu_attempts ?q = int (length es)" "chaotic n m ?q e"
    using pre [of "length es"] assms(5) by (auto simp: envs)
  have "qu_status (settled e ?q) = ''done'' \<and> qu_attempts (settled e ?q) = n" if "n < m"
  proof -
    from that assms(6) have n: "int (length es) = n" by (simp add: envs)
    from q(3) obtain ex p where "dict_get (we_examples e) (qu_example ?q) = Some ex"
      "run_example (we_exec e) ex (qu_run_id ?q) = Inr p"
      by (auto simp: chaotic_def split: option.splits sum.splits)
    with attempt_no_chaos [of e n ?q] q n have "attempt_claim e ?q = Inr (ex, fst p)"
      by (simp add: chaotic_def)
    then show ?thesis using q n by (simp add: settled_def)
  qed
  moreover have "qu_status (settled e ?q) = ''dead'' \<and> qu_attempts (settled e ?q) = m \<and>
      qu_last_error (settled e ?q) = Some CHAOS_TEXT" if "m \<le> n"
  proof -
    from that assms(6) have m: "int (length es) + 1 = m" by (simp add: envs)
    have "attempt_claim e ?q = Inl (RuntimeErr CHAOS_TEXT)"
      using attempt_chaos [of e n ?q] q m that by (simp add: chaotic_def)
    with q m show ?thesis by (simp add: settled_def chaotic_def)
  qed
  ultimately show ?thesis using pre by (auto simp: envs)
qed

text \<open>After \<open>k\<close> failures the item waits for the last backoff, which doubles with every attempt.\<close>

lemma settled_waits:
  assumes "qu_status q = ''pending''" "qu_attempts q = 0" "0 \<le> n" "1 \<le> m"
    and "list_all (chaotic n m q) envs" "int (length envs) = min (n + 1) m" "Suc k < length envs"
  shows "qu_available_at (fold settled (take (Suc k) envs) q) =
    Some (we_now (envs ! k) + timedelta_seconds (we_backoff_s (envs ! k) * 2 ^ k))"
proof -
  let ?q = "fold settled (take k envs) q" and ?e = "envs ! k"
  have "qu_status ?q = ''pending'' \<and> qu_attempts ?q = int k" using settled_chaos [OF assms(1-6)] assms(7) by simp
  moreover have "chaotic n m ?q ?e" using assms(5,7) by (simp add: list_all_length)
  moreover have "int k < n" "int k + 1 < m" using assms(6,7) by linarith+
  ultimately have "qu_available_at (settled ?e ?q) = Some (we_now ?e + timedelta_seconds (backoff_delay ?e (int k + 1)))"
    using chaotic_fails [of n m ?q ?e] by simp
  moreover have "take (Suc k) envs = take k envs @ [?e]" using assms(7) by (simp add: take_Suc_conv_app_nth)
  ultimately show ?thesis by (simp add: backoff_delay_def)
qed

text \<open>Calls of the worker, one after the other.\<close>

definition worker_calls :: "'s store_ops \<Rightarrow> worker_env list \<Rightarrow> 's worker \<Rightarrow> 's worker" where
  "worker_calls ops envs w = fold (\<lambda>env w. snd (process_once ops env w)) envs w"

lemma lone_item_processed:
  assumes R: "run_store ops db_inv queue_item run_entry (\<lambda>i. i \<notin> locked)" and inv: "db_inv (wk_store w)"
    and p: "queue_item (wk_store w) i = Some p" "due (we_claim_at env) p" "i \<notin> locked"
    and alone: "\<forall>j r. queue_item (wk_store w) j = Some r \<and> j \<noteq> i \<longrightarrow> qu_status r \<noteq> ''pending''"
  shows "db_inv (wk_store (snd (process_once ops env w))) \<and>
    queue_item (wk_store (snd (process_once ops env w))) = (queue_item (wk_store w))(i \<mapsto> settled env p)"
proof -
  obtain r w' where call: "process_once ops env w = (r, w')" by fastforce
  have "r \<noteq> Inr None" using run_store.process_once_idle [OF R inv] call p by blast
  from run_store.process_once_claims [OF R inv call this] obtain q where
    q: "queue_item (wk_store w) (qu_id q) = Some q" "due (we_claim_at env) q"
    and w': "db_inv (wk_store w')" "queue_item (wk_store w') = (queue_item (wk_store w))(qu_id q \<mapsto> settled env q)"
    by blast
  have "qu_id q = i" using alone q by (auto simp: due_def)
  with q(1) p(1) w' call show ?thesis by simp
qed

text \<open>A schedule that lets every backoff elapse before the next claim.\<close>

definition waits_out :: "worker_env list \<Rightarrow> bool" where
  "waits_out envs \<longleftrightarrow> (\<forall>k < length envs - 1.
     we_now (envs ! k) + timedelta_seconds (we_backoff_s (envs ! k) * 2 ^ k) \<le> we_claim_at (envs ! Suc k))"

lemma chaos_calls:
  assumes R: "run_store ops db_inv queue_item run_entry (\<lambda>i. i \<notin> locked)" and inv: "db_inv (wk_store w)"
    and i: "queue_item (wk_store w) i = Some q" "i \<notin> locked"
    and alone: "\<forall>j r. queue_item (wk_store w) j = Some r \<and> j \<noteq> i \<longrightarrow> qu_status r \<noteq> ''pending''"
    and q: "qu_status q = ''pending''" "qu_attempts q = 0" "0 \<le> n" "1 \<le> m"
    and envs: "list_all (chaotic n m q) envs" "int (length envs) = min (n + 1) m"
    and times: "due (we_claim_at (hd envs)) q" "waits_out envs"
  shows "k \<le> length envs \<Longrightarrow> db_inv (wk_store (worker_calls ops (take k envs) w)) \<and>
    queue_item (wk_store (worker_calls ops (take k envs) w)) = (queue_item (wk_store w))(i \<mapsto> fold settled (take k envs) q)"
proof (induction k)
  case 0
  show ?case using inv i(1) by (simp add: worker_calls_def fun_upd_idem)
next
  case (Suc k)
  let ?w = "worker_calls ops (take k envs) w" and ?q = "fold settled (take k envs) q"
  from Suc have IH: "db_inv (wk_store ?w)" "queue_item (wk_store ?w) = (queue_item (wk_store w))(i \<mapsto> ?q)" using Suc_leD [OF Suc.prems] by blast+
  have pending: "qu_status ?q = ''pending''" using settled_chaos [OF q envs] Suc.prems by simp
  have due: "due (we_claim_at (envs ! k)) ?q"
  proof (cases k)
    case 0
    with times(1) Suc.prems show ?thesis by (cases envs) simp_all
  next
    case (Suc j)
    with \<open>Suc k \<le> length envs\<close> have j: "Suc j < length envs" by simp
    then have "we_now (envs ! j) + timedelta_seconds (we_backoff_s (envs ! j) * 2 ^ j) \<le> we_claim_at (envs ! k)"
      using times(2) by (simp add: waits_out_def Suc)
    with settled_waits [OF q envs j] pending show ?thesis by (simp add: due_def Suc)
  qed
  have step: "worker_calls ops (take (Suc k) envs) w = snd (process_once ops (envs ! k) ?w)"
    "fold settled (take (Suc k) envs) q = settled (envs ! k) ?q"
    using Suc.prems by (simp_all add: worker_calls_def take_Suc_conv_app_nth)
  have "queue_item (wk_store ?w) i = Some ?q" by (simp add: IH(2))
  from lone_item_processed [OF R IH(1) this due i(2)] alone show ?case
    unfolding step by (auto simp: IH(2) split: if_splits)
qed

text \<open>
  C13: the worker recovers from injected failures within its budget, and only then, on both backends. Let one
  item be pending and the first \<open>n\<close> attempts be made to fail while its example runs, and let the calls of
  the worker leave the backoff \<open>backoff_s * 2 ^ k\<close> between them. Then after \<open>k\<close> calls the item is pending
  with \<open>k\<close> attempts and available exactly at the end of that backoff; the call after the last failure leaves it
  done, provided \<open>n < max_attempts\<close>; otherwise call \<open>max_attempts\<close> leaves it dead with the
  injected error on its row.
\<close>

theorem chaos_recovery:
  assumes "ops = sqlite_ops \<and> locked = {} \<or> ops = pg_ops locked" "db_inv (wk_store w)"
    and "queue_item (wk_store w) i = Some q" "i \<notin> locked" "qu_status q = ''pending''" "qu_attempts q = 0"
    and "\<forall>j r. queue_item (wk_store w) j = Some r \<and> j \<noteq> i \<longrightarrow> qu_status r \<noteq> ''pending''"
    and "0 \<le> n" "1 \<le> m" "list_all (chaotic n m q) envs" "int (length envs) = min (n + 1) m"
    and "due (we_claim_at (hd envs)) q" "waits_out envs"
  shows "(\<forall>k < length envs. \<exists>row. queue_item (wk_store (worker_calls ops (take k envs) w)) i = Some row \<and>
      qu_status row = ''pending'' \<and> qu_attempts row = int k \<and>
      (0 < k \<longrightarrow> qu_available_at row =
        Some (we_now (envs ! (k - 1)) + timedelta_seconds (we_backoff_s (envs ! (k - 1)) * 2 ^ (k - 1))))) \<and>
    (\<exists>row. queue_item (wk_store (worker_calls ops envs w)) i = Some row \<and>
      (n < m \<longrightarrow> qu_status row = ''done'' \<and> qu_attempts row = n) \<and>
      (m \<le> n \<longrightarrow> qu_status row = ''dead'' \<and> qu_attempts row = m \<and> qu_last_error row = Some CHAOS_TEXT))"
proof -
  note q = assms(5,6,8,9) and envs = assms(10,11)
  note calls = chaos_calls [OF backend_visible [OF assms(1)] assms(2-4) assms(7) q envs assms(12,13)]
  have last: "queue_item (wk_store (worker_calls ops envs w)) i = Some (fold settled envs q)"
    using calls [OF le_refl] by simp
  have waits: "qu_available_at (fold settled (take k envs) q) =
      Some (we_now (envs ! (k - 1)) + timedelta_seconds (we_backoff_s (envs ! (k - 1)) * 2 ^ (k - 1)))"
    if "0 < k" "k < length envs" for k
    using settled_waits [OF q envs, of "k - 1"] that by simp
  have "queue_item (wk_store (worker_calls ops (take k envs) w)) i = Some (fold settled (take k envs) q)"
    if "k < length envs" for k
    using calls [OF less_imp_le [OF that]] by simp
  with last settled_chaos [OF q envs] waits show ?thesis by simp
qed

lemma demo_chaotic: "chaotic n 3 demo_item (demo_worker_env n t)"
proof -
  from demo_run [of n t] obtain run tr where
    "run_example (we_exec (demo_worker_env n t)) demo_example ''run-1'' = Inr (run, tr)" by blast
  moreover have "dict_get (we_examples (demo_worker_env n t)) (qu_example demo_item) = Some demo_example"
    by (simp add: demo_worker_env_def demo_item_def dict_get_def)
  moreover have "qu_run_id demo_item = ''run-1''" by (simp add: demo_item_def)
  ultimately have "case dict_get (we_examples (demo_worker_env n t)) (qu_example demo_item) of
      None \<Rightarrow> False
    | Some ex \<Rightarrow> (case run_example (we_exec (demo_worker_env n t)) ex (qu_run_id demo_item) of
        Inl _ \<Rightarrow> False | Inr _ \<Rightarrow> True)" by simp
  then show ?thesis by (simp add: chaotic_def) (simp add: demo_worker_env_def DEFAULT_MAX_ATTEMPTS_def)
qed

theorem chaos_recovery_witness:
  "\<exists>row. queue_item (wk_store (worker_calls sqlite_ops
       [demo_worker_env 2 1, demo_worker_env 2 9000000, demo_worker_env 2 90000000] demo_worker)) 1 = Some row \<and>
     qu_status row = ''done''"
proof -
  let ?envs = "[demo_worker_env 2 1, demo_worker_env 2 9000000, demo_worker_env 2 90000000]"
  have item: "queue_item (wk_store demo_worker) j = (if j = 1 then Some demo_item else None)" for j
    by (simp add: queue_item_def demo_worker_def demo_db_facts) (simp add: demo_item_def)
  have time: "waits_out ?envs"
    by (auto simp: waits_out_def less_Suc_eq numeral_2_eq_2 demo_worker_env_def DEFAULT_BACKOFF_S_def timedelta_seconds_def
        round_half_even_def)
  have "due (we_claim_at (hd ?envs)) demo_item" "qu_status demo_item = ''pending''" "qu_attempts demo_item = 0"
    by (simp_all add: due_def demo_item_def)
  then have "\<exists>row. queue_item (wk_store (worker_calls sqlite_ops ?envs demo_worker)) 1 = Some row \<and>
      ((2::int) < 3 \<longrightarrow> qu_status row = ''done'' \<and> qu_attempts row = 2) \<and>
      (3 \<le> (2::int) \<longrightarrow> qu_status row = ''dead'' \<and> qu_attempts row = 3 \<and> qu_last_error row = Some CHAOS_TEXT)"
    by (intro chaos_recovery [of sqlite_ops "{}" demo_worker 1 demo_item 2 3 ?envs, THEN conjunct2])
      (use item demo_chaotic time demo_db_facts(1) in \<open>auto simp: demo_worker_def split: if_splits\<close>)
  then show ?thesis by auto
qed

section \<open>Runs through the store\<close>

text \<open>
  An executed run survives the store. On both backends, saving the run of any successful
  execution and reading it back by its id returns the same run, task, example and trace path: the
  identity invariants that are checked again on reading never reject what the executor produced.
\<close>

theorem executed_run_survives_store:
  assumes "execute_script env sc files = Inr (run, tr)" "db_inv s" "ops \<in> backend_ops b"
  shows "so_get_run ops (en_run_id env) (so_save_run ops now run t label path s) =
    Inr (Some \<lparr>st_run = run, st_task = t, st_example = label, st_trace_path = path\<rparr>)"
proof -
  from backend_store [OF assms(3)] obtain visible where
    "run_store ops db_inv queue_item run_entry visible" by blast
  from run_store.get_saved [OF this assms(2) executed_run_valid(1) [OF assms(1)]]
  show ?thesis by (simp add: executed_run_valid(2) [OF assms(1)])
qed

theorem executed_run_survives_store_witness:
  "\<exists>run tr. execute_script guarded three_steps [(''b'', ''x'')] = Inr (run, tr) \<and>
     so_get_run (pg_ops {4}) (en_run_id guarded) (so_save_run (pg_ops {4}) 7 run (sc_task three_steps) None None demo_db) =
     Inr (Some \<lparr>st_run = run, st_task = sc_task three_steps, st_example = None, st_trace_path = None\<rparr>)"
  using three_steps_run executed_run_survives_store [OF _ demo_db_facts(1), of _ _ _ _ _ "pg_ops {4}" "Postgres ''u''"]
  by fastforce

end
