(* ===== verification/Claim_Protocol.thy ===== *)
theory Claim_Protocol
  imports Run_Store
begin

text \<open>
  Concurrent workers on Postgres: the claim of \<open>packages/runtime/aro_runtime/pg_store.py\<close> is a
  transaction that selects and locks a row (\<open>FOR UPDATE SKIP LOCKED\<close>) and then updates and
  commits. Here the two halves of the claims of any number of workers interleave with each other,
  with enqueues and with the updates that end a claim. \<open>cl_lock\<close> holds the row a worker's open
  transaction has locked, \<open>cl_owner\<close> (a ghost) which worker holds an item.
\<close>

section \<open>Interleavings\<close>

record claims =
  cl_db :: db
  cl_lock :: "nat \<rightharpoonup> nat"
  cl_owner :: "nat \<rightharpoonup> nat"

definition start_claims :: "db \<Rightarrow> claims" where
  "start_claims s = \<lparr>cl_db = s, cl_lock = Map.empty, cl_owner = Map.empty\<rparr>"

inductive claim_step :: "claims \<Rightarrow> claims \<Rightarrow> bool" where
  select: "cl_lock c w = None \<Longrightarrow> pg_select (ran (cl_lock c)) now (cl_db c) = Some q \<Longrightarrow>
    claim_step c (c\<lparr>cl_lock := (cl_lock c)(w \<mapsto> qu_id q)\<rparr>)"
| commit: "cl_lock c w = Some i \<Longrightarrow>
    claim_step c (c\<lparr>cl_db := mark i ''running'' (cl_db c), cl_lock := (cl_lock c)(w := None),
      cl_owner := (cl_owner c)(i \<mapsto> w)\<rparr>)"
| rollback: "cl_lock c w = Some i \<Longrightarrow> claim_step c (c\<lparr>cl_lock := (cl_lock c)(w := None)\<rparr>)"
| finish: "cl_owner c i = Some w \<Longrightarrow>
    claim_step c (c\<lparr>cl_db := mark i ''done'' (cl_db c), cl_owner := (cl_owner c)(i := None)\<rparr>)"
| requeue: "cl_owner c i = Some w \<Longrightarrow>
    claim_step c (c\<lparr>cl_db := retry i n when err (cl_db c), cl_owner := (cl_owner c)(i := None)\<rparr>)"
| bury: "cl_owner c i = Some w \<Longrightarrow>
    claim_step c (c\<lparr>cl_db := mark_dead i n err (cl_db c), cl_owner := (cl_owner c)(i := None)\<rparr>)"
| arrive: "enqueue now rid ex (cl_db c) = (i, s') \<Longrightarrow> claim_step c (c\<lparr>cl_db := s'\<rparr>)"

inductive_cases claim_stepE: "claim_step c c'"

section \<open>Invariant\<close>

definition item_status :: "db \<Rightarrow> nat \<Rightarrow> string option" where
  "item_status s i = map_option qu_status (queue_item s i)"

text \<open>Locks are exclusive, locked rows are pending, owned rows are running.\<close>

definition claims_inv :: "claims \<Rightarrow> bool" where
  "claims_inv c \<longleftrightarrow> db_inv (cl_db c) \<and>
     (\<forall>w v i. cl_lock c w = Some i \<longrightarrow> cl_lock c v = Some i \<longrightarrow> w = v) \<and>
     (\<forall>w i. cl_lock c w = Some i \<longrightarrow> item_status (cl_db c) i = Some ''pending'') \<and>
     (\<forall>i w. cl_owner c i = Some w \<longrightarrow> item_status (cl_db c) i = Some ''running'')"

lemma claims_invI:
  assumes "db_inv (cl_db c)" "\<And>w v i. cl_lock c w = Some i \<Longrightarrow> cl_lock c v = Some i \<Longrightarrow> w = v"
    and "\<And>w i. cl_lock c w = Some i \<Longrightarrow> item_status (cl_db c) i = Some ''pending''"
    and "\<And>i w. cl_owner c i = Some w \<Longrightarrow> item_status (cl_db c) i = Some ''running''"
  shows "claims_inv c"
  unfolding claims_inv_def using assms by blast

lemma claims_invD:
  assumes "claims_inv c"
  shows "db_inv (cl_db c)" "cl_lock c w = Some i \<Longrightarrow> cl_lock c v = Some i \<Longrightarrow> w = v"
    "cl_lock c w = Some i \<Longrightarrow> item_status (cl_db c) i = Some ''pending''"
    "cl_owner c i = Some w \<Longrightarrow> item_status (cl_db c) i = Some ''running''"
  using assms unfolding claims_inv_def by blast+

lemma item_status_update:
  assumes "db_inv s"
  shows "item_status (mark j st s) i = (if i = j then map_option (\<lambda>_. st) (item_status s i) else item_status s i)"
    "item_status (retry j n when err s) i = (if i = j then map_option (\<lambda>_. ''pending'') (item_status s i) else item_status s i)"
    "item_status (mark_dead j n err s) i = (if i = j then map_option (\<lambda>_. ''dead'') (item_status s i) else item_status s i)"
  using queue_update_laws [OF assms] by (simp_all add: item_status_def option.map_comp comp_def)

lemma pg_select_Some:
  assumes "db_inv s" "pg_select locked now s = Some q"
  shows "qu_id q \<notin> locked" "item_status s (qu_id q) = Some ''pending''"
proof -
  have "pg_claim_next locked now s = (Some q, mark (qu_id q) ''running'' s)"
    using assms(2) by (simp add: pg_claim_next_def)
  from claim_locked_some [OF assms(1) this]
  show "qu_id q \<notin> locked" "item_status s (qu_id q) = Some ''pending''"
    by (auto simp: item_status_def due_def)
qed

lemma end_claim_inv:
  assumes "claims_inv c" "cl_owner c i = Some w" "db_inv s'"
    and "\<And>j. j \<noteq> i \<Longrightarrow> item_status s' j = item_status (cl_db c) j"
  shows "claims_inv (c\<lparr>cl_db := s', cl_owner := (cl_owner c)(i := None)\<rparr>)"
proof (rule claims_invI, goal_cases)
  note o = claims_invD [OF assms(1)]
  have free: "cl_lock c v \<noteq> Some i" for v using o(3) [of v i] o(4) [OF assms(2)] by auto
  {
    case (2 u v j)
    then show ?case using o(2) [of u j v] by simp
  next
    case (3 v j)
    then show ?case using o(3) [of v j] free [of v] assms(4) [of j] by auto
  next
    case (4 j v)
    then show ?case using o(4) [of j v] assms(4) [of j] by (auto split: if_splits)
  }
qed (simp add: assms(3))

lemma claim_step_inv:
  assumes "claim_step c c'" "claims_inv c"
  shows "claims_inv c'"
proof -
  have db: "db_inv (cl_db c)" using assms(2) by (simp add: claims_inv_def)
  note upd = item_status_update [OF db] queue_update_laws [OF db, THEN conjunct1]
  from assms(1) show ?thesis
  proof (cases rule: claim_step.cases)
    case (select w now q)
    note p = pg_select_Some [OF db select(3)]
    have "cl_lock c v \<noteq> Some (qu_id q)" for v using p(1) by (auto simp: ran_def)
    with p(2) assms(2) show ?thesis by (auto simp: select(1) claims_inv_def)
  next
    case (commit w i)
    note o = claims_invD [OF assms(2)]
    have only: "v = w" if "cl_lock c v = Some i" for v using o(2) [OF that commit(2)] .
    show ?thesis
      unfolding commit(1)
    proof (rule claims_invI, goal_cases)
      case (2 u v j)
      then show ?case using o(2) by (auto split: if_splits)
    next
      case (3 v j)
      then have "cl_lock c v = Some j" "j \<noteq> i" using only by (auto split: if_splits)
      then show ?case using o(3) [of v j] by (simp add: upd)
    next
      case (4 j v)
      then show ?case using o(3) [OF commit(2)] o(4) [of j v] by (auto simp: upd split: if_splits)
    qed (simp add: upd)
  next
    case (rollback w i)
    with assms(2) show ?thesis by (auto simp: claims_inv_def)
  next
    case (finish i w)
    then show ?thesis using end_claim_inv [OF assms(2) finish(2)] upd by simp
  next
    case (requeue i w n t err)
    then show ?thesis using end_claim_inv [OF assms(2) requeue(2)] upd by simp
  next
    case (bury i w n err)
    then show ?thesis using end_claim_inv [OF assms(2) bury(2)] upd by simp
  next
    case (arrive now rid ex i s')
    note e = enqueue_law [OF db arrive(2)]
    then have "item_status s' j = (if j = i then Some ''pending'' else item_status (cl_db c) j)"
      "item_status (cl_db c) i = None" for j
      by (auto simp: item_status_def)
    with e assms(2) show ?thesis by (auto simp: arrive(1) claims_inv_def)
  qed
qed

lemma reachable_inv:
  assumes "claim_step\<^sup>*\<^sup>* (start_claims s) c" "db_inv s"
  shows "claims_inv c"
  using assms(1)
proof (induction rule: rtranclp_induct)
  case base
  then show ?case using assms(2) by (simp add: claims_inv_def start_claims_def)
next
  case (step y z)
  then show ?case using claim_step_inv by blast
qed

section \<open>Properties\<close>

text \<open>
  C3: Postgres workers never double-claim. In every reachable interleaving of claim transactions,
  two workers never hold the lock of the same item, and an item some worker is about to commit as
  its own is pending and held by nobody; so at every moment an item has at most one holder.
\<close>

theorem skip_locked_no_double_claim:
  assumes "claim_step\<^sup>*\<^sup>* (start_claims s) c" "db_inv s" "cl_lock c w = Some i"
  shows "(cl_lock c v = Some i \<longrightarrow> v = w) \<and> cl_owner c i = None \<and>
    (\<exists>q\<in>set (db_queue (cl_db c)). qu_id q = i \<and> qu_status q = ''pending'')"
proof -
  note inv = reachable_inv [OF assms(1,2)]
  note o = claims_invD [OF inv]
  from o(3) [OF assms(3)] have pend: "item_status (cl_db c) i = Some ''pending''" .
  then obtain q where q: "queue_item (cl_db c) i = Some q" "qu_status q = ''pending''"
    by (auto simp: item_status_def)
  from q(1) have "q \<in> set (db_queue (cl_db c))" "qu_id q = i" by (simp_all add: queue_item_iff [OF o(1)])
  moreover have "cl_owner c i = None"
  proof (rule ccontr)
    assume "cl_owner c i \<noteq> None"
    then obtain u where "cl_owner c i = Some u" by blast
    from o(4) [OF this] pend show False by simp
  qed
  moreover have "cl_lock c v = Some i \<longrightarrow> v = w" using o(2) [of v i w] assms(3) by simp
  ultimately show ?thesis by (intro conjI bexI [of _ q] q(2)) simp_all
qed

definition two_items :: db where
  "two_items = snd (enqueue 2 ''r2'' ''e'' (snd (enqueue 1 ''r1'' ''e'' empty_db)))"

theorem skip_locked_no_double_claim_witness:
  "\<exists>c. claim_step\<^sup>*\<^sup>* (start_claims two_items) c \<and> cl_lock c 10 = Some 1 \<and> cl_lock c 11 = Some 2 \<and>
     cl_owner c 1 = None"
proof -
  let ?c1 = "(start_claims two_items)\<lparr>cl_lock := [10 \<mapsto> 1]\<rparr>"
  let ?c2 = "(start_claims two_items)\<lparr>cl_lock := [10 \<mapsto> 1, 11 \<mapsto> 2]\<rparr>"
  have inv: "db_inv two_items"
    by (simp add: two_items_def enqueue_def empty_db_def db_inv_def)
  have q: "qu_id (db_queue two_items ! 0) = 1" "qu_id (db_queue two_items ! 1) = 2"
    "pg_select {} 3 two_items = Some (db_queue two_items ! 0)"
    "pg_select {1} 3 two_items = Some (db_queue two_items ! 1)"
    by (simp_all add: two_items_def enqueue_def empty_db_def pg_select_def due_def first_by_id_def)
  have 1: "claim_step (start_claims two_items) ?c1"
    using select [of "start_claims two_items" 10 3 "db_queue two_items ! 0"] by (simp add: start_claims_def q [simplified])
  have 2: "claim_step ?c1 ?c2"
    using select [of ?c1 11 3 "db_queue two_items ! 1"] by (simp add: start_claims_def q [simplified])
  note reach = rtranclp.rtrancl_into_rtrancl [OF r_into_rtranclp [of claim_step, OF 1] 2]
  have lock: "cl_lock ?c2 10 = Some 1" "cl_lock ?c2 11 = Some 2" by simp_all
  from skip_locked_no_double_claim [OF reach inv lock(1)] have "cl_owner ?c2 1 = None" by blast
  with reach lock show ?thesis by blast
qed

end
