(* ===== verification/Api_Service.thy ===== *)
theory Api_Service
  imports Queue_Worker Review_Debt Replay
begin

text \<open>
  The HTTP service, \<open>apps/api/aro_api/main.py\<close>: the rate limiter and the route handlers,
  written against the store interface. A handler returns a response or an \<open>api_error\<close>: an
  \<open>HTTPException\<close> with its status, or the exception that escapes (a 500). \<open>uid\<close> stands for
  the fresh hexadecimal suffix, \<open>traces\<close> for the trace files on disk. FastAPI's parsing and
  JSON encoding of requests and responses are not modelled.
\<close>

datatype api_error = HttpError nat string | Crashed pyexn

definition ok_or_crash :: "pyexn + 'a \<Rightarrow> api_error + 'a" where
  "ok_or_crash r = map_sum Crashed id r"

section \<open>Rate limiter\<close>

record rate_limiter =
  rl_per_minute :: int
  rl_window_start :: rat
  rl_count :: int

definition new_limiter :: "int \<Rightarrow> rate_limiter" where
  "new_limiter n = \<lparr>rl_per_minute = n, rl_window_start = 0, rl_count = 0\<rparr>"

definition allow :: "rat \<Rightarrow> rate_limiter \<Rightarrow> bool \<times> rate_limiter" where
  "allow now l =
     (if rl_per_minute l \<le> 0 then (True, l)
      else let l' = (if 60 \<le> now - rl_window_start l then l\<lparr>rl_window_start := now, rl_count := 0\<rparr> else l);
               l'' = l'\<lparr>rl_count := rl_count l' + 1\<rparr>
           in (rl_count l'' \<le> rl_per_minute l'', l''))"

section \<open>Runs\<close>

record run_request =
  cq_example :: string
  cq_mode :: string

record run_response =
  re_run_id :: string
  re_queued :: bool
  re_run :: "agent_run option"

definition new_run_id :: "string \<Rightarrow> string" where
  "new_run_id uid = ''run-'' @ uid"

definition create_run :: "'s store_ops \<Rightarrow> exec_env \<Rightarrow> example pydict \<Rightarrow> string \<Rightarrow> int \<Rightarrow> string \<Rightarrow>
    run_request \<Rightarrow> 's \<Rightarrow> (api_error + run_response) \<times> 's" where
  "create_run ops env examples data_dir now uid req s =
     (case dict_get examples (cq_example req) of
        None \<Rightarrow> (Inl (HttpError 404 (''unknown example: '' @ cq_example req)), s)
      | Some ex \<Rightarrow>
          let rid = new_run_id uid; t = sc_task (ex_script ex) in
          if cq_mode req = ''queued''
          then let s1 = so_save_run ops now (placeholder_run rid t) t (Some (ex_name ex)) None s;
                   (_, s2) = so_enqueue ops now rid (ex_name ex) s1
               in (Inr \<lparr>re_run_id = rid, re_queued = True, re_run = None\<rparr>, s2)
          else (case run_example env ex rid of
                  Inl e \<Rightarrow> (Inl (Crashed e), s)
                | Inr (run, _) \<Rightarrow>
                    (Inr \<lparr>re_run_id = rid, re_queued = False, re_run = Some run\<rparr>,
                     so_save_run ops now run t (Some (ex_name ex)) (Some (trace_path_of data_dir rid)) s)))"

text \<open>The middleware in front of it.\<close>

definition post_run :: "'s store_ops \<Rightarrow> exec_env \<Rightarrow> example pydict \<Rightarrow> string \<Rightarrow> int \<Rightarrow> string \<Rightarrow> rat \<Rightarrow>
    run_request \<Rightarrow> rate_limiter \<times> 's \<Rightarrow> (api_error + run_response) \<times> rate_limiter \<times> 's" where
  "post_run ops env examples data_dir now uid monotonic req st =
     (let (ok, l) = allow monotonic (fst st) in
      if \<not> ok then (Inl (HttpError 429 ''rate limit exceeded for run creation''), l, snd st)
      else let (res, s) = create_run ops env examples data_dir now uid req (snd st) in (res, l, s))"

definition require_run :: "'s store_ops \<Rightarrow> string \<Rightarrow> 's \<Rightarrow> api_error + stored_run" where
  "require_run ops rid s =
     (case so_get_run ops rid s of
        Inl e \<Rightarrow> Inl (Crashed e)
      | Inr None \<Rightarrow> Inl (HttpError 404 (''unknown run: '' @ rid))
      | Inr (Some rec) \<Rightarrow> Inr rec)"

record run_view =
  vw_run :: agent_run
  vw_task :: task
  vw_example :: "string option"
  vw_trace_path :: "string option"
  vw_attestations :: "attestation list"
  vw_review_debt :: "review_debt_item list"

definition get_run_view :: "'s store_ops \<Rightarrow> (string \<Rightarrow> string) \<Rightarrow> string \<Rightarrow> 's \<Rightarrow> api_error + run_view" where
  "get_run_view ops h rid s =
     (case require_run ops rid s of
        Inl e \<Rightarrow> Inl e
      | Inr rec \<Rightarrow>
          (case so_list_attestations ops rid s of
             Inl e \<Rightarrow> Inl (Crashed e)
           | Inr as \<Rightarrow> Inr \<lparr>vw_run = st_run rec, vw_task = st_task rec, vw_example = st_example rec,
               vw_trace_path = st_trace_path rec, vw_attestations = as,
               vw_review_debt = compute_review_debt h (st_run rec) as\<rparr>))"

definition get_review_debt :: "'s store_ops \<Rightarrow> (string \<Rightarrow> string) \<Rightarrow> string \<Rightarrow> string option \<Rightarrow> 's \<Rightarrow>
    api_error + review_debt_item list" where
  "get_review_debt ops h rid status s =
     (case require_run ops rid s of
        Inl e \<Rightarrow> Inl e
      | Inr rec \<Rightarrow>
          (case so_list_attestations ops rid s of
             Inl e \<Rightarrow> Inl (Crashed e)
           | Inr as \<Rightarrow>
               let items = compute_review_debt h (st_run rec) as in
               Inr (case status of
                      None \<Rightarrow> items
                    | Some x \<Rightarrow> if x = [] then items else filter (\<lambda>i. rd_status i = x) items)))"

section \<open>Attestations\<close>

record attestation_request =
  cr_decision :: att_decision
  cr_declared_scope :: string
  cr_attested_by :: string
  cr_excluded_scope :: string
  cr_labels :: "string list"
  cr_proposed_by :: "string option"
  cr_seat_id :: "string option"
  cr_note :: string
  cr_clears_decisions :: "string list"

text \<open>The guards of \<open>create_attestation\<close>, in order, and the deduplicated ids it clears.\<close>

definition attestation_guards :: "agent_run \<Rightarrow> attestation_request \<Rightarrow> api_error + string list" where
  "attestation_guards run req =
     (let ids = map rs_id (run_reviewer_seats run);
          named = dedup (cr_clears_decisions req);
          reviewable = map pd_id (filter (\<lambda>d. pd_decision d = NeedsReview) (run_policy_decisions run));
          unknown = filter (\<lambda>d. d \<notin> set reviewable) named
      in if cr_seat_id req \<noteq> None \<and> the (cr_seat_id req) \<notin> set ids
         then Inl (HttpError 422 (''seat_id '' @ py_repr (the (cr_seat_id req)) @
           '' is not a reviewer seat of run '' @ run_id run))
         else if named \<noteq> [] \<and> cr_seat_id req = None
         then Inl (HttpError 422 ''clearing a specific review-debt item requires an accountable seat_id'')
         else if named \<noteq> [] \<and> cr_decision req = Reject
         then Inl (HttpError 422 ''a reject attestation cannot clear review debt items'')
         else if named \<noteq> [] \<and> unknown \<noteq> []
         then Inl (HttpError 422 (''not needs_review decisions of run '' @ run_id run @ '': '' @ join '', '' unknown))
         else Inr named)"

text \<open>The record that is validated, then stored. Pydantic prefixes a validator's message.\<close>

definition build_attestation :: "(string \<Rightarrow> string) \<Rightarrow> int \<Rightarrow> string \<Rightarrow> agent_run \<Rightarrow> attestation_request \<Rightarrow>
    string list \<Rightarrow> api_error + attestation" where
  "build_attestation h now uid run req named =
     (case run_subject_digest h run SUBJECT_SCHEMA_VERSION of
        Inl e \<Rightarrow> Inl (Crashed e)
      | Inr digest \<Rightarrow>
          (case mk_attestation \<lparr>at_id = ''att-'' @ uid, at_run_id = run_id run, at_seat_id = cr_seat_id req,
              at_decision = cr_decision req, at_declared_scope = cr_declared_scope req,
              at_excluded_scope = cr_excluded_scope req, at_labels = cr_labels req,
              at_proposed_by = cr_proposed_by req, at_attested_by = cr_attested_by req, at_note = cr_note req,
              at_subject_digest = digest, at_attested_at = now, at_clears_decisions = named\<rparr> of
             Inl e \<Rightarrow> Inl (HttpError 422 (''invalid attestation: Value error, '' @ exn_text e))
           | Inr a \<Rightarrow> Inr a))"

definition create_attestation :: "'s store_ops \<Rightarrow> (string \<Rightarrow> string) \<Rightarrow> int \<Rightarrow> string \<Rightarrow> string \<Rightarrow>
    attestation_request \<Rightarrow> 's \<Rightarrow> (api_error + attestation) \<times> 's" where
  "create_attestation ops h now uid rid req s =
     (case require_run ops rid s of
        Inl e \<Rightarrow> (Inl e, s)
      | Inr rec \<Rightarrow>
          (case attestation_guards (st_run rec) req of
             Inl e \<Rightarrow> (Inl e, s)
           | Inr named \<Rightarrow>
               (case build_attestation h now uid (st_run rec) req named of
                  Inl e \<Rightarrow> (Inl e, s)
                | Inr a \<Rightarrow> (Inr a, so_save_attestation ops now a s))))"

section \<open>Traces\<close>

definition traced_run :: "'s store_ops \<Rightarrow> string \<Rightarrow> 's \<Rightarrow> api_error + (stored_run \<times> string)" where
  "traced_run ops rid s =
     (case so_get_run ops rid s of
        Inl e \<Rightarrow> Inl (Crashed e)
      | Inr None \<Rightarrow> Inl (HttpError 404 (''no trace for run: '' @ rid))
      | Inr (Some rec) \<Rightarrow>
          (case st_trace_path rec of
             None \<Rightarrow> Inl (HttpError 404 (''no trace for run: '' @ rid))
           | Some p \<Rightarrow> if p = [] then Inl (HttpError 404 (''no trace for run: '' @ rid)) else Inr (rec, p)))"

definition get_trace :: "'s store_ops \<Rightarrow> (string \<Rightarrow> trace_event list option) \<Rightarrow> string \<Rightarrow> 's \<Rightarrow>
    api_error + trace_event list" where
  "get_trace ops traces rid s =
     (case traced_run ops rid s of
        Inl e \<Rightarrow> Inl e
      | Inr (_, p) \<Rightarrow>
          (case traces p of
             None \<Rightarrow> Inl (HttpError 410 (''trace file missing: '' @ p))
           | Some evs \<Rightarrow> Inr evs))"

definition replay_run :: "'s store_ops \<Rightarrow> exec_env \<Rightarrow> example pydict \<Rightarrow> (string \<Rightarrow> trace_event list option) \<Rightarrow> int \<Rightarrow>
    string \<Rightarrow> 's \<Rightarrow> api_error + (bool \<times> replay_report)" where
  "replay_run ops env examples traces now rid s =
     (case traced_run ops rid s of
        Inl e \<Rightarrow> Inl e
      | Inr (rec, p) \<Rightarrow>
          (case Option.bind (st_example rec) (dict_get examples) of
             None \<Rightarrow> Inl (HttpError 410 (''example no longer available: '' @
               (case st_example rec of None \<Rightarrow> ''None'' | Some x \<Rightarrow> x)))
           | Some ex \<Rightarrow>
               (case traces p of
                  None \<Rightarrow> Inl (Crashed (RuntimeErr (''no such file: '' @ p)))
                | Some evs \<Rightarrow>
                    ok_or_crash (map_sum id (\<lambda>rep. (report_ok rep, rep))
                      (replay_trace env now evs (ex_workspace ex))))))"

section \<open>Lemmas\<close>

lemma guards_iff:
  "attestation_guards run req = Inr named \<longleftrightarrow>
     (\<forall>seat. cr_seat_id req = Some seat \<longrightarrow> seat \<in> set (map rs_id (run_reviewer_seats run))) \<and>
     named = dedup (cr_clears_decisions req) \<and>
     (named \<noteq> [] \<longrightarrow> cr_seat_id req \<noteq> None \<and> cr_decision req \<noteq> Reject \<and>
        set named \<subseteq> {pd_id d |d. d \<in> set (run_policy_decisions run) \<and> pd_decision d = NeedsReview})"
proof -
  let ?reviewable = "set (map pd_id (filter (\<lambda>d. pd_decision d = NeedsReview) (run_policy_decisions run)))"
  have "?reviewable = {pd_id d |d. d \<in> set (run_policy_decisions run) \<and> pd_decision d = NeedsReview}" by auto
  moreover have "filter (\<lambda>d. d \<notin> ?reviewable) cs = [] \<longleftrightarrow> set cs \<subseteq> ?reviewable" for cs
    by (auto simp: filter_empty_conv)
  ultimately show ?thesis
    unfolding attestation_guards_def Let_def by (cases "cr_seat_id req") (auto simp: filter_empty_conv)
qed

lemma build_attestation_Inr:
  assumes "build_attestation h now uid run req named = Inr a"
  shows "at_id a = ''att-'' @ uid \<and> at_run_id a = run_id run \<and> at_decision a = cr_decision req \<and>
    at_clears_decisions a = named \<and> at_subject_digest a = ''v2:sha256:'' @ h (subject_text run) \<and>
    mk_attestation a = Inr a \<and> at_seat_id a = cr_seat_id req"
  using assms
  by (auto simp: build_attestation_def SUBJECT_SCHEMA_VERSION_def run_subject_digest_2 mk_attestation_def
      split: if_splits)

text \<open>One attestation more clears exactly the open items it names.\<close>

definition cleared_item :: "attestation \<Rightarrow> review_debt_item \<Rightarrow> review_debt_item" where
  "cleared_item a i =
     (if rd_status i = ''open'' \<and> rd_decision_id i \<in> set (at_clears_decisions a)
      then i\<lparr>rd_status := ''cleared'', rd_cleared_by := Some (at_id a),
             rd_attested_by := Some (at_attested_by a), rd_stale_attestation := False\<rparr>
      else i)"

lemma debt_snoc:
  assumes "at_clears_decisions a \<noteq> [] \<Longrightarrow> at_decision a \<noteq> Reject \<and> subject_matches h run (at_subject_digest a)"
  shows "compute_review_debt h run (as @ [a]) = map (cleared_item a) (compute_review_debt h run as)"
proof -
  have "clears h run i a \<longleftrightarrow> i \<in> set (at_clears_decisions a)" "\<not> stale_for h run i a" for i
    using assms by (cases "at_clears_decisions a = []"; auto simp: clears_def stale_for_def)+
  moreover have "find (clears h run i) (as @ [a]) = (if \<exists>b\<in>set as. clears h run i b
      then find (clears h run i) as else if clears h run i a then Some a else None)" for i
    by (induction as) auto
  ultimately show ?thesis
    by (auto simp: compute_review_debt_spec cleared_item_def find_None_iff)
qed

context run_store
begin

lemma require_run_saved:
  "inv s \<Longrightarrow> run_valid run \<Longrightarrow> require_run ops (run_id run) (so_save_run ops now run t label path s) =
    Inr \<lparr>st_run = run, st_task = t, st_example = label, st_trace_path = path\<rparr>"
  by (simp add: require_run_def get_saved)

lemma require_run_id:
  assumes "inv s" "require_run ops rid s = Inr rec"
  shows "run_id (st_run rec) = rid"
proof -
  from assms(2) obtain row where "runs s rid = Some row" "load_row row = Inr rec"
    by (cases "runs s rid"; cases "load_row (the (runs s rid))")
      (auto simp: require_run_def get_run split: sum.splits option.splits)
  with runs_id [OF assms(1)] show ?thesis
    by (cases "identity_invariants (rw_run row)") (auto simp: load_row_def identity_invariants_iff)
qed

end

context review_store
begin

lemma require_run_attested:
  "inv s \<Longrightarrow> require_run ops rid (so_save_attestation ops now a s) = require_run ops rid s"
  by (simp add: require_run_def get_run attestation_frame)

lemma create_attestation_effect:
  assumes "inv s" "create_attestation ops h now uid rid req s = (Inr a, s')"
  shows "\<exists>rec named. require_run ops rid s = Inr rec \<and> attestation_guards (st_run rec) req = Inr named \<and>
    build_attestation h now uid (st_run rec) req named = Inr a \<and> s' = so_save_attestation ops now a s \<and>
    run_id (st_run rec) = rid"
proof -
  from assms(2) obtain rec named where "require_run ops rid s = Inr rec"
    "attestation_guards (st_run rec) req = Inr named"
    "build_attestation h now uid (st_run rec) req named = Inr a" "s' = so_save_attestation ops now a s"
    by (auto simp: create_attestation_def split: sum.splits)
  with require_run_id [OF assms(1)] show ?thesis by blast
qed

text \<open>The debt after an accepted attestation, item by item.\<close>

lemma accepted_attestation_debt:
  assumes "inv s" "create_attestation ops h now uid rid req s = (Inr a, s')"
    and "unused s (''att-'' @ uid)" "until s now"
    and "get_review_debt ops h rid None s = Inr debt"
  shows "get_review_debt ops h rid None s' = Inr (map (cleared_item a) debt) \<and>
    at_clears_decisions a = dedup (cr_clears_decisions req)"
proof -
  from create_attestation_effect [OF assms(1,2)] obtain rec named where
    rec: "require_run ops rid s = Inr rec" "run_id (st_run rec) = rid"
    and guards: "attestation_guards (st_run rec) req = Inr named"
    and build: "build_attestation h now uid (st_run rec) req named = Inr a"
    and s': "s' = so_save_attestation ops now a s" by blast
  note b = build_attestation_Inr [OF build]
  from guards have g: "named = dedup (cr_clears_decisions req)"
    "named \<noteq> [] \<longrightarrow> cr_decision req \<noteq> Reject" by (simp_all add: guards_iff)
  from assms(5) rec obtain as where as: "so_list_attestations ops rid s = Inr as"
    and debt: "debt = compute_review_debt h (st_run rec) as"
    by (auto simp: get_review_debt_def Let_def split: sum.splits)
  have "so_list_attestations ops rid s' = Inr (as @ [a])"
    using attestation_listed [of s a now as] assms(3,4) b as rec(2) by (simp add: s')
  moreover have "compute_review_debt h (st_run rec) (as @ [a]) = map (cleared_item a) debt"
    unfolding debt using b g by (intro debt_snoc) (simp add: subject_matches_iff)
  ultimately show ?thesis
    using rec b g by (simp add: get_review_debt_def s' require_run_attested assms(1))
qed

lemma other_runs_debt:
  assumes "inv s" "create_attestation ops h now uid rid req s = (Inr a, s')"
    and "unused s (''att-'' @ uid)" "other \<noteq> rid"
  shows "get_review_debt ops h other status s' = get_review_debt ops h other status s"
proof -
  from create_attestation_effect [OF assms(1,2)] obtain rec named where
    "require_run ops rid s = Inr rec" "attestation_guards (st_run rec) req = Inr named"
    "build_attestation h now uid (st_run rec) req named = Inr a" "run_id (st_run rec) = rid"
    and s': "s' = so_save_attestation ops now a s" by (elim exE conjE)
  with build_attestation_Inr have "at_run_id a = rid" "at_id a = ''att-'' @ uid" by metis+
  then have "so_list_attestations ops other s' = so_list_attestations ops other s"
    unfolding s' using attestation_elsewhere [of s a other now] assms(3,4) by simp
  then show ?thesis
    by (simp add: get_review_debt_def s' require_run_attested assms(1) cong: sum.case_cong)
qed

end

end
