(* ===== verification/Api_Properties.thy ===== *)
theory Api_Properties
  imports Api_Service Queue_Properties
begin

text \<open>
  What the HTTP service guarantees: the limiter's bound, the exact guards of an attestation, the
  effect of an accepted one on the review debt of every run, and that a queued run ends up in
  the store as the synchronous one does.
\<close>

section \<open>Rate limiter\<close>

fun allowed :: "rate_limiter \<Rightarrow> rat list \<Rightarrow> nat" where
  "allowed l [] = 0"
| "allowed l (t # ts) = (let (ok, l') = allow t l in (if ok then 1 else 0) + allowed l' ts)"

lemma allowed_in_window:
  assumes "0 < rl_per_minute l" "0 \<le> rl_count l" "\<forall>x\<in>set ts. x - rl_window_start l < 60"
  shows "allowed l ts \<le> nat (rl_per_minute l - rl_count l)"
  using assms
proof (induction ts arbitrary: l)
  case (Cons x ts)
  let ?l = "l\<lparr>rl_count := rl_count l + 1\<rparr>"
  have "allow x l = (rl_count l + 1 \<le> rl_per_minute l, ?l)"
    using Cons.prems by (simp add: allow_def Let_def)
  then have "allowed l (x # ts) = (if rl_count l + 1 \<le> rl_per_minute l then 1 else 0) + allowed ?l ts" by simp
  moreover have "allowed ?l ts \<le> nat (rl_per_minute l - (rl_count l + 1))"
    using Cons.IH [of ?l] Cons.prems by simp
  ultimately show ?case by (cases "rl_count l + 1 \<le> rl_per_minute l"; simp; linarith)
qed simp

lemma allowed_in_minute:
  assumes "0 < rl_per_minute l" "0 \<le> rl_count l" "sorted ts" "\<forall>x\<in>set ts. t \<le> x \<and> x < t + 60"
  shows "allowed l ts \<le> nat (rl_per_minute l - rl_count l) + nat (rl_per_minute l)"
  using assms
proof (induction ts arbitrary: l)
  case (Cons x ts)
  show ?case
  proof (cases "60 \<le> x - rl_window_start l")
    case True
    let ?l = "l\<lparr>rl_window_start := x, rl_count := 1\<rparr>"
    have "allow x l = (True, ?l)" using True Cons.prems by (simp add: allow_def Let_def)
    moreover have "\<forall>y\<in>set ts. y - x < 60"
    proof
      fix y assume "y \<in> set ts"
      with Cons.prems(4) have "y < t + 60" "t \<le> x" by auto
      then show "y - x < 60" by linarith
    qed
    then have "allowed ?l ts \<le> nat (rl_per_minute l - 1)"
      using allowed_in_window [of ?l ts] Cons.prems(1) by simp
    ultimately show ?thesis using Cons.prems(1) by simp
  next
    case False
    let ?l = "l\<lparr>rl_count := rl_count l + 1\<rparr>"
    have "allow x l = (rl_count l + 1 \<le> rl_per_minute l, ?l)"
      using False Cons.prems by (simp add: allow_def Let_def)
    then have "allowed l (x # ts) = (if rl_count l + 1 \<le> rl_per_minute l then 1 else 0) + allowed ?l ts" by simp
    moreover have "allowed ?l ts \<le> nat (rl_per_minute l - (rl_count l + 1)) + nat (rl_per_minute l)"
      using Cons.IH [of ?l] Cons.prems by simp
    ultimately show ?thesis by (cases "rl_count l + 1 \<le> rl_per_minute l"; simp; linarith)
  qed
qed simp

text \<open>
  C16: the fixed-window limiter never lets more than twice its rate through in a minute. From any
  state of a limiter with a positive rate, of the calls that fall into any half-open interval of 60
  seconds at most \<open>2 * per_minute\<close> are allowed; within its own window it allows at most
  \<open>per_minute\<close>.
\<close>

theorem rate_limit_bound:
  assumes "0 < rl_per_minute l" "0 \<le> rl_count l" "sorted ts" "\<forall>x\<in>set ts. t \<le> x \<and> x < t + 60"
  shows "allowed l ts \<le> 2 * nat (rl_per_minute l) \<and>
    ((\<forall>x\<in>set ts. x - rl_window_start l < 60) \<longrightarrow> allowed l ts \<le> nat (rl_per_minute l))"
  using allowed_in_minute [OF assms] allowed_in_window [OF assms(1,2), of ts] assms(2) by linarith

theorem rate_limit_bound_witness:
  "allowed ((new_limiter 1)\<lparr>rl_count := 1\<rparr>) [59, 60, 61] \<le> 2"
  using rate_limit_bound [of "(new_limiter 1)\<lparr>rl_count := 1\<rparr>" "[59, 60, 61]" 59]
  by (simp add: new_limiter_def)

section \<open>Attestations\<close>

lemma backend_review_store:
  "ops \<in> backend_ops b \<Longrightarrow>
     \<exists>visible. review_store ops db_inv queue_item run_entry visible unused_attestation_id attested_until"
  using sqlite_review_store pg_review_store by (cases b) auto

text \<open>What is built from a request.\<close>

lemma stamped_attestation:
  assumes "build_attestation h now uid run req named = Inr a"
  shows "run_subject_digest h run SUBJECT_SCHEMA_VERSION = Inr (at_subject_digest a)"
    "subject_matches h run (at_subject_digest a)"
    "at_id a = ''att-'' @ uid" "at_run_id a = run_id run" "at_seat_id a = cr_seat_id req" "at_decision a = cr_decision req"
    "at_attested_by a = cr_attested_by req" "at_declared_scope a = cr_declared_scope req" "at_attested_at a = now"
    "at_clears_decisions a = named"
proof -
  from assms obtain digest where d: "run_subject_digest h run SUBJECT_SCHEMA_VERSION = Inr digest"
    and a: "a = \<lparr>at_id = ''att-'' @ uid, at_run_id = run_id run, at_seat_id = cr_seat_id req,
        at_decision = cr_decision req, at_declared_scope = cr_declared_scope req,
        at_excluded_scope = cr_excluded_scope req, at_labels = cr_labels req,
        at_proposed_by = cr_proposed_by req, at_attested_by = cr_attested_by req, at_note = cr_note req,
        at_subject_digest = digest, at_attested_at = now, at_clears_decisions = named\<rparr>"
    by (auto simp: build_attestation_def mk_attestation_def split: sum.splits if_splits)
  from d show "run_subject_digest h run SUBJECT_SCHEMA_VERSION = Inr (at_subject_digest a)" by (simp add: a)
  from d show "subject_matches h run (at_subject_digest a)"
    by (simp add: a SUBJECT_SCHEMA_VERSION_def run_subject_digest_2 subject_matches_iff)
qed (use assms in \<open>auto simp: build_attestation_def mk_attestation_def split: sum.splits if_splits\<close>)

text \<open>An attestation that carries the request, under the current digest of the run.\<close>

definition stamped :: "(string \<Rightarrow> string) \<Rightarrow> int \<Rightarrow> string \<Rightarrow> attestation_request \<Rightarrow> agent_run \<Rightarrow> attestation \<Rightarrow> bool" where
  "stamped h now uid req run a \<longleftrightarrow>
     run_subject_digest h run SUBJECT_SCHEMA_VERSION = Inr (at_subject_digest a) \<and>
     subject_matches h run (at_subject_digest a) \<and>
     at_id a = ''att-'' @ uid \<and> at_run_id a = run_id run \<and> at_seat_id a = cr_seat_id req \<and>
     at_decision a = cr_decision req \<and> at_attested_by a = cr_attested_by req \<and>
     at_declared_scope a = cr_declared_scope req \<and> at_attested_at a = now \<and>
     set (at_clears_decisions a) = set (cr_clears_decisions req)"

text \<open>
  C7: an attestation is accepted exactly when the run exists, its seat (if any) is a seat of that
  run, its scope and human are not blank, and, if it names decisions, it has a seat, does not
  reject, and names only \<open>needs_review\<close> decisions of that run. What is stored is the request's
  decision, human, seat and scope for that run, clearing what the request names, under the digest of the
  run as it is stored now, which therefore matches it; a refused request leaves the store as it was.
\<close>

theorem attestation_accepted_iff:
  "(case create_attestation ops h now uid rid req s of
      (Inr a, s') \<Rightarrow> s' = so_save_attestation ops now a s \<and>
        (\<exists>rec. require_run ops rid s = Inr rec \<and> stamped h now uid req (st_run rec) a)
    | (Inl _, s') \<Rightarrow> s' = s) \<and>
   ((\<exists>a s'. create_attestation ops h now uid rid req s = (Inr a, s')) \<longleftrightarrow>
    (\<exists>rec. require_run ops rid s = Inr rec \<and>
      (\<forall>seat. cr_seat_id req = Some seat \<longrightarrow> seat \<in> set (map rs_id (run_reviewer_seats (st_run rec)))) \<and>
      (cr_clears_decisions req \<noteq> [] \<longrightarrow> cr_seat_id req \<noteq> None \<and> cr_decision req \<noteq> Reject \<and>
        (\<forall>i\<in>set (cr_clears_decisions req). \<exists>d\<in>set (run_policy_decisions (st_run rec)).
           pd_id d = i \<and> pd_decision d = NeedsReview)) \<and>
      \<not> blank (cr_attested_by req) \<and> \<not> blank (cr_declared_scope req)))"
proof -
  have dedup: "dedup xs = [] \<longleftrightarrow> xs = []" for xs :: "string list" by (metis set_dedup set_empty)
  have guards: "(\<exists>named. attestation_guards run req = Inr named) \<longleftrightarrow>
      (\<forall>seat. cr_seat_id req = Some seat \<longrightarrow> seat \<in> set (map rs_id (run_reviewer_seats run))) \<and>
      (cr_clears_decisions req \<noteq> [] \<longrightarrow> cr_seat_id req \<noteq> None \<and> cr_decision req \<noteq> Reject \<and>
        (\<forall>i\<in>set (cr_clears_decisions req). \<exists>d\<in>set (run_policy_decisions run).
           pd_id d = i \<and> pd_decision d = NeedsReview))" for run
    unfolding guards_iff using dedup by fastforce
  have build: "(\<exists>a. build_attestation h now uid run req named = Inr a) \<longleftrightarrow>
      \<not> blank (cr_attested_by req) \<and> \<not> blank (cr_declared_scope req)" for run named
    by (simp add: build_attestation_def SUBJECT_SCHEMA_VERSION_def run_subject_digest_2 mk_attestation_def)
  have iff: "(\<exists>a s'. create_attestation ops h now uid rid req s = (Inr a, s')) \<longleftrightarrow>
      (\<exists>rec. require_run ops rid s = Inr rec \<and> (\<exists>named. attestation_guards (st_run rec) req = Inr named) \<and>
        (\<exists>a. build_attestation h now uid (st_run rec) req (projr (attestation_guards (st_run rec) req)) = Inr a))"
    by (auto simp: create_attestation_def split: sum.splits)
  have created: "s' = so_save_attestation ops now a s \<and> (\<exists>rec. require_run ops rid s = Inr rec \<and> stamped h now uid req (st_run rec) a)"
    if "create_attestation ops h now uid rid req s = (Inr a, s')" for a s'
  proof -
    from that obtain rec named where rec: "require_run ops rid s = Inr rec"
      and named: "attestation_guards (st_run rec) req = Inr named"
      and a: "build_attestation h now uid (st_run rec) req named = Inr a" and s': "s' = so_save_attestation ops now a s"
      by (auto simp: create_attestation_def split: sum.splits)
    from named have "set named = set (cr_clears_decisions req)" by (simp add: guards_iff)
    with rec s' stamped_attestation [OF a] show ?thesis by (auto simp: stamped_def)
  qed
  have refused: "s' = s" if "create_attestation ops h now uid rid req s = (Inl e, s')" for e s'
    using that by (auto simp: create_attestation_def split: sum.splits)
  obtain x s' where x: "create_attestation ops h now uid rid req s = (x, s')" by fastforce
  have first: "case create_attestation ops h now uid rid req s of
      (Inr a, s') \<Rightarrow> s' = so_save_attestation ops now a s \<and>
        (\<exists>rec. require_run ops rid s = Inr rec \<and> stamped h now uid req (st_run rec) a)
    | (Inl _, s') \<Rightarrow> s' = s"
    using created refused x by (cases x) auto
  show ?thesis by (rule conjI [OF first]) (use iff in \<open>unfold guards build, simp only: conj_assoc\<close>)
qed

text \<open>
  C6: an accepted attestation clears exactly what it names. On both backends, after the request
  the review debt of its run is what it was, except that the open items it names are cleared by it
  and its human; the debt of every other run is unchanged. (Its id is new and the clock has not
  gone back behind a stored attestation.)
\<close>

theorem accepted_attestation_clears:
  assumes "ops \<in> backend_ops b" "db_inv s"
    and "create_attestation ops h now uid rid req s = (Inr a, s')"
    and "unused_attestation_id s (''att-'' @ uid)" "attested_until s now"
    and "get_review_debt ops h rid None s = Inr items"
  shows "get_review_debt ops h rid None s' = Inr (map (\<lambda>i.
      if rd_status i = ''open'' \<and> rd_decision_id i \<in> set (cr_clears_decisions req)
      then i\<lparr>rd_status := ''cleared'', rd_cleared_by := Some (at_id a),
             rd_attested_by := Some (at_attested_by a), rd_stale_attestation := False\<rparr>
      else i) items) \<and>
    (\<forall>other. other \<noteq> rid \<longrightarrow> get_review_debt ops h other None s' = get_review_debt ops h other None s)"
proof -
  from backend_review_store [OF assms(1)] obtain visible where
    R: "review_store ops db_inv queue_item run_entry visible unused_attestation_id attested_until" by blast
  have "cleared_item a = (\<lambda>i. if rd_status i = ''open'' \<and> rd_decision_id i \<in> set (cr_clears_decisions req)
      then i\<lparr>rd_status := ''cleared'', rd_cleared_by := Some (at_id a),
             rd_attested_by := Some (at_attested_by a), rd_stale_attestation := False\<rparr> else i)"
    using review_store.accepted_attestation_debt [OF R assms(2-6)] by (simp add: cleared_item_def fun_eq_iff)
  then show ?thesis
    using review_store.accepted_attestation_debt [OF R assms(2-6)]
      review_store.other_runs_debt [OF R assms(2-4)] by simp
qed

text \<open>A stored run with one decision to review, and a request that accepts it.\<close>

definition seated_run :: agent_run where
  "seated_run = demo_run\<lparr>run_reviewer_seats := [\<lparr>rs_id = ''s'', rs_name = ''n'', rs_role = ''r'', rs_scope = ''c''\<rparr>]\<rparr>"

definition demo_task :: task where
  "demo_task = \<lparr>ta_id = ''t'', ta_title = [], ta_goal_id = ''g'', ta_created_at = 0\<rparr>"

definition accept_request :: attestation_request where
  "accept_request = \<lparr>cr_decision = Accept, cr_declared_scope = ''d'', cr_attested_by = ''h'',
     cr_excluded_scope = [], cr_labels = [], cr_proposed_by = None, cr_seat_id = Some ''s'', cr_note = [],
     cr_clears_decisions = [''r-pd-0'', ''r-pd-0'']\<rparr>"

lemma seated_run_valid: "run_valid seated_run" "run_id seated_run = ''r''"
  by (simp_all add: seated_run_def demo_run_def run_valid_def)

definition reviewed_db :: db where
  "reviewed_db = save_run 1 seated_run demo_task None None empty_db"

lemma reviewed_db_facts:
  "db_inv reviewed_db" "require_run sqlite_ops ''r'' reviewed_db = Inr \<lparr>st_run = seated_run, st_task = demo_task,
     st_example = None, st_trace_path = None\<rparr>"
  "list_attestations ''r'' reviewed_db = Inr []"
proof -
  have inv: "db_inv empty_db" by (simp add: db_inv_def empty_db_def)
  show "db_inv reviewed_db" unfolding reviewed_db_def by (rule db_inv_save [OF inv])
  have "so_save_run sqlite_ops = save_run" by (simp add: sqlite_ops_def)
  then show "require_run sqlite_ops ''r'' reviewed_db = Inr \<lparr>st_run = seated_run, st_task = demo_task,
     st_example = None, st_trace_path = None\<rparr>"
    using run_store.require_run_saved [OF sqlite_run_store inv seated_run_valid(1), of 1 demo_task None None]
    by (simp add: seated_run_valid(2) reviewed_db_def)
  show "list_attestations ''r'' reviewed_db = Inr []"
    by (simp add: reviewed_db_def list_attestations_def save_run_def empty_db_def)
qed

lemma accept_request_accepted:
  "\<exists>a s'. create_attestation sqlite_ops (\<lambda>t. t) 5 ''1'' ''r'' accept_request reviewed_db = (Inr a, s')"
proof -
  have "attestation_guards seated_run accept_request = Inr [''r-pd-0'']" by code_simp
  moreover have "\<exists>a. build_attestation (\<lambda>t. t) 5 ''1'' seated_run accept_request [''r-pd-0''] = Inr a"
  proof -
    have "\<not> blank ''h'' \<and> \<not> blank ''d''" by code_simp
    then show ?thesis
      by (simp add: build_attestation_def SUBJECT_SCHEMA_VERSION_def run_subject_digest_2 mk_attestation_def
          accept_request_def)
  qed
  ultimately show ?thesis by (auto simp: create_attestation_def reviewed_db_facts(2))
qed

theorem attestation_accepted_iff_witness:
  "\<exists>a. create_attestation sqlite_ops (\<lambda>t. t) 5 ''1'' ''r'' accept_request reviewed_db =
     (Inr a, so_save_attestation sqlite_ops 5 a reviewed_db)"
proof -
  from accept_request_accepted obtain a s' where
    a: "create_attestation sqlite_ops (\<lambda>t. t) 5 ''1'' ''r'' accept_request reviewed_db = (Inr a, s')" by blast
  with attestation_accepted_iff [where ops = sqlite_ops and h = "\<lambda>t. t" and now = 5 and uid = "''1''"
      and rid = "''r''" and req = accept_request and s = reviewed_db]
  have "s' = so_save_attestation sqlite_ops 5 a reviewed_db" by simp
  with a show ?thesis by simp
qed

theorem accepted_attestation_clears_witness:
  "\<exists>a s' items. create_attestation sqlite_ops (\<lambda>t. t) 5 ''1'' ''r'' accept_request reviewed_db = (Inr a, s') \<and>
     get_review_debt sqlite_ops (\<lambda>t. t) ''r'' None s' = Inr items \<and> map rd_status items = [''cleared'']"
proof -
  from accept_request_accepted obtain a s' where
    a: "create_attestation sqlite_ops (\<lambda>t. t) 5 ''1'' ''r'' accept_request reviewed_db = (Inr a, s')" by blast
  have "so_list_attestations sqlite_ops = list_attestations" by (simp add: sqlite_ops_def)
  then have debt: "get_review_debt sqlite_ops (\<lambda>t. t) ''r'' None reviewed_db = Inr (compute_review_debt (\<lambda>t. t) seated_run [])"
    by (simp add: get_review_debt_def reviewed_db_facts)
  have "unused_attestation_id reviewed_db (''att-'' @ ''1'')" "attested_until reviewed_db 5"
    by (simp_all add: unused_attestation_id_def attested_until_def reviewed_db_def save_run_def empty_db_def)
  from accepted_attestation_clears [of sqlite_ops "Sqlite ''x''", OF _ reviewed_db_facts(1) a this debt]
  have "get_review_debt sqlite_ops (\<lambda>t. t) ''r'' None s' = Inr (map (\<lambda>i.
      if rd_status i = ''open'' \<and> rd_decision_id i \<in> set (cr_clears_decisions accept_request)
      then i\<lparr>rd_status := ''cleared'', rd_cleared_by := Some (at_id a),
             rd_attested_by := Some (at_attested_by a), rd_stale_attestation := False\<rparr>
      else i) (compute_review_debt (\<lambda>t. t) seated_run []))" by simp
  with a show ?thesis
    by (simp add: compute_review_debt_spec seated_run_def demo_run_def accept_request_def)
qed

section \<open>Queued and synchronous runs\<close>

context run_store
begin

lemma queued_item_processed:
  assumes inv: "inv s" and idle: "\<And>i q. items s i = Some q \<Longrightarrow> \<not> due (we_claim_at env) q"
    and queued: "so_enqueue ops t rid ex_id (so_save_run ops t run0 tsk label path s) = (i, s_queued)"
    and visible: "visible i" and inject: "we_injector env = None"
    and ex: "dict_get (we_examples env) ex_id = Some ex"
    and run: "run_example (we_exec env) ex rid = Inr (run, tr)"
    and worker: "process_once ops env \<lparr>wk_store = s_queued, wk_retries = n, wk_dead_letters = k\<rparr> = (r, w)"
  shows "r = Inr (Some rid) \<and> so_get_run ops rid (wk_store w) = Inr (Some \<lparr>st_run = run,
    st_task = sc_task (ex_script ex), st_example = Some (ex_name ex),
    st_trace_path = Some (trace_path_of (we_data_dir env) rid)\<rparr>)"
proof -
  let ?s1 = "so_save_run ops t run0 tsk label path s"
  let ?q = "\<lparr>qu_id = i, qu_run_id = rid, qu_example = ex_id, qu_status = ''pending'', qu_attempts = 0,
    qu_available_at = None, qu_last_error = None, qu_enqueued_at = t\<rparr>"
  have s1: "inv ?s1" "items ?s1 = items s" using save_run [OF inv] by auto
  note q = enqueue [OF s1(1) queued]
  have due: "due (we_claim_at env) ?q" by (simp add: due_def)
  obtain c s2 where c: "so_claim_next ops (we_claim_at env) s_queued = (c, s2)" by fastforce
  have "c \<noteq> None"
  proof
    assume "c = None"
    have "items s_queued i = Some ?q" "inv s_queued" using q by auto
    with claim_none [OF _ c [unfolded \<open>c = None\<close>]] visible due show False by blast
  qed
  then obtain p where p: "c = Some p" by blast
  have inv': "inv s_queued" using q by blast
  note cl = claim_some [OF inv' c [unfolded p]]
  have "p = ?q"
  proof (cases "qu_id p = i")
    case True
    with cl q show ?thesis by auto
  next
    case False
    with cl q s1(2) have "items s (qu_id p) = Some p" by auto
    with idle cl show ?thesis by blast
  qed
  moreover have "attempt_claim env ?q = Inr (ex, run)"
    by (simp add: attempt_claim_def inject ex run)
  ultimately have w: "r = Inr (Some rid)" "wk_store w = so_mark ops i ''done''
      (so_save_run ops (we_now env) run (sc_task (ex_script ex)) (Some (ex_name ex))
        (Some (trace_path_of (we_data_dir env) rid)) s2)"
    using worker c p by (auto simp: process_once_def process_claim_def)
  have inv2: "inv s2" using cl by blast
  note saved = save_run [OF inv2]
  note valid = run_example_valid [OF run]
  have "runs (wk_store w) rid = Some (mk_run_row (we_now env) run (sc_task (ex_script ex)) (Some (ex_name ex))
        (Some (trace_path_of (we_data_dir env) rid)))"
    unfolding w(2) using mark saved valid(2) by simp
  then show ?thesis
    using w(1) valid(1) by (simp add: get_run load_row_def mk_run_row_def)
qed

end

text \<open>
  C12: a queued run ends up as the synchronous one would. Post a run in queued mode to a store
  without due items and let a worker without injected failures take it: the worker returns the
  run's id, and the stored run, task, example and trace path are those that posting the same run
  synchronously would have stored. This holds on both backends (the new item not being locked).
\<close>

theorem queued_equals_sync:
  assumes "ops = sqlite_ops \<and> locked = {} \<or> ops = pg_ops locked" "db_inv s" "Suc (db_seq s) \<notin> locked"
    and "\<forall>q\<in>set (db_queue s). \<not> due (we_claim_at env) q"
    and "we_injector env = None" "dict_get (we_examples env) name = Some ex" "ex_name ex = name"
    and "create_run ops (we_exec env) (we_examples env) (we_data_dir env) t1 uid
      \<lparr>cq_example = name, cq_mode = ''sync''\<rparr> s = (Inr resp, s_sync)"
    and "create_run ops (we_exec env) (we_examples env) (we_data_dir env) t2 uid
      \<lparr>cq_example = name, cq_mode = ''queued''\<rparr> s = (res, s_queued)"
    and "process_once ops env \<lparr>wk_store = s_queued, wk_retries = n, wk_dead_letters = k\<rparr> = (r, w)"
  shows "r = Inr (Some (new_run_id uid)) \<and> (\<exists>stored. st_run stored = the (re_run resp) \<and>
    so_get_run ops (new_run_id uid) s_sync = Inr (Some stored) \<and>
    so_get_run ops (new_run_id uid) (wk_store w) = Inr (Some stored))"
proof -
  note R = backend_visible [OF assms(1)]
  let ?rid = "new_run_id uid" and ?t = "sc_task (ex_script ex)"
  let ?s1 = "so_save_run ops t2 (placeholder_run ?rid ?t) ?t (Some (ex_name ex)) None s"
  from assms(6,8) obtain run tr where run: "run_example (we_exec env) ex ?rid = Inr (run, tr)"
    and resp: "re_run resp = Some run"
    and sync: "s_sync = so_save_run ops t1 run ?t (Some (ex_name ex)) (Some (trace_path_of (we_data_dir env) ?rid)) s"
    by (auto simp: create_run_def Let_def split: sum.splits)
  note valid = run_example_valid [OF run]
  obtain i s2 where enq: "so_enqueue ops t2 ?rid name ?s1 = (i, s2)" by fastforce
  have s2: "s2 = s_queued" using assms(6,7,9) enq by (simp add: create_run_def Let_def)
  have "db_seq ?s1 = db_seq s"
    using assms(1) by (auto simp: sqlite_ops_def pg_ops_def save_run_def pg_save_run_def Let_def)
  then have i: "i = Suc (db_seq s)" using enq assms(1) by (auto simp: sqlite_ops_def pg_ops_def enqueue_def)
  have "r = Inr (Some ?rid) \<and> so_get_run ops ?rid (wk_store w) = Inr (Some \<lparr>st_run = run, st_task = ?t,
      st_example = Some (ex_name ex), st_trace_path = Some (trace_path_of (we_data_dir env) ?rid)\<rparr>)"
  proof (rule run_store.queued_item_processed [OF R assms(2) _ enq [unfolded s2] _ assms(5,6) run assms(10)])
    show "\<not> due (we_claim_at env) q" if "queue_item s j = Some q" for j q
      using assms(4) that by (simp add: queue_item_iff [OF assms(2)])
    show "i \<notin> locked" using assms(3) i by simp
  qed
  moreover have "so_get_run ops ?rid s_sync = Inr (Some \<lparr>st_run = run, st_task = ?t,
      st_example = Some (ex_name ex), st_trace_path = Some (trace_path_of (we_data_dir env) ?rid)\<rparr>)"
    using run_store.get_saved [OF R assms(2) valid(1)] valid(2) by (simp add: sync)
  ultimately show ?thesis by (intro conjI exI) (simp_all add: resp)
qed

theorem queued_equals_sync_witness:
  "\<exists>resp s_sync s_queued w stored.
     create_run sqlite_ops guarded [(''demo'', demo_example)] ''d'' 3 ''1'' \<lparr>cq_example = ''demo'', cq_mode = ''sync''\<rparr>
       empty_db = (Inr resp, s_sync) \<and>
     process_once sqlite_ops (demo_worker_env 0 9) \<lparr>wk_store = s_queued, wk_retries = 0, wk_dead_letters = 0\<rparr> =
       (Inr (Some ''run-1''), w) \<and>
     so_get_run sqlite_ops ''run-1'' s_sync = Inr (Some stored) \<and>
     so_get_run sqlite_ops ''run-1'' (wk_store w) = Inr (Some stored)"
proof -
  let ?env = "demo_worker_env 0 9"
  have env: "we_exec ?env = guarded" "we_examples ?env = [(''demo'', demo_example)]" "we_data_dir ?env = ''d''"
    "we_injector ?env = None"
    by (simp_all add: demo_worker_env_def chaos_injector_def)
  have ex: "dict_get (we_examples ?env) ''demo'' = Some demo_example" "ex_name demo_example = ''demo''"
    by (simp_all add: env dict_get_def demo_example_def)
  have rid: "new_run_id ''1'' = ''run-1''" by (simp add: new_run_id_def)
  from demo_run [of 0 9] obtain run tr where "run_example guarded demo_example ''run-1'' = Inr (run, tr)"
    by (auto simp: env)
  then obtain resp s_sync where sync: "create_run sqlite_ops (we_exec ?env) (we_examples ?env) (we_data_dir ?env) 3 ''1''
      \<lparr>cq_example = ''demo'', cq_mode = ''sync''\<rparr> empty_db = (Inr resp, s_sync)"
    by (simp add: create_run_def ex Let_def rid env(1))
  obtain res s_queued where queued: "create_run sqlite_ops (we_exec ?env) (we_examples ?env) (we_data_dir ?env) 4 ''1''
      \<lparr>cq_example = ''demo'', cq_mode = ''queued''\<rparr> empty_db = (res, s_queued)" by fastforce
  obtain r w where w: "process_once sqlite_ops ?env \<lparr>wk_store = s_queued, wk_retries = 0, wk_dead_letters = 0\<rparr> = (r, w)"
    by fastforce
  have "db_inv empty_db" "\<forall>q\<in>set (db_queue empty_db). \<not> due (we_claim_at ?env) q"
    by (simp_all add: db_inv_def empty_db_def)
  from queued_equals_sync [of sqlite_ops "{}", OF _ this(1) _ this(2) env(4) ex sync queued w] sync w
  show ?thesis by (auto simp: rid env)
qed

end
