(* ===== verification/Run_Metrics.thy ===== *)
theory Run_Metrics
  imports Api_Service
begin

text \<open>
  Hooks and metrics: \<open>packages/runtime/aro_runtime/hooks.py\<close> and
  \<open>packages/telemetry/aro_telemetry/metrics.py\<close>. A hook is a function on the telemetry
  state; counters are functions from labels to numbers, gauges partial ones (\<open>clear\<close> removes
  the labels). \<open>hook_calls\<close> is the sequence of calls the executor makes for a run.
\<close>

section \<open>Hooks\<close>

record 'm run_hooks =
  hk_run_start :: "agent_run \<Rightarrow> 'm \<Rightarrow> 'm"
  hk_step_end :: "agent_run \<Rightarrow> step_record \<Rightarrow> policy_decision option \<Rightarrow> 'm \<Rightarrow> 'm"
  hk_run_end :: "agent_run \<Rightarrow> 'm \<Rightarrow> 'm"

definition no_hooks :: "'m run_hooks" where
  "no_hooks = \<lparr>hk_run_start = (\<lambda>_ m. m), hk_step_end = (\<lambda>_ _ _ m. m), hk_run_end = (\<lambda>_ m. m)\<rparr>"

definition composite_hooks :: "'m run_hooks list \<Rightarrow> 'm run_hooks" where
  "composite_hooks hooks = \<lparr>
     hk_run_start = (\<lambda>run. fold (\<lambda>h. hk_run_start h run) hooks),
     hk_step_end = (\<lambda>run step d. fold (\<lambda>h. hk_step_end h run step d) hooks),
     hk_run_end = (\<lambda>run. fold (\<lambda>h. hk_run_end h run) hooks)\<rparr>"

text \<open>The decision a step was executed under, and the calls for a finished run.\<close>

definition step_decision_of :: "agent_run \<Rightarrow> step_record \<Rightarrow> policy_decision option" where
  "step_decision_of run s = find (\<lambda>d. sr_decision_id s = Some (pd_id d)) (run_policy_decisions run)"

definition hook_calls :: "'m run_hooks \<Rightarrow> agent_run \<Rightarrow> agent_run \<Rightarrow> 'm \<Rightarrow> 'm" where
  "hook_calls hooks started run =
     hk_run_end hooks run \<circ>
     fold (\<lambda>s. hk_step_end hooks run s (step_decision_of run s)) (run_steps run) \<circ>
     hk_run_start hooks started"

section \<open>Counters\<close>

record metrics =
  mt_runs :: "string \<Rightarrow> nat"
  mt_steps :: "string \<times> string \<Rightarrow> nat"
  mt_denials :: "string \<Rightarrow> nat"
  mt_review_debt :: "string \<Rightarrow> nat"
  mt_durations :: "int list"

definition inc :: "'k \<Rightarrow> ('k \<Rightarrow> nat) \<Rightarrow> 'k \<Rightarrow> nat" where
  "inc k f = f(k := f k + 1)"

definition metrics_step_end :: "agent_run \<Rightarrow> step_record \<Rightarrow> policy_decision option \<Rightarrow> metrics \<Rightarrow> metrics" where
  "metrics_step_end run step d m =
     (let label = (case d of None \<Rightarrow> decision_value Allow | Some x \<Rightarrow> decision_value (pd_decision x));
          m1 = m\<lparr>mt_steps := inc (sr_name step, label) (mt_steps m)\<rparr>;
          m2 = (case d of
              Some x \<Rightarrow> if pd_decision x = Deny
                then m1\<lparr>mt_denials := inc (pd_rule_id x) (mt_denials m1)\<rparr> else m1
            | None \<Rightarrow> m1)
      in case d of
           Some x \<Rightarrow> if pd_decision x = NeedsReview
             then m2\<lparr>mt_review_debt := inc (pd_rule_id x) (mt_review_debt m2)\<rparr> else m2
         | None \<Rightarrow> m2)"

definition metrics_run_end :: "agent_run \<Rightarrow> metrics \<Rightarrow> metrics" where
  "metrics_run_end run m =
     (let m1 = m\<lparr>mt_runs := inc (run_status_value (run_status run)) (mt_runs m)\<rparr> in
      case (run_started_at run, run_finished_at run) of
        (Some s, Some f) \<Rightarrow> m1\<lparr>mt_durations := mt_durations m1 @ [f - s]\<rparr>
      | _ \<Rightarrow> m1)"

definition metrics_hooks :: "metrics run_hooks" where
  "metrics_hooks = \<lparr>hk_run_start = (\<lambda>_ m. m), hk_step_end = metrics_step_end, hk_run_end = metrics_run_end\<rparr>"

section \<open>Review-debt gauges\<close>

record gauges =
  ga_open :: "string \<rightharpoonup> nat"
  ga_cleared :: "string \<rightharpoonup> nat"
  ga_stale :: "string \<rightharpoonup> nat"
  ga_oldest_open :: "int option"

text \<open>\<open>c[k] += 1\<close> on a \<open>defaultdict(int)\<close>\<close>

definition count_up :: "string \<Rightarrow> (string \<rightharpoonup> nat) \<Rightarrow> string \<rightharpoonup> nat" where
  "count_up k c = c(k \<mapsto> (case c k of None \<Rightarrow> 1 | Some n \<Rightarrow> n + 1))"

definition gauge_item :: "review_debt_item \<times> int option \<Rightarrow> gauges \<Rightarrow> gauges" where
  "gauge_item p g =
     (let (i, finished) = p in
      if rd_status i = ''cleared'' then g\<lparr>ga_cleared := count_up (rd_rule_id i) (ga_cleared g)\<rparr>
      else
        let g1 = g\<lparr>ga_open := count_up (rd_rule_id i) (ga_open g)\<rparr>;
            g2 = (if rd_stale_attestation i then g1\<lparr>ga_stale := count_up (rd_rule_id i) (ga_stale g1)\<rparr> else g1)
        in case finished of
             None \<Rightarrow> g2
           | Some t \<Rightarrow>
               (case ga_oldest_open g2 of
                  None \<Rightarrow> g2\<lparr>ga_oldest_open := Some t\<rparr>
                | Some o' \<Rightarrow> if t < o' then g2\<lparr>ga_oldest_open := Some t\<rparr> else g2))"

definition refresh_gauges :: "(review_debt_item \<times> int option) list \<Rightarrow> gauges" where
  "refresh_gauges items = fold gauge_item items
     \<lparr>ga_open = Map.empty, ga_cleared = Map.empty, ga_stale = Map.empty, ga_oldest_open = None\<rparr>"

definition oldest_open_age :: "int \<Rightarrow> gauges \<Rightarrow> int" where
  "oldest_open_age now g = (case ga_oldest_open g of None \<Rightarrow> 0 | Some t \<Rightarrow> now - t)"

text \<open>The \<open>/metrics\<close> route: every item of every stored run, with its run's finish time.\<close>

definition debt_of_run :: "(string \<Rightarrow> string) \<Rightarrow> db \<Rightarrow> agent_run \<Rightarrow> pyexn + (review_debt_item \<times> int option) list" where
  "debt_of_run h s run =
     (case list_attestations (run_id run) s of
        Inl e \<Rightarrow> Inl e
      | Inr as \<Rightarrow> Inr (map (\<lambda>i. (i, run_finished_at run)) (compute_review_debt h run as)))"

definition debt_of_store :: "(string \<Rightarrow> string) \<Rightarrow> db \<Rightarrow> pyexn + (review_debt_item \<times> int option) list" where
  "debt_of_store h s =
     (case all_runs s of
        Inl e \<Rightarrow> Inl e
      | Inr runs \<Rightarrow>
          (case sequence (map (debt_of_run h s) runs) of
             Inl e \<Rightarrow> Inl e
           | Inr xs \<Rightarrow> Inr (concat xs)))"

definition scrape :: "(string \<Rightarrow> string) \<Rightarrow> db \<Rightarrow> pyexn + gauges" where
  "scrape h s = map_sum id refresh_gauges (debt_of_store h s)"

section \<open>Lemmas\<close>

definition counts :: "(string \<rightharpoonup> nat) \<Rightarrow> string \<Rightarrow> nat" where
  "counts c k = (case c k of None \<Rightarrow> 0 | Some n \<Rightarrow> n)"

lemma counts_up [simp]: "counts (count_up k c) j = counts c j + (if j = k then 1 else 0)"
  by (simp add: counts_def count_up_def split: option.splits)

lemma inc_apply [simp]: "inc k f j = f j + (if j = k then 1 else 0)"
  by (simp add: inc_def)

definition earliest :: "int option \<Rightarrow> int \<Rightarrow> int option" where
  "earliest o' t = (case o' of None \<Rightarrow> Some t | Some u \<Rightarrow> if t < u then Some t else Some u)"

lemma gauge_item_counts:
  "counts (ga_cleared (gauge_item (i, f) g)) r = counts (ga_cleared g) r +
     (if rd_status i = ''cleared'' \<and> rd_rule_id i = r then 1 else 0)"
  "counts (ga_open (gauge_item (i, f) g)) r = counts (ga_open g) r +
     (if rd_status i \<noteq> ''cleared'' \<and> rd_rule_id i = r then 1 else 0)"
  "counts (ga_stale (gauge_item (i, f) g)) r = counts (ga_stale g) r +
     (if rd_status i \<noteq> ''cleared'' \<and> rd_stale_attestation i \<and> rd_rule_id i = r then 1 else 0)"
  "ga_oldest_open (gauge_item (i, f) g) = (if rd_status i = ''cleared'' then ga_oldest_open g
     else case f of None \<Rightarrow> ga_oldest_open g | Some t \<Rightarrow> earliest (ga_oldest_open g) t)"
  by (cases "rd_status i = ''cleared''"; cases "rd_stale_attestation i"; cases f; cases "ga_oldest_open g";
      simp add: gauge_item_def Let_def earliest_def)+

lemma gauge_fold:
  "counts (ga_cleared (fold gauge_item items g)) r = counts (ga_cleared g) r +
     length (filter (\<lambda>(i, _). rd_status i = ''cleared'' \<and> rd_rule_id i = r) items)"
  "counts (ga_open (fold gauge_item items g)) r = counts (ga_open g) r +
     length (filter (\<lambda>(i, _). rd_status i \<noteq> ''cleared'' \<and> rd_rule_id i = r) items)"
  "counts (ga_stale (fold gauge_item items g)) r = counts (ga_stale g) r +
     length (filter (\<lambda>(i, _). rd_status i \<noteq> ''cleared'' \<and> rd_stale_attestation i \<and> rd_rule_id i = r) items)"
  by (induction items arbitrary: g) (auto simp: gauge_item_counts split: if_splits)

definition open_finish_times :: "(review_debt_item \<times> int option) list \<Rightarrow> int list" where
  "open_finish_times items =
     concat (map (\<lambda>(i, f). if rd_status i = ''cleared'' then [] else (case f of None \<Rightarrow> [] | Some t \<Rightarrow> [t])) items)"

lemma gauge_oldest:
  "ga_oldest_open (fold gauge_item items g) = fold (\<lambda>t o'. earliest o' t) (open_finish_times items) (ga_oldest_open g)"
  by (induction items arbitrary: g)
    (auto simp: gauge_item_counts open_finish_times_def split: option.splits)

lemma fold_earliest:
  "fold (\<lambda>t o'. earliest o' t) ts (Some u) = Some (fold min ts u)"
  by (induction ts arbitrary: u) (auto simp: earliest_def min_def)

lemma fold_earliest_None:
  "fold (\<lambda>t o'. earliest o' t) ts None = (if ts = [] then None else Some (Min (set ts)))"
proof (cases ts)
  case (Cons t ts')
  have "earliest None t = Some t" by (simp add: earliest_def)
  then show ?thesis
    using Cons by (simp add: fold_earliest Min.set_eq_fold [symmetric])
qed simp

lemma metrics_steps_fold:
  "mt_denials (fold (\<lambda>s. metrics_step_end run s (f s)) ss m) r = mt_denials m r +
     length (filter (\<lambda>d. pd_decision d = Deny \<and> pd_rule_id d = r) (List.map_filter f ss))"
  "mt_review_debt (fold (\<lambda>s. metrics_step_end run s (f s)) ss m) r = mt_review_debt m r +
     length (filter (\<lambda>d. pd_decision d = NeedsReview \<and> pd_rule_id d = r) (List.map_filter f ss))"
  "mt_runs (fold (\<lambda>s. metrics_step_end run s (f s)) ss m) = mt_runs m"
  by (induction ss arbitrary: m) (auto simp: metrics_step_end_def Let_def List.map_filter_simps split: option.splits)

lemma find_by_id:
  assumes "distinct (map pd_id ds)" "d \<in> set ds"
  shows "find (\<lambda>x. pd_id d = pd_id x) ds = Some d"
  using assms by (induction ds) (auto simp: rev_image_eqI)

lemma effect_step_decision:
  assumes "distinct (map pd_id ds)" "set (concat (map se_decisions es)) \<subseteq> set ds"
    and "\<And>e. e \<in> set es \<Longrightarrow> length (se_decisions e) \<le> 1 \<and>
      sr_decision_id (se_step e) = (case se_decisions e of [] \<Rightarrow> None | d # _ \<Rightarrow> Some (pd_id d))"
  shows "List.map_filter (\<lambda>s. find (\<lambda>d. sr_decision_id s = Some (pd_id d)) ds) (map se_step es) =
    concat (map se_decisions es)"
  using assms(2,3)
proof (induction es)
  case (Cons e es)
  then have IH: "List.map_filter (\<lambda>s. find (\<lambda>d. sr_decision_id s = Some (pd_id d)) ds) (map se_step es) =
    concat (map se_decisions es)" by simp
  have e: "length (se_decisions e) \<le> 1"
    "sr_decision_id (se_step e) = (case se_decisions e of [] \<Rightarrow> None | d # _ \<Rightarrow> Some (pd_id d))"
    using Cons.prems(2) by auto
  show ?case
  proof (cases "se_decisions e")
    case Nil
    have "find (\<lambda>d. False) ds = None" by (simp add: find_None_iff)
    with Nil show ?thesis using IH e by (simp add: List.map_filter_simps)
  next
    case (Cons d rest)
    with e(1) Cons.prems(1) have "rest = []" "d \<in> set ds" by auto
    with find_by_id [OF assms(1) this(2)] Cons IH e show ?thesis by (simp add: List.map_filter_simps)
  qed
qed (simp add: List.map_filter_simps)

lemma executed_step_decisions:
  assumes "execute_script env sc files = Inr (run, tr)"
  shows "List.map_filter (step_decision_of run) (run_steps run) = run_policy_decisions run"
proof -
  from execute_script_built [OF assms] obtain es where
    ok: "effects_ok env 0 (sc_steps sc) files es" and run: "run = built_run env sc es" by blast
  have "length (se_decisions e) \<le> 1 \<and> sr_decision_id (se_step e) =
      (case se_decisions e of [] \<Rightarrow> None | d # _ \<Rightarrow> Some (pd_id d))" if "e \<in> set es" for e
    using effects_ok_nth [OF ok that] by (auto simp: effect_ok_def)
  from effect_step_decision [OF effects_ok_distinct_ids [OF ok] order_refl this]
  show ?thesis
    by (simp add: run built_run_def extend_run_def start_run_def step_decision_of_def [abs_def])
qed

lemma debt_rule_count:
  "length (filter (\<lambda>i. rd_rule_id i = r) (compute_review_debt h run as)) =
     length (filter (\<lambda>d. pd_decision d = NeedsReview \<and> pd_rule_id d = r) (run_policy_decisions run))"
  by (simp add: compute_review_debt_spec filter_map comp_def)

definition review_decisions :: "db \<Rightarrow> string \<Rightarrow> nat" where
  "review_decisions s r = sum_list (map (\<lambda>row. length (filter (\<lambda>d. pd_decision d = NeedsReview \<and> pd_rule_id d = r)
     (run_policy_decisions (rw_run row)))) (db_runs s))"

lemma debt_of_store_count:
  assumes "debt_of_store h s = Inr items"
  shows "length (filter (\<lambda>p. rd_rule_id (fst p) = r) items) = review_decisions s r"
proof -
  let ?f = "debt_of_run h s"
  from assms obtain runs xs where runs: "all_runs s = Inr runs" and xs: "sequence (map ?f runs) = Inr xs"
    and items: "items = concat xs"
    by (auto simp: debt_of_store_def split: sum.splits)
  have "map (\<lambda>row. identity_invariants (rw_run row)) (db_runs s) = map Inr runs"
    using runs by (simp add: all_runs_def sequence_Inr_iff_map)
  then have rows: "map rw_run (db_runs s) = runs"
  proof (induction "db_runs s" arbitrary: runs s)
    case (Cons row rows)
    then show ?case
    proof -
      have "map (\<lambda>row. identity_invariants (rw_run row)) (row # rows) = map Inr runs \<Longrightarrow> map rw_run (row # rows) = runs"
        for rows runs row
        by (induction rows arbitrary: runs row) (auto simp: identity_invariants_iff map_eq_Cons_conv Cons_eq_map_conv)
      with Cons show ?thesis by metis
    qed
  qed simp
  have "length (filter (\<lambda>p. rd_rule_id (fst p) = r) (concat xs)) =
      sum_list (map (\<lambda>run. length (filter (\<lambda>d. pd_decision d = NeedsReview \<and> pd_rule_id d = r) (run_policy_decisions run))) runs)"
    if "map ?f runs = map Inr xs" for runs xs
    using that
  proof (induction runs arbitrary: xs)
    case (Cons run runs)
    then obtain x xs' where xs: "xs = x # xs'" and x: "?f run = Inr x" and rest: "map ?f runs = map Inr xs'"
      by (cases xs) auto
    from x obtain as where "x = map (\<lambda>i. (i, run_finished_at run)) (compute_review_debt h run as)"
      by (auto simp: debt_of_run_def split: sum.splits)
    then have "length (filter (\<lambda>p. rd_rule_id (fst p) = r) x) =
        length (filter (\<lambda>i. rd_rule_id i = r) (compute_review_debt h run as))"
      by (simp add: filter_map comp_def)
    with Cons.IH [OF rest] show ?case by (simp add: xs debt_rule_count)
  qed simp
  from this [of runs xs] xs show ?thesis
    by (simp add: items sequence_Inr_iff_map review_decisions_def rows [symmetric] comp_def)
qed

section \<open>Properties\<close>

text \<open>
  the counters agree with the record. Driving the metrics hook, alone or in a composite with
  no-op hooks, with the calls of an execution adds to each rule's denial counter the run's deny
  decisions of that rule, to its review-debt counter the debt items the run owes, and one run
  under its final status.
\<close>

theorem metrics_match_record:
  assumes "execute_script env sc files = Inr (run, tr)"
    and "m' = hook_calls (composite_hooks [no_hooks, metrics_hooks]) started run m"
  shows "mt_denials m' r = mt_denials m r +
      length (filter (\<lambda>d. pd_decision d = Deny \<and> pd_rule_id d = r) (run_policy_decisions run)) \<and>
    mt_review_debt m' r = mt_review_debt m r +
      length (filter (\<lambda>i. rd_rule_id i = r) (compute_review_debt h run [])) \<and>
    mt_runs m' v = mt_runs m v + (if run_status_value (run_status run) = v then 1 else 0)"
proof -
  have "m' = metrics_run_end run (fold (\<lambda>s. metrics_step_end run s (step_decision_of run s)) (run_steps run) m)"
    by (simp add: assms(2) hook_calls_def composite_hooks_def no_hooks_def metrics_hooks_def comp_def)
  then show ?thesis
    using metrics_steps_fold [of run "step_decision_of run" "run_steps run" m]
    by (auto simp: executed_step_decisions [OF assms(1)] debt_rule_count metrics_run_end_def Let_def
        split: option.splits)
qed

theorem metrics_match_record_witness:
  "\<exists>run tr m'. execute_script guarded three_steps [(''b'', ''x'')] = Inr (run, tr) \<and>
     m' = hook_calls (composite_hooks [no_hooks, metrics_hooks]) run run
       \<lparr>mt_runs = (\<lambda>_. 0), mt_steps = (\<lambda>_. 0), mt_denials = (\<lambda>_. 0), mt_review_debt = (\<lambda>_. 0), mt_durations = []\<rparr> \<and>
     mt_denials m' ''no-shell'' =
       length (filter (\<lambda>d. pd_decision d = Deny \<and> pd_rule_id d = ''no-shell'') (run_policy_decisions run))"
proof -
  from three_steps_run obtain run tr where
    r: "execute_script guarded three_steps [(''b'', ''x'')] = Inr (run, tr)" by blast
  from metrics_match_record [OF r refl] r show ?thesis by (intro exI conjI) (rule r, rule refl, simp)
qed

text \<open>
  the gauges are the store's review debt. After a scrape, for every rule the open and the
  cleared gauge add up to the \<open>needs_review\<close> decisions of that rule over all stored runs, the
  stale gauge never exceeds the open one, and the oldest open item is the earliest finish time of
  the runs with an open item.
\<close>

theorem gauges_are_the_debt:
  assumes "scrape h s = Inr g"
  shows "counts (ga_open g) r + counts (ga_cleared g) r = review_decisions s r \<and>
    counts (ga_stale g) r \<le> counts (ga_open g) r \<and>
    (\<exists>items. debt_of_store h s = Inr items \<and>
      ga_oldest_open g = (if open_finish_times items = [] then None else Some (Min (set (open_finish_times items)))))"
proof -
  from assms obtain items where items: "debt_of_store h s = Inr items" and g: "g = refresh_gauges items"
    by (cases "debt_of_store h s") (auto simp: scrape_def)
  have zero: "counts Map.empty r = 0" by (simp add: counts_def)
  have part: "length (filter (\<lambda>(i, _). rd_status i \<noteq> ''cleared'' \<and> rd_rule_id i = r) items) +
      length (filter (\<lambda>(i, _). rd_status i = ''cleared'' \<and> rd_rule_id i = r) items) =
      length (filter (\<lambda>p. rd_rule_id (fst p) = r) items)"
    by (induction items) auto
  have le: "length (filter (\<lambda>(i, _). rd_status i \<noteq> ''cleared'' \<and> rd_stale_attestation i \<and> rd_rule_id i = r) items) \<le>
      length (filter (\<lambda>(i, _). rd_status i \<noteq> ''cleared'' \<and> rd_rule_id i = r) items)"
    by (induction items) auto
  show ?thesis
    using part le debt_of_store_count [OF items, of r] items
    by (simp add: g refresh_gauges_def gauge_fold gauge_oldest fold_earliest_None zero)
qed

theorem gauges_are_the_debt_witness:
  "\<exists>g. scrape (\<lambda>t. t) (save_run 1 demo_run \<lparr>ta_id = ''t'', ta_title = [], ta_goal_id = ''g'', ta_created_at = 0\<rparr>
       None None empty_db) = Inr g \<and> counts (ga_open g) ''q'' + counts (ga_cleared g) ''q'' = 1"
proof -
  let ?s = "save_run 1 demo_run \<lparr>ta_id = ''t'', ta_title = [], ta_goal_id = ''g'', ta_created_at = 0\<rparr> None None empty_db"
  have "all_runs ?s = Inr [demo_run]" "list_attestations (run_id demo_run) ?s = Inr []"
    by (simp_all add: all_runs_def save_run_def empty_db_def list_attestations_def demo_run_def run_valid_def)
  then have "\<exists>g. scrape (\<lambda>t. t) ?s = Inr g" by (simp add: scrape_def debt_of_store_def debt_of_run_def)
  then obtain g where g: "scrape (\<lambda>t. t) ?s = Inr g" by blast
  have "review_decisions ?s ''q'' = 1"
    by (simp add: review_decisions_def save_run_def empty_db_def demo_run_def)
  with gauges_are_the_debt [OF g, of "''q''"] g show ?thesis by auto
qed

end
