(* ===== verification/Otel_Spans.thy ===== *)
theory Otel_Spans
  imports Run_Metrics
begin

text \<open>
  The tracing hook, \<open>packages/telemetry/aro_telemetry/otel.py\<close>: one span per run and one child
  span per step. The tracer is the list of spans started so far; a span records its parent, its
  attributes and whether it has ended. Exporters and providers are third-party.
\<close>

record span =
  sp_name :: string
  sp_parent :: "nat option"
  sp_start :: "int option"
  sp_end :: "int option option"
  sp_attributes :: "(string \<times> string) list"

text \<open>Spans by number, and \<open>_run_spans\<close>.\<close>

record tracing =
  tg_spans :: "span list"
  tg_runs :: "string \<rightharpoonup> nat"

definition start_span :: "span \<Rightarrow> tracing \<Rightarrow> nat \<times> tracing" where
  "start_span s t = (length (tg_spans t), t\<lparr>tg_spans := tg_spans t @ [s]\<rparr>)"

definition tracing_run_start :: "agent_run \<Rightarrow> tracing \<Rightarrow> tracing" where
  "tracing_run_start run t =
     (let (i, t1) = start_span \<lparr>sp_name = ''agent_run'', sp_parent = None,
            sp_start = map_option (\<lambda>s. s * 1000) (run_started_at run), sp_end = None,
            sp_attributes = [(''aro.run_id'', run_id run), (''aro.task_id'', run_task_id run), (''aro.agent'', run_agent run)]\<rparr> t
      in t1\<lparr>tg_runs := (tg_runs t1)(run_id run \<mapsto> i)\<rparr>)"

definition text_or_empty :: "string option \<Rightarrow> string" where
  "text_or_empty x = (case x of None \<Rightarrow> [] | Some s \<Rightarrow> s)"

definition tracing_step_end :: "agent_run \<Rightarrow> step_record \<Rightarrow> policy_decision option \<Rightarrow> tracing \<Rightarrow> tracing" where
  "tracing_step_end run step d t =
     (let start = sr_started_at step * 1000 in
      snd (start_span \<lparr>sp_name = ''step:'' @ sr_name step, sp_parent = tg_runs t (run_id run),
        sp_start = Some start, sp_end = Some (Some (start + \<lfloor>sr_duration_ms step * 1000000\<rfloor>)),
        sp_attributes = [(''aro.run_id'', run_id run), (''aro.step_index'', show_int (sr_index step)),
          (''aro.tool'', sr_name step), (''aro.input_digest'', sr_input_digest step),
          (''aro.output_digest'', text_or_empty (sr_output_digest step)),
          (''aro.decision'', case d of None \<Rightarrow> ''allow'' | Some x \<Rightarrow> decision_value (pd_decision x)),
          (''aro.rule_id'', case d of None \<Rightarrow> [] | Some x \<Rightarrow> pd_rule_id x),
          (''aro.error'', text_or_empty (sr_error step))]\<rparr> t))"

definition tracing_run_end :: "agent_run \<Rightarrow> tracing \<Rightarrow> tracing" where
  "tracing_run_end run t =
     (case tg_runs t (run_id run) of
        None \<Rightarrow> t
      | Some i \<Rightarrow> t\<lparr>tg_runs := (tg_runs t)(run_id run := None),
          tg_spans := (tg_spans t)[i := (tg_spans t ! i)\<lparr>
            sp_attributes := sp_attributes (tg_spans t ! i) @ [(''aro.status'', run_status_value (run_status run)),
              (''aro.steps'', show_nat (length (run_steps run))), (''aro.denials'', show_nat (run_denials run))],
            sp_end := Some (map_option (\<lambda>f. f * 1000) (run_finished_at run))\<rparr>]\<rparr>)"

definition tracing_hooks :: "tracing run_hooks" where
  "tracing_hooks = \<lparr>hk_run_start = tracing_run_start, hk_step_end = tracing_step_end, hk_run_end = tracing_run_end\<rparr>"

lemma fold_step_spans:
  "tg_runs (fold (\<lambda>s. tracing_step_end run s (f s)) ss t) = tg_runs t \<and>
   (\<exists>children. tg_spans (fold (\<lambda>s. tracing_step_end run s (f s)) ss t) = tg_spans t @ children \<and>
      map sp_name children = map (\<lambda>s. ''step:'' @ sr_name s) ss \<and>
      list_all (\<lambda>c. sp_parent c = tg_runs t (run_id run) \<and> sp_end c \<noteq> None) children)"
proof (induction ss arbitrary: t)
  case (Cons s ss)
  let ?t = "tracing_step_end run s (f s) t"
  have one: "tg_runs ?t = tg_runs t" "\<exists>c. tg_spans ?t = tg_spans t @ [c] \<and> sp_name c = ''step:'' @ sr_name s \<and>
      sp_parent c = tg_runs t (run_id run) \<and> sp_end c \<noteq> None"
    by (simp_all add: tracing_step_end_def start_span_def Let_def)
  then obtain c where c: "tg_spans ?t = tg_spans t @ [c]" "sp_name c = ''step:'' @ sr_name s"
    "sp_parent c = tg_runs t (run_id run)" "sp_end c \<noteq> None" by blast
  from Cons.IH [of ?t] obtain children where
    ch: "tg_runs (fold (\<lambda>s. tracing_step_end run s (f s)) ss ?t) = tg_runs ?t"
      "tg_spans (fold (\<lambda>s. tracing_step_end run s (f s)) ss ?t) = tg_spans ?t @ children"
      "map sp_name children = map (\<lambda>s. ''step:'' @ sr_name s) ss"
      "list_all (\<lambda>c. sp_parent c = tg_runs ?t (run_id run) \<and> sp_end c \<noteq> None) children" by blast
  then show ?case using c one(1) by (intro conjI exI [of _ "c # children"]) simp_all
qed simp

text \<open>
  tracing leaves no span open. Driving the tracing hook with the calls of a run appends one
  root span for the run and one child per step, in step order, all of them ended; the children
  hang under the root, and the hook keeps no reference to the run afterwards.
\<close>

theorem run_spans_complete:
  assumes "run_id started = run_id run"
  shows "\<exists>root children. tg_spans (hook_calls tracing_hooks started run t) = tg_spans t @ root # children \<and>
    sp_name root = ''agent_run'' \<and> sp_end root \<noteq> None \<and>
    map sp_name children = map (\<lambda>s. ''step:'' @ sr_name s) (run_steps run) \<and>
    (\<forall>c\<in>set children. sp_parent c = Some (length (tg_spans t)) \<and> sp_end c \<noteq> None) \<and>
    tg_runs (hook_calls tracing_hooks started run t) (run_id run) = None"
proof -
  let ?n = "length (tg_spans t)"
  let ?t1 = "tracing_run_start started t"
  obtain root where t1: "tg_spans ?t1 = tg_spans t @ [root]" "sp_name root = ''agent_run''"
    "tg_runs ?t1 (run_id run) = Some ?n"
    using assms by (simp add: tracing_run_start_def start_span_def)
  let ?t2 = "fold (\<lambda>s. tracing_step_end run s (step_decision_of run s)) (run_steps run) ?t1"
  from fold_step_spans [of run "step_decision_of run" "run_steps run" ?t1] obtain children where
    t2: "tg_runs ?t2 = tg_runs ?t1" "tg_spans ?t2 = tg_spans ?t1 @ children"
      "map sp_name children = map (\<lambda>s. ''step:'' @ sr_name s) (run_steps run)"
      "list_all (\<lambda>c. sp_parent c = tg_runs ?t1 (run_id run) \<and> sp_end c \<noteq> None) children" by blast
  have calls: "hook_calls tracing_hooks started run t = tracing_run_end run ?t2"
    by (simp add: hook_calls_def tracing_hooks_def)
  have spans: "tg_spans ?t2 = tg_spans t @ root # children" by (simp add: t2(2) t1(1))
  have runs: "tg_runs ?t2 (run_id run) = Some ?n" by (simp add: t2(1) t1(3))
  let ?root = "root\<lparr>sp_attributes := sp_attributes root @ [(''aro.status'', run_status_value (run_status run)),
      (''aro.steps'', show_nat (length (run_steps run))), (''aro.denials'', show_nat (run_denials run))],
      sp_end := Some (map_option (\<lambda>f. f * 1000) (run_finished_at run))\<rparr>"
  have "tg_spans (tracing_run_end run ?t2) = tg_spans t @ ?root # children"
    "tg_runs (tracing_run_end run ?t2) (run_id run) = None"
    by (simp_all add: tracing_run_end_def runs spans list_update_append nth_append)
  then show ?thesis
    unfolding calls using t1(2,3) t2(3,4) by (intro exI [of _ ?root] exI [of _ children]) (simp add: list_all_iff)
qed

theorem run_spans_complete_witness:
  "\<exists>root children. tg_spans (hook_calls tracing_hooks demo_run demo_run \<lparr>tg_spans = [], tg_runs = Map.empty\<rparr>) = root # children \<and>
     sp_end root \<noteq> None"
  using run_spans_complete [of demo_run demo_run "\<lparr>tg_spans = [], tg_runs = Map.empty\<rparr>"] by auto

end
