(* ===== verification/Iso_Time.thy ===== *)
theory Iso_Time
  imports Prelude
begin

text \<open>
  Timestamps as the stores keep them: \<open>utcnow().isoformat()\<close> texts in the columns
  \<open>created_at\<close>, \<open>enqueued_at\<close> and \<open>available_at\<close>
  (\<open>packages/runtime/aro_runtime/store.py\<close>). The module relies on their text order being
  their time order; that is the contract here.
\<close>

section \<open>UTC datetimes\<close>

record utc_time =
  ut_year :: nat
  ut_month :: nat
  ut_day :: nat
  ut_hour :: nat
  ut_minute :: nat
  ut_second :: nat
  ut_micro :: nat

definition leap_year :: "nat \<Rightarrow> bool" where
  "leap_year y \<longleftrightarrow> 4 dvd y \<and> (\<not> 100 dvd y \<or> 400 dvd y)"

definition month_lengths :: "nat \<Rightarrow> nat list" where
  "month_lengths y = [31, if leap_year y then 29 else 28, 31, 30, 31, 30, 31, 31, 30, 31, 30, 31]"

definition days_before_month :: "nat \<Rightarrow> nat \<Rightarrow> nat" where
  "days_before_month y m = sum_list (take (m - 1) (month_lengths y))"

definition days_before_year :: "nat \<Rightarrow> nat" where
  "days_before_year y = (let p = y - 1 in 365 * p + p div 4 - p div 100 + p div 400)"

text \<open>Days since 0001-01-01, and microseconds since that midnight.\<close>

definition day_number :: "utc_time \<Rightarrow> nat" where
  "day_number t = days_before_year (ut_year t) + days_before_month (ut_year t) (ut_month t) + (ut_day t - 1)"

definition micros :: "utc_time \<Rightarrow> nat" where
  "micros t = (((day_number t * 24 + ut_hour t) * 60 + ut_minute t) * 60 + ut_second t) * 1000000 + ut_micro t"

definition utc_valid :: "utc_time \<Rightarrow> bool" where
  "utc_valid t \<longleftrightarrow> 1 \<le> ut_year t \<and> ut_year t \<le> 9999 \<and> 1 \<le> ut_month t \<and> ut_month t \<le> 12 \<and>
     1 \<le> ut_day t \<and> ut_day t \<le> month_lengths (ut_year t) ! (ut_month t - 1) \<and>
     ut_hour t < 24 \<and> ut_minute t < 60 \<and> ut_second t < 60 \<and> ut_micro t < 1000000"

section \<open>Texts\<close>

fun pad :: "nat \<Rightarrow> nat \<Rightarrow> string" where
  "pad 0 n = []"
| "pad (Suc w) n = pad w (n div 10) @ [digit_char (n mod 10)]"

definition micro_text :: "nat \<Rightarrow> string" where
  "micro_text us = (if us = 0 then [] else CHR ''.'' # pad 6 us) @ ''+00:00''"

definition iso_text :: "utc_time \<Rightarrow> string" where
  "iso_text t = pad 4 (ut_year t) @ CHR ''-'' # pad 2 (ut_month t) @ CHR ''-'' # pad 2 (ut_day t) @
     CHR ''T'' # pad 2 (ut_hour t) @ CHR '':'' # pad 2 (ut_minute t) @ CHR '':'' # pad 2 (ut_second t) @
     micro_text (ut_micro t)"

section \<open>Time order\<close>

lemma mixed_radix:
  fixes a b r s R :: nat
  assumes "r < R" "s < R"
  shows "a * R + r \<le> b * R + s \<longleftrightarrow> a < b \<or> (a = b \<and> r \<le> s)"
proof -
  have below: "x * R + q < y * R" if "x < y" "q < R" for x y q
    using mult_le_mono1 [of "Suc x" y R] that by simp
  show ?thesis
  proof (cases a b rule: linorder_cases)
    case less
    with below [OF this assms(1)] show ?thesis by simp
  next
    case greater
    with below [OF this assms(2)] show ?thesis by simp
  qed simp
qed

lemma mixed_radix_less:
  fixes a b r s R :: nat
  assumes "r < R" "s < R"
  shows "a * R + r < b * R + s \<longleftrightarrow> a < b \<or> (a = b \<and> r < s)"
  unfolding not_le [symmetric] mixed_radix [OF assms(2,1)] by auto

lemma mixed_radix_eq:
  fixes a b r s R :: nat
  assumes "r < R" "s < R"
  shows "a * R + r = b * R + s \<longleftrightarrow> a = b \<and> r = s"
  unfolding order_eq_iff mixed_radix [OF assms] mixed_radix [OF assms(2,1)] by auto

text \<open>Comparison of datetimes by their fields.\<close>

definition fields :: "utc_time \<Rightarrow> nat list" where
  "fields t = [ut_year t, ut_month t, ut_day t, ut_hour t, ut_minute t, ut_second t, ut_micro t]"

lemma month_lengths_length [simp]: "length (month_lengths y) = 12"
  by (simp add: month_lengths_def)

lemma days_before_month_Suc:
  assumes "1 \<le> m" "m \<le> 12"
  shows "days_before_month y (Suc m) = days_before_month y m + month_lengths y ! (m - 1)"
proof -
  have "take m (month_lengths y) = take (m - 1) (month_lengths y) @ [month_lengths y ! (m - 1)]"
    using assms take_Suc_conv_app_nth [of "m - 1" "month_lengths y"] by simp
  then show ?thesis by (simp add: days_before_month_def)
qed

lemma days_before_month_mono: "m \<le> n \<Longrightarrow> days_before_month y m \<le> days_before_month y n"
proof -
  assume "m \<le> n"
  then have "take (n - 1) (month_lengths y) = take (m - 1) (month_lengths y) @
      take (n - 1 - (m - 1)) (drop (m - 1) (month_lengths y))"
    by (metis diff_le_mono le_add_diff_inverse take_add)
  then show ?thesis by (simp add: days_before_month_def)
qed

lemma days_in_year: "days_before_month y 13 = (if leap_year y then 366 else 365)"
  by (simp add: days_before_month_def month_lengths_def)

lemma days_before_year_Suc:
  assumes "1 \<le> y"
  shows "days_before_year (Suc y) = days_before_year y + days_before_month y 13"
proof -
  define p where "p = y - 1"
  have y: "y = Suc p" using assms by (simp add: p_def)
  have d: "Suc p div k = (if k dvd Suc p then Suc (p div k) else p div k)" if "0 < k" for k
    using that by (simp add: div_Suc mod_eq_0_iff_dvd)
  have c: "100 dvd Suc p \<Longrightarrow> 4 dvd Suc p" "400 dvd Suc p \<Longrightarrow> 100 dvd Suc p" by presburger+
  have le: "p div 100 \<le> p div 4" "Suc (p div 100) \<le> Suc p div 4" if "100 dvd Suc p"
    using that c(1) [OF that] by (auto simp: d intro: div_le_mono2)
  have le': "p div 100 \<le> p div 4" by (rule div_le_mono2) simp_all
  show ?thesis
    by (cases "400 dvd Suc p"; cases "100 dvd Suc p"; cases "4 dvd Suc p")
      (use c le' in \<open>simp_all add: days_before_year_def Let_def days_in_year leap_year_def y d\<close>, simp_all add: ac_simps)
qed

lemma days_before_year_mono: "1 \<le> y \<Longrightarrow> y \<le> z \<Longrightarrow> days_before_year y \<le> days_before_year z"
proof (induction z)
  case (Suc z)
  then show ?case by (cases "y = Suc z") (auto simp: days_before_year_Suc)
qed simp

lemma day_of_year_bound:
  assumes "utc_valid t"
  shows "days_before_month (ut_year t) (ut_month t) + (ut_day t - 1) < days_before_month (ut_year t) (Suc (ut_month t))"
    "days_before_month (ut_year t) (Suc (ut_month t)) \<le> days_before_month (ut_year t) 13"
proof -
  have m: "1 \<le> ut_month t" "ut_month t \<le> 12" "1 \<le> ut_day t"
    "ut_day t \<le> month_lengths (ut_year t) ! (ut_month t - 1)"
    using assms by (simp_all add: utc_valid_def)
  then show "days_before_month (ut_year t) (ut_month t) + (ut_day t - 1) < days_before_month (ut_year t) (Suc (ut_month t))"
    using days_before_month_Suc [OF m(1,2), of "ut_year t"] by linarith
  show "days_before_month (ut_year t) (Suc (ut_month t)) \<le> days_before_month (ut_year t) 13"
    using m by (intro days_before_month_mono) linarith
qed

lemma day_number_less:
  assumes a: "utc_valid a" and b: "utc_valid b"
    and less: "ut_year a < ut_year b \<or> (ut_year a = ut_year b \<and>
      (ut_month a < ut_month b \<or> (ut_month a = ut_month b \<and> ut_day a < ut_day b)))"
  shows "day_number a < day_number b"
proof -
  note bound = day_of_year_bound [OF a]
  from less consider "ut_year a < ut_year b" | "ut_year a = ut_year b" "ut_month a < ut_month b"
    | "ut_year a = ut_year b" "ut_month a = ut_month b" "ut_day a < ut_day b" by blast
  then show ?thesis
  proof cases
    case 1
    have "1 \<le> ut_year a" using a by (simp add: utc_valid_def)
    then have "days_before_year (Suc (ut_year a)) \<le> days_before_year (ut_year b)"
      using 1 by (intro days_before_year_mono) auto
    with bound \<open>1 \<le> ut_year a\<close> show ?thesis by (simp add: day_number_def days_before_year_Suc)
  next
    case 2
    then have "days_before_month (ut_year a) (Suc (ut_month a)) \<le> days_before_month (ut_year b) (ut_month b)"
      by (auto intro: days_before_month_mono)
    with bound 2 show ?thesis by (simp add: day_number_def)
  next
    case 3
    with a b show ?thesis by (auto simp: day_number_def utc_valid_def)
  qed
qed

lemma day_number_le:
  assumes "utc_valid a" "utc_valid b"
  shows "day_number a < day_number b \<longleftrightarrow> [ut_year a, ut_month a, ut_day a] < [ut_year b, ut_month b, ut_day b]"
    "day_number a = day_number b \<longleftrightarrow> ut_year a = ut_year b \<and> ut_month a = ut_month b \<and> ut_day a = ut_day b"
proof -
  let ?L = "\<lambda>a b. ut_year a < ut_year b \<or> (ut_year a = ut_year b \<and>
      (ut_month a < ut_month b \<or> (ut_month a = ut_month b \<and> ut_day a < ut_day b)))"
  let ?E = "ut_year a = ut_year b \<and> ut_month a = ut_month b \<and> ut_day a = ut_day b"
  have L: "?L a b \<longleftrightarrow> [ut_year a, ut_month a, ut_day a] < [ut_year b, ut_month b, ut_day b]" by auto
  have eq: "?E \<Longrightarrow> day_number a = day_number b" by (simp add: day_number_def)
  have tri: "?L a b \<or> ?L b a \<or> ?E" by linarith
  have ab: "?L a b \<Longrightarrow> day_number a < day_number b" using day_number_less [OF assms] by blast
  have ba: "?L b a \<Longrightarrow> day_number b < day_number a" using day_number_less [OF assms(2,1)] by blast
  show "day_number a < day_number b \<longleftrightarrow> [ut_year a, ut_month a, ut_day a] < [ut_year b, ut_month b, ut_day b]"
    unfolding L [symmetric] using tri ab ba eq by (metis less_asym nat_neq_iff)
  show "day_number a = day_number b \<longleftrightarrow> ?E" using tri ab ba eq by (metis nat_neq_iff)
qed

lemma micros_le_iff:
  assumes "utc_valid a" "utc_valid b"
  shows "micros a \<le> micros b \<longleftrightarrow> fields a \<le> fields b"
proof -
  have r: "ut_hour a < 24" "ut_hour b < 24" "ut_minute a < 60" "ut_minute b < 60" "ut_second a < 60"
    "ut_second b < 60" "ut_micro a < 1000000" "ut_micro b < 1000000"
    using assms by (auto simp: utc_valid_def)
  have "micros a \<le> micros b \<longleftrightarrow> day_number a < day_number b \<or> (day_number a = day_number b \<and>
      [ut_hour a, ut_minute a, ut_second a, ut_micro a] \<le> [ut_hour b, ut_minute b, ut_second b, ut_micro b])"
    unfolding micros_def mixed_radix [OF r(7,8)] mixed_radix_less [OF r(5,6)] mixed_radix_eq [OF r(5,6)]
      mixed_radix_less [OF r(3,4)] mixed_radix_eq [OF r(3,4)] mixed_radix_less [OF r(1,2)] mixed_radix_eq [OF r(1,2)]
    by auto
  then show ?thesis unfolding day_number_le [OF assms] fields_def by auto
qed

section \<open>Text order\<close>

lemma append_le_iff:
  fixes a b :: string
  assumes "length a = length b"
  shows "a @ x \<le> b @ y \<longleftrightarrow> a < b \<or> (a = b \<and> x \<le> y)"
  using assms by (induction a b rule: list_induct2) auto

lemma append_less_iff:
  fixes a b :: string
  assumes "length a = length b"
  shows "a @ x < b @ y \<longleftrightarrow> a < b \<or> (a = b \<and> x < y)"
  using assms by (induction a b rule: list_induct2) auto

lemma length_pad [simp]: "length (pad w n) = w"
  by (induction w arbitrary: n) auto

lemma digit_char_less: "i < 10 \<Longrightarrow> j < 10 \<Longrightarrow> digit_char i < digit_char j \<longleftrightarrow> i < j"
  by (auto simp: digit_char_def less_char_def)

lemma digit_char_eq: "i < 10 \<Longrightarrow> j < 10 \<Longrightarrow> digit_char i = digit_char j \<longleftrightarrow> i = j"
  using digit_char_less [of i j] digit_char_less [of j i] by (metis less_irrefl nat_neq_iff)

lemma pad_less_eq:
  assumes "m < 10 ^ w" "n < 10 ^ w"
  shows "(pad w m < pad w n \<longleftrightarrow> m < n) \<and> (pad w m = pad w n \<longleftrightarrow> m = n)"
  using assms
proof (induction w arbitrary: m n)
  case (Suc w)
  have "m div 10 < 10 ^ w" "n div 10 < 10 ^ w" using Suc.prems by (auto simp: less_mult_imp_div_less mult.commute)
  from Suc.IH [OF this] have IH: "pad w (m div 10) < pad w (n div 10) \<longleftrightarrow> m div 10 < n div 10"
    "pad w (m div 10) = pad w (n div 10) \<longleftrightarrow> m div 10 = n div 10" by auto
  have "m < n \<longleftrightarrow> m div 10 < n div 10 \<or> (m div 10 = n div 10 \<and> m mod 10 < n mod 10)"
    "m = n \<longleftrightarrow> m div 10 = n div 10 \<and> m mod 10 = n mod 10"
    using mixed_radix_less [of "m mod 10" 10 "n mod 10" "m div 10" "n div 10"]
      mixed_radix_eq [of "m mod 10" 10 "n mod 10" "m div 10" "n div 10"] by simp_all
  then show ?case
    by (simp add: append_less_iff IH digit_char_less digit_char_eq)
qed simp

lemma pad_cmp:
  assumes "m < 10 ^ w" "n < 10 ^ w"
  shows "pad w m < pad w n \<longleftrightarrow> m < n" "pad w m = pad w n \<longleftrightarrow> m = n"
  using pad_less_eq [OF assms] by blast+

lemma pad_append_le:
  assumes "m < 10 ^ w" "n < 10 ^ w"
  shows "pad w m @ x \<le> pad w n @ y \<longleftrightarrow> m < n \<or> (m = n \<and> x \<le> y)"
  by (simp add: append_le_iff pad_cmp [OF assms])

lemma micro_text_le:
  assumes "m < 1000000" "n < 1000000"
  shows "micro_text m \<le> micro_text n \<longleftrightarrow> m \<le> n"
  using assms pad_append_le [of m 6 n "''+00:00''" "''+00:00''"]
  by (auto simp: micro_text_def less_char_def)

text \<open>
  stored timestamps compare as text the way they compare as times. For any two UTC datetimes
  the \<open>isoformat\<close> texts are ordered lexically exactly as the instants are, including the
  texts without a fractional part.
\<close>

theorem iso_text_order:
  assumes "utc_valid a" "utc_valid b"
  shows "iso_text a \<le> iso_text b \<longleftrightarrow> micros a \<le> micros b"
proof -
  have r: "ut_hour a < 100" "ut_hour b < 100" "ut_minute a < 100" "ut_minute b < 100" "ut_second a < 100"
    "ut_second b < 100" "ut_micro a < 1000000" "ut_micro b < 1000000" "ut_year a < 10000" "ut_year b < 10000"
    "ut_month a < 100" "ut_month b < 100"
    using assms by (auto simp: utc_valid_def)
  have le31: "month_lengths y ! i \<le> 31" if "i < 12" for y i
    using that nth_mem [of i "month_lengths y"] by (auto simp: month_lengths_def split: if_splits)
  have "month_lengths (ut_year t) ! (ut_month t - 1) \<le> 31" if "utc_valid t" for t :: utc_time
    by (rule le31) (use that in \<open>simp add: utc_valid_def, linarith\<close>)
  from this [OF assms(1)] this [OF assms(2)] have d: "ut_day a < 100" "ut_day b < 100"
    using assms unfolding utc_valid_def by linarith+
  have "iso_text a \<le> iso_text b \<longleftrightarrow> fields a \<le> fields b"
    unfolding iso_text_def by (simp add: pad_append_le micro_text_le r d fields_def del: pad.simps) auto
  with micros_le_iff [OF assms] show ?thesis by blast
qed

theorem iso_text_order_witness:
  "let a = \<lparr>ut_year = 2026, ut_month = 2, ut_day = 28, ut_hour = 23, ut_minute = 59, ut_second = 59, ut_micro = 0\<rparr>;
       b = a\<lparr>ut_micro := 5\<rparr>
   in iso_text a \<le> iso_text b \<longleftrightarrow> micros a \<le> micros b"
  unfolding Let_def by (rule iso_text_order) (simp_all add: utc_valid_def month_lengths_def leap_year_def)

end
