(* ===== verification/Power_Analysis.thy ===== *)
theory Power_Analysis
  imports Prelude
begin

text \<open>
  Exact power analysis for paired outcomes,
  \<open>packages/clinic/src/wutai_clinic/engine/power.py\<close>. Probabilities are real numbers: the
  float rounding of the source is not modelled. A dictionary result is a record; serializing the
  report is outside the model.
\<close>

section \<open>Model\<close>

definition binomial_term :: "nat \<Rightarrow> real \<Rightarrow> nat \<Rightarrow> real" where
  "binomial_term n p i = real (n choose i) * p ^ i * (1 - p) ^ (n - i)"

text \<open>The loop, without the argument checks.\<close>

definition binomial_tail :: "int \<Rightarrow> nat \<Rightarrow> real \<Rightarrow> real" where
  "binomial_tail k n p =
     (if k < 0 then 0
      else if int n \<le> k then 1
      else min 1 (sum_list (map (binomial_term n p) [0..<Suc (nat k)])))"

definition exact_binomial_tail :: "int \<Rightarrow> int \<Rightarrow> real \<Rightarrow> pyexn + real" where
  "exact_binomial_tail k n p =
     (if n < 0 then Inl (ValueErr ''n must be >= 0'')
      else if \<not> (0 \<le> p \<and> p \<le> 1) then Inl (ValueErr ''p must be in [0, 1]'')
      else Inr (binomial_tail k (nat n) p))"

definition upper_tail :: "int \<Rightarrow> nat \<Rightarrow> real \<Rightarrow> real" where
  "upper_tail k n p = (if k \<le> 0 then 1 else 1 - binomial_tail (k - 1) n p)"

record discordant_result =
  dt_n_discordant :: nat
  dt_n_uplift :: nat
  dt_n_harm :: nat
  dt_p_value :: real
  dt_note :: string

definition discordant_pair_test :: "nat \<Rightarrow> nat \<Rightarrow> discordant_result" where
  "discordant_pair_test n_uplift n_harm =
     (let n = n_uplift + n_harm in
      if n = 0 then \<lparr>dt_n_discordant = 0, dt_n_uplift = n_uplift, dt_n_harm = n_harm, dt_p_value = 1,
        dt_note = ''no_discordant_pairs''\<rparr>
      else \<lparr>dt_n_discordant = n, dt_n_uplift = n_uplift, dt_n_harm = n_harm,
        dt_p_value = min 1 (2 * binomial_tail (int (min n_uplift n_harm)) n (1/2)),
        dt_note = ''exact_two_sided_sign_test''\<rparr>)"

text \<open>One step of the binary search, and its 200 iterations.\<close>

definition bisect :: "(real \<Rightarrow> bool) \<Rightarrow> real \<times> real \<Rightarrow> real \<times> real" where
  "bisect ok lh = (let mid = (fst lh + snd lh) / 2 in if ok mid then (mid, snd lh) else (fst lh, mid))"

definition max_effect_excluded :: "int \<Rightarrow> int \<Rightarrow> real \<Rightarrow> real" where
  "max_effect_excluded n n_uplift confidence =
     (if n \<le> 0 then 1
      else if n \<le> n_uplift then 1
      else fst ((bisect (\<lambda>p. 1 - confidence \<le> binomial_tail n_uplift (nat n) p) ^^ 200) (0, 1)))"

text \<open>The search loop of \<open>required_pairs\<close>; the guard of the source leaves it past 100000.\<close>

definition PAIR_GUARD :: nat where
  "PAIR_GUARD = 100000"

function search_pairs :: "real \<Rightarrow> real \<Rightarrow> nat \<Rightarrow> nat" where
  "search_pairs target pw n =
     (if upper_tail 1 n target < pw
      then (if PAIR_GUARD < Suc n then Suc n else search_pairs target pw (Suc n))
      else n)"
  by pat_completeness auto
termination by (relation "measure (\<lambda>(_, _, n). Suc PAIR_GUARD - n)") (auto simp: PAIR_GUARD_def)

declare search_pairs.simps [simp del]

record pairs_result =
  rp_effective :: nat
  rp_total :: int
  rp_hit_rate :: real
  rp_target :: real
  rp_power :: real
  rp_alpha :: real

definition required_pairs :: "real \<Rightarrow> real \<Rightarrow> real \<Rightarrow> real \<Rightarrow> pyexn + pairs_result" where
  "required_pairs target hit pw alpha =
     (if \<not> (0 < target \<and> target \<le> 1) then Inl (ValueErr ''target_uplift_rate must be in (0, 1]'')
      else if \<not> (0 < hit \<and> hit \<le> 1) then Inl (ValueErr ''trigger_hit_rate must be in (0, 1]'')
      else if \<not> (0 < pw \<and> pw < 1) then Inl (ValueErr ''power must be in (0, 1)'')
      else let n = search_pairs target pw 1 in
        Inr \<lparr>rp_effective = n, rp_total = \<lceil>real n / hit\<rceil>, rp_hit_rate = hit, rp_target = target,
          rp_power = pw, rp_alpha = alpha\<rparr>)"

text \<open>The inner loop of \<open>futility_boundary\<close> over \<open>v = 0, ..., k\<close>, and the outer one.\<close>

fun boundary_from :: "real \<Rightarrow> real \<Rightarrow> nat \<Rightarrow> int \<Rightarrow> nat list \<Rightarrow> int" where
  "boundary_from target alpha k b [] = b"
| "boundary_from target alpha k b (v # vs) =
     (if binomial_tail (int v) k target \<le> alpha then boundary_from target alpha k (int v) vs else b)"

fun checkpoints_from :: "real \<Rightarrow> real \<Rightarrow> int \<Rightarrow> nat list \<Rightarrow> (nat \<times> int) list" where
  "checkpoints_from target alpha prev [] = []"
| "checkpoints_from target alpha prev (k # ks) =
     (let b = max (boundary_from target alpha k (- 1) [0..<Suc k]) prev
      in (k, b) # checkpoints_from target alpha b ks)"

definition futility_boundary :: "int \<Rightarrow> real \<Rightarrow> real \<Rightarrow> (nat \<times> int) list" where
  "futility_boundary n target alpha =
     (if n \<le> 0 then [] else checkpoints_from target alpha 0 [1..<Suc (nat n)])"

definition futility_status :: "(nat \<times> int) list \<Rightarrow> nat \<Rightarrow> nat \<Rightarrow> string" where
  "futility_status checkpoints n_pairs n_uplift =
     (case find (\<lambda>c. fst c = n_pairs) checkpoints of
        None \<Rightarrow> ''futility_boundary_not_crossed''
      | Some c \<Rightarrow> if int n_uplift \<le> snd c then ''futility_boundary_crossed''
                  else ''futility_boundary_not_crossed'')"

definition power_decision :: "nat \<Rightarrow> nat \<Rightarrow> bool \<Rightarrow> string" where
  "power_decision n_uplift n_harm powered =
     (if n_uplift = 0 \<and> n_harm = 0 then ''power_analysis_ready_underpowered_for_target_effect''
      else if powered then ''power_analysis_ready_powered_for_target_effect''
      else ''power_analysis_ready_underpowered_for_target_effect'')"

record power_report =
  pr_n_pairs :: nat
  pr_n_uplift :: nat
  pr_n_harm :: nat
  pr_p_observed :: real
  pr_p_null_zero :: real
  pr_discordant :: discordant_result
  pr_max_excluded :: real
  pr_required :: pairs_result
  pr_minimum_pairs :: int
  pr_futility :: "(nat \<times> int) list"
  pr_futility_status :: string
  pr_powered :: bool
  pr_decision :: string

definition build_power_report :: "nat \<Rightarrow> nat \<Rightarrow> nat \<Rightarrow> real \<Rightarrow> real \<Rightarrow> real \<Rightarrow> real \<Rightarrow> pyexn + power_report" where
  "build_power_report n_pairs n_uplift n_harm hit target pw alpha =
     (case exact_binomial_tail (int n_uplift) (int n_pairs) target of
        Inl e \<Rightarrow> Inl e
      | Inr p_observed \<Rightarrow>
          (case required_pairs target hit pw alpha of
             Inl e \<Rightarrow> Inl e
           | Inr req \<Rightarrow>
               let minimum = rp_total req;
                   futility = futility_boundary (max minimum (int n_pairs)) target (1/10);
                   powered = (minimum \<le> int n_pairs)
               in Inr \<lparr>pr_n_pairs = n_pairs, pr_n_uplift = n_uplift, pr_n_harm = n_harm,
                    pr_p_observed = p_observed, pr_p_null_zero = (if n_uplift = 0 then 1 else 0),
                    pr_discordant = discordant_pair_test n_uplift n_harm,
                    pr_max_excluded = max_effect_excluded (int n_pairs) (int n_uplift) (95/100),
                    pr_required = req, pr_minimum_pairs = minimum, pr_futility = futility,
                    pr_futility_status = futility_status futility n_pairs n_uplift, pr_powered = powered,
                    pr_decision = power_decision n_uplift n_harm powered\<rparr>))"

section \<open>The binomial tail\<close>

text \<open>The sum over the first \<open>k\<close> terms.\<close>

definition tail_sum :: "nat \<Rightarrow> nat \<Rightarrow> real \<Rightarrow> real" where
  "tail_sum k n p = (\<Sum>i<k. binomial_term n p i)"

lemma sum_list_tail: "sum_list (map (binomial_term n p) [0..<k]) = tail_sum k n p"
  by (simp add: tail_sum_def interv_sum_list_conv_sum_set_nat atLeast0LessThan)

lemma tail_sum_rec: "tail_sum (Suc k) (Suc n) p = (1 - p) * tail_sum (Suc k) n p + p * tail_sum k n p"
proof (induction k)
  case 0
  then show ?case by (simp add: tail_sum_def binomial_term_def)
next
  case (Suc k)
  have tm: "binomial_term (Suc n) p (Suc k) = (1 - p) * binomial_term n p (Suc k) + p * binomial_term n p k"
  proof (cases "k < n")
    case True
    define q where "q = 1 - p"
    from True have "q ^ (n - k) = q * q ^ (n - Suc k)" by (metis Suc_diff_Suc power_Suc)
    then show ?thesis by (simp add: binomial_term_def q_def [symmetric] algebra_simps)
  next
    case False
    then show ?thesis by (simp add: binomial_term_def algebra_simps binomial_eq_0)
  qed
  have "tail_sum (Suc (Suc k)) (Suc n) p = tail_sum (Suc k) (Suc n) p + binomial_term (Suc n) p (Suc k)"
    by (simp add: tail_sum_def)
  also have "\<dots> = (1 - p) * (tail_sum (Suc k) n p + binomial_term n p (Suc k)) + p * (tail_sum k n p + binomial_term n p k)"
    by (simp add: Suc.IH tm algebra_simps)
  finally show ?case by (simp add: tail_sum_def)
qed

lemma binomial_term_nonneg: "0 \<le> p \<Longrightarrow> p \<le> 1 \<Longrightarrow> 0 \<le> binomial_term n p i"
  by (simp add: binomial_term_def)

lemma tail_sum_mono: "0 \<le> p \<Longrightarrow> p \<le> 1 \<Longrightarrow> j \<le> k \<Longrightarrow> tail_sum j n p \<le> tail_sum k n p"
  unfolding tail_sum_def by (intro sum_mono2) (auto simp: binomial_term_nonneg)

lemma tail_sum_total: "n < k \<Longrightarrow> tail_sum k n p = 1"
proof -
  assume "n < k"
  have "(\<Sum>i\<le>n. binomial_term n p i) = (p + (1 - p)) ^ n"
    unfolding binomial_ring binomial_term_def by (simp add: of_nat_id)
  moreover have "(\<Sum>i<k. binomial_term n p i) = (\<Sum>i\<le>n. binomial_term n p i)"
    using \<open>n < k\<close> by (intro sum.mono_neutral_right) (auto simp: binomial_term_def binomial_eq_0)
  ultimately show ?thesis by (simp add: tail_sum_def)
qed

lemma tail_sum_le_1: "0 \<le> p \<Longrightarrow> p \<le> 1 \<Longrightarrow> tail_sum k n p \<le> 1"
  using tail_sum_mono [of p k "max k (Suc n)" n] tail_sum_total [of n "max k (Suc n)" p] by simp

lemma tail_sum_antimono:
  assumes "0 \<le> p" "p \<le> q" "q \<le> 1"
  shows "tail_sum k n q \<le> tail_sum k n p"
proof (induction n arbitrary: k)
  case 0
  show ?case
  proof (cases k)
    case (Suc j)
    then show ?thesis by (simp add: tail_sum_total)
  qed (simp add: tail_sum_def)
next
  case (Suc n)
  show ?case
  proof (cases k)
    case (Suc j)
    let ?a = "tail_sum (Suc j) n" and ?b = "tail_sum j n"
    have "(1 - q) * ?a q + q * ?b q = ?a q - q * (?a q - ?b q)" by (simp add: algebra_simps)
    also have "\<dots> \<le> ?a q - p * (?a q - ?b q)"
      using assms tail_sum_mono [of q j "Suc j" n] by (intro diff_left_mono mult_right_mono) auto
    also have "\<dots> = (1 - p) * ?a q + p * ?b q" by (simp add: algebra_simps)
    also have "\<dots> \<le> (1 - p) * ?a p + p * ?b p"
      using assms Suc.IH by (intro add_mono mult_left_mono) auto
    finally show ?thesis by (simp add: Suc tail_sum_rec)
  qed (simp add: tail_sum_def)
qed

text \<open>The cap of the source at 1 is never needed.\<close>

lemma binomial_tail_sum:
  assumes "0 \<le> p" "p \<le> 1"
  shows "binomial_tail k n p = (if k < 0 then 0 else tail_sum (Suc (nat k)) n p)"
proof -
  have "tail_sum (Suc (nat k)) n p = 1" if "int n \<le> k" using that by (intro tail_sum_total) linarith
  then show ?thesis
    using tail_sum_le_1 [OF assms, of "Suc (nat k)" n]
    unfolding binomial_tail_def sum_list_tail by simp
qed

lemma binomial_tail_zero: "0 \<le> p \<Longrightarrow> p \<le> 1 \<Longrightarrow> binomial_tail 0 n p = (1 - p) ^ n"
  by (simp add: binomial_tail_sum tail_sum_def binomial_term_def)

text \<open>
  the exact tail is a distribution function. For a rate in [0, 1] it is defined, lies between 0
  and 1, grows with the count and falls with the rate; it is 0 below count 0 and 1 from the number
  of pairs on; outside its domain it raises.
\<close>

theorem binomial_tail_is_cdf:
  assumes "0 \<le> p" "p \<le> q" "q \<le> 1" "j \<le> k"
  shows "exact_binomial_tail k (int n) p = Inr (binomial_tail k n p) \<and>
    0 \<le> binomial_tail k n p \<and> binomial_tail k n p \<le> 1 \<and>
    binomial_tail j n p \<le> binomial_tail k n p \<and> binomial_tail k n q \<le> binomial_tail k n p \<and>
    (k < 0 \<longrightarrow> binomial_tail k n p = 0) \<and> (int n \<le> k \<longrightarrow> binomial_tail k n p = 1)"
proof -
  have pq: "p \<le> 1" "0 \<le> q" using assms by auto
  have bounds: "0 \<le> binomial_tail k n p" "binomial_tail k n p \<le> 1"
    using tail_sum_mono [of p 0 "Suc (nat k)" n] tail_sum_le_1 [of p "Suc (nat k)" n] assms(1) pq
    by (auto simp: binomial_tail_sum tail_sum_def)
  have "binomial_tail j n p \<le> binomial_tail k n p"
    using tail_sum_mono [of p "Suc (nat j)" "Suc (nat k)" n] bounds assms(1,4) pq
    by (auto simp: binomial_tail_sum split: if_splits)
  moreover have "binomial_tail k n q \<le> binomial_tail k n p"
    using tail_sum_antimono [OF assms(1-3)] assms pq by (simp add: binomial_tail_sum)
  ultimately show ?thesis
    using bounds assms(1) pq by (simp add: exact_binomial_tail_def binomial_tail_def)
qed

theorem binomial_tail_is_cdf_witness:
  "binomial_tail 1 3 (1/2) \<le> binomial_tail 2 3 (1/2) \<and> binomial_tail 2 3 (3/4) \<le> binomial_tail 2 3 (1/2)"
  using binomial_tail_is_cdf [of "1/2" "3/4" 1 2 3] by simp

section \<open>The exclusion bound\<close>

lemma binomial_tail_at_1: "0 \<le> k \<Longrightarrow> k < int n \<Longrightarrow> binomial_tail k n 1 = 0"
  by (simp add: binomial_tail_sum tail_sum_def binomial_term_def power_0_left)

lemma binomial_tail_at_0: "0 \<le> k \<Longrightarrow> binomial_tail k n 0 = 1"
proof -
  assume "0 \<le> k"
  have "tail_sum 1 n 0 = 1" by (simp add: tail_sum_def binomial_term_def)
  with tail_sum_mono [of 0 1 "Suc (nat k)" n] tail_sum_le_1 [of 0 "Suc (nat k)" n] \<open>0 \<le> k\<close>
  show ?thesis by (simp add: binomial_tail_sum)
qed

definition bracket :: "(real \<Rightarrow> bool) \<Rightarrow> nat \<Rightarrow> real \<times> real \<Rightarrow> bool" where
  "bracket ok i lh \<longleftrightarrow> 0 \<le> fst lh \<and> snd lh \<le> 1 \<and> snd lh - fst lh = 1 / 2 ^ i \<and> ok (fst lh) \<and> \<not> ok (snd lh)"

lemma bracket_bisect: "bracket ok i lh \<Longrightarrow> bracket ok (Suc i) (bisect ok lh)"
proof -
  assume b: "bracket ok i lh"
  then have "0 < snd lh - fst lh" by (simp add: bracket_def)
  with b show ?thesis by (auto simp: bracket_def bisect_def Let_def field_simps)
qed

lemma bracket_iterate: "bracket ok 0 lh \<Longrightarrow> bracket ok i ((bisect ok ^^ i) lh)"
  by (induction i) (auto intro: bracket_bisect)

text \<open>
  the exclusion bound is found to 200 bits. For fewer uplifts than pairs and a confidence in
  [0, 1), the returned rate is still compatible with the observation, and every rate at least
  \<open>2^-200\<close> above it is excluded at that confidence.
\<close>

theorem exclusion_bound_bisects:
  assumes "0 \<le> u" "u < n" "0 \<le> c" "c < 1"
  shows "0 \<le> max_effect_excluded n u c \<and> max_effect_excluded n u c < 1 \<and>
    1 - c \<le> binomial_tail u (nat n) (max_effect_excluded n u c) \<and>
    (\<forall>p. max_effect_excluded n u c + 1 / 2 ^ 200 \<le> p \<and> p \<le> 1 \<longrightarrow> binomial_tail u (nat n) p < 1 - c)"
proof -
  let ?ok = "\<lambda>p. 1 - c \<le> binomial_tail u (nat n) p"
  let ?lh = "(bisect ?ok ^^ 200) (0, 1)"
  have "bracket ?ok 0 (0, 1)"
    using assms binomial_tail_at_0 [of u "nat n"] binomial_tail_at_1 [of u "nat n"] by (simp add: bracket_def)
  from bracket_iterate [OF this, of 200] have b: "bracket ?ok 200 ?lh" .
  have lo: "max_effect_excluded n u c = fst ?lh" using assms by (simp add: max_effect_excluded_def)
  from b have hi: "snd ?lh = fst ?lh + 1 / 2 ^ 200" "0 \<le> fst ?lh" "snd ?lh \<le> 1" "?ok (fst ?lh)" "\<not> ?ok (snd ?lh)"
    by (auto simp: bracket_def)
  have "binomial_tail u (nat n) p < 1 - c" if "snd ?lh \<le> p" "p \<le> 1" for p
  proof -
    have "0 \<le> snd ?lh" using hi(1,2) by simp
    with that assms(1) tail_sum_antimono [of "snd ?lh" p "Suc (nat u)" "nat n"]
    have "binomial_tail u (nat n) p \<le> binomial_tail u (nat n) (snd ?lh)" by (simp add: binomial_tail_sum)
    with hi(5) show ?thesis by simp
  qed
  then have "\<forall>p. fst ?lh + 1 / 2 ^ 200 \<le> p \<and> p \<le> 1 \<longrightarrow> binomial_tail u (nat n) p < 1 - c"
    unfolding hi(1) [symmetric] by blast
  moreover have "fst ?lh < 1"
  proof -
    have "(0::real) < 1 / 2 ^ 200" by simp
    with hi(1,3) show ?thesis by linarith
  qed
  ultimately show ?thesis unfolding lo using hi(2,4) by blast
qed

theorem exclusion_bound_bisects_witness:
  "1 - 95/100 \<le> binomial_tail 0 7 (max_effect_excluded 7 0 (95/100)) \<and> max_effect_excluded 7 0 (95/100) < 1"
  using exclusion_bound_bisects [of 0 7 "95/100"] by simp

section \<open>Required pairs\<close>

lemma upper_tail_1: "0 \<le> t \<Longrightarrow> t \<le> 1 \<Longrightarrow> upper_tail 1 n t = 1 - (1 - t) ^ n"
  by (simp add: upper_tail_def binomial_tail_zero)

lemma search_pairs_spec:
  "n \<le> search_pairs t pw n \<and>
   (\<forall>m. n \<le> m \<and> m < search_pairs t pw n \<longrightarrow> upper_tail 1 m t < pw) \<and>
   (search_pairs t pw n \<le> PAIR_GUARD \<longrightarrow> pw \<le> upper_tail 1 (search_pairs t pw n) t) \<and>
   (n \<le> PAIR_GUARD \<longrightarrow> search_pairs t pw n \<le> Suc PAIR_GUARD)"
proof (induction t pw n rule: search_pairs.induct)
  case (1 t pw n)
  note unfold = search_pairs.simps [of t pw n]
  show ?case
  proof (cases "upper_tail 1 n t < pw")
    case False
    then show ?thesis using unfold by simp
  next
    case less: True
    show ?thesis
    proof (cases "PAIR_GUARD < Suc n")
      case True
      then have "search_pairs t pw n = Suc n" using unfold less by simp
      with True less show ?thesis by (auto simp: less_Suc_eq)
    next
      case False
      then have eq: "search_pairs t pw n = search_pairs t pw (Suc n)" using unfold less by simp
      have "upper_tail 1 m t < pw" if "n \<le> m" "m < search_pairs t pw (Suc n)" for m
        using "1.IH" [OF less False] that less by (cases "m = n") auto
      then show ?thesis unfolding eq using "1.IH" [OF less False] False by auto
    qed
  qed
qed

text \<open>
  the required sample size is minimal. When the arguments are accepted, every smaller positive
  number of effective pairs misses the power, the returned one reaches it (unless the search gave
  up past 100000), and the total is the least number of pairs whose expected hits reach it. The
  arguments are refused exactly outside their ranges.
\<close>

theorem required_pairs_minimal:
  "(\<exists>r. required_pairs t hit pw alpha = Inr r) = (0 < t \<and> t \<le> 1 \<and> 0 < hit \<and> hit \<le> 1 \<and> 0 < pw \<and> pw < 1) \<and>
   (\<forall>r. required_pairs t hit pw alpha = Inr r \<longrightarrow>
      1 \<le> rp_effective r \<and> rp_effective r \<le> Suc PAIR_GUARD \<and>
      (\<forall>m. 1 \<le> m \<and> m < rp_effective r \<longrightarrow> 1 - (1 - t) ^ m < pw) \<and>
      (rp_effective r \<le> PAIR_GUARD \<longrightarrow> pw \<le> 1 - (1 - t) ^ rp_effective r) \<and>
      real (rp_effective r) \<le> of_int (rp_total r) * hit \<and> of_int (rp_total r - 1) * hit < real (rp_effective r))"
proof (intro conjI allI impI)
  show "(\<exists>r. required_pairs t hit pw alpha = Inr r) = (0 < t \<and> t \<le> 1 \<and> 0 < hit \<and> hit \<le> 1 \<and> 0 < pw \<and> pw < 1)"
    by (auto simp: required_pairs_def Let_def)
  fix r
  assume "required_pairs t hit pw alpha = Inr r"
  then have r: "rp_effective r = search_pairs t pw 1" "rp_total r = \<lceil>real (search_pairs t pw 1) / hit\<rceil>"
    and ranges: "0 < t" "t \<le> 1" "0 < hit"
    by (auto simp: required_pairs_def Let_def split: if_splits)
  note spec = search_pairs_spec [of 1 t pw]
  show "1 \<le> rp_effective r" "rp_effective r \<le> Suc PAIR_GUARD"
    using spec by (simp_all add: r PAIR_GUARD_def)
  show "1 - (1 - t) ^ m < pw" if "1 \<le> m \<and> m < rp_effective r" for m
    using spec that ranges by (auto simp: r upper_tail_1 [symmetric])
  show "pw \<le> 1 - (1 - t) ^ rp_effective r" if "rp_effective r \<le> PAIR_GUARD"
    using spec that ranges by (simp add: r upper_tail_1)
  show "real (rp_effective r) \<le> of_int (rp_total r) * hit"
    using ranges le_of_int_ceiling [of "real (search_pairs t pw 1) / hit"]
    by (simp only: r pos_divide_le_eq)
  show "of_int (rp_total r - 1) * hit < real (rp_effective r)"
    using ranges conjunct1 [OF ceiling_correct [of "real (search_pairs t pw 1) / hit"]]
    by (simp only: r pos_less_divide_eq of_int_diff of_int_1)
qed

theorem required_pairs_minimal_witness:
  "\<exists>r. required_pairs (1/2) (1/2) (8/10) (5/100) = Inr r \<and> 1 \<le> rp_effective r"
  using required_pairs_minimal [of "1/2" "1/2" "8/10" "5/100"] by auto

section \<open>Futility\<close>

lemma checkpoints_facts:
  "map fst (checkpoints_from t alpha prev ks) = ks \<and>
   sorted (prev # map snd (checkpoints_from t alpha prev ks))"
proof (induction t alpha prev ks rule: checkpoints_from.induct)
  case (2 t alpha prev k ks)
  let ?b = "max (boundary_from t alpha k (- 1) [0..<Suc k]) prev"
  from "2.IH" [OF refl] show ?case by (auto simp: Let_def)
qed simp

lemma futility_facts:
  "map fst (futility_boundary n t alpha) = [1..<Suc (nat n)] \<and>
   sorted (0 # map snd (futility_boundary n t alpha))"
proof (cases "n \<le> 0")
  case True
  then show ?thesis by (simp add: futility_boundary_def)
next
  case False
  then show ?thesis
    using checkpoints_facts [of t alpha 0 "[1..<Suc (nat n)]"] by (simp add: futility_boundary_def)
qed

lemma futility_status_zero:
  assumes "1 \<le> n_pairs" "int n_pairs \<le> n"
  shows "futility_status (futility_boundary n t alpha) n_pairs 0 = ''futility_boundary_crossed''"
proof -
  let ?cs = "futility_boundary n t alpha"
  have "n_pairs \<in> set (map fst ?cs)" using futility_facts [of n t alpha] assms by auto
  then have "find (\<lambda>c. fst c = n_pairs) ?cs \<noteq> None" by (auto simp: find_None_iff)
  then obtain c where c: "find (\<lambda>c. fst c = n_pairs) ?cs = Some c" by blast
  then have "c \<in> set ?cs" by (auto dest: find_Some_mem)
  with futility_facts [of n t alpha] have "0 \<le> snd c" by auto
  with c show ?thesis by (simp add: futility_status_def)
qed

text \<open>
  a report without uplift says futile whatever was observed. Because the boundary starts
  from 0 and not below it, every checkpoint declares futility at zero uplifts, whatever the target
  rate, the power and the number of completed pairs; and a report without uplift or harm says
  underpowered even when its own \<open>powered\<close> flag is set.
\<close>

theorem zero_uplift_always_futile:
  assumes "build_power_report n_pairs 0 n_harm hit t pw alpha = Inr rep" "1 \<le> n_pairs"
  shows "pr_futility_status rep = ''futility_boundary_crossed'' \<and>
    (n_harm = 0 \<longrightarrow> pr_decision rep = ''power_analysis_ready_underpowered_for_target_effect'') \<and>
    (pr_powered rep \<longleftrightarrow> pr_minimum_pairs rep \<le> int n_pairs)"
  using assms futility_status_zero [of n_pairs]
  by (auto simp: build_power_report_def Let_def power_decision_def split: sum.splits)

theorem zero_uplift_always_futile_witness:
  "\<exists>rep. build_power_report 1 0 0 1 (1/100) (8/10) (5/100) = Inr rep \<and>
     pr_futility_status rep = ''futility_boundary_crossed''"
proof -
  have "\<exists>rep. build_power_report 1 0 0 1 (1/100) (8/10) (5/100) = Inr rep"
    by (simp add: build_power_report_def exact_binomial_tail_def required_pairs_def Let_def)
  then obtain rep where "build_power_report 1 0 0 1 (1/100) (8/10) (5/100) = Inr rep" by blast
  with zero_uplift_always_futile [OF this] show ?thesis by auto
qed

end
