(* ===== verification/Clinic_Json.thy ===== *)
theory Clinic_Json
  imports Json_Canon
begin

text \<open>
  Untyped JSON payloads as the clinic package handles them: \<open>d.get(k)\<close>, truthiness, \<open>x or y\<close>,
  \<open>str(v)\<close>, iteration over an arbitrary value, and
  \<open>packages/clinic/src/wutai_clinic/intervention/hooks.py: stable_json_hash\<close>, the compact
  ASCII serialisation whose SHA-256 names a protocol. \<open>repr\<close> of a list or dictionary and
  SHA-256 are parameters.
\<close>

section \<open>Sequencing\<close>

text \<open>Python statements that may raise, one after the other.\<close>

fun and_then :: "'e + 'a \<Rightarrow> ('a \<Rightarrow> 'e + 'b) \<Rightarrow> 'e + 'b" where
  "and_then (Inl e) f = Inl e"
| "and_then (Inr a) f = f a"

lemma and_then_eq_Inr: "and_then x f = Inr b \<longleftrightarrow> (\<exists>a. x = Inr a \<and> f a = Inr b)"
  by (cases x) auto

lemma and_then_InrE:
  assumes "and_then x f = Inr b"
  obtains a where "x = Inr a" "f a = Inr b"
  using assms by (auto simp: and_then_eq_Inr)

text \<open>\<open>if cond: raise e\<close>\<close>

definition raise_if :: "bool \<Rightarrow> 'e \<Rightarrow> 'e + unit" where
  "raise_if c e = (if c then Inl e else Inr ())"

lemma raise_if_eq_Inr [simp]: "raise_if c e = Inr u \<longleftrightarrow> \<not> c"
  by (simp add: raise_if_def)

lemma raise_if_simps [simp]: "raise_if True e = Inl e" "raise_if False e = Inr ()"
  by (simp_all add: raise_if_def)

section \<open>Untyped values\<close>

fun json_truthy :: "json \<Rightarrow> bool" where
  "json_truthy JNull = False"
| "json_truthy (JBool b) = b"
| "json_truthy (JInt i) = (i \<noteq> 0)"
| "json_truthy (JStr s) = (s \<noteq> [])"
| "json_truthy (JList xs) = (xs \<noteq> [])"
| "json_truthy (JObj kvs) = (kvs \<noteq> [])"

definition json_or :: "json \<Rightarrow> json \<Rightarrow> json" where
  "json_or a b = (if json_truthy a then a else b)"

text \<open>\<open>d.get(k, default)\<close>; anything but a dictionary has no \<open>get\<close>.\<close>

definition json_get_default :: "json \<Rightarrow> string \<Rightarrow> json \<Rightarrow> pyexn + json" where
  "json_get_default j k dflt =
     (case j of
        JObj kvs \<Rightarrow> Inr (case map_of kvs k of Some v \<Rightarrow> v | None \<Rightarrow> dflt)
      | _ \<Rightarrow> Inl (AttributeErr ''get''))"

abbreviation json_get :: "json \<Rightarrow> string \<Rightarrow> pyexn + json" where
  "json_get j k \<equiv> json_get_default j k JNull"

text \<open>\<open>d.get(k, default)\<close> and \<open>d[k]\<close> of a dictionary.\<close>

definition get_default :: "json pydict \<Rightarrow> string \<Rightarrow> json \<Rightarrow> json" where
  "get_default d k dflt = (case dict_get d k of Some v \<Rightarrow> v | None \<Rightarrow> dflt)"

definition get_item :: "json pydict \<Rightarrow> string \<Rightarrow> pyexn + json" where
  "get_item d k = (case dict_get d k of Some v \<Rightarrow> Inr v | None \<Rightarrow> Inl (KeyError k))"

text \<open>\<open>str(v)\<close>; \<open>rp\<close> is \<open>repr\<close> on containers.\<close>

fun json_text :: "(json \<Rightarrow> string) \<Rightarrow> json \<Rightarrow> string" where
  "json_text rp JNull = ''None''"
| "json_text rp (JBool b) = (if b then ''True'' else ''False'')"
| "json_text rp (JInt i) = show_int i"
| "json_text rp (JStr s) = s"
| "json_text rp (JList xs) = rp (JList xs)"
| "json_text rp (JObj kvs) = rp (JObj kvs)"

text \<open>The code points of a string, each as the string of its bytes.\<close>

fun py_chars_from :: "string \<Rightarrow> string \<Rightarrow> string list" where
  "py_chars_from acc [] = (if acc = [] then [] else [rev acc])"
| "py_chars_from acc (c # cs) =
     (if utf8_cont c \<or> acc = [] then py_chars_from (c # acc) cs
      else rev acc # py_chars_from [c] cs)"

lemma json_tree_induct [case_names JNull JBool JInt JStr JList JObj]:
  assumes "P JNull" "\<And>b. P (JBool b)" "\<And>i. P (JInt i)" "\<And>s. P (JStr s)"
    and "\<And>xs. (\<And>x. x \<in> set xs \<Longrightarrow> P x) \<Longrightarrow> P (JList xs)"
    and "\<And>kvs. (\<And>k v. (k, v) \<in> set kvs \<Longrightarrow> P v) \<Longrightarrow> P (JObj kvs)"
  shows "P j"
proof (induction j)
  case (JObj kvs)
  then have "P v" if "(k, v) \<in> set kvs" for k v using that by (force simp: prod_set_simps)
  then show ?case by (rule assms(6))
qed (use assms in auto)

text \<open>\<open>for item in v\<close>: the elements of a list, the keys of a dictionary, the characters of a
  string; other values are not iterable.\<close>

fun json_iter :: "json \<Rightarrow> pyexn + json list" where
  "json_iter (JList xs) = Inr xs"
| "json_iter (JObj kvs) = Inr (map (JStr \<circ> fst) kvs)"
| "json_iter (JStr s) = Inr (map JStr (py_chars_from [] s))"
| "json_iter _ = Inl (TypeErr ''object is not iterable'')"

lemma json_get_obj [simp]:
  "json_get_default (JObj kvs) k d = Inr (case map_of kvs k of Some v \<Rightarrow> v | None \<Rightarrow> d)"
  by (simp add: json_get_default_def)

lemma json_or_text [simp]: "s \<noteq> [] \<Longrightarrow> json_or (JStr s) d = JStr s"
  by (simp add: json_or_def)

lemma json_or_list [simp]: "xs \<noteq> [] \<Longrightarrow> json_or (JList xs) d = JList xs"
  by (simp add: json_or_def)

lemma json_or_obj [simp]: "kvs \<noteq> [] \<Longrightarrow> json_or (JObj kvs) d = JObj kvs"
  by (simp add: json_or_def)

lemma json_or_null [simp]: "json_or JNull d = d"
  by (simp add: json_or_def)

lemma dict_set_fresh: "k \<notin> fst ` set d \<Longrightarrow> dict_set k v d = d @ [(k, v)]"
  by (induction d) (auto simp: dict_set_def)

lemma dict_sets_fresh:
  "distinct (map fst acc @ map name xs) \<Longrightarrow>
     foldl (\<lambda>d x. dict_set (name x) (val x) d) acc xs = acc @ map (\<lambda>x. (name x, val x)) xs"
proof (induction xs arbitrary: acc)
  case (Cons x xs)
  have "dict_set (name x) (val x) acc = acc @ [(name x, val x)]" using Cons.prems by (intro dict_set_fresh) auto
  with Cons.IH [of "acc @ [(name x, val x)]"] Cons.prems show ?case by simp
qed simp

section \<open>Hashing\<close>

text \<open>The code points of a UTF-8 string.\<close>

fun code_points :: "string \<Rightarrow> nat list" where
  "code_points [] = []"
| "code_points (c # cs) =
     (let n = char_code c; d = (\<lambda>i. char_code (cs ! i) - 128) in
      if n < 128 then n # code_points cs
      else if n < 224 then ((n - 192) * 64 + d 0) # code_points (drop 1 cs)
      else if n < 240 then ((n - 224) * 4096 + d 0 * 64 + d 1) # code_points (drop 2 cs)
      else ((n - 240) * 262144 + d 0 * 4096 + d 1 * 64 + d 2) # code_points (drop 3 cs))"

definition u_escape :: "nat \<Rightarrow> string" where
  "u_escape n = [CHR 0x5C, CHR ''u'', hex_char (n div 4096 mod 16), hex_char (n div 256 mod 16),
     hex_char (n div 16 mod 16), hex_char (n mod 16)]"

text \<open>\<open>ensure_ascii=True\<close>: everything outside the printable ASCII range is escaped, beyond the
  basic plane as a surrogate pair.\<close>

definition json_ascii_point :: "nat \<Rightarrow> string" where
  "json_ascii_point n =
     (if n < 127 then json_esc (char_of n)
      else if n < 65536 then u_escape n
      else u_escape (55296 + (n - 65536) div 1024) @ u_escape (56320 + (n - 65536) mod 1024))"

definition json_ascii_str :: "string \<Rightarrow> string" where
  "json_ascii_str s = CHR 0x22 # concat (map json_ascii_point (code_points s)) @ [CHR 0x22]"

text \<open>\<open>json.dumps(v, separators=(",", ":"))\<close>\<close>

fun json_compact :: "json \<Rightarrow> string" where
  "json_compact JNull = ''null''"
| "json_compact (JBool b) = (if b then ''true'' else ''false'')"
| "json_compact (JInt i) = show_int i"
| "json_compact (JStr s) = json_ascii_str s"
| "json_compact (JList xs) = CHR ''['' # join '','' (map json_compact xs) @ '']''"
| "json_compact (JObj kvs) =
     CHR ''{'' # join '','' (map (\<lambda>(k, v). json_ascii_str k @ '':'' @ json_compact v) kvs) @ ''}''"

definition stable_json_hash :: "(string \<Rightarrow> string) \<Rightarrow> json \<Rightarrow> string" where
  "stable_json_hash h v = h (json_compact (sort_keys v))"

section \<open>Forbidden keys\<close>

text \<open>
  \<open>_find_disallowed_keys\<close> of the two protocol modules: the paths of all dictionary keys, at any
  depth, whose lower-case spelling is forbidden. The recursion of the source over the children is
  written as a function of the path.
\<close>

definition executable_keys :: "string list" where
  "executable_keys = [''callable'', ''code'', ''exec'', ''function'', ''lambda'', ''python'', ''script'']"

definition child_path :: "string \<Rightarrow> string \<Rightarrow> string" where
  "child_path path k = (if path = [] then k else path @ ''.'' @ k)"

fun find_disallowed_keys :: "json \<Rightarrow> string \<Rightarrow> string list" where
  "find_disallowed_keys (JObj kvs) path =
     concat (map (\<lambda>(k, f). (if lower k \<in> set executable_keys then [child_path path k] else []) @ f (child_path path k))
       (map (\<lambda>(k, v). (k, find_disallowed_keys v)) kvs))"
| "find_disallowed_keys (JList xs) path =
     concat (map (\<lambda>(i, f). f (path @ ''['' @ show_nat i @ '']'')) (enum (map find_disallowed_keys xs)))"
| "find_disallowed_keys _ path = []"

text \<open>A key at some depth of a value.\<close>

inductive key_inside :: "string \<Rightarrow> json \<Rightarrow> bool" where
  key_here: "(k, v) \<in> set kvs \<Longrightarrow> key_inside k (JObj kvs)"
| key_in_child: "(k', v) \<in> set kvs \<Longrightarrow> key_inside k v \<Longrightarrow> key_inside k (JObj kvs)"
| key_in_element: "x \<in> set xs \<Longrightarrow> key_inside k x \<Longrightarrow> key_inside k (JList xs)"

inductive_simps key_inside_simps [simp]:
  "key_inside k JNull" "key_inside k (JBool b)" "key_inside k (JInt i)" "key_inside k (JStr s)"
  "key_inside k (JList xs)" "key_inside k (JObj kvs)"

lemma set_enum_snd: "snd ` set (enum xs) = set xs"
  unfolding enum_def set_zip by (force simp: set_conv_nth)

lemma enum_map: "enum (map g xs) = map (\<lambda>(i, x). (i, g x)) (enum xs)"
  by (simp add: enum_def zip_map2)

text \<open>A search over the children of a list finds nothing iff it finds nothing in any child.\<close>

lemma enum_children_Nil:
  assumes "\<And>i x. x \<in> set xs \<Longrightarrow> g x (path i) = [] \<longleftrightarrow> P x"
  shows "concat (map (\<lambda>(i, f). f (path i)) (enum (map g xs))) = [] \<longleftrightarrow> (\<forall>x \<in> set xs. P x)"
proof -
  have "concat (map (\<lambda>(i, f). f (path i)) (enum (map g xs))) = [] \<longleftrightarrow> (\<forall>ix \<in> set (enum xs). g (snd ix) (path (fst ix)) = [])"
    by (auto simp: enum_map)
  also have "\<dots> \<longleftrightarrow> (\<forall>ix \<in> set (enum xs). P (snd ix))"
    using assms set_enum_snd [of xs] by (metis image_eqI)
  also have "\<dots> \<longleftrightarrow> (\<forall>x \<in> snd ` set (enum xs). P x)" by simp
  finally show ?thesis by (simp add: set_enum_snd)
qed

lemma disallowed_iff: "find_disallowed_keys j path = [] \<longleftrightarrow> (\<forall>k. key_inside k j \<longrightarrow> lower k \<notin> set executable_keys)"
proof (induction j arbitrary: path)
  case (JList xs)
  show ?case
    unfolding find_disallowed_keys.simps
    by (subst enum_children_Nil [where P = "\<lambda>x. \<forall>k. key_inside k x \<longrightarrow> lower k \<notin> set executable_keys"])
      (auto simp: JList.IH)
next
  case (JObj kvs)
  then show ?case by (auto 0 4 split: if_splits)
qed auto

section \<open>Forbidden words\<close>

definition mentions :: "string list \<Rightarrow> string \<Rightarrow> bool" where
  "mentions tokens s \<longleftrightarrow> list_ex (\<lambda>t. contains t (lower s)) tokens"

text \<open>
  The search of the protocol modules for words that may not appear in any text of a value, at any depth;
  keys are not searched.
\<close>

fun find_terms :: "string list \<Rightarrow> json \<Rightarrow> string \<Rightarrow> string list" where
  "find_terms terms (JObj kvs) path =
     concat (map (\<lambda>(k, f). f (child_path path k)) (map (\<lambda>(k, v). (k, find_terms terms v)) kvs))"
| "find_terms terms (JList xs) path =
     concat (map (\<lambda>(i, f). f (path @ ''['' @ show_nat i @ '']'')) (enum (map (find_terms terms) xs)))"
| "find_terms terms (JStr s) path =
     map (\<lambda>term. path @ '':'' @ term) (filter (\<lambda>term. contains term (lower s)) terms)"
| "find_terms terms _ path = []"

text \<open>A string at some depth of a value; keys are not values.\<close>

inductive text_inside :: "string \<Rightarrow> json \<Rightarrow> bool" where
  text_here: "text_inside s (JStr s)"
| text_in_value: "(k, v) \<in> set kvs \<Longrightarrow> text_inside s v \<Longrightarrow> text_inside s (JObj kvs)"
| text_in_element: "x \<in> set xs \<Longrightarrow> text_inside s x \<Longrightarrow> text_inside s (JList xs)"

inductive_simps text_inside_simps:
  "text_inside s JNull" "text_inside s (JBool b)" "text_inside s (JInt i)" "text_inside s (JStr t)"
  "text_inside s (JList xs)" "text_inside s (JObj kvs)"

declare text_inside_simps(1-5) [simp]

lemma text_inside_JObj [simp]:
  "\<not> text_inside s (JObj [])"
  "text_inside s (JObj ((k, v) # kvs)) \<longleftrightarrow> text_inside s v \<or> text_inside s (JObj kvs)"
  by (auto simp: text_inside_simps(6))

lemma find_terms_Nil: "find_terms terms j path = [] \<longleftrightarrow> (\<forall>s. text_inside s j \<longrightarrow> \<not> mentions terms s)"
proof (induction j arbitrary: path rule: json_tree_induct)
  case (JList xs)
  show ?case
    unfolding find_terms.simps
    by (subst enum_children_Nil [where P = "\<lambda>x. \<forall>s. text_inside s x \<longrightarrow> \<not> mentions terms s"]) (auto simp: JList.IH)
next
  case (JObj kvs)
  then show ?case by (auto 0 4 simp: text_inside_simps(6))
next
  case (JStr s)
  then show ?case by (simp add: mentions_def filter_empty_conv list_ex_iff)
qed auto

lemma find_terms_texts: "find_terms terms (JList (map JStr xs)) path = [] \<longleftrightarrow> \<not> list_ex (mentions terms) xs"
  unfolding find_terms_Nil by (auto simp: list_ex_iff)

section \<open>Integers\<close>

text \<open>\<open>int(v)\<close>; \<open>ri\<close> is Python's parser of integer texts, \<open>None\<close> where it raises.\<close>

definition json_int :: "(string \<Rightarrow> int option) \<Rightarrow> json \<Rightarrow> pyexn + int" where
  "json_int ri v =
     (case v of
        JInt i \<Rightarrow> Inr i
      | JBool b \<Rightarrow> Inr (if b then 1 else 0)
      | JStr s \<Rightarrow> (case ri s of Some i \<Rightarrow> Inr i | None \<Rightarrow> Inl (ValueErr ''invalid literal for int()''))
      | _ \<Rightarrow> Inl (TypeErr ''int() argument''))"

end
