(* ===== verification/Pair_State.thy ===== *)
theory Pair_State
  imports Clinic_Json
begin

text \<open>
  State inference of the batch orchestrator,
  \<open>packages/clinic/src/wutai_clinic/orchestration/state_inference.py\<close>: the state of a pair is a
  function of the report files on disk and of nothing else.

  A path is the list of its components, an absolute one starting with the empty component; a source
  task id is one component. A file is what parsing it gives: a JSON value, or \<open>Garbled\<close> when reading or
  parsing raises.
\<close>

section \<open>Model\<close>

type_synonym path = "string list"

datatype report_file = Parsed json | Garbled

record disk =
  dk_file :: "path \<Rightarrow> report_file option"
  dk_dir :: "path \<Rightarrow> bool"

definition is_file :: "disk \<Rightarrow> path \<Rightarrow> bool" where
  "is_file d p \<longleftrightarrow> dk_file d p \<noteq> None"

definition STATES :: "string list" where
  "STATES = [''pending'', ''preflight_ready'', ''awaiting_control_authorization'', ''control_complete'',
     ''awaiting_treatment_authorization'', ''treatment_complete'', ''pair_assembled'',
     ''awaiting_official_eval_authorization'', ''official_eval_complete'']"

definition FAILURE_STATES :: "string list" where
  "FAILURE_STATES = [''failed_preflight'', ''failed_control'', ''failed_treatment'', ''failed_pair_assembly'',
     ''failed_official_eval'']"

definition load_json :: "disk \<Rightarrow> path \<Rightarrow> json" where
  "load_json d p = (case dk_file d p of Some (Parsed j) \<Rightarrow> j | _ \<Rightarrow> JObj [])"

definition official_eval_report :: "path \<Rightarrow> string \<Rightarrow> path" where
  "official_eval_report ev sid = ev @ [''protocol_v2_official_eval'', sid, ''protocol_v2_official_eval_report.json'']"

definition pair_report :: "path \<Rightarrow> string \<Rightarrow> path" where
  "pair_report ev sid = ev @ [''protocol_v2_live_pair'', sid, ''protocol_v2_live_pair_report.json'']"

definition live_single_report :: "disk \<Rightarrow> path \<Rightarrow> string \<Rightarrow> string \<Rightarrow> path" where
  "live_single_report d ev sid arm =
     (let candidates =
        [ev @ [''protocol_v2_live_single_executed'', sid, arm, ''protocol_v2_live_single_report.json''],
         ev @ [''protocol_v2_live_pair'', sid, arm, ''protocol_v2_live_single_report.json'']]
      in case find (is_file d) candidates of Some p \<Rightarrow> p | None \<Rightarrow> candidates ! 0)"

definition preflight_report :: "path \<Rightarrow> string \<Rightarrow> path" where
  "preflight_report ev sid =
     ev @ [''protocol_v2_planned_preflight'', sid, ''protocol_v2_planned_preflight_report.json'']"

text \<open>\<open>r.get(k) == v\<close> and \<open>r.get(k) is True\<close>\<close>

definition field_is :: "json \<Rightarrow> string \<Rightarrow> json \<Rightarrow> pyexn + bool" where
  "field_is r k v = and_then (json_get r k) (\<lambda>x. Inr (x = v))"

text \<open>\<open>a and b\<close>, \<open>a or b\<close> over conditions that may raise.\<close>

definition and_also :: "'e + bool \<Rightarrow> 'e + bool \<Rightarrow> 'e + bool" where
  "and_also a b = and_then a (\<lambda>x. if x then b else Inr False)"

definition or_else :: "'e + bool \<Rightarrow> 'e + bool \<Rightarrow> 'e + bool" where
  "or_else a b = and_then a (\<lambda>x. if x then Inr True else b)"

definition arm_complete :: "json \<Rightarrow> string \<Rightarrow> pyexn + bool" where
  "arm_complete r arm =
     and_also (field_is r ''decision'' (JStr ''protocol_v2_live_single_run_completed''))
       (and_also (field_is r ''passed'' (JBool True)) (field_is r ''arm_type'' (JStr arm)))"

definition official_eval_state :: "json \<Rightarrow> pyexn + string" where
  "official_eval_state r =
     and_then (or_else (field_is r ''official_eval_completed'' (JBool True)) (field_is r ''passed'' (JBool True)))
       (\<lambda>ok. Inr (if ok then ''official_eval_complete'' else ''failed_official_eval''))"

definition pair_report_state :: "json \<Rightarrow> pyexn + string" where
  "pair_report_state r =
     and_then (and_also (field_is r ''decision'' (JStr ''protocol_v2_live_pair_ready_pending_official_eval''))
       (field_is r ''passed'' (JBool True))) (\<lambda>ready.
     if ready then Inr ''awaiting_official_eval_authorization''
     else and_then (field_is r ''decision'' (JStr ''protocol_v2_live_pair_outcome_label_ready'')) (\<lambda>labelled.
     if labelled then Inr ''awaiting_official_eval_authorization''
     else and_then (field_is r ''decision'' (JStr ''protocol_v2_live_pair_blocked'')) (\<lambda>blocked.
     Inr (if blocked then ''failed_pair_assembly'' else ''pair_assembled''))))"

definition preflight_state :: "json \<Rightarrow> pyexn + string" where
  "preflight_state r =
     and_then (and_also (field_is r ''decision''
         (JStr ''protocol_v2_planned_preflight_ready_live_execution_not_authorized''))
       (field_is r ''passed'' (JBool True))) (\<lambda>ready.
     if ready then Inr ''awaiting_control_authorization''
     else and_then (field_is r ''passed'' (JBool True)) (\<lambda>passed.
     Inr (if passed then ''preflight_ready'' else ''failed_preflight'')))"

definition infer_pair_state :: "disk \<Rightarrow> path \<Rightarrow> string \<Rightarrow> pyexn + string" where
  "infer_pair_state d ev sid =
     (let oe = official_eval_report ev sid; pr = pair_report ev sid;
          tr = live_single_report d ev sid ''treatment''; cr = live_single_report d ev sid ''control'';
          pf = preflight_report ev sid in
      if is_file d oe then official_eval_state (load_json d oe)
      else if is_file d pr then pair_report_state (load_json d pr)
      else if is_file d tr then
        and_then (arm_complete (load_json d tr) ''treatment'')
          (\<lambda>ok. Inr (if ok then ''treatment_complete'' else ''failed_treatment''))
      else if is_file d cr then
        and_then (arm_complete (load_json d cr) ''control'')
          (\<lambda>ok. Inr (if ok then ''awaiting_treatment_authorization'' else ''failed_control''))
      else if is_file d pf then preflight_state (load_json d pf)
      else Inr ''pending'')"

section \<open>The stage a state belongs to\<close>

text \<open>How far the reports on disk have come.\<close>

definition disk_stage :: "disk \<Rightarrow> path \<Rightarrow> string \<Rightarrow> nat" where
  "disk_stage d ev sid =
     (if is_file d (official_eval_report ev sid) then 5
      else if is_file d (pair_report ev sid) then 4
      else if is_file d (live_single_report d ev sid ''treatment'') then 3
      else if is_file d (live_single_report d ev sid ''control'') then 2
      else if is_file d (preflight_report ev sid) then 1
      else 0)"

definition stage_states :: "nat \<Rightarrow> string list" where
  "stage_states n =
     (if n = 5 then [''official_eval_complete'', ''failed_official_eval'']
      else if n = 4 then [''awaiting_official_eval_authorization'', ''failed_pair_assembly'', ''pair_assembled'']
      else if n = 3 then [''treatment_complete'', ''failed_treatment'']
      else if n = 2 then [''awaiting_treatment_authorization'', ''failed_control'']
      else if n = 1 then [''awaiting_control_authorization'', ''preflight_ready'', ''failed_preflight'']
      else [''pending''])"

text \<open>Every report that parses is a dictionary.\<close>

definition reports_are_dicts :: "disk \<Rightarrow> bool" where
  "reports_are_dicts d \<longleftrightarrow> (\<forall>p j. dk_file d p = Some (Parsed j) \<longrightarrow> (\<exists>kvs. j = JObj kvs))"

lemma load_json_dict: "reports_are_dicts d \<Longrightarrow> \<exists>kvs. load_json d p = JObj kvs"
  by (auto simp: load_json_def reports_are_dicts_def split: option.splits report_file.splits)

lemma field_is_obj [simp]: "field_is (JObj kvs) k v = Inr ((case map_of kvs k of Some x \<Rightarrow> x | None \<Rightarrow> JNull) = v)"
  by (simp add: field_is_def)

lemma and_also_Inr [simp]: "and_also (Inr a) (Inr b) = Inr (a \<and> b)" "or_else (Inr a) (Inr b) = Inr (a \<or> b)"
  by (simp_all add: and_also_def or_else_def)

lemma report_states:
  "\<exists>s \<in> set (stage_states 5). official_eval_state (JObj kvs) = Inr s"
  "\<exists>s \<in> set (stage_states 4). pair_report_state (JObj kvs) = Inr s"
  "\<exists>s \<in> set (stage_states 1). preflight_state (JObj kvs) = Inr s"
  "\<exists>b. arm_complete (JObj kvs) arm = Inr b"
  by (simp_all add: official_eval_state_def pair_report_state_def preflight_state_def arm_complete_def stage_states_def)

lemma infer_stage:
  assumes "reports_are_dicts d"
  shows "\<exists>s \<in> set (stage_states (disk_stage d ev sid)). infer_pair_state d ev sid = Inr s"
proof -
  obtain f where f: "load_json d p = JObj (f p)" for p using load_json_dict [OF assms] by metis
  obtain g where g: "arm_complete (JObj kvs) arm = Inr (g kvs arm)" for kvs arm
    using report_states(4) by metis
  show ?thesis
    using report_states(1-3) unfolding infer_pair_state_def disk_stage_def Let_def
    by (auto simp: f g stage_states_def [of 0] stage_states_def [of 3] stage_states_def [of 2]
        stage_states_def [of "Suc 0"] stage_states_def [of 1])
qed

text \<open>A disk with at least the reports of another is at least as far.\<close>

lemma stage_mono:
  assumes "\<And>p. is_file d p \<Longrightarrow> is_file d' p"
  shows "disk_stage d ev sid \<le> disk_stage d' ev sid"
proof -
  have "is_file d (live_single_report d ev sid arm) \<Longrightarrow> is_file d' (live_single_report d' ev sid arm)" for arm
    using assms by (auto simp: live_single_report_def Let_def split: if_splits)
  then show ?thesis using assms by (auto simp: disk_stage_def)
qed

text \<open>
  the state of a pair is its most advanced report. When every report on disk that parses is a dictionary,
  inference raises nothing, the state is one of the declared states and belongs to the stage of the most
  advanced report present; adding reports never moves a pair to an earlier stage.
\<close>

theorem state_is_most_advanced_report:
  assumes "reports_are_dicts d"
  shows "(\<exists>s. infer_pair_state d ev sid = Inr s \<and> s \<in> set (stage_states (disk_stage d ev sid)) \<and>
      s \<in> set (STATES @ FAILURE_STATES)) \<and>
    ((\<forall>p. is_file d p \<longrightarrow> is_file d' p) \<longrightarrow> disk_stage d ev sid \<le> disk_stage d' ev sid)"
proof -
  obtain s where s: "infer_pair_state d ev sid = Inr s" "s \<in> set (stage_states (disk_stage d ev sid))"
    using infer_stage [OF assms] by blast
  moreover have "set (stage_states n) \<subseteq> set (STATES @ FAILURE_STATES)" for n
    by (auto simp: stage_states_def STATES_def FAILURE_STATES_def)
  ultimately show ?thesis using stage_mono [of d d'] by blast
qed

definition empty_disk :: disk where
  "empty_disk = \<lparr>dk_file = (\<lambda>_. None), dk_dir = (\<lambda>_. False)\<rparr>"

definition put_file :: "path \<Rightarrow> report_file \<Rightarrow> disk \<Rightarrow> disk" where
  "put_file p a d = d\<lparr>dk_file := (dk_file d)(p := Some a)\<rparr>"

theorem state_is_most_advanced_report_witness:
  "\<exists>s. infer_pair_state (put_file (pair_report [''e''] ''t'') (Parsed (JObj [])) empty_disk) [''e''] ''t'' = Inr s \<and>
     s \<in> set (stage_states 4)"
proof -
  let ?d = "put_file (pair_report [''e''] ''t'') (Parsed (JObj [])) empty_disk"
  have "reports_are_dicts ?d" by (auto simp: reports_are_dicts_def put_file_def empty_disk_def split: if_splits)
  moreover have "disk_stage ?d [''e''] ''t'' = 4"
    by (simp add: disk_stage_def is_file_def put_file_def empty_disk_def official_eval_report_def pair_report_def)
  ultimately show ?thesis using state_is_most_advanced_report [of ?d "[''e'']" "''t''" ?d] by auto
qed

end
