(* ===== verification/Noise_Floor.thy ===== *)
theory Noise_Floor
  imports Power_Analysis Pair_State
begin

text \<open>
  The noise floor of reruns, \<open>packages/clinic/src/wutai_clinic/engine/epsilon.py\<close>: Wilson intervals for
  outcome flips and the power calculation above the floor. Floats are real numbers, as in
  \<open>Power_Analysis\<close>; the rerun reports are given in the order of their paths.
\<close>

section \<open>Model\<close>

text \<open>\<open>((c0 * x + c1) * x + c2) * ...\<close>\<close>

definition horner :: "real list \<Rightarrow> real \<Rightarrow> real" where
  "horner cs x = foldl (\<lambda>acc c. acc * x + c) 0 cs"

definition ACKLAM_A :: "real list" where
  "ACKLAM_A = [-39.69683028665376, 220.9460984245205, -275.9285104469687, 138.3577518672690,
     -30.66479806614716, 2.506628277459239]"

definition ACKLAM_B :: "real list" where
  "ACKLAM_B = [-54.47609879822406, 161.5858368580409, -155.6989798598866, 66.80131188771972, -13.28068155288572]"

definition ACKLAM_C :: "real list" where
  "ACKLAM_C = [-0.007784894002430293, -0.3223964580411365, -2.400758277161838, -2.549732539343734,
     4.374664141464968, 2.938163982698783]"

definition ACKLAM_D :: "real list" where
  "ACKLAM_D = [0.007784695709041462, 0.3224671290700398, 2.445134137142996, 3.754408661907416]"

definition normal_quantile :: "real \<Rightarrow> pyexn + real" where
  "normal_quantile p =
     (if \<not> (0 < p \<and> p < 1) then Inl (ValueErr ''p must be in (0, 1)'')
      else if p < 0.02425 then
        (let q = sqrt (- 2 * ln p) in Inr (horner ACKLAM_C q / (horner ACKLAM_D q * q + 1)))
      else if 1 - 0.02425 < p then
        (let q = sqrt (- 2 * ln (1 - p)) in Inr (- horner ACKLAM_C q / (horner ACKLAM_D q * q + 1)))
      else
        (let q = p - 0.5; r = q * q in Inr (horner ACKLAM_A r * q / (horner ACKLAM_B r * r + 1))))"

definition math_sqrt :: "real \<Rightarrow> pyexn + real" where
  "math_sqrt x = (if x < 0 then Inl (ValueErr ''math domain error'') else Inr (sqrt x))"

definition wilson_interval :: "int \<Rightarrow> int \<Rightarrow> real \<Rightarrow> pyexn + (real \<times> real)" where
  "wilson_interval successes n confidence =
     (if n \<le> 0 then Inr (0, 1)
      else and_then (normal_quantile (0.5 + confidence / 2)) (\<lambda>z.
        let m = real_of_int n; p_hat = real_of_int successes / m; denom = 1 + z * z / m;
            center = (p_hat + z * z / (2 * m)) / denom in
        and_then (math_sqrt (p_hat * (1 - p_hat) / m + z * z / (4 * m * m))) (\<lambda>root.
        let half = z / denom * root in Inr (max 0 (center - half), min 1 (center + half)))))"

record flip_estimate =
  fe_rerun_count :: nat
  fe_flip_count :: nat
  fe_reference :: bool
  fe_point :: "real option"
  fe_lower :: "real option"
  fe_upper :: "real option"
  fe_confidence :: real

definition flip_rate_estimate :: "bool list \<Rightarrow> bool \<Rightarrow> real \<Rightarrow> pyexn + flip_estimate" where
  "flip_rate_estimate outcomes reference confidence =
     (let n = length outcomes; flips = length (filter (\<lambda>x. x \<noteq> reference) outcomes) in
      and_then (wilson_interval (int flips) (int n) confidence) (\<lambda>(lower, upper).
      Inr \<lparr>fe_rerun_count = n, fe_flip_count = flips, fe_reference = reference,
        fe_point = (if n = 0 then None else Some (real flips / real n)),
        fe_lower = (if n = 0 then None else Some lower), fe_upper = (if n = 0 then None else Some upper),
        fe_confidence = confidence\<rparr>))"

definition effective_uplift_floor :: "real \<Rightarrow> pyexn + real" where
  "effective_uplift_floor eps = (if 0 \<le> eps \<and> eps \<le> 1 then Inr eps else Inl (ValueErr ''epsilon must be in [0, 1]''))"

record noise_pairs =
  np_decision :: string
  np_target :: real
  np_epsilon :: real
  np_floor :: real
  np_adjusted :: "real option"
  np_base :: "pairs_result option"

definition required_pairs_with_noise :: "real \<Rightarrow> real \<Rightarrow> real \<Rightarrow> real \<Rightarrow> real \<Rightarrow> pyexn + noise_pairs" where
  "required_pairs_with_noise target hit eps pw alpha =
     and_then (effective_uplift_floor eps) (\<lambda>fl.
     if target \<le> fl then Inr \<lparr>np_decision = ''target_below_noise_floor_unmeasurable'', np_target = target,
       np_epsilon = eps, np_floor = fl, np_adjusted = None, np_base = None\<rparr>
     else let adjusted = target - eps in
       and_then (required_pairs adjusted hit pw alpha) (\<lambda>base.
       Inr \<lparr>np_decision = ''required_pairs_noise_adjusted_ready'', np_target = target, np_epsilon = eps,
         np_floor = fl, np_adjusted = Some adjusted, np_base = Some base\<rparr>))"

text \<open>The loop over the report files; an unreadable one is skipped.\<close>

fun scan_rerun_outcomes :: "report_file list \<Rightarrow> string \<Rightarrow> pyexn + bool list" where
  "scan_rerun_outcomes [] iid = Inr []"
| "scan_rerun_outcomes (Garbled # rs) iid = scan_rerun_outcomes rs iid"
| "scan_rerun_outcomes (Parsed j # rs) iid =
     and_then (json_get j iid) (\<lambda>inst.
     and_then (scan_rerun_outcomes rs iid) (\<lambda>outs.
     Inr ((case inst of JObj kvs \<Rightarrow> (case map_of kvs ''resolved'' of Some v \<Rightarrow> [json_truthy v] | None \<Rightarrow> []) | _ \<Rightarrow> []) @ outs)))"

record epsilon_report =
  er_decision :: string
  er_estimates :: "flip_estimate pydict"
  er_pooled :: "flip_estimate option"
  er_consumption :: "noise_pairs option"
  er_outcomes_present :: bool

definition epsilon_evidence :: "flip_estimate pydict \<Rightarrow> real \<Rightarrow> real \<Rightarrow> pyexn + epsilon_report" where
  "epsilon_evidence estimates target hit =
     (let flips = sum_list (map (fe_flip_count \<circ> snd) estimates); reruns = sum_list (map (fe_rerun_count \<circ> snd) estimates) in
      and_then (flip_rate_estimate (replicate flips True @ replicate (reruns - flips) False) False 0.95) (\<lambda>pooled.
      and_then (if reruns = 0 then Inr None
          else (case fe_point pooled of None \<Rightarrow> Inr None
            | Some eps \<Rightarrow> and_then (required_pairs_with_noise target hit eps 0.8 0.05) (\<lambda>r. Inr (Some r)))) (\<lambda>consumption.
      Inr \<lparr>er_decision = (if 0 < reruns then ''epsilon_noise_floor_estimated'' else ''epsilon_blocked_no_rerun_outcomes''),
        er_estimates = estimates, er_pooled = (if reruns = 0 then None else Some pooled), er_consumption = consumption,
        er_outcomes_present = (0 < reruns)\<rparr>)))"

section \<open>The Wilson interval\<close>

text \<open>The quantile used at the default confidence is positive.\<close>

lemma quantile_975: "\<exists>z. normal_quantile (0.5 + 0.95 / 2) = Inr z \<and> 0 < z"
proof -
  have "normal_quantile (0.5 + 0.95 / 2) = Inr (1565713706127574936278201074 / 798848201913635967184059665)"
    by (simp add: normal_quantile_def horner_def ACKLAM_A_def ACKLAM_B_def Let_def)
  moreover have "0 < (1565713706127574936278201074 / 798848201913635967184059665 :: real)" by simp
  ultimately show ?thesis by blast
qed

text \<open>For a non-negative quantile the half width covers the distance from the centre to the observed rate.\<close>

lemma wilson_half:
  fixes p z m :: real
  assumes "0 \<le> p" "p \<le> 1" "0 \<le> z" "0 < m"
  shows "\<bar>p - (p + z * z / (2 * m)) / (1 + z * z / m)\<bar> \<le>
    z / (1 + z * z / m) * sqrt (p * (1 - p) / m + z * z / (4 * m * m))"
proof -
  let ?d = "1 + z * z / m"
  have d: "0 < ?d" using assms by (simp add: add_pos_nonneg)
  have "p - (p + z * z / (2 * m)) / ?d = (p * ?d - (p + z * z / (2 * m))) / ?d"
    using d by (simp add: diff_divide_distrib)
  also have "p * ?d - (p + z * z / (2 * m)) = z * (z * (p - 1 / 2) / m)"
    using assms(4) by (simp add: field_simps)
  finally have "p - (p + z * z / (2 * m)) / ?d = z * (z * (p - 1 / 2) / m) / ?d" .
  then have "\<bar>p - (p + z * z / (2 * m)) / ?d\<bar> = z / ?d * \<bar>z * (p - 1 / 2) / m\<bar>"
    using d assms(3) by (simp add: abs_mult)
  also have "\<dots> \<le> z / ?d * sqrt (p * (1 - p) / m + z * z / (4 * m * m))"
  proof (intro mult_left_mono real_le_rsqrt)
    have "\<bar>z * (p - 1 / 2) / m\<bar>\<^sup>2 = z * z / (4 * m * m) - z * z * (p * (1 - p)) / (m * m)"
      using assms(4) by (simp add: power2_eq_square field_simps)
    also have "\<dots> \<le> z * z / (4 * m * m) + p * (1 - p) / m"
      using assms by (simp add: add_increasing2)
    finally show "\<bar>z * (p - 1 / 2) / m\<bar>\<^sup>2 \<le> p * (1 - p) / m + z * z / (4 * m * m)" by simp
  qed (use d assms(3) in simp)
  finally show ?thesis .
qed

text \<open>The interval in closed form, and its two extreme cases.\<close>

definition wilson_bounds :: "real \<Rightarrow> real \<Rightarrow> real \<Rightarrow> real \<times> real" where
  "wilson_bounds p z m =
     (let d = 1 + z * z / m; center = (p + z * z / (2 * m)) / d;
          half = z / d * sqrt (p * (1 - p) / m + z * z / (4 * m * m))
      in (max 0 (center - half), min 1 (center + half)))"

lemma wilson_interval_eq:
  assumes "normal_quantile (0.5 + c / 2) = Inr z" "0 < n" "s \<le> n"
  shows "wilson_interval (int s) (int n) c = Inr (wilson_bounds (real s / real n) z (real n))"
proof -
  define p where "p = real s / real n"
  have "0 \<le> p" "p \<le> 1" using assms by (simp_all add: p_def)
  then have "\<not> p * (1 - p) / real n + z * z / (4 * real n * real n) < 0" "\<not> int n \<le> 0"
    using assms(2) by (simp_all add: not_less)
  then show ?thesis
    by (simp only: wilson_interval_def wilson_bounds_def Let_def assms(1) and_then.simps of_int_of_nat_eq
        p_def [symmetric] math_sqrt_def if_False)
qed

lemma wilson_bounds_bracket:
  assumes "0 \<le> p" "p \<le> 1" "0 \<le> z" "0 < m"
  shows "0 \<le> fst (wilson_bounds p z m) \<and> fst (wilson_bounds p z m) \<le> p \<and> p \<le> snd (wilson_bounds p z m) \<and>
    snd (wilson_bounds p z m) \<le> 1"
  using wilson_half [OF assms] assms by (auto simp: wilson_bounds_def Let_def)

lemma wilson_root: "0 \<le> z \<Longrightarrow> 0 < m \<Longrightarrow> sqrt (z * z / (4 * m * m)) = z / (2 * m)"
  by (simp add: real_sqrt_divide real_sqrt_mult)

lemma wilson_bounds_ends:
  assumes "0 \<le> z" "0 < m"
  shows "fst (wilson_bounds 0 z m) = 0" "snd (wilson_bounds 1 z m) = 1"
proof -
  have d: "0 < 1 + z * z / m" using assms by (simp add: add_pos_nonneg)
  show "fst (wilson_bounds 0 z m) = 0" using assms by (simp add: wilson_bounds_def Let_def wilson_root)
  have "(1 + z * z / (2 * m)) / (1 + z * z / m) + z / (1 + z * z / m) * (z / (2 * m)) =
      (1 + z * z / (2 * m) + z * z / (2 * m)) / (1 + z * z / m)" by (simp add: add_divide_distrib)
  also have "\<dots> = 1" using d by simp
  finally show "snd (wilson_bounds 1 z m) = 1" using assms by (simp add: wilson_bounds_def Let_def wilson_root)
qed

text \<open>
  the Wilson interval brackets the observed rate. For at least one rerun and no more flips than reruns the
  estimate at the default confidence returns, with 0 <= lower <= point <= upper <= 1; the lower bound is 0
  without a flip and the upper bound 1 when every rerun flipped. Without reruns the estimate has no point and
  no bounds.
\<close>

theorem wilson_brackets_rate:
  "\<exists>e. flip_rate_estimate outcomes reference 0.95 = Inr e \<and> fe_rerun_count e = length outcomes \<and>
     fe_flip_count e \<le> fe_rerun_count e \<and>
     (outcomes = [] \<longrightarrow> fe_point e = None \<and> fe_lower e = None \<and> fe_upper e = None) \<and>
     (outcomes \<noteq> [] \<longrightarrow> (\<exists>lo p hi. fe_lower e = Some lo \<and> fe_point e = Some p \<and> fe_upper e = Some hi \<and>
        0 \<le> lo \<and> lo \<le> p \<and> p \<le> hi \<and> hi \<le> 1 \<and>
        (fe_flip_count e = 0 \<longrightarrow> lo = 0) \<and> (fe_flip_count e = fe_rerun_count e \<longrightarrow> hi = 1)))"
proof (cases "outcomes = []")
  case True
  then show ?thesis by (simp add: flip_rate_estimate_def wilson_interval_def)
next
  case False
  define n where "n = length outcomes"
  define s where "s = length (filter (\<lambda>x. x \<noteq> reference) outcomes)"
  have n: "0 < n" "s \<le> n" using False by (simp_all add: n_def s_def)
  obtain z where z: "normal_quantile (0.5 + 0.95 / 2) = Inr z" "0 < z" using quantile_975 by blast
  obtain lo hi where w: "wilson_bounds (real s / real n) z (real n) = (lo, hi)" by (metis surj_pair)
  have "flip_rate_estimate outcomes reference 0.95 = Inr \<lparr>fe_rerun_count = n, fe_flip_count = s,
      fe_reference = reference, fe_point = Some (real s / real n), fe_lower = Some lo, fe_upper = Some hi,
      fe_confidence = 0.95\<rparr>"
    unfolding flip_rate_estimate_def Let_def n_def [symmetric] s_def [symmetric] wilson_interval_eq [OF z(1) n] w
    using n by simp
  moreover have "0 \<le> lo \<and> lo \<le> real s / real n \<and> real s / real n \<le> hi \<and> hi \<le> 1"
    using wilson_bounds_bracket [of "real s / real n" z "real n"] n z(2) by (simp add: w)
  moreover have "s = 0 \<longrightarrow> lo = 0" "s = n \<longrightarrow> hi = 1"
    using wilson_bounds_ends [of z "real n"] n z(2) w by auto
  ultimately show ?thesis using n False by (auto simp: n_def)
qed

theorem wilson_brackets_rate_witness:
  "\<exists>e lo hi. flip_rate_estimate [True, False] False 0.95 = Inr e \<and> fe_lower e = Some lo \<and> fe_upper e = Some hi \<and>
     0 \<le> lo \<and> hi \<le> 1"
  using wilson_brackets_rate [of "[True, False]" False] by auto

section \<open>Pairs above the floor\<close>

lemma search_pairs_antimono:
  assumes "0 \<le> t'" "t' \<le> t" "t \<le> 1"
  shows "search_pairs t pw 1 \<le> search_pairs t' pw 1"
proof (rule ccontr)
  assume "\<not> ?thesis"
  then have lt: "search_pairs t' pw 1 < search_pairs t pw 1" by simp
  note s = search_pairs_spec [of 1 t pw] and s' = search_pairs_spec [of 1 t' pw]
  have "search_pairs t pw 1 \<le> Suc PAIR_GUARD" using s by (simp add: PAIR_GUARD_def)
  with lt s' have "pw \<le> upper_tail 1 (search_pairs t' pw 1) t'" by simp
  also have "\<dots> \<le> upper_tail 1 (search_pairs t' pw 1) t"
    using assms by (simp add: upper_tail_1 power_mono)
  finally show False using s s' lt by auto
qed

text \<open>
  noise never makes a claim cheaper. For a floor in [0, 1], a target at or below the floor is reported as
  unmeasurable, without a sample size; above the floor the answer uses the target minus the floor and asks for
  at least as many effective and total pairs as the noise-free calculation.
\<close>

theorem noise_needs_more_pairs:
  assumes "0 \<le> eps" "eps \<le> 1" "required_pairs target hit pw alpha = Inr base"
  shows "\<exists>r. required_pairs_with_noise target hit eps pw alpha = Inr r \<and>
    (np_base r = None \<longleftrightarrow> target \<le> eps) \<and>
    (np_decision r = ''target_below_noise_floor_unmeasurable'' \<longleftrightarrow> target \<le> eps) \<and>
    (\<forall>b. np_base r = Some b \<longrightarrow> rp_target b = target - eps \<and> rp_effective base \<le> rp_effective b \<and> rp_total base \<le> rp_total b)"
proof -
  from assms(3) have ranges: "0 < target" "target \<le> 1" "0 < hit" "hit \<le> 1" "0 < pw" "pw < 1"
    and base: "rp_effective base = search_pairs target pw 1" "rp_total base = \<lceil>real (search_pairs target pw 1) / hit\<rceil>"
    by (auto simp: required_pairs_def Let_def split: if_splits)
  show ?thesis
  proof (cases "target \<le> eps")
    case True
    then show ?thesis using assms by (simp add: required_pairs_with_noise_def effective_uplift_floor_def)
  next
    case False
    then have "0 < target - eps" "target - eps \<le> 1" using assms ranges by auto
    moreover have "search_pairs target pw 1 \<le> search_pairs (target - eps) pw 1"
      using False assms ranges by (intro search_pairs_antimono) auto
    moreover from this have "\<lceil>real (search_pairs target pw 1) / hit\<rceil> \<le> \<lceil>real (search_pairs (target - eps) pw 1) / hit\<rceil>"
      using ranges by (intro ceiling_mono divide_right_mono) auto
    ultimately show ?thesis
      using False assms ranges base
      by (simp add: required_pairs_with_noise_def effective_uplift_floor_def required_pairs_def Let_def)
  qed
qed

theorem noise_needs_more_pairs_witness:
  "\<exists>r. required_pairs_with_noise (3/10) 1 (1/10) (8/10) (5/100) = Inr r \<and> np_base r \<noteq> None"
proof -
  obtain base where b: "required_pairs (3/10) 1 (8/10) (5/100) = Inr base" by (simp add: required_pairs_def Let_def)
  show ?thesis using noise_needs_more_pairs [of "1/10", OF _ _ b] by auto
qed

end
