(* ===== verification/Protocol_V1.thy ===== *)
theory Protocol_V1
  imports Clinic_Json
begin

text \<open>
  The version 1 intervention protocol, \<open>packages/clinic/src/wutai_clinic/intervention/protocol_v1.py\<close>:
  a closed prescription language read from untyped payloads. \<open>from_dict\<close> of every class is a function
  to an exception or a record, checks in the order of the source; \<open>to_dict\<close> is the way back.
\<close>

section \<open>Model\<close>

definition PROTOCOL_V1_VERSION :: string where
  "PROTOCOL_V1_VERSION = ''protocol_v1''"

definition PROTOCOL_V1_CLAIM_BOUNDARY :: string where
  "PROTOCOL_V1_CLAIM_BOUNDARY = ''bounded_next_step_control_no_posthoc_oracle''"

definition PRESCRIPTION_CONSTRAINTS :: "string list pydict" where
  "PRESCRIPTION_CONSTRAINTS =
     [(''targeted_failure_oracle'',
        [''materialize_prefix_observed_failure'', ''block_edit_until_failure_reproduced_or_explained'',
         ''require_post_patch_target_recheck'']),
      (''regression_guarded_patch_validation'',
        [''require_post_patch_target_recheck'', ''require_post_patch_guard_recheck'',
         ''block_submit_on_guard_regression''])]"

definition CLASSIFICATION_TO_PRESCRIPTION :: "string pydict" where
  "CLASSIFICATION_TO_PRESCRIPTION =
     [(''behavior_diverged_but_target_failure_persisted'', ''targeted_failure_oracle''),
      (''target_fixed_but_regression_not_controlled'', ''regression_guarded_patch_validation'')]"

record v1_trigger =
  t1_type :: string
  t1_predicate :: string
  t1_oracle_source :: string

record v1_action =
  a1_type :: string
  a1_prescription_id :: string
  a1_constraint_ids :: "string list"

record v1_guard =
  g1_debounce :: string
  g1_raw_payload_logging :: bool
  g1_identifiers_visible :: bool
  g1_same_pair_allowed :: bool

record protocol_v1 =
  p1_trigger :: v1_trigger
  p1_action :: v1_action
  p1_guard :: v1_guard
  p1_claim :: string
  p1_version :: string

text \<open>\<open>str(data.get(k) or default)\<close>\<close>

definition text_field :: "(json \<Rightarrow> string) \<Rightarrow> json \<Rightarrow> string \<Rightarrow> string \<Rightarrow> pyexn + string" where
  "text_field rp data k dflt = and_then (json_get data k) (\<lambda>v. Inr (json_text rp (json_or v (JStr dflt))))"

text \<open>\<open>data.get(k, False) is not False\<close>: only the literal false passes.\<close>

definition not_false :: "json \<Rightarrow> string \<Rightarrow> pyexn + bool" where
  "not_false data k = and_then (json_get_default data k (JBool False)) (\<lambda>v. Inr (v \<noteq> JBool False))"

text \<open>\<open>tuple(str(item) for item in data.get(k) or expected)\<close>\<close>

definition text_tuple :: "(json \<Rightarrow> string) \<Rightarrow> json \<Rightarrow> string \<Rightarrow> string list \<Rightarrow> pyexn + string list" where
  "text_tuple rp data k expected =
     and_then (json_get data k) (\<lambda>v.
     and_then (json_iter (json_or v (JList (map JStr expected)))) (\<lambda>items. Inr (map (json_text rp) items)))"

text \<open>\<open>sorted(set(xs) - set(ys))\<close>\<close>

definition sorted_difference :: "string list \<Rightarrow> string list \<Rightarrow> string list" where
  "sorted_difference xs ys = sort (remdups (filter (\<lambda>x. x \<notin> set ys) xs))"

definition trigger_v1_from_dict :: "(json \<Rightarrow> string) \<Rightarrow> json \<Rightarrow> pyexn + v1_trigger" where
  "trigger_v1_from_dict rp data =
     and_then (json_get data ''type'') (\<lambda>ty.
     and_then (raise_if (ty \<noteq> JStr ''live_feature'') (ValueErr ''Protocol v1 only supports trigger.type=live_feature'')) (\<lambda>_.
     and_then (text_field rp data ''predicate'' '''') (\<lambda>predicate.
     and_then (raise_if (predicate = '''') (ValueErr ''Protocol v1 trigger.predicate is required'')) (\<lambda>_.
     and_then (text_field rp data ''oracle_source'' ''prefix_observation_required'') (\<lambda>src.
     and_then (raise_if (src \<noteq> ''prefix_observation_required'')
       (ValueErr ''Protocol v1 forbids posthoc or external oracle sources at runtime'')) (\<lambda>_.
     Inr \<lparr>t1_type = ''live_feature'', t1_predicate = predicate, t1_oracle_source = src\<rparr>))))))"

definition action_v1_from_dict :: "(json \<Rightarrow> string) \<Rightarrow> json \<Rightarrow> pyexn + v1_action" where
  "action_v1_from_dict rp data =
     and_then (json_get data ''type'') (\<lambda>ty.
     and_then (raise_if (ty \<noteq> JStr ''enforce_action_constraints'')
       (ValueErr ''Protocol v1 only supports action.type=enforce_action_constraints'')) (\<lambda>_.
     and_then (text_field rp data ''prescription_id'' '''') (\<lambda>pid.
     (case dict_get PRESCRIPTION_CONSTRAINTS pid of
        None \<Rightarrow> Inl (ValueErr (''unknown Protocol v1 prescription_id: '' @ pid))
      | Some expected \<Rightarrow>
          and_then (text_tuple rp data ''constraint_ids'' expected) (\<lambda>ids.
          and_then (raise_if (sorted_difference ids expected \<noteq> [])
            (ValueErr (''unknown constraints for '' @ pid @ '': '' @ join '', '' (sorted_difference ids expected)))) (\<lambda>_.
          and_then (raise_if (sorted_difference expected ids \<noteq> [])
            (ValueErr (''missing required constraints for '' @ pid @ '': '' @ join '', '' (sorted_difference expected ids)))) (\<lambda>_.
          Inr \<lparr>a1_type = ''enforce_action_constraints'', a1_prescription_id = pid, a1_constraint_ids = ids\<rparr>)))))))"

definition default_guard_v1 :: v1_guard where
  "default_guard_v1 = \<lparr>g1_debounce = ''once_per_pair'', g1_raw_payload_logging = False,
     g1_identifiers_visible = False, g1_same_pair_allowed = False\<rparr>"

definition guard_v1_from_dict :: "(json \<Rightarrow> string) \<Rightarrow> json \<Rightarrow> pyexn + v1_guard" where
  "guard_v1_from_dict rp data =
     and_then (text_field rp data ''debounce'' ''once_per_pair'') (\<lambda>debounce.
     and_then (raise_if (debounce \<noteq> ''once_per_pair'') (ValueErr ''Protocol v1 only supports guard.debounce=once_per_pair'')) (\<lambda>_.
     and_then (not_false data ''raw_payload_logging'') (\<lambda>raw.
     and_then (raise_if raw (ValueErr ''Protocol v1 requires guard.raw_payload_logging=false'')) (\<lambda>_.
     and_then (not_false data ''official_eval_identifiers_runtime_visible'') (\<lambda>vis.
     and_then (raise_if vis (ValueErr ''Protocol v1 forbids official eval identifiers in runtime prompts'')) (\<lambda>_.
     and_then (not_false data ''same_pair_rerun_attribution_allowed'') (\<lambda>same.
     and_then (raise_if same (ValueErr ''Protocol v1 blocks same-pair attribution after posthoc diagnosis'')) (\<lambda>_.
     Inr default_guard_v1))))))))"

definition claim_v1_from_dict :: "(json \<Rightarrow> string) \<Rightarrow> json \<Rightarrow> pyexn + string" where
  "claim_v1_from_dict rp data =
     and_then (text_field rp data ''allowed'' PROTOCOL_V1_CLAIM_BOUNDARY) (\<lambda>allowed.
     and_then (raise_if (allowed \<noteq> PROTOCOL_V1_CLAIM_BOUNDARY)
       (ValueErr (''Protocol v1 only supports claim.allowed='' @ PROTOCOL_V1_CLAIM_BOUNDARY))) (\<lambda>_.
     Inr allowed))"

text \<open>\<open>data.get(k) or {}\<close>\<close>

definition sub_dict :: "json \<Rightarrow> string \<Rightarrow> pyexn + json" where
  "sub_dict data k = and_then (json_get data k) (\<lambda>v. Inr (json_or v (JObj [])))"

definition protocol_v1_from_dict :: "(json \<Rightarrow> string) \<Rightarrow> json \<Rightarrow> pyexn + protocol_v1" where
  "protocol_v1_from_dict rp data =
     and_then (raise_if (find_disallowed_keys data '''' \<noteq> [])
       (ValueErr (''Protocol v1 forbids executable fields: '' @ join '', '' (find_disallowed_keys data '''')))) (\<lambda>_.
     and_then (text_field rp data ''version'' PROTOCOL_V1_VERSION) (\<lambda>version.
     and_then (raise_if (version \<noteq> PROTOCOL_V1_VERSION) (ValueErr (''unsupported Protocol v1 version: '' @ version))) (\<lambda>_.
     and_then (and_then (sub_dict data ''trigger'') (trigger_v1_from_dict rp)) (\<lambda>trigger.
     and_then (and_then (sub_dict data ''action'') (action_v1_from_dict rp)) (\<lambda>action.
     and_then (and_then (sub_dict data ''guard'') (guard_v1_from_dict rp)) (\<lambda>guard.
     and_then (and_then (sub_dict data ''claim'') (claim_v1_from_dict rp)) (\<lambda>claim.
     Inr \<lparr>p1_trigger = trigger, p1_action = action, p1_guard = guard, p1_claim = claim, p1_version = version\<rparr>)))))))"

definition protocol_v1_to_dict :: "protocol_v1 \<Rightarrow> json" where
  "protocol_v1_to_dict p = JObj
     [(''version'', JStr (p1_version p)),
      (''trigger'', JObj [(''type'', JStr (t1_type (p1_trigger p))),
         (''predicate'', JStr (t1_predicate (p1_trigger p))),
         (''oracle_source'', JStr (t1_oracle_source (p1_trigger p)))]),
      (''action'', JObj [(''type'', JStr (a1_type (p1_action p))),
         (''prescription_id'', JStr (a1_prescription_id (p1_action p))),
         (''constraint_ids'', JList (map JStr (a1_constraint_ids (p1_action p))))]),
      (''guard'', JObj [(''debounce'', JStr (g1_debounce (p1_guard p))),
         (''raw_payload_logging'', JBool (g1_raw_payload_logging (p1_guard p))),
         (''official_eval_identifiers_runtime_visible'', JBool (g1_identifiers_visible (p1_guard p))),
         (''same_pair_rerun_attribution_allowed'', JBool (g1_same_pair_allowed (p1_guard p)))]),
      (''claim'', JObj [(''allowed'', JStr (p1_claim p))])]"

definition protocol_v1_hash :: "(string \<Rightarrow> string) \<Rightarrow> protocol_v1 \<Rightarrow> string" where
  "protocol_v1_hash h p = stable_json_hash h (protocol_v1_to_dict p)"

definition protocol_v1_payload :: "string \<Rightarrow> string list \<Rightarrow> string \<Rightarrow> json" where
  "protocol_v1_payload pid constraints predicate = JObj
     [(''version'', JStr PROTOCOL_V1_VERSION),
      (''trigger'', JObj [(''type'', JStr ''live_feature''), (''predicate'', JStr predicate),
         (''oracle_source'', JStr ''prefix_observation_required'')]),
      (''action'', JObj [(''type'', JStr ''enforce_action_constraints''), (''prescription_id'', JStr pid),
         (''constraint_ids'', JList (map JStr constraints))]),
      (''guard'', JObj [(''debounce'', JStr ''once_per_pair''), (''raw_payload_logging'', JBool False),
         (''official_eval_identifiers_runtime_visible'', JBool False),
         (''same_pair_rerun_attribution_allowed'', JBool False)]),
      (''claim'', JObj [(''allowed'', JStr PROTOCOL_V1_CLAIM_BOUNDARY)])]"

text \<open>\<open>protocol_v1_for_no_uplift_classification\<close>; the prescriptions named by the classification
  table all have constraints, so the subscription of the source never fails.\<close>

definition protocol_v1_for :: "(json \<Rightarrow> string) \<Rightarrow> string \<Rightarrow> string \<Rightarrow> pyexn + protocol_v1" where
  "protocol_v1_for rp classification predicate =
     (case dict_get CLASSIFICATION_TO_PRESCRIPTION classification of
        None \<Rightarrow> Inl (ValueErr (''unsupported no-uplift classification: '' @ classification))
      | Some pid \<Rightarrow>
          (case dict_get PRESCRIPTION_CONSTRAINTS pid of
             None \<Rightarrow> Inl (KeyError pid)
           | Some cs \<Rightarrow> protocol_v1_from_dict rp (protocol_v1_payload pid cs predicate)))"

section \<open>The plan of a batch\<close>

record v1_plan_pair =
  pp_source_task_id :: json
  pp_pair_id :: json
  pp_classification :: string
  pp_protocol :: json
  pp_protocol_hash :: string
  pp_oracle_source :: string
  pp_rerun_eligible :: bool
  pp_target_failures :: "json list"
  pp_target_successes :: "json list"
  pp_guard_failures :: "json list"

text \<open>\<open>list(d.get(k) or [])\<close>\<close>

definition list_field :: "json \<Rightarrow> string \<Rightarrow> pyexn + json list" where
  "list_field d k = and_then (json_get d k) (\<lambda>v. json_iter (json_or v (JList [])))"

definition plan_pair_v1 :: "(json \<Rightarrow> string) \<Rightarrow> (string \<Rightarrow> string) \<Rightarrow> json \<Rightarrow> pyexn + v1_plan_pair" where
  "plan_pair_v1 rp h pair =
     and_then (text_field rp pair ''no_uplift_classification'' '''') (\<lambda>classification.
     and_then (sub_dict pair ''trigger'') (\<lambda>trigger.
     and_then (text_field rp trigger ''predicate'' ''error_streak >= 1'') (\<lambda>predicate.
     and_then (protocol_v1_for rp classification predicate) (\<lambda>p.
     and_then (sub_dict pair ''tests'') (\<lambda>tests.
     and_then (sub_dict tests ''intervention'') (\<lambda>iv.
     and_then (sub_dict iv ''FAIL_TO_PASS'') (\<lambda>f2p.
     and_then (sub_dict iv ''PASS_TO_PASS'') (\<lambda>p2p.
     and_then (sub_dict iv ''PASS_TO_FAIL'') (\<lambda>p2f.
     and_then (json_get pair ''source_task_id'') (\<lambda>sid.
     and_then (json_get pair ''pair_id'') (\<lambda>pid.
     and_then (list_field f2p ''failure'') (\<lambda>tf.
     and_then (list_field f2p ''success'') (\<lambda>ts.
     and_then (list_field p2p ''failure'') (\<lambda>g1.
     and_then (list_field p2f ''failure'') (\<lambda>g2.
     Inr \<lparr>pp_source_task_id = sid, pp_pair_id = pid, pp_classification = classification,
       pp_protocol = protocol_v1_to_dict p, pp_protocol_hash = protocol_v1_hash h p,
       pp_oracle_source = ''prefix_observation_required'', pp_rerun_eligible = False,
       pp_target_failures = tf, pp_target_successes = ts, pp_guard_failures = g1 @ g2\<rparr>)))))))))))))))"

text \<open>The claim-boundary text of the plan.\<close>

definition PLAN_BOUNDARY :: string where
  "PLAN_BOUNDARY = ''Protocol v1 is a next-batch prescription plan. Official eval test identifiers are '' @
     ''analysis-only and must not be injected into same-pair runtime prompts.''"

record v1_plan =
  pl_decision :: string
  pl_claim_boundary :: string
  pl_source_decision :: json
  pl_pair_count :: nat
  pl_positive_claim_allowed :: bool
  pl_pairs :: "v1_plan_pair list"

definition build_protocol_v1_plan :: "(json \<Rightarrow> string) \<Rightarrow> (string \<Rightarrow> string) \<Rightarrow> json \<Rightarrow> pyexn + v1_plan" where
  "build_protocol_v1_plan rp h diagnosis =
     and_then (list_field diagnosis ''per_pair'') (\<lambda>rows.
     and_then (sequence (map (plan_pair_v1 rp h) rows)) (\<lambda>pairs.
     and_then (json_get diagnosis ''decision'') (\<lambda>d.
     Inr \<lparr>pl_decision = ''protocol_v1_plan_ready_not_live_executed'', pl_claim_boundary = PLAN_BOUNDARY, pl_source_decision = d,
       pl_pair_count = length pairs, pl_positive_claim_allowed = False, pl_pairs = pairs\<rparr>)))"

section \<open>Lemmas\<close>

lemma sorted_difference_Nil [simp]: "sorted_difference xs ys = [] \<longleftrightarrow> set xs \<subseteq> set ys"
proof -
  have "sorted_difference xs ys = [] \<longleftrightarrow> set (sorted_difference xs ys) = {}" by simp
  also have "\<dots> \<longleftrightarrow> set xs \<subseteq> set ys" by (auto simp: sorted_difference_def)
  finally show ?thesis .
qed

lemma json_text_JStr [simp]: "map (json_text rp \<circ> JStr) xs = xs"
  by (induction xs) auto

text \<open>Reading a field of a dictionary literal.\<close>

lemmas dict_field_defs = text_field_def not_false_def sub_dict_def text_tuple_def list_field_def json_or_def

text \<open>What the accepted values look like.\<close>

definition valid_v1 :: "protocol_v1 \<Rightarrow> bool" where
  "valid_v1 p \<longleftrightarrow>
     p1_version p = PROTOCOL_V1_VERSION \<and> t1_type (p1_trigger p) = ''live_feature'' \<and>
     t1_predicate (p1_trigger p) \<noteq> [] \<and> t1_oracle_source (p1_trigger p) = ''prefix_observation_required'' \<and>
     a1_type (p1_action p) = ''enforce_action_constraints'' \<and>
     (\<exists>cs. dict_get PRESCRIPTION_CONSTRAINTS (a1_prescription_id (p1_action p)) = Some cs \<and>
        set (a1_constraint_ids (p1_action p)) = set cs) \<and>
     p1_guard p = default_guard_v1 \<and> p1_claim p = PROTOCOL_V1_CLAIM_BOUNDARY"

lemma trigger_v1_valid:
  "trigger_v1_from_dict rp d = Inr t \<Longrightarrow>
     t1_type t = ''live_feature'' \<and> t1_predicate t \<noteq> [] \<and> t1_oracle_source t = ''prefix_observation_required''"
  by (auto simp: trigger_v1_from_dict_def and_then_eq_Inr)

lemma action_v1_valid:
  "action_v1_from_dict rp d = Inr a \<Longrightarrow>
     a1_type a = ''enforce_action_constraints'' \<and>
     (\<exists>cs. dict_get PRESCRIPTION_CONSTRAINTS (a1_prescription_id a) = Some cs \<and> set (a1_constraint_ids a) = set cs)"
  by (auto simp: action_v1_from_dict_def and_then_eq_Inr split: option.splits)

lemma guard_v1_valid: "guard_v1_from_dict rp d = Inr g \<Longrightarrow> g = default_guard_v1"
  by (auto simp: guard_v1_from_dict_def and_then_eq_Inr)

lemma claim_v1_valid: "claim_v1_from_dict rp d = Inr c \<Longrightarrow> c = PROTOCOL_V1_CLAIM_BOUNDARY"
  by (auto simp: claim_v1_from_dict_def and_then_eq_Inr)

lemma from_dict_valid_v1:
  assumes "protocol_v1_from_dict rp d = Inr p"
  shows "valid_v1 p" "find_disallowed_keys d '''' = []"
  using assms
  by (auto simp: protocol_v1_from_dict_def and_then_eq_Inr valid_v1_def
      dest!: trigger_v1_valid action_v1_valid guard_v1_valid claim_v1_valid)

text \<open>No key of a serialised protocol is executable.\<close>

lemma lower_simps: "lower [] = []" "lower (c # cs) = lower_char c # lower cs"
  by (simp_all add: lower_def)

lemma to_dict_v1_clean: "find_disallowed_keys (protocol_v1_to_dict p) '''' = []"
  unfolding disallowed_iff protocol_v1_to_dict_def
  by (auto simp: executable_keys_def lower_simps lower_char_def char_code_def)

lemma valid_v1_parses:
  assumes "valid_v1 p"
  shows "protocol_v1_from_dict rp (protocol_v1_to_dict p) = Inr p"
proof -
  from assms obtain cs where cs: "dict_get PRESCRIPTION_CONSTRAINTS (a1_prescription_id (p1_action p)) = Some cs"
    "set (a1_constraint_ids (p1_action p)) = set cs" by (auto simp: valid_v1_def)
  then have ne: "cs \<noteq> []" "a1_prescription_id (p1_action p) \<noteq> []"
    by (auto simp: PRESCRIPTION_CONSTRAINTS_def dict_get_def split: if_splits)
  with cs have ne': "a1_constraint_ids (p1_action p) \<noteq> []" by auto
  note defs = trigger_v1_from_dict_def action_v1_from_dict_def guard_v1_from_dict_def claim_v1_from_dict_def
  show ?thesis
    using assms cs ne ne' unfolding protocol_v1_from_dict_def to_dict_v1_clean
    by (simp add: protocol_v1_to_dict_def defs valid_v1_def default_guard_v1_def dict_field_defs
        PROTOCOL_V1_VERSION_def PROTOCOL_V1_CLAIM_BOUNDARY_def)
qed

text \<open>
  version 1 protocols round-trip. A payload that is accepted gives a protocol with no executable key
  at any depth of the payload, with exactly the constraints of its prescription, the safe guard and the
  bounded claim; its dictionary is read back as the same protocol, so the protocol hash names it.
\<close>

theorem protocol_v1_roundtrip:
  assumes "protocol_v1_from_dict rp d = Inr p"
  shows "protocol_v1_from_dict rp (protocol_v1_to_dict p) = Inr p \<and> valid_v1 p \<and>
    (\<forall>k. key_inside k d \<longrightarrow> lower k \<notin> set executable_keys)"
  using from_dict_valid_v1 [OF assms] valid_v1_parses by (simp add: disallowed_iff)

definition example_payload_v1 :: json where
  "example_payload_v1 = protocol_v1_payload ''targeted_failure_oracle''
     [''materialize_prefix_observed_failure'', ''block_edit_until_failure_reproduced_or_explained'',
      ''require_post_patch_target_recheck''] ''error_streak >= 1''"

definition example_protocol_v1 :: protocol_v1 where
  "example_protocol_v1 =
     \<lparr>p1_trigger = \<lparr>t1_type = ''live_feature'', t1_predicate = ''error_streak >= 1'',
        t1_oracle_source = ''prefix_observation_required''\<rparr>,
      p1_action = \<lparr>a1_type = ''enforce_action_constraints'', a1_prescription_id = ''targeted_failure_oracle'',
        a1_constraint_ids = [''materialize_prefix_observed_failure'',
          ''block_edit_until_failure_reproduced_or_explained'', ''require_post_patch_target_recheck'']\<rparr>,
      p1_guard = default_guard_v1, p1_claim = PROTOCOL_V1_CLAIM_BOUNDARY, p1_version = PROTOCOL_V1_VERSION\<rparr>"

lemma example_v1_valid: "valid_v1 example_protocol_v1"
  by (simp add: valid_v1_def example_protocol_v1_def PRESCRIPTION_CONSTRAINTS_def dict_get_def)

lemma payload_is_dict: "example_payload_v1 = protocol_v1_to_dict example_protocol_v1"
  by (simp add: example_payload_v1_def protocol_v1_payload_def protocol_v1_to_dict_def example_protocol_v1_def
      default_guard_v1_def)

theorem protocol_v1_roundtrip_witness:
  "protocol_v1_from_dict (\<lambda>_. '''') example_payload_v1 = Inr example_protocol_v1 \<and> valid_v1 example_protocol_v1"
  using protocol_v1_roundtrip [of "\<lambda>_. ''''" example_payload_v1 example_protocol_v1]
    valid_v1_parses [OF example_v1_valid] by (simp add: payload_is_dict)

section \<open>Plans\<close>

lemma from_dict_action_v1:
  "protocol_v1_from_dict rp d = Inr p \<Longrightarrow>
     and_then (sub_dict d ''action'') (action_v1_from_dict rp) = Inr (p1_action p)"
  by (auto simp: protocol_v1_from_dict_def and_then_eq_Inr)

lemma action_v1_keeps_id:
  "action_v1_from_dict rp (JObj [x, (''prescription_id'', JStr pid), y]) = Inr a \<Longrightarrow> fst x = ''type'' \<Longrightarrow>
     pid \<noteq> [] \<Longrightarrow> a1_prescription_id a = pid"
  by (cases x) (auto simp: action_v1_from_dict_def and_then_eq_Inr dict_field_defs split: option.splits)

lemma protocol_v1_for_eq:
  "protocol_v1_for rp classification predicate = Inr p \<Longrightarrow>
     dict_get CLASSIFICATION_TO_PRESCRIPTION classification = Some (a1_prescription_id (p1_action p)) \<and> valid_v1 p"
proof -
  assume p: "protocol_v1_for rp classification predicate = Inr p"
  then obtain pid cs where pid: "dict_get CLASSIFICATION_TO_PRESCRIPTION classification = Some pid"
    "dict_get PRESCRIPTION_CONSTRAINTS pid = Some cs"
    and d: "protocol_v1_from_dict rp (protocol_v1_payload pid cs predicate) = Inr p"
    by (auto simp: protocol_v1_for_def split: option.splits)
  from pid have "pid \<noteq> []" by (auto simp: PRESCRIPTION_CONSTRAINTS_def dict_get_def split: if_splits)
  from from_dict_action_v1 [OF d]
  have "action_v1_from_dict rp (JObj [(''type'', JStr ''enforce_action_constraints''),
      (''prescription_id'', JStr pid), (''constraint_ids'', JList (map JStr cs))]) = Inr (p1_action p)"
    by (simp add: protocol_v1_payload_def dict_field_defs)
  with \<open>pid \<noteq> []\<close> have "a1_prescription_id (p1_action p) = pid" by (auto dest!: action_v1_keeps_id)
  with pid from_dict_valid_v1 [OF d] show ?thesis by blast
qed

definition plan_row_ok :: "(string \<Rightarrow> string) \<Rightarrow> v1_plan_pair \<Rightarrow> bool" where
  "plan_row_ok h row \<longleftrightarrow> pp_rerun_eligible row = False \<and>
     (\<exists>p. valid_v1 p \<and> pp_protocol row = protocol_v1_to_dict p \<and> pp_protocol_hash row = protocol_v1_hash h p \<and>
        dict_get CLASSIFICATION_TO_PRESCRIPTION (pp_classification row) = Some (a1_prescription_id (p1_action p)))"

lemma plan_pair_ok: "plan_pair_v1 rp h pair = Inr row \<Longrightarrow> plan_row_ok h row"
  unfolding plan_pair_v1_def plan_row_ok_def
  by (auto simp: and_then_eq_Inr dest!: protocol_v1_for_eq)

text \<open>
  a plan prescribes only closed protocols. When a diagnosis is turned into a plan, every row carries the
  dictionary and the hash of an accepted protocol whose prescription is the one the classification selects,
  no row may be rerun for attribution, no positive claim is allowed, and no row of the diagnosis is dropped.
\<close>

theorem plan_prescribes_closed_protocols:
  assumes "build_protocol_v1_plan rp h (JObj [(''decision'', d), (''per_pair'', JList rows)]) = Inr plan"
  shows "list_all (plan_row_ok h) (pl_pairs plan) \<and> pl_pair_count plan = length rows \<and>
    \<not> pl_positive_claim_allowed plan"
  using assms plan_pair_ok [of rp h]
  by (fastforce simp: build_protocol_v1_plan_def and_then_eq_Inr list_field_def json_or_def list_all_iff
      split: if_splits dest!: sequence_map_rows)

definition example_row_v1 :: json where
  "example_row_v1 = JObj [(''no_uplift_classification'', JStr ''behavior_diverged_but_target_failure_persisted'')]"

lemma example_protocol_v1_for:
  "protocol_v1_for rp ''behavior_diverged_but_target_failure_persisted'' ''error_streak >= 1'' = Inr example_protocol_v1"
  using valid_v1_parses [OF example_v1_valid, of rp]
  by (simp add: payload_is_dict [symmetric] protocol_v1_for_def CLASSIFICATION_TO_PRESCRIPTION_def
      PRESCRIPTION_CONSTRAINTS_def dict_get_def example_payload_v1_def)

lemma example_row_planned: "\<exists>row. plan_pair_v1 rp h example_row_v1 = Inr row"
  by (simp add: plan_pair_v1_def example_row_v1_def dict_field_defs example_protocol_v1_for)

theorem plan_prescribes_closed_protocols_witness:
  "\<exists>plan. build_protocol_v1_plan (\<lambda>_. '''') id (JObj [(''decision'', JNull), (''per_pair'', JList [example_row_v1])]) = Inr plan \<and>
     pl_pair_count plan = 1"
proof -
  obtain row where "plan_pair_v1 (\<lambda>_. '''') id example_row_v1 = Inr row" using example_row_planned by blast
  then have "\<exists>plan. build_protocol_v1_plan (\<lambda>_. '''') id
      (JObj [(''decision'', JNull), (''per_pair'', JList [example_row_v1])]) = Inr plan"
    by (simp add: build_protocol_v1_plan_def dict_field_defs)
  then obtain plan where plan: "build_protocol_v1_plan (\<lambda>_. '''') id
      (JObj [(''decision'', JNull), (''per_pair'', JList [example_row_v1])]) = Inr plan" by blast
  with plan_prescribes_closed_protocols [OF this] show ?thesis by auto
qed

end
