(* ===== verification/Protocol_V2.thy ===== *)
theory Protocol_V2
  imports Protocol_V1
begin

text \<open>
  The version 2 prescription, \<open>packages/clinic/src/wutai_clinic/intervention/protocol_v2.py\<close>, with its
  search for outcome oracles in the runtime trigger. The list of forbidden keys and their search are
  the same as in version 1 (\<open>Clinic_Json\<close>).
\<close>

section \<open>Model\<close>

definition PROTOCOL_V2_VERSION :: string where
  "PROTOCOL_V2_VERSION = ''protocol_v2_prescription''"

definition PROTOCOL_V2_CLAIM_BOUNDARY :: string where
  "PROTOCOL_V2_CLAIM_BOUNDARY = ''prospective_batch_prescription_no_outcome_oracle''"

text \<open>In the order of \<open>sorted\<close>.\<close>

definition RUNTIME_ORACLE_TERMS :: "string list" where
  "RUNTIME_ORACLE_TERMS = [''fail_to_pass'', ''official_eval'', ''pass_to_fail'', ''pass_to_pass'',
     ''resolved'', ''test_patch'', ''unresolved'']"

definition PRESCRIPTION_STEPS :: "string list pydict" where
  "PRESCRIPTION_STEPS =
     [(''break_recurrence_and_reproduce'',
        [''interrupt_repeated_failure_loop'', ''require_explicit_failure_reproduction'',
         ''require_alternative_hypothesis_before_next_patch'', ''require_targeted_post_patch_recheck'']),
      (''broaden_context_then_validate'',
        [''interrupt_local_file_fixation'', ''require_adjacent_symbol_or_callsite_scan'',
         ''require_hypothesis_update_from_new_context'', ''require_targeted_post_patch_recheck''])]"

definition find_runtime_oracle_terms :: "json \<Rightarrow> string \<Rightarrow> string list" where
  "find_runtime_oracle_terms v path = find_terms RUNTIME_ORACLE_TERMS v path"

record v2_trigger =
  t2_type :: string
  t2_predicates :: "string list"
  t2_evidence_sources :: "string list"

record v2_action =
  a2_type :: string
  a2_prescription_id :: string
  a2_steps :: "string list"
  a2_prompt_style :: string

record v2_guard =
  g2_max_injections :: int
  g2_raw_payload_logging :: bool
  g2_eval_identifiers_visible :: bool
  g2_test_identifiers_visible :: bool
  g2_positive_claim_allowed :: bool

record protocol_v2 =
  p2_trigger :: v2_trigger
  p2_action :: v2_action
  p2_guard :: v2_guard
  p2_claim :: string
  p2_version :: string

definition trigger_v2_from_dict :: "(json \<Rightarrow> string) \<Rightarrow> json \<Rightarrow> pyexn + v2_trigger" where
  "trigger_v2_from_dict rp data =
     and_then (json_get data ''type'') (\<lambda>ty.
     and_then (raise_if (ty \<noteq> JStr ''live_feature_conjunction'')
       (ValueErr ''Protocol v2 only supports trigger.type=live_feature_conjunction'')) (\<lambda>_.
     and_then (text_tuple rp data ''predicates'' []) (\<lambda>predicates.
     and_then (raise_if (predicates = []) (ValueErr ''Protocol v2 trigger.predicates is required'')) (\<lambda>_.
     and_then (text_tuple rp data ''evidence_sources'' []) (\<lambda>sources.
     and_then (raise_if (sources = [] \<or> \<not> list_all (\<lambda>s. s \<in> {''live_feature'', ''prefix_observation''}) sources)
       (ValueErr ''Protocol v2 trigger evidence must come from live features/prefix observations'')) (\<lambda>_.
     let terms = find_runtime_oracle_terms
           (JObj [(''predicates'', JList (map JStr predicates)), (''sources'', JList (map JStr sources))]) '''' in
     and_then (raise_if (terms \<noteq> [])
       (ValueErr (''Protocol v2 forbids official outcome/test oracles at runtime: '' @ join '', '' terms))) (\<lambda>_.
     Inr \<lparr>t2_type = ''live_feature_conjunction'', t2_predicates = predicates, t2_evidence_sources = sources\<rparr>)))))))"

definition action_v2_from_dict :: "(json \<Rightarrow> string) \<Rightarrow> json \<Rightarrow> pyexn + v2_action" where
  "action_v2_from_dict rp data =
     and_then (json_get data ''type'') (\<lambda>ty.
     and_then (raise_if (ty \<noteq> JStr ''execute_prescription_steps'')
       (ValueErr ''Protocol v2 only supports action.type=execute_prescription_steps'')) (\<lambda>_.
     and_then (text_field rp data ''prescription_id'' '''') (\<lambda>pid.
     (case dict_get PRESCRIPTION_STEPS pid of
        None \<Rightarrow> Inl (ValueErr (''unknown Protocol v2 prescription_id: '' @ pid))
      | Some expected \<Rightarrow>
          and_then (text_tuple rp data ''steps'' expected) (\<lambda>steps.
          and_then (raise_if (sorted_difference steps expected \<noteq> [])
            (ValueErr (''unknown prescription steps for '' @ pid @ '': '' @ join '', '' (sorted_difference steps expected)))) (\<lambda>_.
          and_then (raise_if (sorted_difference expected steps \<noteq> [])
            (ValueErr (''missing required prescription steps for '' @ pid @ '': '' @
               join '', '' (sorted_difference expected steps)))) (\<lambda>_.
          and_then (text_field rp data ''prompt_style'' ''directive_but_non_oracular'') (\<lambda>style.
          and_then (raise_if (style \<noteq> ''directive_but_non_oracular'')
            (ValueErr ''Protocol v2 prompt_style must be directive_but_non_oracular'')) (\<lambda>_.
          Inr \<lparr>a2_type = ''execute_prescription_steps'', a2_prescription_id = pid, a2_steps = steps,
            a2_prompt_style = style\<rparr>)))))))))"

definition default_guard_v2 :: v2_guard where
  "default_guard_v2 = \<lparr>g2_max_injections = 1, g2_raw_payload_logging = False, g2_eval_identifiers_visible = False,
     g2_test_identifiers_visible = False, g2_positive_claim_allowed = False\<rparr>"

definition guard_v2_from_dict :: "(string \<Rightarrow> int option) \<Rightarrow> json \<Rightarrow> pyexn + v2_guard" where
  "guard_v2_from_dict ri data =
     and_then (and_then (json_get data ''max_injections_per_pair'') (\<lambda>v. json_int ri (json_or v (JInt 1)))) (\<lambda>n.
     and_then (raise_if (n \<noteq> 1) (ValueErr ''Protocol v2 only supports max_injections_per_pair=1'')) (\<lambda>_.
     and_then (not_false data ''raw_payload_logging'') (\<lambda>raw.
     and_then (raise_if raw (ValueErr ''Protocol v2 requires guard.raw_payload_logging=false'')) (\<lambda>_.
     and_then (not_false data ''official_eval_identifiers_runtime_visible'') (\<lambda>vis.
     and_then (raise_if vis (ValueErr ''Protocol v2 forbids official eval identifiers in runtime prompts'')) (\<lambda>_.
     and_then (not_false data ''test_identifiers_runtime_visible'') (\<lambda>tests.
     and_then (raise_if tests (ValueErr ''Protocol v2 forbids official test identifiers in runtime prompts'')) (\<lambda>_.
     and_then (not_false data ''same_pair_positive_claim_allowed'') (\<lambda>same.
     and_then (raise_if same (ValueErr ''Protocol v2 blocks same-pair positive attribution claims'')) (\<lambda>_.
     Inr default_guard_v2))))))))))"

definition claim_v2_from_dict :: "(json \<Rightarrow> string) \<Rightarrow> json \<Rightarrow> pyexn + string" where
  "claim_v2_from_dict rp data =
     and_then (text_field rp data ''allowed'' PROTOCOL_V2_CLAIM_BOUNDARY) (\<lambda>allowed.
     and_then (raise_if (allowed \<noteq> PROTOCOL_V2_CLAIM_BOUNDARY)
       (ValueErr (''Protocol v2 only supports claim.allowed='' @ PROTOCOL_V2_CLAIM_BOUNDARY))) (\<lambda>_.
     Inr allowed))"

definition protocol_v2_from_dict :: "(json \<Rightarrow> string) \<Rightarrow> (string \<Rightarrow> int option) \<Rightarrow> json \<Rightarrow> pyexn + protocol_v2" where
  "protocol_v2_from_dict rp ri data =
     and_then (raise_if (find_disallowed_keys data '''' \<noteq> [])
       (ValueErr (''Protocol v2 forbids executable fields: '' @ join '', '' (find_disallowed_keys data '''')))) (\<lambda>_.
     and_then (text_field rp data ''version'' PROTOCOL_V2_VERSION) (\<lambda>version.
     and_then (raise_if (version \<noteq> PROTOCOL_V2_VERSION) (ValueErr (''unsupported Protocol v2 version: '' @ version))) (\<lambda>_.
     and_then (and_then (sub_dict data ''trigger'') (trigger_v2_from_dict rp)) (\<lambda>trigger.
     and_then (and_then (sub_dict data ''action'') (action_v2_from_dict rp)) (\<lambda>action.
     and_then (and_then (sub_dict data ''guard'') (guard_v2_from_dict ri)) (\<lambda>guard.
     and_then (and_then (sub_dict data ''claim'') (claim_v2_from_dict rp)) (\<lambda>claim.
     Inr \<lparr>p2_trigger = trigger, p2_action = action, p2_guard = guard, p2_claim = claim, p2_version = version\<rparr>)))))))"

definition protocol_v2_to_dict :: "protocol_v2 \<Rightarrow> json" where
  "protocol_v2_to_dict p = JObj
     [(''version'', JStr (p2_version p)),
      (''trigger'', JObj [(''type'', JStr (t2_type (p2_trigger p))),
         (''predicates'', JList (map JStr (t2_predicates (p2_trigger p)))),
         (''evidence_sources'', JList (map JStr (t2_evidence_sources (p2_trigger p))))]),
      (''action'', JObj [(''type'', JStr (a2_type (p2_action p))),
         (''prescription_id'', JStr (a2_prescription_id (p2_action p))),
         (''steps'', JList (map JStr (a2_steps (p2_action p)))),
         (''prompt_style'', JStr (a2_prompt_style (p2_action p)))]),
      (''guard'', JObj [(''max_injections_per_pair'', JInt (g2_max_injections (p2_guard p))),
         (''raw_payload_logging'', JBool (g2_raw_payload_logging (p2_guard p))),
         (''official_eval_identifiers_runtime_visible'', JBool (g2_eval_identifiers_visible (p2_guard p))),
         (''test_identifiers_runtime_visible'', JBool (g2_test_identifiers_visible (p2_guard p))),
         (''same_pair_positive_claim_allowed'', JBool (g2_positive_claim_allowed (p2_guard p)))]),
      (''claim'', JObj [(''allowed'', JStr (p2_claim p))])]"

definition protocol_v2_hash :: "(string \<Rightarrow> string) \<Rightarrow> protocol_v2 \<Rightarrow> string" where
  "protocol_v2_hash h p = stable_json_hash h (protocol_v2_to_dict p)"

definition default_predicates :: "string list" where
  "default_predicates = [''error_streak >= 2'', ''same_failure_family_repeated is true'',
     ''target_failure_not_materialized_after_replay is true'']"

definition protocol_v2_template :: "(json \<Rightarrow> string) \<Rightarrow> (string \<Rightarrow> int option) \<Rightarrow> string \<Rightarrow> string list \<Rightarrow> pyexn + protocol_v2" where
  "protocol_v2_template rp ri pid predicates =
     (case dict_get PRESCRIPTION_STEPS pid of
        None \<Rightarrow> Inl (KeyError pid)
      | Some steps \<Rightarrow> protocol_v2_from_dict rp ri (JObj
         [(''version'', JStr PROTOCOL_V2_VERSION),
          (''trigger'', JObj [(''type'', JStr ''live_feature_conjunction''), (''predicates'', JList (map JStr predicates)),
             (''evidence_sources'', JList [JStr ''live_feature'', JStr ''prefix_observation''])]),
          (''action'', JObj [(''type'', JStr ''execute_prescription_steps''), (''prescription_id'', JStr pid),
             (''steps'', JList (map JStr steps)), (''prompt_style'', JStr ''directive_but_non_oracular'')]),
          (''guard'', JObj [(''max_injections_per_pair'', JInt 1), (''raw_payload_logging'', JBool False),
             (''official_eval_identifiers_runtime_visible'', JBool False), (''test_identifiers_runtime_visible'', JBool False),
             (''same_pair_positive_claim_allowed'', JBool False)]),
          (''claim'', JObj [(''allowed'', JStr PROTOCOL_V2_CLAIM_BOUNDARY)])]))"

section \<open>Lemmas\<close>

definition mentions_oracle :: "string \<Rightarrow> bool" where
  "mentions_oracle s \<longleftrightarrow> mentions RUNTIME_ORACLE_TERMS s"

definition valid_v2 :: "protocol_v2 \<Rightarrow> bool" where
  "valid_v2 p \<longleftrightarrow>
     p2_version p = PROTOCOL_V2_VERSION \<and> t2_type (p2_trigger p) = ''live_feature_conjunction'' \<and>
     t2_predicates (p2_trigger p) \<noteq> [] \<and> \<not> list_ex mentions_oracle (t2_predicates (p2_trigger p)) \<and>
     t2_evidence_sources (p2_trigger p) \<noteq> [] \<and>
     set (t2_evidence_sources (p2_trigger p)) \<subseteq> {''live_feature'', ''prefix_observation''} \<and>
     a2_type (p2_action p) = ''execute_prescription_steps'' \<and>
     (\<exists>steps. dict_get PRESCRIPTION_STEPS (a2_prescription_id (p2_action p)) = Some steps \<and>
        set (a2_steps (p2_action p)) = set steps) \<and>
     a2_prompt_style (p2_action p) = ''directive_but_non_oracular'' \<and>
     p2_guard p = default_guard_v2 \<and> p2_claim p = PROTOCOL_V2_CLAIM_BOUNDARY"

lemma trigger_terms_iff:
  "find_runtime_oracle_terms (JObj [(''predicates'', JList (map JStr ps)), (''sources'', JList (map JStr ss))]) '''' = [] \<longleftrightarrow>
     \<not> list_ex mentions_oracle ps \<and> \<not> list_ex mentions_oracle ss"
  by (simp add: find_runtime_oracle_terms_def find_terms_texts mentions_oracle_def [abs_def] del: find_terms.simps(2))

lemma trigger_v2_valid:
  assumes "trigger_v2_from_dict rp d = Inr t"
  shows "t2_type t = ''live_feature_conjunction''" "t2_predicates t \<noteq> []" "\<not> list_ex mentions_oracle (t2_predicates t)"
    "t2_evidence_sources t \<noteq> []" "set (t2_evidence_sources t) \<subseteq> {''live_feature'', ''prefix_observation''}"
proof -
  from assms obtain ps ss where t: "t = \<lparr>t2_type = ''live_feature_conjunction'', t2_predicates = ps, t2_evidence_sources = ss\<rparr>"
    and ne: "ps \<noteq> []" and sources: "\<not> (ss = [] \<or> \<not> list_all (\<lambda>s. s \<in> {''live_feature'', ''prefix_observation''}) ss)"
    and terms: "find_runtime_oracle_terms
      (JObj [(''predicates'', JList (map JStr ps)), (''sources'', JList (map JStr ss))]) '''' = []"
    unfolding trigger_v2_from_dict_def Let_def
    by (elim and_then_InrE) (simp only: raise_if_eq_Inr sum.inject not_not, metis)
  from terms have "\<not> list_ex mentions_oracle ps" unfolding trigger_terms_iff by blast
  with t ne show "t2_type t = ''live_feature_conjunction''" "t2_predicates t \<noteq> []"
    "\<not> list_ex mentions_oracle (t2_predicates t)" by (simp_all only: v2_trigger.select_convs) simp_all
  from t sources show "t2_evidence_sources t \<noteq> []"
    "set (t2_evidence_sources t) \<subseteq> {''live_feature'', ''prefix_observation''}"
    by (simp_all add: list_all_iff subset_iff)
qed

lemma action_v2_valid:
  "action_v2_from_dict rp d = Inr a \<Longrightarrow>
     a2_type a = ''execute_prescription_steps'' \<and> a2_prompt_style a = ''directive_but_non_oracular'' \<and>
     (\<exists>steps. dict_get PRESCRIPTION_STEPS (a2_prescription_id a) = Some steps \<and> set (a2_steps a) = set steps)"
  by (auto simp: action_v2_from_dict_def and_then_eq_Inr split: option.splits)

lemma guard_v2_valid: "guard_v2_from_dict ri d = Inr g \<Longrightarrow> g = default_guard_v2"
  by (auto simp: guard_v2_from_dict_def and_then_eq_Inr)

lemma claim_v2_valid: "claim_v2_from_dict rp d = Inr c \<Longrightarrow> c = PROTOCOL_V2_CLAIM_BOUNDARY"
  by (auto simp: claim_v2_from_dict_def and_then_eq_Inr)

lemma from_dict_valid_v2:
  assumes "protocol_v2_from_dict rp ri d = Inr p"
  shows "valid_v2 p" "find_disallowed_keys d '''' = []"
proof -
  from assms obtain t a g c t' a' g' c' where
    p: "p = \<lparr>p2_trigger = t, p2_action = a, p2_guard = g, p2_claim = c, p2_version = PROTOCOL_V2_VERSION\<rparr>"
    and parts: "trigger_v2_from_dict rp t' = Inr t" "action_v2_from_dict rp a' = Inr a"
      "guard_v2_from_dict ri g' = Inr g" "claim_v2_from_dict rp c' = Inr c"
    and clean: "find_disallowed_keys d '''' = []"
    unfolding protocol_v2_from_dict_def
    by (elim and_then_InrE) (simp only: raise_if_eq_Inr sum.inject not_not, metis)
  show "find_disallowed_keys d '''' = []" by (rule clean)
  from trigger_v2_valid [OF parts(1)] action_v2_valid [OF parts(2)] guard_v2_valid [OF parts(3)] claim_v2_valid [OF parts(4)]
  show "valid_v2 p" unfolding p valid_v2_def by simp
qed

lemma to_dict_v2_clean: "find_disallowed_keys (protocol_v2_to_dict p) '''' = []"
  unfolding disallowed_iff protocol_v2_to_dict_def
  by (auto simp: executable_keys_def lower_simps lower_char_def char_code_def)

lemma sources_clean: "set ss \<subseteq> {''live_feature'', ''prefix_observation''} \<Longrightarrow> \<not> list_ex mentions_oracle ss"
proof -
  have "\<not> mentions_oracle ''live_feature''" "\<not> mentions_oracle ''prefix_observation''" by code_simp+
  then show "set ss \<subseteq> {''live_feature'', ''prefix_observation''} \<Longrightarrow> ?thesis" by (auto simp: list_ex_iff)
qed

lemma valid_v2_parses:
  assumes "valid_v2 p"
  shows "protocol_v2_from_dict rp ri (protocol_v2_to_dict p) = Inr p"
proof -
  from assms obtain steps where st: "dict_get PRESCRIPTION_STEPS (a2_prescription_id (p2_action p)) = Some steps"
    "set (a2_steps (p2_action p)) = set steps" by (auto simp: valid_v2_def)
  then have ne: "steps \<noteq> []" "a2_prescription_id (p2_action p) \<noteq> []"
    by (auto simp: PRESCRIPTION_STEPS_def dict_get_def split: if_splits)
  with st have ne': "a2_steps (p2_action p) \<noteq> []" by auto
  from assms have src: "\<not> list_ex mentions_oracle (t2_evidence_sources (p2_trigger p))"
    by (intro sources_clean) (simp add: valid_v2_def)
  from assms have sub: "list_all (\<lambda>s. s = ''live_feature'' \<or> s = ''prefix_observation'') (t2_evidence_sources (p2_trigger p))"
    by (auto simp: valid_v2_def list_all_iff)
  note defs = trigger_v2_from_dict_def action_v2_from_dict_def guard_v2_from_dict_def claim_v2_from_dict_def
  show ?thesis
    using assms st ne ne' src sub unfolding protocol_v2_from_dict_def to_dict_v2_clean
    by (simp add: protocol_v2_to_dict_def defs valid_v2_def default_guard_v2_def dict_field_defs json_int_def
        trigger_terms_iff PROTOCOL_V2_VERSION_def PROTOCOL_V2_CLAIM_BOUNDARY_def Let_def)
qed

text \<open>
  version 2 prescriptions round-trip and carry no outcome oracle. An accepted payload has no executable
  key at any depth; the protocol it gives has exactly the steps of its prescription, evidence only from live
  features and prefix observations, no predicate that mentions an evaluation outcome, and the safe guard;
  its dictionary is read back as the same protocol.
\<close>

theorem protocol_v2_roundtrip:
  assumes "protocol_v2_from_dict rp ri d = Inr p"
  shows "protocol_v2_from_dict rp ri (protocol_v2_to_dict p) = Inr p \<and> valid_v2 p \<and>
    (\<forall>k. key_inside k d \<longrightarrow> lower k \<notin> set executable_keys)"
  using from_dict_valid_v2 [OF assms] valid_v2_parses by (simp add: disallowed_iff)

definition example_protocol_v2 :: protocol_v2 where
  "example_protocol_v2 =
     \<lparr>p2_trigger = \<lparr>t2_type = ''live_feature_conjunction'', t2_predicates = default_predicates,
        t2_evidence_sources = [''live_feature'', ''prefix_observation'']\<rparr>,
      p2_action = \<lparr>a2_type = ''execute_prescription_steps'', a2_prescription_id = ''break_recurrence_and_reproduce'',
        a2_steps = [''interrupt_repeated_failure_loop'', ''require_explicit_failure_reproduction'',
          ''require_alternative_hypothesis_before_next_patch'', ''require_targeted_post_patch_recheck''],
        a2_prompt_style = ''directive_but_non_oracular''\<rparr>,
      p2_guard = default_guard_v2, p2_claim = PROTOCOL_V2_CLAIM_BOUNDARY, p2_version = PROTOCOL_V2_VERSION\<rparr>"

lemma example_v2_valid: "valid_v2 example_protocol_v2"
proof -
  have "\<not> list_ex mentions_oracle default_predicates" by code_simp
  then show ?thesis
    by (simp add: valid_v2_def example_protocol_v2_def PRESCRIPTION_STEPS_def dict_get_def) (simp add: default_predicates_def)
qed

theorem protocol_v2_roundtrip_witness:
  "protocol_v2_from_dict (\<lambda>_. '''') (\<lambda>_. None) (protocol_v2_to_dict example_protocol_v2) = Inr example_protocol_v2 \<and>
     valid_v2 example_protocol_v2"
  using protocol_v2_roundtrip [of "\<lambda>_. ''''" "\<lambda>_. None" "protocol_v2_to_dict example_protocol_v2" example_protocol_v2]
    valid_v2_parses [OF example_v2_valid] by simp

end
