(* ===== verification/Action_Gate.thy ===== *)
theory Action_Gate
  imports Clinic_Json
begin

text \<open>
  What the two constraint hooks of the clinic share: how a step of the agent is read as text
  (\<open>packages/clinic/src/wutai_clinic/intervention/protocol_v1_hook.py\<close>, the helpers above the
  class), and the contract of a gate that is asked before every action and told after it. The agent
  itself is third-party; an episode is any sequence of steps it takes until the gate raises.
\<close>

section \<open>Reading a step\<close>

text \<open>
  A step is whatever the agent passes: \<open>None\<close>, a text, a dictionary or an object. Dictionaries and
  objects carry what \<open>str()\<close> gives for them; an object also its truth value. The fields of an
  object are its attributes.
\<close>

datatype step_value =
    SNone
  | SText string
  | SDict "(string \<times> step_value) list" string
  | SObject "(string \<times> step_value) list" string bool

definition ACTION_KEYS :: "string list" where
  "ACTION_KEYS = [''action'', ''command'', ''message'', ''content'', ''tool_input'']"

text \<open>The text of the first of the keys that is there, else the default.\<close>

definition first_field :: "string list \<Rightarrow> (string \<times> string) list \<Rightarrow> string \<Rightarrow> string" where
  "first_field keys fields dflt =
     (case find (\<lambda>k. map_of fields k \<noteq> None) keys of
        None \<Rightarrow> dflt
      | Some k \<Rightarrow> the (map_of fields k))"

fun stringify_step_value :: "step_value \<Rightarrow> string" where
  "stringify_step_value SNone = ''''"
| "stringify_step_value (SText s) = s"
| "stringify_step_value (SDict fs s) = first_field ACTION_KEYS (map (\<lambda>(k, v). (k, stringify_step_value v)) fs) s"
| "stringify_step_value (SObject fs s b) = first_field ACTION_KEYS (map (\<lambda>(k, v). (k, stringify_step_value v)) fs) s"

definition step_action :: "step_value \<Rightarrow> string" where
  "step_action step = stringify_step_value step"

fun step_truthy :: "step_value \<Rightarrow> bool" where
  "step_truthy SNone = False"
| "step_truthy (SText s) = (s \<noteq> [])"
| "step_truthy (SDict fs s) = (fs \<noteq> [])"
| "step_truthy (SObject fs s b) = b"

text \<open>\<open>step.get("observation") or step.get("output")\<close>; for an object the first of the two
  attributes that it has.\<close>

fun step_observation :: "step_value \<Rightarrow> string" where
  "step_observation (SDict fs s) =
     (case map_of fs ''observation'' of
        Some v \<Rightarrow> if step_truthy v then stringify_step_value v
          else (case map_of fs ''output'' of Some w \<Rightarrow> stringify_step_value w | None \<Rightarrow> '''')
      | None \<Rightarrow> (case map_of fs ''output'' of Some w \<Rightarrow> stringify_step_value w | None \<Rightarrow> ''''))"
| "step_observation (SObject fs s b) =
     (case map_of fs ''observation'' of
        Some v \<Rightarrow> stringify_step_value v
      | None \<Rightarrow> (case map_of fs ''output'' of Some w \<Rightarrow> stringify_step_value w | None \<Rightarrow> ''''))"
| "step_observation _ = ''''"

section \<open>Classifying actions and observations\<close>

definition is_submit_action :: "string \<Rightarrow> bool" where
  "is_submit_action a = mentions [''submit'', ''finish'', ''final_answer''] a"

definition is_test_or_repro_action :: "string \<Rightarrow> bool" where
  "is_test_or_repro_action a = mentions [''pytest'', ''python reproduce'', ''python repro'', ''python -m pytest'',
     ''tox '', ''unittest''] a"

definition is_guard_action :: "string \<Rightarrow> bool" where
  "is_guard_action a = mentions [''guard'', ''pass_to_pass'', ''regression''] a"

definition is_source_edit_action :: "string \<Rightarrow> bool" where
  "is_source_edit_action a =
     (let l = lower a in
      if contains ''apply_patch'' l \<and> contains ''*** update file:'' l then True
      else if contains ''str_replace_editor str_replace'' l then True
      else if contains ''replace_file_content'' l then True
      else if contains ''str_replace_editor create'' l \<and> contains ''/testbed/'' l
        then \<not> contains ''repro'' l \<and> \<not> contains ''test_'' l
      else False)"

definition observation_has_failure :: "string \<Rightarrow> bool" where
  "observation_has_failure obs = mentions [''failed'', ''failure'', ''traceback'', ''assertionerror'', ''error:'',
     ''exit code 1'', ''non-zero''] obs"

definition observation_has_guard_regression :: "string \<Rightarrow> bool" where
  "observation_has_guard_regression obs = mentions [''guard regression'', ''pass_to_fail'', ''regression failed'',
     ''pass-to-pass failure''] obs"

text \<open>A step of an episode: the agent's step when the action starts, and the same step, now with an
  observation, when it has run.\<close>

type_synonym agent_step = "step_value \<times> step_value"

abbreviation started_action :: "agent_step \<Rightarrow> string" where
  "started_action s \<equiv> step_action (fst s)"

abbreviation ran_action :: "agent_step \<Rightarrow> string" where
  "ran_action s \<equiv> step_action (snd s)"

abbreviation observed_text :: "agent_step \<Rightarrow> string" where
  "observed_text s \<equiv> step_observation (snd s)"

section \<open>The contract of a gate\<close>

text \<open>An episode: the steps that ran, and the step that raised, if any.\<close>

fun episode :: "('h \<Rightarrow> 's \<Rightarrow> 'h \<times> bool) \<Rightarrow> ('h \<Rightarrow> 's \<Rightarrow> 'h) \<Rightarrow> 'h \<Rightarrow> 's list \<Rightarrow> 'h \<times> 's list \<times> 's option" where
  "episode bf af h [] = (h, [], None)"
| "episode bf af h (s # ss) =
     (let (h', blocked) = bf h s in
      if blocked then (h', [], Some s)
      else let (h'', taken, stop) = episode bf af (af h' s) ss in (h'', s # taken, stop))"

lemma episode_Cons:
  "episode bf af h (s # ss) =
     (if snd (bf h s) then (fst (bf h s), [], Some s)
      else (case episode bf af (af (fst (bf h s)) s) ss of (h'', taken, stop) \<Rightarrow> (h'', s # taken, stop)))"
  by (simp add: case_prod_beta Let_def)

declare episode.simps(2) [simp del]

text \<open>Some element satisfies \<open>T\<close>, and one at or before it satisfies \<open>P\<close>.\<close>

definition follows :: "('s \<Rightarrow> bool) \<Rightarrow> ('s \<Rightarrow> bool) \<Rightarrow> 's list \<Rightarrow> bool" where
  "follows P T ss \<longleftrightarrow> (\<exists>j < length ss. T (ss ! j) \<and> list_ex P (take (Suc j) ss))"

text \<open>No step of a list is forbidden in the memory of the steps before it.\<close>

fun never_forbidden :: "('f \<Rightarrow> 's \<Rightarrow> bool) \<Rightarrow> ('f \<Rightarrow> 's \<Rightarrow> 'f) \<Rightarrow> 'f \<Rightarrow> 's list \<Rightarrow> bool" where
  "never_forbidden fb lrn f [] = True"
| "never_forbidden fb lrn f (s # ss) = (\<not> fb f s \<and> never_forbidden fb lrn (lrn f s) ss)"

text \<open>
  \<open>before\<close> is asked when an action starts and answers whether it raises; \<open>after\<close> is told when
  the action has run. \<open>facts\<close> is what the gate remembers about the episode, \<open>forbids\<close> the verdict
  on a step in a memory, \<open>learn\<close> the change of the memory. The laws: asking changes no memory
  and counts the action; the first \<open>replayed\<close> actions are never blocked, every other one exactly
  when its memory forbids it; being told updates the memory and counts nothing.
\<close>

locale action_gate =
  fixes before :: "'h \<Rightarrow> 's \<Rightarrow> 'h \<times> bool"
    and after :: "'h \<Rightarrow> 's \<Rightarrow> 'h"
    and facts :: "'h \<Rightarrow> 'f"
    and counted :: "'h \<Rightarrow> int"
    and replayed :: "'h \<Rightarrow> int"
    and forbids :: "'h \<Rightarrow> 'f \<Rightarrow> 's \<Rightarrow> bool"
    and learn :: "'f \<Rightarrow> 's \<Rightarrow> 'f"
  assumes before_facts: "facts (fst (before h s)) = facts h"
    and before_counted: "counted (fst (before h s)) = counted h + 1"
    and before_replayed: "replayed (fst (before h s)) = replayed h"
    and before_forbids: "forbids (fst (before h s)) = forbids h"
    and before_blocks: "snd (before h s) \<longleftrightarrow> \<not> counted h < replayed h \<and> forbids h (facts h) s"
    and after_facts: "facts (after h s) = learn (facts h) s"
    and after_counted: "counted (after h s) = counted h"
    and after_replayed: "replayed (after h s) = replayed h"
    and after_forbids: "forbids (after h s) = forbids h"
begin

lemmas gate_laws = before_facts before_counted before_replayed before_forbids before_blocks
  after_facts after_counted after_replayed after_forbids

text \<open>The steps that ran are a prefix of the steps proposed; the memory is that of the steps that ran.\<close>

lemma episode_facts:
  assumes "episode before after h ss = (h', taken, stop)"
  shows "taken = take (length taken) ss" "facts h' = foldl learn (facts h) taken"
    "stop = None \<Longrightarrow> taken = ss" "stop = Some s \<Longrightarrow> \<exists>rest. ss = taken @ s # rest"
  using assms
proof (induction ss arbitrary: h taken)
  case (Cons x xs)
  {
    case 1
    with Cons.IH(1) show ?case by (auto simp: episode_Cons split: if_splits prod.splits)
  next
    case 2
    with Cons.IH(2) show ?case
      by (auto simp: episode_Cons gate_laws split: if_splits prod.splits)
  next
    case 3
    with Cons.IH(3) show ?case by (auto simp: episode_Cons split: if_splits prod.splits)
  next
    case 4
    with Cons.IH(4) show ?case by (fastforce simp: episode_Cons split: if_splits prod.splits)
  }
qed auto

text \<open>Soundness: no step outside the replayed prefix ran although its foldl learn forbade it.\<close>

lemma episode_sound:
  assumes "episode before after h ss = (h', taken, stop)" "i < length taken" "replayed h \<le> counted h + int i"
  shows "\<not> forbids h (foldl learn (facts h) (take i taken)) (taken ! i)"
  using assms
proof (induction ss arbitrary: h taken i)
  case (Cons x xs)
  then obtain taken' where r: "taken = x # taken'" "\<not> snd (before h x)"
    "episode before after (after (fst (before h x)) x) xs = (h', taken', stop)"
    by (auto simp: episode_Cons split: if_splits prod.splits)
  show ?case
  proof (cases i)
    case 0
    with r Cons.prems show ?thesis by (simp add: gate_laws)
  next
    case (Suc j)
    with Cons.IH [OF r(3), of j] r(1) Cons.prems show ?thesis by (simp add: gate_laws)
  qed
qed simp

text \<open>Precision: a step raises only if its foldl learn forbids it, and only after the replayed prefix.\<close>

lemma episode_precise:
  assumes "episode before after h ss = (h', taken, Some s)"
  shows "forbids h (foldl learn (facts h) taken) s \<and> replayed h \<le> counted h + int (length taken)"
  using assms
proof (induction ss arbitrary: h taken)
  case (Cons x xs)
  show ?case
  proof (cases "snd (before h x)")
    case True
    with Cons.prems show ?thesis by (auto simp: episode_Cons gate_laws)
  next
    case False
    with Cons.prems obtain taken' where r: "taken = x # taken'"
      "episode before after (after (fst (before h x)) x) xs = (h', taken', Some s)"
      by (auto simp: episode_Cons split: prod.splits)
    from Cons.IH [OF r(2)] show ?thesis by (simp add: r(1) gate_laws)
  qed
qed simp

text \<open>Transparency: an episode without a forbidden step runs to its end.\<close>

lemma episode_transparent:
  "never_forbidden (forbids h) learn (facts h) ss \<Longrightarrow> \<exists>h'. episode before after h ss = (h', ss, None)"
proof (induction ss arbitrary: h)
  case (Cons s ss)
  let ?h = "after (fst (before h s)) s"
  from Cons.prems have "never_forbidden (forbids ?h) learn (facts ?h) ss" "\<not> snd (before h s)"
    by (simp_all add: gate_laws)
  with Cons.IH [of ?h] show ?case by (auto simp: episode_Cons)
qed simp

text \<open>A property that one step establishes for good: it holds at the end iff some step established it.\<close>

lemma memory_latch:
  assumes "\<And>f s. P (learn f s) \<longleftrightarrow> P f \<or> Q s"
  shows "P (foldl learn f ss) \<longleftrightarrow> P f \<or> list_ex Q ss"
  using assms by (induction ss arbitrary: f) auto

text \<open>A property established by a step that finds or makes another one true.\<close>

lemma memory_latch2:
  assumes P: "\<And>f s. P (learn f s) \<longleftrightarrow> P f \<or> Q s"
    and R: "\<And>f s. R (learn f s) \<longleftrightarrow> R f \<or> P (learn f s) \<and> T s"
  shows "R (foldl learn f ss) \<longleftrightarrow> R f \<or> (\<exists>j < length ss. T (ss ! j) \<and> P (foldl learn f (take (Suc j) ss)))"
proof (induction ss arbitrary: f)
  case (Cons x xs)
  have "(\<exists>j < length (x # xs). T ((x # xs) ! j) \<and> P (foldl learn f (take (Suc j) (x # xs)))) \<longleftrightarrow>
      T x \<and> P (learn f x) \<or> (\<exists>j < length xs. T (xs ! j) \<and> P (foldl learn (learn f x) (take (Suc j) xs)))"
    by (auto simp: less_Suc_eq_0_disj)
  then show ?case using Cons.IH [of "learn f x"] R by auto
qed simp

lemma memory_follows:
  assumes P: "\<And>f s. P (learn f s) \<longleftrightarrow> P f \<or> Q s" and "\<not> P f"
    and R: "\<And>f s. R (learn f s) \<longleftrightarrow> R f \<or> P (learn f s) \<and> T s" and "\<not> R f"
  shows "R (foldl learn f ss) \<longleftrightarrow> follows Q T ss"
  using memory_latch2 [of P Q R T f ss, OF P R] memory_latch [of P Q, OF P] assms(2,4) by (simp add: follows_def)

end

end
