(* ===== verification/Protocol_V1_Hook.thy ===== *)
theory Protocol_V1_Hook
  imports Protocol_V1 Action_Gate
begin

text \<open>
  The version 1 constraint hook, the class of
  \<open>packages/clinic/src/wutai_clinic/intervention/protocol_v1_hook.py\<close>: its runtime state, the
  handlers \<open>before_action\<close> and \<open>after_action\<close> with the audit event each of them appends, and the two
  callbacks that use them. The other callbacks of the agent return at once and change nothing. The
  hook is an \<open>action_gate\<close>; what the gate guarantees of a whole episode follows from that contract.
\<close>

section \<open>Model\<close>

record v1_facts =
  failure_materialized :: bool
  patch_seen :: bool
  target_rechecked :: bool
  guard_rechecked :: bool
  guard_regression :: bool

record v1_state = v1_facts +
  action_index :: int

record v1_hook =
  h1_protocol :: protocol_v1
  h1_source_task_id :: "string option"
  h1_pair_id :: "string option"
  h1_prefix_count :: int
  h1_state :: v1_state
  h1_audit :: "json list"

definition new_v1_state :: v1_state where
  "new_v1_state = \<lparr>failure_materialized = False, patch_seen = False, target_rechecked = False,
     guard_rechecked = False, guard_regression = False, action_index = 0\<rparr>"

definition new_v1_hook :: "protocol_v1 \<Rightarrow> string option \<Rightarrow> string option \<Rightarrow> int \<Rightarrow> v1_hook" where
  "new_v1_hook p sid pid n = \<lparr>h1_protocol = p, h1_source_task_id = sid, h1_pair_id = pid, h1_prefix_count = n,
     h1_state = new_v1_state, h1_audit = []\<rparr>"

definition json_opt :: "string option \<Rightarrow> json" where
  "json_opt x = (case x of None \<Rightarrow> JNull | Some s \<Rightarrow> JStr s)"

definition v1_action_family :: "string \<Rightarrow> string" where
  "v1_action_family a =
     (if is_submit_action a then ''submit''
      else if is_source_edit_action a then ''source_edit''
      else if is_guard_action a then ''guard_check''
      else if is_test_or_repro_action a then ''target_check''
      else ''other'')"

text \<open>\<open>_block_reason\<close>: the violated constraint, \<open>None\<close> when the action may start.\<close>

definition v1_block_reason :: "protocol_v1 \<Rightarrow> 'a v1_facts_scheme \<Rightarrow> string \<Rightarrow> string option" where
  "v1_block_reason p st a =
     (let cs = set (a1_constraint_ids (p1_action p)) in
      if ''block_edit_until_failure_reproduced_or_explained'' \<in> cs \<and> is_source_edit_action a \<and> \<not> failure_materialized st
        then Some ''block_edit_until_failure_reproduced_or_explained''
      else if is_submit_action a \<and> patch_seen st then
        (if ''require_post_patch_target_recheck'' \<in> cs \<and> \<not> target_rechecked st
           then Some ''require_post_patch_target_recheck''
         else if ''require_post_patch_guard_recheck'' \<in> cs \<and> \<not> guard_rechecked st
           then Some ''require_post_patch_guard_recheck''
         else if ''block_submit_on_guard_regression'' \<in> cs \<and> guard_regression st
           then Some ''block_submit_on_guard_regression''
         else None)
      else None)"

definition v1_event :: "(string \<Rightarrow> string) \<Rightarrow> v1_hook \<Rightarrow> string \<Rightarrow> string \<Rightarrow> string option \<Rightarrow> bool \<Rightarrow> json pydict \<Rightarrow> json" where
  "v1_event hash h event family cid blocked extra = JObj (
     [(''event'', JStr event),
      (''source_task_id'', json_opt (h1_source_task_id h)),
      (''pair_id'', json_opt (h1_pair_id h)),
      (''protocol_hash'', JStr (protocol_v1_hash hash (h1_protocol h))),
      (''prescription_id'', JStr (a1_prescription_id (p1_action (h1_protocol h)))),
      (''constraint_id'', json_opt cid),
      (''action_index'', JInt (action_index (h1_state h))),
      (''replay_prefix_action_count'', JInt (h1_prefix_count h)),
      (''action_family'', JStr family),
      (''blocked'', JBool blocked),
      (''failure_materialized'', JBool (failure_materialized (h1_state h))),
      (''patch_seen'', JBool (patch_seen (h1_state h))),
      (''target_rechecked_after_patch'', JBool (target_rechecked (h1_state h))),
      (''guard_rechecked_after_patch'', JBool (guard_rechecked (h1_state h))),
      (''guard_regression_observed'', JBool (guard_regression (h1_state h))),
      (''runner_started'', JBool False),
      (''model_call_started'', JBool False),
      (''docker_or_official_eval_started'', JBool False),
      (''raw_payload_logged'', JBool False)] @ extra)"

definition v1_before_action :: "(string \<Rightarrow> string) \<Rightarrow> v1_hook \<Rightarrow> string \<Rightarrow> v1_hook \<times> json \<times> bool" where
  "v1_before_action hash h a =
     (let in_prefix = action_index (h1_state h) < h1_prefix_count h;
          reason = (if in_prefix then None else v1_block_reason (h1_protocol h) (h1_state h) a);
          blocked = (reason \<noteq> None);
          event = v1_event hash h
            (if in_prefix then ''protocol_v1_replay_action_allowed''
             else if blocked then ''protocol_v1_action_blocked'' else ''protocol_v1_action_allowed'')
            (v1_action_family a) reason blocked [(''replay_prefix'', JBool in_prefix)]
      in (h\<lparr>h1_audit := h1_audit h @ [event], h1_state := (h1_state h)\<lparr>action_index := action_index (h1_state h) + 1\<rparr>\<rparr>,
          event, blocked))"

text \<open>The flags after an action has run.\<close>

definition v1_learn :: "'a v1_facts_scheme \<Rightarrow> string \<Rightarrow> string \<Rightarrow> 'a v1_facts_scheme" where
  "v1_learn st a obs =
     (let before = patch_seen st;
          st1 = (if is_source_edit_action a then st\<lparr>patch_seen := True\<rparr> else st);
          st2 = (if is_test_or_repro_action a \<and> observation_has_failure obs
                 then st1\<lparr>failure_materialized := True\<rparr> else st1);
          st3 = (if before \<or> patch_seen st2 then
                   (let s = (if is_test_or_repro_action a \<and> \<not> is_guard_action a
                             then st2\<lparr>target_rechecked := True\<rparr> else st2)
                    in if is_guard_action a then s\<lparr>guard_rechecked := True\<rparr> else s)
                 else st2)
      in if is_guard_action a \<and> observation_has_guard_regression obs
         then st3\<lparr>guard_regression := True\<rparr> else st3)"

definition v1_after_action :: "(string \<Rightarrow> string) \<Rightarrow> v1_hook \<Rightarrow> string \<Rightarrow> string \<Rightarrow> v1_hook \<times> json" where
  "v1_after_action hash h a obs =
     (let h' = h\<lparr>h1_state := v1_learn (h1_state h) a obs\<rparr>;
          event = v1_event hash h' ''protocol_v1_action_observed'' (v1_action_family a) None False
            [(''observation_failure_detected'', JBool (observation_has_failure obs)),
             (''guard_regression_detected'', JBool (observation_has_guard_regression obs))]
      in (h'\<lparr>h1_audit := h1_audit h' @ [event]\<rparr>, event))"

text \<open>The callbacks; the boolean says that \<open>ProtocolV1ConstraintViolation\<close> is raised.\<close>

definition v1_on_action_started :: "(string \<Rightarrow> string) \<Rightarrow> v1_hook \<Rightarrow> agent_step \<Rightarrow> v1_hook \<times> bool" where
  "v1_on_action_started hash h s =
     (case v1_before_action hash h (step_action (fst s)) of (h', event, blocked) \<Rightarrow> (h', blocked))"

definition v1_on_action_executed :: "(string \<Rightarrow> string) \<Rightarrow> v1_hook \<Rightarrow> agent_step \<Rightarrow> v1_hook" where
  "v1_on_action_executed hash h s =
     fst (v1_after_action hash h (step_action (snd s)) (step_observation (snd s)))"

definition event_blocked :: "json \<Rightarrow> bool" where
  "event_blocked e = (json_get e ''blocked'' = Inr (JBool True))"

definition v1_blocking_event_count :: "v1_hook \<Rightarrow> nat" where
  "v1_blocking_event_count h = length (filter event_blocked (h1_audit h))"

section \<open>The hook is a gate\<close>

definition v1_facts_of :: "v1_hook \<Rightarrow> v1_facts" where
  "v1_facts_of h = v1_facts.truncate (h1_state h)"

abbreviation v1_forbids :: "v1_hook \<Rightarrow> v1_facts \<Rightarrow> agent_step \<Rightarrow> bool" where
  "v1_forbids h f s \<equiv> v1_block_reason (h1_protocol h) f (started_action s) \<noteq> None"

abbreviation v1_learn_step :: "v1_facts \<Rightarrow> agent_step \<Rightarrow> v1_facts" where
  "v1_learn_step f s \<equiv> v1_learn f (ran_action s) (observed_text s)"

lemma block_reason_truncate: "v1_block_reason p (v1_facts.truncate st) a = v1_block_reason p st a"
  by (auto simp: v1_block_reason_def v1_facts.truncate_def Let_def)

lemma learn_truncate: "v1_facts.truncate (v1_learn st a obs) = v1_learn (v1_facts.truncate st) a obs"
  by (simp add: v1_learn_def v1_facts.truncate_def Let_def)

lemma learn_index: "action_index (v1_learn st a obs) = action_index st"
  by (simp add: v1_learn_def Let_def)

interpretation v1: action_gate "v1_on_action_started hash" "v1_on_action_executed hash" v1_facts_of
  "\<lambda>h. action_index (h1_state h)" h1_prefix_count v1_forbids v1_learn_step for hash
proof unfold_locales
  fix h :: v1_hook and s :: agent_step
  note defs = v1_on_action_started_def v1_before_action_def v1_on_action_executed_def v1_after_action_def
    v1_facts_of_def Let_def
  show "v1_facts_of (fst (v1_on_action_started hash h s)) = v1_facts_of h"
    "v1_facts_of (v1_on_action_executed hash h s) = v1_learn_step (v1_facts_of h) s"
    by (simp_all add: defs learn_truncate) (simp add: v1_facts.truncate_def)
  show "snd (v1_on_action_started hash h s) \<longleftrightarrow>
      \<not> action_index (h1_state h) < h1_prefix_count h \<and> v1_forbids h (v1_facts_of h) s"
    by (simp add: defs block_reason_truncate)
qed (simp_all add: v1_on_action_started_def v1_before_action_def v1_on_action_executed_def v1_after_action_def
    Let_def learn_index)

section \<open>What the memory says of the steps that ran\<close>

abbreviation edits :: "agent_step \<Rightarrow> bool" where
  "edits s \<equiv> is_source_edit_action (ran_action s)"

definition shows_failure :: "agent_step \<Rightarrow> bool" where
  "shows_failure s \<longleftrightarrow> is_test_or_repro_action (ran_action s) \<and> observation_has_failure (observed_text s)"

definition shows_regression :: "agent_step \<Rightarrow> bool" where
  "shows_regression s \<longleftrightarrow> is_guard_action (ran_action s) \<and> observation_has_guard_regression (observed_text s)"

definition checks_target :: "agent_step \<Rightarrow> bool" where
  "checks_target s \<longleftrightarrow> is_test_or_repro_action (ran_action s) \<and> \<not> is_guard_action (ran_action s)"

definition checks_guard :: "agent_step \<Rightarrow> bool" where
  "checks_guard s \<longleftrightarrow> is_guard_action (ran_action s)"

text \<open>Some step of the list makes the check, and an edit is at or before it.\<close>

abbreviation checked_after_edit :: "(agent_step \<Rightarrow> bool) \<Rightarrow> agent_step list \<Rightarrow> bool" where
  "checked_after_edit check ss \<equiv> follows edits check ss"

lemma learn_flags:
  "failure_materialized (v1_learn_step f s) \<longleftrightarrow> failure_materialized f \<or> shows_failure s"
  "patch_seen (v1_learn_step f s) \<longleftrightarrow> patch_seen f \<or> edits s"
  "guard_regression (v1_learn_step f s) \<longleftrightarrow> guard_regression f \<or> shows_regression s"
  "target_rechecked (v1_learn_step f s) \<longleftrightarrow> target_rechecked f \<or> patch_seen (v1_learn_step f s) \<and> checks_target s"
  "guard_rechecked (v1_learn_step f s) \<longleftrightarrow> guard_rechecked f \<or> patch_seen (v1_learn_step f s) \<and> checks_guard s"
  by (auto simp: v1_learn_def Let_def shows_failure_def shows_regression_def checks_target_def checks_guard_def)

definition no_facts :: v1_facts where
  "no_facts = v1_facts.truncate new_v1_state"

lemma no_facts_simps [simp]:
  "\<not> failure_materialized no_facts" "\<not> patch_seen no_facts" "\<not> target_rechecked no_facts"
  "\<not> guard_rechecked no_facts" "\<not> guard_regression no_facts"
  by (simp_all add: no_facts_def new_v1_state_def v1_facts.truncate_def)

lemma memory_flags:
  "failure_materialized (foldl v1_learn_step no_facts ss) \<longleftrightarrow> list_ex shows_failure ss"
  "patch_seen (foldl v1_learn_step no_facts ss) \<longleftrightarrow> list_ex edits ss"
  "guard_regression (foldl v1_learn_step no_facts ss) \<longleftrightarrow> list_ex shows_regression ss"
  by (simp_all add: v1.memory_latch [where P = failure_materialized and Q = shows_failure]
      v1.memory_latch [where P = patch_seen and Q = edits]
      v1.memory_latch [where P = guard_regression and Q = shows_regression] learn_flags)

lemma memory_rechecks:
  "target_rechecked (foldl v1_learn_step no_facts ss) \<longleftrightarrow> checked_after_edit checks_target ss"
  "guard_rechecked (foldl v1_learn_step no_facts ss) \<longleftrightarrow> checked_after_edit checks_guard ss"
  by (intro v1.memory_follows [where P = patch_seen]; simp add: learn_flags)+

lemma if_Some_None:
  "((if c then Some x else e) \<noteq> None) = (c \<or> e \<noteq> None)" "((if c then e else None) \<noteq> None) = (c \<and> e \<noteq> None)"
  by simp_all

text \<open>The reason to block, read off the steps that ran.\<close>

lemma block_reason_history:
  "v1_block_reason p (foldl v1_learn_step no_facts ss) a \<noteq> None \<longleftrightarrow>
     (let cs = set (a1_constraint_ids (p1_action p)) in
       ''block_edit_until_failure_reproduced_or_explained'' \<in> cs \<and> is_source_edit_action a \<and> \<not> list_ex shows_failure ss \<or>
       is_submit_action a \<and> list_ex edits ss \<and>
         (''require_post_patch_target_recheck'' \<in> cs \<and> \<not> checked_after_edit checks_target ss \<or>
          ''require_post_patch_guard_recheck'' \<in> cs \<and> \<not> checked_after_edit checks_guard ss \<or>
          ''block_submit_on_guard_regression'' \<in> cs \<and> list_ex shows_regression ss))"
  unfolding v1_block_reason_def Let_def memory_flags memory_rechecks if_Some_None by blast

lemma new_hook_simps [simp]:
  "v1_facts_of (new_v1_hook p sid pid n) = no_facts" "action_index (h1_state (new_v1_hook p sid pid n)) = 0"
  "h1_prefix_count (new_v1_hook p sid pid n) = n" "h1_protocol (new_v1_hook p sid pid n) = p"
  by (simp_all add: new_v1_hook_def v1_facts_of_def no_facts_def new_v1_state_def)

text \<open>The constraints an accepted protocol has.\<close>

lemma valid_constraints:
  assumes "valid_v1 p"
  shows "a1_prescription_id (p1_action p) = ''targeted_failure_oracle'' \<Longrightarrow>
      ''block_edit_until_failure_reproduced_or_explained'' \<in> set (a1_constraint_ids (p1_action p))"
    "a1_prescription_id (p1_action p) = ''regression_guarded_patch_validation'' \<Longrightarrow>
      ''require_post_patch_guard_recheck'' \<in> set (a1_constraint_ids (p1_action p)) \<and>
      ''block_submit_on_guard_regression'' \<in> set (a1_constraint_ids (p1_action p))"
    "''require_post_patch_target_recheck'' \<in> set (a1_constraint_ids (p1_action p))"
  using assms by (auto simp: valid_v1_def PRESCRIPTION_CONSTRAINTS_def dict_get_def split: if_splits)

abbreviation v1_episode :: "(string \<Rightarrow> string) \<Rightarrow> v1_hook \<Rightarrow> agent_step list \<Rightarrow> v1_hook \<times> agent_step list \<times> agent_step option" where
  "v1_episode hash \<equiv> episode (v1_on_action_started hash) (v1_on_action_executed hash)"

text \<open>
  C17: what a version 1 episode guarantees. Under an accepted protocol, of the actions that ran after the
  replayed prefix: with the failure-oracle prescription, a source edit comes after a test run that showed a
  failure; with either prescription, a submission after an edit comes after a target check that follows an
  edit; with the regression prescription it also comes after a guard check that follows an edit, and no
  guard regression has been observed.
\<close>

theorem v1_episode_safe:
  assumes "v1_episode hash (new_v1_hook p sid pid n) steps = (h', taken, stop)" "valid_v1 p"
    "i < length taken" "n \<le> int i"
  shows
    "(a1_prescription_id (p1_action p) = ''targeted_failure_oracle'' \<longrightarrow>
        is_source_edit_action (started_action (taken ! i)) \<longrightarrow> list_ex shows_failure (take i taken)) \<and>
     (is_submit_action (started_action (taken ! i)) \<longrightarrow> list_ex edits (take i taken) \<longrightarrow>
        checked_after_edit checks_target (take i taken) \<and>
        (a1_prescription_id (p1_action p) = ''regression_guarded_patch_validation'' \<longrightarrow>
           checked_after_edit checks_guard (take i taken) \<and> \<not> list_ex shows_regression (take i taken)))"
proof -
  from v1.episode_sound [OF assms(1), of i] assms(3,4)
  have "v1_block_reason p (foldl v1_learn_step no_facts (take i taken)) (started_action (taken ! i)) = None" by simp
  then have "\<not> (v1_block_reason p (foldl v1_learn_step no_facts (take i taken)) (started_action (taken ! i)) \<noteq> None)"
    by simp
  from this [unfolded block_reason_history Let_def] valid_constraints [OF assms(2)]
  show ?thesis by blast
qed

definition step_of :: "string \<Rightarrow> string \<Rightarrow> agent_step" where
  "step_of a obs = (SText a, SDict [(''action'', SText a), (''observation'', SText obs)] '''')"

text \<open>How the actions of the examples are classified.\<close>

lemma classified:
  "\<not> is_submit_action ''pytest tests''" "\<not> is_source_edit_action ''pytest tests''"
  "is_test_or_repro_action ''pytest tests''" "\<not> is_guard_action ''pytest tests''"
  "\<not> is_submit_action ''cat a.py''" "\<not> is_source_edit_action ''cat a.py''" "\<not> is_test_or_repro_action ''cat a.py''"
  "\<not> is_submit_action ''str_replace_editor str_replace a.py''" "is_source_edit_action ''str_replace_editor str_replace a.py''"
  "\<not> is_test_or_repro_action ''str_replace_editor str_replace a.py''"
  "\<not> is_guard_action ''str_replace_editor str_replace a.py''"
  "is_submit_action ''submit''" "\<not> is_source_edit_action ''submit''" "\<not> is_test_or_repro_action ''submit''"
  "\<not> is_guard_action ''submit''"
  "\<not> is_submit_action ''python setup.py build''" "\<not> is_source_edit_action ''python setup.py build''"
  "\<not> is_test_or_repro_action ''python setup.py build''"
  by code_simp+

lemma observed_failure: "observation_has_failure ''1 failed''" "\<not> observation_has_failure ''1 passed''"
  "\<not> observation_has_failure ''done''"
  by code_simp+

lemma step_of_simps [simp]:
  "started_action (step_of a obs) = a" "ran_action (step_of a obs) = a" "observed_text (step_of a obs) = obs"
  by (auto simp: step_of_def step_action_def first_field_def ACTION_KEYS_def)

lemmas example_evaluation = example_protocol_v1_def v1_block_reason_def v1_learn_def Let_def classified observed_failure

definition example_steps :: "agent_step list" where
  "example_steps = [step_of ''pytest tests'' ''1 failed'', step_of ''str_replace_editor str_replace a.py'' ''done'',
     step_of ''pytest tests'' ''1 passed'', step_of ''submit'' '''']"

abbreviation v1_permits :: "protocol_v1 \<Rightarrow> agent_step list \<Rightarrow> bool" where
  "v1_permits p \<equiv> never_forbidden (\<lambda>f s. v1_block_reason p f (started_action s) \<noteq> None) v1_learn_step no_facts"

lemma permitted_episode:
  "v1_permits p steps \<Longrightarrow> \<exists>h'. v1_episode hash (new_v1_hook p sid pid n) steps = (h', steps, None)"
  using v1.episode_transparent [of "new_v1_hook p sid pid n"] by simp

lemma example_permitted: "v1_permits example_protocol_v1 example_steps"
  by (simp add: example_steps_def example_evaluation)

theorem v1_episode_safe_witness:
  "list_ex shows_failure (take 1 example_steps) \<and> checked_after_edit checks_target (take 3 example_steps)"
proof -
  obtain h' where e: "v1_episode id (new_v1_hook example_protocol_v1 None None 0) example_steps = (h', example_steps, None)"
    using permitted_episode [OF example_permitted] by blast
  have len: "length example_steps = 4" by (simp add: example_steps_def)
  have "is_source_edit_action (started_action (example_steps ! 1))" "is_submit_action (started_action (example_steps ! 3))"
    "list_ex edits (take 3 example_steps)" by (simp_all add: example_steps_def classified)
  moreover have "a1_prescription_id (p1_action example_protocol_v1) = ''targeted_failure_oracle''"
    by (simp add: example_protocol_v1_def)
  ultimately show ?thesis
    using v1_episode_safe [OF e example_v1_valid, of 1] v1_episode_safe [OF e example_v1_valid, of 3] len by auto
qed

text \<open>The audit trail of an episode: an event per start and per completion, blocked only where it stops.\<close>

lemma started_v1:
  "length (h1_audit (fst (v1_on_action_started hash h s))) = Suc (length (h1_audit h))"
  "v1_blocking_event_count (fst (v1_on_action_started hash h s)) =
     v1_blocking_event_count h + (if snd (v1_on_action_started hash h s) then 1 else 0)"
  by (simp_all add: v1_on_action_started_def v1_before_action_def Let_def v1_blocking_event_count_def
      event_blocked_def v1_event_def)

lemma executed_v1:
  "length (h1_audit (v1_on_action_executed hash h s)) = Suc (length (h1_audit h))"
  "v1_blocking_event_count (v1_on_action_executed hash h s) = v1_blocking_event_count h"
  by (simp_all add: v1_on_action_executed_def v1_after_action_def Let_def v1_blocking_event_count_def
      event_blocked_def v1_event_def)

lemma v1_trail:
  "v1_episode hash h steps = (h', taken, stop) \<Longrightarrow>
     length (h1_audit h') = length (h1_audit h) + 2 * length taken + (if stop = None then 0 else 1) \<and>
     v1_blocking_event_count h' = v1_blocking_event_count h + (if stop = None then 0 else 1)"
proof (induction steps arbitrary: h taken)
  case (Cons s ss)
  show ?case
  proof (cases "snd (v1_on_action_started hash h s)")
    case True
    with Cons.prems show ?thesis by (auto simp: episode_Cons started_v1)
  next
    case False
    with Cons.prems obtain taken' where t: "taken = s # taken'"
      "v1_episode hash (v1_on_action_executed hash (fst (v1_on_action_started hash h s)) s) ss = (h', taken', stop)"
      by (auto simp: episode_Cons split: prod.splits)
    from Cons.IH [OF t(2)] show ?thesis using False by (simp add: t(1) started_v1 executed_v1)
  qed
qed simp

text \<open>What a step that the gate stops has done.\<close>

definition v1_violation :: "agent_step list \<Rightarrow> agent_step \<Rightarrow> bool" where
  "v1_violation taken s \<longleftrightarrow>
     is_source_edit_action (started_action s) \<and> \<not> list_ex shows_failure taken \<or>
     is_submit_action (started_action s) \<and> list_ex edits taken \<and>
       (\<not> checked_after_edit checks_target taken \<or> \<not> checked_after_edit checks_guard taken \<or>
        list_ex shows_regression taken)"

lemma v1_stop_violates:
  assumes "v1_episode hash (new_v1_hook p sid pid n) steps = (h', taken, Some s)"
  shows "n \<le> int (length taken) \<and> v1_violation taken s"
proof -
  from v1.episode_precise [OF assms]
  have "v1_block_reason p (foldl v1_learn_step no_facts taken) (started_action s) \<noteq> None" "n \<le> int (length taken)"
    by simp_all
  then show ?thesis unfolding block_reason_history Let_def v1_violation_def by blast
qed

text \<open>
  a version 1 hook stops an episode only for a violation, and the audit trail shows it. The step that
  raises comes after the replayed prefix and is an edit before any failing test, or a submission after an
  edit without the checks or with a guard regression; the steps before it all ran. The trail has one event
  per action that started and one per action that ran, and exactly one of them is blocked if the episode was
  stopped, none otherwise.
\<close>

theorem v1_episode_precise:
  assumes "v1_episode hash (new_v1_hook p sid pid n) steps = (h', taken, stop)"
  shows "(\<forall>s. stop = Some s \<longrightarrow> n \<le> int (length taken) \<and> (\<exists>rest. steps = taken @ s # rest) \<and> v1_violation taken s) \<and>
    (stop = None \<longrightarrow> taken = steps) \<and>
    length (h1_audit h') = 2 * length taken + (if stop = None then 0 else 1) \<and>
    v1_blocking_event_count h' = (if stop = None then 0 else 1)"
proof -
  have "h1_audit (new_v1_hook p sid pid n) = []" by (simp add: new_v1_hook_def)
  with v1_trail [OF assms] show ?thesis
    using v1_stop_violates [of hash p sid pid n steps h' taken] v1.episode_facts(3,4) [OF assms] assms
    by (simp add: v1_blocking_event_count_def)
qed

theorem v1_episode_precise_witness:
  "\<exists>h'. v1_episode id (new_v1_hook example_protocol_v1 None None 0) example_steps = (h', example_steps, None) \<and>
     length (h1_audit h') = 8"
proof -
  obtain h' where e: "v1_episode id (new_v1_hook example_protocol_v1 None None 0) example_steps = (h', example_steps, None)"
    using permitted_episode [OF example_permitted] by blast
  have "length example_steps = 4" by (simp add: example_steps_def)
  with v1_episode_precise [OF e] e show ?thesis by simp
qed

section \<open>A stale recheck\<close>

definition stale_steps :: "agent_step list" where
  "stale_steps = [step_of ''pytest tests'' ''1 failed'', step_of ''str_replace_editor str_replace a.py'' ''done'',
     step_of ''pytest tests'' ''1 failed'', step_of ''str_replace_editor str_replace a.py'' ''done'', step_of ''submit'' '''']"

text \<open>
  a recheck is never invalidated. The flag is set by a check after the first edit and no later edit
  resets it: an episode whose last edit comes after its last check, a failing one, is submitted without being
  blocked, although the protocol requires a recheck after the patch.
\<close>

theorem stale_recheck_submits:
  "\<exists>h'. v1_episode id (new_v1_hook example_protocol_v1 None None 0) stale_steps = (h', stale_steps, None) \<and>
     \<not> list_ex checks_target (drop 3 stale_steps) \<and> edits (stale_steps ! 3) \<and>
     ''require_post_patch_target_recheck'' \<in> set (a1_constraint_ids (p1_action example_protocol_v1))"
proof -
  have "v1_permits example_protocol_v1 stale_steps" by (simp add: stale_steps_def example_evaluation)
  then obtain h' where e: "v1_episode id (new_v1_hook example_protocol_v1 None None 0) stale_steps = (h', stale_steps, None)"
    using permitted_episode by blast
  have "\<not> list_ex checks_target (drop 3 stale_steps)" "edits (stale_steps ! 3)"
    by (simp_all add: stale_steps_def checks_target_def classified)
  moreover have "''require_post_patch_target_recheck'' \<in> set (a1_constraint_ids (p1_action example_protocol_v1))"
    by (simp add: example_protocol_v1_def)
  ultimately show ?thesis using e by blast
qed

end
