(* ===== verification/Protocol_V2_Hook.thy ===== *)
theory Protocol_V2_Hook
  imports Protocol_V2 Protocol_V1_Hook
begin

text \<open>
  The version 2 constraint hook, \<open>packages/clinic/src/wutai_clinic/intervention/protocol_v2_hook.py\<close>: the
  same two handlers over its own runtime state, the interruption of repeated action families, and the
  observe-only mode that records violations without enforcing them. It is an \<open>action_gate\<close> too.
\<close>

section \<open>Model\<close>

definition is_context_broadening_action :: "string \<Rightarrow> bool" where
  "is_context_broadening_action a \<longleftrightarrow>
     mentions [''grep'', ''rg '', ''find '', ''sed '', ''cat '', ''ls '', ''view'', ''search'', ''read'', ''callsite'', ''symbol''] a \<and>
     \<not> is_source_edit_action a"

record v2_facts =
  f2_failure_materialized :: bool
  f2_context_broadened :: bool
  f2_patch_seen :: bool
  f2_target_rechecked :: bool
  f2_last_family :: "string option"
  f2_streak :: int

record v2_state = v2_facts +
  f2_action_index :: int

record v2_hook =
  h2_protocol :: protocol_v2
  h2_source_task_id :: "string option"
  h2_pair_id :: "string option"
  h2_prefix_count :: int
  h2_observe_only :: bool
  h2_state :: v2_state
  h2_audit :: "json list"

definition new_v2_state :: v2_state where
  "new_v2_state = \<lparr>f2_failure_materialized = False, f2_context_broadened = False, f2_patch_seen = False,
     f2_target_rechecked = False, f2_last_family = None, f2_streak = 0, f2_action_index = 0\<rparr>"

definition new_v2_hook :: "protocol_v2 \<Rightarrow> string option \<Rightarrow> string option \<Rightarrow> int \<Rightarrow> bool \<Rightarrow> v2_hook" where
  "new_v2_hook p sid pid n observe = \<lparr>h2_protocol = p, h2_source_task_id = sid, h2_pair_id = pid, h2_prefix_count = n,
     h2_observe_only = observe, h2_state = new_v2_state, h2_audit = []\<rparr>"

definition v2_action_family :: "string \<Rightarrow> string" where
  "v2_action_family a =
     (if is_submit_action a then ''submit''
      else if is_source_edit_action a then ''source_edit''
      else if is_test_or_repro_action a then ''target_check''
      else if is_context_broadening_action a then ''context_broadening''
      else ''other'')"

definition v2_block_reason :: "protocol_v2 \<Rightarrow> 'a v2_facts_scheme \<Rightarrow> string \<Rightarrow> string option" where
  "v2_block_reason p st a =
     (let steps = set (a2_steps (p2_action p)) in
      if ''interrupt_repeated_failure_loop'' \<in> steps \<and> Some (v2_action_family a) = f2_last_family st \<and>
         3 \<le> f2_streak st \<and> \<not> is_context_broadening_action a
        then Some ''interrupt_repeated_failure_loop''
      else if ''require_explicit_failure_reproduction'' \<in> steps \<and> is_source_edit_action a \<and> \<not> f2_failure_materialized st
        then Some ''require_explicit_failure_reproduction''
      else if ''require_alternative_hypothesis_before_next_patch'' \<in> steps \<and> is_source_edit_action a \<and>
              \<not> f2_context_broadened st
        then Some ''require_alternative_hypothesis_before_next_patch''
      else if ''require_targeted_post_patch_recheck'' \<in> steps \<and> is_submit_action a \<and> f2_patch_seen st \<and>
              \<not> f2_target_rechecked st
        then Some ''require_targeted_post_patch_recheck''
      else None)"

definition v2_event :: "(string \<Rightarrow> string) \<Rightarrow> v2_hook \<Rightarrow> string \<Rightarrow> string \<Rightarrow> string option \<Rightarrow> bool \<Rightarrow> json pydict \<Rightarrow> json" where
  "v2_event hash h event family cid blocked extra = JObj (
     [(''event'', JStr event),
      (''source_task_id'', json_opt (h2_source_task_id h)),
      (''pair_id'', json_opt (h2_pair_id h)),
      (''protocol_hash'', JStr (protocol_v2_hash hash (h2_protocol h))),
      (''prescription_id'', JStr (a2_prescription_id (p2_action (h2_protocol h)))),
      (''constraint_id'', json_opt cid),
      (''action_index'', JInt (f2_action_index (h2_state h))),
      (''replay_prefix_action_count'', JInt (h2_prefix_count h)),
      (''action_family'', JStr family),
      (''blocked'', JBool blocked),
      (''failure_materialized'', JBool (f2_failure_materialized (h2_state h))),
      (''context_broadened_after_failure'', JBool (f2_context_broadened (h2_state h))),
      (''patch_seen'', JBool (f2_patch_seen (h2_state h))),
      (''target_rechecked_after_patch'', JBool (f2_target_rechecked (h2_state h))),
      (''same_action_family_streak'', JInt (f2_streak (h2_state h))),
      (''runner_started'', JBool False),
      (''model_call_started'', JBool False),
      (''docker_or_official_eval_started'', JBool False),
      (''raw_payload_logged'', JBool False)] @ extra)"

definition v2_before_action :: "(string \<Rightarrow> string) \<Rightarrow> v2_hook \<Rightarrow> string \<Rightarrow> v2_hook \<times> json \<times> bool" where
  "v2_before_action hash h a =
     (let in_prefix = f2_action_index (h2_state h) < h2_prefix_count h;
          reason = (if in_prefix then None else v2_block_reason (h2_protocol h) (h2_state h) a);
          violated = (reason \<noteq> None);
          blocked = (violated \<and> \<not> h2_observe_only h);
          event = v2_event hash h
            (if in_prefix then ''protocol_v2_replay_action_allowed''
             else if blocked then ''protocol_v2_action_blocked''
             else if violated then ''protocol_v2_action_would_block_observe_only''
             else ''protocol_v2_action_allowed'')
            (v2_action_family a) reason blocked
            [(''would_have_blocked'', JBool (violated \<and> h2_observe_only h)), (''replay_prefix'', JBool in_prefix)]
      in (h\<lparr>h2_audit := h2_audit h @ [event],
            h2_state := (h2_state h)\<lparr>f2_action_index := f2_action_index (h2_state h) + 1\<rparr>\<rparr>, event, blocked))"

definition v2_learn :: "'a v2_facts_scheme \<Rightarrow> string \<Rightarrow> string \<Rightarrow> 'a v2_facts_scheme" where
  "v2_learn st a obs =
     (let family = v2_action_family a;
          st1 = st\<lparr>f2_streak := (if Some family = f2_last_family st then f2_streak st + 1 else 1), f2_last_family := Some family\<rparr>;
          before = f2_patch_seen st1;
          st2 = (if is_test_or_repro_action a \<and> observation_has_failure obs
                 then st1\<lparr>f2_failure_materialized := True\<rparr> else st1);
          st3 = (if f2_failure_materialized st2 \<and> is_context_broadening_action a
                 then st2\<lparr>f2_context_broadened := True\<rparr> else st2);
          st4 = (if is_source_edit_action a then st3\<lparr>f2_patch_seen := True\<rparr> else st3)
      in if (before \<or> f2_patch_seen st4) \<and> is_test_or_repro_action a
         then st4\<lparr>f2_target_rechecked := True\<rparr> else st4)"

definition v2_after_action :: "(string \<Rightarrow> string) \<Rightarrow> v2_hook \<Rightarrow> string \<Rightarrow> string \<Rightarrow> v2_hook \<times> json" where
  "v2_after_action hash h a obs =
     (let h' = h\<lparr>h2_state := v2_learn (h2_state h) a obs\<rparr>;
          event = v2_event hash h' ''protocol_v2_action_observed'' (v2_action_family a) None False
            [(''observation_failure_detected'', JBool (observation_has_failure obs))]
      in (h'\<lparr>h2_audit := h2_audit h' @ [event]\<rparr>, event))"

definition v2_on_action_started :: "(string \<Rightarrow> string) \<Rightarrow> v2_hook \<Rightarrow> agent_step \<Rightarrow> v2_hook \<times> bool" where
  "v2_on_action_started hash h s =
     (case v2_before_action hash h (step_action (fst s)) of (h', event, blocked) \<Rightarrow> (h', blocked))"

definition v2_on_action_executed :: "(string \<Rightarrow> string) \<Rightarrow> v2_hook \<Rightarrow> agent_step \<Rightarrow> v2_hook" where
  "v2_on_action_executed hash h s =
     fst (v2_after_action hash h (step_action (snd s)) (step_observation (snd s)))"

definition v2_blocking_event_count :: "v2_hook \<Rightarrow> nat" where
  "v2_blocking_event_count h = length (filter event_blocked (h2_audit h))"

section \<open>The hook is a gate\<close>

definition v2_facts_of :: "v2_hook \<Rightarrow> v2_facts" where
  "v2_facts_of h = v2_facts.truncate (h2_state h)"

abbreviation v2_forbids :: "v2_hook \<Rightarrow> v2_facts \<Rightarrow> agent_step \<Rightarrow> bool" where
  "v2_forbids h f s \<equiv> \<not> h2_observe_only h \<and> v2_block_reason (h2_protocol h) f (started_action s) \<noteq> None"

abbreviation v2_learn_step :: "v2_facts \<Rightarrow> agent_step \<Rightarrow> v2_facts" where
  "v2_learn_step f s \<equiv> v2_learn f (ran_action s) (observed_text s)"

lemma v2_block_reason_truncate: "v2_block_reason p (v2_facts.truncate st) a = v2_block_reason p st a"
  by (auto simp: v2_block_reason_def v2_facts.truncate_def Let_def)

lemma v2_learn_truncate: "v2_facts.truncate (v2_learn st a obs) = v2_learn (v2_facts.truncate st) a obs"
  by (simp add: v2_learn_def v2_facts.truncate_def Let_def)

lemma v2_learn_index: "f2_action_index (v2_learn st a obs) = f2_action_index st"
  by (simp add: v2_learn_def Let_def)

interpretation v2: action_gate "v2_on_action_started hash" "v2_on_action_executed hash" v2_facts_of
  "\<lambda>h. f2_action_index (h2_state h)" h2_prefix_count v2_forbids v2_learn_step for hash
proof unfold_locales
  fix h :: v2_hook and s :: agent_step
  note defs = v2_on_action_started_def v2_before_action_def v2_on_action_executed_def v2_after_action_def
    v2_facts_of_def Let_def
  show "v2_facts_of (fst (v2_on_action_started hash h s)) = v2_facts_of h"
    "v2_facts_of (v2_on_action_executed hash h s) = v2_learn_step (v2_facts_of h) s"
    by (simp_all add: defs v2_learn_truncate) (simp add: v2_facts.truncate_def)
  show "snd (v2_on_action_started hash h s) \<longleftrightarrow>
      \<not> f2_action_index (h2_state h) < h2_prefix_count h \<and> v2_forbids h (v2_facts_of h) s"
    by (auto simp: defs v2_block_reason_truncate)
qed (simp_all add: v2_on_action_started_def v2_before_action_def v2_on_action_executed_def v2_after_action_def
    Let_def v2_learn_index)

section \<open>What the memory says of the steps that ran\<close>

definition no_facts_v2 :: v2_facts where
  "no_facts_v2 = v2_facts.truncate new_v2_state"

abbreviation broadens :: "agent_step \<Rightarrow> bool" where
  "broadens s \<equiv> is_context_broadening_action (ran_action s)"

abbreviation rechecks :: "agent_step \<Rightarrow> bool" where
  "rechecks s \<equiv> is_test_or_repro_action (ran_action s)"

text \<open>How many of the latest steps belong to a family.\<close>

definition repeats :: "string \<Rightarrow> agent_step list \<Rightarrow> nat" where
  "repeats family ss = length (takeWhile (\<lambda>s. v2_action_family (ran_action s) = family) (rev ss))"

lemma v2_learn_flags:
  "f2_failure_materialized (v2_learn_step f s) \<longleftrightarrow> f2_failure_materialized f \<or> shows_failure s"
  "f2_patch_seen (v2_learn_step f s) \<longleftrightarrow> f2_patch_seen f \<or> edits s"
  "f2_context_broadened (v2_learn_step f s) \<longleftrightarrow> f2_context_broadened f \<or> f2_failure_materialized (v2_learn_step f s) \<and> broadens s"
  "f2_target_rechecked (v2_learn_step f s) \<longleftrightarrow> f2_target_rechecked f \<or> f2_patch_seen (v2_learn_step f s) \<and> rechecks s"
  "f2_last_family (v2_learn_step f s) = Some (v2_action_family (ran_action s))"
  "f2_streak (v2_learn_step f s) = (if Some (v2_action_family (ran_action s)) = f2_last_family f then f2_streak f + 1 else 1)"
  by (auto simp: v2_learn_def Let_def shows_failure_def)

lemma no_facts_v2_simps [simp]:
  "\<not> f2_failure_materialized no_facts_v2" "\<not> f2_patch_seen no_facts_v2" "\<not> f2_context_broadened no_facts_v2"
  "\<not> f2_target_rechecked no_facts_v2" "f2_last_family no_facts_v2 = None" "f2_streak no_facts_v2 = 0"
  by (simp_all add: no_facts_v2_def new_v2_state_def v2_facts.truncate_def)

lemma v2_memory_flags:
  "f2_failure_materialized (foldl v2_learn_step no_facts_v2 ss) \<longleftrightarrow> list_ex shows_failure ss"
  "f2_patch_seen (foldl v2_learn_step no_facts_v2 ss) \<longleftrightarrow> list_ex edits ss"
  by (simp_all add: v2.memory_latch [where P = f2_failure_materialized and Q = shows_failure]
      v2.memory_latch [where P = f2_patch_seen and Q = edits] v2_learn_flags)

lemma v2_memory_follows:
  "f2_context_broadened (foldl v2_learn_step no_facts_v2 ss) \<longleftrightarrow> follows shows_failure broadens ss"
  "f2_target_rechecked (foldl v2_learn_step no_facts_v2 ss) \<longleftrightarrow> follows edits rechecks ss"
  by (intro v2.memory_follows [where P = f2_failure_materialized] v2.memory_follows [where P = f2_patch_seen];
      simp add: v2_learn_flags)+

lemma v2_memory_streak:
  "f2_last_family (foldl v2_learn_step no_facts_v2 ss) = (if ss = [] then None else Some (v2_action_family (ran_action (last ss)))) \<and>
   (ss \<noteq> [] \<longrightarrow> f2_streak (foldl v2_learn_step no_facts_v2 ss) = int (repeats (v2_action_family (ran_action (last ss))) ss))"
proof (induction ss rule: rev_induct)
  case (snoc x xs)
  then show ?case by (cases xs rule: rev_cases) (auto simp: v2_learn_flags repeats_def)
qed simp

text \<open>An action repeats the family of the latest three or more steps.\<close>

lemma v2_repeated_iff:
  "Some family = f2_last_family (foldl v2_learn_step no_facts_v2 ss) \<and> 3 \<le> f2_streak (foldl v2_learn_step no_facts_v2 ss) \<longleftrightarrow>
     3 \<le> repeats family ss"
  using v2_memory_streak [of ss] by (cases ss rule: rev_cases) (auto simp: repeats_def)

lemma v2_block_reason_history:
  "v2_block_reason p (foldl v2_learn_step no_facts_v2 ss) a \<noteq> None \<longleftrightarrow>
     (let steps = set (a2_steps (p2_action p)) in
       ''interrupt_repeated_failure_loop'' \<in> steps \<and> 3 \<le> repeats (v2_action_family a) ss \<and>
         \<not> is_context_broadening_action a \<or>
       ''require_explicit_failure_reproduction'' \<in> steps \<and> is_source_edit_action a \<and> \<not> list_ex shows_failure ss \<or>
       ''require_alternative_hypothesis_before_next_patch'' \<in> steps \<and> is_source_edit_action a \<and>
         \<not> follows shows_failure broadens ss \<or>
       ''require_targeted_post_patch_recheck'' \<in> steps \<and> is_submit_action a \<and> list_ex edits ss \<and>
         \<not> follows edits rechecks ss)"
  unfolding v2_block_reason_def Let_def v2_memory_flags v2_memory_follows if_Some_None
  using v2_repeated_iff [of "v2_action_family a" ss] by blast

lemma new_v2_hook_simps [simp]:
  "v2_facts_of (new_v2_hook p sid pid n b) = no_facts_v2" "f2_action_index (h2_state (new_v2_hook p sid pid n b)) = 0"
  "h2_prefix_count (new_v2_hook p sid pid n b) = n" "h2_protocol (new_v2_hook p sid pid n b) = p"
  "h2_observe_only (new_v2_hook p sid pid n b) = b"
  by (simp_all add: new_v2_hook_def v2_facts_of_def no_facts_v2_def new_v2_state_def)

abbreviation v2_episode :: "(string \<Rightarrow> string) \<Rightarrow> v2_hook \<Rightarrow> agent_step list \<Rightarrow> v2_hook \<times> agent_step list \<times> agent_step option" where
  "v2_episode hash \<equiv> episode (v2_on_action_started hash) (v2_on_action_executed hash)"

lemma v2_valid_steps:
  assumes "valid_v2 p"
  shows "a2_prescription_id (p2_action p) = ''break_recurrence_and_reproduce'' \<Longrightarrow>
      ''interrupt_repeated_failure_loop'' \<in> set (a2_steps (p2_action p)) \<and>
      ''require_explicit_failure_reproduction'' \<in> set (a2_steps (p2_action p)) \<and>
      ''require_alternative_hypothesis_before_next_patch'' \<in> set (a2_steps (p2_action p))"
    "a2_prescription_id (p2_action p) \<noteq> ''break_recurrence_and_reproduce'' \<Longrightarrow>
      ''interrupt_repeated_failure_loop'' \<notin> set (a2_steps (p2_action p)) \<and>
      ''require_explicit_failure_reproduction'' \<notin> set (a2_steps (p2_action p)) \<and>
      ''require_alternative_hypothesis_before_next_patch'' \<notin> set (a2_steps (p2_action p))"
    "''require_targeted_post_patch_recheck'' \<in> set (a2_steps (p2_action p))"
  using assms by (auto simp: valid_v2_def PRESCRIPTION_STEPS_def dict_get_def split: if_splits)

text \<open>
  C18: what an enforcing version 2 episode guarantees. Under the recurrence prescription, of the actions that
  ran after the replayed prefix: none repeats the family of the three steps before it, unless it broadens the
  context; a source edit comes after a test run that showed a failure and after a context-broadening action
  at or after such a run. Under either prescription a submission after an edit comes after a test run at or
  after an edit.
\<close>

theorem v2_episode_safe:
  assumes "v2_episode hash (new_v2_hook p sid pid n False) steps = (h', taken, stop)" "valid_v2 p"
    "i < length taken" "n \<le> int i"
  shows
    "(a2_prescription_id (p2_action p) = ''break_recurrence_and_reproduce'' \<longrightarrow>
        (repeats (v2_action_family (started_action (taken ! i))) (take i taken) < 3 \<or>
           is_context_broadening_action (started_action (taken ! i))) \<and>
        (is_source_edit_action (started_action (taken ! i)) \<longrightarrow>
           list_ex shows_failure (take i taken) \<and> follows shows_failure broadens (take i taken))) \<and>
     (is_submit_action (started_action (taken ! i)) \<longrightarrow> list_ex edits (take i taken) \<longrightarrow>
        follows edits rechecks (take i taken))"
proof -
  from v2.episode_sound [OF assms(1), of i] assms(3,4)
  have "\<not> (v2_block_reason p (foldl v2_learn_step no_facts_v2 (take i taken)) (started_action (taken ! i)) \<noteq> None)"
    by simp
  from this [unfolded v2_block_reason_history Let_def] v2_valid_steps [OF assms(2)]
  show ?thesis unfolding not_le by (meson not_le_imp_less)
qed

abbreviation v2_permits :: "protocol_v2 \<Rightarrow> agent_step list \<Rightarrow> bool" where
  "v2_permits p \<equiv> never_forbidden (\<lambda>f s. v2_block_reason p f (started_action s) \<noteq> None) v2_learn_step no_facts_v2"

lemma v2_permitted_episode:
  "v2_permits p steps \<Longrightarrow> \<exists>h'. v2_episode hash (new_v2_hook p sid pid n False) steps = (h', steps, None)"
  using v2.episode_transparent [of "new_v2_hook p sid pid n False"] by simp

definition example_steps_v2 :: "agent_step list" where
  "example_steps_v2 = [step_of ''pytest tests'' ''1 failed'', step_of ''cat a.py'' '''',
     step_of ''str_replace_editor str_replace a.py'' ''done'', step_of ''pytest tests'' ''1 passed'', step_of ''submit'' '''']"

lemma classified_v2:
  "\<not> is_context_broadening_action ''pytest tests''" "is_context_broadening_action ''cat a.py''"
  "\<not> is_context_broadening_action ''str_replace_editor str_replace a.py''" "\<not> is_context_broadening_action ''submit''"
  "\<not> is_context_broadening_action ''python setup.py build''"
  by code_simp+

lemma example_v2_permitted: "v2_permits example_protocol_v2 example_steps_v2"
  by (simp add: example_steps_v2_def v2_block_reason_def v2_learn_def Let_def v2_action_family_def classified classified_v2 observed_failure)

theorem v2_episode_safe_witness:
  "list_ex shows_failure (take 2 example_steps_v2) \<and> follows shows_failure broadens (take 2 example_steps_v2) \<and>
   follows edits rechecks (take 4 example_steps_v2)"
proof -
  obtain h' where e: "v2_episode id (new_v2_hook example_protocol_v2 None None 0 False) example_steps_v2 = (h', example_steps_v2, None)"
    using v2_permitted_episode [OF example_v2_permitted] by blast
  have len: "length example_steps_v2 = 5" by (simp add: example_steps_v2_def)
  have "is_source_edit_action (started_action (example_steps_v2 ! 2))" "is_submit_action (started_action (example_steps_v2 ! 4))"
    "list_ex edits (take 4 example_steps_v2)" by (simp_all add: example_steps_v2_def classified)
  moreover have "a2_prescription_id (p2_action example_protocol_v2) = ''break_recurrence_and_reproduce''"
    by (simp add: example_protocol_v2_def)
  ultimately show ?thesis
    using v2_episode_safe [OF e example_v2_valid, of 2] v2_episode_safe [OF e example_v2_valid, of 4] len by auto
qed

section \<open>The observe-only mode\<close>

definition would_block :: "json \<Rightarrow> bool" where
  "would_block e \<longleftrightarrow> json_get e ''would_have_blocked'' = Inr (JBool True)"

definition v2_would_block_count :: "v2_hook \<Rightarrow> nat" where
  "v2_would_block_count h = length (filter would_block (h2_audit h))"

definition v2_violates :: "v2_hook \<Rightarrow> agent_step \<Rightarrow> bool" where
  "v2_violates h s \<longleftrightarrow> \<not> f2_action_index (h2_state h) < h2_prefix_count h \<and>
     v2_block_reason (h2_protocol h) (h2_state h) (started_action s) \<noteq> None"

lemma started_v2:
  "snd (v2_on_action_started hash h s) \<longleftrightarrow> v2_violates h s \<and> \<not> h2_observe_only h"
  "v2_would_block_count (fst (v2_on_action_started hash h s)) =
     v2_would_block_count h + (if v2_violates h s \<and> h2_observe_only h then 1 else 0)"
  "v2_blocking_event_count (fst (v2_on_action_started hash h s)) =
     v2_blocking_event_count h + (if v2_violates h s \<and> \<not> h2_observe_only h then 1 else 0)"
  by (auto simp: v2_on_action_started_def v2_before_action_def Let_def v2_would_block_count_def would_block_def
      v2_blocking_event_count_def event_blocked_def v2_event_def v2_violates_def)

lemma executed_v2:
  "v2_would_block_count (v2_on_action_executed hash h s) = v2_would_block_count h"
  "v2_blocking_event_count (v2_on_action_executed hash h s) = v2_blocking_event_count h"
  by (simp_all add: v2_on_action_executed_def v2_after_action_def Let_def v2_would_block_count_def would_block_def
      v2_blocking_event_count_def event_blocked_def v2_event_def)

text \<open>Everything but the mode and the trail.\<close>

definition same_run :: "v2_hook \<Rightarrow> v2_hook \<Rightarrow> bool" where
  "same_run g h \<longleftrightarrow> h2_protocol g = h2_protocol h \<and> h2_prefix_count g = h2_prefix_count h \<and> h2_state g = h2_state h"

lemma same_run_violates: "same_run g h \<Longrightarrow> v2_violates g s \<longleftrightarrow> v2_violates h s"
  by (simp add: same_run_def v2_violates_def)

lemma step_keeps:
  "h2_observe_only (v2_on_action_executed hash (fst (v2_on_action_started hash h s)) s) = h2_observe_only h"
  "same_run g h \<Longrightarrow> same_run (v2_on_action_executed hash (fst (v2_on_action_started hash g s)) s)
     (v2_on_action_executed hash (fst (v2_on_action_started hash h s)) s)"
  by (simp_all add: same_run_def v2_on_action_started_def v2_before_action_def v2_on_action_executed_def
      v2_after_action_def Let_def)

lemma observing_episode:
  "h2_observe_only h \<Longrightarrow> \<exists>h'. v2_episode hash h ss = (h', ss, None) \<and>
     v2_would_block_count h \<le> v2_would_block_count h' \<and> v2_blocking_event_count h' = v2_blocking_event_count h"
proof (induction ss arbitrary: h)
  case (Cons s ss)
  let ?h = "v2_on_action_executed hash (fst (v2_on_action_started hash h s)) s"
  from Cons.IH [of ?h] Cons.prems obtain h' where "v2_episode hash ?h ss = (h', ss, None)"
    "v2_would_block_count ?h \<le> v2_would_block_count h'" "v2_blocking_event_count h' = v2_blocking_event_count ?h"
    by (auto simp: step_keeps)
  with Cons.prems show ?case by (auto simp: episode_Cons started_v2 executed_v2)
qed simp

lemma observing_counts:
  assumes "same_run g h" "h2_observe_only g" "\<not> h2_observe_only h"
    "v2_episode hash g ss = (g', ss, None)" "v2_episode hash h ss = (h', taken, stop)"
  shows "(v2_would_block_count g < v2_would_block_count g' \<longleftrightarrow> stop \<noteq> None) \<and>
    (stop = None \<longrightarrow> h2_state g' = h2_state h' \<and> v2_would_block_count g' = v2_would_block_count g)"
  using assms
proof (induction ss arbitrary: g h taken)
  case Nil
  then show ?case by (auto simp: same_run_def)
next
  case (Cons s ss)
  let ?g = "v2_on_action_executed hash (fst (v2_on_action_started hash g s)) s"
  let ?h = "v2_on_action_executed hash (fst (v2_on_action_started hash h s)) s"
  have g': "v2_episode hash ?g ss = (g', ss, None)"
    using Cons.prems(2,4) by (auto simp: episode_Cons started_v2 split: prod.splits)
  show ?case
  proof (cases "v2_violates h s")
    case True
    with Cons.prems have "stop = Some s" by (simp add: episode_Cons started_v2)
    moreover have "v2_would_block_count ?g = v2_would_block_count g + 1"
      using True Cons.prems(1,2) by (simp add: executed_v2 started_v2 same_run_violates)
    moreover have "v2_would_block_count ?g \<le> v2_would_block_count g'"
      using observing_episode [of ?g hash ss] g' Cons.prems(2) by (auto simp: step_keeps)
    ultimately show ?thesis by simp
  next
    case False
    with Cons.prems obtain taken' where h': "v2_episode hash ?h ss = (h', taken', stop)"
      by (auto simp: episode_Cons started_v2 split: prod.splits)
    have "v2_would_block_count ?g = v2_would_block_count g"
      using False Cons.prems(1) by (simp add: executed_v2 started_v2 same_run_violates)
    with Cons.IH [OF _ _ _ g' h'] Cons.prems(1-3) show ?thesis by (simp add: step_keeps)
  qed
qed

text \<open>
  C19: observe-only is the enforcing hook without the enforcement. It lets every episode run to its end and
  records no blocked event; it records a would-have-blocked event exactly when the enforcing hook stops the
  same episode; and where that one does not stop, both end in the same runtime state.
\<close>

theorem observe_only_shadows_enforcement:
  "\<exists>g h taken stop. v2_episode hash (new_v2_hook p sid pid n True) steps = (g, steps, None) \<and>
     v2_episode hash (new_v2_hook p sid pid n False) steps = (h, taken, stop) \<and>
     v2_blocking_event_count g = 0 \<and> (0 < v2_would_block_count g \<longleftrightarrow> stop \<noteq> None) \<and>
     (stop = None \<longrightarrow> h2_state g = h2_state h)"
proof -
  let ?g = "new_v2_hook p sid pid n True" and ?h = "new_v2_hook p sid pid n False"
  have start: "same_run ?g ?h" "v2_would_block_count ?g = 0" "v2_blocking_event_count ?g = 0"
    by (simp_all add: same_run_def new_v2_hook_def v2_would_block_count_def v2_blocking_event_count_def)
  obtain h taken stop where h: "v2_episode hash ?h steps = (h, taken, stop)" by (metis prod.collapse)
  obtain g where g: "v2_episode hash ?g steps = (g, steps, None)" "v2_blocking_event_count g = 0"
    using observing_episode [of ?g hash steps] start by auto
  with observing_counts [OF start(1) _ _ g(1) h] h start show ?thesis by auto
qed

theorem observe_only_shadows_enforcement_witness:
  "\<exists>g. v2_episode id (new_v2_hook example_protocol_v2 None None 0 True) example_steps_v2 = (g, example_steps_v2, None) \<and>
     v2_would_block_count g = 0"
  using observe_only_shadows_enforcement [of id example_protocol_v2 None None 0 example_steps_v2]
    v2_permitted_episode [OF example_v2_permitted, of id None None 0] by auto

section \<open>Where prescription and hook part\<close>

definition idle_steps :: "agent_step list" where
  "idle_steps = replicate 4 (step_of ''python setup.py build'' ''ok'')"

text \<open>
  the hook does not enforce what the prescriptions name. Under the context-broadening prescription, the
  hook objects to nothing but a submission without a recheck: its three other steps are never looked at. And
  the step called interrupting a repeated failure loop stops four equal actions of an episode in which no
  failure was ever observed.
\<close>

theorem prescription_steps_not_enforced:
  "(valid_v2 p \<and> a2_prescription_id (p2_action p) = ''broaden_context_then_validate'' \<longrightarrow>
     v2_block_reason p st a \<noteq> None \<longrightarrow> is_submit_action a \<and> f2_patch_seen st \<and> \<not> f2_target_rechecked st) \<and>
   \<not> list_ex shows_failure idle_steps \<and>
   v2_block_reason example_protocol_v2 (foldl v2_learn_step no_facts_v2 (take 3 idle_steps)) (started_action (idle_steps ! 3)) =
     Some ''interrupt_repeated_failure_loop''"
proof -
  have "v2_block_reason p st a \<noteq> None \<longrightarrow> is_submit_action a \<and> f2_patch_seen st \<and> \<not> f2_target_rechecked st"
    if "valid_v2 p" "a2_prescription_id (p2_action p) = ''broaden_context_then_validate''"
  proof -
    have "a2_prescription_id (p2_action p) \<noteq> ''break_recurrence_and_reproduce''" using that(2) by simp
    from v2_valid_steps(2) [OF that(1) this] show ?thesis
      unfolding v2_block_reason_def Let_def if_Some_None by blast
  qed
  moreover have "\<not> list_ex shows_failure idle_steps"
    by (simp add: idle_steps_def numeral_eq_Suc shows_failure_def classified)
  moreover have "v2_block_reason example_protocol_v2 (foldl v2_learn_step no_facts_v2 (take 3 idle_steps))
      (started_action (idle_steps ! 3)) = Some ''interrupt_repeated_failure_loop''"
    by (simp add: idle_steps_def numeral_eq_Suc v2_block_reason_def v2_learn_def Let_def v2_action_family_def
        classified classified_v2 example_protocol_v2_def)
  ultimately show ?thesis by blast
qed

theorem prescription_steps_not_enforced_witness:
  "v2_block_reason example_protocol_v2 (foldl v2_learn_step no_facts_v2 (take 3 idle_steps)) (started_action (idle_steps ! 3)) =
     Some ''interrupt_repeated_failure_loop''"
  using prescription_steps_not_enforced [of example_protocol_v2 no_facts_v2 "''''"] by blast

end
