(* ===== verification/Batch_Runner.thy ===== *)
theory Batch_Runner
  imports Pair_State
begin

text \<open>
  The batch orchestrator, \<open>packages/clinic/src/wutai_clinic/orchestration/batch_runner.py\<close>: it advances the
  offline step of every pair and surfaces operator commands for the steps that need an authorization.
  The world it changes is the disk of reports, the append-only event log and the state snapshot. The
  assembly of a pair is run through the \<open>command_runner\<close> argument, here a function from the assembly
  specification and the disk to an error text, if it raises, and the new disk. \<open>clock\<close> is the text of
  the n-th reading of the clock. Rows of the batch specification are typed.
\<close>

section \<open>Model\<close>

record pair_entry =
  pe_pair_id :: string
  pe_source_task_id :: string
  pe_pair_inputs_dir :: string
  pe_output_root :: string
  pe_protocol_template :: string

record batch_spec =
  bs_batch_id :: string
  bs_evidence_root :: path
  bs_pairs :: "pair_entry list"

record operator_action =
  oa_pair_id :: string
  oa_state :: string
  oa_command :: string

record assembly_spec =
  as_control_dir :: path
  as_treatment_dir :: path
  as_output_dir :: path
  as_control_patch :: path
  as_treatment_patch :: path

record pair_row =
  pw_pair_id :: string
  pw_source_task_id :: string
  pw_state :: string
  pw_next_step :: string

datatype batch_event =
    AdvanceError string string string string string
    \<comment> \<open>timestamp, batch, pair, state, error\<close>
  | StateCheck string string string string string string "string option" bool
    \<comment> \<open>timestamp, batch, pair, source task, state before, state after, action taken, operator action queued\<close>

definition path_text :: "path \<Rightarrow> string" where
  "path_text p = (if p = [''''] then ''/'' else join ''/'' p)"

definition arm_auth_command :: "string \<Rightarrow> pair_entry \<Rightarrow> string" where
  "arm_auth_command arm e =
     ''wutai-clinic sweagent-protocol-v2-live-single'' @
     '' --source-task-id '' @ pe_source_task_id e @
     '' --arm '' @ arm @
     '' --pair-inputs-dir '' @ pe_pair_inputs_dir e @
     '' --protocol-template '' @ pe_protocol_template e @
     '' --output-root '' @ pe_output_root e @
     '' --pair-id '' @ pe_pair_id e @
     '' --execute --ack-docker --ack-external-provider''"

definition control_auth_command :: "pair_entry \<Rightarrow> string" where
  "control_auth_command e = arm_auth_command ''control'' e"

definition treatment_auth_command :: "pair_entry \<Rightarrow> string" where
  "treatment_auth_command e = arm_auth_command ''treatment'' e"

definition official_eval_auth_command :: "pair_entry \<Rightarrow> path \<Rightarrow> string" where
  "official_eval_auth_command e ev =
     ''wutai-clinic sweagent-protocol-v2-official-eval '' @
     path_text (ev @ [''protocol_v2_live_pair'', pe_source_task_id e]) @
     '' --output-dir '' @ path_text (ev @ [''protocol_v2_official_eval'', pe_source_task_id e]) @
     '' --run-official-eval --ack-official-eval''"

definition next_step_map :: "string pydict" where
  "next_step_map =
     [(''pending'', ''run_protocol_v2_planned_preflight''),
      (''preflight_ready'', ''awaiting_control_authorization''),
      (''awaiting_control_authorization'', ''operator_must_execute_control_arm''),
      (''control_complete'', ''awaiting_treatment_authorization''),
      (''awaiting_treatment_authorization'', ''operator_must_execute_treatment_arm''),
      (''treatment_complete'', ''run_pair_assembly_offline''),
      (''pair_assembled'', ''awaiting_official_eval_authorization''),
      (''awaiting_official_eval_authorization'', ''operator_must_run_official_eval''),
      (''official_eval_complete'', ''complete''),
      (''failed_preflight'', ''fix_preflight_inputs_and_rerun''),
      (''failed_control'', ''clear_control_artifacts_and_retry''),
      (''failed_treatment'', ''clear_treatment_artifacts_and_retry''),
      (''failed_pair_assembly'', ''clear_pair_artifacts_and_retry''),
      (''failed_official_eval'', ''investigate_official_eval_failure'')]"

definition next_step_description :: "string \<Rightarrow> string" where
  "next_step_description state = (case dict_get next_step_map state of Some s \<Rightarrow> s | None \<Rightarrow> ''unknown'')"

text \<open>\<open>Path(text)\<close>: components between slashes, without empty ones and dots; a leading slash is kept.\<close>

definition path_of_text :: "string \<Rightarrow> path" where
  "path_of_text s =
     (if starts_with ''/'' s then [''''] else []) @
     filter (\<lambda>c. c \<noteq> [] \<and> c \<noteq> ''.'') (split_slash [] s)"

text \<open>Any failure to read the directories from the pair report falls back to the canonical ones.\<close>

definition find_arm_dirs :: "disk \<Rightarrow> path \<Rightarrow> string \<Rightarrow> path \<times> path" where
  "find_arm_dirs d ev sid =
     (let base = ev @ [''protocol_v2_live_single_executed'', sid];
          control = base @ [''control'']; treatment = base @ [''treatment''] in
      if dk_dir d control \<and> dk_dir d treatment then (control, treatment)
      else (case dk_file d (pair_report ev sid) of
          Some (Parsed (JObj kvs)) \<Rightarrow>
            (case (map_of kvs ''control_dir'', map_of kvs ''treatment_dir'') of
               (Some (JStr c), Some (JStr t)) \<Rightarrow>
                 if c \<noteq> [] \<and> t \<noteq> [] then (path_of_text c, path_of_text t) else (control, treatment)
             | _ \<Rightarrow> (control, treatment))
        | _ \<Rightarrow> (control, treatment)))"

definition assembly_spec_for :: "disk \<Rightarrow> path \<Rightarrow> string \<Rightarrow> assembly_spec" where
  "assembly_spec_for d ev sid =
     (case find_arm_dirs d ev sid of (control, treatment) \<Rightarrow>
        \<lparr>as_control_dir = control, as_treatment_dir = treatment,
         as_output_dir = ev @ [''protocol_v2_live_pair'', sid],
         as_control_patch = control @ [''sweagent_protocol_v2_live_single.patch''],
         as_treatment_patch = treatment @ [''sweagent_protocol_v2_live_single.patch'']\<rparr>)"

type_synonym command_runner = "assembly_spec \<Rightarrow> disk \<Rightarrow> string option \<times> disk"

text \<open>\<open>f"{type(exc).__name__}: {exc}"\<close>\<close>

fun exn_label :: "pyexn \<Rightarrow> string" where
  "exn_label (KeyError m) = ''KeyError: '' @ m"
| "exn_label (TypeErr m) = ''TypeError: '' @ m"
| "exn_label (ValueErr m) = ''ValueError: '' @ m"
| "exn_label (LookupErr m) = ''LookupError: '' @ m"
| "exn_label (RuntimeErr m) = ''RuntimeError: '' @ m"
| "exn_label (AttributeErr m) = ''AttributeError: '' @ m"

text \<open>What the try block of one pair does: the new disk, the operator action, the action taken, whether the
  pair advanced, and the error text if it raised.\<close>

record attempt =
  at_disk :: disk
  at_operator :: "operator_action option"
  at_taken :: "string option"
  at_advanced :: bool
  at_error :: "string option"

definition no_attempt :: "disk \<Rightarrow> attempt" where
  "no_attempt d = \<lparr>at_disk = d, at_operator = None, at_taken = None, at_advanced = False, at_error = None\<rparr>"

definition attempt_pair :: "command_runner \<Rightarrow> path \<Rightarrow> pair_entry \<Rightarrow> string \<Rightarrow> disk \<Rightarrow> attempt" where
  "attempt_pair runner ev e state d =
     (let ask = (\<lambda>cmd. Some \<lparr>oa_pair_id = pe_pair_id e, oa_state = state, oa_command = cmd\<rparr>) in
      if state = ''awaiting_control_authorization'' then (no_attempt d)\<lparr>at_operator := ask (control_auth_command e)\<rparr>
      else if state = ''awaiting_treatment_authorization'' then
        (no_attempt d)\<lparr>at_operator := ask (treatment_auth_command e)\<rparr>
      else if state = ''treatment_complete'' then
        (case runner (assembly_spec_for d ev (pe_source_task_id e)) d of
           (Some err, d') \<Rightarrow> (no_attempt d')\<lparr>at_error := Some err\<rparr>
         | (None, d') \<Rightarrow>
             (case infer_pair_state d' ev (pe_source_task_id e) of
                Inl x \<Rightarrow> (no_attempt d')\<lparr>at_error := Some (exn_label x)\<rparr>
              | Inr _ \<Rightarrow> (no_attempt d')\<lparr>at_taken := Some ''pair_assembled_offline'', at_advanced := True\<rparr>))
      else if state = ''pair_assembled'' then
        (case infer_pair_state d ev (pe_source_task_id e) of
           Inl x \<Rightarrow> (no_attempt d)\<lparr>at_error := Some (exn_label x)\<rparr>
         | Inr s \<Rightarrow> (no_attempt d)\<lparr>at_taken := Some ''recheck'',
             at_operator := (if s = ''pair_assembled'' then ask (official_eval_auth_command e ev) else None)\<rparr>)
      else if state = ''awaiting_official_eval_authorization'' then
        (no_attempt d)\<lparr>at_operator := ask (official_eval_auth_command e ev)\<rparr>
      else no_attempt d)"

record batch_summary =
  sm_batch_id :: string
  sm_generated_at :: string
  sm_pairs_advanced :: "string list"
  sm_operator_actions :: "operator_action list"
  sm_pairs_status :: "pair_row list"
  sm_state_counts :: "nat pydict"
  sm_errors :: "batch_event list"

text \<open>The world, and what the loop has collected; \<open>ow_ticks\<close> counts the clock readings.\<close>

record batch_world =
  ow_disk :: disk
  ow_events :: "batch_event list"
  ow_snapshot :: "batch_summary option"
  ow_ticks :: nat

record collected =
  co_advanced :: "string list"
  co_operator :: "operator_action list"
  co_status :: "pair_row list"
  co_errors :: "batch_event list"

definition pair_row_of :: "pair_entry \<Rightarrow> string \<Rightarrow> pair_row" where
  "pair_row_of e state = \<lparr>pw_pair_id = pe_pair_id e, pw_source_task_id = pe_source_task_id e, pw_state = state,
     pw_next_step = next_step_description state\<rparr>"

definition log_event :: "(string \<Rightarrow> batch_event) \<Rightarrow> (nat \<Rightarrow> string) \<Rightarrow> batch_world \<Rightarrow> batch_event \<times> batch_world" where
  "log_event mk clock w =
     (let ev = mk (clock (ow_ticks w)) in (ev, w\<lparr>ow_events := ow_events w @ [ev], ow_ticks := Suc (ow_ticks w)\<rparr>))"

definition advance_pair :: "command_runner \<Rightarrow> (nat \<Rightarrow> string) \<Rightarrow> batch_spec \<Rightarrow> pair_entry \<Rightarrow> batch_world \<times> collected \<Rightarrow>
    pyexn + (batch_world \<times> collected)" where
  "advance_pair runner clock sp e wc =
     (let w = fst wc; c = snd wc; ev = bs_evidence_root sp; sid = pe_source_task_id e in
      and_then (infer_pair_state (ow_disk w) ev sid) (\<lambda>state.
      let a = attempt_pair runner ev e state (ow_disk w);
          w1 = w\<lparr>ow_disk := at_disk a\<rparr>;
          (errs, w2) = (case at_error a of
              None \<Rightarrow> ([], w1)
            | Some err \<Rightarrow> (case log_event (\<lambda>t. AdvanceError t (bs_batch_id sp) (pe_pair_id e) state err) clock w1 of
                (ee, w') \<Rightarrow> ([ee], w')))
      in and_then (infer_pair_state (ow_disk w2) ev sid) (\<lambda>final.
         let w3 = snd (log_event (\<lambda>t. StateCheck t (bs_batch_id sp) (pe_pair_id e) sid state final (at_taken a)
                    (at_operator a \<noteq> None)) clock w2)
         in Inr (w3, \<lparr>co_advanced = co_advanced c @ (if at_advanced a then [pe_pair_id e] else []),
              co_operator = co_operator c @ (case at_operator a of None \<Rightarrow> [] | Some oa \<Rightarrow> [oa]),
              co_status = co_status c @ [pair_row_of e final],
              co_errors = co_errors c @ errs\<rparr>))))"

fun advance_pairs :: "command_runner \<Rightarrow> (nat \<Rightarrow> string) \<Rightarrow> batch_spec \<Rightarrow> pair_entry list \<Rightarrow> batch_world \<times> collected \<Rightarrow>
    pyexn + (batch_world \<times> collected)" where
  "advance_pairs runner clock sp [] wc = Inr wc"
| "advance_pairs runner clock sp (e # es) wc =
     and_then (advance_pair runner clock sp e wc) (advance_pairs runner clock sp es)"

definition state_counts :: "pair_row list \<Rightarrow> nat pydict" where
  "state_counts rows = fold (\<lambda>r. dict_incr (pw_state r)) rows []"

definition nothing_collected :: collected where
  "nothing_collected = \<lparr>co_advanced = [], co_operator = [], co_status = [], co_errors = []\<rparr>"

definition advance_batch :: "command_runner \<Rightarrow> (nat \<Rightarrow> string) \<Rightarrow> batch_spec \<Rightarrow> batch_world \<Rightarrow>
    pyexn + (batch_world \<times> batch_summary)" where
  "advance_batch runner clock sp w =
     and_then (advance_pairs runner clock sp (bs_pairs sp) (w, nothing_collected)) (\<lambda>(w', c).
     let s = \<lparr>sm_batch_id = bs_batch_id sp, sm_generated_at = clock (ow_ticks w'),
           sm_pairs_advanced = co_advanced c, sm_operator_actions = co_operator c, sm_pairs_status = co_status c,
           sm_state_counts = state_counts (co_status c), sm_errors = co_errors c\<rparr>
     in Inr (w'\<lparr>ow_snapshot := Some s, ow_ticks := Suc (ow_ticks w')\<rparr>, s))"

text \<open>The read-only status.\<close>

record status_report =
  sr_batch_id :: string
  sr_generated_at :: string
  sr_pairs_status :: "pair_row list"
  sr_state_counts :: "nat pydict"
  sr_pending :: "operator_action list"

definition pending_action :: "path \<Rightarrow> pair_entry \<Rightarrow> string \<Rightarrow> operator_action list" where
  "pending_action ev e state =
     (let ask = (\<lambda>cmd. [\<lparr>oa_pair_id = pe_pair_id e, oa_state = state, oa_command = cmd\<rparr>]) in
      if state = ''awaiting_control_authorization'' then ask (control_auth_command e)
      else if state = ''awaiting_treatment_authorization'' then ask (treatment_auth_command e)
      else if state = ''awaiting_official_eval_authorization'' \<or> state = ''pair_assembled''
        then ask (official_eval_auth_command e ev)
      else [])"

definition batch_status :: "string \<Rightarrow> batch_spec \<Rightarrow> disk \<Rightarrow> pyexn + status_report" where
  "batch_status now sp d =
     and_then (sequence (map (\<lambda>e. infer_pair_state d (bs_evidence_root sp) (pe_source_task_id e)) (bs_pairs sp))) (\<lambda>states.
     let rows = map (\<lambda>(e, s). pair_row_of e s) (zip (bs_pairs sp) states) in
     Inr \<lparr>sr_batch_id = bs_batch_id sp, sr_generated_at = now, sr_pairs_status = rows,
       sr_state_counts = state_counts rows,
       sr_pending = concat (map (\<lambda>(e, s). pending_action (bs_evidence_root sp) e s) (zip (bs_pairs sp) states))\<rparr>)"

section \<open>Advancing one pair\<close>

text \<open>A runner that keeps every parsed report a dictionary.\<close>

definition runner_ok :: "command_runner \<Rightarrow> bool" where
  "runner_ok runner \<longleftrightarrow> (\<forall>sp d. reports_are_dicts d \<longrightarrow> reports_are_dicts (snd (runner sp d)))"

lemma attempt_disk:
  "at_disk (attempt_pair runner ev e state d) =
     (if state = ''treatment_complete'' then snd (runner (assembly_spec_for d ev (pe_source_task_id e)) d) else d)"
  by (auto simp: attempt_pair_def no_attempt_def Let_def split: prod.splits option.splits sum.splits)

lemma attempt_idle:
  assumes "infer_pair_state d ev (pe_source_task_id e) = Inr state" "state \<noteq> ''treatment_complete''"
  shows "at_disk (attempt_pair runner ev e state d) = d" "at_error (attempt_pair runner ev e state d) = None"
    "\<not> at_advanced (attempt_pair runner ev e state d)"
    "(case at_operator (attempt_pair runner ev e state d) of None \<Rightarrow> [] | Some oa \<Rightarrow> [oa]) = pending_action ev e state"
  using assms by (simp_all add: attempt_pair_def no_attempt_def pending_action_def Let_def)

lemma advance_pair_idle:
  assumes "infer_pair_state (ow_disk w) (bs_evidence_root sp) (pe_source_task_id e) = Inr state"
    "state \<noteq> ''treatment_complete''"
  shows "\<exists>event w'. advance_pair runner clock sp e (w, c) = Inr (w',
      c\<lparr>co_operator := co_operator c @ pending_action (bs_evidence_root sp) e state,
        co_status := co_status c @ [pair_row_of e state]\<rparr>) \<and>
    ow_disk w' = ow_disk w \<and> ow_events w' = ow_events w @ [event]"
  using assms attempt_idle [OF assms(1) assms(2), of runner]
  by (simp add: advance_pair_def Let_def log_event_def case_prod_beta)

text \<open>With dictionaries on disk no inference raises, so the loop always goes on.\<close>

lemma advance_pair_total:
  assumes "reports_are_dicts (ow_disk w)" "runner_ok runner"
  shows "\<exists>w' c' news row errs. advance_pair runner clock sp e (w, c) = Inr (w', c') \<and> reports_are_dicts (ow_disk w') \<and>
    ow_events w' = ow_events w @ news \<and> length news = Suc (length errs) \<and> length errs \<le> 1 \<and> set errs \<subseteq> set news \<and>
    co_errors c' = co_errors c @ errs \<and> co_status c' = co_status c @ [row] \<and> pw_pair_id row = pe_pair_id e \<and>
    infer_pair_state (ow_disk w') (bs_evidence_root sp) (pe_source_task_id e) = Inr (pw_state row) \<and>
    set (co_advanced c') \<subseteq> set (co_advanced c) \<union> {pe_pair_id e}"
proof -
  let ?sid = "pe_source_task_id e" and ?ev = "bs_evidence_root sp"
  obtain state where state: "infer_pair_state (ow_disk w) ?ev ?sid = Inr state"
    using infer_stage [OF assms(1)] by blast
  let ?a = "attempt_pair runner ?ev e state (ow_disk w)"
  have ok: "reports_are_dicts (at_disk ?a)" using assms by (simp add: attempt_disk runner_ok_def)
  then obtain final where final: "infer_pair_state (at_disk ?a) ?ev ?sid = Inr final" using infer_stage by blast
  show ?thesis
    using state final ok
    by (cases "at_error ?a") (auto simp: advance_pair_def Let_def log_event_def pair_row_of_def)
qed

section \<open>Advancing the batch\<close>

lemma advance_pairs_idle:
  assumes "\<forall>e \<in> set es. \<exists>s. infer_pair_state (ow_disk w) (bs_evidence_root sp) (pe_source_task_id e) = Inr s \<and> s \<noteq> ''treatment_complete''"
  shows "\<exists>states w' news. sequence (map (\<lambda>e. infer_pair_state (ow_disk w) (bs_evidence_root sp) (pe_source_task_id e)) es) = Inr states \<and>
    advance_pairs runner clock sp es (w, c) = Inr (w',
      c\<lparr>co_operator := co_operator c @ concat (map (\<lambda>(e, s). pending_action (bs_evidence_root sp) e s) (zip es states)),
        co_status := co_status c @ map (\<lambda>(e, s). pair_row_of e s) (zip es states)\<rparr>) \<and>
    ow_disk w' = ow_disk w \<and> ow_events w' = ow_events w @ news \<and> length news = length es"
  using assms
proof (induction es arbitrary: w c)
  case (Cons e es)
  then obtain s where s: "infer_pair_state (ow_disk w) (bs_evidence_root sp) (pe_source_task_id e) = Inr s"
    "s \<noteq> ''treatment_complete''" by auto
  from advance_pair_idle [OF s, of runner clock c] obtain event w1 where
    1: "advance_pair runner clock sp e (w, c) = Inr (w1,
      c\<lparr>co_operator := co_operator c @ pending_action (bs_evidence_root sp) e s, co_status := co_status c @ [pair_row_of e s]\<rparr>)"
    "ow_disk w1 = ow_disk w" "ow_events w1 = ow_events w @ [event]" by blast
  from Cons.IH [of w1 "c\<lparr>co_operator := co_operator c @ pending_action (bs_evidence_root sp) e s,
      co_status := co_status c @ [pair_row_of e s]\<rparr>"] Cons.prems 1
  show ?case by (auto simp: s)
qed simp

text \<open>
  C20: the orchestrator does nothing an operator has to authorize. When no pair of the batch has both arms
  complete, advancing it never calls the runner: the disk is unchanged, nothing advances and nothing fails,
  one event per pair is appended to the log, and the rows and operator actions it reports are exactly those
  of the read-only status.
\<close>

theorem advance_agrees_with_status:
  assumes "\<forall>e \<in> set (bs_pairs sp). \<exists>s. infer_pair_state (ow_disk w) (bs_evidence_root sp) (pe_source_task_id e) = Inr s \<and>
    s \<noteq> ''treatment_complete''"
  shows "\<exists>w' sm st news. advance_batch runner clock sp w = Inr (w', sm) \<and> batch_status now sp (ow_disk w) = Inr st \<and>
    ow_disk w' = ow_disk w \<and> ow_snapshot w' = Some sm \<and> ow_events w' = ow_events w @ news \<and>
    length news = length (bs_pairs sp) \<and> sm_pairs_advanced sm = [] \<and> sm_errors sm = [] \<and>
    sm_pairs_status sm = sr_pairs_status st \<and> sm_operator_actions sm = sr_pending st \<and>
    sm_state_counts sm = sr_state_counts st"
  using advance_pairs_idle [OF assms, of runner clock nothing_collected]
  by (auto simp: advance_batch_def batch_status_def Let_def nothing_collected_def)

definition example_batch :: batch_spec where
  "example_batch = \<lparr>bs_batch_id = ''b'', bs_evidence_root = [''e''], bs_pairs =
     [\<lparr>pe_pair_id = ''p1'', pe_source_task_id = ''t1'', pe_pair_inputs_dir = '''', pe_output_root = '''', pe_protocol_template = ''''\<rparr>]\<rparr>"

definition empty_world :: batch_world where
  "empty_world = \<lparr>ow_disk = empty_disk, ow_events = [], ow_snapshot = None, ow_ticks = 0\<rparr>"

lemma empty_world_pending: "infer_pair_state (ow_disk empty_world) ev sid = Inr ''pending''"
  by (simp add: infer_pair_state_def empty_world_def empty_disk_def is_file_def Let_def)

theorem advance_agrees_with_status_witness:
  "\<exists>w' sm. advance_batch (\<lambda>_ d. (None, d)) (\<lambda>_. ''now'') example_batch empty_world = Inr (w', sm) \<and>
     ow_disk w' = empty_disk \<and> length (ow_events w') = 1"
proof -
  have "\<forall>e \<in> set (bs_pairs example_batch). \<exists>s. infer_pair_state (ow_disk empty_world) (bs_evidence_root example_batch)
      (pe_source_task_id e) = Inr s \<and> s \<noteq> ''treatment_complete''" by (simp add: empty_world_pending)
  from advance_agrees_with_status [OF this, of "\<lambda>_ d. (None, d)" "\<lambda>_. ''now''" "''now''"]
  show ?thesis by (auto simp: empty_world_def example_batch_def)
qed

lemma advance_pairs_total:
  assumes "reports_are_dicts (ow_disk w)" "runner_ok runner"
  shows "\<exists>w' c' news rows errs. advance_pairs runner clock sp es (w, c) = Inr (w', c') \<and> reports_are_dicts (ow_disk w') \<and>
    ow_events w' = ow_events w @ news \<and> length news = length es + length errs \<and> length errs \<le> length es \<and>
    set errs \<subseteq> set news \<and> co_errors c' = co_errors c @ errs \<and> co_status c' = co_status c @ rows \<and>
    map pw_pair_id rows = map pe_pair_id es \<and> set (co_advanced c') \<subseteq> set (co_advanced c) \<union> pe_pair_id ` set es"
  using assms(1)
proof (induction es arbitrary: w c)
  case (Cons e es)
  from advance_pair_total [OF Cons.prems assms(2), of clock sp e c] obtain w1 c1 n1 row e1 where
    1: "advance_pair runner clock sp e (w, c) = Inr (w1, c1)" "reports_are_dicts (ow_disk w1)"
    "ow_events w1 = ow_events w @ n1" "length n1 = Suc (length e1)" "length e1 \<le> 1" "set e1 \<subseteq> set n1"
    "co_errors c1 = co_errors c @ e1" "co_status c1 = co_status c @ [row]" "pw_pair_id row = pe_pair_id e"
    "set (co_advanced c1) \<subseteq> set (co_advanced c) \<union> {pe_pair_id e}" by blast
  from Cons.IH [OF 1(2), of c1] obtain w2 c2 n2 rows e2 where
    2: "advance_pairs runner clock sp es (w1, c1) = Inr (w2, c2)" "reports_are_dicts (ow_disk w2)"
    "ow_events w2 = ow_events w1 @ n2" "length n2 = length es + length e2" "length e2 \<le> length es" "set e2 \<subseteq> set n2"
    "co_errors c2 = co_errors c1 @ e2" "co_status c2 = co_status c1 @ rows" "map pw_pair_id rows = map pe_pair_id es"
    "set (co_advanced c2) \<subseteq> set (co_advanced c1) \<union> pe_pair_id ` set es" by blast
  show ?case
    using 1 2 by (intro exI [of _ w2] exI [of _ c2] exI [of _ "n1 @ n2"] exI [of _ "row # rows"] exI [of _ "e1 @ e2"]) auto
qed simp

lemma state_counts_total: "sum_list (map snd (state_counts rows)) = length rows"
proof -
  have upd: "sum_list (map snd (dict_incr k d)) = Suc (sum_list (map snd d))" for k :: string and d
  proof (induction d)
    case (Cons x d)
    then show ?case by (cases x) (auto simp: dict_incr_def split: option.splits)
  qed (simp add: dict_incr_def)
  have "sum_list (map snd (fold (\<lambda>r. dict_incr (pw_state r)) rows d)) = sum_list (map snd d) + length rows" for d
    by (induction rows arbitrary: d) (simp_all add: upd)
  then show ?thesis by (simp add: state_counts_def)
qed

text \<open>
  one failing pair never stops a batch. With dictionaries on disk and a runner that keeps them so, but may
  raise, advancing returns; it reports one row per pair in the order of the batch and counts them all; the log
  only grows, by one event per pair and one per failure, and every failure it reports is in it; only pairs of
  the batch advance.
\<close>

theorem failures_are_isolated:
  assumes "reports_are_dicts (ow_disk w)" "runner_ok runner"
  shows "\<exists>w' sm news. advance_batch runner clock sp w = Inr (w', sm) \<and> ow_snapshot w' = Some sm \<and>
    map pw_pair_id (sm_pairs_status sm) = map pe_pair_id (bs_pairs sp) \<and>
    sum_list (map snd (sm_state_counts sm)) = length (bs_pairs sp) \<and>
    ow_events w' = ow_events w @ news \<and> length news = length (bs_pairs sp) + length (sm_errors sm) \<and>
    set (sm_errors sm) \<subseteq> set news \<and> set (sm_pairs_advanced sm) \<subseteq> pe_pair_id ` set (bs_pairs sp)"
proof -
  from advance_pairs_total [OF assms, of clock sp "bs_pairs sp" nothing_collected]
  obtain w' c' news rows errs where r: "advance_pairs runner clock sp (bs_pairs sp) (w, nothing_collected) = Inr (w', c')"
    "ow_events w' = ow_events w @ news" "length news = length (bs_pairs sp) + length errs" "set errs \<subseteq> set news"
    "co_errors c' = errs" "co_status c' = rows" "map pw_pair_id rows = map pe_pair_id (bs_pairs sp)"
    "set (co_advanced c') \<subseteq> pe_pair_id ` set (bs_pairs sp)"
    by (auto simp: nothing_collected_def)
  from r(7) have "length rows = length (bs_pairs sp)" by (metis length_map)
  with r show ?thesis by (auto simp: advance_batch_def Let_def state_counts_total)
qed

theorem failures_are_isolated_witness:
  "\<exists>w' sm. advance_batch (\<lambda>_ d. (Some ''RuntimeError: boom'', d)) (\<lambda>_. ''now'') example_batch empty_world = Inr (w', sm) \<and>
     map pw_pair_id (sm_pairs_status sm) = [''p1'']"
proof -
  have "reports_are_dicts (ow_disk empty_world)" "runner_ok (\<lambda>_ d. (Some ''RuntimeError: boom'', d))"
    by (simp_all add: reports_are_dicts_def empty_world_def empty_disk_def runner_ok_def)
  from failures_are_isolated [OF this, of "\<lambda>_. ''now''" example_batch] show ?thesis by (auto simp: example_batch_def)
qed

end
