(* ===== verification/State_Snapshot.thy ===== *)
theory State_Snapshot
  imports Pair_State
begin

text \<open>
  Snapshots of agent state, \<open>packages/clinic/src/wutai_clinic/kernel/state_snapshot.py\<close>: copy declared files,
  verify them by hash, restore them and prove the restore. Files map resolved paths to their bytes; the
  snapshot manifests are kept apart from the files they describe. \<open>h\<close> is SHA-256 and \<open>writable\<close> says
  whether a copy to a path succeeds (its directory exists).
\<close>

section \<open>Model\<close>

record snapshot_entry =
  se_source :: path
  se_stored :: string
  se_sha256 :: string
  se_size :: nat

record snapshot_manifest =
  sn_label :: string
  sn_taken_at :: string
  sn_entries :: "snapshot_entry list"

record snap_fs =
  sf_file :: "path \<Rightarrow> string option"
  sf_manifest :: "path \<Rightarrow> snapshot_manifest option"

text \<open>\<open>f"{index:03d}__{src.name}"\<close>\<close>

definition stored_name :: "nat \<Rightarrow> path \<Rightarrow> string" where
  "stored_name i src = pad3 i @ ''__'' @ (if src = [] then [] else last src)"

definition write_bytes :: "path \<Rightarrow> string \<Rightarrow> snap_fs \<Rightarrow> snap_fs" where
  "write_bytes p b fs = fs\<lparr>sf_file := (sf_file fs)(p := Some b)\<rparr>"

text \<open>The copy loop; a missing state file raises and leaves the copies made so far.\<close>

fun take_files :: "(string \<Rightarrow> string) \<Rightarrow> path \<Rightarrow> nat \<Rightarrow> path list \<Rightarrow> snap_fs \<Rightarrow> snap_fs \<times> (pyexn + snapshot_entry list)" where
  "take_files h dir i [] fs = (fs, Inr [])"
| "take_files h dir i (src # srcs) fs =
     (case sf_file fs src of
        None \<Rightarrow> (fs, Inl (LookupErr (''state file missing: '' @ join ''/'' src)))
      | Some b \<Rightarrow>
          (let fs1 = write_bytes (dir @ [stored_name i src]) b fs;
               e = \<lparr>se_source = src, se_stored = stored_name i src, se_sha256 = h b, se_size = length b\<rparr>
           in case take_files h dir (Suc i) srcs fs1 of
                (fs2, Inl x) \<Rightarrow> (fs2, Inl x)
              | (fs2, Inr es) \<Rightarrow> (fs2, Inr (e # es))))"

definition take_snapshot :: "(string \<Rightarrow> string) \<Rightarrow> path list \<Rightarrow> path \<Rightarrow> string \<Rightarrow> string \<Rightarrow> snap_fs \<Rightarrow>
    snap_fs \<times> (pyexn + snapshot_manifest)" where
  "take_snapshot h srcs dir label taken_at fs =
     (case take_files h dir 0 srcs fs of
        (fs1, Inl x) \<Rightarrow> (fs1, Inl x)
      | (fs1, Inr es) \<Rightarrow>
          (let m = \<lparr>sn_label = label, sn_taken_at = taken_at, sn_entries = es\<rparr>
           in (fs1\<lparr>sf_manifest := (sf_manifest fs1)(dir := Some m)\<rparr>, Inr m)))"

record verification =
  vf_ok :: bool
  vf_error :: "string option"
  vf_entry_count :: nat
  vf_mismatched :: "path list"
  vf_missing :: "path list"
  vf_label :: string

definition entry_target :: "path \<Rightarrow> bool \<Rightarrow> snapshot_entry \<Rightarrow> path" where
  "entry_target dir live e = (if live then se_source e else dir @ [se_stored e])"

definition is_missing :: "snap_fs \<Rightarrow> path \<Rightarrow> bool \<Rightarrow> snapshot_entry \<Rightarrow> bool" where
  "is_missing fs dir live e \<longleftrightarrow> sf_file fs (entry_target dir live e) = None"

definition is_mismatched :: "(string \<Rightarrow> string) \<Rightarrow> snap_fs \<Rightarrow> path \<Rightarrow> bool \<Rightarrow> snapshot_entry \<Rightarrow> bool" where
  "is_mismatched h fs dir live e \<longleftrightarrow>
     (case sf_file fs (entry_target dir live e) of None \<Rightarrow> False | Some b \<Rightarrow> h b \<noteq> se_sha256 e)"

definition verify_snapshot :: "(string \<Rightarrow> string) \<Rightarrow> path \<Rightarrow> bool \<Rightarrow> snap_fs \<Rightarrow> verification" where
  "verify_snapshot h dir live fs =
     (case sf_manifest fs dir of
        None \<Rightarrow> \<lparr>vf_ok = False, vf_error = Some ''snapshot_manifest_missing'', vf_entry_count = 0, vf_mismatched = [],
          vf_missing = [], vf_label = ''''\<rparr>
      | Some m \<Rightarrow>
          (let mis = map (entry_target dir live) (filter (is_mismatched h fs dir live) (sn_entries m));
               gone = map (entry_target dir live) (filter (is_missing fs dir live) (sn_entries m))
           in \<lparr>vf_ok = (mis = [] \<and> gone = []), vf_error = None, vf_entry_count = length (sn_entries m),
               vf_mismatched = mis, vf_missing = gone, vf_label = sn_label m\<rparr>))"

text \<open>Copying the stored files back; a copy that fails raises and leaves what is already restored.\<close>

fun restore_files :: "(path \<Rightarrow> bool) \<Rightarrow> path \<Rightarrow> snapshot_entry list \<Rightarrow> snap_fs \<Rightarrow> snap_fs \<times> (pyexn + unit)" where
  "restore_files writable dir [] fs = (fs, Inr ())"
| "restore_files writable dir (e # es) fs =
     (case sf_file fs (dir @ [se_stored e]) of
        None \<Rightarrow> (fs, Inl (LookupErr ''stored file missing''))
      | Some b \<Rightarrow>
          if writable (se_source e) then restore_files writable dir es (write_bytes (se_source e) b fs)
          else (fs, Inl (LookupErr ''no such directory'')))"

definition restore_snapshot :: "(string \<Rightarrow> string) \<Rightarrow> (path \<Rightarrow> bool) \<Rightarrow> path \<Rightarrow> snap_fs \<Rightarrow> snap_fs \<times> (pyexn + (nat \<times> string))" where
  "restore_snapshot h writable dir fs =
     (if \<not> vf_ok (verify_snapshot h dir False fs) then (fs, Inl (RuntimeErr ''snapshot corrupted; refusing to restore''))
      else (case sf_manifest fs dir of
          None \<Rightarrow> (fs, Inl (LookupErr ''snapshot manifest missing''))
        | Some m \<Rightarrow>
            (case restore_files writable dir (sn_entries m) fs of
               (fs1, Inl x) \<Rightarrow> (fs1, Inl x)
             | (fs1, Inr _) \<Rightarrow>
                 if vf_ok (verify_snapshot h dir True fs1) then (fs1, Inr (length (sn_entries m), sn_label m))
                 else (fs1, Inl (RuntimeErr ''restore verification failed'')))))"

section \<open>Stored names\<close>

lemma stored_name_inj: "stored_name i p = stored_name j q \<Longrightarrow> i = j"
proof -
  have tw: "takeWhile is_digit (stored_name n r) = pad3 n" for n r
  proof -
    have "takeWhile is_digit (pad3 n @ ''__'' @ (if r = [] then [] else last r)) = pad3 n @ takeWhile is_digit (''__'' @ (if r = [] then [] else last r))"
      using pad3_digits by (intro takeWhile_append2) auto
    then show ?thesis by (simp add: stored_name_def is_digit_def char_code_def)
  qed
  assume "stored_name i p = stored_name j q"
  then have "pad3 i = pad3 j" using tw [of i p] tw [of j q] by simp
  then show "i = j" using read_pad3 by metis
qed

section \<open>Taking\<close>

lemma write_bytes_simps [simp]:
  "sf_file (write_bytes p b fs) q = (if q = p then Some b else sf_file fs q)"
  "sf_manifest (write_bytes p b fs) = sf_manifest fs"
  by (simp_all add: write_bytes_def)

text \<open>A file that is not directly inside the snapshot directory.\<close>

definition outside :: "path \<Rightarrow> path \<Rightarrow> bool" where
  "outside dir p \<longleftrightarrow> (\<forall>name. p \<noteq> dir @ [name])"

lemma take_files_frame:
  "take_files h dir i srcs fs = (fs', r) \<Longrightarrow> (\<And>j p. i \<le> j \<Longrightarrow> q \<noteq> dir @ [stored_name j p]) \<Longrightarrow>
     sf_file fs' q = sf_file fs q \<and> sf_manifest fs' = sf_manifest fs"
proof (induction h dir i srcs fs arbitrary: fs' r rule: take_files.induct)
  case (2 h dir i src srcs fs)
  show ?case
  proof (cases "sf_file fs src")
    case None
    with 2 show ?thesis by simp
  next
    case (Some b)
    let ?fs1 = "write_bytes (dir @ [stored_name i src]) b fs"
    obtain fs2 r2 where t: "take_files h dir (Suc i) srcs ?fs1 = (fs2, r2)" by (metis surj_pair)
    with 2 Some have "fs' = fs2" by (auto simp: Let_def split: sum.splits)
    moreover have "sf_file fs2 q = sf_file ?fs1 q \<and> sf_manifest fs2 = sf_manifest ?fs1"
      using "2.IH" [OF Some refl refl t] "2.prems"(2) by simp
    ultimately show ?thesis using "2.prems"(2) [of i src] by simp
  qed
qed simp

text \<open>What the entries say: the source's bytes at the time, which the stored copy has.\<close>

lemma take_files_entries:
  assumes "take_files h dir i srcs fs = (fs', Inr es)" "\<forall>p \<in> set srcs. outside dir p"
  shows "map se_source es = srcs \<and>
    (\<forall>e \<in> set es. \<exists>b. sf_file fs (se_source e) = Some b \<and> sf_file fs' (dir @ [se_stored e]) = Some b \<and> se_sha256 e = h b)"
  using assms
proof (induction h dir i srcs fs arbitrary: fs' es rule: take_files.induct)
  case (2 h dir i src srcs fs)
  then obtain b where b: "sf_file fs src = Some b" by (auto split: option.splits)
  let ?fs1 = "write_bytes (dir @ [stored_name i src]) b fs"
  from 2 b obtain es' where t: "take_files h dir (Suc i) srcs ?fs1 = (fs', Inr es')"
    and es: "es = \<lparr>se_source = src, se_stored = stored_name i src, se_sha256 = h b, se_size = length b\<rparr> # es'"
    by (auto simp: Let_def split: prod.splits sum.splits)
  have stay: "sf_file ?fs1 p = sf_file fs p" if "outside dir p" for p using that by (simp add: outside_def)
  have IH: "map se_source es' = srcs \<and>
      (\<forall>e \<in> set es'. \<exists>b. sf_file ?fs1 (se_source e) = Some b \<and> sf_file fs' (dir @ [se_stored e]) = Some b \<and> se_sha256 e = h b)"
    using "2.IH" [OF b refl refl t] "2.prems"(2) by simp
  have mem: "se_source e \<in> set srcs" if "e \<in> set es'" for e using IH that by (metis image_eqI set_map)
  have "sf_file fs' (dir @ [stored_name i src]) = sf_file ?fs1 (dir @ [stored_name i src])"
    using take_files_frame [OF t, of "dir @ [stored_name i src]"] stored_name_inj by force
  then show ?case using IH b "2.prems"(2) mem stay by (fastforce simp: es)
qed simp

section \<open>Restoring\<close>

lemma restore_files_ok:
  assumes "\<forall>e \<in> set es. outside dir (se_source e) \<and> writable (se_source e) \<and>
      sf_file fs (dir @ [se_stored e]) = Some (content (se_source e))"
  shows "\<exists>fs'. restore_files writable dir es fs = (fs', Inr ()) \<and> sf_manifest fs' = sf_manifest fs \<and>
    (\<forall>q. sf_file fs' q = (if q \<in> se_source ` set es then Some (content q) else sf_file fs q))"
  using assms
proof (induction es arbitrary: fs)
  case (Cons e es)
  let ?fs1 = "write_bytes (se_source e) (content (se_source e)) fs"
  have "\<forall>x \<in> set es. outside dir (se_source x) \<and> writable (se_source x) \<and>
      sf_file ?fs1 (dir @ [se_stored x]) = Some (content (se_source x))"
    using Cons.prems by (auto simp: outside_def dest: sym)
  from Cons.IH [OF this] obtain fs' where "restore_files writable dir es ?fs1 = (fs', Inr ())"
    "sf_manifest fs' = sf_manifest fs"
    "\<forall>q. sf_file fs' q = (if q \<in> se_source ` set es then Some (content q) else sf_file ?fs1 q)" by auto
  with Cons.prems show ?case by auto
qed simp

lemma verify_ok_iff:
  "sf_manifest fs dir = Some m \<Longrightarrow> vf_ok (verify_snapshot h dir live fs) \<longleftrightarrow>
     (\<forall>e \<in> set (sn_entries m). \<exists>b. sf_file fs (entry_target dir live e) = Some b \<and> h b = se_sha256 e)"
  by (force simp: verify_snapshot_def Let_def is_mismatched_def is_missing_def filter_empty_conv split: option.splits)

text \<open>
  C21: a snapshot restores byte-faithfully. After a snapshot of files outside its directory was taken, the
  stored copies verify. Whatever happens to the live files later, as long as the snapshot's own files and
  manifest stay and the sources can be written, restoring succeeds, every source has again the bytes it had
  when the snapshot was taken, no other file changes, and the live state verifies against the snapshot.
\<close>

theorem snapshot_roundtrip:
  assumes "take_snapshot h srcs dir label tk fs = (fs1, Inr m)" "\<forall>p \<in> set srcs. outside dir p \<and> writable p"
    "\<forall>name. sf_file fs2 (dir @ [name]) = sf_file fs1 (dir @ [name])" "sf_manifest fs2 dir = sf_manifest fs1 dir"
  shows "vf_ok (verify_snapshot h dir False fs1) \<and>
    (\<exists>fs3. restore_snapshot h writable dir fs2 = (fs3, Inr (length srcs, label)) \<and>
       (\<forall>p \<in> set srcs. sf_file fs3 p = sf_file fs p) \<and> (\<forall>q. q \<notin> set srcs \<longrightarrow> sf_file fs3 q = sf_file fs2 q) \<and>
       vf_ok (verify_snapshot h dir True fs3))"
proof -
  from assms(1) obtain fs1' es where t: "take_files h dir 0 srcs fs = (fs1', Inr es)"
    and m: "m = \<lparr>sn_label = label, sn_taken_at = tk, sn_entries = es\<rparr>"
    and fs1: "fs1 = fs1'\<lparr>sf_manifest := (sf_manifest fs1')(dir := Some m)\<rparr>"
    by (auto simp: take_snapshot_def Let_def split: prod.splits sum.splits)
  from take_files_entries [OF t] assms(2) have entries: "map se_source es = srcs"
    "\<forall>e \<in> set es. \<exists>b. sf_file fs (se_source e) = Some b \<and> sf_file fs1' (dir @ [se_stored e]) = Some b \<and> se_sha256 e = h b"
    by auto
  define content where "content p = the (sf_file fs p)" for p
  have src: "se_source ` set es = set srcs" using entries(1) by (metis set_map)
  have stored: "sf_file fs2 (dir @ [se_stored e]) = Some (content (se_source e))" "h (content (se_source e)) = se_sha256 e"
    "sf_file fs (se_source e) = Some (content (se_source e))" if "e \<in> set es" for e
    using entries(2) that assms(3) by (force simp: content_def fs1)+
  have man: "sf_manifest fs2 dir = Some m" "sf_manifest fs1 dir = Some m" using assms(4) by (simp_all add: fs1)
  have ok1: "vf_ok (verify_snapshot h dir False fs1)"
    unfolding verify_ok_iff [OF man(2)] using entries(2) by (force simp: m entry_target_def fs1)
  have ok2: "vf_ok (verify_snapshot h dir False fs2)"
    unfolding verify_ok_iff [OF man(1)] using stored by (simp add: m entry_target_def)
  have "\<forall>e \<in> set es. outside dir (se_source e) \<and> writable (se_source e) \<and>
      sf_file fs2 (dir @ [se_stored e]) = Some (content (se_source e))" using stored assms(2) src by auto
  from restore_files_ok [OF this] obtain fs3 where r: "restore_files writable dir es fs2 = (fs3, Inr ())"
    "sf_manifest fs3 = sf_manifest fs2"
    "\<forall>q. sf_file fs3 q = (if q \<in> set srcs then Some (content q) else sf_file fs2 q)" unfolding src by blast
  have ok3: "vf_ok (verify_snapshot h dir True fs3)"
    unfolding verify_ok_iff [OF man(1) [folded r(2)]] using stored src r(3) by (auto simp: m entry_target_def)
  have "sf_file fs3 p = sf_file fs p" if "p \<in> set srcs" for p
  proof -
    from that src obtain e where "e \<in> set es" "p = se_source e" by auto
    then show ?thesis using stored(3) [of e] r(3) that by simp
  qed
  moreover have "length es = length srcs" using entries(1) by auto
  ultimately show ?thesis using ok1 ok2 ok3 r man by (simp add: restore_snapshot_def m)
qed

definition example_fs :: "string \<Rightarrow> snap_fs" where
  "example_fs b = \<lparr>sf_file = (\<lambda>p. if p = [''live''] then Some b else None), sf_manifest = (\<lambda>_. None)\<rparr>"

theorem snapshot_roundtrip_witness:
  "\<exists>fs1 m fs3. take_snapshot id [[''live'']] [''snap''] ''s'' ''now'' (example_fs ''old'') = (fs1, Inr m) \<and>
     restore_snapshot id (\<lambda>_. True) [''snap''] (write_bytes [''live''] ''new'' fs1) = (fs3, Inr (1, ''s'')) \<and>
     sf_file fs3 [''live''] = Some ''old''"
proof -
  obtain fs1 m where t: "take_snapshot id [[''live'']] [''snap''] ''s'' ''now'' (example_fs ''old'') = (fs1, Inr m)"
    by (simp add: take_snapshot_def example_fs_def Let_def)
  have "\<forall>p \<in> set [[''live'']]. outside [''snap''] p \<and> True" by (simp add: outside_def)
  from snapshot_roundtrip [OF t this, of "write_bytes [''live''] ''new'' fs1"]
  show ?thesis using t by (auto simp: example_fs_def)
qed

text \<open>
  an unproved restore never passes for a restore. When a stored copy is missing or hashes differently,
  restoring raises and changes no file; and whenever it returns, every source file is there with the hash the
  manifest recorded.
\<close>

theorem restore_refuses_corruption:
  "(\<not> vf_ok (verify_snapshot h dir False fs) \<longrightarrow> fst (restore_snapshot h writable dir fs) = fs \<and>
      (\<exists>x. snd (restore_snapshot h writable dir fs) = Inl x)) \<and>
   (\<forall>fs' r m. restore_snapshot h writable dir fs = (fs', Inr r) \<longrightarrow> sf_manifest fs' dir = Some m \<longrightarrow>
      (\<forall>e \<in> set (sn_entries m). \<exists>b. sf_file fs' (se_source e) = Some b \<and> h b = se_sha256 e))"
proof -
  have "\<forall>e \<in> set (sn_entries m). \<exists>b. sf_file fs' (se_source e) = Some b \<and> h b = se_sha256 e"
    if "restore_snapshot h writable dir fs = (fs', Inr r)" "sf_manifest fs' dir = Some m" for fs' r m
  proof -
    from that(1) have "vf_ok (verify_snapshot h dir True fs')"
      by (auto simp: restore_snapshot_def split: if_splits option.splits prod.splits sum.splits)
    then show ?thesis unfolding verify_ok_iff [OF that(2)] by (simp add: entry_target_def)
  qed
  then show ?thesis by (auto simp: restore_snapshot_def)
qed

theorem restore_refuses_corruption_witness:
  "fst (restore_snapshot id (\<lambda>_. True) [''snap''] (example_fs ''old'')) = example_fs ''old''"
proof -
  have "\<not> vf_ok (verify_snapshot id [''snap''] False (example_fs ''old''))"
    by (simp add: verify_snapshot_def example_fs_def)
  then show ?thesis using restore_refuses_corruption [of id "[''snap'']" "example_fs ''old''" "\<lambda>_. True"] by blast
qed

end
