(* ===== verification/Manipulation_Checks.thy ===== *)
theory Manipulation_Checks
  imports Clinic_Json
begin

text \<open>
  Manipulation checks, \<open>packages/clinic/src/wutai_clinic/kernel/manipulation_checks.py\<close>: the gate before any
  outcome analysis. A telemetry row is a dictionary, a predicate a function of it that does not raise; rates
  are real numbers.
\<close>

section \<open>Model\<close>

record manipulation_check =
  mc_check_id :: string
  mc_description :: string
  mc_arm :: string
  mc_predicate :: "json pydict \<Rightarrow> bool"
  mc_kind :: string
  mc_min_rate :: real

record check_result =
  cr_check_id :: string
  cr_arm :: string
  cr_kind :: string
  cr_matched :: nat
  cr_total :: nat
  cr_rate :: real
  cr_passed :: bool
  cr_description :: string

definition evaluate_check :: "json pydict list pydict \<Rightarrow> manipulation_check \<Rightarrow> check_result" where
  "evaluate_check arms c =
     (let rows = (case dict_get arms (mc_arm c) of Some rs \<Rightarrow> rs | None \<Rightarrow> []);
          matched = length (filter (mc_predicate c) rows); total = length rows;
          rate = (if total \<noteq> 0 then real matched / real total else 0);
          passed = (if mc_kind c = ''absent_in_arm'' then 0 < total \<and> matched = 0
                    else 0 < total \<and> mc_min_rate c \<le> rate)
      in \<lparr>cr_check_id = mc_check_id c, cr_arm = mc_arm c, cr_kind = mc_kind c, cr_matched = matched,
          cr_total = total, cr_rate = rate, cr_passed = passed, cr_description = mc_description c\<rparr>)"

record gate_report =
  gr_all_passed :: bool
  gr_results :: "check_result list"

definition evaluate_manipulation_checks :: "manipulation_check list \<Rightarrow> json pydict list pydict \<Rightarrow> gate_report" where
  "evaluate_manipulation_checks checks arms =
     (let results = map (evaluate_check arms) checks
      in \<lparr>gr_all_passed = (results \<noteq> [] \<and> list_all cr_passed results), gr_results = results\<rparr>)"

section \<open>The gate\<close>

text \<open>What a check demands of the rows of its arm.\<close>

definition demand_met :: "json pydict list \<Rightarrow> manipulation_check \<Rightarrow> bool" where
  "demand_met rows c \<longleftrightarrow> rows \<noteq> [] \<and>
     (if mc_kind c = ''absent_in_arm'' then list_all (\<lambda>r. \<not> mc_predicate c r) rows
      else mc_min_rate c * real (length rows) \<le> real (length (filter (mc_predicate c) rows)))"

lemma check_passed_iff:
  "cr_passed (evaluate_check arms c) \<longleftrightarrow> (\<exists>rows. dict_get arms (mc_arm c) = Some rows \<and> demand_met rows c)"
  by (cases "dict_get arms (mc_arm c)")
    (auto simp: evaluate_check_def Let_def demand_met_def pos_le_divide_eq filter_empty_conv list_all_iff)

text \<open>
  the gate opens exactly on met demands. It passes iff there is at least one check and the arm of every
  check exists, has rows, and meets the demand: no row satisfies an absence check, at least the minimal share
  of the rows satisfies any other. Rates lie between 0 and 1, and with a minimal rate of 1 a passed presence
  check holds on every row.
\<close>

theorem gate_opens_iff:
  "(gr_all_passed (evaluate_manipulation_checks checks arms) \<longleftrightarrow>
     checks \<noteq> [] \<and> (\<forall>c \<in> set checks. \<exists>rows. dict_get arms (mc_arm c) = Some rows \<and> demand_met rows c)) \<and>
   (\<forall>r \<in> set (gr_results (evaluate_manipulation_checks checks arms)). 0 \<le> cr_rate r \<and> cr_rate r \<le> 1 \<and>
      cr_matched r \<le> cr_total r) \<and>
   (\<forall>c rows. demand_met rows c \<and> mc_kind c \<noteq> ''absent_in_arm'' \<and> mc_min_rate c = 1 \<longrightarrow> list_all (mc_predicate c) rows)"
proof (intro conjI allI impI ballI)
  show "gr_all_passed (evaluate_manipulation_checks checks arms) \<longleftrightarrow>
     checks \<noteq> [] \<and> (\<forall>c \<in> set checks. \<exists>rows. dict_get arms (mc_arm c) = Some rows \<and> demand_met rows c)"
    by (simp add: evaluate_manipulation_checks_def Let_def list_all_iff check_passed_iff)
  fix r assume "r \<in> set (gr_results (evaluate_manipulation_checks checks arms))"
  then obtain c where "r = evaluate_check arms c" by (auto simp: evaluate_manipulation_checks_def Let_def)
  then show "0 \<le> cr_rate r" "cr_rate r \<le> 1" "cr_matched r \<le> cr_total r"
    by (auto simp: evaluate_check_def Let_def divide_le_eq_1)
next
  fix c rows assume a: "demand_met rows c \<and> mc_kind c \<noteq> ''absent_in_arm'' \<and> mc_min_rate c = 1"
  then have "length rows \<le> length (filter (mc_predicate c) rows)" by (auto simp: demand_met_def)
  then show "list_all (mc_predicate c) rows"
    by (metis leD length_filter_less list_all_iff)
qed

theorem gate_opens_iff_witness:
  "gr_all_passed (evaluate_manipulation_checks
     [\<lparr>mc_check_id = ''M4'', mc_description = '''', mc_arm = ''control'', mc_predicate = (\<lambda>r. r \<noteq> []),
       mc_kind = ''absent_in_arm'', mc_min_rate = 1\<rparr>] [(''control'', [[]])])"
  using gate_opens_iff [of "[\<lparr>mc_check_id = ''M4'', mc_description = '''', mc_arm = ''control'', mc_predicate = (\<lambda>r. r \<noteq> []),
       mc_kind = ''absent_in_arm'', mc_min_rate = 1\<rparr>]" "[(''control'', [[]])]"]
  by (simp add: demand_met_def dict_get_def)

end
