(* ===== verification/Evidence_Manifest.thy ===== *)
theory Evidence_Manifest
  imports Pair_State Py_Lines
begin

text \<open>
  Hash manifests of evidence trees, \<open>packages/clinic/src/wutai_clinic/evidence/manifest_tool.py\<close>. A tree is
  the list of the regular files under the root with their bytes, a path being the list of its components
  relative to the root; \<open>h\<close> is SHA-256 in hexadecimal. \<open>elsewhere\<close> is the content of what a manifest line
  names outside the tree (an absolute path, or one with \<open>..\<close> in it).
\<close>

section \<open>Model\<close>

type_synonym tree = "(path \<times> string) list"

definition MANIFEST_NAME :: string where
  "MANIFEST_NAME = ''MANIFEST.sha256''"

definition SKIP_DIR_NAMES :: "string list" where
  "SKIP_DIR_NAMES = [''.git'', ''__pycache__'', ''.pytest_cache'']"

text \<open>Sorted by components; a skipped directory name counts anywhere in the path, the root's own part included.\<close>

definition is_evidence :: "path \<Rightarrow> path \<Rightarrow> bool" where
  "is_evidence rootp p \<longleftrightarrow> last p \<noteq> MANIFEST_NAME \<and> (\<forall>part \<in> set (rootp @ p). part \<notin> set SKIP_DIR_NAMES)"

definition iter_evidence_files :: "path \<Rightarrow> tree \<Rightarrow> path list" where
  "iter_evidence_files rootp t = filter (is_evidence rootp) (sort (map fst t))"

definition posix :: "path \<Rightarrow> string" where
  "posix p = join ''/'' p"

definition file_bytes :: "tree \<Rightarrow> path \<Rightarrow> string" where
  "file_bytes t p = (case map_of t p of Some b \<Rightarrow> b | None \<Rightarrow> [])"

definition manifest_row :: "(string \<Rightarrow> string) \<Rightarrow> tree \<Rightarrow> path \<Rightarrow> string" where
  "manifest_row h t p = posix p @ ''  '' @ h (file_bytes t p) @ ''  '' @ show_nat (length (file_bytes t p))"

record generated =
  gn_file_count :: nat
  gn_total_bytes :: nat

text \<open>\<open>now\<close> is the clock's text, used without \<open>generated_at\<close>.\<close>

definition manifest_header :: "string option \<Rightarrow> string option \<Rightarrow> string \<Rightarrow> nat \<Rightarrow> nat \<Rightarrow> string list" where
  "manifest_header note generated_at now files bytes =
     (let stamp = (case generated_at of Some g \<Rightarrow> if g \<noteq> [] then g else now | None \<Rightarrow> now)
      in [''# '' @ MANIFEST_NAME,
          ''# Generated: '' @ stamp @ '' by wutai-clinic evidence-manifest'',
          ''# Files: '' @ show_nat files @ ''  Total bytes: '' @ show_nat bytes] @
         (case note of Some n \<Rightarrow> if n \<noteq> [] then [''# Note: '' @ n] else [] | None \<Rightarrow> []))"

definition manifest_lines :: "(string \<Rightarrow> string) \<Rightarrow> path \<Rightarrow> string option \<Rightarrow> string option \<Rightarrow> string \<Rightarrow> tree \<Rightarrow> string list" where
  "manifest_lines h rootp note generated_at now t =
     (let ps = iter_evidence_files rootp t;
          rows = map (manifest_row h t) ps;
          total = sum_list (map (\<lambda>p. length (file_bytes t p)) ps)
      in manifest_header note generated_at now (length rows) total @ [''''] @ rows)"

definition generate_manifest_file :: "(string \<Rightarrow> string) \<Rightarrow> path \<Rightarrow> string option \<Rightarrow> string option \<Rightarrow> string \<Rightarrow> tree option \<Rightarrow>
    pyexn + (tree \<times> generated)" where
  "generate_manifest_file h rootp note generated_at now dir =
     (case dir of
        None \<Rightarrow> Inl (LookupErr (''evidence root not found: '' @ posix rootp))
      | Some t \<Rightarrow>
          (let ps = iter_evidence_files rootp t
           in Inr (AList.update [MANIFEST_NAME]
                (join [CHR 0x0A] (manifest_lines h rootp note generated_at now t) @ [CHR 0x0A]) t,
              \<lparr>gn_file_count = length ps, gn_total_bytes = sum_list (map (\<lambda>p. length (file_bytes t p)) ps)\<rparr>)))"

text \<open>\<open>s.rsplit("  ", 1)\<close> on the reversed text; the accumulator is the part to the right of the cut.\<close>

fun cut_last_gap :: "string \<Rightarrow> string \<Rightarrow> (string \<times> string) option" where
  "cut_last_gap acc (c # d # cs) =
     (if c = CHR '' '' \<and> d = CHR '' '' then Some (rev cs, acc) else cut_last_gap (c # acc) (d # cs))"
| "cut_last_gap acc _ = None"

text \<open>\<open>line.rsplit("  ", 2)\<close>, when it gives three parts\<close>

definition three_parts :: "string \<Rightarrow> (string \<times> string \<times> string) option" where
  "three_parts s =
     (case cut_last_gap [] (rev s) of
        None \<Rightarrow> None
      | Some (l, num) \<Rightarrow>
          (case cut_last_gap [] (rev l) of None \<Rightarrow> None | Some (rel, digest) \<Rightarrow> Some (rel, digest, num)))"

fun read_rows :: "string list \<Rightarrow> (string \<times> int) pydict \<Rightarrow> pyexn + (string \<times> int) pydict" where
  "read_rows [] d = Inr d"
| "read_rows (l # ls) d =
     (let line = strip l in
      if line = [] \<or> starts_with ''#'' line then read_rows ls d
      else (case three_parts line of
          None \<Rightarrow> read_rows ls d
        | Some (rel, digest, num) \<Rightarrow>
            (case py_int num of
               None \<Rightarrow> Inl (ValueErr ''invalid literal for int()'')
             | Some n \<Rightarrow> read_rows ls (dict_set rel (digest, n) d))))"

definition named_file :: "(string \<Rightarrow> string option) \<Rightarrow> tree \<Rightarrow> string \<Rightarrow> string option" where
  "named_file elsewhere t rel =
     (let parts = filter (\<lambda>p. p \<noteq> [] \<and> p \<noteq> ''.'') (split_slash [] rel)
      in if starts_with ''/'' rel \<or> ''..'' \<in> set parts then elsewhere rel else map_of t parts)"

record manifest_check =
  mf_ok :: bool
  mf_error :: "string option"
  mf_expected_count :: nat
  mf_mismatched :: "string list"
  mf_missing :: "string list"
  mf_untracked :: "string list"

definition verify_manifest_file :: "(string \<Rightarrow> string) \<Rightarrow> (string \<Rightarrow> string option) \<Rightarrow> path \<Rightarrow> tree \<Rightarrow> pyexn + manifest_check" where
  "verify_manifest_file h elsewhere rootp t =
     (case map_of t [MANIFEST_NAME] of
        None \<Rightarrow> Inr \<lparr>mf_ok = False, mf_error = Some ''manifest_missing'', mf_expected_count = 0,
          mf_mismatched = [], mf_missing = [], mf_untracked = []\<rparr>
      | Some text \<Rightarrow>
          (case read_rows (splitlines text) [] of
             Inl x \<Rightarrow> Inl x
           | Inr expected \<Rightarrow>
               (let missing = map fst (filter (\<lambda>(rel, _). named_file elsewhere t rel = None) expected);
                    mismatched = map fst (filter (\<lambda>(rel, digest, _).
                      case named_file elsewhere t rel of None \<Rightarrow> False | Some b \<Rightarrow> h b \<noteq> digest) expected);
                    untracked = sort (filter (\<lambda>r. r \<notin> set (map fst expected)) (dedup (map posix (iter_evidence_files rootp t))))
                in Inr \<lparr>mf_ok = (mismatched = [] \<and> missing = [] \<and> untracked = []), mf_error = None,
                     mf_expected_count = length expected, mf_mismatched = sort mismatched,
                     mf_missing = sort missing, mf_untracked = untracked\<rparr>)))"

section \<open>Names and rows\<close>

definition tidy :: "path \<Rightarrow> bool" where
  "tidy p \<longleftrightarrow> p \<noteq> [] \<and> (\<forall>x \<in> set p. x \<noteq> [] \<and> x \<noteq> ''.'' \<and> x \<noteq> ''..'' \<and> CHR ''/'' \<notin> set x)"

text \<open>A name a manifest line can carry.\<close>

definition readable_name :: "path \<Rightarrow> bool" where
  "readable_name p \<longleftrightarrow> tidy p \<and> no_breaks (posix p) \<and> \<not> py_space (hd (posix p)) \<and> hd (posix p) \<noteq> CHR ''#''"

definition hash_text :: "(string \<Rightarrow> string) \<Rightarrow> bool" where
  "hash_text h \<longleftrightarrow> (\<forall>b. printable (h b) \<and> CHR '' '' \<notin> set (h b))"

lemma split_slash_part: "CHR ''/'' \<notin> set x \<Longrightarrow> split_slash acc (x @ CHR ''/'' # s) = (rev acc @ x) # split_slash [] s"
  by (induction x arbitrary: acc) auto

lemma split_slash_last: "CHR ''/'' \<notin> set x \<Longrightarrow> split_slash acc x = [rev acc @ x]"
  by (induction x arbitrary: acc) auto

lemma split_slash_posix: "p \<noteq> [] \<Longrightarrow> \<forall>x \<in> set p. CHR ''/'' \<notin> set x \<Longrightarrow> split_slash [] (posix p) = p"
proof (induction p)
  case (Cons x p)
  then show ?case
    by (cases p) (simp_all add: posix_def split_slash_part split_slash_last)
qed simp

lemma tidy_parts: "tidy p \<Longrightarrow> split_slash [] (posix p) = p"
  by (simp add: tidy_def split_slash_posix)

lemma posix_inj: "tidy p \<Longrightarrow> tidy q \<Longrightarrow> posix p = posix q \<longleftrightarrow> p = q"
  by (metis tidy_parts)

lemma posix_hd: "tidy p \<Longrightarrow> posix p \<noteq> [] \<and> hd (posix p) = hd (hd p)"
  by (cases p; cases "tl p") (auto simp: tidy_def posix_def)

lemma named_file_posix: "tidy p \<Longrightarrow> named_file elsewhere t (posix p) = map_of t p"
proof -
  assume p: "tidy p"
  then have "filter (\<lambda>x. x \<noteq> [] \<and> x \<noteq> ''.'') p = p" "''..'' \<notin> set p" by (auto simp: tidy_def filter_id_conv)
  moreover have "hd (hd p) \<noteq> CHR ''/''" using p by (metis hd_in_set tidy_def)
  then have "\<not> starts_with ''/'' (posix p)"
    using posix_hd [OF p] by (cases "posix p") (auto simp: starts_with_def)
  ultimately show ?thesis by (simp add: named_file_def tidy_parts [OF p])
qed

lemma cut_last_gap_word:
  "CHR '' '' \<notin> set r \<Longrightarrow> cut_last_gap acc (r @ CHR '' '' # CHR '' '' # cs) = Some (rev cs, rev r @ acc)"
proof (induction r arbitrary: acc)
  case (Cons c r)
  then show ?case by (cases r) auto
qed simp

lemma three_parts_row:
  assumes "CHR '' '' \<notin> set d" "CHR '' '' \<notin> set n"
  shows "three_parts (rel @ ''  '' @ d @ ''  '' @ n) = Some (rel, d, n)"
  using cut_last_gap_word [of "rev n" "[]" "rev d @ CHR '' '' # CHR '' '' # rev rel"]
    cut_last_gap_word [of "rev d" "[]" "rev rel"] assms by (simp add: three_parts_def)

lemma no_breaks_printable_append: "printable a \<Longrightarrow> no_breaks (a @ b) \<longleftrightarrow> no_breaks b"
  by (induction a) (auto simp: printable_def line_break_def)

lemma line_break_printable:
  assumes "line_break (c # cs) = 0" "printable b"
  shows "line_break (c # cs @ b) = 0"
  using assms
  by (cases cs; cases "tl cs"; cases b)
    (auto simp: line_break_def printable_def nth_append split: if_splits list.splits)

lemma no_breaks_append_printable: "no_breaks a \<Longrightarrow> printable b \<Longrightarrow> no_breaks (a @ b)"
  by (induction a) (auto simp: line_break_printable printable_no_breaks)

lemma printable_append [simp]: "printable (a @ b) \<longleftrightarrow> printable a \<and> printable b"
  by (auto simp: printable_def)

lemma strip_Cons: "\<not> py_space c \<Longrightarrow> \<exists>s'. strip (c # s) = c # s'"
proof -
  assume "\<not> py_space c"
  then have "strip (c # s) = c # rev (dropWhile py_space (rev s))"
    by (auto simp: strip_def lstrip_def rstrip_by_def dropWhile_append dropWhile_eq_Nil_conv)
  then show ?thesis by blast
qed

section \<open>Reading back\<close>

lemma read_rows_comments:
  "\<forall>l \<in> set ls. l = [] \<or> hd l = CHR ''#'' \<Longrightarrow> read_rows (ls @ rest) d = read_rows rest d"
proof (induction ls)
  case (Cons l ls)
  show ?case
  proof (cases l)
    case Nil
    with Cons show ?thesis by (simp add: strip_def lstrip_def rstrip_by_def)
  next
    case (Cons c cs)
    with Cons.prems have "c = CHR ''#''" by simp
    with strip_Cons [of c cs] Cons obtain s' where "strip l = CHR ''#'' # s'"
      by (auto simp: py_space_def char_code_def)
    with Cons.IH Cons.prems show ?thesis by (simp add: starts_with_def)
  qed
qed simp

definition row_entry :: "(string \<Rightarrow> string) \<Rightarrow> tree \<Rightarrow> path \<Rightarrow> string \<times> string \<times> int" where
  "row_entry h t p = (posix p, h (file_bytes t p), int (length (file_bytes t p)))"

lemma read_row:
  assumes "hash_text h" "readable_name p"
  shows "read_rows (manifest_row h t p # ls) d = read_rows ls (dict_set (posix p) (snd (row_entry h t p)) d)"
proof -
  let ?row = "manifest_row h t p"
  have d: "\<forall>c \<in> set (show_nat n). is_digit c" for n using show_nat_digits by blast
  have space: "CHR '' '' \<notin> set (show_nat n)" for n using d [of n] by (auto simp: is_digit_def char_code_def)
  have hd: "hd ?row = hd (posix p)" "?row \<noteq> []" using assms(2) posix_hd [of p] by (auto simp: manifest_row_def readable_name_def)
  have "last ?row = last (show_nat (length (file_bytes t p)))" by (simp add: manifest_row_def)
  then have "\<not> py_space (last ?row)" using d digit_not_space by (metis last_in_set show_nat_not_Nil)
  with hd assms(2) have "strip ?row = ?row" by (intro strip_id) (simp add: readable_name_def)
  moreover have "\<not> starts_with ''#'' ?row" using hd assms(2) by (cases ?row) (auto simp: starts_with_def readable_name_def)
  moreover have "three_parts ?row = Some (posix p, h (file_bytes t p), show_nat (length (file_bytes t p)))"
    unfolding manifest_row_def using assms(1) space by (intro three_parts_row) (auto simp: hash_text_def)
  ultimately show ?thesis using hd(2) by (simp add: row_entry_def)
qed

lemma read_rows_manifest:
  assumes "hash_text h" "\<forall>p \<in> set ps. readable_name p"
  shows "read_rows (map (manifest_row h t) ps) d = Inr (foldl (\<lambda>d p. dict_set (posix p) (snd (row_entry h t p)) d) d ps)"
  using assms(2) by (induction ps arbitrary: d) (simp_all add: read_row [OF assms(1)] del: read_rows.simps(2))

lemma evidence_dom: "set (iter_evidence_files rootp t) = {p \<in> dom (map_of t). is_evidence rootp p}"
  by (auto simp: iter_evidence_files_def dom_map_of_conv_image_fst)

definition one_line :: "string option \<Rightarrow> bool" where
  "one_line s \<longleftrightarrow> (\<forall>x. s = Some x \<longrightarrow> no_breaks x)"

lemma header_comments:
  assumes "no_breaks now" "one_line generated_at" "one_line note" "l \<in> set (manifest_header note generated_at now m n)"
  shows "no_breaks l \<and> hd l = CHR ''#''"
proof -
  let ?stamp = "case generated_at of Some g \<Rightarrow> if g \<noteq> [] then g else now | None \<Rightarrow> now"
  from assms(4) consider "l = ''# '' @ MANIFEST_NAME"
    | "l = ''# Generated: '' @ ?stamp @ '' by wutai-clinic evidence-manifest''"
    | "l = ''# Files: '' @ show_nat m @ ''  Total bytes: '' @ show_nat n"
    | x where "l = ''# Note: '' @ x" "note = Some x"
    by (auto simp: manifest_header_def Let_def split: option.splits if_splits)
  then show ?thesis
  proof cases
    case 1
    then show ?thesis by (simp add: MANIFEST_NAME_def line_break_def char_code_def)
  next
    case 2
    have "no_breaks ?stamp" using assms(1,2) by (auto simp: one_line_def split: option.splits)
    then have "no_breaks (?stamp @ '' by wutai-clinic evidence-manifest'')"
      by (rule no_breaks_append_printable) (simp add: printable_def char_code_def)
    then have "no_breaks (''# Generated: '' @ ?stamp @ '' by wutai-clinic evidence-manifest'')"
      by (subst no_breaks_printable_append) (simp_all add: printable_def char_code_def)
    with 2 show ?thesis by simp
  next
    case 3
    have "printable (''# Files: '' @ show_nat m @ ''  Total bytes: '' @ show_nat n)"
      unfolding printable_append by (intro conjI printable_show_nat) (simp_all add: printable_def char_code_def)
    from printable_no_breaks [OF this] 3 show ?thesis by (simp del: no_breaks.simps)
  next
    case 4
    then have "no_breaks (''# Note: '' @ x)" using assms(3)
      by (subst no_breaks_printable_append) (simp_all add: printable_def char_code_def one_line_def)
    with 4 show ?thesis by simp
  qed
qed

lemma row_no_breaks: "hash_text h \<Longrightarrow> readable_name p \<Longrightarrow> no_breaks (manifest_row h t p)"
proof -
  assume a: "hash_text h" "readable_name p"
  have "printable (''  '' @ h (file_bytes t p) @ ''  '' @ show_nat (length (file_bytes t p)))"
    using a(1) unfolding printable_append
    by (intro conjI printable_show_nat) (simp_all add: hash_text_def printable_def char_code_def)
  with a(2) show ?thesis unfolding manifest_row_def readable_name_def by (intro no_breaks_append_printable) auto
qed

lemma read_generated:
  assumes "hash_text h" "distinct (map fst t)" "\<forall>p \<in> set (iter_evidence_files rootp t). readable_name p"
    and "no_breaks now" "one_line generated_at" "one_line note"
  shows "read_rows (splitlines (join [CHR 0x0A] (manifest_lines h rootp note generated_at now t) @ [CHR 0x0A])) [] =
    Inr (map (row_entry h t) (iter_evidence_files rootp t))"
proof -
  let ?ps = "iter_evidence_files rootp t" and ?rows = "map (manifest_row h t) (iter_evidence_files rootp t)"
  obtain hs where lines: "manifest_lines h rootp note generated_at now t = hs @ ?rows"
    and hs: "\<forall>l \<in> set hs. no_breaks l \<and> (l = [] \<or> hd l = CHR ''#'')" "hs \<noteq> []"
    using header_comments [OF assms(4-6)] by (force simp: manifest_lines_def Let_def)
  have "splitlines (join [CHR 0x0A] (hs @ ?rows) @ [CHR 0x0A]) = hs @ ?rows"
    using hs assms(1,3) by (intro splitlines_joined) (auto simp: row_no_breaks)
  moreover have "inj_on posix (set ?ps)" using assms(3) posix_inj by (auto simp: inj_on_def readable_name_def)
  then have "distinct (map posix ?ps)" using assms(2) by (simp add: distinct_map iter_evidence_files_def)
  then have "foldl (\<lambda>d p. dict_set (posix p) (snd (row_entry h t p)) d) [] ?ps = map (row_entry h t) ?ps"
    using dict_sets_fresh [of "[]" posix ?ps "\<lambda>p. snd (row_entry h t p)"] by (simp add: row_entry_def)
  ultimately show ?thesis using hs assms(1,3) by (simp add: lines read_rows_comments read_rows_manifest)
qed

section \<open>Integrity\<close>

lemma verify_rows:
  assumes "map_of t' [MANIFEST_NAME] = Some stored" "read_rows (splitlines stored) [] = Inr (map (row_entry h t) ps)"
    and "\<forall>p \<in> set ps. named_file elsewhere t' (posix p) = map_of t' p"
  shows "\<exists>r. verify_manifest_file h elsewhere rootp t' = Inr r \<and>
    set (mf_missing r) = posix ` {p \<in> set ps. map_of t' p = None} \<and>
    set (mf_mismatched r) = posix ` {p \<in> set ps. \<exists>b. map_of t' p = Some b \<and> h b \<noteq> h (file_bytes t p)} \<and>
    set (mf_untracked r) = posix ` set (iter_evidence_files rootp t') - posix ` set ps \<and>
    (mf_ok r \<longleftrightarrow> set (mf_mismatched r) = {} \<and> set (mf_missing r) = {} \<and> set (mf_untracked r) = {})"
proof -
  let ?mi = "map posix (filter (\<lambda>p. map_of t' p = None) ps)"
    and ?mm = "map posix (filter (\<lambda>p. case map_of t' p of None \<Rightarrow> False | Some b \<Rightarrow> h b \<noteq> h (file_bytes t p)) ps)"
    and ?un = "filter (\<lambda>r. r \<notin> posix ` set ps) (dedup (map posix (iter_evidence_files rootp t')))"
  have empty: "sort xs = [] \<longleftrightarrow> xs = []" for xs :: "string list" by (metis set_empty set_sort)
  have fst: "fst \<circ> row_entry h t = posix" by (simp add: row_entry_def comp_def)
  have "verify_manifest_file h elsewhere rootp t' = Inr \<lparr>mf_ok = (?mm = [] \<and> ?mi = [] \<and> sort ?un = []), mf_error = None,
      mf_expected_count = length ps, mf_mismatched = sort ?mm, mf_missing = sort ?mi, mf_untracked = sort ?un\<rparr>"
    using assms(3) by (simp add: verify_manifest_file_def assms(1,2) Let_def filter_map fst)
      (simp add: comp_def row_entry_def cong: filter_cong)
  then show ?thesis by (auto simp: empty set_empty [symmetric] split: option.splits simp del: set_empty)
qed

text \<open>
  C24: a manifest detects every change of its tree. Generate a manifest over a tree whose file names a line can
  carry, and verify any later tree that still holds this manifest text: verification does not raise, it lists
  exactly the recorded files that are gone, those whose hash differs and those the manifest does not know, and it
  is \<open>ok\<close> exactly when the evidence files are the same with the same hashes. Verified at once, it is \<open>ok\<close>.
\<close>

theorem manifest_detects_changes:
  assumes "hash_text h" "distinct (map fst t)" "no_breaks now" "one_line generated_at" "one_line note"
    and "\<forall>p \<in> set (iter_evidence_files rootp t) \<union> set (iter_evidence_files rootp t'). readable_name p"
    and "generate_manifest_file h rootp note generated_at now (Some t) = Inr (t1, g)"
    and "map_of t' [MANIFEST_NAME] = map_of t1 [MANIFEST_NAME]"
  shows "\<exists>r. verify_manifest_file h elsewhere rootp t' = Inr r \<and>
    set (mf_missing r) = posix ` (set (iter_evidence_files rootp t) - set (iter_evidence_files rootp t')) \<and>
    set (mf_mismatched r) = posix ` {p \<in> set (iter_evidence_files rootp t) \<inter> set (iter_evidence_files rootp t').
      h (file_bytes t' p) \<noteq> h (file_bytes t p)} \<and>
    set (mf_untracked r) = posix ` (set (iter_evidence_files rootp t') - set (iter_evidence_files rootp t)) \<and>
    (mf_ok r \<longleftrightarrow> set (iter_evidence_files rootp t') = set (iter_evidence_files rootp t) \<and>
      (\<forall>p \<in> set (iter_evidence_files rootp t). h (file_bytes t' p) = h (file_bytes t p))) \<and>
    (t' = t1 \<longrightarrow> mf_ok r)"
proof -
  let ?ps = "iter_evidence_files rootp t" and ?qs = "iter_evidence_files rootp t'"
  let ?text = "join [CHR 0x0A] (manifest_lines h rootp note generated_at now t) @ [CHR 0x0A]"
  have t1: "t1 = AList.update [MANIFEST_NAME] ?text t" using assms(7) by (simp add: generate_manifest_file_def Let_def)
  then have stored: "map_of t' [MANIFEST_NAME] = Some ?text" using assms(8) by (simp add: update_conv)
  from assms(6) have read: "read_rows (splitlines ?text) [] = Inr (map (row_entry h t) ?ps)"
    by (intro read_generated assms(1-5)) auto
  have named: "\<forall>p \<in> set ?ps. named_file elsewhere t' (posix p) = map_of t' p"
    using assms(6) by (intro ballI named_file_posix) (auto simp: readable_name_def)
  have there: "p \<in> set ?qs \<longleftrightarrow> map_of t' p \<noteq> None" "map_of t' p = Some b \<Longrightarrow> file_bytes t' p = b" if "p \<in> set ?ps" for p b
    using that by (auto simp: evidence_dom file_bytes_def)
  have inj: "posix q \<in> posix ` set ?ps \<longleftrightarrow> q \<in> set ?ps" if "q \<in> set ?qs" for q
    using assms(6) that posix_inj unfolding readable_name_def by blast
  from verify_rows [where rootp = rootp, OF stored read named] obtain r where r: "verify_manifest_file h elsewhere rootp t' = Inr r"
    and mi: "set (mf_missing r) = posix ` {p \<in> set ?ps. map_of t' p = None}"
    and mm: "set (mf_mismatched r) = posix ` {p \<in> set ?ps. \<exists>b. map_of t' p = Some b \<and> h b \<noteq> h (file_bytes t p)}"
    and un: "set (mf_untracked r) = posix ` set ?qs - posix ` set ?ps"
    and ok: "mf_ok r \<longleftrightarrow> set (mf_mismatched r) = {} \<and> set (mf_missing r) = {} \<and> set (mf_untracked r) = {}"
    by (elim exE conjE) (rule that)
  have mi': "set (mf_missing r) = posix ` (set ?ps - set ?qs)" using there(1) by (auto simp: mi)
  have mm': "set (mf_mismatched r) = posix ` {p \<in> set ?ps \<inter> set ?qs. h (file_bytes t' p) \<noteq> h (file_bytes t p)}"
    using there by (force simp: mm)
  have un': "set (mf_untracked r) = posix ` (set ?qs - set ?ps)" using inj by (auto simp: un)
  have ok': "mf_ok r \<longleftrightarrow> set ?qs = set ?ps \<and> (\<forall>p \<in> set ?ps. h (file_bytes t' p) = h (file_bytes t p))"
    unfolding ok mi' mm' un' by auto
  have "mf_ok r" if "t' = t1"
  proof -
    have "is_evidence rootp p \<Longrightarrow> map_of t' p = map_of t p" for p by (auto simp: that t1 update_conv is_evidence_def)
    then show ?thesis unfolding ok' by (auto simp: evidence_dom file_bytes_def)
  qed
  with r mi' mm' un' ok' show ?thesis by blast
qed

definition demo_tree :: tree where
  "demo_tree = [([''logs'', ''a.txt''], ''abc''), ([''b.txt''], ''x'')]"

theorem manifest_detects_changes_witness:
  "\<exists>t1 g r. generate_manifest_file (\<lambda>b. show_nat (length b)) [''evidence''] None None ''now'' (Some demo_tree) = Inr (t1, g) \<and>
     verify_manifest_file (\<lambda>b. show_nat (length b)) (\<lambda>_. None) [''evidence''] (AList.update [''b.txt''] ''changed'' t1) = Inr r \<and>
     \<not> mf_ok r \<and> set (mf_mismatched r) = {''b.txt''}"
proof -
  let ?h = "\<lambda>b :: string. show_nat (length b)" and ?root = "[''evidence'']"
  obtain t1 g body where gen: "generate_manifest_file ?h ?root None None ''now'' (Some demo_tree) = Inr (t1, g)"
    and t1: "t1 = AList.update [MANIFEST_NAME] body demo_tree" by (simp add: generate_manifest_file_def Let_def)
  let ?t' = "AList.update [''b.txt''] ''changed'' t1"
  have names: "[''b.txt''] \<noteq> [MANIFEST_NAME]" "[''logs'', ''a.txt''] \<noteq> [MANIFEST_NAME]" by (simp_all add: MANIFEST_NAME_def)
  have dom: "dom (map_of demo_tree) = {[''b.txt''], [''logs'', ''a.txt'']}" by (auto simp: demo_tree_def split: if_splits)
  have "hash_text ?h"
    using printable_show_nat by (auto simp: hash_text_def is_digit_def char_code_def dest!: show_nat_digits)
  moreover have ev: "is_evidence ?root [''b.txt'']" "is_evidence ?root [''logs'', ''a.txt'']" "\<not> is_evidence ?root [MANIFEST_NAME]"
    by code_simp+
  have files: "set (iter_evidence_files ?root demo_tree) = {[''b.txt''], [''logs'', ''a.txt'']}"
    using ev by (auto simp: evidence_dom dom)
  moreover have "dom (map_of ?t') = {[''b.txt''], [''logs'', ''a.txt''], [MANIFEST_NAME]}"
    using dom by (auto simp: t1 update_conv' dom_if)
  then have "set (iter_evidence_files ?root ?t') = {[''b.txt''], [''logs'', ''a.txt'']}"
    using ev by (auto simp: evidence_dom)
  moreover have "readable_name [''b.txt'']" "readable_name [''logs'', ''a.txt'']" by code_simp+
  moreover have "map_of ?t' [MANIFEST_NAME] = map_of t1 [MANIFEST_NAME]" using names by (simp add: update_conv)
  moreover have "distinct (map fst demo_tree)" "no_breaks ''now''" "one_line None" by (simp_all add: demo_tree_def one_line_def line_break_def char_code_def)
  ultimately obtain r where r: "verify_manifest_file ?h (\<lambda>_. None) ?root ?t' = Inr r"
    "set (mf_mismatched r) = posix ` {p \<in> {[''b.txt''], [''logs'', ''a.txt'']}. ?h (file_bytes ?t' p) \<noteq> ?h (file_bytes demo_tree p)}"
    "mf_ok r \<longleftrightarrow> (\<forall>p \<in> {[''b.txt''], [''logs'', ''a.txt'']}. ?h (file_bytes ?t' p) = ?h (file_bytes demo_tree p))"
    using manifest_detects_changes [OF _ _ _ _ _ _ gen, of ?t' "\<lambda>_. None"] by auto
  have "file_bytes ?t' [''b.txt''] = ''changed''" "file_bytes ?t' [''logs'', ''a.txt''] = ''abc''"
    using names by (simp_all add: file_bytes_def update_conv t1 demo_tree_def)
  then have b: "?h (file_bytes ?t' p) \<noteq> ?h (file_bytes demo_tree p) \<longleftrightarrow> p = [''b.txt'']"
    if "p \<in> {[''b.txt''], [''logs'', ''a.txt'']}" for p using that by (auto simp: file_bytes_def demo_tree_def)
  then have "{p \<in> {[''b.txt''], [''logs'', ''a.txt'']}. ?h (file_bytes ?t' p) \<noteq> ?h (file_bytes demo_tree p)} = {[''b.txt'']}" by blast
  with r b gen show ?thesis by (auto simp: posix_def)
qed

text \<open>
  The hypothesis on names is needed: a file whose name starts with \<open>#\<close> is written as a line that reads as a
  comment, and the tree fails its own fresh manifest.
\<close>

theorem hash_name_fails_verification:
  "(case generate_manifest_file (\<lambda>_. ''00'') [] None None ''now'' (Some [([''#notes''], ''x'')]) of
      Inl _ \<Rightarrow> False
    | Inr (t1, g) \<Rightarrow> (case verify_manifest_file (\<lambda>_. ''00'') (\<lambda>_. None) [] t1 of
        Inl _ \<Rightarrow> False | Inr r \<Rightarrow> \<not> mf_ok r \<and> mf_untracked r = [''#notes'']))"
  by code_simp

end
