(* ===== verification/Protocol_B1.thy ===== *)
theory Protocol_B1
  imports Protocol_V1
begin

text \<open>
  Protocol B1 of the Route B probe, \<open>packages/clinic/src/wutai_clinic/intervention/protocol_b1.py\<close>: inject one
  piece of information the agent could have found itself, with every oracle forbidden. As for the other
  protocols, \<open>from_dict\<close> of every class is a function to an exception or a record; \<open>to_dict\<close> is the way back.
\<close>

section \<open>Model\<close>

definition PROTOCOL_B1_VERSION :: string where
  "PROTOCOL_B1_VERSION = ''protocol_b1_issue_text_repro''"

definition PROTOCOL_B1_CLAIM_BOUNDARY :: string where
  "PROTOCOL_B1_CLAIM_BOUNDARY = ''route_b_go_no_go_no_uplift_claim''"

definition ISSUE_TEXT_ONLY :: string where
  "ISSUE_TEXT_ONLY = ''issue_text_only''"

definition INFO_KIND_ALLOWED_FIELDS :: "string list pydict" where
  "INFO_KIND_ALLOWED_FIELDS =
     [(''issue_text_reproduction'', [''issue_reproduction_steps'', ''issue_derived_repro_traceback''])]"

text \<open>In the order of \<open>sorted\<close>.\<close>

definition REQUIRED_FORBIDDEN_CATEGORIES :: "string list" where
  "REQUIRED_FORBIDDEN_CATEGORIES = [''fix_diff'', ''gold_patch'', ''hidden_test_oracle'', ''official_eval_outcome'',
     ''official_test_identity'', ''oracle_capsule'']"

definition DISALLOWED_ORACLE_TOKENS :: "string list" where
  "DISALLOWED_ORACLE_TOKENS = [''fail_to_pass'', ''failing_test'', ''fix_diff'', ''gold patch'', ''gold_patch'',
     ''official_eval'', ''oracle'', ''pass_to_fail'', ''pass_to_pass'', ''resolved'', ''test_node'', ''test_oracle'',
     ''test_patch'', ''unresolved'']"

definition find_oracle_tokens :: "json \<Rightarrow> string \<Rightarrow> string list" where
  "find_oracle_tokens v path = find_terms DISALLOWED_ORACLE_TOKENS v path"

record b1_trigger =
  tb_type :: string
  tb_predicates :: "string list"
  tb_evidence_sources :: "string list"

record b1_action =
  ab_type :: string
  ab_info_kind :: string
  ab_payload_fields :: "string list"
  ab_payload_provenance :: string
  ab_prompt_style :: string

record b1_guard =
  gb_max_injections :: int
  gb_replay_free :: bool
  gb_raw_payload_logging :: bool
  gb_oracle_capsule_allowed :: bool
  gb_eval_identifiers_visible :: bool
  gb_same_pair_allowed :: bool
  gb_uplift_allowed :: bool
  gb_forbidden :: "string list"

record protocol_b1 =
  pb_trigger :: b1_trigger
  pb_action :: b1_action
  pb_guard :: b1_guard
  pb_claim :: string
  pb_version :: string

definition texts :: "string list \<Rightarrow> json" where
  "texts xs = JList (map JStr xs)"

definition trigger_b1_from_dict :: "(json \<Rightarrow> string) \<Rightarrow> json \<Rightarrow> pyexn + b1_trigger" where
  "trigger_b1_from_dict rp data =
     and_then (json_get data ''type'') (\<lambda>ty.
     and_then (raise_if (ty \<noteq> JStr ''live_feature_conjunction'')
       (ValueErr ''Protocol B1 only supports trigger.type=live_feature_conjunction'')) (\<lambda>_.
     and_then (text_tuple rp data ''predicates'' []) (\<lambda>predicates.
     and_then (raise_if (predicates = []) (ValueErr ''Protocol B1 trigger.predicates is required'')) (\<lambda>_.
     and_then (text_tuple rp data ''evidence_sources'' []) (\<lambda>sources.
     and_then (raise_if (sources = [] \<or> \<not> list_all (\<lambda>s. s \<in> {''live_feature'', ''prefix_observation''}) sources)
       (ValueErr ''Protocol B1 trigger evidence must come from live features/prefix observations'')) (\<lambda>_.
     let leaks = find_oracle_tokens (JObj [(''predicates'', texts predicates), (''sources'', texts sources)]) '''' in
     and_then (raise_if (leaks \<noteq> [])
       (ValueErr (''Protocol B1 forbids oracle/answer tokens in trigger: '' @ join '', '' leaks))) (\<lambda>_.
     Inr \<lparr>tb_type = ''live_feature_conjunction'', tb_predicates = predicates, tb_evidence_sources = sources\<rparr>)))))))"

definition action_b1_from_dict :: "(json \<Rightarrow> string) \<Rightarrow> json \<Rightarrow> pyexn + b1_action" where
  "action_b1_from_dict rp data =
     and_then (json_get data ''type'') (\<lambda>ty.
     and_then (raise_if (ty \<noteq> JStr ''inject_deployable_information'')
       (ValueErr ''Protocol B1 only supports action.type=inject_deployable_information'')) (\<lambda>_.
     and_then (text_field rp data ''info_kind'' '''') (\<lambda>kind.
     (case dict_get INFO_KIND_ALLOWED_FIELDS kind of
        None \<Rightarrow> Inl (ValueErr (''unknown Protocol B1 info_kind: '' @ kind))
      | Some allowed \<Rightarrow>
          and_then (text_tuple rp data ''payload_fields'' allowed) (\<lambda>fields.
          and_then (raise_if (fields = []) (ValueErr ''Protocol B1 action.payload_fields is required'')) (\<lambda>_.
          and_then (raise_if (sorted_difference fields allowed \<noteq> [])
            (ValueErr (''Protocol B1 payload_fields not in deployable whitelist for '' @ kind @ '': '' @
               join '', '' (sorted_difference fields allowed)))) (\<lambda>_.
          and_then (text_field rp data ''payload_provenance'' ISSUE_TEXT_ONLY) (\<lambda>provenance.
          and_then (raise_if (provenance \<noteq> ISSUE_TEXT_ONLY) (ValueErr (''Protocol B1 requires action.payload_provenance='' @
            ISSUE_TEXT_ONLY @ '' (no official-test-derived repro)''))) (\<lambda>_.
          and_then (json_get data ''prompt_style'') (\<lambda>prompt.
          let leaks = find_oracle_tokens (JObj [(''payload_fields'', texts fields), (''provenance'', JStr provenance),
                (''prompt'', prompt)]) '''' in
          and_then (raise_if (leaks \<noteq> [])
            (ValueErr (''Protocol B1 forbids oracle/answer tokens in action: '' @ join '', '' leaks))) (\<lambda>_.
          and_then (text_field rp data ''prompt_style'' ''observational_non_oracular'') (\<lambda>style.
          and_then (raise_if (style \<noteq> ''observational_non_oracular'')
            (ValueErr ''Protocol B1 prompt_style must be observational_non_oracular'')) (\<lambda>_.
          Inr \<lparr>ab_type = ''inject_deployable_information'', ab_info_kind = kind, ab_payload_fields = fields,
            ab_payload_provenance = provenance, ab_prompt_style = style\<rparr>)))))))))))))"

definition default_guard_b1 :: "string list \<Rightarrow> b1_guard" where
  "default_guard_b1 forbidden = \<lparr>gb_max_injections = 1, gb_replay_free = True, gb_raw_payload_logging = False,
     gb_oracle_capsule_allowed = False, gb_eval_identifiers_visible = False, gb_same_pair_allowed = False,
     gb_uplift_allowed = False, gb_forbidden = forbidden\<rparr>"

definition guard_b1_from_dict :: "(json \<Rightarrow> string) \<Rightarrow> (string \<Rightarrow> int option) \<Rightarrow> json \<Rightarrow> pyexn + b1_guard" where
  "guard_b1_from_dict rp ri data =
     and_then (and_then (json_get data ''max_injections_per_pair'') (\<lambda>v. json_int ri (json_or v (JInt 1)))) (\<lambda>n.
     and_then (raise_if (n \<noteq> 1) (ValueErr ''Protocol B1 only supports max_injections_per_pair=1'')) (\<lambda>_.
     and_then (json_get_default data ''replay_free'' (JBool True)) (\<lambda>replay_free.
     and_then (raise_if (replay_free \<noteq> JBool True)
       (ValueErr ''Protocol B1 requires guard.replay_free=true (task16 amendment A lineage)'')) (\<lambda>_.
     and_then (not_false data ''raw_payload_logging'') (\<lambda>raw.
     and_then (raise_if raw (ValueErr ''Protocol B1 requires guard.raw_payload_logging=false'')) (\<lambda>_.
     and_then (not_false data ''oracle_capsule_allowed'') (\<lambda>capsule.
     and_then (raise_if capsule (ValueErr ''Protocol B1 forbids oracle capsules (this is the B1 vs task16 line)'')) (\<lambda>_.
     and_then (not_false data ''official_eval_identifiers_runtime_visible'') (\<lambda>vis.
     and_then (raise_if vis (ValueErr ''Protocol B1 forbids official eval identifiers in runtime prompts'')) (\<lambda>_.
     and_then (not_false data ''same_pair_positive_claim_allowed'') (\<lambda>same.
     and_then (raise_if same (ValueErr ''Protocol B1 blocks same-pair positive attribution claims'')) (\<lambda>_.
     and_then (not_false data ''uplift_claim_allowed'') (\<lambda>uplift.
     and_then (raise_if uplift
       (ValueErr ''Protocol B1 is go/no-go only; uplift claims need the powered batch (B6)'')) (\<lambda>_.
     and_then (text_tuple rp data ''forbidden_payload_categories'' REQUIRED_FORBIDDEN_CATEGORIES) (\<lambda>forbidden.
     let missing = sorted_difference REQUIRED_FORBIDDEN_CATEGORIES forbidden in
     and_then (raise_if (missing \<noteq> [])
       (ValueErr (''Protocol B1 guard must forbid leakage categories: '' @ join '', '' missing))) (\<lambda>_.
     Inr (default_guard_b1 (sort (remdups forbidden)))))))))))))))))))"

definition claim_b1_from_dict :: "(json \<Rightarrow> string) \<Rightarrow> json \<Rightarrow> pyexn + string" where
  "claim_b1_from_dict rp data =
     and_then (text_field rp data ''allowed'' PROTOCOL_B1_CLAIM_BOUNDARY) (\<lambda>allowed.
     and_then (raise_if (allowed \<noteq> PROTOCOL_B1_CLAIM_BOUNDARY)
       (ValueErr (''Protocol B1 only supports claim.allowed='' @ PROTOCOL_B1_CLAIM_BOUNDARY))) (\<lambda>_.
     Inr allowed))"

definition protocol_b1_from_dict :: "(json \<Rightarrow> string) \<Rightarrow> (string \<Rightarrow> int option) \<Rightarrow> json \<Rightarrow> pyexn + protocol_b1" where
  "protocol_b1_from_dict rp ri data =
     and_then (raise_if (find_disallowed_keys data '''' \<noteq> [])
       (ValueErr (''Protocol B1 forbids executable fields: '' @ join '', '' (find_disallowed_keys data '''')))) (\<lambda>_.
     and_then (text_field rp data ''version'' PROTOCOL_B1_VERSION) (\<lambda>version.
     and_then (raise_if (version \<noteq> PROTOCOL_B1_VERSION) (ValueErr (''unsupported Protocol B1 version: '' @ version))) (\<lambda>_.
     and_then (and_then (sub_dict data ''trigger'') (trigger_b1_from_dict rp)) (\<lambda>trigger.
     and_then (and_then (sub_dict data ''action'') (action_b1_from_dict rp)) (\<lambda>action.
     and_then (and_then (sub_dict data ''guard'') (guard_b1_from_dict rp ri)) (\<lambda>guard.
     and_then (and_then (sub_dict data ''claim'') (claim_b1_from_dict rp)) (\<lambda>claim.
     Inr \<lparr>pb_trigger = trigger, pb_action = action, pb_guard = guard, pb_claim = claim, pb_version = version\<rparr>)))))))"

definition protocol_b1_to_dict :: "protocol_b1 \<Rightarrow> json" where
  "protocol_b1_to_dict p = JObj
     [(''version'', JStr (pb_version p)),
      (''trigger'', JObj [(''type'', JStr (tb_type (pb_trigger p))),
         (''predicates'', texts (tb_predicates (pb_trigger p))),
         (''evidence_sources'', texts (tb_evidence_sources (pb_trigger p)))]),
      (''action'', JObj [(''type'', JStr (ab_type (pb_action p))),
         (''info_kind'', JStr (ab_info_kind (pb_action p))),
         (''payload_fields'', texts (ab_payload_fields (pb_action p))),
         (''payload_provenance'', JStr (ab_payload_provenance (pb_action p))),
         (''prompt_style'', JStr (ab_prompt_style (pb_action p)))]),
      (''guard'', JObj [(''max_injections_per_pair'', JInt (gb_max_injections (pb_guard p))),
         (''replay_free'', JBool (gb_replay_free (pb_guard p))),
         (''raw_payload_logging'', JBool (gb_raw_payload_logging (pb_guard p))),
         (''oracle_capsule_allowed'', JBool (gb_oracle_capsule_allowed (pb_guard p))),
         (''official_eval_identifiers_runtime_visible'', JBool (gb_eval_identifiers_visible (pb_guard p))),
         (''same_pair_positive_claim_allowed'', JBool (gb_same_pair_allowed (pb_guard p))),
         (''uplift_claim_allowed'', JBool (gb_uplift_allowed (pb_guard p))),
         (''forbidden_payload_categories'', texts (gb_forbidden (pb_guard p)))]),
      (''claim'', JObj [(''allowed'', JStr (pb_claim p))])]"

definition protocol_b1_hash :: "(string \<Rightarrow> string) \<Rightarrow> protocol_b1 \<Rightarrow> string" where
  "protocol_b1_hash h p = stable_json_hash h (protocol_b1_to_dict p)"

definition runtime_visible :: "protocol_b1 \<Rightarrow> json" where
  "runtime_visible p = JObj
     [(''trigger_view'', JObj [(''predicates'', texts (tb_predicates (pb_trigger p)))]),
      (''injection_spec'', JObj
        [(''info_kind'', JStr (ab_info_kind (pb_action p))),
         (''payload_fields'', texts (ab_payload_fields (pb_action p))),
         (''payload_provenance'', JStr (ab_payload_provenance (pb_action p))),
         (''prompt_style'', JStr (ab_prompt_style (pb_action p)))])]"

definition default_predicates_b1 :: "string list" where
  "default_predicates_b1 = [''issue_text_contains_reproduction is true'', ''agent_reproduced_failure_from_issue is true'',
     ''about_to_emit_patch is true'']"

definition protocol_b1_template :: "(json \<Rightarrow> string) \<Rightarrow> (string \<Rightarrow> int option) \<Rightarrow> string \<Rightarrow> string list \<Rightarrow> pyexn + protocol_b1" where
  "protocol_b1_template rp ri kind predicates =
     (case dict_get INFO_KIND_ALLOWED_FIELDS kind of
        None \<Rightarrow> Inl (KeyError kind)
      | Some allowed \<Rightarrow> protocol_b1_from_dict rp ri (JObj
         [(''version'', JStr PROTOCOL_B1_VERSION),
          (''trigger'', JObj [(''type'', JStr ''live_feature_conjunction''), (''predicates'', texts predicates),
             (''evidence_sources'', texts [''live_feature'', ''prefix_observation''])]),
          (''action'', JObj [(''type'', JStr ''inject_deployable_information''), (''info_kind'', JStr kind),
             (''payload_fields'', texts allowed), (''payload_provenance'', JStr ISSUE_TEXT_ONLY),
             (''prompt_style'', JStr ''observational_non_oracular'')]),
          (''guard'', JObj [(''max_injections_per_pair'', JInt 1), (''replay_free'', JBool True),
             (''raw_payload_logging'', JBool False), (''oracle_capsule_allowed'', JBool False),
             (''official_eval_identifiers_runtime_visible'', JBool False),
             (''same_pair_positive_claim_allowed'', JBool False), (''uplift_claim_allowed'', JBool False),
             (''forbidden_payload_categories'', texts REQUIRED_FORBIDDEN_CATEGORIES)]),
          (''claim'', JObj [(''allowed'', JStr PROTOCOL_B1_CLAIM_BOUNDARY)])]))"

section \<open>Lemmas\<close>

definition valid_b1 :: "protocol_b1 \<Rightarrow> bool" where
  "valid_b1 p \<longleftrightarrow>
     pb_version p = PROTOCOL_B1_VERSION \<and> tb_type (pb_trigger p) = ''live_feature_conjunction'' \<and>
     tb_predicates (pb_trigger p) \<noteq> [] \<and> \<not> list_ex (mentions DISALLOWED_ORACLE_TOKENS) (tb_predicates (pb_trigger p)) \<and>
     tb_evidence_sources (pb_trigger p) \<noteq> [] \<and>
     set (tb_evidence_sources (pb_trigger p)) \<subseteq> {''live_feature'', ''prefix_observation''} \<and>
     ab_type (pb_action p) = ''inject_deployable_information'' \<and> ab_info_kind (pb_action p) = ''issue_text_reproduction'' \<and>
     ab_payload_fields (pb_action p) \<noteq> [] \<and>
     set (ab_payload_fields (pb_action p)) \<subseteq> {''issue_reproduction_steps'', ''issue_derived_repro_traceback''} \<and>
     ab_payload_provenance (pb_action p) = ISSUE_TEXT_ONLY \<and> ab_prompt_style (pb_action p) = ''observational_non_oracular'' \<and>
     (\<exists>forbidden. pb_guard p = default_guard_b1 forbidden \<and> sorted forbidden \<and> distinct forbidden \<and>
        set REQUIRED_FORBIDDEN_CATEGORIES \<subseteq> set forbidden) \<and>
     pb_claim p = PROTOCOL_B1_CLAIM_BOUNDARY"

lemma oracle_tokens_Nil: "find_oracle_tokens j path = [] \<longleftrightarrow> (\<forall>s. text_inside s j \<longrightarrow> \<not> mentions DISALLOWED_ORACLE_TOKENS s)"
  by (simp add: find_oracle_tokens_def find_terms_Nil)

lemma text_inside_texts [simp]: "text_inside s (texts xs) \<longleftrightarrow> s \<in> set xs"
  by (auto simp: texts_def)

lemma info_kind_known:
  "dict_get INFO_KIND_ALLOWED_FIELDS kind = Some allowed \<longleftrightarrow>
     kind = ''issue_text_reproduction'' \<and> allowed = [''issue_reproduction_steps'', ''issue_derived_repro_traceback'']"
  by (auto simp: INFO_KIND_ALLOWED_FIELDS_def dict_get_def)

lemma trigger_b1_valid:
  assumes "trigger_b1_from_dict rp d = Inr t"
  shows "tb_type t = ''live_feature_conjunction'' \<and> tb_predicates t \<noteq> [] \<and>
    \<not> list_ex (mentions DISALLOWED_ORACLE_TOKENS) (tb_predicates t) \<and> tb_evidence_sources t \<noteq> [] \<and>
    set (tb_evidence_sources t) \<subseteq> {''live_feature'', ''prefix_observation''}"
proof -
  from assms obtain ps ss where t: "t = \<lparr>tb_type = ''live_feature_conjunction'', tb_predicates = ps, tb_evidence_sources = ss\<rparr>"
    and ne: "ps \<noteq> []" and sources: "\<not> (ss = [] \<or> \<not> list_all (\<lambda>s. s \<in> {''live_feature'', ''prefix_observation''}) ss)"
    and leaks: "find_oracle_tokens (JObj [(''predicates'', texts ps), (''sources'', texts ss)]) '''' = []"
    unfolding trigger_b1_from_dict_def Let_def
    by (elim and_then_InrE) (simp only: raise_if_eq_Inr sum.inject not_not, metis)
  from leaks have "\<not> list_ex (mentions DISALLOWED_ORACLE_TOKENS) ps"
    unfolding oracle_tokens_Nil by (auto simp: list_ex_iff)
  with t ne sources show ?thesis by (auto simp: list_all_iff)
qed

lemma action_b1_valid:
  "action_b1_from_dict rp d = Inr a \<Longrightarrow>
     ab_type a = ''inject_deployable_information'' \<and> ab_info_kind a = ''issue_text_reproduction'' \<and> ab_payload_fields a \<noteq> [] \<and>
     set (ab_payload_fields a) \<subseteq> {''issue_reproduction_steps'', ''issue_derived_repro_traceback''} \<and>
     ab_payload_provenance a = ISSUE_TEXT_ONLY \<and> ab_prompt_style a = ''observational_non_oracular''"
  by (auto simp: action_b1_from_dict_def and_then_eq_Inr Let_def sorted_difference_Nil info_kind_known split: option.splits)

lemma guard_b1_valid:
  "guard_b1_from_dict rp ri d = Inr g \<Longrightarrow> \<exists>forbidden. g = default_guard_b1 forbidden \<and> sorted forbidden \<and> distinct forbidden \<and>
     set REQUIRED_FORBIDDEN_CATEGORIES \<subseteq> set forbidden"
  unfolding guard_b1_from_dict_def Let_def
  by (elim and_then_InrE) (auto simp: sorted_difference_Nil intro!: exI [of _ "sort (remdups _)"])

lemma claim_b1_valid: "claim_b1_from_dict rp d = Inr c \<Longrightarrow> c = PROTOCOL_B1_CLAIM_BOUNDARY"
  by (auto simp: claim_b1_from_dict_def and_then_eq_Inr)

lemma from_dict_valid_b1:
  assumes "protocol_b1_from_dict rp ri d = Inr p"
  shows "valid_b1 p" "find_disallowed_keys d '''' = []"
proof -
  from assms obtain t a g c t' a' g' c' where
    p: "p = \<lparr>pb_trigger = t, pb_action = a, pb_guard = g, pb_claim = c, pb_version = PROTOCOL_B1_VERSION\<rparr>"
    and parts: "trigger_b1_from_dict rp t' = Inr t" "action_b1_from_dict rp a' = Inr a"
      "guard_b1_from_dict rp ri g' = Inr g" "claim_b1_from_dict rp c' = Inr c"
    and clean: "find_disallowed_keys d '''' = []"
    unfolding protocol_b1_from_dict_def
    by (elim and_then_InrE) (simp only: raise_if_eq_Inr sum.inject not_not, metis)
  show "find_disallowed_keys d '''' = []" by (rule clean)
  from trigger_b1_valid [OF parts(1)] action_b1_valid [OF parts(2)] guard_b1_valid [OF parts(3)] claim_b1_valid [OF parts(4)]
  show "valid_b1 p" unfolding p valid_b1_def by simp
qed

lemma to_dict_b1_clean: "find_disallowed_keys (protocol_b1_to_dict p) '''' = []"
  unfolding disallowed_iff protocol_b1_to_dict_def texts_def
  by (auto simp: executable_keys_def lower_simps lower_char_def char_code_def)

lemma harmless_texts:
  "\<not> mentions DISALLOWED_ORACLE_TOKENS ''live_feature''" "\<not> mentions DISALLOWED_ORACLE_TOKENS ''prefix_observation''"
  "\<not> mentions DISALLOWED_ORACLE_TOKENS ''issue_reproduction_steps''"
  "\<not> mentions DISALLOWED_ORACLE_TOKENS ''issue_derived_repro_traceback''"
  "\<not> mentions DISALLOWED_ORACLE_TOKENS ''issue_text_reproduction''"
  "\<not> mentions DISALLOWED_ORACLE_TOKENS ISSUE_TEXT_ONLY"
  "\<not> mentions DISALLOWED_ORACLE_TOKENS ''observational_non_oracular''"
  by code_simp+

lemma valid_b1_tokens:
  assumes "valid_b1 p"
  shows "find_oracle_tokens (JObj [(''predicates'', texts (tb_predicates (pb_trigger p))),
      (''sources'', texts (tb_evidence_sources (pb_trigger p)))]) '''' = []"
    "find_oracle_tokens (JObj [(''payload_fields'', texts (ab_payload_fields (pb_action p))), (''provenance'', JStr ISSUE_TEXT_ONLY),
      (''prompt'', JStr ''observational_non_oracular'')]) '''' = []"
    "find_oracle_tokens (runtime_visible p) '''' = []"
proof -
  have p: "x \<in> set (tb_predicates (pb_trigger p)) \<Longrightarrow> \<not> mentions DISALLOWED_ORACLE_TOKENS x"
    "x \<in> set (tb_evidence_sources (pb_trigger p)) \<Longrightarrow> \<not> mentions DISALLOWED_ORACLE_TOKENS x"
    "x \<in> set (ab_payload_fields (pb_action p)) \<Longrightarrow> \<not> mentions DISALLOWED_ORACLE_TOKENS x" for x
    using assms harmless_texts unfolding valid_b1_def by (auto simp: list_ex_iff)
  show "find_oracle_tokens (JObj [(''predicates'', texts (tb_predicates (pb_trigger p))),
      (''sources'', texts (tb_evidence_sources (pb_trigger p)))]) '''' = []"
    unfolding oracle_tokens_Nil using p by auto
  show "find_oracle_tokens (JObj [(''payload_fields'', texts (ab_payload_fields (pb_action p))), (''provenance'', JStr ISSUE_TEXT_ONLY),
      (''prompt'', JStr ''observational_non_oracular'')]) '''' = []"
    unfolding oracle_tokens_Nil using p harmless_texts by auto
  show "find_oracle_tokens (runtime_visible p) '''' = []"
    unfolding oracle_tokens_Nil runtime_visible_def using p harmless_texts assms by (auto simp: valid_b1_def)
qed

lemma sort_distinct_id: "sorted xs \<Longrightarrow> distinct xs \<Longrightarrow> sort (remdups xs) = xs"
  by (simp add: sort_key_id_if_sorted)

lemma valid_b1_parses:
  assumes "valid_b1 p"
  shows "protocol_b1_from_dict rp ri (protocol_b1_to_dict p) = Inr p"
proof -
  from assms obtain forbidden where g: "pb_guard p = default_guard_b1 forbidden" "sorted forbidden" "distinct forbidden"
    "set REQUIRED_FORBIDDEN_CATEGORIES \<subseteq> set forbidden" by (auto simp: valid_b1_def)
  then have ne: "forbidden \<noteq> []" by (auto simp: REQUIRED_FORBIDDEN_CATEGORIES_def)
  from assms have sources: "list_all (\<lambda>s. s = ''live_feature'' \<or> s = ''prefix_observation'') (tb_evidence_sources (pb_trigger p))"
    by (auto simp: valid_b1_def list_all_iff)
  note clean = valid_b1_tokens(1,2) [OF assms, unfolded texts_def]
  note defs = trigger_b1_from_dict_def action_b1_from_dict_def guard_b1_from_dict_def claim_b1_from_dict_def
  have "dict_get INFO_KIND_ALLOWED_FIELDS ''issue_text_reproduction'' = Some [''issue_reproduction_steps'', ''issue_derived_repro_traceback'']"
    by (simp add: info_kind_known)
  then show ?thesis
    using assms ne sources clean unfolding protocol_b1_from_dict_def to_dict_b1_clean
    by (simp add: protocol_b1_to_dict_def defs valid_b1_def g default_guard_b1_def dict_field_defs json_int_def sorted_difference_Nil
        sort_distinct_id texts_def PROTOCOL_B1_VERSION_def PROTOCOL_B1_CLAIM_BOUNDARY_def ISSUE_TEXT_ONLY_def Let_def)
qed

text \<open>
  C25: Protocol B1 keeps oracles out. An accepted payload has no executable key at any depth; the protocol it
  gives injects once, only whitelisted fields with issue-text provenance, forbids at least the required leakage
  categories, and nothing an agent sees of it at run time mentions an oracle word; its dictionary is read back
  as the same protocol.
\<close>

theorem protocol_b1_roundtrip:
  assumes "protocol_b1_from_dict rp ri d = Inr p"
  shows "protocol_b1_from_dict rp ri (protocol_b1_to_dict p) = Inr p \<and> valid_b1 p \<and>
    (\<forall>k. key_inside k d \<longrightarrow> lower k \<notin> set executable_keys) \<and>
    (\<forall>s. text_inside s (runtime_visible p) \<longrightarrow> \<not> mentions DISALLOWED_ORACLE_TOKENS s)"
  using from_dict_valid_b1 [OF assms] valid_b1_parses valid_b1_tokens(3)
  by (simp add: disallowed_iff oracle_tokens_Nil)

definition template_b1 :: protocol_b1 where
  "template_b1 =
     \<lparr>pb_trigger = \<lparr>tb_type = ''live_feature_conjunction'', tb_predicates = default_predicates_b1,
        tb_evidence_sources = [''live_feature'', ''prefix_observation'']\<rparr>,
      pb_action = \<lparr>ab_type = ''inject_deployable_information'', ab_info_kind = ''issue_text_reproduction'',
        ab_payload_fields = [''issue_reproduction_steps'', ''issue_derived_repro_traceback''],
        ab_payload_provenance = ISSUE_TEXT_ONLY, ab_prompt_style = ''observational_non_oracular''\<rparr>,
      pb_guard = default_guard_b1 REQUIRED_FORBIDDEN_CATEGORIES, pb_claim = PROTOCOL_B1_CLAIM_BOUNDARY,
      pb_version = PROTOCOL_B1_VERSION\<rparr>"

lemma template_b1_valid: "valid_b1 template_b1"
proof -
  have "\<not> list_ex (mentions DISALLOWED_ORACLE_TOKENS) default_predicates_b1"
    "sorted REQUIRED_FORBIDDEN_CATEGORIES" "distinct REQUIRED_FORBIDDEN_CATEGORIES" by code_simp+
  then show ?thesis by (simp add: valid_b1_def template_b1_def) (auto simp: default_predicates_b1_def)
qed

lemma template_is: "protocol_b1_template rp ri ''issue_text_reproduction'' default_predicates_b1 = Inr template_b1"
  using valid_b1_parses [OF template_b1_valid, of rp ri]
  by (simp add: protocol_b1_template_def INFO_KIND_ALLOWED_FIELDS_def dict_get_def protocol_b1_to_dict_def template_b1_def
      default_guard_b1_def)

theorem protocol_b1_roundtrip_witness:
  "protocol_b1_from_dict (\<lambda>_. '''') (\<lambda>_. None) (protocol_b1_to_dict template_b1) = Inr template_b1 \<and> valid_b1 template_b1"
  using protocol_b1_roundtrip [OF valid_b1_parses [OF template_b1_valid, of "\<lambda>_. ''''" "\<lambda>_. None"]] by simp

end
