(* ===== verification/Issue_Repro.thy ===== *)
theory Issue_Repro
  imports Protocol_B1 Py_Lines
begin

text \<open>
  The issue-text reproduction of Route B, \<open>packages/clinic/src/wutai_clinic/intervention/b1_issue_repro.py\<close>:
  what of an issue is a reproduction, the scan that keeps official tests and answers out of the payload, and the
  capture of a traceback. The regular expressions of the source are written out as scanners; \<open>executor\<close> runs a
  script in the container.
\<close>

section \<open>Model\<close>

definition OFFICIAL_TEST_IDENTITY_TOKENS :: "string list" where
  "OFFICIAL_TEST_IDENTITY_TOKENS = [''fail_to_pass'', ''pass_to_pass'', ''pass_to_fail'', ''test_patch'', ''test_oracle'']"

definition ANSWER_LEAK_TOKENS :: "string list" where
  "ANSWER_LEAK_TOKENS = [''gold_patch'', ''gold patch'']"

definition traceback_head :: string where
  "traceback_head = ''traceback (most recent call last)''"

definition REPRO_MARKERS :: "string list" where
  "REPRO_MARKERS = [''to reproduce'', ''steps to reproduce'', ''reproduction'', ''reproduce'', traceback_head,
     ''minimal reproducible'', ''how to reproduce'']"

definition fence :: string where
  "fence = replicate 3 (CHR 0x60)"

text \<open>\<open>(?m)^\s*(?:\$|>>>|python[ \t]|pytest[ \t]|pip[ \t])\<close>\<close>

definition command_ahead :: "string \<Rightarrow> bool" where
  "command_ahead s =
     (let t = lstrip s in
      list_ex (\<lambda>w. starts_with w t) [''$'', ''>>>'', ''python '', ''pytest '', ''pip '', ''python'' @ [CHR 0x09],
        ''pytest'' @ [CHR 0x09], ''pip'' @ [CHR 0x09]])"

fun after_newline :: "(string \<Rightarrow> bool) \<Rightarrow> string \<Rightarrow> bool" where
  "after_newline P [] \<longleftrightarrow> False"
| "after_newline P (c # cs) \<longleftrightarrow> (c = CHR 0x0A \<and> P cs) \<or> after_newline P cs"

definition shell_or_py :: "string \<Rightarrow> bool" where
  "shell_or_py s \<longleftrightarrow> command_ahead s \<or> after_newline command_ahead s"

record repro_eligibility =
  re_instance_id :: string
  re_eligible :: bool
  re_markers :: "string list"
  re_reason :: string

definition or_empty :: "string option \<Rightarrow> string" where
  "or_empty s = (case s of Some t \<Rightarrow> t | None \<Rightarrow> [])"

definition issue_repro_eligibility :: "string \<Rightarrow> string option \<Rightarrow> repro_eligibility" where
  "issue_repro_eligibility iid problem_statement =
     (let t = strip (or_empty problem_statement) in
      if t = [] then \<lparr>re_instance_id = iid, re_eligible = False, re_markers = [], re_reason = ''empty_problem_statement''\<rparr>
      else let lowered = lower t;
               markers = filter (\<lambda>m. contains m lowered) REPRO_MARKERS;
               has_code = contains fence t \<or> shell_or_py t;
               found = markers @ (if has_code then [''code_or_command_block''] else []);
               eligible = (found \<noteq> [] \<and> has_code) \<or> contains traceback_head lowered
           in \<lparr>re_instance_id = iid, re_eligible = eligible, re_markers = found,
               re_reason = (if eligible then ''actionable_issue_reproduction'' else ''no_actionable_issue_reproduction'')\<rparr>)"

text \<open>The texts between an opening fence and the next one, in order.\<close>

function fence_bodies :: "string \<Rightarrow> string list" where
  "fence_bodies s =
     (case cut_at fence s of
        None \<Rightarrow> []
      | Some (_, rest) \<Rightarrow> (case cut_at fence rest of None \<Rightarrow> [] | Some (body, rest') \<Rightarrow> body # fence_bodies rest'))"
  by pat_completeness auto

termination
  by (relation "measure length") (auto dest!: cut_at_Some simp: fence_def)

declare fence_bodies.simps [simp del]

definition extract_issue_reproduction_steps :: "string option \<Rightarrow> nat \<Rightarrow> string" where
  "extract_issue_reproduction_steps problem_statement max_chars =
     (let t = strip (or_empty problem_statement);
          blocks = map (\<lambda>b. strip (fence @ b @ fence)) (fence_bodies t)
      in if t = [] then []
         else if blocks \<noteq> [] then py_take max_chars (join [CHR 0x0A] blocks)
         else (case find (\<lambda>m. contains m (lower t)) REPRO_MARKERS of
             Some m \<Rightarrow> py_take max_chars (drop (length (fst (the (cut_at m (lower t))))) t)
           | None \<Rightarrow> py_take max_chars t))"

definition build_b1_payload :: "string \<Rightarrow> string option \<Rightarrow> string option \<Rightarrow> json pydict" where
  "build_b1_payload iid problem_statement repro_traceback =
     [(''instance_id'', JStr iid),
      (''info_kind'', JStr ''issue_text_reproduction''),
      (''payload_provenance'', JStr ISSUE_TEXT_ONLY),
      (''issue_reproduction_steps'', JStr (extract_issue_reproduction_steps problem_statement 4000)),
      (''issue_derived_repro_traceback'', (case repro_traceback of Some t \<Rightarrow> JStr t | None \<Rightarrow> JNull))]"

definition payload_get :: "json pydict \<Rightarrow> string \<Rightarrow> json" where
  "payload_get payload k = (case dict_get payload k of Some v \<Rightarrow> v | None \<Rightarrow> JNull)"

definition payload_blob :: "(json \<Rightarrow> string) \<Rightarrow> json pydict \<Rightarrow> string" where
  "payload_blob rp payload = join [CHR 0x0A] (map (\<lambda>k. json_text rp (json_or (payload_get payload k) (JStr [])))
     [''issue_reproduction_steps'', ''issue_derived_repro_traceback''])"

text \<open>Lines a leak would show in: of a diff only the added ones, and only those of at least 24 characters.\<close>

definition significant_lines :: "string option \<Rightarrow> string list" where
  "significant_lines patch =
     (let t = or_empty patch;
          is_diff = contains ''@@ '' t \<or> starts_with ''diff '' (lstrip t);
          raws = (if is_diff then filter (\<lambda>r. starts_with ''+'' r \<and> \<not> starts_with ''+++'' r) (splitlines t) else splitlines t);
          lines = map (\<lambda>r. strip (if is_diff then drop 1 r else r)) raws
      in filter (\<lambda>l. 24 \<le> py_len l \<and> \<not> list_ex (\<lambda>w. starts_with w l) [''diff '', ''@@'', ''index '', ''+++'', ''---'']) lines)"

definition b1_payload_leak_scan :: "(json \<Rightarrow> string) \<Rightarrow> json pydict \<Rightarrow> string list \<Rightarrow> string option \<Rightarrow> string option \<Rightarrow> string list" where
  "b1_payload_leak_scan rp payload fail_to_pass test_patch gold_patch =
     (let provenance = payload_get payload ''payload_provenance'';
          blob = payload_blob rp payload; low = lower blob;
          ids = filter (\<lambda>nid. nid \<noteq> [] \<and> contains nid blob) (map strip fail_to_pass)
      in (if provenance \<noteq> JStr ISSUE_TEXT_ONLY then [''provenance_not_issue_text_only:'' @ json_text rp provenance] else []) @
         map (\<lambda>t. ''token:'' @ t) (filter (\<lambda>t. contains t low) (OFFICIAL_TEST_IDENTITY_TOKENS @ ANSWER_LEAK_TOKENS)) @
         map (\<lambda>nid. ''fail_to_pass_node_in_payload:'' @ nid) ids @
         (if list_ex (\<lambda>l. contains l blob) (significant_lines test_patch) then [''test_patch_line_in_payload''] else []) @
         (if list_ex (\<lambda>l. contains l blob) (significant_lines gold_patch) then [''gold_patch_line_in_payload''] else []))"

record capture_result =
  cp_script :: string
  cp_traceback :: "string option"
  cp_ran :: bool

text \<open>The language tag and the newline after an opening fence.\<close>

definition drop_tag :: "string \<Rightarrow> string" where
  "drop_tag b =
     (let t = dropWhile (\<lambda>c. word_char c \<or> c = CHR ''+'' \<or> c = CHR ''-'') b
      in if t \<noteq> [] \<and> hd t = CHR 0x0A then tl t else t)"

definition has_prompt :: "string \<Rightarrow> bool" where
  "has_prompt l \<longleftrightarrow> starts_with ''>>> '' (lstrip l) \<or> starts_with ''... '' (lstrip l)"

definition script_lines :: "string \<Rightarrow> string list" where
  "script_lines block =
     (let ls = splitlines block in
      if list_ex has_prompt ls then map (\<lambda>l. drop 4 (lstrip l)) (filter has_prompt ls) else ls)"

definition construct_repro_script :: "string option \<Rightarrow> string" where
  "construct_repro_script steps =
     (let blocks = map drop_tag (fence_bodies (or_empty steps))
      in if blocks = [] then [] else strip (join [CHR 0x0A] (concat (map script_lines blocks))))"

definition traceback_in :: "string \<Rightarrow> string option" where
  "traceback_in s = map_option (\<lambda>(a, b). ''Traceback (most recent call last):'' @ b) (cut_at ''Traceback (most recent call last):'' s)"

definition capture_issue_repro :: "(string \<Rightarrow> pyexn + string option) \<Rightarrow> string option \<Rightarrow> nat \<Rightarrow> pyexn + capture_result" where
  "capture_issue_repro executor steps max_chars =
     (let script = construct_repro_script steps in
      if script = [] then Inr \<lparr>cp_script = [], cp_traceback = None, cp_ran = False\<rparr>
      else and_then (executor script) (\<lambda>raw.
        let output = or_empty raw;
            t = py_take max_chars (strip (case traceback_in output of Some m \<Rightarrow> m | None \<Rightarrow> output))
        in Inr \<lparr>cp_script = script, cp_traceback = (if t = [] then None else Some t), cp_ran = True\<rparr>))"

definition attach_captured_traceback :: "json pydict \<Rightarrow> string option \<Rightarrow> json pydict" where
  "attach_captured_traceback payload t =
     dict_set ''issue_derived_repro_traceback'' (case t of Some s \<Rightarrow> JStr s | None \<Rightarrow> JNull) payload"

section \<open>The scan\<close>

text \<open>What a clean payload is.\<close>

definition leak_free :: "(json \<Rightarrow> string) \<Rightarrow> json pydict \<Rightarrow> string list \<Rightarrow> string option \<Rightarrow> string option \<Rightarrow> bool" where
  "leak_free rp payload fail_to_pass test_patch gold_patch \<longleftrightarrow>
     payload_get payload ''payload_provenance'' = JStr ISSUE_TEXT_ONLY \<and>
     \<not> mentions (OFFICIAL_TEST_IDENTITY_TOKENS @ ANSWER_LEAK_TOKENS) (payload_blob rp payload) \<and>
     (\<forall>nid \<in> set fail_to_pass. strip nid \<noteq> [] \<longrightarrow> \<not> contains (strip nid) (payload_blob rp payload)) \<and>
     (\<forall>l \<in> set (significant_lines test_patch) \<union> set (significant_lines gold_patch). \<not> contains l (payload_blob rp payload))"

lemma leak_scan_iff:
  "b1_payload_leak_scan rp payload fail_to_pass test_patch gold_patch = [] \<longleftrightarrow> leak_free rp payload fail_to_pass test_patch gold_patch"
  by (auto simp: b1_payload_leak_scan_def Let_def leak_free_def mentions_def filter_empty_conv list_ex_iff)

lemma significant_added_line:
  assumes "contains ''@@ '' t" "r \<in> set (splitlines t)" "starts_with ''+'' r" "\<not> starts_with ''+++'' r"
    and "24 \<le> py_len (strip (drop 1 r))"
    and "\<not> list_ex (\<lambda>w. starts_with w (strip (drop 1 r))) [''diff '', ''@@'', ''index '', ''+++'', ''---'']"
  shows "strip (drop 1 r) \<in> set (significant_lines (Some t))"
  using assms by (auto simp: significant_lines_def or_empty_def Let_def)

end
