(* ===== verification/Protocol_B1_Hook.thy ===== *)
theory Protocol_B1_Hook
  imports Issue_Repro
begin

text \<open>
  The injection hook of Route B, \<open>packages/clinic/src/wutai_clinic/intervention/protocol_b1_hook.py\<close>: at the
  first model query it captures the reproduction in the live container, scans it, and injects it once. The
  agent, the container and the injector are outside: \<open>executor\<close> runs a script, \<open>injector\<close> says whether
  the call raises, \<open>estr\<close> is \<open>str\<close> of an exception. \<open>hb_delivered\<close> records what the injector was given.
\<close>

section \<open>Model\<close>

record b1_env =
  be_executor :: "(string \<Rightarrow> pyexn + string option) option"
  be_injector :: "(json pydict \<Rightarrow> pyexn option) option"
  be_hash :: "string \<Rightarrow> string"
  be_repr :: "json \<Rightarrow> string"
  be_estr :: "pyexn \<Rightarrow> string"

record b1_hook =
  hb_protocol :: protocol_b1
  hb_steps :: string
  hb_source_task_id :: "string option"
  hb_pair_id :: "string option"
  hb_fail_to_pass :: "string list"
  hb_test_patch :: "string option"
  hb_gold_patch :: "string option"
  hb_audit :: "json list"
  hb_injected :: int
  hb_traceback :: "string option"
  hb_findings :: "string list"
  hb_payload :: "json pydict option"
  hb_delivered :: "json pydict list"

definition new_b1_hook :: "protocol_b1 \<Rightarrow> string \<Rightarrow> string option \<Rightarrow> string option \<Rightarrow> string list \<Rightarrow> string option \<Rightarrow>
    string option \<Rightarrow> b1_hook" where
  "new_b1_hook p steps sid pid f2p test gold = \<lparr>hb_protocol = p, hb_steps = steps, hb_source_task_id = sid, hb_pair_id = pid,
     hb_fail_to_pass = f2p, hb_test_patch = test, hb_gold_patch = gold, hb_audit = [], hb_injected = 0, hb_traceback = None,
     hb_findings = [], hb_payload = None, hb_delivered = []\<rparr>"

definition opt_json :: "string option \<Rightarrow> json" where
  "opt_json s = (case s of Some t \<Rightarrow> JStr t | None \<Rightarrow> JNull)"

definition b1_event :: "b1_env \<Rightarrow> b1_hook \<Rightarrow> string \<Rightarrow> bool \<Rightarrow> json pydict \<Rightarrow> json" where
  "b1_event env h event injected extra = JObj (
     [(''event'', JStr event),
      (''source_task_id'', opt_json (hb_source_task_id h)),
      (''pair_id'', opt_json (hb_pair_id h)),
      (''protocol_hash'', JStr (protocol_b1_hash (be_hash env) (hb_protocol h))),
      (''info_kind'', JStr (ab_info_kind (pb_action (hb_protocol h)))),
      (''payload_provenance'', JStr ISSUE_TEXT_ONLY),
      (''injected'', JBool injected),
      (''injected_count'', JInt (hb_injected h)),
      (''max_injections'', JInt (gb_max_injections (pb_guard (hb_protocol h)))),
      (''traceback_captured'', JBool (hb_traceback h \<noteq> None)),
      (''runner_started'', JBool False),
      (''model_call_started'', JBool False),
      (''docker_or_official_eval_started'', JBool False),
      (''raw_payload_logged'', JBool False)] @ extra)"

text \<open>A failing capture must not kill the run: it leaves the traceback empty and an audit event.\<close>

definition b1_capture :: "b1_env \<Rightarrow> b1_hook \<Rightarrow> b1_hook" where
  "b1_capture env h =
     (case capture_issue_repro (case be_executor env of Some run \<Rightarrow> run | None \<Rightarrow> (\<lambda>_. Inr (Some [])))
         (Some (hb_steps h)) 4000 of
        Inr cap \<Rightarrow> h\<lparr>hb_traceback := cp_traceback cap\<rparr>
      | Inl exc \<Rightarrow>
          (let h1 = h\<lparr>hb_traceback := None\<rparr>
           in h1\<lparr>hb_audit := hb_audit h1 @ [b1_event env h1 ''protocol_b1_capture_error'' False
                [(''error'', JStr (py_take 200 (be_estr env exc)))]]\<rparr>))"

definition b1_payload :: "b1_hook \<Rightarrow> json pydict" where
  "b1_payload h =
     [(''instance_id'', opt_json (hb_source_task_id h)),
      (''info_kind'', JStr (ab_info_kind (pb_action (hb_protocol h)))),
      (''payload_provenance'', JStr ISSUE_TEXT_ONLY),
      (''issue_reproduction_steps'', JStr (hb_steps h)),
      (''issue_derived_repro_traceback'', opt_json (hb_traceback h))]"

definition b1_on_model_query :: "b1_env \<Rightarrow> b1_hook \<Rightarrow> b1_hook \<times> pyexn option" where
  "b1_on_model_query env h =
     (if gb_max_injections (pb_guard (hb_protocol h)) \<le> hb_injected h then (h, None)
      else if hb_payload h \<noteq> None then (h, None)
      else
        let h1 = b1_capture env h;
            payload = b1_payload h1;
            findings = b1_payload_leak_scan (be_repr env) payload (hb_fail_to_pass h1) (hb_test_patch h1) (hb_gold_patch h1);
            h2 = h1\<lparr>hb_findings := findings, hb_payload := Some payload\<rparr>
        in if findings \<noteq> []
           then (h2\<lparr>hb_audit := hb_audit h2 @ [b1_event env h2 ''protocol_b1_capture_leak_void'' False
                   [(''findings'', texts findings)]]\<rparr>, None)
           else
             let h3 = (if be_injector env = None then h2 else h2\<lparr>hb_delivered := hb_delivered h2 @ [payload]\<rparr>)
             in (case (case be_injector env of None \<Rightarrow> None | Some inject \<Rightarrow> inject payload) of
                   Some exc \<Rightarrow> (h3, Some exc)
                 | None \<Rightarrow>
                     (let h4 = h3\<lparr>hb_injected := hb_injected h3 + 1\<rparr>
                      in (h4\<lparr>hb_audit := hb_audit h4 @ [b1_event env h4 ''protocol_b1_injection'' True
                            [(''trigger_reason'', JStr ''first_model_query'')]]\<rparr>, None))))"

text \<open>Any sequence of model queries; the environment may answer differently each time.\<close>

definition model_queries :: "b1_env list \<Rightarrow> b1_hook \<Rightarrow> b1_hook" where
  "model_queries envs h = foldl (\<lambda>h env. fst (b1_on_model_query env h)) h envs"

section \<open>At most one clean injection\<close>

lemma capture_keeps [simp]:
  "hb_protocol (b1_capture env h) = hb_protocol h" "hb_steps (b1_capture env h) = hb_steps h"
  "hb_fail_to_pass (b1_capture env h) = hb_fail_to_pass h" "hb_test_patch (b1_capture env h) = hb_test_patch h"
  "hb_gold_patch (b1_capture env h) = hb_gold_patch h" "hb_injected (b1_capture env h) = hb_injected h"
  "hb_delivered (b1_capture env h) = hb_delivered h" "hb_payload (b1_capture env h) = hb_payload h"
  by (simp_all add: b1_capture_def Let_def split: sum.splits)

lemma inert_after_payload: "hb_payload h \<noteq> None \<Longrightarrow> model_queries envs h = h"
  by (induction envs) (auto simp: model_queries_def b1_on_model_query_def)

lemma first_query:
  assumes "hb_injected h = 0" "hb_payload h = None" "0 < gb_max_injections (pb_guard (hb_protocol h))"
  shows "let h' = fst (b1_on_model_query env h); payload = b1_payload (b1_capture env h);
      clean = leak_free (be_repr env) payload (hb_fail_to_pass h) (hb_test_patch h) (hb_gold_patch h) in
    hb_payload h' = Some payload \<and>
    (hb_findings h' = [] \<longleftrightarrow> clean) \<and>
    hb_delivered h' = hb_delivered h @ (if clean \<and> be_injector env \<noteq> None then [payload] else []) \<and>
    hb_injected h' = (if clean \<and> (\<forall>inject. be_injector env = Some inject \<longrightarrow> inject payload = None) then 1 else 0)"
  using assms leak_scan_iff [of "be_repr env" "b1_payload (b1_capture env h)" "hb_fail_to_pass h" "hb_test_patch h" "hb_gold_patch h"]
  by (auto simp: b1_on_model_query_def Let_def split: option.splits)

text \<open>
  C26: the hook injects at most once, and only what is clean. For a valid protocol and any sequence of model
  queries, with whatever the container and the injector do at each: all that matters happens at the first query.
  The injector is called at most once, with the issue-text payload of that query, and only if the payload passes
  the leak scan against the official tests and the patches; a failing capture still leads to a payload. Without
  a raising injector the injection is counted exactly when the payload is clean.
\<close>

theorem b1_injects_once_clean:
  assumes "valid_b1 p"
  shows "let h = model_queries envs (new_b1_hook p steps sid pid f2p test gold) in
    length (hb_delivered h) \<le> 1 \<and> hb_injected h \<le> 1 \<and>
    (\<forall>payload \<in> set (hb_delivered h). hb_payload h = Some payload \<and> hb_findings h = [] \<and>
       payload_get payload ''issue_reproduction_steps'' = JStr steps \<and>
       leak_free (be_repr (hd envs)) payload f2p test gold) \<and>
    (envs \<noteq> [] \<longrightarrow> h = fst (b1_on_model_query (hd envs) (new_b1_hook p steps sid pid f2p test gold)) \<and>
       (\<exists>payload. hb_payload h = Some payload \<and>
          (hb_findings h = [] \<longleftrightarrow> leak_free (be_repr (hd envs)) payload f2p test gold)) \<and>
       ((\<forall>inject payload. be_injector (hd envs) = Some inject \<longrightarrow> inject payload = None) \<longrightarrow>
          (hb_injected h = 1 \<longleftrightarrow> hb_findings h = [])))"
proof (cases envs)
  case Nil
  then show ?thesis by (simp add: model_queries_def new_b1_hook_def)
next
  case (Cons env rest)
  let ?start = "new_b1_hook p steps sid pid f2p test gold"
  let ?after = "fst (b1_on_model_query env ?start)"
  have "gb_max_injections (pb_guard (hb_protocol ?start)) = 1"
    using assms by (simp add: valid_b1_def new_b1_hook_def) (auto simp: default_guard_b1_def)
  with first_query [of ?start env]
  have one: "hb_payload ?after = Some (b1_payload (b1_capture env ?start))"
    "hb_findings ?after = [] \<longleftrightarrow> leak_free (be_repr env) (b1_payload (b1_capture env ?start)) f2p test gold"
    "hb_delivered ?after = (if leak_free (be_repr env) (b1_payload (b1_capture env ?start)) f2p test gold \<and> be_injector env \<noteq> None
       then [b1_payload (b1_capture env ?start)] else [])"
    "hb_injected ?after = (if leak_free (be_repr env) (b1_payload (b1_capture env ?start)) f2p test gold \<and>
       (\<forall>inject. be_injector env = Some inject \<longrightarrow> inject (b1_payload (b1_capture env ?start)) = None) then 1 else 0)"
    by (simp_all add: Let_def) (simp_all add: new_b1_hook_def)
  have "model_queries envs ?start = model_queries rest ?after" by (simp add: Cons model_queries_def)
  also have "\<dots> = ?after" by (rule inert_after_payload) (simp add: one(1))
  finally have h: "model_queries envs ?start = ?after" .
  have "payload_get (b1_payload (b1_capture env ?start)) ''issue_reproduction_steps'' = JStr steps"
    by (simp add: payload_get_def b1_payload_def dict_get_def) (simp add: new_b1_hook_def)
  with one show ?thesis unfolding h Let_def by (auto simp: Cons split: if_splits)
qed

definition quiet_env :: b1_env where
  "quiet_env = \<lparr>be_executor = None, be_injector = Some (\<lambda>_. None), be_hash = id, be_repr = (\<lambda>_. ''''), be_estr = (\<lambda>_. '''')\<rparr>"

theorem b1_injects_once_clean_witness:
  "length (hb_delivered (model_queries [quiet_env, quiet_env] (new_b1_hook template_b1 ''run it'' None None [] None None))) \<le> 1"
  using b1_injects_once_clean [OF template_b1_valid, of "[quiet_env, quiet_env]" "''run it''" None None "[]" None None]
  unfolding Let_def by blast

end
