(* ===== verification/Route_B1.thy ===== *)
theory Route_B1
  imports Protocol_B1_Hook
begin

text \<open>
  The Route B decision, \<open>packages/clinic/src/wutai_clinic/intervention/route_b1_decision.py\<close>, and the cells it
  reads, \<open>route_b1_cells.py\<close>: arm reports and resolved labels become cells, cells become one outcome per
  anchor, outcomes become the preregistered decision. Finding the arm reports on disk is not modelled.
\<close>

section \<open>Cells\<close>

text \<open>\<open>rep[_-]?(\d+)\<close> anywhere in the name\<close>

fun rep_index_from_name :: "string \<Rightarrow> nat" where
  "rep_index_from_name [] = 0"
| "rep_index_from_name (c # cs) =
     (let t = drop 2 cs;
          u = (if t \<noteq> [] \<and> (hd t = CHR ''_'' \<or> hd t = CHR ''-'') then tl t else t);
          ds = takeWhile is_digit u
      in if starts_with ''rep'' (c # cs) \<and> ds \<noteq> [] then read_nat ds else rep_index_from_name cs)"

definition cell_from_arm_report :: "json pydict \<Rightarrow> nat \<Rightarrow> bool \<Rightarrow> pyexn + json pydict" where
  "cell_from_arm_report report rep resolved =
     (let arm = get_default report ''arm_type'' JNull in
      and_then (json_int py_int (json_or (get_default report ''injection_count'' JNull) (JInt 0))) (\<lambda>count.
      let leak_clean = (\<not> json_truthy (json_or (get_default report ''m2b_leak_findings'' JNull)
            (get_default report ''m2b_capture_leak_findings'' JNull)));
          cell = [(''anchor'', get_default report ''source_task_id'' JNull), (''arm'', arm), (''rep'', JInt (int rep)),
            (''resolved'', JBool resolved), (''injection_count'', JInt count),
            (''run_ok'', JBool (json_truthy (get_default report ''run_exit_ok'' (JBool True))))]
      in Inr (if arm = JStr ''treatment''
         then cell @ [(''injected_once'', JBool (count = 1)), (''leak_clean'', JBool leak_clean),
           (''trigger_hit'', JBool (1 \<le> count))]
         else cell)))"

type_synonym cell_key = "string \<times> string \<times> int"

fun resolved_map_from_labels :: "(json \<Rightarrow> string) \<Rightarrow> json pydict list \<Rightarrow> (cell_key \<times> bool) list \<Rightarrow>
    pyexn + (cell_key \<times> bool) list" where
  "resolved_map_from_labels rp [] out = Inr out"
| "resolved_map_from_labels rp (r # rs) out =
     and_then (json_int py_int (get_default r ''rep'' (JInt 0))) (\<lambda>rep.
     resolved_map_from_labels rp rs (AList.update
       (json_text rp (get_default r ''anchor'' JNull), json_text rp (get_default r ''arm'' JNull), rep)
       (json_truthy (get_default r ''resolved'' JNull)) out))"

record assembled =
  as_cells :: "json pydict list"
  as_incomplete :: "cell_key list"

fun assemble_cells :: "(json \<Rightarrow> string) \<Rightarrow> (json pydict \<times> nat) list \<Rightarrow> (cell_key \<times> bool) list \<Rightarrow> pyexn + assembled" where
  "assemble_cells rp [] labels = Inr \<lparr>as_cells = [], as_incomplete = []\<rparr>"
| "assemble_cells rp ((report, rep) # rs) labels =
     (let key = (json_text rp (get_default report ''source_task_id'' JNull), json_text rp (get_default report ''arm_type'' JNull), int rep)
      in case map_of labels key of
           None \<Rightarrow> and_then (assemble_cells rp rs labels) (\<lambda>a. Inr (a\<lparr>as_incomplete := key # as_incomplete a\<rparr>))
         | Some resolved \<Rightarrow>
             and_then (cell_from_arm_report report rep resolved) (\<lambda>c.
             and_then (assemble_cells rp rs labels) (\<lambda>a. Inr (a\<lparr>as_cells := c # as_cells a\<rparr>))))"

section \<open>Outcomes and the decision\<close>

definition SIGNAL :: string where "SIGNAL = ''signal_of_life''"
definition NO_UPLIFT :: string where "NO_UPLIFT = ''no_uplift''"
definition NOT_DET_FAIL :: string where "NOT_DET_FAIL = ''anchor_control_not_deterministic_fail''"
definition CONTROL_CONTAMINATED :: string where "CONTROL_CONTAMINATED = ''control_contaminated_void''"
definition TRIGGER_MISS_OR_VOID :: string where "TRIGGER_MISS_OR_VOID = ''trigger_miss_or_void_not_counted''"

record anchor_lists =
  al_control_resolved :: "bool list"
  al_treatment_resolved :: "bool list"
  al_injected_once :: "bool list"
  al_leak_clean :: "bool list"
  al_trigger_hit :: "bool list"
  al_control_injection_zero :: "bool list"

record anchor_result =
  ar_anchor :: string
  ar_verdict :: string
  ar_counted :: bool
  ar_control_deterministic_fail :: bool
  ar_control_clean :: bool
  ar_valid_treatment_reps :: nat
  ar_resolved_in_valid_reps :: nat

definition valid_resolved :: "anchor_lists \<Rightarrow> bool list" where
  "valid_resolved a = map fst (filter (\<lambda>(resolved, inj, leak, trig). inj \<and> leak \<and> trig)
     (zip (al_treatment_resolved a) (zip (al_injected_once a) (zip (al_leak_clean a) (al_trigger_hit a)))))"

definition anchor_verdict :: "string \<Rightarrow> anchor_lists \<Rightarrow> anchor_result" where
  "anchor_verdict anchor a =
     (let control_all_fail = (al_control_resolved a \<noteq> [] \<and> \<not> list_ex id (al_control_resolved a));
          control_clean = (al_control_injection_zero a \<noteq> [] \<and> list_all id (al_control_injection_zero a));
          valid = valid_resolved a;
          (verdict, counted) =
            (if \<not> control_all_fail then (NOT_DET_FAIL, False)
             else if \<not> control_clean then (CONTROL_CONTAMINATED, False)
             else if valid = [] then (TRIGGER_MISS_OR_VOID, False)
             else (if list_ex id valid then SIGNAL else NO_UPLIFT, True))
      in \<lparr>ar_anchor = anchor, ar_verdict = verdict, ar_counted = counted, ar_control_deterministic_fail = control_all_fail,
          ar_control_clean = control_clean, ar_valid_treatment_reps = length valid,
          ar_resolved_in_valid_reps = length (filter id valid)\<rparr>)"

record b1_decision =
  bd_decision :: string
  bd_passed :: bool
  bd_gates :: "bool pydict"
  bd_anchor_count :: nat
  bd_counted_count :: nat
  bd_signal_count :: nat
  bd_no_uplift_count :: nat
  bd_signal_anchors :: "string list"
  bd_verdicts :: "anchor_result list"
  bd_next_step :: string

definition route_b1_decision :: "(string \<times> anchor_lists) list \<Rightarrow> b1_decision" where
  "route_b1_decision outcomes =
     (let verdicts = map (\<lambda>(anchor, a). anchor_verdict anchor a) outcomes;
          counted = filter ar_counted verdicts;
          signal = filter (\<lambda>v. ar_verdict v = SIGNAL) counted;
          no_uplift = filter (\<lambda>v. ar_verdict v = NO_UPLIFT) counted;
          (decision, next_step) =
            (if signal \<noteq> [] then (''route_b1_probe_signal_of_life'', ''green_light_powered_batch_9_pairs_no_uplift_claim_yet'')
             else if counted \<noteq> [] then (''route_b1_probe_futility_null'', ''declare_b_deployable_info_null_commit_route_a'')
             else (''route_b1_probe_inconclusive_recalibrate'',
               ''recalibrate_trigger_or_confirm_control_epsilon_before_reconclude''));
          gates = [(''no_uplift_claim_made'', True), (''b6_red_line_unchanged'', True),
            (''decision_token_has_no_uplift_wording'',
               list_all (\<lambda>t. \<not> contains t decision) [''uplift'', ''resolved_claim'', ''improvement'']),
            (''at_least_one_anchor_counted_or_inconclusive'',
               counted \<noteq> [] \<or> ends_with ''inconclusive_recalibrate'' decision)]
      in \<lparr>bd_decision = decision, bd_passed = list_all snd gates, bd_gates = gates, bd_anchor_count = length verdicts,
          bd_counted_count = length counted, bd_signal_count = length signal, bd_no_uplift_count = length no_uplift,
          bd_signal_anchors = map ar_anchor signal, bd_verdicts = verdicts, bd_next_step = next_step\<rparr>)"

definition no_lists :: anchor_lists where
  "no_lists = \<lparr>al_control_resolved = [], al_treatment_resolved = [], al_injected_once = [], al_leak_clean = [],
     al_trigger_hit = [], al_control_injection_zero = []\<rparr>"

definition truthy_field :: "json pydict \<Rightarrow> string \<Rightarrow> bool" where
  "truthy_field c k = json_truthy (get_default c k JNull)"

definition add_cell :: "json pydict \<Rightarrow> anchor_lists \<Rightarrow> pyexn + anchor_lists" where
  "add_cell c a =
     and_then (get_item c ''arm'') (\<lambda>arm.
     if arm = JStr ''control'' then
       and_then (json_int py_int (get_default c ''injection_count'' (JInt 0))) (\<lambda>n.
       Inr (a\<lparr>al_control_resolved := al_control_resolved a @ [truthy_field c ''resolved''],
              al_control_injection_zero := al_control_injection_zero a @ [n = 0]\<rparr>))
     else if arm = JStr ''treatment'' then
       Inr (a\<lparr>al_treatment_resolved := al_treatment_resolved a @ [truthy_field c ''resolved''],
              al_injected_once := al_injected_once a @ [truthy_field c ''injected_once''],
              al_leak_clean := al_leak_clean a @ [truthy_field c ''leak_clean''],
              al_trigger_hit := al_trigger_hit a @ [truthy_field c ''trigger_hit'']\<rparr>)
     else Inr a)"

text \<open>Cells of crashed runs carry no outcome and are dropped.\<close>

definition crashed :: "json pydict \<Rightarrow> bool" where
  "crashed c \<longleftrightarrow> dict_get c ''run_ok'' = Some (JBool False)"

fun fold_cells :: "(json \<Rightarrow> string) \<Rightarrow> json pydict list \<Rightarrow> anchor_lists pydict \<Rightarrow> pyexn + anchor_lists pydict" where
  "fold_cells rp [] d = Inr d"
| "fold_cells rp (c # cs) d =
     (if crashed c then fold_cells rp cs d
      else and_then (get_item c ''anchor'') (\<lambda>j.
        let anchor = json_text rp j; a = (case dict_get d anchor of Some a \<Rightarrow> a | None \<Rightarrow> no_lists)
        in and_then (add_cell c a) (\<lambda>a'. fold_cells rp cs (dict_set anchor a' d))))"

definition aggregate_cells_to_anchor_outcomes :: "(json \<Rightarrow> string) \<Rightarrow> json pydict list \<Rightarrow>
    pyexn + (string \<times> anchor_lists) list" where
  "aggregate_cells_to_anchor_outcomes rp cells =
     and_then (fold_cells rp cells []) (\<lambda>d. Inr (sort_key fst d))"

section \<open>What a cell contributes\<close>

definition cell_at :: "(json \<Rightarrow> string) \<Rightarrow> string \<Rightarrow> string \<Rightarrow> json pydict \<Rightarrow> bool" where
  "cell_at rp anchor arm c \<longleftrightarrow> \<not> crashed c \<and> (\<exists>j. dict_get c ''anchor'' = Some j \<and> json_text rp j = anchor) \<and>
     dict_get c ''arm'' = Some (JStr arm)"

definition no_injection :: "json pydict \<Rightarrow> bool" where
  "no_injection c \<longleftrightarrow> json_int py_int (get_default c ''injection_count'' (JInt 0)) = Inr 0"

definition lists_of :: "(json \<Rightarrow> string) \<Rightarrow> string \<Rightarrow> json pydict list \<Rightarrow> anchor_lists" where
  "lists_of rp anchor cs =
     (let ctl = filter (cell_at rp anchor ''control'') cs; trt = filter (cell_at rp anchor ''treatment'') cs
      in \<lparr>al_control_resolved = map (\<lambda>c. truthy_field c ''resolved'') ctl,
          al_treatment_resolved = map (\<lambda>c. truthy_field c ''resolved'') trt,
          al_injected_once = map (\<lambda>c. truthy_field c ''injected_once'') trt,
          al_leak_clean = map (\<lambda>c. truthy_field c ''leak_clean'') trt,
          al_trigger_hit = map (\<lambda>c. truthy_field c ''trigger_hit'') trt,
          al_control_injection_zero = map no_injection ctl\<rparr>)"

lemma lists_of_snoc:
  assumes "\<not> crashed c" "dict_get c ''anchor'' = Some j" "add_cell c (lists_of rp (json_text rp j) cs) = Inr a"
  shows "a = lists_of rp (json_text rp j) (cs @ [c])"
    "anchor \<noteq> json_text rp j \<Longrightarrow> lists_of rp anchor (cs @ [c]) = lists_of rp anchor cs"
proof -
  from assms(3) obtain arm where arm: "dict_get c ''arm'' = Some arm"
    by (auto simp: add_cell_def and_then_eq_Inr get_item_def split: option.splits)
  then have at: "cell_at rp (json_text rp j) k c \<longleftrightarrow> arm = JStr k" for k
    using assms(1,2) by (simp add: cell_at_def)
  consider "arm = JStr ''control''" | "arm = JStr ''treatment''" | "arm \<noteq> JStr ''control''" "arm \<noteq> JStr ''treatment''" by blast
  then show "a = lists_of rp (json_text rp j) (cs @ [c])"
  proof cases
    case 1
    with assms(3) arm obtain n where "json_int py_int (get_default c ''injection_count'' (JInt 0)) = Inr n"
      by (auto simp: add_cell_def and_then_eq_Inr get_item_def)
    with 1 assms(3) arm show ?thesis by (simp add: add_cell_def get_item_def lists_of_def Let_def at no_injection_def)
  next
    case 2
    with assms(3) arm show ?thesis by (simp add: add_cell_def get_item_def lists_of_def Let_def at)
  next
    case 3
    with assms(3) arm show ?thesis by (simp add: add_cell_def get_item_def lists_of_def Let_def at)
  qed
  assume "anchor \<noteq> json_text rp j"
  with assms(2) have "\<not> cell_at rp anchor arm c" for arm by (simp add: cell_at_def)
  then show "lists_of rp anchor (cs @ [c]) = lists_of rp anchor cs" by (simp add: lists_of_def)
qed

lemma crashed_not_at [simp]: "crashed c \<Longrightarrow> \<not> cell_at rp anchor arm c"
  by (simp add: cell_at_def)

lemma lists_of_crashed: "crashed c \<Longrightarrow> lists_of rp anchor (cs @ [c]) = lists_of rp anchor cs"
  by (simp add: lists_of_def)

definition anchors_of :: "(json \<Rightarrow> string) \<Rightarrow> json pydict list \<Rightarrow> string set" where
  "anchors_of rp cs = {json_text rp j | j c. c \<in> set cs \<and> \<not> crashed c \<and> dict_get c ''anchor'' = Some j}"

lemma fold_cells_lists:
  assumes "fold_cells rp cs d = Inr d'" "\<forall>anchor. dict_get d anchor = (if anchor \<in> anchors_of rp pre then Some (lists_of rp anchor pre) else None)"
    and "distinct (map fst d)"
  shows "(\<forall>anchor. dict_get d' anchor = (if anchor \<in> anchors_of rp (pre @ cs) then Some (lists_of rp anchor (pre @ cs)) else None)) \<and>
    distinct (map fst d')"
  using assms
proof (induction cs arbitrary: d pre)
  case (Cons c cs)
  show ?case
  proof (cases "crashed c")
    case True
    then have "anchors_of rp (pre @ [c]) = anchors_of rp pre" by (auto simp: anchors_of_def)
    with Cons.IH [of d "pre @ [c]"] Cons.prems True show ?thesis by (simp add: lists_of_crashed)
  next
    case False
    with Cons.prems(1) obtain j where j: "dict_get c ''anchor'' = Some j"
      by (auto simp: and_then_eq_Inr get_item_def split: option.splits)
    let ?a = "case dict_get d (json_text rp j) of Some a \<Rightarrow> a | None \<Rightarrow> no_lists"
    from False Cons.prems(1) j obtain a' where a': "add_cell c ?a = Inr a'"
      and rest: "fold_cells rp cs (dict_set (json_text rp j) a' d) = Inr d'"
      by (auto simp: and_then_eq_Inr get_item_def Let_def)
    have none: "lists_of rp anchor pre = no_lists" if "anchor \<notin> anchors_of rp pre" for anchor
    proof -
      from that have "\<not> cell_at rp anchor arm x" if "x \<in> set pre" for arm x
        using that by (auto simp: cell_at_def anchors_of_def)
      then have "filter (cell_at rp anchor arm) pre = []" for arm by (simp add: filter_empty_conv)
      then show ?thesis by (simp add: lists_of_def no_lists_def)
    qed
    have "?a = lists_of rp (json_text rp j) pre" using Cons.prems(2) none by simp
    note snoc = lists_of_snoc [OF False j a' [unfolded this]]
    have "anchors_of rp (pre @ [c]) = insert (json_text rp j) (anchors_of rp pre)" using False j by (auto simp: anchors_of_def)
    then have "\<forall>anchor. dict_get (dict_set (json_text rp j) a' d) anchor =
        (if anchor \<in> anchors_of rp (pre @ [c]) then Some (lists_of rp anchor (pre @ [c])) else None)"
      using Cons.prems(2) snoc by auto
    from Cons.IH [OF rest this distinct_dict_set [OF Cons.prems(3)]] show ?thesis by simp
  qed
qed simp

lemma aggregate_lists:
  assumes "aggregate_cells_to_anchor_outcomes rp cells = Inr outcomes"
  shows "set outcomes = (\<lambda>anchor. (anchor, lists_of rp anchor cells)) ` anchors_of rp cells"
proof -
  from assms obtain d where d: "fold_cells rp cells [] = Inr d" and out: "outcomes = sort_key fst d"
    by (auto simp: aggregate_cells_to_anchor_outcomes_def and_then_eq_Inr)
  from fold_cells_lists [OF d, of "[]"] have
    get: "\<forall>anchor. dict_get d anchor = (if anchor \<in> anchors_of rp cells then Some (lists_of rp anchor cells) else None)"
    and dist: "distinct (map fst d)" by (simp_all add: dict_get_def anchors_of_def)
  have "(anchor, a) \<in> set d \<longleftrightarrow> anchor \<in> anchors_of rp cells \<and> a = lists_of rp anchor cells" for anchor a
  proof -
    have "(anchor, a) \<in> set d \<longleftrightarrow> dict_get d anchor = Some a" by (simp add: dict_get_def dist)
    with get show ?thesis by auto
  qed
  then show ?thesis by (auto simp: out)
qed

section \<open>The decision\<close>

lemma zip_maps: "zip (map f xs) (zip (map g xs) (zip (map h xs) (map k xs))) = map (\<lambda>x. (f x, g x, h x, k x)) xs"
  by (induction xs) auto

definition valid_rep :: "json pydict \<Rightarrow> bool" where
  "valid_rep c \<longleftrightarrow> truthy_field c ''injected_once'' \<and> truthy_field c ''leak_clean'' \<and> truthy_field c ''trigger_hit''"

lemma valid_resolved_lists:
  "valid_resolved (lists_of rp anchor cs) =
     map (\<lambda>c. truthy_field c ''resolved'') (filter valid_rep (filter (cell_at rp anchor ''treatment'') cs))"
  by (simp add: valid_resolved_def lists_of_def Let_def zip_maps filter_map comp_def valid_rep_def conj_ac)

text \<open>An anchor counts when its control never resolves and is never injected, and some treatment repetition is valid.\<close>

definition counted_anchor :: "(json \<Rightarrow> string) \<Rightarrow> json pydict list \<Rightarrow> string \<Rightarrow> bool" where
  "counted_anchor rp cells anchor \<longleftrightarrow>
     (\<exists>c \<in> set cells. cell_at rp anchor ''control'' c) \<and>
     (\<forall>c \<in> set cells. cell_at rp anchor ''control'' c \<longrightarrow> \<not> truthy_field c ''resolved'' \<and> no_injection c) \<and>
     (\<exists>c \<in> set cells. cell_at rp anchor ''treatment'' c \<and> valid_rep c)"

definition signal_anchor :: "(json \<Rightarrow> string) \<Rightarrow> json pydict list \<Rightarrow> string \<Rightarrow> bool" where
  "signal_anchor rp cells anchor \<longleftrightarrow> counted_anchor rp cells anchor \<and>
     (\<exists>c \<in> set cells. cell_at rp anchor ''treatment'' c \<and> valid_rep c \<and> truthy_field c ''resolved'')"

lemma verdict_of_lists:
  "ar_counted (anchor_verdict anchor (lists_of rp anchor cells)) \<longleftrightarrow> counted_anchor rp cells anchor"
  "ar_counted (anchor_verdict anchor (lists_of rp anchor cells)) \<and> ar_verdict (anchor_verdict anchor (lists_of rp anchor cells)) = SIGNAL \<longleftrightarrow>
     signal_anchor rp cells anchor"
proof -
  let ?v = "anchor_verdict anchor (lists_of rp anchor cells)"
  have valid: "valid_resolved (lists_of rp anchor cells) = [] \<longleftrightarrow> \<not> (\<exists>c \<in> set cells. cell_at rp anchor ''treatment'' c \<and> valid_rep c)"
    "list_ex id (valid_resolved (lists_of rp anchor cells)) \<longleftrightarrow>
       (\<exists>c \<in> set cells. cell_at rp anchor ''treatment'' c \<and> valid_rep c \<and> truthy_field c ''resolved'')"
    by (auto simp: valid_resolved_lists filter_empty_conv list_ex_iff)
  have ctl: "al_control_resolved (lists_of rp anchor cells) \<noteq> [] \<longleftrightarrow> (\<exists>c \<in> set cells. cell_at rp anchor ''control'' c)"
    "al_control_injection_zero (lists_of rp anchor cells) \<noteq> [] \<longleftrightarrow> (\<exists>c \<in> set cells. cell_at rp anchor ''control'' c)"
    "list_ex id (al_control_resolved (lists_of rp anchor cells)) \<longleftrightarrow>
       (\<exists>c \<in> set cells. cell_at rp anchor ''control'' c \<and> truthy_field c ''resolved'')"
    "list_all id (al_control_injection_zero (lists_of rp anchor cells)) \<longleftrightarrow>
       (\<forall>c \<in> set cells. cell_at rp anchor ''control'' c \<longrightarrow> no_injection c)"
    by (auto simp: lists_of_def Let_def filter_empty_conv list_ex_iff list_all_iff)
  show counted: "ar_counted ?v \<longleftrightarrow> counted_anchor rp cells anchor"
    unfolding anchor_verdict_def Let_def counted_anchor_def by (simp add: valid ctl) blast
  show "ar_counted ?v \<and> ar_verdict ?v = SIGNAL \<longleftrightarrow> signal_anchor rp cells anchor"
    unfolding signal_anchor_def counted [symmetric]
    unfolding anchor_verdict_def Let_def by (simp add: valid ctl SIGNAL_def NO_UPLIFT_def)
qed

lemma verdict_anchor [simp]: "ar_anchor (anchor_verdict anchor a) = anchor"
  by (simp add: anchor_verdict_def Let_def split: prod.splits)

lemma Collect_mem_image: "{v \<in> f ` A. P v} = f ` {a \<in> A. P (f a)}"
  by blast

lemma counted_known: "counted_anchor rp cells anchor \<Longrightarrow> anchor \<in> anchors_of rp cells"
  by (auto simp: counted_anchor_def anchors_of_def cell_at_def)

text \<open>
  C27: the preregistered decision, read off the cells. A signal of life needs an anchor whose control runs
  never resolved and were never injected, and a treatment run that was injected exactly once, hit the trigger,
  leaked nothing and resolved; futility needs an anchor with such a control and a valid treatment run, and no
  signal; without any such anchor the probe is inconclusive. Crashed runs count nowhere, the signal anchors are
  exactly those with a signal, and the decision never claims an uplift.
\<close>

theorem b1_decision_iff:
  assumes "aggregate_cells_to_anchor_outcomes rp cells = Inr outcomes"
  shows "let d = route_b1_decision outcomes in
    (bd_decision d = ''route_b1_probe_signal_of_life'' \<longleftrightarrow> (\<exists>anchor. signal_anchor rp cells anchor)) \<and>
    (bd_decision d = ''route_b1_probe_futility_null'' \<longleftrightarrow>
       (\<exists>anchor. counted_anchor rp cells anchor) \<and> \<not> (\<exists>anchor. signal_anchor rp cells anchor)) \<and>
    (bd_decision d = ''route_b1_probe_inconclusive_recalibrate'' \<longleftrightarrow> \<not> (\<exists>anchor. counted_anchor rp cells anchor)) \<and>
    set (bd_signal_anchors d) = {anchor. signal_anchor rp cells anchor} \<and> bd_passed d"
proof -
  define vs where "vs = map (\<lambda>(anchor, a). anchor_verdict anchor a) outcomes"
  define counted where "counted = filter ar_counted vs"
  define signal where "signal = filter (\<lambda>v. ar_verdict v = SIGNAL) counted"
  have vs: "set vs = (\<lambda>anchor. anchor_verdict anchor (lists_of rp anchor cells)) ` anchors_of rp cells"
    unfolding vs_def by (auto simp: aggregate_lists [OF assms] image_image)
  have c: "counted \<noteq> [] \<longleftrightarrow> (\<exists>anchor. counted_anchor rp cells anchor)"
    using vs verdict_of_lists(1) [of _ rp cells] counted_known by (force simp: counted_def filter_empty_conv)
  have "signal_anchor rp cells anchor \<Longrightarrow> anchor \<in> anchors_of rp cells" for anchor
    using counted_known by (simp add: signal_anchor_def)
  moreover have "set signal = {v \<in> set vs. ar_counted v \<and> ar_verdict v = SIGNAL}" by (auto simp: signal_def counted_def)
  then have "set signal = (\<lambda>anchor. anchor_verdict anchor (lists_of rp anchor cells)) `
      {anchor \<in> anchors_of rp cells. signal_anchor rp cells anchor}"
    by (simp only: vs Collect_mem_image verdict_of_lists(2))
  then have "ar_anchor ` set signal = {anchor \<in> anchors_of rp cells. signal_anchor rp cells anchor}"
    by (simp add: image_image)
  ultimately have s: "ar_anchor ` set signal = {anchor. signal_anchor rp cells anchor}" by blast
  have sc: "signal \<noteq> [] \<Longrightarrow> counted \<noteq> []" by (auto simp: signal_def)
  have "signal = [] \<longleftrightarrow> ar_anchor ` set signal = {}" by simp
  then have s': "signal \<noteq> [] \<longleftrightarrow> (\<exists>anchor. signal_anchor rp cells anchor)" unfolding s by auto
  have tokens: "\<not> contains t d" if "t \<in> {''uplift'', ''resolved_claim'', ''improvement''}"
    "d \<in> {''route_b1_probe_signal_of_life'', ''route_b1_probe_futility_null'', ''route_b1_probe_inconclusive_recalibrate''}" for t d
    using that by (elim insertE emptyE; hypsubst; code_simp)
  have "bd_decision (route_b1_decision outcomes) = (if signal \<noteq> [] then ''route_b1_probe_signal_of_life''
      else if counted \<noteq> [] then ''route_b1_probe_futility_null'' else ''route_b1_probe_inconclusive_recalibrate'')"
    "bd_signal_anchors (route_b1_decision outcomes) = map ar_anchor signal" "bd_passed (route_b1_decision outcomes)"
    unfolding route_b1_decision_def vs_def [symmetric] Let_def counted_def [symmetric] signal_def [symmetric]
    using sc by (simp_all add: tokens ends_with_def)
  then show ?thesis using s sc by (auto simp: Let_def c s')
qed

text \<open>A treatment arm's report makes a valid cell exactly when it injected once and leaked nothing.\<close>

lemma arm_report_cell:
  assumes "cell_from_arm_report report rep resolved = Inr c" "get_default report ''arm_type'' JNull = JStr ''treatment''"
  shows "truthy_field c ''resolved'' \<longleftrightarrow> resolved"
    "valid_rep c \<longleftrightarrow> dict_get c ''injection_count'' = Some (JInt 1) \<and>
       \<not> json_truthy (get_default report ''m2b_leak_findings'' JNull) \<and>
       \<not> json_truthy (get_default report ''m2b_capture_leak_findings'' JNull)"
    "crashed c \<longleftrightarrow> \<not> json_truthy (get_default report ''run_exit_ok'' (JBool True))"
proof -
  from assms obtain count where
    c: "c = [(''anchor'', get_default report ''source_task_id'' JNull), (''arm'', JStr ''treatment''), (''rep'', JInt (int rep)),
      (''resolved'', JBool resolved), (''injection_count'', JInt count),
      (''run_ok'', JBool (json_truthy (get_default report ''run_exit_ok'' (JBool True)))),
      (''injected_once'', JBool (count = 1)),
      (''leak_clean'', JBool (\<not> json_truthy (json_or (get_default report ''m2b_leak_findings'' JNull)
            (get_default report ''m2b_capture_leak_findings'' JNull)))),
      (''trigger_hit'', JBool (1 \<le> count))]"
    by (auto simp: cell_from_arm_report_def Let_def and_then_eq_Inr)
  show "truthy_field c ''resolved'' \<longleftrightarrow> resolved" by (simp add: c truthy_field_def get_default_def dict_get_def)
  show "valid_rep c \<longleftrightarrow> dict_get c ''injection_count'' = Some (JInt 1) \<and>
       \<not> json_truthy (get_default report ''m2b_leak_findings'' JNull) \<and>
       \<not> json_truthy (get_default report ''m2b_capture_leak_findings'' JNull)"
    unfolding valid_rep_def c truthy_field_def get_default_def dict_get_def by (auto simp: json_or_def split: if_splits)
  show "crashed c \<longleftrightarrow> \<not> json_truthy (get_default report ''run_exit_ok'' (JBool True))"
    by (simp add: c crashed_def dict_get_def)
qed

definition arm_report :: "string \<Rightarrow> int \<Rightarrow> json pydict" where
  "arm_report arm n = [(''arm_type'', JStr arm), (''source_task_id'', JStr ''a''), (''injection_count'', JInt n)]"

definition demo_cells :: "json pydict list" where
  "demo_cells = (case assemble_cells (\<lambda>_. '''') [(arm_report ''control'' 0, 0), (arm_report ''treatment'' 1, 0)]
     [((''a'', ''control'', 0), False), ((''a'', ''treatment'', 0), True)] of Inr a \<Rightarrow> as_cells a | Inl _ \<Rightarrow> [])"

lemma demo_cells_eq: "demo_cells =
  [[(''anchor'', JStr ''a''), (''arm'', JStr ''control''), (''rep'', JInt 0), (''resolved'', JBool False),
    (''injection_count'', JInt 0), (''run_ok'', JBool True)],
   [(''anchor'', JStr ''a''), (''arm'', JStr ''treatment''), (''rep'', JInt 0), (''resolved'', JBool True),
    (''injection_count'', JInt 1), (''run_ok'', JBool True), (''injected_once'', JBool True), (''leak_clean'', JBool True),
    (''trigger_hit'', JBool True)]]"
  by code_simp

theorem b1_decision_iff_witness:
  "\<exists>outcomes. aggregate_cells_to_anchor_outcomes (\<lambda>_. '''') demo_cells = Inr outcomes \<and>
     bd_decision (route_b1_decision outcomes) = ''route_b1_probe_signal_of_life''"
proof -
  have "aggregate_cells_to_anchor_outcomes (\<lambda>_. '''') demo_cells = Inr [(''a'', lists_of (\<lambda>_. '''') ''a'' demo_cells)]"
    unfolding demo_cells_eq
    by (simp add: aggregate_cells_to_anchor_outcomes_def get_item_def dict_get_def crashed_def add_cell_def get_default_def
        no_lists_def truthy_field_def json_int_def dict_set_def lists_of_def cell_at_def no_injection_def Let_def)
  moreover have "signal_anchor (\<lambda>_. '''') demo_cells ''a''"
    unfolding demo_cells_eq
    by (simp add: signal_anchor_def counted_anchor_def cell_at_def crashed_def dict_get_def truthy_field_def get_default_def
        no_injection_def json_int_def valid_rep_def)
  ultimately show ?thesis using b1_decision_iff [of "\<lambda>_. ''''" demo_cells] by (auto simp: Let_def)
qed

end
