(* ===== verification/Evidence_Chain.thy ===== *)
theory Evidence_Chain
  imports Clinic_Json
begin

text \<open>
  The evidence chain, \<open>packages/clinic/src/wutai_clinic/evidence/chain.py\<close>: nodes with gates and upstream
  nodes, visited depth first in topological order and reported one by one. \<open>fs\<close> is the file system (what
  is at a path), \<open>h\<close> SHA-256; a gate is a function of its context that may raise.
\<close>

section \<open>Model\<close>

datatype fs_entry = Directory | RegularFile string

type_synonym gate_function = "json pydict \<Rightarrow> pyexn + bool"

record gate =
  ga_name :: string
  ga_check :: gate_function
  ga_description :: string

record evidence_node =
  nd_phase_id :: string
  nd_inputs :: "string list"
  nd_outputs :: "string list"
  nd_gates :: "gate list"
  nd_decision :: string
  nd_node_id :: string
  nd_upstream :: "string list"
  nd_input_hashes :: "string pydict"

definition node_key :: "evidence_node \<Rightarrow> string" where
  "node_key n = (if nd_node_id n \<noteq> [] then nd_node_id n else nd_phase_id n)"

record evidence_report =
  er_phase :: string
  er_node_id :: string
  er_decision :: string
  er_inputs :: "string list"
  er_outputs :: "string list"
  er_gates :: "bool pydict"
  er_passed :: bool
  er_blocking :: "string list"

record evidence_chain =
  ch_nodes :: "evidence_node list"
  ch_by_key :: "evidence_node pydict"
  ch_last_reports :: "evidence_report pydict"

definition by_key :: "evidence_node list \<Rightarrow> evidence_node pydict" where
  "by_key ns = foldl (\<lambda>d n. dict_set (node_key n) n d) [] ns"

definition new_chain :: "evidence_node list \<Rightarrow> evidence_chain" where
  "new_chain ns = \<lparr>ch_nodes = ns, ch_by_key = by_key ns, ch_last_reports = []\<rparr>"

text \<open>
  The depth-first visit, over the nodes still to visit: a name \<open>self._by_key\<close> does not know is a node
  that raises when its turn comes. The list \<open>ord\<close> of the nodes finished so far also stands for the set
  \<open>permanent\<close>, to which a node's key is added when the node is appended; \<open>temporary\<close> holds the keys of the
  visits in progress, which is a stack.
\<close>

definition upstream_node :: "evidence_node pydict \<Rightarrow> string \<Rightarrow> string + evidence_node" where
  "upstream_node d u = (case dict_get d u of None \<Rightarrow> Inl u | Some n \<Rightarrow> Inr n)"

definition unknown_upstream :: "string \<Rightarrow> pyexn" where
  "unknown_upstream u = KeyError (''Unknown upstream evidence node: '' @ u)"

definition cycle_detected :: "string \<Rightarrow> pyexn" where
  "cycle_detected k = ValueErr (''Evidence cycle detected at '' @ k)"

definition keys_ahead :: "evidence_node pydict \<Rightarrow> (string + evidence_node) list \<Rightarrow> string set" where
  "keys_ahead d xs = node_key ` (snd ` set d \<union> {n. Inr n \<in> set xs})"

function visits :: "evidence_node pydict \<Rightarrow> string list \<Rightarrow> (string + evidence_node) list \<Rightarrow> evidence_node list \<Rightarrow>
    pyexn + evidence_node list" where
  "visits d temporary [] ord = Inr ord"
| "visits d temporary (Inl u # xs) ord = Inl (unknown_upstream u)"
| "visits d temporary (Inr n # xs) ord =
     (if node_key n \<in> node_key ` set ord then visits d temporary xs ord
      else if node_key n \<in> set temporary then Inl (cycle_detected (node_key n))
      else (case visits d (node_key n # temporary) (map (upstream_node d) (nd_upstream n)) ord of
              Inl e \<Rightarrow> Inl e
            | Inr ord1 \<Rightarrow> visits d temporary xs (ord1 @ [n])))"
  by pat_completeness auto

lemma finite_keys_ahead: "finite (keys_ahead d xs)"
proof -
  have "{n. Inr n \<in> set xs} \<subseteq> projr ` set xs" by force
  then have "finite {n. Inr n \<in> set xs}" by (rule finite_subset) simp
  then show ?thesis by (simp add: keys_ahead_def)
qed

lemma upstream_node_Inr [simp]: "upstream_node d u = Inr n \<longleftrightarrow> map_of d u = Some n"
  by (simp add: upstream_node_def dict_get_def split: option.splits)

lemma upstream_nodes_known: "{n. Inr n \<in> set (map (upstream_node d) us)} \<subseteq> snd ` set d"
proof
  fix n assume "n \<in> {n. Inr n \<in> set (map (upstream_node d) us)}"
  then obtain u where "upstream_node d u = Inr n" by (auto dest: sym)
  then show "n \<in> snd ` set d" by (force dest: map_of_SomeD)
qed

termination visits
proof (relation "measures [\<lambda>(d, t, xs, ord). card (keys_ahead d xs - set t), \<lambda>(d, t, xs, ord). length xs]")
  fix d t n ord and xs :: "(string + evidence_node) list"
  have "keys_ahead d xs - set t \<subseteq> keys_ahead d (Inr n # xs) - set t" by (auto simp: keys_ahead_def)
  from card_mono [OF _ this]
  have le: "card (keys_ahead d xs - set t) \<le> card (keys_ahead d (Inr n # xs) - set t)"
    by (simp add: finite_keys_ahead)
  then show "((d, t, xs, ord), d, t, Inr n # xs, ord) \<in>
      measures [\<lambda>(d, t, xs, ord). card (keys_ahead d xs - set t), \<lambda>(d, t, xs, ord). length xs]" by auto
  show "((d, t, xs, ord1), d, t, Inr n # xs, ord) \<in>
      measures [\<lambda>(d, t, xs, ord). card (keys_ahead d xs - set t), \<lambda>(d, t, xs, ord). length xs]" for ord1
    using le by auto
  assume "node_key n \<notin> set t"
  then have "keys_ahead d (map (upstream_node d) (nd_upstream n)) - set (node_key n # t) \<subset> keys_ahead d (Inr n # xs) - set t"
    using upstream_nodes_known [of d "nd_upstream n"] by (auto simp: keys_ahead_def)
  from psubset_card_mono [OF _ this]
  show "((d, node_key n # t, map (upstream_node d) (nd_upstream n), ord), d, t, Inr n # xs, ord) \<in>
      measures [\<lambda>(d, t, xs, ord). card (keys_ahead d xs - set t), \<lambda>(d, t, xs, ord). length xs]"
    by (simp add: finite_keys_ahead)
qed simp

definition topological_order :: "evidence_chain \<Rightarrow> pyexn + evidence_node list" where
  "topological_order ch = visits (ch_by_key ch) [] (map Inr (ch_nodes ch)) []"

definition run_gates :: "evidence_node \<Rightarrow> json pydict \<Rightarrow> bool pydict" where
  "run_gates n ctx = foldl (\<lambda>res g. dict_set (ga_name g)
     (case ga_check g ctx of Inl _ \<Rightarrow> False | Inr b \<Rightarrow> b) res) [] (nd_gates n)"

text \<open>\<open>Path(raw).as_posix()\<close>: empty and \<open>.\<close> components go, the root stays.\<close>

definition as_posix :: "string \<Rightarrow> string" where
  "as_posix s =
     (let parts = filter (\<lambda>p. p \<noteq> [] \<and> p \<noteq> ''.'') (split_slash [] s);
          root_of = (if starts_with ''//'' s \<and> \<not> starts_with ''///'' s then ''//''
                     else if starts_with ''/'' s then ''/'' else '''');
          text = root_of @ join ''/'' parts
      in if text = [] then ''.'' else text)"

definition sha256_file :: "(string \<Rightarrow> fs_entry option) \<Rightarrow> (string \<Rightarrow> string) \<Rightarrow> string \<Rightarrow> pyexn + string" where
  "sha256_file fs h p = (case fs p of Some (RegularFile b) \<Rightarrow> Inr (h b) | _ \<Rightarrow> Inl (RuntimeErr ''cannot read''))"

definition input_hash :: "evidence_node \<Rightarrow> string \<Rightarrow> string option" where
  "input_hash n p =
     (case dict_get (nd_input_hashes n) p of
        Some e \<Rightarrow> if e \<noteq> [] then Some e else dict_get (nd_input_hashes n) (as_posix p)
      | None \<Rightarrow> dict_get (nd_input_hashes n) (as_posix p))"

fun verify_inputs :: "(string \<Rightarrow> fs_entry option) \<Rightarrow> (string \<Rightarrow> string) \<Rightarrow> evidence_node \<Rightarrow> string list \<Rightarrow> pyexn + bool" where
  "verify_inputs fs h n [] = Inr True"
| "verify_inputs fs h n (p # ps) =
     (if fs p = None then Inr False
      else (case input_hash n p of
          Some e \<Rightarrow> if e = [] then verify_inputs fs h n ps
                    else (case sha256_file fs h p of
                        Inl x \<Rightarrow> Inl x
                      | Inr d \<Rightarrow> if d \<noteq> e then Inr False else verify_inputs fs h n ps)
        | None \<Rightarrow> verify_inputs fs h n ps))"

definition verify_upstream :: "(string \<Rightarrow> fs_entry option) \<Rightarrow> (string \<Rightarrow> string) \<Rightarrow> evidence_chain \<Rightarrow> evidence_node \<Rightarrow>
    pyexn + bool" where
  "verify_upstream fs h ch n =
     (case verify_inputs fs h n (nd_inputs n) of
        Inl x \<Rightarrow> Inl x
      | Inr ok \<Rightarrow> Inr (ok \<and> list_all (\<lambda>u. case dict_get (ch_last_reports ch) u of
            None \<Rightarrow> True | Some r \<Rightarrow> er_passed r) (nd_upstream n)))"

definition emit_report :: "evidence_node \<Rightarrow> bool pydict \<Rightarrow> evidence_report" where
  "emit_report n results =
     (let blocking = map fst (filter (\<lambda>(name, passed). \<not> passed) results)
      in \<lparr>er_phase = nd_phase_id n, er_node_id = node_key n, er_decision = nd_decision n, er_inputs = nd_inputs n,
          er_outputs = nd_outputs n, er_gates = results, er_passed = (blocking = []), er_blocking = blocking\<rparr>)"

text \<open>\<open>{"upstream": upstream_passed, **gate_results}\<close>\<close>

definition with_upstream :: "bool \<Rightarrow> bool pydict \<Rightarrow> bool pydict" where
  "with_upstream up results = foldl (\<lambda>d (k, v). dict_set k v d) [(''upstream'', up)] results"

definition run_node :: "(string \<Rightarrow> fs_entry option) \<Rightarrow> (string \<Rightarrow> string) \<Rightarrow> evidence_node \<Rightarrow> json pydict \<Rightarrow>
    evidence_chain \<Rightarrow> pyexn + (evidence_report \<times> evidence_chain)" where
  "run_node fs h n ctx ch =
     (case verify_upstream fs h ch n of
        Inl x \<Rightarrow> Inl x
      | Inr up \<Rightarrow>
          (let gates = run_gates n ctx;
               results = (if nd_inputs n \<noteq> [] \<or> nd_upstream n \<noteq> [] then with_upstream up gates else gates);
               report = emit_report n results
           in Inr (report, ch\<lparr>ch_last_reports := dict_set (node_key n) report (ch_last_reports ch)\<rparr>)))"

definition context_of :: "json pydict pydict \<Rightarrow> evidence_node \<Rightarrow> json pydict" where
  "context_of ctxs n = (case dict_get ctxs (node_key n) of Some c \<Rightarrow> c | None \<Rightarrow> [])"

fun run_nodes :: "(string \<Rightarrow> fs_entry option) \<Rightarrow> (string \<Rightarrow> string) \<Rightarrow> json pydict pydict \<Rightarrow> evidence_node list \<Rightarrow>
    evidence_report pydict \<Rightarrow> evidence_chain \<Rightarrow> pyexn + (evidence_report pydict \<times> evidence_chain)" where
  "run_nodes fs h ctxs [] reports ch = Inr (reports, ch)"
| "run_nodes fs h ctxs (n # ns) reports ch =
     (case run_node fs h n (context_of ctxs n) ch of
        Inl x \<Rightarrow> Inl x
      | Inr (r, ch1) \<Rightarrow> run_nodes fs h ctxs ns (dict_set (node_key n) r reports) ch1)"

definition run_all :: "(string \<Rightarrow> fs_entry option) \<Rightarrow> (string \<Rightarrow> string) \<Rightarrow> json pydict pydict \<Rightarrow> evidence_chain \<Rightarrow>
    pyexn + (evidence_report pydict \<times> evidence_chain)" where
  "run_all fs h ctxs ch =
     (case topological_order ch of Inl x \<Rightarrow> Inl x | Inr ord \<Rightarrow> run_nodes fs h ctxs ord [] ch)"

section \<open>The order\<close>

text \<open>Every node of the list comes after the nodes it depends on, all of which are known.\<close>

definition well_ordered :: "evidence_node pydict \<Rightarrow> evidence_node list \<Rightarrow> bool" where
  "well_ordered d ord \<longleftrightarrow> distinct (map node_key ord) \<and>
     (\<forall>pre n post. ord = pre @ n # post \<longrightarrow>
        (\<forall>u \<in> set (nd_upstream n). u \<in> node_key ` set pre \<and> map_of d u \<noteq> None))"

definition keyed :: "evidence_node pydict \<Rightarrow> bool" where
  "keyed d \<longleftrightarrow> (\<forall>k n. map_of d k = Some n \<longrightarrow> node_key n = k)"

lemma well_ordered_Nil [simp]: "well_ordered d []"
  by (simp add: well_ordered_def)

lemma all_splits_snoc:
  "(\<forall>pre m post. xs @ [x] = pre @ m # post \<longrightarrow> P pre m) \<longleftrightarrow> (\<forall>pre m post. xs = pre @ m # post \<longrightarrow> P pre m) \<and> P xs x"
proof (intro iffI conjI allI impI)
  fix pre m post
  assume "\<forall>pre m post. xs @ [x] = pre @ m # post \<longrightarrow> P pre m" "xs = pre @ m # post"
  moreover from this(2) have "xs @ [x] = pre @ m # (post @ [x])" by simp
  ultimately show "P pre m" by blast
next
  fix pre m post
  assume P: "(\<forall>pre m post. xs = pre @ m # post \<longrightarrow> P pre m) \<and> P xs x" and eq: "xs @ [x] = pre @ m # post"
  from eq P show "P pre m" by (cases post rule: rev_cases) auto
qed auto

lemma well_ordered_snoc:
  "well_ordered d (ord @ [n]) \<longleftrightarrow> well_ordered d ord \<and> node_key n \<notin> node_key ` set ord \<and>
     (\<forall>u \<in> set (nd_upstream n). u \<in> node_key ` set ord \<and> map_of d u \<noteq> None)"
  unfolding well_ordered_def all_splits_snoc by auto

lemma upstream_node_Inl [simp]: "upstream_node d u = Inl v \<longleftrightarrow> v = u \<and> map_of d u = None"
  by (auto simp: upstream_node_def dict_get_def split: option.splits)

lemma visits_sound:
  assumes "visits d temporary xs ord = Inr ord'" "keyed d" "well_ordered d ord" "node_key ` set ord \<inter> set temporary = {}"
  shows "well_ordered d ord' \<and> set ord \<subseteq> set ord' \<and> set ord' \<subseteq> set ord \<union> {n. Inr n \<in> set xs} \<union> ran (map_of d) \<and>
    node_key ` set ord' \<inter> set temporary = {} \<and> (\<forall>x \<in> set xs. \<exists>n. x = Inr n \<and> node_key n \<in> node_key ` set ord')"
  using assms
proof (induction d temporary xs ord arbitrary: ord' rule: visits.induct)
  case (3 d t n xs ord)
  show ?case
  proof (cases "node_key n \<in> node_key ` set ord")
    case True
    with "3.IH"(1) [OF True, of ord'] "3.prems" show ?thesis by auto
  next
    case False
    with "3.prems"(1) obtain ord1 where new: "node_key n \<notin> set t"
      and v1: "visits d (node_key n # t) (map (upstream_node d) (nd_upstream n)) ord = Inr ord1"
      and v2: "visits d t xs (ord1 @ [n]) = Inr ord'" by (auto split: if_splits sum.splits)
    have IH1: "well_ordered d ord1" "set ord \<subseteq> set ord1"
      "set ord1 \<subseteq> set ord \<union> {m. Inr m \<in> set (map (upstream_node d) (nd_upstream n))} \<union> ran (map_of d)"
      "node_key ` set ord1 \<inter> set (node_key n # t) = {}"
      "\<forall>x \<in> set (map (upstream_node d) (nd_upstream n)). \<exists>m. x = Inr m \<and> node_key m \<in> node_key ` set ord1"
      using "3.IH"(2) [OF False new v1 "3.prems"(2,3)] "3.prems"(4) False by auto
    have up: "u \<in> node_key ` set ord1 \<and> map_of d u \<noteq> None" if "u \<in> set (nd_upstream n)" for u
    proof -
      from IH1(5) that obtain m where "upstream_node d u = Inr m" "node_key m \<in> node_key ` set ord1" by auto
      with "3.prems"(2) show ?thesis by (simp add: keyed_def)
    qed
    have "well_ordered d (ord1 @ [n])" unfolding well_ordered_snoc using IH1(1,4) up by auto
    then have IH2: "well_ordered d ord' \<and> set (ord1 @ [n]) \<subseteq> set ord' \<and>
        set ord' \<subseteq> set (ord1 @ [n]) \<union> {m. Inr m \<in> set xs} \<union> ran (map_of d) \<and>
        node_key ` set ord' \<inter> set t = {} \<and> (\<forall>x \<in> set xs. \<exists>m. x = Inr m \<and> node_key m \<in> node_key ` set ord')"
      using "3.IH"(3) [OF False new v1 v2 "3.prems"(2)] IH1(4) new by auto
    have "{m. Inr m \<in> set (map (upstream_node d) (nd_upstream n))} \<subseteq> ran (map_of d)"
      by (auto simp: ran_def dest!: sym [of "Inr _"])
    then have "set ord1 \<subseteq> set ord \<union> ran (map_of d)" using IH1(3) by blast
    then have "set ord' \<subseteq> set ord \<union> {m. Inr m \<in> set (Inr n # xs)} \<union> ran (map_of d)"
      using IH2 by fastforce
    moreover have "set ord \<subseteq> set ord'" "n \<in> set ord'" using IH1(2) IH2 by auto
    ultimately show ?thesis using IH2 by simp
  qed
qed auto

text \<open>\<open>edges d\<close> relates a key to the keys it depends on.\<close>

definition edges :: "evidence_node pydict \<Rightarrow> (string \<times> string) set" where
  "edges d = {(u, k). \<exists>n. map_of d k = Some n \<and> u \<in> set (nd_upstream n)}"

text \<open>Every failure names a reason: an unknown upstream key, or a key that depends on itself.\<close>

lemma visits_fail:
  assumes "visits d temporary xs ord = Inl e" "keyed d"
    and "\<forall>n. Inr n \<in> set xs \<longrightarrow> map_of d (node_key n) = Some n \<and> (\<forall>k \<in> set temporary. (node_key n, k) \<in> (edges d)\<^sup>+)"
  shows "(\<exists>u. e = unknown_upstream u \<and> (Inl u \<in> set xs \<or>
      map_of d u = None \<and> (\<exists>k. (u, k) \<in> edges d))) \<or>
    (\<exists>k. e = cycle_detected k \<and> (k, k) \<in> (edges d)\<^sup>+)"
  using assms
proof (induction d temporary xs ord rule: visits.induct)
  case (3 d t n xs ord)
  let ?us = "map (upstream_node d) (nd_upstream n)"
  have n: "map_of d (node_key n) = Some n" "\<forall>k \<in> set t. (node_key n, k) \<in> (edges d)\<^sup>+" using "3.prems"(3) by auto
  show ?case
  proof (cases "node_key n \<in> node_key ` set ord")
    case True
    with "3.prems"(1) have "visits d t xs ord = Inl e" by simp
    from "3.IH"(1) [OF True this "3.prems"(2)] "3.prems"(3) show ?thesis by auto
  next
    case new: False
    show ?thesis
    proof (cases "node_key n \<in> set t")
      case True
      with new "3.prems"(1) have "e = cycle_detected (node_key n)" by simp
      with True n(2) show ?thesis by blast
    next
      case nt: False
      have up: "(node_key m, node_key n) \<in> edges d \<and> map_of d (node_key m) = Some m" if "Inr m \<in> set ?us" for m
      proof -
        from that obtain u where u: "u \<in> set (nd_upstream n)" "map_of d u = Some m" by (auto dest: sym)
        with "3.prems"(2) have "node_key m = u" by (simp add: keyed_def)
        with u n(1) show ?thesis unfolding edges_def by blast
      qed
      show ?thesis
      proof (cases "visits d (node_key n # t) ?us ord")
        case (Inl e')
        with new nt "3.prems"(1) have e: "e' = e" by simp
        have "\<forall>m. Inr m \<in> set ?us \<longrightarrow> map_of d (node_key m) = Some m \<and>
            (\<forall>k \<in> set (node_key n # t). (node_key m, k) \<in> (edges d)\<^sup>+)"
          using up n(2) by (auto intro: trancl_into_trancl2)
        note IH = "3.IH"(2) [OF new nt Inl [unfolded e] "3.prems"(2) this]
        have "map_of d u = None \<and> (u, node_key n) \<in> edges d" if "Inl u \<in> set ?us" for u
          using that n(1) by (auto simp: edges_def dest: sym)
        with IH show ?thesis by blast
      next
        case (Inr ord1)
        with new nt "3.prems"(1) have "visits d t xs (ord1 @ [n]) = Inl e" by simp
        from "3.IH"(3) [OF new nt Inr this "3.prems"(2)] "3.prems"(3) show ?thesis by auto
      qed
    qed
  qed
qed auto

lemma well_ordered_acyclic:
  assumes "well_ordered d ord" "\<forall>k n. map_of d k = Some n \<longrightarrow> n \<in> set ord \<and> node_key n = k"
  shows "acyclic (edges d)"
proof -
  have "edges d \<subseteq> measure (\<lambda>k. length (takeWhile (\<lambda>m. node_key m \<noteq> k) ord))"
  proof (clarsimp simp: edges_def)
    fix u k n assume "map_of d k = Some n" and u: "u \<in> set (nd_upstream n)"
    with assms(2) have "n \<in> set ord" and k: "node_key n = k" by auto
    then obtain pre post where ord: "ord = pre @ n # post" by (meson split_list)
    with assms(1) u have "u \<in> node_key ` set pre" by (auto simp: well_ordered_def)
    then have "length (takeWhile (\<lambda>m. node_key m \<noteq> u) ord) < length pre"
      unfolding ord by (induction pre) auto
    moreover have "\<forall>m \<in> set pre. node_key m \<noteq> k"
      using assms(1) by (auto simp: ord k [symmetric] well_ordered_def image_iff)
    then have "length pre \<le> length (takeWhile (\<lambda>m. node_key m \<noteq> k) ord)" by (simp add: ord)
    ultimately show "length (takeWhile (\<lambda>m. node_key m \<noteq> u) ord) < length (takeWhile (\<lambda>m. node_key m \<noteq> k) ord)"
      by simp
  qed
  then show ?thesis by (meson acyclic_subset wf_acyclic wf_measure)
qed

lemma by_key_snoc: "by_key (ns @ [n]) = dict_set (node_key n) n (by_key ns)"
  by (simp add: by_key_def)

lemma keyed_by_key: "keyed (by_key ns)"
proof (induction ns rule: rev_induct)
  case (snoc n ns)
  then show ?case by (auto simp: keyed_def by_key_snoc dict_set_def update_conv split: if_splits)
qed (simp add: by_key_def keyed_def)

lemma map_of_by_key:
  "distinct (map node_key ns) \<Longrightarrow> map_of (by_key ns) k = Some n \<longleftrightarrow> n \<in> set ns \<and> node_key n = k"
proof (induction ns rule: rev_induct)
  case (snoc m ns)
  have "map_of (by_key (ns @ [m])) k = (if k = node_key m then Some m else map_of (by_key ns) k)"
    by (simp add: by_key_snoc dict_set_def update_conv)
  with snoc show ?case by (auto simp: image_iff split: if_splits)
qed (simp add: by_key_def)

lemma by_key_ran: "distinct (map node_key ns) \<Longrightarrow> ran (map_of (by_key ns)) = set ns"
  by (auto simp: ran_def map_of_by_key)

lemma order_success:
  assumes "distinct (map node_key ns)" "topological_order (new_chain ns) = Inr ord"
  shows "set ord = set ns" "length ord = length ns" "well_ordered (by_key ns) ord"
proof -
  from assms(2) have v: "visits (by_key ns) [] (map Inr ns) [] = Inr ord" by (simp add: topological_order_def new_chain_def)
  show wo: "well_ordered (by_key ns) ord" using visits_sound [OF v keyed_by_key] by auto
  have sub: "set ord \<subseteq> set ns" and keys: "node_key ` set ns \<subseteq> node_key ` set ord"
    using visits_sound [OF v keyed_by_key] by (auto simp: by_key_ran [OF assms(1)])
  have "n \<in> set ord" if n: "n \<in> set ns" for n
  proof -
    from n keys obtain m where m: "m \<in> set ord" "node_key m = node_key n" by (metis imageE imageI subsetD)
    with sub assms(1) n have "m = n" by (meson distinct_map inj_onD subsetD)
    with m(1) show ?thesis by simp
  qed
  with sub show all: "set ord = set ns" by blast
  have "distinct ord" "distinct ns" using wo assms(1) by (auto simp: well_ordered_def distinct_map)
  with all show "length ord = length ns" by (metis distinct_card)
qed

lemma order_failure:
  assumes "distinct (map node_key ns)" "topological_order (new_chain ns) = Inl e"
  shows "(\<exists>n \<in> set ns. \<exists>u \<in> set (nd_upstream n). u \<notin> node_key ` set ns \<and> e = unknown_upstream u) \<or>
    (\<exists>k. (k, k) \<in> (edges (by_key ns))\<^sup>+ \<and> e = cycle_detected k)"
proof -
  from assms(2) have v: "visits (by_key ns) [] (map Inr ns) [] = Inl e" by (simp add: topological_order_def new_chain_def)
  have "\<forall>n. Inr n \<in> set (map Inr ns) \<longrightarrow> map_of (by_key ns) (node_key n) = Some n \<and>
      (\<forall>k \<in> set []. (node_key n, k) \<in> (edges (by_key ns))\<^sup>+)"
    using map_of_by_key [OF assms(1)] by auto
  from visits_fail [OF v keyed_by_key this]
  show ?thesis
  proof (elim disjE exE conjE)
    fix u k assume e: "e = unknown_upstream u" and u: "map_of (by_key ns) u = None" and "(u, k) \<in> edges (by_key ns)"
    then obtain n where "n \<in> set ns" "u \<in> set (nd_upstream n)"
      using map_of_by_key [OF assms(1)] by (auto simp: edges_def)
    moreover have "u \<notin> node_key ` set ns"
      using u map_of_by_key [OF assms(1)] by (metis imageE option.distinct(1))
    ultimately show ?thesis using e by blast
  qed auto
qed

text \<open>
  C22: the order of an evidence chain. With distinct keys, visiting the nodes depth first succeeds exactly when
  every upstream key names a node and no node depends on itself through others. The result then lists every
  node once, each after all nodes it depends on. A failure always tells the truth: an unknown key that some
  node names, or a key on a cycle. The visit always ends.
\<close>

theorem evidence_order_correct:
  assumes "distinct (map node_key ns)"
  shows "(case topological_order (new_chain ns) of
      Inr ord \<Rightarrow> set ord = set ns \<and> length ord = length ns \<and>
        (\<forall>pre n post. ord = pre @ n # post \<longrightarrow> set (nd_upstream n) \<subseteq> node_key ` set pre)
    | Inl e \<Rightarrow> (\<exists>n \<in> set ns. \<exists>u \<in> set (nd_upstream n). u \<notin> node_key ` set ns \<and> e = unknown_upstream u) \<or>
        (\<exists>k. (k, k) \<in> (edges (by_key ns))\<^sup>+ \<and> e = cycle_detected k)) \<and>
    ((\<exists>ord. topological_order (new_chain ns) = Inr ord) \<longleftrightarrow>
      (\<forall>n \<in> set ns. set (nd_upstream n) \<subseteq> node_key ` set ns) \<and> acyclic (edges (by_key ns)))"
proof (cases "topological_order (new_chain ns)")
  case (Inr ord)
  note ok = order_success [OF assms Inr]
  have before: "set (nd_upstream n) \<subseteq> node_key ` set pre" if "ord = pre @ n # post" for pre n post
    using ok(3) that by (auto simp: well_ordered_def)
  have "set (nd_upstream n) \<subseteq> node_key ` set ns" if n: "n \<in> set ns" for n
  proof -
    from n ok(1) obtain pre post where ord: "ord = pre @ n # post" by (metis split_list)
    then have "set pre \<subseteq> set ns" unfolding ok(1) [symmetric] by auto
    with before [OF ord] show ?thesis by blast
  qed
  moreover have "acyclic (edges (by_key ns))"
    using well_ordered_acyclic [OF ok(3)] map_of_by_key [OF assms] ok(1) by blast
  ultimately show ?thesis using Inr ok(1,2) before by simp
next
  case (Inl e)
  with order_failure [OF assms Inl] show ?thesis by (auto simp: acyclic_def)
qed

definition plain_node :: "string \<Rightarrow> string list \<Rightarrow> gate list \<Rightarrow> evidence_node" where
  "plain_node k us gs = \<lparr>nd_phase_id = k, nd_inputs = [], nd_outputs = [], nd_gates = gs, nd_decision = '''',
     nd_node_id = '''', nd_upstream = us, nd_input_hashes = []\<rparr>"

theorem evidence_order_correct_witness:
  "\<exists>ord. topological_order (new_chain [plain_node ''b'' [''a''] [], plain_node ''a'' [] []]) = Inr ord \<and>
     set ord = {plain_node ''b'' [''a''] [], plain_node ''a'' [] []}"
proof -
  have "distinct (map node_key [plain_node ''b'' [''a''] [], plain_node ''a'' [] []])"
    by (simp add: plain_node_def node_key_def)
  note ok = evidence_order_correct [OF this]
  have "topological_order (new_chain [plain_node ''b'' [''a''] [], plain_node ''a'' [] []]) =
      Inr [plain_node ''a'' [] [], plain_node ''b'' [''a''] []]"
    by (simp add: topological_order_def new_chain_def by_key_def dict_set_def plain_node_def node_key_def
        upstream_node_def dict_get_def)
  with ok show ?thesis by auto
qed

section \<open>The reports\<close>

definition gate_holds :: "json pydict \<Rightarrow> gate \<Rightarrow> bool" where
  "gate_holds ctx g \<longleftrightarrow> ga_check g ctx = Inr True"

definition gate_names_ok :: "evidence_node \<Rightarrow> bool" where
  "gate_names_ok n \<longleftrightarrow> distinct (''upstream'' # map ga_name (nd_gates n))"

definition gate_value :: "json pydict \<Rightarrow> gate \<Rightarrow> bool" where
  "gate_value ctx g = (case ga_check g ctx of Inl _ \<Rightarrow> False | Inr b \<Rightarrow> b)"

lemma gate_value_holds: "gate_value ctx g \<longleftrightarrow> gate_holds ctx g"
  by (auto simp: gate_value_def gate_holds_def split: sum.splits)

lemma run_gates_eq:
  "gate_names_ok n \<Longrightarrow> run_gates n ctx = map (\<lambda>g. (ga_name g, gate_value ctx g)) (nd_gates n)"
  using dict_sets_fresh [of "[]" ga_name "nd_gates n" "gate_value ctx"]
  by (simp add: run_gates_def gate_names_ok_def gate_value_def)

lemma with_upstream_eq:
  "distinct (''upstream'' # map fst res) \<Longrightarrow> with_upstream up res = (''upstream'', up) # res"
  using dict_sets_fresh [of "[(''upstream'', up)]" fst res snd] by (simp add: with_upstream_def case_prod_unfold)

definition node_report :: "evidence_node \<Rightarrow> json pydict \<Rightarrow> bool \<Rightarrow> evidence_report" where
  "node_report n ctx up = emit_report n
     (if nd_inputs n \<noteq> [] \<or> nd_upstream n \<noteq> [] then with_upstream up (run_gates n ctx) else run_gates n ctx)"

lemma node_report_passed:
  assumes "gate_names_ok n" "nd_inputs n = [] \<and> nd_upstream n = [] \<Longrightarrow> up"
  shows "er_passed (node_report n ctx up) \<longleftrightarrow> up \<and> (\<forall>g \<in> set (nd_gates n). gate_holds ctx g)"
proof -
  have "distinct (''upstream'' # map fst (run_gates n ctx))"
    using assms(1) by (simp add: run_gates_eq [OF assms(1)] gate_names_ok_def comp_def)
  from with_upstream_eq [OF this, of up] show ?thesis using assms(2)
    by (auto simp: node_report_def emit_report_def Let_def run_gates_eq [OF assms(1)] filter_empty_conv gate_value_holds)
qed

text \<open>What one pass over a list of nodes leaves, when every node's upstream reports are there before it.\<close>

lemma run_nodes_reports:
  assumes "run_nodes fs h ctxs ns R ch = Inr (R', ch')" "\<forall>k. dict_get R k = dict_get (ch_last_reports ch) k"
    and "distinct (map node_key ns)"
    and "\<forall>pre n post. ns = pre @ n # post \<longrightarrow>
      (\<forall>u \<in> set (nd_upstream n). u \<in> node_key ` set pre \<or> (dict_get R u \<noteq> None \<and> u \<notin> node_key ` set ns))"
  shows "(\<forall>k. k \<notin> node_key ` set ns \<longrightarrow> dict_get R' k = dict_get R k) \<and>
    (\<forall>n \<in> set ns. \<exists>ok. verify_inputs fs h n (nd_inputs n) = Inr ok \<and>
       dict_get R' (node_key n) = Some (node_report n (context_of ctxs n)
         (ok \<and> (\<forall>u \<in> set (nd_upstream n). \<exists>r. dict_get R' u = Some r \<and> er_passed r))))"
  using assms
proof (induction ns arbitrary: R ch)
  case (Cons n ns)
  let ?ctx = "context_of ctxs n"
  from Cons.prems(1) obtain ok where ok: "verify_inputs fs h n (nd_inputs n) = Inr ok"
    by (auto simp: run_node_def verify_upstream_def split: sum.splits)
  define up where "up \<longleftrightarrow> ok \<and> list_all (\<lambda>u. case dict_get (ch_last_reports ch) u of None \<Rightarrow> True | Some r \<Rightarrow> er_passed r) (nd_upstream n)"
  let ?r = "node_report n ?ctx up"
  let ?R1 = "dict_set (node_key n) ?r R"
  let ?ch1 = "ch\<lparr>ch_last_reports := dict_set (node_key n) ?r (ch_last_reports ch)\<rparr>"
  from Cons.prems(1) ok have rest: "run_nodes fs h ctxs ns ?R1 ?ch1 = Inr (R', ch')"
    by (simp add: run_node_def verify_upstream_def node_report_def up_def Let_def)
  have fresh: "node_key n \<notin> node_key ` set ns" using Cons.prems(3) by simp
  have before: "\<forall>u \<in> set (nd_upstream n). dict_get R u \<noteq> None \<and> u \<notin> insert (node_key n) (node_key ` set ns)"
    using Cons.prems(4) [rule_format, of "[]" n ns] by auto
  have "\<forall>pre m post. ns = pre @ m # post \<longrightarrow>
      (\<forall>u \<in> set (nd_upstream m). u \<in> node_key ` set pre \<or> (dict_get ?R1 u \<noteq> None \<and> u \<notin> node_key ` set ns))"
  proof (intro allI impI ballI)
    fix pre m post u assume "ns = pre @ m # post" "u \<in> set (nd_upstream m)"
    with Cons.prems(4) [rule_format, of "n # pre" m post u] fresh
    show "u \<in> node_key ` set pre \<or> (dict_get ?R1 u \<noteq> None \<and> u \<notin> node_key ` set ns)" by auto
  qed
  from Cons.IH [OF rest _ _ this] Cons.prems(2,3)
  have IH: "\<forall>k. k \<notin> node_key ` set ns \<longrightarrow> dict_get R' k = dict_get ?R1 k"
    "\<forall>n \<in> set ns. \<exists>ok. verify_inputs fs h n (nd_inputs n) = Inr ok \<and>
       dict_get R' (node_key n) = Some (node_report n (context_of ctxs n)
         (ok \<and> (\<forall>u \<in> set (nd_upstream n). \<exists>r. dict_get R' u = Some r \<and> er_passed r)))" by auto
  have "up \<longleftrightarrow> ok \<and> (\<forall>u \<in> set (nd_upstream n). \<exists>r. dict_get R' u = Some r \<and> er_passed r)"
    using before IH(1) Cons.prems(2) by (force simp: up_def list_all_iff split: option.splits)
  with IH ok fresh show ?case by auto
qed simp

definition input_intact :: "(string \<Rightarrow> fs_entry option) \<Rightarrow> (string \<Rightarrow> string) \<Rightarrow> evidence_node \<Rightarrow> string \<Rightarrow> bool" where
  "input_intact fs h n p \<longleftrightarrow> fs p \<noteq> None \<and>
     (\<forall>e. input_hash n p = Some e \<and> e \<noteq> [] \<longrightarrow> sha256_file fs h p = Inr e)"

lemma verify_inputs_iff:
  "verify_inputs fs h n ps = Inr ok \<Longrightarrow> ok \<longleftrightarrow> (\<forall>p \<in> set ps. input_intact fs h n p)"
  by (induction ps) (auto simp: input_intact_def split: if_splits option.splits sum.splits)

abbreviation report_passes :: "evidence_report pydict \<Rightarrow> string \<Rightarrow> bool" where
  "report_passes reports k \<equiv> \<exists>r. dict_get reports k = Some r \<and> er_passed r"

lemma run_all_verdict:
  assumes "distinct (map node_key ns)" "\<forall>n \<in> set ns. gate_names_ok n"
    and "run_all fs h ctxs (new_chain ns) = Inr (reports, ch)" "n \<in> set ns"
  shows "\<exists>r. dict_get reports (node_key n) = Some r \<and>
      (er_passed r \<longleftrightarrow> (\<forall>g \<in> set (nd_gates n). gate_holds (context_of ctxs n) g) \<and>
         (\<forall>p \<in> set (nd_inputs n). input_intact fs h n p) \<and> (\<forall>u \<in> set (nd_upstream n). report_passes reports u))"
proof -
  from assms(3) obtain ord where ord: "topological_order (new_chain ns) = Inr ord"
    and run: "run_nodes fs h ctxs ord [] (new_chain ns) = Inr (reports, ch)"
    by (auto simp: run_all_def split: sum.splits)
  note ok = order_success [OF assms(1) ord]
  have "distinct (map node_key ord)" using ok(3) by (simp add: well_ordered_def)
  from run_nodes_reports [OF run _ this] ok assms(4) obtain b where b: "verify_inputs fs h n (nd_inputs n) = Inr b" and
    r: "dict_get reports (node_key n) = Some (node_report n (context_of ctxs n)
         (b \<and> (\<forall>u \<in> set (nd_upstream n). report_passes reports u)))"
    by (auto simp: new_chain_def well_ordered_def)
  have "nd_inputs n = [] \<and> nd_upstream n = [] \<Longrightarrow> b \<and> (\<forall>u \<in> set (nd_upstream n). report_passes reports u)" using b by auto
  from node_report_passed [OF _ this] assms(2,4) r verify_inputs_iff [OF b] show ?thesis by auto
qed

lemma run_all_ancestors:
  assumes "distinct (map node_key ns)" "\<forall>n \<in> set ns. gate_names_ok n"
    and "run_all fs h ctxs (new_chain ns) = Inr (reports, ch)"
    and "(k, j) \<in> (edges (by_key ns))\<^sup>+" "report_passes reports j"
  shows "report_passes reports k"
proof -
  have step: "report_passes reports k" if "(k, i) \<in> edges (by_key ns)" "report_passes reports i" for k i
  proof -
    from that(1) obtain n where "n \<in> set ns" "node_key n = i" "k \<in> set (nd_upstream n)"
      using map_of_by_key [OF assms(1)] by (auto simp: edges_def)
    with run_all_verdict [OF assms(1-3), of n] that(2) show ?thesis by auto
  qed
  from assms(4,5) show ?thesis by (induction rule: converse_trancl_induct) (auto dest: step)
qed

text \<open>
  C23: evidence cannot pass on broken ground. Run a chain whose keys are distinct and whose gates have distinct
  names other than \<open>upstream\<close>: every node gets a report, and it passes exactly when every gate of the node holds
  on its context (a gate that raises does not), every input file is there with the recorded hash, if one is
  recorded, and the report of every upstream node passes. So a passed node has only passed nodes among all
  those it depends on, directly or not.
\<close>

theorem chain_passes_iff:
  assumes "distinct (map node_key ns)" "\<forall>n \<in> set ns. gate_names_ok n"
    and "run_all fs h ctxs (new_chain ns) = Inr (reports, ch)"
  shows "\<forall>n \<in> set ns. \<exists>r. dict_get reports (node_key n) = Some r \<and>
      (er_passed r \<longleftrightarrow>
         (\<forall>g \<in> set (nd_gates n). gate_holds (context_of ctxs n) g) \<and>
         (\<forall>p \<in> set (nd_inputs n). input_intact fs h n p) \<and>
         (\<forall>u \<in> set (nd_upstream n). report_passes reports u)) \<and>
      (er_passed r \<longrightarrow> (\<forall>k. (k, node_key n) \<in> (edges (by_key ns))\<^sup>+ \<longrightarrow>
         report_passes reports k))"
proof
  fix n assume n: "n \<in> set ns"
  from run_all_verdict [OF assms n] obtain r where r: "dict_get reports (node_key n) = Some r"
    "er_passed r \<longleftrightarrow> (\<forall>g \<in> set (nd_gates n). gate_holds (context_of ctxs n) g) \<and>
       (\<forall>p \<in> set (nd_inputs n). input_intact fs h n p) \<and> (\<forall>u \<in> set (nd_upstream n). report_passes reports u)" by blast
  with run_all_ancestors [OF assms] show "\<exists>r. dict_get reports (node_key n) = Some r \<and>
      (er_passed r \<longleftrightarrow> (\<forall>g \<in> set (nd_gates n). gate_holds (context_of ctxs n) g) \<and>
         (\<forall>p \<in> set (nd_inputs n). input_intact fs h n p) \<and> (\<forall>u \<in> set (nd_upstream n). report_passes reports u)) \<and>
      (er_passed r \<longrightarrow> (\<forall>k. (k, node_key n) \<in> (edges (by_key ns))\<^sup>+ \<longrightarrow> report_passes reports k))" by auto
qed

definition demo_chain :: "bool \<Rightarrow> evidence_node list" where
  "demo_chain b = [plain_node ''b'' [''a''] [], plain_node ''a'' [] [\<lparr>ga_name = ''g'', ga_check = (\<lambda>_. Inr b), ga_description = ''''\<rparr>]]"

theorem chain_passes_iff_witness:
  "\<exists>reports ch. run_all (\<lambda>_. None) id [] (new_chain (demo_chain False)) = Inr (reports, ch) \<and>
     \<not> er_passed (the (dict_get reports ''b''))"
proof -
  obtain reports ch where run: "run_all (\<lambda>_. None) id [] (new_chain (demo_chain False)) = Inr (reports, ch)"
    by (simp add: run_all_def topological_order_def new_chain_def by_key_def dict_set_def plain_node_def node_key_def
        upstream_node_def dict_get_def demo_chain_def run_node_def verify_upstream_def Let_def)
  have "distinct (map node_key (demo_chain False))" "\<forall>n \<in> set (demo_chain False). gate_names_ok n"
    by (simp_all add: demo_chain_def plain_node_def node_key_def gate_names_ok_def)
  from chain_passes_iff [OF this run] have "\<not> er_passed (the (dict_get reports ''b''))"
    by (auto simp: demo_chain_def plain_node_def node_key_def gate_holds_def)
  with run show ?thesis by blast
qed

text \<open>A gate called \<open>upstream\<close> takes the place of the upstream check.\<close>

theorem upstream_gate_masks:
  assumes "nd_gates n = [\<lparr>ga_name = ''upstream'', ga_check = (\<lambda>_. Inr True), ga_description = t\<rparr>]"
    and "run_node fs h n ctx ch = Inr (r, ch')"
  shows "er_passed r"
  using assms by (auto simp: run_node_def run_gates_def with_upstream_def emit_report_def Let_def dict_set_def
      split: sum.splits)

theorem upstream_gate_masks_witness:
  "\<exists>r ch. run_node (\<lambda>_. None) id ((plain_node ''n'' [] [\<lparr>ga_name = ''upstream'', ga_check = (\<lambda>_. Inr True), ga_description = ''''\<rparr>])\<lparr>nd_inputs := [''missing'']\<rparr>)
     [] (new_chain []) = Inr (r, ch) \<and> er_passed r"
proof -
  let ?n = "(plain_node ''n'' [] [\<lparr>ga_name = ''upstream'', ga_check = (\<lambda>_. Inr True), ga_description = ''''\<rparr>])\<lparr>nd_inputs := [''missing'']\<rparr>"
  obtain r ch where run: "run_node (\<lambda>_. None) id ?n [] (new_chain []) = Inr (r, ch)"
    by (simp add: run_node_def verify_upstream_def plain_node_def Let_def)
  have "nd_gates ?n = [\<lparr>ga_name = ''upstream'', ga_check = (\<lambda>_. Inr True), ga_description = ''''\<rparr>]"
    by (simp add: plain_node_def)
  from upstream_gate_masks [OF this run] run show ?thesis by blast
qed

end
