(* ===== verification/Evidence_Gates.thy ===== *)
theory Evidence_Gates
  imports Evidence_Chain Py_Lines
begin

text \<open>
  The standard gates, \<open>packages/clinic/src/wutai_clinic/evidence/registry.py\<close>: no raw payload, no secret,
  matching hash, matching counts, a decision boundary. \<open>fs\<close> and \<open>h\<close> are the file system and SHA-256 of
  \<open>Evidence_Chain\<close>, \<open>rp\<close> is \<open>repr\<close> on containers. The two secret patterns are written out
  as recognisers.
\<close>

section \<open>Model\<close>

definition RAW_PAYLOAD_KEYS :: "string list" where
  "RAW_PAYLOAD_KEYS = [''action'', ''content'', ''gated_response'', ''history'', ''messages'', ''observation'', ''prompt'',
     ''query'', ''raw_response'', ''response'', ''system_prompt'', ''thought'', ''trajectory'']"

text \<open>\<open>(?<![A-Za-z0-9_])sk-[A-Za-z0-9_-]{16,}\<close>; the flag says whether the character before is a word character.\<close>

fun has_sk_key :: "bool \<Rightarrow> string \<Rightarrow> bool" where
  "has_sk_key prev [] \<longleftrightarrow> False"
| "has_sk_key prev (c # cs) \<longleftrightarrow>
     (\<not> prev \<and> starts_with ''sk-'' (c # cs) \<and>
        16 \<le> length (takeWhile (\<lambda>x. word_char x \<or> x = CHR ''-'') (drop 2 cs))) \<or>
     has_sk_key (word_char c) cs"

text \<open>\<open>\s*[:=]\s*[A-Za-z0-9_.-]{8,}\<close> at the start of a text\<close>

definition assigned_literal :: "string \<Rightarrow> bool" where
  "assigned_literal s =
     (case lstrip s of
        [] \<Rightarrow> False
      | c # cs \<Rightarrow> c \<in> {CHR '':'', CHR ''=''} \<and>
          8 \<le> length (takeWhile (\<lambda>x. word_char x \<or> x \<in> {CHR ''.'', CHR ''-''}) (lstrip cs)))"

text \<open>\<open>(?i)(api[_-]?key|token|secret)\<close> followed by an assigned literal\<close>

definition secret_words :: "string list" where
  "secret_words = [''api_key'', ''api-key'', ''apikey'', ''token'', ''secret'']"

fun has_assignment :: "string \<Rightarrow> bool" where
  "has_assignment [] \<longleftrightarrow> False"
| "has_assignment (c # cs) \<longleftrightarrow>
     (\<exists>w \<in> set secret_words. starts_with w (lower (c # cs)) \<and> assigned_literal (drop (length w) (c # cs))) \<or>
     has_assignment cs"

definition matches_secret :: "string \<Rightarrow> bool" where
  "matches_secret s \<longleftrightarrow> has_sk_key False s \<or> has_assignment s"

fun contains_raw_payload :: "json \<Rightarrow> bool" where
  "contains_raw_payload (JObj kvs) \<longleftrightarrow>
     (\<exists>kv \<in> set kvs. fst kv \<in> set RAW_PAYLOAD_KEYS) \<or>
     list_ex snd (map (\<lambda>(k, v). (k, contains_raw_payload v)) kvs)"
| "contains_raw_payload (JList xs) \<longleftrightarrow> list_ex id (map contains_raw_payload xs)"
| "contains_raw_payload _ \<longleftrightarrow> False"

fun contains_secret_literal :: "json \<Rightarrow> bool" where
  "contains_secret_literal (JObj kvs) \<longleftrightarrow> list_ex snd (map (\<lambda>(k, v). (k, contains_secret_literal v)) kvs)"
| "contains_secret_literal (JList xs) \<longleftrightarrow> list_ex id (map contains_secret_literal xs)"
| "contains_secret_literal (JStr s) \<longleftrightarrow> matches_secret s"
| "contains_secret_literal _ \<longleftrightarrow> False"

definition no_raw_payload :: gate_function where
  "no_raw_payload ctx = Inr (\<not> contains_raw_payload (JObj ctx))"

definition no_secret_literal :: gate_function where
  "no_secret_literal ctx = Inr (\<not> contains_secret_literal (JObj ctx))"

definition get_or :: "json pydict \<Rightarrow> string \<Rightarrow> json \<Rightarrow> json" where
  "get_or ctx k d = (case dict_get ctx k of Some v \<Rightarrow> v | None \<Rightarrow> d)"

definition sha256_match :: "(string \<Rightarrow> fs_entry option) \<Rightarrow> (string \<Rightarrow> string) \<Rightarrow> (json \<Rightarrow> string) \<Rightarrow> gate_function" where
  "sha256_match fs h rp ctx =
     (let p = as_posix (json_text rp (get_or ctx ''path'' (JStr [])));
          expected = json_text rp (get_or ctx ''sha256'' (JStr []))
      in if fs p = None \<or> expected = [] then Inr False
         else and_then (sha256_file fs h p) (\<lambda>d. Inr (d = expected)))"

definition count_match :: gate_function where
  "count_match ctx =
     (let expected = get_or ctx ''expected_count'' JNull; actual = get_or ctx ''actual_count'' JNull
      in if expected = JNull \<or> actual = JNull then Inr False
         else and_then (json_int py_int expected) (\<lambda>e. and_then (json_int py_int actual) (\<lambda>a. Inr (e = a))))"

definition decision_boundary :: gate_function where
  "decision_boundary ctx = Inr (json_truthy (json_or (get_or ctx ''claim_boundary'' JNull) (get_or ctx ''decision'' JNull)))"

text \<open>The module's table of gates, which \<open>register_gate\<close> updates.\<close>

definition STANDARD_GATES :: "(string \<Rightarrow> fs_entry option) \<Rightarrow> (string \<Rightarrow> string) \<Rightarrow> (json \<Rightarrow> string) \<Rightarrow> gate_function pydict" where
  "STANDARD_GATES fs h rp = [(''no_raw_payload'', no_raw_payload), (''no_secret_literal'', no_secret_literal),
     (''sha256_match'', sha256_match fs h rp), (''count_match'', count_match), (''decision_boundary'', decision_boundary)]"

definition get_gate :: "gate_function pydict \<Rightarrow> string \<Rightarrow> pyexn + gate_function" where
  "get_gate table name = (case dict_get table name of Some g \<Rightarrow> Inr g | None \<Rightarrow> Inl (KeyError name))"

definition register_gate :: "string \<Rightarrow> gate_function \<Rightarrow> gate_function pydict \<Rightarrow> gate_function pydict" where
  "register_gate name g table = dict_set name g table"

section \<open>What the gates decide\<close>

lemma list_ex_values: "list_ex snd (map (\<lambda>(k, v). (k, P v)) kvs) \<longleftrightarrow> (\<exists>kv \<in> set kvs. P (snd kv))"
  by (induction kvs) auto

lemma Bex_fst: "(\<exists>kv \<in> A. P (fst kv)) \<longleftrightarrow> (\<exists>k v. (k, v) \<in> A \<and> P k)"
  by (metis fst_conv prod.collapse)

lemma Bex_snd: "(\<exists>kv \<in> A. P (snd kv)) \<longleftrightarrow> (\<exists>k v. (k, v) \<in> A \<and> P v)"
  by (metis snd_conv prod.collapse)

lemma raw_payload_iff: "contains_raw_payload j \<longleftrightarrow> (\<exists>k \<in> set RAW_PAYLOAD_KEYS. key_inside k j)"
proof (induction j rule: json_tree_induct)
  case (JObj kvs)
  then show ?case
    unfolding contains_raw_payload.simps list_ex_values key_inside_simps
      Bex_fst [where P = "\<lambda>k. k \<in> set RAW_PAYLOAD_KEYS"] Bex_snd by blast
next
  case (JList xs)
  then show ?case by (auto simp: list_ex_iff)
qed auto

lemma secret_literal_iff: "contains_secret_literal j \<longleftrightarrow> (\<exists>s. text_inside s j \<and> matches_secret s)"
proof (induction j rule: json_tree_induct)
  case (JObj kvs)
  then show ?case
    unfolding contains_secret_literal.simps list_ex_values text_inside_simps(6) Bex_snd by blast
next
  case (JList xs)
  then show ?case by (auto simp: list_ex_iff)
qed auto

text \<open>A secret literal contains one of the marks the patterns look for.\<close>

lemma starts_with_subset: "starts_with p s \<Longrightarrow> set p \<subseteq> set s"
  unfolding starts_with_def by (metis set_take_subset)

lemma has_sk_key_mark: "has_sk_key prev s \<Longrightarrow> CHR ''-'' \<in> set s"
proof (induction prev s rule: has_sk_key.induct)
  case (2 prev c cs)
  then show ?case using starts_with_subset [of "''sk-''" "c # cs"] by auto
qed simp

lemma assigned_literal_mark: "assigned_literal s \<Longrightarrow> CHR '':'' \<in> set s \<or> CHR ''='' \<in> set s"
proof -
  have "set (lstrip s) \<subseteq> set s" by (auto simp: lstrip_def dest: set_dropWhileD)
  then show "assigned_literal s \<Longrightarrow> CHR '':'' \<in> set s \<or> CHR ''='' \<in> set s"
    by (cases "lstrip s") (auto simp: assigned_literal_def)
qed

lemma has_assignment_mark: "has_assignment s \<Longrightarrow> CHR '':'' \<in> set s \<or> CHR ''='' \<in> set s"
proof (induction s)
  case (Cons c cs)
  then show ?case using assigned_literal_mark in_set_dropD by fastforce
qed simp

lemma secret_needs_mark: "matches_secret s \<Longrightarrow> CHR ''-'' \<in> set s \<or> CHR '':'' \<in> set s \<or> CHR ''='' \<in> set s"
  using has_sk_key_mark has_assignment_mark by (auto simp: matches_secret_def)

end
