(* ===== verification/Evidence_Report.thy ===== *)
theory Evidence_Report
  imports Evidence_Chain
begin

text \<open>
  Reports, \<open>packages/clinic/src/wutai_clinic/io/report.py\<close>: every evidence writer of the clinic turns its
  gates into such a dictionary. \<open>now\<close> is the clock's text; listing artifacts with their hashes is file access
  and not modelled.
\<close>

definition gates_json :: "bool pydict \<Rightarrow> json" where
  "gates_json gates = JObj (map (\<lambda>(k, b). (k, JBool b)) gates)"

definition blocking_failures :: "bool pydict \<Rightarrow> string list" where
  "blocking_failures gates = map fst (filter (\<lambda>(name, passed). \<not> passed) gates)"

definition dict_update :: "json pydict \<Rightarrow> json pydict \<Rightarrow> json pydict" where
  "dict_update d extra = foldl (\<lambda>d (k, v). dict_set k v d) d extra"

definition str_or_empty :: "string option \<Rightarrow> json" where
  "str_or_empty s = JStr (case s of Some t \<Rightarrow> t | None \<Rightarrow> [])"

definition str_list :: "string list \<Rightarrow> json" where
  "str_list xs = JList (map JStr xs)"

definition generate_report :: "string \<Rightarrow> string option \<Rightarrow> string option \<Rightarrow> bool pydict \<Rightarrow> json pydict \<Rightarrow>
    evidence_node option \<Rightarrow> json pydict" where
  "generate_report now phase decision gates extras node =
     (let phase1 = (case node of Some n \<Rightarrow> Some (nd_phase_id n) | None \<Rightarrow> phase);
          decision1 = (case node of Some n \<Rightarrow> (if decision = None then Some (nd_decision n) else decision) | None \<Rightarrow> decision);
          blocking = blocking_failures gates;
          report = [(''phase'', str_or_empty phase1), (''decision'', str_or_empty decision1), (''generated_at'', JStr now),
            (''gates'', gates_json gates), (''passed'', JBool (blocking = [])),
            (''blocking_failures'', str_list blocking)];
          report1 = (case node of None \<Rightarrow> report
            | Some n \<Rightarrow> dict_update report [(''node_id'', JStr (node_key n)),
                (''inputs'', str_list (nd_inputs n)), (''outputs'', str_list (nd_outputs n))])
      in dict_update report1 extras)"

definition generate_manifest :: "string \<Rightarrow> string option \<Rightarrow> json pydict \<Rightarrow> json list \<Rightarrow> json pydict" where
  "generate_manifest now phase report artifacts =
     [(''phase'', str_or_empty phase), (''generated_at'', JStr now),
      (''decision'', (case dict_get report ''decision'' of Some d \<Rightarrow> d | None \<Rightarrow> JStr [])),
      (''passed'', (case dict_get report ''passed'' of Some b \<Rightarrow> b | None \<Rightarrow> JNull)),
      (''artifacts'', JList artifacts)]"

lemma dict_get_update:
  "k \<notin> fst ` set extra \<Longrightarrow> dict_get (dict_update d extra) k = dict_get d k"
  unfolding dict_update_def by (induction extra arbitrary: d) auto

lemma dict_get_update_in:
  "distinct (map fst extra) \<Longrightarrow> (k, v) \<in> set extra \<Longrightarrow> dict_get (dict_update d extra) k = Some v"
proof (induction extra arbitrary: d)
  case (Cons e es)
  obtain k' v' where e: "e = (k', v')" by fastforce
  have step: "dict_update d (e # es) = dict_update (dict_set k' v' d) es" by (simp add: dict_update_def e)
  show ?case
  proof (cases "(k, v) = (k', v')")
    case True
    then have "k \<notin> fst ` set es" using Cons.prems(1) e by auto
    then show ?thesis using True step by (simp add: dict_get_update)
  next
    case False
    then have "(k, v) \<in> set es" using Cons.prems(2) e by auto
    then show ?thesis using Cons.IH Cons.prems(1) step by simp
  qed
qed simp

lemma report_extra:
  assumes "distinct (map fst extras)" "(k, v) \<in> set extras"
  shows "dict_get (generate_report now phase decision gates extras None) k = Some v"
  using dict_get_update_in [OF assms] by (simp add: generate_report_def Let_def)

text \<open>What a report says, as long as the extra entries do not name a standard field.\<close>

lemma report_fields:
  assumes "\<forall>k \<in> fst ` set extras. k \<notin> {''decision'', ''gates'', ''passed'', ''blocking_failures''}"
  shows "dict_get (generate_report now phase (Some decision) gates extras None) ''decision'' = Some (JStr decision)"
    "dict_get (generate_report now phase (Some decision) gates extras None) ''gates'' = Some (gates_json gates)"
    "dict_get (generate_report now phase (Some decision) gates extras None) ''passed'' =
       Some (JBool (\<forall>g \<in> set gates. snd g))"
proof -
  have "blocking_failures gates = [] \<longleftrightarrow> (\<forall>g \<in> set gates. snd g)"
    by (auto simp: blocking_failures_def filter_empty_conv)
  moreover have "''decision'' \<notin> fst ` set extras" "''gates'' \<notin> fst ` set extras" "''passed'' \<notin> fst ` set extras"
    using assms by blast+
  ultimately show "dict_get (generate_report now phase (Some decision) gates extras None) ''decision'' = Some (JStr decision)"
    "dict_get (generate_report now phase (Some decision) gates extras None) ''gates'' = Some (gates_json gates)"
    "dict_get (generate_report now phase (Some decision) gates extras None) ''passed'' = Some (JBool (\<forall>g \<in> set gates. snd g))"
    by (simp_all add: generate_report_def Let_def dict_get_update str_or_empty_def) (simp_all add: dict_get_def)
qed

section \<open>Reports that decide by their gates\<close>

text \<open>
  The contract most evidence writers share: the decision is the blocking one exactly when some gate fails. Then
  the report's \<open>passed\<close> field, its blocking failures and its decision say the same.
\<close>

locale gated_report =
  fixes gates :: "'i \<Rightarrow> bool pydict"
    and decide :: "'i \<Rightarrow> string"
    and blocked :: string
  assumes blocked_iff: "decide x = blocked \<longleftrightarrow> \<not> list_all snd (gates x)"
begin

lemma blocking_iff: "decide x = blocked \<longleftrightarrow> blocking_failures (gates x) \<noteq> []"
  unfolding blocked_iff by (force simp: blocking_failures_def filter_empty_conv list_all_iff)

lemma passed_iff:
  assumes "\<forall>k \<in> fst ` set extras. k \<notin> {''decision'', ''gates'', ''passed'', ''blocking_failures''}"
  shows "dict_get (generate_report now phase (Some (decide x)) (gates x) extras None) ''decision'' = Some (JStr (decide x)) \<and>
    dict_get (generate_report now phase (Some (decide x)) (gates x) extras None) ''passed'' = Some (JBool (decide x \<noteq> blocked))"
  using report_fields [OF assms] blocked_iff by (simp add: list_all_iff)

end

end
