(* ===== verification/Route_B1_Plan.thy ===== *)
theory Route_B1_Plan
  imports Route_B1 Evidence_Gates Evidence_Report
begin

text \<open>
  The offline writers of Route B, \<open>packages/clinic/src/wutai_clinic/intervention/route_b1.py\<close>: the per-anchor
  plan and its report, and the contract-level leak preflight. Preregistration manifests and plan rows are
  dictionaries; writing and reading the files is not modelled.
\<close>

section \<open>The plan\<close>

definition EXPECTED_PREREG_STATUS :: string where
  "EXPECTED_PREREG_STATUS = ''route_b1_probe_preregistered_live_execution_not_authorized''"

definition ROUTE_B1_PLAN_PHASE :: string where "ROUTE_B1_PLAN_PHASE = ''route_b.b1_plan''"
definition ROUTE_B1_ANTILEAK_PHASE :: string where "ROUTE_B1_ANTILEAK_PHASE = ''route_b.b1_antileak''"
definition ROUTE_B1_VERSION :: string where "ROUTE_B1_VERSION = ''route_b1_repro_first_v1''"

definition anchor_plan_row :: "int \<Rightarrow> protocol_b1 \<Rightarrow> nat \<times> json \<Rightarrow> json pydict" where
  "anchor_plan_row k p ra =
     [(''anchor_rank'', JInt (int (fst ra) + 1)),
      (''source_task_id'', snd ra),
      (''anchor_class'', JStr ''deterministic_fail_low_epsilon''),
      (''issue_repro_eligibility'', JStr ''pending_problem_statement_screen''),
      (''replay_free'', JBool True),
      (''reps_per_arm'', JInt k),
      (''arms'', JObj
        [(''control'', JObj [(''injects'', JBool False)]),
         (''treatment'', JObj
           [(''injects'', JBool True),
            (''info_kind'', JStr (ab_info_kind (pb_action p))),
            (''payload_field_contract'', texts (ab_payload_fields (pb_action p))),
            (''payload_provenance'', JStr (ab_payload_provenance (pb_action p))),
            (''injection_point'', JStr ''post_issue_repro_pre_patch''),
            (''max_injections'', JInt (gb_max_injections (pb_guard p)))])]),
      (''live_arm_authorized'', JBool False),
      (''official_eval_authorized'', JBool False)]"

definition anchor_plan_rows :: "json list \<Rightarrow> int \<Rightarrow> protocol_b1 \<Rightarrow> json pydict list" where
  "anchor_plan_rows anchors k p = map (anchor_plan_row k p) (enum anchors)"

text \<open>\<open>prereg_manifest.get("design") or {}\<close> and \<open>list(design.get("anchors") or [])\<close>\<close>

definition design_of :: "json pydict \<Rightarrow> json" where
  "design_of prereg = json_or (get_default prereg ''design'' JNull) (JObj [])"

definition manifest_anchors :: "json pydict \<Rightarrow> pyexn + json list" where
  "manifest_anchors prereg =
     and_then (json_get (design_of prereg) ''anchors'') (\<lambda>v. json_iter (json_or v (JList [])))"

text \<open>\<open>int(design.get("k_reps_per_arm") or 5)\<close>\<close>

definition manifest_reps :: "json pydict \<Rightarrow> pyexn + int" where
  "manifest_reps prereg =
     and_then (json_get (design_of prereg) ''k_reps_per_arm'') (\<lambda>v. json_int py_int (json_or v (JInt 5)))"

text \<open>\<open>all(int(row.get("reps_per_arm") or 0) > 0 for row in rows)\<close> and the sum of the cells\<close>

definition reps_of :: "json pydict \<Rightarrow> pyexn + int" where
  "reps_of row = json_int py_int (json_or (get_default row ''reps_per_arm'' JNull) (JInt 0))"

fun all_reps_positive :: "json pydict list \<Rightarrow> pyexn + bool" where
  "all_reps_positive [] = Inr True"
| "all_reps_positive (r # rs) = and_then (reps_of r) (\<lambda>n. if 0 < n then all_reps_positive rs else Inr False)"

fun cell_total :: "json pydict list \<Rightarrow> pyexn + int" where
  "cell_total [] = Inr 0"
| "cell_total (r # rs) = and_then (reps_of r) (\<lambda>n. and_then (cell_total rs) (\<lambda>m. Inr (2 * n + m)))"

definition rows_json :: "json pydict list \<Rightarrow> json" where
  "rows_json rows = JList (map JObj rows)"

definition route_b1_plan_report :: "string \<Rightarrow> (string \<Rightarrow> string) \<Rightarrow> json pydict \<Rightarrow> protocol_b1 \<Rightarrow> json pydict list \<Rightarrow>
    pyexn + json pydict" where
  "route_b1_plan_report now hash prereg p rows =
     and_then (manifest_anchors prereg) (\<lambda>anchors.
     and_then (sequence (map (\<lambda>r. get_item r ''source_task_id'') rows)) (\<lambda>plan_anchors.
     and_then (json_get (json_or (get_default prereg ''live_authorization'' JNull) (JObj [])) ''authorized'') (\<lambda>authorized.
     and_then (all_reps_positive rows) (\<lambda>reps_ok.
     let scannable = [(''protocol_runtime_visible'', runtime_visible p), (''anchor_rows'', rows_json rows)] in
     and_then (no_raw_payload scannable) (\<lambda>no_raw.
     and_then (no_secret_literal scannable) (\<lambda>no_secret.
     let g = pb_guard p;
         gates =
      [(''prereg_status_is_preregistered_not_authorized'', get_default prereg ''status'' JNull = JStr EXPECTED_PREREG_STATUS),
       (''prereg_blocks_live_authorization'', authorized = JBool False),
       (''anchors_present'', rows \<noteq> []),
       (''plan_anchors_match_prereg'', plan_anchors = anchors),
       (''protocol_is_replay_free'', gb_replay_free g),
       (''protocol_forbids_oracle_capsule'', \<not> gb_oracle_capsule_allowed g),
       (''protocol_forbidden_categories_cover_required'', list_all (\<lambda>c. c \<in> set (gb_forbidden g)) REQUIRED_FORBIDDEN_CATEGORIES),
       (''payload_provenance_is_issue_text_only'', ab_payload_provenance (pb_action p) = ISSUE_TEXT_ONLY),
       (''official_test_identity_in_forbidden_categories'', ''official_test_identity'' \<in> set (gb_forbidden g)),
       (''anchor_issue_repro_eligibility_pending_screen'', list_all (\<lambda>r.
          get_default r ''issue_repro_eligibility'' JNull = JStr ''pending_problem_statement_screen'') rows),
       (''k_reps_positive'', reps_ok),
       (''no_oracle_tokens_in_runtime_visible_plan'', find_oracle_tokens (JObj scannable) '''' = []),
       (''plan_has_no_raw_payload_keys'', no_raw),
       (''plan_has_no_secret_literals'', no_secret),
       (''uplift_claim_not_made'', \<not> gb_uplift_allowed g),
       (''runner_not_started'', True),
       (''model_call_not_started'', True),
       (''docker_or_official_eval_not_started'', True)] in
     and_then (if rows = [] then Inr (JInt 0) else get_item (hd rows) ''reps_per_arm'') (\<lambda>reps.
     and_then (cell_total rows) (\<lambda>cells.
     Inr (generate_report now (Some ROUTE_B1_PLAN_PHASE)
       (Some (if list_all snd gates then ''route_b1_plan_ready_live_execution_not_authorized'' else ''route_b1_plan_blocked''))
       gates
       [(''version'', JStr ROUTE_B1_VERSION),
        (''protocol_hash'', JStr (protocol_b1_hash hash p)),
        (''claim_boundary'', JStr (''Route B go/no-go probe. Offline plan only. Can declare futility (kill B) or '' @
           ''green-light the powered batch; never an uplift claim (B6 unchanged).'')),
        (''summary'', JObj
          [(''anchor_count'', JInt (int (length rows))), (''reps_per_arm'', reps), (''cells'', JInt cells),
           (''live_execution_authorized'', JBool False), (''official_eval_authorized'', JBool False)]),
        (''continuation_policy'', JObj
          [(''next_step'', JStr ''route_b1_antileak_preflight_then_explicit_ack_live''),
           (''allow_live_without_explicit_ack'', JBool False), (''allow_uplift_claim'', JBool False)])] None)))))))))"

text \<open>What the writer computes before it writes: the template protocol, the rows and the report.\<close>

definition route_b1_plan_evidence :: "string \<Rightarrow> (string \<Rightarrow> string) \<Rightarrow> (json \<Rightarrow> string) \<Rightarrow> json pydict \<Rightarrow>
    pyexn + (protocol_b1 \<times> json pydict list \<times> json pydict)" where
  "route_b1_plan_evidence now hash rp prereg =
     and_then (manifest_anchors prereg) (\<lambda>anchors.
     and_then (manifest_reps prereg) (\<lambda>k.
     and_then (protocol_b1_template rp py_int ''issue_text_reproduction'' default_predicates_b1) (\<lambda>p.
     let rows = anchor_plan_rows anchors k p in
     and_then (route_b1_plan_report now hash prereg p rows) (\<lambda>report. Inr (p, rows, report)))))"

section \<open>The leak preflight\<close>

text \<open>\<open>row.get("arms", {}).get("treatment", {}).get("payload_field_contract")\<close>\<close>

definition row_contract :: "json pydict \<Rightarrow> pyexn + json" where
  "row_contract row =
     and_then (json_get_default (get_default row ''arms'' (JObj [])) ''treatment'' (JObj [])) (\<lambda>t.
     json_get t ''payload_field_contract'')"

definition route_b1_antileak_report :: "string \<Rightarrow> (string \<Rightarrow> string) \<Rightarrow> protocol_b1 \<Rightarrow> json pydict list \<Rightarrow> json list \<Rightarrow>
    bool \<Rightarrow> pyexn + json pydict" where
  "route_b1_antileak_report now hash p rows gold_task_ids plan_dir_exists =
     and_then (sequence (map row_contract rows)) (\<lambda>contracts.
     and_then (sequence (map (\<lambda>r. get_item r ''source_task_id'') rows)) (\<lambda>plan_anchors.
     let visible = [(''protocol_runtime_visible'', runtime_visible p), (''anchor_payload_contracts'', JList contracts)] in
     and_then (no_raw_payload visible) (\<lambda>no_raw.
     and_then (no_secret_literal visible) (\<lambda>no_secret.
     let g = pb_guard p; provenance = ab_payload_provenance (pb_action p);
         gates =
      [(''protocol_forbids_oracle_capsule'', \<not> gb_oracle_capsule_allowed g),
       (''forbidden_categories_cover_required'', list_all (\<lambda>c. c \<in> set (gb_forbidden g)) REQUIRED_FORBIDDEN_CATEGORIES),
       (''payload_fields_are_deployable_whitelist_only'', ab_payload_fields (pb_action p) \<noteq> []),
       (''payload_provenance_issue_text_only'', provenance = ISSUE_TEXT_ONLY),
       (''no_official_test_identity_in_payload'',
          find_oracle_tokens (JObj [(''provenance'', JStr provenance), (''payload'', JObj visible)]) '''' = []),
       (''no_oracle_tokens_in_runtime_visible_payload'', find_oracle_tokens (JObj visible) '''' = []),
       (''no_raw_payload_keys'', no_raw),
       (''no_secret_literals'', no_secret),
       (''all_anchors_have_gold_for_live_content_diff'',
          gold_task_ids = [] \<or> list_all (\<lambda>a. a \<in> set gold_task_ids) plan_anchors),
       (''plan_dir_exists'', plan_dir_exists)] in
     Inr (generate_report now (Some ROUTE_B1_ANTILEAK_PHASE)
       (Some (if list_all snd gates then ''route_b1_antileak_passed_payload_contract_clean'' else ''route_b1_antileak_blocked''))
       gates
       [(''version'', JStr ROUTE_B1_VERSION),
        (''protocol_hash'', JStr (protocol_b1_hash hash p)),
        (''claim_boundary'', JStr (''M2 contract-level anti-oracle-leakage. Proves the B1 payload SCHEMA only admits '' @
           ''deployable fields and structurally forbids gold/oracle/official-eval. Per-rerun '' @
           ''CONTENT diff against gold is a LIVE-time gate, deferred until capture.'')),
        (''gold_available_for_live_content_diff'', JBool (gold_task_ids \<noteq> [])),
        (''content_diff_stage'', JStr ''deferred_to_live_capture''),
        (''anchor_count'', JInt (int (length rows)))] None)))))"

section \<open>Facts\<close>

lemma plan_rows_anchors: "sequence (map (\<lambda>r. get_item r ''source_task_id'') (anchor_plan_rows anchors k p)) = Inr anchors"
proof -
  have "map (\<lambda>r. get_item r ''source_task_id'') (anchor_plan_rows anchors k p) = map Inr (map snd (enum anchors))"
    by (simp add: anchor_plan_rows_def anchor_plan_row_def get_item_def dict_get_def)
  also have "map snd (enum anchors) = anchors" by (simp add: enum_def)
  finally show ?thesis by simp
qed

lemma plan_row_reps: "reps_of (anchor_plan_row k p ra) = Inr k"
  by (simp add: reps_of_def anchor_plan_row_def get_default_def dict_get_def json_or_def json_int_def)

lemma all_reps_plan: "all_reps_positive (anchor_plan_rows anchors k p) = Inr (anchors = [] \<or> 0 < k)"
proof -
  have "all_reps_positive (map (anchor_plan_row k p) xs) = Inr (xs = [] \<or> 0 < k)" for xs
    by (induction xs) (auto simp: plan_row_reps)
  then show ?thesis by (simp add: anchor_plan_rows_def enum_def)
qed

lemma cell_total_plan: "cell_total (anchor_plan_rows anchors k p) = Inr (2 * k * int (length anchors))"
proof -
  have "cell_total (map (anchor_plan_row k p) xs) = Inr (2 * k * int (length xs))" for xs
    by (induction xs) (auto simp: plan_row_reps algebra_simps)
  then show ?thesis by (simp add: anchor_plan_rows_def)
qed

text \<open>The texts of a plan: constants, and what the anchors say.\<close>

definition plan_texts :: "string list" where
  "plan_texts = [''deterministic_fail_low_epsilon'', ''pending_problem_statement_screen'', ''issue_text_reproduction'',
     ''issue_reproduction_steps'', ''issue_derived_repro_traceback'', ISSUE_TEXT_ONLY, ''post_issue_repro_pre_patch'',
     ''observational_non_oracular''] @ default_predicates_b1"

definition plan_keys :: "string list" where
  "plan_keys = [''anchor_rank'', ''source_task_id'', ''anchor_class'', ''issue_repro_eligibility'', ''replay_free'', ''reps_per_arm'',
     ''arms'', ''control'', ''injects'', ''treatment'', ''info_kind'', ''payload_field_contract'', ''payload_provenance'',
     ''injection_point'', ''max_injections'', ''live_arm_authorized'', ''official_eval_authorized'', ''trigger_view'', ''predicates'',
     ''injection_spec'', ''payload_fields'', ''prompt_style'', ''protocol_runtime_visible'', ''anchor_rows'']"

lemma plan_texts_harmless: "list_all (\<lambda>s. \<not> mentions DISALLOWED_ORACLE_TOKENS s \<and> \<not> matches_secret s) plan_texts"
proof -
  have "list_all (\<lambda>s. \<not> mentions DISALLOWED_ORACLE_TOKENS s) plan_texts" by code_simp
  moreover have "list_all (\<lambda>s. CHR ''-'' \<notin> set s \<and> CHR '':'' \<notin> set s \<and> CHR ''='' \<notin> set s) plan_texts"
    by (simp add: plan_texts_def default_predicates_b1_def ISSUE_TEXT_ONLY_def)
  ultimately show ?thesis using secret_needs_mark by (auto simp: list_all_iff)
qed

lemma plan_keys_harmless: "list_all (\<lambda>k. k \<notin> set RAW_PAYLOAD_KEYS) plan_keys"
  by code_simp

lemma row_texts:
  "text_inside s (JObj (anchor_plan_row k template_b1 ra)) \<Longrightarrow> text_inside s (snd ra) \<or> s \<in> set plan_texts"
  by (auto simp: anchor_plan_row_def template_b1_def plan_texts_def)

lemma visible_texts: "text_inside s (runtime_visible template_b1) \<Longrightarrow> s \<in> set plan_texts"
  by (auto simp: runtime_visible_def template_b1_def plan_texts_def)

lemma key_inside_Cons:
  "key_inside x (JObj ((k, v) # kvs)) \<longleftrightarrow> x = k \<or> key_inside x v \<or> key_inside x (JObj kvs)" "\<not> key_inside x (JObj [])"
  by auto

lemma key_inside_texts [simp]: "\<not> key_inside x (texts xs)"
  by (auto simp: texts_def)

lemmas key_inside_step = key_inside_Cons key_inside_simps(1-4) key_inside_texts

lemma row_keys: "key_inside x (JObj (anchor_plan_row k template_b1 ra)) \<Longrightarrow> key_inside x (snd ra) \<or> x \<in> set plan_keys"
  unfolding anchor_plan_row_def key_inside_step plan_keys_def by auto

lemma visible_keys: "key_inside x (runtime_visible template_b1) \<Longrightarrow> x \<in> set plan_keys"
  unfolding runtime_visible_def key_inside_step plan_keys_def by auto

abbreviation scanned :: "json list \<Rightarrow> int \<Rightarrow> json pydict" where
  "scanned anchors k \<equiv> [(''protocol_runtime_visible'', runtime_visible template_b1),
     (''anchor_rows'', rows_json (anchor_plan_rows anchors k template_b1))]"

lemma scanned_texts: "text_inside s (JObj (scanned anchors k)) \<Longrightarrow> (\<exists>a \<in> set anchors. text_inside s a) \<or> s \<in> set plan_texts"
  using set_enum_snd [of anchors]
  by (auto simp: rows_json_def anchor_plan_rows_def dest!: visible_texts row_texts)

lemma anchor_texts: "a \<in> set anchors \<Longrightarrow> text_inside s a \<Longrightarrow> text_inside s (JObj (scanned anchors k))"
proof -
  assume a: "a \<in> set anchors" "text_inside s a"
  then obtain ra where ra: "ra \<in> set (enum anchors)" "snd ra = a" using set_enum_snd [of anchors] by (metis imageE)
  then have "text_inside s (JObj (anchor_plan_row k template_b1 ra))" using a(2) by (simp add: anchor_plan_row_def)
  with ra(1) show ?thesis by (auto simp: rows_json_def anchor_plan_rows_def)
qed

lemma key_inside_rows: "key_inside x (rows_json (map f xs)) \<longleftrightarrow> (\<exists>y \<in> set xs. key_inside x (JObj (f y)))"
  by (auto simp: rows_json_def simp del: key_inside_simps(6))

lemma scanned_keys: "key_inside x (JObj (scanned anchors k)) \<Longrightarrow> (\<exists>a \<in> set anchors. key_inside x a) \<or> x \<in> set plan_keys"
proof -
  assume "key_inside x (JObj (scanned anchors k))"
  then consider "x = ''protocol_runtime_visible''" | "x = ''anchor_rows''" | "key_inside x (runtime_visible template_b1)"
    | ra where "ra \<in> set (enum anchors)" "key_inside x (JObj (anchor_plan_row k template_b1 ra))"
    using key_inside_Cons(2) unfolding key_inside_step anchor_plan_rows_def key_inside_rows by blast
  then show ?thesis
  proof cases
    case 4
    with row_keys set_enum_snd [of anchors] show ?thesis by (metis imageI)
  qed (auto dest: visible_keys simp: plan_keys_def)
qed

lemma anchor_keys: "a \<in> set anchors \<Longrightarrow> key_inside x a \<Longrightarrow> key_inside x (JObj (scanned anchors k))"
proof -
  assume a: "a \<in> set anchors" "key_inside x a"
  then obtain ra where ra: "ra \<in> set (enum anchors)" "snd ra = a" using set_enum_snd [of anchors] by (metis imageE)
  then have "key_inside x (JObj (anchor_plan_row k template_b1 ra))"
    using a(2) unfolding anchor_plan_row_def key_inside_step by blast
  with ra(1) show ?thesis
    using key_inside_Cons(2) unfolding key_inside_step anchor_plan_rows_def key_inside_rows by blast
qed

definition clean_anchor :: "json \<Rightarrow> bool" where
  "clean_anchor a \<longleftrightarrow> (\<forall>s. text_inside s a \<longrightarrow> \<not> mentions DISALLOWED_ORACLE_TOKENS s \<and> \<not> matches_secret s) \<and>
     (\<forall>k \<in> set RAW_PAYLOAD_KEYS. \<not> key_inside k a)"

lemma scanned_clean:
  "find_oracle_tokens (JObj (scanned anchors k)) '''' = [] \<and> \<not> contains_raw_payload (JObj (scanned anchors k)) \<and>
     \<not> contains_secret_literal (JObj (scanned anchors k)) \<longleftrightarrow> (\<forall>a \<in> set anchors. clean_anchor a)"
proof -
  have split: "(\<forall>s. text_inside s (JObj (scanned anchors k)) \<longrightarrow> \<not> P s) \<longleftrightarrow> (\<forall>a \<in> set anchors. \<forall>s. text_inside s a \<longrightarrow> \<not> P s)"
    if "\<forall>s \<in> set plan_texts. \<not> P s" for P
    using that scanned_texts anchor_texts by blast
  have texts: "\<forall>s \<in> set plan_texts. \<not> mentions DISALLOWED_ORACLE_TOKENS s" "\<forall>s \<in> set plan_texts. \<not> matches_secret s"
    using plan_texts_harmless by (auto simp: list_all_iff)
  have keys: "(\<forall>x \<in> set RAW_PAYLOAD_KEYS. \<not> key_inside x (JObj (scanned anchors k))) \<longleftrightarrow>
      (\<forall>a \<in> set anchors. \<forall>x \<in> set RAW_PAYLOAD_KEYS. \<not> key_inside x a)"
    using plan_keys_harmless scanned_keys anchor_keys unfolding list_all_iff by blast
  show ?thesis
    unfolding oracle_tokens_Nil raw_payload_iff secret_literal_iff clean_anchor_def
    using split [OF texts(1)] split [OF texts(2)] keys by blast
qed

text \<open>
  The plan report of the template protocol: its decision is decided by the preregistration manifest alone.
\<close>

lemma template_gates:
  "gb_replay_free (pb_guard template_b1)" "\<not> gb_oracle_capsule_allowed (pb_guard template_b1)"
  "list_all (\<lambda>c. c \<in> set (gb_forbidden (pb_guard template_b1))) REQUIRED_FORBIDDEN_CATEGORIES"
  "ab_payload_provenance (pb_action template_b1) = ISSUE_TEXT_ONLY" "\<not> gb_uplift_allowed (pb_guard template_b1)"
  "''official_test_identity'' \<in> set (gb_forbidden (pb_guard template_b1))"
  by (simp_all add: template_b1_def default_guard_b1_def list_all_iff) (simp add: REQUIRED_FORBIDDEN_CATEGORIES_def)

lemma plan_rows_pending: "list_all (\<lambda>r. get_default r ''issue_repro_eligibility'' JNull =
    JStr ''pending_problem_statement_screen'') (anchor_plan_rows anchors k p)"
  by (simp add: anchor_plan_rows_def list_all_iff anchor_plan_row_def get_default_def dict_get_def)

lemma plan_rows_empty [simp]: "anchor_plan_rows anchors k p = [] \<longleftrightarrow> anchors = []"
  by (simp add: anchor_plan_rows_def enum_def)

lemma plan_first_reps:
  "anchors \<noteq> [] \<Longrightarrow> get_item (hd (anchor_plan_rows anchors k p)) ''reps_per_arm'' = Inr (JInt k)"
proof (cases "anchor_plan_rows anchors k p")
  case (Cons r rs)
  then have "r \<in> set (anchor_plan_rows anchors k p)" by simp
  then obtain ra where "r = anchor_plan_row k p ra" unfolding anchor_plan_rows_def by auto
  then show ?thesis by (simp add: Cons anchor_plan_row_def get_item_def dict_get_def)
qed simp

lemma plan_report_decision:
  assumes "manifest_anchors prereg = Inr anchors"
    "json_get (json_or (get_default prereg ''live_authorization'' JNull) (JObj [])) ''authorized'' = Inr authorized"
  shows "\<exists>report. route_b1_plan_report now hash prereg template_b1 (anchor_plan_rows anchors k template_b1) = Inr report \<and>
    dict_get report ''decision'' = Some (JStr
      (if get_default prereg ''status'' JNull = JStr EXPECTED_PREREG_STATUS \<and> authorized = JBool False \<and> anchors \<noteq> [] \<and>
          0 < k \<and> (\<forall>a \<in> set anchors. clean_anchor a)
       then ''route_b1_plan_ready_live_execution_not_authorized'' else ''route_b1_plan_blocked''))"
proof -
  have reps: "(if anchor_plan_rows anchors k template_b1 = [] then Inr (JInt 0)
      else get_item (hd (anchor_plan_rows anchors k template_b1)) ''reps_per_arm'') = Inr (JInt (if anchors = [] then 0 else k))"
    by (simp add: plan_first_reps)
  show ?thesis
    unfolding route_b1_plan_report_def assms plan_rows_anchors all_reps_plan cell_total_plan reps no_raw_payload_def
      no_secret_literal_def and_then.simps Let_def template_gates
    apply (intro exI conjI, rule refl)
    apply (subst report_fields(1))
     apply simp
    using template_gates plan_rows_pending [of anchors k template_b1] scanned_clean [of anchors k]
    by auto
qed


text \<open>The preregistration manifest that authorises an offline plan, with the anchors and repetitions it names.\<close>

definition plan_authorized :: "json pydict \<Rightarrow> json list \<Rightarrow> int \<Rightarrow> bool" where
  "plan_authorized prereg anchors k \<longleftrightarrow>
     get_default prereg ''status'' JNull = JStr EXPECTED_PREREG_STATUS \<and>
     json_get (json_or (get_default prereg ''live_authorization'' JNull) (JObj [])) ''authorized'' = Inr (JBool False) \<and>
     anchors \<noteq> [] \<and> 0 < k \<and> (\<forall>a \<in> set anchors. clean_anchor a)"

text \<open>
  Writing the Route B plan: whenever the writer produces evidence, the protocol is the fixed
  template, the plan has one row per preregistered anchor, in order, with the preregistered number of
  repetitions and no live or official-evaluation authorisation, and the report says "ready" exactly when the
  manifest has the preregistered status, withholds live authorisation, names at least one anchor and a positive
  number of repetitions, and no anchor smuggles in an oracle word, a secret or a raw payload key.
\<close>

theorem plan_ready_iff:
  assumes "route_b1_plan_evidence now hash rp prereg = Inr (p, rows, report)"
  shows "\<exists>anchors k. manifest_anchors prereg = Inr anchors \<and> manifest_reps prereg = Inr k \<and> p = template_b1 \<and>
    rows = anchor_plan_rows anchors k template_b1 \<and>
    dict_get report ''decision'' = Some (JStr (if plan_authorized prereg anchors k
      then ''route_b1_plan_ready_live_execution_not_authorized'' else ''route_b1_plan_blocked'')) \<and>
    map (\<lambda>r. (dict_get r ''source_task_id'', dict_get r ''reps_per_arm'', dict_get r ''live_arm_authorized'',
        dict_get r ''official_eval_authorized'')) rows =
      map (\<lambda>a. (Some a, Some (JInt k), Some (JBool False), Some (JBool False))) anchors"
proof -
  from assms obtain anchors k where a: "manifest_anchors prereg = Inr anchors" "p = template_b1" "manifest_reps prereg = Inr k"
    "rows = anchor_plan_rows anchors k template_b1" "route_b1_plan_report now hash prereg template_b1 rows = Inr report"
    by (auto simp: route_b1_plan_evidence_def and_then_eq_Inr template_is Let_def)
  then obtain authorized where auth:
    "json_get (json_or (get_default prereg ''live_authorization'' JNull) (JObj [])) ''authorized'' = Inr authorized"
    by (auto simp: route_b1_plan_report_def and_then_eq_Inr)
  have "map (\<lambda>r. (dict_get r ''source_task_id'', dict_get r ''reps_per_arm'', dict_get r ''live_arm_authorized'',
        dict_get r ''official_eval_authorized'')) rows =
      map (\<lambda>a. (Some a, Some (JInt k), Some (JBool False), Some (JBool False))) (map snd (enum anchors))"
    by (simp add: a(4) anchor_plan_rows_def anchor_plan_row_def dict_get_def)
  moreover have "map snd (enum anchors) = anchors" by (simp add: enum_def)
  ultimately show ?thesis
    using a plan_report_decision [OF a(1) auth, of now hash k] by (auto simp: plan_authorized_def auth)
qed

definition sample_prereg :: "json pydict" where
  "sample_prereg = [(''status'', JStr EXPECTED_PREREG_STATUS), (''live_authorization'', JObj [(''authorized'', JBool False)]),
     (''design'', JObj [(''anchors'', JList [JStr ''django__django-11099'']), (''k_reps_per_arm'', JInt 3)])]"

lemma sample_prereg_anchors: "manifest_anchors sample_prereg = Inr [JStr ''django__django-11099'']"
  by code_simp

theorem plan_ready_iff_witness:
  "\<exists>rows report. route_b1_plan_evidence ''now'' (\<lambda>s. s) (\<lambda>_. '''') sample_prereg = Inr (template_b1, rows, report) \<and>
     length rows = 1"
proof -
  have auth: "json_get (json_or (get_default sample_prereg ''live_authorization'' JNull) (JObj [])) ''authorized'' = Inr (JBool False)"
    by code_simp
  have k: "manifest_reps sample_prereg = Inr 3" by code_simp
  obtain report where r: "route_b1_plan_report ''now'' (\<lambda>s. s) sample_prereg template_b1
      (anchor_plan_rows [JStr ''django__django-11099''] 3 template_b1) = Inr report"
    using plan_report_decision [OF sample_prereg_anchors auth] by blast
  have e: "route_b1_plan_evidence ''now'' (\<lambda>s. s) (\<lambda>_. '''') sample_prereg =
      Inr (template_b1, anchor_plan_rows [JStr ''django__django-11099''] 3 template_b1, report)"
    unfolding route_b1_plan_evidence_def sample_prereg_anchors k template_is and_then.simps Let_def r by simp
  from plan_ready_iff [OF e] sample_prereg_anchors have "length (anchor_plan_rows [JStr ''django__django-11099''] 3 template_b1) = 1"
    by (auto dest!: arg_cong [where f = length])
  with e show ?thesis by blast
qed

end
