(* ===== verification/Pair_Attribution.thy ===== *)
theory Pair_Attribution
  imports Clinic_Json Evidence_Report
begin

text \<open>
  Attribution of completed pairs, \<open>packages/clinic/src/wutai_clinic/intervention/attribution.py\<close>: pair rows are
  classified, split by scope and summarised. Rows are dictionaries; rates are rationals (floating point in the
  code), their JSON form and text are the parameters \<open>num\<close> and \<open>ntext\<close>; \<open>rp\<close> is \<open>repr\<close> on
  containers.
\<close>

section \<open>Model\<close>

definition MAIN_LABELS :: "string list" where
  "MAIN_LABELS = [''intervention_only_resolved_trigger_hit_candidate'', ''both_unresolved_trigger_hit_pair_no_uplift'',
     ''both_resolved_trigger_hit_pair_no_uplift'', ''control_only_resolved_trigger_hit_negative_candidate'']"

definition SECONDARY_LABEL :: string where
  "SECONDARY_LABEL = ''secondary_audit_no_treatment_attribution''"

definition MAIN_SCOPE :: string where "MAIN_SCOPE = ''main_treatment_attribution_candidate''"
definition SECONDARY_SCOPE :: string where "SECONDARY_SCOPE = ''secondary_trigger_miss_audit_only''"

text \<open>\<open>row.get(field) is value\<close> for a boolean, \<open>row.get(field) == text\<close>\<close>

definition field_bool :: "json pydict \<Rightarrow> string \<Rightarrow> bool \<Rightarrow> bool" where
  "field_bool row k b \<longleftrightarrow> dict_get row k = Some (JBool b)"

definition field_text :: "json pydict \<Rightarrow> string \<Rightarrow> string \<Rightarrow> bool" where
  "field_text row k s \<longleftrightarrow> dict_get row k = Some (JStr s)"

definition field_or_null :: "json pydict \<Rightarrow> string \<Rightarrow> json" where
  "field_or_null row k = (case dict_get row k of Some v \<Rightarrow> v | None \<Rightarrow> JNull)"

definition bool_count :: "json pydict list \<Rightarrow> string \<Rightarrow> bool \<Rightarrow> nat" where
  "bool_count rows field b = length (filter (\<lambda>row. field_bool row field b) rows)"

definition effect_label :: "(json \<Rightarrow> string) \<Rightarrow> json pydict \<Rightarrow> string" where
  "effect_label rp row = json_text rp (field_or_null row ''effect_label'')"

definition label_counts :: "(json \<Rightarrow> string) \<Rightarrow> json pydict list \<Rightarrow> nat pydict" where
  "label_counts rp rows = sort_key fst (fold dict_incr (map (effect_label rp) rows) [])"

definition classify_pair_summary :: "(json \<Rightarrow> string) \<Rightarrow> json pydict \<Rightarrow> string" where
  "classify_pair_summary rp row =
     (if field_text row ''pair_eval_scope'' MAIN_SCOPE \<and> field_bool row ''intervention_injected_once'' True \<and>
         field_bool row ''main_attribution_eligible'' True \<and> effect_label rp row \<in> set MAIN_LABELS
      then ''main_treatment''
      else if field_text row ''pair_eval_scope'' SECONDARY_SCOPE \<and> field_bool row ''intervention_injected_once'' False \<and>
         field_text row ''intervention_treatment_status'' ''not_treated_trigger_miss'' \<and>
         field_text row ''effect_label'' SECONDARY_LABEL
      then ''trigger_miss''
      else ''invalid'')"

definition split_pair_rows :: "json pydict list \<Rightarrow> json pydict list \<times> json pydict list" where
  "split_pair_rows rows = (filter (\<lambda>row. field_text row ''pair_eval_scope'' MAIN_SCOPE) rows,
     filter (\<lambda>row. field_text row ''pair_eval_scope'' SECONDARY_SCOPE) rows)"

definition ratio :: "nat \<Rightarrow> nat \<Rightarrow> rat option" where
  "ratio a n = (if n = 0 then None else Some (of_nat a / of_nat n))"

record outcome_summary =
  os_total :: nat
  os_main :: nat
  os_secondary :: nat
  os_main_ids :: "string list"
  os_secondary_ids :: "string list"
  os_main_labels :: "nat pydict"
  os_secondary_labels :: "nat pydict"
  os_main_control_resolved :: nat
  os_main_intervention_resolved :: nat
  os_main_resolved_delta :: int
  os_main_control_rate :: "rat option"
  os_main_intervention_rate :: "rat option"
  os_secondary_control_resolved :: nat
  os_secondary_intervention_resolved :: nat
  os_trigger_hit_rate :: "rat option"

definition pair_ids :: "(json \<Rightarrow> string) \<Rightarrow> json pydict list \<Rightarrow> pyexn + string list" where
  "pair_ids rp rows = sequence (map (\<lambda>row. case dict_get row ''pair_id'' of
     Some v \<Rightarrow> Inr (json_text rp v) | None \<Rightarrow> Inl (KeyError ''pair_id'')) rows)"

definition outcome_summary_of :: "(json \<Rightarrow> string) \<Rightarrow> json pydict list \<Rightarrow> pyexn + outcome_summary" where
  "outcome_summary_of rp rows =
     (let (main, secondary) = split_pair_rows rows;
          control = bool_count main ''control_resolved'' True;
          intervention = bool_count main ''intervention_resolved'' True;
          n = length main in
      and_then (pair_ids rp main) (\<lambda>main_ids. and_then (pair_ids rp secondary) (\<lambda>secondary_ids.
      Inr \<lparr>os_total = length rows, os_main = n, os_secondary = length secondary, os_main_ids = main_ids,
        os_secondary_ids = secondary_ids, os_main_labels = label_counts rp main, os_secondary_labels = label_counts rp secondary,
        os_main_control_resolved = control, os_main_intervention_resolved = intervention,
        os_main_resolved_delta = int intervention - int control,
        os_main_control_rate = ratio control n, os_main_intervention_rate = ratio intervention n,
        os_secondary_control_resolved = bool_count secondary ''control_resolved'' True,
        os_secondary_intervention_resolved = bool_count secondary ''intervention_resolved'' True,
        os_trigger_hit_rate = ratio n (length rows)\<rparr>)))"

definition label_count :: "nat pydict \<Rightarrow> string \<Rightarrow> nat" where
  "label_count d l = (case dict_get d l of Some n \<Rightarrow> n | None \<Rightarrow> 0)"

text \<open>\<open>f"{rate}"\<close> of an optional rate\<close>

definition rate_text :: "(rat \<Rightarrow> string) \<Rightarrow> rat option \<Rightarrow> string" where
  "rate_text ntext r = (case r of None \<Rightarrow> ''None'' | Some x \<Rightarrow> ntext x)"

definition batch1_continuation_policy :: "(rat \<Rightarrow> string) \<Rightarrow> outcome_summary \<Rightarrow> json pydict" where
  "batch1_continuation_policy ntext s =
     (let main = int (os_main s);
          positive = int (label_count (os_main_labels s) ''intervention_only_resolved_trigger_hit_candidate'');
          negative = int (label_count (os_main_labels s) ''control_only_resolved_trigger_hit_negative_candidate'');
          no_uplift = main - positive - negative;
          go = 1 \<le> main \<and> negative \<le> positive in
     [(''allow_continue_batch2_batchwise'', JBool go), (''allow_full_64_unattended'', JBool False),
      (''allow_intervention_effect_claim'', JBool False), (''allow_efe_str_predictive_claim'', JBool False),
      (''allow_trigger_policy_rewrite_before_batch2'', JBool False),
      (''recommended_next_step'', JStr (if go then ''continue_batch2_batchwise_uncapped_same_frozen_policy''
         else ''pause_before_batch2_manual_review_required'')),
      (''trigger_policy_note'', JStr (''Batch-1 trigger coverage is low; keep the frozen policy for batch-2 to avoid '' @
         ''mid-experiment contamination, then review cumulative trigger-hit rate before '' @ ''any trigger redesign.'')),
      (''evidence_note'', JStr (''Batch-1 has '' @ show_int main @ '' trigger-hit main pairs, '' @ show_int positive @ '' positive, '' @
         show_int no_uplift @ '' no-uplift, '' @ show_int negative @ '' negative, '' @
         ''trigger_hit_rate='' @ rate_text ntext (os_trigger_hit_rate s) @ ''.''))])"

record attribution =
  at_main_treatment :: nat
  at_trigger_miss :: nat
  at_invalid :: nat
  at_completed_pairs :: nat
  at_main_pairs :: nat
  at_trigger_miss_pairs :: nat
  at_trigger_hit_rate :: "rat option"
  at_intervention_rate :: "rat option"
  at_control_rate :: "rat option"
  at_resolved_delta :: int
  at_summary :: outcome_summary
  at_policy :: "json pydict"

definition class_count :: "(json \<Rightarrow> string) \<Rightarrow> json pydict list \<Rightarrow> string \<Rightarrow> nat" where
  "class_count rp rows c = length (filter (\<lambda>row. classify_pair_summary rp row = c) rows)"

definition attribute_pair_summaries :: "(json \<Rightarrow> string) \<Rightarrow> (rat \<Rightarrow> string) \<Rightarrow> json pydict list \<Rightarrow> pyexn + attribution" where
  "attribute_pair_summaries rp ntext rows =
     and_then (outcome_summary_of rp rows) (\<lambda>s.
     Inr \<lparr>at_main_treatment = class_count rp rows ''main_treatment'', at_trigger_miss = class_count rp rows ''trigger_miss'',
       at_invalid = class_count rp rows ''invalid'', at_completed_pairs = os_total s, at_main_pairs = os_main s,
       at_trigger_miss_pairs = os_secondary s, at_trigger_hit_rate = os_trigger_hit_rate s,
       at_intervention_rate = os_main_intervention_rate s, at_control_rate = os_main_control_rate s,
       at_resolved_delta = os_main_resolved_delta s, at_summary = s, at_policy = batch1_continuation_policy ntext s\<rparr>)"

text \<open>The attribution of typed results.\<close>

record intervention_result =
  ir_control_resolved :: "bool option"
  ir_intervention_resolved :: "bool option"
  ir_trigger_hit :: bool
  ir_injection_count :: int

definition resolved_delta :: "intervention_result \<Rightarrow> int option" where
  "resolved_delta r = (case (ir_control_resolved r, ir_intervention_resolved r) of
     (Some c, Some i) \<Rightarrow> Some (of_bool i - of_bool c) | _ \<Rightarrow> None)"

record result_attribution =
  ra_completed :: nat
  ra_trigger_hits :: nat
  ra_trigger_hit_rate :: rat
  ra_success_rate :: rat
  ra_resolved_delta :: rat

definition ratio0 :: "int \<Rightarrow> nat \<Rightarrow> rat" where
  "ratio0 a n = (if n = 0 then 0 else of_int a / of_nat n)"

definition attribute_results :: "intervention_result list \<Rightarrow> result_attribution" where
  "attribute_results results =
     (let complete = filter (\<lambda>r. ir_control_resolved r \<noteq> None \<and> ir_intervention_resolved r \<noteq> None) results;
          hits = filter (\<lambda>r. ir_trigger_hit r \<and> ir_injection_count r = 1) complete;
          deltas = map (\<lambda>r. the (resolved_delta r)) (filter (\<lambda>r. resolved_delta r \<noteq> None) hits) in
      \<lparr>ra_completed = length complete, ra_trigger_hits = length hits,
       ra_trigger_hit_rate = ratio0 (int (length hits)) (length complete),
       ra_success_rate = ratio0 (int (length (filter (\<lambda>r. ir_intervention_resolved r = Some True) hits))) (length hits),
       ra_resolved_delta = ratio0 (sum_list deltas) (length deltas)\<rparr>)"

section \<open>The classes partition the rows\<close>

lemma class_counts_total:
  "class_count rp rows ''main_treatment'' + class_count rp rows ''trigger_miss'' + class_count rp rows ''invalid'' = length rows"
  by (induction rows) (auto simp: class_count_def classify_pair_summary_def)

lemma field_text_unique: "field_text row k s \<Longrightarrow> field_text row k t \<Longrightarrow> s = t"
  by (simp add: field_text_def)

lemma scope_of_class:
  "classify_pair_summary rp row = ''main_treatment'' \<Longrightarrow> field_text row ''pair_eval_scope'' MAIN_SCOPE"
  "classify_pair_summary rp row = ''trigger_miss'' \<Longrightarrow> field_text row ''pair_eval_scope'' SECONDARY_SCOPE"
  by (auto simp: classify_pair_summary_def split: if_splits)

lemma class_of_scope:
  assumes "classify_pair_summary rp row \<noteq> ''invalid''"
  shows "classify_pair_summary rp row = ''main_treatment'' \<longleftrightarrow> field_text row ''pair_eval_scope'' MAIN_SCOPE"
    "classify_pair_summary rp row = ''trigger_miss'' \<longleftrightarrow> field_text row ''pair_eval_scope'' SECONDARY_SCOPE"
proof -
  have "MAIN_SCOPE \<noteq> SECONDARY_SCOPE" by (simp add: MAIN_SCOPE_def SECONDARY_SCOPE_def)
  moreover have "classify_pair_summary rp row = ''main_treatment'' \<or> classify_pair_summary rp row = ''trigger_miss''"
    using assms unfolding classify_pair_summary_def by presburger
  ultimately show "classify_pair_summary rp row = ''main_treatment'' \<longleftrightarrow> field_text row ''pair_eval_scope'' MAIN_SCOPE"
    "classify_pair_summary rp row = ''trigger_miss'' \<longleftrightarrow> field_text row ''pair_eval_scope'' SECONDARY_SCOPE"
    using scope_of_class [of rp row] field_text_unique by blast+
qed

lemma no_invalid: "class_count rp rows ''invalid'' = 0 \<longleftrightarrow> (\<forall>row \<in> set rows. classify_pair_summary rp row \<noteq> ''invalid'')"
  by (auto simp: class_count_def filter_empty_conv)

lemma valid_rows_by_scope:
  assumes "class_count rp rows ''invalid'' = 0"
  shows "filter (\<lambda>row. classify_pair_summary rp row = ''main_treatment'') rows = fst (split_pair_rows rows)"
    "filter (\<lambda>row. classify_pair_summary rp row = ''trigger_miss'') rows = snd (split_pair_rows rows)"
  using assms class_of_scope unfolding no_invalid split_pair_rows_def fst_conv snd_conv by (auto intro!: filter_cong)

lemma outcome_summary_facts:
  assumes "outcome_summary_of rp rows = Inr s"
  shows "os_total s = length rows" "os_main s = length (fst (split_pair_rows rows))"
    "os_secondary s = length (snd (split_pair_rows rows))"
    "os_main_resolved_delta s = int (bool_count (fst (split_pair_rows rows)) ''intervention_resolved'' True) -
       int (bool_count (fst (split_pair_rows rows)) ''control_resolved'' True)"
    "os_trigger_hit_rate s = ratio (length (fst (split_pair_rows rows))) (length rows)"
proof -
  obtain main secondary where split: "split_pair_rows rows = (main, secondary)" by fastforce
  obtain ids ids' where s: "s = \<lparr>os_total = length rows, os_main = length main, os_secondary = length secondary, os_main_ids = ids,
      os_secondary_ids = ids', os_main_labels = label_counts rp main, os_secondary_labels = label_counts rp secondary,
      os_main_control_resolved = bool_count main ''control_resolved'' True,
      os_main_intervention_resolved = bool_count main ''intervention_resolved'' True,
      os_main_resolved_delta = int (bool_count main ''intervention_resolved'' True) - int (bool_count main ''control_resolved'' True),
      os_main_control_rate = ratio (bool_count main ''control_resolved'' True) (length main),
      os_main_intervention_rate = ratio (bool_count main ''intervention_resolved'' True) (length main),
      os_secondary_control_resolved = bool_count secondary ''control_resolved'' True,
      os_secondary_intervention_resolved = bool_count secondary ''intervention_resolved'' True,
      os_trigger_hit_rate = ratio (length main) (length rows)\<rparr>"
    using assms unfolding outcome_summary_of_def split Let_def prod.case
    by (elim and_then_InrE) (simp only: sum.inject, blast)
  show "os_total s = length rows" "os_main s = length (fst (split_pair_rows rows))"
    "os_secondary s = length (snd (split_pair_rows rows))"
    "os_main_resolved_delta s = int (bool_count (fst (split_pair_rows rows)) ''intervention_resolved'' True) -
       int (bool_count (fst (split_pair_rows rows)) ''control_resolved'' True)"
    "os_trigger_hit_rate s = ratio (length (fst (split_pair_rows rows))) (length rows)"
    unfolding split fst_conv snd_conv s outcome_summary.select_convs by (rule refl)+
qed

lemma attribution_facts:
  assumes "attribute_pair_summaries rp ntext rows = Inr a"
  shows "at_main_treatment a = class_count rp rows ''main_treatment''" "at_trigger_miss a = class_count rp rows ''trigger_miss''"
    "at_invalid a = class_count rp rows ''invalid''" "at_completed_pairs a = length rows"
    "at_main_pairs a = length (fst (split_pair_rows rows))" "at_trigger_miss_pairs a = length (snd (split_pair_rows rows))"
    "at_trigger_hit_rate a = ratio (length (fst (split_pair_rows rows))) (length rows)"
    "at_resolved_delta a = int (bool_count (fst (split_pair_rows rows)) ''intervention_resolved'' True) -
       int (bool_count (fst (split_pair_rows rows)) ''control_resolved'' True)"
proof -
  from assms obtain s where s: "outcome_summary_of rp rows = Inr s"
    and a: "Inr a = (Inr \<lparr>at_main_treatment = class_count rp rows ''main_treatment'', at_trigger_miss = class_count rp rows ''trigger_miss'',
       at_invalid = class_count rp rows ''invalid'', at_completed_pairs = os_total s, at_main_pairs = os_main s,
       at_trigger_miss_pairs = os_secondary s, at_trigger_hit_rate = os_trigger_hit_rate s,
       at_intervention_rate = os_main_intervention_rate s, at_control_rate = os_main_control_rate s,
       at_resolved_delta = os_main_resolved_delta s, at_summary = s, at_policy = batch1_continuation_policy ntext s\<rparr> :: pyexn + attribution)"
    unfolding attribute_pair_summaries_def by (elim and_then_InrE) simp
  note f = outcome_summary_facts [OF s] a [unfolded sum.inject]
  show "at_main_treatment a = class_count rp rows ''main_treatment''" "at_trigger_miss a = class_count rp rows ''trigger_miss''"
    "at_invalid a = class_count rp rows ''invalid''" "at_completed_pairs a = length rows"
    "at_main_pairs a = length (fst (split_pair_rows rows))" "at_trigger_miss_pairs a = length (snd (split_pair_rows rows))"
    "at_trigger_hit_rate a = ratio (length (fst (split_pair_rows rows))) (length rows)"
    "at_resolved_delta a = int (bool_count (fst (split_pair_rows rows)) ''intervention_resolved'' True) -
       int (bool_count (fst (split_pair_rows rows)) ''control_resolved'' True)"
    by (simp_all add: f)
qed

lemma attribution_counts:
  assumes "attribute_pair_summaries rp ntext rows = Inr a" "at_invalid a = 0"
  shows "at_main_pairs a = at_main_treatment a" "at_trigger_miss_pairs a = at_trigger_miss a"
    "at_main_pairs a + at_trigger_miss_pairs a = length rows"
proof -
  note a = attribution_facts [OF assms(1)]
  from assms(2) a(3) have z: "class_count rp rows ''invalid'' = 0" by simp
  show p: "at_main_pairs a = at_main_treatment a" "at_trigger_miss_pairs a = at_trigger_miss a"
    unfolding a class_count_def valid_rows_by_scope [OF z] by (rule refl)+
  show "at_main_pairs a + at_trigger_miss_pairs a = length rows"
    using class_counts_total [of rp rows] z unfolding p a by simp
qed

end
