(* ===== verification/Diagnosis.thy ===== *)
theory Diagnosis
  imports Clinic_Json Py_Numbers "HOL-Library.Product_Lexorder"
begin

text \<open>
  Prefix diagnosis, \<open>packages/clinic/src/wutai_clinic/engine/diagnoser.py\<close>: steps are canonicalised into
  action and observation classes, two running counters (validation gap, same-action streak) are computed over
  them, and every prefix whose features give a reason and a high enough score becomes a candidate transition.
  Feature rows are records; scores are rationals (the code computes them in floating point). \<open>rp\<close> is
  \<open>repr\<close> on containers. The variant of \<open>diagnose\<close>
  without feature rows is not modelled.
\<close>

section \<open>Steps\<close>

definition ERROR_MARKERS :: "string list" where
  "ERROR_MARKERS = [''error'', ''exception'', ''failed'', ''failure'', ''invalid'', ''not found'', ''timeout'', ''traceback'']"

definition any_in :: "string list \<Rightarrow> string \<Rightarrow> bool" where
  "any_in tokens s \<longleftrightarrow> list_ex (\<lambda>t. contains t s) tokens"

definition action_family :: "string \<Rightarrow> string" where
  "action_family action =
     (let lowered = strip (lower action) in
      if lowered = [] then ''none''
      else if any_in [''str_replace_editor'', ''replace_file_content''] lowered then ''file_edit''
      else if any_in [''write_to_file'', ''create_file''] lowered then ''file_write''
      else if any_in [''view_file'', '' cat '', '' sed '', ''head '', ''tail ''] lowered then ''file_read''
      else if any_in [''grep'', ''rg '', ''find '', ''ls ''] lowered then ''search''
      else if any_in [''pytest'', ''tox'', ''npm test'', ''pnpm test'', '' test ''] lowered then ''test''
      else if any_in [''git diff'', ''git status'', ''git log''] lowered then ''git_inspect''
      else if any_in [''python'', ''bash'', ''sh '', ''run_command'', ''execute''] lowered then ''command''
      else if any_in [''submit'', ''exit''] lowered then ''terminal''
      else ''other'')"

definition observation_class :: "string \<Rightarrow> string" where
  "observation_class observation =
     (let lowered = strip (lower observation) in
      if lowered = [] then ''empty''
      else if any_in ERROR_MARKERS lowered then ''error''
      else if any_in [''success'', ''passed'', ''done'', ''completed''] lowered then ''success''
      else ''neutral'')"

record canonical_state =
  cs_action_family :: string
  cs_observation_class :: string
  cs_working_dir_class :: string

definition value_or :: "json pydict \<Rightarrow> string \<Rightarrow> json \<Rightarrow> json" where
  "value_or d k v = (case dict_get d k of Some x \<Rightarrow> x | None \<Rightarrow> v)"

definition canonical_step :: "(json \<Rightarrow> string) \<Rightarrow> json pydict \<Rightarrow> canonical_state" where
  "canonical_step rp step =
     (let action = json_text rp (json_or (value_or step ''action'' JNull) (JStr []));
          observation = json_text rp (json_or (value_or step ''observation'' JNull) (JStr []));
          state = (case value_or step ''state'' JNull of JObj d \<Rightarrow> d | _ \<Rightarrow> [])
      in \<lparr>cs_action_family = action_family action, cs_observation_class = observation_class observation,
          cs_working_dir_class = (if contains ''/testbed'' (json_text rp (value_or state ''working_dir'' (JStr [])))
            then ''testbed'' else ''other'')\<rparr>)"

section \<open>Running counters\<close>

text \<open>\<open>index\<close> counts the steps from 1; 0 stands for no edit or validation yet.\<close>

fun gaps_from :: "nat \<Rightarrow> nat \<Rightarrow> nat \<Rightarrow> canonical_state list \<Rightarrow> nat list" where
  "gaps_from index last_edit last_validation [] = []"
| "gaps_from index last_edit last_validation (s # ss) =
     (let family = cs_action_family s;
          le = (if family \<in> {''file_edit'', ''file_write''} then index else last_edit);
          lv = (if family \<in> {''test'', ''git_inspect''} then index else last_validation)
      in (if le \<noteq> 0 \<and> lv < le then index - le else 0) # gaps_from (Suc index) le lv ss)"

definition validation_gap_lengths :: "canonical_state list \<Rightarrow> nat list" where
  "validation_gap_lengths states = gaps_from 1 0 0 states"

fun streaks_from :: "string option \<Rightarrow> nat \<Rightarrow> canonical_state list \<Rightarrow> nat list" where
  "streaks_from current streak [] = []"
| "streaks_from current streak (s # ss) =
     (let n = (if Some (cs_action_family s) = current then Suc streak else 1)
      in n # streaks_from (Some (cs_action_family s)) n ss)"

definition recent_same_action_lengths :: "canonical_state list \<Rightarrow> nat list" where
  "recent_same_action_lengths states = streaks_from None 0 states"

section \<open>Reasons and score\<close>

record features =
  fe_online_str :: rat
  fe_recurrence_persistence :: rat
  fe_duplicate_ratio :: rat
  fe_adjacent_repeat_ratio :: rat
  fe_error_streak :: int
  fe_step_count :: int
  fe_action_entropy :: rat

text \<open>
  The state is a dictionary that may be empty (a prefix beyond the last step): \<open>None\<close>. Its entries are read
  lazily, as the code's \<open>or\<close> and \<open>and\<close> do.
\<close>

definition state_entry :: "(canonical_state \<Rightarrow> string) \<Rightarrow> string \<Rightarrow> canonical_state option \<Rightarrow> pyexn + string" where
  "state_entry sel k st = (case st of Some s \<Rightarrow> Inr (sel s) | None \<Rightarrow> Inl (KeyError k))"

definition reason_codes :: "features \<Rightarrow> canonical_state option \<Rightarrow> nat \<Rightarrow> nat \<Rightarrow> pyexn + string list" where
  "reason_codes f st gap streak =
     and_then (if 2 \<le> fe_error_streak f then Inr True
               else and_then (state_entry cs_observation_class ''observation_class'' st) (\<lambda>c. Inr (c = ''error''))) (\<lambda>err.
     and_then (if streak < 4 then Inr False
               else and_then (state_entry cs_action_family ''action_family'' st) (\<lambda>c. Inr (c \<notin> {''none'', ''terminal''}))) (\<lambda>same.
     Inr (
       (if 1/2 \<le> fe_online_str f \<or> 35/100 \<le> fe_recurrence_persistence f then [''recurrence_spike''] else []) @
       (if 45/100 \<le> fe_duplicate_ratio f \<or> 35/100 \<le> fe_adjacent_repeat_ratio f then [''loop_or_duplicate_pattern''] else []) @
       (if err then [''error_streak_or_error_observation''] else []) @
       (if 3 \<le> gap then [''validation_gap_after_edit''] else []) @
       (if same then [''same_action_family_streak''] else []) @
       (if 40 \<le> fe_step_count f \<and> fe_action_entropy f \<le> 1 then [''long_run_low_action_entropy''] else []))))"

definition diagnostic_score :: "features \<Rightarrow> nat \<Rightarrow> nat \<Rightarrow> rat" where
  "diagnostic_score f gap streak =
     (let recurrence = max (max (max (fe_online_str f) (fe_recurrence_persistence f)) (fe_duplicate_ratio f)) (fe_adjacent_repeat_ratio f);
          error = min 1 (of_int (fe_error_streak f) / 3);
          validation = min 1 (of_nat gap / 6);
          same_action = min 1 (max 0 (of_nat streak - 1) / 5);
          entropy = 1 - min 1 (max 0 (fe_action_entropy f) / 3);
          score = 30/100 * recurrence + 25/100 * error + 25/100 * validation + 10/100 * same_action + 10/100 * entropy
      in round_to 6 (min 1 score))"

section \<open>The diagnosis\<close>

record feature_row =
  fr_prefix_index :: int
  fr_prefix_sha256 :: string
  fr_features :: features

record candidate =
  ca_prefix_index :: int
  ca_prefix_sha256 :: string
  ca_score :: rat
  ca_reasons :: "string list"
  ca_action_family :: string
  ca_observation_class :: string
  ca_gap :: nat
  ca_streak :: nat
  ca_step_count :: int

record chain_row =
  ch_trajectory_id :: string
  ch_source_task_id :: string
  ch_source_family :: string
  ch_run_window :: string

record diagnosis =
  di_chain :: chain_row
  di_candidate_count :: nat
  di_first_actionable :: "int option"
  di_top_candidates :: "candidate list"
  di_reason_summary :: "nat pydict"
  di_decision :: string

text \<open>\<open>xs[i - 1] if i <= len(xs) else d\<close>: an index below 1 counts from the end.\<close>

definition at_prefix :: "'a list \<Rightarrow> int \<Rightarrow> 'a \<Rightarrow> pyexn + 'a" where
  "at_prefix xs i d =
     (if int (length xs) < i then Inr d
      else if 1 \<le> i then Inr (xs ! nat (i - 1))
      else if 0 \<le> int (length xs) + (i - 1) then Inr (xs ! nat (int (length xs) + (i - 1)))
      else Inl (LookupErr ''list index out of range''))"

definition prefix_candidate :: "canonical_state list \<Rightarrow> feature_row \<Rightarrow> pyexn + candidate option" where
  "prefix_candidate states row =
     (let i = fr_prefix_index row; f = fr_features row in
      and_then (at_prefix (map Some states) i None) (\<lambda>st.
      and_then (at_prefix (validation_gap_lengths states) i 0) (\<lambda>gap.
      and_then (at_prefix (recent_same_action_lengths states) i 0) (\<lambda>streak.
      and_then (reason_codes f st gap streak) (\<lambda>reasons.
      let score = diagnostic_score f gap streak in
      Inr (if reasons \<noteq> [] \<and> 35/100 \<le> score
        then Some \<lparr>ca_prefix_index = i, ca_prefix_sha256 = fr_prefix_sha256 row, ca_score = score, ca_reasons = reasons,
          ca_action_family = (case st of Some s \<Rightarrow> cs_action_family s | None \<Rightarrow> ''unknown''),
          ca_observation_class = (case st of Some s \<Rightarrow> cs_observation_class s | None \<Rightarrow> ''unknown''),
          ca_gap = gap, ca_streak = streak, ca_step_count = fe_step_count f\<rparr>
        else None))))))"

definition count_reasons :: "candidate list \<Rightarrow> nat pydict" where
  "count_reasons cs = fold dict_incr (concat (map ca_reasons cs)) []"

definition rank_key :: "candidate \<Rightarrow> rat \<times> int" where
  "rank_key c = (- ca_score c, ca_prefix_index c)"

definition option_values :: "'a option list \<Rightarrow> 'a list" where
  "option_values xs = concat (map (\<lambda>x. case x of Some a \<Rightarrow> [a] | None \<Rightarrow> []) xs)"

definition diagnose_from_features :: "chain_row \<Rightarrow> feature_row list \<Rightarrow> canonical_state list \<Rightarrow> pyexn + diagnosis" where
  "diagnose_from_features chain rows states =
     and_then (sequence (map (prefix_candidate states) rows)) (\<lambda>found.
     let candidates = sort_key rank_key (option_values found) in
     Inr \<lparr>di_chain = chain, di_candidate_count = length candidates,
          di_first_actionable = (if candidates = [] then None else Some (Min (set (map ca_prefix_index candidates)))),
          di_top_candidates = take 3 candidates,
          di_reason_summary = sort_key fst (count_reasons (option_values found)),
          di_decision = (if candidates \<noteq> [] then ''audit_candidate_present'' else ''no_deterministic_audit_candidate'')\<rparr>)"


section \<open>What the counters count\<close>

definition edit_step :: "canonical_state \<Rightarrow> bool" where
  "edit_step s \<longleftrightarrow> cs_action_family s \<in> {''file_edit'', ''file_write''}"

definition validation_step :: "canonical_state \<Rightarrow> bool" where
  "validation_step s \<longleftrightarrow> cs_action_family s \<in> {''test'', ''git_inspect''}"

text \<open>The position of the last step with a property, counted from 1, or 0.\<close>

definition last_position :: "(canonical_state \<Rightarrow> bool) \<Rightarrow> canonical_state list \<Rightarrow> nat" where
  "last_position P ss = (if \<exists>s \<in> set ss. P s then length ss - length (takeWhile (\<lambda>s. \<not> P s) (rev ss)) else 0)"

lemma last_position_Nil [simp]: "last_position P [] = 0"
  by (simp add: last_position_def)

lemma last_position_snoc [simp]: "last_position P (ss @ [s]) = (if P s then Suc (length ss) else last_position P ss)"
  by (auto simp: last_position_def Suc_diff_le length_takeWhile_le [of _ "rev ss", simplified])

lemma gaps_from_step: "gaps_from a le lv (x # xs) =
    (let le' = (if edit_step x then a else le); lv' = (if validation_step x then a else lv)
     in (if le' \<noteq> 0 \<and> lv' < le' then a - le' else 0) # gaps_from (Suc a) le' lv' xs)"
  by (simp add: edit_step_def validation_step_def Let_def)

declare gaps_from.simps(2) [simp del]

lemma gaps_from_snoc:
  assumes "a = Suc (length pre)" "le = last_position edit_step pre" "lv = last_position validation_step pre"
  shows "gaps_from a le lv (ss @ [s]) = gaps_from a le lv ss @
    [let e = last_position edit_step (pre @ ss @ [s]); v = last_position validation_step (pre @ ss @ [s])
     in if e \<noteq> 0 \<and> v < e then length (pre @ ss @ [s]) - e else 0]"
  using assms
proof (induction ss arbitrary: pre a le lv)
  case Nil
  then show ?case
    using last_position_snoc [of edit_step pre s] last_position_snoc [of validation_step pre s]
    by (auto simp: Let_def gaps_from_step)
next
  case (Cons x xs)
  let ?le = "if edit_step x then a else le" and ?lv = "if validation_step x then a else lv"
  have "gaps_from (Suc a) ?le ?lv (xs @ [s]) = gaps_from (Suc a) ?le ?lv xs @
    [let e = last_position edit_step ((pre @ [x]) @ xs @ [s]); v = last_position validation_step ((pre @ [x]) @ xs @ [s])
     in if e \<noteq> 0 \<and> v < e then length ((pre @ [x]) @ xs @ [s]) - e else 0]"
    by (rule Cons.IH) (simp_all add: Cons.prems)
  then show ?case by (simp add: gaps_from_step Let_def del: if_split)
qed

lemma gap_lengths_snoc:
  "validation_gap_lengths (ss @ [s]) = validation_gap_lengths ss @
    [let e = last_position edit_step (ss @ [s]); v = last_position validation_step (ss @ [s])
     in if e \<noteq> 0 \<and> v < e then length (ss @ [s]) - e else 0]"
  using gaps_from_snoc [of 1 "[]" 0 0 ss s] by (simp add: validation_gap_lengths_def Let_def)

lemma last_position_eq_0: "last_position P ss = 0 \<longleftrightarrow> (\<forall>s \<in> set ss. \<not> P s)"
  by (induction ss rule: rev_induct) auto

lemma last_position_le: "last_position P ss \<le> k \<longleftrightarrow> (\<forall>j. k \<le> j \<and> j < length ss \<longrightarrow> \<not> P (ss ! j))"
proof (induction ss rule: rev_induct)
  case (snoc s ss)
  have "(\<forall>j. k \<le> j \<and> j < length (ss @ [s]) \<longrightarrow> \<not> P ((ss @ [s]) ! j)) \<longleftrightarrow>
      (\<forall>j. k \<le> j \<and> j < length ss \<longrightarrow> \<not> P (ss ! j)) \<and> (k \<le> length ss \<longrightarrow> \<not> P s)"
    by (metis length_append_singleton less_Suc_eq nth_append nth_append_length)
  with snoc show ?case by (auto simp: last_position_snoc not_less_eq_eq [symmetric])
qed simp

lemma last_position_bound: "last_position P ss \<le> length ss"
  by (simp add: last_position_def)

lemma last_position_Suc:
  "last_position P ss = Suc k \<longleftrightarrow> k < length ss \<and> P (ss ! k) \<and> (\<forall>j. k < j \<and> j < length ss \<longrightarrow> \<not> P (ss ! j))"
proof -
  have "last_position P ss = Suc k \<longleftrightarrow> last_position P ss \<le> Suc k \<and> \<not> last_position P ss \<le> k" by arith
  also have "\<dots> \<longleftrightarrow> k < length ss \<and> P (ss ! k) \<and> (\<forall>j. k < j \<and> j < length ss \<longrightarrow> \<not> P (ss ! j))"
  proof
    assume l: "last_position P ss \<le> Suc k \<and> \<not> last_position P ss \<le> k"
    then obtain j where j: "k \<le> j" "j < length ss" "P (ss ! j)" by (auto simp: last_position_le)
    moreover have after: "\<forall>j. k < j \<and> j < length ss \<longrightarrow> \<not> P (ss ! j)" using l by (auto simp: last_position_le Suc_le_eq)
    ultimately have "j = k" by (metis le_neq_implies_less)
    with j after show "k < length ss \<and> P (ss ! k) \<and> (\<forall>j. k < j \<and> j < length ss \<longrightarrow> \<not> P (ss ! j))" by simp
  next
    assume "k < length ss \<and> P (ss ! k) \<and> (\<forall>j. k < j \<and> j < length ss \<longrightarrow> \<not> P (ss ! j))"
    then show "last_position P ss \<le> Suc k \<and> \<not> last_position P ss \<le> k"
      unfolding last_position_le by (metis Suc_le_eq order_refl)
  qed
  finally show ?thesis .
qed

lemma length_gaps [simp]: "length (validation_gap_lengths ss) = length ss"
  by (induction ss rule: rev_induct) (simp_all add: gap_lengths_snoc, simp add: validation_gap_lengths_def)

lemma gap_at:
  assumes "i < length ss"
  shows "validation_gap_lengths ss ! i =
    (let e = last_position edit_step (take (Suc i) ss); v = last_position validation_step (take (Suc i) ss)
     in if e \<noteq> 0 \<and> v < e then Suc i - e else 0)"
  using assms
proof (induction ss rule: rev_induct)
  case (snoc s ss)
  show ?case
  proof (cases "i < length ss")
    case True
    with snoc.IH show ?thesis by (simp add: gap_lengths_snoc nth_append)
  next
    case False
    with snoc.prems have "i = length ss" by simp
    then show ?thesis by (simp add: gap_lengths_snoc nth_append Let_def)
  qed
qed simp

lemma length_streaks_from [simp]: "length (streaks_from c n ss) = length ss"
  by (induction ss arbitrary: c n) (simp_all add: Let_def)

lemma streaks_from_Nil [simp]: "streaks_from c n ss = [] \<longleftrightarrow> ss = []"
  using length_streaks_from [of c n ss] by (metis length_0_conv)

lemma streaks_snoc:
  "streaks_from c n (ss @ [s]) = streaks_from c n ss @
    [if Some (cs_action_family s) = (if ss = [] then c else Some (cs_action_family (last ss)))
     then Suc (if ss = [] then n else last (streaks_from c n ss)) else 1]"
  by (induction ss arbitrary: c n) (auto simp: Let_def)

lemma length_streaks [simp]: "length (recent_same_action_lengths ss) = length ss"
  by (simp add: recent_same_action_lengths_def)


text \<open>
  A positive gap is the distance to the last edit, when neither an edit nor a validation came after it; a streak
  is the longest run of equal action families that ends at the step.
\<close>

lemma gap_iff:
  assumes "i < length ss" "0 < n"
  shows "validation_gap_lengths ss ! i = n \<longleftrightarrow> n \<le> i \<and> edit_step (ss ! (i - n)) \<and>
    (\<forall>j. i - n < j \<and> j \<le> i \<longrightarrow> \<not> edit_step (ss ! j) \<and> \<not> validation_step (ss ! j))"
proof -
  let ?t = "take (Suc i) ss"
  have len: "length ?t = Suc i" using assms(1) by simp
  have nth: "j \<le> i \<Longrightarrow> ?t ! j = ss ! j" for j by simp
  have excl: "edit_step s \<Longrightarrow> \<not> validation_step s" for s by (auto simp: edit_step_def validation_step_def)
  have "validation_gap_lengths ss ! i = n \<longleftrightarrow>
      n \<le> i \<and> last_position edit_step ?t = Suc (i - n) \<and> last_position validation_step ?t \<le> i - n"
    using assms(2) last_position_bound [of edit_step ?t] unfolding gap_at [OF assms(1)] Let_def len by auto
  also have "\<dots> \<longleftrightarrow> n \<le> i \<and> edit_step (ss ! (i - n)) \<and>
      (\<forall>j. i - n < j \<and> j \<le> i \<longrightarrow> \<not> edit_step (ss ! j) \<and> \<not> validation_step (ss ! j))"
    unfolding last_position_Suc last_position_le len
    using nth excl by (auto simp: less_Suc_eq_le) (metis le_neq_implies_less nth)+
  finally show ?thesis .
qed

lemma streak_step:
  assumes "Suc i < length ss"
  shows "recent_same_action_lengths ss ! Suc i =
    (if cs_action_family (ss ! Suc i) = cs_action_family (ss ! i) then Suc (recent_same_action_lengths ss ! i) else 1)"
  using assms
proof (induction ss rule: rev_induct)
  case (snoc s ss)
  have app: "recent_same_action_lengths (ss @ [s]) = recent_same_action_lengths ss @
      [if ss \<noteq> [] \<and> cs_action_family s = cs_action_family (last ss) then Suc (last (recent_same_action_lengths ss)) else 1]"
    by (simp add: recent_same_action_lengths_def streaks_snoc)
  show ?case
  proof (cases "Suc i < length ss")
    case True
    with snoc.IH show ?thesis by (simp add: app nth_append)
  next
    case False
    with snoc.prems have i: "length ss = Suc i" by simp
    then have "ss \<noteq> []" "recent_same_action_lengths ss \<noteq> []" by (metis length_0_conv nat.distinct(1) length_streaks)+
    then have "last ss = ss ! i" "last (recent_same_action_lengths ss) = recent_same_action_lengths ss ! i"
      using i by (simp_all add: last_conv_nth)
    with \<open>ss \<noteq> []\<close> show ?thesis by (simp add: app nth_append i)
  qed
qed simp

lemma streak_first: "ss \<noteq> [] \<Longrightarrow> recent_same_action_lengths ss ! 0 = 1"
  by (cases ss) (auto simp: recent_same_action_lengths_def)

definition run_ends :: "canonical_state list \<Rightarrow> nat \<Rightarrow> nat \<Rightarrow> bool" where
  "run_ends ss i n \<longleftrightarrow> 1 \<le> n \<and> n \<le> Suc i \<and>
     (\<forall>j. i < j + n \<and> j \<le> i \<longrightarrow> cs_action_family (ss ! j) = cs_action_family (ss ! i)) \<and>
     (n \<le> i \<longrightarrow> cs_action_family (ss ! (i - n)) \<noteq> cs_action_family (ss ! i))"

lemma run_ends_facts:
  assumes "run_ends ss i n"
  shows "1 \<le> n" "n \<le> Suc i" "i < j + n \<Longrightarrow> j \<le> i \<Longrightarrow> cs_action_family (ss ! j) = cs_action_family (ss ! i)"
    "n \<le> i \<Longrightarrow> cs_action_family (ss ! (i - n)) \<noteq> cs_action_family (ss ! i)"
  using assms unfolding run_ends_def by blast+

lemma run_ends_Suc:
  assumes "run_ends ss i n"
  shows "run_ends ss (Suc i) (if cs_action_family (ss ! Suc i) = cs_action_family (ss ! i) then Suc n else 1)"
proof (cases "cs_action_family (ss ! Suc i) = cs_action_family (ss ! i)")
  case True
  have "cs_action_family (ss ! j) = cs_action_family (ss ! Suc i)" if "Suc i < j + Suc n" "j \<le> Suc i" for j
  proof (cases "j = Suc i")
    case False
    with that have "i < j + n" "j \<le> i" by simp_all
    with run_ends_facts(3) [OF assms] True show ?thesis by metis
  qed simp
  moreover have "Suc n \<le> Suc i \<longrightarrow> cs_action_family (ss ! (Suc i - Suc n)) \<noteq> cs_action_family (ss ! Suc i)"
    using run_ends_facts(4) [OF assms] True by simp
  moreover have "1 \<le> Suc n" "Suc n \<le> Suc (Suc i)" using run_ends_facts(2) [OF assms] by simp_all
  ultimately have "run_ends ss (Suc i) (Suc n)" unfolding run_ends_def by blast
  with True show ?thesis by simp
next
  case False
  have "cs_action_family (ss ! j) = cs_action_family (ss ! Suc i)" if "Suc i < j + 1" "j \<le> Suc i" for j
    using that by (metis Suc_eq_plus1 Suc_le_lessD le_antisym less_Suc_eq_le)
  moreover have "1 \<le> Suc i \<longrightarrow> cs_action_family (ss ! (Suc i - 1)) \<noteq> cs_action_family (ss ! Suc i)" using False by simp
  moreover have "1 \<le> Suc (Suc i)" by simp
  ultimately have "run_ends ss (Suc i) 1" unfolding run_ends_def by blast
  with False show ?thesis by simp
qed

lemma streak_maximal: "i < length ss \<Longrightarrow> run_ends ss i (recent_same_action_lengths ss ! i)"
proof (induction i)
  case 0
  then have "recent_same_action_lengths ss ! 0 = 1" by (intro streak_first) auto
  then show ?case by (simp add: run_ends_def)
next
  case (Suc i)
  then show ?case using run_ends_Suc [of ss i] by (simp add: streak_step)
qed

lemma run_ends_less: "run_ends ss i n \<Longrightarrow> run_ends ss i m \<Longrightarrow> \<not> n < m"
  using run_ends_facts(3) [of ss i m "i - n"] run_ends_facts(2,4) [of ss i n] run_ends_facts(1,2) [of ss i m] by force

lemma run_ends_unique: "run_ends ss i n \<Longrightarrow> run_ends ss i m \<Longrightarrow> n = m"
  using run_ends_less linorder_neqE_nat by metis


section \<open>What a diagnosis reports\<close>

lemma at_prefix_inside: "1 \<le> i \<Longrightarrow> i \<le> int (length xs) \<Longrightarrow> at_prefix xs i d = Inr (xs ! nat (i - 1))"
  by (simp add: at_prefix_def)

lemma round_to_le_1: "x \<le> 1 \<Longrightarrow> round_to n x \<le> 1"
proof -
  assume "x \<le> 1"
  then have "x * 10 ^ n \<le> of_int (10 ^ n)" by simp
  from round_half_even_mono [OF this] have "round_half_even (x * 10 ^ n) \<le> 10 ^ n" by (simp only: round_half_even_int)
  then have "(of_int (round_half_even (x * 10 ^ n)) :: rat) \<le> of_int (10 ^ n)" by (simp only: of_int_le_iff)
  then show ?thesis by (simp add: round_to_def)
qed

lemma set_option_values: "set (option_values xs) = {a. Some a \<in> set xs}"
  by (induction xs) (auto simp: option_values_def split: option.splits)

lemma top_of_sorted:
  assumes "c \<in> set xs" "c \<notin> set (take n (sort_key f xs))" "t \<in> set (take n (sort_key f xs))"
  shows "f t \<le> f c"
proof -
  let ?s = "sort_key f xs"
  have "sorted (map f (take n ?s) @ map f (drop n ?s))"
    by (metis append_take_drop_id map_append sorted_sort_key)
  moreover have "c \<in> set (drop n ?s)" using assms(1,2) by (metis UnE append_take_drop_id set_append set_sort)
  ultimately show ?thesis using assms(3) by (auto simp: sorted_append)
qed

lemma sort_key_Nil [simp]: "sort_key f xs = [] \<longleftrightarrow> xs = []"
  by (metis length_0_conv length_sort)

lemma diagnose_Inr:
  assumes "diagnose_from_features chain rows states = Inr d"
  obtains found where "map (prefix_candidate states) rows = map Inr found"
    "di_top_candidates d = take 3 (sort_key rank_key (option_values found))"
    "di_candidate_count d = length (option_values found)"
    "di_first_actionable d = (if option_values found = [] then None
       else Some (Min (set (map ca_prefix_index (option_values found)))))"
  using assms by (auto simp: diagnose_from_features_def and_then_eq_Inr sequence_Inr_iff_map Let_def)

lemma found_candidates:
  assumes "map (prefix_candidate states) rows = map Inr found"
  shows "c \<in> set (option_values found) \<longleftrightarrow> (\<exists>row \<in> set rows. prefix_candidate states row = Inr (Some c))"
proof -
  have "c \<in> set (option_values found) \<longleftrightarrow> Inr (Some c) \<in> set (map Inr found :: (pyexn + candidate option) list)"
    by (auto simp: set_option_values)
  then show ?thesis by (auto simp: assms [symmetric] image_iff eq_commute)
qed

text \<open>
  The contract of a candidate, apart from the counters: the reasons that hold of a step with a validation gap and a
  streak, in their order, and the score as a weighted mean.
\<close>

definition REASONS :: "string list" where
  "REASONS = [''recurrence_spike'', ''loop_or_duplicate_pattern'', ''error_streak_or_error_observation'',
     ''validation_gap_after_edit'', ''same_action_family_streak'', ''long_run_low_action_entropy'']"

definition reason_holds :: "features \<Rightarrow> canonical_state \<Rightarrow> nat \<Rightarrow> nat \<Rightarrow> string \<Rightarrow> bool" where
  "reason_holds f s gap streak r \<longleftrightarrow>
     r = ''recurrence_spike'' \<and> (1/2 \<le> fe_online_str f \<or> 35/100 \<le> fe_recurrence_persistence f) \<or>
     r = ''loop_or_duplicate_pattern'' \<and> (45/100 \<le> fe_duplicate_ratio f \<or> 35/100 \<le> fe_adjacent_repeat_ratio f) \<or>
     r = ''error_streak_or_error_observation'' \<and> (2 \<le> fe_error_streak f \<or> cs_observation_class s = ''error'') \<or>
     r = ''validation_gap_after_edit'' \<and> 3 \<le> gap \<or>
     r = ''same_action_family_streak'' \<and> 4 \<le> streak \<and> cs_action_family s \<notin> {''none'', ''terminal''} \<or>
     r = ''long_run_low_action_entropy'' \<and> 40 \<le> fe_step_count f \<and> fe_action_entropy f \<le> 1"

definition audit_score :: "features \<Rightarrow> nat \<Rightarrow> nat \<Rightarrow> rat" where
  "audit_score f gap streak =
     (6 * Max {fe_online_str f, fe_recurrence_persistence f, fe_duplicate_ratio f, fe_adjacent_repeat_ratio f} +
      5 * min 1 (of_int (fe_error_streak f) / 3) + 5 * min 1 (of_nat gap / 6) +
      2 * min 1 (of_nat (streak - 1) / 5) + 2 * (1 - min 1 (max 0 (fe_action_entropy f) / 3))) / 20"

text \<open>The distance to the last edit, if neither an edit nor a validation came after it; otherwise 0.\<close>

definition gap_ends :: "canonical_state list \<Rightarrow> nat \<Rightarrow> nat \<Rightarrow> bool" where
  "gap_ends ss i g \<longleftrightarrow> (\<forall>n > 0. g = n \<longleftrightarrow> n \<le> i \<and> edit_step (ss ! (i - n)) \<and>
     (\<forall>j. i - n < j \<and> j \<le> i \<longrightarrow> \<not> edit_step (ss ! j) \<and> \<not> validation_step (ss ! j)))"

definition transition_candidate :: "canonical_state list \<Rightarrow> feature_row \<Rightarrow> candidate \<Rightarrow> bool" where
  "transition_candidate states row c \<longleftrightarrow>
     (let i = nat (fr_prefix_index row - 1); s = states ! i; f = fr_features row in
      gap_ends states i (ca_gap c) \<and> run_ends states i (ca_streak c) \<and>
      c = \<lparr>ca_prefix_index = fr_prefix_index row, ca_prefix_sha256 = fr_prefix_sha256 row,
        ca_score = round_to 6 (min 1 (audit_score f (ca_gap c) (ca_streak c))),
        ca_reasons = filter (reason_holds f s (ca_gap c) (ca_streak c)) REASONS,
        ca_action_family = cs_action_family s, ca_observation_class = cs_observation_class s,
        ca_gap = ca_gap c, ca_streak = ca_streak c, ca_step_count = fe_step_count f\<rparr> \<and>
      ca_reasons c \<noteq> [] \<and> 35/100 \<le> ca_score c)"

definition inside :: "'a list \<Rightarrow> feature_row \<Rightarrow> bool" where
  "inside states row \<longleftrightarrow> 1 \<le> fr_prefix_index row \<and> fr_prefix_index row \<le> int (length states)"

lemma gap_counted: "i < length ss \<Longrightarrow> gap_ends ss i (validation_gap_lengths ss ! i)"
  unfolding gap_ends_def using gap_iff by blast

lemma gap_ends_unique: "gap_ends ss i g \<Longrightarrow> gap_ends ss i g' \<Longrightarrow> g = g'"
  unfolding gap_ends_def by (metis neq0_conv)

lemma reason_codes_filter: "reason_codes f (Some s) gap streak = Inr (filter (reason_holds f s gap streak) REASONS)"
  by (simp add: reason_codes_def state_entry_def REASONS_def reason_holds_def)

lemma diagnostic_score_weights:
  assumes "1 \<le> streak"
  shows "diagnostic_score f gap streak = round_to 6 (min 1 (audit_score f gap streak))"
proof -
  let ?r = "max (max (max (fe_online_str f) (fe_recurrence_persistence f)) (fe_duplicate_ratio f)) (fe_adjacent_repeat_ratio f)"
  let ?e = "min 1 (of_int (fe_error_streak f) / 3) :: rat" and ?v = "min 1 (of_nat gap / 6) :: rat"
    and ?s = "min 1 (of_nat (streak - 1) / 5) :: rat" and ?h = "1 - min 1 (max 0 (fe_action_entropy f) / 3)"
  have "Max {fe_online_str f, fe_recurrence_persistence f, fe_duplicate_ratio f, fe_adjacent_repeat_ratio f} = ?r"
    by (simp add: max.assoc)
  moreover have "max 0 (of_nat streak - 1) = (of_nat (streak - 1) :: rat)" using assms by (simp add: of_nat_diff max_def)
  moreover have "30/100 * ?r + 25/100 * ?e + 25/100 * ?v + 10/100 * ?s + 10/100 * ?h =
      (6 * ?r + 5 * ?e + 5 * ?v + 2 * ?s + 2 * ?h) / 20" by (simp add: field_simps)
  ultimately show ?thesis by (simp only: diagnostic_score_def audit_score_def Let_def)
qed

lemma candidate_inside:
  assumes "inside states row"
  shows "prefix_candidate states row = Inr (Some c) \<longleftrightarrow> transition_candidate states row c"
proof -
  define i where "i = nat (fr_prefix_index row - 1)"
  let ?g = "validation_gap_lengths states ! i" and ?n = "recent_same_action_lengths states ! i" and ?f = "fr_features row"
    and ?s = "states ! i"
  let ?reasons = "filter (reason_holds ?f ?s ?g ?n) REASONS" and ?score = "round_to 6 (min 1 (audit_score ?f ?g ?n))"
  have i: "i < length states" using assms unfolding i_def inside_def by linarith
  have at: "at_prefix (map Some states) (fr_prefix_index row) None = Inr (Some ?s)"
    "at_prefix (validation_gap_lengths states) (fr_prefix_index row) 0 = Inr ?g"
    "at_prefix (recent_same_action_lengths states) (fr_prefix_index row) 0 = Inr ?n"
    using i assms by (simp_all add: at_prefix_inside i_def [symmetric] inside_def)
  note run = streak_maximal [OF i] and gap = gap_counted [OF i]
  have code: "prefix_candidate states row = Inr (if ?reasons \<noteq> [] \<and> 35/100 \<le> ?score
      then Some \<lparr>ca_prefix_index = fr_prefix_index row, ca_prefix_sha256 = fr_prefix_sha256 row, ca_score = ?score,
        ca_reasons = ?reasons, ca_action_family = cs_action_family ?s, ca_observation_class = cs_observation_class ?s,
        ca_gap = ?g, ca_streak = ?n, ca_step_count = fe_step_count ?f\<rparr> else None)"
    using diagnostic_score_weights [OF run_ends_facts(1) [OF run]] unfolding prefix_candidate_def Let_def
    by (simp add: at reason_codes_filter)
  have fields: "gap_ends states i g \<longleftrightarrow> g = ?g" "run_ends states i n \<longleftrightarrow> n = ?n" for g n
    using gap_ends_unique gap run_ends_unique run by blast+
  show ?thesis
    unfolding code transition_candidate_def Let_def i_def [symmetric] fields by (cases c) auto
qed

text \<open>
  C28: a diagnosis names the best transition candidates. Of the candidates of all prefixes the report gives the three
  best, higher scores first and earlier prefixes among equal scores, and the earliest one as first actionable. A prefix
  inside the trajectory is a candidate exactly when one of the six reasons holds and its score is at least 0.35, and
  it carries exact evidence: the reasons that hold, in order; the weighted score, rounded; as its streak the maximal
  run of equal action families that ends there; as its validation gap the distance to the last edit, when neither an
  edit nor a validation came after it.
\<close>

theorem diagnosis_reports_best_transitions:
  assumes "diagnose_from_features chain rows states = Inr d"
  defines "qualified \<equiv> {c. \<exists>row \<in> set rows. prefix_candidate states row = Inr (Some c)}"
  shows "set (di_top_candidates d) \<subseteq> qualified \<and>
    (\<forall>c \<in> qualified - set (di_top_candidates d). length (di_top_candidates d) = 3 \<and>
       (\<forall>t \<in> set (di_top_candidates d). rank_key t \<le> rank_key c)) \<and>
    sorted (map rank_key (di_top_candidates d)) \<and>
    di_first_actionable d = (if qualified = {} then None else Some (Min (ca_prefix_index ` qualified))) \<and>
    (\<forall>row \<in> set rows. inside states row \<longrightarrow>
       (\<forall>c. prefix_candidate states row = Inr (Some c) \<longleftrightarrow> transition_candidate states row c))"
proof -
  from assms(1) obtain found where f: "map (prefix_candidate states) rows = map Inr found"
    "di_top_candidates d = take 3 (sort_key rank_key (option_values found))"
    "di_first_actionable d = (if option_values found = [] then None
       else Some (Min (set (map ca_prefix_index (option_values found)))))"
    by (rule diagnose_Inr)
  have q: "qualified = set (option_values found)" using found_candidates [OF f(1)] by (auto simp: qualified_def)
  let ?top = "di_top_candidates d"
  have sub: "set ?top \<subseteq> qualified" unfolding f(2) q by (metis set_sort set_take_subset)
  have best: "length ?top = 3 \<and> (\<forall>t \<in> set ?top. rank_key t \<le> rank_key c)" if "c \<in> qualified - set ?top" for c
  proof -
    have "\<not> length (option_values found) \<le> 3" using that by (auto simp: f(2) q)
    then show ?thesis using that top_of_sorted [of c "option_values found" 3 rank_key] by (auto simp: f(2) q)
  qed
  have sort: "sorted (map rank_key ?top)" by (simp add: f(2) take_map [symmetric] sorted_wrt_take)
  have first: "di_first_actionable d = (if qualified = {} then None else Some (Min (ca_prefix_index ` qualified)))"
    by (simp add: f(3) q)
  show ?thesis using sub best sort first candidate_inside by blast
qed

definition demo_states :: "canonical_state list" where
  "demo_states = map (\<lambda>f. \<lparr>cs_action_family = f, cs_observation_class = ''neutral'', cs_working_dir_class = ''testbed''\<rparr>)
     [''file_edit'', ''search'', ''search'', ''search'']"

definition demo_row :: feature_row where
  "demo_row = \<lparr>fr_prefix_index = 4, fr_prefix_sha256 = ''ab'', fr_features = \<lparr>fe_online_str = 1, fe_recurrence_persistence = 0,
     fe_duplicate_ratio = 0, fe_adjacent_repeat_ratio = 0, fe_error_streak = 3, fe_step_count = 4, fe_action_entropy = 0\<rparr>\<rparr>"

definition demo_chain_row :: chain_row where
  "demo_chain_row = \<lparr>ch_trajectory_id = ''t'', ch_source_task_id = ''t'', ch_source_family = ''f'', ch_run_window = ''w''\<rparr>"

lemma demo_counters: "validation_gap_lengths demo_states = [0, 1, 2, 3]" "recent_same_action_lengths demo_states = [1, 1, 2, 3]"
  by code_simp+

lemma demo_candidate: "case prefix_candidate demo_states demo_row of Inr (Some c) \<Rightarrow> ca_gap c = 3 \<and> ca_prefix_index c = 4
    | _ \<Rightarrow> False"
proof -
  have st: "at_prefix (map Some demo_states) 4 None = Inr (Some (demo_states ! 3))"
    by (simp add: at_prefix_def demo_states_def)
  have "diagnostic_score (fr_features demo_row) 3 3 = 815/1000"
    by (simp add: diagnostic_score_def demo_row_def Let_def round_to_def round_half_even_def)
  then show ?thesis
    unfolding prefix_candidate_def Let_def demo_counters
    by (simp add: demo_row_def st at_prefix_def [where d = "0::nat"] reason_codes_def)
qed

theorem diagnosis_reports_best_transitions_witness:
  "\<exists>d. diagnose_from_features demo_chain_row [demo_row] demo_states = Inr d \<and> di_first_actionable d = Some 4 \<and>
     edit_step (demo_states ! 0)"
proof -
  obtain c where c: "prefix_candidate demo_states demo_row = Inr (Some c)" "ca_gap c = 3" "ca_prefix_index c = 4"
    using demo_candidate by (auto split: sum.splits option.splits)
  then obtain d where d: "diagnose_from_features demo_chain_row [demo_row] demo_states = Inr d"
    by (simp add: diagnose_from_features_def Let_def)
  have q: "{c. \<exists>row \<in> set [demo_row]. prefix_candidate demo_states row = Inr (Some c)} = {c}" using c by auto
  have row: "fr_prefix_index demo_row = 4" "length demo_states = 4" by (simp_all add: demo_row_def demo_states_def)
  note report = diagnosis_reports_best_transitions [OF d, unfolded q]
  from report c(3) have "di_first_actionable d = Some 4" by simp
  moreover have "transition_candidate demo_states demo_row c"
    using report c(1) row by (auto simp: inside_def)
  then have "edit_step (demo_states ! 0)"
    using c(2) row by (auto simp: transition_candidate_def Let_def gap_ends_def dest!: spec [where x = "3::nat"])
  ultimately show ?thesis using d by blast
qed

end
