(* ===== verification/Intervention_Planner.thy ===== *)
theory Intervention_Planner
  imports Diagnosis
begin

text \<open>
  The paired-intervention planner, \<open>packages/clinic/src/wutai_clinic/intervention/planner.py\<close>: the top
  candidate of every diagnosed trajectory is matched to intervention policies, quotas per role and policy are
  filled in order, and every selected record becomes a pair with a control and an intervention arm. Rows are
  records, the JSON text of a score is the parameter \<open>num\<close>.
\<close>

section \<open>Policies and quotas\<close>

record intervention_policy =
  po_required_reason :: string
  po_trigger_summary :: string
  po_intervention_summary :: string

definition INTERVENTION_POLICIES :: "intervention_policy pydict" where
  "INTERVENTION_POLICIES =
    [(''insert_validation_checkpoint'',
       \<lparr>po_required_reason = ''validation_gap_after_edit'',
        po_trigger_summary = ''A file edit/write has been followed by several non-validation steps.'',
        po_intervention_summary = ''Stop further exploration and require a narrow validation step before more '' @
          ''edits, final submission, or broad re-planning.''\<rparr>),
     (''break_recurrence_and_replan'',
       \<lparr>po_required_reason = ''loop_or_duplicate_pattern'',
        po_trigger_summary = ''The recent prefix shows repeated structural states or high recurrence.'',
        po_intervention_summary = ''Summarize the current hypothesis, mark the repeated path as exhausted, '' @
          ''and switch to a different evidence source.''\<rparr>),
     (''error_observation_recovery'',
       \<lparr>po_required_reason = ''error_streak_or_error_observation'',
        po_trigger_summary = ''The current or recent prefix contains error observations.'',
        po_intervention_summary = ''Parse the latest error class, preserve the failing evidence hash, and '' @
          ''choose a recovery step grounded in that error rather than repeating.''\<rparr>),
     (''same_action_escape'',
       \<lparr>po_required_reason = ''same_action_family_streak'',
        po_trigger_summary = ''The same action family has repeated for multiple steps.'',
        po_intervention_summary = ''Block another same-family step unless it introduces new evidence; force '' @
          ''a different action family or a concise re-plan.''\<rparr>)]"

datatype role = Failure_Target | Success_Sentinel

fun role_name :: "role \<Rightarrow> string" where
  "role_name Failure_Target = ''failure_target''"
| "role_name Success_Sentinel = ''success_sentinel''"

definition ROLE_POLICY_QUOTAS :: "(role \<times> (string \<times> nat) list) list" where
  "ROLE_POLICY_QUOTAS =
    [(Failure_Target, [(''insert_validation_checkpoint'', 6), (''break_recurrence_and_replan'', 6),
        (''error_observation_recovery'', 6), (''same_action_escape'', 6)]),
     (Success_Sentinel, [(''insert_validation_checkpoint'', 2), (''break_recurrence_and_replan'', 2),
        (''error_observation_recovery'', 2), (''same_action_escape'', 2)])]"

fun ROLE_OUTCOME :: "role \<Rightarrow> string" where
  "ROLE_OUTCOME Failure_Target = ''failure''"
| "ROLE_OUTCOME Success_Sentinel = ''success''"

fun MAX_PER_FAMILY :: "role \<Rightarrow> nat" where
  "MAX_PER_FAMILY Failure_Target = 4"
| "MAX_PER_FAMILY Success_Sentinel = 2"

section \<open>Candidate records\<close>

record diagnosed =
  dg_chain :: chain_row
  dg_outcome_class :: string
  dg_top_candidates :: "candidate list"

record plan_record =
  pl_policy_id :: string
  pl_chain :: chain_row
  pl_outcome_class :: string
  pl_candidate :: candidate

definition top_candidate :: "diagnosed \<Rightarrow> candidate option" where
  "top_candidate row = (case dg_top_candidates row of [] \<Rightarrow> None | c # _ \<Rightarrow> Some c)"

definition candidate_records :: "diagnosed list \<Rightarrow> plan_record list" where
  "candidate_records rows = concat (map (\<lambda>row. case top_candidate row of
       None \<Rightarrow> []
     | Some c \<Rightarrow> map (\<lambda>(pid, _). \<lparr>pl_policy_id = pid, pl_chain = dg_chain row, pl_outcome_class = dg_outcome_class row,
           pl_candidate = c\<rparr>)
         (filter (\<lambda>(_, p). po_required_reason p \<in> set (ca_reasons c)) INTERVENTION_POLICIES)) rows)"

abbreviation task_of :: "plan_record \<Rightarrow> string" where
  "task_of r \<equiv> ch_source_task_id (pl_chain r)"

abbreviation family_of :: "plan_record \<Rightarrow> string" where
  "family_of r \<equiv> ch_source_family (pl_chain r)"

definition plan_key :: "plan_record \<Rightarrow> rat \<times> string \<times> string \<times> int \<times> string" where
  "plan_key r = (- ca_score (pl_candidate r), family_of r, task_of r, ca_prefix_index (pl_candidate r), pl_policy_id r)"

section \<open>Selection\<close>

text \<open>What a selection updates: the selected records, the used tasks and the counts per source family.\<close>

record picks =
  pk_selected :: "plan_record list"
  pk_used :: "string list"
  pk_families :: "nat pydict"

definition pick :: "plan_record \<Rightarrow> picks \<Rightarrow> picks" where
  "pick r st = \<lparr>pk_selected = pk_selected st @ [r], pk_used = List.insert (task_of r) (pk_used st),
     pk_families = dict_incr (family_of r) (pk_families st)\<rparr>"

definition family_count :: "picks \<Rightarrow> string \<Rightarrow> nat" where
  "family_count st f = (case dict_get (pk_families st) f of Some n \<Rightarrow> n | None \<Rightarrow> 0)"

fun pick_capped :: "nat \<Rightarrow> nat \<Rightarrow> plan_record list \<Rightarrow> picks \<Rightarrow> picks" where
  "pick_capped cap quota [] st = st"
| "pick_capped cap quota (r # rs) st =
     (if length (pk_selected st) = quota then st
      else if cap \<le> family_count st (family_of r) then pick_capped cap quota rs st
      else pick_capped cap quota rs (pick r st))"

fun pick_unused :: "nat \<Rightarrow> plan_record list \<Rightarrow> picks \<Rightarrow> picks" where
  "pick_unused quota [] st = st"
| "pick_unused quota (r # rs) st =
     (if length (pk_selected st) = quota then st
      else if task_of r \<in> set (pk_used st) then pick_unused quota rs st
      else pick_unused quota rs (pick r st))"

definition eligible :: "role \<Rightarrow> string \<Rightarrow> string list \<Rightarrow> plan_record list \<Rightarrow> plan_record list" where
  "eligible rl pid used records = sort_key plan_key (filter (\<lambda>r. pl_outcome_class r = ROLE_OUTCOME rl \<and>
     pl_policy_id r = pid \<and> task_of r \<notin> set used) records)"

definition select_records :: "plan_record list \<Rightarrow> role \<Rightarrow> string \<Rightarrow> nat \<Rightarrow> string list \<Rightarrow> nat pydict \<Rightarrow> picks" where
  "select_records records rl pid quota used families =
     (let candidates = eligible rl pid used records;
          st = pick_capped (MAX_PER_FAMILY rl) quota candidates \<lparr>pk_selected = [], pk_used = used, pk_families = families\<rparr>
      in if length (pk_selected st) < quota then pick_unused quota candidates st else st)"

section \<open>Pairs and arms\<close>

record package_pair =
  pp_pair_id :: string
  pp_role :: role
  pp_policy_id :: string
  pp_record :: plan_record

definition pair_id :: "nat \<Rightarrow> role \<Rightarrow> string \<Rightarrow> string" where
  "pair_id index rl pid = ''phase312_pair_'' @ pad3 index @ ''_'' @ role_name rl @ ''_'' @ pid"

fun number_pairs :: "nat \<Rightarrow> role \<Rightarrow> string \<Rightarrow> plan_record list \<Rightarrow> package_pair list" where
  "number_pairs index rl pid [] = []"
| "number_pairs index rl pid (r # rs) =
     \<lparr>pp_pair_id = pair_id index rl pid, pp_role = rl, pp_policy_id = pid, pp_record = r\<rparr> # number_pairs (Suc index) rl pid rs"

fun fill_quotas :: "plan_record list \<Rightarrow> role \<Rightarrow> (string \<times> nat) list \<Rightarrow> string list \<Rightarrow> nat pydict \<Rightarrow> nat \<Rightarrow>
    package_pair list \<times> string list \<times> nat" where
  "fill_quotas records rl [] used families index = ([], used, index)"
| "fill_quotas records rl ((pid, quota) # qs) used families index =
     (let st = select_records records rl pid quota used families;
          now = number_pairs index rl pid (pk_selected st);
          (later, used', index') = fill_quotas records rl qs (pk_used st) (pk_families st) (index + length (pk_selected st))
      in (now @ later, used', index'))"

fun fill_roles :: "plan_record list \<Rightarrow> (role \<times> (string \<times> nat) list) list \<Rightarrow> string list \<Rightarrow> nat \<Rightarrow> package_pair list" where
  "fill_roles records [] used index = []"
| "fill_roles records ((rl, quotas) # rs) used index =
     (let (now, used', index') = fill_quotas records rl quotas used [] index
      in now @ fill_roles records rs used' index')"

definition build_pairs :: "plan_record list \<Rightarrow> package_pair list" where
  "build_pairs records = sort_key pp_pair_id (fill_roles records ROLE_POLICY_QUOTAS [] 1)"

definition PACKAGE_VERSION :: string where "PACKAGE_VERSION = ''phase312_paired_intervention_v1''"

definition state_class_json :: "candidate \<Rightarrow> json" where
  "state_class_json c = JObj [(''action_family'', JStr (ca_action_family c)), (''observation_class'', JStr (ca_observation_class c))]"

definition context_json :: "candidate \<Rightarrow> json" where
  "context_json c = JObj [(''validation_gap_steps'', JInt (int (ca_gap c))), (''same_action_family_streak'', JInt (int (ca_streak c))),
     (''step_count'', JInt (ca_step_count c))]"

definition package_row :: "(rat \<Rightarrow> json) \<Rightarrow> package_pair \<Rightarrow> json pydict" where
  "package_row num p =
     (let r = pp_record p; c = pl_candidate r; ch = pl_chain r; po = the (dict_get INTERVENTION_POLICIES (pp_policy_id p)) in
     [(''phase'', JStr ''3.12''), (''package_version'', JStr PACKAGE_VERSION), (''pair_id'', JStr (pp_pair_id p)),
      (''selection_role'', JStr (role_name (pp_role p))),
      (''source_task_id'', JStr (ch_source_task_id ch)), (''source_family'', JStr (ch_source_family ch)),
      (''source_run_window'', JStr (ch_run_window ch)), (''source_trajectory_id'', JStr (ch_trajectory_id ch)),
      (''candidate_prefix_index'', JInt (ca_prefix_index c)), (''candidate_prefix_sha256'', JStr (ca_prefix_sha256 c)),
      (''candidate_diagnostic_score'', num (ca_score c)), (''candidate_reason_codes'', JList (map JStr (ca_reasons c))),
      (''candidate_state_class'', state_class_json c), (''candidate_prefix_only_context'', context_json c),
      (''intervention_policy_id'', JStr (pp_policy_id p)), (''intervention_trigger_summary'', JStr (po_trigger_summary po)),
      (''intervention_summary'', JStr (po_intervention_summary po)),
      (''selection_basis'', JStr (''outcome_stratified_design_plus_prefix_only_audit_candidate; '' @
         ''future runtime trigger must not read outcome labels'')),
      (''future_eval_target'', JStr ''official_swebench_resolved_boolean''), (''status'', JStr ''package_only_not_run'')])"

definition arm_base :: "package_pair \<Rightarrow> json pydict" where
  "arm_base p =
     (let r = pp_record p; c = pl_candidate r; ch = pl_chain r in
     [(''phase'', JStr ''3.12''), (''package_version'', JStr PACKAGE_VERSION), (''pair_id'', JStr (pp_pair_id p)),
      (''selection_role'', JStr (role_name (pp_role p))), (''source_task_id'', JStr (ch_source_task_id ch)),
      (''source_family'', JStr (ch_source_family ch)), (''source_trajectory_id'', JStr (ch_trajectory_id ch)),
      (''candidate_prefix_sha256'', JStr (ca_prefix_sha256 c)), (''candidate_prefix_index'', JInt (ca_prefix_index c)),
      (''future_eval_target'', JStr ''official_swebench_resolved_boolean''), (''status'', JStr ''package_only_not_run'')])"

definition control_arm :: "package_pair \<Rightarrow> json pydict" where
  "control_arm p = arm_base p @
     [(''arm_id'', JStr (pp_pair_id p @ ''__control'')), (''arm_type'', JStr ''control''),
      (''runtime_policy_id'', JStr ''frozen_baseline_no_extra_intervention''),
      (''runtime_policy_summary'', JStr (''Rerun the SWE task under the frozen baseline protocol without '' @
         ''using Phase 3.11 candidate signals.''))]"

definition intervention_arm :: "package_pair \<Rightarrow> json pydict" where
  "intervention_arm p =
     (let c = pl_candidate (pp_record p); po = the (dict_get INTERVENTION_POLICIES (pp_policy_id p)) in arm_base p @
     [(''arm_id'', JStr (pp_pair_id p @ ''__intervention'')), (''arm_type'', JStr ''intervention''),
      (''runtime_policy_id'', JStr (pp_policy_id p)), (''runtime_policy_summary'', JStr (po_intervention_summary po)),
      (''trigger_signature'', JObj [(''reason_codes'', JList (map JStr (ca_reasons c))),
         (''state_class'', state_class_json c), (''prefix_only_context'', context_json c)])])"

definition arm_rows :: "package_pair list \<Rightarrow> json pydict list" where
  "arm_rows pairs = concat (map (\<lambda>p. [control_arm p, intervention_arm p]) pairs)"

definition build_package_rows :: "diagnosed list \<Rightarrow> package_pair list \<times> json pydict list" where
  "build_package_rows rows = (let pairs = build_pairs (candidate_records rows) in (pairs, arm_rows pairs))"


section \<open>Selection keeps the quotas\<close>

definition picked_from :: "string list \<Rightarrow> plan_record list \<Rightarrow> nat \<Rightarrow> picks \<Rightarrow> bool" where
  "picked_from used cands quota st \<longleftrightarrow> set (pk_selected st) \<subseteq> set cands \<and> length (pk_selected st) \<le> quota \<and>
     set (pk_used st) = set used \<union> task_of ` set (pk_selected st)"

lemma picked_from_pick:
  "picked_from used cands quota st \<Longrightarrow> r \<in> set cands \<Longrightarrow> length (pk_selected st) \<noteq> quota \<Longrightarrow>
    picked_from used cands quota (pick r st)"
  by (auto simp: picked_from_def pick_def)

lemma picked_from_capped:
  "picked_from used cands quota st \<Longrightarrow> set rs \<subseteq> set cands \<Longrightarrow> picked_from used cands quota (pick_capped cap quota rs st)"
  by (induction rs arbitrary: st) (auto intro: picked_from_pick)

lemma picked_from_unused:
  "picked_from used cands quota st \<Longrightarrow> set rs \<subseteq> set cands \<Longrightarrow> picked_from used cands quota (pick_unused quota rs st)"
  by (induction rs arbitrary: st) (auto intro: picked_from_pick)

lemma select_records_picked:
  "picked_from used (eligible rl pid used records) quota (select_records records rl pid quota used families)"
proof -
  have "picked_from used (eligible rl pid used records) quota \<lparr>pk_selected = [], pk_used = used, pk_families = families\<rparr>"
    by (simp add: picked_from_def)
  then show ?thesis
    unfolding select_records_def Let_def by (auto intro: picked_from_capped picked_from_unused)
qed

lemma set_eligible: "set (eligible rl pid used records) =
    {r \<in> set records. pl_outcome_class r = ROLE_OUTCOME rl \<and> pl_policy_id r = pid \<and> task_of r \<notin> set used}"
  by (auto simp: eligible_def)

text \<open>The pairs of one role: legal, within the quotas, and every task in one bucket.\<close>

definition legal_pair :: "plan_record list \<Rightarrow> package_pair \<Rightarrow> bool" where
  "legal_pair records p \<longleftrightarrow> pp_record p \<in> set records \<and> pl_policy_id (pp_record p) = pp_policy_id p \<and>
     pl_outcome_class (pp_record p) = ROLE_OUTCOME (pp_role p)"

abbreviation pair_task :: "package_pair \<Rightarrow> string" where
  "pair_task p \<equiv> task_of (pp_record p)"

definition one_bucket :: "package_pair list \<Rightarrow> bool" where
  "one_bucket ps \<longleftrightarrow> (\<forall>p \<in> set ps. \<forall>q \<in> set ps. pair_task p = pair_task q \<longrightarrow>
     pp_role p = pp_role q \<and> pp_policy_id p = pp_policy_id q)"

definition bucket_size :: "package_pair list \<Rightarrow> role \<Rightarrow> string \<Rightarrow> nat" where
  "bucket_size ps rl pid = length (filter (\<lambda>p. pp_role p = rl \<and> pp_policy_id p = pid) ps)"

definition numbered :: "nat \<Rightarrow> package_pair list \<Rightarrow> bool" where
  "numbered index ps \<longleftrightarrow> (\<forall>j < length ps. pp_pair_id (ps ! j) = pair_id (index + j) (pp_role (ps ! j)) (pp_policy_id (ps ! j)))"

lemma numbered_append: "numbered i (xs @ ys) \<longleftrightarrow> numbered i xs \<and> numbered (i + length xs) ys"
proof
  assume a: "numbered i (xs @ ys)"
  have "numbered i xs" unfolding numbered_def
  proof (intro allI impI)
    fix j assume "j < length xs"
    then show "pp_pair_id (xs ! j) = pair_id (i + j) (pp_role (xs ! j)) (pp_policy_id (xs ! j))"
      using a [unfolded numbered_def, rule_format, of j] by (simp add: nth_append)
  qed
  moreover have "numbered (i + length xs) ys" unfolding numbered_def
  proof (intro allI impI)
    fix j assume "j < length ys"
    then show "pp_pair_id (ys ! j) = pair_id (i + length xs + j) (pp_role (ys ! j)) (pp_policy_id (ys ! j))"
      using a [unfolded numbered_def, rule_format, of "length xs + j"] by (simp add: add.assoc)
  qed
  ultimately show "numbered i xs \<and> numbered (i + length xs) ys" by simp
next
  assume a: "numbered i xs \<and> numbered (i + length xs) ys"
  show "numbered i (xs @ ys)" unfolding numbered_def
  proof (intro allI impI)
    fix j assume "j < length (xs @ ys)"
    then show "pp_pair_id ((xs @ ys) ! j) = pair_id (i + j) (pp_role ((xs @ ys) ! j)) (pp_policy_id ((xs @ ys) ! j))"
      using a by (cases "j < length xs") (simp_all add: numbered_def nth_append)
  qed
qed

lemma number_pairs_facts:
  "length (number_pairs i rl pid rs) = length rs" "numbered i (number_pairs i rl pid rs)"
  "map pp_record (number_pairs i rl pid rs) = rs"
  "p \<in> set (number_pairs i rl pid rs) \<Longrightarrow> pp_role p = rl \<and> pp_policy_id p = pid \<and> pp_record p \<in> set rs"
proof -
  show len: "length (number_pairs i rl pid rs) = length rs" for i by (induction rs arbitrary: i) simp_all
  show "map pp_record (number_pairs i rl pid rs) = rs" by (induction rs arbitrary: i) simp_all
  show "p \<in> set (number_pairs i rl pid rs) \<Longrightarrow> pp_role p = rl \<and> pp_policy_id p = pid \<and> pp_record p \<in> set rs"
    by (induction rs arbitrary: i) auto
  show "numbered i (number_pairs i rl pid rs)"
  proof (induction rs arbitrary: i)
    case (Cons r rs)
    then show ?case using numbered_append [of i "[\<lparr>pp_pair_id = pair_id i rl pid, pp_role = rl, pp_policy_id = pid, pp_record = r\<rparr>]"
        "number_pairs (Suc i) rl pid rs"] by (simp add: numbered_def)
  qed (simp add: numbered_def)
qed

lemma bucket_size_append [simp]: "bucket_size (xs @ ys) rl pid = bucket_size xs rl pid + bucket_size ys rl pid"
  by (simp add: bucket_size_def)

lemma bucket_size_other: "(\<And>p. p \<in> set ps \<Longrightarrow> \<not> (pp_role p = rl \<and> pp_policy_id p = pid)) \<Longrightarrow> bucket_size ps rl pid = 0"
  by (auto simp: bucket_size_def filter_empty_conv)

lemma bucket_size_le: "bucket_size ps rl pid \<le> length ps"
  by (simp add: bucket_size_def)


lemma one_bucket_append:
  "one_bucket xs \<Longrightarrow> one_bucket ys \<Longrightarrow> pair_task ` set xs \<inter> pair_task ` set ys = {} \<Longrightarrow> one_bucket (xs @ ys)"
  unfolding one_bucket_def set_append by (metis IntI Un_iff empty_iff imageI)

lemma one_bucket_cong: "set xs = set ys \<Longrightarrow> one_bucket xs \<longleftrightarrow> one_bucket ys"
  by (simp add: one_bucket_def)

lemma fresh_disjoint: "(\<And>p. p \<in> A \<Longrightarrow> f p \<notin> U \<union> V) \<Longrightarrow> V \<inter> f ` A = {}"
  by auto

lemma one_bucket_same: "(\<And>p. p \<in> set ps \<Longrightarrow> pp_role p = rl \<and> pp_policy_id p = pid) \<Longrightarrow> one_bucket ps"
  by (simp add: one_bucket_def)

lemma fill_quotas_facts:
  assumes "fill_quotas records rl qs used families index = (ps, used', index')" "distinct (map fst qs)"
  shows "list_all (legal_pair records) ps \<and> one_bucket ps \<and> numbered index ps \<and> index' = index + length ps \<and>
    set used' = set used \<union> pair_task ` set ps \<and> (\<forall>p \<in> set ps. pp_role p = rl \<and> pp_policy_id p \<in> fst ` set qs \<and> pair_task p \<notin> set used) \<and>
    (\<forall>(pid, quota) \<in> set qs. bucket_size ps rl pid \<le> quota)"
  using assms
proof (induction qs arbitrary: used families index ps)
  case Nil
  then show ?case by (simp add: one_bucket_def numbered_def)
next
  case (Cons q qs)
  obtain pid quota where q: "q = (pid, quota)" by (cases q)
  define st where "st = select_records records rl pid quota used families"
  define now where "now = number_pairs index rl pid (pk_selected st)"
  obtain later where rest: "fill_quotas records rl qs (pk_used st) (pk_families st) (index + length (pk_selected st)) = (later, used', index')"
    and ps: "ps = now @ later"
    using Cons.prems(1) by (auto simp: q Let_def st_def now_def split: prod.splits)
  have st: "picked_from used (eligible rl pid used records) quota st" unfolding st_def by (rule select_records_picked)
  have len: "length now = length (pk_selected st)" by (simp add: now_def number_pairs_facts)
  have recs: "pp_record ` set now = set (pk_selected st)"
    using arg_cong [OF number_pairs_facts(3) [of index rl pid "pk_selected st"], of set] by (simp add: now_def)
  have now: "pp_role p = rl \<and> pp_policy_id p = pid \<and> pp_record p \<in> set (eligible rl pid used records)" if "p \<in> set now" for p
    using number_pairs_facts(4) that st unfolding now_def picked_from_def by blast
  then have legal: "legal_pair records p \<and> pair_task p \<notin> set used" if "p \<in> set now" for p
    using that by (auto simp: legal_pair_def set_eligible)
  have used: "set (pk_used st) = set used \<union> pair_task ` set now"
  proof -
    have "pair_task ` set now = task_of ` pp_record ` set now" by (simp add: image_image)
    then show ?thesis using st by (simp add: picked_from_def recs)
  qed
  from Cons.IH [OF rest] Cons.prems(2) have later: "list_all (legal_pair records) later" "one_bucket later"
    "numbered (index + length now) later" "index' = index + length now + length later"
    "set used' = set (pk_used st) \<union> pair_task ` set later"
    "\<forall>p \<in> set later. pp_role p = rl \<and> pp_policy_id p \<in> fst ` set qs \<and> pair_task p \<notin> set (pk_used st)"
    "\<forall>(pid, quota) \<in> set qs. bucket_size later rl pid \<le> quota"
    by (simp_all add: q len)
  have pid: "pid \<notin> fst ` set qs" using Cons.prems(2) by (auto simp: q)
  have "one_bucket ps" unfolding ps
  proof (rule one_bucket_append [OF _ later(2)])
    show "one_bucket now" using now by (intro one_bucket_same) auto
    show "pair_task ` set now \<inter> pair_task ` set later = {}"
      using later(6) used by (intro fresh_disjoint [of "set later" _ "set used"]) simp
  qed
  moreover have "numbered index ps" using later(3) number_pairs_facts(2) by (simp add: ps numbered_append now_def len)
  moreover have "bucket_size ps rl pid' \<le> quota'" if "(pid', quota') \<in> set (q # qs)" for pid' quota'
  proof (cases "pid' = pid")
    case True
    with that pid have "quota' = quota" by (auto simp: q image_iff)
    moreover have "bucket_size later rl pid = 0" using later(6) pid by (intro bucket_size_other) auto
    moreover have "bucket_size now rl pid \<le> quota" using bucket_size_le [of now rl pid] st by (simp add: len picked_from_def)
    ultimately show ?thesis using True by (simp add: ps)
  next
    case False
    with that have "(pid', quota') \<in> set qs" by (auto simp: q)
    moreover have "bucket_size now rl pid' = 0" using now False by (intro bucket_size_other) auto
    ultimately show ?thesis using later(7) by (auto simp: ps)
  qed
  moreover have "list_all (legal_pair records) ps" using legal later(1) by (auto simp: ps list_all_iff)
  moreover have "set used' = set used \<union> pair_task ` set ps" using later(5) used by (auto simp: ps)
  moreover have "\<forall>p \<in> set ps. pp_role p = rl \<and> pp_policy_id p \<in> fst ` set (q # qs) \<and> pair_task p \<notin> set used"
    using now legal later(6) used by (auto simp: ps q)
  ultimately show ?case using later(4) by (auto simp: ps)
qed

lemma fill_roles_facts:
  assumes "distinct (map fst rqs)" "\<forall>(rl, qs) \<in> set rqs. distinct (map fst qs)"
  shows "list_all (legal_pair records) (fill_roles records rqs used index) \<and> one_bucket (fill_roles records rqs used index) \<and>
    numbered index (fill_roles records rqs used index) \<and>
    (\<forall>p \<in> set (fill_roles records rqs used index). pp_role p \<in> fst ` set rqs \<and> pair_task p \<notin> set used) \<and>
    (\<forall>(rl, qs) \<in> set rqs. \<forall>(pid, quota) \<in> set qs. bucket_size (fill_roles records rqs used index) rl pid \<le> quota)"
  using assms
proof (induction rqs arbitrary: used index)
  case Nil
  then show ?case by (simp add: one_bucket_def numbered_def)
next
  case (Cons rq rqs)
  obtain rl qs where rq: "rq = (rl, qs)" by (cases rq)
  obtain now used' index' where f: "fill_quotas records rl qs used [] index = (now, used', index')"
    by (cases "fill_quotas records rl qs used [] index") auto
  define later where "later = fill_roles records rqs used' index'"
  have ps: "fill_roles records (rq # rqs) used index = now @ later" by (simp add: rq f later_def)
  have now: "list_all (legal_pair records) now" "one_bucket now" "numbered index now" "index' = index + length now"
    "set used' = set used \<union> pair_task ` set now" "\<forall>p \<in> set now. pp_role p = rl \<and> pair_task p \<notin> set used"
    "\<forall>(pid, quota) \<in> set qs. bucket_size now rl pid \<le> quota"
    using fill_quotas_facts [OF f] Cons.prems(2) by (auto simp: rq)
  have later: "list_all (legal_pair records) later" "one_bucket later" "numbered index' later"
    "\<forall>p \<in> set later. pp_role p \<in> fst ` set rqs \<and> pair_task p \<notin> set used'"
    "\<forall>(rl, qs) \<in> set rqs. \<forall>(pid, quota) \<in> set qs. bucket_size later rl pid \<le> quota"
    using Cons.IH [of used' index'] Cons.prems by (auto simp: later_def)
  have rl: "rl \<notin> fst ` set rqs" using Cons.prems(1) by (auto simp: rq)
  have "bucket_size later rl pid = 0" for pid using later(4) rl by (intro bucket_size_other) auto
  moreover have "bucket_size now rl' pid = 0" if "rl' \<in> fst ` set rqs" for rl' pid
    using now(6) rl that by (intro bucket_size_other) auto
  ultimately have "bucket_size (now @ later) rl' pid \<le> quota"
    if "(rl', qs') \<in> set (rq # rqs)" "(pid, quota) \<in> set qs'" for rl' qs' pid quota
  proof (cases "(rl', qs') = rq")
    case True
    with that now(7) \<open>\<And>pid. bucket_size later rl pid = 0\<close> show ?thesis by (auto simp: rq)
  next
    case False
    with that have mem: "(rl', qs') \<in> set rqs" by simp
    then have "rl' \<in> fst ` set rqs" by force
    with mem that later(5) \<open>\<And>rl' pid. rl' \<in> fst ` set rqs \<Longrightarrow> bucket_size now rl' pid = 0\<close> show ?thesis by fastforce
  qed
  then have "\<forall>(rl, qs) \<in> set (rq # rqs). \<forall>(pid, quota) \<in> set qs. bucket_size (now @ later) rl pid \<le> quota" by blast
  moreover have "one_bucket (now @ later)"
    using later(4) now(5) by (intro one_bucket_append [OF now(2) later(2)] fresh_disjoint [of "set later" _ "set used"]) simp
  ultimately show ?case
    unfolding ps using now later by (auto simp: rq numbered_append)
qed


section \<open>The package\<close>

lemma pair_id_index: "read_nat (takeWhile is_digit (drop 14 (pair_id i rl pid))) = i"
proof -
  have "drop 14 (pair_id i rl pid) = pad3 i @ ''_'' @ role_name rl @ ''_'' @ pid" by (simp add: pair_id_def)
  moreover have "takeWhile is_digit (pad3 i @ ''_'' @ role_name rl @ ''_'' @ pid) = pad3 i"
  proof -
    have "takeWhile is_digit (''_'' @ role_name rl @ ''_'' @ pid) = []" by (simp add: is_digit_def char_code_def)
    then show ?thesis using pad3_digits by (simp add: takeWhile_append2 del: append_Cons)
  qed
  ultimately show ?thesis by (simp add: read_pad3)
qed

lemma numbered_distinct: "numbered i ps \<Longrightarrow> distinct (map pp_pair_id ps)"
  unfolding distinct_conv_nth
proof (intro allI impI)
  fix j k assume n: "numbered i ps" and jk: "j < length (map pp_pair_id ps)" "k < length (map pp_pair_id ps)" "j \<noteq> k"
  have "read_nat (takeWhile is_digit (drop 14 (map pp_pair_id ps ! m))) = i + m" if "m < length ps" for m
    using n that by (simp add: numbered_def pair_id_index)
  with jk show "map pp_pair_id ps ! j \<noteq> map pp_pair_id ps ! k" by (metis add_left_cancel length_map)
qed

lemma arm_rows_of: "arm_rows (p # ps) = control_arm p # intervention_arm p # arm_rows ps" "arm_rows [] = []"
  by (simp_all add: arm_rows_def)

text \<open>
  C29: the paired-intervention package. Every pair rests on a candidate record of its own policy and of the
  outcome its role asks for; no role and policy gets more pairs than its quota; a source task is never used for
  two different roles or policies; pair identifiers are distinct; and every pair has exactly a control arm, which
  names no policy, followed by its intervention arm.
\<close>

theorem package_respects_quotas:
  assumes "build_package_rows rows = (pairs, arms)"
  shows "list_all (legal_pair (candidate_records rows)) pairs \<and> one_bucket pairs \<and> distinct (map pp_pair_id pairs) \<and>
    (\<forall>(rl, quotas) \<in> set ROLE_POLICY_QUOTAS. \<forall>(pid, quota) \<in> set quotas. bucket_size pairs rl pid \<le> quota) \<and>
    map (\<lambda>a. (dict_get a ''pair_id'', dict_get a ''arm_type'', dict_get a ''runtime_policy_id'')) arms =
      concat (map (\<lambda>p. [(Some (JStr (pp_pair_id p)), Some (JStr ''control''), Some (JStr ''frozen_baseline_no_extra_intervention'')),
        (Some (JStr (pp_pair_id p)), Some (JStr ''intervention''), Some (JStr (pp_policy_id p)))]) pairs)"
proof -
  let ?ps = "fill_roles (candidate_records rows) ROLE_POLICY_QUOTAS [] 1"
  have pairs: "pairs = sort_key pp_pair_id ?ps" and arms: "arms = arm_rows pairs"
    using assms by (auto simp: build_package_rows_def build_pairs_def Let_def)
  have "distinct (map fst ROLE_POLICY_QUOTAS)" "\<forall>(rl, qs) \<in> set ROLE_POLICY_QUOTAS. distinct (map fst qs)"
    by (simp_all add: ROLE_POLICY_QUOTAS_def)
  from fill_roles_facts [OF this, of "candidate_records rows" "[]" 1] have f: "list_all (legal_pair (candidate_records rows)) ?ps"
    "one_bucket ?ps" "numbered 1 ?ps"
    "\<forall>(rl, qs) \<in> set ROLE_POLICY_QUOTAS. \<forall>(pid, quota) \<in> set qs. bucket_size ?ps rl pid \<le> quota" by blast+
  have size: "bucket_size pairs rl pid = bucket_size ?ps rl pid" for rl pid
    by (simp add: bucket_size_def pairs filter_sort)
  have "distinct (map pp_pair_id pairs)"
    using numbered_distinct [OF f(3)] by (simp add: pairs distinct_map)
  moreover have "map (\<lambda>a. (dict_get a ''pair_id'', dict_get a ''arm_type'', dict_get a ''runtime_policy_id'')) (arm_rows ps) =
      concat (map (\<lambda>p. [(Some (JStr (pp_pair_id p)), Some (JStr ''control''), Some (JStr ''frozen_baseline_no_extra_intervention'')),
        (Some (JStr (pp_pair_id p)), Some (JStr ''intervention''), Some (JStr (pp_policy_id p)))]) ps)" for ps
    by (induction ps) (simp_all add: arm_rows_of control_arm_def intervention_arm_def arm_base_def Let_def dict_get_def)
  moreover have "one_bucket pairs" "list_all (legal_pair (candidate_records rows)) pairs"
    using f(1,2) one_bucket_cong [of pairs ?ps] by (simp_all add: pairs list_all_iff)
  ultimately show ?thesis using f(4) unfolding size arms by blast
qed


text \<open>Two diagnosed trajectories of one failed task, with the same policy.\<close>

definition demo_diagnosed :: "string \<Rightarrow> int \<Rightarrow> diagnosed" where
  "demo_diagnosed t i = \<lparr>dg_chain = \<lparr>ch_trajectory_id = t, ch_source_task_id = ''task'', ch_source_family = ''f'', ch_run_window = ''w''\<rparr>,
     dg_outcome_class = ''failure'',
     dg_top_candidates = [\<lparr>ca_prefix_index = i, ca_prefix_sha256 = ''ab'', ca_score = 1/2, ca_reasons = [''validation_gap_after_edit''],
       ca_action_family = ''search'', ca_observation_class = ''neutral'', ca_gap = 3, ca_streak = 3, ca_step_count = i\<rparr>]\<rparr>"

definition demo_records :: "plan_record list" where
  "demo_records = candidate_records [demo_diagnosed ''t1'' 4, demo_diagnosed ''t2'' 9]"

lemma demo_records_eq: "demo_records = map (\<lambda>d. \<lparr>pl_policy_id = ''insert_validation_checkpoint'', pl_chain = dg_chain d,
    pl_outcome_class = ''failure'', pl_candidate = hd (dg_top_candidates d)\<rparr>) [demo_diagnosed ''t1'' 4, demo_diagnosed ''t2'' 9]"
  by (simp add: demo_records_def candidate_records_def top_candidate_def demo_diagnosed_def INTERVENTION_POLICIES_def)

lemma demo_selected: "pk_selected (select_records demo_records Failure_Target ''insert_validation_checkpoint'' 6 [] []) = demo_records"
proof -
  have "eligible Failure_Target ''insert_validation_checkpoint'' [] demo_records = demo_records"
    by (simp add: eligible_def demo_records_eq demo_diagnosed_def plan_key_def)
  then show ?thesis
    by (simp add: select_records_def demo_records_eq demo_diagnosed_def pick_def family_count_def dict_get_def Let_def)
qed

text \<open>
  The used tasks are read before a selection and not again in its first pass: two trajectories of one task can
  both be selected for one policy.
\<close>

theorem same_task_selected_twice:
  "map task_of (pk_selected (select_records demo_records Failure_Target ''insert_validation_checkpoint'' 6 [] [])) = [''task'', ''task'']"
  unfolding demo_selected by (simp add: demo_records_eq demo_diagnosed_def)

theorem package_respects_quotas_witness:
  "distinct (map pp_pair_id (fst (build_package_rows [demo_diagnosed ''t1'' 4, demo_diagnosed ''t2'' 9]))) \<and>
    bucket_size (fst (build_package_rows [demo_diagnosed ''t1'' 4, demo_diagnosed ''t2'' 9])) Failure_Target ''same_action_escape'' \<le> 6"
  using package_respects_quotas [of "[demo_diagnosed ''t1'' 4, demo_diagnosed ''t2'' 9]"
      "fst (build_package_rows [demo_diagnosed ''t1'' 4, demo_diagnosed ''t2'' 9])"
      "snd (build_package_rows [demo_diagnosed ''t1'' 4, demo_diagnosed ''t2'' 9])"]
  by (simp add: ROLE_POLICY_QUOTAS_def)

end
