(* ===== verification/Batch_Stability.thy ===== *)
theory Batch_Stability
  imports Pair_Attribution Intervention_Planner
begin

text \<open>
  Evidence over completed pairs: \<open>packages/clinic/src/wutai_clinic/intervention/stability.py\<close> (may one more small
  batch be run?) and \<open>intervention/closed_loop.py\<close> (plan, attribution and policy reviews together). Both turn
  a summary into gates, the gates into a decision. Rates are rationals whose JSON form is the parameter \<open>num\<close>;
  writing the files is not modelled.
\<close>

section \<open>Summaries as dictionaries\<close>

definition counts_json :: "nat pydict \<Rightarrow> json" where
  "counts_json d = JObj (map (\<lambda>(k, n). (k, JInt (int n))) d)"

definition rate_json :: "(rat \<Rightarrow> json) \<Rightarrow> rat option \<Rightarrow> json" where
  "rate_json num r = (case r of None \<Rightarrow> JNull | Some x \<Rightarrow> num x)"

abbreviation nat_json :: "nat \<Rightarrow> json" where "nat_json n \<equiv> JInt (int n)"

definition outcome_json :: "(rat \<Rightarrow> json) \<Rightarrow> outcome_summary \<Rightarrow> json" where
  "outcome_json num s = JObj
     [(''total_pair_count'', nat_json (os_total s)), (''main_pair_count'', nat_json (os_main s)),
      (''secondary_pair_count'', nat_json (os_secondary s)), (''main_pair_ids'', str_list (os_main_ids s)),
      (''secondary_pair_ids'', str_list (os_secondary_ids s)), (''main_effect_label_counts'', counts_json (os_main_labels s)),
      (''secondary_effect_label_counts'', counts_json (os_secondary_labels s)),
      (''main_control_resolved_count'', nat_json (os_main_control_resolved s)),
      (''main_intervention_resolved_count'', nat_json (os_main_intervention_resolved s)),
      (''main_resolved_delta'', JInt (os_main_resolved_delta s)),
      (''main_control_success_rate'', rate_json num (os_main_control_rate s)),
      (''main_intervention_success_rate'', rate_json num (os_main_intervention_rate s)),
      (''secondary_control_resolved_count'', nat_json (os_secondary_control_resolved s)),
      (''secondary_intervention_resolved_count'', nat_json (os_secondary_intervention_resolved s)),
      (''trigger_hit_pair_rate_in_batch'', rate_json num (os_trigger_hit_rate s))]"

definition class_counts_json :: "attribution \<Rightarrow> json" where
  "class_counts_json a = JObj [(''main_treatment'', nat_json (at_main_treatment a)),
     (''trigger_miss'', nat_json (at_trigger_miss a)), (''invalid'', nat_json (at_invalid a))]"

definition attribution_json :: "(rat \<Rightarrow> json) \<Rightarrow> attribution \<Rightarrow> json" where
  "attribution_json num a = JObj
     [(''classification_counts'', class_counts_json a), (''completed_pairs'', nat_json (at_completed_pairs a)),
      (''main_treatment_pairs'', nat_json (at_main_pairs a)), (''trigger_miss_pairs'', nat_json (at_trigger_miss_pairs a)),
      (''trigger_hit_rate'', rate_json num (at_trigger_hit_rate a)),
      (''intervention_success_rate'', rate_json num (at_intervention_rate a)),
      (''control_success_rate'', rate_json num (at_control_rate a)), (''resolved_delta'', JInt (at_resolved_delta a)),
      (''outcome_summary'', outcome_json num (at_summary a)), (''continuation_policy'', JObj (at_policy a))]"

section \<open>Small-batch stability\<close>

definition BATCH_STABILITY_VERSION :: string where "BATCH_STABILITY_VERSION = ''phase318_small_batch_stability_v1''"
definition STABILITY_BOUNDARY :: string where
  "STABILITY_BOUNDARY = ''Small-batch stability evidence summarizes completed official-eval pair summaries. '' @
     ''It can guide the next batch, but it does not make a generalized uplift claim, does '' @
     ''not validate EFE/STR prediction, and does not authorize unattended full-scale runs.''"
definition POSITIVE_LABEL :: string where "POSITIVE_LABEL = ''intervention_only_resolved_trigger_hit_candidate''"
definition NEGATIVE_LABEL :: string where "NEGATIVE_LABEL = ''control_only_resolved_trigger_hit_negative_candidate''"
definition NEUTRAL_LABELS :: "string list" where
  "NEUTRAL_LABELS = [''both_unresolved_trigger_hit_pair_no_uplift'', ''both_resolved_trigger_hit_pair_no_uplift'']"

definition main_rows :: "(json \<Rightarrow> string) \<Rightarrow> json pydict list \<Rightarrow> json pydict list" where
  "main_rows rp rows = filter (\<lambda>row. classify_pair_summary rp row = ''main_treatment'') rows"

definition row_label_count :: "json pydict list \<Rightarrow> string \<Rightarrow> nat" where
  "row_label_count rows l = length (filter (\<lambda>row. field_text row ''effect_label'' l) rows)"

record stability =
  st_total :: nat
  st_main :: nat
  st_trigger_miss :: nat
  st_positive :: nat
  st_neutral :: nat
  st_negative :: nat
  st_target :: int
  st_attribution :: attribution

definition target_met :: "stability \<Rightarrow> bool" where
  "target_met s \<longleftrightarrow> st_target s \<le> int (st_main s)"

text \<open>A label that is a list or a dictionary cannot be looked up in the set of neutral labels; on the rows
  classified as main treatment the label's text is one of the four, so the label is text.\<close>

definition stability_summary :: "(json \<Rightarrow> string) \<Rightarrow> (rat \<Rightarrow> string) \<Rightarrow> json pydict list \<Rightarrow> int \<Rightarrow> pyexn + stability" where
  "stability_summary rp ntext rows target =
     and_then (attribute_pair_summaries rp ntext rows) (\<lambda>a.
     let main = main_rows rp rows in
     Inr \<lparr>st_total = length rows, st_main = length main, st_trigger_miss = at_trigger_miss_pairs a,
       st_positive = row_label_count main POSITIVE_LABEL,
       st_neutral = length (filter (\<lambda>row. \<exists>l \<in> set NEUTRAL_LABELS. field_text row ''effect_label'' l) main),
       st_negative = row_label_count main NEGATIVE_LABEL, st_target = target, st_attribution = a\<rparr>)"

definition stability_json :: "(rat \<Rightarrow> json) \<Rightarrow> stability \<Rightarrow> json" where
  "stability_json num s = (let a = st_attribution s in JObj
     [(''total_pair_count'', nat_json (st_total s)), (''main_treatment_pair_count'', nat_json (st_main s)),
      (''trigger_miss_pair_count'', nat_json (st_trigger_miss s)), (''positive_main_count'', nat_json (st_positive s)),
      (''neutral_main_count'', nat_json (st_neutral s)), (''negative_main_count'', nat_json (st_negative s)),
      (''main_positive_rate'', rate_json num (ratio (st_positive s) (st_main s))),
      (''main_negative_rate'', rate_json num (ratio (st_negative s) (st_main s))),
      (''trigger_hit_rate'', rate_json num (at_trigger_hit_rate a)), (''control_success_rate'', rate_json num (at_control_rate a)),
      (''intervention_success_rate'', rate_json num (at_intervention_rate a)), (''resolved_delta'', JInt (at_resolved_delta a)),
      (''classification_counts'', class_counts_json a), (''main_pair_ids'', str_list (os_main_ids (at_summary a))),
      (''secondary_pair_ids'', str_list (os_secondary_ids (at_summary a))), (''target_main_pairs'', JInt (st_target s)),
      (''target_main_pairs_met'', JBool (target_met s)), (''attribution'', attribution_json num a)])"

definition stability_gates :: "(json \<Rightarrow> string) \<Rightarrow> json pydict list \<Rightarrow> stability \<Rightarrow> int \<Rightarrow> int \<Rightarrow> bool pydict" where
  "stability_gates rp rows s min_total max_total =
     (let main = main_rows rp rows in
     [(''pair_summary_rows_present'', rows \<noteq> []),
      (''official_eval_completed'', list_all (\<lambda>row. field_bool row ''official_eval_completed'' True) rows),
      (''small_batch_total_window'', min_total \<le> int (length rows) \<and> int (length rows) \<le> max_total),
      (''attribution_classification_valid'', at_invalid (st_attribution s) = 0),
      (''main_treatment_pairs_present'', 0 < st_main s),
      (''main_patch_application_complete'', main \<noteq> [] \<and> list_all (\<lambda>row. field_bool row ''patches_applied'' True) main),
      (''negative_main_pairs_not_observed'', st_negative s = 0),
      (''non_negative_resolved_delta'', 0 \<le> at_resolved_delta (st_attribution s)),
      (''claim_boundary_present'', STABILITY_BOUNDARY \<noteq> []), (''generalized_uplift_claim_not_made'', True),
      (''efe_str_predictive_claim_not_made'', True), (''full_unattended_run_not_authorized'', True)])"

definition safe_to_continue :: "stability \<Rightarrow> bool pydict \<Rightarrow> bool" where
  "safe_to_continue s gates \<longleftrightarrow> list_all snd gates \<and> st_negative s \<le> st_positive s"

definition stability_policy :: "stability \<Rightarrow> bool pydict \<Rightarrow> json pydict" where
  "stability_policy s gates =
     (let safe = safe_to_continue s gates in
     [(''allow_next_small_batch'', JBool safe), (''allow_stability_claim'', JBool (safe \<and> target_met s \<and> 0 < st_positive s)),
      (''allow_full_64_unattended'', JBool False), (''allow_intervention_effect_claim'', JBool False),
      (''allow_efe_str_predictive_claim'', JBool False),
      (''recommended_next_step'', JStr (if \<not> target_met s then ''collect_more_main_attribution_pairs_after_trigger_policy_gate''
         else ''expand_one_more_small_batch_after_trigger_policy_gate_before_any_claim'')),
      (''evidence_note'', JStr (show_nat (st_main s) @ '' main pairs, '' @ show_nat (st_positive s) @ '' positive, '' @
         show_nat (st_neutral s) @ '' neutral, '' @ show_nat (st_negative s) @ '' negative, target_main_pairs='' @
         show_int (st_target s) @ ''.''))])"

definition stability_decision :: "stability \<Rightarrow> bool pydict \<Rightarrow> string" where
  "stability_decision s gates =
     (if \<not> list_all snd gates then ''batch_stability_evidence_blocked''
      else if \<not> target_met s then ''batch_stability_probe_needs_more_main_pairs''
      else if st_positive s < st_negative s then ''batch_stability_negative_risk_review_required''
      else ''batch_stability_small_batch_ready_for_expansion'')"

definition batch_stability_report :: "(json \<Rightarrow> string) \<Rightarrow> (rat \<Rightarrow> json) \<Rightarrow> (rat \<Rightarrow> string) \<Rightarrow> string \<Rightarrow>
    json pydict list \<Rightarrow> int \<Rightarrow> int \<Rightarrow> int \<Rightarrow> pyexn + json pydict" where
  "batch_stability_report rp num ntext now rows target min_total max_total =
     and_then (stability_summary rp ntext rows target) (\<lambda>s.
     let gates = stability_gates rp rows s min_total max_total in
     Inr (generate_report now (Some ''3.18.batch_stability'') (Some (stability_decision s gates)) gates
       [(''version'', JStr BATCH_STABILITY_VERSION), (''claim_boundary'', JStr STABILITY_BOUNDARY),
        (''stability_summary'', stability_json num s), (''continuation_policy'', JObj (stability_policy s gates))] None))"

text \<open>The rows written beside the report carry their class.\<close>

definition annotated_rows :: "(json \<Rightarrow> string) \<Rightarrow> json pydict list \<Rightarrow> json pydict list" where
  "annotated_rows rp rows = map (\<lambda>row. dict_set ''stability_classification'' (JStr (classify_pair_summary rp row)) row) rows"

section \<open>Closed loop\<close>

definition CLOSED_LOOP_VERSION :: string where "CLOSED_LOOP_VERSION = ''phase317_behavior_control_closed_loop_v1''"
definition CLOSED_LOOP_BOUNDARY :: string where
  "CLOSED_LOOP_BOUNDARY = ''Closed-loop evidence uses frozen intervention plans, official eval pair summaries, '' @
     ''and optional cumulative trigger-policy review reports. It supports bounded next-step '' @
     ''control decisions, not a generalized causal effect claim or a universal failure-prediction claim.''"

text \<open>\<open>value == n\<close> for a JSON value; a boolean equals the integer 0 or 1.\<close>

fun json_eq_int :: "json \<Rightarrow> int \<Rightarrow> bool" where
  "json_eq_int (JInt i) n = (i = n)"
| "json_eq_int (JBool b) n = (of_bool b = n)"
| "json_eq_int _ _ = False"

definition get_dict :: "json pydict \<Rightarrow> string \<Rightarrow> json" where
  "get_dict d k = (case dict_get d k of Some v \<Rightarrow> v | None \<Rightarrow> JObj [])"

definition cumulative_gates :: "json pydict \<Rightarrow> nat \<Rightarrow> pyexn + bool pydict" where
  "cumulative_gates r n =
     and_then (json_get (get_dict r ''cumulative_summary'') ''selected_pair_count'') (\<lambda>count.
     and_then (json_get (get_dict r ''claim_boundary'') ''efe_str_predictive_claimed'') (\<lambda>predictive.
     and_then (json_get (get_dict r ''claim_boundary'') ''paired_uplift_claimed'') (\<lambda>uplift.
     Inr [(''cumulative_diagnosis_passed'', field_bool r ''passed'' True),
          (''cumulative_pair_count_matches'', json_eq_int count (int n)),
          (''predictive_claim_not_made'', predictive = JBool False), (''paired_uplift_claim_not_made'', uplift = JBool False)])))"

definition review_gates :: "json pydict \<Rightarrow> pyexn + bool pydict" where
  "review_gates r = (let policy = get_dict r ''continuation_policy'' in
     and_then (json_get policy ''require_live_trigger_recalibration_protocol_before_batch3'') (\<lambda>required.
     and_then (json_get policy ''allow_batch3_same_static_prefix_policy'') (\<lambda>allowed.
     Inr [(''trigger_policy_review_passed'', field_bool r ''passed'' True),
          (''recalibration_required_before_batch3'', required = JBool True),
          (''same_static_policy_not_allowed_for_batch3'', allowed = JBool False)])))"

definition opt_gates :: "('a \<Rightarrow> pyexn + bool pydict) \<Rightarrow> 'a option \<Rightarrow> pyexn + bool pydict" where
  "opt_gates f r = (case r of None \<Rightarrow> Inr [] | Some x \<Rightarrow> f x)"

definition closed_loop_gates :: "package_pair list \<Rightarrow> json pydict list \<Rightarrow> json pydict list \<Rightarrow> attribution \<Rightarrow>
    json pydict option \<Rightarrow> json pydict option \<Rightarrow> pyexn + bool pydict" where
  "closed_loop_gates pairs arms pair_rows a cumulative review =
     and_then (opt_gates (\<lambda>r. cumulative_gates r (length pair_rows)) cumulative) (\<lambda>g1.
     and_then (opt_gates review_gates review) (\<lambda>g2.
     Inr ([(''plan_generated'', 0 < length pairs \<and> length arms = length pairs * 2),
       (''official_eval_pairs_present'', 0 < length pair_rows),
       (''official_eval_completed'', at_completed_pairs a = length pair_rows),
       (''main_treatment_pairs_present'', 0 < at_main_pairs a),
       (''trigger_hits_observed'', (case at_trigger_hit_rate a of Some x \<Rightarrow> 0 < x | None \<Rightarrow> False)),
       (''attribution_classification_valid'', at_invalid a = 0), (''non_negative_resolved_delta'', 0 \<le> at_resolved_delta a),
       (''claim_boundary_present'', CLOSED_LOOP_BOUNDARY \<noteq> [])] @ g1 @ g2)))"

definition closed_loop_decision :: "bool pydict \<Rightarrow> json pydict option \<Rightarrow> json pydict option \<Rightarrow> string" where
  "closed_loop_decision gates cumulative review =
     (if \<not> list_all snd gates then ''closed_loop_evidence_blocked''
      else if review \<noteq> None then ''closed_loop_trigger_policy_recalibration_required_before_batch3''
      else if cumulative \<noteq> None then ''closed_loop_cumulative_batchwise_diagnosis_ready''
      else ''closed_loop_batchwise_continuation_ready'')"

definition closed_loop_extras :: "(rat \<Rightarrow> json) \<Rightarrow> nat \<Rightarrow> nat \<Rightarrow> nat \<Rightarrow> attribution \<Rightarrow> json pydict option \<Rightarrow>
    json pydict option \<Rightarrow> json pydict" where
  "closed_loop_extras num pairs arms candidates a cumulative review =
     [(''version'', JStr CLOSED_LOOP_VERSION), (''claim_boundary'', JStr CLOSED_LOOP_BOUNDARY),
      (''plan_summary'', JObj [(''pair_count'', nat_json pairs), (''arm_count'', nat_json arms), (''candidate_count'', nat_json candidates)]),
      (''attribution'', attribution_json num a)] @
     (case cumulative of None \<Rightarrow> [] | Some r \<Rightarrow>
        [(''cumulative_summary'', get_dict r ''cumulative_summary''), (''cumulative_continuation_policy'', get_dict r ''continuation_policy'')]) @
     (case review of None \<Rightarrow> [] | Some r \<Rightarrow>
        [(''trigger_policy_review'', JObj [(''decision'', field_or_null r ''decision''), (''review_summary'', get_dict r ''review_summary''),
          (''continuation_policy'', get_dict r ''continuation_policy''),
          (''batch3_static_risk_preview'', (case dict_get r ''batch3_static_risk_preview'' of Some v \<Rightarrow> v | None \<Rightarrow> JList []))])])"

definition closed_loop_report :: "(json \<Rightarrow> string) \<Rightarrow> (rat \<Rightarrow> json) \<Rightarrow> (rat \<Rightarrow> string) \<Rightarrow> string \<Rightarrow> diagnosed list \<Rightarrow>
    json pydict list \<Rightarrow> json pydict option \<Rightarrow> json pydict option \<Rightarrow>
    pyexn + (json pydict \<times> package_pair list \<times> json pydict list \<times> attribution)" where
  "closed_loop_report rp num ntext now candidates pair_rows cumulative review =
     (let (pairs, arms) = build_package_rows candidates in
      and_then (attribute_pair_summaries rp ntext pair_rows) (\<lambda>a.
      and_then (closed_loop_gates pairs arms pair_rows a cumulative review) (\<lambda>gates.
      Inr (generate_report now (Some ''3.17.closed_loop'') (Some (closed_loop_decision gates cumulative review)) gates
         (closed_loop_extras num (length pairs) (length arms) (length candidates) a cumulative review) None,
         pairs, arms, a))))"

section \<open>What the decisions mean\<close>

lemma stability_summary_facts:
  assumes "stability_summary rp ntext rows target = Inr s"
  shows "st_main s = length (main_rows rp rows)" "st_target s = target"
    "st_positive s = row_label_count (main_rows rp rows) POSITIVE_LABEL"
    "st_negative s = row_label_count (main_rows rp rows) NEGATIVE_LABEL"
    "attribute_pair_summaries rp ntext rows = Inr (st_attribution s)"
  using assms by (auto simp: stability_summary_def and_then_eq_Inr Let_def)

text \<open>The rows a batch needs to pass its gates.\<close>

definition sound_batch :: "(json \<Rightarrow> string) \<Rightarrow> json pydict list \<Rightarrow> bool" where
  "sound_batch rp rows \<longleftrightarrow> (let main = main_rows rp rows in
     (\<forall>row \<in> set rows. field_bool row ''official_eval_completed'' True \<and> classify_pair_summary rp row \<noteq> ''invalid'') \<and>
     main \<noteq> [] \<and> (\<forall>row \<in> set main. field_bool row ''patches_applied'' True \<and> \<not> field_text row ''effect_label'' NEGATIVE_LABEL) \<and>
     bool_count main ''control_resolved'' True \<le> bool_count main ''intervention_resolved'' True)"

lemma row_label_count_0: "row_label_count rows l = 0 \<longleftrightarrow> (\<forall>row \<in> set rows. \<not> field_text row ''effect_label'' l)"
  by (auto simp: row_label_count_def filter_empty_conv)

lemma stability_gates_iff:
  assumes "stability_summary rp ntext rows target = Inr s"
  shows "list_all snd (stability_gates rp rows s mn mx) \<longleftrightarrow>
    mn \<le> int (length rows) \<and> int (length rows) \<le> mx \<and> sound_batch rp rows"
proof (cases "class_count rp rows ''invalid'' = 0")
  case True
  have "fst (split_pair_rows rows) = main_rows rp rows" using valid_rows_by_scope(1) [OF True] by (simp add: main_rows_def)
  moreover have "main_rows rp rows \<noteq> [] \<Longrightarrow> rows \<noteq> []" by (auto simp: main_rows_def)
  ultimately show ?thesis
    using True stability_summary_facts [OF assms] attribution_facts [OF stability_summary_facts(5) [OF assms]]
    by (auto simp: stability_gates_def Let_def sound_batch_def no_invalid list_all_iff row_label_count_0 STABILITY_BOUNDARY_def)
next
  case False
  then have "\<not> sound_batch rp rows" by (auto simp: sound_batch_def no_invalid Let_def)
  moreover have "at_invalid (st_attribution s) \<noteq> 0"
    using False attribution_facts(3) [OF stability_summary_facts(5) [OF assms]] by simp
  ultimately show ?thesis by (simp add: stability_gates_def Let_def)
qed

interpretation stab: gated_report "\<lambda>(rp, rows, s, mn, mx). stability_gates rp rows s mn mx"
  "\<lambda>(rp, rows, s, mn, mx). stability_decision s (stability_gates rp rows s mn mx)" "''batch_stability_evidence_blocked''"
  by unfold_locales (auto simp: stability_decision_def split: if_splits)

interpretation loop: gated_report "\<lambda>(gates, cumulative, review). gates"
  "\<lambda>(gates, cumulative, review). closed_loop_decision gates cumulative review" "''closed_loop_evidence_blocked''"
  by unfold_locales (auto simp: closed_loop_decision_def split: if_splits)

lemma gate_no_negative:
  "list_all snd (stability_gates rp rows s mn mx) \<Longrightarrow> st_negative s = 0"
  by (simp add: stability_gates_def Let_def)

text \<open>One of the four decisions can never be taken: a gate already refuses every negative pair.\<close>

theorem negative_review_unreachable:
  "stability_decision s (stability_gates rp rows s mn mx) \<noteq> ''batch_stability_negative_risk_review_required''"
  using gate_no_negative [of rp rows s mn mx] by (auto simp: stability_decision_def)

lemma stability_report_unfold:
  assumes "batch_stability_report rp num ntext now rows target mn mx = Inr r"
  obtains s where "stability_summary rp ntext rows target = Inr s"
    "dict_get r ''decision'' = Some (JStr (stability_decision s (stability_gates rp rows s mn mx)))"
    "dict_get r ''passed'' = Some (JBool (stability_decision s (stability_gates rp rows s mn mx) \<noteq> ''batch_stability_evidence_blocked''))"
    "dict_get r ''continuation_policy'' = Some (JObj (stability_policy s (stability_gates rp rows s mn mx)))"
proof -
  from assms obtain s where s: "stability_summary rp ntext rows target = Inr s"
    and r: "r = (let gates = stability_gates rp rows s mn mx in generate_report now (Some ''3.18.batch_stability'')
       (Some (stability_decision s gates)) gates [(''version'', JStr BATCH_STABILITY_VERSION),
       (''claim_boundary'', JStr STABILITY_BOUNDARY), (''stability_summary'', stability_json num s),
       (''continuation_policy'', JObj (stability_policy s gates))] None)"
    by (auto simp: batch_stability_report_def Let_def and_then_eq_Inr)
  note p = stab.passed_iff [where x = "(rp, rows, s, mn, mx)" and now = now and phase = "Some ''3.18.batch_stability''", unfolded prod.case]
  show thesis
    by (rule that [OF s]) (simp_all add: r Let_def p report_extra)
qed

text \<open>
  The small-batch verdict is exactly the documented condition. A batch is declared ready for expansion
  exactly when its size lies in the window, every row was officially evaluated and classified, there is a main
  pair, every main pair's patch was applied and none is negative, the resolved count did not fall, and the target
  number of main pairs is met; the report passes exactly when it is not blocked. A stability claim is allowed
  exactly when, in addition, some main pair is positive, and a full unattended run never is.\<close>

theorem batch_expansion_iff:
  assumes "batch_stability_report rp num ntext now rows target mn mx = Inr r"
  shows "(let ready = (mn \<le> int (length rows) \<and> int (length rows) \<le> mx \<and> sound_batch rp rows \<and>
            target \<le> int (length (main_rows rp rows))) in
    (dict_get r ''decision'' = Some (JStr ''batch_stability_small_batch_ready_for_expansion'') \<longleftrightarrow> ready) \<and>
    dict_get r ''passed'' = Some (JBool (dict_get r ''decision'' \<noteq> Some (JStr ''batch_stability_evidence_blocked''))) \<and>
    (\<exists>policy. dict_get r ''continuation_policy'' = Some (JObj policy) \<and>
       dict_get policy ''allow_full_64_unattended'' = Some (JBool False) \<and>
       dict_get policy ''allow_stability_claim'' =
         Some (JBool (ready \<and> (\<exists>row \<in> set (main_rows rp rows). field_text row ''effect_label'' POSITIVE_LABEL)))))"
proof -
  from assms obtain s where s: "stability_summary rp ntext rows target = Inr s"
    and d: "dict_get r ''decision'' = Some (JStr (stability_decision s (stability_gates rp rows s mn mx)))"
    and b: "dict_get r ''passed'' = Some (JBool (stability_decision s (stability_gates rp rows s mn mx) \<noteq> ''batch_stability_evidence_blocked''))"
    and p: "dict_get r ''continuation_policy'' = Some (JObj (stability_policy s (stability_gates rp rows s mn mx)))"
    by (rule stability_report_unfold)
  note f = stability_summary_facts [OF s]
  have g: "list_all snd (stability_gates rp rows s mn mx) \<longleftrightarrow> mn \<le> int (length rows) \<and> int (length rows) \<le> mx \<and> sound_batch rp rows"
    by (rule stability_gates_iff [OF s])
  have n: "list_all snd (stability_gates rp rows s mn mx) \<Longrightarrow> st_negative s = 0" by (rule gate_no_negative)
  have m: "target_met s \<longleftrightarrow> target \<le> int (length (main_rows rp rows))" by (simp add: target_met_def f)
  have pos: "0 < st_positive s \<longleftrightarrow> (\<exists>row \<in> set (main_rows rp rows). field_text row ''effect_label'' POSITIVE_LABEL)"
    using row_label_count_0 [of "main_rows rp rows" POSITIVE_LABEL] f(3) by auto
  have ready: "stability_decision s (stability_gates rp rows s mn mx) = ''batch_stability_small_batch_ready_for_expansion'' \<longleftrightarrow>
      list_all snd (stability_gates rp rows s mn mx) \<and> target_met s"
    using n by (auto simp: stability_decision_def split: if_splits)
  have "dict_get (stability_policy s (stability_gates rp rows s mn mx)) ''allow_stability_claim'' =
      Some (JBool (list_all snd (stability_gates rp rows s mn mx) \<and> target_met s \<and> 0 < st_positive s))"
    using n by (auto simp: stability_policy_def safe_to_continue_def Let_def dict_get_def)
  moreover have "dict_get (stability_policy s (stability_gates rp rows s mn mx)) ''allow_full_64_unattended'' = Some (JBool False)"
    by (simp add: stability_policy_def Let_def dict_get_def)
  ultimately show ?thesis unfolding Let_def d b p ready [unfolded g m] using g m pos ready by simp
qed

text \<open>A batch of one positive pair.\<close>

definition demo_row :: "string \<Rightarrow> bool \<Rightarrow> bool \<Rightarrow> bool \<Rightarrow> json pydict" where
  "demo_row label completed control intervention =
     [(''pair_id'', JStr ''p1''), (''pair_eval_scope'', JStr MAIN_SCOPE), (''intervention_injected_once'', JBool True),
      (''main_attribution_eligible'', JBool True), (''effect_label'', JStr label),
      (''official_eval_completed'', JBool completed), (''patches_applied'', JBool True),
      (''control_resolved'', JBool control), (''intervention_resolved'', JBool intervention)]"

lemma demo_row_main: "l \<in> set MAIN_LABELS \<Longrightarrow> classify_pair_summary rp (demo_row l c x y) = ''main_treatment''"
  by (simp add: classify_pair_summary_def demo_row_def field_text_def field_bool_def effect_label_def field_or_null_def dict_get_def)

lemma demo_row_fields [simp]:
  "field_bool (demo_row l c x y) ''official_eval_completed'' True \<longleftrightarrow> c"
  "field_bool (demo_row l c x y) ''patches_applied'' True"
  "field_text (demo_row l c x y) ''effect_label'' l' \<longleftrightarrow> l = l'"
  "field_bool (demo_row l c x y) ''control_resolved'' True \<longleftrightarrow> x"
  "field_bool (demo_row l c x y) ''intervention_resolved'' True \<longleftrightarrow> y"
  by (simp_all add: demo_row_def field_text_def field_bool_def dict_get_def)

lemma demo_row_split: "split_pair_rows [demo_row l c x y] = ([demo_row l c x y], [])"
  by (simp add: split_pair_rows_def demo_row_def field_text_def dict_get_def MAIN_SCOPE_def SECONDARY_SCOPE_def)

lemma demo_row_ids: "pair_ids rp [demo_row l c x y] = Inr [''p1'']" "pair_ids rp [] = Inr []"
  by (simp_all add: pair_ids_def demo_row_def dict_get_def)

lemma demo_row_attributed:
  "\<exists>a. attribute_pair_summaries rp ntext [demo_row l c x y] = Inr a"
  by (simp add: attribute_pair_summaries_def outcome_summary_of_def demo_row_split demo_row_ids Let_def)

lemma demo_batch_reported:
  "\<exists>r. batch_stability_report rp num ntext now [demo_row l c x y] target mn mx = Inr r"
  using demo_row_attributed [of rp ntext l c x y] by (auto simp: batch_stability_report_def stability_summary_def Let_def)

lemma demo_batch_sound:
  assumes "l \<in> set MAIN_LABELS"
  shows "main_rows rp [demo_row l c x y] = [demo_row l c x y]"
    "sound_batch rp [demo_row l c x y] \<longleftrightarrow> c \<and> l \<noteq> NEGATIVE_LABEL \<and> (x \<longrightarrow> y)"
proof -
  show m: "main_rows rp [demo_row l c x y] = [demo_row l c x y]"
    using demo_row_main [OF assms] by (simp add: main_rows_def)
  show "sound_batch rp [demo_row l c x y] \<longleftrightarrow> c \<and> l \<noteq> NEGATIVE_LABEL \<and> (x \<longrightarrow> y)"
    using demo_row_main [OF assms] by (auto simp: sound_batch_def m Let_def bool_count_def)
qed

theorem batch_expansion_iff_witness:
  "\<exists>r. batch_stability_report (\<lambda>_. []) (\<lambda>_. JNull) (\<lambda>_. []) [] [demo_row POSITIVE_LABEL True False True] 1 1 8 = Inr r \<and>
     dict_get r ''decision'' = Some (JStr ''batch_stability_small_batch_ready_for_expansion'')"
proof -
  obtain r where r: "batch_stability_report (\<lambda>_. []) (\<lambda>_. JNull) (\<lambda>_. []) [] [demo_row POSITIVE_LABEL True False True] 1 1 8 = Inr r"
    using demo_batch_reported by blast
  have "POSITIVE_LABEL \<in> set MAIN_LABELS" "POSITIVE_LABEL \<noteq> NEGATIVE_LABEL" by (simp_all add: POSITIVE_LABEL_def MAIN_LABELS_def NEGATIVE_LABEL_def)
  then have "dict_get r ''decision'' = Some (JStr ''batch_stability_small_batch_ready_for_expansion'')"
    using batch_expansion_iff [OF r] demo_batch_sound by (simp add: Let_def)
  with r show ?thesis by blast
qed

text \<open>The label of a pair is believed: a pair called an uplift although both arms resolved allows the stability claim.\<close>

theorem label_not_checked:
  "sound_batch rp [demo_row POSITIVE_LABEL True True True] \<and>
   field_text (demo_row POSITIVE_LABEL True True True) ''effect_label'' POSITIVE_LABEL"
  using demo_batch_sound(2) [of POSITIVE_LABEL rp True True True]
  by (simp add: POSITIVE_LABEL_def MAIN_LABELS_def NEGATIVE_LABEL_def)

section \<open>The closed loop\<close>

text \<open>The gate named after official evaluation compares the number of rows with itself: it cannot fail, whatever the
  rows say of their evaluation. Nor can the arm count of the plan.\<close>

theorem official_gate_vacuous:
  assumes "build_package_rows candidates = (pairs, arms)" "attribute_pair_summaries rp ntext rows = Inr a"
    and "closed_loop_gates pairs arms rows a cumulative review = Inr gates"
  shows "dict_get gates ''official_eval_completed'' = Some True \<and>
    (dict_get gates ''plan_generated'' = Some True \<longleftrightarrow> pairs \<noteq> [])"
proof -
  have "length (arm_rows ps) = length ps * 2" for ps by (induction ps) (simp_all add: arm_rows_def)
  then have "length arms = length pairs * 2" using assms(1) by (auto simp: build_package_rows_def Let_def)
  then show ?thesis using assms(3) attribution_facts(4) [OF assms(2)]
    by (auto simp: closed_loop_gates_def and_then_eq_Inr dict_get_def)
qed

end
