(* ===== verification/Sensitivity.thy ===== *)
theory Sensitivity
  imports Evidence_Report
begin

text \<open>
  Calibration of the instrument, \<open>packages/clinic/src/wutai_clinic/engine/sensitivity.py\<close>: a one-sided Fisher
  exact test on a positive control, the label of a cell and its evidence decision. The code sums probabilities in
  floating point through \<open>lgamma\<close>; the model computes the same binomials as rationals. The report's texts
  that no branch reads, and writing the files, are not modelled.
\<close>

section \<open>Model\<close>

text \<open>One table with the observed margins: \<open>exp(log_p)\<close> for \<open>k\<close> resolved treatment outcomes\<close>

definition table_probability :: "nat \<Rightarrow> nat \<Rightarrow> nat \<Rightarrow> nat \<Rightarrow> rat" where
  "table_probability control treatment margin k =
     of_nat (treatment choose k) * of_nat (control choose (margin - k)) / of_nat ((control + treatment) choose margin)"

definition fisher_exact_one_sided :: "int \<Rightarrow> int \<Rightarrow> int \<Rightarrow> int \<Rightarrow> pyexn + rat" where
  "fisher_exact_one_sided control_resolved control_total treatment_resolved treatment_total =
     (if min control_total treatment_total < 0 \<or> treatment_total = 0 then Inl (ValueErr ''arm totals must be positive'')
      else if \<not> (0 \<le> control_resolved \<and> control_resolved \<le> control_total) then Inl (ValueErr ''control_resolved out of range'')
      else if \<not> (0 \<le> treatment_resolved \<and> treatment_resolved \<le> treatment_total) then Inl (ValueErr ''treatment_resolved out of range'')
      else (let margin = control_resolved + treatment_resolved; lo = max 0 (margin - control_total);
                hi = min treatment_total margin;
                p = (\<Sum>k \<leftarrow> filter (\<lambda>k. \<not> k < lo) [treatment_resolved..hi].
                       table_probability (nat control_total) (nat treatment_total) (nat margin) (nat k))
            in Inr (min 1 p)))"

record cell =
  ce_control_resolved :: nat
  ce_control_total :: nat
  ce_treatment_resolved :: nat
  ce_treatment_total :: nat
  ce_p :: rat
  ce_alpha :: rat
  ce_label :: string

definition resolved_count :: "bool list \<Rightarrow> nat" where
  "resolved_count outcomes = length (filter id outcomes)"

definition classify_sensitivity :: "bool list \<Rightarrow> bool list \<Rightarrow> rat \<Rightarrow> pyexn + cell" where
  "classify_sensitivity control treatment alpha =
     (let c = resolved_count control; t = resolved_count treatment in
      case fisher_exact_one_sided (int c) (int (length control)) (int t) (int (length treatment)) of
        Inl e \<Rightarrow> Inl e
      | Inr p \<Rightarrow> Inr \<lparr>ce_control_resolved = c, ce_control_total = length control, ce_treatment_resolved = t,
          ce_treatment_total = length treatment, ce_p = p, ce_alpha = alpha,
          ce_label = (if 0 < t \<and> p < alpha - 1 / 1000000000 then ''detected''
            else if 0 < t then ''flip_observed_underpowered'' else ''not_detected'')\<rparr>)"

definition sensitivity_gates :: "bool list \<Rightarrow> bool list \<Rightarrow> bool pydict" where
  "sensitivity_gates control treatment =
     [(''control_arm_deterministic_failure'', \<not> list_ex id control),
      (''control_rerun_count_at_least_3'', 3 \<le> length control), (''treatment_outcomes_present'', 0 < length treatment)]"

definition sensitivity_decision :: "bool list \<Rightarrow> bool list \<Rightarrow> rat \<Rightarrow> pyexn + string" where
  "sensitivity_decision control treatment alpha =
     (case classify_sensitivity control treatment alpha of
        Inl e \<Rightarrow> Inl e
      | Inr cell \<Rightarrow> Inr (if list_all snd (sensitivity_gates control treatment)
          then ''instrument_sensitivity_'' @ ce_label cell else ''instrument_sensitivity_cell_void_gate_failure''))"

section \<open>The tail of the hypergeometric distribution\<close>

lemma table_probability_nonneg: "0 \<le> table_probability c t m k"
  by (simp add: table_probability_def)

lemma table_probabilities_sum: "m \<le> c + t \<Longrightarrow> (\<Sum>k\<le>m. table_probability c t m k) = 1"
proof -
  assume m: "m \<le> c + t"
  have "(\<Sum>k\<le>m. (t choose k) * (c choose (m - k))) = (c + t) choose m"
    using vandermonde [of t c m] by (simp add: add.commute)
  then have "(\<Sum>k\<le>m. of_nat (t choose k) * of_nat (c choose (m - k)) :: rat) = of_nat ((c + t) choose m)"
    by (metis (mono_tags, lifting) of_nat_mult of_nat_sum sum.cong)
  moreover have "of_nat ((c + t) choose m) \<noteq> (0 :: rat)" using m by (simp add: binomial_eq_0_iff)
  ultimately show ?thesis unfolding table_probability_def sum_divide_distrib [symmetric] by simp
qed

lemma empty_table:
  assumes "c + k < m"
  shows "table_probability c t m k = 0"
proof -
  from assms have "c < m - k" by simp
  then show ?thesis by (simp add: table_probability_def)
qed

theorem fisher_is_upper_tail:
  assumes "0 < t" "i \<le> c" "j \<le> t"
  shows "fisher_exact_one_sided (int i) (int c) (int j) (int t) = Inr (\<Sum>k=j..min t (i + j). table_probability c t (i + j) k)"
    and "(\<Sum>k=j..min t (i + j). table_probability c t (i + j) k) \<le> 1"
proof -
  let ?f = "table_probability c t (i + j)" and ?lo = "max 0 (int i + int j - int c)" and ?hi = "min (int t) (int i + int j)"
  show le: "(\<Sum>k=j..min t (i + j). ?f k) \<le> 1"
  proof -
    have "(\<Sum>k=j..min t (i + j). ?f k) \<le> (\<Sum>k\<le>i + j. ?f k)"
      by (rule sum_mono2) (auto simp: table_probability_nonneg)
    also have "\<dots> = 1" using assms by (intro table_probabilities_sum) simp
    finally show ?thesis .
  qed
  have "(\<Sum>k \<leftarrow> filter (\<lambda>k. \<not> k < ?lo) [int j..?hi]. table_probability c t (nat (int i + int j)) (nat k)) =
      (\<Sum>k\<in>{k \<in> {int j..?hi}. \<not> k < ?lo}. ?f (nat k))"
    by (simp add: sum_list_distinct_conv_sum_set nat_int_add)
  also have "\<dots> = (\<Sum>k\<in>{int j..?hi}. ?f (nat k))"
    by (rule sum.mono_neutral_left) (auto simp: empty_table)
  also have "\<dots> = (\<Sum>k=j..min t (i + j). ?f k)"
    by (rule sum.reindex_bij_witness [where i = int and j = nat]) auto
  finally show "fisher_exact_one_sided (int i) (int c) (int j) (int t) = Inr (\<Sum>k=j..min t (i + j). ?f k)"
    using assms le by (simp add: fisher_exact_one_sided_def Let_def min_def)
qed

text \<open>Against a control that never resolves, only the observed table is extreme.\<close>

lemma fisher_zero_control:
  assumes "0 < t" "k \<le> t"
  shows "fisher_exact_one_sided 0 (int c) (int k) (int t) = Inr (of_nat (t choose k) / of_nat ((c + t) choose k))"
  using fisher_is_upper_tail(1) [of t 0 c k] assms by (simp add: table_probability_def min_def)

lemma central_binomial_step: "(2 * n) choose n \<le> (2 * Suc n) choose (Suc n)"
proof -
  have "(2 * Suc n) choose (Suc n) = (Suc (2 * n) choose n) + (Suc (2 * n) choose Suc n)" by simp
  moreover have "Suc (2 * n) choose Suc n = ((2 * n) choose n) + ((2 * n) choose Suc n)" by simp
  ultimately show ?thesis by linarith
qed

lemma central_binomial_ge: "4 \<le> n \<Longrightarrow> 70 \<le> (2 * n) choose n"
proof (induction n rule: dec_induct)
  case base
  show ?case by (simp add: numeral_eq_Suc)
next
  case (step n)
  then show ?case using central_binomial_step [of n] by linarith
qed

lemma central_binomial_small: "0 < n \<Longrightarrow> n < 4 \<Longrightarrow> (2 * n) choose n \<le> 20"
proof -
  assume "0 < n" "n < 4"
  then have "n = 1 \<or> n = 2 \<or> n = 3" by linarith
  then show ?thesis by (auto simp: numeral_eq_Suc)
qed

lemma count_all: "resolved_count (replicate n True) = n" "resolved_count (replicate n False) = 0"
  by (simp_all add: resolved_count_def)

lemma no_resolved: "resolved_count outcomes = 0 \<longleftrightarrow> \<not> list_ex id outcomes"
  by (induction outcomes) (auto simp: resolved_count_def)

lemma resolved_count_le: "resolved_count outcomes \<le> length outcomes"
  by (simp add: resolved_count_def)

text \<open>The verdict of a cell whose gates pass.\<close>

lemma decision_of_sound_cell:
  assumes "list_all snd (sensitivity_gates control treatment)"
  shows "sensitivity_decision control treatment alpha = Inr (
    let k = resolved_count treatment;
        p = of_nat (length treatment choose k) / of_nat ((length control + length treatment) choose k) in
    if 0 < k \<and> p < alpha - 1 / 1000000000 then ''instrument_sensitivity_detected''
    else if 0 < k then ''instrument_sensitivity_flip_observed_underpowered'' else ''instrument_sensitivity_not_detected'')"
proof -
  from assms have g: "resolved_count control = 0" "0 < length treatment"
    by (simp_all add: sensitivity_gates_def no_resolved)
  show ?thesis using fisher_zero_control [OF g(2) resolved_count_le [of treatment], of "length control"] assms
    by (simp add: sensitivity_decision_def classify_sensitivity_def Let_def g(1))
qed

lemma void_cell:
  "\<not> list_all snd (sensitivity_gates control treatment) \<Longrightarrow>
     sensitivity_decision control treatment alpha \<noteq> Inr ''instrument_sensitivity_detected''"
  by (auto simp: sensitivity_decision_def split: sum.split)

text \<open>
  C30: A positive control counts as detected exactly when its control arm failed every time in at least three
  runs, some treatment run resolved, and the exact hypergeometric tail C(t, k) / C(c + t, k) of the k resolved
  treatment runs lies below the level by more than the tolerance; in particular a perfect effect with as many
  treatment as control runs is detected at 5% exactly from four runs per arm on.\<close>

theorem sensitivity_detects_iff:
  "(sensitivity_decision control treatment alpha = Inr ''instrument_sensitivity_detected'' \<longleftrightarrow>
     resolved_count control = 0 \<and> 3 \<le> length control \<and> 0 < resolved_count treatment \<and>
     of_nat (length treatment choose resolved_count treatment) /
       of_nat ((length control + length treatment) choose resolved_count treatment) < alpha - 1 / 1000000000) \<and>
   (sensitivity_decision (replicate n False) (replicate n True) (1 / 20) = Inr ''instrument_sensitivity_detected'' \<longleftrightarrow> 4 \<le> n)"
proof -
  have main: "sensitivity_decision control treatment alpha = Inr ''instrument_sensitivity_detected'' \<longleftrightarrow>
     resolved_count control = 0 \<and> 3 \<le> length control \<and> 0 < resolved_count treatment \<and>
     of_nat (length treatment choose resolved_count treatment) /
       of_nat ((length control + length treatment) choose resolved_count treatment) < alpha - 1 / 1000000000"
    for control treatment alpha
  proof (cases "list_all snd (sensitivity_gates control treatment)")
    case True
    then have "resolved_count control = 0" "3 \<le> length control" by (simp_all add: sensitivity_gates_def no_resolved)
    then show ?thesis by (simp add: decision_of_sound_cell [OF True] Let_def)
  next
    case False
    then have "\<not> (resolved_count control = 0 \<and> 3 \<le> length control \<and> 0 < resolved_count treatment)"
      using resolved_count_le [of treatment] by (auto simp: sensitivity_gates_def no_resolved)
    then show ?thesis using void_cell [OF False] by blast
  qed
  have "1 / of_nat ((n + n) choose n) < (1 / 20 - 1 / 1000000000 :: rat) \<longleftrightarrow> 4 \<le> n" if "3 \<le> n"
  proof -
    define b where "b = (n + n) choose n"
    have "0 < b" by (simp add: b_def)
    then have eq: "1 / of_nat b < (1 / 20 - 1 / 1000000000 :: rat) \<longleftrightarrow> 1 < (1 / 20 - 1 / 1000000000) * (of_nat b :: rat)"
      by (simp add: divide_less_eq)
    show ?thesis
    proof (cases "4 \<le> n")
      case True
      then have "70 \<le> b" using central_binomial_ge [of n] by (simp add: b_def mult_2)
      then have "70 \<le> (of_nat b :: rat)" by (metis of_nat_le_iff of_nat_numeral)
      with True eq show ?thesis by (simp add: b_def [symmetric])
    next
      case False
      then have "b \<le> 20" using central_binomial_small [of n] that by (simp add: b_def mult_2)
      then have "(of_nat b :: rat) \<le> 20" by (metis of_nat_le_iff of_nat_numeral)
      with False eq show ?thesis by (simp add: b_def [symmetric])
    qed
  qed
  then have "sensitivity_decision (replicate n False) (replicate n True) (1 / 20) = Inr ''instrument_sensitivity_detected'' \<longleftrightarrow> 4 \<le> n"
    unfolding main count_all length_replicate binomial_n_n by (cases "3 \<le> n") auto
  with main show ?thesis by blast
qed

text \<open>The error for empty arms does not cover the control arm: with no control run at all the tail is 1.\<close>

theorem empty_control_accepted: "fisher_exact_one_sided 0 0 1 1 = Inr 1"
  using fisher_zero_control [of 1 1 0] by simp

end
