(* ===== verification/Window_Str.thy ===== *)
theory Window_Str
  imports Clinic_Json Complex_Main "HOL-Library.Sublist"
begin

text \<open>
  The recurrence score of a window of turns, \<open>packages/clinic/src/wutai_clinic/engine/str_calculator.py\<close> and
  its copy in \<open>engine/pruner.py\<close>, with \<open>engine/constants.py\<close>. Floating-point numbers are reals.
  The semantic kernel (\<open>difflib\<close>) is a parameter; the window functions take any kernel.
\<close>

section \<open>Model\<close>

definition BFT_F :: real where "BFT_F = 1 / 3"

definition BOOTSTRAP_MIN_SAMPLES :: nat where "BOOTSTRAP_MIN_SAMPLES = nat \<lceil>ln (3 ^ 4 :: real)\<rceil>"

definition BFT_MAX_CONFIDENCE :: real where "BFT_MAX_CONFIDENCE = 1 - BFT_F ^ 2"

definition weight :: "nat \<Rightarrow> nat \<Rightarrow> real" where
  "weight i j = exp (- \<bar>real i - real j\<bar> / BFT_F)"

definition numerator :: "('a \<Rightarrow> 'a \<Rightarrow> real) \<Rightarrow> 'a list \<Rightarrow> real" where
  "numerator kern ws = (\<Sum>i<length ws. \<Sum>j<length ws. if i = j then 0 else kern (ws ! i) (ws ! j) * weight i j)"

definition denominator :: "nat \<Rightarrow> real" where
  "denominator n = (\<Sum>i<n. \<Sum>j<n. if i = j then 0 else weight i j)"

definition window_score :: "('a \<Rightarrow> 'a \<Rightarrow> real) \<Rightarrow> 'a list \<Rightarrow> real" where
  "window_score kern ws =
     (if length ws < 2 then 0
      else (let d = denominator (length ws) in if 0 < d then numerator kern ws / d else 0))"

definition same_state :: "'a \<Rightarrow> 'a \<Rightarrow> real" where
  "same_state l r = (if l = r then 1 else 0)"

text \<open>\<open>calculate_window_str\<close>; \<open>sig\<close> and \<open>sim\<close> stand for the signature and the similarity of turns.\<close>

definition calculate_window_str :: "('t \<Rightarrow> string) \<Rightarrow> ('t \<Rightarrow> 't \<Rightarrow> real) \<Rightarrow> string \<Rightarrow> 't list \<Rightarrow> pyexn + real" where
  "calculate_window_str sig sim mode window =
     (if length window < 2 then Inr 0
      else if mode \<notin> {''structural'', ''semantic''} then Inl (ValueErr ''unknown mode'')
      else Inr (window_score (if mode = ''semantic'' then sim else (\<lambda>l r. same_state (sig l) (sig r))) window))"

definition calculate_rolling_str :: "('t \<Rightarrow> string) \<Rightarrow> ('t \<Rightarrow> 't \<Rightarrow> real) \<Rightarrow> nat \<Rightarrow> string \<Rightarrow> 't list \<Rightarrow> pyexn + real list" where
  "calculate_rolling_str sig sim width mode turns =
     sequence (map (\<lambda>i. calculate_window_str sig sim mode (take (Suc i - (Suc i - width)) (drop (Suc i - width) turns)))
       [0..<length turns])"

definition percentile :: "real list \<Rightarrow> real \<Rightarrow> real" where
  "percentile values quantile =
     (let ordered = sort values in
      if ordered = [] then 0
      else (let position = real (length ordered - 1) * quantile; lower = nat \<lfloor>position\<rfloor>; upper = nat \<lceil>position\<rceil> in
        if lower = upper then ordered ! lower
        else (let w = position - real lower in ordered ! lower * (1 - w) + ordered ! upper * w)))"

definition mean :: "real list \<Rightarrow> real" where "mean xs = sum_list xs / real (length xs)"

definition pstdev :: "real list \<Rightarrow> real" where
  "pstdev xs = sqrt (mean (map (\<lambda>x. (x - mean xs)\<^sup>2) xs))"

definition outliers :: "(real \<Rightarrow> bool) \<Rightarrow> real list \<Rightarrow> nat list" where
  "outliers P values = map fst (filter (\<lambda>(i, v). P v) (enum values))"

definition detect_str_anomaly :: "string \<Rightarrow> real option \<Rightarrow> real list \<Rightarrow> pyexn + nat list" where
  "detect_str_anomaly method threshold rolling =
     (if length rolling < 3 then Inr []
      else if method = ''iqr'' then
        (let q1 = percentile rolling (1 / 4); q3 = percentile rolling (3 / 4); iqr = q3 - q1 in
         if iqr = 0 then Inr []
         else (let fence = (case threshold of Some t \<Rightarrow> t | None \<Rightarrow> sqrt (real (length rolling)) / 2) in
           Inr (outliers (\<lambda>v. v < q1 - fence * iqr \<or> q3 + fence * iqr < v) rolling)))
      else if method = ''zscore'' then
        (if pstdev rolling = 0 then Inr []
         else (let cutoff = (case threshold of Some t \<Rightarrow> t | None \<Rightarrow> sqrt (2 * ln (real (length rolling)))) in
           Inr (outliers (\<lambda>v. cutoff \<le> \<bar>v - mean rolling\<bar> / pstdev rolling) rolling)))
      else Inl (ValueErr ''unknown method''))"

section \<open>The window size\<close>

lemma exp_1_bounds: "exp 1 < (3 :: real)" "(5 / 4) ^ 4 \<le> exp (1 :: real)"
proof -
  have e: "exp (1 :: real) = exp (1 / 4) ^ 4" by (simp add: exp_of_nat_mult [symmetric])
  have "exp (1 / 4 :: real) \<le> 1 + 1 / 4 + (1 / 4)\<^sup>2" by (rule exp_bound) simp_all
  then have "exp (1 / 4 :: real) \<le> 21 / 16" by (simp add: power2_eq_square)
  then have "exp (1 / 4 :: real) ^ 4 \<le> (21 / 16) ^ 4" by (intro power_mono) simp_all
  then show "exp 1 < (3 :: real)" unfolding e by (simp add: power_divide)
  have "5 / 4 \<le> exp (1 / 4 :: real)" using exp_ge_add_one_self [of "1 / 4 :: real"] by simp
  then show "(5 / 4) ^ 4 \<le> exp (1 :: real)" unfolding e by (intro power_mono) simp_all
qed

lemma window_size_5: "BOOTSTRAP_MIN_SAMPLES = 5"
proof -
  have e4: "exp 4 < (81 :: real)"
  proof -
    have "exp (4 :: real) = exp 1 ^ 4" by (simp add: exp_of_nat_mult [symmetric])
    moreover have "exp (1 :: real) ^ 4 < 3 ^ 4" using exp_1_bounds(1) by (intro power_strict_mono) simp_all
    ultimately show ?thesis by simp
  qed
  have e5: "(81 :: real) \<le> exp 5"
  proof -
    have "exp (5 :: real) = exp 1 ^ 5" by (simp add: exp_of_nat_mult [symmetric])
    moreover have "((5 / 4) ^ 4) ^ 5 \<le> exp (1 :: real) ^ 5" using exp_1_bounds(2) by (intro power_mono) simp_all
    ultimately show ?thesis by (simp add: power_divide)
  qed
  have "4 < ln (81 :: real)" using e4 by (subst ln_exp [of 4, symmetric], subst ln_less_cancel_iff) simp_all
  moreover have "ln (81 :: real) \<le> 5" using e5 by (subst ln_exp [of 5, symmetric], subst ln_le_cancel_iff) simp_all
  ultimately have "\<lceil>ln (81 :: real)\<rceil> = 5" by (intro ceiling_unique) simp_all
  then show ?thesis by (simp add: BOOTSTRAP_MIN_SAMPLES_def)
qed

section \<open>Scores\<close>

lemma weight_pos [simp]: "0 < weight i j" "0 \<le> weight i j"
  by (simp_all add: weight_def)

lemma denominator_pos:
  assumes "2 \<le> n"
  shows "0 < denominator n"
proof -
  let ?row = "\<lambda>i. \<Sum>j<n. if i = j then 0 else weight i j"
  have "weight 0 1 \<le> ?row 0" using member_le_sum [of 1 "{..<n}" "\<lambda>j. if 0 = j then 0 else weight 0 j"] assms by simp
  also have "\<dots> \<le> denominator n" unfolding denominator_def
    by (rule member_le_sum) (use assms in \<open>auto intro!: sum_nonneg\<close>)
  finally show ?thesis using weight_pos(1) [of 0 1] by linarith
qed

lemma window_score_eq: "2 \<le> length ws \<Longrightarrow> window_score kern ws = numerator kern ws / denominator (length ws)"
  using denominator_pos [of "length ws"] by (simp add: window_score_def Let_def)

text \<open>A kernel between 0 and 1 gives a score between 0 and 1.\<close>

lemma window_score_bounds:
  assumes "\<And>l r. 0 \<le> kern l r \<and> kern l r \<le> 1"
  shows "0 \<le> window_score kern ws \<and> window_score kern ws \<le> 1"
proof (cases "2 \<le> length ws")
  case True
  have "0 \<le> numerator kern ws" unfolding numerator_def by (intro sum_nonneg) (use assms in auto)
  moreover have "numerator kern ws \<le> denominator (length ws)"
    unfolding numerator_def denominator_def
    by (intro sum_mono) (use assms in \<open>auto intro: mult_left_le_one_le\<close>)
  ultimately show ?thesis using denominator_pos [OF True] by (simp add: window_score_eq [OF True])
qed (simp add: window_score_def)

text \<open>What the score misses is the weight of the pairs that differ.\<close>

definition lost_weight :: "'a list \<Rightarrow> real" where
  "lost_weight ws = (\<Sum>i<length ws. \<Sum>j<length ws. if ws ! i = ws ! j then 0 else weight i j)"

lemma numerator_lost: "numerator same_state ws = denominator (length ws) - lost_weight ws"
  unfolding numerator_def denominator_def lost_weight_def sum_subtractf [symmetric]
  by (intro sum.cong refl) (auto simp: same_state_def)

lemma lost_nonneg: "0 \<le> lost_weight ws"
  unfolding lost_weight_def by (intro sum_nonneg) auto

definition all_same :: "'a list \<Rightarrow> bool" where
  "all_same ws \<longleftrightarrow> (\<forall>w \<in> set ws. w = hd ws)"

lemma all_same_nth: "all_same ws \<Longrightarrow> i < length ws \<Longrightarrow> j < length ws \<Longrightarrow> ws ! i = ws ! j"
  unfolding all_same_def by (metis nth_mem)

lemma all_same_lost: "all_same ws \<Longrightarrow> lost_weight ws = 0"
  unfolding lost_weight_def by (intro sum.neutral ballI) (use all_same_nth in \<open>auto simp: fun_eq_iff\<close>)

text \<open>If not all states agree, two neighbours differ, both ways round.\<close>

lemma neighbours_differ:
  assumes "\<not> all_same ws"
  obtains i where "Suc i < length ws" "ws ! i \<noteq> ws ! Suc i"
proof -
  have "all_same ws" if e: "\<forall>i. Suc i < length ws \<longrightarrow> ws ! i = ws ! Suc i"
  proof -
    have "ws ! i = ws ! 0" if "i < length ws" for i using that by (induction i) (use e in \<open>auto dest: Suc_lessD\<close>)
    then show ?thesis by (auto simp: all_same_def in_set_conv_nth) (metis hd_conv_nth list.size(3) not_less0)
  qed
  with assms show thesis using that by blast
qed

lemma weight_step: "weight i (Suc i) = exp (- 3)" "weight (Suc i) i = exp (- 3)"
  by (simp_all add: weight_def BFT_F_def)

lemma lost_two_steps:
  assumes "\<not> all_same ws"
  shows "2 * exp (- 3) \<le> lost_weight ws"
proof -
  obtain i where i: "Suc i < length ws" "ws ! i \<noteq> ws ! Suc i" using assms by (rule neighbours_differ)
  let ?row = "\<lambda>i. \<Sum>j<length ws. if ws ! i = ws ! j then 0 else weight i j"
  have row: "weight a b \<le> ?row a" if "b < length ws" "ws ! a \<noteq> ws ! b" for a b
    using that member_le_sum [of b "{..<length ws}" "\<lambda>j. if ws ! a = ws ! j then 0 else weight a j"] by simp
  have "?row i + ?row (Suc i) = sum ?row {i, Suc i}" by simp
  also have "\<dots> \<le> lost_weight ws"
    unfolding lost_weight_def by (rule sum_mono2) (use i in \<open>auto intro!: sum_nonneg\<close>)
  finally show ?thesis using row [of "Suc i" i] row [of i "Suc i"] i by (simp add: weight_step)
qed

lemma denominator_5: "denominator 5 = 8 * exp (- 3) + 6 * exp (- 6) + 4 * exp (- 9) + 2 * exp (- 12)"
  by (simp add: denominator_def weight_def BFT_F_def eval_nat_numeral)

lemma denominator_5_less: "denominator 5 < 18 * exp (- 3)"
proof -
  have "4 \<le> exp (3 :: real)" using exp_ge_add_one_self [of "3 :: real"] by simp
  then have "exp (- 3 :: real) \<le> 1 / 4" by (simp add: exp_minus field_simps)
  then have "exp (- 3 :: real) * exp (- 3) \<le> 1 / 4 * exp (- 3)" by (intro mult_right_mono) simp_all
  then have "exp (- 6 :: real) \<le> exp (- 3) / 4" by (simp add: exp_add [symmetric])
  moreover have "exp (- 9) \<le> exp (- 6 :: real)" "exp (- 12) \<le> exp (- 6 :: real)" "0 < exp (- 3 :: real)" by simp_all
  ultimately show ?thesis unfolding denominator_5 by linarith
qed

text \<open>A window of five states reaches the pruning threshold 8/9 exactly when it repeats one state.\<close>

lemma threshold_iff_all_same:
  assumes "length ws = 5"
  shows "BFT_MAX_CONFIDENCE \<le> window_score same_state ws \<longleftrightarrow> all_same ws"
proof -
  have score: "window_score same_state ws = 1 - lost_weight ws / denominator 5"
    using assms denominator_pos [of 5] by (simp add: window_score_eq numerator_lost field_simps)
  show ?thesis
  proof (cases "all_same ws")
    case True
    then show ?thesis by (simp add: score all_same_lost BFT_MAX_CONFIDENCE_def)
  next
    case False
    have "denominator 5 < 9 * lost_weight ws" using denominator_5_less lost_two_steps [OF False] by linarith
    then have "1 / 9 < lost_weight ws / denominator 5" using denominator_pos [of 5] by (simp add: field_simps)
    with False show ?thesis by (simp add: score BFT_MAX_CONFIDENCE_def BFT_F_def power2_eq_square)
  qed
qed

lemma score_1_iff: "2 \<le> length ws \<Longrightarrow> window_score same_state ws = 1 \<longleftrightarrow> all_same ws"
proof -
  assume n: "2 \<le> length ws"
  have "window_score same_state ws = 1 \<longleftrightarrow> lost_weight ws = 0"
    using denominator_pos [OF n] by (simp add: window_score_eq [OF n] numerator_lost field_simps)
  moreover have "0 < 2 * exp (- 3 :: real)" by simp
  ultimately show ?thesis using all_same_lost [of ws] lost_two_steps [of ws] by fastforce
qed

lemma structural_as_states:
  "window_score (\<lambda>l r. same_state (sig l) (sig r)) ws = window_score same_state (map sig ws)"
proof -
  have "numerator (\<lambda>l r. same_state (sig l) (sig r)) ws = numerator same_state (map sig ws)"
    unfolding numerator_def length_map by (intro sum.cong refl) auto
  then show ?thesis by (simp add: window_score_def Let_def)
qed

lemma sequence_Inr_nth: "sequence xs = Inr ys \<Longrightarrow> length ys = length xs \<and> (\<forall>i<length xs. xs ! i = Inr (ys ! i))"
  by (auto simp: sequence_Inr_iff_map)

lemma window_str_bounds:
  assumes "calculate_window_str sig sim ''structural'' w = Inr v"
  shows "0 \<le> v \<and> v \<le> 1 \<and> (v = 1 \<longleftrightarrow> 2 \<le> length w \<and> all_same (map sig w))"
proof -
  have v: "v = (if 2 \<le> length w then window_score same_state (map sig w) else 0)"
    using assms by (simp add: calculate_window_str_def structural_as_states [of sig w] not_less split: if_splits)
  have "0 \<le> window_score same_state (map sig w) \<and> window_score same_state (map sig w) \<le> 1"
    by (rule window_score_bounds) (simp add: same_state_def)
  then show ?thesis unfolding v using score_1_iff [of "map sig w"] by (cases "2 \<le> length w") simp_all
qed

text \<open>The rolling score has one value between 0 and 1 per turn, 1 exactly where the window is one repeated state.\<close>

theorem rolling_str_bounds:
  assumes "calculate_rolling_str sig sim width ''structural'' turns = Inr values"
  shows "length values = length turns \<and> (\<forall>i < length turns.
    let window = take (Suc i - (Suc i - width)) (drop (Suc i - width) turns) in
    0 \<le> values ! i \<and> values ! i \<le> 1 \<and> (values ! i = 1 \<longleftrightarrow> 2 \<le> length window \<and> all_same (map sig window)))"
proof -
  from sequence_Inr_nth [OF assms [unfolded calculate_rolling_str_def]]
  have len: "length values = length turns"
    and v: "\<And>i. i < length turns \<Longrightarrow> calculate_window_str sig sim ''structural''
        (take (Suc i - (Suc i - width)) (drop (Suc i - width) turns)) = Inr (values ! i)"
    by auto
  show ?thesis unfolding Let_def by (intro conjI allI impI len) (simp_all only: window_str_bounds [OF v])
qed

end
