(* ===== verification/Trajectory_Pruner.thy ===== *)
theory Trajectory_Pruner
  imports Window_Str
begin

text \<open>
  Loop pruning of trajectories, \<open>packages/clinic/src/wutai_clinic/engine/pruner.py\<close>. Turns are dictionaries;
  \<open>md5\<close> is the hash, \<open>rp\<close> is \<open>repr\<close> on containers and \<open>sim\<close> the semantic
  similarity (\<open>difflib\<close>). The marks the code writes into the turns are part of the returned turns.
  Typed trajectories (\<open>prune_trajectory\<close>) and the numeric quality score are not modelled; deduplication
  and ranking take the group and the score of a row as functions.
\<close>

section \<open>Model\<close>

type_synonym turn = "json pydict"

text \<open>\<open>json.dumps(v)\<close>\<close>

fun json_ascii :: "json \<Rightarrow> string" where
  "json_ascii JNull = ''null''"
| "json_ascii (JBool b) = (if b then ''true'' else ''false'')"
| "json_ascii (JInt i) = show_int i"
| "json_ascii (JStr s) = json_ascii_str s"
| "json_ascii (JList xs) = CHR ''['' # join '', '' (map json_ascii xs) @ '']''"
| "json_ascii (JObj kvs) =
     CHR ''{'' # join '', '' (map (\<lambda>(k, v). json_ascii_str k @ '': '' @ json_ascii v) kvs) @ ''}''"

text \<open>\<open>json.dumps(v, ensure_ascii=False, sort_keys=True)\<close>\<close>

definition sorted_dumps :: "json \<Rightarrow> string" where
  "sorted_dumps v = json_dumps '', '' '': '' (sort_keys v)"

definition item_text :: "(json \<Rightarrow> string) \<Rightarrow> json \<Rightarrow> string" where
  "item_text rp item = (case item of
     JStr s \<Rightarrow> s
   | JObj kvs \<Rightarrow> (case map_of kvs ''text'' of Some t \<Rightarrow> json_text rp t | None \<Rightarrow> sorted_dumps item)
   | _ \<Rightarrow> sorted_dumps item)"

definition content_text :: "(json \<Rightarrow> string) \<Rightarrow> json \<Rightarrow> string" where
  "content_text rp v = (case v of
     JNull \<Rightarrow> []
   | JStr s \<Rightarrow> s
   | JList xs \<Rightarrow> join ''\<newline>'' (filter (\<lambda>part. part \<noteq> []) (map (item_text rp) xs))
   | JObj kvs \<Rightarrow> item_text rp v
   | _ \<Rightarrow> json_text rp v)"

definition stringify_content :: "(json \<Rightarrow> string) \<Rightarrow> json \<Rightarrow> nat option \<Rightarrow> string" where
  "stringify_content rp v max_chars =
     (let text = content_text rp v in
      case max_chars of
        Some m \<Rightarrow> (if m < py_len text then py_take m text @ ''\<newline>[...truncated...]'' else text)
      | None \<Rightarrow> text)"

definition turn_get :: "turn \<Rightarrow> string \<Rightarrow> json \<Rightarrow> json" where
  "turn_get t k d = (case dict_get t k of Some v \<Rightarrow> v | None \<Rightarrow> d)"

definition state_signature :: "(string \<Rightarrow> string) \<Rightarrow> (json \<Rightarrow> string) \<Rightarrow> turn \<Rightarrow> pyexn + string" where
  "state_signature md5 rp t =
     (let role = turn_get t ''role'' (JStr []); content = stringify_content rp (turn_get t ''content'' (JStr [])) None;
          tool = turn_get t ''tool_call'' (JObj []) in
      if json_truthy tool
      then and_then (json_get_default tool ''name'' (JStr [])) (\<lambda>name.
           and_then (json_get_default tool ''arguments'' (JObj [])) (\<lambda>args.
           Inr (md5 (json_text rp role @ '':'' @ json_text rp name @ '':'' @ json_ascii (sort_keys args)))))
      else Inr (md5 (json_text rp role @ '':none:'' @ (if content = [] then [] else '':'' @ py_take 100 content))))"

definition turn_has_reasoning :: "(json \<Rightarrow> string) \<Rightarrow> turn \<Rightarrow> bool" where
  "turn_has_reasoning rp t \<longleftrightarrow> strip (stringify_content rp (turn_get t ''reasoning'' (JStr [])) None) \<noteq> []"

definition reset_keywords :: "string list" where
  "reset_keywords = [''start over'', ''let me restart'', ''try a completely different'',
     ''completely different approach'', ''revert back'', ''discard changes'']"

definition detect_cognitive_restart :: "(json \<Rightarrow> string) \<Rightarrow> turn \<Rightarrow> pyexn + bool" where
  "detect_cognitive_restart rp t =
     (let content = lower (stringify_content rp (turn_get t ''content'' (JStr [])) None);
          reasoning = lower (stringify_content rp (turn_get t ''reasoning'' (JStr [])) None);
          tool = turn_get t ''tool_call'' (JObj []) in
      and_then (if json_truthy tool
          then and_then (json_get_default tool ''arguments'' (JObj [])) (\<lambda>a. let args = json_ascii a in
            Inr (contains ''git stash'' args \<or> contains ''git checkout'' args \<or> contains ''git reset'' args))
          else Inr False) (\<lambda>git.
      Inr (git \<or> (turn_get t ''role'' (JStr []) = JStr ''assistant'' \<and>
        (list_ex (\<lambda>w. contains w content) reset_keywords \<or> list_ex (\<lambda>w. contains w reasoning) reset_keywords)))))"

definition aha_mark :: "string \<Rightarrow> turn \<Rightarrow> turn" where
  "aha_mark s t = dict_set ''aha_signal'' (JStr s) t"

text \<open>The segments between restarts; a restart only counts after a full window.\<close>

fun split_segments :: "turn list \<Rightarrow> (turn \<times> bool) list \<Rightarrow> turn list list" where
  "split_segments current [] = (if current = [] then [] else [current])"
| "split_segments current ((t, restart) # rest) =
     (if restart \<and> BOOTSTRAP_MIN_SAMPLES \<le> length current
      then (butlast current @ [aha_mark ''pre_restart'' (last current)]) # split_segments [aha_mark ''cognitive_restart'' t] rest
      else split_segments (current @ [t]) rest)"

text \<open>The repeats inside a window that starts at \<open>i\<close>.\<close>

fun repeated_states :: "string set \<Rightarrow> nat \<Rightarrow> string list \<Rightarrow> nat list" where
  "repeated_states seen i [] = []"
| "repeated_states seen i (s # ss) = (if s \<in> seen then i # repeated_states seen (Suc i) ss else repeated_states (insert s seen) (Suc i) ss)"

function scan_states :: "string list \<Rightarrow> nat \<Rightarrow> nat list" where
  "scan_states sigs i =
     (if i + BOOTSTRAP_MIN_SAMPLES \<le> length sigs
      then (let w = take BOOTSTRAP_MIN_SAMPLES (drop i sigs) in
        if BFT_MAX_CONFIDENCE \<le> window_score same_state w
        then repeated_states {} i w @ scan_states sigs (i + BOOTSTRAP_MIN_SAMPLES)
        else scan_states sigs (i + 1))
      else [])"
  by auto

termination scan_states by (relation "measure (\<lambda>(sigs, i). length sigs - i)") (auto simp: window_size_5)

definition semantic_threshold :: real where
  "semantic_threshold = (BFT_MAX_CONFIDENCE + (1 - BFT_F)) / 2"

function scan_semantic :: "(turn \<Rightarrow> turn \<Rightarrow> real) \<Rightarrow> turn list \<Rightarrow> nat \<Rightarrow> nat list" where
  "scan_semantic sim seg i =
     (if i + BOOTSTRAP_MIN_SAMPLES \<le> length seg
      then (if semantic_threshold \<le> window_score sim (take BOOTSTRAP_MIN_SAMPLES (drop i seg))
        then filter (\<lambda>g. semantic_threshold < sim (seg ! g) (seg ! (g - 1))) [i + 1..<i + BOOTSTRAP_MIN_SAMPLES] @ scan_semantic sim seg (i + BOOTSTRAP_MIN_SAMPLES)
        else scan_semantic sim seg (i + 1))
      else [])"
  by auto

termination scan_semantic by (relation "measure (\<lambda>(sim, seg, i). length seg - i)") (auto simp: window_size_5)

declare scan_states.simps [simp del] scan_semantic.simps [simp del]

definition drop_indices :: "nat list \<Rightarrow> 'a list \<Rightarrow> 'a list" where
  "drop_indices pruned xs = map snd (filter (\<lambda>(i, x). i \<notin> set pruned) (enum xs))"

definition prune_segment :: "(string \<Rightarrow> string) \<Rightarrow> (json \<Rightarrow> string) \<Rightarrow> (turn \<Rightarrow> turn \<Rightarrow> real) \<Rightarrow> bool \<Rightarrow> turn list \<Rightarrow> pyexn + turn list" where
  "prune_segment md5 rp sim semantic seg =
     (if length seg \<le> BOOTSTRAP_MIN_SAMPLES then Inr seg
      else if semantic \<and> list_ex (turn_has_reasoning rp) seg then Inr (drop_indices (scan_semantic sim seg 0) seg)
      else and_then (sequence (map (state_signature md5 rp) seg)) (\<lambda>sigs. Inr (drop_indices (scan_states sigs 0) seg)))"

definition prune_single_trajectory :: "(string \<Rightarrow> string) \<Rightarrow> (json \<Rightarrow> string) \<Rightarrow> (turn \<Rightarrow> turn \<Rightarrow> real) \<Rightarrow> turn list \<Rightarrow> bool \<Rightarrow>
    pyexn + turn list" where
  "prune_single_trajectory md5 rp sim turns semantic =
     (if length turns \<le> BOOTSTRAP_MIN_SAMPLES then Inr turns
      else and_then (sequence (map (detect_cognitive_restart rp) turns)) (\<lambda>restarts.
        and_then (sequence (map (prune_segment md5 rp sim semantic) (split_segments [] (zip turns restarts)))) (\<lambda>parts.
        Inr (concat parts))))"

definition truncate_format_error_tail :: "(json \<Rightarrow> string) \<Rightarrow> turn list \<Rightarrow> turn list" where
  "truncate_format_error_tail rp turns =
     (if turns = [] then turns
      else (let tail = lower (stringify_content rp (JObj (last turns)) None) in
        if contains ''format error'' tail \<and> (contains ''exit'' tail \<or> contains ''invalid format'' tail)
        then butlast turns else turns))"

definition pruning_policy_for_source :: "string \<Rightarrow> string" where
  "pruning_policy_for_source kind =
     (if kind = ''swe_long'' then ''long_aggressive''
      else if kind = ''gui_temporal'' \<or> kind = ''physical_temporal'' then ''temporal_moderate''
      else if kind = ''mbpp_base'' then ''schema_only'' else ''short_expert_validation'')"

definition apply_source_policy :: "(string \<Rightarrow> string) \<Rightarrow> (json \<Rightarrow> string) \<Rightarrow> (turn \<Rightarrow> turn \<Rightarrow> real) \<Rightarrow> turn list \<Rightarrow> string \<Rightarrow>
    pyexn + (turn list \<times> string)" where
  "apply_source_policy md5 rp sim turns kind =
     (let policy = pruning_policy_for_source kind; kept = truncate_format_error_tail rp turns in
      if policy = ''long_aggressive'' \<or> (policy = ''temporal_moderate'' \<and> BOOTSTRAP_MIN_SAMPLES * 2 < length kept)
      then and_then (prune_single_trajectory md5 rp sim kept False) (\<lambda>ts. Inr (ts, policy))
      else Inr (kept, policy))"

text \<open>Deduplication: the dictionary \<open>best\<close> keeps the place of a group's first row and its best row, the
  later one of equals.\<close>

definition keep_best :: "('t \<Rightarrow> string) \<Rightarrow> ('t \<Rightarrow> real) \<Rightarrow> 't pydict \<Rightarrow> 't \<Rightarrow> 't pydict" where
  "keep_best grp score best t =
     (case dict_get best (grp t) of
        None \<Rightarrow> dict_set (grp t) t best
      | Some e \<Rightarrow> (if score e \<le> score t then dict_set (grp t) t best else best))"

definition deduplicate :: "('t \<Rightarrow> string) \<Rightarrow> ('t \<Rightarrow> real) \<Rightarrow> 't list \<Rightarrow> 't list" where
  "deduplicate grp score ts = map snd (foldl (keep_best grp score) [] ts)"

text \<open>\<open>sorted(..., reverse=True)\<close> keeps the order of equal rows.\<close>

definition rank_by_health :: "('t \<Rightarrow> real) \<Rightarrow> 't list \<Rightarrow> 't list" where
  "rank_by_health score ts = sort_key (\<lambda>t. - score t) ts"

section \<open>The structural pass collapses exact repeats\<close>

text \<open>The reference: five equal states in a row become one, left to right.\<close>

function collapse :: "('s \<times> 'a) list \<Rightarrow> 'a list" where
  "collapse [] = []"
| "collapse (p # ps) =
     (if 4 \<le> length ps \<and> all_same (map fst (p # take 4 ps)) then snd p # collapse (drop 4 ps) else snd p # collapse ps)"
  by pat_completeness auto

termination collapse by (relation "measure length") auto

lemma upt_step: "[i..<i + (n + Suc 0)] = i # [Suc i..<Suc (i + n)]"
  by (simp add: upt_rec [of i] del: upt_Suc)

lemma repeats_seen: "\<forall>s \<in> set ss. s \<in> seen \<Longrightarrow> repeated_states seen i ss = [i..<i + length ss]"
  by (induction ss arbitrary: i) (simp_all add: upt_step del: upt_Suc add_Suc_right)

lemma repeats_all_same: "all_same (s # ss) \<Longrightarrow> repeated_states {} i (s # ss) = [i + 1..<i + 1 + length ss]"
  using repeats_seen [of ss "{s}" "Suc i"] by (simp add: all_same_def)

definition keep_from :: "nat \<Rightarrow> nat list \<Rightarrow> 'a list \<Rightarrow> 'a list" where
  "keep_from i pruned xs = map snd (filter (\<lambda>(k, x). k \<notin> set pruned) (zip [i..<i + length xs] xs))"

lemma keep_from_Nil [simp]: "keep_from i ps [] = []"
  by (simp add: keep_from_def)

lemma keep_from_Cons: "keep_from i ps (x # xs) = (if i \<in> set ps then keep_from (Suc i) ps xs else x # keep_from (Suc i) ps xs)"
  by (simp add: keep_from_def upt_step del: upt_Suc add_Suc_right)

lemma keep_from_cong: "(\<And>k. i \<le> k \<Longrightarrow> k \<in> set ps \<longleftrightarrow> k \<in> set qs) \<Longrightarrow> keep_from i ps xs = keep_from i qs xs"
  by (induction xs arbitrary: i) (simp_all add: keep_from_Cons)

lemma keep_from_drop: "\<forall>k \<in> {i..<i + n}. k \<in> set ps \<Longrightarrow> n \<le> length xs \<Longrightarrow> keep_from i ps xs = keep_from (i + n) ps (drop n xs)"
proof (induction n arbitrary: i xs)
  case (Suc n)
  then obtain x ys where xs: "xs = x # ys" by (cases xs) auto
  have "keep_from i ps xs = keep_from (Suc i) ps ys" using Suc.prems(1) by (simp add: xs keep_from_Cons)
  also have "\<dots> = keep_from (Suc i + n) ps (drop n ys)" using Suc.prems by (intro Suc.IH) (auto simp: xs)
  finally show ?case by (simp add: xs)
qed simp

lemma keep_from_none: "(\<And>k. k \<in> set ps \<Longrightarrow> k < i) \<Longrightarrow> keep_from i ps xs = xs"
  by (induction xs arbitrary: i) (auto simp: keep_from_Cons less_Suc_eq)

lemma scan_index: "k \<in> set (scan_states sigs i) \<Longrightarrow> i < k"
proof (induction sigs i rule: scan_states.induct)
  case (1 sigs i)
  define w where "w = take BOOTSTRAP_MIN_SAMPLES (drop i sigs)"
  show ?case
  proof (cases "i + BOOTSTRAP_MIN_SAMPLES \<le> length sigs")
    case True
    then have len: "length w = 5" by (simp add: w_def window_size_5)
    show ?thesis
    proof (cases "BFT_MAX_CONFIDENCE \<le> window_score same_state w")
      case hit: True
      then have "all_same w" using threshold_iff_all_same [OF len] by blast
      with len have "set (repeated_states {} i w) \<subseteq> {i + 1..<i + 5}"
        using repeats_all_same [of "hd w" "tl w" i] by (cases w) auto
      moreover have "k \<in> set (repeated_states {} i w) \<or> k \<in> set (scan_states sigs (i + BOOTSTRAP_MIN_SAMPLES))"
        using 1(3) True hit by (subst (asm) scan_states.simps) (simp add: w_def Let_def)
      ultimately show ?thesis using 1(1) [OF True w_def hit] by (auto simp: window_size_5)
    next
      case False
      then have "k \<in> set (scan_states sigs (i + 1))"
        using 1(3) True by (subst (asm) scan_states.simps) (simp add: w_def Let_def)
      then show ?thesis using 1(2) [OF True w_def False] by simp
    qed
  next
    case False
    then show ?thesis using 1(3) by (subst (asm) scan_states.simps) simp
  qed
qed

lemma collapse_short: "length ps \<le> 4 \<Longrightarrow> collapse ps = map snd ps"
  by (induction ps) auto

lemma scan_collapses:
  assumes "length sigs = length xs" "i \<le> length xs"
  shows "keep_from i (scan_states sigs i) (drop i xs) = collapse (zip (drop i sigs) (drop i xs))"
  using assms
proof (induction sigs i rule: scan_states.induct)
  case (1 sigs i)
  define w where "w = take BOOTSTRAP_MIN_SAMPLES (drop i sigs)"
  show ?case
  proof (cases "drop i xs")
    case (Cons x ys)
    then obtain s ss where sigs: "drop i sigs = s # ss" and len: "length ss = length ys"
      using 1(3) by (metis length_Suc_conv length_drop)
    have ys: "ys = drop (Suc i) xs" "ss = drop (Suc i) sigs" using Cons sigs by (metis drop_Suc tl_drop list.sel(3))+
    have i: "Suc i \<le> length xs" using Cons by (metis drop_all list.distinct(1) not_less_eq_eq)
    have window: "i + BOOTSTRAP_MIN_SAMPLES \<le> length sigs \<longleftrightarrow> 4 \<le> length ys"
      using 1(3) i by (simp add: ys window_size_5) linarith
    have w: "w = s # take 4 ss" by (simp add: w_def sigs window_size_5)
    have fst_zip: "map fst ((s, x) # take 4 (zip ss ys)) = s # take 4 ss" using len by (simp add: take_zip)
    show ?thesis
    proof (cases "4 \<le> length ys \<and> all_same w")
      case True
      then have full: "i + BOOTSTRAP_MIN_SAMPLES \<le> length sigs" and len5: "length w = 5"
        using window len by (simp_all add: w)
      have hit: "BFT_MAX_CONFIDENCE \<le> window_score same_state w" using threshold_iff_all_same [OF len5] True by blast
      have scan: "scan_states sigs i = repeated_states {} i w @ scan_states sigs (i + 5)"
        using full hit by (subst scan_states.simps) (simp add: w_def Let_def window_size_5)
      have rep: "repeated_states {} i w = [i + 1..<i + 5]"
        using True len repeats_all_same [of s "take 4 ss" i] by (simp add: w add.commute)
      have not_i: "i \<notin> set (scan_states sigs i)" using scan_index by blast
      have "keep_from i (scan_states sigs i) (drop i xs) = x # keep_from (Suc i) (scan_states sigs i) ys"
        using not_i by (simp add: Cons keep_from_Cons)
      also have "keep_from (Suc i) (scan_states sigs i) ys = keep_from (Suc i + 4) (scan_states sigs i) (drop 4 ys)"
        using True by (intro keep_from_drop) (auto simp: scan rep)
      also have "\<dots> = keep_from (i + 5) (scan_states sigs (i + 5)) (drop 4 ys)"
        unfolding scan rep by (subst keep_from_cong [where qs = "scan_states sigs (i + 5)"]) (auto simp: add.commute)
      also have "drop 4 ys = drop (i + 5) xs" by (simp add: ys add.commute)
      also have "keep_from (i + 5) (scan_states sigs (i + 5)) (drop (i + 5) xs) = collapse (zip (drop (i + 5) sigs) (drop (i + 5) xs))"
        using 1(1) [OF full w_def hit] 1(3) full by (simp add: window_size_5)
      finally have "keep_from i (scan_states sigs i) (drop i xs) = x # collapse (drop 4 (zip ss ys))"
        by (simp add: ys add.commute drop_zip)
      then show ?thesis using True fst_zip len by (simp add: Cons sigs w)
    next
      case False
      have rest: "keep_from (Suc i) (scan_states sigs i) ys = collapse (zip ss ys)"
      proof (cases "i + BOOTSTRAP_MIN_SAMPLES \<le> length sigs")
        case full: True
        then have "length w = 5" using window len by (simp add: w)
        then have miss: "\<not> BFT_MAX_CONFIDENCE \<le> window_score same_state w"
          using threshold_iff_all_same False full window by blast
        have "scan_states sigs i = scan_states sigs (i + 1)"
          using full miss by (subst scan_states.simps) (simp add: w_def Let_def)
        then show ?thesis using 1(2) [OF full w_def miss 1(3)] i by (simp add: ys)
      next
        case short: False
        then have "scan_states sigs i = []" by (subst scan_states.simps) simp
        moreover have "length ys \<le> 4" using short window by simp
        ultimately show ?thesis using len keep_from_none [of "[]" "Suc i" ys] by (simp add: collapse_short)
      qed
      have not_i: "i \<notin> set (scan_states sigs i)" using scan_index by blast
      show ?thesis using False fst_zip not_i rest len by (auto simp: Cons sigs w keep_from_Cons)
    qed
  qed simp
qed

lemma drop_indices_eq: "drop_indices pruned xs = keep_from 0 pruned xs"
  by (simp add: drop_indices_def keep_from_def enum_def)

lemma structural_segment:
  assumes "map (state_signature md5 rp) seg = map Inr sigs"
  shows "drop_indices (scan_states sigs 0) seg = collapse (zip sigs seg)"
  using scan_collapses [of sigs seg 0] map_eq_imp_length_eq [OF assms] by (simp add: drop_indices_eq)

text \<open>Collapsing drops turns, never a state, and at most four of five.\<close>

lemma collapse_facts:
  "subseq (collapse ps) (map snd ps) \<and> length ps \<le> 5 * length (collapse ps)"
proof (induction ps rule: collapse.induct)
  case (2 p ps)
  show ?case
  proof (cases "4 \<le> length ps \<and> all_same (map fst (p # take 4 ps))")
    case True
    have "subseq (collapse (drop 4 ps)) (map snd (take 4 ps) @ map snd (drop 4 ps))"
      using 2(1) [OF True] by (blast intro: list_emb_append2)
    then have "subseq (collapse (drop 4 ps)) (map snd ps)" by (simp add: map_append [symmetric] del: map_append)
    moreover have "length ps \<le> 4 + 5 * length (collapse (drop 4 ps))" using 2(1) [OF True] by simp linarith
    ultimately show ?thesis using True by simp
  next
    case False
    then show ?thesis using 2(2) [OF False] by auto
  qed
qed simp

lemma collapse_keeps_states:
  "(s, x) \<in> set ps \<Longrightarrow> \<exists>y \<in> set (collapse ps). (s, y) \<in> set ps"
proof (induction ps rule: collapse.induct)
  case (2 p ps)
  show ?case
  proof (cases "4 \<le> length ps \<and> all_same (map fst (p # take 4 ps))")
    case True
    have "(s, x) \<in> set (p # take 4 ps) \<or> (s, x) \<in> set (drop 4 ps)"
      using 2(3) by (metis Un_iff append_take_drop_id insert_iff list.simps(15) set_append)
    moreover have "s = fst p" if "(s, x) \<in> set (p # take 4 ps)"
      using that True by (force simp: all_same_def)
    ultimately show ?thesis using 2(1) [OF True] True by (cases p) (auto dest: in_set_dropD)
  next
    case False
    then show ?thesis using 2(2) [OF False] 2(3) by (cases p) auto
  qed
qed simp

definition unmarked :: "turn \<Rightarrow> turn" where
  "unmarked t = filter (\<lambda>(k, v). k \<noteq> ''aha_signal'') t"

lemma unmarked_mark [simp]: "unmarked (aha_mark s t) = unmarked t"
  by (induction t) (auto simp: unmarked_def aha_mark_def dict_set_def)

lemma signature_mark [simp]: "state_signature md5 rp (aha_mark s t) = state_signature md5 rp t"
  by (simp add: state_signature_def turn_get_def aha_mark_def)

text \<open>Segments only differ from the turns by their marks.\<close>

lemma segments_concat:
  assumes "\<And>s t. f (aha_mark s t) = f t"
  shows "map f (concat (split_segments current ps)) = map f current @ map (f \<circ> fst) ps"
proof (induction current ps rule: split_segments.induct)
  case (2 current t restart rest)
  show ?case
  proof (cases "restart \<and> BOOTSTRAP_MIN_SAMPLES \<le> length current")
    case True
    then have "current = butlast current @ [last current]" by (cases current rule: rev_cases) (auto simp: window_size_5)
    then have "map f current = map f (butlast current) @ [f (last current)]" by (metis list.simps(8,9) map_append)
    then show ?thesis using 2(1) [OF True] True by (simp add: assms)
  next
    case False
    then show ?thesis using 2(2) [OF False] by auto
  qed
qed simp

lemma pruned_segment_facts:
  assumes "prune_segment md5 rp sim False seg = Inr out"
  shows "subseq out seg \<and> state_signature md5 rp ` set out = state_signature md5 rp ` set seg \<and> length seg \<le> 5 * length out"
proof (cases "length seg \<le> BOOTSTRAP_MIN_SAMPLES")
  case True
  then show ?thesis using assms by (simp add: prune_segment_def)
next
  case False
  then obtain sigs where "sequence (map (state_signature md5 rp) seg) = Inr sigs" and out: "out = drop_indices (scan_states sigs 0) seg"
    using assms by (auto simp: prune_segment_def and_then_eq_Inr)
  then have sigs: "map (state_signature md5 rp) seg = map Inr sigs" by (simp add: sequence_Inr_iff_map)
  have len: "length sigs = length seg" using map_eq_imp_length_eq [OF sigs] by simp
  have out: "out = collapse (zip sigs seg)" unfolding out by (rule structural_segment [OF sigs])
  have f: "subseq out seg \<and> length seg \<le> 5 * length out"
    using collapse_facts [of "zip sigs seg"] len by (simp add: out)
  have sig: "state_signature md5 rp y = Inr s" if "(s, y) \<in> set (zip sigs seg)" for s y
    using that sigs len by (auto simp: set_zip) (metis nth_map)
  have "state_signature md5 rp x \<in> state_signature md5 rp ` set out" if "x \<in> set seg" for x
  proof -
    from that len obtain s where s: "(s, x) \<in> set (zip sigs seg)" by (metis in_set_impl_in_set_zip2)
    from collapse_keeps_states [OF s] obtain y where "y \<in> set out" "(s, y) \<in> set (zip sigs seg)" by (auto simp: out)
    then show ?thesis using sig [OF s] sig [of s y] by (metis imageI)
  qed
  with f show ?thesis by (auto dest: list_emb_set)
qed

lemma pruned_segments_facts:
  "map (prune_segment md5 rp sim False) segs = map Inr parts \<Longrightarrow>
     subseq (concat parts) (concat segs) \<and> state_signature md5 rp ` set (concat parts) = state_signature md5 rp ` set (concat segs) \<and>
     length (concat segs) \<le> 5 * length (concat parts)"
proof (induction segs arbitrary: parts)
  case (Cons seg segs)
  then obtain p ps where parts: "parts = p # ps" and p: "prune_segment md5 rp sim False seg = Inr p"
    and ps: "map (prune_segment md5 rp sim False) segs = map Inr ps" by (cases parts) auto
  show ?case using pruned_segment_facts [OF p] Cons.IH [OF ps] unfolding parts
    by (simp add: image_Un list_emb_append_mono)
qed simp

lemma pruned_single_facts:
  assumes "prune_single_trajectory md5 rp sim turns False = Inr out"
  shows "subseq (map unmarked out) (map unmarked turns) \<and> state_signature md5 rp ` set out = state_signature md5 rp ` set turns \<and>
    length turns \<le> 5 * length out"
proof (cases "length turns \<le> BOOTSTRAP_MIN_SAMPLES")
  case True
  then show ?thesis using assms by (simp add: prune_single_trajectory_def)
next
  case False
  then obtain restarts parts where r: "sequence (map (detect_cognitive_restart rp) turns) = Inr restarts"
    and p: "sequence (map (prune_segment md5 rp sim False) (split_segments [] (zip turns restarts))) = Inr parts"
    and out: "out = concat parts"
    using assms by (auto simp: prune_single_trajectory_def and_then_eq_Inr)
  let ?segs = "split_segments [] (zip turns restarts)"
  have "length restarts = length turns" using r by (metis map_eq_imp_length_eq sequence_Inr_iff_map)
  then have fsts: "map (f \<circ> fst) (zip turns restarts) = map f turns" for f :: "turn \<Rightarrow> 'z"
    by (simp add: map_map [symmetric] del: map_map)
  have u: "map unmarked (concat ?segs) = map unmarked turns"
    using segments_concat [of unmarked "[]" "zip turns restarts"] fsts [of unmarked] by simp
  have s: "map (state_signature md5 rp) (concat ?segs) = map (state_signature md5 rp) turns"
    using segments_concat [of "state_signature md5 rp" "[]" "zip turns restarts"] fsts [of "state_signature md5 rp"] by simp
  note f = pruned_segments_facts [OF p [unfolded sequence_Inr_iff_map], folded out]
  have "subseq (map unmarked out) (map unmarked (concat ?segs))" using f by (intro subseq_map) blast
  moreover have "state_signature md5 rp ` set out = state_signature md5 rp ` set turns"
    using f arg_cong [OF s, of set] by simp
  moreover have "length turns \<le> 5 * length out" using f map_eq_imp_length_eq [OF u] by simp
  ultimately show ?thesis unfolding u by blast
qed

text \<open>
  C31: The source policy never loses a state of a trajectory. Up to the marks it writes, what remains is a
  subsequence of the turns it was given (less a trailing format error), every state signature of those turns is
  still there, and at least every fifth turn is kept; for sources without a pruning policy nothing is removed.\<close>

theorem pruning_keeps_states:
  assumes "apply_source_policy md5 rp sim turns kind = Inr (out, policy)"
  shows "(let kept = truncate_format_error_tail rp turns in
    kept \<in> {turns, butlast turns} \<and> subseq (map unmarked out) (map unmarked kept) \<and>
    state_signature md5 rp ` set out = state_signature md5 rp ` set kept \<and> length kept \<le> 5 * length out \<and>
    (policy \<in> {''schema_only'', ''short_expert_validation''} \<longrightarrow> out = kept))"
proof -
  let ?kept = "truncate_format_error_tail rp turns"
  have "?kept \<in> {turns, butlast turns}" by (simp add: truncate_format_error_tail_def Let_def)
  moreover have "out = ?kept \<or> (policy \<in> {''long_aggressive'', ''temporal_moderate''} \<and>
      prune_single_trajectory md5 rp sim ?kept False = Inr out)"
    using assms by (auto simp: apply_source_policy_def Let_def and_then_eq_Inr split: if_splits)
  ultimately show ?thesis unfolding Let_def using pruned_single_facts [of md5 rp sim ?kept out] by fastforce
qed

text \<open>Six identical turns of a long run are cut to two.\<close>

definition demo_turn :: turn where "demo_turn = [(''role'', JStr ''assistant'')]"

lemma demo_pruned:
  "apply_source_policy id (\<lambda>_. []) (\<lambda>_ _. 0) (replicate 6 demo_turn) ''swe_long'' = Inr (replicate 2 demo_turn, ''long_aggressive'')"
proof -
  let ?ts = "replicate 6 demo_turn" and ?sg = "state_signature id (\<lambda>_. [])"
  have sig: "?sg demo_turn = Inr ''assistant:none:''"
    by (simp add: state_signature_def demo_turn_def turn_get_def dict_get_def stringify_content_def content_text_def Let_def)
  have calm: "detect_cognitive_restart (\<lambda>_. []) demo_turn = Inr False"
    by (simp add: detect_cognitive_restart_def demo_turn_def turn_get_def dict_get_def stringify_content_def content_text_def
        reset_keywords_def lower_def contains.simps)
  have kept: "truncate_format_error_tail (\<lambda>_. []) ?ts = ?ts"
    unfolding truncate_format_error_tail_def demo_turn_def by code_simp
  have segs: "split_segments [] (zip ?ts (replicate 6 False)) = [?ts]"
    by (simp add: numeral_eq_Suc)
  have "map ?sg ?ts = map Inr (replicate 6 ''assistant:none:'')" by (simp add: sig)
  then have "drop_indices (scan_states (replicate 6 ''assistant:none:'') 0) ?ts = collapse (zip (replicate 6 ''assistant:none:'') ?ts)"
    by (rule structural_segment)
  also have "\<dots> = replicate 2 demo_turn" by (simp add: numeral_eq_Suc all_same_def)
  finally have "prune_segment id (\<lambda>_. []) (\<lambda>_ _. 0) False ?ts = Inr (replicate 2 demo_turn)"
    using sequence_Inr_iff_map [of "map ?sg ?ts" "replicate 6 ''assistant:none:''"] sig
    by (simp add: prune_segment_def window_size_5)
  then have "prune_single_trajectory id (\<lambda>_. []) (\<lambda>_ _. 0) ?ts False = Inr (replicate 2 demo_turn)"
    using sequence_Inr_iff_map [of "map (detect_cognitive_restart (\<lambda>_. [])) ?ts" "replicate 6 False"] calm segs
    by (simp add: prune_single_trajectory_def window_size_5)
  then show ?thesis by (simp add: apply_source_policy_def kept pruning_policy_for_source_def)
qed

theorem pruning_keeps_states_witness:
  "apply_source_policy id (\<lambda>_. []) (\<lambda>_ _. 0) (replicate 6 demo_turn) ''swe_long'' = Inr (replicate 2 demo_turn, ''long_aggressive'') \<and>
   state_signature id (\<lambda>_. []) ` set (replicate 2 demo_turn) = state_signature id (\<lambda>_. []) ` set (truncate_format_error_tail (\<lambda>_. []) (replicate 6 demo_turn))"
  using pruning_keeps_states [OF demo_pruned] demo_pruned by (simp only: Let_def)

section \<open>Deduplication and ranking\<close>

text \<open>One row per group, in the order the groups appear, and the best of its group.\<close>

lemma keep_best_get:
  "dict_get (keep_best grp score best t) g =
     (if g = grp t then (case dict_get best g of Some e \<Rightarrow> if score e \<le> score t then Some t else Some e | None \<Rightarrow> Some t)
      else dict_get best g)"
  by (auto simp: keep_best_def split: option.split)

lemma keep_best_keys:
  "fst ` set (keep_best grp score d t) = insert (grp t) (fst ` set d)"
  "distinct (map fst d) \<Longrightarrow> distinct (map fst (keep_best grp score d t))"
proof -
  have "grp t \<in> fst ` set d" if "dict_get d (grp t) = Some e" for e
    using that by (force simp: dict_get_def dest: map_of_SomeD)
  then show "fst ` set (keep_best grp score d t) = insert (grp t) (fst ` set d)"
    by (auto simp: keep_best_def set_dict_set split: option.split)
  show "distinct (map fst d) \<Longrightarrow> distinct (map fst (keep_best grp score d t))"
    by (auto simp: keep_best_def dict_set_def distinct_update split: option.split)
qed

lemma snoc_groups:
  "fst ` set (foldl (keep_best grp score) [] ts) = grp ` set ts"
  "distinct (map fst (foldl (keep_best grp score) [] ts))"
  by (induction ts rule: rev_induct) (simp_all add: keep_best_keys)

lemma foldl_keep_best:
  "dict_get (foldl (keep_best grp score) [] ts) g = Some e \<Longrightarrow>
     e \<in> set ts \<and> grp e = g \<and> (\<forall>t \<in> set ts. grp t = g \<longrightarrow> score t \<le> score e)"
proof (induction ts arbitrary: e rule: rev_induct)
  case (snoc t ts)
  let ?d = "foldl (keep_best grp score) [] ts"
  have step: "dict_get (keep_best grp score ?d t) g = Some e" using snoc.prems by simp
  show ?case
  proof (cases "g = grp t")
    case True
    show ?thesis
    proof (cases "dict_get ?d g")
      case None
      have "\<forall>s \<in> set ts. grp s \<noteq> g" using None snoc_groups [of grp score ts] by (auto simp: dict_get_def map_of_eq_None_iff)
      then show ?thesis using step True None by (simp add: keep_best_get)
    next
      case (Some a)
      then have a: "a \<in> set ts \<and> grp a = g \<and> (\<forall>t \<in> set ts. grp t = g \<longrightarrow> score t \<le> score a)" by (rule snoc.IH)
      have e: "e = (if score a \<le> score t then t else a)" using step True Some by (simp add: keep_best_get split: if_splits)
      show ?thesis
      proof (cases "score a \<le> score t")
        case better: True
        then show ?thesis using a True e by fastforce
      next
        case False
        then show ?thesis using a True e by auto
      qed
    qed
  next
    case False
    then have "dict_get ?d g = Some e" using step by (simp add: keep_best_get)
    then show ?thesis using snoc.IH [of e] False by auto
  qed
qed (simp add: dict_get_def)

theorem deduplicate_best:
  "distinct (map grp (deduplicate grp score ts)) \<and> set (map grp (deduplicate grp score ts)) = set (map grp ts) \<and>
   (\<forall>e \<in> set (deduplicate grp score ts). e \<in> set ts \<and> (\<forall>t \<in> set ts. grp t = grp e \<longrightarrow> score t \<le> score e))"
proof -
  let ?d = "foldl (keep_best grp score) [] ts"
  have keys: "fst ` set ?d = grp ` set ts" "distinct (map fst ?d)" by (rule snoc_groups)+
  have entry: "v \<in> set ts \<and> grp v = k \<and> (\<forall>t \<in> set ts. grp t = k \<longrightarrow> score t \<le> score v)" if "(k, v) \<in> set ?d" for k v
    using that keys(2) by (intro foldl_keep_best) (simp add: dict_get_def)
  have groups: "map grp (deduplicate grp score ts) = map fst ?d" using entry by (auto simp: deduplicate_def)
  moreover have "set (map fst ?d) = set (map grp ts)" using keys(1) by simp
  moreover have "e \<in> set ts \<and> (\<forall>t \<in> set ts. grp t = grp e \<longrightarrow> score t \<le> score e)" if "e \<in> set (deduplicate grp score ts)" for e
    using that entry by (fastforce simp: deduplicate_def)
  ultimately show ?thesis using keys(2) by metis
qed

end
