(* ===== verification/Tool_Grammar.thy ===== *)
theory Tool_Grammar
  imports Trajectory_Pruner Py_Lines
begin

text \<open>
  Canonical tool calls: \<open>packages/clinic/src/wutai_clinic/engine/grammar_gate.py\<close>, which decides whether a
  response is a well-formed tool call, and the part of \<open>engine/hygiene.py\<close> that rewrites recorded tool
  calls into canonical ones. \<open>loads\<close> is \<open>json.loads\<close> (\<open>None\<close>: not JSON), \<open>rp\<close> is
  \<open>repr\<close> on containers, \<open>parse_call\<close> is \<open>ast.parse\<close> in expression mode with \<open>ast.literal_eval\<close> on the keyword
  arguments, and \<open>literal\<close> is \<open>ast.literal_eval\<close> on a text (\<open>None\<close>: they raise); literals are JSON values.
\<close>

section \<open>The grammar gate\<close>

definition CANONICAL_TOOLS :: "string list" where
  "CANONICAL_TOOLS = [''run_command'', ''write_to_file'', ''replace_file_content'', ''multi_replace_file_content'', ''view_file'',
     ''grep_search'', ''list_dir'', ''read_url_content'', ''read_browser_page'', ''code_synthesis'', ''continuous_action'']"

definition GATE_REQUIRED_ARGS :: "string list pydict" where
  "GATE_REQUIRED_ARGS = [(''run_command'', [''command'']), (''view_file'', [''path'']), (''list_dir'', [''path'']),
     (''grep_search'', [''pattern'']), (''write_to_file'', [''path'']), (''replace_file_content'', [''path'', ''old'', ''new'']),
     (''multi_replace_file_content'', [''path'']), (''read_url_content'', [''url'']), (''read_browser_page'', [''url'']),
     (''continuous_action'', [''payload''])]"

definition TEXT_ROUTE_PROBES :: "string list" where
  "TEXT_ROUTE_PROBES = [''cognitive_steering'', ''defensive_secret_redaction'', ''val_loss_explanation'', ''safety_boundary'']"

definition route_intent_for_probe :: "string \<Rightarrow> string" where
  "route_intent_for_probe probe = (if probe \<in> set TEXT_ROUTE_PROBES then ''text'' else ''tool'')"

definition looks_like_call :: "string \<Rightarrow> bool" where
  "looks_like_call s \<longleftrightarrow> starts_with ''{'' s \<or> contains (json_str ''type'') s \<or> contains (json_str ''tool_call'') s \<or>
     (contains (json_str ''name'') s \<and> contains (json_str ''arguments'') s)"

text \<open>\<open>s[s.find("{") : s.rfind("}") + 1]\<close> when both occur; empty when the last brace comes first.\<close>

definition braced :: "string \<Rightarrow> string" where
  "braced s = (let body = dropWhile (\<lambda>c. c \<noteq> CHR ''{'') s; start = length s - length body;
       stop = length (rstrip_by (\<lambda>c. c \<noteq> CHR ''}'') s) in take (stop - start) body)"

fun parse_candidates :: "(string \<Rightarrow> string + json) \<Rightarrow> string list \<Rightarrow> string list \<Rightarrow> json pydict option \<times> string list" where
  "parse_candidates loads [] errors = (None, if errors = [] then [''json_parse_failed''] else errors)"
| "parse_candidates loads (c # cs) errors =
     (case loads c of
        Inl msg \<Rightarrow> parse_candidates loads cs (errors @ [''json_parse:'' @ msg])
      | Inr (JObj kvs) \<Rightarrow> (Some kvs, errors)
      | Inr _ \<Rightarrow> parse_candidates loads cs (errors @ [''json_not_object'']))"

definition parse_tool_call :: "(string \<Rightarrow> string + json) \<Rightarrow> string \<Rightarrow> bool \<times> json pydict option \<times> string list" where
  "parse_tool_call loads response =
     (let s = strip response in
      if \<not> looks_like_call s then (False, None, [])
      else (True, parse_candidates loads
        (s # (if CHR ''{'' \<in> set s \<and> CHR ''}'' \<in> set s then [braced s] else [])) []))"

definition validate_errors :: "json pydict \<Rightarrow> string list option \<Rightarrow> string list" where
  "validate_errors call schema_required =
     (let name = dict_get call ''name''; args = dict_get call ''arguments'';
          required = (case schema_required of Some r \<Rightarrow> r | None \<Rightarrow> (case name of
              Some (JStr n) \<Rightarrow> (case dict_get GATE_REQUIRED_ARGS n of Some r \<Rightarrow> r | None \<Rightarrow> []) | _ \<Rightarrow> [])) in
      (if dict_get call ''type'' = Some (JStr ''tool_call'') then [] else [''missing_type_tool_call'']) @
      (case name of
         Some (JStr n) \<Rightarrow> (if n = [] then [''missing_tool_name'']
           else if n \<notin> set CANONICAL_TOOLS then [''invalid_tool_name:'' @ n] else [])
       | _ \<Rightarrow> [''missing_tool_name'']) @
      (case args of
         Some (JObj kvs) \<Rightarrow> map (\<lambda>f. ''missing_arg:'' @ f) (filter (\<lambda>f. f \<notin> fst ` set kvs) required)
       | _ \<Rightarrow> [''arguments_not_object'']))"

definition validate_tool_call :: "json pydict \<Rightarrow> string list option \<Rightarrow> bool \<times> string list" where
  "validate_tool_call call schema_required = (let errors = validate_errors call schema_required in (errors = [], errors))"

definition is_canonical_tool_json :: "(string \<Rightarrow> string + json) \<Rightarrow> string \<Rightarrow> bool" where
  "is_canonical_tool_json loads text =
     (case parse_tool_call loads text of
        (True, Some call, _) \<Rightarrow> fst (validate_tool_call call None)
      | _ \<Rightarrow> False)"

definition classify_route :: "(string \<Rightarrow> string + json) \<Rightarrow> string \<Rightarrow> string" where
  "classify_route loads response =
     (let s = strip response in
      if is_canonical_tool_json loads s then ''tool''
      else if fst (parse_tool_call loads s) then ''ambiguous'' else ''text'')"

definition validate_response_tool_call :: "(string \<Rightarrow> string + json) \<Rightarrow> string \<Rightarrow>
    bool \<times> bool option \<times> string option \<times> string list" where
  "validate_response_tool_call loads response =
     (case parse_tool_call loads response of
        (False, _, _) \<Rightarrow> (False, None, None, [])
      | (True, None, errors) \<Rightarrow> (True, Some False, None, errors)
      | (True, Some call, errors) \<Rightarrow> (let all = errors @ validate_errors call None in
          (True, Some (all = []), (case dict_get call ''name'' of Some (JStr n) \<Rightarrow> Some n | _ \<Rightarrow> None), all)))"

definition canonical_tool_json :: "string \<Rightarrow> json pydict \<Rightarrow> string" where
  "canonical_tool_json name args =
     sorted_dumps (JObj [(''type'', JStr ''tool_call''), (''name'', JStr name), (''arguments'', JObj args)])"

section \<open>Normalising recorded calls\<close>

text \<open>The table of \<open>hygiene.py\<close>; it differs from the gate's in one entry.\<close>

definition TOOL_REQUIRED_ARGS :: "string list pydict" where
  "TOOL_REQUIRED_ARGS = [(''run_command'', [''command'']), (''view_file'', [''path'']), (''list_dir'', [''path'']),
     (''grep_search'', [''pattern'']), (''write_to_file'', [''path'']), (''replace_file_content'', [''path'']),
     (''multi_replace_file_content'', [''path'']), (''read_url_content'', [''url'']), (''read_browser_page'', [''url'']),
     (''continuous_action'', [''payload''])]"

definition SHELL_TOOL_ALIASES :: "string list" where
  "SHELL_TOOL_ALIASES = [''bash'', ''python'', ''python3'', ''pytest'', ''git'', ''grep'', ''rg'', ''find'', ''cat'', ''sed'', ''ls'',
     ''make'', ''npm'', ''pnpm'', ''bun'', ''submit'']"

definition DOMAIN_ACTION_ALIASES :: "string list" where
  "DOMAIN_ACTION_ALIASES = [''vla_actuator'', ''robotic_joint_actuator'', ''actuate_environment'', ''bft_consensus_tactic'']"

definition RUN_COMMAND_ALIASES :: "string list" where
  "RUN_COMMAND_ALIASES = [''run_python_or_sql'', ''ebpf_profiler_cmd'']"

fun stringify :: "(json \<Rightarrow> string) \<Rightarrow> json \<Rightarrow> string" where
  "stringify rp JNull = []"
| "stringify rp (JStr s) = s"
| "stringify rp (JList xs) = join ''\<newline>'' (filter (\<lambda>t. t \<noteq> []) (map (stringify rp) xs))"
| "stringify rp (JObj kvs) = (case map_of kvs ''text'' of
       Some t \<Rightarrow> json_text rp (json_or t (JStr [])) | None \<Rightarrow> sorted_dumps (JObj kvs))"
| "stringify rp v = json_text rp v"

definition normalize_arguments :: "(json \<Rightarrow> string) \<Rightarrow> (string \<Rightarrow> string + json) \<Rightarrow> json \<Rightarrow> json pydict" where
  "normalize_arguments rp loads a = (case a of
     JNull \<Rightarrow> []
   | JObj kvs \<Rightarrow> kvs
   | JStr s \<Rightarrow> (case loads s of Inr (JObj kvs) \<Rightarrow> kvs | _ \<Rightarrow> [(''raw'', JStr s)])
   | _ \<Rightarrow> [(''raw'', JStr (stringify rp a))])"

definition arg :: "json pydict \<Rightarrow> string \<Rightarrow> json" where
  "arg args k = turn_get args k JNull"

fun first_nonempty :: "(json \<Rightarrow> string) \<Rightarrow> json list \<Rightarrow> string" where
  "first_nonempty rp [] = []"
| "first_nonempty rp (v # vs) = (let t = strip (stringify rp v) in if t \<noteq> [] then t else first_nonempty rp vs)"

definition command_from_args :: "(json \<Rightarrow> string) \<Rightarrow> json pydict \<Rightarrow> string \<Rightarrow> string" where
  "command_from_args rp args fallback =
     first_nonempty rp [arg args ''command'', arg args ''cmd'', arg args ''payload'', arg args ''raw'', JStr fallback]"

definition required_args :: "string \<Rightarrow> string list" where
  "required_args name = (case dict_get TOOL_REQUIRED_ARGS name of Some r \<Rightarrow> r | None \<Rightarrow> [])"

definition tool_args_missing :: "(json \<Rightarrow> string) \<Rightarrow> string \<Rightarrow> json pydict \<Rightarrow> string list" where
  "tool_args_missing rp name args = filter (\<lambda>k. strip (stringify rp (turn_get args k (JStr []))) = []) (required_args name)"

text \<open>\<open>literal_call_kwargs\<close>: the syntax tree of a call, with its keyword values evaluated where they are literals.\<close>

datatype callee = CalleeName string | CalleeAttr string | CalleeOther

datatype keyword_value = KwLiteral json | KwName string | KwOther

datatype py_expr = PyCall callee "(string option \<times> keyword_value) list" | PyOther

fun callee_text :: "callee \<Rightarrow> string option" where
  "callee_text (CalleeName n) = Some n"
| "callee_text (CalleeAttr n) = Some n"
| "callee_text CalleeOther = None"

fun keyword_json :: "keyword_value \<Rightarrow> json" where
  "keyword_json (KwLiteral v) = v"
| "keyword_json (KwName n) = JStr n"
| "keyword_json KwOther = JStr []"

definition literal_call_kwargs :: "(string \<Rightarrow> py_expr option) \<Rightarrow> string \<Rightarrow> (string \<times> json pydict) option" where
  "literal_call_kwargs parse_call payload =
     (case parse_call (strip payload) of
        Some (PyCall f keywords) \<Rightarrow>
          map_option (\<lambda>n. (n, foldl (\<lambda>d (k, v). case k of Some k \<Rightarrow> dict_set k (keyword_json v) d | None \<Rightarrow> d) [] keywords))
            (callee_text f)
      | _ \<Rightarrow> None)"

text \<open>The pattern of \<open>state_payload_action\<close>: a quoted \<open>code\<close>, a colon, and a quoted text without quotes.\<close>

definition py_quote :: "char \<Rightarrow> bool" where
  "py_quote c \<longleftrightarrow> c = CHR 0x27 \<or> c = CHR 0x22"

definition quoted_span :: "string \<Rightarrow> string option" where
  "quoted_span s =
     (case s of
        q # r \<Rightarrow>
          (let w = takeWhile (\<lambda>c. \<not> py_quote c) r in if py_quote q \<and> w \<noteq> [] \<and> length w < length r then Some w else None)
      | [] \<Rightarrow> None)"

definition code_entry :: "string \<Rightarrow> string option" where
  "code_entry s =
     (case s of
        q # r \<Rightarrow>
          if py_quote q \<and> starts_with ''code'' r
          then (case drop 4 r of
              q' # r' \<Rightarrow>
                (let colon = dropWhile py_space r' in
                 if py_quote q' \<and> starts_with '':'' colon then quoted_span (dropWhile py_space (tl colon)) else None)
            | [] \<Rightarrow> None)
          else None
      | [] \<Rightarrow> None)"

fun search_code :: "string \<Rightarrow> string option" where
  "search_code [] = None"
| "search_code (c # cs) = (case code_entry (c # cs) of Some w \<Rightarrow> Some w | None \<Rightarrow> search_code cs)"

definition state_payload_action :: "(json \<Rightarrow> string) \<Rightarrow> (string \<Rightarrow> json option) \<Rightarrow> string \<Rightarrow> string" where
  "state_payload_action rp literal payload =
     (case search_code payload of
        Some w \<Rightarrow> strip w
      | None \<Rightarrow>
          (case literal payload of
             Some (JObj parsed) \<Rightarrow>
               (let inner = (case arg parsed ''value'' of JObj v \<Rightarrow> first_nonempty rp [arg v ''code'', arg v ''action''] | _ \<Rightarrow> [])
                in if inner \<noteq> [] then inner else first_nonempty rp [arg parsed ''code'', arg parsed ''action''])
           | _ \<Rightarrow> []))"

lemma search_code_example:
  "search_code (''x = {'' @ [CHR 0x27] @ ''code'' @ [CHR 0x27] @ '': '' @ [CHR 0x22] @ ''go'' @ [CHR 0x22]) = Some ''go''"
  by code_simp

definition path_args :: "(json \<Rightarrow> string) \<Rightarrow> json pydict \<Rightarrow> json pydict" where
  "path_args rp args = (if json_truthy (arg args ''path'') then [(''path'', JStr (stringify rp (arg args ''path'')))] else [])"

definition text_arg :: "(json \<Rightarrow> string) \<Rightarrow> json pydict \<Rightarrow> string \<Rightarrow> json \<Rightarrow> json" where
  "text_arg rp args k dflt = JStr (stringify rp (turn_get args k dflt))"

definition map_str_replace_editor :: "(json \<Rightarrow> string) \<Rightarrow> json pydict \<Rightarrow> string \<times> json pydict" where
  "map_str_replace_editor rp args =
     (let command = lower (strip (stringify rp (turn_get args ''command'' (JStr []))));
          path = stringify rp (turn_get args ''path'' (JStr [])) in
      if command = ''view'' then (''view_file'', if path \<noteq> [] then [(''path'', JStr path)] else [])
      else if command \<in> {''create'', ''write''}
      then (''write_to_file'', [(''path'', JStr path), (''file_text'', text_arg rp args ''file_text'' (turn_get args ''content'' (JStr [])))])
      else if command \<in> {''str_replace'', ''replace''}
      then (''replace_file_content'', [(''path'', JStr path), (''old_str'', text_arg rp args ''old_str'' (JStr [])),
        (''new_str'', text_arg rp args ''new_str'' (JStr []))])
      else if command = ''insert''
      then (''replace_file_content'', [(''path'', JStr path), (''old_str'', JStr []),
        (''new_str'', text_arg rp args ''new_str'' (turn_get args ''insert'' (JStr [])))])
      else (''replace_file_content'', args))"

definition normalize_canonical_tool :: "(json \<Rightarrow> string) \<Rightarrow> (string \<Rightarrow> json option) \<Rightarrow> string \<Rightarrow> json pydict \<Rightarrow> string \<times> json pydict" where
  "normalize_canonical_tool rp literal name args =
     (if name = ''run_command'' then
        (let command = first_nonempty rp [arg args ''command'', arg args ''cmd'', arg args ''raw''] in
         if command \<noteq> [] then (''run_command'', [(''command'', JStr command)])
         else (let action = state_payload_action rp literal (stringify rp (turn_get args ''payload'' (JStr []))) in
           if action \<noteq> [] then (''continuous_action'', [(''payload'', JStr action)]) else (''run_command'', [(''command'', JStr [])])))
      else if name = ''grep_search'' then
        (''grep_search'', (''pattern'', JStr (first_nonempty rp [arg args ''pattern'', arg args ''query''])) # path_args rp args)
      else if name = ''view_file'' \<or> name = ''list_dir'' then (name, if path_args rp args \<noteq> [] then path_args rp args else args)
      else if name = ''write_to_file'' then
        (name, [(''path'', text_arg rp args ''path'' (JStr [])), (''file_text'', text_arg rp args ''file_text'' (turn_get args ''content'' (JStr [])))])
      else if name = ''replace_file_content'' then
        (name, [(''path'', text_arg rp args ''path'' (JStr [])), (''old_str'', text_arg rp args ''old_str'' (JStr [])),
          (''new_str'', text_arg rp args ''new_str'' (JStr []))])
      else if name = ''continuous_action'' then
        (let payload = first_nonempty rp [arg args ''payload'', arg args ''action'', arg args ''raw''] in
         (name, if payload \<noteq> [] then [(''payload'', JStr payload)] else args))
      else (name, args))"

text \<open>The first fenced block, tagged \<open>bash\<close>, \<open>sh\<close> or not at all, whose body starts on a new line.\<close>

definition fence_mark :: string where "fence_mark = replicate 3 (CHR 0x60)"

definition fence_body :: "string \<Rightarrow> string option" where
  "fence_body s =
     (let rest = (if starts_with ''bash'' s then drop 4 s else if starts_with ''sh'' s then drop 2 s else s) in
      if CHR 0x0A \<in> set (takeWhile py_space rest)
      then map_option fst (cut_at fence_mark (dropWhile py_space rest)) else None)"

fun fenced_command :: "string \<Rightarrow> string option" where
  "fenced_command [] = None"
| "fenced_command (c # cs) =
     (case (if starts_with fence_mark (c # cs) then fence_body (drop 3 (c # cs)) else None) of
        Some body \<Rightarrow> Some (strip body)
      | None \<Rightarrow> fenced_command cs)"

definition embedded_payload_tool :: "(json \<Rightarrow> string) \<Rightarrow> (string \<Rightarrow> py_expr option) \<Rightarrow> (string \<Rightarrow> json option) \<Rightarrow>
    json pydict \<Rightarrow> (string \<times> json pydict) option" where
  "embedded_payload_tool rp parse_call literal args =
     (let payload = first_nonempty rp [arg args ''payload'', arg args ''raw''] in
      if payload = [] then None
      else case fenced_command payload of
        Some (c # cs) \<Rightarrow> Some (''run_command'', [(''command'', JStr (c # cs))])
      | _ \<Rightarrow> (case literal_call_kwargs parse_call payload of
          None \<Rightarrow> None
        | Some (fname, kwargs) \<Rightarrow> (let name = lower fname in
            if name \<in> set SHELL_TOOL_ALIASES \<union> set RUN_COMMAND_ALIASES
            then Some (''run_command'', [(''command'', JStr (command_from_args rp kwargs name))])
            else if name = ''str_replace_editor'' then Some (map_str_replace_editor rp kwargs)
            else if name \<in> set DOMAIN_ACTION_ALIASES
            then Some (''continuous_action'', [(''payload'', JStr (command_from_args rp kwargs []))])
            else if name \<in> set CANONICAL_TOOLS then Some (normalize_canonical_tool rp literal name kwargs)
            else None)))"

definition tool_json :: "string \<times> json pydict \<Rightarrow> json pydict" where
  "tool_json c = [(''name'', JStr (fst c)), (''arguments'', JObj (snd c))]"

definition missing_required_tool_args :: "(json \<Rightarrow> string) \<Rightarrow> json pydict \<Rightarrow> string list" where
  "missing_required_tool_args rp call =
     (let name = stringify rp (turn_get call ''name'' (JStr [])) in
      case json_or (turn_get call ''arguments'' JNull) (JObj []) of
        JObj args \<Rightarrow> tool_args_missing rp name args
      | _ \<Rightarrow> required_args name)"

text \<open>The rewriting of a named call; the name has been lowered, \<open>raw\<close> is as recorded.\<close>

definition normalize_named :: "(json \<Rightarrow> string) \<Rightarrow> (string \<Rightarrow> py_expr option) \<Rightarrow> (string \<Rightarrow> json option) \<Rightarrow>
    string \<Rightarrow> string \<Rightarrow> json pydict \<Rightarrow> (string \<times> json pydict) option \<times> string" where
  "normalize_named rp parse_call literal raw name args =
     (if name = [] then (None, ''missing'')
      else if name = ''exit'' then (None, ''drop_exit'')
      else if name = ''str_replace_editor'' then
        (let c = map_str_replace_editor rp args in (Some c, ''map:'' @ raw @ ''->'' @ fst c))
      else if name \<in> set SHELL_TOOL_ALIASES then
        (Some (''run_command'', [(''command'', JStr (command_from_args rp args name))]), ''map:'' @ raw @ ''->run_command'')
      else if name \<in> set RUN_COMMAND_ALIASES then
        (Some (''run_command'', [(''command'', JStr (command_from_args rp args []))]), ''map:'' @ raw @ ''->run_command'')
      else if name \<in> set DOMAIN_ACTION_ALIASES then
        (Some (''continuous_action'', [(''payload'', JStr (command_from_args rp args []))]), ''map:'' @ raw @ ''->continuous_action'')
      else if name \<in> set CANONICAL_TOOLS then
        (let c = normalize_canonical_tool rp literal name args in
         case embedded_payload_tool rp parse_call literal args of
           Some e \<Rightarrow> (if tool_args_missing rp (fst c) (snd c) \<noteq> [] \<and> tool_args_missing rp (fst e) (snd e) = []
             then (Some e, ''repair_payload:'' @ raw @ ''->'' @ fst e) else (Some c, ''canonical''))
         | None \<Rightarrow> (Some c, ''canonical''))
      else (None, ''drop_unknown:'' @ raw))"

definition normalize_tool_call :: "(json \<Rightarrow> string) \<Rightarrow> (string \<Rightarrow> string + json) \<Rightarrow> (string \<Rightarrow> py_expr option) \<Rightarrow>
    (string \<Rightarrow> json option) \<Rightarrow> json \<Rightarrow> pyexn + ((string \<times> json pydict) option \<times> string)" where
  "normalize_tool_call rp loads parse_call literal call =
     (case call of
        JObj kvs \<Rightarrow>
          (let direct = turn_get kvs ''name'' JNull; fn = turn_get kvs ''function'' JNull; given = turn_get kvs ''arguments'' JNull in
           and_then (if json_truthy direct then Inr direct else json_get (json_or fn (JObj [])) ''name'') (\<lambda>found.
           let raw = strip (stringify rp (json_or found (JStr [])));
               args = (case (given, fn) of (JNull, JObj f) \<Rightarrow> turn_get f ''arguments'' (JObj []) | _ \<Rightarrow> given) in
           Inr (normalize_named rp parse_call literal raw (lower raw) (normalize_arguments rp loads args))))
      | _ \<Rightarrow> Inr (None, ''missing''))"

section \<open>Every kept call is canonical\<close>

lemma editor_name: "fst (map_str_replace_editor rp args) \<in> set CANONICAL_TOOLS"
  by (auto simp: map_str_replace_editor_def CANONICAL_TOOLS_def Let_def)

lemma canonical_name:
  "name \<in> set CANONICAL_TOOLS \<Longrightarrow> fst (normalize_canonical_tool rp sa name args) \<in> set CANONICAL_TOOLS"
  by (auto simp: normalize_canonical_tool_def CANONICAL_TOOLS_def Let_def)

lemma embedded_name: "embedded_payload_tool rp parse_call sa args = Some e \<Longrightarrow> fst e \<in> set CANONICAL_TOOLS"
proof -
  assume "embedded_payload_tool rp parse_call sa args = Some e"
  moreover have "''run_command'' \<in> set CANONICAL_TOOLS" "''continuous_action'' \<in> set CANONICAL_TOOLS"
    by (simp_all add: CANONICAL_TOOLS_def)
  ultimately show ?thesis
    by (auto simp: embedded_payload_tool_def Let_def editor_name canonical_name
        split: if_splits option.splits list.splits)
qed

lemma normalized_name:
  assumes "normalize_tool_call rp loads parse_call sa call = Inr (Some c, status)"
  shows "fst c \<in> set CANONICAL_TOOLS"
proof -
  have r: "''run_command'' \<in> set CANONICAL_TOOLS" "''continuous_action'' \<in> set CANONICAL_TOOLS"
    by (simp_all add: CANONICAL_TOOLS_def)
  have named: "fst c \<in> set CANONICAL_TOOLS" if "normalize_named rp parse_call sa raw name args = (Some c, status)" for raw name args
    using that r embedded_name [of rp parse_call sa args]
    by (auto simp: normalize_named_def Let_def editor_name canonical_name split: if_splits option.splits)
  then show ?thesis using assms by (auto simp: normalize_tool_call_def and_then_eq_Inr Let_def split: json.splits)
qed

end
