(* ===== verification/Target_Hygiene.thy ===== *)
theory Target_Hygiene
  imports Tool_Grammar
begin

text \<open>
  The target hygiene pass over recorded trajectories, \<open>packages/clinic/src/wutai_clinic/engine/hygiene.py\<close>:
  protocol noise is stripped from texts, tool calls are rewritten, and rows that cannot be repaired are
  quarantined. The regular expressions are written out as recognisers over the text; white space is ASCII white
  space. Parameters as in \<open>Tool_Grammar\<close>.
\<close>

section \<open>Protocol noise\<close>

text \<open>\<open>(?is)<tool_call>.*?</tool_call>\<close> removed; the number of blocks\<close>

definition OPEN_TAG :: string where "OPEN_TAG = ''<tool_call>''"
definition CLOSE_TAG :: string where "CLOSE_TAG = ''</tool_call>''"

definition ci_starts :: "string \<Rightarrow> string \<Rightarrow> bool" where
  "ci_starts p s \<longleftrightarrow> starts_with p (lower s)"

text \<open>the text after the first closing tag\<close>

fun after_close :: "string \<Rightarrow> string option" where
  "after_close [] = None"
| "after_close (c # cs) = (if ci_starts CLOSE_TAG (c # cs) then Some (drop (length CLOSE_TAG) (c # cs)) else after_close cs)"

lemma after_close_shorter: "after_close s = Some t \<Longrightarrow> length t < length s"
  by (induction s) (auto simp: CLOSE_TAG_def split: if_splits)

definition block_rest :: "string \<Rightarrow> string option" where
  "block_rest s = (if ci_starts OPEN_TAG s then after_close (drop (length OPEN_TAG) s) else None)"

lemma block_rest_shorter: "block_rest s = Some t \<Longrightarrow> length t < length s"
  by (auto simp: block_rest_def split: if_splits dest!: after_close_shorter)

function remove_blocks :: "string \<Rightarrow> string \<times> nat" where
  "remove_blocks [] = ([], 0)"
| "remove_blocks (c # cs) =
     (case block_rest (c # cs) of
        Some t \<Rightarrow> (let (u, n) = remove_blocks t in (u, Suc n))
      | None \<Rightarrow> (let (u, n) = remove_blocks cs in (c # u, n)))"
  by pat_completeness auto

termination remove_blocks
  by (relation "measure length") (auto dest: block_rest_shorter)

text \<open>\<open>(?is)</?tool_call>\<close> removed\<close>

definition tag_length :: "string \<Rightarrow> nat option" where
  "tag_length s = (if ci_starts OPEN_TAG s then Some (length OPEN_TAG)
     else if ci_starts CLOSE_TAG s then Some (length CLOSE_TAG) else None)"

lemma tag_length_pos: "tag_length s = Some n \<Longrightarrow> 0 < n"
  by (auto simp: tag_length_def OPEN_TAG_def CLOSE_TAG_def split: if_splits)

function remove_tags :: "string \<Rightarrow> string \<times> nat" where
  "remove_tags [] = ([], 0)"
| "remove_tags (c # cs) =
     (case tag_length (c # cs) of
        Some k \<Rightarrow> (let (u, n) = remove_tags (drop k (c # cs)) in (u, Suc n))
      | None \<Rightarrow> (let (u, n) = remove_tags cs in (c # u, n)))"
  by pat_completeness auto

termination remove_tags
  by (relation "measure length") (auto dest: tag_length_pos)

text \<open>\<open>\s*(label)\s*:\<close> at the head of a text, and what follows it\<close>

definition colon_rest :: "string \<Rightarrow> string option" where
  "colon_rest s = (case dropWhile py_space s of c # u \<Rightarrow> (if c = CHR '':'' then Some u else None) | [] \<Rightarrow> None)"

definition label_rest :: "string list \<Rightarrow> string \<Rightarrow> string option" where
  "label_rest labels s =
     (let t = dropWhile py_space s in
      Option.bind (find (\<lambda>l. ci_starts l t) labels) (\<lambda>l. colon_rest (drop (length l) t)))"

lemma dropWhile_shorter: "length (dropWhile P s) \<le> length s"
  by (induction s) auto

lemma colon_rest_shorter: "colon_rest s = Some u \<Longrightarrow> length u < length s"
  using dropWhile_shorter [of py_space s] by (auto simp: colon_rest_def split: list.splits if_splits)

lemma label_rest_shorter:
  assumes "label_rest labels s = Some u"
  shows "length u < length s"
proof -
  obtain l :: string where "colon_rest (drop (length l) (dropWhile py_space s)) = Some u"
    using assms unfolding label_rest_def Let_def by (rule bind_eq_Some_conv [THEN iffD1, THEN exE]) blast
  then have "length u < length (drop (length l) (dropWhile py_space s))" by (rule colon_rest_shorter)
  then show ?thesis using dropWhile_shorter [of py_space s] by simp
qed

lemma label_dropped:
  "(if bol then label_rest labels (c # cs) else None) = Some t \<Longrightarrow> length (dropWhile py_space t) < Suc (length cs)"
  using label_rest_shorter [of labels "c # cs" t] dropWhile_shorter [of py_space t] by (cases bol) simp_all

text \<open>\<open>(?im)^\s*(Thought|Action)\s*:\s*\<close> removed; the flag says whether the position begins a line.\<close>

function remove_labels :: "bool \<Rightarrow> string \<Rightarrow> string \<times> nat" where
  "remove_labels bol [] = ([], 0)"
| "remove_labels bol (c # cs) =
     (case (if bol then label_rest [''thought'', ''action''] (c # cs) else None) of
        Some t \<Rightarrow> (let rest = dropWhile py_space t; eaten = take (length (c # cs) - length rest) (c # cs);
            (u, n) = remove_labels (last eaten = CHR 0x0A) rest in (u, Suc n))
      | None \<Rightarrow> (let (u, n) = remove_labels (c = CHR 0x0A) cs in (c # u, n)))"
  by pat_completeness auto

termination remove_labels
  by (relation "measure (\<lambda>(bol, s). length s)") (simp_all add: label_dropped)

text \<open>\<open>(?ims)^\s*Action\s*:.*$\<close>: from the first such line to the end of the text.\<close>

fun cut_action :: "bool \<Rightarrow> string \<Rightarrow> string \<times> nat" where
  "cut_action bol [] = ([], 0)"
| "cut_action bol (c # cs) =
     (if bol \<and> label_rest [''action''] (c # cs) \<noteq> None then ([], 1)
      else (let (u, n) = cut_action (c = CHR 0x0A) cs in (c # u, n)))"

text \<open>\<open>re.sub(r"[ \t]+\n", "\n")\<close> and \<open>re.sub(r"\n{4,}", "\n\n\n")\<close>\<close>

definition blank_char :: "char \<Rightarrow> bool" where
  "blank_char c \<longleftrightarrow> c = CHR '' '' \<or> c = CHR 0x09"

fun trim_lines :: "string \<Rightarrow> string" where
  "trim_lines [] = []"
| "trim_lines (c # cs) =
     (if blank_char c \<and> starts_with [CHR 0x0A] (dropWhile blank_char cs) then trim_lines cs else c # trim_lines cs)"

fun squeeze_newlines :: "nat \<Rightarrow> string \<Rightarrow> string" where
  "squeeze_newlines n [] = []"
| "squeeze_newlines n (c # cs) =
     (if c = CHR 0x0A then (if n < 3 then c # squeeze_newlines (Suc n) cs else squeeze_newlines n cs)
      else c # squeeze_newlines 0 cs)"

definition dict_add :: "string \<Rightarrow> nat \<Rightarrow> nat pydict \<Rightarrow> nat pydict" where
  "dict_add k n d = dict_set k ((case dict_get d k of Some m \<Rightarrow> m | None \<Rightarrow> 0) + n) d"

definition count_hits :: "string \<Rightarrow> nat \<Rightarrow> nat pydict \<Rightarrow> nat pydict" where
  "count_hits k n d = (if n = 0 then d else dict_add k n d)"

definition strip_protocol_noise :: "string \<Rightarrow> string \<times> nat pydict" where
  "strip_protocol_noise text =
     (let (t1, n1) = remove_blocks text; (t2, n2) = remove_tags t1; (t3, n3) = remove_labels True t2; (t4, n4) = cut_action True t3;
          cleaned = strip (squeeze_newlines 0 (trim_lines t4))
      in (cleaned, count_hits ''assistant_content_repaired'' (of_bool (cleaned \<noteq> text))
            (count_hits ''action_lines_removed'' n4 (count_hits ''thought_action_labels_removed'' n3
              (count_hits ''dangling_tool_tags_removed'' n2 (count_hits ''tool_call_blocks_removed'' n1 []))))))"

section \<open>Turns\<close>

text \<open>\<open>WHITESPACE_RE.sub(" ", s)\<close>\<close>

fun single_spaces :: "bool \<Rightarrow> string \<Rightarrow> string" where
  "single_spaces seen [] = []"
| "single_spaces seen (c # cs) =
     (if py_space c then (if seen then single_spaces True cs else CHR '' '' # single_spaces True cs)
      else c # single_spaces False cs)"

definition is_generic_completion :: "string \<Rightarrow> bool" where
  "is_generic_completion text \<longleftrightarrow> single_spaces False (lower (strip text)) \<in>
     {''task completed.'', ''task completed'', ''done.'', ''done'', ''completed.'', ''completed''}"

definition count_key :: "string \<Rightarrow> nat pydict \<Rightarrow> nat pydict" where
  "count_key k d = dict_add k 1 d"

definition add_counts :: "nat pydict \<Rightarrow> nat pydict \<Rightarrow> nat pydict" where
  "add_counts more d = foldl (\<lambda>d (k, n). dict_add k n d) d more"

record clean_state =
  cl_stats :: "nat pydict"
  cl_repairs :: "nat pydict"
  cl_turns :: "turn list"

definition repair :: "string \<Rightarrow> clean_state \<Rightarrow> clean_state" where
  "repair k st = st\<lparr>cl_repairs := count_key k (cl_repairs st)\<rparr>"

definition stat :: "string \<Rightarrow> clean_state \<Rightarrow> clean_state" where
  "stat k st = st\<lparr>cl_stats := count_key k (cl_stats st)\<rparr>"

definition keep_turn :: "turn \<Rightarrow> clean_state \<Rightarrow> clean_state" where
  "keep_turn t st = st\<lparr>cl_turns := cl_turns st @ [t]\<rparr>"

definition noise :: "nat pydict \<Rightarrow> clean_state \<Rightarrow> clean_state" where
  "noise counts st = st\<lparr>cl_repairs := add_counts counts (cl_repairs st)\<rparr>"

definition carried :: "string list \<Rightarrow> turn \<Rightarrow> turn" where
  "carried keys t = concat (map (\<lambda>k. case dict_get t k of Some v \<Rightarrow> [(k, v)] | None \<Rightarrow> []) keys)"

definition clean_other :: "(json \<Rightarrow> string) \<Rightarrow> string \<Rightarrow> turn \<Rightarrow> clean_state \<Rightarrow> clean_state" where
  "clean_other rp role t st =
     (let (content, counts) = strip_protocol_noise (stringify rp (turn_get t ''content'' (JStr []))); st1 = noise counts st in
      if content = [] then repair (role @ ''_empty_dropped'') st1
      else keep_turn ([(''role'', JStr role), (''content'', JStr content)] @ carried [''position_ids''] t) st1)"

definition keep_call :: "(json \<Rightarrow> string) \<Rightarrow> turn \<Rightarrow> string \<times> json pydict \<Rightarrow> string \<Rightarrow> clean_state \<Rightarrow> clean_state" where
  "keep_call rp t c content st =
     (let missing = missing_required_tool_args rp (tool_json c) in
      if fst c \<notin> set CANONICAL_TOOLS
      then stat ''noncanonical_tool_after_mapping'' (repair (''noncanonical_tool_after_mapping:'' @ fst c) st)
      else if missing \<noteq> []
      then stat ''tool_call_missing_required_args''
        (repair (''tool_call_missing_required_args:'' @ fst c @ '':'' @ join '','' missing) st)
      else (let summary = content \<noteq> [] \<and> \<not> is_generic_completion content;
           base = [(''role'', JStr ''assistant''), (''content'', JStr []), (''tool_call'', JObj (tool_json c))] @
             carried [''aha_signal'', ''position_ids''] t;
           st1 = (if summary then stat ''assistant_tool_text_moved_to_metadata'' st else st) in
        stat ''assistant_tool_calls_kept'' (keep_turn
          (base @ (if summary then [(''_wutai_reasoning_summary'', JStr (py_take 500 content))] else [])) st1)))"

definition keep_text :: "turn \<Rightarrow> string \<Rightarrow> clean_state \<Rightarrow> clean_state" where
  "keep_text t content st =
     (if content = [] \<or> is_generic_completion content
      then stat ''assistant_text_turns_dropped'' (repair ''assistant_text_turn_dropped'' st)
      else stat ''assistant_text_turns_kept'' (keep_turn
        ([(''role'', JStr ''assistant''), (''content'', JStr content)] @ carried [''aha_signal'', ''position_ids''] t) st))"

text \<open>What is left of an assistant turn once its call has been normalised.\<close>

definition clean_assistant :: "(json \<Rightarrow> string) \<Rightarrow> turn \<Rightarrow> (string \<times> json pydict) option \<Rightarrow> string \<Rightarrow> clean_state \<Rightarrow> clean_state" where
  "clean_assistant rp t call status st =
     (let st1 = repair (''tool_status:'' @ status) (stat ''assistant_messages_seen'' st);
          st2 = (if starts_with ''map:'' status then stat ''tool_calls_mapped'' st1 else st1) in
      if starts_with ''drop_unknown:'' status then stat ''unknown_tool_turns_dropped'' st2
      else if status = ''drop_exit'' then stat ''exit_tool_turns_dropped'' st2
      else (let (content, counts) = strip_protocol_noise (stringify rp (turn_get t ''content'' (JStr []))); st3 = noise counts st2 in
        case call of Some c \<Rightarrow> keep_call rp t c content st3 | None \<Rightarrow> keep_text t content st3))"

definition clean_turn :: "(json \<Rightarrow> string) \<Rightarrow> (string \<Rightarrow> string + json) \<Rightarrow> (string \<Rightarrow> py_expr option) \<Rightarrow>
    (string \<Rightarrow> json option) \<Rightarrow> json \<Rightarrow> clean_state \<Rightarrow> pyexn + clean_state" where
  "clean_turn rp loads parse_call literal v st =
     (case v of
        JObj t \<Rightarrow> (let role = lower (stringify rp (turn_get t ''role'' (JStr []))) in
          if role \<notin> {''system'', ''user'', ''assistant'', ''tool''} then Inr (repair ''invalid_role_dropped'' st)
          else if role \<noteq> ''assistant'' then Inr (clean_other rp role t st)
          else and_then (normalize_tool_call rp loads parse_call literal (turn_get t ''tool_call'' JNull)) (\<lambda>(call, status).
            Inr (clean_assistant rp t call status st)))
      | _ \<Rightarrow> Inr (repair ''non_dict_turn_dropped'' st))"

fun clean_turns_from :: "(json \<Rightarrow> string) \<Rightarrow> (string \<Rightarrow> string + json) \<Rightarrow> (string \<Rightarrow> py_expr option) \<Rightarrow>
    (string \<Rightarrow> json option) \<Rightarrow> json list \<Rightarrow> clean_state \<Rightarrow> pyexn + clean_state" where
  "clean_turns_from rp loads parse_call literal [] st = Inr st"
| "clean_turns_from rp loads parse_call literal (v # vs) st =
     and_then (clean_turn rp loads parse_call literal v st) (clean_turns_from rp loads parse_call literal vs)"

definition clean_turns :: "(json \<Rightarrow> string) \<Rightarrow> (string \<Rightarrow> string + json) \<Rightarrow> (string \<Rightarrow> py_expr option) \<Rightarrow>
    (string \<Rightarrow> json option) \<Rightarrow> json pydict \<Rightarrow> nat pydict \<Rightarrow> pyexn + clean_state" where
  "clean_turns rp loads parse_call literal row stats =
     and_then (json_iter (turn_get row ''sft_turns'' (JList []))) (\<lambda>turns.
       clean_turns_from rp loads parse_call literal turns \<lparr>cl_stats = stats, cl_repairs = [], cl_turns = []\<rparr>)"

definition role_is :: "string \<Rightarrow> turn \<Rightarrow> bool" where
  "role_is r t \<longleftrightarrow> dict_get t ''role'' = Some (JStr r)"

definition validation_failure :: "turn list \<Rightarrow> string option" where
  "validation_failure turns =
     (if turns = [] then Some ''empty_after_hygiene''
      else if \<not> list_ex (role_is ''assistant'') turns then Some ''no_assistant_after_hygiene''
      else if \<not> list_ex (role_is ''user'') turns \<and> \<not> list_ex (role_is ''tool'') turns then Some ''no_user_or_tool_after_hygiene''
      else None)"

section \<open>Quarantine\<close>

definition MOJIBAKE_SINGLE :: "nat list" where
  "MOJIBAKE_SINGLE = [0xE6, 0xE3, 0xE5, 0xF0, 0xEF, 0xFE, 0xC2, 0xC3, 0xCE, 0xCF, 0x96, 0x9C, 0x9F, 0x81]"

definition MOJIBAKE_PAIRS :: "(nat \<times> nat) list" where
  "MOJIBAKE_PAIRS = [(0xEF, 0xBC), (0xE3, 0x80), (0xE4, 0xB8), (0xE7, 0x9A), (0xE6, 0x88), (0xE6, 0x8E), (0xE9, 0x80), (0xE5, 0x85),
     (0xE7, 0xB5), (0xE7, 0x90), (0xE8, 0xA6)]"

definition mojibake :: "string \<Rightarrow> bool" where
  "mojibake text = (let ps = code_points text in
     list_ex (\<lambda>p. p \<in> set MOJIBAKE_SINGLE) ps \<or> list_ex (\<lambda>q. q \<in> set MOJIBAKE_PAIRS) (zip ps (tl ps)))"

text \<open>The lines of a text, and words in order on one line (\<open>.\<close> does not match a line feed).\<close>

fun split_lines :: "string \<Rightarrow> string \<Rightarrow> string list" where
  "split_lines acc [] = [rev acc]"
| "split_lines acc (c # cs) = (if c = CHR 0x0A then rev acc # split_lines [] cs else split_lines (c # acc) cs)"

fun in_order :: "string list list \<Rightarrow> string \<Rightarrow> bool" where
  "in_order [] s \<longleftrightarrow> True"
| "in_order (words # rest) s \<longleftrightarrow> list_ex (\<lambda>w. case cut_at w s of Some (a, b) \<Rightarrow> in_order rest b | None \<Rightarrow> False) words"

definition bytes :: "nat list \<Rightarrow> string" where
  "bytes ns = map char_of ns"

definition cannot_provide :: string where
  "cannot_provide = bytes [0xE4, 0xB8, 0x8D, 0xE8, 0x83, 0xBD, 0xE6, 0x8F, 0x90, 0xE4, 0xBE, 0x9B]"

definition REFUSALS :: "string list list list" where
  "REFUSALS = [
     [[cannot_provide], [bytes [0xE6, 0x80, 0x9D, 0xE7, 0xBB, 0xB4], bytes [0xE6, 0x80, 0x9D, 0xE7, 0xB6, 0xAD]], [bytes [0xE9, 0x93, 0xBE]]],
     [[cannot_provide], [bytes [0xE6, 0x8E, 0xA8, 0xE5, 0xAF, 0xBC]]],
     [[''can'' @ [CHR 0x27] @ ''t provide''], [''chain of thought'']],
     [[''cannot provide''], [''chain of thought'']]]"

definition chain_refusal :: "string \<Rightarrow> bool" where
  "chain_refusal text \<longleftrightarrow> list_ex (\<lambda>line. list_ex (\<lambda>r. in_order r (lower line)) REFUSALS) (split_lines [] text)"

definition turn_blob :: "(json \<Rightarrow> string) \<Rightarrow> json \<Rightarrow> pyexn + string list" where
  "turn_blob rp v =
     (case v of
        JObj t \<Rightarrow> Inr ([stringify rp (turn_get t ''content'' (JStr [])), stringify rp (turn_get t ''reasoning'' (JStr []))] @
          (case dict_get t ''tool_call'' of Some (JObj c) \<Rightarrow> [sorted_dumps (JObj c)] | _ \<Rightarrow> []))
      | _ \<Rightarrow> Inl (AttributeErr ''get''))"

definition row_text_blob :: "(json \<Rightarrow> string) \<Rightarrow> json pydict \<Rightarrow> pyexn + string" where
  "row_text_blob rp row =
     and_then (json_iter (turn_get row ''sft_turns'' (JList []))) (\<lambda>turns.
     and_then (sequence (map (turn_blob rp) turns)) (\<lambda>parts. Inr (join ''\<newline>'' (concat parts))))"

definition quarantine_reason :: "(json \<Rightarrow> string) \<Rightarrow> json pydict \<Rightarrow> pyexn + string option" where
  "quarantine_reason rp row =
     and_then (row_text_blob rp row) (\<lambda>text.
     Inr (if mojibake text then Some ''mojibake'' else if chain_refusal text then Some ''chain_of_thought_refusal'' else None))"

section \<open>Residuals\<close>

text \<open>\<open>re.search(r"(?im)^\s*Label\s*:", s)\<close>\<close>

fun label_line :: "string \<Rightarrow> bool \<Rightarrow> string \<Rightarrow> bool" where
  "label_line l bol [] \<longleftrightarrow> False"
| "label_line l bol (c # cs) \<longleftrightarrow> (bol \<and> label_rest [l] (c # cs) \<noteq> None) \<or> label_line l (c = CHR 0x0A) cs"

record residuals =
  rs_counters :: "nat pydict"
  rs_invalid_names :: "nat pydict"
  rs_seen :: "string list"

definition tally :: "bool \<Rightarrow> string \<Rightarrow> string option \<Rightarrow> residuals \<Rightarrow> residuals" where
  "tally c k row_key r = (if c then r\<lparr>rs_counters := count_key k (rs_counters r),
     rs_seen := (case row_key of Some s \<Rightarrow> List.insert s (rs_seen r) | None \<Rightarrow> rs_seen r)\<rparr> else r)"

definition scan_call :: "(json \<Rightarrow> string) \<Rightarrow> json pydict \<Rightarrow> residuals \<Rightarrow> residuals" where
  "scan_call rp call r =
     (let name = stringify rp (turn_get call ''name'' (JStr [])); unknown = (name \<notin> set CANONICAL_TOOLS);
          r1 = tally unknown ''invalid_tool_names'' None (tally (name = ''exit'') ''assistant_exit_tool_calls'' None r);
          r2 = (if unknown then r1\<lparr>rs_invalid_names := count_key name (rs_invalid_names r1)\<rparr> else r1)
      in tally (missing_required_tool_args rp call \<noteq> []) ''assistant_tool_call_missing_required_args''
           (Some ''assistant_tool_call_missing_required_arg_rows'') r2)"

definition scan_turn :: "(json \<Rightarrow> string) \<Rightarrow> turn \<Rightarrow> residuals \<Rightarrow> residuals" where
  "scan_turn rp t r =
     (let content = stringify rp (turn_get t ''content'' (JStr []));
          r1 = (if dict_get t ''role'' = Some (JStr ''assistant'') then
              (let r0 = tally (contains OPEN_TAG (lower content)) ''assistant_tool_call_tag_residual_messages''
                    (Some ''assistant_tool_call_tag_residual_rows'')
                  (tally (label_line ''action'' True content) ''assistant_action_residual_messages'' (Some ''assistant_action_residual_rows'')
                  (tally (label_line ''thought'' True content) ''assistant_thought_residual_messages'' (Some ''assistant_thought_residual_rows'') r))
               in (case dict_get t ''tool_call'' of Some (JObj c) \<Rightarrow> scan_call rp c r0 | _ \<Rightarrow> r0))
            else r)
      in tally (mojibake content) ''mojibake_messages'' (Some ''mojibake_rows'') r1)"

definition scan_row :: "(json \<Rightarrow> string) \<Rightarrow> turn list \<Rightarrow> residuals \<Rightarrow> residuals" where
  "scan_row rp turns r =
     (let r1 = fold (scan_turn rp) turns (r\<lparr>rs_seen := []\<rparr>) in
      r1\<lparr>rs_counters := fold count_key (rs_seen r1) (rs_counters r1)\<rparr>)"

definition scan_residuals :: "(json \<Rightarrow> string) \<Rightarrow> turn list list \<Rightarrow> residuals" where
  "scan_residuals rp rows = fold (scan_row rp) rows \<lparr>rs_counters = [], rs_invalid_names = [], rs_seen = []\<rparr>"

section \<open>The pass\<close>

record hygiene_state =
  hy_rows :: "(json pydict \<times> turn list) list"
  hy_quarantine :: "json pydict list"
  hy_stats :: "nat pydict"
  hy_by_source :: "nat pydict pydict"
  hy_status :: "nat pydict"

definition source_add :: "string \<Rightarrow> string \<Rightarrow> nat \<Rightarrow> nat pydict pydict \<Rightarrow> nat pydict pydict" where
  "source_add src k n d = dict_set src (dict_add k n (case dict_get d src of Some c \<Rightarrow> c | None \<Rightarrow> [])) d"

definition counts_obj :: "nat pydict \<Rightarrow> json" where
  "counts_obj d = JObj (map (\<lambda>(k, n). (k, JInt (int n))) (sort_key fst d))"

definition quarantine_row :: "string \<Rightarrow> nat \<Rightarrow> nat pydict option \<Rightarrow> json pydict \<Rightarrow> json pydict" where
  "quarantine_row reason index repairs row =
     (let r1 = dict_set ''_wutai_hygiene_source_index'' (JInt (int index)) (dict_set ''_wutai_hygiene_quarantine_reason'' (JStr reason) row)
      in case repairs of Some d \<Rightarrow> dict_set ''_wutai_hygiene_repairs'' (counts_obj d) r1 | None \<Rightarrow> r1)"

definition set_aside :: "string \<Rightarrow> string \<Rightarrow> json pydict \<Rightarrow> hygiene_state \<Rightarrow> hygiene_state" where
  "set_aside src reason qrow h = h\<lparr>hy_quarantine := hy_quarantine h @ [qrow],
     hy_stats := count_key (''quarantine:'' @ reason) (hy_stats h),
     hy_by_source := source_add src (''quarantine:'' @ reason) 1 (hy_by_source h)\<rparr>"

definition raw_turn_count :: "json pydict \<Rightarrow> nat" where
  "raw_turn_count row = (case turn_get row ''sft_turns'' (JList []) of JList xs \<Rightarrow> length xs | _ \<Rightarrow> 0)"

definition hygiene_note :: "nat \<Rightarrow> json pydict \<Rightarrow> clean_state \<Rightarrow> json" where
  "hygiene_note index row c = JObj [(''version'', JStr ''phase2_6_target_hygiene_v1''), (''source_index'', JInt (int index)),
     (''raw_turn_count'', JInt (int (raw_turn_count row))), (''clean_turn_count'', JInt (int (length (cl_turns c)))),
     (''repairs'', counts_obj (cl_repairs c))]"

definition emit :: "string \<Rightarrow> nat \<Rightarrow> json pydict \<Rightarrow> clean_state \<Rightarrow> hygiene_state \<Rightarrow> hygiene_state" where
  "emit src index row c h =
     (let raw = raw_turn_count row; n = length (cl_turns c);
          next_row = dict_set ''_wutai_hygienic_index'' (JInt (int (length (hy_rows h)))) (dict_set ''_wutai_hygiene'' (hygiene_note index row c)
            (dict_set ''sft_turns'' (JList (map JObj (cl_turns c))) row))
      in h\<lparr>hy_rows := hy_rows h @ [(next_row, cl_turns c)],
        hy_stats := dict_add ''clean_turns'' n (dict_add ''raw_turns'' raw (count_key ''output_rows'' (hy_stats h))),
        hy_by_source := fold (\<lambda>(k, m). source_add src k m) (cl_repairs c)
          (source_add src ''clean_turns'' n (source_add src ''raw_turns'' raw (source_add src ''output_rows'' 1 (hy_by_source h))))\<rparr>)"

definition tool_statuses :: "nat pydict \<Rightarrow> nat pydict" where
  "tool_statuses repairs = map (\<lambda>(k, n). (drop 12 k, n)) (filter (\<lambda>(k, n). starts_with ''tool_status:'' k) repairs)"

definition hygiene_row :: "(json \<Rightarrow> string) \<Rightarrow> (string \<Rightarrow> string + json) \<Rightarrow> (string \<Rightarrow> py_expr option) \<Rightarrow>
    (string \<Rightarrow> json option) \<Rightarrow> nat \<Rightarrow> json pydict \<Rightarrow> hygiene_state \<Rightarrow> pyexn + hygiene_state" where
  "hygiene_row rp loads parse_call literal index row h =
     (let src = stringify rp (turn_get row ''_wutai_source_file'' (JStr ''unknown_source.jsonl''));
          h1 = h\<lparr>hy_stats := count_key ''input_rows'' (hy_stats h), hy_by_source := source_add src ''input_rows'' 1 (hy_by_source h)\<rparr> in
      and_then (quarantine_reason rp row) (\<lambda>reason.
      case reason of
        Some r \<Rightarrow> Inr (set_aside src r (quarantine_row r index None row) h1)
      | None \<Rightarrow> and_then (clean_turns rp loads parse_call literal row (hy_stats h1)) (\<lambda>c.
          let h2 = h1\<lparr>hy_stats := cl_stats c, hy_status := add_counts (tool_statuses (cl_repairs c)) (hy_status h1)\<rparr> in
          Inr (case validation_failure (cl_turns c) of
            Some f \<Rightarrow> set_aside src f (quarantine_row f index (Some (cl_repairs c)) row) h2
          | None \<Rightarrow> emit src index row c h2))))"

fun hygiene_rows :: "(json \<Rightarrow> string) \<Rightarrow> (string \<Rightarrow> string + json) \<Rightarrow> (string \<Rightarrow> py_expr option) \<Rightarrow>
    (string \<Rightarrow> json option) \<Rightarrow> nat \<Rightarrow> json pydict list \<Rightarrow> hygiene_state \<Rightarrow> pyexn + hygiene_state" where
  "hygiene_rows rp loads parse_call literal index [] h = Inr h"
| "hygiene_rows rp loads parse_call literal index (row # rows) h =
     and_then (hygiene_row rp loads parse_call literal index row h) (hygiene_rows rp loads parse_call literal (Suc index) rows)"

record hygiene_result =
  hr_rows :: "json pydict list"
  hr_quarantine :: "json pydict list"
  hr_total_raw :: nat
  hr_total_purified :: nat
  hr_total_filtered :: nat
  hr_total_pruned_turns :: nat
  hr_summary :: "nat pydict"
  hr_status :: "nat pydict"
  hr_residuals :: residuals
  hr_by_source :: "nat pydict pydict"
  hr_promotion_gate :: "nat pydict"

definition count_of :: "nat pydict \<Rightarrow> string \<Rightarrow> nat" where
  "count_of d k = (case dict_get d k of Some n \<Rightarrow> n | None \<Rightarrow> 0)"

definition promotion_gate :: "residuals \<Rightarrow> nat pydict" where
  "promotion_gate r = map (\<lambda>k. (k, count_of (rs_counters r) k))
     [''invalid_tool_names'', ''assistant_exit_tool_calls'', ''assistant_thought_residual_messages'',
      ''assistant_action_residual_messages'', ''assistant_tool_call_tag_residual_messages'', ''mojibake_messages'',
      ''assistant_tool_call_missing_required_args'']"

definition run_target_hygiene :: "(json \<Rightarrow> string) \<Rightarrow> (string \<Rightarrow> string + json) \<Rightarrow> (string \<Rightarrow> py_expr option) \<Rightarrow>
    (string \<Rightarrow> json option) \<Rightarrow> json pydict list \<Rightarrow> pyexn + hygiene_result" where
  "run_target_hygiene rp loads parse_call literal rows =
     and_then (hygiene_rows rp loads parse_call literal 0 rows
       \<lparr>hy_rows = [], hy_quarantine = [], hy_stats = [], hy_by_source = [], hy_status = []\<rparr>) (\<lambda>h.
     let res = scan_residuals rp (map snd (hy_rows h)); stats = hy_stats h in
     Inr \<lparr>hr_rows = map fst (hy_rows h), hr_quarantine = hy_quarantine h, hr_total_raw = count_of stats ''input_rows'',
       hr_total_purified = count_of stats ''output_rows'',
       hr_total_filtered = sum_list (map snd (filter (\<lambda>(k, n). starts_with ''quarantine:'' k) stats)),
       hr_total_pruned_turns = count_of stats ''raw_turns'' - count_of stats ''clean_turns'',
       hr_summary = sort_key fst stats, hr_status = sort_key fst (hy_status h),
       hr_residuals = res\<lparr>rs_counters := sort_key fst (rs_counters res), rs_invalid_names := sort_key fst (rs_invalid_names res)\<rparr>,
       hr_by_source = sort_key fst (map (\<lambda>(k, d). (k, sort_key fst d)) (hy_by_source h)),
       hr_promotion_gate = promotion_gate res\<rparr>)"

section \<open>Kept turns\<close>

text \<open>Counters.\<close>

lemma dict_add_simps:
  "dict_add k n [] = [(k, n)]"
  "dict_add k n ((j, m) # d) = (if j = k then (k, m + n) # d else (j, m) # dict_add k n d)"
  by (simp_all add: dict_add_def dict_set_def dict_get_def)

lemma count_of_add [simp]: "count_of (dict_add k n d) j = count_of d j + (if j = k then n else 0)"
  by (auto simp: count_of_def dict_add_def split: option.split)

lemma count_of_key [simp]: "count_of (count_key k d) j = count_of d j + of_bool (j = k)"
  by (simp add: count_key_def)

definition sum_where :: "(string \<Rightarrow> bool) \<Rightarrow> nat pydict \<Rightarrow> nat" where
  "sum_where P d = sum_list (map snd (filter (\<lambda>(k, n). P k) d))"

lemma sum_where_add: "sum_where P (dict_add k n d) = sum_where P d + (if P k then n else 0)"
  by (induction d) (auto simp: sum_where_def dict_add_simps)

lemma sum_where_key [simp]: "sum_where P (count_key k d) = sum_where P d + of_bool (P k)"
  by (simp add: count_key_def sum_where_add)

text \<open>A turn whose tool call, if it has one, is canonical and complete.\<close>

definition sound_call :: "(json \<Rightarrow> string) \<Rightarrow> json pydict \<Rightarrow> bool" where
  "sound_call rp c \<longleftrightarrow> stringify rp (turn_get c ''name'' (JStr [])) \<in> set CANONICAL_TOOLS \<and> missing_required_tool_args rp c = []"

definition sound_turn :: "(json \<Rightarrow> string) \<Rightarrow> turn \<Rightarrow> bool" where
  "sound_turn rp t \<longleftrightarrow> (\<forall>c. dict_get t ''tool_call'' = Some (JObj c) \<longrightarrow> sound_call rp c)"

lemma carried_other: "k \<notin> set ks \<Longrightarrow> dict_get (carried ks t) k = None"
  unfolding carried_def by (induction ks) (auto simp: dict_get_def split: option.splits)

lemma text_turn_sound:
  "''tool_call'' \<notin> set ks \<Longrightarrow> sound_turn rp ([(''role'', r), (''content'', c)] @ carried ks t)"
  using carried_other [of "''tool_call''" ks t] by (simp add: sound_turn_def dict_get_def)

lemma clean_other_sound:
  "\<forall>t \<in> set (cl_turns st). sound_turn rp t \<Longrightarrow> \<forall>t \<in> set (cl_turns (clean_other rp role v st)). sound_turn rp t"
  using text_turn_sound [of "[''position_ids'']" rp]
  by (auto simp: clean_other_def noise_def repair_def keep_turn_def Let_def split: prod.splits)

lemma keep_text_sound:
  "\<forall>t \<in> set (cl_turns st). sound_turn rp t \<Longrightarrow> \<forall>t \<in> set (cl_turns (keep_text v content st)). sound_turn rp t"
  using text_turn_sound [of "[''aha_signal'', ''position_ids'']" rp]
  by (auto simp: keep_text_def stat_def repair_def keep_turn_def)

lemma keep_call_sound:
  assumes "\<forall>t \<in> set (cl_turns st). sound_turn rp t"
  shows "\<forall>t \<in> set (cl_turns (keep_call rp v c content st)). sound_turn rp t"
proof -
  have name: "stringify rp (turn_get (tool_json c) ''name'' (JStr [])) = fst c"
    by (simp add: tool_json_def turn_get_def dict_get_def)
  have "sound_turn rp ([(''role'', JStr ''assistant''), (''content'', JStr []), (''tool_call'', JObj (tool_json c))] @ rest)"
    if "fst c \<in> set CANONICAL_TOOLS" "missing_required_tool_args rp (tool_json c) = []" for rest
    using that name by (simp add: sound_turn_def sound_call_def dict_get_def)
  then show ?thesis using assms
    by (auto simp: keep_call_def stat_def repair_def keep_turn_def Let_def split: if_splits)
qed

lemma clean_turn_sound:
  assumes "clean_turn rp loads parse_call literal v st = Inr st'" "\<forall>t \<in> set (cl_turns st). sound_turn rp t"
  shows "\<forall>t \<in> set (cl_turns st'). sound_turn rp t"
proof -
  have same: "cl_turns (repair k s) = cl_turns s" "cl_turns (stat k s) = cl_turns s" "cl_turns (noise n s) = cl_turns s" for k s n
    by (simp_all add: repair_def stat_def noise_def)
  have "\<forall>t \<in> set (cl_turns (clean_assistant rp w call status st)). sound_turn rp t" for w call status
    unfolding clean_assistant_def Let_def using assms(2)
    by (auto simp: same split: prod.split option.split dest: keep_call_sound keep_text_sound intro!: keep_call_sound keep_text_sound)
  then show ?thesis using assms clean_other_sound [OF assms(2)]
    by (auto simp: clean_turn_def and_then_eq_Inr same Let_def split: json.splits if_splits)
qed

lemma clean_turns_sound:
  assumes "clean_turns rp loads parse_call literal row stats = Inr c"
  shows "\<forall>t \<in> set (cl_turns c). sound_turn rp t"
proof -
  have "clean_turns_from rp loads parse_call literal vs st = Inr c \<Longrightarrow> \<forall>t \<in> set (cl_turns st). sound_turn rp t \<Longrightarrow>
      \<forall>t \<in> set (cl_turns c). sound_turn rp t" for vs st
  proof (induction vs arbitrary: st)
    case (Cons v vs)
    then obtain st' where "clean_turn rp loads parse_call literal v st = Inr st'" "clean_turns_from rp loads parse_call literal vs st' = Inr c"
      by (auto simp: and_then_eq_Inr)
    with Cons show ?case using clean_turn_sound by blast
  qed simp
  with assms show ?thesis by (fastforce simp: clean_turns_def and_then_eq_Inr)
qed

section \<open>The balance of a pass\<close>

definition ledger :: "nat pydict \<Rightarrow> nat \<times> nat \<times> nat" where
  "ledger d = (count_of d ''input_rows'', count_of d ''output_rows'', sum_where (starts_with ''quarantine:'') d)"

text \<open>Cleaning turns counts other things.\<close>

lemma ledger_stat:
  "k \<in> {''assistant_messages_seen'', ''tool_calls_mapped'', ''unknown_tool_turns_dropped'', ''exit_tool_turns_dropped'',
      ''noncanonical_tool_after_mapping'', ''tool_call_missing_required_args'', ''assistant_tool_text_moved_to_metadata'',
      ''assistant_tool_calls_kept'', ''assistant_text_turns_dropped'', ''assistant_text_turns_kept''} \<Longrightarrow>
   ledger (count_key k d) = ledger d"
  by (auto simp: ledger_def starts_with_def)

lemma clean_turn_ledger:
  assumes "clean_turn rp loads parse_call literal v st = Inr st'"
  shows "ledger (cl_stats st') = ledger (cl_stats st)"
proof -
  have same: "cl_stats (repair k s) = cl_stats s" "cl_stats (stat k s) = count_key k (cl_stats s)" "cl_stats (noise n s) = cl_stats s"
      "cl_stats (keep_turn t s) = cl_stats s" for k s n t
    by (simp_all add: repair_def stat_def noise_def keep_turn_def)
  have "ledger (cl_stats (keep_call rp w c content s)) = ledger (cl_stats s)" for w c content s
    by (simp add: keep_call_def Let_def same ledger_stat)
  moreover have "ledger (cl_stats (keep_text w content s)) = ledger (cl_stats s)" for w content s
    by (simp add: keep_text_def same ledger_stat)
  ultimately have "ledger (cl_stats (clean_assistant rp w call status s)) = ledger (cl_stats s)" for w call status s
    by (simp add: clean_assistant_def Let_def same ledger_stat split: prod.split option.split)
  moreover have "cl_stats (clean_other rp role w s) = cl_stats s" for role w s
    by (simp add: clean_other_def Let_def same split: prod.split)
  ultimately show ?thesis using assms
    by (auto simp: clean_turn_def and_then_eq_Inr same Let_def split: json.splits if_splits)
qed

lemma clean_turns_ledger:
  assumes "clean_turns rp loads parse_call literal row stats = Inr c"
  shows "ledger (cl_stats c) = ledger stats"
proof -
  have "clean_turns_from rp loads parse_call literal vs st = Inr c \<Longrightarrow> ledger (cl_stats c) = ledger (cl_stats st)" for vs st
    by (induction vs arbitrary: st) (auto simp: and_then_eq_Inr dest: clean_turn_ledger)
  with assms show ?thesis by (fastforce simp: clean_turns_def and_then_eq_Inr)
qed

definition balanced :: "(json \<Rightarrow> string) \<Rightarrow> nat \<Rightarrow> hygiene_state \<Rightarrow> bool" where
  "balanced rp n h \<longleftrightarrow> ledger (hy_stats h) = (n, length (hy_rows h), length (hy_quarantine h)) \<and>
     length (hy_rows h) + length (hy_quarantine h) = n \<and>
     (\<forall>(row, turns) \<in> set (hy_rows h). dict_get row ''sft_turns'' = Some (JList (map JObj turns)) \<and>
        validation_failure turns = None \<and> (\<forall>t \<in> set turns. sound_turn rp t))"

lemma set_aside_balanced:
  assumes "ledger (hy_stats h) = (Suc n, length (hy_rows h), length (hy_quarantine h))" "length (hy_rows h) + length (hy_quarantine h) = n"
    and "\<forall>(row, turns) \<in> set (hy_rows h). dict_get row ''sft_turns'' = Some (JList (map JObj turns)) \<and>
        validation_failure turns = None \<and> (\<forall>t \<in> set turns. sound_turn rp t)"
  shows "balanced rp (Suc n) (set_aside src reason q h)"
proof -
  have "starts_with ''quarantine:'' (''quarantine:'' @ reason)" by (simp add: starts_with_def)
  then show ?thesis using assms by (simp add: balanced_def set_aside_def ledger_def)
qed

lemma emit_balanced:
  assumes "ledger (hy_stats h) = (Suc n, length (hy_rows h), length (hy_quarantine h))" "length (hy_rows h) + length (hy_quarantine h) = n"
    and "\<forall>(row, turns) \<in> set (hy_rows h). dict_get row ''sft_turns'' = Some (JList (map JObj turns)) \<and>
        validation_failure turns = None \<and> (\<forall>t \<in> set turns. sound_turn rp t)"
    and "validation_failure (cl_turns c) = None" "\<forall>t \<in> set (cl_turns c). sound_turn rp t"
  shows "balanced rp (Suc n) (emit src index row c h)"
proof -
  have "ledger (dict_add ''clean_turns'' a (dict_add ''raw_turns'' b (count_key ''output_rows'' (hy_stats h)))) =
      (Suc n, Suc (length (hy_rows h)), length (hy_quarantine h))" for a b
    using assms(1) by (simp add: ledger_def sum_where_add starts_with_def)
  then show ?thesis using assms by (simp add: balanced_def emit_def Let_def)
qed

lemma hygiene_row_balanced:
  assumes "hygiene_row rp loads parse_call literal index row h = Inr h'" "balanced rp n h"
  shows "balanced rp (Suc n) h'"
proof -
  let ?src = "stringify rp (turn_get row ''_wutai_source_file'' (JStr ''unknown_source.jsonl''))"
  let ?h1 = "h\<lparr>hy_stats := count_key ''input_rows'' (hy_stats h), hy_by_source := source_add ?src ''input_rows'' 1 (hy_by_source h)\<rparr>"
  have b: "ledger (hy_stats ?h1) = (Suc n, length (hy_rows ?h1), length (hy_quarantine ?h1))"
      "length (hy_rows ?h1) + length (hy_quarantine ?h1) = n"
      "\<forall>(row, turns) \<in> set (hy_rows ?h1). dict_get row ''sft_turns'' = Some (JList (map JObj turns)) \<and>
        validation_failure turns = None \<and> (\<forall>t \<in> set turns. sound_turn rp t)"
    using assms(2) by (simp_all add: balanced_def ledger_def starts_with_def)
  from assms(1) obtain reason where "quarantine_reason rp row = Inr reason"
    and h': "(case reason of Some r \<Rightarrow> Inr (set_aside ?src r (quarantine_row r index None row) ?h1)
      | None \<Rightarrow> and_then (clean_turns rp loads parse_call literal row (hy_stats ?h1)) (\<lambda>c.
          let h2 = ?h1\<lparr>hy_stats := cl_stats c, hy_status := add_counts (tool_statuses (cl_repairs c)) (hy_status ?h1)\<rparr> in
          Inr (case validation_failure (cl_turns c) of
            Some f \<Rightarrow> set_aside ?src f (quarantine_row f index (Some (cl_repairs c)) row) h2
          | None \<Rightarrow> emit ?src index row c h2))) = Inr h'"
    unfolding hygiene_row_def Let_def by (elim and_then_InrE)
  show ?thesis
  proof (cases reason)
    case (Some r)
    have "h' = set_aside ?src r (quarantine_row r index None row) ?h1"
      using h' unfolding Some option.case sum.inject by (rule sym)
    then show ?thesis using set_aside_balanced [OF b] by (simp only:)
  next
    case None
    then obtain c where c: "clean_turns rp loads parse_call literal row (hy_stats ?h1) = Inr c"
      and h': "h' = (let h2 = ?h1\<lparr>hy_stats := cl_stats c, hy_status := add_counts (tool_statuses (cl_repairs c)) (hy_status ?h1)\<rparr> in
          case validation_failure (cl_turns c) of
            Some f \<Rightarrow> set_aside ?src f (quarantine_row f index (Some (cl_repairs c)) row) h2
          | None \<Rightarrow> emit ?src index row c h2)"
      using h' by (auto simp: Let_def elim!: and_then_InrE)
    let ?h2 = "?h1\<lparr>hy_stats := cl_stats c, hy_status := add_counts (tool_statuses (cl_repairs c)) (hy_status ?h1)\<rparr>"
    have b2: "ledger (hy_stats ?h2) = (Suc n, length (hy_rows ?h2), length (hy_quarantine ?h2))"
        "length (hy_rows ?h2) + length (hy_quarantine ?h2) = n"
        "\<forall>(row, turns) \<in> set (hy_rows ?h2). dict_get row ''sft_turns'' = Some (JList (map JObj turns)) \<and>
          validation_failure turns = None \<and> (\<forall>t \<in> set turns. sound_turn rp t)"
      using b clean_turns_ledger [OF c] by simp_all
    show ?thesis
    proof (cases "validation_failure (cl_turns c)")
      case None
      then show ?thesis using emit_balanced [OF b2 None clean_turns_sound [OF c]] by (simp add: h' Let_def)
    next
      case (Some f)
      then show ?thesis using set_aside_balanced [OF b2] by (simp add: h' Let_def)
    qed
  qed
qed

section \<open>Scanning sound rows\<close>

definition CALL_KEYS :: "string list" where
  "CALL_KEYS = [''invalid_tool_names'', ''assistant_exit_tool_calls'', ''assistant_tool_call_missing_required_args'']"

definition row_key :: "string \<Rightarrow> bool" where
  "row_key k \<longleftrightarrow> k \<in> {''assistant_thought_residual_rows'', ''assistant_action_residual_rows'', ''assistant_tool_call_tag_residual_rows'',
     ''mojibake_rows'', ''assistant_tool_call_missing_required_arg_rows''}"

text \<open>No call counter has moved, and only row keys have been seen.\<close>

definition clear_calls :: "residuals \<Rightarrow> bool" where
  "clear_calls r \<longleftrightarrow> (\<forall>k \<in> set CALL_KEYS. count_of (rs_counters r) k = 0) \<and> (\<forall>k \<in> set (rs_seen r). row_key k)"

lemma tally_clear:
  "clear_calls r \<Longrightarrow> k \<notin> set CALL_KEYS \<Longrightarrow> row_key s \<Longrightarrow> clear_calls (tally c k (Some s) r)"
  by (auto simp: clear_calls_def tally_def)

lemma scan_call_sound: "sound_call rp c \<Longrightarrow> scan_call rp c r = r"
proof -
  assume "sound_call rp c"
  moreover have "''exit'' \<notin> set CANONICAL_TOOLS" by (simp add: CANONICAL_TOOLS_def)
  ultimately have "stringify rp (turn_get c ''name'' (JStr [])) \<noteq> ''exit''" by (auto simp: sound_call_def)
  with \<open>sound_call rp c\<close> show ?thesis by (simp add: scan_call_def sound_call_def tally_def Let_def)
qed

lemma scan_turn_clear:
  assumes "sound_turn rp t" "clear_calls r"
  shows "clear_calls (scan_turn rp t r)"
proof -
  have keys: "k \<notin> set CALL_KEYS" if "k \<in> {''assistant_tool_call_tag_residual_messages'', ''assistant_action_residual_messages'',
      ''assistant_thought_residual_messages'', ''mojibake_messages''}" for k
    using that by (auto simp: CALL_KEYS_def)
  have rows: "row_key ''assistant_tool_call_tag_residual_rows''" "row_key ''assistant_action_residual_rows''"
      "row_key ''assistant_thought_residual_rows''" "row_key ''mojibake_rows''"
    by (simp_all add: row_key_def)
  have call: "(case dict_get t ''tool_call'' of Some (JObj c) \<Rightarrow> scan_call rp c r0 | _ \<Rightarrow> r0) = r0" for r0
    using assms(1) scan_call_sound by (auto simp: sound_turn_def split: option.split json.split)
  show ?thesis unfolding scan_turn_def Let_def call
    by (intro tally_clear rows keys) (use assms(2) in \<open>auto intro!: tally_clear rows keys\<close>)
qed

lemma scan_row_clear:
  assumes "\<forall>t \<in> set turns. sound_turn rp t" "clear_calls r"
  shows "clear_calls (scan_row rp turns r)"
proof -
  have "clear_calls r0 \<Longrightarrow> clear_calls (fold (scan_turn rp) turns r0)" for r0
    using assms(1) by (induction turns arbitrary: r0) (simp_all add: scan_turn_clear)
  moreover have "clear_calls (r\<lparr>rs_seen := []\<rparr>)" using assms(2) by (simp add: clear_calls_def)
  ultimately have r1: "clear_calls (fold (scan_turn rp) turns (r\<lparr>rs_seen := []\<rparr>))" by blast
  have other: "count_of (fold count_key ks d) k = count_of d k" if "\<forall>s \<in> set ks. row_key s" "k \<in> set CALL_KEYS" for ks d k
    using that by (induction ks arbitrary: d) (auto simp: row_key_def CALL_KEYS_def)
  show ?thesis using r1 other by (simp add: scan_row_def Let_def clear_calls_def)
qed

lemma scan_residuals_clear:
  assumes "\<forall>turns \<in> set rows. \<forall>t \<in> set turns. sound_turn rp t"
  shows "clear_calls (scan_residuals rp rows)"
proof -
  have "clear_calls r \<Longrightarrow> clear_calls (fold (scan_row rp) rows r)" for r
    using assms by (induction rows arbitrary: r) (simp_all add: scan_row_clear)
  moreover have "clear_calls \<lparr>rs_counters = [], rs_invalid_names = [], rs_seen = []\<rparr>"
    by (simp add: clear_calls_def count_of_def dict_get_def)
  ultimately show ?thesis unfolding scan_residuals_def by blast
qed

lemma hygiene_rows_balanced:
  "hygiene_rows rp loads parse_call literal index rows h = Inr h' \<Longrightarrow> balanced rp n h \<Longrightarrow> balanced rp (n + length rows) h'"
proof (induction rows arbitrary: index n h)
  case (Cons row rows)
  then obtain h1 where "hygiene_row rp loads parse_call literal index row h = Inr h1"
    and rest: "hygiene_rows rp loads parse_call literal (Suc index) rows h1 = Inr h'" by (auto simp: and_then_eq_Inr)
  then have "balanced rp (Suc n) h1" using hygiene_row_balanced Cons.prems(2) by blast
  then show ?case using Cons.IH [OF rest, of "Suc n"] by simp
qed simp

text \<open>
  Where an output row comes from: it is the input row of its recorded index, changed in the entries of the pass only. A
  cleaned row has the cleaned turns of that input row; a quarantined one keeps its turns and names the reason for which
  the input row, as recorded or cleaned, was refused.
\<close>

definition cleaned_from where
  "cleaned_from rp loads parse_call literal rows i row \<longleftrightarrow>
     (\<exists>stats c note. quarantine_reason rp (rows ! i) = Inr None \<and>
        clean_turns rp loads parse_call literal (rows ! i) stats = Inr c \<and> validation_failure (cl_turns c) = None \<and>
        dict_get row ''sft_turns'' = Some (JList (map JObj (cl_turns c))) \<and>
        dict_get row ''_wutai_hygiene'' = Some (JObj note) \<and> dict_get note ''source_index'' = Some (JInt (int i))) \<and>
     (\<forall>k. k \<notin> {''sft_turns'', ''_wutai_hygiene'', ''_wutai_hygienic_index''} \<longrightarrow> dict_get row k = dict_get (rows ! i) k)"

definition quarantined_from where
  "quarantined_from rp loads parse_call literal rows i row \<longleftrightarrow>
     dict_get row ''_wutai_hygiene_source_index'' = Some (JInt (int i)) \<and>
     (\<exists>reason. dict_get row ''_wutai_hygiene_quarantine_reason'' = Some (JStr reason) \<and>
        (quarantine_reason rp (rows ! i) = Inr (Some reason) \<or>
         quarantine_reason rp (rows ! i) = Inr None \<and>
         (\<exists>stats c. clean_turns rp loads parse_call literal (rows ! i) stats = Inr c \<and>
            validation_failure (cl_turns c) = Some reason))) \<and>
     (\<forall>k. k \<notin> {''_wutai_hygiene_source_index'', ''_wutai_hygiene_quarantine_reason'', ''_wutai_hygiene_repairs''} \<longrightarrow>
        dict_get row k = dict_get (rows ! i) k)"

text \<open>After \<open>n\<close> rows: the indices of the cleaned and of the quarantined rows.\<close>

definition traced where
  "traced rp loads parse_call literal rows n h cs qs \<longleftrightarrow>
     sorted_wrt (<) cs \<and> sorted_wrt (<) qs \<and> set cs \<union> set qs = {..<n} \<and> set cs \<inter> set qs = {} \<and>
     list_all2 (cleaned_from rp loads parse_call literal rows) cs (map fst (hy_rows h)) \<and>
     list_all2 (quarantined_from rp loads parse_call literal rows) qs (hy_quarantine h)"

lemma increasing_snoc: "sorted_wrt (<) xs \<Longrightarrow> set xs \<subseteq> {..<n} \<Longrightarrow> sorted_wrt (<) (xs @ [n :: nat])"
  by (auto simp: sorted_wrt_append)

lemma quarantine_row_from:
  assumes "quarantine_reason rp (rows ! i) = Inr (Some reason) \<or>
     quarantine_reason rp (rows ! i) = Inr None \<and>
     (\<exists>stats c. clean_turns rp loads parse_call literal (rows ! i) stats = Inr c \<and> validation_failure (cl_turns c) = Some reason)"
  shows "quarantined_from rp loads parse_call literal rows i (quarantine_row reason i repairs (rows ! i))"
  using assms by (auto simp: quarantined_from_def quarantine_row_def Let_def split: option.splits)

lemma emitted_row_from:
  assumes "quarantine_reason rp (rows ! i) = Inr None" "clean_turns rp loads parse_call literal (rows ! i) stats = Inr c"
    "validation_failure (cl_turns c) = None"
  shows "cleaned_from rp loads parse_call literal rows i (dict_set ''_wutai_hygienic_index'' n
    (dict_set ''_wutai_hygiene'' (hygiene_note i (rows ! i) c) (dict_set ''sft_turns'' (JList (map JObj (cl_turns c))) (rows ! i))))"
proof -
  obtain kvs where kvs: "hygiene_note i (rows ! i) c = JObj kvs" "dict_get kvs ''source_index'' = Some (JInt (int i))"
    by (simp add: hygiene_note_def dict_get_def)
  show ?thesis
    unfolding cleaned_from_def by (intro conjI exI) (use assms kvs in simp_all)
qed

lemma traced_step:
  assumes "traced rp loads parse_call literal rows n h cs qs"
  shows traced_set_aside: "hy_rows h' = hy_rows h \<Longrightarrow> hy_quarantine h' = hy_quarantine h @ [q] \<Longrightarrow>
      quarantined_from rp loads parse_call literal rows n q \<Longrightarrow> traced rp loads parse_call literal rows (Suc n) h' cs (qs @ [n])"
    and traced_emit: "hy_rows h' = hy_rows h @ [(row, turns)] \<Longrightarrow> hy_quarantine h' = hy_quarantine h \<Longrightarrow>
      cleaned_from rp loads parse_call literal rows n row \<Longrightarrow> traced rp loads parse_call literal rows (Suc n) h' (cs @ [n]) qs"
proof -
  have sets: "set cs \<union> set qs = {..<n}" "set cs \<inter> set qs = {}" and sorted: "sorted_wrt (<) cs" "sorted_wrt (<) qs"
    using assms by (simp_all add: traced_def)
  have new: "n \<notin> set cs" "n \<notin> set qs" using sets(1) by auto
  have "sorted_wrt (<) (cs @ [n])" "sorted_wrt (<) (qs @ [n])"
    using increasing_snoc [OF sorted(1), of n] increasing_snoc [OF sorted(2), of n] sets(1) by blast+
  moreover have "set (cs @ [n]) \<union> set qs = {..<Suc n}" "set cs \<union> set (qs @ [n]) = {..<Suc n}"
    using sets(1) by (auto simp only: set_append list.set lessThan_Suc)
  moreover have "set (cs @ [n]) \<inter> set qs = {}" "set cs \<inter> set (qs @ [n]) = {}" using sets(2) new by simp_all
  moreover have "list_all2 (cleaned_from rp loads parse_call literal rows) cs (map fst (hy_rows h))"
    "list_all2 (quarantined_from rp loads parse_call literal rows) qs (hy_quarantine h)"
    using assms by (simp_all only: traced_def)
  ultimately show
    "hy_rows h' = hy_rows h \<Longrightarrow> hy_quarantine h' = hy_quarantine h @ [q] \<Longrightarrow>
      quarantined_from rp loads parse_call literal rows n q \<Longrightarrow> traced rp loads parse_call literal rows (Suc n) h' cs (qs @ [n])"
    "hy_rows h' = hy_rows h @ [(row, turns)] \<Longrightarrow> hy_quarantine h' = hy_quarantine h \<Longrightarrow>
      cleaned_from rp loads parse_call literal rows n row \<Longrightarrow> traced rp loads parse_call literal rows (Suc n) h' (cs @ [n]) qs"
    using sorted unfolding traced_def by (simp_all add: list_all2_appendI)
qed

lemma hygiene_row_traced:
  assumes row: "hygiene_row rp loads parse_call literal n (rows ! n) h = Inr h'"
    and tr: "traced rp loads parse_call literal rows n h cs qs"
  shows "\<exists>cs' qs'. traced rp loads parse_call literal rows (Suc n) h' cs' qs'"
proof -
  let ?src = "stringify rp (turn_get (rows ! n) ''_wutai_source_file'' (JStr ''unknown_source.jsonl''))"
  let ?h1 = "h\<lparr>hy_stats := count_key ''input_rows'' (hy_stats h), hy_by_source := source_add ?src ''input_rows'' 1 (hy_by_source h)\<rparr>"
  note aside = traced_set_aside [OF tr] and emitted = traced_emit [OF tr]
  from row obtain reason where reason: "quarantine_reason rp (rows ! n) = Inr reason"
    and h': "(case reason of Some r \<Rightarrow> Inr (set_aside ?src r (quarantine_row r n None (rows ! n)) ?h1)
      | None \<Rightarrow> and_then (clean_turns rp loads parse_call literal (rows ! n) (hy_stats ?h1)) (\<lambda>c.
          let h2 = ?h1\<lparr>hy_stats := cl_stats c, hy_status := add_counts (tool_statuses (cl_repairs c)) (hy_status ?h1)\<rparr> in
          Inr (case validation_failure (cl_turns c) of
            Some f \<Rightarrow> set_aside ?src f (quarantine_row f n (Some (cl_repairs c)) (rows ! n)) h2
          | None \<Rightarrow> emit ?src n (rows ! n) c h2))) = Inr h'"
    unfolding hygiene_row_def Let_def by (elim and_then_InrE)
  show ?thesis
  proof (cases reason)
    case (Some r)
    with h' have "h' = set_aside ?src r (quarantine_row r n None (rows ! n)) ?h1" by simp
    then have "hy_rows h' = hy_rows h" "hy_quarantine h' = hy_quarantine h @ [quarantine_row r n None (rows ! n)]"
      by (simp_all add: set_aside_def)
    moreover have "quarantined_from rp loads parse_call literal rows n (quarantine_row r n None (rows ! n))"
      by (rule quarantine_row_from) (simp add: reason Some)
    ultimately show ?thesis using aside by blast
  next
    case None
    then obtain c where c: "clean_turns rp loads parse_call literal (rows ! n) (hy_stats ?h1) = Inr c"
      and h': "h' = (let h2 = ?h1\<lparr>hy_stats := cl_stats c, hy_status := add_counts (tool_statuses (cl_repairs c)) (hy_status ?h1)\<rparr> in
          case validation_failure (cl_turns c) of
            Some f \<Rightarrow> set_aside ?src f (quarantine_row f n (Some (cl_repairs c)) (rows ! n)) h2
          | None \<Rightarrow> emit ?src n (rows ! n) c h2)"
      using h' by (auto simp: Let_def elim!: and_then_InrE)
    show ?thesis
    proof (cases "validation_failure (cl_turns c)")
      case (Some f)
      have "quarantined_from rp loads parse_call literal rows n (quarantine_row f n (Some (cl_repairs c)) (rows ! n))"
        by (rule quarantine_row_from) (use reason None c Some in blast)
      moreover have "hy_rows h' = hy_rows h" "hy_quarantine h' = hy_quarantine h @ [quarantine_row f n (Some (cl_repairs c)) (rows ! n)]"
        unfolding h' Let_def Some option.case set_aside_def by simp_all
      ultimately show ?thesis using aside by blast
    next
      case no: None
      let ?row = "dict_set ''_wutai_hygienic_index'' (JInt (int (length (hy_rows h)))) (dict_set ''_wutai_hygiene'' (hygiene_note n (rows ! n) c)
        (dict_set ''sft_turns'' (JList (map JObj (cl_turns c))) (rows ! n)))"
      have rows': "hy_rows h' = hy_rows h @ [(?row, cl_turns c)]" "hy_quarantine h' = hy_quarantine h"
        unfolding h' Let_def no option.case emit_def by simp_all
      have "cleaned_from rp loads parse_call literal rows n ?row"
        by (rule emitted_row_from [OF _ c no]) (simp add: reason None)
      with emitted rows' show ?thesis by blast
    qed
  qed
qed

lemma hygiene_rows_traced:
  "hygiene_rows rp loads parse_call literal n rest h = Inr h' \<Longrightarrow> drop n rows = rest \<Longrightarrow> n \<le> length rows \<Longrightarrow>
     traced rp loads parse_call literal rows n h cs qs \<Longrightarrow>
     \<exists>cs' qs'. traced rp loads parse_call literal rows (length rows) h' cs' qs'"
proof (induction rest arbitrary: n h cs qs)
  case Nil
  then show ?case by auto
next
  case (Cons row rest)
  have "n < length rows" by (rule ccontr) (use Cons.prems(2) in simp)
  with Cons.prems(2) have row: "rows ! n = row" "drop (Suc n) rows = rest" "Suc n \<le> length rows"
    using Cons_nth_drop_Suc [of n rows] by simp_all
  from Cons.prems(1) obtain h1 where h1: "hygiene_row rp loads parse_call literal n (rows ! n) h = Inr h1"
    and rest: "hygiene_rows rp loads parse_call literal (Suc n) rest h1 = Inr h'" by (auto simp: and_then_eq_Inr row)
  from hygiene_row_traced [OF h1 Cons.prems(4)] Cons.IH [OF rest row(2,3)] show ?case by blast
qed

text \<open>
  C32: The hygiene pass delivers what its promotion gate demands of tool calls, and loses nothing. Whenever it returns
  (a turn that is no dictionary aborts it), every row that goes in comes out exactly once, cleaned or quarantined, in
  order and under its index: with its own entries, and with its own cleaned turns or with the reason for which it was
  refused; the totals of the manifest say so. A cleaned row has an assistant turn and a user or tool turn, every tool
  call in it is canonical with its required arguments present, and the gate counts no unknown, exit or incomplete
  call.\<close>

theorem hygiene_passes_gate:
  assumes "run_target_hygiene rp loads parse_call literal rows = Inr r"
  shows "hr_total_raw r = length rows \<and> hr_total_purified r = length (hr_rows r) \<and>
    hr_total_filtered r = length (hr_quarantine r) \<and> length (hr_rows r) + length (hr_quarantine r) = length rows \<and>
    (\<exists>cs qs. sorted_wrt (<) cs \<and> sorted_wrt (<) qs \<and> set cs \<union> set qs = {..<length rows} \<and> set cs \<inter> set qs = {} \<and>
       list_all2 (cleaned_from rp loads parse_call literal rows) cs (hr_rows r) \<and>
       list_all2 (quarantined_from rp loads parse_call literal rows) qs (hr_quarantine r)) \<and>
    (\<forall>row \<in> set (hr_rows r). \<exists>turns. dict_get row ''sft_turns'' = Some (JList (map JObj turns)) \<and>
       validation_failure turns = None \<and> (\<forall>t \<in> set turns. sound_turn rp t)) \<and>
    (\<forall>k \<in> set CALL_KEYS. dict_get (hr_promotion_gate r) k = Some 0)"
proof -
  let ?h0 = "\<lparr>hy_rows = [], hy_quarantine = [], hy_stats = [], hy_by_source = [], hy_status = []\<rparr>"
  from assms obtain h where h: "hygiene_rows rp loads parse_call literal 0 rows ?h0 = Inr h"
    and r: "r = \<lparr>hr_rows = map fst (hy_rows h), hr_quarantine = hy_quarantine h, hr_total_raw = count_of (hy_stats h) ''input_rows'',
       hr_total_purified = count_of (hy_stats h) ''output_rows'',
       hr_total_filtered = sum_where (starts_with ''quarantine:'') (hy_stats h),
       hr_total_pruned_turns = count_of (hy_stats h) ''raw_turns'' - count_of (hy_stats h) ''clean_turns'',
       hr_summary = sort_key fst (hy_stats h), hr_status = sort_key fst (hy_status h),
       hr_residuals = (let res = scan_residuals rp (map snd (hy_rows h)) in
         res\<lparr>rs_counters := sort_key fst (rs_counters res), rs_invalid_names := sort_key fst (rs_invalid_names res)\<rparr>),
       hr_by_source = sort_key fst (map (\<lambda>(k, d). (k, sort_key fst d)) (hy_by_source h)),
       hr_promotion_gate = promotion_gate (scan_residuals rp (map snd (hy_rows h)))\<rparr>"
    by (auto simp: run_target_hygiene_def and_then_eq_Inr Let_def sum_where_def)
  have "balanced rp 0 ?h0" by (simp add: balanced_def ledger_def count_of_def dict_get_def sum_where_def)
  with hygiene_rows_balanced [OF h] have b: "balanced rp (length rows) h" by fastforce
  have "clear_calls (scan_residuals rp (map snd (hy_rows h)))"
    by (rule scan_residuals_clear) (use b in \<open>auto simp: balanced_def\<close>)
  then have "\<forall>k \<in> set CALL_KEYS. dict_get (hr_promotion_gate r) k = Some 0"
    by (auto simp: r promotion_gate_def clear_calls_def dict_get_def CALL_KEYS_def)
  moreover have "\<forall>row \<in> set (hr_rows r). \<exists>turns. dict_get row ''sft_turns'' = Some (JList (map JObj turns)) \<and>
       validation_failure turns = None \<and> (\<forall>t \<in> set turns. sound_turn rp t)"
    using b by (fastforce simp: r balanced_def)
  moreover have "\<exists>cs qs. sorted_wrt (<) cs \<and> sorted_wrt (<) qs \<and> set cs \<union> set qs = {..<length rows} \<and> set cs \<inter> set qs = {} \<and>
       list_all2 (cleaned_from rp loads parse_call literal rows) cs (hr_rows r) \<and>
       list_all2 (quarantined_from rp loads parse_call literal rows) qs (hr_quarantine r)"
    using hygiene_rows_traced [OF h, of rows "[]" "[]"] by (simp add: r traced_def)
  ultimately show ?thesis using b by (simp add: r balanced_def ledger_def)
qed

text \<open>One conversation with an aliased tool.\<close>

definition demo_conversation :: "json pydict" where
  "demo_conversation =
     [(''sft_turns'', JList [JObj [(''role'', JStr ''user''), (''content'', JStr ''hi'')],
         JObj [(''role'', JStr ''assistant''), (''tool_call'', JObj [(''name'', JStr ''ls'')])]])]"

lemma demo_conversation_clean:
  "quarantine_reason (\<lambda>_. []) demo_conversation = Inr None"
  "case clean_turns (\<lambda>_. []) (\<lambda>_. Inl []) (\<lambda>_. None) (\<lambda>_. None) demo_conversation [(''input_rows'', 1)] of
     Inr c \<Rightarrow> validation_failure (cl_turns c) = None | Inl e \<Rightarrow> False"
  by code_simp+

theorem hygiene_passes_gate_witness:
  "\<exists>r. run_target_hygiene (\<lambda>_. []) (\<lambda>_. Inl []) (\<lambda>_. None) (\<lambda>_. None) [demo_conversation] = Inr r \<and> length (hr_rows r) = 1 \<and>
     hr_total_purified r = 1 \<and> hr_total_filtered r = 0"
proof -
  let ?rp = "\<lambda>_ :: json. [] :: string" and ?loads = "\<lambda>_ :: string. Inl [] :: string + json"
    and ?call = "\<lambda>_ :: string. None :: py_expr option"
  obtain c where c: "clean_turns ?rp ?loads ?call (\<lambda>_. None) demo_conversation [(''input_rows'', 1)] = Inr c" "validation_failure (cl_turns c) = None"
    using demo_conversation_clean(2) by (auto split: sum.splits)
  have start: "count_key ''input_rows'' [] = [(''input_rows'', 1)]" by (simp add: count_key_def dict_add_simps)
  note c1 = c(1) [unfolded One_nat_def]
  obtain r where r: "run_target_hygiene ?rp ?loads ?call (\<lambda>_. None) [demo_conversation] = Inr r" and n: "length (hr_rows r) = 1"
    by (auto simp: run_target_hygiene_def hygiene_row_def demo_conversation_clean(1) start c1 c(2) emit_def Let_def)
  from hygiene_passes_gate [OF r] n have "hr_total_purified r = 1" "hr_total_filtered r = 0" by simp_all
  with r n show ?thesis by blast
qed

section \<open>What the pass leaves behind\<close>

text \<open>The substitutions are not repeated: a doubled label or a nested tag survives, and the scan reports it.\<close>

theorem residual_noise:
  "fst (strip_protocol_noise ''Thought: Thought: x'') = ''Thought: x'' \<and> label_line ''thought'' True ''Thought: x'' \<and>
   fst (strip_protocol_noise ''<tool_<tool_call>call>'') = OPEN_TAG"
  by code_simp

text \<open>A turn that is no dictionary has its own branch in the cleaning, but the quarantine test before it fails on it.\<close>

theorem non_dict_turn_aborts:
  "hygiene_row rp loads parse_call literal index [(''sft_turns'', JList [JNull])] h = Inl (AttributeErr ''get'')"
  by (simp add: hygiene_row_def quarantine_reason_def row_text_blob_def turn_get_def dict_get_def turn_blob_def Let_def)

text \<open>Words such as naive with a diaeresis count as mojibake.\<close>

theorem accented_word_quarantined:
  "quarantine_reason rp [(''sft_turns'', JList [JObj [(''content'', JStr (bytes [0x6E, 0x61, 0xC3, 0xAF, 0x76, 0x65]))]])] = Inr (Some ''mojibake'')"
proof -
  have "mojibake (bytes [0x6E, 0x61, 0xC3, 0xAF, 0x76, 0x65] @ ''\<newline>'')" by code_simp
  then show ?thesis
    by (simp add: quarantine_reason_def row_text_blob_def turn_get_def dict_get_def turn_blob_def bytes_def)
qed

text \<open>The two tables of required arguments disagree: a replacement that hygiene calls complete fails the gate.\<close>

theorem hygienic_replacement_fails_gate:
  "''missing_arg:old'' \<in> set (snd (validate_tool_call ((''type'', JStr ''tool_call'') #
      tool_json (normalize_canonical_tool rp literal ''replace_file_content'' args)) None))"
  by (simp add: validate_tool_call_def validate_errors_def tool_json_def normalize_canonical_tool_def dict_get_def
      GATE_REQUIRED_ARGS_def Let_def)

end
