(* ===== verification/Injection_Once.thy ===== *)
theory Injection_Once
  imports Prelude
begin

text \<open>
  The contract of a hook that injects one message into a run of the agent and never a second one. \<open>fires\<close>
  is the trigger of the hook on a query, \<open>step\<close> handles a query and says whether it injected, \<open>spent\<close>
  says that the message has been injected. Several hooks of the clinic share it (theories \<open>Policy_Hooks\<close> and
  \<open>Replay_Protocol\<close>).
\<close>

fun injections :: "('h \<Rightarrow> 'q \<Rightarrow> 'h \<times> bool) \<Rightarrow> 'h \<Rightarrow> 'q list \<Rightarrow> bool list" where
  "injections step h [] = []"
| "injections step h (q # qs) = snd (step h q) # injections step (fst (step h q)) qs"

definition injection_total :: "bool list \<Rightarrow> nat" where
  "injection_total bs = length (filter (\<lambda>b. b) bs)"

lemma injection_total_simps [simp]:
  "injection_total [] = 0" "injection_total (b # bs) = of_bool b + injection_total bs"
  by (simp_all add: injection_total_def)

lemma length_injections [simp]: "length (injections step h qs) = length qs"
  by (induction qs arbitrary: h) auto

locale injecting_hook =
  fixes fires :: "'h \<Rightarrow> 'q \<Rightarrow> bool"
    and step :: "'h \<Rightarrow> 'q \<Rightarrow> 'h \<times> bool"
    and spent :: "'h \<Rightarrow> bool"
  assumes step_injects: "snd (step h q) \<longleftrightarrow> \<not> spent h \<and> fires h q"
    and step_spent: "spent (fst (step h q)) \<longleftrightarrow> spent h \<or> fires h q"
    and step_fires: "fires (fst (step h q)) = fires h"
begin

lemmas hook_laws = step_injects step_spent step_fires

lemma injected_at:
  "i < length qs \<Longrightarrow> injections step h qs ! i \<longleftrightarrow>
     \<not> spent h \<and> fires h (qs ! i) \<and> (\<forall>j < i. \<not> fires h (qs ! j))"
proof (induction qs arbitrary: h i)
  case (Cons q qs)
  show ?case
  proof (cases i)
    case 0
    then show ?thesis by (simp add: hook_laws)
  next
    case (Suc k)
    with Cons.IH [of k "fst (step h q)"] Cons.prems show ?thesis
      by (auto simp: hook_laws less_Suc_eq_0_disj)
  qed
qed simp

lemma none_when_spent: "spent h \<Longrightarrow> injection_total (injections step h qs) = 0"
  by (induction qs arbitrary: h) (auto simp: hook_laws)

lemma injected_once:
  "injection_total (injections step h qs) = (if \<not> spent h \<and> list_ex (fires h) qs then 1 else 0)"
proof (induction qs arbitrary: h)
  case (Cons q qs)
  show ?case
  proof (cases "spent h \<or> fires h q")
    case True
    then have "injection_total (injections step (fst (step h q)) qs) = 0"
      by (intro none_when_spent) (simp add: hook_laws)
    with True show ?thesis by (auto simp: hook_laws)
  next
    case False
    with Cons.IH [of "fst (step h q)"] show ?thesis by (simp add: hook_laws)
  qed
qed simp

end

text \<open>The hook that is no more than its flag: a latch set by the first query that fires.\<close>

definition latch_step :: "bool \<Rightarrow> bool \<Rightarrow> bool \<times> bool" where
  "latch_step latched fired = (latched \<or> fired, fired \<and> \<not> latched)"

lemma latch_step_simps [simp]:
  "fst (latch_step latched fired) \<longleftrightarrow> latched \<or> fired" "snd (latch_step latched fired) \<longleftrightarrow> fired \<and> \<not> latched"
  by (simp_all add: latch_step_def)

interpretation latch: injecting_hook "\<lambda>_ fired. fired" latch_step "\<lambda>latched. latched"
  by unfold_locales auto

end
