(* ===== verification/Policy_Hooks.thy ===== *)
theory Policy_Hooks
  imports Clinic_Json Py_Numbers Injection_Once Evidence_Report
begin

text \<open>
  The policy injection hooks, \<open>packages/clinic/src/wutai_clinic/intervention/hooks.py\<close>: a hook that injects after a
  fixed prefix, one that injects on live features, and the dry runs that exercise them. A message is a role with
  its content; the agent is the length of its trajectory at a query. Rows are dictionaries without floats; \<open>num\<close>
  is the JSON form of a rational, \<open>ri\<close> Python's parser of integer texts, \<open>rp\<close> \<open>repr\<close> on containers, \<open>h\<close> SHA-256.
\<close>

section \<open>Policies\<close>

definition POLICY_TEXT :: "string pydict" where
  "POLICY_TEXT =
     [(''break_recurrence_and_replan'',
        ''Phase 3.15 intervention: the trajectory is repeating. Stop the repeated action, '' @
        ''summarize the current state briefly, choose a different diagnostic path, and continue only '' @
        ''after a concrete next check is identified.''),
      (''error_observation_recovery'',
        ''Phase 3.15 intervention: the recent observation is error-like. Do not ignore it or submit. '' @
        ''Classify the error, run the narrowest verification needed, and adjust the patch path before '' @
        ''continuing.''),
      (''insert_validation_checkpoint'',
        ''Phase 3.15 intervention: pause before further edits or final submission. Run a narrow '' @
        ''validation command or inspect the directly affected code path, then use that result to decide '' @
        ''the next action.''),
      (''same_action_escape'',
        ''Phase 3.15 intervention: the same action family has repeated too long. Switch to a different '' @
        ''information source or validation mode before issuing another similar command.'')]"

definition POLICY_REQUIRED_REASON_CODES :: "string list pydict" where
  "POLICY_REQUIRED_REASON_CODES =
     [(''insert_validation_checkpoint'', [''validation_gap_after_edit'']),
      (''break_recurrence_and_replan'', [''recurrence_spike'', ''loop_or_duplicate_pattern'', ''same_action_family_streak'']),
      (''error_observation_recovery'', [''error_streak_or_error_observation'']),
      (''same_action_escape'', [''same_action_family_streak''])]"

definition PHASE315_HOOK_VERSION :: string where
  "PHASE315_HOOK_VERSION = ''phase315_exact_paired_runner_hook_v1''"

definition PHASE316_HOOK_VERSION :: string where
  "PHASE316_HOOK_VERSION = ''phase316_live_feature_hook_dry_run_v1''"

type_synonym message = "string \<times> string"

definition safe_placeholder_message :: message where
  "safe_placeholder_message = (''user'', ''phase315_dry_run_placeholder_no_raw_task_payload'')"

section \<open>The static prefix hook\<close>

record prefix_hook =
  sp_bridge :: "json pydict option"
  sp_trigger :: "int option"
  sp_message :: string
  sp_injected :: bool
  sp_ready :: bool
  sp_audit :: "json pydict list"

definition bridge_trigger_index :: "(string \<Rightarrow> int option) \<Rightarrow> json pydict option \<Rightarrow> pyexn + int option" where
  "bridge_trigger_index ri bridge =
     (case bridge of
        None \<Rightarrow> Inr None
      | Some row \<Rightarrow>
          (case get_default row ''injection_trigger_after_prefix_index'' JNull of
             JNull \<Rightarrow> Inr None
           | v \<Rightarrow> and_then (json_int ri v) (\<lambda>i. Inr (Some i))))"

definition bridge_policy_message :: "(json \<Rightarrow> string) \<Rightarrow> json pydict option \<Rightarrow> string" where
  "bridge_policy_message rp bridge =
     (case bridge of
        None \<Rightarrow> ''''
      | Some row \<Rightarrow>
          (case dict_get POLICY_TEXT (json_text rp (get_default row ''intervention_policy_id'' (JStr ''''))) of
             Some t \<Rightarrow> t | None \<Rightarrow> ''''))"

text \<open>The constructor; a dictionary as first argument is the bridge row.\<close>

definition new_prefix_hook ::
    "(json \<Rightarrow> string) \<Rightarrow> (string \<Rightarrow> int option) \<Rightarrow> json option \<Rightarrow> string option \<Rightarrow> json pydict option \<Rightarrow> bool \<Rightarrow> pyexn + prefix_hook" where
  "new_prefix_hook rp ri trigger_index policy_message bridge_row injected =
     (let bridge = (case trigger_index of Some (JObj row) \<Rightarrow> Some row | _ \<Rightarrow> bridge_row);
          trigger = (case trigger_index of Some (JObj row) \<Rightarrow> None | t \<Rightarrow> t)
      in and_then (case trigger of
             Some v \<Rightarrow> (if v = JNull then bridge_trigger_index ri bridge else and_then (json_int ri v) (\<lambda>i. Inr (Some i)))
           | None \<Rightarrow> bridge_trigger_index ri bridge) (\<lambda>t.
         Inr \<lparr>sp_bridge = bridge, sp_trigger = t,
           sp_message = (case policy_message of Some m \<Rightarrow> (if m \<noteq> [] then m else bridge_policy_message rp bridge)
                         | None \<Rightarrow> bridge_policy_message rp bridge),
           sp_injected = injected, sp_ready = False, sp_audit = []\<rparr>))"

definition on_init :: "prefix_hook \<Rightarrow> prefix_hook" where
  "on_init s = s\<lparr>sp_ready := True\<rparr>"

text \<open>\<open>row.get("inject_policy_message") is True\<close>\<close>

definition row_injects :: "json pydict \<Rightarrow> bool" where
  "row_injects row \<longleftrightarrow> get_default row ''inject_policy_message'' JNull = JBool True"

definition prefix_maybe_inject :: "prefix_hook \<Rightarrow> int \<Rightarrow> message list \<Rightarrow> prefix_hook \<times> message list" where
  "prefix_maybe_inject s prefix_index messages =
     (if (case sp_bridge s of Some row \<Rightarrow> \<not> row_injects row | None \<Rightarrow> False) then (s, messages)
      else if sp_injected s \<or> (case sp_trigger s of None \<Rightarrow> True | Some t \<Rightarrow> prefix_index < t) then (s, messages)
      else (s\<lparr>sp_injected := True\<rparr>, messages @ [(''system'', sp_message s)]))"

definition should_inject_at_step :: "prefix_hook \<Rightarrow> int \<Rightarrow> bool" where
  "should_inject_at_step s step_index =
     (case sp_trigger s of
        None \<Rightarrow> False
      | Some t \<Rightarrow> \<not> sp_injected s \<and>
          (case sp_bridge s of Some row \<Rightarrow> row_injects row \<and> step_index = t | None \<Rightarrow> t \<le> step_index))"

definition audit_event :: "json pydict \<Rightarrow> int \<Rightarrow> int \<Rightarrow> int \<Rightarrow> bool \<Rightarrow> pyexn + json pydict" where
  "audit_event row step before after inject =
     and_then (get_item row ''arm_id'') (\<lambda>arm_id.
     and_then (get_item row ''arm_type'') (\<lambda>arm_type.
     and_then (get_item row ''source_task_id'') (\<lambda>task.
     and_then (get_item row ''intervention_policy_id'') (\<lambda>policy.
     Inr [(''phase'', JStr ''3.15''),
       (''hook_version'', JStr PHASE315_HOOK_VERSION),
       (''arm_id'', arm_id),
       (''arm_type'', arm_type),
       (''source_task_id'', task),
       (''intervention_policy_id'', policy),
       (''step_index'', JInt step),
       (''trigger_index'', get_default row ''injection_trigger_after_prefix_index'' JNull),
       (''injection_decision'', JStr (if inject then ''injected'' else ''not_injected'')),
       (''message_count_before'', JInt before),
       (''message_count_after'', JInt after),
       (''message_delta'', JInt (after - before)),
       (''policy_message_template_id'', get_default row ''policy_message_template_id'' JNull),
       (''policy_message_template_sha256'', get_default row ''policy_message_template_sha256'' JNull),
       (''raw_payload_persistence'', JStr ''forbidden''),
       (''runner_started'', JBool False),
       (''model_call_started'', JBool False)]))))"

text \<open>A model query: the hook afterwards, the messages, and the exception if one is raised.\<close>

definition on_model_query :: "prefix_hook \<Rightarrow> nat \<Rightarrow> message list \<Rightarrow> prefix_hook \<times> message list \<times> pyexn option" where
  "on_model_query s len messages =
     (if \<not> sp_ready s then (s, messages, Some (RuntimeErr ''StaticPrefixHook.on_init must run before on_model_query''))
      else
        let inject = should_inject_at_step s (int len);
            after = (if inject then messages @ [(''system'', sp_message s)] else messages);
            s1 = (if inject then s\<lparr>sp_injected := True\<rparr> else s)
        in (case sp_bridge s of
              None \<Rightarrow> (s1, after, None)
            | Some row \<Rightarrow>
                (case audit_event row (int len) (int (length messages)) (int (length after)) inject of
                   Inl e \<Rightarrow> (s1, after, Some e)
                 | Inr ev \<Rightarrow> (s1\<lparr>sp_audit := sp_audit s1 @ [ev]\<rparr>, after, None))))"

section \<open>Dry runs of the prefix hook\<close>

text \<open>The queries of a dry run with trajectories of one length; an exception ends it.\<close>

fun dry_queries :: "nat \<Rightarrow> nat \<Rightarrow> prefix_hook \<Rightarrow> message list \<Rightarrow> pyexn + prefix_hook \<times> message list" where
  "dry_queries 0 len s messages = Inr (s, messages)"
| "dry_queries (Suc n) len s messages =
     (case on_model_query s len messages of
        (s', messages', Some e) \<Rightarrow> Inl e
      | (s', messages', None) \<Rightarrow> dry_queries n len s' messages')"

text \<open>A hook for the row, initialised with an agent of the given trajectory length, and its events.\<close>

definition phase315_events ::
    "(json \<Rightarrow> string) \<Rightarrow> (string \<Rightarrow> int option) \<Rightarrow> json pydict \<Rightarrow> int \<Rightarrow> nat \<Rightarrow> pyexn + json pydict list \<times> nat" where
  "phase315_events rp ri row trajectory_length queries =
     and_then (new_prefix_hook rp ri None None (Some row) False) (\<lambda>s.
     and_then (dry_queries queries (nat trajectory_length) (on_init s) [safe_placeholder_message]) (\<lambda>(s', messages).
     Inr (sp_audit s', length messages)))"

definition run_phase315_hook_once ::
    "(json \<Rightarrow> string) \<Rightarrow> (string \<Rightarrow> int option) \<Rightarrow> json pydict \<Rightarrow> int \<Rightarrow> pyexn + json pydict list \<times> nat" where
  "run_phase315_hook_once rp ri row trajectory_length = phase315_events rp ri row trajectory_length 1"

text \<open>One row of a dry run: the event with the verdict on the case.\<close>

definition dry_case :: "json pydict \<Rightarrow> string \<Rightarrow> bool \<Rightarrow> pyexn + json pydict" where
  "dry_case event name expected =
     and_then (get_item event ''message_delta'') (\<lambda>delta.
     Inr (dict_set ''case_passed'' (JBool (delta = JInt (if expected then 1 else 0)))
       (dict_set ''expected_injection'' (JBool expected) (dict_set ''dry_run_case'' (JStr name) event))))"

definition dry_run_phase315_row ::
    "(json \<Rightarrow> string) \<Rightarrow> (string \<Rightarrow> int option) \<Rightarrow> json pydict \<Rightarrow> pyexn + json pydict list" where
  "dry_run_phase315_row rp ri row =
     (if get_default row ''arm_type'' JNull = JStr ''control''
      then and_then (and_then (get_item row ''candidate_prefix_index'') (json_int ri)) (\<lambda>index.
           and_then (run_phase315_hook_once rp ri row index) (\<lambda>(events, _).
           and_then (dry_case (last events) ''control_at_candidate_prefix'' False) (\<lambda>c.
           Inr [c])))
      else and_then (and_then (get_item row ''injection_trigger_after_prefix_index'') (json_int ri)) (\<lambda>trigger.
           and_then (run_phase315_hook_once rp ri row (max 0 (trigger - 1))) (\<lambda>(before, _).
           and_then (phase315_events rp ri row trigger 2) (\<lambda>(events, _).
           and_then (dry_case (last before) ''intervention_before_trigger'' False) (\<lambda>c1.
           and_then (dry_case (events ! 0) ''intervention_at_trigger'' True) (\<lambda>c2.
           and_then (dry_case (events ! 1) ''intervention_duplicate_trigger'' False) (\<lambda>c3.
           Inr [c1, c2, c3])))))))"

text \<open>\<open>sorted(rows, key=lambda item: int(item["execution_index"]))\<close>, then one dry run after the other.\<close>

definition in_execution_order ::
    "(string \<Rightarrow> int option) \<Rightarrow> json pydict list \<Rightarrow> pyexn + json pydict list" where
  "in_execution_order ri rows =
     and_then (sequence (map (\<lambda>row. and_then (get_item row ''execution_index'') (json_int ri)) rows)) (\<lambda>keys.
     Inr (map snd (sort_key fst (zip keys rows))))"

definition dry_run_all ::
    "(string \<Rightarrow> int option) \<Rightarrow> (json pydict \<Rightarrow> pyexn + json pydict list) \<Rightarrow> json pydict list \<Rightarrow> pyexn + json pydict list" where
  "dry_run_all ri dry rows =
     and_then (in_execution_order ri rows) (\<lambda>ordered.
     and_then (sequence (map dry ordered)) (\<lambda>events. Inr (concat events)))"

definition build_phase315_dry_run_events ::
    "(json \<Rightarrow> string) \<Rightarrow> (string \<Rightarrow> int option) \<Rightarrow> json pydict list \<Rightarrow> pyexn + json pydict list" where
  "build_phase315_dry_run_events rp ri plan = dry_run_all ri (dry_run_phase315_row rp ri) plan"

section \<open>The live feature hook\<close>

text \<open>Python's equality: booleans are numbers, the order of keys does not matter.\<close>

fun number_form :: "json \<Rightarrow> json" where
  "number_form (JBool b) = JInt (of_bool b)"
| "number_form (JList xs) = JList (map number_form xs)"
| "number_form (JObj kvs) = JObj (map (\<lambda>(k, v). (k, number_form v)) kvs)"
| "number_form v = v"

definition json_equal :: "json \<Rightarrow> json \<Rightarrow> bool" where
  "json_equal a b \<longleftrightarrow> sort_keys (number_form a) = sort_keys (number_form b)"

record live_hook =
  lf_condition :: "json pydict"
  lf_message :: string
  lf_injected :: bool

definition live_maybe_inject :: "live_hook \<Rightarrow> json pydict \<Rightarrow> message list \<Rightarrow> live_hook \<times> message list" where
  "live_maybe_inject s features messages =
     (if lf_injected s then (s, messages)
      else if list_ex (\<lambda>(k, expected). \<not> json_equal (get_default features k JNull) expected) (lf_condition s) then (s, messages)
      else (s\<lparr>lf_injected := True\<rparr>, messages @ [(''system'', lf_message s)]))"

section \<open>Calibrated triggers\<close>

definition unhashable :: "json \<Rightarrow> bool" where
  "unhashable v = (case v of JList _ \<Rightarrow> True | JObj _ \<Rightarrow> True | _ \<Rightarrow> False)"

text \<open>The overlap, a set in the source, in the order of the required codes.\<close>

definition candidate_required_reason_overlap :: "(json \<Rightarrow> string) \<Rightarrow> json pydict \<Rightarrow> pyexn + string list" where
  "candidate_required_reason_overlap rp row =
     (let required = (case dict_get POLICY_REQUIRED_REASON_CODES (json_text rp (get_default row ''intervention_policy_id'' JNull)) of
            Some codes \<Rightarrow> codes | None \<Rightarrow> [])
      in and_then (json_iter (get_default row ''candidate_reason_codes'' (JList []))) (\<lambda>codes.
         and_then (raise_if (list_ex unhashable codes) (TypeErr ''unhashable type'')) (\<lambda>_.
         Inr (filter (\<lambda>c. JStr c \<in> set codes) required))))"

definition candidate_reference_streak :: "(string \<Rightarrow> int option) \<Rightarrow> json pydict \<Rightarrow> pyexn + int" where
  "candidate_reference_streak ri row =
     and_then (json_get_default (get_default row ''candidate_prefix_only_context'' (JObj [])) ''same_action_family_streak'' (JInt 1)) (\<lambda>v.
     Inr (max 1 (min (case json_int ri v of Inr i \<Rightarrow> i | Inl _ \<Rightarrow> 1) 4)))"

definition derive_live_trigger_step :: "(json \<Rightarrow> string) \<Rightarrow> (string \<Rightarrow> int option) \<Rightarrow> json pydict \<Rightarrow> pyexn + int" where
  "derive_live_trigger_step rp ri row =
     and_then (json_int ri (get_default row ''candidate_static_prefix_index'' (JInt 1))) (\<lambda>index.
     let static_prefix = max 1 index in
     and_then (candidate_required_reason_overlap rp row) (\<lambda>overlap.
     and_then (candidate_reference_streak ri row) (\<lambda>streak.
     let proposed = (if ''same_action_family_streak'' \<in> set overlap then streak
                     else if ''recurrence_spike'' \<in> set overlap \<or> ''loop_or_duplicate_pattern'' \<in> set overlap then max 2 streak
                     else max 3 streak)
     in Inr (max 1 (min proposed static_prefix)))))"

record live_flags =
  ff_reason_overlap :: bool
  ff_recurrence :: bool
  ff_duplicate :: bool
  ff_same_family :: bool
  ff_candidate_state :: bool

record live_window =
  lw_step_index :: int
  lw_trigger_step :: int
  lw_snapshot :: "json pydict"
  lw_flags :: live_flags

text \<open>One window of the synthetic run.\<close>

definition feature_window ::
    "(rat \<Rightarrow> json) \<Rightarrow> string list \<Rightarrow> bool \<Rightarrow> int \<Rightarrow> int \<Rightarrow> int \<Rightarrow> int \<Rightarrow> live_window" where
  "feature_window num overlap has_state trigger streak gap step =
     (let progress = min 1 (of_int step / of_int (max 1 trigger));
          recurrence_like = (''recurrence_spike'' \<in> set overlap \<or> ''loop_or_duplicate_pattern'' \<in> set overlap);
          same_family_like = (''same_action_family_streak'' \<in> set overlap);
          rising = (\<lambda>base slope flat. num (round_to 6 (base + (if recurrence_like then slope * progress else flat))))
      in \<lparr>lw_step_index = step, lw_trigger_step = trigger,
          lw_snapshot =
            [(''online_str_v1'', rising (18 / 100) (44 / 100) (5 / 100)),
             (''rolling_str'', rising (2 / 10) (42 / 100) (4 / 100)),
             (''duplicate_state_ratio'', rising (12 / 100) (48 / 100) (3 / 100)),
             (''same_action_family_streak'', JInt (min (max 1 step) streak)),
             (''hypothesis_shift_rate'', num (round_to 6 (4 / 100 * (1 - progress)))),
             (''validation_gap_after_edit'', JInt (min step gap)),
             (''step_count'', JInt step)],
          lw_flags =
            \<lparr>ff_reason_overlap = (overlap \<noteq> []),
             ff_recurrence = (recurrence_like \<and> trigger \<le> step),
             ff_duplicate = (''loop_or_duplicate_pattern'' \<in> set overlap \<and> trigger \<le> step),
             ff_same_family = (same_family_like \<and> trigger \<le> step),
             ff_candidate_state = has_state\<rparr>\<rparr>)"

definition synthetic_feature_window ::
    "(json \<Rightarrow> string) \<Rightarrow> (string \<Rightarrow> int option) \<Rightarrow> (rat \<Rightarrow> json) \<Rightarrow> json pydict \<Rightarrow> pyexn + live_window list" where
  "synthetic_feature_window rp ri num row =
     and_then (derive_live_trigger_step rp ri row) (\<lambda>trigger.
     and_then (json_int ri (get_default row ''candidate_static_prefix_index'' (JInt trigger))) (\<lambda>index.
     let static_prefix = max 1 index;
         end_step = min (max (trigger + 1) 3) (max static_prefix (trigger + 1)) in
     and_then (candidate_reference_streak ri row) (\<lambda>streak.
     and_then (candidate_required_reason_overlap rp row) (\<lambda>overlap.
     and_then (json_get_default (get_default row ''candidate_prefix_only_context'' (JObj [])) ''validation_gap_steps'' (JInt 0)) (\<lambda>g.
     and_then (json_int ri (json_or g (JInt 0))) (\<lambda>gap.
     Inr (map (feature_window num overlap (json_truthy (get_default row ''candidate_state_class'' JNull)) trigger streak gap)
       [1..end_step])))))))"

definition phase316_policy_template_id :: "string \<Rightarrow> string" where
  "phase316_policy_template_id policy_id = policy_id @ ''_phase316_live_feature_hook_v1''"

definition live_predicate_matches :: "(json \<Rightarrow> string) \<Rightarrow> json pydict \<Rightarrow> live_window \<Rightarrow> pyexn + bool" where
  "live_predicate_matches rp row w =
     (if get_default row ''exact_static_prefix_trigger_disabled'' JNull \<noteq> JBool True then Inr False
      else if get_default row ''recalibrated_trigger_mode'' JNull \<noteq> JStr ''live_feature_signature_window'' then Inr False
      else and_then (candidate_required_reason_overlap rp row) (\<lambda>overlap.
        if overlap = [] then Inr False
        else let flags = lw_flags w; policy = get_default row ''intervention_policy_id'' JNull in
          Inr (if policy = JStr ''break_recurrence_and_replan''
               then ff_candidate_state flags \<and> (ff_recurrence flags \<or> ff_duplicate flags \<or> ff_same_family flags)
               else if policy = JStr ''same_action_escape'' then ff_same_family flags
               else if policy = JStr ''insert_validation_checkpoint'' then ff_reason_overlap flags
               else if policy = JStr ''error_observation_recovery'' then ff_reason_overlap flags
               else False)))"

record live_policy_hook =
  p6_injected :: bool
  p6_message_count :: int
  p6_audit :: "json pydict list"

definition flags_json :: "live_flags \<Rightarrow> json" where
  "flags_json f = JObj
     [(''required_reason_overlap_present'', JBool (ff_reason_overlap f)),
      (''recurrence_signature_present'', JBool (ff_recurrence f)),
      (''duplicate_signature_present'', JBool (ff_duplicate f)),
      (''same_family_signature_present'', JBool (ff_same_family f)),
      (''candidate_state_signature_present'', JBool (ff_candidate_state f))]"

text \<open>The handler of the live hook; an exception ends the dry run it is called from.\<close>

definition on_live_feature_window ::
    "(json \<Rightarrow> string) \<Rightarrow> (string \<Rightarrow> int option) \<Rightarrow> (string \<Rightarrow> string) \<Rightarrow> json pydict \<Rightarrow> live_policy_hook \<Rightarrow> live_window \<Rightarrow>
     pyexn + live_policy_hook" where
  "on_live_feature_window rp ri h row s w =
     (let before = p6_message_count s in
     and_then (live_predicate_matches rp row w) (\<lambda>matched.
     let inject = (matched \<and> \<not> p6_injected s);
         injected = (p6_injected s \<or> inject);
         after = before + of_bool inject in
     and_then (get_item row ''intervention_policy_id'') (\<lambda>policy.
     and_then (candidate_required_reason_overlap rp row) (\<lambda>overlap.
     and_then (get_item row ''pair_id'') (\<lambda>pair_id.
     and_then (get_item row ''arm_id'') (\<lambda>arm_id.
     and_then (get_item row ''source_task_id'') (\<lambda>task.
     and_then (get_item row ''source_family'') (\<lambda>family.
     and_then (get_item row ''candidate_static_prefix_index'') (\<lambda>prefix.
     and_then (get_item row ''exact_static_prefix_trigger_disabled'') (\<lambda>disabled.
     and_then (candidate_reference_streak ri row) (\<lambda>streak.
     and_then (json_iter (get_default row ''phase314_feature_inputs'' (JList []))) (\<lambda>inputs.
     let policy_id = json_text rp policy;
         reasons = JList (map JStr (sort overlap));
         flags = flags_json (lw_flags w);
         signature = stable_json_hash h (JObj
           [(''pair_id'', pair_id), (''step_index'', JInt (lw_step_index w)), (''feature_snapshot'', JObj (lw_snapshot w)),
            (''feature_flags'', flags), (''reason_overlap'', reasons)]);
         event =
           [(''phase'', JStr ''3.16''),
            (''hook_version'', JStr PHASE316_HOOK_VERSION),
            (''dry_run_mode'', JStr ''synthetic_prefix_only_live_feature_window''),
            (''pair_id'', pair_id),
            (''arm_id'', arm_id),
            (''source_task_id'', task),
            (''source_family'', family),
            (''intervention_policy_id'', JStr policy_id),
            (''step_index'', JInt (lw_step_index w)),
            (''candidate_static_prefix_index'', prefix),
            (''synthetic_live_trigger_step'', JInt (lw_trigger_step w)),
            (''trigger_basis'', JStr ''live_feature_signature_window''),
            (''exact_static_prefix_trigger_disabled'', disabled),
            (''reason_overlap'', reasons),
            (''candidate_state_class_sha256'', JStr (stable_json_hash h (get_default row ''candidate_state_class'' (JObj [])))),
            (''per_candidate_reference_streak'', JInt streak),
            (''feature_ids_evaluated'', JList inputs),
            (''feature_signature_sha256'', JStr signature),
            (''feature_snapshot'', JObj (lw_snapshot w)),
            (''feature_flags'', flags),
            (''live_predicate_matched'', JBool matched),
            (''injection_decision'', JStr (if inject then ''injected'' else ''not_injected'')),
            (''injection_count_after'', JInt (of_bool injected)),
            (''dry_message_count_before'', JInt before),
            (''dry_message_count_after'', JInt after),
            (''dry_message_delta'', JInt (after - before)),
            (''policy_template_id'', if inject then JStr (phase316_policy_template_id policy_id) else JNull),
            (''policy_template_sha256'', if inject
               then JStr (stable_json_hash h (JObj [(''policy_id'', JStr policy_id), (''hook_version'', JStr PHASE316_HOOK_VERSION)]))
               else JNull),
            (''raw_payload_persistence'', JStr ''forbidden''),
            (''runner_started'', JBool False),
            (''model_call_started'', JBool False),
            (''docker_or_official_eval_started'', JBool False),
            (''batch3_real_run_authorized'', JBool False)]
     in Inr \<lparr>p6_injected = injected, p6_message_count = after, p6_audit = p6_audit s @ [event]\<rparr>))))))))))))"

definition new_live_policy_hook :: live_policy_hook where
  "new_live_policy_hook = \<lparr>p6_injected = False, p6_message_count = 1, p6_audit = []\<rparr>"

fun live_windows ::
    "(json \<Rightarrow> string) \<Rightarrow> (string \<Rightarrow> int option) \<Rightarrow> (string \<Rightarrow> string) \<Rightarrow> json pydict \<Rightarrow> live_policy_hook \<Rightarrow> live_window list \<Rightarrow>
     pyexn + live_policy_hook" where
  "live_windows rp ri h row s [] = Inr s"
| "live_windows rp ri h row s (w # ws) =
     and_then (on_live_feature_window rp ri h row s w) (\<lambda>s'. live_windows rp ri h row s' ws)"

definition dry_run_phase316_candidate ::
    "(json \<Rightarrow> string) \<Rightarrow> (string \<Rightarrow> int option) \<Rightarrow> (rat \<Rightarrow> json) \<Rightarrow> (string \<Rightarrow> string) \<Rightarrow> json pydict \<Rightarrow> pyexn + json pydict list" where
  "dry_run_phase316_candidate rp ri num h row =
     and_then (synthetic_feature_window rp ri num row) (\<lambda>windows.
     and_then (live_windows rp ri h row new_live_policy_hook windows) (\<lambda>s. Inr (p6_audit s)))"

definition build_phase316_dry_run_events ::
    "(json \<Rightarrow> string) \<Rightarrow> (string \<Rightarrow> int option) \<Rightarrow> (rat \<Rightarrow> json) \<Rightarrow> (string \<Rightarrow> string) \<Rightarrow> json pydict list \<Rightarrow> pyexn + json pydict list" where
  "build_phase316_dry_run_events rp ri num h rows = dry_run_all ri (dry_run_phase316_candidate rp ri num h) rows"

section \<open>The prefix hook injects once\<close>

text \<open>The step at which a hook is due, its injection state aside.\<close>

definition due_at :: "prefix_hook \<Rightarrow> nat \<Rightarrow> bool" where
  "due_at s len \<longleftrightarrow> sp_ready s \<and>
     (case sp_trigger s of
        None \<Rightarrow> False
      | Some t \<Rightarrow> (case sp_bridge s of Some row \<Rightarrow> row_injects row \<and> int len = t | None \<Rightarrow> t \<le> int len))"

definition query_step :: "prefix_hook \<Rightarrow> nat \<times> message list \<Rightarrow> prefix_hook \<times> bool" where
  "query_step s q = (case on_model_query s (fst q) (snd q) of (s', messages, e) \<Rightarrow> (s', messages \<noteq> snd q))"

lemma due_split: "should_inject_at_step s (int len) \<and> sp_ready s \<longleftrightarrow> \<not> sp_injected s \<and> due_at s len"
  by (auto simp: should_inject_at_step_def due_at_def split: option.splits)

lemma query_messages:
  "fst (snd (on_model_query s len messages)) =
     (if \<not> sp_injected s \<and> due_at s len then messages @ [(''system'', sp_message s)] else messages)"
  using due_split [of s len] by (auto simp: on_model_query_def Let_def split: option.splits sum.splits)

lemma query_hook:
  "sp_injected (fst (on_model_query s len messages)) \<longleftrightarrow> sp_injected s \<or> due_at s len"
  "sp_message (fst (on_model_query s len messages)) = sp_message s"
  "due_at (fst (on_model_query s len messages)) = due_at s"
  using due_split [of s len]
  by (auto simp: on_model_query_def Let_def due_at_def fun_eq_iff split: option.splits sum.splits)

lemma query_step_facts:
  "snd (query_step s q) \<longleftrightarrow> \<not> sp_injected s \<and> due_at s (fst q)"
  "fst (query_step s q) = fst (on_model_query s (fst q) (snd q))"
  using query_messages [of s "fst q" "snd q"] by (auto simp: query_step_def split: prod.splits if_splits)

interpretation prefix: injecting_hook "\<lambda>s q. due_at s (fst q)" query_step sp_injected
  by unfold_locales (simp_all add: query_step_facts query_hook)

text \<open>What a sequence of queries leaves of the messages of each.\<close>

fun query_run :: "prefix_hook \<Rightarrow> (nat \<times> message list) list \<Rightarrow> message list list" where
  "query_run s [] = []"
| "query_run s (q # qs) = fst (snd (on_model_query s (fst q) (snd q))) # query_run (fst (on_model_query s (fst q) (snd q))) qs"

lemma query_run_injections:
  "query_run s qs =
     map (\<lambda>(q, b). if b then snd q @ [(''system'', sp_message s)] else snd q) (zip qs (injections query_step s qs))"
proof (induction qs arbitrary: s)
  case (Cons q qs)
  from Cons.IH [of "fst (on_model_query s (fst q) (snd q))"]
  show ?case by (simp add: query_step_facts query_messages query_hook cong: if_cong)
qed simp

text \<open>
  C35: the static prefix hook injects its policy message once, at the right step. For any sequence of model
  queries with any trajectory lengths: before \<open>on_init\<close> and without a trigger nothing changes; otherwise exactly
  one query gets the message as its last one, the first whose trajectory length is due (with a bridge row that
  asks for injection: equal to the trigger; without a row: at least the trigger), and all other queries keep their
  messages; \<open>maybe_inject\<close> after an injection returns its messages unchanged.
\<close>

theorem prefix_hook_injects_once:
  shows "let fires = (\<lambda>i. \<not> sp_injected s \<and> due_at s (fst (qs ! i)) \<and> (\<forall>j < i. \<not> due_at s (fst (qs ! j)))) in
    length (query_run s qs) = length qs \<and>
    (\<forall>i < length qs. query_run s qs ! i = snd (qs ! i) @ (if fires i then [(''system'', sp_message s)] else [])) \<and>
    length (filter (\<lambda>(before, after). before \<noteq> after) (zip (map snd qs) (query_run s qs))) =
      (if \<not> sp_injected s \<and> (\<exists>q \<in> set qs. due_at s (fst q)) then 1 else 0) \<and>
    (sp_injected s \<longrightarrow> prefix_maybe_inject s k messages = (s, messages))"
proof -
  let ?bs = "injections query_step s qs"
  have at: "query_run s qs ! i = snd (qs ! i) @ (if ?bs ! i then [(''system'', sp_message s)] else [])" if "i < length qs" for i
    using that by (simp add: query_run_injections split: prod.splits)
  have len: "length (query_run s qs) = length qs" by (simp add: query_run_injections)
  have "length (filter (\<lambda>(before, after). before \<noteq> after) (zip (map snd qs) (query_run s qs))) = injection_total (injections query_step s qs)"
  proof (induction qs arbitrary: s)
    case (Cons q qs)
    from Cons.IH [of "fst (on_model_query s (fst q) (snd q))"]
    show ?case by (simp add: query_step_facts query_messages)
  qed simp
  then have total: "length (filter (\<lambda>(before, after). before \<noteq> after) (zip (map snd qs) (query_run s qs))) =
      (if \<not> sp_injected s \<and> (\<exists>q \<in> set qs. due_at s (fst q)) then 1 else 0)"
    using prefix.injected_once [of s qs] by (simp add: list_ex_iff)
  show ?thesis
    using at len total prefix.injected_at [of _ qs s] by (simp add: Let_def prefix_maybe_inject_def split: option.splits)
qed

definition demo_hook :: prefix_hook where
  "demo_hook = \<lparr>sp_bridge = None, sp_trigger = Some 2, sp_message = ''m'', sp_injected = False, sp_ready = True, sp_audit = []\<rparr>"

theorem prefix_hook_injects_once_witness:
  "length (query_run demo_hook [(1, []), (2, []), (3, [])]) = 3 \<and>
   query_run demo_hook [(1, []), (2, []), (3, [])] ! 1 = [(''system'', ''m'')]"
proof -
  let ?qs = "[(1, []), (2, []), (3, [])] :: (nat \<times> message list) list"
  have "due_at demo_hook 2" "\<not> due_at demo_hook 1" by (simp_all add: due_at_def demo_hook_def)
  then have "\<not> sp_injected demo_hook \<and> due_at demo_hook (fst (?qs ! 1)) \<and> (\<forall>j < 1. \<not> due_at demo_hook (fst (?qs ! j)))"
    by (simp add: demo_hook_def)
  with prefix_hook_injects_once [of demo_hook ?qs 0 "[]"] show ?thesis
    by (auto simp: Let_def demo_hook_def)
qed

text \<open>The live feature hook is an injecting hook as well.\<close>

definition live_step :: "live_hook \<Rightarrow> json pydict \<times> message list \<Rightarrow> live_hook \<times> bool" where
  "live_step s q = (case live_maybe_inject s (fst q) (snd q) of (s', messages) \<Rightarrow> (s', messages \<noteq> snd q))"

definition condition_holds :: "live_hook \<Rightarrow> json pydict \<Rightarrow> bool" where
  "condition_holds s features \<longleftrightarrow>
     (\<forall>(k, expected) \<in> set (lf_condition s). json_equal (get_default features k JNull) expected)"

interpretation live: injecting_hook "\<lambda>s q. condition_holds s (fst q)" live_step lf_injected
  by unfold_locales (auto simp: live_step_def live_maybe_inject_def condition_holds_def list_ex_iff fun_eq_iff)

section \<open>The dry run of the prefix hook\<close>

lemma on_init_fields [simp]:
  "sp_bridge (on_init s) = sp_bridge s" "sp_trigger (on_init s) = sp_trigger s" "sp_message (on_init s) = sp_message s"
  "sp_injected (on_init s) = sp_injected s" "sp_audit (on_init s) = sp_audit s" "sp_ready (on_init s)"
  by (simp_all add: on_init_def)

definition bridge_complete :: "json pydict \<Rightarrow> bool" where
  "bridge_complete row \<longleftrightarrow>
     (\<forall>k \<in> {''arm_id'', ''arm_type'', ''source_task_id'', ''intervention_policy_id''}. dict_get row k \<noteq> None)"

lemma audit_event_ok:
  assumes "bridge_complete row"
  obtains ev where "audit_event row step before after inject = Inr ev" "get_item ev ''message_delta'' = Inr (JInt (after - before))"
  using assms unfolding bridge_complete_def
  by (auto simp: audit_event_def get_item_def dict_get_def)

lemma row_query:
  assumes "bridge_complete row" "sp_bridge s = Some row" "sp_ready s"
  obtains s' ev where
    "on_model_query s len messages =
       (s', if \<not> sp_injected s \<and> due_at s len then messages @ [(''system'', sp_message s)] else messages, None)"
    "sp_audit s' = sp_audit s @ [ev]" "sp_bridge s' = sp_bridge s" "sp_trigger s' = sp_trigger s" "sp_ready s'"
    "sp_injected s' \<longleftrightarrow> sp_injected s \<or> due_at s len"
    "get_item ev ''message_delta'' = Inr (JInt (of_bool (\<not> sp_injected s \<and> due_at s len)))"
proof -
  define inject where "inject = should_inject_at_step s (int len)"
  define after where "after = (if inject then messages @ [(''system'', sp_message s)] else messages)"
  have inj: "inject \<longleftrightarrow> \<not> sp_injected s \<and> due_at s len" using due_split [of s len] assms(3) by (simp add: inject_def)
  from audit_event_ok [OF assms(1)] obtain ev where
    ev: "audit_event row (int len) (int (length messages)) (int (length after)) inject = Inr ev"
    "get_item ev ''message_delta'' = Inr (JInt (int (length after) - int (length messages)))" by blast
  have "int (length after) - int (length messages) = of_bool (\<not> sp_injected s \<and> due_at s len)"
    by (simp add: after_def inj)
  with ev that show ?thesis
    using assms(2,3) inj by (auto simp: on_model_query_def Let_def inject_def after_def)
qed

definition dry_passed :: "json pydict \<Rightarrow> bool" where
  "dry_passed c \<longleftrightarrow> dict_get c ''case_passed'' = Some (JBool True)"

lemma dry_case_ok:
  assumes "get_item ev ''message_delta'' = Inr (JInt (of_bool b))"
  obtains c where "dry_case ev name expected = Inr c" "dict_get c ''dry_run_case'' = Some (JStr name)"
    "dry_passed c \<longleftrightarrow> b = expected"
  using assms that by (auto simp: dry_case_def dry_passed_def)

definition row_trigger :: "json pydict \<Rightarrow> int option" where
  "row_trigger row = (case get_default row ''injection_trigger_after_prefix_index'' JNull of JInt t \<Rightarrow> Some t | _ \<Rightarrow> None)"

definition trigger_typed :: "json pydict \<Rightarrow> bool" where
  "trigger_typed row \<longleftrightarrow> (case get_default row ''injection_trigger_after_prefix_index'' JNull of JInt t \<Rightarrow> True | JNull \<Rightarrow> True | _ \<Rightarrow> False)"

lemma new_row_hook:
  assumes "trigger_typed row"
  obtains s where "new_prefix_hook rp ri None None (Some row) False = Inr s" "sp_bridge s = Some row"
    "sp_trigger s = row_trigger row" "\<not> sp_injected s" "sp_audit s = []"
  using assms
  by (auto simp: new_prefix_hook_def bridge_trigger_index_def row_trigger_def trigger_typed_def json_int_def Let_def split: json.splits)

lemma row_due:
  "sp_bridge s = Some row \<Longrightarrow> sp_trigger s = row_trigger row \<Longrightarrow> sp_ready s \<Longrightarrow>
     due_at s len \<longleftrightarrow> row_injects row \<and> row_trigger row = Some (int len)"
  by (auto simp: due_at_def split: option.splits)

text \<open>The first query of a row's hook, and the one after it.\<close>

definition row_fires :: "json pydict \<Rightarrow> int \<Rightarrow> bool" where
  "row_fires row len \<longleftrightarrow> row_injects row \<and> row_trigger row = Some (max 0 len)"

lemma dry_query:
  assumes "bridge_complete row" "sp_bridge s = Some row" "sp_trigger s = row_trigger row" "sp_ready s"
  obtains s' ev messages' where "dry_queries (Suc n) (nat len) s messages = dry_queries n (nat len) s' messages'"
    "sp_audit s' = sp_audit s @ [ev]" "sp_bridge s' = Some row" "sp_trigger s' = row_trigger row" "sp_ready s'"
    "sp_injected s' \<longleftrightarrow> sp_injected s \<or> row_fires row len"
    "get_item ev ''message_delta'' = Inr (JInt (of_bool (\<not> sp_injected s \<and> row_fires row len)))"
proof -
  have due: "due_at s (nat len) \<longleftrightarrow> row_fires row len"
    using row_due [OF assms(2-4), of "nat len"] by (auto simp: row_fires_def max_def)
  from row_query [OF assms(1,2,4), of "nat len" messages] obtain s' ev where
    "on_model_query s (nat len) messages =
       (s', if \<not> sp_injected s \<and> due_at s (nat len) then messages @ [(''system'', sp_message s)] else messages, None)"
    "sp_audit s' = sp_audit s @ [ev]" "sp_bridge s' = sp_bridge s" "sp_trigger s' = sp_trigger s" "sp_ready s'"
    "sp_injected s' \<longleftrightarrow> sp_injected s \<or> due_at s (nat len)"
    "get_item ev ''message_delta'' = Inr (JInt (of_bool (\<not> sp_injected s \<and> due_at s (nat len))))"
    by metis
  with assms due show ?thesis by (intro that [of s' _ ev]) simp_all
qed

lemma phase315_once:
  assumes "bridge_complete row" "trigger_typed row"
  obtains ev n where "run_phase315_hook_once rp ri row len = Inr ([ev], n)"
    "get_item ev ''message_delta'' = Inr (JInt (of_bool (row_fires row len)))"
proof -
  from new_row_hook [OF assms(2)] obtain s where s: "new_prefix_hook rp ri None None (Some row) False = Inr s"
    "sp_bridge s = Some row" "sp_trigger s = row_trigger row" "\<not> sp_injected s" "sp_audit s = []" by metis
  have ready: "sp_bridge (on_init s) = Some row" "sp_trigger (on_init s) = row_trigger row" "sp_ready (on_init s)"
    by (simp_all add: s)
  obtain s' ev ms where q: "dry_queries (Suc 0) (nat len) (on_init s) [safe_placeholder_message] = dry_queries 0 (nat len) s' ms"
    "sp_audit s' = sp_audit (on_init s) @ [ev]"
    "get_item ev ''message_delta'' = Inr (JInt (of_bool (\<not> sp_injected (on_init s) \<and> row_fires row len)))"
    by (rule dry_query [OF assms(1) ready])
  show ?thesis
    by (rule that [of ev]) (use q s in \<open>simp_all add: run_phase315_hook_once_def phase315_events_def del: dry_queries.simps(2)\<close>)
qed

lemma phase315_twice:
  assumes "bridge_complete row" "trigger_typed row"
  obtains e1 e2 n where "phase315_events rp ri row len 2 = Inr ([e1, e2], n)"
    "get_item e1 ''message_delta'' = Inr (JInt (of_bool (row_fires row len)))"
    "get_item e2 ''message_delta'' = Inr (JInt (of_bool False))"
proof -
  from new_row_hook [OF assms(2)] obtain s where s: "new_prefix_hook rp ri None None (Some row) False = Inr s"
    "sp_bridge s = Some row" "sp_trigger s = row_trigger row" "\<not> sp_injected s" "sp_audit s = []" by metis
  have ready: "sp_bridge (on_init s) = Some row" "sp_trigger (on_init s) = row_trigger row" "sp_ready (on_init s)"
    by (simp_all add: s)
  obtain s1 e1 m1 where q1: "dry_queries (Suc 1) (nat len) (on_init s) [safe_placeholder_message] = dry_queries 1 (nat len) s1 m1"
    "sp_audit s1 = sp_audit (on_init s) @ [e1]" "sp_bridge s1 = Some row" "sp_trigger s1 = row_trigger row" "sp_ready s1"
    "sp_injected s1 \<longleftrightarrow> sp_injected (on_init s) \<or> row_fires row len"
    "get_item e1 ''message_delta'' = Inr (JInt (of_bool (\<not> sp_injected (on_init s) \<and> row_fires row len)))"
    by (rule dry_query [OF assms(1) ready])
  obtain s2 e2 m2 where q2: "dry_queries (Suc 0) (nat len) s1 m1 = dry_queries 0 (nat len) s2 m2"
    "sp_audit s2 = sp_audit s1 @ [e2]"
    "get_item e2 ''message_delta'' = Inr (JInt (of_bool (\<not> sp_injected s1 \<and> row_fires row len)))"
    by (rule dry_query [OF assms(1) q1(3-5)])
  have "dry_queries 2 (nat len) (on_init s) [safe_placeholder_message] = Inr (s2, m2)"
    using q1(1) q2(1) by (simp add: numeral_2_eq_2 del: dry_queries.simps(2))
  then show ?thesis
    by (intro that [of e1 e2]) (use q1 q2 s in \<open>simp_all add: phase315_events_def del: dry_queries.simps(2)\<close>)
qed

text \<open>
  the dry run accepts exactly the rows that inject as planned. For a complete bridge row with an integer trigger:
  the dry run of an intervention arm reports the three cases before, at and after the trigger, and all pass exactly
  when the row asks for injection and its trigger is at least 1; that of a control arm passes exactly when the hook
  would not inject at the candidate prefix. A trigger of 0 therefore fails its own dry run: the case before it is
  run at length 0 as well, and injects.
\<close>

theorem dry_run_verdicts:
  assumes "bridge_complete row" "row_trigger row = Some t" "get_item row ''candidate_prefix_index'' = Inr (JInt n)"
  shows "\<exists>cs. dry_run_phase315_row rp ri row = Inr cs \<and>
    (if get_default row ''arm_type'' JNull = JStr ''control''
     then map (\<lambda>c. dict_get c ''dry_run_case'') cs = [Some (JStr ''control_at_candidate_prefix'')] \<and>
       (list_all dry_passed cs \<longleftrightarrow> \<not> (row_injects row \<and> t = max 0 n))
     else map (\<lambda>c. dict_get c ''dry_run_case'') cs =
         [Some (JStr ''intervention_before_trigger''), Some (JStr ''intervention_at_trigger''),
          Some (JStr ''intervention_duplicate_trigger'')] \<and>
       (list_all dry_passed cs \<longleftrightarrow> row_injects row \<and> 1 \<le> t))"
proof (cases "get_default row ''arm_type'' JNull = JStr ''control''")
  case True
  from assms(2) have typed: "trigger_typed row" by (auto simp: row_trigger_def trigger_typed_def split: json.splits)
  obtain ev k where ev: "run_phase315_hook_once rp ri row n = Inr ([ev], k)"
    "get_item ev ''message_delta'' = Inr (JInt (of_bool (row_fires row n)))"
    by (rule phase315_once [OF assms(1) typed])
  obtain c where c: "dry_case ev ''control_at_candidate_prefix'' False = Inr c"
    "dict_get c ''dry_run_case'' = Some (JStr ''control_at_candidate_prefix'')" "dry_passed c \<longleftrightarrow> row_fires row n = False"
    by (rule dry_case_ok [OF ev(2)])
  show ?thesis
    by (rule exI [of _ "[c]"]) (use True assms ev c in \<open>auto simp: dry_run_phase315_row_def row_fires_def json_int_def\<close>)
next
  case False
  from assms(2) have typed: "trigger_typed row" by (auto simp: row_trigger_def trigger_typed_def split: json.splits)
  from assms(2) have t: "get_item row ''injection_trigger_after_prefix_index'' = Inr (JInt t)"
    by (auto simp: row_trigger_def get_default_def get_item_def split: json.splits option.splits)
  obtain ev k where ev: "run_phase315_hook_once rp ri row (max 0 (t - 1)) = Inr ([ev], k)"
    "get_item ev ''message_delta'' = Inr (JInt (of_bool (row_fires row (max 0 (t - 1)))))"
    by (rule phase315_once [OF assms(1) typed])
  obtain e1 e2 k2 where es: "phase315_events rp ri row t 2 = Inr ([e1, e2], k2)"
    "get_item e1 ''message_delta'' = Inr (JInt (of_bool (row_fires row t)))"
    "get_item e2 ''message_delta'' = Inr (JInt (of_bool False))"
    by (rule phase315_twice [OF assms(1) typed])
  obtain c0 where c0: "dry_case ev ''intervention_before_trigger'' False = Inr c0"
    "dict_get c0 ''dry_run_case'' = Some (JStr ''intervention_before_trigger'')"
    "dry_passed c0 \<longleftrightarrow> row_fires row (max 0 (t - 1)) = False"
    by (rule dry_case_ok [OF ev(2)])
  obtain c1 where c1: "dry_case e1 ''intervention_at_trigger'' True = Inr c1"
    "dict_get c1 ''dry_run_case'' = Some (JStr ''intervention_at_trigger'')" "dry_passed c1 \<longleftrightarrow> row_fires row t = True"
    by (rule dry_case_ok [OF es(2)])
  obtain c2 where c2: "dry_case e2 ''intervention_duplicate_trigger'' False = Inr c2"
    "dict_get c2 ''dry_run_case'' = Some (JStr ''intervention_duplicate_trigger'')" "dry_passed c2 \<longleftrightarrow> False = False"
    by (rule dry_case_ok [OF es(3)])
  have "(\<not> row_fires row (max 0 (t - 1)) \<and> row_fires row t) \<longleftrightarrow> row_injects row \<and> 1 \<le> t"
    by (auto simp: row_fires_def assms(2) max_def)
  then show ?thesis
    by (intro exI [of _ "[c0, c1, c2]"]) (use False t ev es c0 c1 c2 in \<open>auto simp: dry_run_phase315_row_def json_int_def\<close>)
qed

definition demo_row :: "json pydict" where
  "demo_row = [(''arm_id'', JStr ''a''), (''arm_type'', JStr ''intervention''), (''source_task_id'', JStr ''t''),
     (''intervention_policy_id'', JStr ''same_action_escape''), (''inject_policy_message'', JBool True),
     (''injection_trigger_after_prefix_index'', JInt 0), (''candidate_prefix_index'', JInt 0)]"

lemma demo_row_facts:
  "bridge_complete demo_row" "row_trigger demo_row = Some 0" "get_item demo_row ''candidate_prefix_index'' = Inr (JInt 0)"
  "get_default demo_row ''arm_type'' JNull \<noteq> JStr ''control''"
  by (simp_all add: bridge_complete_def row_trigger_def get_default_def get_item_def dict_get_def demo_row_def)

theorem dry_run_verdicts_witness:
  "\<exists>cs. dry_run_phase315_row (\<lambda>_. '''') (\<lambda>_. None) demo_row = Inr cs \<and> \<not> list_all dry_passed cs"
  using dry_run_verdicts [OF demo_row_facts(1-3), of "\<lambda>_. ''''" "\<lambda>_. None"] demo_row_facts(4) by auto

section \<open>The dry run on live features\<close>

definition row_policy :: "json pydict \<Rightarrow> json" where
  "row_policy row = get_default row ''intervention_policy_id'' JNull"

text \<open>The rows whose live trigger can fire at all, and the step at which it does.\<close>

definition live_active :: "json pydict \<Rightarrow> string list \<Rightarrow> bool" where
  "live_active row overlap \<longleftrightarrow>
     get_default row ''exact_static_prefix_trigger_disabled'' JNull = JBool True \<and>
     get_default row ''recalibrated_trigger_mode'' JNull = JStr ''live_feature_signature_window'' \<and> overlap \<noteq> [] \<and>
     (row_policy row = JStr ''break_recurrence_and_replan'' \<and> json_truthy (get_default row ''candidate_state_class'' JNull) \<or>
      row_policy row \<in> {JStr ''same_action_escape'', JStr ''insert_validation_checkpoint'', JStr ''error_observation_recovery''})"

definition live_due :: "json pydict \<Rightarrow> int \<Rightarrow> int" where
  "live_due row t = (if row_policy row \<in> {JStr ''insert_validation_checkpoint'', JStr ''error_observation_recovery''} then 1 else t)"

lemma overlap_required:
  assumes "candidate_required_reason_overlap rp row = Inr overlap" "row_policy row = JStr p"
  shows "set overlap \<subseteq> set (case dict_get POLICY_REQUIRED_REASON_CODES p of Some codes \<Rightarrow> codes | None \<Rightarrow> [])"
  using assms by (auto simp: candidate_required_reason_overlap_def Let_def row_policy_def and_then_eq_Inr)

lemma required_codes:
  "dict_get POLICY_REQUIRED_REASON_CODES ''break_recurrence_and_replan'' =
     Some [''recurrence_spike'', ''loop_or_duplicate_pattern'', ''same_action_family_streak'']"
  "dict_get POLICY_REQUIRED_REASON_CODES ''same_action_escape'' = Some [''same_action_family_streak'']"
  by (simp_all add: POLICY_REQUIRED_REASON_CODES_def dict_get_def)

lemma overlap_break:
  "candidate_required_reason_overlap rp row = Inr overlap \<Longrightarrow> row_policy row = JStr ''break_recurrence_and_replan'' \<Longrightarrow> overlap \<noteq> [] \<Longrightarrow>
     ''recurrence_spike'' \<in> set overlap \<or> ''loop_or_duplicate_pattern'' \<in> set overlap \<or> ''same_action_family_streak'' \<in> set overlap"
  using overlap_required [of rp row overlap "''break_recurrence_and_replan''"] by (cases overlap) (auto simp: required_codes)

lemma overlap_same:
  "candidate_required_reason_overlap rp row = Inr overlap \<Longrightarrow> row_policy row = JStr ''same_action_escape'' \<Longrightarrow> overlap \<noteq> [] \<Longrightarrow>
     ''same_action_family_streak'' \<in> set overlap"
  using overlap_required [of rp row overlap "''same_action_escape''"] by (cases overlap) (auto simp: required_codes)

lemma window_flags:
  "lw_flags (feature_window num overlap state t streak gap step) =
     \<lparr>ff_reason_overlap = (overlap \<noteq> []),
      ff_recurrence = ((''recurrence_spike'' \<in> set overlap \<or> ''loop_or_duplicate_pattern'' \<in> set overlap) \<and> t \<le> step),
      ff_duplicate = (''loop_or_duplicate_pattern'' \<in> set overlap \<and> t \<le> step),
      ff_same_family = (''same_action_family_streak'' \<in> set overlap \<and> t \<le> step),
      ff_candidate_state = state\<rparr>"
  by (simp add: feature_window_def Let_def)

lemma live_matches:
  assumes "candidate_required_reason_overlap rp row = Inr overlap" "1 \<le> step"
  shows "live_predicate_matches rp row
      (feature_window num overlap (json_truthy (get_default row ''candidate_state_class'' JNull)) t streak gap step) =
    Inr (live_active row overlap \<and> live_due row t \<le> step)"
  unfolding live_predicate_matches_def window_flags live_active_def live_due_def row_policy_def [symmetric] Let_def
  using assms overlap_break [OF assms(1)] overlap_same [OF assms(1)] by auto

definition event_injected :: "json pydict \<Rightarrow> bool" where
  "event_injected ev \<longleftrightarrow> dict_get ev ''injection_decision'' = Some (JStr ''injected'')"

lemma live_window_step:
  assumes "on_live_feature_window rp ri h row s w = Inr s'"
  obtains matched ev where "live_predicate_matches rp row w = Inr matched" "p6_injected s' \<longleftrightarrow> p6_injected s \<or> matched"
    "p6_audit s' = p6_audit s @ [ev]" "event_injected ev \<longleftrightarrow> matched \<and> \<not> p6_injected s"
    "p6_message_count s' = p6_message_count s + of_bool (matched \<and> \<not> p6_injected s)"
  using assms unfolding on_live_feature_window_def Let_def
  apply (elim and_then_InrE)
  apply (rule that)
      apply assumption
     apply (simp_all only: sum.inject)
     apply (erule subst, simp only: live_policy_hook.select_convs, blast)
    apply (erule subst, simp only: live_policy_hook.select_convs)
   apply (simp add: event_injected_def dict_get_def)
  apply (erule subst, simp only: live_policy_hook.select_convs)
  done

lemma live_windows_run:
  assumes "live_windows rp ri h row s ws = Inr s'"
  shows "\<exists>evs ms. p6_audit s' = p6_audit s @ evs \<and> sequence (map (live_predicate_matches rp row) ws) = Inr ms \<and>
    map event_injected evs = injections latch_step (p6_injected s) ms"
  using assms
proof (induction ws arbitrary: s)
  case (Cons w ws)
  then obtain s1 where s1: "on_live_feature_window rp ri h row s w = Inr s1" "live_windows rp ri h row s1 ws = Inr s'"
    by (auto elim!: and_then_InrE)
  obtain m ev where step: "live_predicate_matches rp row w = Inr m" "p6_injected s1 \<longleftrightarrow> p6_injected s \<or> m"
    "p6_audit s1 = p6_audit s @ [ev]" "event_injected ev \<longleftrightarrow> m \<and> \<not> p6_injected s"
    by (rule live_window_step [OF s1(1)])
  from Cons.IH [OF s1(2)] obtain evs ms where "p6_audit s' = p6_audit s1 @ evs"
    "sequence (map (live_predicate_matches rp row) ws) = Inr ms" "map event_injected evs = injections latch_step (p6_injected s1) ms"
    by blast
  with step show ?case by (intro exI [of _ "ev # evs"] exI [of _ "m # ms"]) simp
qed simp

lemma derived_step_bounds:
  assumes "derive_live_trigger_step rp ri row = Inr t"
  shows "1 \<le> t" "t \<le> 4"
proof -
  have streak: "1 \<le> k \<and> k \<le> 4" if "candidate_reference_streak ri row = Inr k" for k
    using that by (auto simp: candidate_reference_streak_def and_then_eq_Inr)
  from assms obtain index overlap k where "candidate_reference_streak ri row = Inr k"
    "t = max 1 (min (if ''same_action_family_streak'' \<in> set overlap then k
       else if ''recurrence_spike'' \<in> set overlap \<or> ''loop_or_duplicate_pattern'' \<in> set overlap then max 2 k else max 3 k) (max 1 index))"
    unfolding derive_live_trigger_step_def Let_def by (elim and_then_InrE) (auto simp only: sum.inject)
  with streak show "1 \<le> t" "t \<le> 4" by (auto simp: max_def min_def split: if_splits)
qed

lemma synthetic_windows:
  assumes "synthetic_feature_window rp ri num row = Inr ws"
  obtains t overlap streak gap e where "derive_live_trigger_step rp ri row = Inr t"
    "candidate_required_reason_overlap rp row = Inr overlap" "t + 1 \<le> e"
    "ws = map (feature_window num overlap (json_truthy (get_default row ''candidate_state_class'' JNull)) t streak gap) [1..e]"
  using assms unfolding synthetic_feature_window_def Let_def
  apply (elim and_then_InrE)
  apply (rule that)
     apply assumption
    apply assumption
   prefer 2
   apply (simp only: sum.inject)
   apply (erule sym)
  apply simp
  done

text \<open>
  the dry run on live features injects at most once, and only where the row's reasons say so. If the run of a
  candidate row succeeds, its derived trigger step lies between 1 and 4 and inside the run, and exactly the event
  at one step is an injection, provided the static trigger is disabled, the mode is live, a required reason is
  present and the policy is known (and, for the recurrence policy, the candidate has a state class); otherwise none
  is. For the two signature policies that step is the derived one; for the validation and the error policy it is
  step 1, whatever step was derived.
\<close>

theorem live_dry_run_injection:
  assumes "dry_run_phase316_candidate rp ri num h row = Inr events"
  shows "\<exists>t overlap. derive_live_trigger_step rp ri row = Inr t \<and> candidate_required_reason_overlap rp row = Inr overlap \<and>
    1 \<le> t \<and> t \<le> 4 \<and> t < int (length events) \<and>
    (\<forall>i < length events. event_injected (events ! i) \<longleftrightarrow> live_active row overlap \<and> int (Suc i) = live_due row t) \<and>
    length (filter event_injected events) = (if live_active row overlap then 1 else 0)"
proof -
  from assms obtain ws s' where ws: "synthetic_feature_window rp ri num row = Inr ws"
    and run: "live_windows rp ri h row new_live_policy_hook ws = Inr s'" and events: "events = p6_audit s'"
    unfolding dry_run_phase316_candidate_def by (elim and_then_InrE) auto
  obtain t overlap streak gap e where t: "derive_live_trigger_step rp ri row = Inr t"
    and ov: "candidate_required_reason_overlap rp row = Inr overlap" and e: "t + 1 \<le> e"
    and w: "ws = map (feature_window num overlap (json_truthy (get_default row ''candidate_state_class'' JNull)) t streak gap) [1..e]"
    by (rule synthetic_windows [OF ws])
  note bounds = derived_step_bounds [OF t]
  let ?fires = "\<lambda>step. live_active row overlap \<and> live_due row t \<le> step"
  from live_windows_run [OF run] obtain ms where ms: "sequence (map (live_predicate_matches rp row) ws) = Inr ms"
    and inj: "map event_injected events = injections latch_step False ms"
    by (auto simp: events new_live_policy_hook_def)
  have "map (live_predicate_matches rp row) ws = map Inr (map ?fires [1..e])"
    unfolding w map_map by (rule map_cong) (auto simp: live_matches [OF ov])
  with ms have "map Inr (map ?fires [1..e]) = (map Inr ms :: (pyexn + bool) list)" by (simp only: sequence_Inr_iff_map)
  then have ms': "ms = map ?fires [1..e]" by (simp only: inj_map_eq_map [OF inj_Inr])
  have len: "length events = nat e" using arg_cong [OF inj, of length] ms' by simp
  have due: "1 \<le> live_due row t" "live_due row t \<le> t" using bounds by (auto simp: live_due_def)
  have at: "event_injected (events ! i) \<longleftrightarrow> live_active row overlap \<and> int (Suc i) = live_due row t" if i: "i < length events" for i
  proof -
    have "event_injected (events ! i) \<longleftrightarrow> injections latch_step False ms ! i" using i inj by (metis nth_map)
    also have "\<dots> \<longleftrightarrow> ms ! i \<and> (\<forall>j < i. \<not> ms ! j)" using latch.injected_at [of i ms False] i len ms' by simp
    also have "\<dots> \<longleftrightarrow> ?fires (int i + 1) \<and> (\<forall>j < i. \<not> ?fires (int j + 1))" using i len by (simp add: ms' add.commute)
    also have "\<dots> \<longleftrightarrow> live_active row overlap \<and> int (Suc i) = live_due row t"
      using due(1) by (cases i) (auto dest: spec [of _ "i - 1"])
    finally show ?thesis .
  qed
  have "length (filter event_injected events) = injection_total (map event_injected events)"
    by (simp add: injection_total_def filter_map comp_def)
  also have "\<dots> = (if list_ex (\<lambda>b. b) ms then 1 else 0)" using latch.injected_once [of False ms] by (simp add: inj)
  also have "list_ex (\<lambda>b. b) ms \<longleftrightarrow> live_active row overlap"
    using e due bounds by (auto simp: ms' list_ex_iff intro: bexI [of _ "live_due row t"])
  finally show ?thesis using t ov bounds e len at by auto
qed

text \<open>The run succeeds on every row that has its identifying fields.\<close>

definition candidate_complete :: "json pydict \<Rightarrow> bool" where
  "candidate_complete row \<longleftrightarrow>
     (\<forall>k \<in> {''intervention_policy_id'', ''pair_id'', ''arm_id'', ''source_task_id'', ''source_family'',
        ''candidate_static_prefix_index'', ''exact_static_prefix_trigger_disabled''}. dict_get row k \<noteq> None)"

lemma live_windows_total:
  assumes "candidate_complete row" "candidate_required_reason_overlap rp row = Inr overlap"
    "candidate_reference_streak ri row = Inr streak" "json_iter (get_default row ''phase314_feature_inputs'' (JList [])) = Inr inputs"
  shows "\<exists>s'. live_windows rp ri h row s ws = Inr s'"
proof (induction ws arbitrary: s)
  case (Cons w ws)
  have "\<exists>m. live_predicate_matches rp row w = Inr m" by (auto simp: live_predicate_matches_def assms(2) Let_def)
  then obtain s1 where "on_live_feature_window rp ri h row s w = Inr s1"
    using assms by (auto simp: candidate_complete_def on_live_feature_window_def Let_def get_item_def)
  with Cons.IH [of s1] show ?case by simp
qed simp

definition demo_candidate :: "json pydict" where
  "demo_candidate = [(''intervention_policy_id'', JStr ''insert_validation_checkpoint''), (''pair_id'', JStr ''p''), (''arm_id'', JStr ''a''),
     (''source_task_id'', JStr ''t''), (''source_family'', JStr ''f''), (''candidate_static_prefix_index'', JInt 9),
     (''exact_static_prefix_trigger_disabled'', JBool True), (''recalibrated_trigger_mode'', JStr ''live_feature_signature_window''),
     (''candidate_reason_codes'', JList [JStr ''validation_gap_after_edit''])]"

lemma demo_candidate_facts:
  "candidate_complete demo_candidate"
  "candidate_required_reason_overlap rp demo_candidate = Inr [''validation_gap_after_edit'']"
  "candidate_reference_streak ri demo_candidate = Inr 1" "derive_live_trigger_step rp ri demo_candidate = Inr 3"
  "live_active demo_candidate [''validation_gap_after_edit'']" "live_due demo_candidate 3 = 1"
  "\<exists>ws. synthetic_feature_window rp ri num demo_candidate = Inr ws"
proof -
  note defs = demo_candidate_def get_default_def dict_get_def
  show "candidate_complete demo_candidate" by (simp add: candidate_complete_def defs)
  show ov: "candidate_required_reason_overlap rp demo_candidate = Inr [''validation_gap_after_edit'']"
    by (simp add: candidate_required_reason_overlap_def POLICY_REQUIRED_REASON_CODES_def unhashable_def defs Let_def)
  show streak: "candidate_reference_streak ri demo_candidate = Inr 1"
    by (simp add: candidate_reference_streak_def json_int_def defs)
  show t: "derive_live_trigger_step rp ri demo_candidate = Inr 3"
    using ov streak by (simp add: derive_live_trigger_step_def json_int_def Let_def) (simp add: defs)
  show "live_active demo_candidate [''validation_gap_after_edit'']" "live_due demo_candidate 3 = 1"
    by (simp_all add: live_active_def live_due_def row_policy_def defs)
  show "\<exists>ws. synthetic_feature_window rp ri num demo_candidate = Inr ws"
    using t ov streak by (simp add: synthetic_feature_window_def json_int_def Let_def) (simp add: defs json_or_def)
qed

lemma demo_inputs: "json_iter (get_default demo_candidate ''phase314_feature_inputs'' (JList [])) = Inr []"
  by (simp add: demo_candidate_def get_default_def dict_get_def)

theorem live_dry_run_injection_witness:
  "\<exists>events. dry_run_phase316_candidate (\<lambda>_. '''') (\<lambda>_. None) (\<lambda>_. JNull) id demo_candidate = Inr events \<and>
     event_injected (events ! 0) \<and> 3 < length events"
proof -
  let ?run = "dry_run_phase316_candidate (\<lambda>_. '''') (\<lambda>_. None) (\<lambda>_. JNull) id demo_candidate"
  obtain ws where ws: "synthetic_feature_window (\<lambda>_. '''') (\<lambda>_. None) (\<lambda>_. JNull) demo_candidate = Inr ws"
    using demo_candidate_facts(7) by blast
  obtain s' where "live_windows (\<lambda>_. '''') (\<lambda>_. None) id demo_candidate new_live_policy_hook ws = Inr s'"
    using live_windows_total [OF demo_candidate_facts(1,2,3) demo_inputs] by blast
  with ws have run: "?run = Inr (p6_audit s')" by (simp add: dry_run_phase316_candidate_def)
  from live_dry_run_injection [OF run] demo_candidate_facts run show ?thesis by fastforce
qed

end
