(* ===== verification/Replay_Protocol.thy ===== *)
theory Replay_Protocol
  imports Protocol_V1 Policy_Hooks Pair_Attribution
begin

text \<open>
  Protocol version 0, \<open>packages/clinic/src/wutai_clinic/intervention/replay_protocol.py\<close>: state capsules and
  their comparison, the closed trigger language (one comparison), the simulation of a protocol over feature
  windows and the label of a paired replay. The regular expression of a predicate is written out as a recogniser
  over ASCII text; floats are rationals. \<open>h\<close> is SHA-256, \<open>rp\<close> is \<open>repr\<close> on containers. Reading the
  files is not modelled.
\<close>

section \<open>State capsules\<close>

definition CAPSULE_FINGERPRINT_FIELDS :: "string list" where
  "CAPSULE_FINGERPRINT_FIELDS = [''task_id'', ''repo_hash'', ''agent_config_hash'', ''provider_config_hash'',
     ''message_prefix_hash'', ''working_tree_diff_hash'', ''observation_window_hash'', ''model_request_hash'',
     ''runner_config_hash'', ''deployment_hash'', ''replay_config_hash'', ''runtime_nondeterminism_policy'']"

record state_capsule =
  sc_task_id :: string
  sc_repo_hash :: string
  sc_agent_config_hash :: string
  sc_provider_config_hash :: string
  sc_message_prefix_hash :: string
  sc_working_tree_diff_hash :: string
  sc_observation_window_hash :: string
  sc_model_request_hash :: string
  sc_runner_config_hash :: string
  sc_deployment_hash :: string
  sc_replay_config_hash :: string
  sc_runtime_policy :: string
  sc_metadata :: "json pydict"

text \<open>A list of pairs, which \<open>dict.update\<close> accepts as well, counts as an error here.\<close>

definition update_arg :: "json \<Rightarrow> pyexn + json pydict" where
  "update_arg v = (case json_or v (JObj []) of JObj kvs \<Rightarrow> Inr kvs | _ \<Rightarrow> Inl (TypeErr ''update''))"

definition state_capsule_from_dict :: "(json \<Rightarrow> string) \<Rightarrow> json pydict \<Rightarrow> pyexn + state_capsule" where
  "state_capsule_from_dict rp data =
     (let missing = filter (\<lambda>k. \<not> json_truthy (field_or_null data k)) CAPSULE_FINGERPRINT_FIELDS;
          txt = (\<lambda>k. json_text rp (field_or_null data k))
      in and_then (raise_if (missing \<noteq> [])
           (ValueErr (''StateCapsule missing required fields: '' @ join '', '' missing))) (\<lambda>_.
         and_then (update_arg (field_or_null data ''metadata'')) (\<lambda>md.
         Inr \<lparr>sc_task_id = txt ''task_id'', sc_repo_hash = txt ''repo_hash'',
           sc_agent_config_hash = txt ''agent_config_hash'', sc_provider_config_hash = txt ''provider_config_hash'',
           sc_message_prefix_hash = txt ''message_prefix_hash'', sc_working_tree_diff_hash = txt ''working_tree_diff_hash'',
           sc_observation_window_hash = txt ''observation_window_hash'', sc_model_request_hash = txt ''model_request_hash'',
           sc_runner_config_hash = txt ''runner_config_hash'', sc_deployment_hash = txt ''deployment_hash'',
           sc_replay_config_hash = txt ''replay_config_hash'', sc_runtime_policy = txt ''runtime_nondeterminism_policy'',
           sc_metadata = dict_update
             (filter (\<lambda>(k, v). k \<notin> set CAPSULE_FINGERPRINT_FIELDS \<and> k \<noteq> ''metadata'') data) md\<rparr>)))"

definition fingerprint_payload :: "state_capsule \<Rightarrow> string pydict" where
  "fingerprint_payload c =
     [(''task_id'', sc_task_id c), (''repo_hash'', sc_repo_hash c), (''agent_config_hash'', sc_agent_config_hash c),
      (''provider_config_hash'', sc_provider_config_hash c), (''message_prefix_hash'', sc_message_prefix_hash c),
      (''working_tree_diff_hash'', sc_working_tree_diff_hash c),
      (''observation_window_hash'', sc_observation_window_hash c), (''model_request_hash'', sc_model_request_hash c),
      (''runner_config_hash'', sc_runner_config_hash c), (''deployment_hash'', sc_deployment_hash c),
      (''replay_config_hash'', sc_replay_config_hash c), (''runtime_nondeterminism_policy'', sc_runtime_policy c)]"

definition fingerprint_json :: "state_capsule \<Rightarrow> json pydict" where
  "fingerprint_json c = map (\<lambda>(k, s). (k, JStr s)) (fingerprint_payload c)"

definition capsule_fingerprint :: "(string \<Rightarrow> string) \<Rightarrow> state_capsule \<Rightarrow> string" where
  "capsule_fingerprint h c = stable_json_hash h (JObj (fingerprint_json c))"

definition capsule_to_dict :: "(string \<Rightarrow> string) \<Rightarrow> state_capsule \<Rightarrow> json pydict" where
  "capsule_to_dict h c =
     fingerprint_json c @ [(''metadata'', JObj (sc_metadata c)), (''fingerprint'', JStr (capsule_fingerprint h c))]"

record fork_report =
  fk_passed :: bool
  fk_decision :: string
  fk_control_fingerprint :: string
  fk_treatment_fingerprint :: string
  fk_mismatched_fields :: "string list"

definition STATE_MISMATCH_LABEL :: string where
  "STATE_MISMATCH_LABEL = ''state_mismatch_no_attribution''"

definition SECONDARY_AUDIT_LABEL :: string where
  "SECONDARY_AUDIT_LABEL = ''secondary_audit_no_treatment_attribution''"

definition verify_fork_equivalence :: "(string \<Rightarrow> string) \<Rightarrow> state_capsule \<Rightarrow> state_capsule \<Rightarrow> fork_report" where
  "verify_fork_equivalence h control treatment =
     (let mismatched = filter (\<lambda>k. dict_get (fingerprint_payload control) k \<noteq> dict_get (fingerprint_payload treatment) k)
            CAPSULE_FINGERPRINT_FIELDS;
          passed = (mismatched = [] \<and> capsule_fingerprint h control = capsule_fingerprint h treatment)
      in \<lparr>fk_passed = passed,
          fk_decision = (if passed then ''state_capsule_equivalent'' else STATE_MISMATCH_LABEL),
          fk_control_fingerprint = capsule_fingerprint h control,
          fk_treatment_fingerprint = capsule_fingerprint h treatment,
          fk_mismatched_fields = mismatched\<rparr>)"

section \<open>The protocol\<close>

definition PROTOCOL_V0_VERSION :: string where "PROTOCOL_V0_VERSION = ''protocol_v0''"
definition V0_CLAIM_BOUNDARY :: string where "V0_CLAIM_BOUNDARY = ''bounded_next_step_control''"

text \<open>The message ids of the policy texts.\<close>

definition POLICY_MESSAGE_IDS :: "string list" where
  "POLICY_MESSAGE_IDS = map fst POLICY_TEXT"

text \<open>The pattern of a predicate: a name, a comparison, a literal, blanks around each.\<close>

definition ident_start :: "char \<Rightarrow> bool" where
  "ident_start c \<longleftrightarrow> 97 \<le> char_code (lower_char c) \<and> char_code (lower_char c) \<le> 122 \<or> c = CHR ''_''"

definition ident_char :: "char \<Rightarrow> bool" where
  "ident_char c \<longleftrightarrow> ident_start c \<or> is_digit c"

definition quoted_text :: "string \<Rightarrow> bool" where
  "quoted_text v \<longleftrightarrow> 2 \<le> length v \<and> hd v \<in> {CHR 0x22, CHR 0x27} \<and> last v = hd v \<and>
     hd v \<notin> set (butlast (tl v))"

definition digits :: "string \<Rightarrow> bool" where
  "digits s \<longleftrightarrow> s \<noteq> [] \<and> list_all is_digit s"

definition unsigned_part :: "string \<Rightarrow> string" where
  "unsigned_part v = (if starts_with ''-'' v then tl v else v)"

definition whole_part :: "string \<Rightarrow> string" where
  "whole_part v = takeWhile (\<lambda>c. c \<noteq> CHR ''.'') (unsigned_part v)"

definition frac_part :: "string \<Rightarrow> string" where
  "frac_part v = drop (Suc (length (whole_part v))) (unsigned_part v)"

definition number_text :: "string \<Rightarrow> bool" where
  "number_text v \<longleftrightarrow> digits (whole_part v) \<and> (CHR ''.'' \<in> set (unsigned_part v) \<longrightarrow> digits (frac_part v))"

definition literal_text :: "string \<Rightarrow> bool" where
  "literal_text v \<longleftrightarrow> lower v = ''true'' \<or> lower v = ''false'' \<or> number_text v \<or> quoted_text v"

definition comparison_ops :: "string list" where
  "comparison_ops = [''>='', ''<='', ''=='', ''!='', ''>'', ''<'']"

definition match_predicate :: "string \<Rightarrow> (string \<times> string \<times> string) option" where
  "match_predicate s =
     (let s1 = lstrip s; name = takeWhile ident_char s1; s2 = lstrip (drop (length name) s1)
      in if name = [] \<or> \<not> ident_start (hd name) then None
         else case find (\<lambda>op. starts_with op s2) comparison_ops of
                None \<Rightarrow> None
              | Some op \<Rightarrow>
                  (let v = strip (drop (length op) s2) in if literal_text v then Some (name, op, v) else None))"

record v0_trigger =
  t0_type :: string
  t0_predicate :: string

record v0_action =
  a0_type :: string
  a0_message_id :: string

record v0_guard =
  g0_debounce :: string
  g0_raw_payload_logging :: bool

record protocol_v0 =
  p0_trigger :: v0_trigger
  p0_action :: v0_action
  p0_guard :: v0_guard
  p0_claim :: string
  p0_version :: string

definition trigger_v0_from_dict :: "(json \<Rightarrow> string) \<Rightarrow> json \<Rightarrow> pyexn + v0_trigger" where
  "trigger_v0_from_dict rp data =
     and_then (json_get data ''type'') (\<lambda>ty.
     and_then (raise_if (ty \<noteq> JStr ''live_feature'') (ValueErr ''Protocol v0 only supports trigger.type=live_feature'')) (\<lambda>_.
     and_then (text_field rp data ''predicate'' '''') (\<lambda>predicate.
     and_then (raise_if (match_predicate predicate = None)
       (ValueErr ''Protocol v0 predicate must be a single comparison'')) (\<lambda>_.
     Inr \<lparr>t0_type = ''live_feature'', t0_predicate = predicate\<rparr>))))"

definition action_v0_from_dict :: "(json \<Rightarrow> string) \<Rightarrow> json \<Rightarrow> pyexn + v0_action" where
  "action_v0_from_dict rp data =
     and_then (json_get data ''type'') (\<lambda>ty.
     and_then (raise_if (ty \<noteq> JStr ''inject_system_prompt'')
       (ValueErr ''Protocol v0 only supports action.type=inject_system_prompt'')) (\<lambda>_.
     and_then (text_field rp data ''message_id'' '''') (\<lambda>mid.
     and_then (raise_if (mid \<notin> set POLICY_MESSAGE_IDS) (ValueErr (''unknown policy message_id: '' @ mid))) (\<lambda>_.
     Inr \<lparr>a0_type = ''inject_system_prompt'', a0_message_id = mid\<rparr>))))"

definition guard_v0_from_dict :: "(json \<Rightarrow> string) \<Rightarrow> json \<Rightarrow> pyexn + v0_guard" where
  "guard_v0_from_dict rp data =
     and_then (text_field rp data ''debounce'' ''once_per_pair'') (\<lambda>debounce.
     and_then (raise_if (debounce \<noteq> ''once_per_pair'') (ValueErr ''Protocol v0 only supports guard.debounce=once_per_pair'')) (\<lambda>_.
     and_then (not_false data ''raw_payload_logging'') (\<lambda>raw.
     and_then (raise_if raw (ValueErr ''Protocol v0 requires guard.raw_payload_logging=false'')) (\<lambda>_.
     Inr \<lparr>g0_debounce = debounce, g0_raw_payload_logging = False\<rparr>))))"

definition claim_v0_from_dict :: "(json \<Rightarrow> string) \<Rightarrow> json \<Rightarrow> pyexn + string" where
  "claim_v0_from_dict rp data =
     and_then (text_field rp data ''allowed'' V0_CLAIM_BOUNDARY) (\<lambda>allowed.
     and_then (raise_if (allowed \<noteq> V0_CLAIM_BOUNDARY)
       (ValueErr (''Protocol v0 only supports claim.allowed='' @ V0_CLAIM_BOUNDARY))) (\<lambda>_.
     Inr allowed))"

definition protocol_v0_from_dict :: "(json \<Rightarrow> string) \<Rightarrow> json \<Rightarrow> pyexn + protocol_v0" where
  "protocol_v0_from_dict rp data =
     and_then (raise_if (find_disallowed_keys data '''' \<noteq> [])
       (ValueErr (''Protocol v0 forbids executable fields: '' @ join '', '' (find_disallowed_keys data '''')))) (\<lambda>_.
     and_then (text_field rp data ''version'' PROTOCOL_V0_VERSION) (\<lambda>version.
     and_then (raise_if (version \<noteq> PROTOCOL_V0_VERSION) (ValueErr (''unsupported protocol version: '' @ version))) (\<lambda>_.
     and_then (and_then (sub_dict data ''trigger'') (trigger_v0_from_dict rp)) (\<lambda>trigger.
     and_then (and_then (sub_dict data ''action'') (action_v0_from_dict rp)) (\<lambda>action.
     and_then (and_then (sub_dict data ''guard'') (guard_v0_from_dict rp)) (\<lambda>guard.
     and_then (and_then (sub_dict data ''claim'') (claim_v0_from_dict rp)) (\<lambda>claim.
     Inr \<lparr>p0_trigger = trigger, p0_action = action, p0_guard = guard, p0_claim = claim, p0_version = version\<rparr>)))))))"

definition protocol_v0_to_dict :: "protocol_v0 \<Rightarrow> json" where
  "protocol_v0_to_dict p = JObj
     [(''version'', JStr (p0_version p)),
      (''trigger'', JObj [(''type'', JStr (t0_type (p0_trigger p))), (''predicate'', JStr (t0_predicate (p0_trigger p)))]),
      (''action'', JObj [(''type'', JStr (a0_type (p0_action p))), (''message_id'', JStr (a0_message_id (p0_action p)))]),
      (''guard'', JObj [(''debounce'', JStr (g0_debounce (p0_guard p))),
         (''raw_payload_logging'', JBool (g0_raw_payload_logging (p0_guard p)))]),
      (''claim'', JObj [(''allowed'', JStr (p0_claim p))])]"

definition protocol_v0_hash :: "(string \<Rightarrow> string) \<Rightarrow> protocol_v0 \<Rightarrow> string" where
  "protocol_v0_hash h p = stable_json_hash h (protocol_v0_to_dict p)"

section \<open>Evaluating a trigger\<close>

text \<open>Values of features and literals; lists and dictionaries compare with no literal.\<close>

datatype feature_val =
    FBool bool
  | FInt int
  | FFloat rat
  | FText string
  | FNone
  | FContainer json

definition read_decimal :: "string \<Rightarrow> rat" where
  "read_decimal v =
     (let m = of_nat (read_nat (whole_part v)) + of_nat (read_nat (frac_part v)) / 10 ^ length (frac_part v)
      in if starts_with ''-'' v then - m else m)"

definition read_integer :: "string \<Rightarrow> int" where
  "read_integer v = (if starts_with ''-'' v then - int (read_nat (tl v)) else int (read_nat v))"

definition parse_literal :: "string \<Rightarrow> feature_val" where
  "parse_literal v =
     (if lower v = ''true'' then FBool True
      else if lower v = ''false'' then FBool False
      else if v \<noteq> [] \<and> hd v \<in> {CHR 0x22, CHR 0x27} \<and> last v \<in> {CHR 0x22, CHR 0x27} then FText (butlast (tl v))
      else if CHR ''.'' \<in> set v then FFloat (read_decimal v)
      else FInt (read_integer v))"

text \<open>Booleans are numbers; a number equals no text.\<close>

fun feature_number :: "feature_val \<Rightarrow> rat option" where
  "feature_number (FBool b) = Some (of_bool b)"
| "feature_number (FInt i) = Some (of_int i)"
| "feature_number (FFloat x) = Some x"
| "feature_number _ = None"

fun feature_text :: "feature_val \<Rightarrow> string option" where
  "feature_text (FText s) = Some s"
| "feature_text _ = None"

definition feature_eq :: "feature_val \<Rightarrow> feature_val \<Rightarrow> bool" where
  "feature_eq a b =
     (case (feature_number a, feature_number b) of
        (Some x, Some y) \<Rightarrow> x = y
      | _ \<Rightarrow> (case (feature_text a, feature_text b) of (Some s, Some t) \<Rightarrow> s = t | _ \<Rightarrow> a = b))"

definition feature_less :: "feature_val \<Rightarrow> feature_val \<Rightarrow> pyexn + bool" where
  "feature_less a b =
     (case (feature_number a, feature_number b) of
        (Some x, Some y) \<Rightarrow> Inr (x < y)
      | _ \<Rightarrow> (case (feature_text a, feature_text b) of
               (Some s, Some t) \<Rightarrow> Inr (s < t)
             | _ \<Rightarrow> Inl (TypeErr ''not supported between instances'')))"

definition feature_le :: "feature_val \<Rightarrow> feature_val \<Rightarrow> pyexn + bool" where
  "feature_le a b = and_then (feature_less a b) (\<lambda>l. Inr (l \<or> feature_eq a b))"

definition compare_by :: "string \<Rightarrow> feature_val \<Rightarrow> feature_val \<Rightarrow> pyexn + bool" where
  "compare_by op a b =
     (if op = ''>'' then feature_less b a
      else if op = ''>='' then feature_le b a
      else if op = ''<'' then feature_less a b
      else if op = ''<='' then feature_le a b
      else if op = ''=='' then Inr (feature_eq a b)
      else if op = ''!='' then Inr (\<not> feature_eq a b)
      else Inl (KeyError op))"

definition evaluate_trigger :: "protocol_v0 \<Rightarrow> feature_val pydict \<Rightarrow> pyexn + bool" where
  "evaluate_trigger p features =
     (case match_predicate (t0_predicate (p0_trigger p)) of
        None \<Rightarrow> Inl (ValueErr ''invalid predicate'')
      | Some (name, op, v) \<Rightarrow>
          (case dict_get features name of
             None \<Rightarrow> Inr False
           | Some actual \<Rightarrow> compare_by op actual (parse_literal v)))"

section \<open>Simulation and report\<close>

record sim_event =
  sv_window_index :: nat
  sv_triggered :: bool
  sv_injected :: bool
  sv_message_id :: "string option"
  sv_raw_payload_logged :: bool

record simulation =
  sm_protocol_hash :: string
  sm_trigger_hit :: bool
  sm_injection_count :: nat
  sm_events :: "sim_event list"

text \<open>One window: whether it triggers, and the event of a hook that has or has not injected.\<close>

definition sim_event_of :: "protocol_v0 \<Rightarrow> nat \<Rightarrow> bool \<Rightarrow> bool \<Rightarrow> sim_event" where
  "sim_event_of p i injected triggered =
     (if triggered \<and> \<not> injected
      then \<lparr>sv_window_index = i, sv_triggered = True, sv_injected = True,
        sv_message_id = Some (a0_message_id (p0_action p)), sv_raw_payload_logged = False\<rparr>
      else \<lparr>sv_window_index = i, sv_triggered = triggered, sv_injected = False, sv_message_id = None,
        sv_raw_payload_logged = False\<rparr>)"

fun simulate_from :: "protocol_v0 \<Rightarrow> nat \<Rightarrow> bool \<Rightarrow> feature_val pydict list \<Rightarrow> pyexn + sim_event list" where
  "simulate_from p i injected [] = Inr []"
| "simulate_from p i injected (features # rest) =
     and_then (evaluate_trigger p features) (\<lambda>triggered.
     and_then (simulate_from p (Suc i) (injected \<or> triggered) rest) (\<lambda>events.
     Inr (sim_event_of p i injected triggered # events)))"

definition simulate_protocol :: "(string \<Rightarrow> string) \<Rightarrow> protocol_v0 \<Rightarrow> feature_val pydict list \<Rightarrow> pyexn + simulation" where
  "simulate_protocol h p windows =
     and_then (simulate_from p 0 False windows) (\<lambda>events.
     Inr \<lparr>sm_protocol_hash = protocol_v0_hash h p,
       sm_trigger_hit = list_ex sv_triggered events,
       sm_injection_count = length (filter sv_injected events),
       sm_events = events\<rparr>)"

definition paired_replay_effect_label ::
    "bool \<Rightarrow> bool \<Rightarrow> nat \<Rightarrow> bool option \<Rightarrow> bool option \<Rightarrow> string" where
  "paired_replay_effect_label fork_passed trigger_hit n control treatment =
     (if \<not> fork_passed then STATE_MISMATCH_LABEL
      else if \<not> trigger_hit \<or> n = 0 then SECONDARY_AUDIT_LABEL
      else if n \<noteq> 1 then ''invalid_injection_count_no_attribution''
      else case (control, treatment) of
             (Some c, Some t) \<Rightarrow>
               (if c \<and> t then ''both_resolved_trigger_hit_pair_no_uplift''
                else if \<not> c \<and> t then ''intervention_only_resolved_trigger_hit_candidate''
                else if c \<and> \<not> t then ''control_only_resolved_trigger_hit_negative_candidate''
                else ''both_unresolved_trigger_hit_pair_no_uplift'')
           | _ \<Rightarrow> ''pending_or_incomplete'')"

record protocol_check =
  pk_decision :: string
  pk_passed :: bool
  pk_gates :: "bool pydict"
  pk_protocol_hash :: string
  pk_control_fingerprint :: string
  pk_treatment_fingerprint :: string
  pk_fork :: fork_report
  pk_simulation :: simulation

definition protocol_check_report :: "(string \<Rightarrow> string) \<Rightarrow> protocol_v0 \<Rightarrow> state_capsule \<Rightarrow> state_capsule \<Rightarrow>
    feature_val pydict list \<Rightarrow> bool option \<Rightarrow> bool option \<Rightarrow> pyexn + protocol_check" where
  "protocol_check_report h p control treatment windows cres tres =
     (let fork = verify_fork_equivalence h control treatment
      in and_then (simulate_protocol h p windows) (\<lambda>sim.
         let label = paired_replay_effect_label (fk_passed fork) (sm_trigger_hit sim) (sm_injection_count sim) cres tres;
             gates = [(''protocol_v0_valid'', True),
               (''raw_payload_logging_disabled'', \<not> g0_raw_payload_logging (p0_guard p)),
               (''state_capsule_equivalent'', fk_passed fork),
               (''single_injection_guard_satisfied'', sm_injection_count sim \<le> 1),
               (''claim_boundary_bounded'', p0_claim p = V0_CLAIM_BOUNDARY),
               (''generalized_uplift_claim_not_made'', True)]
         in Inr \<lparr>pk_decision = label, pk_passed = list_all snd gates, pk_gates = gates,
              pk_protocol_hash = protocol_v0_hash h p,
              pk_control_fingerprint = capsule_fingerprint h control,
              pk_treatment_fingerprint = capsule_fingerprint h treatment,
              pk_fork = fork, pk_simulation = sim\<rparr>))"

section \<open>Capsules\<close>

lemma dict_agree_eq:
  assumes "map fst a = map fst b" "distinct (map fst b)" "\<And>k. k \<in> fst ` set b \<Longrightarrow> map_of a k = map_of b k"
  shows "a = b"
  using assms
proof (induction a arbitrary: b)
  case (Cons x a)
  then obtain y b' where b: "b = y # b'" by (cases b) auto
  have "map_of a k = map_of b' k" if k: "k \<in> fst ` set b'" for k
  proof -
    have "k \<noteq> fst y" using Cons.prems(2) k b by (metis distinct.simps(2) list.simps(9) list.set_map)
    with Cons.prems(1) Cons.prems(3) [of k] k b show ?thesis by (cases x; cases y) auto
  qed
  with Cons.IH [of b'] Cons.prems(1,2) b have "a = b'" by auto
  moreover have "x = y"
    using Cons.prems(1) Cons.prems(3) [of "fst y"] b by (cases x; cases y) auto
  ultimately show ?case by (simp add: b)
qed simp

lemma payload_fields: "map fst (fingerprint_payload c) = CAPSULE_FINGERPRINT_FIELDS"
  by (simp add: fingerprint_payload_def CAPSULE_FINGERPRINT_FIELDS_def)

lemma fields_distinct: "distinct CAPSULE_FINGERPRINT_FIELDS"
  by code_simp

lemma payload_keys: "fst ` set (fingerprint_payload c) = set CAPSULE_FINGERPRINT_FIELDS"
  by (metis payload_fields list.set_map)

lemma same_payload:
  "filter (\<lambda>k. dict_get (fingerprint_payload c) k \<noteq> dict_get (fingerprint_payload t) k) CAPSULE_FINGERPRINT_FIELDS = [] \<longleftrightarrow>
     fingerprint_payload c = fingerprint_payload t"
  using dict_agree_eq [of "fingerprint_payload c" "fingerprint_payload t"]
  by (auto simp: filter_empty_conv dict_get_def payload_fields payload_keys fields_distinct)

lemma fork_passed_iff:
  "fk_passed (verify_fork_equivalence h c t) \<longleftrightarrow> fingerprint_payload c = fingerprint_payload t"
  unfolding verify_fork_equivalence_def Let_def same_payload
  by (auto simp: capsule_fingerprint_def fingerprint_json_def)

definition capsule_filled :: "state_capsule \<Rightarrow> bool" where
  "capsule_filled c \<longleftrightarrow> list_all (\<lambda>(k, s). s \<noteq> []) (fingerprint_payload c)"

text \<open>
  What \<open>to_dict\<close> writes is read back with the same twelve fields, but its \<open>fingerprint\<close> entry has become
  metadata: the capsule read back differs from the one that was written.
\<close>

lemma capsule_roundtrip_gains_fingerprint:
  assumes "capsule_filled c"
  shows "state_capsule_from_dict rp (capsule_to_dict h c) =
    Inr (c\<lparr>sc_metadata := dict_update [(''fingerprint'', JStr (capsule_fingerprint h c))] (sc_metadata c)\<rparr>)"
proof -
  have "update_arg (JObj (sc_metadata c)) = Inr (sc_metadata c)"
    by (cases "sc_metadata c") (simp_all add: update_arg_def json_or_def)
  with assms show ?thesis
    unfolding state_capsule_from_dict_def Let_def
    by (simp add: capsule_filled_def capsule_to_dict_def fingerprint_json_def fingerprint_payload_def
        CAPSULE_FINGERPRINT_FIELDS_def field_or_null_def dict_get_def)
qed

section \<open>Simulation\<close>

lemma sim_event_fields [simp]:
  "sv_triggered (sim_event_of p i sp trig) = trig" "sv_injected (sim_event_of p i sp trig) = (trig \<and> \<not> sp)"
  "sv_window_index (sim_event_of p i sp trig) = i"
  "sv_message_id (sim_event_of p i sp trig) = (if trig \<and> \<not> sp then Some (a0_message_id (p0_action p)) else None)"
  by (auto simp: sim_event_of_def)

lemma simulate_from_Inr:
  "simulate_from p i sp windows = Inr events \<Longrightarrow>
     sequence (map (evaluate_trigger p) windows) = Inr (map sv_triggered events) \<and>
     map sv_injected events = injections latch_step sp (map sv_triggered events)"
proof (induction windows arbitrary: i sp events)
  case (Cons w ws)
  then obtain trig rest where "evaluate_trigger p w = Inr trig" "simulate_from p (Suc i) (sp \<or> trig) ws = Inr rest"
    "events = sim_event_of p i sp trig # rest" by (auto elim!: and_then_InrE)
  with Cons.IH [OF this(2)] show ?case by simp
qed simp

lemma simulate_from_total:
  "(\<exists>events. simulate_from p i sp windows = Inr events) \<longleftrightarrow> (\<exists>bs. sequence (map (evaluate_trigger p) windows) = Inr bs)"
proof (induction windows arbitrary: i sp)
  case (Cons w ws)
  show ?case
  proof (cases "evaluate_trigger p w")
    case (Inr trig)
    with Cons.IH [of "Suc i" "sp \<or> trig"] show ?thesis
      by (auto simp: and_then_eq_Inr split: sum.splits)
  qed simp
qed simp

lemma simulation_facts:
  assumes "simulate_protocol h p windows = Inr sim"
  obtains bs where "sequence (map (evaluate_trigger p) windows) = Inr bs" "bs = map sv_triggered (sm_events sim)"
    "sm_trigger_hit sim \<longleftrightarrow> list_ex (\<lambda>b. b) bs" "sm_injection_count sim = of_bool (list_ex (\<lambda>b. b) bs)"
    "\<And>i. i < length bs \<Longrightarrow> sv_injected (sm_events sim ! i) \<longleftrightarrow> bs ! i \<and> (\<forall>j < i. \<not> bs ! j)"
proof -
  from assms obtain events where ev: "simulate_from p 0 False windows = Inr events"
    and sim: "sim = \<lparr>sm_protocol_hash = protocol_v0_hash h p, sm_trigger_hit = list_ex sv_triggered events,
       sm_injection_count = length (filter sv_injected events), sm_events = events\<rparr>"
    by (auto simp: simulate_protocol_def elim!: and_then_InrE)
  let ?bs = "map sv_triggered events"
  note facts = simulate_from_Inr [OF ev]
  have "length (filter sv_injected events) = injection_total (map sv_injected events)"
    by (simp add: injection_total_def filter_map comp_def)
  also have "\<dots> = injection_total (injections latch_step False ?bs)" using facts by simp
  also have "\<dots> = of_bool (list_ex (\<lambda>b. b) ?bs)" using latch.injected_once [of False ?bs] by simp
  finally have count: "length (filter sv_injected events) = of_bool (list_ex (\<lambda>b. b) ?bs)" .
  have at: "sv_injected (events ! i) \<longleftrightarrow> ?bs ! i \<and> (\<forall>j < i. \<not> ?bs ! j)" if "i < length ?bs" for i
  proof -
    have "sv_injected (events ! i) = map sv_injected events ! i" using that by simp
    also have "\<dots> = injections latch_step False ?bs ! i" using facts by simp
    also have "\<dots> \<longleftrightarrow> ?bs ! i \<and> (\<forall>j < i. \<not> ?bs ! j)" using latch.injected_at [OF that, of False] by simp
    finally show ?thesis .
  qed
  show ?thesis
    by (rule that [of ?bs]) (use facts count at in \<open>auto simp: sim list_ex_iff\<close>)
qed

section \<open>Accepted protocols\<close>

definition valid_v0 :: "protocol_v0 \<Rightarrow> bool" where
  "valid_v0 p \<longleftrightarrow>
     p0_version p = PROTOCOL_V0_VERSION \<and> t0_type (p0_trigger p) = ''live_feature'' \<and>
     match_predicate (t0_predicate (p0_trigger p)) \<noteq> None \<and> a0_type (p0_action p) = ''inject_system_prompt'' \<and>
     a0_message_id (p0_action p) \<in> set POLICY_MESSAGE_IDS \<and>
     p0_guard p = \<lparr>g0_debounce = ''once_per_pair'', g0_raw_payload_logging = False\<rparr> \<and> p0_claim p = V0_CLAIM_BOUNDARY"

lemma trigger_v0_valid:
  "trigger_v0_from_dict rp d = Inr t \<Longrightarrow> t0_type t = ''live_feature'' \<and> match_predicate (t0_predicate t) \<noteq> None"
  by (auto simp: trigger_v0_from_dict_def and_then_eq_Inr)

lemma action_v0_valid:
  "action_v0_from_dict rp d = Inr a \<Longrightarrow> a0_type a = ''inject_system_prompt'' \<and> a0_message_id a \<in> set POLICY_MESSAGE_IDS"
  by (auto simp: action_v0_from_dict_def and_then_eq_Inr)

lemma guard_v0_valid:
  "guard_v0_from_dict rp d = Inr g \<Longrightarrow> g = \<lparr>g0_debounce = ''once_per_pair'', g0_raw_payload_logging = False\<rparr>"
  by (auto simp: guard_v0_from_dict_def and_then_eq_Inr)

lemma claim_v0_valid: "claim_v0_from_dict rp d = Inr c \<Longrightarrow> c = V0_CLAIM_BOUNDARY"
  by (auto simp: claim_v0_from_dict_def and_then_eq_Inr)

lemma from_dict_valid_v0:
  assumes "protocol_v0_from_dict rp d = Inr p"
  shows "valid_v0 p" "find_disallowed_keys d '''' = []"
proof -
  from assms obtain t a g c t' a' g' c' where
    p: "p = \<lparr>p0_trigger = t, p0_action = a, p0_guard = g, p0_claim = c, p0_version = PROTOCOL_V0_VERSION\<rparr>"
    and parts: "trigger_v0_from_dict rp t' = Inr t" "action_v0_from_dict rp a' = Inr a"
      "guard_v0_from_dict rp g' = Inr g" "claim_v0_from_dict rp c' = Inr c"
    and clean: "find_disallowed_keys d '''' = []"
    unfolding protocol_v0_from_dict_def
    by (elim and_then_InrE) (simp only: raise_if_eq_Inr sum.inject not_not, metis)
  show "find_disallowed_keys d '''' = []" by (rule clean)
  from trigger_v0_valid [OF parts(1)] action_v0_valid [OF parts(2)] guard_v0_valid [OF parts(3)] claim_v0_valid [OF parts(4)]
  show "valid_v0 p" unfolding p valid_v0_def by simp
qed

lemma to_dict_v0_clean: "find_disallowed_keys (protocol_v0_to_dict p) '''' = []"
  unfolding disallowed_iff protocol_v0_to_dict_def
  by (auto simp: executable_keys_def lower_simps lower_char_def char_code_def)

lemma match_predicate_Nil [simp]: "match_predicate [] = None"
  by (simp add: match_predicate_def lstrip_def)

lemma valid_v0_parses:
  assumes "valid_v0 p"
  shows "protocol_v0_from_dict rp (protocol_v0_to_dict p) = Inr p"
proof -
  from assms obtain m where m: "match_predicate (t0_predicate (p0_trigger p)) = Some m" by (auto simp: valid_v0_def)
  from assms have ne: "t0_predicate (p0_trigger p) \<noteq> []" "a0_message_id (p0_action p) \<noteq> []"
    by (auto simp: valid_v0_def POLICY_MESSAGE_IDS_def POLICY_TEXT_def)
  note defs = trigger_v0_from_dict_def action_v0_from_dict_def guard_v0_from_dict_def claim_v0_from_dict_def
  show ?thesis
    using assms ne m unfolding protocol_v0_from_dict_def to_dict_v0_clean
    by (simp add: protocol_v0_to_dict_def defs valid_v0_def dict_field_defs PROTOCOL_V0_VERSION_def V0_CLAIM_BOUNDARY_def)
qed

section \<open>Predicates\<close>

lemma starts_with_append [simp]: "starts_with p (p @ s)"
  by (simp add: starts_with_iff)

text \<open>An operator followed by a blank is read as it was written.\<close>

lemma find_op:
  "op \<in> set comparison_ops \<Longrightarrow> find (\<lambda>o'. starts_with o' (op @ CHR '' '' # s)) comparison_ops = Some op"
  by (auto simp: comparison_ops_def starts_with_def)

lemma digit_no_space: "is_digit c \<Longrightarrow> \<not> py_space c"
  by (auto simp: is_digit_def py_space_def)

lemma show_int_chars: "c \<in> set (show_int k) \<Longrightarrow> c = CHR ''-'' \<or> is_digit c"
  using show_nat_digits by (auto simp: show_int_def split: if_splits)

lemma minus_not_space: "\<not> py_space (CHR ''-'')"
  by (simp add: py_space_def char_code_def)

lemma strip_unpadded:
  assumes "\<And>c. c \<in> set s \<Longrightarrow> \<not> py_space c"
  shows "strip s = s" "strip (CHR '' '' # s) = s"
proof -
  have l: "lstrip s = s" using assms by (cases s) (simp_all add: lstrip_def)
  have "dropWhile py_space (rev s) = rev s" using assms by (cases "rev s") (auto simp flip: set_rev [of s])
  then have r: "rstrip_by py_space s = s" by (simp add: rstrip_by_def)
  have sp: "py_space (CHR '' '')" by (simp add: py_space_def char_code_def)
  show "strip s = s" by (simp add: strip_def l r)
  have "lstrip (CHR '' '' # s) = s" using l sp by (simp add: lstrip_def)
  then show "strip (CHR '' '' # s) = s" by (simp add: strip_def r)
qed

lemma minus_not_digit: "\<not> is_digit (CHR ''-'')" "\<not> is_digit (CHR ''.'')"
  by (simp_all add: is_digit_def char_code_def)

lemma show_nat_no_minus: "\<not> starts_with ''-'' (show_nat n)"
  using show_nat_digits [of _ n] minus_not_digit
  by (cases "show_nat n") (auto simp: starts_with_def)

lemma show_nat_no_dot: "CHR ''.'' \<notin> set (show_nat n)"
  using show_nat_digits minus_not_digit by blast

lemma takeWhile_no_dot: "takeWhile (\<lambda>c. c \<noteq> CHR ''.'') (show_nat n) = show_nat n"
  using show_nat_no_dot by (auto simp: takeWhile_eq_all_conv)

lemma show_int_literal: "literal_text (show_int k)"
proof -
  have "digits (show_nat n)" for n using show_nat_digits by (auto simp: digits_def list_all_iff)
  then have "number_text (show_int k)"
    using show_nat_no_minus show_nat_no_dot
    by (simp add: number_text_def whole_part_def unsigned_part_def show_int_def takeWhile_no_dot starts_with_def)
  then show ?thesis by (simp add: literal_text_def)
qed

lemma lower_plain: "c = CHR ''-'' \<or> is_digit c \<Longrightarrow> lower_char c = c"
  by (auto simp: lower_char_def is_digit_def char_code_def)

lemma lower_digits: "(\<And>c. c \<in> set s \<Longrightarrow> c = CHR ''-'' \<or> is_digit c) \<Longrightarrow> lower s = s"
  unfolding lower_def by (rule map_idI) (simp add: lower_plain)

lemma parse_show_int: "parse_literal (show_int k) = FInt k"
proof -
  have low: "lower (show_int k) = show_int k" using show_int_chars by (intro lower_digits) auto
  have letters: "CHR ''t'' \<notin> set (show_int k)" "CHR ''f'' \<notin> set (show_int k)" "CHR ''.'' \<notin> set (show_int k)"
    "CHR 0x22 \<notin> set (show_int k)" "CHR 0x27 \<notin> set (show_int k)"
    by (auto dest!: show_int_chars simp: is_digit_def char_code_def)
  then have "lower (show_int k) \<noteq> ''true''" "lower (show_int k) \<noteq> ''false''" by (auto simp: low)
  moreover have "show_int k \<noteq> [] \<Longrightarrow> hd (show_int k) \<notin> {CHR 0x22, CHR 0x27}"
    using letters hd_in_set by (metis insert_iff singletonD)
  moreover have "read_integer (show_int k) = k"
    using show_nat_no_minus by (auto simp: read_integer_def show_int_def starts_with_def)
  ultimately show ?thesis using letters by (auto simp: parse_literal_def)
qed

definition ident_name :: "string \<Rightarrow> bool" where
  "ident_name name \<longleftrightarrow> name \<noteq> [] \<and> ident_start (hd name) \<and> list_all ident_char name"

lemma blank_facts: "\<not> ident_char (CHR '' '')" "py_space (CHR '' '')"
  by (simp_all add: ident_char_def ident_start_def is_digit_def py_space_def lower_char_def char_code_def)

lemma ident_not_space: "ident_char c \<Longrightarrow> \<not> py_space c"
  by (auto simp: ident_char_def ident_start_def is_digit_def py_space_def lower_char_def char_code_def split: if_splits)

lemma op_not_space: "op \<in> set comparison_ops \<Longrightarrow> lstrip (CHR '' '' # op @ s) = op @ s"
  by (auto simp: comparison_ops_def lstrip_def py_space_def char_code_def)

lemma match_written:
  assumes "ident_name name" "op \<in> set comparison_ops"
  shows "match_predicate (name @ CHR '' '' # op @ CHR '' '' # show_int k) = Some (name, op, show_int k)"
proof -
  let ?s = "name @ CHR '' '' # op @ CHR '' '' # show_int k"
  from assms(1) obtain c cs where name: "name = c # cs" "ident_char c" "ident_start c"
    by (cases name) (auto simp: ident_name_def)
  then have l: "lstrip ?s = ?s" using ident_not_space by (simp add: lstrip_def)
  have t: "takeWhile ident_char ?s = name"
    using assms(1) blank_facts by (subst takeWhile_append2) (auto simp: ident_name_def list_all_iff)
  have v: "strip (CHR '' '' # show_int k) = show_int k"
    by (rule strip_unpadded) (use show_int_chars digit_no_space minus_not_space in blast)
  have hd: "name \<noteq> []" "ident_start (hd name)" using name by simp_all
  have op: "find (\<lambda>o'. starts_with o' (op @ CHR '' '' # show_int k)) comparison_ops = Some op"
    by (rule find_op [OF assms(2)])
  show ?thesis
    unfolding match_predicate_def Let_def l t
    by (simp add: hd op_not_space [OF assms(2)] op v show_int_literal)
qed

text \<open>The comparison an operator stands for, on integers.\<close>

definition int_compare :: "string \<Rightarrow> int \<Rightarrow> int \<Rightarrow> bool" where
  "int_compare op a b =
     (if op = ''>'' then a > b else if op = ''>='' then a \<ge> b else if op = ''<'' then a < b
      else if op = ''<='' then a \<le> b else if op = ''=='' then a = b else a \<noteq> b)"

lemma compare_ints: "op \<in> set comparison_ops \<Longrightarrow> compare_by op (FInt a) (FInt b) = Inr (int_compare op a b)"
  by (auto simp: compare_by_def int_compare_def feature_le_def feature_less_def feature_eq_def comparison_ops_def)

lemma match_op: "match_predicate s = Some (name, op, v) \<Longrightarrow> op \<in> set comparison_ops"
  by (auto simp: match_predicate_def Let_def split: if_splits option.splits dest: find_Some_mem)

lemma compare_error:
  "op \<in> set comparison_ops \<Longrightarrow> compare_by op a b = Inl e \<Longrightarrow> e = TypeErr ''not supported between instances''"
  by (auto simp: compare_by_def feature_le_def feature_less_def comparison_ops_def split: option.splits)

text \<open>
  C34: the trigger language of protocol version 0 means what it says. Any identifier, comparison operator and
  integer, written with blanks between them, is an accepted predicate, and it is read back as that identifier,
  operator and integer: on a feature with an integer value the trigger is the integer comparison, without the
  feature it does not fire. For every accepted protocol evaluation fails in one way only, an ordering of values
  that have none, never on the syntax of the predicate.
\<close>

theorem trigger_language_correct:
  assumes "ident_name name" "op \<in> set comparison_ops" "t0_predicate (p0_trigger p) = name @ '' '' @ op @ '' '' @ show_int k"
    and "protocol_v0_from_dict rp d = Inr q"
  shows "match_predicate (t0_predicate (p0_trigger p)) = Some (name, op, show_int k) \<and>
    evaluate_trigger p features =
      (case dict_get features name of None \<Rightarrow> Inr False | Some a \<Rightarrow> compare_by op a (FInt k)) \<and>
    (\<forall>a. compare_by op (FInt a) (FInt k) = Inr (int_compare op a k)) \<and>
    (\<forall>e. evaluate_trigger q features = Inl e \<longrightarrow> e = TypeErr ''not supported between instances'')"
proof -
  have m: "match_predicate (t0_predicate (p0_trigger p)) = Some (name, op, show_int k)"
    using match_written [OF assms(1,2)] by (simp add: assms(3))
  have "e = TypeErr ''not supported between instances''" if "evaluate_trigger q features = Inl e" for e
    using that from_dict_valid_v0(1) [OF assms(4)] compare_error [OF match_op]
    unfolding evaluate_trigger_def valid_v0_def by (fastforce split: option.splits)
  with m compare_ints [OF assms(2)] show ?thesis by (auto simp: evaluate_trigger_def parse_show_int split: option.splits)
qed

section \<open>Paired replay\<close>

lemma label_main_iff:
  "paired_replay_effect_label f hit n c t \<in> set MAIN_LABELS \<longleftrightarrow> f \<and> hit \<and> n = 1 \<and> c \<noteq> None \<and> t \<noteq> None"
  by (auto simp: paired_replay_effect_label_def MAIN_LABELS_def STATE_MISMATCH_LABEL_def SECONDARY_AUDIT_LABEL_def
      split: option.splits)

lemma label_uplift_iff:
  "paired_replay_effect_label f hit n c t = ''intervention_only_resolved_trigger_hit_candidate'' \<longleftrightarrow>
     f \<and> hit \<and> n = 1 \<and> c = Some False \<and> t = Some True"
  by (auto simp: paired_replay_effect_label_def STATE_MISMATCH_LABEL_def SECONDARY_AUDIT_LABEL_def split: option.splits)

lemma protocol_check_fields:
  assumes "protocol_check_report h p control treatment windows cres tres = Inr r"
  obtains sim where "simulate_protocol h p windows = Inr sim" "pk_simulation r = sim"
    "pk_decision r = paired_replay_effect_label (fk_passed (verify_fork_equivalence h control treatment))
       (sm_trigger_hit sim) (sm_injection_count sim) cres tres"
    "pk_passed r \<longleftrightarrow> \<not> g0_raw_payload_logging (p0_guard p) \<and> fk_passed (verify_fork_equivalence h control treatment) \<and>
       sm_injection_count sim \<le> 1 \<and> p0_claim p = V0_CLAIM_BOUNDARY"
  using assms unfolding protocol_check_report_def Let_def
  by (elim and_then_InrE) (auto simp: that)

text \<open>
  C33: a paired replay is attributed only when the replay is sound. For an accepted protocol whose check returns a
  report: the protocol injects at the first window whose trigger fires and at no other; the report passes exactly
  when the two capsules agree in all twelve fingerprint fields; its decision is one of the labels that the
  attribution counts as main treatment exactly when, besides, some window fired and both outcomes are known, and
  it claims an intervention-only resolution exactly when control is unresolved and treatment resolved as well.
\<close>

theorem replay_attribution_iff:
  assumes "protocol_v0_from_dict rp d = Inr p"
    and "protocol_check_report h p control treatment windows cres tres = Inr r"
  shows "\<exists>fired. sequence (map (evaluate_trigger p) windows) = Inr fired \<and>
    length (sm_events (pk_simulation r)) = length windows \<and>
    (\<forall>i < length windows. sv_injected (sm_events (pk_simulation r) ! i) \<longleftrightarrow> fired ! i \<and> (\<forall>j < i. \<not> fired ! j)) \<and>
    (pk_passed r \<longleftrightarrow> fingerprint_payload control = fingerprint_payload treatment) \<and>
    (pk_decision r \<in> set MAIN_LABELS \<longleftrightarrow>
       fingerprint_payload control = fingerprint_payload treatment \<and> True \<in> set fired \<and> cres \<noteq> None \<and> tres \<noteq> None) \<and>
    (pk_decision r = ''intervention_only_resolved_trigger_hit_candidate'' \<longleftrightarrow>
       fingerprint_payload control = fingerprint_payload treatment \<and> True \<in> set fired \<and>
       cres = Some False \<and> tres = Some True)"
proof -
  from protocol_check_fields [OF assms(2)] obtain sim where sim: "simulate_protocol h p windows = Inr sim"
    "pk_simulation r = sim"
    "pk_decision r = paired_replay_effect_label (fk_passed (verify_fork_equivalence h control treatment))
       (sm_trigger_hit sim) (sm_injection_count sim) cres tres"
    "pk_passed r \<longleftrightarrow> \<not> g0_raw_payload_logging (p0_guard p) \<and> fk_passed (verify_fork_equivalence h control treatment) \<and>
       sm_injection_count sim \<le> 1 \<and> p0_claim p = V0_CLAIM_BOUNDARY" by blast
  from simulation_facts [OF sim(1)] obtain fired where fired:
    "sequence (map (evaluate_trigger p) windows) = Inr fired" "fired = map sv_triggered (sm_events sim)"
    "sm_trigger_hit sim \<longleftrightarrow> list_ex (\<lambda>b. b) fired" "sm_injection_count sim = of_bool (list_ex (\<lambda>b. b) fired)"
    "\<And>i. i < length fired \<Longrightarrow> sv_injected (sm_events sim ! i) \<longleftrightarrow> fired ! i \<and> (\<forall>j < i. \<not> fired ! j)" by blast
  have len: "length fired = length windows" using sequence_map_rows [OF fired(1)] by simp
  have hit: "list_ex (\<lambda>b. b) fired \<longleftrightarrow> True \<in> set fired" by (auto simp: list_ex_iff)
  from from_dict_valid_v0(1) [OF assms(1)] have guard: "\<not> g0_raw_payload_logging (p0_guard p)" "p0_claim p = V0_CLAIM_BOUNDARY"
    by (simp_all add: valid_v0_def)
  have passed: "pk_passed r \<longleftrightarrow> fingerprint_payload control = fingerprint_payload treatment"
    unfolding sim(4) fork_passed_iff fired(4) using guard by simp
  have events: "length (sm_events sim) = length windows" using len fired(2) by simp
  note labels = label_main_iff label_uplift_iff fork_passed_iff fired(3,4) hit
  show ?thesis
    by (intro exI [of _ fired] conjI) (use fired(1,5) len events passed in \<open>auto simp: sim(2,3) labels\<close>)
qed

section \<open>Examples\<close>

definition demo_v0 :: protocol_v0 where
  "demo_v0 = \<lparr>p0_trigger = \<lparr>t0_type = ''live_feature'', t0_predicate = ''n >= 2''\<rparr>,
     p0_action = \<lparr>a0_type = ''inject_system_prompt'', a0_message_id = ''same_action_escape''\<rparr>,
     p0_guard = \<lparr>g0_debounce = ''once_per_pair'', g0_raw_payload_logging = False\<rparr>,
     p0_claim = V0_CLAIM_BOUNDARY, p0_version = PROTOCOL_V0_VERSION\<rparr>"

lemma show_two: "show_int 2 = ''2''"
  by code_simp

lemma n_is_name: "ident_name ''n''" "''>='' \<in> set comparison_ops"
  by code_simp+

lemma demo_predicate: "match_predicate ''n >= 2'' = Some (''n'', ''>='', ''2'')"
  using match_written [OF n_is_name, of 2] by (simp add: show_two)

lemma demo_v0_accepted: "protocol_v0_from_dict rp (protocol_v0_to_dict demo_v0) = Inr demo_v0"
  by (rule valid_v0_parses) (simp add: valid_v0_def demo_v0_def demo_predicate POLICY_MESSAGE_IDS_def POLICY_TEXT_def)

theorem trigger_language_correct_witness:
  "evaluate_trigger demo_v0 [(''n'', FInt 3)] = Inr True \<and> evaluate_trigger demo_v0 [] = Inr False"
  using trigger_language_correct [OF n_is_name _ demo_v0_accepted [of "\<lambda>_. ''''"], of demo_v0 2 "[(''n'', FInt 3)]"]
    trigger_language_correct [OF n_is_name _ demo_v0_accepted [of "\<lambda>_. ''''"], of demo_v0 2 "[]"]
  by (simp add: show_two demo_v0_def dict_get_def int_compare_def)

definition demo_capsule :: state_capsule where
  "demo_capsule = \<lparr>sc_task_id = ''t'', sc_repo_hash = ''a'', sc_agent_config_hash = ''b'', sc_provider_config_hash = ''c'',
     sc_message_prefix_hash = ''d'', sc_working_tree_diff_hash = ''e'', sc_observation_window_hash = ''f'',
     sc_model_request_hash = ''g'', sc_runner_config_hash = ''h'', sc_deployment_hash = ''i'',
     sc_replay_config_hash = ''j'', sc_runtime_policy = ''k'', sc_metadata = []\<rparr>"

lemma demo_eval: "evaluate_trigger demo_v0 [(''n'', FInt a)] = Inr (2 \<le> a)"
  using compare_ints [OF n_is_name(2), of a 2] parse_show_int [of 2]
  by (simp add: evaluate_trigger_def demo_v0_def demo_predicate dict_get_def show_two int_compare_def)

theorem replay_attribution_iff_witness:
  "\<exists>r. protocol_check_report id demo_v0 demo_capsule demo_capsule [[(''n'', FInt 1)], [(''n'', FInt 3)]] (Some False) (Some True) = Inr r \<and>
     pk_passed r \<and> pk_decision r = ''intervention_only_resolved_trigger_hit_candidate''"
proof -
  let ?ws = "[[(''n'', FInt 1)], [(''n'', FInt 3)]]"
  obtain r where r: "protocol_check_report id demo_v0 demo_capsule demo_capsule ?ws (Some False) (Some True) = Inr r"
    by (simp add: protocol_check_report_def simulate_protocol_def demo_eval Let_def)
  from replay_attribution_iff [OF demo_v0_accepted r] r show ?thesis by (auto simp: demo_eval)
qed

end
