(* ===== verification/Hybrid_Runner.thy ===== *)
theory Hybrid_Runner
  imports Replay_Protocol Py_Lines
begin

text \<open>
  The hybrid runner, \<open>packages/clinic/src/wutai_clinic/intervention/hybrid_runner.py\<close>: a model that replays a frozen
  prefix and then delegates, the semantic hash of a conversation prefix, and the hook that materialises a state
  capsule at the first generated query and may inject the protocol's message there. Messages are dictionaries;
  \<open>loads\<close> is \<open>json.loads\<close> (\<open>None\<close>: not JSON), \<open>h\<close> SHA-256, \<open>delegate\<close> the live model over its own state.
  The patterns of durations are written out as recognisers over ASCII text.
\<close>

section \<open>Volatile text\<close>

definition duration_words :: "string list" where
  "duration_words = [''in'', ''within'', ''took'', ''elapsed'', ''duration:'']"

definition second_words :: "string list" where
  "second_words = [''s'', ''sec'', ''secs'', ''second'', ''seconds'']"

text \<open>An unsigned decimal at the start of a text: its digits, with a fraction if a digit follows the point.\<close>

definition decimal_prefix :: "string \<Rightarrow> string" where
  "decimal_prefix s =
     (let whole = takeWhile is_digit s; rest = drop (length whole) s;
          frac = takeWhile is_digit (tl rest)
      in if whole = [] then []
         else if starts_with ''.'' rest \<and> frac \<noteq> [] then whole @ ''.'' @ frac else whole)"

text \<open>
  \<open>_DURATION_RE\<close> at a word boundary: the introducing word with its blanks, the number, and the blanks with the unit.
\<close>

definition match_duration :: "string \<Rightarrow> (string \<times> string \<times> string) option" where
  "match_duration s =
     (case find (\<lambda>w. starts_with w (lower s)) duration_words of
        None \<Rightarrow> None
      | Some w \<Rightarrow>
          (let after = drop (length w) s; blanks = takeWhile py_space after;
               value = decimal_prefix (drop (length blanks) after);
               rest = drop (length value) (drop (length blanks) after);
               gap = takeWhile py_space rest;
               unit = takeWhile word_char (drop (length gap) rest)
           in if blanks \<noteq> [] \<and> value \<noteq> [] \<and> lower unit \<in> set second_words
              then Some (take (length w) s @ blanks, value, gap @ unit) else None))"

text \<open>\<open>_PYTEST_DURATION_RE\<close>, which is case sensitive.\<close>

definition match_pytest_duration :: "string \<Rightarrow> (string \<times> string \<times> string) option" where
  "match_pytest_duration s =
     (let after = drop (length ''passed in '') s; value = decimal_prefix after;
          unit = takeWhile word_char (drop (length value) after)
      in if starts_with ''passed in '' s \<and> value \<noteq> [] \<and> unit = ''s'' then Some (''passed in '', value, ''s'') else None)"

text \<open>\<open>re.sub\<close>, left to right; the flag says whether the character before is a word character.\<close>

function sub_durations :: "(string \<Rightarrow> (string \<times> string \<times> string) option) \<Rightarrow> bool \<Rightarrow> string \<Rightarrow> string" where
  "sub_durations m inside [] = []"
| "sub_durations m inside (c # cs) =
     (case (if inside then None else m (c # cs)) of
        None \<Rightarrow> c # sub_durations m (word_char c) cs
      | Some (pre, value, suf) \<Rightarrow>
          pre @ ''<DURATION>'' @ suf @ sub_durations m True (drop (length pre + length value + length suf - 1) cs))"
  by pat_completeness auto

termination by (relation "measure (\<lambda>(m, inside, s). length s)") auto

definition normalize_volatile_text :: "string \<Rightarrow> string" where
  "normalize_volatile_text s = sub_durations match_pytest_duration False (sub_durations match_duration False s)"

lemma normalize_example:
  "normalize_volatile_text ''took 3.2 secs, in 4s'' = ''took <DURATION> secs, in <DURATION>s''"
  "normalize_volatile_text ''begin 4s'' = ''begin 4s''"
  by code_simp+

fun normalize_message_value :: "json \<Rightarrow> json" where
  "normalize_message_value (JStr s) = JStr (normalize_volatile_text s)"
| "normalize_message_value (JList xs) = JList (map normalize_message_value xs)"
| "normalize_message_value (JObj kvs) = JObj (map (\<lambda>(k, v). (k, normalize_message_value v)) kvs)"
| "normalize_message_value v = v"

type_synonym chat = "json pydict list"

definition normalize_live_message_prefix :: "chat \<Rightarrow> chat" where
  "normalize_live_message_prefix messages = map (map (\<lambda>(k, v). (k, normalize_message_value v))) messages"

section \<open>The semantic prefix hash\<close>

definition VOLATILE_MESSAGE_KEYS :: "string list" where
  "VOLATILE_MESSAGE_KEYS = [''cache_control'', ''id'', ''provider_specific_fields'', ''tool_call_id'', ''tool_call_ids'']"

definition canonical_json_argument :: "(string \<Rightarrow> json option) \<Rightarrow> json \<Rightarrow> json" where
  "canonical_json_argument loads v =
     (case v of JStr s \<Rightarrow> (case loads s of Some j \<Rightarrow> j | None \<Rightarrow> v) | _ \<Rightarrow> v)"

definition canonical_tool_call :: "(string \<Rightarrow> json option) \<Rightarrow> json pydict \<Rightarrow> pyexn + json" where
  "canonical_tool_call loads call =
     (let fn = json_or (field_or_null call ''function'') (JObj []) in
      and_then (json_get fn ''name'') (\<lambda>name.
      and_then (json_get fn ''arguments'') (\<lambda>arguments.
      Inr (JObj [(''type'', field_or_null call ''type''),
        (''function'', JObj [(''name'', name), (''arguments'', canonical_json_argument loads arguments)])]))))"

fun canonical_content :: "json \<Rightarrow> json" where
  "canonical_content (JStr s) = JStr (normalize_volatile_text s)"
| "canonical_content (JObj kvs) =
     JObj (sort_key fst (filter (\<lambda>(k, v). k \<notin> set VOLATILE_MESSAGE_KEYS) (map (\<lambda>(k, v). (k, canonical_content v)) kvs)))"
| "canonical_content (JList xs) = JList (map canonical_content xs)"
| "canonical_content v = v"

definition CONTENT_KEYS :: "string list" where
  "CONTENT_KEYS = [''role'', ''agent'', ''message_type'', ''content'', ''thought'', ''action'', ''name'']"

definition dict_of :: "json \<Rightarrow> json pydict option" where
  "dict_of j = (case j of JObj kvs \<Rightarrow> Some kvs | _ \<Rightarrow> None)"

definition canonical_message :: "(string \<Rightarrow> json option) \<Rightarrow> json pydict \<Rightarrow> pyexn + json" where
  "canonical_message loads message =
     (let payload = concat (map (\<lambda>k. case dict_get message k of Some v \<Rightarrow> [(k, canonical_content v)] | None \<Rightarrow> []) CONTENT_KEYS) in
      and_then (case field_or_null message ''tool_calls'' of
          JList calls \<Rightarrow>
            and_then (sequence (map (canonical_tool_call loads) (concat (map (\<lambda>c. case dict_of c of Some d \<Rightarrow> [d] | None \<Rightarrow> []) calls))))
              (\<lambda>cs. Inr [(''tool_calls'', JList cs)])
        | _ \<Rightarrow> Inr []) (\<lambda>calls.
      and_then (case field_or_null message ''tool_call'' of
          JObj call \<Rightarrow> and_then (canonical_tool_call loads call) (\<lambda>c. Inr [(''tool_call'', c)])
        | _ \<Rightarrow> Inr []) (\<lambda>call.
      Inr (JObj (payload @ calls @ call)))))"

definition message_prefix_hash :: "(string \<Rightarrow> json option) \<Rightarrow> (string \<Rightarrow> string) \<Rightarrow> chat \<Rightarrow> pyexn + string" where
  "message_prefix_hash loads h messages =
     and_then (sequence (map (canonical_message loads) messages)) (\<lambda>ms. Inr (stable_json_hash h (JList ms)))"

section \<open>Replay, then generation\<close>

text \<open>An action is a text or a dictionary with a \<open>message\<close>; the membership test takes a list as well.\<close>

definition normalize_model_output :: "json \<Rightarrow> pyexn + json" where
  "normalize_model_output action =
     (case action of
        JStr s \<Rightarrow> Inr (JObj [(''message'', JStr s)])
      | JObj kvs \<Rightarrow> and_then (raise_if (dict_get kvs ''message'' = None)
          (ValueErr ''replay action dict must include a message field'')) (\<lambda>_. Inr (JObj kvs))
      | JList xs \<Rightarrow> and_then (raise_if (JStr ''message'' \<notin> set xs)
          (ValueErr ''replay action dict must include a message field'')) (\<lambda>_. Inr (JList xs))
      | _ \<Rightarrow> Inl (TypeErr ''argument is not iterable''))"

record query_event =
  qe_query_index :: nat
  qe_generation :: bool
  qe_delegated :: bool
  qe_output_sha256 :: string

record hybrid_model =
  hm_actions :: "json list"
  hm_until :: nat
  hm_query_count :: nat
  hm_events :: "query_event list"

definition new_hybrid_model :: "json list \<Rightarrow> int option \<Rightarrow> pyexn + hybrid_model" where
  "new_hybrid_model actions replay_until =
     (let until = (case replay_until of None \<Rightarrow> int (length actions) | Some n \<Rightarrow> n) in
      and_then (raise_if (until < 0) (ValueErr ''replay_until must be non-negative'')) (\<lambda>_.
      and_then (raise_if (int (length actions) < until) (ValueErr ''replay_until cannot exceed replay_actions length'')) (\<lambda>_.
      and_then (sequence (map normalize_model_output actions)) (\<lambda>outputs.
      Inr \<lparr>hm_actions = outputs, hm_until = nat until, hm_query_count = 0, hm_events = []\<rparr>))))"

definition in_replay :: "hybrid_model \<Rightarrow> bool" where
  "in_replay m \<longleftrightarrow> hm_query_count m < hm_until m"

definition replay_complete :: "hybrid_model \<Rightarrow> bool" where
  "replay_complete m \<longleftrightarrow> hm_until m \<le> hm_query_count m"

definition record_query :: "(string \<Rightarrow> string) \<Rightarrow> hybrid_model \<Rightarrow> bool \<Rightarrow> json \<Rightarrow> hybrid_model" where
  "record_query h m delegated out = m\<lparr>hm_query_count := Suc (hm_query_count m),
     hm_events := hm_events m @ [\<lparr>qe_query_index = hm_query_count m, qe_generation = \<not> in_replay m,
       qe_delegated = delegated, qe_output_sha256 = stable_json_hash h out\<rparr>]\<rparr>"

text \<open>One query: the output, the model and the state of the delegate afterwards.\<close>

definition hybrid_query ::
    "(string \<Rightarrow> string) \<Rightarrow> ('d \<Rightarrow> chat \<Rightarrow> pyexn + json \<times> 'd) \<Rightarrow> hybrid_model \<Rightarrow> 'd \<Rightarrow> chat \<Rightarrow> pyexn + json \<times> hybrid_model \<times> 'd" where
  "hybrid_query h delegate m d history =
     (if in_replay m
      then (let out = hm_actions m ! hm_query_count m in Inr (out, record_query h m False out, d))
      else and_then (delegate d history) (\<lambda>(out, d'). Inr (out, record_query h m True out, d')))"

definition query_event_row :: "query_event \<Rightarrow> json pydict" where
  "query_event_row e =
     [(''query_index'', JInt (int (qe_query_index e))),
      (''phase'', JStr (if qe_generation e then ''generation'' else ''replay'')),
      (''delegated'', JBool (qe_delegated e)),
      (''output_sha256'', JStr (qe_output_sha256 e))]"

section \<open>The capsule hook\<close>

datatype arm_type = Control | Treatment

definition arm_name :: "arm_type \<Rightarrow> string" where
  "arm_name a = (case a of Control \<Rightarrow> ''control'' | Treatment \<Rightarrow> ''treatment'')"

record capsule_context =
  cx_arm :: arm_type
  cx_agent_name :: string
  cx_query_index :: nat
  cx_messages :: chat

record injection_event =
  ie_arm :: arm_type
  ie_agent_name :: string
  ie_query_index :: nat
  ie_capsule_fingerprint :: string
  ie_fork_decision :: string
  ie_fork_passed :: bool
  ie_trigger_hit :: bool
  ie_injected :: bool
  ie_count_before :: nat
  ie_count_after :: nat
  ie_pre_hash :: string
  ie_post_hash :: string

record capsule_hook =
  ch_arm :: arm_type
  ch_protocol :: protocol_v0
  ch_reference :: "state_capsule option"
  ch_capsule :: "state_capsule option"
  ch_injected :: bool
  ch_audit :: "injection_event list"

record capsule_env =
  ce_builder :: "capsule_context \<Rightarrow> pyexn + state_capsule"
  ce_features :: "capsule_context \<Rightarrow> feature_val pydict"
  ce_loads :: "string \<Rightarrow> json option"
  ce_hash :: "string \<Rightarrow> string"

definition new_capsule_hook :: "arm_type \<Rightarrow> protocol_v0 \<Rightarrow> state_capsule option \<Rightarrow> capsule_hook" where
  "new_capsule_hook arm p reference =
     \<lparr>ch_arm = arm, ch_protocol = p, ch_reference = reference, ch_capsule = None, ch_injected = False, ch_audit = []\<rparr>"

definition fork_equivalence :: "(string \<Rightarrow> string) \<Rightarrow> state_capsule option \<Rightarrow> state_capsule \<Rightarrow> fork_report" where
  "fork_equivalence h reference capsule =
     (case reference of
        None \<Rightarrow> \<lparr>fk_passed = True, fk_decision = ''state_capsule_materialized_no_reference'',
          fk_control_fingerprint = capsule_fingerprint h capsule, fk_treatment_fingerprint = capsule_fingerprint h capsule,
          fk_mismatched_fields = []\<rparr>
      | Some ref \<Rightarrow> verify_fork_equivalence h ref capsule)"

definition v0_policy_message :: "protocol_v0 \<Rightarrow> string" where
  "v0_policy_message p = (case dict_get POLICY_TEXT (a0_message_id (p0_action p)) of Some t \<Rightarrow> t | None \<Rightarrow> '''')"

text \<open>The decision to inject, and the audit event of the query.\<close>

definition capsule_injects :: "capsule_hook \<Rightarrow> fork_report \<Rightarrow> bool \<Rightarrow> bool" where
  "capsule_injects s fork hit \<longleftrightarrow> ch_arm s = Treatment \<and> fk_passed fork \<and> hit \<and> \<not> ch_injected s"

definition policy_turn :: "capsule_hook \<Rightarrow> json pydict" where
  "policy_turn s = [(''role'', JStr ''system''), (''content'', JStr (v0_policy_message (ch_protocol s)))]"

definition injection_event_of ::
    "(string \<Rightarrow> string) \<Rightarrow> capsule_hook \<Rightarrow> capsule_context \<Rightarrow> state_capsule \<Rightarrow> fork_report \<Rightarrow> bool \<Rightarrow> chat \<Rightarrow> string \<Rightarrow> string \<Rightarrow>
     injection_event" where
  "injection_event_of h s context capsule fork hit after pre_hash post_hash =
     \<lparr>ie_arm = ch_arm s, ie_agent_name = cx_agent_name context, ie_query_index = cx_query_index context,
       ie_capsule_fingerprint = capsule_fingerprint h capsule,
       ie_fork_decision = fk_decision fork, ie_fork_passed = fk_passed fork, ie_trigger_hit = hit,
       ie_injected = capsule_injects s fork hit,
       ie_count_before = length (cx_messages context), ie_count_after = length after,
       ie_pre_hash = pre_hash, ie_post_hash = post_hash\<rparr>"

text \<open>\<open>on_model_query\<close> with the phase and the query count of the agent's model.\<close>

definition query_context :: "capsule_hook \<Rightarrow> nat \<Rightarrow> string \<Rightarrow> chat \<Rightarrow> capsule_context" where
  "query_context s i agent messages =
     \<lparr>cx_arm = ch_arm s, cx_agent_name = agent, cx_query_index = i, cx_messages = normalize_live_message_prefix messages\<rparr>"

definition capsule_on_model_query ::
    "capsule_env \<Rightarrow> capsule_hook \<Rightarrow> bool \<Rightarrow> nat \<Rightarrow> string \<Rightarrow> chat \<Rightarrow> pyexn + capsule_hook \<times> chat" where
  "capsule_on_model_query env s replaying query_index agent messages =
     (if replaying \<or> ch_capsule s \<noteq> None then Inr (s, messages)
      else
        let live = normalize_live_message_prefix messages;
            context = query_context s query_index agent messages in
        and_then (message_prefix_hash (ce_loads env) (ce_hash env) live) (\<lambda>pre_hash.
        and_then (ce_builder env context) (\<lambda>capsule.
        let fork = fork_equivalence (ce_hash env) (ch_reference s) capsule in
        and_then (evaluate_trigger (ch_protocol s) (ce_features env context)) (\<lambda>hit.
        let after = live @ (if capsule_injects s fork hit then [policy_turn s] else []) in
        and_then (message_prefix_hash (ce_loads env) (ce_hash env) after) (\<lambda>post_hash.
        Inr (s\<lparr>ch_capsule := Some capsule, ch_injected := ch_injected s \<or> capsule_injects s fork hit,
            ch_audit := ch_audit s @ [injection_event_of (ce_hash env) s context capsule fork hit after pre_hash post_hash]\<rparr>, after))))))"

definition injection_event_row :: "injection_event \<Rightarrow> json pydict" where
  "injection_event_row e =
     [(''arm_type'', JStr (arm_name (ie_arm e))),
      (''agent_name'', JStr (ie_agent_name e)),
      (''query_index'', JInt (int (ie_query_index e))),
      (''phase'', JStr ''generation''),
      (''capsule_fingerprint'', JStr (ie_capsule_fingerprint e)),
      (''fork_decision'', JStr (ie_fork_decision e)),
      (''fork_passed'', JBool (ie_fork_passed e)),
      (''trigger_hit'', JBool (ie_trigger_hit e)),
      (''injected'', JBool (ie_injected e)),
      (''message_count_before'', JInt (int (ie_count_before e))),
      (''message_count_after'', JInt (int (ie_count_after e))),
      (''message_delta'', JInt (int (ie_count_after e) - int (ie_count_before e))),
      (''pre_intervention_message_prefix_hash'', JStr (ie_pre_hash e)),
      (''post_intervention_request_hash'', JStr (ie_post_hash e)),
      (''raw_payload_logged'', JBool False)]"

section \<open>Runs\<close>

text \<open>Any number of queries of the hybrid model.\<close>

fun hybrid_queries ::
    "(string \<Rightarrow> string) \<Rightarrow> ('d \<Rightarrow> chat \<Rightarrow> pyexn + json \<times> 'd) \<Rightarrow> hybrid_model \<Rightarrow> 'd \<Rightarrow> chat list \<Rightarrow>
     pyexn + json list \<times> hybrid_model \<times> 'd" where
  "hybrid_queries h delegate m d [] = Inr ([], m, d)"
| "hybrid_queries h delegate m d (q # qs) =
     and_then (hybrid_query h delegate m d q) (\<lambda>(out, m', d').
     and_then (hybrid_queries h delegate m' d' qs) (\<lambda>(outs, m'', d''). Inr (out # outs, m'', d'')))"

text \<open>The queries the delegate answers.\<close>

fun delegate_run :: "('d \<Rightarrow> chat \<Rightarrow> pyexn + json \<times> 'd) \<Rightarrow> 'd \<Rightarrow> chat list \<Rightarrow> pyexn + json list \<times> 'd" where
  "delegate_run delegate d [] = Inr ([], d)"
| "delegate_run delegate d (q # qs) =
     and_then (delegate d q) (\<lambda>(out, d'). and_then (delegate_run delegate d' qs) (\<lambda>(outs, d''). Inr (out # outs, d'')))"

text \<open>The calls of the capsule hook: is the model replaying, its query count, the agent, the messages.\<close>

fun capsule_run ::
    "capsule_env \<Rightarrow> capsule_hook \<Rightarrow> (bool \<times> nat \<times> string \<times> chat) list \<Rightarrow> pyexn + capsule_hook \<times> chat list" where
  "capsule_run env s [] = Inr (s, [])"
| "capsule_run env s ((replaying, i, agent, messages) # qs) =
     and_then (capsule_on_model_query env s replaying i agent messages) (\<lambda>(s', out).
     and_then (capsule_run env s' qs) (\<lambda>(s'', outs). Inr (s'', out # outs)))"

section \<open>The replayed prefix\<close>

lemma new_hybrid_facts:
  assumes "new_hybrid_model actions until = Inr m"
  shows "hm_until m \<le> length (hm_actions m)" "hm_query_count m = 0" "hm_events m = []"
    "sequence (map normalize_model_output actions) = Inr (hm_actions m)"
    "int (hm_until m) = (case until of None \<Rightarrow> int (length actions) | Some n \<Rightarrow> n)"
proof -
  define k where "k = (case until of None \<Rightarrow> int (length actions) | Some n \<Rightarrow> n)"
  from assms obtain outputs where k: "0 \<le> k" "k \<le> int (length actions)"
    and o: "sequence (map normalize_model_output actions) = Inr outputs"
    and m: "m = \<lparr>hm_actions = outputs, hm_until = nat k, hm_query_count = 0, hm_events = []\<rparr>"
    unfolding new_hybrid_model_def Let_def k_def [symmetric] by (auto simp: and_then_eq_Inr)
  have "length outputs = length actions" using sequence_map_rows [OF o] by simp
  with k o m show "hm_until m \<le> length (hm_actions m)" "hm_query_count m = 0" "hm_events m = []"
    "sequence (map normalize_model_output actions) = Inr (hm_actions m)"
    "int (hm_until m) = (case until of None \<Rightarrow> int (length actions) | Some n \<Rightarrow> n)"
    by (simp_all add: k_def [symmetric])
qed

lemma record_query_fields [simp]:
  "hm_actions (record_query h m b out) = hm_actions m" "hm_until (record_query h m b out) = hm_until m"
  "hm_query_count (record_query h m b out) = Suc (hm_query_count m)"
  "hm_events (record_query h m b out) = hm_events m @ [\<lparr>qe_query_index = hm_query_count m, qe_generation = \<not> in_replay m,
     qe_delegated = b, qe_output_sha256 = stable_json_hash h out\<rparr>]"
  by (simp_all add: record_query_def)

lemma hybrid_queries_run:
  assumes "hybrid_queries h delegate m d qs = Inr (outs, m', d')" "hm_until m \<le> length (hm_actions m)"
  shows "length outs = length qs \<and>
    take (hm_until m - hm_query_count m) outs = take (length qs) (take (hm_until m - hm_query_count m) (drop (hm_query_count m) (hm_actions m))) \<and>
    delegate_run delegate d (drop (hm_until m - hm_query_count m) qs) = Inr (drop (hm_until m - hm_query_count m) outs, d') \<and>
    hm_query_count m' = hm_query_count m + length qs \<and> hm_actions m' = hm_actions m \<and>
    hm_events m' = hm_events m @ map (\<lambda>(i, out). \<lparr>qe_query_index = i, qe_generation = hm_until m \<le> i,
      qe_delegated = hm_until m \<le> i, qe_output_sha256 = stable_json_hash h out\<rparr>) (enumerate (hm_query_count m) outs)"
  using assms
proof (induction qs arbitrary: m d outs)
  case (Cons q qs)
  then obtain out m1 d1 outs1 where q: "hybrid_query h delegate m d q = Inr (out, m1, d1)"
    and rest: "hybrid_queries h delegate m1 d1 qs = Inr (outs1, m', d')" and outs: "outs = out # outs1"
    by (auto elim!: and_then_InrE)
  show ?case
  proof (cases "in_replay m")
    case True
    with q have m1: "m1 = record_query h m False out" "out = hm_actions m ! hm_query_count m" "d1 = d"
      by (auto simp: hybrid_query_def Let_def)
    from True obtain k where k: "hm_until m - hm_query_count m = Suc k" "hm_until m - Suc (hm_query_count m) = k"
      "hm_query_count m < length (hm_actions m)" using Cons.prems(2) unfolding in_replay_def
      by (metis Suc_diff_Suc less_le_trans)
    have "drop (hm_query_count m) (hm_actions m) = out # drop (Suc (hm_query_count m)) (hm_actions m)"
      using k(3) by (simp add: m1(2) Cons_nth_drop_Suc)
    with Cons.IH [OF rest] Cons.prems(2) m1(1,3) k True show ?thesis
      by (simp add: outs in_replay_def)
  next
    case False
    with q have m1: "m1 = record_query h m True out" "delegate d q = Inr (out, d1)"
      by (auto simp: hybrid_query_def elim!: and_then_InrE)
    have z: "hm_until m - hm_query_count m = 0" "hm_until m - Suc (hm_query_count m) = 0" "hm_until m \<le> hm_query_count m"
      using False by (simp_all add: in_replay_def)
    from Cons.IH [OF rest] Cons.prems(2) m1 z show ?thesis
      by (simp add: outs in_replay_def)
  qed
qed simp

text \<open>
  C37: the hybrid model replays the frozen prefix and then only delegates. For a model that was accepted and any
  queries that return: the first outputs are the recorded actions in order, up to the replay bound, whatever the
  histories; every later query, and no earlier one, is answered by the live model on its own history, which is
  exactly the run of the live model on those queries alone; the rows of the event log are, in order, one per query
  with its number, its phase, whether it was delegated and the hash of its output.
\<close>

theorem hybrid_replays_then_delegates:
  assumes "new_hybrid_model actions until = Inr m" "hybrid_queries h delegate m d qs = Inr (outs, m', d')"
  shows "hm_until m \<le> length actions \<and> length outs = length qs \<and>
    sequence (map normalize_model_output actions) = Inr (hm_actions m) \<and>
    take (hm_until m) outs = take (length qs) (take (hm_until m) (hm_actions m)) \<and>
    delegate_run delegate d (drop (hm_until m) qs) = Inr (drop (hm_until m) outs, d') \<and>
    map query_event_row (hm_events m') = map (\<lambda>(i, out).
      [(''query_index'', JInt (int i)), (''phase'', JStr (if i < hm_until m then ''replay'' else ''generation'')),
       (''delegated'', JBool (hm_until m \<le> i)), (''output_sha256'', JStr (stable_json_hash h out))]) (enumerate 0 outs)"
proof -
  note facts = new_hybrid_facts [OF assms(1)]
  have "length (hm_actions m) = length actions" using sequence_map_rows [OF facts(4)] by simp
  with hybrid_queries_run [OF assms(2) facts(1)] facts show ?thesis by (auto simp: query_event_row_def)
qed

definition echo :: "nat \<Rightarrow> chat \<Rightarrow> pyexn + json \<times> nat" where
  "echo n history = Inr (JInt (int n), Suc n)"

theorem hybrid_replays_then_delegates_witness:
  "\<exists>m m'. new_hybrid_model [JStr ''a''] None = Inr m \<and>
     hybrid_queries id echo m 7 [[], []] = Inr ([JObj [(''message'', JStr ''a'')], JInt 7], m', 8) \<and>
     map (\<lambda>e. dict_get (query_event_row e) ''phase'') (hm_events m') = [Some (JStr ''replay''), Some (JStr ''generation'')]"
proof -
  obtain m where m: "new_hybrid_model [JStr ''a''] None = Inr m" "hm_until m = 1" "hm_actions m = [JObj [(''message'', JStr ''a'')]]"
    "hm_query_count m = 0"
    by (simp add: new_hybrid_model_def normalize_model_output_def)
  then obtain m' where run: "hybrid_queries id echo m 7 [[], []] = Inr ([JObj [(''message'', JStr ''a'')], JInt 7], m', 8)"
    by (simp add: hybrid_query_def in_replay_def echo_def Let_def)
  have "map (\<lambda>e. dict_get (query_event_row e) ''phase'') (hm_events m') =
      map (\<lambda>row. dict_get row ''phase'') (map query_event_row (hm_events m'))" by simp
  also have "\<dots> = [Some (JStr ''replay''), Some (JStr ''generation'')]"
    using hybrid_replays_then_delegates [OF m(1) run] m by (simp add: dict_get_def del: map_map)
  finally show ?thesis by (intro exI conjI) (rule m(1), rule run)
qed

section \<open>The capsule hook fires once\<close>

lemma capsule_inert: "ch_capsule s \<noteq> None \<Longrightarrow> capsule_run env s qs = Inr (s, map (snd \<circ> snd \<circ> snd) qs)"
  by (induction qs) (auto simp: capsule_on_model_query_def)

lemma capsule_replaying:
  "list_all fst pre \<Longrightarrow> capsule_run env s (pre @ qs) =
     and_then (capsule_run env s qs) (\<lambda>(s', outs). Inr (s', map (snd \<circ> snd \<circ> snd) pre @ outs))"
proof (induction pre)
  case Nil
  show ?case by (cases "capsule_run env s qs") auto
next
  case (Cons q pre)
  then show ?case by (cases q; cases "capsule_run env s qs") (auto simp: capsule_on_model_query_def)
qed

text \<open>What the hook does at the first generated query.\<close>

lemma capsule_first:
  assumes "capsule_on_model_query env s False i agent messages = Inr (s', out)" "ch_capsule s = None"
  obtains capsule hit event where "ce_builder env (query_context s i agent messages) = Inr capsule"
    "evaluate_trigger (ch_protocol s) (ce_features env (query_context s i agent messages)) = Inr hit"
    "message_prefix_hash (ce_loads env) (ce_hash env) (normalize_live_message_prefix messages) = Inr (ie_pre_hash event)"
    "ie_injected event \<longleftrightarrow> capsule_injects s (fork_equivalence (ce_hash env) (ch_reference s) capsule) hit"
    "ie_trigger_hit event = hit"
    "out = normalize_live_message_prefix messages @ (if ie_injected event then [policy_turn s] else [])"
    "ch_capsule s' = Some capsule" "ch_injected s' \<longleftrightarrow> ch_injected s \<or> ie_injected event" "ch_audit s' = ch_audit s @ [event]"
proof -
  let ?live = "normalize_live_message_prefix messages" and ?cx = "query_context s i agent messages"
  let ?fork = "\<lambda>capsule. fork_equivalence (ce_hash env) (ch_reference s) capsule"
  let ?after = "\<lambda>capsule hit. ?live @ (if capsule_injects s (?fork capsule) hit then [policy_turn s] else [])"
  let ?event = "\<lambda>capsule hit pre post. injection_event_of (ce_hash env) s ?cx capsule (?fork capsule) hit (?after capsule hit) pre post"
  from assms obtain pre capsule hit post where x: "message_prefix_hash (ce_loads env) (ce_hash env) ?live = Inr pre"
    "ce_builder env ?cx = Inr capsule" "evaluate_trigger (ch_protocol s) (ce_features env ?cx) = Inr hit"
    and res: "s\<lparr>ch_capsule := Some capsule, ch_injected := ch_injected s \<or> capsule_injects s (?fork capsule) hit,
        ch_audit := ch_audit s @ [?event capsule hit pre post]\<rparr> = s'" "?after capsule hit = out"
    by (auto simp: capsule_on_model_query_def and_then_eq_Inr Let_def)
  show ?thesis
    by (rule that [of capsule hit "?event capsule hit pre post"])
      (use x in \<open>simp_all add: res(1) [symmetric] res(2) [symmetric] injection_event_of_def\<close>)
qed

text \<open>
  C38: the capsule is taken once, before any intervention, and only a matching treatment arm is intervened on. Over
  any sequence of queries that return: while the model replays, messages pass unchanged; at the first generated
  query the capsule is built from the normalised messages as they are before the hook adds anything, and the policy
  message is appended exactly when the arm is the treatment, its capsule agrees with the reference in every
  fingerprint field (if there is a reference) and the trigger fires; every later query passes unchanged.
\<close>

theorem capsule_hook_once:
  assumes "capsule_run env (new_capsule_hook arm p reference) qs = Inr (s', outs)"
  shows "(list_all fst qs \<longrightarrow> s' = new_capsule_hook arm p reference \<and> outs = map (snd \<circ> snd \<circ> snd) qs) \<and>
    (\<forall>pre i agent messages post. qs = pre @ (False, i, agent, messages) # post \<and> list_all fst pre \<longrightarrow>
      (\<exists>capsule hit. let context = query_context (new_capsule_hook arm p reference) i agent messages;
          inject = (arm = Treatment \<and> hit \<and>
            (\<forall>ref. reference = Some ref \<longrightarrow> fingerprint_payload ref = fingerprint_payload capsule)) in
        ce_builder env context = Inr capsule \<and> evaluate_trigger p (ce_features env context) = Inr hit \<and>
        cx_messages context = normalize_live_message_prefix messages \<and>
        ch_capsule s' = Some capsule \<and> (ch_injected s' \<longleftrightarrow> inject) \<and> length (ch_audit s') = 1 \<and>
        outs = map (snd \<circ> snd \<circ> snd) pre @
          (normalize_live_message_prefix messages @
            (if inject then [policy_turn (new_capsule_hook arm p reference)] else [])) #
          map (snd \<circ> snd \<circ> snd) post))"
proof (intro conjI impI allI)
  let ?s = "new_capsule_hook arm p reference"
  assume "list_all fst qs"
  with assms capsule_replaying [of qs env ?s "[]"] show "s' = ?s" "outs = map (snd \<circ> snd \<circ> snd) qs" by simp_all
next
  fix pre i agent messages post
  let ?s = "new_capsule_hook arm p reference"
  assume "qs = pre @ (False, i, agent, messages) # post \<and> list_all fst pre"
  then have qs: "qs = pre @ (False, i, agent, messages) # post" and pre: "list_all fst pre" by simp_all
  from assms [unfolded qs capsule_replaying [OF pre]] obtain outs1
    where run: "capsule_run env ?s ((False, i, agent, messages) # post) = Inr (s', outs1)"
    and outs: "outs = map (snd \<circ> snd \<circ> snd) pre @ outs1" by (auto simp del: capsule_run.simps elim!: and_then_InrE)
  from run obtain s1 out outs2 where first: "capsule_on_model_query env ?s False i agent messages = Inr (s1, out)"
    and rest: "capsule_run env s1 post = Inr (s', outs2)" and outs1: "outs1 = out # outs2"
    by (auto elim!: and_then_InrE)
  have none: "ch_capsule ?s = None" by (simp add: new_capsule_hook_def)
  obtain capsule hit event where e: "ce_builder env (query_context ?s i agent messages) = Inr capsule"
    "evaluate_trigger (ch_protocol ?s) (ce_features env (query_context ?s i agent messages)) = Inr hit"
    "ie_injected event \<longleftrightarrow> capsule_injects ?s (fork_equivalence (ce_hash env) (ch_reference ?s) capsule) hit"
    "out = normalize_live_message_prefix messages @ (if ie_injected event then [policy_turn ?s] else [])"
    "ch_capsule s1 = Some capsule" "ch_injected s1 \<longleftrightarrow> ch_injected ?s \<or> ie_injected event" "ch_audit s1 = ch_audit ?s @ [event]"
    by (rule capsule_first [OF first none])
  have inert: "s' = s1" "outs2 = map (snd \<circ> snd \<circ> snd) post" using capsule_inert [of s1 env post] rest e(5) by simp_all
  have inject: "ie_injected event \<longleftrightarrow> arm = Treatment \<and> hit \<and>
      (\<forall>ref. reference = Some ref \<longrightarrow> fingerprint_payload ref = fingerprint_payload capsule)"
    by (auto simp: e(3) capsule_injects_def new_capsule_hook_def fork_equivalence_def fork_passed_iff split: option.splits)
  show "\<exists>capsule hit. let context = query_context ?s i agent messages;
          inject = (arm = Treatment \<and> hit \<and>
            (\<forall>ref. reference = Some ref \<longrightarrow> fingerprint_payload ref = fingerprint_payload capsule)) in
        ce_builder env context = Inr capsule \<and> evaluate_trigger p (ce_features env context) = Inr hit \<and>
        cx_messages context = normalize_live_message_prefix messages \<and>
        ch_capsule s' = Some capsule \<and> (ch_injected s' \<longleftrightarrow> inject) \<and> length (ch_audit s') = 1 \<and>
        outs = map (snd \<circ> snd \<circ> snd) pre @
          (normalize_live_message_prefix messages @ (if inject then [policy_turn ?s] else [])) # map (snd \<circ> snd \<circ> snd) post"
    unfolding Let_def inject [symmetric]
    by (intro exI [of _ capsule] exI [of _ hit])
      (use e inject in \<open>simp add: outs outs1 inert, simp add: new_capsule_hook_def query_context_def\<close>)
qed

lemma capsule_query_total:
  assumes "ce_builder env (query_context s i agent messages) = Inr capsule"
    "evaluate_trigger (ch_protocol s) (ce_features env (query_context s i agent messages)) = Inr hit"
    "\<And>b. \<exists>t. message_prefix_hash (ce_loads env) (ce_hash env)
       (normalize_live_message_prefix messages @ (if b then [policy_turn s] else [])) = Inr t"
  shows "\<exists>s' out. capsule_on_model_query env s False i agent messages = Inr (s', out)"
proof -
  let ?b = "capsule_injects s (fork_equivalence (ce_hash env) (ch_reference s) capsule) hit"
  from assms(3) [of False] obtain t1 where "message_prefix_hash (ce_loads env) (ce_hash env) (normalize_live_message_prefix messages) = Inr t1"
    by auto
  moreover from assms(3) [of ?b] obtain t2 where "message_prefix_hash (ce_loads env) (ce_hash env)
      (normalize_live_message_prefix messages @ (if ?b then [policy_turn s] else [])) = Inr t2" by blast
  ultimately show ?thesis using assms(1,2) by (simp add: capsule_on_model_query_def Let_def)
qed

definition demo_env :: capsule_env where
  "demo_env = \<lparr>ce_builder = (\<lambda>_. Inr demo_capsule), ce_features = (\<lambda>_. [(''n'', FInt 3)]), ce_loads = (\<lambda>_. None), ce_hash = id\<rparr>"

theorem capsule_hook_once_witness:
  "\<exists>s' outs. capsule_run demo_env (new_capsule_hook Treatment demo_v0 (Some demo_capsule)) [(True, 0, [], []), (False, 1, [], [])] = Inr (s', outs) \<and>
     ch_injected s' \<and> length (outs ! 1) = 1"
proof -
  let ?s = "new_capsule_hook Treatment demo_v0 (Some demo_capsule)" and ?qs = "[(True, 0, [], []), (False, 1, [], [])] :: (bool \<times> nat \<times> string \<times> chat) list"
  have "\<exists>s1 out. capsule_on_model_query demo_env ?s False 1 [] [] = Inr (s1, out)"
  proof (rule capsule_query_total)
    show "ce_builder demo_env (query_context ?s 1 [] []) = Inr demo_capsule" by (simp add: demo_env_def)
    show "evaluate_trigger (ch_protocol ?s) (ce_features demo_env (query_context ?s 1 [] [])) = Inr True"
      using demo_eval [of 3] by (simp add: demo_env_def new_capsule_hook_def)
    show "\<exists>t. message_prefix_hash (ce_loads demo_env) (ce_hash demo_env)
        (normalize_live_message_prefix [] @ (if b then [policy_turn ?s] else [])) = Inr t" for b
      by (simp add: message_prefix_hash_def canonical_message_def policy_turn_def field_or_null_def dict_get_def
          normalize_live_message_prefix_def)
  qed
  then obtain s' outs where run: "capsule_run demo_env ?s ?qs = Inr (s', outs)"
    by (auto simp: capsule_on_model_query_def [of _ _ True])
  have split: "?qs = [(True, 0, [], [])] @ (False, 1, [], []) # []" by simp
  from capsule_hook_once [OF run, THEN conjunct2, rule_format, of "[(True, 0, [], [])]" 1 "[]" "[]" "[]"] run
  show ?thesis using demo_eval [of 3] by (auto simp: Let_def demo_env_def normalize_live_message_prefix_def)
qed

end
