(* ===== verification/Paired_Fork.thy ===== *)
theory Paired_Fork
  imports Hybrid_Runner
begin

text \<open>
  The dry run of a paired fork, \<open>packages/clinic/src/wutai_clinic/intervention/paired_fork.py\<close>: two arms replay the
  same prefix through the hybrid model, materialise a capsule at the first generated query, and are compared. The
  delegate is the static model of the source; the hash of a placeholder text is \<open>stable_json_hash\<close>. Writing the
  package's files is not modelled. \<open>rp\<close> is \<open>repr\<close> on containers, \<open>loads\<close> is \<open>json.loads\<close>, \<open>h\<close> SHA-256.
\<close>

section \<open>Model\<close>

definition FORK_VERSION :: string where "FORK_VERSION = ''phase4_task7_paired_fork_dry_run_v1''"
definition FORK_DEFAULT_TASK_ID :: string where "FORK_DEFAULT_TASK_ID = ''phase4_task7_mock_capsule_equivalent_fork''"
definition FORK_CLAIM_BOUNDARY :: string where
  "FORK_CLAIM_BOUNDARY = ''This dry-run package validates capsule-equivalent sequential replay fork wiring only. '' @
     ''It does not start Docker, call an external provider, run official eval, or create a '' @
     ''generalized causal-uplift claim.''"

text \<open>The static delegate: its message, and the histories it was called with.\<close>

definition static_delegate :: "string \<Rightarrow> chat list \<Rightarrow> chat \<Rightarrow> pyexn + json \<times> chat list" where
  "static_delegate message calls history = Inr (JObj [(''message'', JStr message)], calls @ [history])"

definition default_protocol :: "(json \<Rightarrow> string) \<Rightarrow> pyexn + protocol_v0" where
  "default_protocol rp = protocol_v0_from_dict rp (JObj
     [(''trigger'', JObj [(''type'', JStr ''live_feature''), (''predicate'', JStr ''error_streak >= 3'')]),
      (''action'', JObj [(''type'', JStr ''inject_system_prompt''), (''message_id'', JStr ''break_recurrence_and_replan'')]),
      (''guard'', JObj [(''debounce'', JStr ''once_per_pair''), (''raw_payload_logging'', JBool False)]),
      (''claim'', JObj [(''allowed'', JStr ''bounded_next_step_control'')])])"

definition default_replay_actions :: "json list" where
  "default_replay_actions = [JObj [(''message'', JStr ''phase4_task7_replay_action_placeholder_no_raw_payload'')]]"

definition default_generation_messages :: chat where
  "default_generation_messages =
     [[(''role'', JStr ''user''), (''content'', JStr ''phase4_task7_task_placeholder_no_raw_payload'')],
      [(''role'', JStr ''assistant''), (''content'', JStr ''phase4_task7_replay_action_placeholder_no_raw_payload'')],
      [(''role'', JStr ''tool''), (''content'', JStr ''phase4_task7_observation_placeholder_no_raw_payload'')]]"

definition default_capsule_payload :: "(string \<Rightarrow> json option) \<Rightarrow> (string \<Rightarrow> string) \<Rightarrow> chat \<Rightarrow> pyexn + json pydict" where
  "default_capsule_payload loads h messages =
     (let mock = (\<lambda>s. JStr (stable_json_hash h (JStr s))) in
      and_then (message_prefix_hash loads h messages) (\<lambda>prefix.
      Inr [(''task_id'', JStr FORK_DEFAULT_TASK_ID),
        (''repo_hash'', mock ''mock_repo_hash''),
        (''agent_config_hash'', mock ''mock_agent_config''),
        (''provider_config_hash'', mock ''mock_provider_config''),
        (''message_prefix_hash'', JStr prefix),
        (''working_tree_diff_hash'', mock ''mock_working_tree_diff''),
        (''observation_window_hash'', mock ''mock_observation_window''),
        (''model_request_hash'', mock ''mock_model_request''),
        (''runner_config_hash'', mock ''mock_runner_config''),
        (''deployment_hash'', mock ''mock_deployment''),
        (''replay_config_hash'', mock ''mock_replay_config''),
        (''runtime_nondeterminism_policy'', JStr ''mock_single_worker_temperature_zero_no_docker'')]))"

definition fork_capsule_builder ::
    "(json \<Rightarrow> string) \<Rightarrow> (string \<Rightarrow> json option) \<Rightarrow> (string \<Rightarrow> string) \<Rightarrow> json pydict \<Rightarrow> json pydict \<Rightarrow>
     capsule_context \<Rightarrow> pyexn + state_capsule" where
  "fork_capsule_builder rp loads h base overrides context =
     and_then (message_prefix_hash loads h (cx_messages context)) (\<lambda>prefix.
     state_capsule_from_dict rp
       (dict_set ''metadata'' (JObj
          [(''arm_type'', JStr (arm_name (cx_arm context))), (''agent_name'', JStr (cx_agent_name context)),
           (''query_index'', JInt (int (cx_query_index context))), (''dry_run'', JBool True)])
         (dict_set ''message_prefix_hash'' (JStr prefix) (dict_update base overrides))))"

record fork_arm_result =
  fa_arm :: arm_type
  fa_capsule :: state_capsule
  fa_model_events :: "json pydict list"
  fa_hook_events :: "json pydict list"
  fa_output :: json
  fa_delegate_calls :: nat

definition arm_injection_count :: "fork_arm_result \<Rightarrow> nat" where
  "arm_injection_count r = length (filter (\<lambda>e. field_bool e ''injected'' True) (fa_hook_events r))"

definition arm_trigger_hit :: "fork_arm_result \<Rightarrow> bool" where
  "arm_trigger_hit r \<longleftrightarrow> list_ex (\<lambda>e. field_bool e ''trigger_hit'' True) (fa_hook_events r)"

definition event_row :: "arm_type \<Rightarrow> string \<Rightarrow> json pydict \<Rightarrow> json pydict" where
  "event_row arm ty e = dict_update [(''arm_type'', JStr (arm_name arm)), (''event_type'', JStr ty)] e"

text \<open>The replayed queries of an arm: hook and model see the same empty history.\<close>

fun replay_queries ::
    "capsule_env \<Rightarrow> (string \<Rightarrow> string) \<Rightarrow> string \<Rightarrow> string \<Rightarrow> nat \<Rightarrow> capsule_hook \<Rightarrow> hybrid_model \<Rightarrow> chat list \<Rightarrow> chat \<Rightarrow>
     pyexn + capsule_hook \<times> hybrid_model \<times> chat list" where
  "replay_queries env h message agent 0 s m calls history = Inr (s, m, calls)"
| "replay_queries env h message agent (Suc n) s m calls history =
     and_then (capsule_on_model_query env s (in_replay m) (hm_query_count m) agent history) (\<lambda>(s', history').
     and_then (hybrid_query h (static_delegate message) m calls history') (\<lambda>(out, m', calls').
     replay_queries env h message agent n s' m' calls' history'))"

definition run_arm ::
    "(json \<Rightarrow> string) \<Rightarrow> (string \<Rightarrow> json option) \<Rightarrow> (string \<Rightarrow> string) \<Rightarrow> arm_type \<Rightarrow> protocol_v0 \<Rightarrow> json list \<Rightarrow> chat \<Rightarrow>
     feature_val pydict \<Rightarrow> state_capsule option \<Rightarrow> json pydict \<Rightarrow> pyexn + fork_arm_result" where
  "run_arm rp loads h arm p actions messages features reference overrides =
     (let reply = ''phase4_task7_'' @ arm_name arm @ ''_generation_placeholder''; agent = arm_name arm @ ''_arm'' in
      and_then (new_hybrid_model actions None) (\<lambda>m.
      and_then (default_capsule_payload loads h messages) (\<lambda>payload.
      let env = \<lparr>ce_builder = fork_capsule_builder rp loads h payload overrides, ce_features = (\<lambda>_. features),
            ce_loads = loads, ce_hash = h\<rparr> in
      and_then (replay_queries env h reply agent (length actions) (new_capsule_hook arm p reference) m [] []) (\<lambda>(s1, m1, calls1).
      and_then (capsule_on_model_query env s1 (in_replay m1) (hm_query_count m1) agent messages) (\<lambda>(s2, live).
      and_then (hybrid_query h (static_delegate reply) m1 calls1 live) (\<lambda>(out, m2, calls2).
      (case ch_capsule s2 of
         None \<Rightarrow> Inl (RuntimeErr ''capsule was not materialized at first generation query'')
       | Some capsule \<Rightarrow>
           Inr \<lparr>fa_arm = arm, fa_capsule = capsule,
             fa_model_events = map (event_row arm ''model_query'' \<circ> query_event_row) (hm_events m2),
             fa_hook_events = map (event_row arm ''capsule_hook'' \<circ> injection_event_row) (ch_audit s2),
             fa_output = out, fa_delegate_calls = length calls2\<rparr>)))))))"

definition fork_decision :: "bool pydict \<Rightarrow> string \<Rightarrow> string" where
  "fork_decision gates lbl =
     (if \<not> list_all snd gates then ''paired_fork_dry_run_blocked''
      else if lbl = ''pending_or_incomplete'' then ''paired_fork_dry_run_ready_no_official_eval''
      else ''paired_fork_dry_run_mock_outcome_label_ready'')"

definition fork_gates :: "fork_arm_result \<Rightarrow> fork_arm_result \<Rightarrow> fork_report \<Rightarrow> bool pydict" where
  "fork_gates control treatment fork =
     (let events = fa_model_events control @ fa_hook_events control @ fa_model_events treatment @ fa_hook_events treatment in
      [(''protocol_v0_valid'', True),
       (''control_capsule_materialized'', True),
       (''treatment_capsule_materialized'', True),
       (''fork_equivalence_passed'', fk_passed fork),
       (''treatment_injection_count_at_most_one'', arm_injection_count treatment \<le> 1),
       (''treatment_trigger_hit'', arm_trigger_hit treatment),
       (''control_not_injected'', arm_injection_count control = 0),
       (''raw_payload_not_logged'', list_all (\<lambda>e. \<not> field_bool e ''raw_payload_logged'' True) events),
       (''external_provider_not_called'', True),
       (''docker_not_started'', True),
       (''official_eval_not_claimed'', True),
       (''generalized_uplift_claim_not_made'', True)])"

definition fork_json :: "fork_report \<Rightarrow> json" where
  "fork_json f = JObj [(''passed'', JBool (fk_passed f)), (''decision'', JStr (fk_decision f)),
     (''control_fingerprint'', JStr (fk_control_fingerprint f)), (''treatment_fingerprint'', JStr (fk_treatment_fingerprint f)),
     (''mismatched_fields'', str_list (fk_mismatched_fields f))]"

text \<open>The report of the dry run; an empty list of actions or messages, or no features, means the default.\<close>

definition or_default :: "'a list \<Rightarrow> 'a list \<Rightarrow> 'a list" where
  "or_default xs dflt = (if xs = [] then dflt else xs)"

definition run_paired_fork_dry_run ::
    "(json \<Rightarrow> string) \<Rightarrow> (string \<Rightarrow> json option) \<Rightarrow> (string \<Rightarrow> string) \<Rightarrow> string \<Rightarrow> protocol_v0 option \<Rightarrow> json list \<Rightarrow> chat \<Rightarrow>
     feature_val pydict \<Rightarrow> bool option \<Rightarrow> bool option \<Rightarrow> json pydict \<Rightarrow>
     pyexn + json pydict \<times> fork_arm_result \<times> fork_arm_result" where
  "run_paired_fork_dry_run rp loads h now protocol actions0 messages0 features0 cres tres overrides =
     and_then (case protocol of Some p \<Rightarrow> Inr p | None \<Rightarrow> default_protocol rp) (\<lambda>p.
     let actions = or_default actions0 default_replay_actions; messages = or_default messages0 default_generation_messages;
         features = or_default features0 [(''error_streak'', FInt 3)] in
     and_then (run_arm rp loads h Control p actions messages features None []) (\<lambda>control.
     and_then (run_arm rp loads h Treatment p actions messages features (Some (fa_capsule control)) overrides) (\<lambda>treatment.
     and_then (message_prefix_hash loads h messages) (\<lambda>prefix.
     let fork = verify_fork_equivalence h (fa_capsule control) (fa_capsule treatment);
         label = paired_replay_effect_label (fk_passed fork) (arm_trigger_hit treatment) (arm_injection_count treatment) cres tres;
         gates = fork_gates control treatment fork in
     Inr (generate_report now (Some ''4.task7.paired_fork_dry_run'') (Some (fork_decision gates label)) gates
       [(''version'', JStr FORK_VERSION),
        (''effect_label'', JStr label),
        (''claim_boundary'', JStr FORK_CLAIM_BOUNDARY),
        (''fork_equivalence'', fork_json fork),
        (''protocol_hash'', JStr (protocol_v0_hash h p)),
        (''control_capsule_fingerprint'', JStr (capsule_fingerprint h (fa_capsule control))),
        (''treatment_capsule_fingerprint'', JStr (capsule_fingerprint h (fa_capsule treatment))),
        (''control_generation_output_sha256'', JStr (stable_json_hash h (fa_output control))),
        (''treatment_generation_output_sha256'', JStr (stable_json_hash h (fa_output treatment))),
        (''control_delegate_call_count'', JInt (int (fa_delegate_calls control))),
        (''treatment_delegate_call_count'', JInt (int (fa_delegate_calls treatment))),
        (''mock_outcome_used'', JBool (cres \<noteq> None \<or> tres \<noteq> None)),
        (''replay_action_count'', JInt (int (length actions))),
        (''generation_message_prefix_hash'', JStr prefix)] None, control, treatment)))))"

section \<open>One arm\<close>

lemma replay_queries_inert:
  assumes "replay_queries env h message agent n s m calls history = Inr (s', m', calls')"
    "hm_query_count m + n \<le> hm_until m"
  shows "s' = s \<and> calls' = calls \<and> hm_query_count m' = hm_query_count m + n \<and> hm_until m' = hm_until m \<and>
    length (hm_events m') = length (hm_events m) + n"
  using assms
proof (induction n arbitrary: s m calls history)
  case (Suc n)
  then have replay: "in_replay m" by (simp add: in_replay_def)
  with Suc.prems(1) obtain out where
    "replay_queries env h message agent n s (record_query h m False out) calls history = Inr (s', m', calls')"
    by (auto simp: capsule_on_model_query_def hybrid_query_def Let_def)
  with Suc.IH [OF this] Suc.prems(2) show ?case by (simp add: record_query_def)
qed simp

text \<open>The event of an arm as the report reads it.\<close>

lemma hook_row_fields:
  "field_bool (event_row arm ty (injection_event_row e)) ''injected'' True \<longleftrightarrow> ie_injected e"
  "field_bool (event_row arm ty (injection_event_row e)) ''trigger_hit'' True \<longleftrightarrow> ie_trigger_hit e"
  "\<not> field_bool (event_row arm ty (injection_event_row e)) ''raw_payload_logged'' True"
  by (simp_all add: field_bool_def event_row_def injection_event_row_def dict_update_def)

lemma model_row_fields: "\<not> field_bool (event_row arm ty (query_event_row e)) ''raw_payload_logged'' True"
  by (simp add: field_bool_def event_row_def query_event_row_def dict_update_def) (simp add: dict_get_def)

lemma run_arm_facts:
  assumes "run_arm rp loads h arm p actions messages features reference overrides = Inr res"
  obtains event hit where "fa_hook_events res = [event_row arm ''capsule_hook'' (injection_event_row event)]"
    "evaluate_trigger p features = Inr hit" "ie_trigger_hit event = hit"
    "ie_injected event \<longleftrightarrow> arm = Treatment \<and> hit \<and>
       (\<forall>ref. reference = Some ref \<longrightarrow> fingerprint_payload ref = fingerprint_payload (fa_capsule res))"
    "fa_delegate_calls res = 1" "length (fa_model_events res) = Suc (length actions)"
    "\<forall>e \<in> set (fa_model_events res). \<not> field_bool e ''raw_payload_logged'' True"
proof -
  let ?reply = "''phase4_task7_'' @ arm_name arm @ ''_generation_placeholder''" and ?agent = "arm_name arm @ ''_arm''"
  let ?env = "\<lambda>payload. \<lparr>ce_builder = fork_capsule_builder rp loads h payload overrides, ce_features = (\<lambda>_. features),
            ce_loads = loads, ce_hash = h\<rparr>"
  let ?s = "new_capsule_hook arm p reference"
  from assms obtain m payload s1 m1 calls1 s2 live out m2 calls2 capsule where m: "new_hybrid_model actions None = Inr m"
    and replay: "replay_queries (?env payload) h ?reply ?agent (length actions) ?s m [] [] = Inr (s1, m1, calls1)"
    and live: "capsule_on_model_query (?env payload) s1 (in_replay m1) (hm_query_count m1) ?agent messages = Inr (s2, live)"
    and gen: "hybrid_query h (static_delegate ?reply) m1 calls1 live = Inr (out, m2, calls2)"
    and cap: "ch_capsule s2 = Some capsule"
    and res: "res = \<lparr>fa_arm = arm, fa_capsule = capsule,
             fa_model_events = map (event_row arm ''model_query'' \<circ> query_event_row) (hm_events m2),
             fa_hook_events = map (event_row arm ''capsule_hook'' \<circ> injection_event_row) (ch_audit s2),
             fa_output = out, fa_delegate_calls = length calls2\<rparr>"
    unfolding run_arm_def Let_def by (elim and_then_InrE) (auto elim!: and_then_InrE split: option.splits)
  note facts = new_hybrid_facts [OF m]
  have "hm_until m = length actions" using facts(5) by simp
  with replay_queries_inert [OF replay] facts have inert: "s1 = ?s" "calls1 = []" "hm_query_count m1 = length actions"
    "hm_until m1 = length actions" "length (hm_events m1) = length actions" by simp_all
  then have "\<not> in_replay m1" by (simp add: in_replay_def)
  with gen inert have m2: "m2 = record_query h m1 True out" "calls2 = [live]"
    by (auto simp: hybrid_query_def static_delegate_def)
  have none: "ch_capsule ?s = None" by (simp add: new_capsule_hook_def)
  from live \<open>\<not> in_replay m1\<close> have live': "capsule_on_model_query (?env payload) ?s False (hm_query_count m1) ?agent messages = Inr (s2, live)"
    by (simp add: inert)
  obtain capsule' hit event where e: "evaluate_trigger (ch_protocol ?s) (ce_features (?env payload)
      (query_context ?s (hm_query_count m1) ?agent messages)) = Inr hit"
    "ie_injected event \<longleftrightarrow> capsule_injects ?s (fork_equivalence (ce_hash (?env payload)) (ch_reference ?s) capsule') hit"
    "ie_trigger_hit event = hit" "ch_capsule s2 = Some capsule'" "ch_audit s2 = ch_audit ?s @ [event]"
    by (rule capsule_first [OF live' none])
  show ?thesis
  proof (rule that [of event hit])
    show "fa_hook_events res = [event_row arm ''capsule_hook'' (injection_event_row event)]"
      by (simp add: res e(5)) (simp add: new_capsule_hook_def)
    show "evaluate_trigger p features = Inr hit" using e(1) by (simp add: new_capsule_hook_def)
    show "ie_injected event \<longleftrightarrow> arm = Treatment \<and> hit \<and>
       (\<forall>ref. reference = Some ref \<longrightarrow> fingerprint_payload ref = fingerprint_payload (fa_capsule res))"
      using cap e(4) by (auto simp: e(2) res capsule_injects_def new_capsule_hook_def fork_equivalence_def fork_passed_iff split: option.splits)
    show "fa_delegate_calls res = 1" by (simp add: res m2)
    show "length (fa_model_events res) = Suc (length actions)" by (simp add: res m2 record_query_def inert)
    show "\<forall>e \<in> set (fa_model_events res). \<not> field_bool e ''raw_payload_logged'' True" by (auto simp: res model_row_fields)
  qed (rule e(3))
qed

section \<open>The pair\<close>

text \<open>
  C39: the dry run of a paired fork is ready exactly when the fork is sound. If it returns: each arm called the live
  model once, after replaying every action; the control arm was never injected, the treatment arm at most once and
  exactly when the two capsules agree in all fingerprint fields and the trigger fires on the features; the report
  passes, and its decision is not the blocked one, under exactly that condition, and its effect label is one that
  counts as main treatment exactly when, besides, both outcomes are given.
\<close>

theorem paired_fork_ready_iff:
  assumes "run_paired_fork_dry_run rp loads h now (Some p) actions messages features cres tres overrides = Inr (r, control, treatment)"
  shows "let agree = (fingerprint_payload (fa_capsule control) = fingerprint_payload (fa_capsule treatment));
      fires = (evaluate_trigger p (or_default features [(''error_streak'', FInt 3)]) = Inr True) in
    fa_delegate_calls control = 1 \<and> fa_delegate_calls treatment = 1 \<and>
    length (fa_model_events treatment) = Suc (length (or_default actions default_replay_actions)) \<and>
    arm_injection_count control = 0 \<and> arm_injection_count treatment = (if agree \<and> fires then 1 else 0) \<and>
    dict_get r ''passed'' = Some (JBool (agree \<and> fires)) \<and>
    (dict_get r ''decision'' = Some (JStr ''paired_fork_dry_run_blocked'') \<longleftrightarrow> \<not> (agree \<and> fires)) \<and>
    (\<exists>lbl. dict_get r ''effect_label'' = Some (JStr lbl) \<and>
      (lbl \<in> set MAIN_LABELS \<longleftrightarrow> agree \<and> fires \<and> cres \<noteq> None \<and> tres \<noteq> None))"
proof -
  let ?acts = "or_default actions default_replay_actions" and ?feats = "or_default features [(''error_streak'', FInt 3)]"
  let ?msgs = "or_default messages default_generation_messages"
  let ?fork = "verify_fork_equivalence h (fa_capsule control) (fa_capsule treatment)"
  let ?lbl = "paired_replay_effect_label (fk_passed ?fork) (arm_trigger_hit treatment) (arm_injection_count treatment) cres tres"
  let ?gates = "fork_gates control treatment ?fork"
  from assms obtain extras where c: "run_arm rp loads h Control p ?acts ?msgs ?feats None [] = Inr control"
    and t: "run_arm rp loads h Treatment p ?acts ?msgs ?feats (Some (fa_capsule control)) overrides = Inr treatment"
    and r: "r = generate_report now (Some ''4.task7.paired_fork_dry_run'') (Some (fork_decision ?gates ?lbl)) ?gates
      ((''version'', JStr FORK_VERSION) # (''effect_label'', JStr ?lbl) # extras) None"
    and x: "\<forall>k \<in> fst ` set extras. k \<notin> {''decision'', ''gates'', ''passed'', ''blocking_failures'', ''version'', ''effect_label''}"
      "distinct (map fst extras)"
    unfolding run_paired_fork_dry_run_def Let_def by (elim and_then_InrE) (fastforce elim!: and_then_InrE)
  obtain ec hit where ec: "fa_hook_events control = [event_row Control ''capsule_hook'' (injection_event_row ec)]"
    "evaluate_trigger p ?feats = Inr hit" "\<not> ie_injected ec" "fa_delegate_calls control = 1"
    "\<forall>e \<in> set (fa_model_events control). \<not> field_bool e ''raw_payload_logged'' True"
    by (rule run_arm_facts [OF c]) auto
  obtain et hit' where et: "fa_hook_events treatment = [event_row Treatment ''capsule_hook'' (injection_event_row et)]"
    "evaluate_trigger p ?feats = Inr hit'" "ie_trigger_hit et = hit'"
    "ie_injected et \<longleftrightarrow> hit' \<and> fingerprint_payload (fa_capsule control) = fingerprint_payload (fa_capsule treatment)"
    "fa_delegate_calls treatment = 1" "length (fa_model_events treatment) = Suc (length ?acts)"
    "\<forall>e \<in> set (fa_model_events treatment). \<not> field_bool e ''raw_payload_logged'' True"
    by (rule run_arm_facts [OF t]) auto
  define ready where "ready \<longleftrightarrow> fingerprint_payload (fa_capsule control) = fingerprint_payload (fa_capsule treatment) \<and> hit'"
  have counts: "arm_injection_count control = 0" "arm_injection_count treatment = (if ready then 1 else 0)"
    "arm_trigger_hit treatment \<longleftrightarrow> hit'"
    using ec et by (auto simp: arm_injection_count_def arm_trigger_hit_def hook_row_fields ready_def)
  have gates: "list_all snd ?gates \<longleftrightarrow> ready"
    unfolding fork_gates_def Let_def fork_passed_iff counts
    using ec et by (auto simp: ready_def list_all_iff hook_row_fields)
  have decision: "fork_decision ?gates ?lbl = ''paired_fork_dry_run_blocked'' \<longleftrightarrow> \<not> ready"
    by (simp add: fork_decision_def gates)
  have passed: "(\<forall>g \<in> set ?gates. snd g) \<longleftrightarrow> ready" using gates by (simp add: list_all_iff)
  have lbl: "?lbl \<in> set MAIN_LABELS \<longleftrightarrow> ready \<and> cres \<noteq> None \<and> tres \<noteq> None"
    by (auto simp: label_main_iff fork_passed_iff counts ready_def)
  have std: "\<forall>k \<in> fst ` set ((''version'', JStr FORK_VERSION) # (''effect_label'', JStr ?lbl) # extras).
      k \<notin> {''decision'', ''gates'', ''passed'', ''blocking_failures''}" using x(1) by auto
  have "distinct (map fst ((''version'', JStr FORK_VERSION) # (''effect_label'', JStr ?lbl) # extras))"
    using x by (force simp: image_iff)
  then have label_field: "dict_get r ''effect_label'' = Some (JStr ?lbl)" unfolding r by (rule report_extra) simp
  have fires: "evaluate_trigger p ?feats = Inr True \<longleftrightarrow> hit'" using et(2) by simp
  have fields: "dict_get r ''decision'' = Some (JStr (fork_decision ?gates ?lbl))" "dict_get r ''passed'' = Some (JBool ready)"
    unfolding r passed [symmetric] by (rule report_fields [OF std])+
  show ?thesis
    unfolding Let_def fires ready_def [symmetric] fields label_field
    using decision lbl lbl [unfolded ready_def] counts(1,2) ec(4) et(5,6) by (intro conjI exI [of _ ?lbl]) simp_all
qed

definition plain_turn :: chat where
  "plain_turn = [[(''role'', JStr ''user'')]]"

definition const_hash :: "string \<Rightarrow> string" where
  "const_hash s = ''x''"

lemma plain_hash:
  "message_prefix_hash loads const_hash plain_turn = Inr ''x''"
  "message_prefix_hash loads const_hash (normalize_live_message_prefix plain_turn @ (if b then [policy_turn s] else [])) = Inr ''x''"
  "message_prefix_hash loads const_hash (normalize_live_message_prefix plain_turn) = Inr ''x''"
  by (simp_all add: plain_turn_def normalize_live_message_prefix_def message_prefix_hash_def canonical_message_def policy_turn_def
      field_or_null_def dict_get_def stable_json_hash_def const_hash_def)

lemma capsule_from_filled:
  assumes "\<forall>k \<in> set CAPSULE_FINGERPRINT_FIELDS. json_truthy (field_or_null data k)"
    "field_or_null data ''metadata'' = JObj md"
  shows "\<exists>c. state_capsule_from_dict rp data = Inr c"
proof -
  have "filter (\<lambda>k. \<not> json_truthy (field_or_null data k)) CAPSULE_FINGERPRINT_FIELDS = []" using assms(1) by (simp add: filter_empty_conv)
  moreover have "update_arg (JObj md) = Inr md" by (cases md) (simp_all add: update_arg_def json_or_def)
  ultimately show ?thesis using assms(2) by (simp add: state_capsule_from_dict_def Let_def)
qed

lemma field_or_null_set: "field_or_null (dict_set k v d) j = (if j = k then v else field_or_null d j)"
  by (simp add: field_or_null_def)

lemma plain_payload:
  "default_capsule_payload loads const_hash plain_turn = Inr payload \<Longrightarrow>
     \<forall>k \<in> set CAPSULE_FINGERPRINT_FIELDS. json_truthy (field_or_null payload k)"
  by (auto simp: default_capsule_payload_def plain_hash Let_def CAPSULE_FINGERPRINT_FIELDS_def field_or_null_def
      dict_get_def stable_json_hash_def const_hash_def FORK_DEFAULT_TASK_ID_def)

lemma plain_capsule:
  assumes "default_capsule_payload loads const_hash plain_turn = Inr payload" "cx_messages context = normalize_live_message_prefix plain_turn"
  shows "\<exists>c. fork_capsule_builder rp loads const_hash payload [] context = Inr c"
proof -
  have "\<forall>k \<in> set CAPSULE_FINGERPRINT_FIELDS. k \<noteq> ''metadata''" by (simp add: CAPSULE_FINGERPRINT_FIELDS_def)
  then show ?thesis
    unfolding fork_capsule_builder_def assms(2) plain_hash and_then.simps dict_update_def foldl.simps
    by (intro capsule_from_filled) (use plain_payload [OF assms(1)] in \<open>auto simp: field_or_null_set\<close>)
qed

lemma plain_arm: "\<exists>res. run_arm rp loads const_hash arm demo_v0 [JStr ''a''] plain_turn [(''n'', FInt 3)] reference [] = Inr res"
proof -
  obtain payload where payload: "default_capsule_payload loads const_hash plain_turn = Inr payload"
    by (simp add: default_capsule_payload_def plain_hash)
  let ?s = "new_capsule_hook arm demo_v0 reference" and ?agent = "arm_name arm @ ''_arm''"
  let ?env = "\<lparr>ce_builder = fork_capsule_builder rp loads const_hash payload [], ce_features = (\<lambda>_. [(''n'', FInt 3)]),
            ce_loads = loads, ce_hash = const_hash\<rparr>"
  have messages: "cx_messages (query_context ?s 1 ?agent plain_turn) = normalize_live_message_prefix plain_turn"
    by (simp add: query_context_def)
  from plain_capsule [OF payload messages, of rp] obtain c where c: "fork_capsule_builder rp loads const_hash payload [] (query_context ?s 1 ?agent plain_turn) = Inr c"
    by blast
  have "\<exists>s' out. capsule_on_model_query ?env ?s False 1 ?agent plain_turn = Inr (s', out)"
    by (rule capsule_query_total [where capsule = c and hit = True])
      (use c demo_eval [of 3] plain_hash(2) in \<open>simp_all add: new_capsule_hook_def\<close>)
  then obtain s' out where q: "capsule_on_model_query ?env ?s False 1 ?agent plain_turn = Inr (s', out)" by blast
  have none: "ch_capsule ?s = None" by (simp add: new_capsule_hook_def)
  obtain c' where "ch_capsule s' = Some c'" by (rule capsule_first [OF q none])
  with q payload show ?thesis
    by (simp add: run_arm_def Let_def new_hybrid_model_def normalize_model_output_def capsule_on_model_query_def [of _ _ True]
        hybrid_query_def in_replay_def record_query_def static_delegate_def)
qed

theorem paired_fork_ready_iff_witness:
  "\<exists>r control treatment. run_paired_fork_dry_run (\<lambda>_. '''') (\<lambda>_. None) const_hash '''' (Some demo_v0) [JStr ''a''] plain_turn
      [(''n'', FInt 3)] None None [] = Inr (r, control, treatment) \<and> arm_injection_count control = 0"
proof -
  let ?arm = "\<lambda>arm reference. run_arm (\<lambda>_. '''') (\<lambda>_. None) const_hash arm demo_v0 [JStr ''a''] plain_turn [(''n'', FInt 3)] reference []"
  obtain control where "?arm Control None = Inr control" using plain_arm by blast
  moreover obtain treatment where "?arm Treatment (Some (fa_capsule control)) = Inr treatment" using plain_arm by blast
  moreover have "plain_turn \<noteq> []" by (simp add: plain_turn_def)
  ultimately obtain r where r: "run_paired_fork_dry_run (\<lambda>_. '''') (\<lambda>_. None) const_hash '''' (Some demo_v0) [JStr ''a''] plain_turn
      [(''n'', FInt 3)] None None [] = Inr (r, control, treatment)"
    by (simp add: run_paired_fork_dry_run_def or_default_def plain_hash Let_def)
  with paired_fork_ready_iff [OF r] show ?thesis unfolding Let_def by blast
qed

end
