(* ===== verification/Batch_Outcomes.thy ===== *)
theory Batch_Outcomes
  imports Pair_Attribution
begin

text \<open>
  The outcome report of a version 2 batch, \<open>packages/clinic/src/wutai_clinic/intervention/protocol_v2_batch_outcomes.py\<close>:
  scorecards become rows of a stratum (strictly fresh, reference, and the older protocols beside them), rows are
  counted, and gates, decision and continuation policy are derived. A scorecard file is the dictionary it parses to;
  finding the files, hashing and writing artifacts are not modelled. \<open>rp\<close> is \<open>repr\<close> on containers.
\<close>

section \<open>Model\<close>

definition V2_POSITIVE_LABEL :: string where
  "V2_POSITIVE_LABEL = ''intervention_only_resolved_trigger_hit_candidate''"

definition V2_NEGATIVE_LABEL :: string where
  "V2_NEGATIVE_LABEL = ''control_only_resolved_trigger_hit_negative_candidate''"

definition V2_NO_UPLIFT_LABELS :: "string list" where
  "V2_NO_UPLIFT_LABELS = [''both_unresolved_trigger_hit_pair_no_uplift'', ''both_resolved_trigger_hit_pair_no_uplift'']"

definition OUTCOMES_BOUNDARY :: string where
  "OUTCOMES_BOUNDARY = ''Protocol v2 batch outcomes aggregate outcome-backed pairs by protocol family. '' @
     ''Protocol v2 live-feature/hook evidence is not mixed with v1 replay-prefix or v0 '' @
     ''state-capsule evidence, and this report does not make a generalized uplift or '' @
     ''predictive EFE/STR claim.''"

text \<open>\<open>_load_fresh_candidate_task_ids\<close> on the rows of the list, \<open>None\<close> when there is no list.\<close>

definition fresh_candidate_task_ids :: "(json \<Rightarrow> string) \<Rightarrow> json pydict list option \<Rightarrow> string list" where
  "fresh_candidate_task_ids rp list =
     (case list of
        None \<Rightarrow> []
      | Some rows \<Rightarrow> map (json_text rp) (filter json_truthy (map (\<lambda>row. field_or_null row ''source_task_id'') rows)))"

text \<open>\<open>str(row.get(k) or default)\<close>\<close>

definition text_or :: "(json \<Rightarrow> string) \<Rightarrow> json pydict \<Rightarrow> string \<Rightarrow> string \<Rightarrow> string" where
  "text_or rp row k dflt = json_text rp (json_or (field_or_null row k) (JStr dflt))"

definition trajectory_outcome_class :: "(json \<Rightarrow> string) \<Rightarrow> json pydict \<Rightarrow> string" where
  "trajectory_outcome_class rp row =
     (let label = text_or rp row ''effect_label'' '''' in
      if \<not> field_bool row ''official_eval_completed'' True then ''pending_official_eval''
      else if label = V2_POSITIVE_LABEL then ''outcome_uplift''
      else if label = V2_NEGATIVE_LABEL then ''outcome_regression''
      else if label \<in> set V2_NO_UPLIFT_LABELS then ''hook_no_behavior_shift_no_uplift''
      else ''unknown_outcome_label'')"

definition with_class :: "(json \<Rightarrow> string) \<Rightarrow> json pydict \<Rightarrow> json pydict" where
  "with_class rp row = row @ [(''trajectory_outcome_class'', JStr (trajectory_outcome_class rp row))]"

record scorecard_file =
  sf_path :: string
  sf_scorecard :: "json pydict"
  sf_official :: "(string \<times> json pydict) option"

definition normalize_protocol_v2_pair :: "(json \<Rightarrow> string) \<Rightarrow> string list \<Rightarrow> scorecard_file \<Rightarrow> json pydict" where
  "normalize_protocol_v2_pair rp fresh f =
     (let sc = sf_scorecard f; task = text_or rp sc ''source_task_id'' '''';
          lineage = (if task \<in> set fresh then ''v2_strict_fresh'' else ''v2_reference'')
      in with_class rp
        [(''protocol_family'', JStr ''protocol_v2_constraint_hook''),
         (''lineage'', JStr lineage),
         (''pair_id'', field_or_null sc ''pair_id''),
         (''source_task_id'', json_or (JStr task) JNull),
         (''effect_label'', field_or_null sc ''effect_label''),
         (''control_resolved'', field_or_null sc ''control_resolved''),
         (''treatment_resolved'', field_or_null sc ''treatment_resolved''),
         (''official_eval_completed'', JBool (field_bool sc ''official_eval_completed'' True)),
         (''outcome_source'', field_or_null sc ''outcome_source''),
         (''single_pair_only'', field_or_null sc ''single_pair_only''),
         (''state_capsule_equivalence_claimed'', field_or_null sc ''state_capsule_equivalence_claimed''),
         (''behavior_control_type'', field_or_null sc ''behavior_control_type''),
         (''scorecard_path'', JStr (sf_path f)),
         (''official_report_path'', (case sf_official f of Some (path, _) \<Rightarrow> JStr path | None \<Rightarrow> JNull)),
         (''official_eval_decision'', (case sf_official f of Some (_, r) \<Rightarrow> field_or_null r ''decision'' | None \<Rightarrow> JNull))])"

definition treatment_resolved_of :: "json pydict \<Rightarrow> json" where
  "treatment_resolved_of sc =
     (if dict_get sc ''treatment_resolved'' \<noteq> None then field_or_null sc ''treatment_resolved''
      else field_or_null sc ''intervention_resolved'')"

definition normalize_v1_reference_pair :: "(json \<Rightarrow> string) \<Rightarrow> scorecard_file \<Rightarrow> json pydict" where
  "normalize_v1_reference_pair rp f =
     (let sc = sf_scorecard f in with_class rp
        [(''protocol_family'', JStr ''protocol_v1_constraint_hook''),
         (''lineage'', JStr ''v1_reference''),
         (''pair_id'', field_or_null sc ''pair_id''),
         (''source_task_id'', field_or_null sc ''source_task_id''),
         (''effect_label'', field_or_null sc ''effect_label''),
         (''control_resolved'', field_or_null sc ''control_resolved''),
         (''treatment_resolved'', treatment_resolved_of sc),
         (''official_eval_completed'', JBool (field_bool sc ''official_eval_completed'' True)),
         (''outcome_source'', field_or_null sc ''outcome_source''),
         (''state_capsule_equivalence_claimed'', field_or_null sc ''state_capsule_equivalence_claimed''),
         (''scorecard_path'', JStr (sf_path f))])"

definition normalize_v0_reference_pair :: "(json \<Rightarrow> string) \<Rightarrow> scorecard_file \<Rightarrow> json pydict" where
  "normalize_v0_reference_pair rp f =
     (let sc = sf_scorecard f in with_class rp
        [(''protocol_family'', JStr ''protocol_v0_state_capsule_reference''),
         (''lineage'', JStr ''v0_reference''),
         (''pair_id'', field_or_null sc ''pair_id''),
         (''source_task_id'', field_or_null sc ''source_task_id''),
         (''effect_label'', field_or_null sc ''effect_label''),
         (''control_resolved'', field_or_null sc ''control_resolved''),
         (''treatment_resolved'', treatment_resolved_of sc),
         (''official_eval_completed'', JBool (field_bool sc ''official_eval_completed'' True)),
         (''outcome_source'', field_or_null sc ''outcome_source''),
         (''intervention_injected_once'', field_or_null sc ''intervention_injected_once''),
         (''state_capsule_equivalent'', field_or_null sc ''state_capsule_equivalent''),
         (''scorecard_path'', JStr (sf_path f))])"

text \<open>\<open>dict(Counter(...))\<close>: counts in the order of first occurrence.\<close>

definition outcome_label_counts :: "(json \<Rightarrow> string) \<Rightarrow> json pydict list \<Rightarrow> nat pydict" where
  "outcome_label_counts rp rows = fold dict_incr (map (\<lambda>r. text_or rp r ''effect_label'' ''missing'') rows) []"

definition outcome_class_counts :: "(json \<Rightarrow> string) \<Rightarrow> json pydict list \<Rightarrow> nat pydict" where
  "outcome_class_counts rp rows = fold dict_incr (map (\<lambda>r. text_or rp r ''trajectory_outcome_class'' ''missing'') rows) []"

definition row_task_ids :: "json pydict list \<Rightarrow> json list" where
  "row_task_ids rows = filter json_truthy (map (\<lambda>r. field_or_null r ''source_task_id'') rows)"

definition rows_with :: "(json pydict \<Rightarrow> bool) \<Rightarrow> json pydict list \<Rightarrow> nat" where
  "rows_with P rows = length (filter P rows)"

definition is_uplift :: "json pydict \<Rightarrow> bool" where
  "is_uplift r \<longleftrightarrow> field_text r ''effect_label'' V2_POSITIVE_LABEL"

definition is_harm :: "json pydict \<Rightarrow> bool" where
  "is_harm r \<longleftrightarrow> field_text r ''effect_label'' V2_NEGATIVE_LABEL"

definition is_no_uplift :: "json pydict \<Rightarrow> bool" where
  "is_no_uplift r \<longleftrightarrow> list_ex (field_text r ''effect_label'') V2_NO_UPLIFT_LABELS"

record outcomes_summary =
  os_fresh :: nat
  os_fresh_completed :: nat
  os_fresh_uplift :: nat
  os_fresh_no_uplift :: nat
  os_fresh_harm :: nat
  os_reference :: nat
  os_reference_uplift :: nat
  os_reference_no_uplift :: nat
  os_reference_harm :: nat
  os_uplift :: nat
  os_harm :: nat
  os_total_v2 :: nat
  os_target :: int
  os_target_met :: bool
  os_degraded :: bool

text \<open>A label that cannot be looked up in a set (a list or a dictionary) raises.\<close>

definition label_hashable :: "json pydict \<Rightarrow> bool" where
  "label_hashable r \<longleftrightarrow> (case field_or_null r ''effect_label'' of JList _ \<Rightarrow> False | JObj _ \<Rightarrow> False | _ \<Rightarrow> True)"

definition batch_outcomes_summary ::
    "json pydict list \<Rightarrow> json pydict list \<Rightarrow> int \<Rightarrow> bool \<Rightarrow> pyexn + outcomes_summary" where
  "batch_outcomes_summary fresh reference target degraded =
     and_then (raise_if (\<not> list_all label_hashable (fresh @ reference)) (TypeErr ''unhashable type'')) (\<lambda>_.
     Inr \<lparr>os_fresh = length fresh,
       os_fresh_completed = rows_with (\<lambda>r. field_bool r ''official_eval_completed'' True) fresh,
       os_fresh_uplift = rows_with is_uplift fresh,
       os_fresh_no_uplift = rows_with is_no_uplift fresh,
       os_fresh_harm = rows_with is_harm fresh,
       os_reference = length reference,
       os_reference_uplift = rows_with is_uplift reference,
       os_reference_no_uplift = rows_with is_no_uplift reference,
       os_reference_harm = rows_with is_harm reference,
       os_uplift = rows_with is_uplift fresh + rows_with is_uplift reference,
       os_harm = rows_with is_harm fresh + rows_with is_harm reference,
       os_total_v2 = length (fresh @ reference),
       os_target = target,
       os_target_met = (target \<le> int (length fresh)),
       os_degraded = degraded\<rparr>)"

text \<open>The dictionary of the summary, with the label and class counts of every stratum.\<close>

definition tally_json :: "nat pydict \<Rightarrow> json" where
  "tally_json d = JObj (map (\<lambda>(k, n). (k, JInt (int n))) d)"

definition outcomes_summary_json ::
    "(json \<Rightarrow> string) \<Rightarrow> json pydict list \<Rightarrow> json pydict list \<Rightarrow> json pydict list \<Rightarrow> json pydict list \<Rightarrow>
     outcomes_summary \<Rightarrow> json pydict" where
  "outcomes_summary_json rp fresh reference v1 v0 s =
     (let num = (\<lambda>n. JInt (int n)) in
      [(''strict_fresh_pair_count'', num (os_fresh s)),
       (''strict_fresh_official_completed_count'', num (os_fresh_completed s)),
       (''strict_fresh_uplift_count'', num (os_fresh_uplift s)),
       (''strict_fresh_no_uplift_count'', num (os_fresh_no_uplift s)),
       (''strict_fresh_harm_count'', num (os_fresh_harm s)),
       (''strict_fresh_label_counts'', tally_json (outcome_label_counts rp fresh)),
       (''strict_fresh_trajectory_outcome_counts'', tally_json (outcome_class_counts rp fresh)),
       (''strict_fresh_source_task_ids'', JList (row_task_ids fresh)),
       (''reference_pair_count'', num (os_reference s)),
       (''reference_uplift_count'', num (os_reference_uplift s)),
       (''reference_no_uplift_count'', num (os_reference_no_uplift s)),
       (''reference_harm_count'', num (os_reference_harm s)),
       (''reference_label_counts'', tally_json (outcome_label_counts rp reference)),
       (''reference_trajectory_outcome_counts'', tally_json (outcome_class_counts rp reference)),
       (''reference_source_task_ids'', JList (row_task_ids reference)),
       (''v1_reference_pair_count'', num (length v1)),
       (''v1_reference_label_counts'', tally_json (outcome_label_counts rp v1)),
       (''v1_reference_trajectory_outcome_counts'', tally_json (outcome_class_counts rp v1)),
       (''v0_reference_pair_count'', num (length v0)),
       (''v0_reference_label_counts'', tally_json (outcome_label_counts rp v0)),
       (''v0_reference_trajectory_outcome_counts'', tally_json (outcome_class_counts rp v0)),
       (''uplift_pair_count'', num (os_uplift s)),
       (''harm_pair_count'', num (os_harm s)),
       (''total_v2_pair_count'', num (os_total_v2 s)),
       (''total_v2_label_counts'', tally_json (outcome_label_counts rp (fresh @ reference))),
       (''target_pair_count'', JInt (os_target s)),
       (''target_pair_count_met'', JBool (os_target_met s)),
       (''fresh_list_degraded'', JBool (os_degraded s))])"

definition outcomes_gates :: "json pydict list \<Rightarrow> json pydict list \<Rightarrow> outcomes_summary \<Rightarrow> bool pydict" where
  "outcomes_gates fresh reference s =
     (let rows = fresh @ reference in
      [(''protocol_v2_rows_present'', 0 < length rows),
       (''protocol_v2_official_eval_completed'', rows \<noteq> [] \<and> list_all (\<lambda>r. field_bool r ''official_eval_completed'' True) rows),
       (''protocol_v2_outcome_source_official_eval'', rows \<noteq> [] \<and> list_all (\<lambda>r. field_text r ''outcome_source'' ''official_eval'') rows),
       (''protocol_v2_state_capsule_equivalence_not_claimed'', rows \<noteq> [] \<and>
          list_all (\<lambda>r. field_bool r ''state_capsule_equivalence_claimed'' False) rows),
       (''stratifies_reference_separately'', True),
       (''claim_boundary_present'', OUTCOMES_BOUNDARY \<noteq> []),
       (''generalized_uplift_claim_not_made'', True),
       (''efe_str_predictive_claim_not_made'', True),
       (''full_unattended_run_not_authorized'', True),
       (''target_count_recorded'', 0 < os_target s),
       (''fresh_list_present'', \<not> os_degraded s)])"

definition hard_gates :: "bool pydict \<Rightarrow> bool pydict" where
  "hard_gates gates = filter (\<lambda>(k, b). k \<noteq> ''fresh_list_present'') gates"

definition outcomes_decision :: "outcomes_summary \<Rightarrow> bool pydict \<Rightarrow> string" where
  "outcomes_decision s gates =
     (if \<not> list_all snd (hard_gates gates) then ''protocol_v2_batch_outcomes_blocked''
      else if \<not> os_target_met s
      then (if os_fresh_no_uplift s = os_fresh s then ''protocol_v2_batch_outcomes_underpowered_no_uplift_observed''
            else ''protocol_v2_batch_outcomes_underpowered_continue_sampling'')
      else if os_uplift s < os_harm s then ''protocol_v2_batch_outcomes_negative_risk_review_required''
      else if os_uplift s = 0 then ''protocol_v2_batch_outcomes_no_uplift_needs_prescription_revision''
      else ''protocol_v2_batch_outcomes_ready_for_next_small_batch'')"

record outcomes_policy =
  op_continue :: bool
  op_power_analysis :: bool
  op_stability_claim :: bool
  op_same_pair :: bool
  op_generalized :: bool
  op_predictive :: bool
  op_unattended :: bool
  op_next_step :: string
  op_evidence_note :: string

definition outcomes_policy_of :: "outcomes_summary \<Rightarrow> bool pydict \<Rightarrow> outcomes_policy" where
  "outcomes_policy_of s gates =
     (let structural = list_all snd (hard_gates gates) in
      \<lparr>op_continue = (structural \<and> \<not> os_target_met s \<and> os_harm s = 0),
       op_power_analysis = (structural \<and> 0 < os_fresh s),
       op_stability_claim = False, op_same_pair = False, op_generalized = False, op_predictive = False, op_unattended = False,
       op_next_step =
         (if structural \<and> \<not> os_target_met s then ''run_remaining_protocol_v2_fresh_targets_before_any_stability_claim''
          else if structural \<and> os_uplift s = 0 then ''revise_protocol_v2_prescription_for_no_uplift_dynamics''
          else if \<not> structural then ''review_blocking_evidence_before_running_more_pairs''
          else ''expand_one_more_small_batch_after_trigger_policy_gate''),
       op_evidence_note = show_nat (os_fresh s) @ '' Protocol v2 strict-fresh pairs, '' @ show_nat (os_uplift s) @ '' uplift, '' @
         show_nat (os_fresh_no_uplift s) @ '' no-uplift, '' @ show_nat (os_harm s) @ '' harm; target='' @ show_int (os_target s) @ ''.''\<rparr>)"

definition outcomes_policy_json :: "outcomes_policy \<Rightarrow> json" where
  "outcomes_policy_json p = JObj
     [(''allow_continue_remaining_fresh_targets'', JBool (op_continue p)),
      (''allow_power_analysis_consuming_this_report'', JBool (op_power_analysis p)),
      (''allow_stability_claim'', JBool (op_stability_claim p)),
      (''allow_same_pair_positive_attribution'', JBool (op_same_pair p)),
      (''allow_generalized_uplift_claim'', JBool (op_generalized p)),
      (''allow_efe_str_predictive_claim'', JBool (op_predictive p)),
      (''allow_full_unattended_run'', JBool (op_unattended p)),
      (''recommended_next_step'', JStr (op_next_step p)),
      (''evidence_note'', JStr (op_evidence_note p))]"

definition batch_outcomes_report ::
    "(json \<Rightarrow> string) \<Rightarrow> string \<Rightarrow> json pydict list \<Rightarrow> json pydict list \<Rightarrow> json pydict list \<Rightarrow> json pydict list \<Rightarrow>
     int \<Rightarrow> bool \<Rightarrow> pyexn + json pydict" where
  "batch_outcomes_report rp now fresh reference v1 v0 target degraded =
     and_then (batch_outcomes_summary fresh reference target degraded) (\<lambda>s.
     let gates = outcomes_gates fresh reference s in
     Inr (generate_report now (Some ''6.protocol_v2_batch_outcomes'') (Some (outcomes_decision s gates)) gates
       [(''version'', JStr ''phase6_protocol_v2_batch_outcomes_v1''),
        (''claim_boundary'', JStr OUTCOMES_BOUNDARY),
        (''summary'', JObj (outcomes_summary_json rp fresh reference v1 v0 s)),
        (''continuation_policy'', outcomes_policy_json (outcomes_policy_of s gates))] None))"

record outcome_rows =
  or_fresh :: "json pydict list"
  or_reference :: "json pydict list"
  or_v1 :: "json pydict list"
  or_v0 :: "json pydict list"

text \<open>The strata of a root directory: every version 2 scorecard, and the older ones if they are included.\<close>

definition load_outcome_rows ::
    "(json \<Rightarrow> string) \<Rightarrow> json pydict list option \<Rightarrow> scorecard_file list \<Rightarrow> scorecard_file list \<Rightarrow> scorecard_file list \<Rightarrow>
     bool \<Rightarrow> bool \<Rightarrow> outcome_rows" where
  "load_outcome_rows rp fresh_list v2 v1 v0 with_v1 with_v0 =
     (let rows = map (normalize_protocol_v2_pair rp (fresh_candidate_task_ids rp fresh_list)) v2
      in \<lparr>or_fresh = filter (\<lambda>r. field_text r ''lineage'' ''v2_strict_fresh'') rows,
          or_reference = filter (\<lambda>r. field_text r ''lineage'' ''v2_reference'') rows,
          or_v1 = (if with_v1 then map (normalize_v1_reference_pair rp) v1 else []),
          or_v0 = (if with_v0 then map (normalize_v0_reference_pair rp) v0 else [])\<rparr>)"

text \<open>
  The evidence: the report over the strata, with the oracle probe rows listed beside the counts and in none of them.
\<close>

definition batch_outcomes_evidence ::
    "(json \<Rightarrow> string) \<Rightarrow> string \<Rightarrow> json pydict list option \<Rightarrow> scorecard_file list \<Rightarrow> scorecard_file list \<Rightarrow> scorecard_file list \<Rightarrow>
     json list \<Rightarrow> bool \<Rightarrow> bool \<Rightarrow> int \<Rightarrow> pyexn + json pydict \<times> outcome_rows" where
  "batch_outcomes_evidence rp now fresh_list v2 v1 v0 oracle_rows with_v1 with_v0 target =
     (let rows = load_outcome_rows rp fresh_list v2 v1 v0 with_v1 with_v0 in
      and_then (batch_outcomes_report rp now (or_fresh rows) (or_reference rows) (or_v1 rows) (or_v0 rows) target (fresh_list = None)) (\<lambda>report.
      let r1 = dict_set ''oracle_probe_rows_excluded'' (JList oracle_rows) report;
          summary = (case field_or_null report ''summary'' of JObj d \<Rightarrow> d | _ \<Rightarrow> [])
      in Inr (dict_set ''summary'' (JObj (dict_set ''oracle_probe_pair_count_excluded'' (JInt (int (length oracle_rows))) summary)) r1, rows)))"

section \<open>From scorecards to rows\<close>

lemma dict_get_normalized:
  "dict_get (normalize_protocol_v2_pair rp fresh f) ''effect_label'' = Some (field_or_null (sf_scorecard f) ''effect_label'')"
  "dict_get (normalize_protocol_v2_pair rp fresh f) ''official_eval_completed'' =
     Some (JBool (field_bool (sf_scorecard f) ''official_eval_completed'' True))"
  "dict_get (normalize_protocol_v2_pair rp fresh f) ''outcome_source'' = Some (field_or_null (sf_scorecard f) ''outcome_source'')"
  "dict_get (normalize_protocol_v2_pair rp fresh f) ''state_capsule_equivalence_claimed'' =
     Some (field_or_null (sf_scorecard f) ''state_capsule_equivalence_claimed'')"
  "dict_get (normalize_protocol_v2_pair rp fresh f) ''lineage'' =
     Some (JStr (if text_or rp (sf_scorecard f) ''source_task_id'' '''' \<in> set fresh then ''v2_strict_fresh'' else ''v2_reference''))"
  by (simp_all add: normalize_protocol_v2_pair_def with_class_def dict_get_def Let_def)

lemma field_or_null_text: "field_or_null d k = JStr s \<longleftrightarrow> dict_get d k = Some (JStr s)"
  by (auto simp: field_or_null_def split: option.splits)

lemma field_or_null_bool: "field_or_null d k = JBool b \<longleftrightarrow> dict_get d k = Some (JBool b)"
  by (auto simp: field_or_null_def split: option.splits)

lemma normalized_fields:
  "field_text (normalize_protocol_v2_pair rp fresh f) ''effect_label'' l \<longleftrightarrow> field_text (sf_scorecard f) ''effect_label'' l"
  "field_bool (normalize_protocol_v2_pair rp fresh f) ''official_eval_completed'' True \<longleftrightarrow>
     field_bool (sf_scorecard f) ''official_eval_completed'' True"
  "field_text (normalize_protocol_v2_pair rp fresh f) ''outcome_source'' s \<longleftrightarrow> field_text (sf_scorecard f) ''outcome_source'' s"
  "field_bool (normalize_protocol_v2_pair rp fresh f) ''state_capsule_equivalence_claimed'' b \<longleftrightarrow>
     field_bool (sf_scorecard f) ''state_capsule_equivalence_claimed'' b"
  by (simp_all add: field_text_def field_bool_def dict_get_normalized field_or_null_text field_or_null_bool)

definition fresh_file :: "(json \<Rightarrow> string) \<Rightarrow> string list \<Rightarrow> scorecard_file \<Rightarrow> bool" where
  "fresh_file rp fresh f \<longleftrightarrow> text_or rp (sf_scorecard f) ''source_task_id'' '''' \<in> set fresh"

lemma normalized_lineage:
  "field_text (normalize_protocol_v2_pair rp fresh f) ''lineage'' ''v2_strict_fresh'' \<longleftrightarrow> fresh_file rp fresh f"
  "field_text (normalize_protocol_v2_pair rp fresh f) ''lineage'' ''v2_reference'' \<longleftrightarrow> \<not> fresh_file rp fresh f"
  by (simp_all add: field_text_def dict_get_normalized fresh_file_def)

lemma loaded_strata:
  fixes rp fl v2
  defines "fresh \<equiv> fresh_candidate_task_ids rp fl"
  shows "or_fresh (load_outcome_rows rp fl v2 v1 v0 w1 w0) = map (normalize_protocol_v2_pair rp fresh) (filter (fresh_file rp fresh) v2)"
    "or_reference (load_outcome_rows rp fl v2 v1 v0 w1 w0) =
       map (normalize_protocol_v2_pair rp fresh) (filter (\<lambda>f. \<not> fresh_file rp fresh f) v2)"
  by (simp_all add: load_outcome_rows_def Let_def fresh_def filter_map comp_def normalized_lineage)

lemma count_split: "length (filter P (filter Q xs)) + length (filter P (filter (\<lambda>x. \<not> Q x) xs)) = length (filter P xs)"
  by (induction xs) auto

section \<open>What the decision means\<close>

definition sound_card :: "json pydict \<Rightarrow> bool" where
  "sound_card sc \<longleftrightarrow> field_bool sc ''official_eval_completed'' True \<and> field_text sc ''outcome_source'' ''official_eval'' \<and>
     field_bool sc ''state_capsule_equivalence_claimed'' False"

lemma hard_gates_iff:
  "list_all snd (hard_gates (outcomes_gates fresh reference s)) \<longleftrightarrow>
     fresh @ reference \<noteq> [] \<and> list_all sound_card (fresh @ reference) \<and> 0 < os_target s"
  by (auto simp: hard_gates_def outcomes_gates_def Let_def sound_card_def list_all_iff OUTCOMES_BOUNDARY_def)

lemma all_gates_iff:
  "(\<forall>g \<in> set (outcomes_gates fresh reference s). snd g) \<longleftrightarrow>
     list_all snd (hard_gates (outcomes_gates fresh reference s)) \<and> \<not> os_degraded s"
  by (simp add: hard_gates_def outcomes_gates_def Let_def)

lemma outcomes_report_unfold:
  assumes "batch_outcomes_report rp now fresh reference v1 v0 target degraded = Inr r"
  obtains s where "batch_outcomes_summary fresh reference target degraded = Inr s"
    "dict_get r ''decision'' = Some (JStr (outcomes_decision s (outcomes_gates fresh reference s)))"
    "dict_get r ''passed'' = Some (JBool (list_all snd (hard_gates (outcomes_gates fresh reference s)) \<and> \<not> os_degraded s))"
    "dict_get r ''summary'' = Some (JObj (outcomes_summary_json rp fresh reference v1 v0 s))"
    "dict_get r ''gates'' = Some (gates_json (outcomes_gates fresh reference s))"
proof -
  from assms obtain s where s: "batch_outcomes_summary fresh reference target degraded = Inr s"
    and r: "r = generate_report now (Some ''6.protocol_v2_batch_outcomes'') (Some (outcomes_decision s (outcomes_gates fresh reference s)))
      (outcomes_gates fresh reference s)
       [(''version'', JStr ''phase6_protocol_v2_batch_outcomes_v1''), (''claim_boundary'', JStr OUTCOMES_BOUNDARY),
        (''summary'', JObj (outcomes_summary_json rp fresh reference v1 v0 s)),
        (''continuation_policy'', outcomes_policy_json (outcomes_policy_of s (outcomes_gates fresh reference s)))] None"
    unfolding batch_outcomes_report_def Let_def by (elim and_then_InrE) auto
  have "dict_get r ''summary'' = Some (JObj (outcomes_summary_json rp fresh reference v1 v0 s))"
    by (simp add: r generate_report_def Let_def dict_update_def)
  moreover have "dict_get r ''gates'' = Some (gates_json (outcomes_gates fresh reference s))"
    unfolding r by (simp add: generate_report_def Let_def dict_update_def) (simp add: dict_get_def)
  ultimately show ?thesis
    by (intro that [OF s]) (simp_all add: r report_fields all_gates_iff)
qed

text \<open>
  The outcome decision of a batch follows its own scorecards. If the evidence is produced, every version 2
  scorecard is in exactly one stratum, by whether its task is in the fresh list; the decision is blocked exactly
  when there is no scorecard, one of them is not an official, unclaimed, completed evaluation, or the target is not
  positive; it is ready for another batch exactly when otherwise the fresh pairs reach the target, some pair
  shows uplift and harm does not exceed uplift, and negative exactly when harm exceeds uplift. Neither the older
  reference scorecards nor the oracle probes influence it, and without a fresh list the report does not pass.
\<close>

theorem outcomes_decision_iff:
  assumes "batch_outcomes_evidence rp now fl v2 v1 v0 oracle w1 w0 target = Inr (r, rows)"
  shows "let fresh = fresh_file rp (fresh_candidate_task_ids rp fl);
      sound = (v2 \<noteq> [] \<and> list_all (sound_card \<circ> sf_scorecard) v2 \<and> 0 < target);
      met = (target \<le> int (length (filter fresh v2)));
      uplift = length (filter (is_uplift \<circ> sf_scorecard) v2); harm = length (filter (is_harm \<circ> sf_scorecard) v2);
      decision = dict_get r ''decision'' in
    length (or_fresh rows) = length (filter fresh v2) \<and> length (or_fresh rows) + length (or_reference rows) = length v2 \<and>
    (decision = Some (JStr ''protocol_v2_batch_outcomes_blocked'') \<longleftrightarrow> \<not> sound) \<and>
    (decision = Some (JStr ''protocol_v2_batch_outcomes_negative_risk_review_required'') \<longleftrightarrow> sound \<and> met \<and> uplift < harm) \<and>
    (decision = Some (JStr ''protocol_v2_batch_outcomes_ready_for_next_small_batch'') \<longleftrightarrow>
       sound \<and> met \<and> harm \<le> uplift \<and> 0 < uplift) \<and>
    dict_get r ''passed'' = Some (JBool (sound \<and> fl \<noteq> None))"
proof -
  define fresh where "fresh = fresh_candidate_task_ids rp fl"
  let ?n = "normalize_protocol_v2_pair rp fresh"
  let ?F = "filter (fresh_file rp fresh) v2" and ?R = "filter (\<lambda>f. \<not> fresh_file rp fresh f) v2"
  from assms obtain r0 where r0: "batch_outcomes_report rp now (or_fresh rows) (or_reference rows) (or_v1 rows) (or_v0 rows) target (fl = None) = Inr r0"
    and rows: "rows = load_outcome_rows rp fl v2 v1 v0 w1 w0"
    and r: "dict_get r ''decision'' = dict_get r0 ''decision''" "dict_get r ''passed'' = dict_get r0 ''passed''"
    unfolding batch_outcomes_evidence_def Let_def by (elim and_then_InrE) auto
  have strata: "or_fresh rows = map ?n ?F" "or_reference rows = map ?n ?R"
    using loaded_strata [of rp fl v2 v1 v0 w1 w0] by (simp_all add: rows fresh_def)
  obtain s where s: "batch_outcomes_summary (or_fresh rows) (or_reference rows) target (fl = None) = Inr s"
    "dict_get r0 ''decision'' = Some (JStr (outcomes_decision s (outcomes_gates (or_fresh rows) (or_reference rows) s)))"
    "dict_get r0 ''passed'' = Some (JBool (list_all snd (hard_gates (outcomes_gates (or_fresh rows) (or_reference rows) s)) \<and> \<not> os_degraded s))"
    by (rule outcomes_report_unfold [OF r0])
  have card: "sound_card (?n f) \<longleftrightarrow> sound_card (sf_scorecard f)" "is_uplift (?n f) \<longleftrightarrow> is_uplift (sf_scorecard f)"
    "is_harm (?n f) \<longleftrightarrow> is_harm (sf_scorecard f)" for f
    by (simp_all add: sound_card_def is_uplift_def is_harm_def normalized_fields)
  have counts: "rows_with P (map ?n ?F) + rows_with P (map ?n ?R) = length (filter (Q \<circ> sf_scorecard) v2)"
    if "\<And>f. P (?n f) \<longleftrightarrow> Q (sf_scorecard f)" for P Q
    using count_split [of "Q \<circ> sf_scorecard" "fresh_file rp fresh" v2] that
    by (simp add: rows_with_def filter_map comp_def)
  have sum: "os_target s = target" "os_target_met s \<longleftrightarrow> target \<le> int (length ?F)" "os_degraded s \<longleftrightarrow> fl = None"
    "os_uplift s = length (filter (is_uplift \<circ> sf_scorecard) v2)" "os_harm s = length (filter (is_harm \<circ> sf_scorecard) v2)"
    using s(1) counts [of is_uplift is_uplift] counts [of is_harm is_harm] card
    by (auto simp: batch_outcomes_summary_def and_then_eq_Inr strata)
  have both: "set (map ?n ?F @ map ?n ?R) = ?n ` set v2" by auto
  then have "map ?n ?F @ map ?n ?R \<noteq> [] \<longleftrightarrow> v2 \<noteq> []" by (metis image_is_empty set_empty)
  with both have all: "(map ?n ?F @ map ?n ?R \<noteq> [] \<and> list_all sound_card (map ?n ?F @ map ?n ?R)) \<longleftrightarrow>
      v2 \<noteq> [] \<and> list_all (sound_card \<circ> sf_scorecard) v2"
    unfolding list_all_iff both by (simp add: card)
  have hard: "list_all snd (hard_gates (outcomes_gates (or_fresh rows) (or_reference rows) s)) \<longleftrightarrow>
      v2 \<noteq> [] \<and> list_all (sound_card \<circ> sf_scorecard) v2 \<and> 0 < target"
    unfolding hard_gates_iff strata sum(1) using all by blast
  show ?thesis
    unfolding Let_def r s(2,3) fresh_def [symmetric] outcomes_decision_def hard sum
    using sum_length_filter_compl [of "fresh_file rp fresh" v2] by (auto simp: strata)
qed

text \<open>The counts of a stratum in a summary, under the stratum's name.\<close>

definition stratum_counts :: "json pydict \<Rightarrow> string \<Rightarrow> json pydict list \<Rightarrow> bool" where
  "stratum_counts summary name cards \<longleftrightarrow>
     dict_get summary (name @ ''_pair_count'') = Some (JInt (int (length cards))) \<and>
     dict_get summary (name @ ''_uplift_count'') = Some (JInt (int (length (filter is_uplift cards)))) \<and>
     dict_get summary (name @ ''_no_uplift_count'') = Some (JInt (int (length (filter is_no_uplift cards)))) \<and>
     dict_get summary (name @ ''_harm_count'') = Some (JInt (int (length (filter is_harm cards))))"


text \<open>
  The two strata are added up before the decision: with the target met by fresh pairs that all show no uplift, an
  uplift among the reference pairs alone makes the batch ready. And below the target a batch without a single
  fresh pair is reported as one in which no uplift was observed.
\<close>

definition outcome_row :: "string \<Rightarrow> json pydict" where
  "outcome_row label = [(''effect_label'', JStr label), (''official_eval_completed'', JBool True),
     (''outcome_source'', JStr ''official_eval''), (''state_capsule_equivalence_claimed'', JBool False)]"

lemma reference_uplift_decides:
  fixes fresh reference
  defines "fresh \<equiv> [outcome_row ''both_unresolved_trigger_hit_pair_no_uplift'']"
    and "reference \<equiv> [outcome_row V2_POSITIVE_LABEL]"
  shows "\<exists>s. batch_outcomes_summary fresh reference 1 False = Inr s \<and> os_fresh_uplift s = 0 \<and>
      outcomes_decision s (outcomes_gates fresh reference s) = ''protocol_v2_batch_outcomes_ready_for_next_small_batch''"
    "\<exists>s. batch_outcomes_summary [] reference 4 False = Inr s \<and>
      outcomes_decision s (outcomes_gates [] reference s) = ''protocol_v2_batch_outcomes_underpowered_no_uplift_observed''"
  by (simp_all add: batch_outcomes_summary_def outcomes_decision_def hard_gates_iff sound_card_def fresh_def reference_def
      outcome_row_def field_text_def field_bool_def field_or_null_def label_hashable_def rows_with_def is_uplift_def is_harm_def
      is_no_uplift_def dict_get_def V2_POSITIVE_LABEL_def V2_NEGATIVE_LABEL_def V2_NO_UPLIFT_LABELS_def)

definition demo_card :: scorecard_file where
  "demo_card = \<lparr>sf_path = ''p'', sf_scorecard = (''source_task_id'', JStr ''t'') # outcome_row V2_POSITIVE_LABEL, sf_official = None\<rparr>"

lemma demo_card_facts:
  "(sound_card \<circ> sf_scorecard) demo_card" "(is_uplift \<circ> sf_scorecard) demo_card" "\<not> (is_harm \<circ> sf_scorecard) demo_card"
  "fresh_file rp [''t''] demo_card" "fresh_candidate_task_ids rp (Some [[(''source_task_id'', JStr ''t'')]]) = [''t'']"
  by (simp_all add: demo_card_def sound_card_def is_uplift_def is_harm_def fresh_file_def fresh_candidate_task_ids_def text_or_def
      outcome_row_def field_text_def field_bool_def field_or_null_def dict_get_def V2_POSITIVE_LABEL_def V2_NEGATIVE_LABEL_def)

theorem outcomes_decision_iff_witness:
  "\<exists>r rows. batch_outcomes_evidence (\<lambda>_. '''') '''' (Some [[(''source_task_id'', JStr ''t'')]]) [demo_card] [] [] [] True True 1 = Inr (r, rows) \<and>
     dict_get r ''decision'' = Some (JStr ''protocol_v2_batch_outcomes_ready_for_next_small_batch'')"
proof -
  let ?fl = "Some [[(''source_task_id'', JStr ''t'')]]"
  have "label_hashable (normalize_protocol_v2_pair (\<lambda>_. '''') [''t''] demo_card)"
    by (simp add: label_hashable_def field_or_null_def dict_get_normalized) (simp add: demo_card_def outcome_row_def dict_get_def field_or_null_def)
  then obtain r rows where e: "batch_outcomes_evidence (\<lambda>_. '''') '''' ?fl [demo_card] [] [] [] True True 1 = Inr (r, rows)"
    by (simp add: batch_outcomes_evidence_def batch_outcomes_report_def batch_outcomes_summary_def loaded_strata demo_card_facts Let_def)
  from outcomes_decision_iff [OF e] e demo_card_facts show ?thesis by (auto simp: Let_def)
qed


end
