(* ===== verification/V1_Outcomes.thy ===== *)
theory V1_Outcomes
  imports Batch_Outcomes
begin

text \<open>
  The outcome report of a version 1 batch, \<open>packages/clinic/src/wutai_clinic/intervention/protocol_v1_batch_outcomes.py\<close>.
  A scorecard is read together with its official report and the first row of its live pair summary; which files
  these are (\<open>_resolve_live_pair_summary\<close>) is decided on the file system and not modelled. The label sets of this
  module are those of \<open>Batch_Outcomes\<close>. \<open>rp\<close> is \<open>repr\<close> on containers, \<open>ri\<close> reads integer texts.
\<close>

section \<open>Model\<close>

definition V1_OUTCOMES_BOUNDARY :: string where
  "V1_OUTCOMES_BOUNDARY = ''Protocol v1 batch outcomes aggregate outcome-backed pairs by protocol family. '' @
     ''Protocol v1 replay-prefix/hook evidence is not mixed with v0 state-capsule evidence, '' @
     ''and this report does not make a generalized uplift or predictive EFE/STR claim.''"

definition v1_patch_diverged :: "(json \<Rightarrow> string) \<Rightarrow> json pydict \<Rightarrow> bool option" where
  "v1_patch_diverged rp row =
     (let control = json_or (field_or_null row ''control_patch_archive_sha256'') (field_or_null row ''control_patch_sha256'');
          intervention = json_or (field_or_null row ''intervention_patch_archive_sha256'') (field_or_null row ''intervention_patch_sha256'')
      in if \<not> json_truthy control \<or> \<not> json_truthy intervention then None
         else Some (json_text rp control \<noteq> json_text rp intervention))"

definition v1_outcome_class :: "(json \<Rightarrow> string) \<Rightarrow> json pydict \<Rightarrow> string" where
  "v1_outcome_class rp row =
     (let label = text_or rp row ''effect_label'' '''' in
      if \<not> field_bool row ''official_eval_completed'' True then ''pending_official_eval''
      else if label = V2_POSITIVE_LABEL then ''outcome_uplift''
      else if label = V2_NEGATIVE_LABEL then ''outcome_regression''
      else if label \<in> set V2_NO_UPLIFT_LABELS
      then (if v1_patch_diverged rp row = Some True then ''trajectory_diverged_no_uplift'' else ''hook_no_behavior_shift_no_uplift'')
      else ''unknown_outcome_label'')"

text \<open>A scorecard with what lies beside it: the path of its official report if there is one, and the path and the
  rows of its live pair summary if there is one.\<close>

record v1_card_file =
  vf_path :: string
  vf_scorecard :: "json pydict"
  vf_official :: "string option"
  vf_live :: "(string \<times> json pydict list) option"

definition first_row :: "json pydict list \<Rightarrow> json pydict" where
  "first_row rows = (case rows of [] \<Rightarrow> [] | r # _ \<Rightarrow> r)"

definition live_summary :: "v1_card_file \<Rightarrow> json pydict" where
  "live_summary f = (case vf_live f of Some (_, rows) \<Rightarrow> first_row rows | None \<Rightarrow> [])"

definition with_v1_class :: "(json \<Rightarrow> string) \<Rightarrow> json pydict \<Rightarrow> json pydict" where
  "with_v1_class rp row = row @ [(''trajectory_outcome_class'', JStr (v1_outcome_class rp row))]"

definition opt_bool :: "bool option \<Rightarrow> json" where
  "opt_bool b = (case b of None \<Rightarrow> JNull | Some v \<Rightarrow> JBool v)"

definition v1_pair_row :: "v1_card_file \<Rightarrow> json pydict" where
  "v1_pair_row f =
     (let sc = vf_scorecard f; live = live_summary f; merged = dict_update live sc
      in [(''protocol_family'', JStr ''protocol_v1_constraint_hook''),
            (''pair_id'', field_or_null merged ''pair_id''),
            (''source_task_id'', field_or_null merged ''source_task_id''),
            (''effect_label'', field_or_null merged ''effect_label''),
            (''control_resolved'', field_or_null merged ''control_resolved''),
            (''treatment_resolved'', treatment_resolved_of merged),
            (''official_eval_completed'', JBool (field_bool merged ''official_eval_completed'' True)),
            (''outcome_source'', field_or_null merged ''outcome_source''),
            (''replay_prefix_output_hashes_match'', field_or_null live ''replay_prefix_output_hashes_match''),
            (''treatment_hook_event_count'', field_or_null live ''treatment_hook_event_count''),
            (''control_patch_archive_sha256'', field_or_null live ''control_patch_archive_sha256''),
            (''intervention_patch_archive_sha256'', field_or_null live ''intervention_patch_archive_sha256''),
            (''state_capsule_equivalence_claimed'', field_or_null sc ''state_capsule_equivalence_claimed''),
            (''scorecard_path'', JStr (vf_path f)),
            (''official_report_path'', (case vf_official f of Some p \<Rightarrow> JStr p | None \<Rightarrow> JNull)),
            (''live_pair_summary_path'', (case vf_live f of Some (p, _) \<Rightarrow> JStr p | None \<Rightarrow> JNull))])"

definition normalize_protocol_v1_pair :: "(json \<Rightarrow> string) \<Rightarrow> v1_card_file \<Rightarrow> json pydict" where
  "normalize_protocol_v1_pair rp f =
     with_v1_class rp (v1_pair_row f @ [(''patch_diverged'', opt_bool (v1_patch_diverged rp (v1_pair_row f)))])"

definition v0_outcome_row :: "(json \<Rightarrow> string) \<Rightarrow> string \<times> json pydict \<Rightarrow> json pydict" where
  "v0_outcome_row rp f =
     (let sc = snd f in with_v1_class rp
        [(''protocol_family'', JStr ''protocol_v0_state_capsule_reference''),
         (''pair_id'', field_or_null sc ''pair_id''),
         (''source_task_id'', field_or_null sc ''source_task_id''),
         (''effect_label'', field_or_null sc ''effect_label''),
         (''control_resolved'', field_or_null sc ''control_resolved''),
         (''treatment_resolved'', treatment_resolved_of sc),
         (''official_eval_completed'', JBool (field_bool sc ''official_eval_completed'' True)),
         (''outcome_source'', field_or_null sc ''outcome_source''),
         (''intervention_injected_once'', field_or_null sc ''intervention_injected_once''),
         (''state_capsule_equivalent'', field_or_null sc ''state_capsule_equivalent''),
         (''scorecard_path'', JStr (fst f))])"

record v1_outcomes =
  vo_pairs :: nat
  vo_completed :: nat
  vo_positive :: nat
  vo_no_uplift :: nat
  vo_negative :: nat
  vo_target :: int
  vo_target_met :: bool

definition v1_outcomes_summary :: "json pydict list \<Rightarrow> int \<Rightarrow> pyexn + v1_outcomes" where
  "v1_outcomes_summary rows target =
     and_then (raise_if (\<not> list_all label_hashable rows) (TypeErr ''unhashable type'')) (\<lambda>_.
     Inr \<lparr>vo_pairs = length rows,
       vo_completed = rows_with (\<lambda>r. field_bool r ''official_eval_completed'' True) rows,
       vo_positive = rows_with is_uplift rows, vo_no_uplift = rows_with is_no_uplift rows, vo_negative = rows_with is_harm rows,
       vo_target = target, vo_target_met = (target \<le> int (length rows))\<rparr>)"

definition v1_outcomes_summary_json :: "(json \<Rightarrow> string) \<Rightarrow> json pydict list \<Rightarrow> json pydict list \<Rightarrow> v1_outcomes \<Rightarrow> json pydict" where
  "v1_outcomes_summary_json rp rows references s =
     (let num = (\<lambda>n. JInt (int n)) in
      [(''protocol_v1_pair_count'', num (vo_pairs s)),
       (''protocol_v1_official_completed_count'', num (vo_completed s)),
       (''protocol_v1_positive_count'', num (vo_positive s)),
       (''protocol_v1_no_uplift_count'', num (vo_no_uplift s)),
       (''protocol_v1_negative_count'', num (vo_negative s)),
       (''protocol_v1_label_counts'', tally_json (outcome_label_counts rp rows)),
       (''protocol_v1_trajectory_outcome_counts'', tally_json (outcome_class_counts rp rows)),
       (''protocol_v1_source_task_ids'', JList (row_task_ids rows)),
       (''target_protocol_v1_pair_count'', JInt (vo_target s)),
       (''target_protocol_v1_pair_count_met'', JBool (vo_target_met s)),
       (''v0_reference_pair_count'', num (length references)),
       (''v0_reference_label_counts'', tally_json (outcome_label_counts rp references)),
       (''v0_reference_trajectory_outcome_counts'', tally_json (outcome_class_counts rp references))])"

text \<open>\<open>all(int(row.get(\<dots>) or 0) > 0 for row in rows)\<close>: the scan stops at the first row without an event, so a count
  that is not a number raises only when every earlier row has one.\<close>

fun hooks_observed :: "(string \<Rightarrow> int option) \<Rightarrow> json pydict list \<Rightarrow> pyexn + bool" where
  "hooks_observed ri [] = Inr True"
| "hooks_observed ri (r # rs) =
     and_then (json_int ri (json_or (field_or_null r ''treatment_hook_event_count'') (JInt 0))) (\<lambda>n.
     if 0 < n then hooks_observed ri rs else Inr False)"

definition v1_outcomes_gates :: "(string \<Rightarrow> int option) \<Rightarrow> json pydict list \<Rightarrow> v1_outcomes \<Rightarrow> pyexn + bool pydict" where
  "v1_outcomes_gates ri rows s =
     and_then (hooks_observed ri rows) (\<lambda>observed.
     Inr [(''protocol_v1_rows_present'', 0 < length rows),
       (''protocol_v1_official_eval_completed'', rows \<noteq> [] \<and> list_all (\<lambda>r. field_bool r ''official_eval_completed'' True) rows),
       (''protocol_v1_outcome_source_official_eval'', rows \<noteq> [] \<and> list_all (\<lambda>r. field_text r ''outcome_source'' ''official_eval'') rows),
       (''protocol_v1_replay_prefix_equivalent'', rows \<noteq> [] \<and>
          list_all (\<lambda>r. field_bool r ''replay_prefix_output_hashes_match'' True) rows),
       (''protocol_v1_hook_observed'', rows \<noteq> [] \<and> observed),
       (''protocol_v1_state_capsule_equivalence_not_claimed'', rows \<noteq> [] \<and>
          list_all (\<lambda>r. field_bool r ''state_capsule_equivalence_claimed'' False) rows),
       (''stratifies_v0_reference_separately'', True),
       (''claim_boundary_present'', V1_OUTCOMES_BOUNDARY \<noteq> []),
       (''generalized_uplift_claim_not_made'', True),
       (''efe_str_predictive_claim_not_made'', True),
       (''full_unattended_run_not_authorized'', True),
       (''target_count_recorded'', 0 < vo_target s)])"

definition v1_outcomes_decision :: "v1_outcomes \<Rightarrow> bool pydict \<Rightarrow> string" where
  "v1_outcomes_decision s gates =
     (if \<not> list_all snd gates then ''protocol_v1_batch_outcomes_blocked''
      else if \<not> vo_target_met s
      then (if vo_no_uplift s = vo_pairs s then ''protocol_v1_batch_outcomes_underpowered_no_uplift_observed''
            else ''protocol_v1_batch_outcomes_underpowered_continue_sampling'')
      else if vo_positive s < vo_negative s then ''protocol_v1_batch_outcomes_negative_risk_review_required''
      else if vo_positive s = 0 then ''protocol_v1_batch_outcomes_no_uplift_needs_prescription_revision''
      else ''protocol_v1_batch_outcomes_ready_for_next_small_batch'')"

definition v1_outcomes_policy :: "v1_outcomes \<Rightarrow> bool pydict \<Rightarrow> json" where
  "v1_outcomes_policy s gates =
     (let structural = list_all snd gates in JObj
        [(''allow_more_protocol_v1_pairs'', JBool (structural \<and> \<not> vo_target_met s \<and> vo_negative s = 0)),
         (''allow_protocol_v2_prescription_design'', JBool (structural \<and> 0 < vo_no_uplift s \<and> vo_positive s = 0)),
         (''allow_protocol_v1_stability_claim'', JBool (structural \<and> vo_target_met s \<and> 0 < vo_positive s)),
         (''allow_intervention_effect_claim'', JBool False),
         (''allow_efe_str_predictive_claim'', JBool False),
         (''allow_full_64_unattended'', JBool False),
         (''recommended_next_step'', JStr
            (if structural \<and> \<not> vo_target_met s then ''run_remaining_protocol_v1_fresh_pairs_before_any_stability_claim''
             else if structural \<and> vo_positive s = 0 then ''design_protocol_v2_prescription_for_no_uplift_dynamics''
             else if \<not> structural then ''review_blocking_evidence_before_running_more_pairs''
             else ''expand_one_more_small_batch_after_trigger_policy_gate'')),
         (''evidence_note'', JStr (show_nat (vo_pairs s) @ '' Protocol v1 pairs, '' @ show_nat (vo_positive s) @ '' positive, '' @
            show_nat (vo_no_uplift s) @ '' no-uplift, '' @ show_nat (vo_negative s) @ '' negative; target='' @ show_int (vo_target s) @ ''.''))])"

definition v1_outcomes_report ::
    "(json \<Rightarrow> string) \<Rightarrow> (string \<Rightarrow> int option) \<Rightarrow> string \<Rightarrow> json pydict list \<Rightarrow> json pydict list \<Rightarrow> int \<Rightarrow> pyexn + json pydict" where
  "v1_outcomes_report rp ri now rows references target =
     and_then (v1_outcomes_summary rows target) (\<lambda>s.
     and_then (v1_outcomes_gates ri rows s) (\<lambda>gates.
     Inr (generate_report now (Some ''6.protocol_v1_batch_outcomes'') (Some (v1_outcomes_decision s gates)) gates
       [(''version'', JStr ''phase6_protocol_v1_batch_outcomes_v1''),
        (''claim_boundary'', JStr V1_OUTCOMES_BOUNDARY),
        (''summary'', JObj (v1_outcomes_summary_json rp rows references s)),
        (''continuation_policy'', v1_outcomes_policy s gates)] None)))"

text \<open>The evidence over the files of a root directory.\<close>

definition v1_outcomes_evidence ::
    "(json \<Rightarrow> string) \<Rightarrow> (string \<Rightarrow> int option) \<Rightarrow> string \<Rightarrow> v1_card_file list \<Rightarrow> (string \<times> json pydict) list \<Rightarrow> bool \<Rightarrow> int \<Rightarrow>
     pyexn + json pydict \<times> json pydict list" where
  "v1_outcomes_evidence rp ri now cards v0 with_v0 target =
     (let rows = map (normalize_protocol_v1_pair rp) cards
      in and_then (v1_outcomes_report rp ri now rows (if with_v0 then map (v0_outcome_row rp) v0 else []) target) (\<lambda>report.
         Inr (report, rows)))"

section \<open>Rows\<close>

lemma dict_get_append: "dict_get (xs @ ys) k = (case dict_get xs k of Some v \<Rightarrow> Some v | None \<Rightarrow> dict_get ys k)"
  by (cases "dict_get xs k") (simp_all add: dict_get_def map_add_def)

lemma dict_get_Cons: "dict_get ((j, v) # d) k = (if j = k then Some v else dict_get d k)" "dict_get [] k = None"
  by (simp_all add: dict_get_def)

lemma v1_pair_row_fields:
  "dict_get (v1_pair_row f) ''protocol_family'' = Some (JStr ''protocol_v1_constraint_hook'')"
  "dict_get (v1_pair_row f) ''effect_label'' = Some (field_or_null (dict_update (live_summary f) (vf_scorecard f)) ''effect_label'')"
  "dict_get (v1_pair_row f) ''official_eval_completed'' =
     Some (JBool (field_bool (dict_update (live_summary f) (vf_scorecard f)) ''official_eval_completed'' True))"
  "dict_get (v1_pair_row f) ''outcome_source'' = Some (field_or_null (dict_update (live_summary f) (vf_scorecard f)) ''outcome_source'')"
  "dict_get (v1_pair_row f) ''replay_prefix_output_hashes_match'' = Some (field_or_null (live_summary f) ''replay_prefix_output_hashes_match'')"
  "dict_get (v1_pair_row f) ''treatment_hook_event_count'' = Some (field_or_null (live_summary f) ''treatment_hook_event_count'')"
  "dict_get (v1_pair_row f) ''control_patch_archive_sha256'' = Some (field_or_null (live_summary f) ''control_patch_archive_sha256'')"
  "dict_get (v1_pair_row f) ''intervention_patch_archive_sha256'' = Some (field_or_null (live_summary f) ''intervention_patch_archive_sha256'')"
  "dict_get (v1_pair_row f) ''state_capsule_equivalence_claimed'' = Some (field_or_null (vf_scorecard f) ''state_capsule_equivalence_claimed'')"
  "dict_get (v1_pair_row f) ''trajectory_outcome_class'' = None" "dict_get (v1_pair_row f) ''patch_diverged'' = None"
  "dict_get (v1_pair_row f) ''control_patch_sha256'' = None" "dict_get (v1_pair_row f) ''intervention_patch_sha256'' = None"
  by (simp_all add: v1_pair_row_def Let_def) (simp_all add: dict_get_def)

lemma dict_get_normalized_v1:
  "dict_get (normalize_protocol_v1_pair rp f) k =
     (case dict_get (v1_pair_row f) k of
        Some v \<Rightarrow> Some v
      | None \<Rightarrow> if k = ''patch_diverged'' then Some (opt_bool (v1_patch_diverged rp (v1_pair_row f)))
          else if k = ''trajectory_outcome_class'' then Some (JStr (v1_outcome_class rp
            (v1_pair_row f @ [(''patch_diverged'', opt_bool (v1_patch_diverged rp (v1_pair_row f)))]))) else None)"
  by (simp add: normalize_protocol_v1_pair_def with_v1_class_def dict_get_append dict_get_Cons split: option.splits)

section \<open>What the report says\<close>

definition hook_counted :: "(string \<Rightarrow> int option) \<Rightarrow> json pydict \<Rightarrow> bool" where
  "hook_counted ri r \<longleftrightarrow>
     (case json_int ri (json_or (field_or_null r ''treatment_hook_event_count'') (JInt 0)) of Inr n \<Rightarrow> 0 < n | Inl _ \<Rightarrow> False)"

lemma hooks_observed_iff: "hooks_observed ri rows = Inr b \<Longrightarrow> b \<longleftrightarrow> list_all (hook_counted ri) rows"
  by (induction rows) (auto simp: hook_counted_def and_then_eq_Inr split: if_splits)

text \<open>An official, completed evaluation of a pair whose replayed prefix agreed, whose hook left events, and which claims no
  capsule equivalence.\<close>

definition sound_v1_row :: "(string \<Rightarrow> int option) \<Rightarrow> json pydict \<Rightarrow> bool" where
  "sound_v1_row ri r \<longleftrightarrow> sound_card r \<and> field_bool r ''replay_prefix_output_hashes_match'' True \<and> hook_counted ri r"

lemma v1_gates_iff:
  assumes "v1_outcomes_gates ri rows s = Inr gates"
  shows "list_all snd gates \<longleftrightarrow> rows \<noteq> [] \<and> list_all (sound_v1_row ri) rows \<and> 0 < vo_target s"
proof -
  from assms obtain b where "hooks_observed ri rows = Inr b" by (auto simp: v1_outcomes_gates_def elim!: and_then_InrE)
  with assms hooks_observed_iff [OF this] show ?thesis
    by (auto simp: v1_outcomes_gates_def sound_v1_row_def sound_card_def list_all_iff V1_OUTCOMES_BOUNDARY_def)
qed

lemma v1_summary_facts:
  "v1_outcomes_summary rows target = Inr s \<Longrightarrow> vo_pairs s = length rows \<and> vo_positive s = rows_with is_uplift rows \<and>
     vo_no_uplift s = rows_with is_no_uplift rows \<and> vo_negative s = rows_with is_harm rows \<and> vo_target s = target \<and>
     (vo_target_met s \<longleftrightarrow> target \<le> int (length rows))"
  by (auto simp: v1_outcomes_summary_def elim!: and_then_InrE)

lemma v1_report_facts:
  assumes "v1_outcomes_report rp ri now rows references target = Inr r"
  obtains s gates where "v1_outcomes_summary rows target = Inr s" "v1_outcomes_gates ri rows s = Inr gates"
    "dict_get r ''decision'' = Some (JStr (v1_outcomes_decision s gates))"
    "dict_get r ''passed'' = Some (JBool (list_all snd gates))"
    "dict_get r ''continuation_policy'' = Some (v1_outcomes_policy s gates)"
proof -
  from assms obtain s gates where s: "v1_outcomes_summary rows target = Inr s" "v1_outcomes_gates ri rows s = Inr gates"
    and r: "r = generate_report now (Some ''6.protocol_v1_batch_outcomes'') (Some (v1_outcomes_decision s gates)) gates
       [(''version'', JStr ''phase6_protocol_v1_batch_outcomes_v1''), (''claim_boundary'', JStr V1_OUTCOMES_BOUNDARY),
        (''summary'', JObj (v1_outcomes_summary_json rp rows references s)),
        (''continuation_policy'', v1_outcomes_policy s gates)] None"
    unfolding v1_outcomes_report_def by (elim and_then_InrE) auto
  show ?thesis
    by (rule that [OF s]) (simp_all add: r report_fields report_extra list_all_iff)
qed

lemma rows_with_zero: "rows_with P rows = 0 \<longleftrightarrow> \<not> list_ex P rows"
  by (auto simp: rows_with_def filter_empty_conv list_ex_iff)

lemma rows_with_all: "rows_with P rows = length rows \<longleftrightarrow> list_all P rows"
  unfolding rows_with_def list_all_iff by (metis filter_True length_filter_less less_irrefl)

text \<open>
  The decision a revision of the prescription rests on: with sound rows, either the target is not met and every pair
  shows no uplift, or it is met and no pair shows uplift or harm.
\<close>

definition supports_revision :: "json pydict list \<Rightarrow> int \<Rightarrow> bool" where
  "supports_revision rows target \<longleftrightarrow>
     (if target \<le> int (length rows) then \<not> list_ex is_uplift rows \<and> \<not> list_ex is_harm rows else list_all is_no_uplift rows)"

lemma v1_decision_revision:
  assumes "v1_outcomes_summary rows target = Inr s"
  shows "v1_outcomes_decision s gates \<in> {''protocol_v1_batch_outcomes_underpowered_no_uplift_observed'',
      ''protocol_v1_batch_outcomes_no_uplift_needs_prescription_revision''} \<longleftrightarrow> list_all snd gates \<and> supports_revision rows target"
  using v1_summary_facts [OF assms]
  by (auto simp: v1_outcomes_decision_def supports_revision_def rows_with_zero [symmetric] rows_with_all [symmetric])

text \<open>
  The policy allows the design of a version 2 prescription also for a batch whose decision asks for a review of a
  negative risk: a batch with harm, no uplift and some pair without uplift.
\<close>

lemma design_allowed_in_negative_batch:
  assumes "list_all snd gates" "vo_target_met s" "vo_positive s = 0" "0 < vo_negative s" "0 < vo_no_uplift s"
  shows "v1_outcomes_decision s gates = ''protocol_v1_batch_outcomes_negative_risk_review_required''"
    "\<exists>policy. v1_outcomes_policy s gates = JObj policy \<and>
       dict_get policy ''allow_protocol_v2_prescription_design'' = Some (JBool True)"
  using assms by (simp_all add: v1_outcomes_decision_def v1_outcomes_policy_def Let_def dict_get_Cons)

end
