(* ===== verification/Prescription_Dry_Run.thy ===== *)
theory Prescription_Dry_Run
  imports V1_Outcomes Protocol_V1 Protocol_V2 Evidence_Gates
begin

text \<open>
  The dry runs of prescriptions, \<open>packages/clinic/src/wutai_clinic/intervention/protocol_v1_dry_run.py\<close> and
  \<open>protocol_v2_dry_run.py\<close>: a plan's rows are parsed again, every row gives an audit event, and the gates over plan and
  events decide whether the plan may go on. The version 2 plan is built from the outcome rows of a version 1 batch
  (\<open>V1_Outcomes\<close>). Writing the files is not modelled. \<open>rp\<close>, \<open>ri\<close>, \<open>h\<close> as before.
\<close>

section \<open>Shared by both\<close>

text \<open>\<open>plan.get("pairs") or []\<close>, every element of which must have \<open>get\<close>.\<close>

fun json_dict :: "json \<Rightarrow> pyexn + json pydict" where
  "json_dict (JObj kvs) = Inr kvs"
| "json_dict _ = Inl (AttributeErr ''get'')"

definition plan_rows :: "json pydict \<Rightarrow> pyexn + json pydict list" where
  "plan_rows plan = and_then (json_iter (json_or (field_or_null plan ''pairs'') (JList []))) (\<lambda>xs. sequence (map json_dict xs))"

definition all_pairs :: "json pydict list \<Rightarrow> (json pydict \<Rightarrow> bool) \<Rightarrow> bool" where
  "all_pairs pairs P \<longleftrightarrow> pairs \<noteq> [] \<and> list_all P pairs"

definition prescription_counts :: "(json \<Rightarrow> string) \<Rightarrow> json pydict list \<Rightarrow> nat pydict" where
  "prescription_counts rp events = sort_key fst (fold dict_incr (map (\<lambda>e. json_text rp (field_or_null e ''prescription_id'')) events) [])"

definition started_nothing :: "json pydict list \<Rightarrow> bool" where
  "started_nothing events \<longleftrightarrow> events \<noteq> [] \<and>
     list_all (\<lambda>e. field_bool e ''runner_started'' False \<and> field_bool e ''model_call_started'' False \<and>
       field_bool e ''docker_or_official_eval_started'' False) events"

text \<open>The rows whose dictionary a parser accepts, and whether the hash each row carries is that of its protocol;
  only \<open>ValueError\<close> is caught.\<close>

fun rows_valid ::
    "(json \<Rightarrow> pyexn + 'p) \<Rightarrow> ('p \<Rightarrow> string) \<Rightarrow> string \<Rightarrow> json pydict list \<Rightarrow> pyexn + bool \<times> bool" where
  "rows_valid parse hash k [] = Inr (True, True)"
| "rows_valid parse hash k (row # rows) =
     (case parse (json_or (field_or_null row k) (JObj [])) of
        Inr p \<Rightarrow> and_then (rows_valid parse hash k rows) (\<lambda>(valid, same).
          Inr (valid, same \<and> field_text row ''protocol_hash'' (hash p)))
      | Inl (ValueErr m) \<Rightarrow> and_then (rows_valid parse hash k rows) (\<lambda>_. Inr (False, False))
      | Inl e \<Rightarrow> Inl e)"

section \<open>Version 1\<close>

definition V1_DRY_BOUNDARY :: string where
  "V1_DRY_BOUNDARY = ''Protocol v1 dry-run validates prescription shape, runtime-oracle boundaries, and '' @
     ''audit events only. It does not start Docker, call a provider, run official eval, '' @
     ''reuse posthoc official test identifiers as runtime hints, or authorize same-pair '' @
     ''positive attribution.''"

text \<open>\<open>len(v or [])\<close>\<close>

definition or_len :: "json \<Rightarrow> pyexn + nat" where
  "or_len v = and_then (json_iter (json_or v (JList []))) (\<lambda>xs. Inr (length xs))"

record v1_dry_facts =
  df_error :: "string option"
  df_hash :: json
  df_prescription :: string
  df_constraints :: "json list"
  df_visible :: bool
  df_same_pair :: bool
  df_raw_logged :: bool

definition v1_dry_facts_of :: "(json \<Rightarrow> string) \<Rightarrow> (string \<Rightarrow> string) \<Rightarrow> json \<Rightarrow> pyexn + v1_dry_facts" where
  "v1_dry_facts_of rp h payload =
     (case protocol_v1_from_dict rp payload of
        Inr p \<Rightarrow> Inr \<lparr>df_error = None, df_hash = JStr (protocol_v1_hash h p), df_prescription = a1_prescription_id (p1_action p),
          df_constraints = map JStr (a1_constraint_ids (p1_action p)), df_visible = g1_identifiers_visible (p1_guard p),
          df_same_pair = g1_same_pair_allowed (p1_guard p), df_raw_logged = g1_raw_payload_logging (p1_guard p)\<rparr>
      | Inl (ValueErr m) \<Rightarrow>
          let part = (\<lambda>k. case payload of JObj kvs \<Rightarrow> json_or (field_or_null kvs k) (JObj []) | _ \<Rightarrow> JObj []) in
          and_then (json_get (part ''action'') ''prescription_id'') (\<lambda>pid.
          and_then (json_get (part ''action'') ''constraint_ids'') (\<lambda>cs.
          and_then (json_iter (json_or cs (JList []))) (\<lambda>constraints.
          and_then (json_get (part ''guard'') ''official_eval_identifiers_runtime_visible'') (\<lambda>visible.
          and_then (json_get (part ''guard'') ''same_pair_rerun_attribution_allowed'') (\<lambda>same.
          and_then (json_get (part ''guard'') ''raw_payload_logging'') (\<lambda>raw.
          Inr \<lparr>df_error = Some m, df_hash = JNull, df_prescription = json_text rp (json_or pid (JStr ''invalid_protocol'')),
            df_constraints = constraints, df_visible = json_truthy visible, df_same_pair = json_truthy same,
            df_raw_logged = json_truthy raw\<rparr>))))))
      | Inl e \<Rightarrow> Inl e)"

definition v1_dry_event :: "(json \<Rightarrow> string) \<Rightarrow> (string \<Rightarrow> string) \<Rightarrow> nat \<Rightarrow> json pydict \<Rightarrow> pyexn + json pydict" where
  "v1_dry_event rp h index row =
     and_then (v1_dry_facts_of rp h (json_or (field_or_null row ''protocol_v1'') (JObj []))) (\<lambda>f.
     let analysis = json_or (field_or_null row ''official_eval_tests_analysis_only'') (JObj []);
         count = (\<lambda>k. and_then (json_get analysis k) or_len) in
     and_then (count ''target_failures'') (\<lambda>tf.
     and_then (count ''target_successes'') (\<lambda>ts.
     and_then (count ''guard_failures'') (\<lambda>gf.
     Inr [(''event'', JStr ''protocol_v1_prescription_dry_run''),
       (''row_index'', JInt (int index)),
       (''source_task_id'', field_or_null row ''source_task_id''),
       (''pair_id'', field_or_null row ''pair_id''),
       (''protocol_valid'', JBool (df_error f = None)),
       (''protocol_error'', (case df_error f of Some m \<Rightarrow> JStr m | None \<Rightarrow> JNull)),
       (''protocol_hash'', df_hash f),
       (''prescription_id'', JStr (df_prescription f)),
       (''constraint_ids'', JList (df_constraints f)),
       (''runtime_oracle_source'', field_or_null row ''runtime_oracle_source''),
       (''official_eval_identifiers_runtime_visible'', JBool (df_visible f)),
       (''same_pair_rerun_attribution_allowed'', JBool (df_same_pair f)),
       (''official_eval_tests_analysis_only_counts'', JObj [(''target_failures'', JInt (int tf)),
          (''target_successes'', JInt (int ts)), (''guard_failures'', JInt (int gf))]),
       (''runner_started'', JBool False),
       (''model_call_started'', JBool False),
       (''docker_or_official_eval_started'', JBool False),
       (''raw_payload_logged'', JBool (df_raw_logged f))]))))"

definition v1_dry_events :: "(json \<Rightarrow> string) \<Rightarrow> (string \<Rightarrow> string) \<Rightarrow> json pydict \<Rightarrow> pyexn + json pydict list" where
  "v1_dry_events rp h plan =
     and_then (plan_rows plan) (\<lambda>rows. sequence (map (\<lambda>(i, row). v1_dry_event rp h i row) (enumerate 0 rows)))"

definition is_dict :: "json \<Rightarrow> bool" where
  "is_dict v \<longleftrightarrow> (case v of JObj _ \<Rightarrow> True | _ \<Rightarrow> False)"

definition v1_dry_gates ::
    "(json \<Rightarrow> string) \<Rightarrow> (string \<Rightarrow> int option) \<Rightarrow> (string \<Rightarrow> string) \<Rightarrow> json pydict \<Rightarrow> json pydict list \<Rightarrow> pyexn + bool pydict" where
  "v1_dry_gates rp ri h plan events =
     and_then (plan_rows plan) (\<lambda>pairs.
     and_then (rows_valid (protocol_v1_from_dict rp) (protocol_v1_hash h) ''protocol_v1'' pairs) (\<lambda>(valid, same).
     and_then (json_int ri (json_or (field_or_null plan ''pair_count'') (JInt (-1)))) (\<lambda>n.
     Inr [(''plan_decision_expected'', field_text plan ''decision'' ''protocol_v1_plan_ready_not_live_executed''),
       (''pair_count_matches'', n = int (length pairs)),
       (''pairs_present'', 0 < length pairs),
       (''same_pair_positive_claim_blocked'', field_bool plan ''same_pair_positive_claim_allowed'' False),
       (''protocol_rows_valid'', valid),
       (''protocol_hashes_match'', same),
       (''same_pair_rerun_attribution_blocked'', all_pairs pairs (\<lambda>r. field_bool r ''same_pair_rerun_attribution_eligible'' False)),
       (''runtime_oracle_prefix_only'', all_pairs pairs (\<lambda>r. field_text r ''runtime_oracle_source'' ''prefix_observation_required'')),
       (''official_eval_tests_analysis_only_present'', all_pairs pairs (\<lambda>r. is_dict (field_or_null r ''official_eval_tests_analysis_only''))),
       (''dry_run_event_count_matches_pairs'', length events = length pairs),
       (''dry_run_started_no_model_or_runner'', started_nothing events),
       (''raw_payload_logging_disabled'', events \<noteq> [] \<and> list_all (\<lambda>e. field_bool e ''raw_payload_logged'' False) events),
       (''official_eval_identifiers_not_runtime_visible'', events \<noteq> [] \<and>
          list_all (\<lambda>e. field_bool e ''official_eval_identifiers_runtime_visible'' False) events)])))"

definition v1_dry_report ::
    "(json \<Rightarrow> string) \<Rightarrow> (string \<Rightarrow> int option) \<Rightarrow> (string \<Rightarrow> string) \<Rightarrow> string \<Rightarrow> json pydict \<Rightarrow> pyexn + json pydict" where
  "v1_dry_report rp ri h now plan =
     and_then (plan_rows plan) (\<lambda>pairs.
     and_then (v1_dry_events rp h plan) (\<lambda>events.
     and_then (v1_dry_gates rp ri h plan events) (\<lambda>gates.
     let ok = list_all snd gates in
     Inr (generate_report now (Some ''6.protocol_v1_dry_run_gate'')
       (Some (if ok then ''protocol_v1_dry_run_gate_passed_live_execution_not_authorized'' else ''protocol_v1_dry_run_gate_blocked'')) gates
       [(''version'', JStr ''phase6_protocol_v1_dry_run_gate_v1''),
        (''claim_boundary'', JStr V1_DRY_BOUNDARY),
        (''summary'', JObj [(''pair_count'', JInt (int (length pairs))), (''event_count'', JInt (int (length events))),
           (''prescription_counts'', tally_json (prescription_counts rp events)), (''runner_started'', JBool False),
           (''model_call_started'', JBool False), (''docker_or_official_eval_started'', JBool False),
           (''same_pair_positive_claim_allowed'', JBool False), (''live_execution_authorized'', JBool False)]),
        (''continuation_policy'', JObj [(''allow_protocol_v1_live_hook_adapter_preflight'', JBool ok),
           (''allow_protocol_v1_real_run'', JBool False), (''allow_same_pair_positive_claim'', JBool False),
           (''allow_official_eval_identifier_runtime_injection'', JBool False),
           (''recommended_next_step'', JStr (if ok then ''implement_protocol_v1_live_hook_adapter_preflight_on_fresh_candidates''
              else ''fix_protocol_v1_plan_before_live_adapter_preflight''))])] None))))"

text \<open>The dictionary that \<open>build_protocol_v1_plan\<close> returns.\<close>

definition v1_pair_json :: "v1_plan_pair \<Rightarrow> json pydict" where
  "v1_pair_json r =
     [(''source_task_id'', pp_source_task_id r), (''pair_id'', pp_pair_id r),
      (''no_uplift_classification'', JStr (pp_classification r)), (''protocol_v1'', pp_protocol r),
      (''protocol_hash'', JStr (pp_protocol_hash r)), (''runtime_oracle_source'', JStr (pp_oracle_source r)),
      (''same_pair_rerun_attribution_eligible'', JBool (pp_rerun_eligible r)),
      (''official_eval_tests_analysis_only'', JObj [(''target_failures'', JList (pp_target_failures r)),
         (''target_successes'', JList (pp_target_successes r)), (''guard_failures'', JList (pp_guard_failures r))])]"

definition v1_plan_json :: "v1_plan \<Rightarrow> json pydict" where
  "v1_plan_json p =
     [(''decision'', JStr (pl_decision p)), (''claim_boundary'', JStr (pl_claim_boundary p)),
      (''source_decision'', pl_source_decision p), (''pair_count'', JInt (int (pl_pair_count p))),
      (''same_pair_positive_claim_allowed'', JBool (pl_positive_claim_allowed p)),
      (''pairs'', JList (map (JObj \<circ> v1_pair_json) (pl_pairs p)))]"

section \<open>Version 2\<close>

definition V2_DRY_BOUNDARY :: string where
  "V2_DRY_BOUNDARY = ''Protocol v2 dry-run converts observed Protocol v1 no-uplift dynamics into a '' @
     ''prospective prescription plan. It does not rerun the same pair for positive '' @
     ''attribution, start Docker, call a provider, run official eval, or inject official '' @
     ''test/outcome identifiers into runtime context.''"

text \<open>A label that cannot be looked up in a set raises, if the row is otherwise a candidate.\<close>

definition target_candidate :: "json pydict \<Rightarrow> bool" where
  "target_candidate r \<longleftrightarrow> field_text r ''protocol_family'' ''protocol_v1_constraint_hook'' \<and> field_bool r ''official_eval_completed'' True"

definition is_target :: "json pydict \<Rightarrow> bool" where
  "is_target r \<longleftrightarrow> target_candidate r \<and> is_no_uplift r \<and> field_text r ''trajectory_outcome_class'' ''trajectory_diverged_no_uplift''"

definition target_rows :: "json pydict list \<Rightarrow> pyexn + json pydict list" where
  "target_rows rows =
     and_then (raise_if (list_ex (\<lambda>r. target_candidate r \<and> \<not> label_hashable r) rows) (TypeErr ''unhashable type'')) (\<lambda>_.
     Inr (filter is_target rows))"

definition v2_plan_row :: "(string \<Rightarrow> string) \<Rightarrow> protocol_v2 \<Rightarrow> nat \<Rightarrow> json pydict \<Rightarrow> json pydict" where
  "v2_plan_row h p rank row =
     [(''phase'', JStr ''6.protocol_v2_dry_run_gate''),
      (''plan_rank'', JInt (int rank)),
      (''source_pair_id'', field_or_null row ''pair_id''),
      (''source_task_id'', field_or_null row ''source_task_id''),
      (''source_protocol_family'', field_or_null row ''protocol_family''),
      (''source_effect_label'', field_or_null row ''effect_label''),
      (''source_trajectory_outcome_class'', field_or_null row ''trajectory_outcome_class''),
      (''prescription_reason'', JStr ''behavior_changed_without_official_outcome_uplift''),
      (''protocol_v2'', protocol_v2_to_dict p),
      (''protocol_hash'', JStr (protocol_v2_hash h p)),
      (''runtime_oracle_source'', JStr ''live_feature_and_prefix_observation_only''),
      (''same_pair_positive_claim_allowed'', JBool False),
      (''live_execution_authorized'', JBool False),
      (''official_eval_authorized'', JBool False),
      (''requires_new_fresh_failure_target'', JBool True)]"

definition v2_prescription_plan ::
    "(string \<Rightarrow> string) \<Rightarrow> json pydict \<Rightarrow> json pydict list \<Rightarrow> protocol_v2 \<Rightarrow> pyexn + json pydict" where
  "v2_prescription_plan h outcomes rows p =
     and_then (target_rows rows) (\<lambda>targets.
     let pairs = map (\<lambda>(i, row). v2_plan_row h p i row) (enumerate 1 targets) in
     Inr [(''decision'', JStr (if pairs \<noteq> [] then ''protocol_v2_prescription_plan_ready_not_live_executed''
            else ''protocol_v2_prescription_plan_blocked_no_target_rows'')),
       (''source_decision'', field_or_null outcomes ''decision''),
       (''source_passed'', field_or_null outcomes ''passed''),
       (''claim_boundary'', JStr V2_DRY_BOUNDARY),
       (''pair_count'', JInt (int (length pairs))),
       (''same_pair_positive_claim_allowed'', JBool False),
       (''live_execution_authorized'', JBool False),
       (''official_eval_authorized'', JBool False),
       (''pairs'', JList (map JObj pairs))])"

definition v2_dry_event :: "(json \<Rightarrow> string) \<Rightarrow> (string \<Rightarrow> int option) \<Rightarrow> (string \<Rightarrow> string) \<Rightarrow> nat \<Rightarrow> json pydict \<Rightarrow> pyexn + json pydict" where
  "v2_dry_event rp ri h index row =
     (let event = (\<lambda>valid err hash pid steps style.
        [(''event'', JStr ''protocol_v2_prescription_dry_run''),
         (''row_index'', JInt (int index)),
         (''source_task_id'', field_or_null row ''source_task_id''),
         (''source_pair_id'', field_or_null row ''source_pair_id''),
         (''protocol_valid'', JBool valid),
         (''protocol_error'', err),
         (''protocol_hash'', hash),
         (''prescription_id'', JStr pid),
         (''steps'', str_list steps),
         (''prompt_style'', style),
         (''runtime_oracle_source'', field_or_null row ''runtime_oracle_source''),
         (''same_pair_positive_claim_allowed'', field_or_null row ''same_pair_positive_claim_allowed''),
         (''requires_new_fresh_failure_target'', field_or_null row ''requires_new_fresh_failure_target''),
         (''runner_started'', JBool False),
         (''model_call_started'', JBool False),
         (''docker_or_official_eval_started'', JBool False),
         (''raw_payload_logged'', JBool False)])
      in case protocol_v2_from_dict rp ri (json_or (field_or_null row ''protocol_v2'') (JObj [])) of
           Inr p \<Rightarrow> Inr (event True JNull (JStr (protocol_v2_hash h p)) (a2_prescription_id (p2_action p)) (a2_steps (p2_action p))
             (JStr (a2_prompt_style (p2_action p))))
         | Inl (ValueErr m) \<Rightarrow> Inr (event False (JStr m) JNull ''invalid_protocol'' [] JNull)
         | Inl e \<Rightarrow> Inl e)"

definition v2_dry_events :: "(json \<Rightarrow> string) \<Rightarrow> (string \<Rightarrow> int option) \<Rightarrow> (string \<Rightarrow> string) \<Rightarrow> json pydict \<Rightarrow> pyexn + json pydict list" where
  "v2_dry_events rp ri h plan =
     and_then (plan_rows plan) (\<lambda>rows. sequence (map (\<lambda>(i, row). v2_dry_event rp ri h i row) (enumerate 0 rows)))"

definition dict_without :: "string \<Rightarrow> json pydict \<Rightarrow> json pydict" where
  "dict_without k d = filter (\<lambda>(j, v). j \<noteq> k) d"

text \<open>What the two payload gates look at.\<close>

definition audit_projection :: "json pydict \<Rightarrow> json pydict list \<Rightarrow> json pydict list \<Rightarrow> json pydict" where
  "audit_projection plan pairs events =
     [(''plan'', JObj (dict_without ''pairs'' plan)),
      (''pairs'', JList (map (JObj \<circ> dict_without ''protocol_v2'') pairs)),
      (''events'', JList (map JObj events))]"

definition audit_clean :: "json pydict \<Rightarrow> bool" where
  "audit_clean ctx \<longleftrightarrow> no_raw_payload ctx = Inr True \<and> no_secret_literal ctx = Inr True"

definition SOURCE_DECISIONS :: "string list" where
  "SOURCE_DECISIONS = [''protocol_v1_batch_outcomes_underpowered_no_uplift_observed'',
     ''protocol_v1_batch_outcomes_no_uplift_needs_prescription_revision'']"

definition json_hashable :: "json \<Rightarrow> bool" where
  "json_hashable v \<longleftrightarrow> (case v of JList _ \<Rightarrow> False | JObj _ \<Rightarrow> False | _ \<Rightarrow> True)"

definition v2_dry_gates ::
    "(json \<Rightarrow> string) \<Rightarrow> (string \<Rightarrow> int option) \<Rightarrow> (string \<Rightarrow> string) \<Rightarrow> json pydict \<Rightarrow> json pydict list \<Rightarrow> json pydict \<Rightarrow>
     json pydict list \<Rightarrow> pyexn + bool pydict" where
  "v2_dry_gates rp ri h outcomes rows plan events =
     and_then (plan_rows plan) (\<lambda>pairs.
     and_then (rows_valid (protocol_v2_from_dict rp ri) (protocol_v2_hash h) ''protocol_v2'' pairs) (\<lambda>(valid, same).
     and_then (target_rows rows) (\<lambda>targets.
     and_then (raise_if (\<not> json_hashable (field_or_null outcomes ''decision'')) (TypeErr ''unhashable type'')) (\<lambda>_.
     let ctx = audit_projection plan pairs events in
     and_then (no_raw_payload ctx) (\<lambda>no_raw.
     and_then (no_secret_literal ctx) (\<lambda>no_secret.
     Inr [(''source_batch_outcomes_report_passed'', field_bool outcomes ''passed'' True),
       (''source_decision_supports_prescription_revision'', list_ex (field_text outcomes ''decision'') SOURCE_DECISIONS),
       (''target_rows_present'', 0 < length targets),
       (''target_rows_match_plan_count'', length targets = length pairs),
       (''target_rows_are_protocol_v1_no_uplift_dynamics'', targets \<noteq> [] \<and>
          list_all (\<lambda>r. is_no_uplift r \<and> field_text r ''trajectory_outcome_class'' ''trajectory_diverged_no_uplift'') targets),
       (''same_pair_positive_claim_blocked'', field_bool plan ''same_pair_positive_claim_allowed'' False \<and>
          all_pairs pairs (\<lambda>r. field_bool r ''same_pair_positive_claim_allowed'' False)),
       (''requires_new_fresh_failure_target'', all_pairs pairs (\<lambda>r. field_bool r ''requires_new_fresh_failure_target'' True)),
       (''protocol_rows_valid'', valid),
       (''protocol_hashes_match'', same),
       (''runtime_oracle_live_features_only'',
          all_pairs pairs (\<lambda>r. field_text r ''runtime_oracle_source'' ''live_feature_and_prefix_observation_only'')),
       (''dry_run_event_count_matches_pairs'', length events = length pairs),
       (''dry_run_started_no_model_or_runner'', started_nothing events),
       (''raw_payload_logging_disabled'', events \<noteq> [] \<and> list_all (\<lambda>e. field_bool e ''raw_payload_logged'' False) events),
       (''payload_has_no_raw_payload_keys'', no_raw),
       (''payload_has_no_secret_literals'', no_secret),
       (''live_execution_not_authorized'', field_bool plan ''live_execution_authorized'' False),
       (''official_eval_not_authorized'', field_bool plan ''official_eval_authorized'' False)]))))))"

definition v2_dry_report ::
    "(json \<Rightarrow> string) \<Rightarrow> (string \<Rightarrow> int option) \<Rightarrow> (string \<Rightarrow> string) \<Rightarrow> string \<Rightarrow> json pydict \<Rightarrow> json pydict list \<Rightarrow> protocol_v2 \<Rightarrow>
     pyexn + json pydict" where
  "v2_dry_report rp ri h now outcomes rows p =
     and_then (v2_prescription_plan h outcomes rows p) (\<lambda>plan.
     and_then (plan_rows plan) (\<lambda>pairs.
     and_then (v2_dry_events rp ri h plan) (\<lambda>events.
     and_then (v2_dry_gates rp ri h outcomes rows plan events) (\<lambda>gates.
     let ok = list_all snd gates in
     Inr (generate_report now (Some ''6.protocol_v2_dry_run_gate'')
       (Some (if ok then ''protocol_v2_dry_run_gate_passed_live_execution_not_authorized'' else ''protocol_v2_dry_run_gate_blocked'')) gates
       [(''version'', JStr ''phase6_protocol_v2_dry_run_gate_v1''),
        (''claim_boundary'', JStr V2_DRY_BOUNDARY),
        (''summary'', JObj [(''target_pair_count'', JInt (int (length pairs))), (''event_count'', JInt (int (length events))),
           (''prescription_counts'', tally_json (prescription_counts rp events)),
           (''source_decision'', field_or_null outcomes ''decision''), (''runner_started'', JBool False),
           (''model_call_started'', JBool False), (''docker_or_official_eval_started'', JBool False),
           (''live_execution_authorized'', JBool False), (''official_eval_authorized'', JBool False)]),
        (''continuation_policy'', JObj [(''allow_protocol_v2_live_single_planned_preflight'', JBool ok),
           (''allow_protocol_v2_real_run'', JBool False), (''allow_same_pair_positive_claim'', JBool False),
           (''allow_official_eval_identifier_runtime_injection'', JBool False),
           (''recommended_next_step'', JStr (if ok then ''collect_new_fresh_failure_targets_then_run_protocol_v2_planned_preflight''
              else ''fix_protocol_v2_plan_before_live_adapter_preflight''))])] None)))))"

section \<open>Rows and events\<close>

lemma sequence_all:
  assumes "\<forall>x \<in> set xs. \<exists>y. f x = Inr y \<and> P y"
  shows "\<exists>ys. sequence (map f xs) = Inr ys \<and> length ys = length xs \<and> list_all P ys"
  using assms by (induction xs) (fastforce)+

lemma sequence_dicts: "sequence (map (json_dict \<circ> (JObj \<circ> f)) xs) = Inr (map f xs)"
  by (induction xs) auto

lemma json_or_list_self: "json_or (JList xs) (JList []) = JList xs"
  by (simp add: json_or_def)

lemma plan_rows_map:
  "field_or_null plan ''pairs'' = JList (map (JObj \<circ> f) xs) \<Longrightarrow> plan_rows plan = Inr (map f xs)"
  by (simp add: plan_rows_def json_or_list_self sequence_dicts)

lemma rows_valid_all:
  "\<forall>row \<in> set rows. \<exists>p. parse (json_or (field_or_null row k) (JObj [])) = Inr p \<and> field_text row ''protocol_hash'' (hash p) \<Longrightarrow>
     rows_valid parse hash k rows = Inr (True, True)"
  by (induction rows) auto

lemma printed_protocol: "json_or (protocol_v1_to_dict p) d = protocol_v1_to_dict p" "json_or (protocol_v2_to_dict q) d = protocol_v2_to_dict q"
  by (simp_all add: protocol_v1_to_dict_def protocol_v2_to_dict_def)

definition quiet_event :: "json pydict \<Rightarrow> bool" where
  "quiet_event e \<longleftrightarrow> field_bool e ''runner_started'' False \<and> field_bool e ''model_call_started'' False \<and>
     field_bool e ''docker_or_official_eval_started'' False \<and> field_bool e ''raw_payload_logged'' False"

lemma quiet_events:
  "list_all quiet_event events \<Longrightarrow> started_nothing events \<longleftrightarrow> events \<noteq> []"
  "list_all quiet_event events \<Longrightarrow> list_all (\<lambda>e. field_bool e ''raw_payload_logged'' False) events"
  by (auto simp: started_nothing_def quiet_event_def list_all_iff)

section \<open>A version 1 plan\<close>

lemma v1_dry_event_ok:
  assumes "plan_row_ok h row"
  shows "\<exists>e. v1_dry_event rp h i (v1_pair_json row) = Inr e \<and> quiet_event e \<and>
    field_bool e ''official_eval_identifiers_runtime_visible'' False"
proof -
  from assms obtain p where p: "valid_v1 p" "pp_protocol row = protocol_v1_to_dict p" by (auto simp: plan_row_ok_def)
  have len: "or_len (JList xs) = Inr (length xs)" for xs by (simp add: or_len_def json_or_list_self)
  have payload: "json_or (field_or_null (v1_pair_json row) ''protocol_v1'') (JObj []) = protocol_v1_to_dict p"
    by (simp add: field_or_null_def dict_get_def v1_pair_json_def p printed_protocol)
  have facts: "v1_dry_facts_of rp h (protocol_v1_to_dict p) = Inr \<lparr>df_error = None, df_hash = JStr (protocol_v1_hash h p),
     df_prescription = a1_prescription_id (p1_action p), df_constraints = map JStr (a1_constraint_ids (p1_action p)),
     df_visible = False, df_same_pair = False, df_raw_logged = False\<rparr>"
    using p(1) by (simp add: v1_dry_facts_of_def valid_v1_parses valid_v1_def default_guard_v1_def)
  have "field_or_null (v1_pair_json row) ''official_eval_tests_analysis_only'' =
      JObj [(''target_failures'', JList (pp_target_failures row)), (''target_successes'', JList (pp_target_successes row)),
        (''guard_failures'', JList (pp_guard_failures row))]"
    by (simp add: field_or_null_def dict_get_def v1_pair_json_def)
  then show ?thesis
    by (simp add: v1_dry_event_def payload facts Let_def len quiet_event_def field_bool_def) (simp add: dict_get_def)
qed

lemma v1_built_rows:
  assumes "build_protocol_v1_plan rp h diagnosis = Inr plan"
  shows "list_all (\<lambda>row. plan_row_ok h row \<and> pp_oracle_source row = ''prefix_observation_required'') (pl_pairs plan) \<and>
    pl_decision plan = ''protocol_v1_plan_ready_not_live_executed'' \<and> pl_pair_count plan = length (pl_pairs plan) \<and>
    \<not> pl_positive_claim_allowed plan"
proof -
  from assms obtain rows pairs where rows: "sequence (map (plan_pair_v1 rp h) rows) = Inr pairs" and plan: "pl_pairs plan = pairs"
    "pl_decision plan = ''protocol_v1_plan_ready_not_live_executed''" "pl_pair_count plan = length pairs" "\<not> pl_positive_claim_allowed plan"
    unfolding build_protocol_v1_plan_def by (elim and_then_InrE) auto
  have "plan_row_ok h row \<and> pp_oracle_source row = ''prefix_observation_required''" if "plan_pair_v1 rp h pair = Inr row" for pair row
    using plan_pair_ok [OF that] that by (auto simp: plan_pair_v1_def and_then_eq_Inr)
  with sequence_map_rows [OF rows] plan show ?thesis by (fastforce simp: list_all_iff)
qed

text \<open>
  a version 1 plan passes its own dry run. For every plan that is built from a diagnosis, the dry run of its dictionary
  returns, with one event per row; it passes, and its decision is the passing one, exactly when the plan has a row,
  whatever the diagnosis named as tests.
\<close>

theorem v1_plan_passes_dry_run:
  assumes "build_protocol_v1_plan rp h diagnosis = Inr plan"
  shows "\<exists>r events. v1_dry_events rp h (v1_plan_json plan) = Inr events \<and> length events = length (pl_pairs plan) \<and>
    v1_dry_report rp ri h now (v1_plan_json plan) = Inr r \<and> dict_get r ''passed'' = Some (JBool (pl_pairs plan \<noteq> [])) \<and>
    (dict_get r ''decision'' = Some (JStr ''protocol_v1_dry_run_gate_passed_live_execution_not_authorized'') \<longleftrightarrow> pl_pairs plan \<noteq> [])"
proof -
  let ?plan = "v1_plan_json plan" and ?rows = "pl_pairs plan" and ?pairs = "map v1_pair_json (pl_pairs plan)"
  from v1_built_rows [OF assms] have ok: "\<forall>row \<in> set ?rows. plan_row_ok h row \<and> pp_oracle_source row = ''prefix_observation_required''"
    and head: "pl_decision plan = ''protocol_v1_plan_ready_not_live_executed''" "pl_pair_count plan = length ?rows" "\<not> pl_positive_claim_allowed plan"
    by (simp_all add: list_all_iff)
  have rows: "plan_rows ?plan = Inr ?pairs"
    by (rule plan_rows_map) (simp add: field_or_null_def dict_get_def v1_plan_json_def)
  have "\<forall>x \<in> set (enumerate 0 ?pairs). \<exists>e. (\<lambda>(i, row). v1_dry_event rp h i row) x = Inr e \<and>
      (quiet_event e \<and> field_bool e ''official_eval_identifiers_runtime_visible'' False)"
    using v1_dry_event_ok ok by (auto simp: in_set_enumerate_eq)
  from sequence_all [OF this] obtain events where events: "v1_dry_events rp h ?plan = Inr events" "length events = length ?rows"
    "list_all quiet_event events" "list_all (\<lambda>e. field_bool e ''official_eval_identifiers_runtime_visible'' False) events"
    by (auto simp: v1_dry_events_def rows list_all_iff)
  have valid: "rows_valid (protocol_v1_from_dict rp) (protocol_v1_hash h) ''protocol_v1'' ?pairs = Inr (True, True)"
  proof (rule rows_valid_all)
    show "\<forall>row \<in> set ?pairs. \<exists>p. protocol_v1_from_dict rp (json_or (field_or_null row ''protocol_v1'') (JObj [])) = Inr p \<and>
        field_text row ''protocol_hash'' (protocol_v1_hash h p)"
    proof
      fix row assume "row \<in> set ?pairs"
      then obtain r where r: "row = v1_pair_json r" "plan_row_ok h r" using ok by auto
      then obtain p where "valid_v1 p" "pp_protocol r = protocol_v1_to_dict p" "pp_protocol_hash r = protocol_v1_hash h p"
        by (auto simp: plan_row_ok_def)
      then show "\<exists>p. protocol_v1_from_dict rp (json_or (field_or_null row ''protocol_v1'') (JObj [])) = Inr p \<and>
          field_text row ''protocol_hash'' (protocol_v1_hash h p)"
        by (intro exI [of _ p]) (simp add: r field_or_null_def field_text_def dict_get_def v1_pair_json_def printed_protocol valid_v1_parses)
    qed
  qed
  have row: "field_bool (v1_pair_json r) ''same_pair_rerun_attribution_eligible'' False"
    "field_text (v1_pair_json r) ''runtime_oracle_source'' ''prefix_observation_required''"
    "is_dict (field_or_null (v1_pair_json r) ''official_eval_tests_analysis_only'')" if "r \<in> set ?rows" for r
    using ok that by (simp_all add: plan_row_ok_def field_bool_def field_text_def field_or_null_def dict_get_def v1_pair_json_def is_dict_def)
  have count: "json_int ri (json_or (field_or_null ?plan ''pair_count'') (JInt (-1))) =
      Inr (if ?rows = [] then -1 else int (length ?rows))"
    by (simp add: field_or_null_def dict_get_def v1_plan_json_def head json_or_def json_int_def)
  have plan: "field_text ?plan ''decision'' ''protocol_v1_plan_ready_not_live_executed''"
    "field_bool ?plan ''same_pair_positive_claim_allowed'' False"
    using head by (simp_all add: field_text_def field_bool_def dict_get_def v1_plan_json_def)
  have ne: "events \<noteq> [] \<longleftrightarrow> ?rows \<noteq> []" using events(2) by auto
  have "\<exists>gates. v1_dry_gates rp ri h ?plan events = Inr gates \<and> (list_all snd gates \<longleftrightarrow> ?rows \<noteq> [])"
    using row quiet_events events ne
    by (cases "?rows = []") (auto simp: v1_dry_gates_def rows valid count plan all_pairs_def list_all_iff)
  then obtain gates where gates: "v1_dry_gates rp ri h ?plan events = Inr gates" "list_all snd gates \<longleftrightarrow> ?rows \<noteq> []" by blast
  then show ?thesis
    by (simp add: v1_dry_report_def rows events Let_def report_fields list_all_iff [symmetric])
qed

definition demo_diagnosis :: json where
  "demo_diagnosis = JObj [(''decision'', JNull), (''per_pair'', JList [example_row_v1])]"

lemma demo_diagnosis_planned: "\<exists>plan. build_protocol_v1_plan (\<lambda>_. '''') id demo_diagnosis = Inr plan \<and> pl_pairs plan \<noteq> []"
proof -
  obtain row where "plan_pair_v1 (\<lambda>_. '''') id example_row_v1 = Inr row" using example_row_planned by blast
  then show ?thesis by (simp add: build_protocol_v1_plan_def dict_field_defs demo_diagnosis_def)
qed

theorem v1_plan_passes_dry_run_witness:
  "\<exists>plan r. build_protocol_v1_plan (\<lambda>_. '''') id demo_diagnosis = Inr plan \<and>
     v1_dry_report (\<lambda>_. '''') py_int id '''' (v1_plan_json plan) = Inr r \<and> dict_get r ''passed'' = Some (JBool True)"
proof -
  obtain plan where plan: "build_protocol_v1_plan (\<lambda>_. '''') id demo_diagnosis = Inr plan" "pl_pairs plan \<noteq> []"
    using demo_diagnosis_planned by blast
  from v1_plan_passes_dry_run [OF plan(1), of py_int "''''"] plan show ?thesis by auto
qed

section \<open>A version 2 plan\<close>

lemma is_target_no_uplift: "is_target r \<Longrightarrow> is_no_uplift r \<and> field_text r ''trajectory_outcome_class'' ''trajectory_diverged_no_uplift''"
  by (simp add: is_target_def)

lemma no_uplift_not_uplift: "is_no_uplift r \<Longrightarrow> \<not> is_uplift r"
  by (auto simp: is_no_uplift_def is_uplift_def field_text_def V2_NO_UPLIFT_LABELS_def V2_POSITIVE_LABEL_def)

lemma v2_row_fields:
  "field_bool (v2_plan_row h p i row) ''same_pair_positive_claim_allowed'' False"
  "field_bool (v2_plan_row h p i row) ''requires_new_fresh_failure_target'' True"
  "field_text (v2_plan_row h p i row) ''runtime_oracle_source'' ''live_feature_and_prefix_observation_only''"
  "field_text (v2_plan_row h p i row) ''protocol_hash'' (protocol_v2_hash h p)"
  "json_or (field_or_null (v2_plan_row h p i row) ''protocol_v2'') d = protocol_v2_to_dict p"
  by (simp_all add: v2_plan_row_def field_bool_def field_text_def field_or_null_def dict_get_def printed_protocol)

lemma v2_plan_fields:
  assumes "v2_prescription_plan h outcomes rows p = Inr plan"
  obtains pairs where "pairs = map (\<lambda>(i, row). v2_plan_row h p i row) (enumerate 1 (filter is_target rows))" "plan_rows plan = Inr pairs"
    "target_rows rows = Inr (filter is_target rows)" "field_bool plan ''same_pair_positive_claim_allowed'' False"
    "field_bool plan ''live_execution_authorized'' False" "field_bool plan ''official_eval_authorized'' False"
proof -
  define pairs where "pairs = map (\<lambda>(i, row). v2_plan_row h p i row) (enumerate 1 (filter is_target rows))"
  from assms have targets: "target_rows rows = Inr (filter is_target rows)"
    by (auto simp: v2_prescription_plan_def target_rows_def elim!: and_then_InrE)
  with assms have plan: "plan = [(''decision'', JStr (if pairs \<noteq> [] then ''protocol_v2_prescription_plan_ready_not_live_executed''
            else ''protocol_v2_prescription_plan_blocked_no_target_rows'')),
       (''source_decision'', field_or_null outcomes ''decision''), (''source_passed'', field_or_null outcomes ''passed''),
       (''claim_boundary'', JStr V2_DRY_BOUNDARY), (''pair_count'', JInt (int (length pairs))),
       (''same_pair_positive_claim_allowed'', JBool False), (''live_execution_authorized'', JBool False),
       (''official_eval_authorized'', JBool False), (''pairs'', JList (map JObj pairs))]"
    by (simp add: v2_prescription_plan_def pairs_def Let_def)
  have "plan_rows plan = Inr pairs"
    using plan_rows_map [of plan id pairs] by (simp add: plan field_or_null_def dict_get_def)
  then show ?thesis
    by (rule that [OF pairs_def]) (simp_all add: targets plan field_bool_def dict_get_def)
qed

lemma v2_dry_event_ok:
  assumes "valid_v2 p"
  shows "\<exists>e. v2_dry_event rp ri h i (v2_plan_row h p j row) = Inr e \<and> quiet_event e"
  by (simp add: v2_dry_event_def v2_row_fields valid_v2_parses [OF assms] quiet_event_def field_bool_def) (simp add: dict_get_def)

lemma v2_rows_quiet:
  assumes "valid_v2 p" "pairs = map (\<lambda>(i, row). v2_plan_row h p i row) (enumerate 1 targets)"
  shows "\<forall>x \<in> set (enumerate 0 pairs). \<exists>e. (\<lambda>(i, row). v2_dry_event rp ri h i row) x = Inr e \<and> quiet_event e"
proof
    fix x assume "x \<in> set (enumerate 0 pairs)"
    moreover obtain i row where "x = (i, row)" by force
    ultimately have x: "x = (i, row)" "row \<in> set pairs" by (auto simp: in_set_enumerate_eq)
    then obtain j src where "row = v2_plan_row h p j src" by (auto simp: assms(2))
    with v2_dry_event_ok [OF assms(1)] x(1) show "\<exists>e. (\<lambda>(i, row). v2_dry_event rp ri h i row) x = Inr e \<and> quiet_event e" by auto
qed

lemma v2_gate_facts:
  assumes "valid_v2 p" "v1_outcomes_evidence rp ri now cards v0 with_v0 target = Inr (outcomes, rows)"
    "v2_dry_report rp ri h now' outcomes rows p = Inr r"
  shows "\<exists>plan pairs events policy. v2_prescription_plan h outcomes rows p = Inr plan \<and> plan_rows plan = Inr pairs \<and>
    v2_dry_events rp ri h plan = Inr events \<and> length pairs = length (filter is_target rows) \<and> length events = length pairs \<and>
    (dict_get r ''passed'' = Some (JBool True) \<longleftrightarrow>
       list_ex is_target rows \<and> list_all (sound_v1_row ri) rows \<and> 0 < target \<and> supports_revision rows target \<and>
       audit_clean (audit_projection plan pairs events)) \<and>
    dict_get outcomes ''continuation_policy'' = Some (JObj policy) \<and>
    (dict_get r ''passed'' = Some (JBool True) \<longrightarrow> dict_get policy ''allow_protocol_v2_prescription_design'' = Some (JBool True))"
proof -
  from assms(2) obtain references where rep: "v1_outcomes_report rp ri now rows references target = Inr outcomes"
    by (auto simp: v1_outcomes_evidence_def Let_def elim!: and_then_InrE)
  obtain s gates where s: "v1_outcomes_summary rows target = Inr s" "v1_outcomes_gates ri rows s = Inr gates"
    "dict_get outcomes ''decision'' = Some (JStr (v1_outcomes_decision s gates))"
    "dict_get outcomes ''passed'' = Some (JBool (list_all snd gates))"
    "dict_get outcomes ''continuation_policy'' = Some (v1_outcomes_policy s gates)"
    by (rule v1_report_facts [OF rep])
  note sum = v1_summary_facts [OF s(1)]
  from assms(3) obtain plan pairs events dgates where d: "v2_prescription_plan h outcomes rows p = Inr plan" "plan_rows plan = Inr pairs"
    "v2_dry_events rp ri h plan = Inr events" "v2_dry_gates rp ri h outcomes rows plan events = Inr dgates"
    and passed: "dict_get r ''passed'' = Some (JBool (list_all snd dgates))"
    unfolding v2_dry_report_def Let_def by (elim and_then_InrE) (auto simp: report_fields list_all_iff)
  from d(1) obtain targets where pairs: "pairs = map (\<lambda>(i, row). v2_plan_row h p i row) (enumerate 1 targets)"
    and targets: "targets = filter is_target rows" "target_rows rows = Inr targets"
    and plan: "field_bool plan ''same_pair_positive_claim_allowed'' False"
      "field_bool plan ''live_execution_authorized'' False" "field_bool plan ''official_eval_authorized'' False"
    using d(2) by (elim v2_plan_fields) auto
  have "\<forall>x \<in> set (enumerate 0 pairs). \<exists>e. (\<lambda>(i, row). v2_dry_event rp ri h i row) x = Inr e \<and> quiet_event e"
    using v2_rows_quiet [OF assms(1)] pairs by blast
  from sequence_all [OF this] d(2,3) have events: "length events = length pairs" "list_all quiet_event events"
    by (auto simp: v2_dry_events_def)
  have valid: "rows_valid (protocol_v2_from_dict rp ri) (protocol_v2_hash h) ''protocol_v2'' pairs = Inr (True, True)"
    by (rule rows_valid_all) (auto simp: pairs v2_row_fields valid_v2_parses [OF assms(1)])
  have all: "all_pairs pairs (\<lambda>r. field_bool r ''same_pair_positive_claim_allowed'' False) \<longleftrightarrow> pairs \<noteq> []"
    "all_pairs pairs (\<lambda>r. field_bool r ''requires_new_fresh_failure_target'' True) \<longleftrightarrow> pairs \<noteq> []"
    "all_pairs pairs (\<lambda>r. field_text r ''runtime_oracle_source'' ''live_feature_and_prefix_observation_only'') \<longleftrightarrow> pairs \<noteq> []"
    by (auto simp: all_pairs_def list_all_iff pairs v2_row_fields)
  have len: "length pairs = length targets" by (simp add: pairs)
  then have ne: "events \<noteq> [] \<longleftrightarrow> targets \<noteq> []" "pairs \<noteq> [] \<longleftrightarrow> targets \<noteq> []" using events(1) by auto
  have source: "list_ex (field_text outcomes ''decision'') SOURCE_DECISIONS \<longleftrightarrow> list_all snd gates \<and> supports_revision rows target"
    using v1_decision_revision [OF s(1), of gates] by (auto simp: SOURCE_DECISIONS_def field_text_def s(3))
  have src: "field_bool outcomes ''passed'' True \<longleftrightarrow> list_all snd gates" by (simp add: field_bool_def s(4))
  have "list_all snd dgates \<longleftrightarrow> list_all snd gates \<and> supports_revision rows target \<and> targets \<noteq> [] \<and>
      audit_clean (audit_projection plan pairs events)"
    using d(4) quiet_events [OF events(2)] source is_target_no_uplift
    by (auto simp: v2_dry_gates_def Let_def d(2) valid targets(2) plan all len ne events(1) audit_clean_def src
        elim!: and_then_InrE) (auto simp: targets(1) list_all_iff)
  note gates_eq = this
  moreover have "targets \<noteq> [] \<longleftrightarrow> list_ex is_target rows" by (auto simp: targets filter_empty_conv list_ex_iff)
  moreover have "rows \<noteq> []" if "list_ex is_target rows" using that by auto
  ultimately have iff: "list_all snd dgates \<longleftrightarrow> list_ex is_target rows \<and> list_all (sound_v1_row ri) rows \<and> 0 < target \<and>
      supports_revision rows target \<and> audit_clean (audit_projection plan pairs events)"
    using v1_gates_iff [OF s(2)] sum by blast
  define policy where "policy = (case v1_outcomes_policy s gates of JObj kvs \<Rightarrow> kvs | _ \<Rightarrow> [])"
  have policy: "v1_outcomes_policy s gates = JObj policy" "dict_get policy ''allow_protocol_v2_prescription_design'' =
      Some (JBool (list_all snd gates \<and> 0 < vo_no_uplift s \<and> vo_positive s = 0))"
    by (simp_all add: policy_def v1_outcomes_policy_def Let_def dict_get_def)
  have allow: "list_all snd gates \<and> 0 < vo_no_uplift s \<and> vo_positive s = 0" if "list_all snd dgates"
  proof -
    from that iff have ready: "list_ex is_target rows" "supports_revision rows target" and g: "list_all snd gates"
      using gates_eq by auto
    from ready have "list_ex is_no_uplift rows" by (auto simp: list_ex_iff dest: is_target_no_uplift)
    moreover have "\<not> list_ex is_uplift rows" using ready(2) no_uplift_not_uplift
      by (auto simp: supports_revision_def list_ex_iff list_all_iff split: if_splits)
    ultimately show ?thesis using g sum by (metis bot_nat_0.not_eq_extremum rows_with_zero)
  qed
  show ?thesis
    using d(1,2,3) len events(1) iff allow by (intro exI conjI) (auto simp: passed policy s(5) targets(1))
qed

lemma v2_dry_report_returns:
  assumes "valid_v2 p" "list_all label_hashable rows" "json_hashable (field_or_null outcomes ''decision'')"
  shows "\<exists>r. v2_dry_report rp ri h now outcomes rows p = Inr r"
proof -
  have targets: "target_rows rows = Inr (filter is_target rows)"
    using assms(2) by (auto simp: target_rows_def raise_if_def list_ex_iff list_all_iff)
  then obtain plan where plan: "v2_prescription_plan h outcomes rows p = Inr plan" by (auto simp: v2_prescription_plan_def Let_def)
  then obtain pairs where pairs: "pairs = map (\<lambda>(i, row). v2_plan_row h p i row) (enumerate 1 (filter is_target rows))" "plan_rows plan = Inr pairs"
    by (elim v2_plan_fields)
  have "\<forall>x \<in> set (enumerate 0 pairs). \<exists>e. (\<lambda>(i, row). v2_dry_event rp ri h i row) x = Inr e \<and> quiet_event e"
    using v2_rows_quiet [OF assms(1)] pairs(1) by blast
  from sequence_all [OF this] obtain events where "v2_dry_events rp ri h plan = Inr events" by (auto simp: v2_dry_events_def pairs(2))
  moreover have "rows_valid (protocol_v2_from_dict rp ri) (protocol_v2_hash h) ''protocol_v2'' pairs = Inr (True, True)"
    by (rule rows_valid_all) (auto simp: pairs v2_row_fields valid_v2_parses [OF assms(1)])
  ultimately show ?thesis
    using assms(3) by (simp add: v2_dry_report_def v2_dry_gates_def plan pairs(2) targets no_raw_payload_def no_secret_literal_def Let_def)
qed

text \<open>
  C40: a version 2 prescription plan is let through only behind a version 1 batch that calls for one. Let the dry run of
  an accepted protocol be fed with the report and the rows of a version 1 batch. It returns, the plan has one
  row and one event for every pair whose trajectory diverged without uplift, and it passes exactly when there is
  such a pair, every row of the batch is a sound official evaluation, the batch calls for a revision (no uplift
  anywhere, and, once the target is met, no harm), and what would be written has no raw-payload key and no secret.
  When it passes, the continuation policy of the batch allowed the design of a version 2 prescription.
\<close>

theorem prescription_plan_gate:
  assumes "valid_v2 p" "v1_outcomes_evidence rp ri now cards v0 with_v0 target = Inr (outcomes, rows)"
  shows "\<exists>r plan pairs events policy. v2_dry_report rp ri h now' outcomes rows p = Inr r \<and>
    v2_prescription_plan h outcomes rows p = Inr plan \<and> plan_rows plan = Inr pairs \<and>
    v2_dry_events rp ri h plan = Inr events \<and> length pairs = length (filter is_target rows) \<and> length events = length pairs \<and>
    (dict_get r ''passed'' = Some (JBool True) \<longleftrightarrow>
       list_ex is_target rows \<and> list_all (sound_v1_row ri) rows \<and> 0 < target \<and> supports_revision rows target \<and>
       audit_clean (audit_projection plan pairs events)) \<and>
    dict_get outcomes ''continuation_policy'' = Some (JObj policy) \<and>
    (dict_get r ''passed'' = Some (JBool True) \<longrightarrow> dict_get policy ''allow_protocol_v2_prescription_design'' = Some (JBool True))"
proof -
  from assms(2) obtain references where rep: "v1_outcomes_report rp ri now rows references target = Inr outcomes"
    by (auto simp: v1_outcomes_evidence_def Let_def elim!: and_then_InrE)
  obtain s gates where s: "v1_outcomes_summary rows target = Inr s"
    "dict_get outcomes ''decision'' = Some (JStr (v1_outcomes_decision s gates))"
    by (rule v1_report_facts [OF rep])
  from s(1) have "list_all label_hashable rows" by (auto simp: v1_outcomes_summary_def elim!: and_then_InrE)
  moreover have "json_hashable (field_or_null outcomes ''decision'')" by (simp add: field_or_null_def s(2) json_hashable_def)
  ultimately obtain r where r: "v2_dry_report rp ri h now' outcomes rows p = Inr r"
    using v2_dry_report_returns [OF assms(1)] by blast
  from v2_gate_facts [OF assms r] r show ?thesis by blast
qed

definition diverged_card :: v1_card_file where
  "diverged_card = \<lparr>vf_path = ''p'', vf_scorecard = [(''effect_label'', JStr ''both_unresolved_trigger_hit_pair_no_uplift''),
       (''official_eval_completed'', JBool True), (''outcome_source'', JStr ''official_eval''),
       (''state_capsule_equivalence_claimed'', JBool False)],
     vf_official = None, vf_live = Some (''q'', [[(''replay_prefix_output_hashes_match'', JBool True), (''treatment_hook_event_count'', JInt 1),
       (''control_patch_archive_sha256'', JStr ''a''), (''intervention_patch_archive_sha256'', JStr ''b'')]])\<rparr>"

lemma diverged_fields:
  fixes rp
  defines "row \<equiv> normalize_protocol_v1_pair rp diverged_card"
  shows "dict_get row ''protocol_family'' = Some (JStr ''protocol_v1_constraint_hook'')"
    "dict_get row ''effect_label'' = Some (JStr ''both_unresolved_trigger_hit_pair_no_uplift'')"
    "dict_get row ''official_eval_completed'' = Some (JBool True)" "dict_get row ''outcome_source'' = Some (JStr ''official_eval'')"
    "dict_get row ''state_capsule_equivalence_claimed'' = Some (JBool False)"
    "dict_get row ''replay_prefix_output_hashes_match'' = Some (JBool True)" "dict_get row ''treatment_hook_event_count'' = Some (JInt 1)"
    "dict_get row ''trajectory_outcome_class'' = Some (JStr ''trajectory_diverged_no_uplift'')"
proof -
  let ?merged = "dict_update (live_summary diverged_card) (vf_scorecard diverged_card)"
  have merged: "field_or_null ?merged ''effect_label'' = JStr ''both_unresolved_trigger_hit_pair_no_uplift''"
    "field_bool ?merged ''official_eval_completed'' True" "field_or_null ?merged ''outcome_source'' = JStr ''official_eval''"
    by (simp_all add: dict_update_def diverged_card_def field_or_null_def field_bool_def)
  have live: "field_or_null (live_summary diverged_card) k = (if k = ''replay_prefix_output_hashes_match'' then JBool True
      else if k = ''treatment_hook_event_count'' then JInt 1 else if k = ''control_patch_archive_sha256'' then JStr ''a''
      else if k = ''intervention_patch_archive_sha256'' then JStr ''b'' else JNull)" for k
    by (simp add: live_summary_def first_row_def diverged_card_def field_or_null_def dict_get_def)
  have card: "field_or_null (vf_scorecard diverged_card) ''state_capsule_equivalence_claimed'' = JBool False"
    by (simp add: diverged_card_def field_or_null_def dict_get_def)
  have cls: "v1_outcome_class rp (v1_pair_row diverged_card @ [(''patch_diverged'', v)]) = ''trajectory_diverged_no_uplift''" for v
    by (simp add: v1_outcome_class_def v1_patch_diverged_def text_or_def field_bool_def [of "_ @ _"] field_or_null_def [of "_ @ _"]
        dict_get_append dict_get_Cons v1_pair_row_fields merged live Let_def json_or_def
        V2_POSITIVE_LABEL_def V2_NEGATIVE_LABEL_def V2_NO_UPLIFT_LABELS_def)
  show "dict_get row ''protocol_family'' = Some (JStr ''protocol_v1_constraint_hook'')"
    "dict_get row ''effect_label'' = Some (JStr ''both_unresolved_trigger_hit_pair_no_uplift'')"
    "dict_get row ''official_eval_completed'' = Some (JBool True)" "dict_get row ''outcome_source'' = Some (JStr ''official_eval'')"
    "dict_get row ''state_capsule_equivalence_claimed'' = Some (JBool False)"
    "dict_get row ''replay_prefix_output_hashes_match'' = Some (JBool True)" "dict_get row ''treatment_hook_event_count'' = Some (JInt 1)"
    "dict_get row ''trajectory_outcome_class'' = Some (JStr ''trajectory_diverged_no_uplift'')"
    unfolding row_def by (simp_all add: dict_get_normalized_v1 v1_pair_row_fields merged live card cls)
qed

lemma diverged_row: "is_target (normalize_protocol_v1_pair rp diverged_card)" "label_hashable (normalize_protocol_v1_pair rp diverged_card)"
  "sound_v1_row ri (normalize_protocol_v1_pair rp diverged_card)" "hooks_observed ri [normalize_protocol_v1_pair rp diverged_card] = Inr True"
  by (simp_all add: is_target_def target_candidate_def is_no_uplift_def label_hashable_def sound_v1_row_def sound_card_def hook_counted_def
      field_text_def field_bool_def field_or_null_def diverged_fields V2_NO_UPLIFT_LABELS_def json_or_def json_int_def)

theorem prescription_plan_gate_witness:
  "\<exists>outcomes rows r. v1_outcomes_evidence (\<lambda>_. '''') py_int '''' [diverged_card] [] True 4 = Inr (outcomes, rows) \<and>
     v2_dry_report (\<lambda>_. '''') py_int id '''' outcomes rows example_protocol_v2 = Inr r"
proof -
  let ?row = "normalize_protocol_v1_pair (\<lambda>_. '''') diverged_card"
  have "v1_outcomes_summary [?row] 4 \<noteq> Inl e" "v1_outcomes_gates py_int [?row] s \<noteq> Inl e'" for e e' s
    using diverged_row by (simp_all add: v1_outcomes_summary_def v1_outcomes_gates_def)
  then obtain outcomes where "v1_outcomes_report (\<lambda>_. '''') py_int '''' [?row] [] 4 = Inr outcomes"
    using diverged_row by (simp add: v1_outcomes_report_def v1_outcomes_summary_def v1_outcomes_gates_def)
  then have e: "v1_outcomes_evidence (\<lambda>_. '''') py_int '''' [diverged_card] [] True 4 = Inr (outcomes, [?row])"
    by (simp add: v1_outcomes_evidence_def)
  from prescription_plan_gate [OF example_v2_valid e, of id "''''"] e show ?thesis by blast
qed

end
