(* ===== verification/Mechanistic_Endpoints.thy ===== *)
theory Mechanistic_Endpoints
  imports Batch_Outcomes Py_Lines
begin

text \<open>
  Secondary endpoints of completed pairs, \<open>packages/clinic/src/wutai_clinic/engine/mechanistic_endpoints.py\<close>: what the two arms'
  patches and action sequences say beside the binary outcome. Finding the files and the gold patches is not modelled:
  a pair is its scorecard with the texts found for each arm. \<open>sim\<close> is the line similarity of \<open>difflib\<close>,
  \<open>rp\<close> is \<open>repr\<close> on containers; rates are rationals.
\<close>

section \<open>Endpoints of a patch\<close>

text \<open>The lines of a text as \<open>^\<close> sees them with \<open>re.MULTILINE\<close>, and the file named by a header line.\<close>

fun newline_split :: "string \<Rightarrow> string list" where
  "newline_split [] = [[]]"
| "newline_split (c # cs) =
     (if c = CHR 0x0A then [] # newline_split cs
      else (case newline_split cs of l # ls \<Rightarrow> (c # l) # ls | [] \<Rightarrow> [[c]]))"

definition after_prefix :: "string \<Rightarrow> string \<Rightarrow> string option" where
  "after_prefix p s = (if starts_with p s then Some (drop (length p) s) else None)"

definition solid :: "string \<Rightarrow> string" where
  "solid s = takeWhile (\<lambda>c. \<not> py_space c) s"

definition header_file :: "string option \<Rightarrow> string option" where
  "header_file rest = (case rest of Some r \<Rightarrow> if solid r = [] then None else Some (solid r) | None \<Rightarrow> None)"

definition diff_git_file :: "string \<Rightarrow> string option" where
  "diff_git_file line =
     (case after_prefix ''diff --git a/'' line of
        None \<Rightarrow> None
      | Some r \<Rightarrow> if solid r = [] then None else header_file (after_prefix '' b/'' (drop (length (solid r)) r)))"

definition plus_file :: "string \<Rightarrow> string option" where
  "plus_file line = header_file (after_prefix ''+++ b/'' line)"

definition patch_files :: "string \<Rightarrow> string set" where
  "patch_files patch =
     (let ls = newline_split patch in
      (set (List.map_filter diff_git_file ls) \<union> set (List.map_filter plus_file ls)) - {''/dev/null''})"

record overlap =
  ov_patch :: "string set"
  ov_gold :: "string set"
  ov_jaccard :: rat
  ov_hit :: bool

definition gold_file_overlap :: "string \<Rightarrow> string \<Rightarrow> overlap" where
  "gold_file_overlap patch gold =
     (let p = patch_files patch; g = patch_files gold in
      \<lparr>ov_patch = p, ov_gold = g,
        ov_jaccard = (if p \<union> g \<noteq> {} then of_nat (card (p \<inter> g)) / of_nat (card (p \<union> g)) else 0),
        ov_hit = (p \<inter> g \<noteq> {})\<rparr>)"

definition edit_distance :: "(string list \<Rightarrow> string list \<Rightarrow> rat) \<Rightarrow> string \<Rightarrow> string \<Rightarrow> rat" where
  "edit_distance sim a b = 1 - sim (splitlines a) (splitlines b)"

record patch_size =
  ps_added :: nat
  ps_removed :: nat

definition patch_size_lines :: "string \<Rightarrow> patch_size" where
  "patch_size_lines patch =
     (let body = filter (\<lambda>l. \<not> starts_with ''+++'' l \<and> \<not> starts_with ''---'' l) (splitlines patch)
      in \<lparr>ps_added = length (filter (starts_with ''+'') body),
          ps_removed = length (filter (\<lambda>l. \<not> starts_with ''+'' l \<and> starts_with ''-'' l) body)\<rparr>)"

definition ps_total :: "patch_size \<Rightarrow> nat" where
  "ps_total s = ps_added s + ps_removed s"

text \<open>\<open>len(v or [])\<close>\<close>

definition len_or_empty :: "json \<Rightarrow> pyexn + nat" where
  "len_or_empty v = and_then (json_iter (json_or v (JList []))) (\<lambda>xs. Inr (length xs))"

record f2p =
  fp_passed :: nat
  fp_total :: nat
  fp_resolved :: json

definition fail_to_pass_partial :: "json pydict \<Rightarrow> string \<Rightarrow> pyexn + f2p option" where
  "fail_to_pass_partial report instance_id =
     (case field_or_null report instance_id of
        JObj inst \<Rightarrow>
          (case field_or_null inst ''tests_status'' of
             JObj tests \<Rightarrow>
               (case field_or_null tests ''FAIL_TO_PASS'' of
                  JObj fp \<Rightarrow>
                    and_then (len_or_empty (field_or_null fp ''success'')) (\<lambda>passed.
                    and_then (len_or_empty (field_or_null fp ''failure'')) (\<lambda>failed.
                    Inr (Some \<lparr>fp_passed = passed, fp_total = passed + failed, fp_resolved = field_or_null inst ''resolved''\<rparr>)))
                | _ \<Rightarrow> Inr None)
           | _ \<Rightarrow> Inr None)
      | _ \<Rightarrow> Inr None)"

section \<open>Divergence\<close>

definition first_divergence_step :: "string list \<Rightarrow> string list \<Rightarrow> nat option" where
  "first_divergence_step as bs =
     (case find (\<lambda>(i, a, b). a \<noteq> b) (enumerate 0 (zip as bs)) of
        Some (i, _) \<Rightarrow> Some i
      | None \<Rightarrow> if length as \<noteq> length bs then Some (min (length as) (length bs)) else None)"

record divergence =
  dv_distance :: rat
  dv_step :: "nat option"
  dv_control_count :: nat
  dv_treatment_count :: nat

definition dv_diverged :: "divergence \<Rightarrow> bool" where
  "dv_diverged d \<longleftrightarrow> dv_step d \<noteq> None"

definition arm_divergence ::
    "(string list \<Rightarrow> string list \<Rightarrow> rat) \<Rightarrow> string \<Rightarrow> string \<Rightarrow> string list \<Rightarrow> string list \<Rightarrow> divergence" where
  "arm_divergence sim control treatment cacts tacts =
     \<lparr>dv_distance = edit_distance sim control treatment, dv_step = first_divergence_step cacts tacts,
       dv_control_count = length cacts, dv_treatment_count = length tacts\<rparr>"

section \<open>Rows\<close>

text \<open>What was found for an arm: its patch, the parsed trajectory file and the parsed evaluation report.\<close>

record arm_files =
  af_patch :: "string option"
  af_traj :: "json pydict option"
  af_eval :: "json pydict option"

definition traj_step_action :: "(json \<Rightarrow> string) \<Rightarrow> json \<Rightarrow> pyexn + string" where
  "traj_step_action rp step = and_then (json_get step ''action'') (\<lambda>v. Inr (json_text rp (json_or v (JStr ''''))))"

definition traj_actions :: "(json \<Rightarrow> string) \<Rightarrow> json pydict option \<Rightarrow> pyexn + string list option" where
  "traj_actions rp traj =
     (case traj of
        None \<Rightarrow> Inr None
      | Some payload \<Rightarrow>
          (case field_or_null payload ''trajectory'' of
             JList steps \<Rightarrow> and_then (sequence (map (traj_step_action rp) steps)) (\<lambda>acts. Inr (Some acts))
           | _ \<Rightarrow> Inr None))"

record arm_endpoints =
  ae_overlap :: "overlap option"
  ae_distance :: "rat option"
  ae_size :: "patch_size option"
  ae_f2p :: "f2p option"

definition arm_endpoints_of ::
    "(string list \<Rightarrow> string list \<Rightarrow> rat) \<Rightarrow> (json \<Rightarrow> string) \<Rightarrow> string \<Rightarrow> string option \<Rightarrow> arm_files \<Rightarrow>
     pyexn + arm_endpoints \<times> string list \<times> string list option" where
  "arm_endpoints_of sim rp task gold f =
     and_then (traj_actions rp (af_traj f)) (\<lambda>actions.
     and_then (case af_eval f of Some r \<Rightarrow> if r = [] then Inr None else fail_to_pass_partial r task | None \<Rightarrow> Inr None) (\<lambda>fp.
     let missing =
           (if af_patch f = None then [''gold_file_overlap'', ''gold_edit_distance'', ''patch_size_lines'']
            else if gold = None then [''gold_file_overlap'', ''gold_edit_distance''] else []) @
           (if fp = None then [''fail_to_pass_partial''] else [])
     in Inr (\<lparr>ae_overlap = (case (af_patch f, gold) of (Some p, Some g) \<Rightarrow> Some (gold_file_overlap p g) | _ \<Rightarrow> None),
          ae_distance = (case (af_patch f, gold) of (Some p, Some g) \<Rightarrow> Some (edit_distance sim p g) | _ \<Rightarrow> None),
          ae_size = map_option patch_size_lines (af_patch f), ae_f2p = fp\<rparr>, missing, actions)))"

record pair_files =
  pf_path :: string
  pf_dir :: string
  pf_scorecard :: "json pydict"
  pf_control :: arm_files
  pf_treatment :: arm_files

record mech_row =
  mr_task :: string
  mr_pair_id :: json
  mr_fresh :: bool
  mr_label :: json
  mr_completed :: bool
  mr_control :: arm_endpoints
  mr_treatment :: arm_endpoints
  mr_divergence :: "divergence option"
  mr_gold :: bool
  mr_unavailable :: "string list"
  mr_path :: string

definition mech_row_of ::
    "(string list \<Rightarrow> string list \<Rightarrow> rat) \<Rightarrow> (json \<Rightarrow> string) \<Rightarrow> string list \<Rightarrow> string pydict \<Rightarrow> pair_files \<Rightarrow> pyexn + mech_row" where
  "mech_row_of sim rp fresh gold_patches f =
     (let sc = pf_scorecard f; task = json_text rp (json_or (field_or_null sc ''source_task_id'') (JStr (pf_dir f)));
          gold = dict_get gold_patches task
      in and_then (arm_endpoints_of sim rp task gold (pf_control f)) (\<lambda>(c, cmiss, cacts).
         and_then (arm_endpoints_of sim rp task gold (pf_treatment f)) (\<lambda>(t, tmiss, tacts).
         let divergence = (case (af_patch (pf_control f), af_patch (pf_treatment f), cacts, tacts) of
               (Some cp, Some tp, Some ca, Some ta) \<Rightarrow> Some (arm_divergence sim cp tp ca ta) | _ \<Rightarrow> None);
             missing = map (\<lambda>n. ''control.'' @ n) cmiss @ map (\<lambda>n. ''treatment.'' @ n) tmiss @
               (if divergence = None then [''arm_divergence''] else [])
         in Inr \<lparr>mr_task = task, mr_pair_id = field_or_null sc ''pair_id'', mr_fresh = (task \<in> set fresh),
              mr_label = field_or_null sc ''effect_label'', mr_completed = field_bool sc ''official_eval_completed'' True,
              mr_control = c, mr_treatment = t, mr_divergence = divergence, mr_gold = (gold \<noteq> None),
              mr_unavailable = sort missing, mr_path = pf_path f\<rparr>)))"

definition mech_rows ::
    "(string list \<Rightarrow> string list \<Rightarrow> rat) \<Rightarrow> (json \<Rightarrow> string) \<Rightarrow> string list \<Rightarrow> string pydict \<Rightarrow> pair_files list \<Rightarrow> pyexn + mech_row list" where
  "mech_rows sim rp fresh gold_patches fs = sequence (map (mech_row_of sim rp fresh gold_patches) fs)"

section \<open>Summary, decision and gates\<close>

definition row_diverged :: "mech_row \<Rightarrow> bool" where
  "row_diverged r \<longleftrightarrow> (case mr_divergence r of Some d \<Rightarrow> dv_diverged d | None \<Rightarrow> False)"

definition arm_hit :: "arm_endpoints \<Rightarrow> bool" where
  "arm_hit e \<longleftrightarrow> (case ae_overlap e of Some v \<Rightarrow> ov_hit v | None \<Rightarrow> False)"

record mech_summary =
  ms_pairs :: nat
  ms_fresh :: nat
  ms_reference :: nat
  ms_diverged :: nat
  ms_gold :: nat
  ms_hits :: nat
  ms_no_uplift_all :: bool

definition mechanistic_summary :: "(json \<Rightarrow> string) \<Rightarrow> mech_row list \<Rightarrow> mech_summary" where
  "mechanistic_summary rp rows =
     (let count = (\<lambda>P. length (filter P rows)) in
      \<lparr>ms_pairs = length rows, ms_fresh = count mr_fresh, ms_reference = count (\<lambda>r. \<not> mr_fresh r), ms_diverged = count row_diverged,
        ms_gold = count mr_gold, ms_hits = count (\<lambda>r. arm_hit (mr_control r) \<or> arm_hit (mr_treatment r)),
        ms_no_uplift_all = (rows \<noteq> [] \<and> list_all (\<lambda>r. json_text rp (json_or (mr_label r) (JStr '''')) \<in> set V2_NO_UPLIFT_LABELS) rows)\<rparr>)"

definition mechanistic_decision :: "mech_summary \<Rightarrow> string" where
  "mechanistic_decision s =
     (if ms_pairs s = 0 then ''mechanistic_endpoints_blocked_no_pairs''
      else if 0 < ms_diverged s \<and> ms_no_uplift_all s then ''mechanistic_endpoints_ready_divergence_without_outcome_change''
      else if ms_diverged s = 0 then ''mechanistic_endpoints_ready_no_divergence_observed''
      else ''mechanistic_endpoints_ready_mixed_primary_outcomes'')"

definition mechanistic_gates :: "mech_row list \<Rightarrow> mech_summary \<Rightarrow> bool pydict" where
  "mechanistic_gates rows s =
     [(''mechanistic_rows_present'', 0 < ms_pairs s),
      (''official_eval_completed_all_rows'', rows \<noteq> [] \<and> list_all mr_completed rows),
      (''patch_artifacts_resolved_all_rows'', rows \<noteq> [] \<and> list_all (\<lambda>r. ''arm_divergence'' \<notin> set (mr_unavailable r)) rows)]"

definition MECH_BOUNDARY :: string where
  "MECH_BOUNDARY = ''Secondary mechanistic endpoints are exploratory, pre-registered for '' @
     ''dose-response characterization only; they do not alter the primary '' @
     ''no-uplift conclusion and support no predictive or causal claim.''"

definition mech_summary_json :: "mech_summary \<Rightarrow> json" where
  "mech_summary_json s =
     (let num = (\<lambda>n. JInt (int n)) in JObj
      [(''pair_count'', num (ms_pairs s)), (''strict_fresh_pair_count'', num (ms_fresh s)), (''reference_pair_count'', num (ms_reference s)),
       (''diverged_pair_count'', num (ms_diverged s)), (''gold_available_pair_count'', num (ms_gold s)),
       (''any_gold_file_hit_pair_count'', num (ms_hits s)), (''primary_outcome_no_uplift_all'', JBool (ms_no_uplift_all s))])"

definition mechanistic_report ::
    "(string list \<Rightarrow> string list \<Rightarrow> rat) \<Rightarrow> (json \<Rightarrow> string) \<Rightarrow> string \<Rightarrow> string \<Rightarrow> string \<Rightarrow> string list \<Rightarrow> string pydict \<Rightarrow> pair_files list \<Rightarrow>
     pyexn + json pydict \<times> mech_row list" where
  "mechanistic_report sim rp now gold_source dir fresh gold_patches fs =
     and_then (mech_rows sim rp fresh gold_patches fs) (\<lambda>rows.
     let s = mechanistic_summary rp rows in
     Inr (generate_report now (Some ''7.mechanistic_endpoints'') (Some (mechanistic_decision s)) (mechanistic_gates rows s)
       [(''version'', JStr ''phase7_mechanistic_endpoints_v1''),
        (''summary'', mech_summary_json s),
        (''claim_boundary'', JStr MECH_BOUNDARY),
        (''oracle_data_used'', JStr ''gold_patch_offline_analysis_only''),
        (''gold_source'', JStr gold_source),
        (''evidence_root'', JStr dir)] None, rows))"

section \<open>What the endpoints mean\<close>

lemma find_enumerate_zip:
  "find (\<lambda>(i, a, b). a \<noteq> b) (enumerate n (zip as bs)) = None \<longleftrightarrow> take (min (length as) (length bs)) as = take (min (length as) (length bs)) bs"
proof (induction as arbitrary: n bs)
  case (Cons a as)
  then show ?case by (cases bs) auto
qed simp

lemma find_enumerate_zip_Some:
  "find (\<lambda>(i, a, b). a \<noteq> b) (enumerate n (zip as bs)) = Some (k, x) \<Longrightarrow>
     n \<le> k \<and> k - n < min (length as) (length bs) \<and> take (k - n) as = take (k - n) bs \<and> as ! (k - n) \<noteq> bs ! (k - n)"
proof (induction as arbitrary: n bs)
  case (Cons a as)
  then obtain b bs' where bs: "bs = b # bs'" by (cases bs) auto
  show ?case
  proof (cases "a = b")
    case True
    with Cons.prems bs have f: "find (\<lambda>(i, a, b). a \<noteq> b) (enumerate (Suc n) (zip as bs')) = Some (k, x)" by simp
    from Cons.IH [OF f] have "k - n = Suc (k - Suc n)" by linarith
    with Cons.IH [OF f] True bs show ?thesis by simp
  qed (use Cons.prems bs in auto)
qed simp

text \<open>The step is where the sequences part, and there is none exactly when they are the same.\<close>

lemma divergence_None: "first_divergence_step as bs = None \<longleftrightarrow> as = bs"
  using find_enumerate_zip [of 0 as bs] by (auto simp: first_divergence_step_def split: option.splits)

lemma divergence_ex: "(\<exists>k. first_divergence_step as bs = Some k) \<longleftrightarrow> as \<noteq> bs" "first_divergence_step as as = None"
  using divergence_None [of as bs] divergence_None [of as as] by auto

lemma divergence_Some:
  assumes "first_divergence_step as bs = Some k"
  shows "k \<le> min (length as) (length bs) \<and> take k as = take k bs \<and> take (Suc k) as \<noteq> take (Suc k) bs"
proof (cases "find (\<lambda>(i, a, b). a \<noteq> b) (enumerate 0 (zip as bs))")
  case None
  with assms have k: "k = min (length as) (length bs)" "length as \<noteq> length bs"
    by (auto simp: first_divergence_step_def split: if_splits)
  with None have "take k as = take k bs" by (simp only: find_enumerate_zip)
  moreover have "length (take (Suc k) as) \<noteq> length (take (Suc k) bs)" using k by (auto simp: min_def)
  ultimately show ?thesis using k(1) by fastforce
next
  case (Some y)
  with assms obtain x where "find (\<lambda>(i, a, b). a \<noteq> b) (enumerate 0 (zip as bs)) = Some (k, x)"
    by (cases y) (auto simp: first_divergence_step_def)
  from find_enumerate_zip_Some [OF this] have k: "k < length as" "k < length bs" "take k as = take k bs" "as ! k \<noteq> bs ! k" by simp_all
  then show ?thesis by (auto simp: take_Suc_conv_app_nth)
qed

lemma finite_patch_files: "finite (patch_files patch)"
  by (simp add: patch_files_def Let_def)

lemma overlap_facts:
  "0 \<le> ov_jaccard (gold_file_overlap p g) \<and> ov_jaccard (gold_file_overlap p g) \<le> 1 \<and>
   (ov_hit (gold_file_overlap p g) \<longleftrightarrow> 0 < ov_jaccard (gold_file_overlap p g)) \<and>
   (ov_jaccard (gold_file_overlap p g) = 1 \<longleftrightarrow> patch_files p = patch_files g \<and> patch_files p \<noteq> {})"
proof -
  let ?p = "patch_files p" and ?g = "patch_files g"
  have fin: "finite ?p" "finite ?g" by (rule finite_patch_files)+
  show ?thesis
  proof (cases "?p \<union> ?g = {}")
    case False
    then have pos: "0 < card (?p \<union> ?g)" using fin by (simp add: card_gt_0_iff)
    have le: "card (?p \<inter> ?g) \<le> card (?p \<union> ?g)" using fin by (intro card_mono) auto
    have eq: "card (?p \<inter> ?g) = card (?p \<union> ?g) \<longleftrightarrow> ?p = ?g"
      using fin by (metis Int_Un_eq(1) card_subset_eq finite_UnI inf_le1 inf_le2 inf_sup_aci(1) le_supI1 subset_antisym sup.idem inf.idem sup.cobounded1 sup.cobounded2)
    have hit: "?p \<inter> ?g \<noteq> {} \<longleftrightarrow> 0 < card (?p \<inter> ?g)" using fin by (simp add: card_gt_0_iff)
    have "ov_jaccard (gold_file_overlap p g) = of_nat (card (?p \<inter> ?g)) / of_nat (card (?p \<union> ?g))"
      "ov_hit (gold_file_overlap p g) \<longleftrightarrow> ?p \<inter> ?g \<noteq> {}"
      using False by (simp_all add: gold_file_overlap_def Let_def)
    then show ?thesis using pos le eq hit False by (auto simp: divide_le_eq_1)
  qed (auto simp: gold_file_overlap_def Let_def)
qed

text \<open>An arm whose patch and trajectory were found.\<close>

definition arm_found :: "(json \<Rightarrow> string) \<Rightarrow> arm_files \<Rightarrow> bool" where
  "arm_found rp f \<longleftrightarrow> af_patch f \<noteq> None \<and> (\<exists>acts. traj_actions rp (af_traj f) = Inr (Some acts))"

definition pair_found :: "(json \<Rightarrow> string) \<Rightarrow> pair_files \<Rightarrow> bool" where
  "pair_found rp f \<longleftrightarrow> arm_found rp (pf_control f) \<and> arm_found rp (pf_treatment f)"

definition actions_differ :: "(json \<Rightarrow> string) \<Rightarrow> pair_files \<Rightarrow> bool" where
  "actions_differ rp f \<longleftrightarrow> traj_actions rp (af_traj (pf_control f)) \<noteq> traj_actions rp (af_traj (pf_treatment f))"

definition no_uplift_label :: "(json \<Rightarrow> string) \<Rightarrow> json pydict \<Rightarrow> bool" where
  "no_uplift_label rp sc \<longleftrightarrow> json_text rp (json_or (field_or_null sc ''effect_label'') (JStr '''')) \<in> set V2_NO_UPLIFT_LABELS"

lemma arm_endpoints_actions:
  "arm_endpoints_of sim rp task gold f = Inr (e, missing, acts) \<Longrightarrow> traj_actions rp (af_traj f) = Inr acts"
  by (auto simp: arm_endpoints_of_def Let_def elim!: and_then_InrE)

lemma mech_row_facts:
  assumes "mech_row_of sim rp fresh gold f = Inr r"
  shows "(mr_divergence r \<noteq> None \<longleftrightarrow> pair_found rp f) \<and> (row_diverged r \<longleftrightarrow> pair_found rp f \<and> actions_differ rp f) \<and>
    (''arm_divergence'' \<in> set (mr_unavailable r) \<longleftrightarrow> \<not> pair_found rp f) \<and>
    mr_completed r = field_bool (pf_scorecard f) ''official_eval_completed'' True \<and>
    mr_label r = field_or_null (pf_scorecard f) ''effect_label''"
proof -
  define task where "task = json_text rp (json_or (field_or_null (pf_scorecard f) ''source_task_id'') (JStr (pf_dir f)))"
  from assms obtain C T where "arm_endpoints_of sim rp task (dict_get gold task) (pf_control f) = Inr C"
    "arm_endpoints_of sim rp task (dict_get gold task) (pf_treatment f) = Inr T"
    unfolding mech_row_of_def Let_def task_def [symmetric] by (auto elim!: and_then_InrE)
  moreover obtain c cmiss cacts t tmiss tacts where "C = (c, cmiss, cacts)" "T = (t, tmiss, tacts)" by (cases C, cases T) auto
  ultimately have c: "arm_endpoints_of sim rp task (dict_get gold task) (pf_control f) = Inr (c, cmiss, cacts)"
    and t: "arm_endpoints_of sim rp task (dict_get gold task) (pf_treatment f) = Inr (t, tmiss, tacts)" by simp_all
  define dv where "dv = (case af_patch (pf_control f) of None \<Rightarrow> None | Some cp \<Rightarrow> (case af_patch (pf_treatment f) of None \<Rightarrow> None
      | Some tp \<Rightarrow> (case cacts of None \<Rightarrow> None | Some ca \<Rightarrow> (case tacts of None \<Rightarrow> None
      | Some ta \<Rightarrow> Some (arm_divergence sim cp tp ca ta)))))"
  from assms have "r = \<lparr>mr_task = task, mr_pair_id = field_or_null (pf_scorecard f) ''pair_id'', mr_fresh = (task \<in> set fresh),
      mr_label = field_or_null (pf_scorecard f) ''effect_label'', mr_completed = field_bool (pf_scorecard f) ''official_eval_completed'' True,
      mr_control = c, mr_treatment = t, mr_divergence = dv, mr_gold = (dict_get gold task \<noteq> None),
      mr_unavailable = sort (map (\<lambda>n. ''control.'' @ n) cmiss @ map (\<lambda>n. ''treatment.'' @ n) tmiss @
        (if dv = None then [''arm_divergence''] else [])), mr_path = pf_path f\<rparr>"
    unfolding mech_row_of_def Let_def task_def [symmetric] c t and_then.simps prod.case dv_def [symmetric] sum.inject by (rule sym)
  then have r: "mr_divergence r = dv"
      "set (mr_unavailable r) = set (map (\<lambda>n. ''control.'' @ n) cmiss) \<union> set (map (\<lambda>n. ''treatment.'' @ n) tmiss) \<union>
        (if mr_divergence r = None then {''arm_divergence''} else {})"
      "mr_completed r = field_bool (pf_scorecard f) ''official_eval_completed'' True" "mr_label r = field_or_null (pf_scorecard f) ''effect_label''"
    by (cases "dv = None", auto)+
  note acts = arm_endpoints_actions [OF c] arm_endpoints_actions [OF t]
  have div: "mr_divergence r \<noteq> None \<longleftrightarrow> pair_found rp f"
    unfolding r(1) dv_def pair_found_def arm_found_def acts by (auto split: option.splits)
  have "''arm_divergence'' \<in> set (mr_unavailable r) \<longleftrightarrow> mr_divergence r = None" unfolding r(2) by auto
  moreover have "row_diverged r \<longleftrightarrow> pair_found rp f \<and> actions_differ rp f"
    unfolding row_diverged_def r(1) dv_def pair_found_def arm_found_def actions_differ_def acts
    by (auto simp: dv_diverged_def arm_divergence_def divergence_ex split: option.splits)
  ultimately show ?thesis using div r(3,4) by blast
qed

text \<open>
  the secondary report neither hides a divergence nor changes a primary conclusion. If it is produced, it has one row per
  pair; it passes exactly when there is a pair and for every pair the official evaluation is completed and the patches and
  trajectories of both arms were found; and it reports a divergence without a change of outcome exactly when some
  pair that was found has different action sequences and every pair's label is one without uplift. The divergence step of
  a row is where its sequences part.
\<close>

theorem mechanistic_report_iff:
  assumes "mechanistic_report sim rp now src dir fresh gold fs = Inr (r, rows)"
  shows "length rows = length fs \<and>
    (dict_get r ''passed'' = Some (JBool True) \<longleftrightarrow>
       fs \<noteq> [] \<and> (\<forall>f \<in> set fs. field_bool (pf_scorecard f) ''official_eval_completed'' True \<and> pair_found rp f)) \<and>
    (dict_get r ''decision'' = Some (JStr ''mechanistic_endpoints_ready_divergence_without_outcome_change'') \<longleftrightarrow>
       (\<exists>f \<in> set fs. pair_found rp f \<and> actions_differ rp f) \<and> (\<forall>f \<in> set fs. no_uplift_label rp (pf_scorecard f)))"
proof -
  from assms have rows: "sequence (map (mech_row_of sim rp fresh gold) fs) = Inr rows"
    and r: "dict_get r ''decision'' = Some (JStr (mechanistic_decision (mechanistic_summary rp rows)))"
      "dict_get r ''passed'' = Some (JBool (\<forall>g \<in> set (mechanistic_gates rows (mechanistic_summary rp rows)). snd g))"
    by (auto simp: mechanistic_report_def mech_rows_def Let_def report_fields elim!: and_then_InrE)
  have len: "length rows = length fs" and nth: "\<forall>i < length fs. mech_row_of sim rp fresh gold (fs ! i) = Inr (rows ! i)"
    using rows by (auto simp: sequence_Inr_iff_map list_eq_iff_nth_eq)
  note facts = mech_row_facts [OF nth [rule_format]]
  have all: "list_all P rows \<longleftrightarrow> (\<forall>f \<in> set fs. Q f)" if "\<And>i. i < length fs \<Longrightarrow> P (rows ! i) \<longleftrightarrow> Q (fs ! i)" for P Q
    using that len by (auto simp: list_all_length all_set_conv_all_nth)
  have ne: "rows \<noteq> [] \<longleftrightarrow> fs \<noteq> []" using len by auto
  have "list_all mr_completed rows \<longleftrightarrow> (\<forall>f \<in> set fs. field_bool (pf_scorecard f) ''official_eval_completed'' True)"
    "list_all (\<lambda>r. ''arm_divergence'' \<notin> set (mr_unavailable r)) rows \<longleftrightarrow> (\<forall>f \<in> set fs. pair_found rp f)"
    "list_all (\<lambda>r. \<not> row_diverged r) rows \<longleftrightarrow> (\<forall>f \<in> set fs. \<not> (pair_found rp f \<and> actions_differ rp f))"
    "list_all (\<lambda>r. json_text rp (json_or (mr_label r) (JStr '''')) \<in> set V2_NO_UPLIFT_LABELS) rows \<longleftrightarrow>
       (\<forall>f \<in> set fs. no_uplift_label rp (pf_scorecard f))"
    using facts by (auto intro!: all simp: no_uplift_label_def)
  note parts = this
  have div: "ms_diverged (mechanistic_summary rp rows) = 0 \<longleftrightarrow> list_all (\<lambda>r. \<not> row_diverged r) rows"
    by (simp add: mechanistic_summary_def Let_def filter_empty_conv list_all_iff)
  have "mechanistic_decision (mechanistic_summary rp rows) = ''mechanistic_endpoints_ready_divergence_without_outcome_change'' \<longleftrightarrow>
      \<not> list_all (\<lambda>r. \<not> row_diverged r) rows \<and> rows \<noteq> [] \<and>
      list_all (\<lambda>r. json_text rp (json_or (mr_label r) (JStr '''')) \<in> set V2_NO_UPLIFT_LABELS) rows"
    unfolding mechanistic_decision_def div [symmetric] by (simp add: mechanistic_summary_def Let_def)
  moreover have "(\<forall>g \<in> set (mechanistic_gates rows (mechanistic_summary rp rows)). snd g) \<longleftrightarrow>
      rows \<noteq> [] \<and> list_all mr_completed rows \<and> list_all (\<lambda>r. ''arm_divergence'' \<notin> set (mr_unavailable r)) rows"
    by (auto simp: mechanistic_gates_def mechanistic_summary_def Let_def)
  ultimately show ?thesis unfolding r using parts ne len by auto
qed

definition found_arm :: "string \<Rightarrow> arm_files" where
  "found_arm act = \<lparr>af_patch = Some ''+x'', af_traj = Some [(''trajectory'', JList [JObj [(''action'', JStr act)]])], af_eval = None\<rparr>"

definition found_pair :: pair_files where
  "found_pair = \<lparr>pf_path = ''p'', pf_dir = ''t'', pf_scorecard = [(''effect_label'', JStr ''both_unresolved_trigger_hit_pair_no_uplift''),
     (''official_eval_completed'', JBool True)], pf_control = found_arm ''a'', pf_treatment = found_arm ''b''\<rparr>"

lemma found_pair_facts: "pair_found rp found_pair" "actions_differ rp found_pair" "no_uplift_label rp (pf_scorecard found_pair)"
  by (simp_all add: found_pair_def found_arm_def pair_found_def arm_found_def actions_differ_def no_uplift_label_def traj_actions_def
      traj_step_action_def field_or_null_def dict_get_def V2_NO_UPLIFT_LABELS_def)

theorem mechanistic_report_iff_witness:
  "\<exists>r rows. mechanistic_report (\<lambda>_ _. 1) (\<lambda>_. '''') '''' '''' '''' [] [] [found_pair] = Inr (r, rows) \<and>
     dict_get r ''decision'' = Some (JStr ''mechanistic_endpoints_ready_divergence_without_outcome_change'')"
proof -
  have "\<exists>row. mech_row_of (\<lambda>_ _. 1) (\<lambda>_. '''') [] [] found_pair = Inr row"
    by (simp add: mech_row_of_def arm_endpoints_of_def found_pair_def found_arm_def traj_actions_def traj_step_action_def Let_def
        field_or_null_def dict_get_def)
  then obtain r rows where r: "mechanistic_report (\<lambda>_ _. 1) (\<lambda>_. '''') '''' '''' '''' [] [] [found_pair] = Inr (r, rows)"
    by (auto simp: mechanistic_report_def mech_rows_def Let_def)
  from mechanistic_report_iff [OF r] r found_pair_facts show ?thesis by auto
qed

end
