(* ===== verification/Oracle_Capsule.thy ===== *)
theory Oracle_Capsule
  imports Mechanistic_Endpoints Trajectory_Pruner V1_Outcomes
begin

text \<open>
  The oracle probe, \<open>packages/clinic/src/wutai_clinic/intervention/oracle_capsule.py\<close>: a gold patch is distilled into
  guidance at three levels, injected into a copy of the control arm's configuration, and the outcome is classified.
  Files are what they parse to; \<open>rp\<close> is \<open>repr\<close> on containers, \<open>sim\<close> the line similarity of \<open>difflib\<close>. Sets are
  sets; sorting them is by code point, which is the order of the UTF-8 bytes.
\<close>

section \<open>Hunks of the gold patch\<close>

record hunk =
  hk_near :: string
  hk_added :: nat
  hk_removed :: nat
  hk_kinds :: "string set"
  hk_start :: "nat option"
  hk_new :: "string set"
  hk_old :: "string set"

text \<open>\<open>_HUNK_HEADER_RE\<close> gives the context of a hunk header, \<open>_HUNK_RANGE_RE\<close> its first old line.\<close>

definition hunk_context :: "string \<Rightarrow> string option" where
  "hunk_context line =
     (case after_prefix ''@@ '' line of
        None \<Rightarrow> None
      | Some r \<Rightarrow>
          (case after_prefix ''@@'' (dropWhile (\<lambda>c. c \<noteq> CHR ''@'') r) of
             None \<Rightarrow> None
           | Some t \<Rightarrow> Some (if starts_with '' '' t then tl t else t)))"

definition range_length :: "string \<Rightarrow> string" where
  "range_length r =
     (case after_prefix '','' r of
        Some t \<Rightarrow> if takeWhile is_digit t = [] then r else dropWhile is_digit t
      | None \<Rightarrow> r)"

definition hunk_old_start :: "string \<Rightarrow> nat option" where
  "hunk_old_start line =
     (case after_prefix ''@@ -'' line of
        None \<Rightarrow> None
      | Some r \<Rightarrow>
          (case after_prefix '' +'' (range_length (dropWhile is_digit r)) of
             None \<Rightarrow> None
           | Some t \<Rightarrow> if takeWhile is_digit r \<noteq> [] \<and> takeWhile is_digit t \<noteq> [] then Some (read_nat (takeWhile is_digit r)) else None))"

text \<open>\<open>_IDENTIFIER_RE.findall\<close>\<close>

function ident_words :: "string \<Rightarrow> string list" where
  "ident_words [] = []"
| "ident_words (c # cs) =
     (if word_char c \<and> \<not> is_digit c \<and> 2 \<le> length (takeWhile word_char cs)
      then (c # takeWhile word_char cs) # ident_words (dropWhile word_char cs)
      else ident_words cs)"
  by pat_completeness auto

termination
  by (relation "measure length") (auto simp: length_dropWhile_le less_Suc_eq_le)

definition CHANGE_KIND_TOKENS :: "string pydict" where
  "CHANGE_KIND_TOKENS =
     [(''raise'', ''introduces an explicit error raise''),
      (''assert'', ''adds an assertion''),
      (''return'', ''changes a return path''),
      (''if '', ''adds or alters a conditional guard''),
      (''def '', ''adds or modifies a function definition''),
      (''class '', ''adds or modifies a class definition''),
      (''import'', ''touches imports'')]"

definition change_kinds :: "string \<Rightarrow> string set" where
  "change_kinds text =
     (let lowered = lower text in
      set (map snd (filter (\<lambda>(token, _). starts_with token lowered \<or> contains (CHR '' '' # token) (CHR '' '' # lowered))
        CHANGE_KIND_TOKENS)))"

text \<open>\<open>re.search(r" b/(\S+)$", line)\<close>\<close>

fun b_side_file :: "string \<Rightarrow> string option" where
  "b_side_file [] = None"
| "b_side_file (c # cs) =
     (case after_prefix '' b/'' (c # cs) of
        Some r \<Rightarrow> if r \<noteq> [] \<and> solid r = r then Some r else b_side_file cs
      | None \<Rightarrow> b_side_file cs)"

text \<open>The scan: the hunks of each file, the file the next hunk goes to, and the file whose last hunk is the current one.\<close>

record hunk_scan =
  hs_files :: "hunk list pydict"
  hs_file :: "string option"
  hs_current :: "string option"

definition new_hunk :: "string \<Rightarrow> string \<Rightarrow> hunk" where
  "new_hunk line near =
     \<lparr>hk_near = strip near, hk_added = 0, hk_removed = 0, hk_kinds = {}, hk_start = hunk_old_start line, hk_new = {}, hk_old = {}\<rparr>"

definition update_last :: "(hunk \<Rightarrow> hunk) \<Rightarrow> hunk list \<Rightarrow> hunk list" where
  "update_last f hs = (if hs = [] then [] else butlast hs @ [f (last hs)])"

definition hunks_of :: "hunk list pydict \<Rightarrow> string \<Rightarrow> hunk list" where
  "hunks_of files f = (case dict_get files f of Some hs \<Rightarrow> hs | None \<Rightarrow> [])"

definition added_line :: "string \<Rightarrow> bool" where
  "added_line line \<longleftrightarrow> starts_with ''+'' line \<and> \<not> starts_with ''+++'' line"

definition removed_line :: "string \<Rightarrow> bool" where
  "removed_line line \<longleftrightarrow> starts_with ''-'' line \<and> \<not> starts_with ''---'' line"

definition count_line :: "string \<Rightarrow> hunk \<Rightarrow> hunk" where
  "count_line line h =
     (let stripped = strip (tl line) in
      if added_line line then
        h\<lparr>hk_added := Suc (hk_added h), hk_new := hk_new h \<union> set (ident_words stripped), hk_kinds := hk_kinds h \<union> change_kinds stripped\<rparr>
      else if removed_line line then
        h\<lparr>hk_removed := Suc (hk_removed h), hk_old := hk_old h \<union> set (ident_words stripped)\<rparr>
      else h)"

definition scan_line :: "hunk_scan \<Rightarrow> string \<Rightarrow> hunk_scan" where
  "scan_line s line =
     (if starts_with ''diff --git'' line then
        (case b_side_file line of
           None \<Rightarrow> s\<lparr>hs_file := None, hs_current := None\<rparr>
         | Some f \<Rightarrow> \<lparr>hs_files = dict_setdefault f [] (hs_files s), hs_file = Some f, hs_current = None\<rparr>)
      else if starts_with ''+++ b/'' line then
        (let f = strip (drop 6 line) in s\<lparr>hs_files := dict_setdefault f [] (hs_files s), hs_file := Some f\<rparr>)
      else
        (case (hunk_context line, hs_file s) of
           (Some near, Some f) \<Rightarrow>
             s\<lparr>hs_files := dict_set f (hunks_of (hs_files s) f @ [new_hunk line near]) (hs_files s), hs_current := Some f\<rparr>
         | _ \<Rightarrow>
             (case hs_current s of
                None \<Rightarrow> s
              | Some f \<Rightarrow> s\<lparr>hs_files := dict_set f (update_last (count_line line) (hunks_of (hs_files s) f)) (hs_files s)\<rparr>)))"

definition parse_gold_hunks :: "string \<Rightarrow> hunk list pydict" where
  "parse_gold_hunks gold = hs_files (foldl scan_line \<lparr>hs_files = [], hs_file = None, hs_current = None\<rparr> (splitlines gold))"

section \<open>Distillation\<close>

definition DISTILLATION_LEVELS :: "string list" where
  "DISTILLATION_LEVELS = [''guidance'', ''detailed'', ''verbatim'']"

definition long_dash :: string where
  "long_dash = [CHR 0xE2, CHR 0x80, CHR 0x94]"

definition ticked :: "string \<Rightarrow> string" where
  "ticked s = [CHR 0x60] @ s @ [CHR 0x60]"

definition verbatim_capsule :: "string \<Rightarrow> string" where
  "verbatim_capsule gold = join [CHR 0x0A]
     [''[ORACLE-PROBE VERBATIM '' @ long_dash @ '' contaminated-by-design analysis layer]'',
      ''The verified fix for this issue, as a unified diff:'',
      replicate 3 (CHR 0x60) @ ''diff'',
      rstrip_by (\<lambda>c. c = CHR 0x0A) gold,
      replicate 3 (CHR 0x60),
      ''Reproduce the failure first, then apply exactly this change.'']"

text \<open>The descriptors of a hunk; \<open>detailed\<close> is the middle level.\<close>

definition hunk_descriptors :: "bool \<Rightarrow> hunk \<Rightarrow> string list" where
  "hunk_descriptors detailed h =
     (if hk_near h \<noteq> [] \<and> ident_words (hk_near h) \<noteq> [] then [''near '' @ ticked (last (ident_words (hk_near h)))] else []) @
     (case hk_start h of Some n \<Rightarrow> if detailed then [''around line '' @ show_nat n] else [] | None \<Rightarrow> []) @
     [''about '' @ show_nat (hk_added h) @ '' line(s) added, '' @ show_nat (hk_removed h) @ '' removed''] @
     (if hk_kinds h \<noteq> {} then [join ''; '' (sorted_list_of_set (hk_kinds h))] else [])"

definition ident_line :: "string \<Rightarrow> string set \<Rightarrow> string list" where
  "ident_line intro names =
     (if names = {} then [] else [intro @ join '', '' (map ticked (take 12 (sorted_list_of_set names)))])"

definition hunk_lines :: "bool \<Rightarrow> hunk \<Rightarrow> string list" where
  "hunk_lines detailed h =
     (''    * '' @ join '', '' (hunk_descriptors detailed h)) #
     (if detailed then
        ident_line ''      the new code introduces or references: '' (hk_new h - hk_old h) @
        ident_line ''      the change rewrites code involving: '' (hk_new h \<inter> hk_old h)
      else [])"

definition file_lines :: "bool \<Rightarrow> string \<times> hunk list \<Rightarrow> string list" where
  "file_lines detailed = (\<lambda>(f, hs).
     (''- File '' @ ticked f @ '' ('' @ show_nat (length hs) @ '' change region(s)):'') # concat (map (hunk_lines detailed) hs))"

definition capsule_text :: "bool \<Rightarrow> string \<Rightarrow> string" where
  "capsule_text detailed gold = join [CHR 0x0A]
     ([''[ORACLE-PROBE GUIDANCE '' @ long_dash @ '' contaminated-by-design analysis layer]'',
       ''High-confidence guidance about where the verified fix for this issue lives:''] @
      concat (map (file_lines detailed) (parse_gold_hunks gold)) @
      [''Reproduce the failure first, then implement the equivalent behavior in '' @
       ''exactly these locations; avoid editing any other file.''])"

definition quotes_line :: "string \<Rightarrow> string \<Rightarrow> bool" where
  "quotes_line capsule line \<longleftrightarrow>
     (starts_with ''+'' line \<or> starts_with ''-'' line) \<and> 8 \<le> py_len (strip (tl line)) \<and> contains (strip (tl line)) capsule"

definition distill_gold_to_capsule :: "string \<Rightarrow> string \<Rightarrow> pyexn + string" where
  "distill_gold_to_capsule gold level =
     (if level \<notin> set DISTILLATION_LEVELS then Inl (ValueErr (''unknown distillation level: '' @ level))
      else if level = ''verbatim'' then Inr (verbatim_capsule gold)
      else
        let capsule = capsule_text (level = ''detailed'') gold in
        if list_ex (quotes_line capsule) (splitlines gold) then Inl (ValueErr ''capsule distillation leaked a raw diff line'')
        else Inr capsule)"

section \<open>Configurations\<close>

definition FORBIDDEN_CONFIG_TOKENS :: "string list" where
  "FORBIDDEN_CONFIG_TOKENS = [''official_test_id'', ''raw_payload'', ''FAIL_TO_PASS'', ''PASS_TO_PASS'']"

definition check_isolation :: "json pydict \<Rightarrow> pyexn + json pydict" where
  "check_isolation payload =
     (case find (\<lambda>token. contains token (json_ascii (JObj payload))) FORBIDDEN_CONFIG_TOKENS of
        Some token \<Rightarrow> Inl (ValueErr (''oracle probe config violates isolation: contains '' @ token))
      | None \<Rightarrow> Inr payload)"

text \<open>\<open>dict(v or {})\<close>: a dictionary, or an iterable of pairs; a key that is no text is refused here.\<close>

definition key_value :: "json \<Rightarrow> pyexn + string \<times> json" where
  "key_value v =
     and_then (json_iter v) (\<lambda>xs.
       case xs of
         [JStr k, w] \<Rightarrow> Inr (k, w)
       | [_, _] \<Rightarrow> Inl (TypeErr ''key'')
       | _ \<Rightarrow> Inl (ValueErr ''dictionary update sequence''))"

definition dict_copy :: "json \<Rightarrow> pyexn + json pydict" where
  "dict_copy v =
     (case json_or v (JObj []) of
        JObj kvs \<Rightarrow> Inr kvs
      | w \<Rightarrow> and_then (json_iter w) (\<lambda>xs. and_then (sequence (map key_value xs)) (\<lambda>ps. Inr (dict_update [] ps))))"

definition probe_marker :: "string \<Rightarrow> json pydict" where
  "probe_marker level =
     [(''oracle_derived'', JBool True), (''distillation_level'', JStr level), (''layer'', JStr ''v2_oracle_probe''),
      (''contaminated_by_design'', JBool True)]"

definition mark_clinic :: "string \<Rightarrow> json pydict \<Rightarrow> json pydict" where
  "mark_clinic level clinic =
     dict_set ''oracle_probe'' (JObj (probe_marker level)) (dict_set ''arm_type'' (JStr ''oracle_treatment'') clinic)"

text \<open>\<open>json.loads(json.dumps(v))\<close> is \<open>v\<close>.\<close>

definition build_oracle_probe_runtime_config ::
    "(json \<Rightarrow> string) \<Rightarrow> json pydict \<Rightarrow> string \<Rightarrow> string \<Rightarrow> string \<Rightarrow> pyexn + json pydict" where
  "build_oracle_probe_runtime_config rp base capsule dir level =
     (case field_or_null base ''problem_statement'' of
        JObj problem \<Rightarrow>
          (case dict_get problem ''text'' of
             None \<Rightarrow> Inl (ValueErr ''base config lacks problem_statement.text'')
           | Some t \<Rightarrow>
               let text = json_text rp t @ [CHR 0x0A, CHR 0x0A] @ capsule @ [CHR 0x0A];
                   payload = dict_set ''output_dir'' (JStr dir) (dict_set ''problem_statement'' (JObj (dict_set ''text'' (JStr text) problem)) base)
               in and_then (dict_copy (field_or_null payload ''wutai_clinic'')) (\<lambda>clinic.
                  check_isolation (dict_set ''wutai_clinic'' (JObj (mark_clinic level clinic)) payload)))
      | _ \<Rightarrow> Inl (ValueErr ''base config lacks problem_statement.text''))"

text \<open>The two writes to the nested dictionary \<open>probe\<close> are writes to the copy's \<open>wutai_clinic\<close>.\<close>

definition build_replay_free_variant_config :: "json pydict \<Rightarrow> string \<Rightarrow> pyexn + json pydict" where
  "build_replay_free_variant_config config dir =
     and_then (json_get (json_or (field_or_null config ''wutai_clinic'') (JObj [])) ''oracle_probe'') (\<lambda>probe.
       case (probe, field_or_null config ''wutai_clinic'') of
         (JObj p, JObj clinic) \<Rightarrow>
           if \<not> field_bool p ''oracle_derived'' True then Inl (ValueErr ''base config is not an oracle probe runtime config'')
           else
             let p' = dict_set ''variant'' (JStr ''replay_free'') (dict_set ''replay_prefix'' (JStr ''none'') p)
             in check_isolation
                  (dict_set ''wutai_clinic'' (JObj (dict_set ''oracle_probe'' (JObj p') clinic)) (dict_set ''output_dir'' (JStr dir) config))
       | _ \<Rightarrow> Inl (ValueErr ''base config is not an oracle probe runtime config''))"

section \<open>Classification and reports\<close>

definition oracle_resolved_of :: "string \<Rightarrow> json pydict option \<Rightarrow> bool option" where
  "oracle_resolved_of task eval_report =
     (case eval_report of
        None \<Rightarrow> None
      | Some payload \<Rightarrow>
          (case field_or_null payload task of
             JObj instance_row \<Rightarrow> map_option json_truthy (dict_get instance_row ''resolved'')
           | _ \<Rightarrow> None))"

definition outcome_decision :: "bool option \<Rightarrow> string" where
  "outcome_decision resolved =
     (case resolved of
        None \<Rightarrow> ''oracle_probe_outcome_blocked_missing_eval''
      | Some True \<Rightarrow> ''oracle_probe_outcome_moved_channel_validated''
      | Some False \<Rightarrow> ''oracle_probe_outcome_unmoved_channel_bottleneck_implicated'')"

record proximity =
  px_overlap :: overlap
  px_distance :: rat
  px_near :: bool

definition probe_proximity ::
    "(string list \<Rightarrow> string list \<Rightarrow> rat) \<Rightarrow> string option \<Rightarrow> string option \<Rightarrow> proximity option" where
  "probe_proximity sim patch gold =
     (case (patch, gold) of
        (Some p, Some g) \<Rightarrow>
          if g = [] then None
          else
            let ov = gold_file_overlap p g; d = edit_distance sim p g
            in Some \<lparr>px_overlap = ov, px_distance = d, px_near = (ov_hit ov \<and> d < 1 / 2)\<rparr>
      | _ \<Rightarrow> None)"

definition replay_free_decision :: "bool option \<Rightarrow> proximity option \<Rightarrow> string" where
  "replay_free_decision resolved px =
     (case resolved of
        None \<Rightarrow> ''oracle_probe_replay_free_blocked_missing_eval''
      | Some True \<Rightarrow> ''oracle_probe_replay_free_outcome_moved_prefix_lockin_implicated''
      | Some False \<Rightarrow>
          (case px of
             Some x \<Rightarrow> if px_near x then ''oracle_probe_replay_free_unmoved_capability_ceiling_implicated''
                       else ''oracle_probe_replay_free_unmoved_channel_capacity_implicated''
           | None \<Rightarrow> ''oracle_probe_replay_free_blocked_missing_patch_or_gold''))"

definition classify_replay_free_probe ::
    "(string list \<Rightarrow> string list \<Rightarrow> rat) \<Rightarrow> bool option \<Rightarrow> string option \<Rightarrow> string option \<Rightarrow> string \<times> proximity option" where
  "classify_replay_free_probe sim resolved patch gold =
     (let px = probe_proximity sim patch gold in (replay_free_decision resolved px, px))"

definition PROBE_BOUNDARY :: string where
  "PROBE_BOUNDARY = ''Oracle-probe arms are contaminated by design and exist solely to localize '' @
     ''the causal bottleneck between injection channel and diagnostic content. '' @
     ''No outcome from this layer supports any intervention-effectiveness claim.''"

definition OUTCOME_MATRIX :: "json pydict" where
  "OUTCOME_MATRIX =
     [(''oracle_probe_outcome_moved_channel_validated'',
         JStr (''Channel can steer outcomes; bottleneck sits in the '' @ ''diagnosis-to-prescription content path.'')),
      (''oracle_probe_outcome_unmoved_channel_bottleneck_implicated'',
         JStr (''Even maximal-information content does not move the outcome; '' @ ''injection channel/timing/capacity is implicated.''))]"

definition REPLAY_FREE_MATRIX :: "json pydict" where
  "REPLAY_FREE_MATRIX =
     [(''oracle_probe_replay_free_outcome_moved_prefix_lockin_implicated'',
         JStr (''Removing the replay prefix moves the outcome; trajectory '' @ ''lock-in from the prefix is the bottleneck.'')),
      (''oracle_probe_replay_free_unmoved_capability_ceiling_implicated'',
         JStr (''Patch lands near gold yet stays unresolved; the agent cannot '' @
               ''finish the semantics even when told where '' @ long_dash @ '' capability ceiling.'')),
      (''oracle_probe_replay_free_unmoved_channel_capacity_implicated'',
         JStr (''Patch stays far from gold despite step-0 guidance; the '' @
               ''injection channel truly fails to steer the trajectory.''))]"

text \<open>What every report of the probe says of itself, and its manifest; an artifact is a path with its hash if the file exists.\<close>

definition probe_report :: "string \<Rightarrow> string \<Rightarrow> bool pydict \<Rightarrow> string \<Rightarrow> json pydict \<Rightarrow> json pydict \<Rightarrow> json pydict" where
  "probe_report now decision gates task extras findings =
     generate_report now (Some ''7.oracle_capsule_probe'') (Some decision) gates
       ([(''version'', JStr ''phase7_oracle_capsule_probe_v1''), (''layer'', JStr ''v2_oracle_probe''),
         (''source_task_id'', JStr task), (''contaminated_by_design'', JBool True), (''oracle_derived'', JBool True)] @ extras @
        [(''claim_boundary'', JStr PROBE_BOUNDARY)] @ findings) None"

definition probe_manifest :: "string \<Rightarrow> json pydict \<Rightarrow> (string \<times> string option) list \<Rightarrow> json pydict" where
  "probe_manifest now report artifacts =
     dict_set ''contaminated_by_design'' (JBool True) (dict_set ''oracle_derived'' (JBool True)
       (generate_manifest now (Some ''7.oracle_capsule_probe'') report
          (map (\<lambda>(path, sha). JObj [(''path'', JStr path), (''sha256'', (case sha of Some x \<Rightarrow> JStr x | None \<Rightarrow> JNull)), (''record_count'', JNull)])
            artifacts)))"

definition probe_prepare ::
    "(json \<Rightarrow> string) \<Rightarrow> string \<Rightarrow> string \<Rightarrow> json pydict option \<Rightarrow> string pydict \<Rightarrow> string \<Rightarrow> string \<Rightarrow>
     pyexn + json pydict \<times> (string \<times> json pydict) option" where
  "probe_prepare rp now task base gold_patches level dir =
     (let gates = [(''control_preflight_config_present'', base \<noteq> None), (''gold_patch_available'', dict_get gold_patches task \<noteq> None)];
          extras = [(''distillation_level'', JStr level)]
      in case (base, dict_get gold_patches task) of
           (Some config, Some gold) \<Rightarrow>
             and_then (distill_gold_to_capsule gold level) (\<lambda>capsule.
             and_then (build_oracle_probe_runtime_config rp config capsule (dir @ ''/native'') level) (\<lambda>probe.
             Inr (probe_report now ''oracle_probe_prepared_live_execution_not_authorized''
                    (gates @ [(''capsule_contains_no_raw_diff_lines'', True), (''config_isolation_invariant_held'', True)]) task extras [],
                  Some (capsule, probe))))
         | _ \<Rightarrow> Inr (probe_report now ''oracle_probe_prepare_blocked_missing_inputs'' gates task extras [], None))"

definition opt_flag :: "bool option \<Rightarrow> json" where
  "opt_flag b = (case b of Some x \<Rightarrow> JBool x | None \<Rightarrow> JNull)"

definition probe_outcome_report ::
    "string \<Rightarrow> string \<Rightarrow> json pydict option \<Rightarrow> json pydict option \<Rightarrow> string \<Rightarrow> json pydict" where
  "probe_outcome_report now task dual eval_report variant =
     (let scorecard = (case dual of Some c \<Rightarrow> c | None \<Rightarrow> []); resolved = oracle_resolved_of task eval_report
      in probe_report now (outcome_decision resolved)
           [(''existing_pair_scorecard_present'', scorecard \<noteq> []), (''oracle_eval_outcome_present'', resolved \<noteq> None)] task
           [(''variant'', JStr variant)]
           [(''three_arm_outcomes'', JObj
              [(''control_resolved'', field_or_null scorecard ''control_resolved''),
               (''diagnostic_treatment_resolved'', field_or_null scorecard ''treatment_resolved''),
               (''oracle_treatment_resolved'', opt_flag resolved)]),
            (''interpretation_matrix'', JObj OUTCOME_MATRIX)])"

text \<open>\<open>show_px\<close> writes a proximity: the JSON values here have no floats.\<close>

definition probe_replay_free_report ::
    "(string list \<Rightarrow> string list \<Rightarrow> rat) \<Rightarrow> (proximity \<Rightarrow> json) \<Rightarrow> string \<Rightarrow> string \<Rightarrow> json pydict option \<Rightarrow> string option \<Rightarrow> string pydict \<Rightarrow>
     string \<Rightarrow> json pydict" where
  "probe_replay_free_report sim show_px now task eval_report patch gold_patches variant =
     (let resolved = oracle_resolved_of task eval_report;
          typing = classify_replay_free_probe sim resolved patch (dict_get gold_patches task)
      in probe_report now (fst typing)
           [(''oracle_eval_outcome_present'', resolved \<noteq> None), (''replay_free_patch_present'', patch \<noteq> None),
            (''gold_patch_available'', dict_get gold_patches task \<noteq> None)] task
           [(''variant'', JStr variant)]
           [(''three_arm_outcomes'', JObj [(''oracle_treatment_resolved'', opt_flag resolved)]),
            (''proximity'', (case snd typing of Some px \<Rightarrow> show_px px | None \<Rightarrow> JNull)),
            (''interpretation_matrix'', JObj REPLAY_FREE_MATRIX)])"

text \<open>The rows that aggregations list as excluded, from the report files in the order of their paths.\<close>

definition probe_row :: "string \<times> json pydict \<Rightarrow> pyexn + json pydict" where
  "probe_row = (\<lambda>(path, payload).
     and_then (json_get (json_or (field_or_null payload ''three_arm_outcomes'') (JObj [])) ''oracle_treatment_resolved'') (\<lambda>resolved.
     Inr [(''source_task_id'', field_or_null payload ''source_task_id''), (''decision'', field_or_null payload ''decision''),
          (''layer'', JStr ''v2_oracle_probe''), (''variant'', get_default payload ''variant'' (JStr ''with_replay_prefix'')),
          (''contaminated_by_design'', JBool True), (''oracle_treatment_resolved'', resolved), (''report_path'', JStr path)]))"

definition load_oracle_probe_rows :: "(string \<times> json pydict) list \<Rightarrow> pyexn + json pydict list" where
  "load_oracle_probe_rows reports = sequence (map probe_row reports)"

section \<open>What a capsule tells\<close>

text \<open>Two lines a guidance capsule cannot tell apart: equal, or changed lines of one sign with the same change kinds.\<close>

definition same_change :: "string \<Rightarrow> string \<Rightarrow> bool" where
  "same_change l m \<longleftrightarrow>
     l = m \<or>
     added_line l \<and> added_line m \<and> change_kinds (strip (tl l)) = change_kinds (strip (tl m)) \<or>
     removed_line l \<and> removed_line m"

text \<open>A hunk without the identifiers of its body.\<close>

definition outline :: "hunk \<Rightarrow> hunk" where
  "outline h = h\<lparr>hk_new := {}, hk_old := {}\<rparr>"

definition outline_files :: "hunk list pydict \<Rightarrow> hunk list pydict" where
  "outline_files = map (\<lambda>(f, hs). (f, map outline hs))"

definition outline_scan :: "hunk_scan \<Rightarrow> hunk_scan" where
  "outline_scan s = s\<lparr>hs_files := outline_files (hs_files s)\<rparr>"

lemma outline_files_set: "outline_files (dict_set f hs d) = dict_set f (map outline hs) (outline_files d)"
  unfolding outline_files_def dict_set_def by (induction d) auto

lemma map_of_outline: "map_of (outline_files d) f = map_option (map outline) (map_of d f)"
  unfolding outline_files_def by (induction d) auto

lemma outline_files_setdefault: "outline_files (dict_setdefault f hs d) = dict_setdefault f (map outline hs) (outline_files d)"
  by (auto simp: dict_setdefault_def map_of_outline split: option.splits) (simp add: outline_files_def)

lemma hunks_of_outline: "hunks_of (outline_files d) f = map outline (hunks_of d f)"
  by (auto simp: hunks_of_def dict_get_def map_of_outline split: option.splits)

lemma outline_new_hunk: "outline (new_hunk line near) = new_hunk line near"
  by (simp add: outline_def new_hunk_def)

lemma map_update_last:
  "(\<And>h. g (f h) = f' (g h)) \<Longrightarrow> map g (update_last f hs) = update_last f' (map g hs)"
  by (auto simp: update_last_def last_map map_butlast)

text \<open>The outline of a scan evolves on its own, and does not see the identifiers.\<close>

definition count_outline :: "string \<Rightarrow> hunk \<Rightarrow> hunk" where
  "count_outline line h = outline (count_line line h)"

lemma outline_count: "outline (count_line line h) = count_outline line (outline h)"
  by (simp add: count_outline_def count_line_def outline_def Let_def)

lemma count_outline_same: "same_change l m \<Longrightarrow> count_outline l = count_outline m"
  by (rule ext) (auto simp: same_change_def count_outline_def count_line_def outline_def added_line_def removed_line_def starts_with_iff Let_def)

lemma changed_lines_other:
  assumes "added_line l \<or> removed_line l"
  shows "\<not> starts_with ''diff --git'' l" "\<not> starts_with ''+++ b/'' l" "hunk_context l = None"
  using assms by (auto simp: added_line_def removed_line_def starts_with_iff hunk_context_def after_prefix_def)

lemma scan_line_outline:
  assumes same: "same_change l m" and eq: "outline_scan s = outline_scan t"
  shows "outline_scan (scan_line s l) = outline_scan (scan_line t m)"
proof -
  have fields: "outline_files (hs_files s) = outline_files (hs_files t)" "hs_file s = hs_file t" "hs_current s = hs_current t"
    using eq by (auto simp: outline_scan_def dest: arg_cong [of _ _ hs_files] arg_cong [of _ _ hs_file] arg_cong [of _ _ hs_current])
  have hunks: "map outline (hunks_of (hs_files s) f) = map outline (hunks_of (hs_files t) f)" for f
    using fields(1) by (metis hunks_of_outline)
  have upd: "map outline (update_last (count_line x) hs) = update_last (count_outline x) (map outline hs)" for x hs
    by (rule map_update_last) (rule outline_count)
  show ?thesis
  proof (cases "l = m")
    case True
    with fields hunks show ?thesis
      by (auto simp: scan_line_def outline_scan_def Let_def outline_files_set outline_files_setdefault upd split: option.splits)
  next
    case False
    with same have ch: "added_line l \<or> removed_line l" "added_line m \<or> removed_line m" by (auto simp: same_change_def)
    from count_outline_same [OF same] fields hunks show ?thesis
      by (auto simp: scan_line_def changed_lines_other [OF ch(1)] changed_lines_other [OF ch(2)] outline_scan_def outline_files_set upd
          split: option.splits)
  qed
qed

lemma scan_lines_outline:
  "list_all2 same_change ls ms \<Longrightarrow> outline_scan s = outline_scan t \<Longrightarrow>
     outline_scan (foldl scan_line s ls) = outline_scan (foldl scan_line t ms)"
  by (induction ls ms arbitrary: s t rule: list_all2_induct) (simp_all add: scan_line_outline)

lemma parse_gold_outline:
  assumes "list_all2 same_change (splitlines g) (splitlines g')"
  shows "outline_files (parse_gold_hunks g) = outline_files (parse_gold_hunks g')"
  using scan_lines_outline [OF assms refl, THEN arg_cong [of _ _ hs_files]]
  by (simp add: parse_gold_hunks_def outline_scan_def)

lemma hunk_lines_outline: "hunk_lines False (outline h) = hunk_lines False h"
  by (simp add: hunk_lines_def hunk_descriptors_def outline_def)

lemma file_lines_outline: "concat (map (file_lines False) (outline_files d)) = concat (map (file_lines False) d)"
  by (auto simp: file_lines_def outline_files_def hunk_lines_outline o_def intro!: arg_cong [of _ _ concat])

lemma distill_unquoted:
  "distill_gold_to_capsule g level = Inr c \<Longrightarrow> level \<noteq> ''verbatim'' \<Longrightarrow> l \<in> set (splitlines g) \<Longrightarrow> \<not> quotes_line c l"
  by (auto simp: distill_gold_to_capsule_def Let_def list_ex_iff split: if_splits)

text \<open>
  C15: the body of a gold patch reaches a guidance capsule only through the sign of its changed lines and their change
  kinds: two patches whose lines correspond in this sense are distilled to the same text, whatever their code says, and no
  longer changed line of either stands in it.\<close>

theorem guidance_hides_bodies:
  assumes same: "list_all2 same_change (splitlines g) (splitlines g')"
    and g: "distill_gold_to_capsule g ''guidance'' = Inr c" and g': "distill_gold_to_capsule g' ''guidance'' = Inr c'"
  shows "c = c' \<and> list_all (\<lambda>l. \<not> quotes_line c l) (splitlines g @ splitlines g')"
proof -
  have "capsule_text False g = capsule_text False g'"
    using parse_gold_outline [OF same] by (simp add: capsule_text_def) (metis file_lines_outline)
  with g g' have "c = c'" by (auto simp: distill_gold_to_capsule_def Let_def split: if_splits)
  with distill_unquoted [OF g] distill_unquoted [OF g'] show ?thesis by (auto simp: list_all_iff)
qed

section \<open>What a configuration carries\<close>

lemma check_isolation_Inr:
  "check_isolation p = Inr q \<longleftrightarrow> q = p \<and> list_all (\<lambda>token. \<not> contains token (json_ascii (JObj p))) FORBIDDEN_CONFIG_TOKENS"
  by (auto simp: check_isolation_def list_all_iff find_None_iff find_Some_iff split: option.splits)

definition isolated :: "json pydict \<Rightarrow> bool" where
  "isolated p \<longleftrightarrow> list_all (\<lambda>token. \<not> contains token (json_ascii (JObj p))) FORBIDDEN_CONFIG_TOKENS"

text \<open>The text of a configuration's problem statement, and its oracle marker.\<close>

definition problem_text :: "json pydict \<Rightarrow> json option" where
  "problem_text p = (case field_or_null p ''problem_statement'' of JObj problem \<Rightarrow> dict_get problem ''text'' | _ \<Rightarrow> None)"

definition clinic_entry :: "json pydict \<Rightarrow> string \<Rightarrow> json option" where
  "clinic_entry p k = (case field_or_null p ''wutai_clinic'' of JObj clinic \<Rightarrow> dict_get clinic k | _ \<Rightarrow> None)"

lemma oracle_config_facts:
  assumes "build_oracle_probe_runtime_config rp base capsule dir level = Inr p"
  shows "isolated p"
    "\<exists>t. problem_text base = Some t \<and> problem_text p = Some (JStr (json_text rp t @ [CHR 0x0A, CHR 0x0A] @ capsule @ [CHR 0x0A]))"
    "clinic_entry p ''arm_type'' = Some (JStr ''oracle_treatment'')"
    "clinic_entry p ''oracle_probe'' = Some (JObj (probe_marker level))"
    "dict_get p ''output_dir'' = Some (JStr dir)"
    "k \<notin> {''problem_statement'', ''output_dir'', ''wutai_clinic''} \<Longrightarrow> dict_get p k = dict_get base k"
  using assms
  by (auto simp: build_oracle_probe_runtime_config_def Let_def check_isolation_Inr isolated_def problem_text_def clinic_entry_def
      mark_clinic_def field_or_null_def split: json.splits option.splits elim!: and_then_InrE)

text \<open>A prepared probe is a control configuration whose problem statement ends with the capsule and which is marked as the
  contaminated oracle arm; it holds none of the forbidden tokens, everything else in it is the control's, and below the
  verbatim level the capsule quotes no longer changed line of the gold patch.\<close>

theorem prepared_probe_isolated:
  assumes "probe_prepare rp now task (Some base) golds level dir = Inr (r, Some (capsule, p))"
  shows "isolated p \<and>
    (\<exists>t. problem_text base = Some t \<and> problem_text p = Some (JStr (json_text rp t @ [CHR 0x0A, CHR 0x0A] @ capsule @ [CHR 0x0A]))) \<and>
    clinic_entry p ''arm_type'' = Some (JStr ''oracle_treatment'') \<and>
    clinic_entry p ''oracle_probe'' = Some (JObj (probe_marker level)) \<and>
    (\<forall>k. k \<notin> {''problem_statement'', ''output_dir'', ''wutai_clinic''} \<longrightarrow> dict_get p k = dict_get base k) \<and>
    (\<exists>gold. dict_get golds task = Some gold \<and> (level = ''verbatim'' \<or> list_all (\<lambda>l. \<not> quotes_line capsule l) (splitlines gold)))"
proof -
  obtain gold where gold: "dict_get golds task = Some gold" and c: "distill_gold_to_capsule gold level = Inr capsule"
    and p: "build_oracle_probe_runtime_config rp base capsule (dir @ ''/native'') level = Inr p"
    using assms by (auto simp: probe_prepare_def Let_def split: option.splits elim!: and_then_InrE)
  from oracle_config_facts [OF p] gold distill_unquoted [OF c] show ?thesis by (auto simp: list_all_iff)
qed

text \<open>The variant of a built probe differs from it in the directory and in two entries of the marker.\<close>

definition replay_free_marker :: "string \<Rightarrow> json pydict" where
  "replay_free_marker level = probe_marker level @ [(''replay_prefix'', JStr ''none''), (''variant'', JStr ''replay_free'')]"

lemma marker_variant:
  "dict_set ''variant'' (JStr ''replay_free'') (dict_set ''replay_prefix'' (JStr ''none'') (probe_marker level)) = replay_free_marker level"
  by (simp add: dict_set_def probe_marker_def replay_free_marker_def)

lemma replay_free_of_probe:
  assumes p: "build_oracle_probe_runtime_config rp base capsule dir level = Inr p"
    and q: "build_replay_free_variant_config p dir' = Inr q"
  shows "isolated q" "problem_text q = problem_text p" "dict_get q ''output_dir'' = Some (JStr dir')"
    "clinic_entry q ''oracle_probe'' = Some (JObj (replay_free_marker level))"
    "k \<noteq> ''oracle_probe'' \<Longrightarrow> clinic_entry q k = clinic_entry p k"
    "k \<notin> {''output_dir'', ''wutai_clinic''} \<Longrightarrow> dict_get q k = dict_get p k"
  using q oracle_config_facts(4) [OF p]
  by (auto simp: build_replay_free_variant_config_def Let_def check_isolation_Inr isolated_def problem_text_def clinic_entry_def
      field_or_null_def json_get_default_def json_or_def dict_get_def [symmetric] marker_variant
      split: json.splits option.splits if_splits elim!: and_then_InrE)

lemma replay_free_total:
  assumes p: "build_oracle_probe_runtime_config rp base capsule dir level = Inr p"
  shows "(\<exists>q. build_replay_free_variant_config p dir' = Inr q) \<or>
    (\<exists>token \<in> set FORBIDDEN_CONFIG_TOKENS.
       build_replay_free_variant_config p dir' = Inl (ValueErr (''oracle probe config violates isolation: contains '' @ token)))"
  using oracle_config_facts(4) [OF p]
  by (auto simp: build_replay_free_variant_config_def Let_def check_isolation_def clinic_entry_def field_or_null_def
      json_get_default_def json_or_def dict_get_def [symmetric] field_bool_def find_Some_iff probe_marker_def
      split: json.splits option.splits if_splits) (auto simp: dict_get_def)

section \<open>What a classification says\<close>

lemma probe_proximity_None: "probe_proximity sim patch gold = None \<longleftrightarrow> patch = None \<or> gold = None \<or> gold = Some []"
  by (auto simp: probe_proximity_def Let_def split: option.splits)

lemma probe_proximity_Some:
  "probe_proximity sim patch gold = Some px \<Longrightarrow>
     \<exists>p g. patch = Some p \<and> gold = Some g \<and> g \<noteq> [] \<and>
       (px_near px \<longleftrightarrow> patch_files p \<inter> patch_files g \<noteq> {} \<and> 1 / 2 < sim (splitlines p) (splitlines g))"
  by (auto simp: probe_proximity_def Let_def gold_file_overlap_def edit_distance_def split: option.splits if_splits)

text \<open>A replay-free probe is typed by its outcome and by its patch: it moved exactly when the evaluation resolved it; unmoved,
  it speaks of a capability ceiling exactly when patch and gold patch touch a common file and are more alike than not, and of
  the channel exactly when both are known and this fails.\<close>

theorem replay_free_typing:
  "fst (classify_replay_free_probe sim resolved patch gold) =
     (if resolved = None then ''oracle_probe_replay_free_blocked_missing_eval''
      else if resolved = Some True then ''oracle_probe_replay_free_outcome_moved_prefix_lockin_implicated''
      else if patch = None \<or> gold = None \<or> gold = Some [] then ''oracle_probe_replay_free_blocked_missing_patch_or_gold''
      else if patch_files (the patch) \<inter> patch_files (the gold) \<noteq> {} \<and> 1 / 2 < sim (splitlines (the patch)) (splitlines (the gold))
      then ''oracle_probe_replay_free_unmoved_capability_ceiling_implicated''
      else ''oracle_probe_replay_free_unmoved_channel_capacity_implicated'')"
proof (cases "probe_proximity sim patch gold")
  case None
  then have "patch = None \<or> gold = None \<or> gold = Some []" by (simp only: probe_proximity_None)
  with None show ?thesis by (cases resolved) (simp_all add: classify_replay_free_probe_def replay_free_decision_def Let_def split: bool.splits)
next
  case (Some px)
  from probe_proximity_Some [OF Some] obtain p g where pg: "patch = Some p" "gold = Some g" "g \<noteq> []"
    "px_near px \<longleftrightarrow> patch_files p \<inter> patch_files g \<noteq> {} \<and> 1 / 2 < sim (splitlines p) (splitlines g)" by blast
  with Some show ?thesis
    by (cases resolved) (auto simp: classify_replay_free_probe_def replay_free_decision_def split: bool.splits)
qed

section \<open>Examples\<close>

definition gold_with :: "string \<Rightarrow> string" where
  "gold_with code = concat (map (\<lambda>l. l @ [CHR 0x0A]) [''+++ b/a'', ''@@ -1 +1,2 @@ def run'', code])"

lemma gold_lines:
  "splitlines (gold_with ''+raise ErrorZ'') = [''+++ b/a'', ''@@ -1 +1,2 @@ def run'', ''+raise ErrorZ'']"
  "splitlines (gold_with ''+raise ErrorQ'') = [''+++ b/a'', ''@@ -1 +1,2 @@ def run'', ''+raise ErrorQ'']"
  by code_simp+

lemma same_raise: "same_change ''+raise ErrorZ'' ''+raise ErrorQ''"
  unfolding same_change_def by code_simp

lemma capsule_letters:
  "CHR ''Z'' \<notin> set (capsule_text False (gold_with ''+raise ErrorZ''))" "CHR ''Q'' \<notin> set (capsule_text False (gold_with ''+raise ErrorQ''))"
  by code_simp+

lemma contains_set: "contains p s \<Longrightarrow> set p \<subseteq> set s"
proof (induction s)
  case (Cons c cs)
  have "set p \<subseteq> set (c # cs)" if "starts_with p (c # cs)"
    using that unfolding starts_with_iff by (metis set_append Un_upper1)
  with Cons show ?case by (auto simp: contains.simps)
qed (simp add: contains.simps)

lemma unquoted_line: "c \<notin> set capsule \<Longrightarrow> c \<in> set (strip (tl l)) \<Longrightarrow> \<not> quotes_line capsule l"
  using contains_set by (auto simp: quotes_line_def)

lemma gold_capsules:
  "distill_gold_to_capsule (gold_with ''+raise ErrorZ'') ''guidance'' = Inr (capsule_text False (gold_with ''+raise ErrorZ''))"
  "distill_gold_to_capsule (gold_with ''+raise ErrorQ'') ''guidance'' = Inr (capsule_text False (gold_with ''+raise ErrorQ''))"
proof -
  have "\<not> 8 \<le> py_len (strip (tl ''+++ b/a''))" "\<not> starts_with ''+'' ''@@ -1 +1,2 @@ def run''" "\<not> starts_with ''-'' ''@@ -1 +1,2 @@ def run''"
    by code_simp+
  then have "\<not> quotes_line c ''+++ b/a''" "\<not> quotes_line c ''@@ -1 +1,2 @@ def run''" for c
    unfolding quotes_line_def by blast+
  moreover have "CHR ''Z'' \<in> set (strip (tl ''+raise ErrorZ''))" "CHR ''Q'' \<in> set (strip (tl ''+raise ErrorQ''))" by code_simp+
  note unquoted_line [OF capsule_letters(1) this(1)] unquoted_line [OF capsule_letters(2) this(2)]
  ultimately show "distill_gold_to_capsule (gold_with ''+raise ErrorZ'') ''guidance'' = Inr (capsule_text False (gold_with ''+raise ErrorZ''))"
    "distill_gold_to_capsule (gold_with ''+raise ErrorQ'') ''guidance'' = Inr (capsule_text False (gold_with ''+raise ErrorQ''))"
    unfolding distill_gold_to_capsule_def gold_lines by (simp_all add: Let_def DISTILLATION_LEVELS_def)
qed

theorem guidance_hides_bodies_witness:
  "capsule_text False (gold_with ''+raise ErrorZ'') = capsule_text False (gold_with ''+raise ErrorQ'') \<and>
   list_all (\<lambda>l. \<not> quotes_line (capsule_text False (gold_with ''+raise ErrorZ'')) l)
     (splitlines (gold_with ''+raise ErrorZ'') @ splitlines (gold_with ''+raise ErrorQ''))"
proof (rule guidance_hides_bodies [OF _ gold_capsules])
  show "list_all2 same_change (splitlines (gold_with ''+raise ErrorZ'')) (splitlines (gold_with ''+raise ErrorQ''))"
    unfolding gold_lines using same_raise by (simp only: list_all2_Cons list_all2_Nil) (simp add: same_change_def)
qed

end
