(* ===== verification/Scorecard.thy ===== *)
theory Scorecard
  imports Tool_Grammar
begin

text \<open>
  Scorecards of tool-call routing, \<open>packages/clinic/src/wutai_clinic/schemas/scorecard.py\<close> and \<open>engine/scorer.py\<close>: a suite of
  responses is scored against the expected routes, or a card is read off a stored report. \<open>loads\<close> is \<open>json.loads\<close>,
  \<open>rp\<close> \<open>repr\<close> on containers, \<open>ri\<close> reads integer texts; \<open>now\<close> is the clock's text.
\<close>

section \<open>Cards\<close>

record native_card =
  nc_fallbacks :: int
  nc_call_repairs :: int
  nc_name_repairs :: int
  nc_text_count :: int
  nc_text_total :: int
  nc_tool_count :: int
  nc_tool_total :: int

definition empty_native :: native_card where
  "empty_native = \<lparr>nc_fallbacks = 0, nc_call_repairs = 0, nc_name_repairs = 0, nc_text_count = 0, nc_text_total = 0,
     nc_tool_count = 0, nc_tool_total = 0\<rparr>"

definition native_passed :: "native_card \<Rightarrow> bool" where
  "native_passed n \<longleftrightarrow> nc_fallbacks n = 0 \<and> nc_call_repairs n = 0 \<and> nc_name_repairs n = 0 \<and>
     nc_text_count n = nc_text_total n \<and> nc_tool_count n = nc_tool_total n"

record controlled_card =
  cc_runtime_gate :: bool
  cc_telemetry_gate :: bool
  cc_controller :: bool
  cc_consistency :: int
  cc_consistency_total :: int
  cc_secret :: bool
  cc_raw_payload :: bool

definition controlled_passed :: "controlled_card \<Rightarrow> bool" where
  "controlled_passed c \<longleftrightarrow> cc_runtime_gate c \<and> cc_telemetry_gate c \<and> cc_controller c \<and>
     cc_consistency c = cc_consistency_total c \<and> \<not> cc_secret c \<and> \<not> cc_raw_payload c"

record dual_card =
  dc_native :: native_card
  dc_controlled :: controlled_card
  dc_timestamp :: string
  dc_adapter :: string
  dc_suite :: string

definition dual_passed :: "dual_card \<Rightarrow> bool" where
  "dual_passed d \<longleftrightarrow> native_passed (dc_native d) \<and> controlled_passed (dc_controlled d)"

definition ratio_text :: "int \<Rightarrow> int \<Rightarrow> string" where
  "ratio_text c tot = (if tot = 0 then ''0/0'' else show_int c @ ''/'' @ show_int tot)"

definition bool_text :: "bool \<Rightarrow> string" where
  "bool_text b = (if b then ''True'' else ''False'')"

definition newline :: string where
  "newline = [CHR 0x0A]"

definition native_table :: "native_card \<Rightarrow> string" where
  "native_table n = join newline
     [''Native scorecard'',
      ''passed: '' @ bool_text (native_passed n),
      ''text route: '' @ ratio_text (nc_text_count n) (nc_text_total n),
      ''tool route: '' @ ratio_text (nc_tool_count n) (nc_tool_total n),
      ''semantic fallbacks: '' @ show_int (nc_fallbacks n),
      ''tool-call repairs: '' @ show_int (nc_call_repairs n),
      ''tool-name repairs: '' @ show_int (nc_name_repairs n)]"

definition controlled_table :: "controlled_card \<Rightarrow> string" where
  "controlled_table c = join newline
     [''Controlled scorecard'',
      ''passed: '' @ bool_text (controlled_passed c),
      ''runtime gate: '' @ bool_text (cc_runtime_gate c),
      ''telemetry gate: '' @ bool_text (cc_telemetry_gate c),
      ''behavior controller: '' @ bool_text (cc_controller c),
      ''route consistency: '' @ ratio_text (cc_consistency c) (cc_consistency_total c),
      ''secret persistence: '' @ bool_text (cc_secret c),
      ''raw payload persistence: '' @ bool_text (cc_raw_payload c)]"

definition dual_table :: "dual_card \<Rightarrow> string" where
  "dual_table d = join newline
     [''Dual scorecard'', ''passed: '' @ bool_text (dual_passed d), ''timestamp: '' @ dc_timestamp d, ''adapter: '' @ dc_adapter d,
      ''eval suite: '' @ dc_suite d, '''', native_table (dc_native d), '''', controlled_table (dc_controlled d)]"

section \<open>Scoring\<close>

definition score_response :: "(string \<Rightarrow> string + json) \<Rightarrow> string \<Rightarrow> string \<Rightarrow> native_card" where
  "score_response loads response expected =
     (let route = classify_route loads response in
      empty_native\<lparr>nc_text_count := of_bool (expected = ''text'' \<and> route = ''text''), nc_text_total := of_bool (expected = ''text''),
        nc_tool_count := of_bool (expected = ''tool'' \<and> route = ''tool''), nc_tool_total := of_bool (expected = ''tool'')\<rparr>)"

definition score_controlled ::
    "(string \<Rightarrow> int option) \<Rightarrow> json pydict \<Rightarrow> json pydict \<Rightarrow> pyexn + controlled_card" where
  "score_controlled ri policy telem =
     (let flag = (\<lambda>d k b. json_truthy (get_default d k (JBool b))) in
      and_then (json_int ri (get_default telem ''route_consistency'' (JInt 1))) (\<lambda>c.
      and_then (json_int ri (get_default telem ''route_consistency_total'' (JInt 1))) (\<lambda>tot.
      Inr \<lparr>cc_runtime_gate = flag policy ''runtime_gate_passed'' True, cc_telemetry_gate = flag telem ''telemetry_gate_passed'' True,
        cc_controller = flag policy ''behavior_controller_passed'' True, cc_consistency = c, cc_consistency_total = tot,
        cc_secret = flag telem ''secret_persistence'' False, cc_raw_payload = flag telem ''raw_payload_persistence'' False\<rparr>)))"

definition expected_routes :: "(json \<Rightarrow> string) \<Rightarrow> json pydict list \<Rightarrow> string pydict" where
  "expected_routes rp suite = foldl (\<lambda>d item. dict_set (json_text rp (get_default item ''id'' JNull))
     (json_text rp (get_default item ''expected_route'' (JStr ''text''))) d) [] suite"

definition expected_of :: "(json \<Rightarrow> string) \<Rightarrow> string pydict \<Rightarrow> json pydict \<Rightarrow> string" where
  "expected_of rp expected row = (case dict_get expected (json_text rp (get_default row ''id'' JNull)) of Some r \<Rightarrow> r | None \<Rightarrow> ''text'')"

definition response_of :: "(json \<Rightarrow> string) \<Rightarrow> json pydict \<Rightarrow> string" where
  "response_of rp row = json_text rp (get_default row ''response'' (JStr ''''))"

definition grammar_action :: "(json \<Rightarrow> string) \<Rightarrow> json pydict \<Rightarrow> string" where
  "grammar_action rp row = json_text rp (json_or (json_or (get_default row ''tool_grammar_action'' JNull)
     (get_default row ''grammar_action'' JNull)) (JStr ''''))"

text \<open>One turn of the loop.\<close>

definition add_response ::
    "(string \<Rightarrow> string + json) \<Rightarrow> (json \<Rightarrow> string) \<Rightarrow> (string \<Rightarrow> int option) \<Rightarrow> string pydict \<Rightarrow> json pydict \<Rightarrow> native_card \<Rightarrow>
     pyexn + native_card" where
  "add_response loads rp ri expected row n =
     (let scored = score_response loads (response_of rp row) (expected_of rp expected row); action = grammar_action rp row in
      and_then (json_int ri (get_default row ''semantic_fallback_used'' (JBool False))) (\<lambda>fallback.
      Inr \<lparr>nc_fallbacks = nc_fallbacks n + fallback,
        nc_call_repairs = nc_call_repairs n + of_bool (action = ''tool_call_repair''),
        nc_name_repairs = nc_name_repairs n + of_bool (action = ''tool_name_repair''),
        nc_text_count = nc_text_count n + nc_text_count scored, nc_text_total = nc_text_total n + nc_text_total scored,
        nc_tool_count = nc_tool_count n + nc_tool_count scored, nc_tool_total = nc_tool_total n + nc_tool_total scored\<rparr>))"

fun add_responses ::
    "(string \<Rightarrow> string + json) \<Rightarrow> (json \<Rightarrow> string) \<Rightarrow> (string \<Rightarrow> int option) \<Rightarrow> string pydict \<Rightarrow> json pydict list \<Rightarrow> native_card \<Rightarrow>
     pyexn + native_card" where
  "add_responses loads rp ri expected [] n = Inr n"
| "add_responses loads rp ri expected (r # rs) n =
     and_then (add_response loads rp ri expected r n) (add_responses loads rp ri expected rs)"

definition score_suite ::
    "(string \<Rightarrow> string + json) \<Rightarrow> (json \<Rightarrow> string) \<Rightarrow> (string \<Rightarrow> int option) \<Rightarrow> string \<Rightarrow> json pydict list \<Rightarrow> json pydict list \<Rightarrow>
     pyexn + dual_card" where
  "score_suite loads rp ri now responses suite =
     and_then (add_responses loads rp ri (expected_routes rp suite) responses empty_native) (\<lambda>n.
     Inr \<lparr>dc_native = n,
       dc_controlled = \<lparr>cc_runtime_gate = True, cc_telemetry_gate = True, cc_controller = True,
         cc_consistency = nc_text_count n + nc_tool_count n, cc_consistency_total = int (length responses),
         cc_secret = False, cc_raw_payload = False\<rparr>,
       dc_timestamp = now, dc_adapter = '''', dc_suite = ''''\<rparr>)"

section \<open>Cards of a stored report\<close>

text \<open>\<open>report.get(k) or {}\<close> and \<open>int(d.get(k, 0) or 0)\<close>.\<close>

definition part_of :: "json \<Rightarrow> string \<Rightarrow> pyexn + json" where
  "part_of d k = and_then (json_get d k) (\<lambda>v. Inr (json_or v (JObj [])))"

definition int_field :: "(string \<Rightarrow> int option) \<Rightarrow> json \<Rightarrow> string \<Rightarrow> pyexn + int" where
  "int_field ri d k = and_then (json_get_default d k (JInt 0)) (\<lambda>v. json_int ri (json_or v (JInt 0)))"

definition native_from_report :: "(string \<Rightarrow> int option) \<Rightarrow> json \<Rightarrow> pyexn + native_card" where
  "native_from_report ri report =
     and_then (part_of report ''fresh_generation_summary'') (\<lambda>summary.
     and_then (part_of report ''repair_summary'') (\<lambda>repairs.
     and_then (int_field ri summary ''semantic_fallback_count'') (\<lambda>fb.
     and_then (int_field ri repairs ''tool_call_repair_count'') (\<lambda>cr.
     and_then (int_field ri repairs ''tool_name_repair_count'') (\<lambda>nr.
     and_then (int_field ri summary ''native_text_route_count'') (\<lambda>tc.
     and_then (int_field ri summary ''text_record_count'') (\<lambda>tt.
     and_then (int_field ri summary ''native_tool_route_count'') (\<lambda>oc.
     and_then (int_field ri summary ''tool_record_count'') (\<lambda>ot.
     Inr \<lparr>nc_fallbacks = fb, nc_call_repairs = cr, nc_name_repairs = nr, nc_text_count = tc, nc_text_total = tt,
       nc_tool_count = oc, nc_tool_total = ot\<rparr>)))))))))"

definition gate_of :: "json \<Rightarrow> string \<Rightarrow> json \<Rightarrow> string \<Rightarrow> pyexn + bool" where
  "gate_of gates k checks k' =
     and_then (json_get_default checks k' (JBool False)) (\<lambda>dflt.
     and_then (json_get_default gates k dflt) (\<lambda>v. Inr (json_truthy v)))"

definition controlled_from_report :: "(string \<Rightarrow> int option) \<Rightarrow> json \<Rightarrow> pyexn + controlled_card" where
  "controlled_from_report ri report =
     and_then (part_of report ''fresh_generation_summary'') (\<lambda>summary.
     and_then (part_of report ''gate_summary'') (\<lambda>gates.
     and_then (and_then (part_of report ''controlled_regression_gate'') (\<lambda>g. part_of g ''checks'')) (\<lambda>checks.
     and_then (int_field ri summary ''native_text_route_count'') (\<lambda>tc.
     and_then (int_field ri summary ''native_tool_route_count'') (\<lambda>oc.
     and_then (gate_of gates ''runtime_gate_passed'' checks ''runtime_gate_passed'') (\<lambda>rg.
     and_then (gate_of gates ''telemetry_monitor_passed'' checks ''telemetry_monitor_passed'') (\<lambda>tg.
     and_then (gate_of gates ''behavior_controller_gate_passed'' checks ''behavior_controller_gate_passed'') (\<lambda>bg.
     and_then (int_field ri summary ''record_count'') (\<lambda>tot.
     and_then (json_get_default checks ''no_raw_or_gated_payload_stored'' (JBool True)) (\<lambda>clean.
     Inr \<lparr>cc_runtime_gate = rg, cc_telemetry_gate = tg, cc_controller = bg, cc_consistency = tc + oc, cc_consistency_total = tot,
       cc_secret = (\<not> json_truthy clean), cc_raw_payload = (\<not> json_truthy clean)\<rparr>))))))))))"

definition dual_from_report :: "(json \<Rightarrow> string) \<Rightarrow> (string \<Rightarrow> int option) \<Rightarrow> json \<Rightarrow> pyexn + dual_card" where
  "dual_from_report rp ri report =
     and_then (part_of report ''inputs'') (\<lambda>inputs.
     and_then (native_from_report ri report) (\<lambda>n.
     and_then (controlled_from_report ri report) (\<lambda>c.
     and_then (json_get report ''generated_at'') (\<lambda>stamp.
     and_then (json_get inputs ''adapter_path'') (\<lambda>ap.
     and_then (json_get inputs ''eval_suite'') (\<lambda>es.
     and_then (json_get inputs ''rollout_report'') (\<lambda>rr.
     let txt = (\<lambda>v. json_text rp (json_or v (JStr ''''))) in
     Inr \<lparr>dc_native = n, dc_controlled = c, dc_timestamp = txt stamp, dc_adapter = txt ap, dc_suite = txt (json_or es rr)\<rparr>)))))))"

section \<open>What a passing card means\<close>

text \<open>A response on its expected route, which is one of the two.\<close>

definition routed :: "(string \<Rightarrow> string + json) \<Rightarrow> (json \<Rightarrow> string) \<Rightarrow> string pydict \<Rightarrow> json pydict \<Rightarrow> bool" where
  "routed loads rp expected row \<longleftrightarrow> expected_of rp expected row \<in> {''text'', ''tool''} \<and>
     classify_route loads (response_of rp row) = expected_of rp expected row"

definition repaired :: "(json \<Rightarrow> string) \<Rightarrow> json pydict \<Rightarrow> bool" where
  "repaired rp row \<longleftrightarrow> grammar_action rp row \<in> {''tool_call_repair'', ''tool_name_repair''}"

definition fallback_of :: "(string \<Rightarrow> int option) \<Rightarrow> json pydict \<Rightarrow> int" where
  "fallback_of ri row = (case json_int ri (get_default row ''semantic_fallback_used'' (JBool False)) of Inr i \<Rightarrow> i | Inl _ \<Rightarrow> 0)"

lemma count_Cons: "int (length (filter P (r # rs))) = of_bool (P r) + int (length (filter P rs))"
  by simp

text \<open>What the loop adds up.\<close>

lemma add_responses_sums:
  assumes "add_responses loads rp ri expected rows n = Inr m"
  shows "nc_fallbacks m = nc_fallbacks n + sum_list (map (fallback_of ri) rows) \<and>
    nc_call_repairs m + nc_name_repairs m = nc_call_repairs n + nc_name_repairs n + int (length (filter (repaired rp) rows)) \<and>
    nc_call_repairs n \<le> nc_call_repairs m \<and> nc_name_repairs n \<le> nc_name_repairs m \<and>
    nc_text_count m + nc_tool_count m = nc_text_count n + nc_tool_count n + int (length (filter (routed loads rp expected) rows)) \<and>
    nc_text_total m + nc_tool_total m = nc_text_total n + nc_tool_total n +
      int (length (filter (\<lambda>r. expected_of rp expected r \<in> {''text'', ''tool''}) rows)) \<and>
    nc_text_total n - nc_text_count n \<le> nc_text_total m - nc_text_count m \<and> nc_tool_total n - nc_tool_count n \<le> nc_tool_total m - nc_tool_count m"
  using assms
proof (induction rows arbitrary: n)
  case (Cons r rs)
  then obtain n1 where n1: "add_response loads rp ri expected r n = Inr n1" "add_responses loads rp ri expected rs n1 = Inr m"
    by (auto elim: and_then_InrE)
  from n1(1) obtain fb where fb: "json_int ri (get_default r ''semantic_fallback_used'' (JBool False)) = Inr fb"
    by (auto simp: add_response_def Let_def elim!: and_then_InrE)
  with n1(1) have step: "nc_fallbacks n1 = nc_fallbacks n + fallback_of ri r"
    "nc_call_repairs n1 = nc_call_repairs n + of_bool (grammar_action rp r = ''tool_call_repair'')"
    "nc_name_repairs n1 = nc_name_repairs n + of_bool (grammar_action rp r = ''tool_name_repair'')"
    "nc_text_count n1 = nc_text_count n + of_bool (expected_of rp expected r = ''text'' \<and> classify_route loads (response_of rp r) = ''text'')"
    "nc_text_total n1 = nc_text_total n + of_bool (expected_of rp expected r = ''text'')"
    "nc_tool_count n1 = nc_tool_count n + of_bool (expected_of rp expected r = ''tool'' \<and> classify_route loads (response_of rp r) = ''tool'')"
    "nc_tool_total n1 = nc_tool_total n + of_bool (expected_of rp expected r = ''tool'')"
    by (auto simp: add_response_def score_response_def fallback_of_def Let_def)
  let ?a = "grammar_action rp r" and ?x = "expected_of rp expected r" and ?route = "classify_route loads (response_of rp r)"
  have parts: "of_bool (repaired rp r) = (of_bool (?a = ''tool_call_repair'') + of_bool (?a = ''tool_name_repair'') :: int)"
    "of_bool (routed loads rp expected r) = (of_bool (?x = ''text'' \<and> ?route = ''text'') + of_bool (?x = ''tool'' \<and> ?route = ''tool'') :: int)"
    "of_bool (?x \<in> {''text'', ''tool''}) = (of_bool (?x = ''text'') + of_bool (?x = ''tool'') :: int)"
    by (auto simp: repaired_def routed_def)
  have le: "of_bool (P \<and> Q) \<le> (of_bool P :: int)" for P Q by simp
  have nn: "0 \<le> (of_bool P :: int)" for P by simp
  show ?case
    using Cons.IH [OF n1(2)] step parts le [of "?x = ''text''" "?route = ''text''"] le [of "?x = ''tool''" "?route = ''tool''"]
      nn [of "?a = ''tool_call_repair''"] nn [of "?a = ''tool_name_repair''"]
    unfolding count_Cons list.simps sum_list.Cons by (intro conjI; linarith)
qed simp

text \<open>
  a suite passes exactly when every response is right. If scoring returns: the card passes exactly when every response
  takes its expected route, which is text or tool, none was repaired and the fallbacks sum to zero; counts never
  exceed totals, and totals never exceed the number of responses. Items of the suite without a response do not matter.
\<close>

theorem suite_passes_iff:
  assumes "score_suite loads rp ri now responses suite = Inr sc"
  shows "let expected = expected_routes rp suite; n = dc_native sc in
    (dual_passed sc \<longleftrightarrow> list_all (\<lambda>r. routed loads rp expected r \<and> \<not> repaired rp r) responses \<and>
       sum_list (map (fallback_of ri) responses) = 0) \<and>
    nc_text_count n \<le> nc_text_total n \<and> nc_tool_count n \<le> nc_tool_total n \<and>
    nc_text_total n + nc_tool_total n \<le> int (length responses)"
proof -
  let ?e = "expected_routes rp suite" and ?n = "dc_native sc"
  from assms have n: "add_responses loads rp ri ?e responses empty_native = Inr ?n"
    and c: "controlled_passed (dc_controlled sc) \<longleftrightarrow> nc_text_count ?n + nc_tool_count ?n = int (length responses)"
    by (auto simp: score_suite_def controlled_passed_def elim!: and_then_InrE)
  have zero: "length (filter P xs) = 0 \<longleftrightarrow> list_all (\<lambda>x. \<not> P x) xs" for P and xs :: "json pydict list"
    by (simp add: filter_empty_conv list_all_iff)
  have full: "length (filter P xs) = length xs \<longleftrightarrow> list_all P xs" for P and xs :: "json pydict list"
    unfolding list_all_iff by (metis filter_True length_filter_less less_irrefl)
  let ?R = "length (filter (routed loads rp ?e) responses)" and ?X = "length (filter (repaired rp) responses)"
  have "?R \<le> length responses" by simp
  moreover have "length (filter (\<lambda>r. expected_of rp ?e r \<in> {''text'', ''tool''}) responses) \<le> length responses" by (rule length_filter_le)
  moreover note add_responses_sums [OF n]
  ultimately have sums: "nc_fallbacks ?n = sum_list (map (fallback_of ri) responses)"
    "nc_call_repairs ?n + nc_name_repairs ?n = int ?X" "0 \<le> nc_call_repairs ?n" "0 \<le> nc_name_repairs ?n"
    "nc_text_count ?n + nc_tool_count ?n = int ?R" "nc_text_count ?n \<le> nc_text_total ?n" "nc_tool_count ?n \<le> nc_tool_total ?n"
    "nc_text_total ?n + nc_tool_total ?n \<le> int (length responses)"
    by (simp_all add: empty_native_def)
  have "dual_passed sc \<longleftrightarrow> sum_list (map (fallback_of ri) responses) = 0 \<and> ?X = 0 \<and> ?R = length responses"
    unfolding dual_passed_def native_passed_def c using sums by (auto simp: sums(1))
  also have "\<dots> \<longleftrightarrow> list_all (\<lambda>r. routed loads rp ?e r \<and> \<not> repaired rp r) responses \<and> sum_list (map (fallback_of ri) responses) = 0"
    unfolding zero full by (auto simp: list_all_iff)
  finally show ?thesis using sums by (simp add: Let_def)
qed

theorem suite_passes_iff_witness:
  "\<exists>sc. score_suite (\<lambda>_. Inl '''') (\<lambda>_. '''') py_int ''now'' [[(''id'', JStr ''a''), (''response'', JStr ''hello'')]]
     [[(''id'', JStr ''a''), (''expected_route'', JStr ''text'')]] = Inr sc \<and> nc_text_total (dc_native sc) \<le> 1"
proof -
  let ?run = "score_suite (\<lambda>_. Inl '''') (\<lambda>_. '''') py_int ''now'' [[(''id'', JStr ''a''), (''response'', JStr ''hello'')]]
     [[(''id'', JStr ''a''), (''expected_route'', JStr ''text'')]]"
  have "\<exists>sc. ?run = Inr sc"
    by (simp add: score_suite_def add_response_def get_default_def dict_get_def json_int_def Let_def)
  then obtain sc where sc: "?run = Inr sc" by blast
  have "nc_tool_count (dc_native sc) \<ge> 0"
    using sc by (auto simp: score_suite_def add_response_def score_response_def empty_native_def Let_def elim!: and_then_InrE)
  with suite_passes_iff [OF sc] sc show ?thesis by (auto simp: Let_def)
qed

text \<open>A suite to which there is no response at all passes, whatever it expects; the three gates are not measured.\<close>

lemma empty_suite_passes: "\<exists>sc. score_suite loads rp ri now [] suite = Inr sc \<and> dual_passed sc"
  by (simp add: score_suite_def dual_passed_def native_passed_def controlled_passed_def empty_native_def)

end
