(* ===== verification/Instance_Validity.thy ===== *)
theory Instance_Validity
  imports Mechanistic_Endpoints
begin

text \<open>
  Validity of benchmark instances, \<open>packages/clinic/src/wutai_clinic/engine/instance_validity.py\<close>: an instance is valid when the
  dataset's own patch resolves it. A report file is what it parses to, \<open>None\<close> when it cannot be read or parsed;
  finding the files is not modelled.
\<close>

section \<open>Model\<close>

record validity_row =
  vr_instance :: string
  vr_resolved :: bool
  vr_passed :: nat
  vr_total :: nat
  vr_path :: string

definition classify_instance_validity :: "string \<Rightarrow> json option \<Rightarrow> string \<Rightarrow> pyexn + validity_row option" where
  "classify_instance_validity path payload instance_id =
     (case payload of
        None \<Rightarrow> Inr None
      | Some j \<Rightarrow>
          and_then (json_get j instance_id) (\<lambda>v.
          (case v of
             JObj inst \<Rightarrow>
               (case dict_get inst ''resolved'' of
                  None \<Rightarrow> Inr None
                | Some res \<Rightarrow>
                    and_then (json_get (json_or (field_or_null inst ''tests_status'') (JObj [])) ''FAIL_TO_PASS'') (\<lambda>f0.
                    let f2p = json_or f0 (JObj []) in
                    and_then (and_then (json_get f2p ''success'') len_or_empty) (\<lambda>ok.
                    and_then (and_then (json_get f2p ''failure'') len_or_empty) (\<lambda>bad.
                    Inr (Some \<lparr>vr_instance = instance_id, vr_resolved = json_truthy res, vr_passed = ok, vr_total = ok + bad,
                      vr_path = path\<rparr>)))))
           | _ \<Rightarrow> Inr None)))"

definition validity_row_json :: "validity_row \<Rightarrow> json" where
  "validity_row_json r = JObj
     [(''instance_id'', JStr (vr_instance r)), (''gold_resolved'', JBool (vr_resolved r)), (''substrate_valid'', JBool (vr_resolved r)),
      (''fail_to_pass_passed'', JInt (int (vr_passed r))), (''fail_to_pass_total'', JInt (int (vr_total r))),
      (''report_path'', JStr (vr_path r))]"

text \<open>The rows of the reports found: the instance, the path and the content of each.\<close>

fun validity_rows :: "(string \<times> string \<times> json option) list \<Rightarrow> pyexn + validity_row list" where
  "validity_rows [] = Inr []"
| "validity_rows ((i, path, payload) # fs) =
     and_then (classify_instance_validity path payload i) (\<lambda>row.
     and_then (validity_rows fs) (\<lambda>rows. Inr (case row of Some r \<Rightarrow> r # rows | None \<Rightarrow> rows)))"

definition valid_instances :: "validity_row list \<Rightarrow> string list" where
  "valid_instances rows = sort (map vr_instance (filter vr_resolved rows))"

definition invalid_instances :: "validity_row list \<Rightarrow> string list" where
  "invalid_instances rows = sort (map vr_instance (filter (\<lambda>r. \<not> vr_resolved r) rows))"

definition VALIDITY_BOUNDARY :: string where
  "VALIDITY_BOUNDARY = ''Instance validity classifies the local eval substrate, not any agent or '' @
     ''intervention. It supports no effectiveness claim; it voids, but never '' @
     ''creates, outcome evidence.''"

definition VOIDING_RULE :: string where
  "VOIDING_RULE = ''Every paired-outcome row, oracle-probe outcome decision, and '' @
     ''epsilon rerun on an invalid instance is void: the outcome '' @
     ''cannot move there by construction. Patch-distance (behavioral) '' @
     ''measurements on invalid instances remain interpretable.''"

definition validity_decision :: "validity_row list \<Rightarrow> string" where
  "validity_decision rows =
     (if rows = [] then ''instance_validity_blocked_no_gold_sanity_reports''
      else if invalid_instances rows \<noteq> [] then ''instance_validity_substrate_invalid_instances_found''
      else ''instance_validity_all_checked_instances_valid'')"

definition validity_report :: "string \<Rightarrow> (string \<times> string \<times> json option) list \<Rightarrow> pyexn + json pydict \<times> validity_row list" where
  "validity_report now fs =
     and_then (validity_rows fs) (\<lambda>rows.
     Inr (generate_report now (Some ''7.instance_validity'') (Some (validity_decision rows))
       [(''gold_sanity_reports_present'', 0 < length rows), (''gold_patch_source_is_dataset'', True)]
       [(''version'', JStr ''phase7_instance_validity_v1''),
        (''claim_boundary'', JStr VALIDITY_BOUNDARY),
        (''rows'', JList (map validity_row_json rows)),
        (''valid_instances'', str_list (valid_instances rows)),
        (''invalid_instances'', str_list (invalid_instances rows)),
        (''voiding_rule'', JStr VOIDING_RULE)] None, rows))"

section \<open>What the report says\<close>

lemma validity_rows_sub:
  "validity_rows fs = Inr rows \<Longrightarrow> mset (map vr_instance rows) \<subseteq># mset (map fst fs) \<and> (\<forall>r \<in> set rows. vr_passed r \<le> vr_total r)"
proof (induction fs arbitrary: rows)
  case (Cons f fs)
  obtain i path payload where f: "f = (i, path, payload)" by (cases f) auto
  from Cons.prems obtain row rows' where row: "classify_instance_validity path payload i = Inr row"
    and rest: "validity_rows fs = Inr rows'" "rows = (case row of Some r \<Rightarrow> r # rows' | None \<Rightarrow> rows')"
    by (auto simp: f elim!: and_then_InrE)
  have "vr_instance r = i \<and> vr_passed r \<le> vr_total r" if "row = Some r" for r
    using row that by (auto simp: classify_instance_validity_def Let_def split: option.splits json.splits elim!: and_then_InrE)
  moreover have "M \<subseteq># N \<Longrightarrow> M \<subseteq># add_mset x N" for M N :: "string multiset" and x
    by (metis add_mset_add_single mset_subset_eq_add_left subset_mset.order_trans)
  ultimately show ?case using Cons.IH [OF rest(1)] rest(2) by (auto simp: f split: option.splits)
qed simp

text \<open>
  If the report is produced, it passes exactly when some report could be classified, and it calls every checked instance
  valid exactly when the gold patch resolved each of them; no instance is listed more often than reports were found
  for it, and the two lists together are the classified instances.
\<close>

lemma validity_report_iff:
  assumes "validity_report now fs = Inr (r, rows)"
  shows "dict_get r ''passed'' = Some (JBool (rows \<noteq> []))"
    "dict_get r ''decision'' = Some (JStr ''instance_validity_all_checked_instances_valid'') \<longleftrightarrow> rows \<noteq> [] \<and> list_all vr_resolved rows"
    "mset (valid_instances rows) + mset (invalid_instances rows) = mset (map vr_instance rows)"
    "mset (map vr_instance rows) \<subseteq># mset (map fst fs)"
proof -
  from assms have rows: "validity_rows fs = Inr rows" and d: "dict_get r ''decision'' = Some (JStr (validity_decision rows))"
    "dict_get r ''passed'' = Some (JBool (rows \<noteq> []))"
    by (auto simp: validity_report_def report_fields elim!: and_then_InrE)
  show "dict_get r ''passed'' = Some (JBool (rows \<noteq> []))" by (rule d(2))
  have inv: "invalid_instances rows = [] \<longleftrightarrow> list_all vr_resolved rows"
  proof -
    have "invalid_instances rows = [] \<longleftrightarrow> set (invalid_instances rows) = {}" by simp
    then show ?thesis by (auto simp: invalid_instances_def list_all_iff)
  qed
  show "dict_get r ''decision'' = Some (JStr ''instance_validity_all_checked_instances_valid'') \<longleftrightarrow> rows \<noteq> [] \<and> list_all vr_resolved rows"
    by (simp add: d validity_decision_def inv)
  show "mset (valid_instances rows) + mset (invalid_instances rows) = mset (map vr_instance rows)"
    unfolding valid_instances_def invalid_instances_def by (induction rows) auto
  show "mset (map vr_instance rows) \<subseteq># mset (map fst fs)" using validity_rows_sub [OF rows] by simp
qed

end
