(* ===== verification/Batch_Readiness.thy ===== *)
theory Batch_Readiness
  imports Batch_Stability Policy_Hooks
begin

text \<open>
  Readiness of the next batch, \<open>packages/clinic/src/wutai_clinic/intervention/batch_readiness.py\<close>: the stability report, the
  trigger-policy review, the recalibration report and protocol, the candidate rows and, if there is one, the dry run's report
  become gates, a decision and a policy. Every input is a dictionary; writing the files is not modelled. \<open>rp\<close> is
  \<open>repr\<close> on containers.
\<close>

section \<open>Model\<close>

definition BATCH3_VERSION :: string where "BATCH3_VERSION = ''phase319_batch3_readiness_v1''"
definition EXPECTED_RECALIBRATION :: string where
  "EXPECTED_RECALIBRATION = ''phase316_live_trigger_recalibration_protocol_ready_not_executable_batch3_not_authorized''"
definition EXPECTED_DRY_RUN :: string where
  "EXPECTED_DRY_RUN = ''phase316_live_feature_hook_dry_run_gate_passed_batch3_still_not_authorized''"
definition READINESS_BOUNDARY :: string where
  "READINESS_BOUNDARY = ''Batch-3 readiness gates integrate completed small-batch stability, trigger-policy '' @
     ''review, recalibration protocol, and optional live-feature hook dry-run evidence. '' @
     ''They authorize preparation and review only; they do not start Docker, call a model, '' @
     ''claim generalized uplift, or authorize external-provider execution.''"

text \<open>The inputs of a review; the dry run's report may be missing.\<close>

record readiness_inputs =
  ri_stability :: "json pydict"
  ri_trigger :: "json pydict"
  ri_recalibration :: "json pydict"
  ri_protocol :: "json pydict"
  ri_candidates :: "json pydict list"
  ri_dry_run :: "json pydict option"

definition all_candidates :: "json pydict list \<Rightarrow> string \<Rightarrow> json \<Rightarrow> bool" where
  "all_candidates rows k expected \<longleftrightarrow> rows \<noteq> [] \<and> list_all (\<lambda>row. json_equal (field_or_null row k) expected) rows"

definition candidate_policy_counts :: "(json \<Rightarrow> string) \<Rightarrow> json pydict list \<Rightarrow> nat pydict" where
  "candidate_policy_counts rp rows =
     sort_key fst (fold dict_incr (map (\<lambda>row. json_text rp (get_default row ''intervention_policy_id'' (JStr ''unknown''))) rows) [])"

text \<open>\<open>d.get(k, {}).get(j)\<close>\<close>

definition get_in :: "json pydict \<Rightarrow> string \<Rightarrow> string \<Rightarrow> pyexn + json" where
  "get_in d k j = json_get (get_dict d k) j"

definition readiness_summary :: "(json \<Rightarrow> string) \<Rightarrow> readiness_inputs \<Rightarrow> pyexn + json" where
  "readiness_summary rp i =
     (let dry = (case ri_dry_run i of Some r \<Rightarrow> if r = [] then JObj [] else get_dict r ''summary'' | None \<Rightarrow> JObj []) in
      and_then (get_in (ri_stability i) ''stability_summary'' ''main_treatment_pair_count'') (\<lambda>main.
      and_then (get_in (ri_stability i) ''stability_summary'' ''positive_main_count'') (\<lambda>positive.
      and_then (get_in (ri_stability i) ''stability_summary'' ''negative_main_count'') (\<lambda>negative.
      and_then (get_in (ri_stability i) ''stability_summary'' ''trigger_hit_rate'') (\<lambda>rate.
      and_then (get_in (ri_stability i) ''continuation_policy'' ''allow_next_small_batch'') (\<lambda>allow.
      and_then (get_in (ri_trigger i) ''continuation_policy'' ''allow_batch3_same_static_prefix_policy'') (\<lambda>same.
      and_then (get_in (ri_trigger i) ''continuation_policy'' ''require_live_trigger_recalibration_protocol_before_batch3'') (\<lambda>required.
      and_then (get_in (ri_recalibration i) ''summary'' ''candidate_count'') (\<lambda>count.
      and_then (json_get dry ''injection_count'') (\<lambda>injections.
      and_then (json_get dry ''candidate_count'') (\<lambda>dry_count.
      Inr (JObj
        [(''stability_decision'', field_or_null (ri_stability i) ''decision''),
         (''stability_main_treatment_pair_count'', main), (''stability_positive_main_count'', positive),
         (''stability_negative_main_count'', negative), (''stability_trigger_hit_rate'', rate),
         (''stability_allow_next_small_batch'', allow),
         (''trigger_review_decision'', field_or_null (ri_trigger i) ''decision''),
         (''same_static_prefix_allowed'', same), (''recalibration_required'', required),
         (''recalibration_decision'', field_or_null (ri_recalibration i) ''decision''),
         (''recalibration_candidate_count'', count),
         (''protocol_version'', field_or_null (ri_protocol i) ''protocol_version''),
         (''protocol_candidate_count'', field_or_null (ri_protocol i) ''batch3_candidate_count''),
         (''candidate_count'', nat_json (length (ri_candidates i))),
         (''candidate_policy_counts'', counts_json (candidate_policy_counts rp (ri_candidates i))),
         (''dry_run_present'', JBool (ri_dry_run i \<noteq> None)),
         (''dry_run_decision'', (case ri_dry_run i of Some r \<Rightarrow> field_or_null r ''decision'' | None \<Rightarrow> JNull)),
         (''dry_run_injection_count'', injections), (''dry_run_candidate_count'', dry_count),
         (''real_run_authorized'', JBool False)]))))))))))))"

definition stability_part :: "json pydict \<Rightarrow> pyexn + bool pydict" where
  "stability_part r =
     and_then (get_in r ''continuation_policy'' ''allow_next_small_batch'') (\<lambda>next.
     and_then (get_in r ''continuation_policy'' ''allow_intervention_effect_claim'') (\<lambda>effect.
     and_then (get_in r ''continuation_policy'' ''allow_efe_str_predictive_claim'') (\<lambda>predictive.
     and_then (get_in r ''continuation_policy'' ''allow_full_64_unattended'') (\<lambda>full.
     Inr [(''stability_report_passed'', field_bool r ''passed'' True),
       (''stability_allows_next_small_batch'', next = JBool True),
       (''stability_blocks_effect_claim'', effect = JBool False),
       (''stability_blocks_efe_str_claim'', predictive = JBool False),
       (''stability_blocks_full_unattended'', full = JBool False)]))))"

definition trigger_part :: "json pydict \<Rightarrow> pyexn + bool pydict" where
  "trigger_part r =
     and_then (get_in r ''continuation_policy'' ''require_live_trigger_recalibration_protocol_before_batch3'') (\<lambda>required.
     and_then (get_in r ''continuation_policy'' ''allow_batch3_same_static_prefix_policy'') (\<lambda>same.
     and_then (get_in r ''continuation_policy'' ''allow_batch3_real_run_without_new_authorization'') (\<lambda>real_run.
     Inr [(''trigger_review_passed'', field_bool r ''passed'' True),
       (''trigger_review_requires_recalibration'', required = JBool True),
       (''same_static_prefix_policy_blocked'', same = JBool False),
       (''trigger_review_blocks_real_run_without_authorization'', real_run = JBool False)])))"

definition recalibration_part :: "json pydict \<Rightarrow> json pydict \<Rightarrow> json pydict list \<Rightarrow> pyexn + bool pydict" where
  "recalibration_part r protocol rows =
     and_then (get_in protocol ''runner_contract_delta'' ''dry_run_required_before_real_run'') (\<lambda>dry.
     and_then (get_in protocol ''runner_contract_delta'' ''new_external_provider_authorization_required_before_real_run'') (\<lambda>ext.
     and_then (get_in protocol ''runner_contract_delta'' ''runner_code_changed_by_this_protocol'') (\<lambda>changed.
     and_then (get_in protocol ''decision_boundary'' ''batch3_authorized'') (\<lambda>authorized.
     and_then (get_in r ''summary'' ''candidate_count'') (\<lambda>count.
     Inr [(''recalibration_report_passed'', field_bool r ''passed'' True),
       (''recalibration_decision_expected'', field_text r ''decision'' EXPECTED_RECALIBRATION),
       (''recalibration_protocol_version_present'', json_truthy (field_or_null protocol ''protocol_version'')),
       (''recalibration_protocol_requires_dry_run'', dry = JBool True),
       (''recalibration_protocol_requires_external_authorization'', ext = JBool True),
       (''recalibration_protocol_does_not_change_runner'', changed = JBool False),
       (''recalibration_protocol_blocks_real_run'', authorized = JBool False),
       (''candidate_rows_present'', 0 < length rows),
       (''candidate_count_matches_protocol'', json_eq_int (field_or_null protocol ''batch3_candidate_count'') (int (length rows))),
       (''candidate_count_matches_recalibration_report'', json_eq_int count (int (length rows))),
       (''candidate_rows_not_authorized'', all_candidates rows ''batch3_real_run_authorized'' (JBool False)),
       (''candidate_rows_disable_exact_static_prefix'', all_candidates rows ''exact_static_prefix_trigger_disabled'' (JBool True)),
       (''candidate_rows_use_live_feature_mode'', all_candidates rows ''recalibrated_trigger_mode'' (JStr ''live_feature_signature_window'')),
       (''claim_boundary_present'', READINESS_BOUNDARY \<noteq> [])])))))"

definition dry_run_part :: "json pydict \<Rightarrow> nat \<Rightarrow> pyexn + bool pydict" where
  "dry_run_part r n =
     and_then (get_in r ''summary'' ''candidate_count'') (\<lambda>count.
     and_then (get_in r ''summary'' ''injection_count'') (\<lambda>injections.
     and_then (get_in r ''continuation_policy'' ''allow_batch3_real_run'') (\<lambda>real_run.
     and_then (get_in r ''summary'' ''model_call_started'') (\<lambda>model.
     and_then (get_in r ''summary'' ''runner_started'') (\<lambda>runner.
     and_then (get_in r ''summary'' ''docker_or_official_eval_started'') (\<lambda>docker.
     Inr [(''dry_run_report_passed'', field_bool r ''passed'' True),
       (''dry_run_decision_expected'', field_text r ''decision'' EXPECTED_DRY_RUN),
       (''dry_run_candidate_count_matches'', json_eq_int count (int n)),
       (''dry_run_injected_once_per_candidate'', json_eq_int injections (int n)),
       (''dry_run_blocks_real_run'', real_run = JBool False),
       (''dry_run_started_no_model_or_runner'', model = JBool False \<and> runner = JBool False \<and> docker = JBool False)]))))))"

definition readiness_gates :: "readiness_inputs \<Rightarrow> pyexn + bool pydict" where
  "readiness_gates i =
     and_then (stability_part (ri_stability i)) (\<lambda>g1.
     and_then (trigger_part (ri_trigger i)) (\<lambda>g2.
     and_then (recalibration_part (ri_recalibration i) (ri_protocol i) (ri_candidates i)) (\<lambda>g3.
     and_then (opt_gates (\<lambda>r. dry_run_part r (length (ri_candidates i))) (ri_dry_run i)) (\<lambda>g4.
     Inr (g1 @ g2 @ g3 @ g4)))))"

definition readiness_decision :: "bool pydict \<Rightarrow> json pydict option \<Rightarrow> string" where
  "readiness_decision gates dry =
     (if \<not> list_all snd gates then ''batch3_readiness_blocked''
      else if dry = None then ''batch3_readiness_recalibration_ready_live_feature_dry_run_required''
      else ''batch3_readiness_live_feature_dry_run_ready_external_run_not_authorized'')"

definition readiness_policy :: "bool pydict \<Rightarrow> json pydict option \<Rightarrow> json pydict" where
  "readiness_policy gates dry =
     (let passed = list_all snd gates; ready = (passed \<and> dry \<noteq> None) in
      [(''allow_prepare_batch3_candidate_review'', JBool passed),
       (''allow_live_hook_runner_preflight'', JBool ready),
       (''allow_batch3_static_prefix_run'', JBool False),
       (''allow_batch3_real_run'', JBool False),
       (''allow_full_64_unattended'', JBool False),
       (''allow_intervention_effect_claim'', JBool False),
       (''allow_efe_str_predictive_claim'', JBool False),
       (''recommended_next_step'', JStr (if ready
          then ''prepare_operator_approved_live_hook_runner_preflight_and_external_provider_export''
          else ''run_live_feature_hook_dry_run_gate_before_any_external_provider_batch3''))])"

definition batch3_readiness_report :: "(json \<Rightarrow> string) \<Rightarrow> string \<Rightarrow> readiness_inputs \<Rightarrow> pyexn + json pydict" where
  "batch3_readiness_report rp now i =
     and_then (readiness_gates i) (\<lambda>gates.
     and_then (readiness_summary rp i) (\<lambda>summary.
     Inr (generate_report now (Some ''3.19.batch3_readiness'') (Some (readiness_decision gates (ri_dry_run i))) gates
       [(''version'', JStr BATCH3_VERSION),
        (''claim_boundary'', JStr READINESS_BOUNDARY),
        (''readiness_summary'', summary),
        (''continuation_policy'', JObj (readiness_policy gates (ri_dry_run i)))] None)))"

section \<open>Readiness\<close>

interpretation readiness: gated_report fst "\<lambda>(gates, dry). readiness_decision gates dry" "''batch3_readiness_blocked''"
  by unfold_locales (auto simp: readiness_decision_def split: if_splits)

text \<open>Of a stability report that this library's own stability step wrote, the five gates say one thing.\<close>

lemma stability_part_of_report:
  assumes "batch_stability_report rp num ntext now rows target mn mx = Inr r"
  shows "\<exists>gates. stability_part r = Inr gates \<and>
    (list_all snd gates \<longleftrightarrow> mn \<le> int (length rows) \<and> int (length rows) \<le> mx \<and> sound_batch rp rows)"
proof -
  from assms obtain s where s: "stability_summary rp ntext rows target = Inr s"
    and b: "dict_get r ''passed'' = Some (JBool (stability_decision s (stability_gates rp rows s mn mx) \<noteq> ''batch_stability_evidence_blocked''))"
    and p: "dict_get r ''continuation_policy'' = Some (JObj (stability_policy s (stability_gates rp rows s mn mx)))"
    by (rule stability_report_unfold)
  let ?gates = "stability_gates rp rows s mn mx"
  have "map_of (stability_policy s ?gates) ''allow_next_small_batch'' = Some (JBool (safe_to_continue s ?gates))"
    "map_of (stability_policy s ?gates) ''allow_intervention_effect_claim'' = Some (JBool False)"
    "map_of (stability_policy s ?gates) ''allow_efe_str_predictive_claim'' = Some (JBool False)"
    "map_of (stability_policy s ?gates) ''allow_full_64_unattended'' = Some (JBool False)"
    by (simp_all add: stability_policy_def Let_def)
  moreover have "safe_to_continue s ?gates \<longleftrightarrow> list_all snd ?gates"
    using gate_no_negative [of rp rows s mn mx] by (auto simp: safe_to_continue_def)
  moreover have "stability_decision s ?gates \<noteq> ''batch_stability_evidence_blocked'' \<longleftrightarrow> list_all snd ?gates"
    by (auto simp: stability_decision_def)
  ultimately show ?thesis
    using stability_gates_iff [OF s, of mn mx] by (simp add: stability_part_def get_in_def get_dict_def p field_bool_def b)
qed

text \<open>What the other parts ask for.\<close>

definition parts_hold :: "readiness_inputs \<Rightarrow> bool" where
  "parts_hold i \<longleftrightarrow> (\<forall>gates. trigger_part (ri_trigger i) = Inr gates \<longrightarrow> list_all snd gates) \<and>
     (\<forall>gates. recalibration_part (ri_recalibration i) (ri_protocol i) (ri_candidates i) = Inr gates \<longrightarrow> list_all snd gates)"

text \<open>
  the next batch is prepared only behind a stable one, and never started. If a review of a stability report of this
  program's own returns, it passes exactly when that batch was in its window and sound, the review, recalibration and
  candidate gates hold, and the dry run, when there is a report of one, injected once per candidate and all its gates
  hold; its decision is then the one that asks for the dry run or, with the report, the one that has it. No outcome
  of the review allows a real run, a full run or a claim of an effect.
\<close>

theorem readiness_needs_stable_batch:
  assumes "batch_stability_report rp num ntext now rows target mn mx = Inr (ri_stability i)"
    and "batch3_readiness_report rp now' i = Inr r"
  shows "let ready = (mn \<le> int (length rows) \<and> int (length rows) \<le> mx \<and> sound_batch rp rows \<and> parts_hold i \<and>
        (\<forall>d gates. ri_dry_run i = Some d \<longrightarrow> dry_run_part d (length (ri_candidates i)) = Inr gates \<longrightarrow> list_all snd gates)) in
    dict_get r ''passed'' = Some (JBool ready) \<and>
    dict_get r ''decision'' = Some (JStr (if \<not> ready then ''batch3_readiness_blocked''
      else if ri_dry_run i = None then ''batch3_readiness_recalibration_ready_live_feature_dry_run_required''
      else ''batch3_readiness_live_feature_dry_run_ready_external_run_not_authorized'')) \<and>
    (\<exists>policy. dict_get r ''continuation_policy'' = Some (JObj policy) \<and>
       dict_get policy ''allow_live_hook_runner_preflight'' = Some (JBool (ready \<and> ri_dry_run i \<noteq> None)) \<and>
       (\<forall>k \<in> {''allow_batch3_real_run'', ''allow_batch3_static_prefix_run'', ''allow_full_64_unattended'',
          ''allow_intervention_effect_claim'', ''allow_efe_str_predictive_claim''}. dict_get policy k = Some (JBool False)))"
proof -
  from assms(2) obtain gates summary where gates: "readiness_gates i = Inr gates"
    and r: "r = generate_report now' (Some ''3.19.batch3_readiness'') (Some (readiness_decision gates (ri_dry_run i))) gates
       [(''version'', JStr BATCH3_VERSION), (''claim_boundary'', JStr READINESS_BOUNDARY), (''readiness_summary'', summary),
        (''continuation_policy'', JObj (readiness_policy gates (ri_dry_run i)))] None"
    unfolding batch3_readiness_report_def by (elim and_then_InrE) auto
  from gates obtain g1 g2 g3 g4 where g: "stability_part (ri_stability i) = Inr g1" "trigger_part (ri_trigger i) = Inr g2"
    "recalibration_part (ri_recalibration i) (ri_protocol i) (ri_candidates i) = Inr g3"
    "opt_gates (\<lambda>r. dry_run_part r (length (ri_candidates i))) (ri_dry_run i) = Inr g4" "gates = g1 @ g2 @ g3 @ g4"
    unfolding readiness_gates_def by (elim and_then_InrE) auto
  define ready where "ready \<longleftrightarrow> mn \<le> int (length rows) \<and> int (length rows) \<le> mx \<and> sound_batch rp rows \<and> parts_hold i \<and>
        (\<forall>d gates. ri_dry_run i = Some d \<longrightarrow> dry_run_part d (length (ri_candidates i)) = Inr gates \<longrightarrow> list_all snd gates)"
  have "list_all snd g1 \<longleftrightarrow> mn \<le> int (length rows) \<and> int (length rows) \<le> mx \<and> sound_batch rp rows"
    using stability_part_of_report [OF assms(1)] g(1) by auto
  moreover have "list_all snd g4 \<longleftrightarrow>
      (\<forall>d gates. ri_dry_run i = Some d \<longrightarrow> dry_run_part d (length (ri_candidates i)) = Inr gates \<longrightarrow> list_all snd gates)"
    using g(4) by (cases "ri_dry_run i") (auto simp: opt_gates_def)
  ultimately have iff: "list_all snd gates \<longleftrightarrow> ready" using g(2,3,5) by (auto simp: ready_def parts_hold_def)
  note p = readiness.passed_iff [where x = "(gates, ri_dry_run i)" and now = now' and phase = "Some ''3.19.batch3_readiness''",
      unfolded prod.case fst_conv]
  have passed: "readiness_decision gates (ri_dry_run i) \<noteq> ''batch3_readiness_blocked'' \<longleftrightarrow> ready"
    by (simp add: readiness_decision_def iff)
  have fields: "dict_get r ''decision'' = Some (JStr (readiness_decision gates (ri_dry_run i)))" "dict_get r ''passed'' = Some (JBool ready)"
    "dict_get r ''continuation_policy'' = Some (JObj (readiness_policy gates (ri_dry_run i)))"
    using p passed by (simp_all add: r report_extra)
  show ?thesis
    unfolding Let_def ready_def [symmetric] fields
    by (simp add: readiness_decision_def readiness_policy_def iff Let_def) (simp add: dict_get_def)
qed

definition quiet_inputs :: "json pydict \<Rightarrow> readiness_inputs" where
  "quiet_inputs stability = \<lparr>ri_stability = stability, ri_trigger = [], ri_recalibration = [], ri_protocol = [], ri_candidates = [],
     ri_dry_run = None\<rparr>"

lemma quiet_review: "batch_stability_report rp num ntext now rows target mn mx = Inr s \<Longrightarrow>
  \<exists>r. batch3_readiness_report rp now' (quiet_inputs s) = Inr r"
proof -
  assume s: "batch_stability_report rp num ntext now rows target mn mx = Inr s"
  then obtain gates where "stability_part s = Inr gates" using stability_part_of_report by blast
  moreover from s obtain sm where "get_dict s ''stability_summary'' = stability_json num sm"
    by (auto simp: batch_stability_report_def Let_def get_dict_def report_extra elim!: and_then_InrE)
  moreover from s obtain st where "dict_get s ''continuation_policy'' = Some (JObj st)"
    by (rule stability_report_unfold)
  ultimately show ?thesis
    by (simp add: batch3_readiness_report_def readiness_gates_def readiness_summary_def quiet_inputs_def trigger_part_def recalibration_part_def
        opt_gates_def get_in_def stability_json_def get_dict_def [of "[]"] get_dict_def [of s "''continuation_policy''"] dict_get_def [of "[]"] Let_def)
qed

theorem readiness_needs_stable_batch_witness:
  "\<exists>s r. batch3_readiness_report (\<lambda>_. []) [] (quiet_inputs s) = Inr r \<and>
     batch_stability_report (\<lambda>_. []) (\<lambda>_. JNull) (\<lambda>_. []) [] [Batch_Stability.demo_row POSITIVE_LABEL True False True] 1 1 8 = Inr s \<and>
     dict_get r ''decision'' = Some (JStr ''batch3_readiness_blocked'')"
proof -
  obtain s where s: "batch_stability_report (\<lambda>_. []) (\<lambda>_. JNull) (\<lambda>_. []) [] [Batch_Stability.demo_row POSITIVE_LABEL True False True] 1 1 8 = Inr s"
    using demo_batch_reported by blast
  from quiet_review [OF s] obtain r where r: "batch3_readiness_report (\<lambda>_. []) [] (quiet_inputs s) = Inr r" by blast
  have "batch_stability_report (\<lambda>_. []) (\<lambda>_. JNull) (\<lambda>_. []) [] [Batch_Stability.demo_row POSITIVE_LABEL True False True] 1 1 8 =
      Inr (ri_stability (quiet_inputs s))" using s by (simp add: quiet_inputs_def)
  moreover have "\<not> parts_hold (quiet_inputs s)"
    by (simp add: parts_hold_def trigger_part_def quiet_inputs_def get_in_def get_dict_def dict_get_def field_bool_def)
  ultimately have "dict_get r ''decision'' = Some (JStr ''batch3_readiness_blocked'')"
    using readiness_needs_stable_batch [OF _ r] by (simp add: Let_def)
  with s r show ?thesis by blast
qed

end
