(* ===== verification/Spec2Isabelle.thy ===== *)
theory Spec2Isabelle
  imports Replay Golden_Eval Queue_Properties Claim_Protocol Api_Properties Run_Metrics Otel_Spans Iso_Time Noise_Floor Protocol_V2_Hook Batch_Runner State_Snapshot Manipulation_Checks Evidence_Manifest Route_B1_Plan Batch_Stability Sensitivity Target_Hygiene Paired_Fork Prescription_Dry_Run Oracle_Capsule Scorecard Instance_Validity Batch_Readiness
begin

text \<open>
  A verification library of the agent runtime observatory.

  \<^bold>\<open>The program.\<close> Two halves share one repository. The \<^emph>\<open>runtime\<close> half executes scripted agent
  runs under a policy, records every step, replays recorded traces, stores runs, works off a queue and
  serves them over HTTP; what a policy sends to a human becomes review debt that an attestation may
  clear. The \<^emph>\<open>clinic\<close> half studies recorded agent trajectories and runs paired experiments on them:
  it diagnoses prefixes, plans pairs of a control and an intervention arm, constrains the intervention
  arm through hooks that read closed protocols, follows a batch of pairs through its stages, and keeps
  every claim behind gates whose reports are hashed and chained. All paths below are under \<open>src/\<close>;
  the runtime is in \<open>packages/schema\<close>, \<open>packages/runtime\<close>, \<open>packages/telemetry\<close>, \<open>packages/evals\<close>
  and \<open>apps\<close>, the clinic in \<open>packages/clinic/src/wutai_clinic\<close>.

  \<^bold>\<open>Vocabulary.\<close> \<open>Prelude\<close> has Python's strings (UTF-8 byte lists), ordered dictionaries
  (association lists) and exceptions; \<open>Py_Numbers\<close> rounding, \<open>Py_Lines\<close> \<open>splitlines\<close> and integer
  texts, \<open>Iso_Time\<close> ISO timestamps, \<open>Url_Parse\<close> the part of \<open>urlparse\<close> in use, \<open>Json_Canon\<close> JSON
  values and the canonical serialisation of \<open>aro_schema/digests.py\<close>, \<open>Clinic_Json\<close> untyped payloads
  (\<open>get\<close>, truthiness, \<open>or\<close>, \<open>str\<close>), the searches for forbidden keys and words and
  \<open>stable_json_hash\<close>. Statements that may raise are sequenced by \<open>and_then\<close> and \<open>raise_if\<close>; an
  exception is the value \<open>Inl e\<close>.

  \<^bold>\<open>The runtime.\<close>
  \<^item> \<open>Schema_Models\<close>, \<open>Script_Model\<close>: the Pydantic classes of \<open>models.py\<close> and \<open>script.py\<close> as records
    with their validators; \<open>run_verdict\<close> is an instance of \<open>linorder\<close>.
  \<^item> \<open>Policy_Engine\<close> (\<open>policy.py\<close>), \<open>Workspace_Tools\<close> (\<open>tools.py\<close>), \<open>Run_Executor\<close>
    (\<open>executor.py\<close>): a step is resolved, gated, run and recorded by \<open>exec_step\<close> over the state
    \<open>exec_state\<close>. \<open>Executor_Facts\<close> and \<open>Run_Properties\<close> show the loop invariants, that finished
    runs are valid and complete, that a denied step has no effect, and that two executions differing
    only in clock readings record the same things.
  \<^item> \<open>Trace_Log\<close> (\<open>trace.py\<close>) and \<open>Replay\<close> (\<open>replay.py\<close>): the trace file is a text, written a line per
    event and read by \<open>load_trace_file\<close>; \<open>load_trace\<close> is its loop over typed events. An honest trace file
    whose lines are not broken up by \<open>splitlines\<close> replays clean, a tampered step is reported, and a report is
    clean exactly when the two runs agree on what replay observes.
  \<^item> \<open>Review_Debt\<close> (\<open>review_debt.py\<close>): the subject digest binds what was reviewed; the debt is what no
    fresh attestation clears.
  \<^item> \<open>Run_Store\<close> (\<open>store.py\<close>, \<open>pg_store.py\<close>): both backends as operations on tables. The locale
    \<open>run_store\<close> states what the worker may assume of a store, \<open>review_store\<close> extends it with the
    attestation operations; both are interpreted on the SQLite and on the Postgres operations. A row holds
    the value its JSON payload stands for; the identity invariants are checked again on reading.
    \<open>Claim_Protocol\<close> interleaves the two halves of concurrent Postgres claims as the step relation
    \<open>claim_step\<close>.
  \<^item> \<open>Example_Runs\<close>, \<open>Queue_Worker\<close>, \<open>Queue_Properties\<close> (\<open>examples.py\<close>, \<open>apps/worker\<close>): one call of the
    worker settles exactly one item; attempts are bounded over every interleaving (\<open>queue_step\<close>), the
    queue drains, and a sequence of worker calls after injected failures ends in success or a dead letter.
  \<^item> \<open>Api_Service\<close>, \<open>Api_Properties\<close> (\<open>apps/api\<close>): the handlers over the store interface; the guards of
    an attestation, the limiter's bound, and the equality of queued and synchronous runs.
  \<^item> \<open>Run_Metrics\<close>, \<open>Otel_Spans\<close>, \<open>Golden_Eval\<close>: the hooks' counters and gauges, the spans of a run, the
    golden-task gate.

  \<^bold>\<open>The clinic.\<close>
  \<^item> Closed protocols: \<open>Protocol_V1\<close>, \<open>Protocol_V2\<close>, \<open>Protocol_B1\<close> and \<open>Replay_Protocol\<close> (version 0) parse
    untyped payloads, refuse executable keys at any depth, and print what they accept so that it is
    read back.
  \<^item> Hooks: \<open>Action_Gate\<close> is the contract of a gate asked before every action and told after it, as the
    locale \<open>action_gate\<close> over whole episodes; \<open>Protocol_V1_Hook\<close> and \<open>Protocol_V2_Hook\<close> are its
    interpretations. \<open>Injection_Once\<close> is the contract of a hook that injects at most one message, the
    locale \<open>injecting_hook\<close>, interpreted on the two hooks of \<open>Policy_Hooks\<close> (\<open>hooks.py\<close>) and on the
    latch that the simulations use. \<open>Issue_Repro\<close> extracts and scans the payload that
    \<open>Protocol_B1_Hook\<close> injects.
  \<^item> Replay and fork: \<open>Hybrid_Runner\<close> (\<open>hybrid_runner.py\<close>) replays a frozen prefix and then delegates, its
    hook takes a state capsule at the first generated query; \<open>Paired_Fork\<close> (\<open>paired_fork.py\<close>) runs both
    arms from the same prefix and reports whether the fork is sound.
  \<^item> Batches: \<open>Pair_State\<close> infers the state of a pair from the reports on disk, \<open>Batch_Runner\<close> advances
    the offline steps, \<open>State_Snapshot\<close> copies and restores declared files, \<open>Manipulation_Checks\<close> and
    \<open>Sensitivity\<close> gate the analysis, \<open>Power_Analysis\<close> and \<open>Noise_Floor\<close> size it.
  \<^item> Evidence: \<open>Evidence_Chain\<close> orders and runs nodes, \<open>Evidence_Gates\<close> has the standard gates,
    \<open>Evidence_Manifest\<close> the hash manifests, \<open>Evidence_Report\<close> the report dictionaries with the locale
    \<open>gated_report\<close> (a report passes iff every gate does).
  \<^item> From trajectories to decisions: \<open>Diagnosis\<close> (reasons and scores of prefixes), \<open>Intervention_Planner\<close>
    (quotas, pairs, arms), \<open>Pair_Attribution\<close>, \<open>Batch_Stability\<close> (with the closed loop),
    \<open>Route_B1\<close> and \<open>Route_B1_Plan\<close> (the Route B probe), \<open>Batch_Outcomes\<close> and \<open>V1_Outcomes\<close> (the
    outcome reports of version 2 and version 1 batches), \<open>Prescription_Dry_Run\<close> (the plans made from
    them and their dry runs), \<open>Batch_Readiness\<close> (the review before the next batch), \<open>Mechanistic_Endpoints\<close> and
    \<open>Instance_Validity\<close> (secondary endpoints and the voiding rule), \<open>Oracle_Capsule\<close> (the contaminated
    oracle probe: what its guidance tells of the gold patch), \<open>Scorecard\<close> (cards and the scoring of suites).
  \<^item> Training data: \<open>Window_Str\<close> (the recurrence score of a window), \<open>Trajectory_Pruner\<close>, \<open>Tool_Grammar\<close>
    (canonical tool calls and the grammar gate), \<open>Target_Hygiene\<close>.

  \<^bold>\<open>Parameters.\<close> What is not code of this repository is an argument of the definitions that use it:
  SHA-256 and MD5 (\<open>h\<close>, \<open>md5\<close>), \<open>repr\<close> of containers (\<open>rp\<close>), the regular-expression engine on
  user-written patterns (\<open>re_search\<close>), the clocks, \<open>json.loads\<close>, Pydantic's dump and validation of one trace
  event (\<open>trace_json\<close>), the similarity of \<open>difflib\<close>, Python's \<open>ast.parse\<close> and \<open>ast.literal_eval\<close>,
  the command runner and the container's executor, the agent, the file system.
  Patterns that are constants of the source are written out as recognisers. No property assumes a
  law of a parameter beyond those its statement names.

  \<^bold>\<open>Numbers.\<close> Integers are unbounded as in Python. Floats are rationals (rates, durations, scores) or
  reals (probabilities, logarithms); rounding errors of the float format are not modelled, \<open>round\<close> is.

  \<^bold>\<open>Bounds.\<close> The searches of the code that carry a bound keep it: \<open>PAIR_GUARD\<close> (100000 pairs) and the 200
  bisection steps of the power analysis, the window of 5 turns of the pruner, the limiter's window of
  requests. Recursion is structural or proved to terminate everywhere else, so no fuel is needed: the depth-first ordering of
  the evidence chain is a recursion on the list of unvisited nodes, and the worker's loop is a step
  relation with a bound on the claims it can make.

  \<^bold>\<open>Not modelled.\<close> Reading and writing files other than traces and hash manifests (a definition takes what
  its files parse to and returns what would be written), FastAPI's routing, Pydantic's parsing, provider setup
  of tracing, the TypeScript dashboard. Of the clinic: the command line, the adapters that call SWE-agent and
  the official evaluation (process and container glue), the scripts, the HTML and SVG reports, the inventory of
  artifacts, the wave synthesis and the post-repair outcomes (reports over the files of one study), the typed
  trajectory classes and the analyzer that rests on them, the preparation of batches (fresh candidates and
  targets, pair inputs, planned and hook preflights: reports over files on disk), the runner and evaluator that
  drive the modelled hooks over stored candidates, and the check of workflow files. Texts that no branch reads
  (claim boundaries and notes of \<open>Batch_Runner\<close>, \<open>Noise_Floor\<close>, \<open>Manipulation_Checks\<close>, \<open>Sensitivity\<close>) are left
  out. White space and letter case follow Python on ASCII only.
\<close>

end
